(* ===== verification/Prelude.thy ===== *)
theory Prelude
  imports Main "HOL-Library.Multiset" "HOL-Library.Product_Lexorder"
begin

text \<open>
  Shared vocabulary of the development: money, errors as values, the JavaScript array
  operations the modelled code uses, and the generic lemmas on them.

  Money.  The code keeps amounts as \<open>decimal.js\<close> values that are written back with
  \<open>toMoneyString\<close> (\<open>apps/backend/src/shared/money.ts\<close>), and the database columns are
  \<open>numeric(14, 2)\<close>; every stored amount is therefore a whole number of cents below
  $10^{14}$ in absolute value, inside the range where a double is exact.  An amount is
  modelled as that whole number of cents.

  Errors.  A \<open>throw\<close> of \<open>apps/backend/src/shared/errors.ts\<close> is a value \<open>Inl e\<close> whose
  constructor is the factory that built it.  The services run every engine call inside a
  database transaction, so the state reached before a throw is dropped; the models
  return no state with an error.
\<close>

type_synonym cents = int

datatype error =
    BadRequest string
  | Conflict string
  | NotFound string
  | InternalInvariant string
  | PlainError string
  | Unprocessable string
  | ServiceUnavailable string
  | PersistenceError string

type_synonym 'a res = "error + 'a"

definition bind_res :: "'a res \<Rightarrow> ('a \<Rightarrow> 'b res) \<Rightarrow> 'b res" where
  "bind_res r f = (case r of Inl e \<Rightarrow> Inl e | Inr x \<Rightarrow> f x)"

lemma bind_res_simps [simp]:
  "bind_res (Inl e) f = Inl e"
  "bind_res (Inr x) f = f x"
  by (simp_all add: bind_res_def)

lemma bind_res_Inr_iff: "bind_res r f = Inr y \<longleftrightarrow> (\<exists>x. r = Inr x \<and> f x = Inr y)"
  by (cases r) auto

lemma bind_res_InrE:
  assumes "bind_res r f = Inr y"
  obtains x where "r = Inr x" and "f x = Inr y"
  using assms by (auto simp: bind_res_Inr_iff)

subsection \<open>Hint collections\<close>

text \<open>
  \<open>chip_simps\<close>: how an operation changes the money on a table or in a game;
  \<open>frame_simps\<close>: what an operation leaves alone.
\<close>

named_theorems chip_simps
named_theorems frame_simps

subsection \<open>Array operations of the source\<close>

text \<open>\<open>Array.prototype.findIndex\<close>, with \<open>None\<close> for \<open>-1\<close>.\<close>

fun findIndex :: "('a \<Rightarrow> bool) \<Rightarrow> 'a list \<Rightarrow> nat option" where
  "findIndex P [] = None"
| "findIndex P (x # xs) = (if P x then Some 0 else map_option Suc (findIndex P xs))"

lemma findIndex_None_iff: "findIndex P xs = None \<longleftrightarrow> (\<forall>x \<in> set xs. \<not> P x)"
  by (induction xs) auto

lemma findIndex_SomeD: "findIndex P xs = Some k \<Longrightarrow> k < length xs \<and> P (xs ! k)"
  by (induction xs arbitrary: k) (auto split: if_splits)

lemma findIndex_distinct_nth:
  "distinct xs \<Longrightarrow> k < length xs \<Longrightarrow> findIndex (\<lambda>v. v = xs ! k) xs = Some k"
  by (induction xs arbitrary: k) (auto simp: nth_Cons split: nat.splits)

text \<open>\<open>[...new Set(xs)]\<close>: the first occurrence of every element, in order.\<close>

definition js_set :: "'a list \<Rightarrow> 'a list" where
  "js_set xs = rev (remdups (rev xs))"

lemma set_js_set [simp]: "set (js_set xs) = set xs"
  by (simp add: js_set_def)

lemma distinct_js_set [simp]: "distinct (js_set xs)"
  by (simp add: js_set_def)

lemma js_set_distinct_id: "distinct xs \<Longrightarrow> js_set xs = xs"
  by (simp add: js_set_def distinct_remdups_id)

lemma js_set_Nil [simp]: "js_set [] = []"
  by (simp add: js_set_def)

text \<open>Numeric sort in descending order; equal numbers are the same number.\<close>

definition sort_desc :: "nat list \<Rightarrow> nat list" where
  "sort_desc xs = rev (sort xs)"

lemma set_sort_desc [simp]: "set (sort_desc xs) = set xs"
  by (simp add: sort_desc_def)

lemma length_sort_desc [simp]: "length (sort_desc xs) = length xs"
  by (simp add: sort_desc_def)

lemma mset_sort_desc [simp]: "mset (sort_desc xs) = mset xs"
  by (simp add: sort_desc_def)

lemma sort_desc_cong: "mset xs = mset ys \<Longrightarrow> sort_desc xs = sort_desc ys"
  unfolding sort_desc_def by (metis properties_for_sort mset_sort sorted_sort)

text \<open>The remainder operator takes the sign of its left operand.\<close>

definition js_rem :: "int \<Rightarrow> int \<Rightarrow> int" where
  "js_rem a b = sgn a * (\<bar>a\<bar> mod \<bar>b\<bar>)"

text \<open>
  Assignment through a reference found by \<open>Array.prototype.find\<close>: the first element
  that satisfies the predicate is replaced.
\<close>

fun update_first :: "('a \<Rightarrow> bool) \<Rightarrow> ('a \<Rightarrow> 'a) \<Rightarrow> 'a list \<Rightarrow> 'a list" where
  "update_first P f [] = []"
| "update_first P f (x # xs) = (if P x then f x # xs else x # update_first P f xs)"

lemma length_update_first [simp]: "length (update_first P f xs) = length xs"
  by (induction xs) auto

lemma update_first_absent: "\<forall>x \<in> set xs. \<not> P x \<Longrightarrow> update_first P f xs = xs"
  by (induction xs) auto

lemma map_update_first:
  "(\<And>x. g (f x) = g x) \<Longrightarrow> map g (update_first P f xs) = map g xs"
  by (induction xs) auto

lemma sum_list_update_first:
  fixes g :: "'a \<Rightarrow> int"
  shows "find P xs = Some x \<Longrightarrow>
    (\<Sum>y\<leftarrow>update_first P f xs. g y) = (\<Sum>y\<leftarrow>xs. g y) - g x + g (f x)"
  by (induction xs) (auto split: if_splits)

lemma set_update_first_subset:
  "set (update_first P f xs) \<subseteq> set xs \<union> f ` {x \<in> set xs. P x}"
  by (induction xs) auto

lemma find_SomeD: "find P xs = Some x \<Longrightarrow> x \<in> set xs \<and> P x"
  by (induction xs) (auto split: if_splits)

lemma find_None_iff: "find P xs = None \<longleftrightarrow> (\<forall>x \<in> set xs. \<not> P x)"
  by (induction xs) auto

lemma find_key_distinct:
  "distinct (map key xs) \<Longrightarrow> x \<in> set xs \<Longrightarrow> find (\<lambda>y. key y = key x) xs = Some x"
  by (induction xs) force+

text \<open>With distinct keys, updating the element with a key is a pointwise \<open>map\<close>.\<close>

lemma update_first_map:
  "distinct (map key xs) \<Longrightarrow>
    update_first (\<lambda>y. key y = k) f xs = map (\<lambda>y. if key y = k then f y else y) xs"
proof (induction xs)
  case (Cons x xs)
  then show ?case
    by (auto intro!: map_idI [symmetric] simp: image_iff)
qed simp

lemma sum_list_filter_split:
  fixes g :: "'a \<Rightarrow> int"
  shows "(\<Sum>x\<leftarrow>xs. g x) = (\<Sum>x\<leftarrow>filter P xs. g x) + (\<Sum>x\<leftarrow>filter (\<lambda>x. \<not> P x) xs. g x)"
  by (induction xs) auto

lemma mset_rotation: "mset (rotate k xs) = mset xs"
proof (induction k)
  case (Suc k)
  have "mset (rotate1 ys) = mset ys" for ys :: "'a list" by (cases ys) simp_all
  with Suc show ?case by simp
qed simp

lemma sum_list_zeroI:
  fixes g :: "'a \<Rightarrow> 'b::comm_monoid_add"
  shows "(\<And>x. x \<in> set xs \<Longrightarrow> g x = 0) \<Longrightarrow> (\<Sum>x\<leftarrow>xs. g x) = 0"
  by (induction xs) auto

lemma sum_list_congI:
  fixes g h :: "'a \<Rightarrow> 'b::comm_monoid_add"
  shows "(\<And>x. x \<in> set xs \<Longrightarrow> g x = h x) \<Longrightarrow> (\<Sum>x\<leftarrow>xs. g x) = (\<Sum>x\<leftarrow>xs. h x)"
  by (induction xs) auto

lemma member_le_sum_list_int:
  fixes g :: "'a \<Rightarrow> int"
  shows "(\<And>y. y \<in> set xs \<Longrightarrow> 0 \<le> g y) \<Longrightarrow> x \<in> set xs \<Longrightarrow> g x \<le> (\<Sum>y\<leftarrow>xs. g y)"
proof (induction xs)
  case (Cons a xs)
  have "0 \<le> (\<Sum>y\<leftarrow>xs. g y)" using Cons.prems(1) by (intro sum_list_nonneg) auto
  with Cons show ?case by force
qed simp

lemma sum_list_sort_key:
  fixes g :: "'a \<Rightarrow> int"
  shows "(\<Sum>x\<leftarrow>sort_key k xs. g x) = (\<Sum>x\<leftarrow>xs. g x)"
  by (metis mset_map mset_sort sum_mset_sum_list)

lemma sum_filter_if:
  fixes g :: "'a \<Rightarrow> 'b::comm_monoid_add"
  shows "(\<Sum>x\<leftarrow>filter P xs. g x) = (\<Sum>x\<leftarrow>xs. if P x then g x else 0)"
  by (induction xs) auto

lemma sum_sorted:
  fixes g :: "'a \<Rightarrow> 'b::comm_monoid_add"
  shows "(\<Sum>x\<leftarrow>sort_key k xs. g x) = (\<Sum>x\<leftarrow>xs. g x)"
  by (metis mset_map mset_sort sum_mset_sum_list)

lemma of_int_sum_list: "of_int (\<Sum>x\<leftarrow>xs. f x) = (\<Sum>x\<leftarrow>xs. of_int (f x) :: 'a::ring_1)"
  by (induction xs) simp_all

text \<open>Summing group by group, when every element falls into a listed group.\<close>

lemma sum_list_groups:
  fixes g :: "'a \<Rightarrow> 'b::comm_monoid_add"
  assumes "distinct ks" and "\<And>x. x \<in> set xs \<Longrightarrow> key x \<in> set ks"
  shows "(\<Sum>k\<leftarrow>ks. \<Sum>x\<leftarrow>filter (\<lambda>x. key x = k) xs. g x) = (\<Sum>x\<leftarrow>xs. g x)"
  using assms(2)
proof (induction xs)
  case Nil
  then show ?case by (simp add: sum_list_zeroI)
next
  case (Cons x xs)
  have one: "(\<Sum>k\<leftarrow>ks. if key x = k then g x else 0) = g x"
  proof -
    have "(\<Sum>k\<leftarrow>js. if key x = k then g x else 0) = (if key x \<in> set js then g x else 0)" if "distinct js" for js
      using that by (induction js) auto
    with assms(1) Cons.prems show ?thesis by simp
  qed
  have "(\<Sum>k\<leftarrow>ks. \<Sum>y\<leftarrow>filter (\<lambda>y. key y = k) (x # xs). g y) =
      (\<Sum>k\<leftarrow>ks. (if key x = k then g x else 0) + (\<Sum>y\<leftarrow>filter (\<lambda>y. key y = k) xs. g y))"
    by (intro sum_list_congI) simp
  with Cons one show ?case by (simp add: sum_list_addf)
qed

text \<open>
  The contract of a collection whose elements are found by a key and mutated in place
  through what \<open>find\<close> returned: an update touches the first element with the key.
\<close>

locale keyed_store =
  fixes entries :: "'s \<Rightarrow> 'e list"
    and key :: "'e \<Rightarrow> 'k"
    and upd :: "'k \<Rightarrow> ('e \<Rightarrow> 'e) \<Rightarrow> 's \<Rightarrow> 's"
  assumes entries_upd: "entries (upd k f s) = update_first (\<lambda>e. key e = k) f (entries s)"
begin

lemma keys_upd:
  "(\<And>e. key (f e) = key e) \<Longrightarrow> map key (entries (upd k f s)) = map key (entries s)"
  by (simp add: entries_upd map_update_first)

lemma entries_upd_map:
  "distinct (map key (entries s)) \<Longrightarrow>
     entries (upd k f s) = map (\<lambda>e. if key e = k then f e else e) (entries s)"
  by (simp add: entries_upd update_first_map)

lemma sum_upd:
  fixes g :: "'e \<Rightarrow> int"
  shows "find (\<lambda>e. key e = k) (entries s) = Some e \<Longrightarrow>
    (\<Sum>x\<leftarrow>entries (upd k f s). g x) = (\<Sum>x\<leftarrow>entries s. g x) - g e + g (f e)"
  by (simp add: entries_upd sum_list_update_first)

lemma sum_upd_same:
  fixes g :: "'e \<Rightarrow> int"
  shows "(\<And>e. g (f e) = g e) \<Longrightarrow> (\<Sum>x\<leftarrow>entries (upd k f s). g x) = (\<Sum>x\<leftarrow>entries s. g x)"
  by (simp add: entries_upd map_update_first)

lemma find_upd:
  assumes "\<And>e. key (f e) = key e"
  shows "find (\<lambda>e. key e = j) (entries (upd k f s)) =
     (if j = k then map_option f (find (\<lambda>e. key e = k) (entries s))
      else find (\<lambda>e. key e = j) (entries s))"
proof -
  have "find (\<lambda>e. key e = j) (update_first (\<lambda>e. key e = k) f es) =
     (if j = k then map_option f (find (\<lambda>e. key e = k) es) else find (\<lambda>e. key e = j) es)" for es
    by (induction es) (auto simp: assms)
  then show ?thesis by (simp add: entries_upd)
qed

lemma find_iff_mem:
  "distinct (map key (entries s)) \<Longrightarrow>
     find (\<lambda>e. key e = k) (entries s) = Some e \<longleftrightarrow> e \<in> set (entries s) \<and> key e = k"
  by (auto dest: find_SomeD intro: find_key_distinct)

end

subsection \<open>Comparators\<close>

text \<open>
  The contract of a comparison callback that returns a negative, zero or positive
  number.  Under it, the scan that keeps the best element so far returns a maximum, and
  the scan that also keeps ties returns exactly the maxima, in their order.
\<close>

fun keep_best :: "('a \<Rightarrow> 'a \<Rightarrow> int) \<Rightarrow> 'a \<Rightarrow> 'a list \<Rightarrow> 'a" where
  "keep_best cmp best [] = best"
| "keep_best cmp best (x # xs) =
     (if cmp x best > 0 then keep_best cmp x xs else keep_best cmp best xs)"

fun keep_winners :: "('a \<Rightarrow> 'a \<Rightarrow> int) \<Rightarrow> 'a list \<Rightarrow> 'a \<Rightarrow> 'a list \<Rightarrow> 'a list" where
  "keep_winners cmp ws best [] = ws"
| "keep_winners cmp ws best (x # xs) =
     (if cmp x best > 0 then keep_winners cmp [x] x xs
      else if cmp x best = 0 then keep_winners cmp (ws @ [x]) best xs
      else keep_winners cmp ws best xs)"

locale comparator =
  fixes cmp :: "'a \<Rightarrow> 'a \<Rightarrow> int"
  assumes cmp_refl: "cmp x x = 0"
    and cmp_swap: "cmp x y > 0 \<longleftrightarrow> cmp y x < 0"
    and cmp_trans: "cmp x y \<le> 0 \<Longrightarrow> cmp y z \<le> 0 \<Longrightarrow> cmp x z \<le> 0"
begin

lemma cmp_total: "cmp x y \<le> 0 \<or> cmp y x \<le> 0"
  using cmp_swap [of x y] by auto

lemma cmp_eq_swap: "cmp x y = 0 \<longleftrightarrow> cmp y x = 0"
  using cmp_swap [of x y] cmp_swap [of y x] by linarith

lemma keep_best_mem: "keep_best cmp best xs \<in> insert best (set xs)"
  by (induction xs arbitrary: best) auto

lemma keep_best_max: "y \<in> insert best (set xs) \<Longrightarrow> cmp y (keep_best cmp best xs) \<le> 0"
proof (induction xs arbitrary: best y)
  case Nil
  then show ?case by (simp add: cmp_refl)
next
  case (Cons x xs)
  show ?case
  proof (cases "cmp x best > 0")
    case True
    then have below: "cmp best x \<le> 0" using cmp_swap [of x best] by simp
    show ?thesis
    proof (cases "y = best")
      case True
      have "cmp x (keep_best cmp x xs) \<le> 0" by (rule Cons.IH) simp
      with below True \<open>cmp x best > 0\<close> show ?thesis by (auto intro: cmp_trans [of best x])
    next
      case False
      with Cons.prems have "y \<in> insert x (set xs)" by auto
      then have "cmp y (keep_best cmp x xs) \<le> 0" by (rule Cons.IH)
      with \<open>cmp x best > 0\<close> show ?thesis by simp
    qed
  next
    case False
    show ?thesis
    proof (cases "y = x")
      case True
      have "cmp best (keep_best cmp best xs) \<le> 0" by (rule Cons.IH) simp
      with False True show ?thesis by (auto intro: cmp_trans [of x best])
    next
      case yx: False
      with Cons.prems have "y \<in> insert best (set xs)" by auto
      then have "cmp y (keep_best cmp best xs) \<le> 0" by (rule Cons.IH)
      with False show ?thesis by simp
    qed
  qed
qed

lemma keep_winners_maxima:
  assumes "\<And>u. u \<in> set us \<Longrightarrow> cmp u best \<le> 0" and "best \<in> set us"
  shows "\<exists>m \<in> set (us @ xs). (\<forall>y \<in> set (us @ xs). cmp y m \<le> 0) \<and>
           keep_winners cmp (filter (\<lambda>w. cmp w best = 0) us) best xs
             = filter (\<lambda>y. cmp y m = 0) (us @ xs)"
  using assms
proof (induction xs arbitrary: best us)
  case Nil
  then show ?case by auto
next
  case (Cons x xs)
  note below = Cons.prems(1)
  consider (gt) "cmp x best > 0" | (eq) "cmp x best = 0" | (lt) "cmp x best < 0" by linarith
  then show ?case
  proof cases
    case gt
    have lt: "cmp u x < 0" if "u \<in> set us" for u
    proof -
      have ub: "cmp u best \<le> 0" by (rule below) (rule that)
      have "\<not> cmp x u \<le> 0"
      proof
        assume "cmp x u \<le> 0"
        from this ub have "cmp x best \<le> 0" by (rule cmp_trans)
        with gt show False by simp
      qed
      then show ?thesis using cmp_swap [of x u] by simp
    qed
    have none: "filter (\<lambda>w. cmp w x = 0) (us @ [x]) = [x]"
      using lt by (force simp: cmp_refl filter_empty_conv)
    have "\<And>u. u \<in> set (us @ [x]) \<Longrightarrow> cmp u x \<le> 0"
      using lt by (force simp: cmp_refl)
    from Cons.IH [of "us @ [x]" x, OF this, unfolded none] gt show ?thesis by simp
  next
    case eq
    have "\<And>u. u \<in> set (us @ [x]) \<Longrightarrow> cmp u best \<le> 0"
      using below eq by force
    from Cons.IH [of "us @ [x]" best, OF this] eq Cons.prems(2) show ?thesis by simp
  next
    case lt
    have "\<And>u. u \<in> set (us @ [x]) \<Longrightarrow> cmp u best \<le> 0"
      using below lt by force
    from Cons.IH [of "us @ [x]" best, OF this] lt Cons.prems(2) show ?thesis by simp
  qed
qed

lemma keep_winners_nonempty: "ws \<noteq> [] \<Longrightarrow> keep_winners cmp ws best xs \<noteq> []"
  by (induction xs arbitrary: ws best) auto

lemma keep_winners_subset: "set (keep_winners cmp ws best xs) \<subseteq> set ws \<union> set xs"
proof (induction xs arbitrary: ws best)
  case (Cons x xs)
  from Cons.IH [of "[x]" x] Cons.IH [of "ws @ [x]" best] Cons.IH [of ws best] show ?case
    by (simp split: if_split) blast
qed simp

lemma winners_are_maxima:
  "\<exists>m \<in> set (x # xs). (\<forall>y \<in> set (x # xs). cmp y m \<le> 0) \<and>
     keep_winners cmp [x] x xs = filter (\<lambda>y. cmp y m = 0) (x # xs)"
  using keep_winners_maxima [of "[x]" x xs] by (simp add: cmp_refl)

end

subsection \<open>Text\<close>

text \<open>Strings are lists of bytes.\<close>

text \<open>\<open>String.prototype.trim\<close> on the ASCII white space.\<close>

definition isSpace :: "char \<Rightarrow> bool" where
  "isSpace c = (c \<in> set [CHR '' '', CHR 0x09, CHR 0x0A, CHR 0x0B, CHR 0x0C, CHR 0x0D])"

definition js_trim :: "string \<Rightarrow> string" where
  "js_trim s = rev (dropWhile isSpace (rev (dropWhile isSpace s)))"

fun show_digits :: "nat \<Rightarrow> string" where
  "show_digits n =
     (if n < 10 then [char_of (48 + n)] else show_digits (n div 10) @ [char_of (48 + n mod 10)])"

declare show_digits.simps [simp del]

lemma show_digits_digits: "c \<in> set (show_digits n) \<Longrightarrow> (of_char c :: nat) \<in> {48..57}"
proof (induction n arbitrary: c rule: show_digits.induct)
  case (1 n)
  show ?case
  proof (cases "n < 10")
    case True
    with 1 show ?thesis by (simp add: show_digits.simps [of n])
  next
    case False
    then have "c \<in> set (show_digits (n div 10)) \<or> c = char_of (48 + n mod 10)"
      using 1(2) by (auto simp: show_digits.simps [of n])
    then show ?thesis
    proof
      assume "c = char_of (48 + n mod 10)"
      moreover have "n mod 10 < 10" by simp
      ultimately show ?thesis by simp
    qed (use 1(1) False in blast)
  qed
qed

lemma char_of_digit_inj: "a < 10 \<Longrightarrow> b < 10 \<Longrightarrow> (char_of (48 + a :: nat) = char_of (48 + b)) = (a = b)"
proof -
  assume "a < 10" "b < 10"
  then have "char_of (48 + a :: nat) = char_of (48 + b) \<Longrightarrow> a = b"
    by (drule_tac f = "of_char :: char \<Rightarrow> nat" in arg_cong) simp
  then show ?thesis by blast
qed

lemma show_digits_nonempty [simp]: "show_digits n \<noteq> []" "[] \<noteq> show_digits n"
  by (simp_all add: show_digits.simps [of n])

lemma show_digits_inj: "show_digits m = show_digits n \<Longrightarrow> m = n"
proof (induction m arbitrary: n rule: show_digits.induct)
  case (1 m)
  show ?case
  proof (cases "m < 10 \<or> n < 10")
    case True
    with 1(2) show ?thesis
      by (cases "m < 10"; cases "n < 10")
        (auto simp: show_digits.simps [of m] show_digits.simps [of n] char_of_digit_inj)
  next
    case False
    with 1(2) have "show_digits (m div 10) = show_digits (n div 10)"
      and "(char_of (48 + m mod 10 :: nat) :: char) = char_of (48 + n mod 10)"
      by (simp_all add: show_digits.simps [of m] show_digits.simps [of n])
    moreover have "m mod 10 < 10" "n mod 10 < 10" by simp_all
    ultimately have "m div 10 = n div 10" "m mod 10 = n mod 10"
      using 1(1) False by (auto simp: char_of_digit_inj)
    then show ?thesis by (metis div_mult_mod_eq)
  qed
qed

text \<open>A quicker evaluation of a digit.\<close>

definition digitChar :: "nat \<Rightarrow> char" where
  "digitChar n = ''0123456789'' ! n"

lemma char_of_digit: "n < 10 \<Longrightarrow> (char_of (48 + n) :: char) = digitChar n"
proof -
  assume "n < 10"
  then have "of_char (digitChar n) = 48 + n" by (simp add: digitChar_def nth_Cons')
  then show ?thesis by (metis char_of_char)
qed

lemma show_digits_code [code]:
  "show_digits n = (if n < 10 then [digitChar n] else show_digits (n div 10) @ [digitChar (n mod 10)])"
  by (simp add: char_of_digit show_digits.simps [of n])

end
