(* ===== verification/Holdem_Evaluator.thy ===== *)
theory Holdem_Evaluator
  imports Prelude "HOL-Library.Sublist"
begin

text \<open>
  The hand evaluator, \<open>apps/backend/src/modules/holdem/evaluator.ts\<close>, with the card
  types of \<open>apps/shared-types/src/holdem.ts\<close>.  Ranks and suits are the source's string
  enums; a strength is the source's array of numbers.
\<close>

subsection \<open>Cards\<close>

datatype card_suit = Spades | Hearts | Diamonds | Clubs

datatype card_rank =
    R2 | R3 | R4 | R5 | R6 | R7 | R8 | R9 | R10 | RJ | RQ | RK | RA

record card =
  rank :: card_rank
  suit :: card_suit

datatype hand_category =
    HighCard | OnePair | TwoPair | ThreeOfAKind | Straight | Flush
  | FullHouse | FourOfAKind | StraightFlush

fun categoryStrength :: "hand_category \<Rightarrow> nat" where
  "categoryStrength HighCard = 0"
| "categoryStrength OnePair = 1"
| "categoryStrength TwoPair = 2"
| "categoryStrength ThreeOfAKind = 3"
| "categoryStrength Straight = 4"
| "categoryStrength Flush = 5"
| "categoryStrength FullHouse = 6"
| "categoryStrength FourOfAKind = 7"
| "categoryStrength StraightFlush = 8"

fun categoryLabels :: "hand_category \<Rightarrow> string" where
  "categoryLabels HighCard = ''High card''"
| "categoryLabels OnePair = ''One pair''"
| "categoryLabels TwoPair = ''Two pair''"
| "categoryLabels ThreeOfAKind = ''Three of a kind''"
| "categoryLabels Straight = ''Straight''"
| "categoryLabels Flush = ''Flush''"
| "categoryLabels FullHouse = ''Full house''"
| "categoryLabels FourOfAKind = ''Four of a kind''"
| "categoryLabels StraightFlush = ''Straight flush''"

fun getRankValue :: "card_rank \<Rightarrow> nat" where
  "getRankValue R2 = 2"
| "getRankValue R3 = 3"
| "getRankValue R4 = 4"
| "getRankValue R5 = 5"
| "getRankValue R6 = 6"
| "getRankValue R7 = 7"
| "getRankValue R8 = 8"
| "getRankValue R9 = 9"
| "getRankValue R10 = 10"
| "getRankValue RJ = 11"
| "getRankValue RQ = 12"
| "getRankValue RK = 13"
| "getRankValue RA = 14"

record best_hand =
  category :: hand_category
  label :: string
  best_cards :: "card list"

text \<open>\<open>HoldemBestHandEvaluation\<close> extends the stored hand with the strength it is ranked by.\<close>

record best_hand_evaluation = best_hand +
  strength :: "nat list"

subsection \<open>Comparing strengths\<close>

text \<open>
  The loop runs up to the longer length and reads \<open>0\<close> past the end of the shorter array.
\<close>

fun compareStrength :: "nat list \<Rightarrow> nat list \<Rightarrow> int" where
  "compareStrength [] [] = 0"
| "compareStrength (l # ls) [] =
     (if l = 0 then compareStrength ls [] else if l > 0 then 1 else -1)"
| "compareStrength [] (r # rs) =
     (if 0 = r then compareStrength [] rs else if 0 > r then 1 else -1)"
| "compareStrength (l # ls) (r # rs) =
     (if l = r then compareStrength ls rs else if l > r then 1 else -1)"

definition compareHoldemBestHands :: "best_hand_evaluation \<Rightarrow> best_hand_evaluation \<Rightarrow> int" where
  "compareHoldemBestHands left right = compareStrength (strength left) (strength right)"

subsection \<open>Evaluating five cards\<close>

fun consecutive_desc :: "nat list \<Rightarrow> bool" where
  "consecutive_desc (x # y # ys) = (int x - int y = 1 \<and> consecutive_desc (y # ys))"
| "consecutive_desc _ = True"

definition resolveStraightHighCard :: "nat list \<Rightarrow> nat option" where
  "resolveStraightHighCard rankValues =
     (let uniqueValues = sort_desc (js_set rankValues)
      in if length uniqueValues \<noteq> 5 then None
         else if uniqueValues ! 0 = 14 \<and> tl uniqueValues = [5, 4, 3, 2] then Some 5
         else if consecutive_desc uniqueValues then Some (uniqueValues ! 0)
         else None)"

definition buildStrength :: "hand_category \<Rightarrow> nat list \<Rightarrow> nat list" where
  "buildStrength c kickers = categoryStrength c # kickers"

text \<open>One turn of the grouping loop: bump the count of a rank, or append it.\<close>

fun addToGroups :: "(nat \<times> nat) list \<Rightarrow> nat \<Rightarrow> (nat \<times> nat) list" where
  "addToGroups [] v = [(v, 1)]"
| "addToGroups ((w, n) # gs) v = (if w = v then (w, n + 1) # gs else (w, n) # addToGroups gs v)"

definition groupRanks :: "nat list \<Rightarrow> (nat \<times> nat) list" where
  "groupRanks ranks = foldl addToGroups [] ranks"

text \<open>Larger groups first, then higher ranks.\<close>

definition sortGroups :: "(nat \<times> nat) list \<Rightarrow> (nat \<times> nat) list" where
  "sortGroups groups = sort_key (\<lambda>(v, n). (- int n, - int v)) groups"

definition groupCount :: "(nat \<times> nat) list \<Rightarrow> nat \<Rightarrow> nat" where
  "groupCount gs i = (if i < length gs then snd (gs ! i) else 0)"

definition groupValue :: "(nat \<times> nat) list \<Rightarrow> nat \<Rightarrow> nat" where
  "groupValue gs i = (if i < length gs then fst (gs ! i) else 0)"

definition groupsOfSize :: "nat \<Rightarrow> (nat \<times> nat) list \<Rightarrow> nat list" where
  "groupsOfSize n gs = map fst (filter (\<lambda>g. snd g = n) gs)"

definition kickerOf :: "(nat \<times> nat) list \<Rightarrow> nat" where
  "kickerOf gs = (case find (\<lambda>g. snd g = 1) gs of None \<Rightarrow> 0 | Some g \<Rightarrow> fst g)"

definition makeHand :: "hand_category \<Rightarrow> card list \<Rightarrow> nat list \<Rightarrow> best_hand_evaluation" where
  "makeHand c cards kickers =
     \<lparr>category = c, label = categoryLabels c, best_cards = cards,
      strength = buildStrength c kickers\<rparr>"

definition evaluateFiveCardHand :: "card list \<Rightarrow> best_hand_evaluation" where
  "evaluateFiveCardHand cards =
     (let ranks = map (\<lambda>c. getRankValue (rank c)) cards;
          sortedRanks = sort_desc ranks;
          isFlush = (\<forall>c \<in> set cards. suit c = suit (hd cards));
          straightHighCard = resolveStraightHighCard sortedRanks;
          groupedRanks = sortGroups (groupRanks ranks);
          firstN = groupCount groupedRanks 0;
          secondN = groupCount groupedRanks 1;
          firstV = groupValue groupedRanks 0;
          secondV = groupValue groupedRanks 1
      in if isFlush \<and> straightHighCard \<noteq> None then
           makeHand StraightFlush cards [the straightHighCard]
         else if firstN = 4 then
           makeHand FourOfAKind cards [firstV, kickerOf groupedRanks]
         else if firstN = 3 \<and> secondN = 2 then
           makeHand FullHouse cards [firstV, secondV]
         else if isFlush then makeHand Flush cards sortedRanks
         else if straightHighCard \<noteq> None then
           makeHand Straight cards [the straightHighCard]
         else if firstN = 3 then
           makeHand ThreeOfAKind cards (firstV # sort_desc (groupsOfSize 1 groupedRanks))
         else if firstN = 2 \<and> secondN = 2 then
           makeHand TwoPair cards
             (sort_desc (groupsOfSize 2 groupedRanks) @ [kickerOf groupedRanks])
         else if firstN = 2 then
           makeHand OnePair cards (firstV # sort_desc (groupsOfSize 1 groupedRanks))
         else makeHand HighCard cards sortedRanks)"

subsection \<open>The best five of several cards\<close>

definition enumerateFiveCardCombos :: "card list \<Rightarrow> card list list" where
  "enumerateFiveCardCombos cards =
     (let n = length cards in
      [[cards ! a, cards ! b, cards ! c, cards ! d, cards ! e].
         a \<leftarrow> [0..<n - 4], b \<leftarrow> [a + 1..<n - 3], c \<leftarrow> [b + 1..<n - 2],
         d \<leftarrow> [c + 1..<n - 1], e \<leftarrow> [d + 1..<n]])"

definition evaluateBestHoldemHand :: "card list \<Rightarrow> best_hand_evaluation res" where
  "evaluateBestHoldemHand cards =
     (if length cards < 5 then
        Inl (PlainError ''Texas Hold'em evaluation requires at least 5 cards.'')
      else
        let combinations =
              (if length cards = 5 then [cards] else enumerateFiveCardCombos cards)
        in case map evaluateFiveCardHand combinations of
             [] \<Rightarrow> Inr (evaluateFiveCardHand (take 5 cards))
           | first # rest \<Rightarrow> Inr (keep_best compareHoldemBestHands first rest))"

subsection \<open>Comparing strengths is a total preorder\<close>

lemma compareStrength_refl: "compareStrength xs xs = 0"
  by (induction xs) auto

lemma compareStrength_swap: "compareStrength xs ys = - compareStrength ys xs"
  by (induction xs ys rule: compareStrength.induct) auto

lemma compareStrength_Nil_trans:
  "compareStrength xs [] \<le> 0 \<Longrightarrow> compareStrength xs ys \<le> 0"
proof (induction xs arbitrary: ys)
  case Nil
  then show ?case
    by (induction ys) auto
next
  case (Cons x xs)
  then show ?case by (cases ys) (auto split: if_splits)
qed

lemma compareStrength_Nil_le: "compareStrength [] ys \<le> 0"
  by (rule compareStrength_Nil_trans) simp

lemma compareStrength_trans:
  "compareStrength xs ys \<le> 0 \<Longrightarrow> compareStrength ys zs \<le> 0 \<Longrightarrow> compareStrength xs zs \<le> 0"
proof (induction xs ys arbitrary: zs rule: compareStrength.induct)
  case 1
  then show ?case by simp
next
  case (2 l ls)
  then show ?case by (auto intro: compareStrength_Nil_trans)
next
  case (3 r rs)
  then show ?case by (simp add: compareStrength_Nil_le)
next
  case (4 l ls r rs)
  then show ?case
    by (cases zs) (auto split: if_splits)
qed

lemma compareStrength_same_length:
  "length xs = length ys \<Longrightarrow> compareStrength xs ys = 0 \<Longrightarrow> xs = ys"
  by (induction xs ys rule: compareStrength.induct) (auto split: if_splits)

interpretation handOrder: comparator compareHoldemBestHands
proof
  fix x y z
  show "compareHoldemBestHands x x = 0"
    by (simp add: compareHoldemBestHands_def compareStrength_refl)
  show "(0 < compareHoldemBestHands x y) = (compareHoldemBestHands y x < 0)"
    using compareStrength_swap [of "strength x" "strength y"]
    by (simp add: compareHoldemBestHands_def)
  show "compareHoldemBestHands x y \<le> 0 \<Longrightarrow> compareHoldemBestHands y z \<le> 0 \<Longrightarrow>
      compareHoldemBestHands x z \<le> 0"
    unfolding compareHoldemBestHands_def by (rule compareStrength_trans)
qed

subsection \<open>The enumeration lists exactly the five-card subsequences\<close>

lemma subseq_Cons_nth:
  "subseq (x # xs) ys \<longleftrightarrow> (\<exists>i < length ys. ys ! i = x \<and> subseq xs (drop (Suc i) ys))"
proof
  assume "subseq (x # xs) ys"
  then obtain us v vs where ys: "ys = us @ v # vs" and "x = v" and sub: "subseq xs vs"
    by (auto dest: list_emb_ConsD)
  then show "\<exists>i < length ys. ys ! i = x \<and> subseq xs (drop (Suc i) ys)"
    by (intro exI [of _ "length us"]) auto
next
  assume "\<exists>i < length ys. ys ! i = x \<and> subseq xs (drop (Suc i) ys)"
  then obtain i where i: "i < length ys" "ys ! i = x" "subseq xs (drop (Suc i) ys)" by blast
  from i(3) have "subseq (x # xs) (x # drop (Suc i) ys)" by simp
  also have "x # drop (Suc i) ys = drop i ys"
    unfolding i(2) [symmetric] by (rule Cons_nth_drop_Suc) (rule i(1))
  also have "subseq (drop i ys) ys"
    by (rule suffix_imp_subseq) (rule suffix_drop)
  finally show "subseq (x # xs) ys" .
qed

lemma subseq_drop_Cons_nth:
  "subseq (x # xs) (drop k ys) \<longleftrightarrow>
    (\<exists>i. k \<le> i \<and> i < length ys \<and> ys ! i = x \<and> subseq xs (drop (Suc i) ys))"
proof -
  have "subseq (x # xs) (drop k ys) \<longleftrightarrow>
      (\<exists>j < length ys - k. ys ! (k + j) = x \<and> subseq xs (drop (Suc (k + j)) ys))"
    by (simp add: subseq_Cons_nth conj_commute add.commute cong: conj_cong)
  also have "\<dots> \<longleftrightarrow> (\<exists>i. k \<le> i \<and> i < length ys \<and> ys ! i = x \<and> subseq xs (drop (Suc i) ys))"
    by (metis add_diff_inverse_nat le_add1 less_diff_conv add.commute not_less)
  finally show ?thesis .
qed

lemma length5_conv: "length xs = 5 \<longleftrightarrow> (\<exists>a b c d e. xs = [a, b, c, d, e])"
  by (auto simp: numeral_eq_Suc length_Suc_conv)

lemma set_enumerateFiveCardCombos:
  "set (enumerateFiveCardCombos cards) = {xs. subseq xs cards \<and> length xs = 5}"
proof (intro set_eqI)
  fix xs
  let ?n = "length cards"
  have "xs \<in> set (enumerateFiveCardCombos cards) \<longleftrightarrow>
      (\<exists>a \<in> {0..<?n - 4}. \<exists>b \<in> {a + 1..<?n - 3}. \<exists>c \<in> {b + 1..<?n - 2}.
        \<exists>d \<in> {c + 1..<?n - 1}. \<exists>e \<in> {d + 1..<?n}.
        xs = [cards ! a, cards ! b, cards ! c, cards ! d, cards ! e])"
    unfolding enumerateFiveCardCombos_def Let_def by (simp add: image_iff)
  also have "\<dots> \<longleftrightarrow>
      (\<exists>a b c d e. a < b \<and> b < c \<and> c < d \<and> d < e \<and> e < length cards \<and>
        xs = [cards ! a, cards ! b, cards ! c, cards ! d, cards ! e])"
  proof
    assume "\<exists>a b c d e. a < b \<and> b < c \<and> c < d \<and> d < e \<and> e < length cards \<and>
        xs = [cards ! a, cards ! b, cards ! c, cards ! d, cards ! e]"
    then obtain a b c d e where o: "a < b" "b < c" "c < d" "d < e" "e < length cards"
      and xs: "xs = [cards ! a, cards ! b, cards ! c, cards ! d, cards ! e]" by blast
    show "\<exists>a \<in> {0..<?n - 4}. \<exists>b \<in> {a + 1..<?n - 3}. \<exists>c \<in> {b + 1..<?n - 2}.
        \<exists>d \<in> {c + 1..<?n - 1}. \<exists>e \<in> {d + 1..<?n}.
        xs = [cards ! a, cards ! b, cards ! c, cards ! d, cards ! e]"
      by (rule bexI [of _ a], rule bexI [of _ b], rule bexI [of _ c], rule bexI [of _ d],
          rule bexI [of _ e]) (use o xs in auto)
  qed (elim bexE, intro exI conjI, auto)
  also have "\<dots> \<longleftrightarrow> subseq xs cards \<and> length xs = 5"
  proof
    assume "\<exists>a b c d e. a < b \<and> b < c \<and> c < d \<and> d < e \<and> e < length cards \<and>
        xs = [cards ! a, cards ! b, cards ! c, cards ! d, cards ! e]"
    then obtain a b c d e where o: "a < b" "b < c" "c < d" "d < e" "e < length cards"
      and xs: "xs = [cards ! a, cards ! b, cards ! c, cards ! d, cards ! e]" by blast
    have "subseq xs (drop 0 cards)"
      unfolding xs subseq_drop_Cons_nth using o
      by (intro exI [of _ a] exI [of _ b] exI [of _ c] exI [of _ d] exI [of _ e] conjI) auto
    then show "subseq xs cards \<and> length xs = 5" using xs by simp
  next
    assume xs: "subseq xs cards \<and> length xs = 5"
    then obtain p q r s t where eq: "xs = [p, q, r, s, t]" by (auto simp: length5_conv)
    from xs eq have "subseq [p, q, r, s, t] (drop 0 cards)" by simp
    then show "\<exists>a b c d e. a < b \<and> b < c \<and> c < d \<and> d < e \<and> e < length cards \<and>
        xs = [cards ! a, cards ! b, cards ! c, cards ! d, cards ! e]"
      unfolding subseq_drop_Cons_nth eq by (fastforce simp: Suc_le_eq)
  qed
  finally show "xs \<in> set (enumerateFiveCardCombos cards) \<longleftrightarrow>
      xs \<in> {xs. subseq xs cards \<and> length xs = 5}" by simp
qed

lemma subseq_full_length: "subseq xs ys \<Longrightarrow> length xs = length ys \<Longrightarrow> xs = ys"
  by (rule subseq_same_length)

lemma enumerate_nonempty:
  assumes "5 \<le> length cards" shows "enumerateFiveCardCombos cards \<noteq> []"
proof -
  have "subseq (take 5 cards) cards"
    by (rule prefix_imp_subseq) (rule take_is_prefix)
  with assms have "take 5 cards \<in> set (enumerateFiveCardCombos cards)"
    by (simp add: set_enumerateFiveCardCombos)
  then show ?thesis by force
qed

text \<open>The candidates the evaluator scans, and the result of the scan.\<close>

lemma evaluateBest_candidates:
  assumes "5 \<le> length cards"
  obtains combos first rest where
    "set combos = {xs. subseq xs cards \<and> length xs = 5}"
    and "map evaluateFiveCardHand combos = first # rest"
    and "evaluateBestHoldemHand cards = Inr (keep_best compareHoldemBestHands first rest)"
proof -
  let ?combos = "if length cards = 5 then [cards] else enumerateFiveCardCombos cards"
  have set: "set ?combos = {xs. subseq xs cards \<and> length xs = 5}"
    by (auto simp: set_enumerateFiveCardCombos dest: subseq_full_length)
  have "?combos \<noteq> []" using enumerate_nonempty [OF assms] by simp
  then obtain first rest where fr: "map evaluateFiveCardHand ?combos = first # rest"
    by (metis list.exhaust map_is_Nil_conv)
  have "evaluateBestHoldemHand cards = Inr (keep_best compareHoldemBestHands first rest)"
    using assms fr by (simp add: evaluateBestHoldemHand_def Let_def)
  with set fr show ?thesis by (rule that)
qed

subsection \<open>Rank groups\<close>

lemma addToGroups_fst:
  "set (map fst (addToGroups gs v)) = insert v (set (map fst gs))"
  by (induction gs v rule: addToGroups.induct) auto

lemma addToGroups_distinct:
  "distinct (map fst gs) \<Longrightarrow> distinct (map fst (addToGroups gs v))"
proof (induction gs v rule: addToGroups.induct)
  case (2 w n gs v)
  then show ?case using addToGroups_fst [of gs v] by auto
qed simp

lemma addToGroups_map_of:
  "map_of (addToGroups gs v) =
    (map_of gs)(v \<mapsto> (case map_of gs v of None \<Rightarrow> 1 | Some n \<Rightarrow> n + 1))"
  by (induction gs v rule: addToGroups.induct) (auto simp: fun_upd_twist)

lemma groupRanks_snoc: "groupRanks (xs @ [x]) = addToGroups (groupRanks xs) x"
  by (simp add: groupRanks_def)

lemma groupRanks_distinct: "distinct (map fst (groupRanks xs))"
proof (induction xs rule: rev_induct)
  case (snoc x xs)
  then show ?case by (simp only: groupRanks_snoc addToGroups_distinct)
qed (simp add: groupRanks_def)

lemma groupRanks_map_of:
  "map_of (groupRanks xs) v = (if v \<in> set xs then Some (count_list xs v) else None)"
proof (induction xs arbitrary: v rule: rev_induct)
  case (snoc x xs)
  then show ?case
    by (auto simp: groupRanks_snoc addToGroups_map_of count_notin)
qed (simp add: groupRanks_def)

lemma groupRanks_mem: "(v, n) \<in> set (groupRanks xs) \<longleftrightarrow> v \<in> set xs \<and> n = count_list xs v"
  using map_of_eq_Some_iff [OF groupRanks_distinct, of xs v n]
  by (auto simp: groupRanks_map_of split: if_splits)

lemma sum_addToGroups: "sum_list (map snd (addToGroups gs v)) = sum_list (map snd gs) + 1"
  by (induction gs v rule: addToGroups.induct) auto

lemma sum_groupRanks: "sum_list (map snd (groupRanks xs)) = length xs"
proof (induction xs rule: rev_induct)
  case (snoc x xs)
  then show ?case by (simp add: groupRanks_snoc sum_addToGroups)
qed (simp add: groupRanks_def)

lemma set_sortGroups [simp]: "set (sortGroups gs) = set gs"
  by (simp add: sortGroups_def)

lemma mset_sortGroups [simp]: "mset (sortGroups gs) = mset gs"
  by (simp add: sortGroups_def)

lemma sortGroups_sorted: "sorted (map (\<lambda>(v, n). (- int n, - int v)) (sortGroups gs))"
  by (simp add: sortGroups_def)

lemma sortGroups_groupRanks_cong:
  assumes "mset xs = mset ys"
  shows "sortGroups (groupRanks xs) = sortGroups (groupRanks ys)"
proof -
  have "set (groupRanks xs) = set (groupRanks ys)"
    using mset_eq_setD [OF assms] assms by (auto simp: groupRanks_mem simp flip: count_mset)
  then have m: "mset (groupRanks xs) = mset (groupRanks ys)"
    using groupRanks_distinct by (metis distinct_map set_eq_iff_mset_eq_distinct)
  have inj: "inj_on (\<lambda>(v, n). (- int n, - int v)) (set (groupRanks xs))"
    by (auto simp: inj_on_def)
  show ?thesis
    unfolding sortGroups_def
    by (rule sort_key_inj_key_eq) (use m inj in simp_all)
qed

text \<open>The group sizes of five cards: one of the seven partitions of five.\<close>

lemma sortGroups_sizes_desc: "sorted_wrt (\<ge>) (map snd (sortGroups gs))"
proof -
  have "sorted_wrt (\<lambda>p q. snd p \<ge> snd q) (sortGroups gs)"
    using sortGroups_sorted [of gs] unfolding sorted_map
    by (rule sorted_wrt_mono_rel [rotated]) (auto simp: less_eq_prod_def)
  then show ?thesis by (simp add: sorted_wrt_map)
qed

lemma sizes_partition_five:
  fixes ns :: "nat list"
  assumes "sorted_wrt (\<ge>) ns" and "\<forall>n \<in> set ns. 1 \<le> n" and "sum_list ns = 5"
  shows "ns \<in> {[5], [4, 1], [3, 2], [3, 1, 1], [2, 2, 1], [2, 1, 1, 1], [1, 1, 1, 1, 1]}"
proof -
  have "length ns \<le> sum_list ns"
    using assms(2) by (induction ns) auto
  with assms(3) have "length ns \<le> 5" by simp
  moreover have "length ns \<noteq> 0" using assms(3) by auto
  ultimately consider a where "ns = [a]" | a b where "ns = [a, b]" | a b c where "ns = [a, b, c]"
    | a b c d where "ns = [a, b, c, d]" | a b c d e where "ns = [a, b, c, d, e]"
    by (cases ns rule: remdups_adj.cases; cases "tl (tl ns)" rule: remdups_adj.cases;
        cases "tl (tl (tl (tl ns)))" rule: remdups_adj.cases) auto
  then show ?thesis
  proof cases
    case 5
    with assms have "a = 1 \<and> b = 1 \<and> c = 1 \<and> d = 1 \<and> e = 1" by simp
    with 5 show ?thesis by simp
  next
    case 4
    with assms have "a = 2 \<and> b = 1 \<and> c = 1 \<and> d = 1" by simp
    with 4 show ?thesis by simp
  next
    case 3
    with assms have "a = 3 \<and> b = 1 \<and> c = 1 \<or> a = 2 \<and> b = 2 \<and> c = 1" by simp presburger
    with 3 show ?thesis by auto
  next
    case 2
    with assms have "a = 4 \<and> b = 1 \<or> a = 3 \<and> b = 2" by simp presburger
    with 2 show ?thesis by auto
  next
    case 1
    with assms show ?thesis by simp
  qed
qed

lemma groupRanks_sizes:
  assumes "length ranks = 5"
  shows "map snd (sortGroups (groupRanks ranks))
    \<in> {[5], [4, 1], [3, 2], [3, 1, 1], [2, 2, 1], [2, 1, 1, 1], [1, 1, 1, 1, 1]}"
proof (rule sizes_partition_five)
  let ?gs = "sortGroups (groupRanks ranks)"
  show "sorted_wrt (\<ge>) (map snd ?gs)" by (rule sortGroups_sizes_desc)
  show "\<forall>n \<in> set (map snd ?gs). 1 \<le> n"
    by (auto simp: groupRanks_mem Suc_le_eq count_list_0_iff simp flip: neq0_conv)
  have "mset (map snd ?gs) = mset (map snd (groupRanks ranks))" by simp
  then have "sum_list (map snd ?gs) = sum_list (map snd (groupRanks ranks))"
    by (metis sum_mset_sum_list)
  with assms show "sum_list (map snd ?gs) = 5" by (simp add: sum_groupRanks)
qed

text \<open>A rank value occurs \<open>n\<close> times exactly when the groups have one of size \<open>n\<close>.\<close>

lemma count_in_sizes:
  "(\<exists>v \<in> set ranks. count_list ranks v = n) \<longleftrightarrow>
     n \<in> set (map snd (sortGroups (groupRanks ranks)))"
proof -
  have "n \<in> set (map snd (sortGroups (groupRanks ranks))) \<longleftrightarrow>
      (\<exists>v. (v, n) \<in> set (groupRanks ranks))" by force
  then show ?thesis by (auto simp: groupRanks_mem)
qed

lemma card_count_in_sizes:
  "card {v \<in> set ranks. count_list ranks v = n} =
     length (filter (\<lambda>m. m = n) (map snd (sortGroups (groupRanks ranks))))"
proof -
  let ?gs = "sortGroups (groupRanks ranks)"
  have d: "distinct (map fst ?gs)"
    using groupRanks_distinct [of ranks]
    by (metis mset_map mset_sortGroups mset_eq_imp_distinct_iff)
  have "{v \<in> set ranks. count_list ranks v = n} = set (map fst (filter (\<lambda>g. snd g = n) ?gs))"
    by (auto simp: image_iff groupRanks_mem)
  moreover have "distinct (map fst (filter (\<lambda>g. snd g = n) ?gs))"
    using d by (simp add: distinct_map_filter)
  ultimately have "card {v \<in> set ranks. count_list ranks v = n}
      = length (filter (\<lambda>g. snd g = n) ?gs)"
    by (metis distinct_card length_map)
  then show ?thesis by (simp add: filter_map comp_def)
qed

subsection \<open>Straights\<close>

lemma sort_desc_js_set_unique:
  assumes "sorted_wrt (>) us" and "set us = set xs"
  shows "sort_desc (js_set xs) = us"
proof -
  have "sorted_wrt (<) (rev us)" using assms(1) by (simp add: sorted_wrt_rev)
  then have "sorted (rev us)" "distinct (rev us)" by (simp_all add: strict_sorted_iff)
  then have "sort (js_set xs) = rev us"
    using assms(2) by (intro sorted_distinct_set_unique) (simp_all add: distinct_sort)
  then show ?thesis by (simp add: sort_desc_def)
qed

lemma sort_desc_js_set_props:
  "set (sort_desc (js_set xs)) = set xs \<and> sorted_wrt (>) (sort_desc (js_set xs))"
proof -
  have "sorted_wrt (<) (sort (js_set xs))" by (simp add: strict_sorted_iff)
  then show ?thesis by (simp add: sort_desc_def sorted_wrt_rev)
qed

lemma five_consecutive_set:
  fixes h :: nat assumes "4 \<le> h" shows "{h - 4..h} = {h, h - 1, h - 2, h - 3, h - 4}"
  using assms by auto

lemma resolveStraightHighCard_iff:
  "resolveStraightHighCard xs = Some h \<longleftrightarrow>
     h = 5 \<and> set xs = {2, 3, 4, 5, 14} \<or> 4 \<le> h \<and> set xs = {h - 4..h}"
proof
  let ?u = "sort_desc (js_set xs)"
  assume res: "resolveStraightHighCard xs = Some h"
  then have len: "length ?u = 5"
    by (auto simp: resolveStraightHighCard_def Let_def split: if_splits)
  then obtain a b c d e where u: "?u = [a, b, c, d, e]" unfolding length5_conv by blast
  have set: "set xs = {a, b, c, d, e}" using sort_desc_js_set_props [of xs] u by simp
  show "h = 5 \<and> set xs = {2, 3, 4, 5, 14} \<or> 4 \<le> h \<and> set xs = {h - 4..h}"
  proof (cases "a = 14 \<and> [b, c, d, e] = [5, 4, 3, 2]")
    case True
    with res set show ?thesis
      by (auto simp: resolveStraightHighCard_def Let_def u)
  next
    case False
    with res have "a = h" and "int a - int b = 1" "int b - int c = 1" "int c - int d = 1"
      "int d - int e = 1"
      by (auto simp: resolveStraightHighCard_def Let_def u split: if_splits)
    then have "4 \<le> h" "a = h" "b = h - 1" "c = h - 2" "d = h - 3" "e = h - 4" by linarith+
    with set show ?thesis by (simp add: five_consecutive_set)
  qed
next
  assume "h = 5 \<and> set xs = {2, 3, 4, 5, 14} \<or> 4 \<le> h \<and> set xs = {h - 4..h}"
  then consider (wheel) "h = 5" "set xs = {2, 3, 4, 5, 14}" | (run) "4 \<le> h" "set xs = {h - 4..h}"
    by blast
  then show "resolveStraightHighCard xs = Some h"
  proof cases
    case wheel
    then have "sort_desc (js_set xs) = [14, 5, 4, 3, 2]"
      by (intro sort_desc_js_set_unique) auto
    with wheel show ?thesis by (simp add: resolveStraightHighCard_def)
  next
    case run
    then have u: "sort_desc (js_set xs) = [h, h - 1, h - 2, h - 3, h - 4]"
      by (intro sort_desc_js_set_unique) (auto simp: five_consecutive_set)
    have "\<not> (h = 14 \<and> [h - 1, h - 2, h - 3, h - 4] = [5, 4, 3, 2])" by simp
    with run u show ?thesis by (auto simp: resolveStraightHighCard_def Let_def)
  qed
qed

lemma resolveStraightHighCard_cong:
  "set xs = set ys \<Longrightarrow> resolveStraightHighCard xs = resolveStraightHighCard ys"
  by (metis resolveStraightHighCard_iff option.exhaust)

subsection \<open>The reference classification of five cards\<close>

text \<open>
  What the nine hand categories mean, stated on the cards themselves: how often a rank
  occurs, whether the ranks form a run (the ace also counts low) and whether one suit is
  shared.  No sorting or grouping is involved.
\<close>

definition ranksOf :: "card list \<Rightarrow> nat list" where
  "ranksOf cards = map (\<lambda>c. getRankValue (rank c)) cards"

definition sharesSuit :: "card list \<Rightarrow> bool" where
  "sharesSuit cards = (\<forall>c \<in> set cards. \<forall>d \<in> set cards. suit c = suit d)"

definition isRun :: "card list \<Rightarrow> bool" where
  "isRun cards =
     (set (ranksOf cards) = {2, 3, 4, 5, 14} \<or>
      (\<exists>h \<in> set (ranksOf cards). 4 \<le> h \<and> set (ranksOf cards) = {h - 4..h}))"

definition hasKind :: "nat \<Rightarrow> card list \<Rightarrow> bool" where
  "hasKind n cards = (\<exists>v \<in> set (ranksOf cards). count_list (ranksOf cards) v = n)"

definition pairCount :: "card list \<Rightarrow> nat" where
  "pairCount cards = card {v \<in> set (ranksOf cards). count_list (ranksOf cards) v = 2}"

definition referenceCategory :: "card list \<Rightarrow> hand_category" where
  "referenceCategory cards =
     (if sharesSuit cards \<and> isRun cards then StraightFlush
      else if hasKind 4 cards then FourOfAKind
      else if hasKind 3 cards \<and> hasKind 2 cards then FullHouse
      else if sharesSuit cards then Flush
      else if isRun cards then Straight
      else if hasKind 3 cards then ThreeOfAKind
      else if pairCount cards = 2 then TwoPair
      else if pairCount cards = 1 then OnePair
      else HighCard)"

lemma isRun_iff: "isRun cards \<longleftrightarrow> resolveStraightHighCard (ranksOf cards) \<noteq> None"
proof
  assume "isRun cards"
  then consider "set (ranksOf cards) = {2, 3, 4, 5, 14}"
    | h where "4 \<le> h" "set (ranksOf cards) = {h - 4..h}"
    unfolding isRun_def by blast
  then have "\<exists>h. resolveStraightHighCard (ranksOf cards) = Some h"
    by cases (simp_all only: resolveStraightHighCard_iff, blast+)
  then show "resolveStraightHighCard (ranksOf cards) \<noteq> None" by blast
next
  assume "resolveStraightHighCard (ranksOf cards) \<noteq> None"
  then obtain h where "resolveStraightHighCard (ranksOf cards) = Some h" by blast
  then show "isRun cards"
    unfolding resolveStraightHighCard_iff isRun_def by auto
qed

lemma flush_test_iff:
  "cards \<noteq> [] \<Longrightarrow> (\<forall>c \<in> set cards. suit c = suit (hd cards)) \<longleftrightarrow> sharesSuit cards"
  by (cases cards) (auto simp: sharesSuit_def)

lemma resolveStraight_sort_desc:
  "resolveStraightHighCard (sort_desc xs) = resolveStraightHighCard xs"
  by (rule resolveStraightHighCard_cong) simp

lemma category_makeHand: "category (makeHand c cards kickers) = c"
  by (simp add: makeHand_def)

lemma strength_makeHand: "strength (makeHand c cards kickers) = buildStrength c kickers"
  by (simp add: makeHand_def)

lemma groupCount_sizes:
  "map snd gs = n # ns \<Longrightarrow> groupCount gs 0 = n \<and> groupCount gs 1 = (case ns of [] \<Rightarrow> 0 | m # _ \<Rightarrow> m)"
  by (cases gs; cases "tl gs") (auto simp: groupCount_def)

text \<open>
  The category of five cards is the one poker assigns: the scan over sorted rank
  groups agrees with the reference classification.
\<close>

theorem evaluateFive_category:
  assumes "length cards = 5"
  shows "category (evaluateFiveCardHand cards) = referenceCategory cards"
proof -
  let ?sizes = "map snd (sortGroups (groupRanks (ranksOf cards)))"
  have sizes: "?sizes \<in> {[5], [4, 1], [3, 2], [3, 1, 1], [2, 2, 1], [2, 1, 1, 1], [1, 1, 1, 1, 1]}"
    by (rule groupRanks_sizes) (simp add: ranksOf_def assms)
  have flush: "(\<forall>c \<in> set cards. suit c = suit (hd cards)) = sharesSuit cards"
    using assms by (intro flush_test_iff) auto
  have run: "resolveStraightHighCard (sort_desc (ranksOf cards)) \<noteq> None \<longleftrightarrow> isRun cards"
    by (simp add: isRun_iff resolveStraight_sort_desc)
  have kinds: "hasKind n cards \<longleftrightarrow> n \<in> set ?sizes" for n
    unfolding hasKind_def by (rule count_in_sizes)
  have pairs: "pairCount cards = length (filter (\<lambda>m. m = 2) ?sizes)"
    unfolding pairCount_def by (rule card_count_in_sizes)
  obtain n ns where eq: "?sizes = n # ns" using sizes by fastforce
  note counts = groupCount_sizes [OF eq]
  have "n # ns \<in> {[5], [4, 1], [3, 2], [3, 1, 1], [2, 2, 1], [2, 1, 1, 1], [1, 1, 1, 1, 1]}"
    using sizes eq by simp
  then show ?thesis
    unfolding evaluateFiveCardHand_def Let_def ranksOf_def [symmetric] flush
      referenceCategory_def kinds pairs run eq
    using counts
    by (cases "sharesSuit cards"; cases "isRun cards"; elim insertE emptyE)
      (simp_all add: category_makeHand split del: if_split)
qed

theorem evaluateFive_category_witness:
  "category (evaluateFiveCardHand
     [\<lparr>rank = RA, suit = Hearts\<rparr>, \<lparr>rank = R2, suit = Clubs\<rparr>, \<lparr>rank = R3, suit = Hearts\<rparr>,
      \<lparr>rank = R5, suit = Spades\<rparr>, \<lparr>rank = R4, suit = Hearts\<rparr>])
   = referenceCategory
     [\<lparr>rank = RA, suit = Hearts\<rparr>, \<lparr>rank = R2, suit = Clubs\<rparr>, \<lparr>rank = R3, suit = Hearts\<rparr>,
      \<lparr>rank = R5, suit = Spades\<rparr>, \<lparr>rank = R4, suit = Hearts\<rparr>]"
  by (rule evaluateFive_category) simp

text \<open>
  The order in which five cards are listed does not matter: a permutation has the same
  category and the same strength.
\<close>

theorem evaluateFive_permutation:
  assumes "mset cards = mset cards'"
  shows "category (evaluateFiveCardHand cards) = category (evaluateFiveCardHand cards')
       \<and> strength (evaluateFiveCardHand cards) = strength (evaluateFiveCardHand cards')"
proof -
  have set: "set cards = set cards'" using assms by (rule mset_eq_setD)
  have ranks: "mset (ranksOf cards) = mset (ranksOf cards')"
    using assms by (simp add: ranksOf_def)
  have sorted: "sort_desc (ranksOf cards) = sort_desc (ranksOf cards')"
    using ranks by (rule sort_desc_cong)
  have groups: "sortGroups (groupRanks (ranksOf cards)) = sortGroups (groupRanks (ranksOf cards'))"
    using ranks by (rule sortGroups_groupRanks_cong)
  have flush: "(\<forall>c \<in> set cards. suit c = suit (hd cards)) =
      (\<forall>c \<in> set cards'. suit c = suit (hd cards'))"
  proof (cases "cards = []")
    case True
    with set show ?thesis by simp
  next
    case False
    with set have "cards' \<noteq> []" by auto
    moreover have "sharesSuit cards = sharesSuit cards'" by (simp add: sharesSuit_def set)
    ultimately show ?thesis
      using flush_test_iff [OF False] flush_test_iff [of cards'] by simp
  qed
  show ?thesis
    unfolding evaluateFiveCardHand_def Let_def ranksOf_def [symmetric] sorted groups flush
    by (simp only: if_distrib [of category] if_distrib [of strength]
        category_makeHand strength_makeHand)
qed

theorem evaluateFive_permutation_witness:
  "strength (evaluateFiveCardHand
     [\<lparr>rank = RA, suit = Hearts\<rparr>, \<lparr>rank = R2, suit = Clubs\<rparr>, \<lparr>rank = RA, suit = Clubs\<rparr>])
   = strength (evaluateFiveCardHand
     [\<lparr>rank = R2, suit = Clubs\<rparr>, \<lparr>rank = RA, suit = Clubs\<rparr>, \<lparr>rank = RA, suit = Hearts\<rparr>])"
  by (rule evaluateFive_permutation [THEN conjunct2]) simp

text \<open>
  C37. The evaluator returns the evaluation of some five cards chosen from the ones it was
  given, and no five cards chosen from them are stronger.
\<close>

theorem evaluateBest_optimal:
  assumes "5 \<le> length cards"
  shows "\<exists>best. evaluateBestHoldemHand cards = Inr best \<and>
           (\<exists>xs. subseq xs cards \<and> length xs = 5 \<and> best = evaluateFiveCardHand xs) \<and>
           (\<forall>ys. subseq ys cards \<and> length ys = 5 \<longrightarrow>
              compareHoldemBestHands (evaluateFiveCardHand ys) best \<le> 0)"
proof -
  obtain combos first rest where set: "set combos = {xs. subseq xs cards \<and> length xs = 5}"
    and fr: "map evaluateFiveCardHand combos = first # rest"
    and ev: "evaluateBestHoldemHand cards = Inr (keep_best compareHoldemBestHands first rest)"
    using evaluateBest_candidates [OF assms] by blast
  have img: "insert first (set rest) = evaluateFiveCardHand ` {xs. subseq xs cards \<and> length xs = 5}"
    using arg_cong [OF fr, of set] by (simp add: set)
  show ?thesis
    using ev img handOrder.keep_best_mem [of first rest] handOrder.keep_best_max [of _ first rest]
    by blast
qed

theorem evaluateBest_optimal_witness:
  "\<exists>best. evaluateBestHoldemHand
     [\<lparr>rank = RA, suit = Hearts\<rparr>, \<lparr>rank = R2, suit = Clubs\<rparr>, \<lparr>rank = R3, suit = Hearts\<rparr>,
      \<lparr>rank = R5, suit = Spades\<rparr>, \<lparr>rank = R4, suit = Hearts\<rparr>, \<lparr>rank = RA, suit = Clubs\<rparr>] = Inr best"
  using evaluateBest_optimal [of
    "[\<lparr>rank = RA, suit = Hearts\<rparr>, \<lparr>rank = R2, suit = Clubs\<rparr>, \<lparr>rank = R3, suit = Hearts\<rparr>,
      \<lparr>rank = R5, suit = Spades\<rparr>, \<lparr>rank = R4, suit = Hearts\<rparr>, \<lparr>rank = RA, suit = Clubs\<rparr>]"]
  by auto

end
