(* ===== verification/Holdem_Model.thy ===== *)
theory Holdem_Model
  imports Holdem_Evaluator
begin

text \<open>
  The table state, \<open>apps/backend/src/modules/holdem/model.ts\<close> and the enums of
  \<open>apps/shared-types/src/holdem.ts\<close>.  The source keeps part of a seat and of a table in a
  nested \<open>metadata\<close> object; here its fields sit beside the columns.  Amounts are cents,
  points in time are milliseconds since the epoch, and a nullable field is an \<open>option\<close>.
  Fields that no operation of the engine reads or writes (the tournament bookkeeping of a
  seat, the standings and payouts of a tournament, the dealer feed, the linked group and
  the hand-history id) are left out.
\<close>

datatype seat_status = SeatWaiting | SeatActive | SeatFolded | SeatAllIn | SeatOut

datatype table_status = TableWaiting | TableActive

datatype table_type = Cash | Casual | Tournament

datatype tournament_status = Registering | Running | Completed

datatype street = Preflop | Flop | Turn | River | Showdown

datatype holdem_action = Fold | Check | Call | Bet | Raise | AllIn

datatype presence_state = Connected | Grace | Disconnected

record bot_metadata =
  enabled :: bool
  displayName :: string

record seat =
  seatIndex :: nat
  userId :: nat
  userEmail :: "string option"
  stackAmount :: cents
  committedAmount :: cents
  totalCommittedAmount :: cents
  seatStatus :: seat_status
  presenceHeartbeatAt :: "int option"
  disconnectGraceExpiresAt :: "int option"
  seatLeaseExpiresAt :: "int option"
  autoCashOutPending :: bool
  turnDeadlineAt :: "int option"
  holeCards :: "card list"
  lastAction :: "string option"
  sittingOut :: bool
  timeBankRemainingMs :: nat
  winner :: bool
  bestHand :: "best_hand option"
  bot :: "bot_metadata option"

record pot =
  potIndex :: nat
  mainPot :: bool
  amount :: cents
  rakeAmount :: cents
  eligibleSeatIndexes :: "nat list"
  winnerSeatIndexes :: "nat list"

record fairness =
  epoch :: int
  epochSeconds :: int
  commitHash :: string
  sourceCommitHash :: "string option"
  deckDigest :: string
  rngDigest :: string
  revealSeed :: "string option"
  revealedAt :: "int option"

record recent_hand =
  rh_handNumber :: nat
  rh_stage :: street
  rh_boardCards :: "card list"
  rh_potAmount :: cents
  rh_rakeAmount :: cents
  rh_winnerSeatIndexes :: "nat list"
  rh_winnerLabels :: "string list"
  rh_settledAt :: int

record table =
  tableId :: nat
  tableName :: string
  tableStatus :: table_status
  smallBlind :: cents
  bigBlind :: cents
  minimumBuyIn :: cents
  maximumBuyIn :: cents
  maxSeats :: nat
  tableType :: table_type
  tournamentStatus :: "tournament_status option"
  handNumber :: nat
  stage :: "street option"
  dealerSeatIndex :: "nat option"
  smallBlindSeatIndex :: "nat option"
  bigBlindSeatIndex :: "nat option"
  pendingActorSeatIndex :: "nat option"
  turnTimeBankStartsAt :: "int option"
  currentBet :: cents
  lastFullRaiseSize :: cents
  actedSeatIndexes :: "nat list"
  communityCards :: "card list"
  deck :: "card list"
  nextCardIndex :: nat
  fairnessSeed :: "string option"
  table_fairness :: "fairness option"
  revealedSeatIndexes :: "nat list"
  table_winnerSeatIndexes :: "nat list"
  resolvedPots :: "pot list"
  recentHands :: "recent_hand list"
  seats :: "seat list"

subsection \<open>Names and presence\<close>

definition isBotSeat :: "seat \<Rightarrow> bool" where
  "isBotSeat s = (case bot s of None \<Rightarrow> False | Some b \<Rightarrow> enabled b)"

text \<open>
  \<open>displayName\<close>: the bot's name, else the local part of the e-mail address cut at 18
  characters with an ellipsis (its three UTF-8 bytes), else \<open>User n\<close>.
\<close>

definition resolveSeatDisplayName :: "nat \<Rightarrow> string option \<Rightarrow> bot_metadata option \<Rightarrow> string" where
  "resolveSeatDisplayName uid email b =
     (let botName = (case b of None \<Rightarrow> [] | Some m \<Rightarrow> js_trim (displayName m));
          mail = (case email of None \<Rightarrow> [] | Some e \<Rightarrow> js_trim e);
          localPart = takeWhile (\<lambda>c. c \<noteq> CHR ''@'') mail;
          fallback = ''User '' @ show_digits uid
      in if botName \<noteq> [] then botName
         else if mail = [] then fallback
         else if localPart = [] then fallback
         else if length localPart > 18 then
           take 18 localPart @ [char_of (0xE2::nat), char_of (0x80::nat), char_of (0xA6::nat)]
         else localPart)"

definition resolveSeatPresenceState :: "seat \<Rightarrow> int \<Rightarrow> presence_state option" where
  "resolveSeatPresenceState s now =
     (if (case disconnectGraceExpiresAt s of None \<Rightarrow> False | Some g \<Rightarrow> g > now) then
        (if (case presenceHeartbeatAt s of None \<Rightarrow> False
             | Some h \<Rightarrow> now - h \<le> 2 * 10000 + 2000)
         then Some Connected else Some Grace)
      else if (case seatLeaseExpiresAt s of None \<Rightarrow> False | Some l \<Rightarrow> l > now)
      then Some Disconnected else None)"

text \<open>\<open>toTableState\<close> sorts the seats it loads by their index.\<close>

definition toTableState :: "table \<Rightarrow> seat list \<Rightarrow> table" where
  "toTableState row rows = row\<lparr>seats := sort_key seatIndex rows\<rparr>"

subsection \<open>Sample states\<close>

text \<open>
  A seat with a stack and an empty table with blinds of 1.00 and 2.00, the states the
  concrete instances of the properties are built from.
\<close>

definition sampleSeat :: "nat \<Rightarrow> cents \<Rightarrow> seat" where
  "sampleSeat i stack =
     \<lparr>seatIndex = i, userId = i + 1, userEmail = None, stackAmount = stack, committedAmount = 0,
      totalCommittedAmount = 0, seatStatus = SeatWaiting, presenceHeartbeatAt = None,
      disconnectGraceExpiresAt = None, seatLeaseExpiresAt = None, autoCashOutPending = False,
      turnDeadlineAt = None, holeCards = [], lastAction = None, sittingOut = False,
      timeBankRemainingMs = 0, winner = False, bestHand = None, bot = None\<rparr>"

definition sampleTable :: "seat list \<Rightarrow> table" where
  "sampleTable ss =
     \<lparr>tableId = 1, tableName = ''sample'', tableStatus = TableWaiting, smallBlind = 100,
      bigBlind = 200, minimumBuyIn = 4000, maximumBuyIn = 20000, maxSeats = 6, tableType = Cash,
      tournamentStatus = None, handNumber = 0, stage = None, dealerSeatIndex = None,
      smallBlindSeatIndex = None, bigBlindSeatIndex = None, pendingActorSeatIndex = None,
      turnTimeBankStartsAt = None, currentBet = 0, lastFullRaiseSize = 0, actedSeatIndexes = [],
      communityCards = [], deck = [], nextCardIndex = 0, fairnessSeed = None,
      table_fairness = None, revealedSeatIndexes = [], table_winnerSeatIndexes = [],
      resolvedPots = [], recentHands = [], seats = ss\<rparr>"

end
