(* ===== verification/Holdem_Seats.thy ===== *)
theory Holdem_Seats
  imports Holdem_Model
begin

text \<open>
  The seat and table primitives of \<open>apps/backend/src/modules/holdem/engine.ts\<close>: who is in
  the hand, who can act, moving chips between a stack and a commitment, the order of
  turns, and the bookkeeping of who has acted on a street.

  A seat object that the source mutates through a reference is updated by its index: the
  table's unique key on the seat index makes the index stand for the object.
\<close>

definition HOLDEM_MIN_PLAYERS :: nat where
  "HOLDEM_MIN_PLAYERS = 2"

definition sortSeatsByIndex :: "seat list \<Rightarrow> seat list" where
  "sortSeatsByIndex ss = sort_key seatIndex ss"

definition findSeatByIndex :: "table \<Rightarrow> nat option \<Rightarrow> seat option" where
  "findSeatByIndex st i =
     (case i of None \<Rightarrow> None | Some k \<Rightarrow> find (\<lambda>s. seatIndex s = k) (seats st))"

definition updateSeat :: "nat \<Rightarrow> (seat \<Rightarrow> seat) \<Rightarrow> table \<Rightarrow> table" where
  "updateSeat i f st = st\<lparr>seats := update_first (\<lambda>s. seatIndex s = i) f (seats st)\<rparr>"

definition isSeatInHand :: "seat \<Rightarrow> bool" where
  "isSeatInHand s =
     (seatStatus s = SeatActive \<or> seatStatus s = SeatAllIn \<or> seatStatus s = SeatFolded)"

definition isSeatActionable :: "seat \<Rightarrow> bool" where
  "isSeatActionable s = (seatStatus s = SeatActive \<and> stackAmount s > 0)"

definition isSeatEligibleForHand :: "seat \<Rightarrow> bool" where
  "isSeatEligibleForHand s = (\<not> sittingOut s \<and> stackAmount s > 0)"

definition listEligibleSeats :: "table \<Rightarrow> seat list" where
  "listEligibleSeats st = filter isSeatEligibleForHand (sortSeatsByIndex (seats st))"

definition listEligibleHumanSeats :: "table \<Rightarrow> seat list" where
  "listEligibleHumanSeats st = filter (\<lambda>s. \<not> isBotSeat s) (listEligibleSeats st)"

definition resolveMinimumRequiredPlayers :: "table \<Rightarrow> nat" where
  "resolveMinimumRequiredPlayers st = (if tableType st = Casual then 1 else HOLDEM_MIN_PLAYERS)"

definition isSoloHoldemState :: "table \<Rightarrow> bool" where
  "isSoloHoldemState st = (tableType st = Casual \<and> length (listEligibleSeats st) = 1)"

definition isNonFolded :: "seat \<Rightarrow> bool" where
  "isNonFolded s = (seatStatus s \<noteq> SeatFolded \<and> isSeatInHand s)"

definition listNonFoldedSeats :: "table \<Rightarrow> seat list" where
  "listNonFoldedSeats st = filter isNonFolded (sortSeatsByIndex (seats st))"

definition listActionableSeats :: "table \<Rightarrow> seat list" where
  "listActionableSeats st = filter isSeatActionable (sortSeatsByIndex (seats st))"

subsection \<open>Moving chips\<close>

definition awardToSeatStack :: "cents \<Rightarrow> seat \<Rightarrow> seat" where
  "awardToSeatStack a s = s\<lparr>stackAmount := stackAmount s + a\<rparr>"

definition subtractFromSeatStack :: "cents \<Rightarrow> seat \<Rightarrow> seat" where
  "subtractFromSeatStack a s =
     (if a \<le> 0 then s else s\<lparr>stackAmount := stackAmount s - a\<rparr>)"

text \<open>
  The amount actually moved, which the source returns to a caller that never reads it, is
  the drop in the stack.
\<close>

definition postFromStack :: "cents \<Rightarrow> seat \<Rightarrow> seat" where
  "postFromStack a s =
     (if a \<le> 0 then s
      else
        let transfer = min (stackAmount s) a;
            stackAfter = stackAmount s - transfer
        in s\<lparr>stackAmount := stackAfter,
             committedAmount := committedAmount s + transfer,
             totalCommittedAmount := totalCommittedAmount s + transfer,
             seatStatus := (if stackAfter = 0 then SeatAllIn else seatStatus s)\<rparr>)"

definition resetSettledBoardState :: "table \<Rightarrow> table" where
  "resetSettledBoardState st =
     st\<lparr>stage := None, communityCards := [], deck := [], nextCardIndex := 0,
        fairnessSeed := None, pendingActorSeatIndex := None, currentBet := 0,
        lastFullRaiseSize := 0, actedSeatIndexes := [], table_fairness := None,
        revealedSeatIndexes := [], table_winnerSeatIndexes := [], resolvedPots := []\<rparr>"

definition clearTableAfterCashout :: "table \<Rightarrow> table" where
  "clearTableAfterCashout st =
     (if seats st = [] then resetSettledBoardState (st\<lparr>tableStatus := TableWaiting\<rparr>) else st)"

definition canUserLeaveTable :: "table \<Rightarrow> nat \<Rightarrow> bool" where
  "canUserLeaveTable st uid =
     (case find (\<lambda>s. userId s = uid) (seats st) of
        None \<Rightarrow> False
      | Some s \<Rightarrow> \<not> (tableStatus st = TableActive \<and> isSeatInHand s))"

subsection \<open>The order of turns\<close>

definition nextSeatIndex :: "nat list \<Rightarrow> nat \<Rightarrow> nat option" where
  "nextSeatIndex ordered from =
     (if ordered = [] then None
      else case findIndex (\<lambda>v. v = from) ordered of
             Some k \<Rightarrow> Some (ordered ! ((k + 1) mod length ordered))
           | None \<Rightarrow>
               (case find (\<lambda>v. v > from) ordered of
                  Some v \<Rightarrow> Some v
                | None \<Rightarrow> Some (hd ordered)))"

definition firstSeatIndex :: "nat list \<Rightarrow> nat option" where
  "firstSeatIndex ordered = (case ordered of [] \<Rightarrow> None | i # _ \<Rightarrow> Some i)"

definition resolveNextDealerSeatIndex :: "table \<Rightarrow> nat option" where
  "resolveNextDealerSeatIndex st =
     (let eligible = map seatIndex (listEligibleSeats st)
      in if length eligible < resolveMinimumRequiredPlayers st then None
         else case dealerSeatIndex st of
                None \<Rightarrow> firstSeatIndex eligible
              | Some previousDealer \<Rightarrow> nextSeatIndex eligible previousDealer)"

definition resolveBlindSeats :: "table \<Rightarrow> nat \<Rightarrow> (nat option \<times> nat option) res" where
  "resolveBlindSeats st dealer =
     (let eligible = map seatIndex (listEligibleSeats st)
      in if length eligible < resolveMinimumRequiredPlayers st then
           Inl (Conflict ''At least two funded seats are required to start a hand.'')
         else if length eligible = 1 then Inr (None, None)
         else if length eligible = 2 then
           (case find (\<lambda>i. i \<noteq> dealer) eligible of
              None \<Rightarrow> Inl (InternalInvariant ''Big blind seat is missing.'')
            | Some bb \<Rightarrow> Inr (Some dealer, Some bb))
         else
           (case nextSeatIndex eligible dealer of
              None \<Rightarrow> Inl (InternalInvariant ''Blind seats are missing.'')
            | Some sb \<Rightarrow>
                (case nextSeatIndex eligible sb of
                   None \<Rightarrow> Inl (InternalInvariant ''Blind seats are missing.'')
                 | Some bb \<Rightarrow> Inr (Some sb, Some bb))))"

fun dealOrderLoop :: "nat list \<Rightarrow> nat \<Rightarrow> nat \<Rightarrow> nat list" where
  "dealOrderLoop eligible 0 current = []"
| "dealOrderLoop eligible (Suc k) current =
     current # dealOrderLoop eligible k
       (case nextSeatIndex eligible current of None \<Rightarrow> current | Some i \<Rightarrow> i)"

text \<open>The deal order as seat indexes; indexes with no seat are dropped.\<close>

definition resolveDealOrder :: "table \<Rightarrow> nat \<Rightarrow> nat list" where
  "resolveDealOrder st first =
     (let eligible = map seatIndex (listEligibleSeats st)
      in filter (\<lambda>i. findSeatByIndex st (Some i) \<noteq> None)
           (dealOrderLoop eligible (length eligible) first))"

subsection \<open>Who has acted on the street\<close>

definition markSeatActed :: "nat \<Rightarrow> table \<Rightarrow> table" where
  "markSeatActed i st =
     st\<lparr>actedSeatIndexes := sort (js_set (actedSeatIndexes st @ [i]))\<rparr>"

definition resetActedSeatsForNextResponse :: "nat \<Rightarrow> table \<Rightarrow> table" where
  "resetActedSeatsForNextResponse actor st =
     st\<lparr>actedSeatIndexes :=
          map seatIndex
            (filter (\<lambda>s. seatIndex s = actor \<and> seatStatus s = SeatActive)
              (sortSeatsByIndex (seats st)))\<rparr>"

definition hasRoundCompleted :: "table \<Rightarrow> bool" where
  "hasRoundCompleted st =
     (listActionableSeats st = [] \<or>
      (\<forall>s \<in> set (listActionableSeats st).
         seatIndex s \<in> set (actedSeatIndexes st) \<and> committedAmount s = currentBet st))"

definition resolveNextActionableSeatIndex :: "table \<Rightarrow> nat \<Rightarrow> nat option" where
  "resolveNextActionableSeatIndex st from =
     (let actionable = map seatIndex (listActionableSeats st)
      in if actionable = [] then None else nextSeatIndex actionable from)"

definition resolveFirstPostflopSeatIndex :: "table \<Rightarrow> nat option" where
  "resolveFirstPostflopSeatIndex st =
     (let actionable = map seatIndex (listActionableSeats st)
      in if actionable = [] then None
         else case dealerSeatIndex st of
                None \<Rightarrow> firstSeatIndex actionable
              | Some d \<Rightarrow> nextSeatIndex actionable d)"

definition resetSeatForStreet :: "seat \<Rightarrow> seat" where
  "resetSeatForStreet s =
     s\<lparr>committedAmount := 0,
       seatStatus :=
         (if seatStatus s = SeatActive \<and> stackAmount s = 0 then SeatAllIn else seatStatus s)\<rparr>"

definition resetStreetCommitments :: "table \<Rightarrow> table" where
  "resetStreetCommitments st =
     st\<lparr>seats := map resetSeatForStreet (seats st), currentBet := 0,
        lastFullRaiseSize := bigBlind st, actedSeatIndexes := []\<rparr>"

subsection \<open>Seats as a keyed store\<close>

interpretation seatStore: keyed_store seats seatIndex updateSeat
  by unfold_locales (simp add: updateSeat_def)

lemma findSeatByIndex_Some: "findSeatByIndex st (Some i) = find (\<lambda>s. seatIndex s = i) (seats st)"
  by (simp add: findSeatByIndex_def)

lemma findSeatByIndex_None [simp]: "findSeatByIndex st None = None"
  by (simp add: findSeatByIndex_def)

lemma updateSeat_frame [simp]:
  "tableStatus (updateSeat i f st) = tableStatus st"
  "stage (updateSeat i f st) = stage st"
  "currentBet (updateSeat i f st) = currentBet st"
  "lastFullRaiseSize (updateSeat i f st) = lastFullRaiseSize st"
  "communityCards (updateSeat i f st) = communityCards st"
  "deck (updateSeat i f st) = deck st"
  "nextCardIndex (updateSeat i f st) = nextCardIndex st"
  "pendingActorSeatIndex (updateSeat i f st) = pendingActorSeatIndex st"
  "actedSeatIndexes (updateSeat i f st) = actedSeatIndexes st"
  "dealerSeatIndex (updateSeat i f st) = dealerSeatIndex st"
  "smallBlindSeatIndex (updateSeat i f st) = smallBlindSeatIndex st"
  "bigBlindSeatIndex (updateSeat i f st) = bigBlindSeatIndex st"
  "smallBlind (updateSeat i f st) = smallBlind st"
  "bigBlind (updateSeat i f st) = bigBlind st"
  "maxSeats (updateSeat i f st) = maxSeats st"
  "tableType (updateSeat i f st) = tableType st"
  "resolvedPots (updateSeat i f st) = resolvedPots st"
  "recentHands (updateSeat i f st) = recentHands st"
  "revealedSeatIndexes (updateSeat i f st) = revealedSeatIndexes st"
  by (simp_all add: updateSeat_def)

lemma set_sortSeatsByIndex [simp]: "set (sortSeatsByIndex ss) = set ss"
  by (simp add: sortSeatsByIndex_def)

lemma sum_sortSeatsByIndex:
  fixes g :: "seat \<Rightarrow> int"
  shows "(\<Sum>s\<leftarrow>sortSeatsByIndex ss. g s) = (\<Sum>s\<leftarrow>ss. g s)"
  by (simp add: sortSeatsByIndex_def sum_list_sort_key)

lemma distinct_indexes_sort [simp]:
  "distinct (map seatIndex (sortSeatsByIndex ss)) \<longleftrightarrow> distinct (map seatIndex ss)"
proof -
  have "mset (map seatIndex (sortSeatsByIndex ss)) = mset (map seatIndex ss)"
    by (simp add: sortSeatsByIndex_def)
  then show ?thesis by (rule mset_eq_imp_distinct_iff)
qed

lemma distinct_indexes_filter:
  "distinct (map seatIndex ss) \<Longrightarrow> distinct (map seatIndex (filter P (sortSeatsByIndex ss)))"
  by (rule distinct_map_filter) simp

lemma sorted_indexes_filter: "sorted (map seatIndex (filter P (sortSeatsByIndex ss)))"
  unfolding sortSeatsByIndex_def by (rule sorted_filter) simp

lemma mem_listActionableSeats:
  "s \<in> set (listActionableSeats st) \<longleftrightarrow> s \<in> set (seats st) \<and> isSeatActionable s"
  by (simp add: listActionableSeats_def)

lemma mem_listNonFoldedSeats:
  "s \<in> set (listNonFoldedSeats st) \<longleftrightarrow> s \<in> set (seats st) \<and> isNonFolded s"
  by (simp add: listNonFoldedSeats_def)

lemma mem_listEligibleSeats:
  "s \<in> set (listEligibleSeats st) \<longleftrightarrow> s \<in> set (seats st) \<and> isSeatEligibleForHand s"
  by (simp add: listEligibleSeats_def)

lemma postFromStack_simps [simp]:
  "seatIndex (postFromStack a s) = seatIndex s"
  "holeCards (postFromStack a s) = holeCards s"
  "userId (postFromStack a s) = userId s"
  "sittingOut (postFromStack a s) = sittingOut s"
  "stackAmount (postFromStack a s) + totalCommittedAmount (postFromStack a s)
     = stackAmount s + totalCommittedAmount s"
  by (simp_all add: postFromStack_def Let_def)

lemma awardToSeatStack_simps [simp]:
  "seatIndex (awardToSeatStack a s) = seatIndex s"
  "stackAmount (awardToSeatStack a s) = stackAmount s + a"
  "totalCommittedAmount (awardToSeatStack a s) = totalCommittedAmount s"
  "committedAmount (awardToSeatStack a s) = committedAmount s"
  "seatStatus (awardToSeatStack a s) = seatStatus s"
  "holeCards (awardToSeatStack a s) = holeCards s"
  "lastAction (awardToSeatStack a s) = lastAction s"
  by (simp_all add: awardToSeatStack_def)

subsection \<open>The cyclic order\<close>

lemma nextSeatIndex_mem: "nextSeatIndex xs from = Some j \<Longrightarrow> j \<in> set xs"
  by (auto simp: nextSeatIndex_def split: if_splits option.splits dest: find_SomeD)

lemma nextSeatIndex_Some: "xs \<noteq> [] \<Longrightarrow> \<exists>j \<in> set xs. nextSeatIndex xs from = Some j"
  by (auto simp: nextSeatIndex_def split: option.splits dest: find_SomeD)

lemma nextSeatIndex_nth:
  "distinct xs \<Longrightarrow> k < length xs \<Longrightarrow> nextSeatIndex xs (xs ! k) = Some (xs ! (Suc k mod length xs))"
  by (auto simp: nextSeatIndex_def findIndex_distinct_nth)

lemma dealOrderLoop_nth:
  assumes "distinct xs" and "k < length xs"
  shows "dealOrderLoop xs n (xs ! k) = map (\<lambda>m. xs ! ((k + m) mod length xs)) [0..<n]"
  using assms(2)
proof (induction n arbitrary: k)
  case (Suc n)
  let ?k = "Suc k mod length xs"
  from Suc.prems have "length xs > 0" by linarith
  then have "?k < length xs" by (rule mod_less_divisor)
  from Suc.IH [OF this] nextSeatIndex_nth [OF assms(1) Suc.prems] Suc.prems
  show ?case
    by (simp add: map_upt_Suc mod_simps del: upt_Suc)
qed simp

text \<open>
  Clockwise from a seat: the smallest larger index, or the smallest index when there is
  none.
\<close>

definition clockwiseNext :: "nat set \<Rightarrow> nat \<Rightarrow> nat" where
  "clockwiseNext A from = (if \<exists>v \<in> A. from < v then Min {v \<in> A. from < v} else Min A)"

lemma find_greater_sorted:
  "sorted xs \<Longrightarrow> find (\<lambda>v. v > from) xs = Some v \<Longrightarrow> v = Min {w \<in> set xs. (from::nat) < w}"
proof (induction xs)
  case (Cons x xs)
  show ?case
  proof (cases "from < x")
    case True
    with Cons.prems have "v = x" by simp
    moreover have "Min {w \<in> set (x # xs). from < w} = x"
      using Cons.prems(1) True by (intro Min_eqI) auto
    ultimately show ?thesis by simp
  next
    case False
    then have "{w \<in> set (x # xs). from < w} = {w \<in> set xs. from < w}" by auto
    with Cons False show ?thesis by simp
  qed
qed simp

lemma sorted_distinct_Suc_nth_Min:
  fixes xs :: "nat list"
  assumes "sorted xs" "distinct xs" "Suc k < length xs"
  shows "xs ! Suc k = Min {w \<in> set xs. xs ! k < w}"
proof (rule Min_eqI [symmetric])
  have strict: "sorted_wrt (<) xs" using assms by (simp add: strict_sorted_iff)
  show "xs ! Suc k \<in> {w \<in> set xs. xs ! k < w}"
    using assms(3) sorted_wrt_nth_less [OF strict, of k "Suc k"] by simp
  fix w assume w: "w \<in> {w \<in> set xs. xs ! k < w}"
  then obtain j where j: "j < length xs" "w = xs ! j" by (auto simp: in_set_conv_nth)
  have "k < j"
  proof (rule ccontr)
    assume "\<not> k < j"
    then have "xs ! j \<le> xs ! k" using assms by (intro sorted_nth_mono) auto
    with w j show False by simp
  qed
  with j assms(1) show "xs ! Suc k \<le> w" by (simp add: sorted_nth_mono)
qed simp

lemma sorted_last_greatest:
  fixes xs :: "nat list"
  assumes "sorted xs" "k < length xs" "Suc k = length xs" "v \<in> set xs"
  shows "v \<le> xs ! k"
  using assms by (auto simp: in_set_conv_nth intro!: sorted_nth_mono)

lemma hd_sorted_Min:
  fixes xs :: "nat list" assumes "sorted xs" "xs \<noteq> []" shows "hd xs = Min (set xs)"
  using assms by (cases xs) (auto intro!: Min_eqI [symmetric])

lemma nextSeatIndex_clockwise:
  assumes "sorted xs" "distinct xs" "xs \<noteq> []"
  shows "nextSeatIndex xs from = Some (clockwiseNext (set xs) from)"
proof (cases "findIndex (\<lambda>v. v = from) xs")
  case None
  show ?thesis
  proof (cases "find (\<lambda>v. v > from) xs")
    case Nf: None
    then have "\<not> (\<exists>v \<in> set xs. from < v)" by (auto simp: find_None_iff)
    then show ?thesis
      using None Nf assms by (simp add: nextSeatIndex_def clockwiseNext_def hd_sorted_Min)
  next
    case (Some v)
    then have "\<exists>v \<in> set xs. from < v" by (auto dest: find_SomeD)
    then show ?thesis
      using None Some assms find_greater_sorted [OF assms(1) Some]
      by (simp add: nextSeatIndex_def clockwiseNext_def)
  qed
next
  case (Some k)
  then have k: "k < length xs" "xs ! k = from" by (auto dest: findIndex_SomeD)
  have next_k: "nextSeatIndex xs from = Some (xs ! (Suc k mod length xs))"
    using nextSeatIndex_nth [OF assms(2) k(1)] k(2) by simp
  show ?thesis
  proof (cases "Suc k < length xs")
    case True
    have "\<exists>v \<in> set xs. from < v"
      using sorted_wrt_nth_less [of "(<)" xs k "Suc k"] True assms k
      by (metis Suc_lessD lessI nth_mem strict_sorted_iff)
    with True next_k k(2) sorted_distinct_Suc_nth_Min [OF assms(1,2) True] show ?thesis
      by (simp add: clockwiseNext_def)
  next
    case False
    with k(1) have last: "Suc k = length xs" by simp
    then have "\<not> (\<exists>v \<in> set xs. from < v)"
      using sorted_last_greatest [OF assms(1) k(1) last] k(2) by (auto simp: not_less)
    with last next_k assms show ?thesis
      by (simp add: clockwiseNext_def hd_sorted_Min [symmetric] hd_conv_nth)
  qed
qed

text \<open>The deal order from an eligible seat is a rotation of the eligible seats.\<close>

lemma resolveDealOrder_mset:
  assumes "distinct (map seatIndex (seats st))"
    and first: "first \<in> set (map seatIndex (listEligibleSeats st))"
  shows "mset (resolveDealOrder st first) = mset (map seatIndex (listEligibleSeats st))"
proof -
  let ?xs = "map seatIndex (listEligibleSeats st)"
  have d: "distinct ?xs" unfolding listEligibleSeats_def by (rule distinct_indexes_filter) (rule assms)
  from first obtain k where k: "k < length ?xs" "?xs ! k = first" by (metis in_set_conv_nth)
  have loop: "dealOrderLoop ?xs (length ?xs) first = rotate k ?xs"
    using dealOrderLoop_nth [OF d k(1), of "length ?xs"] k(2)
    by (auto intro!: nth_equalityI simp: nth_rotate)
  have found: "findSeatByIndex st (Some i) \<noteq> None" if "i \<in> set (rotate k ?xs)" for i
  proof -
    from that obtain s where "s \<in> set (seats st)" "seatIndex s = i"
      by (auto simp: mem_listEligibleSeats)
    then show ?thesis by (auto simp: findSeatByIndex_Some find_None_iff)
  qed
  have "resolveDealOrder st first = rotate k ?xs"
    unfolding resolveDealOrder_def Let_def loop using found by (intro filter_True) blast
  then show ?thesis by (simp only: mset_rotation)
qed

end
