(* ===== verification/Holdem_Pots.thy ===== *)
theory Holdem_Pots
  imports Holdem_Seats
begin

text \<open>
  Main and side pots of \<open>engine.ts\<close>: how the commitments of a hand are cut into pots by
  contribution level, and how an amount is split in cents between several seats.
\<close>

text \<open>The loop over the contribution levels in increasing order.\<close>

fun potLoop :: "seat list \<Rightarrow> cents list \<Rightarrow> cents \<Rightarrow> pot list \<Rightarrow> pot list" where
  "potLoop contributing [] previousLevel pots = pots"
| "potLoop contributing (level # levels) previousLevel pots =
     (let involved = filter (\<lambda>s. totalCommittedAmount s \<ge> level) contributing;
          potAmount = (level - previousLevel) * int (length involved);
          pots' =
            (if potAmount > 0 then
               pots @ [\<lparr>potIndex = length pots, mainPot = (pots = []), amount = potAmount,
                        rakeAmount = 0,
                        eligibleSeatIndexes =
                          map seatIndex (filter (\<lambda>s. seatStatus s \<noteq> SeatFolded) involved),
                        winnerSeatIndexes = []\<rparr>]
             else pots)
      in potLoop contributing levels level pots')"

definition contributingSeats :: "table \<Rightarrow> seat list" where
  "contributingSeats st =
     filter (\<lambda>s. totalCommittedAmount s > 0) (sortSeatsByIndex (seats st))"

definition contributionLevels :: "seat list \<Rightarrow> cents list" where
  "contributionLevels ss = sort (js_set (map totalCommittedAmount ss))"

definition buildPendingPotViews :: "table \<Rightarrow> pot list" where
  "buildPendingPotViews st =
     (let contributing = contributingSeats st
      in if contributing = [] then []
         else potLoop contributing (contributionLevels contributing) 0 [])"

definition potsTotal :: "pot list \<Rightarrow> cents" where
  "potsTotal pots = (\<Sum>p\<leftarrow>pots. amount p)"

definition sortSeatIndexesLeftOfDealer :: "table \<Rightarrow> nat list \<Rightarrow> nat list" where
  "sortSeatIndexesLeftOfDealer st idxs =
     (let d = int (case dealerSeatIndex st of None \<Rightarrow> 0 | Some i \<Rightarrow> i);
          m = int (maxSeats st)
      in sort_key (\<lambda>i. js_rem (int i - d + m) m) idxs)"

definition formatPotWinners :: "table \<Rightarrow> nat list \<Rightarrow> string list" where
  "formatPotWinners st idxs =
     map (\<lambda>i. case findSeatByIndex st (Some i) of
                None \<Rightarrow> ''Seat '' @ show_digits (i + 1)
              | Some s \<Rightarrow> resolveSeatDisplayName (userId s) (userEmail s) (bot s))
       (sortSeatIndexesLeftOfDealer st idxs)"

text \<open>
  Even shares in cents, the remaining cents going one each to the first seats.  The
  source divides by the number of seats and is only called with at least one; it keeps
  the shares in a map, here an association list in the same order.
\<close>

fun distributeLoop :: "cents \<Rightarrow> cents \<Rightarrow> nat list \<Rightarrow> (nat \<times> cents) list" where
  "distributeLoop shareCents remainder [] = []"
| "distributeLoop shareCents remainder (i # idxs) =
     (i, shareCents + (if remainder > 0 then 1 else 0))
       # distributeLoop shareCents (if remainder > 0 then remainder - 1 else remainder) idxs"

definition distributeAmountAcrossSeatIndexes :: "cents \<Rightarrow> nat list \<Rightarrow> (nat \<times> cents) list" where
  "distributeAmountAcrossSeatIndexes a idxs =
     distributeLoop (a div int (length idxs)) (a mod int (length idxs)) idxs"

subsection \<open>What the pots hold\<close>

definition seatChips :: "seat \<Rightarrow> cents" where
  "seatChips s = stackAmount s + totalCommittedAmount s"

definition tableChips :: "table \<Rightarrow> cents" where
  "tableChips st = (\<Sum>s\<leftarrow>seats st. seatChips s)"

definition committedTotal :: "table \<Rightarrow> cents" where
  "committedTotal st = (\<Sum>s\<leftarrow>seats st. totalCommittedAmount s)"

text \<open>
  Every seat's contribution is either used up at \<open>prev\<close> or one of the levels to come.
\<close>

definition levelsCover :: "seat list \<Rightarrow> cents list \<Rightarrow> cents \<Rightarrow> bool" where
  "levelsCover cs levels prev =
     (sorted_wrt (<) (prev # levels) \<and>
      (\<forall>s \<in> set cs. totalCommittedAmount s \<le> prev \<or> totalCommittedAmount s \<in> set levels))"

lemma levelsCover_step:
  assumes "levelsCover cs (l # ls) prev"
  shows "levelsCover cs ls l" and "prev < l"
    and "s \<in> set cs \<Longrightarrow> totalCommittedAmount s \<le> prev \<or> l \<le> totalCommittedAmount s"
  using assms unfolding levelsCover_def by (auto, force)

lemma levelsCover_Nil: "levelsCover cs [] prev \<Longrightarrow> s \<in> set cs \<Longrightarrow> totalCommittedAmount s \<le> prev"
  by (simp add: levelsCover_def)

lemma sum_list_level_split:
  fixes f :: "seat \<Rightarrow> cents"
  assumes "prev < l" and "\<And>s. s \<in> set cs \<Longrightarrow> f s \<le> prev \<or> l \<le> f s"
  shows "(\<Sum>s\<leftarrow>cs. max 0 (f s - prev)) =
     (l - prev) * int (length (filter (\<lambda>s. l \<le> f s) cs)) + (\<Sum>s\<leftarrow>cs. max 0 (f s - l))"
  using assms(2)
proof (induction cs)
  case (Cons s cs)
  have here: "f s \<le> prev \<or> l \<le> f s" by (rule Cons.prems) simp
  have "(\<Sum>s\<leftarrow>cs. max 0 (f s - prev)) =
     (l - prev) * int (length (filter (\<lambda>s. l \<le> f s) cs)) + (\<Sum>s\<leftarrow>cs. max 0 (f s - l))"
    by (rule Cons.IH) (use Cons.prems in auto)
  with here assms(1) show ?case by (cases "l \<le> f s") (auto simp: algebra_simps)
qed simp

lemma potLoop_total:
  "levelsCover cs levels prev \<Longrightarrow>
     potsTotal (potLoop cs levels prev pots) =
       potsTotal pots + (\<Sum>s\<leftarrow>cs. max 0 (totalCommittedAmount s - prev))"
proof (induction cs levels prev pots rule: potLoop.induct)
  case (1 cs prev pots)
  then have "(\<Sum>s\<leftarrow>cs. max 0 (totalCommittedAmount s - prev)) = 0"
    by (intro sum_list_zeroI) (auto dest: levelsCover_Nil)
  then show ?case by simp
next
  case (2 cs l ls prev pots)
  note cover = levelsCover_step [OF "2.prems"]
  let ?k = "int (length (filter (\<lambda>s. l \<le> totalCommittedAmount s) cs))"
  have split: "(\<Sum>s\<leftarrow>cs. max 0 (totalCommittedAmount s - prev)) =
      (l - prev) * ?k + (\<Sum>s\<leftarrow>cs. max 0 (totalCommittedAmount s - l))"
    by (rule sum_list_level_split) (use cover in auto)
  have "0 \<le> (l - prev) * ?k" using cover(2) by simp
  then show ?case
    using "2.IH" [OF refl refl refl cover(1)] split
    by (auto simp: Let_def potsTotal_def)
qed

lemma contributionLevels_cover:
  assumes "\<And>s. s \<in> set cs \<Longrightarrow> 0 < totalCommittedAmount s"
  shows "levelsCover cs (contributionLevels cs) 0"
  using assms by (auto simp: levelsCover_def contributionLevels_def strict_sorted_iff)

lemma buildPendingPotViews_loop:
  "buildPendingPotViews st =
     potLoop (contributingSeats st) (contributionLevels (contributingSeats st)) 0 []"
  by (simp add: buildPendingPotViews_def Let_def contributionLevels_def js_set_def)

lemma contributing_cover:
  "levelsCover (contributingSeats st) (contributionLevels (contributingSeats st)) 0"
  by (rule contributionLevels_cover) (simp add: contributingSeats_def)

lemma sum_contributing:
  fixes g :: "cents \<Rightarrow> cents"
  assumes "\<And>s. s \<in> set (seats st) \<Longrightarrow> 0 \<le> totalCommittedAmount s" and "g 0 = 0"
  shows "(\<Sum>s\<leftarrow>contributingSeats st. g (totalCommittedAmount s)) =
         (\<Sum>s\<leftarrow>seats st. g (totalCommittedAmount s))"
proof -
  have "(\<Sum>s\<leftarrow>sortSeatsByIndex (seats st). g (totalCommittedAmount s)) =
      (\<Sum>s\<leftarrow>contributingSeats st. g (totalCommittedAmount s)) +
      (\<Sum>s\<leftarrow>filter (\<lambda>s. \<not> totalCommittedAmount s > 0) (sortSeatsByIndex (seats st)).
         g (totalCommittedAmount s))"
    unfolding contributingSeats_def by (rule sum_list_filter_split)
  also have "(\<Sum>s\<leftarrow>filter (\<lambda>s. \<not> totalCommittedAmount s > 0) (sortSeatsByIndex (seats st)).
      g (totalCommittedAmount s)) = 0"
  proof (rule sum_list_zeroI)
    fix s assume "s \<in> set (filter (\<lambda>s. \<not> totalCommittedAmount s > 0) (sortSeatsByIndex (seats st)))"
    then have "totalCommittedAmount s = 0" using assms(1) [of s] by auto
    then show "g (totalCommittedAmount s) = 0" using assms(2) by simp
  qed
  finally show ?thesis by (simp add: sum_sortSeatsByIndex)
qed

text \<open>The pots hold what the seats committed.\<close>

lemma buildPendingPotViews_total:
  assumes "\<And>s. s \<in> set (seats st) \<Longrightarrow> 0 \<le> totalCommittedAmount s"
  shows "potsTotal (buildPendingPotViews st) = committedTotal st"
proof -
  have "potsTotal (buildPendingPotViews st) =
      (\<Sum>s\<leftarrow>contributingSeats st. max 0 (totalCommittedAmount s))"
    using potLoop_total [OF contributing_cover, of st "[]"]
    by (simp add: buildPendingPotViews_loop potsTotal_def)
  also have "\<dots> = (\<Sum>s\<leftarrow>seats st. max 0 (totalCommittedAmount s))"
    by (rule sum_contributing) (use assms in auto)
  also have "\<dots> = committedTotal st"
    unfolding committedTotal_def using assms by (intro sum_list_congI) auto
  finally show ?thesis .
qed

subsection \<open>Who can win which pot\<close>

text \<open>The seats of level \<open>l\<close> that have not folded.\<close>

definition levelEligible :: "seat list \<Rightarrow> cents \<Rightarrow> nat list" where
  "levelEligible cs l =
     map seatIndex (filter (\<lambda>s. seatStatus s \<noteq> SeatFolded)
       (filter (\<lambda>s. totalCommittedAmount s \<ge> l) cs))"

lemma potLoop_members:
  "p \<in> set (potLoop cs levels prev pots) \<Longrightarrow>
     p \<in> set pots \<or>
     (\<exists>l \<in> set levels. eligibleSeatIndexes p = levelEligible cs l \<and> winnerSeatIndexes p = []
        \<and> rakeAmount p = 0 \<and> amount p > 0)"
proof (induction cs levels prev pots rule: potLoop.induct)
  case (2 cs l ls prev pots)
  from "2.IH" [OF refl refl refl] "2.prems" show ?case
    by (auto simp: Let_def levelEligible_def split: if_splits)
qed simp

lemma pendingPot_cases:
  assumes "p \<in> set (buildPendingPotViews st)"
  obtains l where "l \<in> set (contributionLevels (contributingSeats st))"
    and "eligibleSeatIndexes p = levelEligible (contributingSeats st) l"
    and "winnerSeatIndexes p = []" and "rakeAmount p = 0" and "amount p > 0"
  using potLoop_members [OF assms [unfolded buildPendingPotViews_loop]] by auto

definition entitlement :: "nat \<Rightarrow> pot list \<Rightarrow> cents" where
  "entitlement i pots = potsTotal (filter (\<lambda>p. i \<in> set (eligibleSeatIndexes p)) pots)"

lemma entitlement_append:
  "entitlement i (ps @ qs) = entitlement i ps + entitlement i qs"
  by (simp add: entitlement_def potsTotal_def)

lemma mem_levelEligible:
  assumes "distinct (map seatIndex cs)" and "x \<in> set cs" and "seatStatus x \<noteq> SeatFolded"
  shows "seatIndex x \<in> set (levelEligible cs l) \<longleftrightarrow> l \<le> totalCommittedAmount x"
proof
  assume "seatIndex x \<in> set (levelEligible cs l)"
  then obtain s where s: "s \<in> set cs" "l \<le> totalCommittedAmount s" "seatIndex s = seatIndex x"
    unfolding levelEligible_def by auto
  then have "s = x" using assms(1,2) by (meson distinct_map inj_onD)
  with s show "l \<le> totalCommittedAmount x" by simp
next
  assume "l \<le> totalCommittedAmount x"
  with assms show "seatIndex x \<in> set (levelEligible cs l)" by (simp add: levelEligible_def)
qed

lemma potLoop_entitlement:
  assumes "distinct (map seatIndex cs)" and "x \<in> set cs" and "seatStatus x \<noteq> SeatFolded"
  shows "levelsCover cs levels prev \<Longrightarrow>
     entitlement (seatIndex x) (potLoop cs levels prev pots) =
       entitlement (seatIndex x) pots +
       (\<Sum>s\<leftarrow>cs. max 0 (min (totalCommittedAmount x) (totalCommittedAmount s) - prev))"
  using assms
proof (induction cs levels prev pots rule: potLoop.induct)
  case (1 cs prev pots)
  then have "(\<Sum>s\<leftarrow>cs. max 0 (min (totalCommittedAmount x) (totalCommittedAmount s) - prev)) = 0"
    by (intro sum_list_zeroI) (auto simp: min_def dest: levelsCover_Nil)
  then show ?case by simp
next
  case (2 cs l ls prev pots)
  note cover = levelsCover_step [OF "2.prems"(1)]
  let ?f = "\<lambda>s. min (totalCommittedAmount x) (totalCommittedAmount s)"
  let ?k = "int (length (filter (\<lambda>s. l \<le> ?f s) cs))"
  have split: "(\<Sum>s\<leftarrow>cs. max 0 (?f s - prev)) = (l - prev) * ?k + (\<Sum>s\<leftarrow>cs. max 0 (?f s - l))"
  proof (rule sum_list_level_split)
    show "prev < l" by (rule cover)
    fix s assume "s \<in> set cs"
    from cover(3) [OF this] cover(3) [OF "2.prems"(3)] show "?f s \<le> prev \<or> l \<le> ?f s" by auto
  qed
  have k: "?k = (if l \<le> totalCommittedAmount x
      then int (length (filter (\<lambda>s. l \<le> totalCommittedAmount s) cs)) else 0)"
    by (auto simp: filter_empty_conv intro!: arg_cong [of _ _ length] filter_cong)
  have elig: "seatIndex x \<in> set (map seatIndex (filter (\<lambda>s. seatStatus s \<noteq> SeatFolded)
      (filter (\<lambda>s. l \<le> totalCommittedAmount s) cs))) \<longleftrightarrow> l \<le> totalCommittedAmount x"
    using mem_levelEligible [OF "2.prems"(2-4), of l] by (simp add: levelEligible_def)
  have nonneg: "0 \<le> (l - prev) * int (length (filter (\<lambda>s. l \<le> totalCommittedAmount s) cs))"
    using cover(2) by simp
  let ?amt = "(l - prev) * int (length (filter (\<lambda>s. l \<le> totalCommittedAmount s) cs))"
  define pots' where "pots' = (if ?amt > 0 then
      pots @ [\<lparr>potIndex = length pots, mainPot = (pots = []), amount = ?amt, rakeAmount = 0,
        eligibleSeatIndexes = map seatIndex (filter (\<lambda>s. seatStatus s \<noteq> SeatFolded)
          (filter (\<lambda>s. l \<le> totalCommittedAmount s) cs)), winnerSeatIndexes = []\<rparr>]
      else pots)"
  have one: "entitlement (seatIndex x) pots' = entitlement (seatIndex x) pots + (l - prev) * ?k"
    using nonneg elig by (auto simp: pots'_def entitlement_def potsTotal_def k)
  have "potLoop cs (l # ls) prev pots = potLoop cs ls l pots'"
    by (simp add: pots'_def Let_def)
  moreover have "entitlement (seatIndex x) (potLoop cs ls l pots') =
      entitlement (seatIndex x) pots' + (\<Sum>s\<leftarrow>cs. max 0 (?f s - l))"
    using "2.IH" [OF refl refl refl cover(1) "2.prems"(2-4)] by (simp only: pots'_def)
  ultimately show ?case using one split by simp
qed

lemma contributing_distinct:
  "distinct (map seatIndex (seats st)) \<Longrightarrow> distinct (map seatIndex (contributingSeats st))"
  unfolding contributingSeats_def by (rule distinct_indexes_filter)

text \<open>
  Side pots are fair.  A seat that has not folded can win, over all pots, exactly what
  it can match from every seat: the sum of the smaller of the two contributions.  A folded
  seat can win nothing.
\<close>

theorem pots_match_contributions:
  assumes distinct: "distinct (map seatIndex (seats st))"
    and nonneg: "\<And>s. s \<in> set (seats st) \<Longrightarrow> 0 \<le> totalCommittedAmount s"
    and x: "x \<in> set (seats st)"
  shows "entitlement (seatIndex x) (buildPendingPotViews st) =
     (if seatStatus x = SeatFolded then 0
      else \<Sum>s\<leftarrow>seats st. min (totalCommittedAmount x) (totalCommittedAmount s))"
proof -
  let ?cs = "contributingSeats st"
  have unique: "s = x" if "s \<in> set (seats st)" "seatIndex s = seatIndex x" for s
    using that distinct x by (meson distinct_map inj_onD)
  have cs: "s \<in> set ?cs \<longleftrightarrow> s \<in> set (seats st) \<and> 0 < totalCommittedAmount s" for s
    by (auto simp: contributingSeats_def)
  show ?thesis
  proof (cases "seatStatus x \<noteq> SeatFolded \<and> x \<in> set ?cs")
    case True
    let ?g = "\<lambda>c. max 0 (min (totalCommittedAmount x) c)"
    have "entitlement (seatIndex x) (buildPendingPotViews st) = (\<Sum>s\<leftarrow>?cs. ?g (totalCommittedAmount s))"
      using potLoop_entitlement [OF contributing_distinct [OF distinct] _ _ contributing_cover, of x "[]"]
        True by (simp add: buildPendingPotViews_loop entitlement_def potsTotal_def)
    also have "\<dots> = (\<Sum>s\<leftarrow>seats st. ?g (totalCommittedAmount s))"
      by (rule sum_contributing) (use nonneg nonneg [OF x] in auto)
    also have "\<dots> = (\<Sum>s\<leftarrow>seats st. min (totalCommittedAmount x) (totalCommittedAmount s))"
      using nonneg nonneg [OF x] by (intro sum_list_congI) auto
    finally show ?thesis using True by simp
  next
    case False
    have "seatIndex x \<notin> set (levelEligible ?cs l)" for l
      using False unique cs by (auto simp: levelEligible_def)
    then have "filter (\<lambda>p. seatIndex x \<in> set (eligibleSeatIndexes p)) (buildPendingPotViews st) = []"
      by (auto simp: filter_empty_conv elim: pendingPot_cases)
    then have none: "entitlement (seatIndex x) (buildPendingPotViews st) = 0"
      by (simp add: entitlement_def potsTotal_def)
    show ?thesis
    proof (cases "seatStatus x = SeatFolded")
      case live: False
      with False cs x nonneg [OF x] have "totalCommittedAmount x = 0" by auto
      then have "(\<Sum>s\<leftarrow>seats st. min (totalCommittedAmount x) (totalCommittedAmount s)) = 0"
        using nonneg by (intro sum_list_zeroI) (simp add: min_absorb1)
      with none live show ?thesis by simp
    qed (simp add: none)
  qed
qed

theorem pots_match_contributions_witness:
  "entitlement 0 (buildPendingPotViews (sampleTable
      [(sampleSeat 0 0)\<lparr>totalCommittedAmount := 50, seatStatus := SeatAllIn\<rparr>,
       (sampleSeat 1 0)\<lparr>totalCommittedAmount := 70, seatStatus := SeatActive\<rparr>,
       (sampleSeat 2 0)\<lparr>totalCommittedAmount := 20, seatStatus := SeatFolded\<rparr>])) = 120"
proof -
  let ?a = "(sampleSeat 0 0)\<lparr>totalCommittedAmount := 50, seatStatus := SeatAllIn\<rparr>"
  let ?st = "sampleTable [?a,
       (sampleSeat 1 0)\<lparr>totalCommittedAmount := 70, seatStatus := SeatActive\<rparr>,
       (sampleSeat 2 0)\<lparr>totalCommittedAmount := 20, seatStatus := SeatFolded\<rparr>]"
  have "entitlement (seatIndex ?a) (buildPendingPotViews ?st) =
     (if seatStatus ?a = SeatFolded then 0
      else \<Sum>s\<leftarrow>seats ?st. min (totalCommittedAmount ?a) (totalCommittedAmount s))"
    by (rule pots_match_contributions) (auto simp: sampleTable_def sampleSeat_def)
  then show ?thesis by (simp add: sampleTable_def sampleSeat_def)
qed

subsection \<open>Splitting an amount in cents\<close>

lemma distributeLoop_sum:
  "0 \<le> r \<Longrightarrow> r \<le> int (length idxs) \<Longrightarrow>
     (\<Sum>x\<leftarrow>distributeLoop share r idxs. snd x) = share * int (length idxs) + r"
proof (induction share r idxs rule: distributeLoop.induct)
  case (2 share r i idxs)
  then show ?case by (cases "r > 0") (auto simp: algebra_simps)
qed simp

lemma distribute_sum:
  "idxs \<noteq> [] \<Longrightarrow> (\<Sum>x\<leftarrow>distributeAmountAcrossSeatIndexes a idxs. snd x) = a"
  using distributeLoop_sum [of "a mod int (length idxs)" idxs "a div int (length idxs)"]
  by (simp add: distributeAmountAcrossSeatIndexes_def less_imp_le)

lemma distribute_fst: "map fst (distributeAmountAcrossSeatIndexes a idxs) = idxs"
proof -
  have "map fst (distributeLoop share r idxs) = idxs" for share r
    by (induction share r idxs rule: distributeLoop.induct) auto
  then show ?thesis by (simp add: distributeAmountAcrossSeatIndexes_def)
qed

end
