(* ===== verification/Holdem_Settlement.thy ===== *)
theory Holdem_Settlement
  imports Holdem_Pots
begin

text \<open>
  Ending a hand, \<open>engine.ts\<close>: the last seat standing, the showdown, the dealing of the
  next street, and the loop that advances a table until somebody has to act.  The clock
  that the source reads is an argument.
\<close>

definition RECENT_HAND_LIMIT :: nat where
  "RECENT_HAND_LIMIT = 6"

definition settleTableToWaiting :: "table \<Rightarrow> table" where
  "settleTableToWaiting st =
     st\<lparr>tableStatus := TableWaiting, pendingActorSeatIndex := None, currentBet := 0,
        actedSeatIndexes := []\<rparr>"

definition revealHoldemFairness :: "int \<Rightarrow> table \<Rightarrow> table" where
  "revealHoldemFairness now st =
     (case (table_fairness st, fairnessSeed st) of
        (Some f, Some seed) \<Rightarrow>
          if seed = [] then st
          else st\<lparr>table_fairness := Some (f\<lparr>revealSeed := Some seed, revealedAt := Some now\<rparr>),
                  fairnessSeed := None\<rparr>
      | _ \<Rightarrow> st)"

definition recordRecentHand :: "recent_hand \<Rightarrow> table \<Rightarrow> table" where
  "recordRecentHand h st = st\<lparr>recentHands := take RECENT_HAND_LIMIT (h # recentHands st)\<rparr>"

definition clearSeatAfterHand :: "seat \<Rightarrow> seat" where
  "clearSeatAfterHand s =
     s\<lparr>committedAmount := 0, totalCommittedAmount := 0, seatStatus := SeatWaiting\<rparr>"

subsection \<open>Everyone else folded\<close>

definition settleByFold :: "int \<Rightarrow> street \<Rightarrow> table \<Rightarrow> table res" where
  "settleByFold now terminalStage st =
     (case listNonFoldedSeats st of
        [] \<Rightarrow> Inl (InternalInvariant ''Unable to resolve folded holdem winner.'')
      | winnerSeat # _ \<Rightarrow>
          let w = seatIndex winnerSeat;
              pots = map (\<lambda>p. p\<lparr>rakeAmount := 0, winnerSeatIndexes := [w]\<rparr>)
                       (buildPendingPotViews st);
              totalPot = potsTotal pots;
              st1 = updateSeat w
                (\<lambda>s. (awardToSeatStack totalPot s)
                   \<lparr>winner := True,
                    lastAction := (case lastAction s of None \<Rightarrow> Some ''Win'' | Some a \<Rightarrow> Some a)\<rparr>)
                st;
              st2 = revealHoldemFairness now
                (st1\<lparr>stage := Some Showdown, pendingActorSeatIndex := None,
                     revealedSeatIndexes := [w], table_winnerSeatIndexes := [w],
                     resolvedPots := pots\<rparr>);
              st3 = recordRecentHand
                \<lparr>rh_handNumber = handNumber st2, rh_stage = terminalStage,
                 rh_boardCards = communityCards st2, rh_potAmount = totalPot,
                 rh_rakeAmount = 0, rh_winnerSeatIndexes = [w],
                 rh_winnerLabels = formatPotWinners st2 [w], rh_settledAt = now\<rparr> st2
          in Inr (settleTableToWaiting
                    (st3\<lparr>seats := map clearSeatAfterHand (seats st3)\<rparr>)))"

subsection \<open>Showdown\<close>

text \<open>Evaluate every seat left in the hand and remember its hand on the seat.\<close>

fun evaluateShowdown ::
  "seat list \<Rightarrow> table \<Rightarrow> (table \<times> (nat \<times> best_hand_evaluation) list) res" where
  "evaluateShowdown [] st = Inr (st, [])"
| "evaluateShowdown (s # ss) st =
     (case evaluateBestHoldemHand (holeCards s @ communityCards st) of
        Inl e \<Rightarrow> Inl e
      | Inr h \<Rightarrow>
          (case evaluateShowdown ss
                  (updateSeat (seatIndex s)
                    (\<lambda>x. x\<lparr>bestHand := Some (best_hand.truncate h)\<rparr>) st) of
             Inl e \<Rightarrow> Inl e
           | Inr (st', hands) \<Rightarrow> Inr (st', (seatIndex s, h) # hands)))"

text \<open>\<open>findSeatByIndex\<close> over a list of indexes, keeping the seats that are not folded.\<close>

definition eligibleForPot :: "table \<Rightarrow> pot \<Rightarrow> nat list" where
  "eligibleForPot st p =
     filter (\<lambda>i. case findSeatByIndex st (Some i) of
                   None \<Rightarrow> False | Some s \<Rightarrow> seatStatus s \<noteq> SeatFolded)
       (eligibleSeatIndexes p)"

definition compareEntries ::
  "nat \<times> best_hand_evaluation \<Rightarrow> nat \<times> best_hand_evaluation \<Rightarrow> int" where
  "compareEntries x y = compareHoldemBestHands (snd x) (snd y)"

definition pickPotWinners ::
  "(nat \<times> best_hand_evaluation) list \<Rightarrow> nat list \<Rightarrow> nat list res" where
  "pickPotWinners hands idxs =
     (case idxs of
        [] \<Rightarrow> Inr []
      | i # rest \<Rightarrow>
          (case map_of hands i of
             None \<Rightarrow> Inl (InternalInvariant ''Missing holdem best hand.'')
           | Some h \<Rightarrow>
               if \<exists>j \<in> set rest. map_of hands j = None then
                 Inl (InternalInvariant ''Missing holdem contender hand.'')
               else
                 Inr (map fst
                   (keep_winners compareEntries [(i, h)] (i, h)
                     (map (\<lambda>j. (j, the (map_of hands j))) rest)))))"

fun awardShares :: "cents \<Rightarrow> cents \<Rightarrow> nat list \<Rightarrow> table \<Rightarrow> table" where
  "awardShares shareCents remainder [] st = st"
| "awardShares shareCents remainder (i # idxs) st =
     (if findSeatByIndex st (Some i) = None then awardShares shareCents remainder idxs st
      else awardShares shareCents (if remainder > 0 then remainder - 1 else remainder) idxs
             (updateSeat i
               (\<lambda>s. (awardToSeatStack (shareCents + (if remainder > 0 then 1 else 0)) s)
                      \<lparr>winner := True\<rparr>) st))"

definition settlePot ::
  "(nat \<times> best_hand_evaluation) list \<Rightarrow> pot \<Rightarrow> table \<Rightarrow> (table \<times> pot) res" where
  "settlePot hands p st =
     (let eligible = eligibleForPot st p
      in if eligible = [] then Inr (st, p)
         else case pickPotWinners hands eligible of
           Inl e \<Rightarrow> Inl e
         | Inr winners \<Rightarrow>
             let ordered = sortSeatIndexesLeftOfDealer st winners;
                 n = int (length ordered)
             in Inr (awardShares (amount p div n) (amount p mod n) ordered st,
                     p\<lparr>rakeAmount := 0, winnerSeatIndexes := ordered\<rparr>))"

fun settlePots ::
  "(nat \<times> best_hand_evaluation) list \<Rightarrow> pot list \<Rightarrow> table \<Rightarrow> (table \<times> pot list) res" where
  "settlePots hands [] st = Inr (st, [])"
| "settlePots hands (p # ps) st =
     (case settlePot hands p st of
        Inl e \<Rightarrow> Inl e
      | Inr (st', p') \<Rightarrow>
          (case settlePots hands ps st' of
             Inl e \<Rightarrow> Inl e
           | Inr (st'', ps') \<Rightarrow> Inr (st'', p' # ps')))"

text \<open>What the showdown writes once the pots are settled.\<close>

definition finishShowdown :: "int \<Rightarrow> seat list \<Rightarrow> pot list \<Rightarrow> table \<Rightarrow> table" where
  "finishShowdown now showdownSeats pots st =
     (let soloWinners =
            (if pots = [] \<and> length showdownSeats = 1 then [seatIndex (hd showdownSeats)] else []);
          st1 = foldl (\<lambda>t i. updateSeat i (\<lambda>s. s\<lparr>winner := True\<rparr>) t) st soloWinners;
          allWinners =
            js_set (if pots = [] then soloWinners else concat (map winnerSeatIndexes pots));
          totalPotAmount = potsTotal pots;
          st2 = revealHoldemFairness now
            (st1\<lparr>stage := Some Showdown, pendingActorSeatIndex := None,
                 revealedSeatIndexes := map seatIndex showdownSeats,
                 table_winnerSeatIndexes := allWinners, resolvedPots := pots\<rparr>);
          st3 = recordRecentHand
            \<lparr>rh_handNumber = handNumber st2, rh_stage = Showdown,
             rh_boardCards = communityCards st2, rh_potAmount = totalPotAmount,
             rh_rakeAmount = 0, rh_winnerSeatIndexes = allWinners,
             rh_winnerLabels = formatPotWinners st2 allWinners, rh_settledAt = now\<rparr> st2
      in settleTableToWaiting (st3\<lparr>seats := map clearSeatAfterHand (seats st3)\<rparr>))"

definition settleShowdown :: "int \<Rightarrow> table \<Rightarrow> table res" where
  "settleShowdown now st =
     (let showdownSeats = listNonFoldedSeats st
      in if showdownSeats = [] then
           Inl (InternalInvariant ''Unable to resolve holdem showdown.'')
         else case evaluateShowdown showdownSeats st of
           Inl e \<Rightarrow> Inl e
         | Inr (st1, hands) \<Rightarrow>
             (case settlePots hands (buildPendingPotViews st1) st1 of
                Inl e \<Rightarrow> Inl e
              | Inr (st2, pots) \<Rightarrow> Inr (finishShowdown now showdownSeats pots st2)))"

subsection \<open>The next street\<close>

definition takeNextCard :: "table \<Rightarrow> (card \<times> table) res" where
  "takeNextCard st =
     (if nextCardIndex st < length (deck st)
      then Inr (deck st ! nextCardIndex st, st\<lparr>nextCardIndex := nextCardIndex st + 1\<rparr>)
      else Inl (InternalInvariant ''Holdem deck exhausted.''))"

fun dealCommunity :: "nat \<Rightarrow> table \<Rightarrow> table res" where
  "dealCommunity 0 st = Inr st"
| "dealCommunity (Suc k) st =
     (case takeNextCard st of
        Inl e \<Rightarrow> Inl e
      | Inr (c, st') \<Rightarrow> dealCommunity k (st'\<lparr>communityCards := communityCards st' @ [c]\<rparr>))"

definition openStreet :: "street \<Rightarrow> table \<Rightarrow> table" where
  "openStreet s st =
     (let st' = resetStreetCommitments (st\<lparr>stage := Some s\<rparr>)
      in st'\<lparr>pendingActorSeatIndex := resolveFirstPostflopSeatIndex st'\<rparr>)"

definition dealNextStreet :: "int \<Rightarrow> table \<Rightarrow> table res" where
  "dealNextStreet now st =
     (case stage st of
        None \<Rightarrow> Inl (InternalInvariant ''Cannot advance holdem street without a stage.'')
      | Some Preflop \<Rightarrow> bind_res (dealCommunity 3 st) (\<lambda>t. Inr (openStreet Flop t))
      | Some Flop \<Rightarrow> bind_res (dealCommunity 1 st) (\<lambda>t. Inr (openStreet Turn t))
      | Some Turn \<Rightarrow> bind_res (dealCommunity 1 st) (\<lambda>t. Inr (openStreet River t))
      | Some _ \<Rightarrow> settleShowdown now st)"

text \<open>How many more times the progression loop can go round.\<close>

definition streetsLeft :: "table \<Rightarrow> nat" where
  "streetsLeft st =
     (if tableStatus st = TableActive then
        (case stage st of
           Some Preflop \<Rightarrow> 5 | Some Flop \<Rightarrow> 4 | Some Turn \<Rightarrow> 3 | Some River \<Rightarrow> 2 | _ \<Rightarrow> 1)
      else 0)"

lemma settleTableToWaiting_status [simp]:
  "tableStatus (settleTableToWaiting st) = TableWaiting"
  by (simp add: settleTableToWaiting_def)

lemma settleShowdown_status:
  "settleShowdown now st = Inr st' \<Longrightarrow> tableStatus st' = TableWaiting"
  by (auto simp: settleShowdown_def finishShowdown_def Let_def split: if_splits sum.splits)

lemma settleByFold_status:
  "settleByFold now cs st = Inr st' \<Longrightarrow> tableStatus st' = TableWaiting"
  by (auto simp: settleByFold_def Let_def split: list.splits)

lemma openStreet_stage [simp]: "stage (openStreet s st) = Some s"
  by (simp add: openStreet_def resetStreetCommitments_def Let_def)

lemma dealNextStreet_progress:
  assumes "dealNextStreet now st = Inr st'" and "tableStatus st = TableActive"
  shows "streetsLeft st' < streetsLeft st"
  using assms
  by (auto simp: dealNextStreet_def streetsLeft_def bind_res_Inr_iff settleShowdown_status
      split: option.splits street.splits if_splits)

subsection \<open>Advancing a table until somebody has to act\<close>

function resolveTerminalAndStreetProgression ::
  "int \<Rightarrow> street \<Rightarrow> table \<Rightarrow> table res" where
  "resolveTerminalAndStreetProgression now currentStage st =
     (if tableStatus st \<noteq> TableActive then Inr st
      else if \<not> isSoloHoldemState st \<and> length (listNonFoldedSeats st) \<le> 1 then
        settleByFold now currentStage st
      else if \<not> hasRoundCompleted st then Inr st
      else if stage st = Some River then settleShowdown now st
      else case dealNextStreet now st of
             Inl e \<Rightarrow> Inl e
           | Inr st' \<Rightarrow>
               resolveTerminalAndStreetProgression now
                 (case stage st' of None \<Rightarrow> currentStage | Some s \<Rightarrow> s) st')"
  by pat_completeness auto
termination
  by (relation "measure (\<lambda>(now, cs, st). streetsLeft st)") (auto dest: dealNextStreet_progress)

declare resolveTerminalAndStreetProgression.simps [simp del]

subsection \<open>Frames\<close>

text \<open>
  What settling a pot leaves alone: everything on the table but its seats, and everything
  on a seat but its stack and its display fields.
\<close>

definition tableRest :: "table \<Rightarrow> table" where
  "tableRest st = st\<lparr>seats := []\<rparr>"

definition seatCore where
  "seatCore s = (seatIndex s, totalCommittedAmount s, committedAmount s, seatStatus s,
     holeCards s, userId s, sittingOut s, bot s)"

definition sameCore :: "table \<Rightarrow> table \<Rightarrow> bool" where
  "sameCore st st' =
     (tableRest st' = tableRest st \<and> map seatCore (seats st') = map seatCore (seats st))"

lemma sameCore_refl [simp]: "sameCore st st"
  by (simp add: sameCore_def)

lemma sameCore_trans: "sameCore st st' \<Longrightarrow> sameCore st' st'' \<Longrightarrow> sameCore st st''"
  by (simp add: sameCore_def)

lemma updateSeat_rest [simp]: "tableRest (updateSeat i f st) = tableRest st"
  by (simp add: tableRest_def updateSeat_def)

lemma updateSeat_sameCore:
  "(\<And>s. seatCore (f s) = seatCore s) \<Longrightarrow> sameCore st (updateSeat i f st)"
  by (simp add: sameCore_def updateSeat_def map_update_first tableRest_def)

lemma tableRest_fields:
  assumes "tableRest st' = tableRest st"
  shows "tableStatus st' = tableStatus st" "stage st' = stage st" "currentBet st' = currentBet st"
    "communityCards st' = communityCards st" "deck st' = deck st"
    "nextCardIndex st' = nextCardIndex st" "dealerSeatIndex st' = dealerSeatIndex st"
    "maxSeats st' = maxSeats st" "tableType st' = tableType st" "bigBlind st' = bigBlind st"
    "smallBlind st' = smallBlind st" "handNumber st' = handNumber st"
    "recentHands st' = recentHands st" "resolvedPots st' = resolvedPots st"
    "actedSeatIndexes st' = actedSeatIndexes st"
    "pendingActorSeatIndex st' = pendingActorSeatIndex st"
    "lastFullRaiseSize st' = lastFullRaiseSize st"
  using arg_cong [OF assms, of tableStatus] arg_cong [OF assms, of stage]
    arg_cong [OF assms, of currentBet] arg_cong [OF assms, of communityCards]
    arg_cong [OF assms, of deck] arg_cong [OF assms, of nextCardIndex]
    arg_cong [OF assms, of dealerSeatIndex] arg_cong [OF assms, of maxSeats]
    arg_cong [OF assms, of tableType] arg_cong [OF assms, of bigBlind]
    arg_cong [OF assms, of smallBlind] arg_cong [OF assms, of handNumber]
    arg_cong [OF assms, of recentHands] arg_cong [OF assms, of resolvedPots]
    arg_cong [OF assms, of actedSeatIndexes] arg_cong [OF assms, of pendingActorSeatIndex]
    arg_cong [OF assms, of lastFullRaiseSize]
  by (simp_all add: tableRest_def)

lemma map_seatCore_project:
  assumes "\<And>s s'. seatCore s = seatCore s' \<Longrightarrow> f s = f s'"
    and "map seatCore xs = map seatCore ys"
  shows "map f xs = map f ys"
proof -
  have "list_all2 (\<lambda>x y. seatCore x = seatCore y) xs ys"
    using assms(2) by (simp add: list.rel_eq [symmetric] list.rel_map)
  then show ?thesis
    by (induction rule: list_all2_induct) (auto intro: assms(1))
qed

lemma sameCore_indexes: "sameCore st st' \<Longrightarrow> map seatIndex (seats st') = map seatIndex (seats st)"
  by (auto simp: sameCore_def intro: map_seatCore_project simp: seatCore_def)

lemma sameCore_committed:
  "sameCore st st' \<Longrightarrow> map totalCommittedAmount (seats st') = map totalCommittedAmount (seats st)"
  by (auto simp: sameCore_def intro: map_seatCore_project simp: seatCore_def)

lemma sameCore_mem:
  assumes "sameCore st st'" and "s' \<in> set (seats st')"
  obtains s where "s \<in> set (seats st)" and "seatCore s' = seatCore s"
proof -
  have "seatCore s' \<in> set (map seatCore (seats st))"
    using assms by (metis sameCore_def image_eqI set_map)
  with that show ?thesis by auto
qed

lemma sameCore_sym: "sameCore st st' \<Longrightarrow> sameCore st' st"
  by (simp add: sameCore_def)

lemma sameCore_find:
  assumes "sameCore st st'"
  shows "map_option seatCore (findSeatByIndex st' i) = map_option seatCore (findSeatByIndex st i)"
proof (cases i)
  case (Some k)
  have core: "map_option seatCore (find (\<lambda>s. seatIndex s = k) xs) =
      find (\<lambda>c. fst c = k) (map seatCore xs)" for xs
    by (induction xs) (auto simp: seatCore_def)
  from assms have "map seatCore (seats st') = map seatCore (seats st)" by (simp add: sameCore_def)
  then show ?thesis
    unfolding Some findSeatByIndex_Some core by (rule arg_cong)
qed simp

lemma sameCore_status:
  "sameCore st st' \<Longrightarrow>
     (case findSeatByIndex st' i of None \<Rightarrow> False | Some s \<Rightarrow> seatStatus s \<noteq> SeatFolded) =
     (case findSeatByIndex st i of None \<Rightarrow> False | Some s \<Rightarrow> seatStatus s \<noteq> SeatFolded)"
  using sameCore_find [of st st' i] by (auto simp: seatCore_def split: option.splits)

lemma eligibleForPot_sameCore: "sameCore st st' \<Longrightarrow> eligibleForPot st' p = eligibleForPot st p"
  by (simp add: eligibleForPot_def sameCore_status)

lemma sortLeft_sameCore:
  "sameCore st st' \<Longrightarrow> sortSeatIndexesLeftOfDealer st' = sortSeatIndexesLeftOfDealer st"
  unfolding sameCore_def sortSeatIndexesLeftOfDealer_def
  using tableRest_fields(7,8) [of st' st] by presburger

lemma set_sortLeft [simp]: "set (sortSeatIndexesLeftOfDealer st xs) = set xs"
  by (simp add: sortSeatIndexesLeftOfDealer_def Let_def)

lemma length_sortLeft [simp]: "length (sortSeatIndexesLeftOfDealer st xs) = length xs"
  by (simp add: sortSeatIndexesLeftOfDealer_def Let_def)

subsection \<open>Winners\<close>

interpretation entryOrder: comparator compareEntries
  by unfold_locales
    (auto simp: compareEntries_def handOrder.cmp_refl handOrder.cmp_swap
      intro: handOrder.cmp_trans)

lemma eligibleForPot_found:
  "i \<in> set (eligibleForPot st p) \<Longrightarrow>
     i \<in> set (eligibleSeatIndexes p) \<and> (\<exists>s. findSeatByIndex st (Some i) = Some s)"
  by (auto simp: eligibleForPot_def split: option.splits)

lemma pickPotWinners_ok:
  assumes "\<And>i. i \<in> set idxs \<Longrightarrow> map_of hands i \<noteq> None" and "idxs \<noteq> []"
  shows "\<exists>ws. pickPotWinners hands idxs = Inr ws"
proof (cases idxs)
  case (Cons i rest)
  with assms(1) [of i] obtain h where "map_of hands i = Some h" by auto
  moreover have "\<not> (\<exists>j \<in> set rest. map_of hands j = None)"
    using assms(1) Cons by auto
  ultimately show ?thesis by (simp add: pickPotWinners_def Cons)
qed (use assms in simp)

lemma pickPotWinners_best:
  assumes "pickPotWinners hands idxs = Inr ws" and "idxs \<noteq> []"
  shows "ws \<noteq> [] \<and> set ws = {i \<in> set idxs. \<forall>j \<in> set idxs.
           compareHoldemBestHands (the (map_of hands j)) (the (map_of hands i)) \<le> 0}"
proof -
  obtain i rest where idxs: "idxs = i # rest" using assms(2) by (cases idxs) auto
  let ?e = "\<lambda>j. (j, the (map_of hands j))"
  from assms(1) idxs obtain h where h: "map_of hands i = Some h"
    and ws: "ws = map fst (keep_winners compareEntries [?e i] (?e i) (map ?e rest))"
    by (auto simp: pickPotWinners_def split: option.splits if_splits)
  obtain m where m: "m \<in> set (?e i # map ?e rest)"
    "\<forall>y \<in> set (?e i # map ?e rest). compareEntries y m \<le> 0"
    "keep_winners compareEntries [?e i] (?e i) (map ?e rest) =
       filter (\<lambda>y. compareEntries y m = 0) (?e i # map ?e rest)"
    using entryOrder.winners_are_maxima [of "?e i" "map ?e rest"] by blast
  have all: "set (?e i # map ?e rest) = ?e ` set idxs" by (auto simp: idxs)
  have max: "compareEntries y m = 0 \<longleftrightarrow> (\<forall>z \<in> ?e ` set idxs. compareEntries z y \<le> 0)"
    if "y \<in> ?e ` set idxs" for y
  proof
    assume "compareEntries y m = 0"
    then have "compareEntries m y \<le> 0" using entryOrder.cmp_eq_swap [of y m] by simp
    with m(2) all show "\<forall>z \<in> ?e ` set idxs. compareEntries z y \<le> 0"
      by (metis entryOrder.cmp_trans)
  next
    assume "\<forall>z \<in> ?e ` set idxs. compareEntries z y \<le> 0"
    with m(1) all have "compareEntries m y \<le> 0" by blast
    moreover have "compareEntries y m \<le> 0" using m(2) all that by blast
    ultimately show "compareEntries y m = 0"
      using entryOrder.cmp_swap [of m y] entryOrder.cmp_swap [of y m] by linarith
  qed
  have "set ws = fst ` {y \<in> ?e ` set idxs. compareEntries y m = 0}"
    by (simp only: ws m(3) set_map set_filter all)
  also have "\<dots> = fst ` {y \<in> ?e ` set idxs. \<forall>z \<in> ?e ` set idxs. compareEntries z y \<le> 0}"
    using max by (intro arg_cong [of _ _ "image fst"]) blast
  also have "\<dots> = {i \<in> set idxs. \<forall>j \<in> set idxs.
      compareHoldemBestHands (the (map_of hands j)) (the (map_of hands i)) \<le> 0}"
    by (force simp: compareEntries_def)
  finally have "set ws = {i \<in> set idxs. \<forall>j \<in> set idxs.
      compareHoldemBestHands (the (map_of hands j)) (the (map_of hands i)) \<le> 0}" .
  moreover have "ws \<noteq> []"
    using entryOrder.keep_winners_nonempty [of "[?e i]" "?e i" "map ?e rest"] by (simp add: ws)
  ultimately show ?thesis by blast
qed

subsection \<open>Chips in a settled pot\<close>

lemma awardShares_sameCore: "sameCore st (awardShares share r idxs st)"
proof (induction share r idxs st rule: awardShares.induct)
  case (2 share r i idxs st)
  have step: "sameCore st (updateSeat i (\<lambda>s. awardToSeatStack a s\<lparr>winner := True\<rparr>) st)" for a
    by (rule updateSeat_sameCore) (simp add: seatCore_def awardToSeatStack_def)
  show ?case
  proof (cases "findSeatByIndex st (Some i) = None")
    case True
    with 2 show ?thesis by simp
  next
    case False
    from sameCore_trans [OF step "2.IH"(2) [OF False]] False show ?thesis
      by (simp only: awardShares.simps if_False)
  qed
qed simp

lemma tableChips_award:
  assumes "findSeatByIndex st (Some i) \<noteq> None"
  shows "tableChips (updateSeat i (\<lambda>s. awardToSeatStack a s\<lparr>winner := True\<rparr>) st) = tableChips st + a"
  using assms by (auto simp: tableChips_def findSeatByIndex_Some seatStore.sum_upd seatChips_def)

lemma awardShares_chips:
  assumes "\<And>i. i \<in> set idxs \<Longrightarrow> findSeatByIndex st (Some i) \<noteq> None"
    and "0 \<le> r" and "r \<le> int (length idxs)"
  shows "tableChips (awardShares share r idxs st) = tableChips st + share * int (length idxs) + r"
  using assms
proof (induction share r idxs st rule: awardShares.induct)
  case (2 share r i idxs st)
  let ?st = "updateSeat i
    (\<lambda>s. (awardToSeatStack (share + (if r > 0 then 1 else 0)) s)\<lparr>winner := True\<rparr>) st"
  have here: "findSeatByIndex st (Some i) \<noteq> None" using "2.prems"(1) by simp
  have same: "sameCore st ?st"
    by (rule updateSeat_sameCore) (simp add: seatCore_def awardToSeatStack_def)
  have found: "findSeatByIndex ?st (Some j) \<noteq> None" if "j \<in> set idxs" for j
    using sameCore_find [OF same, of "Some j"] "2.prems"(1) [of j] that by auto
  have "tableChips (awardShares share (if r > 0 then r - 1 else r) idxs ?st) =
      tableChips ?st + share * int (length idxs) + (if r > 0 then r - 1 else r)"
    by (rule "2.IH"(2)) (use here found "2.prems" in auto)
  moreover have "tableChips ?st = tableChips st + (share + (if r > 0 then 1 else 0))"
    by (rule tableChips_award) (rule here)
  moreover have "awardShares share r (i # idxs) st =
      awardShares share (if r > 0 then r - 1 else r) idxs ?st"
    using here by (simp only: awardShares.simps if_False)
  ultimately show ?case using "2.prems"(2) by (auto simp: algebra_simps)
qed simp

lemma settlePot_ok:
  assumes "settlePot hands p st = Inr (st', p')"
  shows "sameCore st st' \<and> amount p' = amount p \<and>
    tableChips st' = tableChips st + (if eligibleForPot st p = [] then 0 else amount p)"
proof (cases "eligibleForPot st p = []")
  case True
  with assms show ?thesis by (simp add: settlePot_def)
next
  case False
  from assms False obtain ws where ws: "pickPotWinners hands (eligibleForPot st p) = Inr ws"
    and st': "st' = awardShares (amount p div int (length ws)) (amount p mod int (length ws))
      (sortSeatIndexesLeftOfDealer st ws) st" and p': "amount p' = amount p"
    by (auto simp: settlePot_def Let_def split: sum.splits)
  note best = pickPotWinners_best [OF ws False]
  have found: "findSeatByIndex st (Some i) \<noteq> None" if "i \<in> set ws" for i
    using best that by (auto dest: eligibleForPot_found)
  have "tableChips st' = tableChips st + (amount p div int (length ws)) * int (length ws)
      + amount p mod int (length ws)"
    unfolding st' using best found by (subst awardShares_chips) (auto simp: less_imp_le)
  also have "\<dots> = tableChips st + amount p" by simp
  finally show ?thesis using st' p' False by (simp add: awardShares_sameCore)
qed

lemma settlePots_ok:
  "settlePots hands ps st = Inr (st', ps') \<Longrightarrow>
     sameCore st st' \<and> map amount ps' = map amount ps \<and>
     tableChips st' = tableChips st + potsTotal (filter (\<lambda>p. eligibleForPot st p \<noteq> []) ps)"
proof (induction ps arbitrary: st st' ps')
  case (Cons p ps)
  from Cons.prems obtain st1 p1 ps1 where one: "settlePot hands p st = Inr (st1, p1)"
    and rest: "settlePots hands ps st1 = Inr (st', ps1)" and ps': "ps' = p1 # ps1"
    by (auto split: sum.splits)
  note first = settlePot_ok [OF one]
  note more = Cons.IH [OF rest]
  have "eligibleForPot st1 = eligibleForPot st"
    using first by (auto simp: eligibleForPot_sameCore)
  with first more ps' show ?case
    by (auto simp: potsTotal_def intro: sameCore_trans)
qed (simp add: potsTotal_def)

subsection \<open>Chips across a settlement\<close>

definition stackTotal :: "table \<Rightarrow> cents" where
  "stackTotal st = (\<Sum>s\<leftarrow>seats st. stackAmount s)"

lemma tableChips_split: "tableChips st = stackTotal st + committedTotal st"
  by (simp add: tableChips_def stackTotal_def committedTotal_def seatChips_def sum_list_addf)

lemma sameCore_committedTotal: "sameCore st st' \<Longrightarrow> committedTotal st' = committedTotal st"
  by (simp add: committedTotal_def sameCore_committed)

definition wellSeated :: "table \<Rightarrow> bool" where
  "wellSeated st =
     (distinct (map seatIndex (seats st)) \<and>
      (\<forall>s \<in> set (seats st). 0 \<le> stackAmount s \<and> 0 \<le> totalCommittedAmount s))"

text \<open>Between hands: nothing is committed and no stack is negative.\<close>

definition settledTable :: "table \<Rightarrow> bool" where
  "settledTable st =
     (tableStatus st = TableWaiting \<and> distinct (map seatIndex (seats st)) \<and>
      (\<forall>s \<in> set (seats st). 0 \<le> stackAmount s \<and> committedAmount s = 0 \<and>
         totalCommittedAmount s = 0))"

lemma settledTable_wellSeated: "settledTable st \<Longrightarrow> wellSeated st"
  by (simp add: settledTable_def wellSeated_def)

lemma revealHoldemFairness_simps [simp]:
  "seats (revealHoldemFairness now st) = seats st"
  "tableStatus (revealHoldemFairness now st) = tableStatus st"
  "stage (revealHoldemFairness now st) = stage st"
  "communityCards (revealHoldemFairness now st) = communityCards st"
  "handNumber (revealHoldemFairness now st) = handNumber st"
  "resolvedPots (revealHoldemFairness now st) = resolvedPots st"
  "deck (revealHoldemFairness now st) = deck st"
  "nextCardIndex (revealHoldemFairness now st) = nextCardIndex st"
  "recentHands (revealHoldemFairness now st) = recentHands st"
  "revealedSeatIndexes (revealHoldemFairness now st) = revealedSeatIndexes st"
  by (auto simp: revealHoldemFairness_def split: option.splits if_splits)

lemma recordRecentHand_simps [simp]:
  "seats (recordRecentHand h st) = seats st"
  "tableStatus (recordRecentHand h st) = tableStatus st"
  "stage (recordRecentHand h st) = stage st"
  "communityCards (recordRecentHand h st) = communityCards st"
  "resolvedPots (recordRecentHand h st) = resolvedPots st"
  "deck (recordRecentHand h st) = deck st"
  "nextCardIndex (recordRecentHand h st) = nextCardIndex st"
  "revealedSeatIndexes (recordRecentHand h st) = revealedSeatIndexes st"
  by (simp_all add: recordRecentHand_def)

lemma settleTableToWaiting_simps [simp]:
  "seats (settleTableToWaiting st) = seats st"
  "stage (settleTableToWaiting st) = stage st"
  "communityCards (settleTableToWaiting st) = communityCards st"
  "resolvedPots (settleTableToWaiting st) = resolvedPots st"
  "recentHands (settleTableToWaiting st) = recentHands st"
  "revealedSeatIndexes (settleTableToWaiting st) = revealedSeatIndexes st"
  by (simp_all add: settleTableToWaiting_def)

lemma clearSeatAfterHand_simps [simp]:
  "seatIndex (clearSeatAfterHand s) = seatIndex s"
  "stackAmount (clearSeatAfterHand s) = stackAmount s"
  "committedAmount (clearSeatAfterHand s) = 0"
  "totalCommittedAmount (clearSeatAfterHand s) = 0"
  "holeCards (clearSeatAfterHand s) = holeCards s"
  "userId (clearSeatAfterHand s) = userId s"
  by (simp_all add: clearSeatAfterHand_def)

lemma cleared_chips:
  "seats st' = map clearSeatAfterHand (seats st) \<Longrightarrow> tableChips st' = stackTotal st"
  by (simp add: tableChips_def stackTotal_def seatChips_def comp_def)

lemma cleared_settled:
  assumes "seats st' = map clearSeatAfterHand (seats st)" and "tableStatus st' = TableWaiting"
    and "distinct (map seatIndex (seats st))" and "\<forall>s \<in> set (seats st). 0 \<le> stackAmount s"
  shows "settledTable st'"
  using assms by (auto simp: settledTable_def comp_def)

subsubsection \<open>The last seat standing\<close>

lemma settleByFold_ok:
  assumes "wellSeated st" and ok: "settleByFold now cs st = Inr st'"
  shows "settledTable st' \<and> tableChips st' = tableChips st \<and>
    map seatIndex (seats st') = map seatIndex (seats st)"
proof -
  have nonneg: "\<And>s. s \<in> set (seats st) \<Longrightarrow> 0 \<le> totalCommittedAmount s"
    and distinct: "distinct (map seatIndex (seats st))"
    using assms(1) by (auto simp: wellSeated_def)
  from ok obtain w rest where w: "listNonFoldedSeats st = w # rest"
    by (auto simp: settleByFold_def split: list.splits)
  let ?total = "potsTotal (buildPendingPotViews st)"
  let ?f = "\<lambda>s. awardToSeatStack ?total s\<lparr>winner := True,
      lastAction := (case lastAction s of None \<Rightarrow> Some ''Win'' | Some a \<Rightarrow> Some a)\<rparr>"
  have total: "potsTotal (map (\<lambda>p. p\<lparr>rakeAmount := 0, winnerSeatIndexes := [seatIndex w]\<rparr>)
      (buildPendingPotViews st)) = ?total"
    by (simp add: potsTotal_def comp_def)
  let ?st1 = "updateSeat (seatIndex w) ?f st"
  have seats: "seats st' = map clearSeatAfterHand (seats ?st1)"
    using ok w by (auto simp: settleByFold_def Let_def total)
  have "w \<in> set (seats st)" using w by (metis mem_listNonFoldedSeats list.set_intros(1))
  then have found: "find (\<lambda>s. seatIndex s = seatIndex w) (seats st) = Some w"
    by (rule find_key_distinct [OF distinct])
  have "stackTotal ?st1 = stackTotal st + ?total"
    by (simp add: stackTotal_def seatStore.sum_upd [OF found])
  also have "\<dots> = tableChips st"
    by (simp add: tableChips_split buildPendingPotViews_total [OF nonneg])
  finally have chips: "tableChips st' = tableChips st" using cleared_chips [OF seats] by simp
  have idx: "map seatIndex (seats ?st1) = map seatIndex (seats st)"
    by (rule seatStore.keys_upd) simp
  have "0 \<le> committedTotal st"
    unfolding committedTotal_def by (rule sum_list_nonneg) (use nonneg in auto)
  then have "0 \<le> ?total" by (simp only: buildPendingPotViews_total [OF nonneg])
  then have "\<forall>s \<in> set (seats ?st1). 0 \<le> stackAmount s"
    using assms(1) by (auto simp: seatStore.entries_upd_map [OF distinct] wellSeated_def)
  then have "settledTable st'"
    using distinct idx by (intro cleared_settled [OF seats settleByFold_status [OF ok]]) auto
  with chips idx show ?thesis by (simp add: seats comp_def)
qed

lemma settleByFold_total:
  "listNonFoldedSeats st \<noteq> [] \<Longrightarrow> \<exists>st'. settleByFold now cs st = Inr st'"
  by (auto simp: settleByFold_def Let_def split: list.splits)

subsubsection \<open>Showdown\<close>

lemma evaluateShowdown_frame:
  "evaluateShowdown ss st = Inr (st', hands) \<Longrightarrow>
     sameCore st st' \<and> map stackAmount (seats st') = map stackAmount (seats st) \<and>
     map fst hands = map seatIndex ss"
proof (induction ss arbitrary: st st' hands)
  case (Cons s ss)
  from Cons.prems obtain h hands' where
    rest: "evaluateShowdown ss
      (updateSeat (seatIndex s) (\<lambda>x. x\<lparr>bestHand := Some (best_hand.truncate h)\<rparr>) st) = Inr (st', hands')"
    and hands: "hands = (seatIndex s, h) # hands'"
    by (auto split: sum.splits)
  let ?st1 = "updateSeat (seatIndex s) (\<lambda>x. x\<lparr>bestHand := Some (best_hand.truncate h)\<rparr>) st"
  have "sameCore st ?st1" by (rule updateSeat_sameCore) (simp add: seatCore_def)
  moreover have "map stackAmount (seats ?st1) = map stackAmount (seats st)"
    by (simp add: updateSeat_def map_update_first)
  ultimately show ?case
    using Cons.IH [OF rest] by (auto simp: hands intro: sameCore_trans)
qed simp

lemma evaluateShowdown_total:
  "(\<And>s. s \<in> set ss \<Longrightarrow> 5 \<le> length (holeCards s) + length (communityCards st)) \<Longrightarrow>
     \<exists>r. evaluateShowdown ss st = Inr r"
proof (induction ss arbitrary: st)
  case (Cons s ss)
  have "5 \<le> length (holeCards s @ communityCards st)" using Cons.prems by simp
  then obtain h where h: "evaluateBestHoldemHand (holeCards s @ communityCards st) = Inr h"
    by (metis evaluateBest_candidates)
  obtain r where "evaluateShowdown ss
      (updateSeat (seatIndex s) (\<lambda>x. x\<lparr>bestHand := Some (best_hand.truncate h)\<rparr>) st) = Inr r"
    using Cons.IH Cons.prems by (metis list.set_intros(2) updateSeat_frame(5))
  with h show ?case by (cases r) simp
qed simp

text \<open>
  Some seat still in the hand committed at least as much as every other seat: then no pot
  is left without a seat that can win it.
\<close>

definition topIsLive :: "table \<Rightarrow> bool" where
  "topIsLive st =
     (\<exists>x \<in> set (seats st). isNonFolded x \<and>
        (\<forall>s \<in> set (seats st). totalCommittedAmount s \<le> totalCommittedAmount x))"

lemma topIsLive_eligible:
  assumes "wellSeated st" and "topIsLive st" and p: "p \<in> set (buildPendingPotViews st)"
  shows "eligibleForPot st p \<noteq> []"
proof -
  obtain x where x: "x \<in> set (seats st)" "isNonFolded x"
    and top: "\<And>s. s \<in> set (seats st) \<Longrightarrow> totalCommittedAmount s \<le> totalCommittedAmount x"
    using assms(2) by (auto simp: topIsLive_def)
  from p obtain l where l: "l \<in> set (contributionLevels (contributingSeats st))"
    and elig: "eligibleSeatIndexes p = levelEligible (contributingSeats st) l"
    by (rule pendingPot_cases)
  from l obtain s where "s \<in> set (seats st)" "0 < totalCommittedAmount s" "l = totalCommittedAmount s"
    by (auto simp: contributionLevels_def contributingSeats_def)
  with top have "l \<le> totalCommittedAmount x" "0 < totalCommittedAmount x" by fastforce+
  with x have "seatIndex x \<in> set (eligibleSeatIndexes p)"
    by (auto simp: elig levelEligible_def contributingSeats_def isNonFolded_def)
  moreover have "findSeatByIndex st (Some (seatIndex x)) = Some x"
    using assms(1) x(1) by (simp add: findSeatByIndex_Some wellSeated_def find_key_distinct)
  ultimately have "seatIndex x \<in> set (eligibleForPot st p)"
    using x(2) by (simp add: eligibleForPot_def isNonFolded_def)
  then show ?thesis by (metis empty_iff list.set(1))
qed

lemma buildPendingPotViews_sameCore_total:
  assumes "wellSeated st" and "sameCore st st1" and "wellSeated st1"
  shows "potsTotal (buildPendingPotViews st1) = committedTotal st"
  using assms buildPendingPotViews_total [of st1] sameCore_committedTotal [of st st1]
  by (simp add: wellSeated_def)

lemma div_int_nat_nonneg: "0 \<le> a \<Longrightarrow> 0 \<le> a div int n"
  by (cases "n = 0") (simp_all add: pos_imp_zdiv_nonneg_iff)

lemma awardShares_stacks_nonneg:
  "\<forall>s \<in> set (seats st). 0 \<le> stackAmount s \<Longrightarrow> 0 \<le> share \<Longrightarrow>
     \<forall>s \<in> set (seats (awardShares share r idxs st)). 0 \<le> stackAmount s"
proof (induction share r idxs st rule: awardShares.induct)
  case (2 share r i idxs st)
  let ?f = "\<lambda>s. (awardToSeatStack (share + (if r > 0 then 1 else 0)) s)\<lparr>winner := True\<rparr>"
  have step: "\<forall>s \<in> set (seats (updateSeat i ?f st)). 0 \<le> stackAmount s"
    using "2.prems" set_update_first_subset [of "\<lambda>s. seatIndex s = i" ?f "seats st"]
    by (auto simp: updateSeat_def)
  show ?case
  proof (cases "findSeatByIndex st (Some i) = None")
    case True
    with 2 show ?thesis by simp
  next
    case False
    with "2.IH"(2) [OF False step "2.prems"(2)] show ?thesis
      by (simp only: awardShares.simps if_False)
  qed
qed simp

lemma settlePots_stacks_nonneg:
  "settlePots hands ps st = Inr (st', ps') \<Longrightarrow> \<forall>s \<in> set (seats st). 0 \<le> stackAmount s \<Longrightarrow>
     \<forall>p \<in> set ps. 0 \<le> amount p \<Longrightarrow> \<forall>s \<in> set (seats st'). 0 \<le> stackAmount s"
proof (induction ps arbitrary: st st' ps')
  case (Cons p ps)
  from Cons.prems(1) obtain st1 p1 ps1 where one: "settlePot hands p st = Inr (st1, p1)"
    and rest: "settlePots hands ps st1 = Inr (st', ps1)"
    by (auto split: sum.splits)
  have "\<forall>s \<in> set (seats st1). 0 \<le> stackAmount s"
  proof (cases "eligibleForPot st p = []")
    case True
    with one Cons.prems(2) show ?thesis by (simp add: settlePot_def)
  next
    case False
    with one obtain ws where "st1 = awardShares (amount p div int (length ws))
        (amount p mod int (length ws)) (sortSeatIndexesLeftOfDealer st ws) st"
      by (auto simp: settlePot_def Let_def split: sum.splits)
    moreover have "0 \<le> amount p div int (length ws)"
      using Cons.prems(3) by (simp add: div_int_nat_nonneg)
    ultimately show ?thesis using awardShares_stacks_nonneg [OF Cons.prems(2)] by simp
  qed
  with Cons.IH [OF rest] Cons.prems(3) show ?case by simp
qed simp

lemma settlePot_total:
  "(\<And>i. i \<in> set (eligibleForPot st p) \<Longrightarrow> map_of hands i \<noteq> None) \<Longrightarrow>
     \<exists>r. settlePot hands p st = Inr r"
proof (cases "eligibleForPot st p = []")
  case False
  moreover assume "\<And>i. i \<in> set (eligibleForPot st p) \<Longrightarrow> map_of hands i \<noteq> None"
  ultimately obtain ws where "pickPotWinners hands (eligibleForPot st p) = Inr ws"
    using pickPotWinners_ok by blast
  with False show ?thesis by (simp add: settlePot_def Let_def)
qed (simp add: settlePot_def)

lemma settlePots_total:
  "(\<And>p i. p \<in> set ps \<Longrightarrow> i \<in> set (eligibleForPot st p) \<Longrightarrow> map_of hands i \<noteq> None) \<Longrightarrow>
     \<exists>r. settlePots hands ps st = Inr r"
proof (induction ps arbitrary: st)
  case (Cons p ps)
  obtain r where r: "settlePot hands p st = Inr r"
    using settlePot_total [of st p hands] Cons.prems [of p] by auto
  then obtain st1 p1 where one: "settlePot hands p st = Inr (st1, p1)" by (cases r) auto
  have "eligibleForPot st1 = eligibleForPot st"
    using settlePot_ok [OF one] by (auto simp: eligibleForPot_sameCore)
  then have "\<exists>r. settlePots hands ps st1 = Inr r"
    using Cons.prems by (intro Cons.IH) auto
  then obtain r1 where "settlePots hands ps st1 = Inr r1" ..
  with one show ?case by (cases r1) simp
qed simp

lemma finishShowdown_seats:
  assumes "distinct (map seatIndex (seats st))"
  shows "\<exists>st1 :: table. seats (finishShowdown now ss pots st) = map clearSeatAfterHand (seats st1) \<and>
    map seatIndex (seats st1) = map seatIndex (seats st) \<and>
    map stackAmount (seats st1) = map stackAmount (seats st)"
proof -
  let ?solo = "if pots = [] \<and> length ss = 1 then [seatIndex (hd ss)] else []"
  let ?st1 = "foldl (\<lambda>t i. updateSeat i (\<lambda>s. s\<lparr>winner := True\<rparr>) t) st ?solo"
  have a: "seats (finishShowdown now ss pots st) = map clearSeatAfterHand (seats ?st1)"
    by (simp add: finishShowdown_def Let_def)
  have b: "map seatIndex (seats ?st1) = map seatIndex (seats st)"
    by (simp add: updateSeat_def map_update_first)
  have c: "map stackAmount (seats ?st1) = map stackAmount (seats st)"
    by (simp add: updateSeat_def map_update_first)
  show ?thesis by (intro exI [of _ ?st1] conjI a b c)
qed

lemma map_stack_total: "map stackAmount (seats a) = map stackAmount (seats b) \<Longrightarrow> stackTotal a = stackTotal b"
  by (simp add: stackTotal_def)

lemma stacks_nonneg_cong:
  assumes "map stackAmount (seats a) = map stackAmount (seats b)"
  shows "(\<forall>s \<in> set (seats a). 0 \<le> stackAmount s) = (\<forall>s \<in> set (seats b). 0 \<le> stackAmount s)"
proof -
  have "(\<forall>x \<in> set (map stackAmount (seats a)). 0 \<le> x) = (\<forall>x \<in> set (map stackAmount (seats b)). 0 \<le> x)"
    by (simp only: assms)
  then show ?thesis by simp
qed

lemma wellSeated_sameCore:
  assumes "wellSeated st" and core: "sameCore st st1"
    and "map stackAmount (seats st1) = map stackAmount (seats st)"
  shows "wellSeated st1"
proof -
  have "\<forall>s \<in> set (seats st1). 0 \<le> stackAmount s"
    using assms stacks_nonneg_cong [of st1 st] by (simp add: wellSeated_def)
  moreover have "\<forall>s \<in> set (seats st1). 0 \<le> totalCommittedAmount s"
    using core assms(1) by (auto elim!: sameCore_mem simp: wellSeated_def seatCore_def)
  ultimately show ?thesis
    using assms(1) sameCore_indexes [OF core] by (simp add: wellSeated_def)
qed

lemma topIsLive_sameCore:
  assumes "topIsLive st" and core: "sameCore st st1"
  shows "topIsLive st1"
proof -
  from assms(1) obtain x where x: "x \<in> set (seats st)" "isNonFolded x"
    "\<And>s. s \<in> set (seats st) \<Longrightarrow> totalCommittedAmount s \<le> totalCommittedAmount x"
    by (auto simp: topIsLive_def)
  obtain y where y: "y \<in> set (seats st1)" "seatCore x = seatCore y"
    using core x(1) by (metis sameCore_mem sameCore_sym)
  have "isNonFolded y" using x(2) y(2) by (auto simp: isNonFolded_def isSeatInHand_def seatCore_def)
  moreover have "totalCommittedAmount s \<le> totalCommittedAmount y" if "s \<in> set (seats st1)" for s
  proof -
    from that core obtain t where "t \<in> set (seats st)" "seatCore s = seatCore t"
      by (metis sameCore_mem)
    with x(3) [of t] y(2) show ?thesis by (simp add: seatCore_def)
  qed
  ultimately show ?thesis using y(1) by (auto simp: topIsLive_def)
qed

lemma settleShowdown_ok:
  assumes wf: "wellSeated st" and live: "topIsLive st" and ok: "settleShowdown now st = Inr st'"
  shows "settledTable st' \<and> tableChips st' = tableChips st \<and>
    map seatIndex (seats st') = map seatIndex (seats st)"
proof -
  from ok obtain st1 hands st2 pots where
    ev: "evaluateShowdown (listNonFoldedSeats st) st = Inr (st1, hands)"
    and sp: "settlePots hands (buildPendingPotViews st1) st1 = Inr (st2, pots)"
    and st': "st' = finishShowdown now (listNonFoldedSeats st) pots st2"
    by (auto simp: settleShowdown_def Let_def split: if_splits sum.splits)
  note ev = evaluateShowdown_frame [OF ev]
  note sp' = settlePots_ok [OF sp]
  have idx1: "map seatIndex (seats st1) = map seatIndex (seats st)"
    using ev by (auto simp: sameCore_indexes)
  have idx2: "map seatIndex (seats st2) = map seatIndex (seats st)"
    using sp' idx1 sameCore_indexes by metis
  have core1: "sameCore st st1" and stack1: "map stackAmount (seats st1) = map stackAmount (seats st)"
    using ev by simp_all
  have core2: "sameCore st1 st2" using sp' by simp
  have wf1: "wellSeated st1" by (rule wellSeated_sameCore [OF wf core1 stack1])
  have live1: "topIsLive st1" by (rule topIsLive_sameCore [OF live core1])
  have nonneg1: "\<forall>s \<in> set (seats st1). 0 \<le> stackAmount s" using wf1 by (simp add: wellSeated_def)
  have all: "filter (\<lambda>p. eligibleForPot st1 p \<noteq> []) (buildPendingPotViews st1) = buildPendingPotViews st1"
    using topIsLive_eligible [OF wf1 live1] by (simp add: filter_id_conv)
  have "tableChips st2 = tableChips st1 + committedTotal st"
    using sp' all buildPendingPotViews_sameCore_total [OF wf core1 wf1] by simp
  moreover have "committedTotal st1 = committedTotal st" by (rule sameCore_committedTotal [OF core1])
  moreover have "committedTotal st2 = committedTotal st1" by (rule sameCore_committedTotal [OF core2])
  moreover have "stackTotal st1 = stackTotal st" by (rule map_stack_total [OF stack1])
  ultimately have stacks: "stackTotal st2 = tableChips st" by (simp add: tableChips_split)
  have "\<forall>p \<in> set (buildPendingPotViews st1). 0 \<le> amount p"
    by (auto elim!: pendingPot_cases)
  then have nonneg2: "\<forall>s \<in> set (seats st2). 0 \<le> stackAmount s"
    using settlePots_stacks_nonneg [OF sp nonneg1] by blast
  have d2: "distinct (map seatIndex (seats st2))" using idx2 wf by (simp add: wellSeated_def)
  obtain st3 :: table where st3: "seats st' = map clearSeatAfterHand (seats st3)"
    "map seatIndex (seats st3) = map seatIndex (seats st2)"
    "map stackAmount (seats st3) = map stackAmount (seats st2)"
    unfolding st' using finishShowdown_seats [OF d2] by blast
  have "\<forall>s \<in> set (seats st3). 0 \<le> stackAmount s"
    using nonneg2 stacks_nonneg_cong [OF st3(3)] by simp
  then have "settledTable st'"
    using d2 st3 by (intro cleared_settled [OF st3(1) settleShowdown_status [OF ok]]) auto
  moreover have "tableChips st' = tableChips st"
    using cleared_chips [OF st3(1)] map_stack_total [OF st3(3)] stacks by simp
  ultimately show ?thesis using st3 idx2 by (simp add: comp_def)
qed

lemma settleShowdown_total:
  assumes "wellSeated st" and some: "listNonFoldedSeats st \<noteq> []"
    and cards: "5 \<le> length (communityCards st)"
    and committed: "\<And>s. s \<in> set (seats st) \<Longrightarrow> 0 < totalCommittedAmount s \<Longrightarrow> isSeatInHand s"
  shows "\<exists>st'. settleShowdown now st = Inr st'"
proof -
  obtain r where "evaluateShowdown (listNonFoldedSeats st) st = Inr r"
    using evaluateShowdown_total [of "listNonFoldedSeats st" st] cards by auto
  then obtain st1 hands where ev: "evaluateShowdown (listNonFoldedSeats st) st = Inr (st1, hands)"
    by (cases r) auto
  note frame = evaluateShowdown_frame [OF ev]
  have distinct1: "distinct (map seatIndex (seats st1))"
    using frame assms(1) by (auto simp: sameCore_indexes wellSeated_def)
  have "map_of hands i \<noteq> None"
    if p: "p \<in> set (buildPendingPotViews st1)" and i: "i \<in> set (eligibleForPot st1 p)" for p i
  proof -
    from p obtain l where "eligibleSeatIndexes p = levelEligible (contributingSeats st1) l"
      by (rule pendingPot_cases)
    moreover have "i \<in> set (eligibleSeatIndexes p)" using i by (auto dest: eligibleForPot_found)
    ultimately obtain s1 where s1: "s1 \<in> set (seats st1)" "seatStatus s1 \<noteq> SeatFolded"
      "0 < totalCommittedAmount s1" "i = seatIndex s1"
      by (auto simp: levelEligible_def contributingSeats_def)
    obtain s where s: "s \<in> set (seats st)" "seatCore s1 = seatCore s"
      using frame s1(1) by (metis sameCore_mem)
    have "isNonFolded s"
      using committed [OF s(1)] s1 s(2) by (simp add: isNonFolded_def seatCore_def)
    with s s1 have "i \<in> set (map seatIndex (listNonFoldedSeats st))"
      by (auto simp: mem_listNonFoldedSeats seatCore_def)
    then show ?thesis using frame by (metis map_of_eq_None_iff set_map)
  qed
  then obtain r where "settlePots hands (buildPendingPotViews st1) st1 = Inr r"
    using settlePots_total by metis
  then show ?thesis
    using ev some by (cases r) (simp add: settleShowdown_def Let_def)
qed

end
