(* ===== verification/Holdem_Actions.thy ===== *)
theory Holdem_Actions
  imports Complex_Main Holdem_Settlement
begin

text \<open>
  Player actions, \<open>engine.ts\<close>: what a seat may do, the passive actions, bets and raises,
  and the two entry points \<open>actOnHoldemSeat\<close> and \<open>actOnHoldemTable\<close>.

  The amount of a bet arrives as a string.  Reading it is the work of \<open>decimal.js\<close>,
  which is not part of the repository: the parser is the parameter \<open>parse\<close>, with
  \<open>None\<close> where the constructor throws.
\<close>

datatype decimal = NonFinite | Finite rat

type_synonym decimal_parser = "string \<Rightarrow> decimal option"

text \<open>
  \<open>label ++ text\<close> are the error messages of the source; a value with at most two decimal
  places is a whole number of cents.
\<close>

definition parseTargetAmount :: "decimal_parser \<Rightarrow> string option \<Rightarrow> string \<Rightarrow> cents res" where
  "parseTargetAmount parse v lbl =
     (case v of
        None \<Rightarrow> Inl (BadRequest (lbl @ '' amount is required.''))
      | Some text \<Rightarrow>
          if text = [] then Inl (BadRequest (lbl @ '' amount is required.''))
          else case parse text of
                 Some (Finite r) \<Rightarrow>
                   if r \<le> 0 \<or> of_int \<lfloor>100 * r\<rfloor> \<noteq> 100 * r
                   then Inl (BadRequest (''Invalid '' @ lbl @ '' amount.''))
                   else Inr \<lfloor>100 * r\<rfloor>
               | _ \<Rightarrow> Inl (BadRequest (''Invalid '' @ lbl @ '' amount.'')))"

record availability =
  av_actions :: "holdem_action list"
  av_toCall :: cents
  av_currentBet :: cents
  av_minimumRaiseTo :: "cents option"
  av_maximumRaiseTo :: "cents option"
  av_minimumBetTo :: cents

definition resolveHoldemActionAvailability :: "table \<Rightarrow> nat \<Rightarrow> availability option" where
  "resolveHoldemActionAvailability st i =
     (if tableStatus st \<noteq> TableActive \<or> pendingActorSeatIndex st \<noteq> Some i then None
      else case findSeatByIndex st (Some i) of
        None \<Rightarrow> None
      | Some s \<Rightarrow>
          if seatStatus s \<noteq> SeatActive then None
          else
            let committed = committedAmount s;
                stack = stackAmount s;
                toCall = max (currentBet st - committed) 0;
                maximumRaiseTo = committed + stack;
                minimumBetTo = bigBlind st;
                minimumRaiseTo =
                  (if currentBet st > 0 then currentBet st + lastFullRaiseSize st
                   else minimumBetTo);
                soloHand = isSoloHoldemState st
            in Some
              \<lparr>av_actions =
                 (if toCall > 0 then [Fold, Call] else [Check]) @
                 (if \<not> soloHand \<and> stack > 0 \<and> currentBet st = 0 \<and> maximumRaiseTo \<ge> minimumBetTo
                  then [Bet] else []) @
                 (if \<not> soloHand \<and> stack > 0 \<and> currentBet st > 0 \<and> maximumRaiseTo \<ge> minimumRaiseTo
                  then [Raise] else []) @
                 (if \<not> soloHand \<and> stack > 0 then [AllIn] else []),
               av_toCall = toCall,
               av_currentBet = currentBet st,
               av_minimumRaiseTo =
                 (if currentBet st > 0 \<and> maximumRaiseTo \<ge> minimumRaiseTo
                  then Some minimumRaiseTo else None),
               av_maximumRaiseTo = (if stack > 0 then Some maximumRaiseTo else None),
               av_minimumBetTo = minimumBetTo\<rparr>)"

definition resolveHoldemTimeoutAction :: "table \<Rightarrow> nat \<Rightarrow> holdem_action option" where
  "resolveHoldemTimeoutAction st i =
     (case resolveHoldemActionAvailability st i of
        None \<Rightarrow> None
      | Some a \<Rightarrow>
          if Check \<in> set (av_actions a) then Some Check
          else if Fold \<in> set (av_actions a) then Some Fold
          else None)"

text \<open>Hand the turn to the next seat that can act.\<close>

definition passTurn :: "nat \<Rightarrow> table \<Rightarrow> table" where
  "passTurn i st = st\<lparr>pendingActorSeatIndex := resolveNextActionableSeatIndex st i\<rparr>"

definition applyPassiveSeatAction :: "table \<Rightarrow> seat \<Rightarrow> holdem_action \<Rightarrow> table res" where
  "applyPassiveSeatAction st s action =
     (let i = seatIndex s in
      case action of
        Fold \<Rightarrow>
          Inr (passTurn i
            (updateSeat i (\<lambda>x. x\<lparr>seatStatus := SeatFolded, lastAction := Some ''Fold''\<rparr>) st))
      | Check \<Rightarrow>
          if committedAmount s < currentBet st then
            Inl (Conflict ''You cannot check while facing a bet.'')
          else
            Inr (passTurn i (markSeatActed i
              (updateSeat i (\<lambda>x. x\<lparr>lastAction := Some ''Check''\<rparr>) st)))
      | Call \<Rightarrow>
          let toCall = max (currentBet st - committedAmount s) 0 in
          if toCall \<le> 0 then Inl (Conflict ''There is nothing to call.'')
          else
            Inr (passTurn i (markSeatActed i
              (updateSeat i (\<lambda>x. (postFromStack toCall x)\<lparr>lastAction := Some ''Call''\<rparr>) st)))
      | _ \<Rightarrow> Inr st)"

text \<open>The total the acting seat wants to have in front of it.\<close>

definition resolveTargetTotal ::
  "decimal_parser \<Rightarrow> table \<Rightarrow> seat \<Rightarrow> holdem_action \<Rightarrow> string option \<Rightarrow> cents res" where
  "resolveTargetTotal parse st s action amt =
     (if action = AllIn then Inr (committedAmount s + stackAmount s)
      else if action = Bet then
        (if currentBet st > 0 then Inl (Conflict ''Use raise when betting is already open.'')
         else bind_res (parseTargetAmount parse amt ''Bet'') (\<lambda>t.
           if t < bigBlind st then Inl (Conflict ''Bet amount is below the big blind.'')
           else Inr t))
      else
        (if currentBet st \<le> 0 then
           Inl (Conflict ''Use bet when no one has opened the action.'')
         else bind_res (parseTargetAmount parse amt ''Raise'') (\<lambda>t.
           if t < currentBet st + lastFullRaiseSize st then
             Inl (Conflict ''Raise amount is below the minimum raise.'')
           else Inr t)))"

text \<open>The size of the last full raise after a bet, a raise or an all-in to \<open>target\<close>.\<close>

definition nextFullRaiseSize :: "table \<Rightarrow> holdem_action \<Rightarrow> cents \<Rightarrow> cents" where
  "nextFullRaiseSize st action target =
     (if action = Bet then target
      else if action = Raise then target - currentBet st
      else if currentBet st = 0 \<and> target \<ge> bigBlind st then target
      else if currentBet st > 0 \<and> target - currentBet st \<ge> lastFullRaiseSize st
      then target - currentBet st
      else lastFullRaiseSize st)"

definition actionLabel :: "holdem_action \<Rightarrow> string" where
  "actionLabel action =
     (case action of Bet \<Rightarrow> ''Bet'' | Raise \<Rightarrow> ''Raise'' | _ \<Rightarrow> ''All-in'')"

definition applyBetOrRaise ::
  "decimal_parser \<Rightarrow> table \<Rightarrow> seat \<Rightarrow> holdem_action \<Rightarrow> string option \<Rightarrow> table res" where
  "applyBetOrRaise parse st s action amt =
     bind_res (resolveTargetTotal parse st s action amt) (\<lambda>target.
       let i = seatIndex s;
           committed = committedAmount s
       in if target > committed + stackAmount s then
            Inl (Conflict ''Action exceeds the chips available in front of you.'')
          else if target \<le> committed then
            Inl (Conflict ''Action amount must move the current bet forward.'')
          else
            Inr (passTurn i (resetActedSeatsForNextResponse i
              ((updateSeat i
                  (\<lambda>x. (postFromStack (target - committed) x)
                         \<lparr>lastAction := Some (actionLabel action)\<rparr>) st)
               \<lparr>currentBet := (if target > currentBet st then target else currentBet st),
                lastFullRaiseSize := nextFullRaiseSize st action target\<rparr>))))"

definition actOnHoldemSeat ::
  "decimal_parser \<Rightarrow> int \<Rightarrow> table \<Rightarrow> nat \<Rightarrow> holdem_action \<Rightarrow> string option \<Rightarrow> table res" where
  "actOnHoldemSeat parse now st i action amt =
     (case (tableStatus st, stage st) of
        (TableActive, Some currentStage) \<Rightarrow>
          (case findSeatByIndex st (Some i) of
             None \<Rightarrow> Inl (Conflict ''It is not your turn to act.'')
           | Some s \<Rightarrow>
               if pendingActorSeatIndex st \<noteq> Some (seatIndex s) then
                 Inl (Conflict ''It is not your turn to act.'')
               else if seatStatus s \<noteq> SeatActive then
                 Inl (Conflict ''This seat cannot act right now.'')
               else if (case resolveHoldemActionAvailability st (seatIndex s) of
                          None \<Rightarrow> True | Some a \<Rightarrow> action \<notin> set (av_actions a)) then
                 Inl (Conflict ''That holdem action is not available right now.'')
               else
                 bind_res
                   (if action \<in> {Fold, Check, Call} then applyPassiveSeatAction st s action
                    else if action \<in> {Bet, Raise} then applyBetOrRaise parse st s action amt
                    else applyBetOrRaise parse st s AllIn None)
                   (resolveTerminalAndStreetProgression now currentStage))
      | _ \<Rightarrow> Inl (Conflict ''There is no active holdem hand at this table.''))"

definition actOnHoldemTable ::
  "decimal_parser \<Rightarrow> int \<Rightarrow> table \<Rightarrow> nat \<Rightarrow> holdem_action \<Rightarrow> string option \<Rightarrow> table res" where
  "actOnHoldemTable parse now st uid action amt =
     (case find (\<lambda>s. userId s = uid) (seats st) of
        None \<Rightarrow> Inl (Conflict ''You are not seated at this holdem table.'')
      | Some s \<Rightarrow> actOnHoldemSeat parse now st (seatIndex s) action amt)"

end
