(* ===== verification/Fair_Random.thy ===== *)
theory Fair_Random
  imports Holdem_Model "HOL-Library.Word"
begin

text \<open>
  The provably fair randomness the games share: digests, how the sources print and join
  what they hash, and the order of the rendered card.  \<open>node:crypto\<close> is not part of the
  repository: SHA-256 is the parameter \<open>sha256\<close>, from a text to its digest bytes, and
  everything proved holds for every such function.
\<close>

type_synonym digest = "8 word list"

type_synonym hash_function = "string \<Rightarrow> digest"

subsection \<open>Rendering\<close>

definition hexDigit :: "nat \<Rightarrow> char" where
  "hexDigit n = (if n < 10 then char_of (48 + n) else char_of (87 + n))"

definition toHex :: "digest \<Rightarrow> string" where
  "toHex bs = concat (map (\<lambda>b. [hexDigit (unat b div 16), hexDigit (unat b mod 16)]) bs)"

text \<open>\<open>digest.readUInt32BE(0)\<close>: the first four bytes, big-endian.\<close>

definition readUInt32BE :: "digest \<Rightarrow> nat" where
  "readUInt32BE bs = foldl (\<lambda>n b. n * 256 + unat b) 0 (take 4 bs)"

fun joinWith :: "string \<Rightarrow> string list \<Rightarrow> string" where
  "joinWith sep [] = []"
| "joinWith sep [x] = x"
| "joinWith sep (x # y # xs) = x @ sep @ joinWith sep (y # xs)"

fun showRank :: "card_rank \<Rightarrow> string" where
  "showRank R2 = ''2''" | "showRank R3 = ''3''" | "showRank R4 = ''4''"
| "showRank R5 = ''5''" | "showRank R6 = ''6''" | "showRank R7 = ''7''"
| "showRank R8 = ''8''" | "showRank R9 = ''9''" | "showRank R10 = ''10''"
| "showRank RJ = ''J''" | "showRank RQ = ''Q''" | "showRank RK = ''K''"
| "showRank RA = ''A''"

fun showSuit :: "card_suit \<Rightarrow> string" where
  "showSuit Spades = ''spades''"
| "showSuit Hearts = ''hearts''"
| "showSuit Diamonds = ''diamonds''"
| "showSuit Clubs = ''clubs''"


text \<open>A card as the deck digests print it.\<close>

definition showCard :: "card \<Rightarrow> string" where
  "showCard c = showRank (rank c) @ ''-'' @ showSuit (suit c)"

end
