(* ===== verification/Holdem_Start.thy ===== *)
theory Holdem_Start
  imports Holdem_Actions Fair_Random
begin

text \<open>
  Starting a hand, \<open>engine.ts\<close>: the provably fair deck (a Fisher-Yates shuffle driven by
  hash digests), the deal, and the blinds.
\<close>

subsection \<open>The deck\<close>

definition HOLDEM_DECK_TEMPLATE :: "card list" where
  "HOLDEM_DECK_TEMPLATE =
     concat (map (\<lambda>s. map (\<lambda>r. \<lparr>rank = r, suit = s\<rparr>)
         [R2, R3, R4, R5, R6, R7, R8, R9, R10, RJ, RQ, RK, RA])
       [Spades, Hearts, Diamonds, Clubs])"

definition deriveHoldemHandSeed ::
  "hash_function \<Rightarrow> string \<Rightarrow> nat \<Rightarrow> nat \<Rightarrow> nat list \<Rightarrow> string" where
  "deriveHoldemHandSeed sha256 seed tid handNo uids =
     toHex (sha256 (joinWith '':''
       [''holdem-hand-seed-v1'', seed, show_digits tid, show_digits handNo,
        joinWith '','' (map show_digits uids)]))"

text \<open>The swap loop, \<open>cursor\<close> running down to 1; it returns the deck and the digests.\<close>

fun shuffleLoop ::
  "hash_function \<Rightarrow> string \<Rightarrow> nat \<Rightarrow> card list \<Rightarrow> string list \<Rightarrow> (card list \<times> string list) res"
where
  "shuffleLoop sha256 handSeed 0 cards digests = Inr (cards, digests)"
| "shuffleLoop sha256 handSeed (Suc k) cards digests =
     (let cursor = Suc k;
          digest = sha256 (handSeed @ '':swap:'' @ show_digits cursor);
          swapIndex = readUInt32BE digest mod (cursor + 1)
      in if cursor < length cards \<and> swapIndex < length cards then
           shuffleLoop sha256 handSeed k
             (cards[cursor := cards ! swapIndex, swapIndex := cards ! cursor])
             (digests @ [toHex digest])
         else Inl (InternalInvariant ''Failed to shuffle holdem deck.''))"

record shuffled =
  sh_deck :: "card list"
  sh_deckDigest :: string
  sh_rngDigest :: string

definition shuffleHoldemDeck :: "hash_function \<Rightarrow> string \<Rightarrow> shuffled res" where
  "shuffleHoldemDeck sha256 handSeed =
     (case shuffleLoop sha256 handSeed (length HOLDEM_DECK_TEMPLATE - 1) HOLDEM_DECK_TEMPLATE [] of
        Inl e \<Rightarrow> Inl e
      | Inr (cards, digests) \<Rightarrow>
          Inr \<lparr>sh_deck = cards,
               sh_deckDigest = toHex (sha256 (joinWith '':''
                 (map showCard cards))),
               sh_rngDigest = toHex (sha256 (joinWith '':'' digests))\<rparr>)"

record fairness_seed =
  fs_seed :: string
  fs_epoch :: int
  fs_epochSeconds :: int
  fs_commitHash :: string

definition buildHoldemFairness ::
  "fairness_seed \<Rightarrow> string \<Rightarrow> string \<Rightarrow> string \<Rightarrow> fairness" where
  "buildHoldemFairness fs handCommitHash deckDig rngDig =
     \<lparr>epoch = fs_epoch fs, epochSeconds = fs_epochSeconds fs, commitHash = handCommitHash,
      sourceCommitHash = Some (fs_commitHash fs), deckDigest = deckDig, rngDigest = rngDig,
      revealSeed = None, revealedAt = None\<rparr>"

subsection \<open>Dealing and posting the blinds\<close>

definition resetSeatForHand :: "seat \<Rightarrow> seat" where
  "resetSeatForHand s =
     s\<lparr>committedAmount := 0, totalCommittedAmount := 0, holeCards := [], lastAction := None,
       winner := False, bestHand := None,
       seatStatus := (if isSeatEligibleForHand s then SeatActive else SeatWaiting)\<rparr>"

fun dealHoleRound :: "nat list \<Rightarrow> table \<Rightarrow> table res" where
  "dealHoleRound [] st = Inr st"
| "dealHoleRound (i # is) st =
     (case takeNextCard st of
        Inl e \<Rightarrow> Inl e
      | Inr (c, st') \<Rightarrow>
          dealHoleRound is (updateSeat i (\<lambda>s. s\<lparr>holeCards := holeCards s @ [c]\<rparr>) st'))"

definition postBlinds :: "table \<Rightarrow> table" where
  "postBlinds st =
     (case (findSeatByIndex st (smallBlindSeatIndex st), findSeatByIndex st (bigBlindSeatIndex st)) of
        (Some sb, Some bb) \<Rightarrow>
          let st1 = updateSeat (seatIndex sb)
                (\<lambda>s. (postFromStack (smallBlind st) s)\<lparr>lastAction := Some ''Small blind''\<rparr>) st;
              st2 = updateSeat (seatIndex bb)
                (\<lambda>s. (postFromStack (bigBlind st) s)\<lparr>lastAction := Some ''Big blind''\<rparr>) st1;
              committedOf = (\<lambda>i. case findSeatByIndex st2 i of
                                   None \<Rightarrow> 0 | Some s \<Rightarrow> committedAmount s)
          in st2\<lparr>currentBet := max (committedOf (bigBlindSeatIndex st2))
                                   (committedOf (smallBlindSeatIndex st2))\<rparr>
      | _ \<Rightarrow> st)"

text \<open>The table once the deck is shuffled, before any card is dealt.\<close>

definition openHand ::
  "hash_function \<Rightarrow> fairness_seed \<Rightarrow> string \<Rightarrow> shuffled \<Rightarrow> nat \<Rightarrow> nat option \<Rightarrow> nat option
     \<Rightarrow> table \<Rightarrow> table" where
  "openHand sha256 fs handSeed shuf dealer sb bb st =
     st\<lparr>seats := map resetSeatForHand (seats st),
        tableStatus := TableActive, handNumber := handNumber st + 1, stage := Some Preflop,
        dealerSeatIndex := Some dealer, smallBlindSeatIndex := sb, bigBlindSeatIndex := bb,
        communityCards := [], deck := sh_deck shuf, nextCardIndex := 0,
        fairnessSeed := Some handSeed, currentBet := 0, lastFullRaiseSize := bigBlind st,
        table_fairness :=
          Some (buildHoldemFairness fs (toHex (sha256 handSeed))
                  (sh_deckDigest shuf) (sh_rngDigest shuf)),
        revealedSeatIndexes := [], table_winnerSeatIndexes := [], resolvedPots := []\<rparr>"

text \<open>Two rounds of hole cards, the blinds, and the first turn.\<close>

definition dealAndPost :: "int \<Rightarrow> nat list \<Rightarrow> nat \<Rightarrow> table \<Rightarrow> table res" where
  "dealAndPost now dealOrder firstToPass st =
     bind_res (dealHoleRound dealOrder st) (\<lambda>st1.
       bind_res (dealHoleRound dealOrder st1) (\<lambda>st2.
         let st3 = (postBlinds st2)\<lparr>actedSeatIndexes := []\<rparr>
         in resolveTerminalAndStreetProgression now Preflop (passTurn firstToPass st3)))"

definition startHoldemHand ::
  "hash_function \<Rightarrow> int \<Rightarrow> fairness_seed \<Rightarrow> table \<Rightarrow> table res" where
  "startHoldemHand sha256 now fs st =
     (if tableStatus st = TableActive then
        Inl (Conflict ''Finish the active hand before starting another one.'')
      else if length (listEligibleSeats st) < resolveMinimumRequiredPlayers st then
        Inl (Conflict ''At least two funded seats are required to start a hand.'')
      else if listEligibleHumanSeats st = [] then
        Inl (Conflict ''At least one human seat is required to start a hand.'')
      else
        case resolveNextDealerSeatIndex st of
          None \<Rightarrow> Inl (InternalInvariant ''Dealer seat is missing.'')
        | Some dealer \<Rightarrow>
            bind_res (resolveBlindSeats st dealer) (\<lambda>(sb, bb).
              let dealOrder =
                    resolveDealOrder st (case sb of None \<Rightarrow> dealer | Some i \<Rightarrow> i);
                  handSeed = deriveHoldemHandSeed sha256 (fs_seed fs) (tableId st)
                    (handNumber st + 1) (map userId (listEligibleSeats st))
              in bind_res (shuffleHoldemDeck sha256 handSeed) (\<lambda>shuf.
                   dealAndPost now dealOrder
                     (case bb of None \<Rightarrow> dealer | Some i \<Rightarrow> i)
                     (openHand sha256 fs handSeed shuf dealer sb bb st))))"

end
