(* ===== verification/Holdem_Hand.thy ===== *)
theory Holdem_Hand
  imports Holdem_Actions
begin

text \<open>
  The invariant of a hand in play, and that the loop which advances a table keeps it, keeps
  the chips, and never fails.  On one street every active seat has committed the same base
  on the earlier streets, plus what it committed on this one; nobody committed more than
  the base and the current bet, and somebody still in the hand committed exactly that.
\<close>

definition seatOk :: "cents \<Rightarrow> cents \<Rightarrow> seat \<Rightarrow> bool" where
  "seatOk b cb s =
     (0 \<le> stackAmount s \<and> 0 \<le> committedAmount s \<and> committedAmount s \<le> cb \<and>
      committedAmount s \<le> totalCommittedAmount s \<and>
      totalCommittedAmount s \<le> b + committedAmount s \<and>
      (seatStatus s = SeatActive \<longrightarrow>
         totalCommittedAmount s = b + committedAmount s \<and> 0 < stackAmount s) \<and>
      (\<not> isSeatInHand s \<longrightarrow> totalCommittedAmount s = 0))"

definition boardOk :: "table \<Rightarrow> bool" where
  "boardOk st =
     ((case stage st of
         Some Preflop \<Rightarrow> length (communityCards st) = 0
       | Some Flop \<Rightarrow> length (communityCards st) = 3
       | Some Turn \<Rightarrow> length (communityCards st) = 4
       | Some River \<Rightarrow> length (communityCards st) = 5
       | _ \<Rightarrow> False) \<and>
      nextCardIndex st + (5 - length (communityCards st)) \<le> length (deck st))"

definition turnOk :: "table \<Rightarrow> bool" where
  "turnOk st =
     (listActionableSeats st \<noteq> [] \<longrightarrow>
      (\<exists>s \<in> set (seats st). isSeatActionable s \<and> pendingActorSeatIndex st = Some (seatIndex s)))"

definition leads :: "cents \<Rightarrow> table \<Rightarrow> seat \<Rightarrow> bool" where
  "leads b st x = (isNonFolded x \<and> totalCommittedAmount x = b + currentBet st)"

text \<open>The invariant with the base as an argument, then with the base read off the table.\<close>

definition handInvAt :: "cents \<Rightarrow> table \<Rightarrow> bool" where
  "handInvAt b st =
     (tableStatus st = TableActive \<and> distinct (map seatIndex (seats st)) \<and> 0 \<le> b \<and>
      0 \<le> currentBet st \<and> (\<forall>s \<in> set (seats st). seatOk b (currentBet st) s) \<and>
      (\<exists>x \<in> set (seats st). leads b st x) \<and> boardOk st)"

definition streetBase :: "table \<Rightarrow> cents" where
  "streetBase st = Max (set (map totalCommittedAmount (seats st))) - currentBet st"

definition handInv :: "table \<Rightarrow> bool" where
  "handInv st = (handInvAt (streetBase st) st \<and> turnOk st)"

definition tableInv :: "table \<Rightarrow> bool" where
  "tableInv st =
     (case tableStatus st of
        TableWaiting \<Rightarrow> settledTable st
      | TableActive \<Rightarrow> handInv st \<and> \<not> hasRoundCompleted st)"

lemma handInvAt_base:
  assumes "handInvAt b st"
  shows "streetBase st = b"
proof -
  from assms obtain x where x: "x \<in> set (seats st)" "totalCommittedAmount x = b + currentBet st"
    by (auto simp: handInvAt_def leads_def)
  have "totalCommittedAmount s \<le> b + currentBet st" if "s \<in> set (seats st)" for s
    using assms that by (force simp: handInvAt_def seatOk_def)
  with x have "Max (set (map totalCommittedAmount (seats st))) = b + currentBet st"
    by (intro Max_eqI) (auto intro: rev_image_eqI)
  then show ?thesis by (simp add: streetBase_def)
qed

lemma handInvI: "handInvAt b st \<Longrightarrow> turnOk st \<Longrightarrow> handInv st"
  using handInvAt_base [of b st] by (simp add: handInv_def)

lemma handInvAt_wellSeated: "handInvAt b st \<Longrightarrow> wellSeated st"
  by (force simp: handInvAt_def wellSeated_def seatOk_def)

lemma handInvAt_topIsLive:
  assumes "handInvAt b st"
  shows "topIsLive st"
proof -
  from assms obtain x where "x \<in> set (seats st)" "leads b st x" by (auto simp: handInvAt_def)
  moreover have "totalCommittedAmount s \<le> b + currentBet st" if "s \<in> set (seats st)" for s
    using assms that by (force simp: handInvAt_def seatOk_def)
  ultimately show ?thesis by (auto simp: topIsLive_def leads_def)
qed

lemma handInvAt_nonFolded: "handInvAt b st \<Longrightarrow> listNonFoldedSeats st \<noteq> []"
  using mem_listNonFoldedSeats [of _ st] by (fastforce simp: handInvAt_def leads_def)

lemma handInvAt_committed:
  "handInvAt b st \<Longrightarrow> s \<in> set (seats st) \<Longrightarrow> 0 < totalCommittedAmount s \<Longrightarrow> isSeatInHand s"
  by (force simp: handInvAt_def seatOk_def)

subsection \<open>The next street\<close>

lemma dealCommunity_eq:
  "nextCardIndex st + k \<le> length (deck st) \<Longrightarrow>
     dealCommunity k st =
       Inr (st\<lparr>nextCardIndex := nextCardIndex st + k,
               communityCards := communityCards st @ take k (drop (nextCardIndex st) (deck st))\<rparr>)"
proof (induction k arbitrary: st)
  case (Suc k)
  have card: "nextCardIndex st < length (deck st)" using Suc.prems by simp
  let ?st = "st\<lparr>nextCardIndex := nextCardIndex st + 1,
    communityCards := communityCards st @ [deck st ! nextCardIndex st]\<rparr>"
  have "dealCommunity (Suc k) st = dealCommunity k ?st"
    using card by (simp add: takeNextCard_def)
  also have "\<dots> = Inr (?st\<lparr>nextCardIndex := nextCardIndex ?st + k,
      communityCards := communityCards ?st @ take k (drop (nextCardIndex ?st) (deck ?st))\<rparr>)"
    by (rule Suc.IH) (use Suc.prems in simp)
  finally show ?case
    using card by (simp add: Cons_nth_drop_Suc [symmetric] take_Suc_Cons)
qed simp

lemma resetSeatForStreet_simps [simp]:
  "seatIndex (resetSeatForStreet s) = seatIndex s"
  "stackAmount (resetSeatForStreet s) = stackAmount s"
  "totalCommittedAmount (resetSeatForStreet s) = totalCommittedAmount s"
  "committedAmount (resetSeatForStreet s) = 0"
  "holeCards (resetSeatForStreet s) = holeCards s"
  "isSeatInHand (resetSeatForStreet s) = isSeatInHand s"
  "isNonFolded (resetSeatForStreet s) = isNonFolded s"
  by (simp_all add: resetSeatForStreet_def isSeatInHand_def isNonFolded_def)

lemma openStreet_simps [simp]:
  "seats (openStreet s st) = map resetSeatForStreet (seats st)"
  "currentBet (openStreet s st) = 0"
  "tableStatus (openStreet s st) = tableStatus st"
  "communityCards (openStreet s st) = communityCards st"
  "deck (openStreet s st) = deck st"
  "nextCardIndex (openStreet s st) = nextCardIndex st"
  by (simp_all add: openStreet_def resetStreetCommitments_def Let_def)

lemma openStreet_chips [simp]: "tableChips (openStreet s st) = tableChips st"
  by (simp add: tableChips_def comp_def seatChips_def)

lemma openStreet_turnOk: "turnOk (openStreet s st)"
proof -
  let ?st = "resetStreetCommitments (st\<lparr>stage := Some s\<rparr>)"
  have "\<exists>j \<in> set (map seatIndex (listActionableSeats ?st)). resolveFirstPostflopSeatIndex ?st = Some j"
    if "listActionableSeats ?st \<noteq> []"
    using that nextSeatIndex_Some [of "map seatIndex (listActionableSeats ?st)"]
    by (auto simp: resolveFirstPostflopSeatIndex_def Let_def firstSeatIndex_def
        split: option.splits list.splits)
  moreover have "listActionableSeats (openStreet s st) = listActionableSeats ?st"
    by (simp add: listActionableSeats_def openStreet_def Let_def)
  ultimately show ?thesis
    by (force simp: turnOk_def openStreet_def Let_def mem_listActionableSeats)
qed

lemma seatOk_reset:
  assumes "seatOk b cb s" and "seatStatus s = SeatActive \<Longrightarrow> committedAmount s = cb"
  shows "seatOk (b + cb) 0 (resetSeatForStreet s)"
  using assms by (auto simp: seatOk_def resetSeatForStreet_def isSeatInHand_def)

lemma round_completed_matched:
  assumes "hasRoundCompleted st" and "handInvAt b st" and "s \<in> set (seats st)"
    and "seatStatus s = SeatActive"
  shows "committedAmount s = currentBet st"
proof -
  have "isSeatActionable s" using assms(2-4) by (auto simp: handInvAt_def seatOk_def isSeatActionable_def)
  with assms(3) have "s \<in> set (listActionableSeats st)" by (simp add: mem_listActionableSeats)
  with assms(1) show ?thesis by (auto simp: hasRoundCompleted_def)
qed

lemma dealNextStreet_cases:
  assumes ok: "boardOk st" and river: "stage st \<noteq> Some River"
  obtains k s where
    "dealNextStreet now st = bind_res (dealCommunity k st) (\<lambda>t. Inr (openStreet s t))"
    "nextCardIndex st + k \<le> length (deck st)"
    "\<And>t. stage t = Some s \<Longrightarrow> deck t = deck st \<Longrightarrow> nextCardIndex t = nextCardIndex st + k \<Longrightarrow>
      length (communityCards t) = length (communityCards st) + k \<Longrightarrow> boardOk t"
proof -
  from ok river consider "stage st = Some Preflop" | "stage st = Some Flop" | "stage st = Some Turn"
    by (auto simp: boardOk_def split: option.splits street.splits)
  then show thesis
  proof cases
    case 1
    show ?thesis
      by (rule that [of 3 Flop]; use ok 1 in \<open>auto simp: dealNextStreet_def boardOk_def del: dealCommunity.simps\<close>)
  next
    case 2
    show ?thesis
      by (rule that [of 1 Turn]; use ok 2 in \<open>auto simp: dealNextStreet_def boardOk_def del: dealCommunity.simps\<close>)
  next
    case 3
    show ?thesis
      by (rule that [of 1 River]; use ok 3 in \<open>auto simp: dealNextStreet_def boardOk_def del: dealCommunity.simps\<close>)
  qed
qed

text \<open>Dealing a street and opening it keeps the invariant; the base grows by the bet.\<close>

lemma dealNextStreet_ok:
  assumes inv: "handInvAt b st" and round: "hasRoundCompleted st" and river: "stage st \<noteq> Some River"
  shows "\<exists>st'. dealNextStreet now st = Inr st' \<and> handInvAt (b + currentBet st) st' \<and> turnOk st' \<and>
    tableChips st' = tableChips st \<and> map seatIndex (seats st') = map seatIndex (seats st)"
proof -
  obtain k s where k: "dealNextStreet now st = bind_res (dealCommunity k st) (\<lambda>t. Inr (openStreet s t))"
    "nextCardIndex st + k \<le> length (deck st)"
    and board: "\<And>t. stage t = Some s \<Longrightarrow> deck t = deck st \<Longrightarrow> nextCardIndex t = nextCardIndex st + k \<Longrightarrow>
      length (communityCards t) = length (communityCards st) + k \<Longrightarrow> boardOk t"
    using dealNextStreet_cases [of st now thesis] inv river by (auto simp: handInvAt_def)
  let ?st1 = "st\<lparr>nextCardIndex := nextCardIndex st + k,
    communityCards := communityCards st @ take k (drop (nextCardIndex st) (deck st))\<rparr>"
  let ?st' = "openStreet s ?st1"
  have "dealNextStreet now st = Inr ?st'" using k dealCommunity_eq by simp
  moreover have "boardOk ?st'" by (rule board) (use k(2) in simp_all)
  moreover have "seatOk (b + currentBet st) 0 (resetSeatForStreet x)" if "x \<in> set (seats st)" for x
    by (rule seatOk_reset) (use inv that round_completed_matched [OF round inv] in
      \<open>auto simp: handInvAt_def\<close>)
  then have "handInvAt (b + currentBet st) ?st'"
    using inv \<open>boardOk ?st'\<close> by (auto simp: handInvAt_def leads_def comp_def)
  ultimately show ?thesis
    using openStreet_turnOk openStreet_chips [of s ?st1]
    by (intro exI [of _ ?st']) (simp add: comp_def tableChips_def)
qed

subsection \<open>The progression loop\<close>

definition progressed :: "table \<Rightarrow> table \<Rightarrow> bool" where
  "progressed st st' =
     (tableInv st' \<and> tableChips st' = tableChips st \<and>
      map seatIndex (seats st') = map seatIndex (seats st))"

lemma progressed_trans: "progressed st st1 \<Longrightarrow> progressed st1 st2 \<Longrightarrow> progressed st st2"
  by (simp add: progressed_def)

lemma tableInv_settled: "settledTable st \<Longrightarrow> tableInv st"
  by (simp add: tableInv_def settledTable_def)

lemma progression_total:
  "handInvAt b st \<Longrightarrow> turnOk st \<Longrightarrow>
     \<exists>st'. resolveTerminalAndStreetProgression now cs st = Inr st' \<and> progressed st st'"
proof (induction now cs st arbitrary: b rule: resolveTerminalAndStreetProgression.induct)
  case (1 now cs st)
  note inv = "1.prems"(1)
  have active: "tableStatus st = TableActive" using inv by (simp add: handInvAt_def)
  note unfold = resolveTerminalAndStreetProgression.simps [of now cs st]
  consider (fold) "\<not> isSoloHoldemState st \<and> length (listNonFoldedSeats st) \<le> 1"
    | (wait) "\<not> (\<not> isSoloHoldemState st \<and> length (listNonFoldedSeats st) \<le> 1)" "\<not> hasRoundCompleted st"
    | (river) "\<not> (\<not> isSoloHoldemState st \<and> length (listNonFoldedSeats st) \<le> 1)" "hasRoundCompleted st"
        "stage st = Some River"
    | (street) "\<not> (\<not> isSoloHoldemState st \<and> length (listNonFoldedSeats st) \<le> 1)" "hasRoundCompleted st"
        "stage st \<noteq> Some River"
    by blast
  then show ?case
  proof cases
    case fold
    then obtain st' where st': "settleByFold now cs st = Inr st'"
      using settleByFold_total [OF handInvAt_nonFolded [OF inv]] by blast
    from settleByFold_ok [OF handInvAt_wellSeated [OF inv] st'] show ?thesis
      using fold active st' by (simp add: unfold progressed_def tableInv_settled)
  next
    case wait
    have "tableInv st" using handInvI [OF inv "1.prems"(2)] wait(2) active by (simp add: tableInv_def)
    moreover have "resolveTerminalAndStreetProgression now cs st = Inr st"
      using wait active by (simp only: unfold) simp
    ultimately show ?thesis by (simp add: progressed_def)
  next
    case river
    have "5 \<le> length (communityCards st)" using inv river(3) by (simp add: handInvAt_def boardOk_def)
    then obtain st' where st': "settleShowdown now st = Inr st'"
      using settleShowdown_total [OF handInvAt_wellSeated [OF inv] handInvAt_nonFolded [OF inv]]
        handInvAt_committed [OF inv] by blast
    from settleShowdown_ok [OF handInvAt_wellSeated [OF inv] handInvAt_topIsLive [OF inv] st']
    moreover have "resolveTerminalAndStreetProgression now cs st = Inr st'"
      using river active st' by (simp only: unfold) simp
    ultimately show ?thesis by (simp add: progressed_def tableInv_settled)
  next
    case street
    obtain st1 where st1: "dealNextStreet now st = Inr st1" "handInvAt (b + currentBet st) st1"
      "turnOk st1" "tableChips st1 = tableChips st" "map seatIndex (seats st1) = map seatIndex (seats st)"
      using dealNextStreet_ok [OF inv street(2,3)] by blast
    have IH: "\<exists>st'. resolveTerminalAndStreetProgression now
        (case stage st1 of None \<Rightarrow> cs | Some s \<Rightarrow> s) st1 = Inr st' \<and> progressed st1 st'"
      by (rule "1.IH") (use street active st1 in auto)
    moreover have "resolveTerminalAndStreetProgression now cs st =
        resolveTerminalAndStreetProgression now (case stage st1 of None \<Rightarrow> cs | Some s \<Rightarrow> s) st1"
      using street active st1(1) by (simp only: unfold) simp
    ultimately show ?thesis using st1 by (simp add: progressed_def)
  qed
qed

end
