(* ===== verification/Holdem_Play.thy ===== *)
theory Holdem_Play
  imports Holdem_Hand
begin

text \<open>
  What an action does to a hand in play: it keeps the invariant and the chips, and an
  action that a seat is offered is carried out.
\<close>

subsection \<open>Changing one seat\<close>

lemma handInvAt_turn_fields [simp]:
  "handInvAt b (st\<lparr>actedSeatIndexes := a\<rparr>) = handInvAt b st"
  "handInvAt b (st\<lparr>pendingActorSeatIndex := p\<rparr>) = handInvAt b st"
  "handInvAt b (st\<lparr>lastFullRaiseSize := r\<rparr>) = handInvAt b st"
  by (simp_all add: handInvAt_def leads_def boardOk_def cong: option.case_cong street.case_cong)

lemma tableChips_turn_fields [simp]:
  "tableChips (st\<lparr>actedSeatIndexes := a\<rparr>) = tableChips st"
  "tableChips (st\<lparr>pendingActorSeatIndex := p\<rparr>) = tableChips st"
  "tableChips (st\<lparr>lastFullRaiseSize := r\<rparr>) = tableChips st"
  "tableChips (st\<lparr>currentBet := c\<rparr>) = tableChips st"
  by (simp_all add: tableChips_def)

lemma passTurn_turnOk: "turnOk (passTurn i st)"
proof -
  have "listActionableSeats (passTurn i st) = listActionableSeats st"
    by (simp add: passTurn_def listActionableSeats_def)
  moreover have "\<exists>j \<in> set (map seatIndex (listActionableSeats st)). resolveNextActionableSeatIndex st i = Some j"
    if "listActionableSeats st \<noteq> []"
    using that nextSeatIndex_Some [of "map seatIndex (listActionableSeats st)" i]
    by (auto simp: resolveNextActionableSeatIndex_def Let_def)
  ultimately show ?thesis by (force simp: turnOk_def passTurn_def mem_listActionableSeats)
qed

lemma handInvAt_update:
  assumes inv: "handInvAt b st" and s: "findSeatByIndex st (Some i) = Some s"
    and key: "\<And>x. seatIndex (f x) = seatIndex x" and ok: "seatOk b c (f s)"
    and c: "currentBet st \<le> c"
    and lead: "(isNonFolded (f s) \<and> totalCommittedAmount (f s) = b + c) \<or>
      (c = currentBet st \<and> \<not> leads b st s)"
  shows "handInvAt b ((updateSeat i f st)\<lparr>currentBet := c\<rparr>)"
proof -
  have d: "distinct (map seatIndex (seats st))" using inv by (simp add: handInvAt_def)
  have mem: "s \<in> set (seats st)" and i: "seatIndex s = i"
    using s by (auto simp: findSeatByIndex_Some dest: find_SomeD)
  have only: "x = s" if "x \<in> set (seats st)" "seatIndex x = i" for x
    using d mem i that by (auto simp: distinct_map inj_on_def)
  have seats: "seats (updateSeat i f st) = map (\<lambda>x. if seatIndex x = i then f x else x) (seats st)"
    by (rule seatStore.entries_upd_map [OF d])
  have all: "seatOk b c x" if "x \<in> set (seats (updateSeat i f st))" for x
  proof -
    from that obtain y where y: "y \<in> set (seats st)" "x = (if seatIndex y = i then f y else y)"
      by (auto simp: seats)
    show ?thesis
      using y only ok inv c by (auto simp: handInvAt_def seatOk_def)
  qed
  have "\<exists>x \<in> set (seats (updateSeat i f st)). isNonFolded x \<and> totalCommittedAmount x = b + c"
  proof (cases "isNonFolded (f s) \<and> totalCommittedAmount (f s) = b + c")
    case True
    moreover have "f s \<in> set (seats (updateSeat i f st))" using mem i by (auto simp: seats)
    ultimately show ?thesis by blast
  next
    case False
    with lead obtain x where "x \<in> set (seats st)" "leads b st x" "x \<noteq> s" "c = currentBet st"
      using inv by (auto simp: handInvAt_def)
    with only i show ?thesis by (auto simp: seats leads_def intro!: bexI [of _ x])
  qed
  with all inv c show ?thesis
    using seatStore.keys_upd [of f i st, OF key] by (simp add: handInvAt_def leads_def boardOk_def
      cong: option.case_cong street.case_cong)
qed

lemma chips_update:
  assumes "findSeatByIndex st (Some i) = Some s" and "seatChips (f s) = seatChips s"
  shows "tableChips (updateSeat i f st) = tableChips st"
  using assms by (simp add: tableChips_def findSeatByIndex_Some seatStore.sum_upd)

text \<open>What a step of the active seat has to leave behind before the table is advanced.\<close>

definition moved :: "cents \<Rightarrow> table \<Rightarrow> table \<Rightarrow> bool" where
  "moved b st st1 =
     (handInvAt b st1 \<and> turnOk st1 \<and> tableChips st1 = tableChips st \<and>
      map seatIndex (seats st1) = map seatIndex (seats st))"

lemma moved_update:
  assumes inv: "handInvAt b st" and s: "findSeatByIndex st (Some i) = Some s"
    and key: "\<And>x. seatIndex (f x) = seatIndex x" and "seatOk b c (f s)" and "currentBet st \<le> c"
    and "(isNonFolded (f s) \<and> totalCommittedAmount (f s) = b + c) \<or>
      (c = currentBet st \<and> \<not> leads b st s)"
    and chips: "seatChips (f s) = seatChips s"
    and turn: "turnOk st1"
    and st1: "st1 = (updateSeat i f st)\<lparr>currentBet := c, lastFullRaiseSize := r,
      actedSeatIndexes := a, pendingActorSeatIndex := p\<rparr>"
  shows "moved b st st1"
proof -
  have "handInvAt b ((updateSeat i f st)\<lparr>currentBet := c\<rparr>)" by (rule handInvAt_update) fact+
  then show ?thesis
    using turn chips_update [of st i s f, OF s chips] seatStore.keys_upd [of f i st, OF key]
    by (simp add: moved_def st1)
qed

subsection \<open>Posting chips\<close>

lemma seatOk_post:
  assumes "seatOk b cb s" and "seatStatus s = SeatActive" and "0 < a" and "cb \<le> c"
    and "min (stackAmount s) a + committedAmount s \<le> c"
  shows "seatOk b c (postFromStack a s)"
  using assms by (auto simp: seatOk_def postFromStack_def Let_def isSeatInHand_def)

lemma postFromStack_amounts:
  "0 < a \<Longrightarrow> stackAmount (postFromStack a s) = stackAmount s - min (stackAmount s) a"
  "0 < a \<Longrightarrow> committedAmount (postFromStack a s) = committedAmount s + min (stackAmount s) a"
  "0 < a \<Longrightarrow> totalCommittedAmount (postFromStack a s) = totalCommittedAmount s + min (stackAmount s) a"
  by (simp_all add: postFromStack_def Let_def)

lemma postFromStack_nonFolded:
  "seatStatus s = SeatActive \<Longrightarrow> isNonFolded (postFromStack a s)"
  by (simp add: postFromStack_def Let_def isNonFolded_def isSeatInHand_def)

lemma seatChips_lastAction [simp]:
  "seatChips (s\<lparr>lastAction := l\<rparr>) = seatChips s"
  "seatOk b c (s\<lparr>lastAction := l\<rparr>) = seatOk b c s"
  "isNonFolded (s\<lparr>lastAction := l\<rparr>) = isNonFolded s"
  by (simp_all add: seatChips_def seatOk_def isNonFolded_def isSeatInHand_def)

lemma seatChips_post [simp]: "seatChips (postFromStack a s) = seatChips s"
  by (simp add: seatChips_def)


subsection \<open>The passive actions\<close>

definition actorReady :: "cents \<Rightarrow> table \<Rightarrow> nat \<Rightarrow> seat \<Rightarrow> bool" where
  "actorReady b st i s =
     (handInvAt b st \<and> findSeatByIndex st (Some i) = Some s \<and> seatStatus s = SeatActive)"

lemma actorReady_facts:
  assumes "actorReady b st i s"
  shows "handInvAt b st" "findSeatByIndex st (Some i) = Some s" "seatStatus s = SeatActive"
    "seatIndex s = i" "seatOk b (currentBet st) s" "0 < stackAmount s"
    "totalCommittedAmount s = b + committedAmount s" "committedAmount s \<le> currentBet st"
    "isNonFolded s"
proof -
  show base: "handInvAt b st" "findSeatByIndex st (Some i) = Some s" "seatStatus s = SeatActive"
    using assms by (auto simp: actorReady_def)
  then have "s \<in> set (seats st)" and idx: "seatIndex s = i"
    by (auto simp: findSeatByIndex_Some dest: find_SomeD)
  then show "seatIndex s = i" and ok: "seatOk b (currentBet st) s"
    using base by (auto simp: handInvAt_def)
  from ok base(3) show "0 < stackAmount s" "totalCommittedAmount s = b + committedAmount s"
    "committedAmount s \<le> currentBet st" "isNonFolded s"
    by (auto simp: seatOk_def isNonFolded_def isSeatInHand_def)
qed

lemma fold_moved:
  assumes ready: "actorReady b st i s" and facing: "committedAmount s < currentBet st"
    and ok: "applyPassiveSeatAction st s Fold = Inr st1"
  shows "moved b st st1"
proof -
  note ready = actorReady_facts [OF ready]
  let ?f = "\<lambda>x. x\<lparr>seatStatus := SeatFolded, lastAction := Some ''Fold''\<rparr>"
  have st1: "st1 = passTurn i (updateSeat i ?f st)"
    using ok ready(4) by (simp add: applyPassiveSeatAction_def)
  show ?thesis
  proof (rule moved_update [OF ready(1,2), where f = ?f and c = "currentBet st"])
    show "seatOk b (currentBet st) (?f s)"
      using ready(5) by (simp add: seatOk_def isSeatInHand_def)
    show "(isNonFolded (?f s) \<and> totalCommittedAmount (?f s) = b + currentBet st) \<or>
        (currentBet st = currentBet st \<and> \<not> leads b st s)"
      using ready(7) facing by (simp add: leads_def)
    show "st1 = (updateSeat i ?f st)\<lparr>currentBet := currentBet st,
        lastFullRaiseSize := lastFullRaiseSize st, actedSeatIndexes := actedSeatIndexes st,
        pendingActorSeatIndex := resolveNextActionableSeatIndex (updateSeat i ?f st) i\<rparr>"
      by (simp add: st1 passTurn_def updateSeat_def)
  qed (simp_all add: st1 passTurn_turnOk seatChips_def)
qed

lemma check_moved:
  assumes ready: "actorReady b st i s"
    and ok: "applyPassiveSeatAction st s Check = Inr st1"
  shows "moved b st st1"
proof -
  note ready = actorReady_facts [OF ready]
  let ?f = "\<lambda>x. x\<lparr>lastAction := Some ''Check''\<rparr>"
  let ?st = "markSeatActed i (updateSeat i ?f st)"
  have st1: "st1 = passTurn i ?st" and matched: "committedAmount s = currentBet st"
    using ok ready(4,8) by (auto simp: applyPassiveSeatAction_def split: if_splits)
  show ?thesis
  proof (rule moved_update [OF ready(1,2), where f = ?f and c = "currentBet st"])
    show "seatOk b (currentBet st) (?f s)" using ready(5) by simp
    show "(isNonFolded (?f s) \<and> totalCommittedAmount (?f s) = b + currentBet st) \<or>
        (currentBet st = currentBet st \<and> \<not> leads b st s)"
      using ready(7,9) matched by simp
    show "st1 = (updateSeat i ?f st)\<lparr>currentBet := currentBet st,
        lastFullRaiseSize := lastFullRaiseSize st, actedSeatIndexes := actedSeatIndexes ?st,
        pendingActorSeatIndex := resolveNextActionableSeatIndex ?st i\<rparr>"
      by (simp add: st1 passTurn_def updateSeat_def markSeatActed_def)
  qed (simp_all add: st1 passTurn_turnOk)
qed

lemma call_moved:
  assumes ready: "actorReady b st i s"
    and ok: "applyPassiveSeatAction st s Call = Inr st1"
  shows "moved b st st1"
proof -
  note ready = actorReady_facts [OF ready]
  let ?a = "currentBet st - committedAmount s"
  let ?f = "\<lambda>x. (postFromStack (max ?a 0) x)\<lparr>lastAction := Some ''Call''\<rparr>"
  let ?st = "markSeatActed i (updateSeat i ?f st)"
  have st1: "st1 = passTurn i ?st" and owed: "0 < ?a"
    using ok ready(4) by (auto simp: applyPassiveSeatAction_def Let_def split: if_splits)
  show ?thesis
  proof (rule moved_update [OF ready(1,2), where f = ?f and c = "currentBet st"])
    show "seatOk b (currentBet st) (?f s)"
      using seatOk_post [OF ready(5,3) owed order_refl] owed by (simp add: min_def)
    show "(isNonFolded (?f s) \<and> totalCommittedAmount (?f s) = b + currentBet st) \<or>
        (currentBet st = currentBet st \<and> \<not> leads b st s)"
      using ready(7) owed by (simp add: leads_def)
    show "st1 = (updateSeat i ?f st)\<lparr>currentBet := currentBet st,
        lastFullRaiseSize := lastFullRaiseSize st, actedSeatIndexes := actedSeatIndexes ?st,
        pendingActorSeatIndex := resolveNextActionableSeatIndex ?st i\<rparr>"
      by (simp add: st1 passTurn_def updateSeat_def markSeatActed_def)
  qed (simp_all add: st1 passTurn_turnOk)
qed

subsection \<open>Bets, raises and all-in\<close>

lemma bet_moved:
  assumes ready: "actorReady b st i s"
    and ok: "applyBetOrRaise parse st s action amt = Inr st1"
  shows "moved b st st1"
proof -
  note ready = actorReady_facts [OF ready]
  from ok obtain t where target: "resolveTargetTotal parse st s action amt = Inr t"
    and range: "committedAmount s < t" "t \<le> committedAmount s + stackAmount s"
    and eq: "st1 = passTurn i (resetActedSeatsForNextResponse i
      ((updateSeat i (\<lambda>x. (postFromStack (t - committedAmount s) x)\<lparr>lastAction := Some (actionLabel action)\<rparr>) st)
       \<lparr>currentBet := (if t > currentBet st then t else currentBet st),
        lastFullRaiseSize := nextFullRaiseSize st action t\<rparr>))"
    using ready(4)
    by (auto simp: applyBetOrRaise_def bind_res_Inr_iff Let_def split: if_splits)
  let ?f = "\<lambda>x. (postFromStack (t - committedAmount s) x)\<lparr>lastAction := Some (actionLabel action)\<rparr>"
  let ?c = "if t > currentBet st then t else currentBet st"
  let ?st = "resetActedSeatsForNextResponse i ((updateSeat i ?f st)\<lparr>currentBet := ?c,
      lastFullRaiseSize := nextFullRaiseSize st action t\<rparr>)"
  have amounts: "0 < t - committedAmount s"
    "min (stackAmount s) (t - committedAmount s) = t - committedAmount s"
    using range by simp_all
  show ?thesis
  proof (rule moved_update [OF ready(1,2), where f = ?f and c = ?c])
    show "seatOk b ?c (?f s)"
      using seatOk_post [OF ready(5,3) amounts(1), of ?c] amounts(2) by simp
    show "(isNonFolded (?f s) \<and> totalCommittedAmount (?f s) = b + ?c) \<or>
        (?c = currentBet st \<and> \<not> leads b st s)"
      using ready(3,7) range amounts
      by (auto simp: leads_def postFromStack_amounts postFromStack_nonFolded)
    show "st1 = (updateSeat i ?f st)\<lparr>currentBet := ?c,
        lastFullRaiseSize := nextFullRaiseSize st action t, actedSeatIndexes := actedSeatIndexes ?st,
        pendingActorSeatIndex := resolveNextActionableSeatIndex ?st i\<rparr>"
      by (simp add: eq passTurn_def updateSeat_def resetActedSeatsForNextResponse_def)
  qed (simp_all add: eq passTurn_turnOk)
qed


subsection \<open>Acting at the table\<close>

lemma availability_Some:
  assumes inv: "handInv st" and av: "resolveHoldemActionAvailability st i = Some a"
  obtains s where "actorReady (streetBase st) st i s" "pendingActorSeatIndex st = Some i"
    "Fold \<in> set (av_actions a) \<longleftrightarrow> committedAmount s < currentBet st"
    "Call \<in> set (av_actions a) \<longleftrightarrow> committedAmount s < currentBet st"
    "Check \<in> set (av_actions a) \<longleftrightarrow> \<not> committedAmount s < currentBet st"
    "Bet \<in> set (av_actions a) \<longleftrightarrow> \<not> isSoloHoldemState st \<and> currentBet st = 0 \<and>
       bigBlind st \<le> committedAmount s + stackAmount s"
    "Raise \<in> set (av_actions a) \<longleftrightarrow> \<not> isSoloHoldemState st \<and> currentBet st > 0 \<and>
       currentBet st + lastFullRaiseSize st \<le> committedAmount s + stackAmount s"
    "AllIn \<in> set (av_actions a) \<longleftrightarrow> \<not> isSoloHoldemState st"
    "av_maximumRaiseTo a = Some (committedAmount s + stackAmount s)"
    "av_minimumBetTo a = bigBlind st"
    "Raise \<in> set (av_actions a) \<Longrightarrow>
       av_minimumRaiseTo a = Some (currentBet st + lastFullRaiseSize st)"
proof -
  from av obtain s where s: "findSeatByIndex st (Some i) = Some s" "seatStatus s = SeatActive"
    "pendingActorSeatIndex st = Some i"
    by (auto simp: resolveHoldemActionAvailability_def split: if_splits option.splits)
  have ready: "actorReady (streetBase st) st i s"
    using inv s by (simp add: actorReady_def handInv_def)
  have "0 < stackAmount s" by (rule actorReady_facts(6) [OF ready])
  with s av show thesis
    by (intro that [OF ready])
      (auto simp: resolveHoldemActionAvailability_def Let_def split: if_splits)
qed

lemma pending_available:
  assumes "tableInv st" and "tableStatus st = TableActive"
  shows "\<exists>i s a. pendingActorSeatIndex st = Some i \<and> findSeatByIndex st (Some i) = Some s \<and>
    isSeatActionable s \<and> resolveHoldemActionAvailability st i = Some a"
proof -
  have inv: "handInv st" and "\<not> hasRoundCompleted st" using assms by (simp_all add: tableInv_def)
  then have "listActionableSeats st \<noteq> []" by (auto simp: hasRoundCompleted_def)
  with inv obtain s where s: "s \<in> set (seats st)" "isSeatActionable s"
    "pendingActorSeatIndex st = Some (seatIndex s)"
    by (auto simp: handInv_def turnOk_def)
  moreover have "findSeatByIndex st (Some (seatIndex s)) = Some s"
    using inv s(1) by (simp add: handInv_def handInvAt_def findSeatByIndex_Some find_key_distinct)
  ultimately show ?thesis
    using assms(2) by (auto simp: resolveHoldemActionAvailability_def isSeatActionable_def Let_def)
qed

text \<open>An action the seat is offered, when the chips move as \<open>step\<close> says, is carried out.\<close>

definition chipsStep ::
  "decimal_parser \<Rightarrow> table \<Rightarrow> seat \<Rightarrow> holdem_action \<Rightarrow> string option \<Rightarrow> table res" where
  "chipsStep parse st s action amt =
     (if action \<in> {Fold, Check, Call} then applyPassiveSeatAction st s action
      else if action \<in> {Bet, Raise} then applyBetOrRaise parse st s action amt
      else applyBetOrRaise parse st s AllIn None)"

lemma actOnHoldemSeat_offered:
  assumes inv: "handInv st" and av: "resolveHoldemActionAvailability st i = Some a"
    and offered: "action \<in> set (av_actions a)" and s: "findSeatByIndex st (Some i) = Some s"
  obtains cs where "actOnHoldemSeat parse now st i action amt =
    bind_res (chipsStep parse st s action amt) (resolveTerminalAndStreetProgression now cs)"
proof -
  from inv have "tableStatus st = TableActive" and "stage st \<noteq> None"
    by (auto simp: handInv_def handInvAt_def boardOk_def split: option.splits)
  then obtain cs where "tableStatus st = TableActive" "stage st = Some cs" by auto
  moreover from inv av obtain s' where "actorReady (streetBase st) st i s'"
    and pending: "pendingActorSeatIndex st = Some i" by (rule availability_Some)
  then have "seatStatus s = SeatActive" "seatIndex s = i"
    using actorReady_facts [of "streetBase st" st i s'] s by auto
  ultimately show thesis
    using av offered s pending by (intro that [of cs]) (simp add: actOnHoldemSeat_def chipsStep_def)
qed

lemma actOnHoldemSeat_needs_offer:
  assumes "actOnHoldemSeat parse now st i action amt = Inr st'"
  obtains a s where "resolveHoldemActionAvailability st i = Some a" "action \<in> set (av_actions a)"
    "findSeatByIndex st (Some i) = Some s" "tableStatus st = TableActive"
  using assms
  by (auto simp: actOnHoldemSeat_def findSeatByIndex_Some bind_res_Inr_iff
      dest!: find_SomeD split: table_status.splits option.splits if_splits)

lemma chipsStep_moved:
  assumes inv: "handInv st" and av: "resolveHoldemActionAvailability st i = Some a"
    and offered: "action \<in> set (av_actions a)" and s: "findSeatByIndex st (Some i) = Some s"
    and ok: "chipsStep parse st s action amt = Inr st1"
  shows "moved (streetBase st) st st1"
  using inv av
proof (rule availability_Some)
  fix s' assume ready': "actorReady (streetBase st) st i s'"
    and fold: "Fold \<in> set (av_actions a) \<longleftrightarrow> committedAmount s' < currentBet st"
  have ready: "actorReady (streetBase st) st i s" and "s' = s"
    using ready' s by (auto simp: actorReady_def)
  then show ?thesis
    using ok offered fold fold_moved [OF ready] check_moved [OF ready] call_moved [OF ready]
      bet_moved [OF ready]
    by (cases action) (auto simp: chipsStep_def)
qed

lemma moved_progression:
  assumes "moved b st st1"
  shows "\<exists>st'. resolveTerminalAndStreetProgression now cs st1 = Inr st' \<and> progressed st st'"
  using progression_total [of b st1 now cs] assms by (auto simp: moved_def progressed_def)

lemma actOnHoldemSeat_progressed:
  assumes inv: "tableInv st" and ok: "actOnHoldemSeat parse now st i action amt = Inr st'"
  shows "progressed st st'"
proof -
  from ok obtain a s where offer: "resolveHoldemActionAvailability st i = Some a"
    "action \<in> set (av_actions a)" "findSeatByIndex st (Some i) = Some s" "tableStatus st = TableActive"
    by (rule actOnHoldemSeat_needs_offer)
  have hand: "handInv st" using inv offer(4) by (simp add: tableInv_def)
  from actOnHoldemSeat_offered [OF hand offer(1-3)] obtain cs where
    "actOnHoldemSeat parse now st i action amt =
      bind_res (chipsStep parse st s action amt) (resolveTerminalAndStreetProgression now cs)" .
  with ok obtain st1 where st1: "chipsStep parse st s action amt = Inr st1"
    and rest: "resolveTerminalAndStreetProgression now cs st1 = Inr st'"
    by (auto simp: bind_res_Inr_iff)
  from moved_progression [OF chipsStep_moved [OF hand offer(1-3) st1], of now cs] rest
  show ?thesis by auto
qed

text \<open>The offered actions that take no amount always go through.\<close>

lemma chipsStep_total:
  assumes inv: "handInv st" and av: "resolveHoldemActionAvailability st i = Some a"
    and offered: "action \<in> set (av_actions a)" "action \<notin> {Bet, Raise}"
    and s: "findSeatByIndex st (Some i) = Some s"
  shows "\<exists>st1. chipsStep parse st s action amt = Inr st1"
  using inv av
proof (rule availability_Some)
  fix s' assume ready': "actorReady (streetBase st) st i s'"
    and acts: "Fold \<in> set (av_actions a) \<longleftrightarrow> committedAmount s' < currentBet st"
    "Call \<in> set (av_actions a) \<longleftrightarrow> committedAmount s' < currentBet st"
    "Check \<in> set (av_actions a) \<longleftrightarrow> \<not> committedAmount s' < currentBet st"
  have "s' = s" and "0 < stackAmount s"
    using actorReady_facts [OF ready'] s by auto
  then show ?thesis
    using acts offered
    by (cases action)
      (auto simp: chipsStep_def applyPassiveSeatAction_def applyBetOrRaise_def resolveTargetTotal_def
        bind_res_def Let_def)
qed

lemma offered_action_succeeds:
  assumes inv: "tableInv st" and av: "resolveHoldemActionAvailability st i = Some a"
    and offered: "action \<in> set (av_actions a)" "action \<notin> {Bet, Raise}"
  shows "\<exists>st'. actOnHoldemSeat parse now st i action amt = Inr st'"
proof -
  have hand: "handInv st"
    using inv av by (auto simp: tableInv_def resolveHoldemActionAvailability_def
        split: if_splits table_status.splits)
  from av obtain s where s: "findSeatByIndex st (Some i) = Some s"
    by (auto simp: resolveHoldemActionAvailability_def split: if_splits option.splits)
  obtain cs where eq: "actOnHoldemSeat parse now st i action amt =
      bind_res (chipsStep parse st s action amt) (resolveTerminalAndStreetProgression now cs)"
    by (rule actOnHoldemSeat_offered [OF hand av offered(1) s])
  obtain st1 where st1: "chipsStep parse st s action amt = Inr st1"
    using chipsStep_total [OF hand av offered s] by blast
  from moved_progression [OF chipsStep_moved [OF hand av offered(1) s st1], of now cs] eq st1
  show ?thesis by auto
qed

end
