(* ===== verification/Holdem_Deal.thy ===== *)
theory Holdem_Deal
  imports Holdem_Start Holdem_Play
begin

text \<open>
  Starting a hand never fails once its guards are passed: the shuffle permutes the deck
  whatever the hash function returns, every eligible seat gets two cards, the blinds are
  posted, and the invariant of a hand in play holds.
\<close>

subsection \<open>The shuffle\<close>

lemma shuffleLoop_total:
  "k < length cards \<Longrightarrow>
     \<exists>cards' ds'. shuffleLoop sha256 handSeed k cards ds = Inr (cards', ds') \<and>
       mset cards' = mset cards \<and> length ds' = length ds + k"
proof (induction k arbitrary: cards ds)
  case (Suc k)
  let ?digest = "sha256 (handSeed @ '':swap:'' @ show_digits (Suc k))"
  let ?j = "readUInt32BE ?digest mod (Suc k + 1)"
  let ?cards = "cards[Suc k := cards ! ?j, ?j := cards ! Suc k]"
  have "?j < Suc k + 1" by (rule mod_less_divisor) simp
  with Suc.prems have j: "?j < length cards" by linarith
  have swap: "mset ?cards = mset cards" using Suc.prems j by (rule mset_swap [rotated])
  have "k < length ?cards" using Suc.prems by simp
  from Suc.IH [OF this, of "ds @ [toHex ?digest]"] obtain cards' ds' where
    "shuffleLoop sha256 handSeed k ?cards (ds @ [toHex ?digest]) = Inr (cards', ds')"
    "mset cards' = mset ?cards" "length ds' = length ds + Suc k"
    by auto
  with swap j Suc.prems show ?case by (auto simp: Let_def)
qed simp

lemma length_deck_template: "length HOLDEM_DECK_TEMPLATE = 52"
  by (simp add: HOLDEM_DECK_TEMPLATE_def)

lemma distinct_deck_template: "distinct HOLDEM_DECK_TEMPLATE"
  by (simp add: HOLDEM_DECK_TEMPLATE_def)

lemma shuffleHoldemDeck_perm:
  "\<exists>shuf. shuffleHoldemDeck sha256 handSeed = Inr shuf \<and> mset (sh_deck shuf) = mset HOLDEM_DECK_TEMPLATE"
  using shuffleLoop_total [of "length HOLDEM_DECK_TEMPLATE - 1" HOLDEM_DECK_TEMPLATE sha256 handSeed "[]"]
  by (auto simp: shuffleHoldemDeck_def length_deck_template)

lemma shuffled_deck:
  assumes "shuffleHoldemDeck sha256 handSeed = Inr shuf"
  shows "mset (sh_deck shuf) = mset HOLDEM_DECK_TEMPLATE" "length (sh_deck shuf) = 52"
    "distinct (sh_deck shuf)"
proof -
  show perm: "mset (sh_deck shuf) = mset HOLDEM_DECK_TEMPLATE"
    using shuffleHoldemDeck_perm [of sha256 handSeed] assms by auto
  from perm show "length (sh_deck shuf) = 52"
    using length_deck_template mset_eq_length by metis
  from perm show "distinct (sh_deck shuf)"
    using distinct_deck_template mset_eq_imp_distinct_iff by blast
qed

subsection \<open>Hole cards\<close>

definition blankHole :: "seat \<Rightarrow> seat" where
  "blankHole s = s\<lparr>holeCards := []\<rparr>"

lemma dealHoleRound_total:
  "nextCardIndex st + length is \<le> length (deck st) \<Longrightarrow>
     \<exists>ss. dealHoleRound is st =
         Inr (st\<lparr>nextCardIndex := nextCardIndex st + length is, seats := ss\<rparr>) \<and>
       map blankHole ss = map blankHole (seats st)"
proof (induction "is" arbitrary: st)
  case (Cons i "is")
  let ?c = "deck st ! nextCardIndex st"
  let ?st = "updateSeat i (\<lambda>s. s\<lparr>holeCards := holeCards s @ [?c]\<rparr>)
    (st\<lparr>nextCardIndex := nextCardIndex st + 1\<rparr>)"
  have card: "nextCardIndex st < length (deck st)" using Cons.prems by simp
  have "map blankHole (seats ?st) = map blankHole (seats st)"
    by (simp add: updateSeat_def map_update_first blankHole_def)
  moreover obtain ss where "dealHoleRound is ?st =
      Inr (?st\<lparr>nextCardIndex := nextCardIndex ?st + length is, seats := ss\<rparr>)"
    "map blankHole ss = map blankHole (seats ?st)"
    using Cons.IH [of ?st] Cons.prems by auto
  ultimately show ?case
    using card by (intro exI [of _ ss]) (simp add: takeNextCard_def updateSeat_def)
qed (rule exI, auto)

lemma blankHole_project:
  assumes "map blankHole ss = map blankHole ss'" and "\<And>s. f (blankHole s) = f s"
  shows "map f ss = map f ss'"
proof -
  have "map f ss = map f (map blankHole ss)" using assms(2) by simp
  also have "\<dots> = map f (map blankHole ss')" by (simp only: assms(1))
  also have "\<dots> = map f ss'" using assms(2) by simp
  finally show ?thesis .
qed

subsection \<open>The blinds\<close>

lemma blind_posted:
  fixes a :: cents
  assumes inv: "handInvAt 0 st" and s: "findSeatByIndex st (Some i) = Some s" "isNonFolded s"
  defines "c \<equiv> max (currentBet st) (committedAmount (postFromStack a s))"
  shows "handInvAt 0 ((updateSeat i (\<lambda>x. (postFromStack a x)\<lparr>lastAction := l\<rparr>) st)\<lparr>currentBet := c\<rparr>)"
proof -
  have mem: "s \<in> set (seats st)" using s(1) by (auto simp: findSeatByIndex_Some dest: find_SomeD)
  with inv have ok: "seatOk 0 (currentBet st) s" by (simp add: handInvAt_def)
  have same: "totalCommittedAmount s = committedAmount s" using ok by (simp add: seatOk_def)
  have amounts: "committedAmount s \<le> committedAmount (postFromStack a s)"
    "totalCommittedAmount (postFromStack a s) = committedAmount (postFromStack a s)"
    using ok same by (simp_all add: postFromStack_def Let_def seatOk_def)
  have alive: "isNonFolded (postFromStack a s)"
    using s(2) by (auto simp: postFromStack_def Let_def isNonFolded_def isSeatInHand_def)
  have "seatOk 0 c (postFromStack a s)"
    using ok s(2) same unfolding c_def
    by (auto simp: seatOk_def postFromStack_def Let_def isNonFolded_def isSeatInHand_def)
  with inv s(1) amounts alive same show ?thesis
    by (intro handInvAt_update [of 0 st i s]) (auto simp: c_def leads_def)
qed

lemma updateSeat_currentBet:
  "updateSeat i f (st\<lparr>currentBet := c\<rparr>) = (updateSeat i f st)\<lparr>currentBet := c\<rparr>"
  by (simp add: updateSeat_def)

lemma findSeat_currentBet [simp]:
  "findSeatByIndex (st\<lparr>currentBet := c\<rparr>) i = findSeatByIndex st i"
  by (simp add: findSeatByIndex_def split: option.split)

lemma findSeat_update:
  assumes "\<And>x. seatIndex (f x) = seatIndex x"
  shows "findSeatByIndex (updateSeat i f st) (Some j) =
     (if j = i then map_option f (findSeatByIndex st (Some i)) else findSeatByIndex st (Some j))"
  using seatStore.find_upd [of f j i st, OF assms] by (simp add: findSeatByIndex_Some)

lemma committed_postFromStack_mono:
  "0 \<le> stackAmount s \<Longrightarrow> committedAmount s \<le> committedAmount (postFromStack a s)"
  by (simp add: postFromStack_def Let_def)

lemma postBlinds_inv:
  assumes inv: "handInvAt 0 st" and cb: "currentBet st = 0"
    and sb: "smallBlindSeatIndex st = Some i" "findSeatByIndex st (Some i) = Some s" "isNonFolded s"
    and bb: "bigBlindSeatIndex st = Some j" "findSeatByIndex st (Some j) = Some s'" "isNonFolded s'"
    and ne: "i \<noteq> j"
  shows "handInvAt 0 (postBlinds st) \<and> tableChips (postBlinds st) = tableChips st \<and>
    map seatIndex (seats (postBlinds st)) = map seatIndex (seats st)"
proof -
  let ?f = "\<lambda>x. (postFromStack (smallBlind st) x)\<lparr>lastAction := Some ''Small blind''\<rparr>"
  let ?g = "\<lambda>x. (postFromStack (bigBlind st) x)\<lparr>lastAction := Some ''Big blind''\<rparr>"
  let ?st1 = "updateSeat i ?f st"
  let ?st2 = "updateSeat j ?g ?st1"
  let ?c1 = "max 0 (committedAmount (?f s))"
  let ?c2 = "max ?c1 (committedAmount (?g s'))"
  have idx: "seatIndex s = i" "seatIndex s' = j"
    using sb bb by (auto simp: findSeatByIndex_Some dest!: find_SomeD)
  have mem: "s \<in> set (seats st)" "s' \<in> set (seats st)"
    using sb bb by (auto simp: findSeatByIndex_Some dest!: find_SomeD)
  have ok: "seatOk 0 0 s" "seatOk 0 0 s'" using inv mem cb by (auto simp: handInvAt_def)
  have pos: "0 \<le> committedAmount (?f s)"
    using ok committed_postFromStack_mono [of s "smallBlind st"] by (simp add: seatOk_def)
  have found: "findSeatByIndex ?st1 (Some j) = Some s'" "findSeatByIndex ?st2 (Some j) = Some (?g s')"
    "findSeatByIndex ?st2 (Some i) = Some (?f s)"
    using sb bb ne by (simp_all add: findSeat_update)
  have one: "handInvAt 0 (?st1\<lparr>currentBet := ?c1\<rparr>)"
    using blind_posted [OF inv sb(2,3), of "smallBlind st" "Some ''Small blind''"] cb by simp
  have "handInvAt 0 (?st2\<lparr>currentBet := ?c2\<rparr>)"
    using blind_posted [OF one _ bb(3), of j "bigBlind st" "Some ''Big blind''"] found
    by (simp add: updateSeat_currentBet)
  moreover have "postBlinds st = ?st2\<lparr>currentBet := ?c2\<rparr>"
    using sb bb idx found pos by (simp add: postBlinds_def Let_def updateSeat_def max.commute)
  moreover have "tableChips ?st2 = tableChips st"
    using chips_update [of ?st1 j s' ?g] chips_update [of st i s ?f] found(1) sb bb by simp
  moreover have "map seatIndex (seats ?st2) = map seatIndex (seats st)"
    using seatStore.keys_upd [of ?g j ?st1] seatStore.keys_upd [of ?f i st] by simp
  ultimately show ?thesis by simp
qed


subsection \<open>Who posts\<close>

lemma eligible_indexes:
  assumes "distinct (map seatIndex (seats st))"
  shows "distinct (map seatIndex (listEligibleSeats st))"
    "i \<in> set (map seatIndex (listEligibleSeats st)) \<Longrightarrow>
       \<exists>s \<in> set (seats st). seatIndex s = i \<and> isSeatEligibleForHand s"
  using distinct_indexes_filter [OF assms]
  by (auto simp: listEligibleSeats_def)

lemma resolveNextDealer_ok:
  assumes "resolveMinimumRequiredPlayers st \<le> length (listEligibleSeats st)"
  shows "\<exists>d \<in> set (map seatIndex (listEligibleSeats st)). resolveNextDealerSeatIndex st = Some d"
proof -
  have "map seatIndex (listEligibleSeats st) \<noteq> []"
    using assms by (auto simp: resolveMinimumRequiredPlayers_def HOLDEM_MIN_PLAYERS_def split: if_splits)
  with assms show ?thesis
    using nextSeatIndex_Some [of "map seatIndex (listEligibleSeats st)"]
    by (auto simp: resolveNextDealerSeatIndex_def Let_def firstSeatIndex_def split: option.splits list.splits)
qed

lemma nextSeatIndex_moves:
  assumes d: "distinct xs" and "from \<in> set xs" and "2 \<le> length xs"
    and step: "nextSeatIndex xs from = Some j"
  shows "j \<noteq> from"
proof -
  obtain k where k: "k < length xs" "xs ! k = from" using assms(2) by (auto simp: in_set_conv_nth)
  let ?m = "Suc k mod length xs"
  have m: "?m \<noteq> k" "?m < length xs"
    using k(1) assms(3) by (cases "Suc k = length xs"; force)+
  have "xs ! ?m \<noteq> xs ! k" using nth_eq_iff_index_eq [OF d m(2) k(1)] m(1) by simp
  moreover have "j = xs ! ?m" using nextSeatIndex_nth [OF d k(1)] k(2) step by simp
  ultimately show ?thesis using k(2) by simp
qed

lemma resolveBlindSeats_ok:
  assumes d: "distinct (map seatIndex (seats st))"
    and enough: "resolveMinimumRequiredPlayers st \<le> length (listEligibleSeats st)"
    and dealer: "dealer \<in> set (map seatIndex (listEligibleSeats st))"
  shows "resolveBlindSeats st dealer = Inr (None, None) \<or>
    (\<exists>i j. resolveBlindSeats st dealer = Inr (Some i, Some j) \<and> i \<noteq> j \<and>
       i \<in> set (map seatIndex (listEligibleSeats st)) \<and> j \<in> set (map seatIndex (listEligibleSeats st)))"
proof -
  let ?xs = "map seatIndex (listEligibleSeats st)"
  note dx = eligible_indexes(1) [OF d]
  have nonempty: "?xs \<noteq> []" using dealer by auto
  consider "length ?xs = 1" | "length ?xs = 2" | "2 < length ?xs"
    using nonempty by (cases "length ?xs" rule: nat.exhaust) (auto, linarith)
  then show ?thesis
  proof cases
    case 1
    with enough show ?thesis by (simp add: resolveBlindSeats_def Let_def)
  next
    case 2
    then obtain a c where ac: "?xs = [a, c]" by (auto simp: length_Suc_conv numeral_2_eq_2)
    with dx have "a \<noteq> c" by simp
    with ac dealer 2 enough show ?thesis
      by (auto simp: resolveBlindSeats_def Let_def)
  next
    case 3
    obtain i where i: "nextSeatIndex ?xs dealer = Some i" "i \<in> set ?xs"
      using nextSeatIndex_Some [OF nonempty] by blast
    obtain j where j: "nextSeatIndex ?xs i = Some j" "j \<in> set ?xs"
      using nextSeatIndex_Some [OF nonempty] by blast
    have "i \<noteq> j" using nextSeatIndex_moves [OF dx i(2) _ j(1)] 3 by force
    with i j 3 enough show ?thesis by (simp add: resolveBlindSeats_def Let_def)
  qed
qed


subsection \<open>The start of a hand\<close>

lemma resetSeatForHand_simps [simp]:
  "seatIndex (resetSeatForHand s) = seatIndex s"
  "stackAmount (resetSeatForHand s) = stackAmount s"
  "committedAmount (resetSeatForHand s) = 0"
  "totalCommittedAmount (resetSeatForHand s) = 0"
  "isNonFolded (resetSeatForHand s) = isSeatEligibleForHand s"
  by (simp_all add: resetSeatForHand_def isNonFolded_def isSeatInHand_def)

lemma resetSeatForHand_ok: "0 \<le> stackAmount s \<Longrightarrow> seatOk 0 0 (resetSeatForHand s)"
  by (auto simp: seatOk_def resetSeatForHand_def isSeatInHand_def isSeatEligibleForHand_def)

text \<open>The table the blinds are posted on: every seat reset, but for its cards.\<close>

lemma dealt_inv:
  assumes settled: "settledTable st" and some: "s \<in> set (seats st)" "isSeatEligibleForHand s"
    and ss: "map blankHole ss = map blankHole (map resetSeatForHand (seats st))"
    and t: "tableStatus t = TableActive" "currentBet t = 0" "boardOk t" "seats t = ss"
  shows "handInvAt 0 t \<and> tableChips t = tableChips st \<and> map seatIndex (seats t) = map seatIndex (seats st)"
proof -
  have idx: "map seatIndex ss = map seatIndex (seats st)"
    using blankHole_project [OF ss, of seatIndex] by (simp add: blankHole_def comp_def)
  have oks: "map (seatOk 0 0) ss = map (seatOk 0 0) (map resetSeatForHand (seats st))"
    by (rule blankHole_project [OF ss]) (simp add: blankHole_def seatOk_def isSeatInHand_def)
  have "seatOk 0 0 x" if "x \<in> set (map resetSeatForHand (seats st))" for x
    using that settled resetSeatForHand_ok by (auto simp: settledTable_def)
  then have "set (map (seatOk 0 0) ss) \<subseteq> {True}"
    unfolding oks by auto
  then have ok: "\<forall>x \<in> set ss. seatOk 0 0 x" by auto
  have lead: "map (\<lambda>x. isNonFolded x \<and> totalCommittedAmount x = 0) ss =
      map (\<lambda>x. isNonFolded x \<and> totalCommittedAmount x = 0) (map resetSeatForHand (seats st))"
    by (rule blankHole_project [OF ss]) (simp add: blankHole_def isNonFolded_def isSeatInHand_def)
  have "True \<in> set (map (\<lambda>x. isNonFolded x \<and> totalCommittedAmount x = 0) ss)"
    unfolding lead using some by (auto simp: image_iff)
  then have "\<exists>x \<in> set ss. isNonFolded x \<and> totalCommittedAmount x = 0" by auto
  with ok idx settled t have "handInvAt 0 t"
    by (simp add: handInvAt_def leads_def settledTable_def)
  moreover have "map seatChips ss = map seatChips (map resetSeatForHand (seats st))"
    by (rule blankHole_project [OF ss]) (simp add: blankHole_def seatChips_def)
  then have "tableChips t = (\<Sum>x\<leftarrow>seats st. stackAmount x)"
    using t(4) by (simp add: tableChips_def) (simp add: seatChips_def comp_def)
  then have "tableChips t = tableChips st"
    using settled by (auto simp: tableChips_def seatChips_def settledTable_def intro!: sum_list_congI)
  ultimately show ?thesis using idx t(4) by simp
qed

lemma dealt_seat:
  assumes d: "distinct (map seatIndex (seats st))"
    and i: "i \<in> set (map seatIndex (listEligibleSeats st))"
    and ss: "map blankHole ss = map blankHole (map resetSeatForHand (seats st))" and t: "seats t = ss"
  shows "\<exists>s. findSeatByIndex t (Some i) = Some s \<and> isNonFolded s"
proof -
  obtain s where s: "s \<in> set (seats st)" "seatIndex s = i" "isSeatEligibleForHand s"
    using eligible_indexes(2) [OF d i] by auto
  have "map (\<lambda>x. (seatIndex x, isNonFolded x)) ss =
      map (\<lambda>x. (seatIndex x, isNonFolded x)) (map resetSeatForHand (seats st))"
    by (rule blankHole_project [OF ss]) (simp add: blankHole_def isNonFolded_def isSeatInHand_def)
  then have "set (map (\<lambda>x. (seatIndex x, isNonFolded x)) ss) =
      set (map (\<lambda>x. (seatIndex x, isNonFolded x)) (map resetSeatForHand (seats st)))" by simp
  moreover have "(i, True) \<in> set (map (\<lambda>x. (seatIndex x, isNonFolded x)) (map resetSeatForHand (seats st)))"
    using s by (auto simp: image_iff)
  ultimately have "(i, True) \<in> set (map (\<lambda>x. (seatIndex x, isNonFolded x)) ss)" by simp
  then obtain x where "x \<in> set ss" "seatIndex x = i" "isNonFolded x" by auto
  moreover have "distinct (map seatIndex ss)"
    using blankHole_project [OF ss, of seatIndex] d by (simp add: blankHole_def comp_def)
  ultimately show ?thesis using t by (auto simp: findSeatByIndex_Some find_key_distinct)
qed

lemma postBlinds_None:
  "smallBlindSeatIndex st = None \<Longrightarrow> postBlinds st = st"
  by (simp add: postBlinds_def)

text \<open>The table once the blinds are posted and the first turn is set.\<close>

definition turnToAct :: "nat \<Rightarrow> table \<Rightarrow> table" where
  "turnToAct f st = passTurn f ((postBlinds st)\<lparr>actedSeatIndexes := []\<rparr>)"

definition readyFrom :: "table \<Rightarrow> table \<Rightarrow> bool" where
  "readyFrom st u =
     (handInvAt 0 u \<and> turnOk u \<and> tableChips u = tableChips st \<and>
      map seatIndex (seats u) = map seatIndex (seats st))"

lemma dealAndPost_run:
  fixes st0 :: table
  assumes settled: "settledTable st"
    and some: "s \<in> set (seats st)" "isSeatEligibleForHand s"
    and st0: "seats st0 = map resetSeatForHand (seats st)" "tableStatus st0 = TableActive"
      "currentBet st0 = 0" "stage st0 = Some Preflop" "communityCards st0 = []" "nextCardIndex st0 = 0"
      "2 * length dealOrder + 5 \<le> length (deck st0)"
    and blinds: "(smallBlindSeatIndex st0, bigBlindSeatIndex st0) = (None, None) \<or>
      (\<exists>i j. (smallBlindSeatIndex st0, bigBlindSeatIndex st0) = (Some i, Some j) \<and> i \<noteq> j \<and>
         i \<in> set (map seatIndex (listEligibleSeats st)) \<and> j \<in> set (map seatIndex (listEligibleSeats st)))"
  shows "\<exists>st1 st2. dealHoleRound dealOrder st0 = Inr st1 \<and> dealHoleRound dealOrder st1 = Inr st2 \<and>
    dealAndPost now dealOrder f st0 = resolveTerminalAndStreetProgression now Preflop (turnToAct f st2) \<and>
    readyFrom st (turnToAct f st2)"
proof -
  have d: "distinct (map seatIndex (seats st))" using settled by (simp add: settledTable_def)
  let ?n = "length dealOrder"
  obtain ss1 where one: "dealHoleRound dealOrder st0 = Inr (st0\<lparr>nextCardIndex := ?n, seats := ss1\<rparr>)"
    "map blankHole ss1 = map blankHole (seats st0)"
    using dealHoleRound_total [of st0 dealOrder] st0 by auto
  let ?st1 = "st0\<lparr>nextCardIndex := ?n, seats := ss1\<rparr>"
  obtain ss where two: "dealHoleRound dealOrder ?st1 = Inr (?st1\<lparr>nextCardIndex := ?n + ?n, seats := ss\<rparr>)"
    "map blankHole ss = map blankHole (seats ?st1)"
    using dealHoleRound_total [of ?st1 dealOrder] st0 by auto
  let ?t = "st0\<lparr>nextCardIndex := ?n + ?n, seats := ss\<rparr>"
  have ss: "map blankHole ss = map blankHole (map resetSeatForHand (seats st))"
    using two one st0 by simp
  have "boardOk ?t" using st0 by (simp add: boardOk_def)
  then have base: "handInvAt 0 ?t \<and> tableChips ?t = tableChips st \<and>
      map seatIndex (seats ?t) = map seatIndex (seats st)"
    using st0 by (intro dealt_inv [OF settled some ss]) simp_all
  have blinds_inv: "handInvAt 0 (postBlinds ?t) \<and> tableChips (postBlinds ?t) = tableChips ?t \<and>
      map seatIndex (seats (postBlinds ?t)) = map seatIndex (seats ?t)"
  proof (cases "smallBlindSeatIndex st0")
    case None
    with base show ?thesis by (simp add: postBlinds_None)
  next
    case (Some i)
    with blinds obtain j where j: "bigBlindSeatIndex st0 = Some j" "i \<noteq> j"
      "i \<in> set (map seatIndex (listEligibleSeats st))" "j \<in> set (map seatIndex (listEligibleSeats st))"
      by auto
    have t: "seats ?t = ss" by simp
    obtain a where a: "findSeatByIndex ?t (Some i) = Some a" "isNonFolded a"
      using dealt_seat [OF d j(3) ss t] by auto
    obtain c where c: "findSeatByIndex ?t (Some j) = Some c" "isNonFolded c"
      using dealt_seat [OF d j(4) ss t] by auto
    show ?thesis
      by (rule postBlinds_inv [OF conjunct1 [OF base] _ _ a _ c j(2)]) (use st0 Some j in simp_all)
  qed
  have "readyFrom st (turnToAct f ?t)"
    using blinds_inv base passTurn_turnOk [of f "(postBlinds ?t)\<lparr>actedSeatIndexes := []\<rparr>"]
    by (simp add: passTurn_def readyFrom_def turnToAct_def)
  moreover have "dealAndPost now dealOrder f st0 =
      resolveTerminalAndStreetProgression now Preflop (turnToAct f ?t)"
    using one two by (simp add: dealAndPost_def Let_def turnToAct_def)
  ultimately show ?thesis using one(1) two(1) by simp
qed

lemma startHoldemHand_run:
  assumes settled: "settledTable st"
    and enough: "resolveMinimumRequiredPlayers st \<le> length (listEligibleSeats st)"
    and human: "listEligibleHumanSeats st \<noteq> []" and few: "length (seats st) \<le> 23"
  obtains handSeed shuf dealer sb bb order f st1 st2 where
    "shuffleHoldemDeck sha256 handSeed = Inr shuf"
    "set order \<subseteq> set (map seatIndex (seats st))" "2 * length order + 5 \<le> 52"
    "dealHoleRound order (openHand sha256 fs handSeed shuf dealer sb bb st) = Inr st1"
    "dealHoleRound order st1 = Inr st2"
    "startHoldemHand sha256 now fs st = resolveTerminalAndStreetProgression now Preflop (turnToAct f st2)"
    "readyFrom st (turnToAct f st2)"
proof -
  have d: "distinct (map seatIndex (seats st))" using settled by (simp add: settledTable_def)
  from human obtain s where "s \<in> set (listEligibleHumanSeats st)" by (cases "listEligibleHumanSeats st") auto
  then have some: "s \<in> set (seats st)" "isSeatEligibleForHand s"
    by (auto simp: listEligibleHumanSeats_def mem_listEligibleSeats)
  obtain dealer where dealer: "dealer \<in> set (map seatIndex (listEligibleSeats st))"
    "resolveNextDealerSeatIndex st = Some dealer"
    using resolveNextDealer_ok [OF enough] by blast
  obtain sb bb where blinds: "resolveBlindSeats st dealer = Inr (sb, bb)"
    "(sb, bb) = (None, None) \<or> (\<exists>i j. (sb, bb) = (Some i, Some j) \<and> i \<noteq> j \<and>
       i \<in> set (map seatIndex (listEligibleSeats st)) \<and> j \<in> set (map seatIndex (listEligibleSeats st)))"
    using resolveBlindSeats_ok [OF d enough dealer(1)] by auto
  let ?first = "case sb of None \<Rightarrow> dealer | Some i \<Rightarrow> i"
  let ?seed = "deriveHoldemHandSeed sha256 (fs_seed fs) (tableId st) (handNumber st + 1)
    (map userId (listEligibleSeats st))"
  obtain shuf where shuf: "shuffleHoldemDeck sha256 ?seed = Inr shuf"
    using shuffleHoldemDeck_perm by blast
  have "?first \<in> set (map seatIndex (listEligibleSeats st))" using blinds(2) dealer(1) by auto
  then have order: "mset (resolveDealOrder st ?first) = mset (map seatIndex (listEligibleSeats st))"
    by (rule resolveDealOrder_mset [OF d])
  have "set (resolveDealOrder st ?first) = set (map seatIndex (listEligibleSeats st))"
    by (rule mset_eq_setD [OF order])
  then have subset: "set (resolveDealOrder st ?first) \<subseteq> set (map seatIndex (seats st))"
    by (auto simp: mem_listEligibleSeats)
  have "length (resolveDealOrder st ?first) = length (listEligibleSeats st)"
    using mset_eq_length [OF order] by simp
  moreover have "length (listEligibleSeats st) \<le> length (seats st)"
    using length_filter_le [of isSeatEligibleForHand "sortSeatsByIndex (seats st)"]
    by (simp add: listEligibleSeats_def sortSeatsByIndex_def)
  ultimately have cards: "2 * length (resolveDealOrder st ?first) + 5 \<le> 52" using few by linarith
  let ?open = "openHand sha256 fs ?seed shuf dealer sb bb st"
  let ?f = "case bb of None \<Rightarrow> dealer | Some i \<Rightarrow> i"
  have "\<exists>st1 st2. dealHoleRound (resolveDealOrder st ?first) ?open = Inr st1 \<and>
      dealHoleRound (resolveDealOrder st ?first) st1 = Inr st2 \<and>
      dealAndPost now (resolveDealOrder st ?first) ?f ?open =
        resolveTerminalAndStreetProgression now Preflop (turnToAct ?f st2) \<and>
      readyFrom st (turnToAct ?f st2)"
    by (rule dealAndPost_run [OF settled some])
      (use blinds(2) cards shuffled_deck(2) [OF shuf] in \<open>simp_all add: openHand_def\<close>)
  then obtain st1 st2 where run: "dealHoleRound (resolveDealOrder st ?first) ?open = Inr st1"
    "dealHoleRound (resolveDealOrder st ?first) st1 = Inr st2"
    "dealAndPost now (resolveDealOrder st ?first) ?f ?open =
        resolveTerminalAndStreetProgression now Preflop (turnToAct ?f st2)"
    "readyFrom st (turnToAct ?f st2)" by blast
  moreover have "tableStatus st = TableWaiting" using settled by (simp add: settledTable_def)
  then have "startHoldemHand sha256 now fs st = dealAndPost now (resolveDealOrder st ?first) ?f ?open"
    using enough human dealer(2) blinds(1) shuf by (simp add: startHoldemHand_def Let_def)
  ultimately show thesis using that [OF shuf subset cards] by metis
qed

lemma startHoldemHand_total:
  assumes "settledTable st" and "resolveMinimumRequiredPlayers st \<le> length (listEligibleSeats st)"
    and "listEligibleHumanSeats st \<noteq> []" and "length (seats st) \<le> 23"
  shows "\<exists>st'. startHoldemHand sha256 now fs st = Inr st' \<and> progressed st st'"
proof -
  from assms obtain u where u: "startHoldemHand sha256 now fs st =
      resolveTerminalAndStreetProgression now Preflop u" "readyFrom st u"
    by (rule startHoldemHand_run) blast
  then have "handInvAt 0 u" "turnOk u" by (simp_all add: readyFrom_def)
  from progression_total [OF this, of now Preflop] u show ?thesis
    by (auto simp: progressed_def readyFrom_def)
qed

lemma startHoldemHand_guards:
  assumes "startHoldemHand sha256 now fs st = Inr st'"
  shows "tableStatus st = TableWaiting" "resolveMinimumRequiredPlayers st \<le> length (listEligibleSeats st)"
    "listEligibleHumanSeats st \<noteq> []"
  using assms by (auto simp: startHoldemHand_def not_less split: if_splits table_status.splits
      intro: table_status.exhaust [of "tableStatus st"])

end
