(* ===== verification/Holdem_Rake.thy ===== *)
theory Holdem_Rake
  imports Holdem_Settlement
begin

text \<open>
  Rake, \<open>applyRakeToSettledState\<close> of \<open>engine.ts\<close>: the house takes basis points of the
  settled pots up to a cap, pot by pot from the main pot, out of the winners' stacks.
\<close>

record rake_policy =
  rakeBps :: nat
  capAmount :: cents
  noFlopNoDrop :: bool

record applied_rake =
  totalRakeAmount :: cents
  seatRakeAmounts :: "(nat \<times> cents) list"

definition noRake :: applied_rake where
  "noRake = \<lparr>totalRakeAmount = 0, seatRakeAmounts = []\<rparr>"

text \<open>The map from seats to what they paid so far, in insertion order.\<close>

fun addToTotals :: "nat \<Rightarrow> cents \<Rightarrow> (nat \<times> cents) list \<Rightarrow> (nat \<times> cents) list" where
  "addToTotals i a [] = [(i, a)]"
| "addToTotals i a ((j, b) # ts) = (if i = j then (j, b + a) # ts else (j, b) # addToTotals i a ts)"

fun chargeSeats ::
  "(nat \<times> cents) list \<Rightarrow> table \<Rightarrow> (nat \<times> cents) list \<Rightarrow> table \<times> (nat \<times> cents) list" where
  "chargeSeats [] st totals = (st, totals)"
| "chargeSeats ((i, a) # shares) st totals =
     (if findSeatByIndex st (Some i) = None then chargeSeats shares st totals
      else chargeSeats shares (updateSeat i (subtractFromSeatStack a) st) (addToTotals i a totals))"

fun rakePots ::
  "pot list \<Rightarrow> cents \<Rightarrow> table \<Rightarrow> (nat \<times> cents) list
     \<Rightarrow> pot list \<times> table \<times> (nat \<times> cents) list" where
  "rakePots [] remaining st totals = ([], st, totals)"
| "rakePots (p # ps) remaining st totals =
     (let potRake = min remaining (amount p)
      in if potRake \<le> 0 \<or> winnerSeatIndexes p = [] then
           (case rakePots ps remaining st totals of
              (ps', st', totals') \<Rightarrow> (p\<lparr>rakeAmount := 0\<rparr> # ps', st', totals'))
         else
           (case chargeSeats (distributeAmountAcrossSeatIndexes potRake (winnerSeatIndexes p))
                   st totals of
              (st1, totals1) \<Rightarrow>
                (case rakePots ps (remaining - potRake) st1 totals1 of
                   (ps', st', totals') \<Rightarrow> (p\<lparr>rakeAmount := potRake\<rparr> # ps', st', totals'))))"

text \<open>\<open>toDecimalPlaces(2, ROUND_DOWN)\<close> of a non-negative amount of cents is the floor.\<close>

definition rakeTotal :: "rake_policy \<Rightarrow> cents \<Rightarrow> cents" where
  "rakeTotal policy totalPot =
     min (totalPot * int (rakeBps policy) div 10000) (capAmount policy)"

definition setLatestRake :: "cents \<Rightarrow> recent_hand list \<Rightarrow> recent_hand list" where
  "setLatestRake a hs = (case hs of [] \<Rightarrow> [] | h # rest \<Rightarrow> h\<lparr>rh_rakeAmount := a\<rparr> # rest)"

definition applyRakeToSettledState :: "table \<Rightarrow> rake_policy \<Rightarrow> table \<times> applied_rake" where
  "applyRakeToSettledState st policy =
     (if tableStatus st \<noteq> TableWaiting \<or> stage st \<noteq> Some Showdown \<or> resolvedPots st = [] then
        (st, noRake)
      else if noFlopNoDrop policy \<and> length (communityCards st) < 3 then (st, noRake)
      else
        let total = rakeTotal policy (potsTotal (resolvedPots st))
        in if total \<le> 0 then (st, noRake)
           else
             case rakePots (resolvedPots st) total st [] of
               (pots, st1, totals) \<Rightarrow>
                 (st1\<lparr>resolvedPots := pots,
                      recentHands := setLatestRake total (recentHands st1)\<rparr>,
                  \<lparr>totalRakeAmount = total, seatRakeAmounts = sort_key fst totals\<rparr>))"

end
