(* ===== verification/Holdem_Awards.thy ===== *)
theory Holdem_Awards
  imports Holdem_Deal Holdem_Rake
begin

text \<open>
  What each seat wins and what each seat pays in rake.  A settlement leaves every stack at
  least as large as what the seat was paid out of the recorded pots, so the rake, which is
  split between the same seats in the same order, never overdraws a stack.
\<close>

definition stackOf :: "table \<Rightarrow> nat \<Rightarrow> cents" where
  "stackOf st i = (case findSeatByIndex st (Some i) of None \<Rightarrow> 0 | Some s \<Rightarrow> stackAmount s)"

definition shareIn :: "(nat \<times> cents) list \<Rightarrow> nat \<Rightarrow> cents" where
  "shareIn xs i = (\<Sum>x\<leftarrow>xs. if fst x = i then snd x else 0)"

definition shareOf :: "cents \<Rightarrow> nat list \<Rightarrow> nat \<Rightarrow> cents" where
  "shareOf a idxs i = shareIn (distributeAmountAcrossSeatIndexes a idxs) i"

definition seated :: "table \<Rightarrow> nat \<Rightarrow> bool" where
  "seated st i = (findSeatByIndex st (Some i) \<noteq> None)"

lemma shareIn_simps [simp]:
  "shareIn [] i = 0"
  "shareIn (x # xs) i = (if fst x = i then snd x else 0) + shareIn xs i"
  by (simp_all add: shareIn_def)

lemma stackOf_mem:
  "distinct (map seatIndex (seats st)) \<Longrightarrow> s \<in> set (seats st) \<Longrightarrow> stackOf st (seatIndex s) = stackAmount s"
  by (simp add: stackOf_def findSeatByIndex_Some find_key_distinct)

lemma seated_update [simp]:
  assumes "\<And>x. seatIndex (f x) = seatIndex x"
  shows "seated (updateSeat i f st) j = seated st j"
  using findSeat_update [of f i st j, OF assms] by (simp add: seated_def)

lemma stackOf_update:
  assumes "\<And>x. seatIndex (f x) = seatIndex x" and "\<And>x. stackAmount (f x) = stackAmount x + a"
    and "seated st i"
  shows "stackOf (updateSeat i f st) j = stackOf st j + (if i = j then a else 0)"
  using findSeat_update [of f i st j, OF assms(1)] assms(2,3)
  by (auto simp: stackOf_def seated_def split: option.splits)

lemma stackOf_same_seats: "seats st' = seats st \<Longrightarrow> stackOf st' i = stackOf st i"
  by (simp add: stackOf_def findSeatByIndex_Some)

lemma seated_iff: "seated st i \<longleftrightarrow> i \<in> set (map seatIndex (seats st))"
  by (auto simp: seated_def findSeatByIndex_Some find_None_iff)

lemma stackOf_map:
  assumes "map seatIndex xs = map seatIndex ys" and "map stackAmount xs = map stackAmount ys"
  shows "map_option stackAmount (find (\<lambda>s. seatIndex s = i) xs) =
    map_option stackAmount (find (\<lambda>s. seatIndex s = i) ys)"
proof -
  have "length xs = length ys" using assms(1) by (metis length_map)
  then show ?thesis using assms by (induction xs ys rule: list_induct2) auto
qed

lemma stackOf_cong:
  assumes "map seatIndex (seats a) = map seatIndex (seats b)"
    and "map stackAmount (seats a) = map stackAmount (seats b)"
  shows "stackOf a i = stackOf b i"
proof -
  have eq: "stackOf t i = (case map_option stackAmount (find (\<lambda>s. seatIndex s = i) (seats t)) of
      None \<Rightarrow> 0 | Some x \<Rightarrow> x)" for t :: table
    by (simp add: stackOf_def findSeatByIndex_Some split: option.splits)
  show ?thesis unfolding eq stackOf_map [OF assms] ..
qed

subsection \<open>Shares\<close>

lemma distributeLoop_nonneg:
  "0 \<le> share \<Longrightarrow> x \<in> set (distributeLoop share r idxs) \<Longrightarrow> 0 \<le> snd x"
  by (induction share r idxs rule: distributeLoop.induct) (auto split: if_splits)

lemma distribute_nonneg:
  "0 \<le> a \<Longrightarrow> x \<in> set (distributeAmountAcrossSeatIndexes a idxs) \<Longrightarrow> 0 \<le> snd x"
  using distributeLoop_nonneg [of "a div int (length idxs)"] div_int_nat_nonneg
  by (auto simp: distributeAmountAcrossSeatIndexes_def)

lemma shareIn_nonneg: "(\<And>x. x \<in> set xs \<Longrightarrow> 0 \<le> snd x) \<Longrightarrow> 0 \<le> shareIn xs i"
  unfolding shareIn_def by (rule sum_list_nonneg) auto

lemma shareOf_nonneg: "0 \<le> a \<Longrightarrow> 0 \<le> shareOf a idxs i"
  unfolding shareOf_def by (rule shareIn_nonneg) (rule distribute_nonneg)

lemma shareOf_Nil [simp]: "shareOf a [] i = 0"
  by (simp add: shareOf_def distributeAmountAcrossSeatIndexes_def)

lemma shareOf_zero [simp]: "shareOf 0 idxs i = 0"
proof -
  have "shareIn (distributeLoop 0 0 idxs) i = 0" by (induction idxs) simp_all
  then show ?thesis by (simp add: shareOf_def distributeAmountAcrossSeatIndexes_def)
qed

text \<open>Splitting less over the same seats gives every seat no more.\<close>

lemma distributeLoop_mono:
  "share < share' \<or> (share = share' \<and> r \<le> r') \<Longrightarrow>
     shareIn (distributeLoop share r idxs) i \<le> shareIn (distributeLoop share' r' idxs) i"
proof (induction idxs arbitrary: r r')
  case (Cons j idxs)
  have "shareIn (distributeLoop share (if r > 0 then r - 1 else r) idxs) i \<le>
      shareIn (distributeLoop share' (if r' > 0 then r' - 1 else r') idxs) i"
    by (rule Cons.IH) (use Cons.prems in auto)
  moreover have "share + (if r > 0 then 1 else 0) \<le> share' + (if r' > 0 then 1 else 0)"
    using Cons.prems by auto
  ultimately show ?case by simp
qed simp

lemma shareOf_mono:
  assumes "a \<le> a'"
  shows "shareOf a idxs i \<le> shareOf a' idxs i"
proof (cases "idxs = []")
  case False
  let ?n = "int (length idxs)"
  have "a div ?n \<le> a' div ?n" using assms False by (simp add: zdiv_mono1)
  moreover have "a mod ?n \<le> a' mod ?n" if "a div ?n = a' div ?n"
    using assms that by (metis add_le_cancel_left mult_div_mod_eq)
  ultimately show ?thesis
    unfolding shareOf_def distributeAmountAcrossSeatIndexes_def
    by (intro distributeLoop_mono) linarith
qed simp

lemma awardShares_stackOf:
  "(\<And>j. j \<in> set idxs \<Longrightarrow> seated st j) \<Longrightarrow>
     stackOf (awardShares share r idxs st) i = stackOf st i + shareIn (distributeLoop share r idxs) i"
proof (induction share r idxs st rule: awardShares.induct)
  case (2 share r j idxs st)
  let ?a = "share + (if r > 0 then 1 else 0)"
  let ?f = "\<lambda>s. (awardToSeatStack ?a s)\<lparr>winner := True\<rparr>"
  let ?st = "updateSeat j ?f st"
  have here: "findSeatByIndex st (Some j) \<noteq> None" using "2.prems" [of j] by (simp add: seated_def)
  have "stackOf (awardShares share (if r > 0 then r - 1 else r) idxs ?st) i =
      stackOf ?st i + shareIn (distributeLoop share (if r > 0 then r - 1 else r) idxs) i"
    by (rule "2.IH"(2) [OF here]) (use "2.prems" in simp)
  moreover have "stackOf ?st i = stackOf st i + (if j = i then ?a else 0)"
    by (rule stackOf_update) (use "2.prems" in simp_all)
  moreover have "awardShares share r (j # idxs) st =
      awardShares share (if r > 0 then r - 1 else r) idxs ?st"
    using here by (simp only: awardShares.simps if_False)
  ultimately show ?case by simp
qed simp

subsection \<open>Awards\<close>

definition wonBy :: "pot list \<Rightarrow> nat \<Rightarrow> cents" where
  "wonBy ps i = (\<Sum>p\<leftarrow>ps. shareOf (amount p) (winnerSeatIndexes p) i)"

definition potsAwarded :: "table \<Rightarrow> pot list \<Rightarrow> bool" where
  "potsAwarded st ps =
     (\<forall>p \<in> set ps. 0 \<le> amount p \<and> winnerSeatIndexes p \<noteq> [] \<and>
        (\<forall>j \<in> set (winnerSeatIndexes p). seated st j))"

definition awarded :: "table \<Rightarrow> bool" where
  "awarded st =
     (distinct (map seatIndex (seats st)) \<and> potsAwarded st (resolvedPots st) \<and>
      (\<forall>s \<in> set (seats st). wonBy (resolvedPots st) (seatIndex s) \<le> stackAmount s))"

lemma settlePot_award:
  assumes ok: "settlePot hands p st = Inr (st', p')" and some: "eligibleForPot st p \<noteq> []"
  shows "stackOf st' i = stackOf st i + shareOf (amount p') (winnerSeatIndexes p') i \<and>
    amount p' = amount p \<and> winnerSeatIndexes p' \<noteq> [] \<and>
    (\<forall>j \<in> set (winnerSeatIndexes p'). seated st j)"
proof -
  from ok some obtain ws where ws: "pickPotWinners hands (eligibleForPot st p) = Inr ws"
    and st': "st' = awardShares (amount p div int (length ws)) (amount p mod int (length ws))
      (sortSeatIndexesLeftOfDealer st ws) st"
    and p': "p' = p\<lparr>rakeAmount := 0, winnerSeatIndexes := sortSeatIndexesLeftOfDealer st ws\<rparr>"
    by (auto simp: settlePot_def Let_def split: sum.splits)
  note best = pickPotWinners_best [OF ws some]
  have seat: "seated st j" if "j \<in> set ws" for j
    using best that by (auto dest: eligibleForPot_found simp: seated_def)
  have "stackOf st' i = stackOf st i + shareIn (distributeLoop (amount p div int (length ws))
      (amount p mod int (length ws)) (sortSeatIndexesLeftOfDealer st ws)) i"
    unfolding st' by (rule awardShares_stackOf) (use seat in simp)
  moreover have "sortSeatIndexesLeftOfDealer st ws \<noteq> []"
    using best length_sortLeft [of st ws] by (metis length_0_conv)
  ultimately show ?thesis
    using seat by (simp add: p' shareOf_def distributeAmountAcrossSeatIndexes_def)
qed

lemma settlePots_award:
  "settlePots hands ps st = Inr (st', ps') \<Longrightarrow> (\<And>p. p \<in> set ps \<Longrightarrow> eligibleForPot st p \<noteq> []) \<Longrightarrow>
     (\<And>p. p \<in> set ps \<Longrightarrow> 0 \<le> amount p) \<Longrightarrow>
     stackOf st' i = stackOf st i + wonBy ps' i \<and> potsAwarded st ps'"
proof (induction ps arbitrary: st st' ps')
  case (Cons p ps)
  from Cons.prems(1) obtain st1 p1 ps1 where one: "settlePot hands p st = Inr (st1, p1)"
    and rest: "settlePots hands ps st1 = Inr (st', ps1)" and ps': "ps' = p1 # ps1"
    by (auto split: sum.splits)
  have same: "sameCore st st1" using settlePot_ok [OF one] by simp
  have seated: "seated st1 j = seated st j" for j
    using sameCore_indexes [OF same] by (simp add: seated_iff)
  note first = settlePot_award [OF one Cons.prems(2) [of p]]
  have "stackOf st' i = stackOf st1 i + wonBy ps1 i \<and> potsAwarded st1 ps1"
    by (rule Cons.IH [OF rest])
      (use Cons.prems eligibleForPot_sameCore [OF same] in auto)
  with first Cons.prems(3) [of p] show ?case
    by (simp add: ps' wonBy_def potsAwarded_def seated)
qed (simp add: wonBy_def potsAwarded_def)

lemma awardedI:
  assumes pots: "resolvedPots st' = ps" "potsAwarded st ps"
    and seats: "map seatIndex (seats st') = map seatIndex (seats st)"
    and d: "distinct (map seatIndex (seats st))"
    and won: "\<And>i. seated st i \<Longrightarrow> wonBy ps i \<le> stackOf st' i"
  shows "awarded st'"
proof -
  have "wonBy ps (seatIndex s) \<le> stackAmount s" if "s \<in> set (seats st')" for s
  proof -
    have "seatIndex s \<in> set (map seatIndex (seats st'))" using that by simp
    then have "seated st (seatIndex s)" by (simp only: seated_iff seats)
    then have "wonBy ps (seatIndex s) \<le> stackOf st' (seatIndex s)" by (rule won)
    moreover have "stackOf st' (seatIndex s) = stackAmount s"
      by (rule stackOf_mem [OF _ that]) (simp only: seats d)
    ultimately show ?thesis by simp
  qed
  with assms show ?thesis by (simp add: awarded_def potsAwarded_def seated_iff)
qed

lemma stackOf_cleared:
  "seats st' = map clearSeatAfterHand (seats st) \<Longrightarrow> stackOf st' i = stackOf st i"
  by (rule stackOf_cong) (simp_all add: comp_def)

lemma wellSeated_stackOf: "wellSeated st \<Longrightarrow> 0 \<le> stackOf st i"
  by (auto simp: wellSeated_def stackOf_def findSeatByIndex_Some dest!: find_SomeD split: option.splits)


lemma shareOf_one [simp]: "shareOf a [w] i = (if w = i then a else 0)"
  by (simp add: shareOf_def distributeAmountAcrossSeatIndexes_def)

lemma settleByFold_awarded:
  assumes wf: "wellSeated st" and ok: "settleByFold now cs st = Inr st'"
  shows "awarded st'"
proof -
  have d: "distinct (map seatIndex (seats st))" using wf by (simp add: wellSeated_def)
  from ok obtain w rest where w: "listNonFoldedSeats st = w # rest"
    by (auto simp: settleByFold_def split: list.splits)
  let ?ps = "map (\<lambda>p. p\<lparr>rakeAmount := 0, winnerSeatIndexes := [seatIndex w]\<rparr>) (buildPendingPotViews st)"
  let ?f = "\<lambda>s. awardToSeatStack (potsTotal ?ps) s\<lparr>winner := True,
      lastAction := (case lastAction s of None \<Rightarrow> Some ''Win'' | Some a \<Rightarrow> Some a)\<rparr>"
  let ?st1 = "updateSeat (seatIndex w) ?f st"
  have st': "resolvedPots st' = ?ps" "seats st' = map clearSeatAfterHand (seats ?st1)"
    using ok w by (auto simp: settleByFold_def Let_def)
  have "w \<in> set (seats st)" using w by (metis mem_listNonFoldedSeats list.set_intros(1))
  then have here: "seated st (seatIndex w)" by (simp add: seated_iff)
  have idx: "map seatIndex (seats st') = map seatIndex (seats st)"
    using seatStore.keys_upd [of ?f "seatIndex w" st] by (simp add: st'(2) comp_def)
  show ?thesis
  proof (rule awardedI [OF st'(1) _ idx d])
    show "potsAwarded st ?ps" using here by (auto simp: potsAwarded_def elim!: pendingPot_cases)
    show "wonBy ?ps i \<le> stackOf st' i" for i
    proof -
      have "wonBy ?ps i = (if seatIndex w = i then potsTotal ?ps else 0)"
        by (simp add: wonBy_def potsTotal_def comp_def)
      moreover have "stackOf st' i = stackOf st i + (if seatIndex w = i then potsTotal ?ps else 0)"
        unfolding stackOf_cleared [OF st'(2)] by (rule stackOf_update) (use here in simp_all)
      ultimately show ?thesis using wellSeated_stackOf [OF wf, of i] by simp
    qed
  qed
qed

lemma settleShowdown_awarded:
  assumes wf: "wellSeated st" and live: "topIsLive st" and ok: "settleShowdown now st = Inr st'"
  shows "awarded st'"
proof -
  from ok obtain st1 hands st2 pots where
    ev: "evaluateShowdown (listNonFoldedSeats st) st = Inr (st1, hands)"
    and sp: "settlePots hands (buildPendingPotViews st1) st1 = Inr (st2, pots)"
    and st': "st' = finishShowdown now (listNonFoldedSeats st) pots st2"
    by (auto simp: settleShowdown_def Let_def split: if_splits sum.splits)
  have core1: "sameCore st st1" and stack1: "map stackAmount (seats st1) = map stackAmount (seats st)"
    using evaluateShowdown_frame [OF ev] by simp_all
  have wf1: "wellSeated st1" by (rule wellSeated_sameCore [OF wf core1 stack1])
  have live1: "topIsLive st1" by (rule topIsLive_sameCore [OF live core1])
  have award: "stackOf st2 i = stackOf st1 i + wonBy pots i \<and> potsAwarded st1 pots" for i
    by (rule settlePots_award [OF sp])
      (use topIsLive_eligible [OF wf1 live1] in \<open>auto elim!: pendingPot_cases\<close>)
  have idx2: "map seatIndex (seats st2) = map seatIndex (seats st1)"
    using settlePots_ok [OF sp] sameCore_indexes by blast
  have d1: "distinct (map seatIndex (seats st1))" using wf1 by (simp add: wellSeated_def)
  obtain st3 :: table where st3: "seats st' = map clearSeatAfterHand (seats st3)"
    "map seatIndex (seats st3) = map seatIndex (seats st2)"
    "map stackAmount (seats st3) = map stackAmount (seats st2)"
  proof -
    have "distinct (map seatIndex (seats st2))" by (simp only: idx2 d1)
    from finishShowdown_seats [OF this] that show thesis unfolding st' by blast
  qed
  show ?thesis
  proof (rule awardedI)
    show "resolvedPots st' = pots" by (simp add: st' finishShowdown_def Let_def)
    show "potsAwarded st1 pots" using award by blast
    show "map seatIndex (seats st') = map seatIndex (seats st1)" using st3 idx2 by (simp add: comp_def)
    show "distinct (map seatIndex (seats st1))" by (rule d1)
    show "wonBy pots i \<le> stackOf st' i" for i
      using award [of i] wellSeated_stackOf [OF wf1, of i] stackOf_cleared [OF st3(1)]
        stackOf_cong [OF st3(2,3), of i] by simp
  qed
qed

lemma progression_awarded:
  "handInvAt b st \<Longrightarrow> turnOk st \<Longrightarrow> resolveTerminalAndStreetProgression now cs st = Inr st' \<Longrightarrow>
     tableStatus st' = TableWaiting \<Longrightarrow> awarded st'"
proof (induction now cs st arbitrary: b rule: resolveTerminalAndStreetProgression.induct)
  case (1 now cs st)
  note inv = "1.prems"(1)
  have active: "tableStatus st = TableActive" using inv by (simp add: handInvAt_def)
  note unfold = resolveTerminalAndStreetProgression.simps [of now cs st]
  let ?folded = "\<not> isSoloHoldemState st \<and> length (listNonFoldedSeats st) \<le> 1"
  consider (fold) ?folded | (wait) "\<not> ?folded" "\<not> hasRoundCompleted st"
    | (river) "\<not> ?folded" "hasRoundCompleted st" "stage st = Some River"
    | (street) "\<not> ?folded" "hasRoundCompleted st" "stage st \<noteq> Some River"
    by blast
  then show ?case
  proof cases
    case fold
    then have "settleByFold now cs st = Inr st'" using "1.prems"(3) active by (simp add: unfold)
    then show ?thesis by (rule settleByFold_awarded [OF handInvAt_wellSeated [OF inv]])
  next
    case wait
    then have "st' = st" using "1.prems"(3) active by (simp only: unfold) simp
    with active "1.prems"(4) show ?thesis by simp
  next
    case river
    then have "settleShowdown now st = Inr st'" using "1.prems"(3) active by (simp only: unfold) simp
    then show ?thesis
      by (rule settleShowdown_awarded [OF handInvAt_wellSeated [OF inv] handInvAt_topIsLive [OF inv]])
  next
    case street
    obtain st1 where st1: "dealNextStreet now st = Inr st1" "handInvAt (b + currentBet st) st1" "turnOk st1"
      using dealNextStreet_ok [OF inv street(2,3)] by blast
    then have "resolveTerminalAndStreetProgression now
        (case stage st1 of None \<Rightarrow> cs | Some s \<Rightarrow> s) st1 = Inr st'"
      using street active "1.prems"(3) by (simp only: unfold) simp
    from "1.IH" [OF _ street(1) _ street(3) st1(1,2,3) this "1.prems"(4)] street(2) active
    show ?thesis by simp
  qed
qed


subsection \<open>Charging the rake\<close>

lemma addToTotals_sum:
  "(\<Sum>x\<leftarrow>addToTotals i a ts. snd x) = (\<Sum>x\<leftarrow>ts. snd x) + a"
  by (induction i a ts rule: addToTotals.induct) auto

lemma addToTotals_share: "shareIn (addToTotals i a ts) j = shareIn ts j + (if i = j then a else 0)"
  by (induction i a ts rule: addToTotals.induct) auto

lemma subtractFromSeatStack_simps:
  "0 \<le> a \<Longrightarrow> stackAmount (subtractFromSeatStack a s) = stackAmount s + - a"
  "seatIndex (subtractFromSeatStack a s) = seatIndex s"
  "totalCommittedAmount (subtractFromSeatStack a s) = totalCommittedAmount s"
  by (simp_all add: subtractFromSeatStack_def)

lemma stackOf_subtract:
  assumes "seated st i" and "0 \<le> a"
  shows "stackOf (updateSeat i (subtractFromSeatStack a) st) j = stackOf st j - (if i = j then a else 0)"
  using stackOf_update [of "subtractFromSeatStack a" "- a" st i j] assms
  by (simp add: subtractFromSeatStack_simps)

lemma chargeSeats_ok:
  "chargeSeats xs st ts = (st', ts') \<Longrightarrow> (\<And>x. x \<in> set xs \<Longrightarrow> seated st (fst x) \<and> 0 \<le> snd x) \<Longrightarrow>
     stackOf st' i = stackOf st i - shareIn xs i \<and>
     map seatIndex (seats st') = map seatIndex (seats st) \<and>
     tableChips st' = tableChips st - (\<Sum>x\<leftarrow>xs. snd x) \<and>
     (\<Sum>x\<leftarrow>ts'. snd x) = (\<Sum>x\<leftarrow>ts. snd x) + (\<Sum>x\<leftarrow>xs. snd x)"
proof (induction xs st ts rule: chargeSeats.induct)
  case (2 j a xs st ts)
  let ?st = "updateSeat j (subtractFromSeatStack a) st"
  have here: "findSeatByIndex st (Some j) \<noteq> None" and a: "0 \<le> a"
    using "2.prems"(2) [of "(j, a)"] by (simp_all add: seated_def)
  then obtain s where s: "findSeatByIndex st (Some j) = Some s" by blast
  have run: "chargeSeats xs ?st (addToTotals j a ts) = (st', ts')" using "2.prems"(1) here by simp
  have "stackOf st' i = stackOf ?st i - shareIn xs i \<and>
     map seatIndex (seats st') = map seatIndex (seats ?st) \<and>
     tableChips st' = tableChips ?st - (\<Sum>x\<leftarrow>xs. snd x) \<and>
     (\<Sum>x\<leftarrow>ts'. snd x) = (\<Sum>x\<leftarrow>addToTotals j a ts. snd x) + (\<Sum>x\<leftarrow>xs. snd x)"
    by (rule "2.IH"(2) [OF here run])
      (use "2.prems"(2) in \<open>simp add: subtractFromSeatStack_simps\<close>)
  moreover have "stackOf ?st i = stackOf st i - (if j = i then a else 0)"
    using stackOf_subtract [of st j a i] here a by (simp add: seated_def)
  moreover have "tableChips ?st = tableChips st - a"
    using s a by (simp add: tableChips_def findSeatByIndex_Some seatStore.sum_upd seatChips_def
        subtractFromSeatStack_simps)
  moreover have "map seatIndex (seats ?st) = map seatIndex (seats st)"
    by (rule seatStore.keys_upd) (simp add: subtractFromSeatStack_simps)
  ultimately show ?case by (simp add: addToTotals_sum)
qed simp

text \<open>What the pots pay together: the rake asked for, as far as the pots cover it.\<close>

definition rakePaid :: "pot list \<Rightarrow> nat \<Rightarrow> cents" where
  "rakePaid ps i = (\<Sum>p\<leftarrow>ps. shareOf (rakeAmount p) (winnerSeatIndexes p) i)"

lemma rakePots_ok:
  "rakePots ps rest st ts = (ps', st', ts') \<Longrightarrow> potsAwarded st ps \<Longrightarrow> 0 \<le> rest \<Longrightarrow>
     stackOf st' i = stackOf st i - rakePaid ps' i \<and> rakePaid ps' i \<le> wonBy ps i \<and>
     map seatIndex (seats st') = map seatIndex (seats st) \<and>
     tableChips st' = tableChips st - min rest (potsTotal ps) \<and>
     (\<Sum>x\<leftarrow>ts'. snd x) = (\<Sum>x\<leftarrow>ts. snd x) + min rest (potsTotal ps) \<and>
     map amount ps' = map amount ps"
proof (induction ps arbitrary: rest st ts ps' st' ts')
  case (Cons p ps)
  have p: "0 \<le> amount p" "winnerSeatIndexes p \<noteq> []" "\<forall>j \<in> set (winnerSeatIndexes p). seated st j"
    and ps: "potsAwarded st ps"
    using Cons.prems(2) by (auto simp: potsAwarded_def)
  have total: "0 \<le> potsTotal ps"
    unfolding potsTotal_def by (rule sum_list_nonneg) (use ps in \<open>auto simp: potsAwarded_def\<close>)
  let ?r = "min rest (amount p)"
  show ?case
  proof (cases "?r \<le> 0")
    case True
    then obtain ps1 where run: "rakePots ps rest st ts = (ps1, st', ts')"
      and ps': "ps' = p\<lparr>rakeAmount := 0\<rparr> # ps1"
      using Cons.prems(1) by (auto simp: Let_def split: prod.splits)
    have zero: "shareOf 0 (winnerSeatIndexes p) i = 0" "0 \<le> shareOf (amount p) (winnerSeatIndexes p) i"
      using p(1) by (simp_all add: shareOf_nonneg)
    have "min rest (potsTotal ps) = min rest (potsTotal (p # ps))"
    proof -
      from True p(1) Cons.prems(3) consider "rest = 0" | "amount p = 0" by linarith
      then show ?thesis by cases (use total p(1) in \<open>simp_all add: potsTotal_def\<close>)
    qed
    with Cons.IH [OF run ps Cons.prems(3)] zero show ?thesis
      by (simp add: ps' rakePaid_def wonBy_def)
  next
    case False
    obtain st1 ts1 where charge: "chargeSeats (distributeAmountAcrossSeatIndexes ?r (winnerSeatIndexes p)) st ts = (st1, ts1)"
      by fastforce
    with False p(2) Cons.prems(1) obtain ps1 where run: "rakePots ps (rest - ?r) st1 ts1 = (ps1, st', ts')"
      and ps': "ps' = p\<lparr>rakeAmount := ?r\<rparr> # ps1"
      by (auto simp: Let_def split: prod.splits)
    have pays: "seated st (fst x) \<and> 0 \<le> snd x"
      if "x \<in> set (distributeAmountAcrossSeatIndexes ?r (winnerSeatIndexes p))" for x
    proof
      have "fst x \<in> set (map fst (distributeAmountAcrossSeatIndexes ?r (winnerSeatIndexes p)))"
        using that by simp
      then show "seated st (fst x)" using p(3) by (simp only: distribute_fst)
      show "0 \<le> snd x" by (rule distribute_nonneg [OF _ that]) (use False in linarith)
    qed
    have idx1: "map seatIndex (seats st1) = map seatIndex (seats st)"
      using chargeSeats_ok [OF charge pays] by blast
    have "potsAwarded st1 ps" using ps idx1 by (simp add: potsAwarded_def seated_iff)
    moreover have "0 \<le> rest - ?r" by simp
    ultimately have IH: "stackOf st' i = stackOf st1 i - rakePaid ps1 i \<and> rakePaid ps1 i \<le> wonBy ps i \<and>
     map seatIndex (seats st') = map seatIndex (seats st1) \<and>
     tableChips st' = tableChips st1 - min (rest - ?r) (potsTotal ps) \<and>
     (\<Sum>x\<leftarrow>ts'. snd x) = (\<Sum>x\<leftarrow>ts1. snd x) + min (rest - ?r) (potsTotal ps) \<and>
     map amount ps1 = map amount ps"
      using Cons.IH [OF run] by blast
    have "shareOf ?r (winnerSeatIndexes p) i \<le> shareOf (amount p) (winnerSeatIndexes p) i"
      by (rule shareOf_mono) simp
    moreover have "?r + min (rest - ?r) (potsTotal ps) = min rest (potsTotal (p # ps))"
      using total by (auto simp: potsTotal_def min_def)
    ultimately show ?thesis
      using IH chargeSeats_ok [OF charge pays, of i] distribute_sum [OF p(2), of ?r]
      by (auto simp: ps' rakePaid_def wonBy_def shareOf_def)
  qed
qed (simp add: rakePaid_def wonBy_def potsTotal_def)


subsection \<open>The rake of a settled hand\<close>

lemma rakeTotal_bounds:
  assumes "0 \<le> a" and "rakeBps policy \<le> 10000"
  shows "rakeTotal policy a \<le> capAmount policy" "10000 * rakeTotal policy a \<le> a * int (rakeBps policy)"
    "rakeTotal policy a \<le> a"
proof -
  show "rakeTotal policy a \<le> capAmount policy" by (simp add: rakeTotal_def)
  have "rakeTotal policy a \<le> a * int (rakeBps policy) div 10000" by (simp add: rakeTotal_def)
  then show bps: "10000 * rakeTotal policy a \<le> a * int (rakeBps policy)" by linarith
  have "a * int (rakeBps policy) \<le> a * 10000" using assms by (intro mult_left_mono) auto
  with bps show "rakeTotal policy a \<le> a" by linarith
qed

lemma sum_list_sort_totals:
  fixes f :: "nat \<times> cents \<Rightarrow> cents"
  shows "(\<Sum>x\<leftarrow>sort_key fst xs. f x) = (\<Sum>x\<leftarrow>xs. f x)"
  by (rule sum_list_sort_key)

lemma applyRake_cases:
  assumes "applyRakeToSettledState st policy = (st', r)"
  shows "(st' = st \<and> r = noRake) \<or>
    (\<exists>pots st1 totals total. total = rakeTotal policy (potsTotal (resolvedPots st)) \<and> 0 < total \<and>
       rakePots (resolvedPots st) total st [] = (pots, st1, totals) \<and>
       st' = st1\<lparr>resolvedPots := pots, recentHands := setLatestRake total (recentHands st1)\<rparr> \<and>
       r = \<lparr>totalRakeAmount = total, seatRakeAmounts = sort_key fst totals\<rparr>)"
  using assms
  by (auto simp: applyRakeToSettledState_def Let_def split: if_splits prod.splits)

lemma awarded_total_nonneg: "awarded st \<Longrightarrow> 0 \<le> potsTotal (resolvedPots st)"
  unfolding potsTotal_def by (rule sum_list_nonneg) (auto simp: awarded_def potsAwarded_def)


lemma chargeSeats_sameCore: "chargeSeats xs st ts = (st', ts') \<Longrightarrow> sameCore st st'"
proof (induction xs st ts rule: chargeSeats.induct)
  case (2 i a xs st ts)
  have "sameCore st (updateSeat i (subtractFromSeatStack a) st)"
    by (rule updateSeat_sameCore) (simp add: seatCore_def subtractFromSeatStack_def)
  with 2 show ?case by (auto split: if_splits intro: sameCore_trans)
qed simp

lemma rakePots_sameCore: "rakePots ps rest st ts = (ps', st', ts') \<Longrightarrow> sameCore st st'"
proof (induction ps arbitrary: rest st ts ps' st' ts')
  case (Cons p ps)
  let ?r = "min rest (amount p)"
  obtain st1 ts1 where charge:
    "chargeSeats (distributeAmountAcrossSeatIndexes ?r (winnerSeatIndexes p)) st ts = (st1, ts1)"
    by fastforce
  from Cons.prems consider ps1 where "rakePots ps rest st ts = (ps1, st', ts')"
    | ps1 where "rakePots ps (rest - ?r) st1 ts1 = (ps1, st', ts')"
    by (auto simp: Let_def charge split: if_splits prod.splits)
  then show ?case
  proof cases
    case 1
    then show ?thesis by (rule Cons.IH)
  next
    case 2
    from chargeSeats_sameCore [OF charge] Cons.IH [OF 2] show ?thesis by (rule sameCore_trans)
  qed
qed simp

text \<open>The rake of an awarded table: it comes off the chips and leaves a settled table.\<close>

lemma applyRake_ok:
  assumes settled: "settledTable st" and awarded: "awarded st" and bps: "rakeBps policy \<le> 10000"
    and run: "applyRakeToSettledState st policy = (st', r)"
  shows "settledTable st' \<and> tableChips st' = tableChips st - totalRakeAmount r \<and>
    map seatIndex (seats st') = map seatIndex (seats st) \<and>
    (\<Sum>x\<leftarrow>seatRakeAmounts r. snd x) = totalRakeAmount r"
  using applyRake_cases [OF run]
proof
  assume "st' = st \<and> r = noRake"
  with settled show ?thesis by (simp add: noRake_def)
next
  assume "\<exists>pots st1 totals total. total = rakeTotal policy (potsTotal (resolvedPots st)) \<and> 0 < total \<and>
       rakePots (resolvedPots st) total st [] = (pots, st1, totals) \<and>
       st' = st1\<lparr>resolvedPots := pots, recentHands := setLatestRake total (recentHands st1)\<rparr> \<and>
       r = \<lparr>totalRakeAmount = total, seatRakeAmounts = sort_key fst totals\<rparr>"
  then obtain pots st1 totals total where total: "total = rakeTotal policy (potsTotal (resolvedPots st))"
    "0 < total" and rake: "rakePots (resolvedPots st) total st [] = (pots, st1, totals)"
    and st': "st' = st1\<lparr>resolvedPots := pots, recentHands := setLatestRake total (recentHands st1)\<rparr>"
    and r: "r = \<lparr>totalRakeAmount = total, seatRakeAmounts = sort_key fst totals\<rparr>"
    by blast
  have pots: "potsAwarded st (resolvedPots st)" using awarded by (simp add: awarded_def)
  have le: "total \<le> potsTotal (resolvedPots st)"
    using rakeTotal_bounds(3) [OF awarded_total_nonneg [OF awarded] bps] by (simp add: total)
  have result: "stackOf st1 i = stackOf st i - rakePaid pots i \<and> rakePaid pots i \<le> wonBy (resolvedPots st) i \<and>
     map seatIndex (seats st1) = map seatIndex (seats st) \<and>
     tableChips st1 = tableChips st - total \<and> (\<Sum>x\<leftarrow>totals. snd x) = total" for i
    using rakePots_ok [OF rake pots, of i] total(2) le by simp
  note same = rakePots_sameCore [OF rake]
  have d1: "distinct (map seatIndex (seats st1))"
    using result settled by (simp add: settledTable_def)
  have zero: "committedAmount s = 0 \<and> totalCommittedAmount s = 0" if "s \<in> set (seats st1)" for s
    using sameCore_mem [OF same that] settled by (auto simp: settledTable_def seatCore_def)
  have stack: "0 \<le> stackAmount s" if s: "s \<in> set (seats st1)" for s
  proof -
    have "seatIndex s \<in> set (map seatIndex (seats st1))" using s by simp
    then have "seatIndex s \<in> set (map seatIndex (seats st))" using result by simp
    then obtain t where t: "t \<in> set (seats st)" "seatIndex t = seatIndex s" by auto
    have "wonBy (resolvedPots st) (seatIndex t) \<le> stackOf st (seatIndex t)"
      using awarded t(1) stackOf_mem [of st t] by (auto simp: awarded_def)
    then have "wonBy (resolvedPots st) (seatIndex s) \<le> stackOf st (seatIndex s)" by (simp only: t(2))
    with result [of "seatIndex s"] stackOf_mem [OF d1 s] show ?thesis by linarith
  qed
  have "tableStatus st1 = TableWaiting"
    using same settled tableRest_fields(1) [of st1 st] by (simp add: settledTable_def sameCore_def)
  with d1 zero stack have "settledTable st'" by (simp add: settledTable_def st')
  moreover have "tableChips st' = tableChips st1" by (simp add: st' tableChips_def)
  ultimately show ?thesis
    using result by (simp add: st' r sum_list_sort_totals)
qed

text \<open>A hand in play pays no rake.\<close>

lemma applyRake_active: "tableStatus st = TableActive \<Longrightarrow> applyRakeToSettledState st policy = (st, noRake)"
  by (simp add: applyRakeToSettledState_def)

lemma actOnHoldemSeat_awarded:
  assumes inv: "tableInv st" and ok: "actOnHoldemSeat parse now st i action amt = Inr st'"
    and waiting: "tableStatus st' = TableWaiting"
  shows "awarded st'"
proof -
  from ok obtain a s where offer: "resolveHoldemActionAvailability st i = Some a"
    "action \<in> set (av_actions a)" "findSeatByIndex st (Some i) = Some s" "tableStatus st = TableActive"
    by (rule actOnHoldemSeat_needs_offer)
  have hand: "handInv st" using inv offer(4) by (simp add: tableInv_def)
  from actOnHoldemSeat_offered [OF hand offer(1-3)] obtain cs where
    "actOnHoldemSeat parse now st i action amt =
      bind_res (chipsStep parse st s action amt) (resolveTerminalAndStreetProgression now cs)" .
  with ok obtain st1 where st1: "chipsStep parse st s action amt = Inr st1"
    and rest: "resolveTerminalAndStreetProgression now cs st1 = Inr st'"
    by (auto simp: bind_res_Inr_iff)
  from chipsStep_moved [OF hand offer(1-3) st1]
  have "handInvAt (streetBase st) st1" "turnOk st1" by (simp_all add: moved_def)
  then show ?thesis by (rule progression_awarded [OF _ _ rest waiting])
qed

end
