(* ===== verification/Holdem_Cards.thy ===== *)
theory Holdem_Cards
  imports Holdem_Awards
begin

text \<open>
  Where the cards are: the hole cards of the seats and the board are the part of the deck
  that was dealt, each card once, and the board only grows, in the order of the deck.
\<close>

definition holes :: "table \<Rightarrow> card list list" where
  "holes st = map holeCards (seats st)"

definition cardsInv :: "table \<Rightarrow> bool" where
  "cardsInv st =
     (mset (concat (holes st)) + mset (communityCards st) =
        mset (take (nextCardIndex st) (deck st)) \<and>
      distinct (deck st) \<and> nextCardIndex st \<le> length (deck st))"

text \<open>The cards dealt between two states of the same hand, all of them to the board.\<close>

definition boardGrows :: "table \<Rightarrow> table \<Rightarrow> bool" where
  "boardGrows st st' =
     (deck st' = deck st \<and> holes st' = holes st \<and> nextCardIndex st \<le> nextCardIndex st' \<and>
      nextCardIndex st' \<le> max (nextCardIndex st) (length (deck st)) \<and>
      communityCards st' = communityCards st @
        take (nextCardIndex st' - nextCardIndex st) (drop (nextCardIndex st) (deck st)))"

lemma boardGrows_same:
  "deck st' = deck st \<Longrightarrow> holes st' = holes st \<Longrightarrow> nextCardIndex st' = nextCardIndex st \<Longrightarrow>
     communityCards st' = communityCards st \<Longrightarrow> boardGrows st st'"
  by (simp add: boardGrows_def)

lemma boardGrows_trans:
  assumes "boardGrows st st1" and "boardGrows st1 st2"
  shows "boardGrows st st2"
proof -
  let ?n = "nextCardIndex st" and ?n1 = "nextCardIndex st1" and ?n2 = "nextCardIndex st2"
  have "take (?n2 - ?n) (drop ?n (deck st)) =
      take (?n1 - ?n) (drop ?n (deck st)) @ take (?n2 - ?n1) (drop ?n1 (deck st))"
    using assms take_add [of "?n1 - ?n" "?n2 - ?n1" "drop ?n (deck st)"]
    by (simp add: boardGrows_def)
  with assms show ?thesis by (auto simp: boardGrows_def)
qed

lemma boardGrows_cardsInv:
  assumes grows: "boardGrows st st'" and inv: "cardsInv st"
  shows "cardsInv st'"
proof -
  let ?n = "nextCardIndex st" and ?n' = "nextCardIndex st'"
  have "take ?n' (deck st) = take ?n (deck st) @ take (?n' - ?n) (drop ?n (deck st))"
    using grows take_add [of ?n "?n' - ?n" "deck st"] by (simp add: boardGrows_def)
  moreover have "?n' \<le> length (deck st)" using grows inv by (auto simp: boardGrows_def cardsInv_def)
  ultimately show ?thesis
    using grows inv by (auto simp: boardGrows_def cardsInv_def)
qed

text \<open>No card is in two places.\<close>

lemma cardsInv_distinct:
  assumes "cardsInv st"
  shows "distinct (concat (holes st) @ communityCards st)"
    "set (concat (holes st) @ communityCards st) \<subseteq> set (deck st)"
proof -
  have perm: "mset (concat (holes st) @ communityCards st) = mset (take (nextCardIndex st) (deck st))"
    using assms by (simp add: cardsInv_def)
  have "distinct (take (nextCardIndex st) (deck st))" using assms by (simp add: cardsInv_def)
  with perm show "distinct (concat (holes st) @ communityCards st)"
    using mset_eq_imp_distinct_iff by blast
  have "set (concat (holes st) @ communityCards st) = set (take (nextCardIndex st) (deck st))"
    by (rule mset_eq_setD) (rule perm)
  then show "set (concat (holes st) @ communityCards st) \<subseteq> set (deck st)"
    by (metis set_take_subset)
qed

subsection \<open>Settling and advancing\<close>

lemma sameCore_boardGrows:
  assumes "sameCore st st'"
  shows "boardGrows st st'"
proof (rule boardGrows_same)
  show "deck st' = deck st" "nextCardIndex st' = nextCardIndex st" "communityCards st' = communityCards st"
    using assms tableRest_fields [of st' st] by (simp_all add: sameCore_def)
  show "holes st' = holes st"
    using assms by (auto simp: holes_def sameCore_def seatCore_def intro: map_seatCore_project)
qed

lemma holes_update:
  "(\<And>s. holeCards (f s) = holeCards s) \<Longrightarrow> holes (updateSeat i f st) = holes st"
  by (simp add: holes_def updateSeat_def map_update_first)

lemma settleByFold_boardGrows:
  assumes "settleByFold now cs st = Inr st'"
  shows "boardGrows st st'"
proof -
  from assms obtain w rest where w: "listNonFoldedSeats st = w # rest"
    by (auto simp: settleByFold_def split: list.splits)
  with assms show ?thesis
    by (intro boardGrows_same)
      (auto simp: settleByFold_def Let_def holes_def comp_def updateSeat_def map_update_first
        settleTableToWaiting_def)
qed

lemma finishShowdown_boardGrows: "boardGrows st (finishShowdown now ss pots st)"
  by (rule boardGrows_same)
    (simp_all add: finishShowdown_def Let_def holes_def comp_def updateSeat_def map_update_first
      settleTableToWaiting_def)

lemma settleShowdown_boardGrows:
  assumes "settleShowdown now st = Inr st'"
  shows "boardGrows st st'"
proof -
  from assms obtain st1 hands st2 pots where
    ev: "evaluateShowdown (listNonFoldedSeats st) st = Inr (st1, hands)"
    and sp: "settlePots hands (buildPendingPotViews st1) st1 = Inr (st2, pots)"
    and st': "st' = finishShowdown now (listNonFoldedSeats st) pots st2"
    by (auto simp: settleShowdown_def Let_def split: if_splits sum.splits)
  have "boardGrows st st1" "boardGrows st1 st2"
    using evaluateShowdown_frame [OF ev] settlePots_ok [OF sp] by (auto intro: sameCore_boardGrows)
  then show ?thesis
    unfolding st' using finishShowdown_boardGrows by (blast intro: boardGrows_trans)
qed

lemma dealNextStreet_boardGrows:
  assumes board: "boardOk st" and river: "stage st \<noteq> Some River" and ok: "dealNextStreet now st = Inr st'"
  shows "boardGrows st st'"
proof -
  from board river obtain k s where
    step: "dealNextStreet now st = bind_res (dealCommunity k st) (\<lambda>t. Inr (openStreet s t))"
    and k: "nextCardIndex st + k \<le> length (deck st)"
    by (rule dealNextStreet_cases)
  let ?st = "st\<lparr>nextCardIndex := nextCardIndex st + k,
    communityCards := communityCards st @ take k (drop (nextCardIndex st) (deck st))\<rparr>"
  have "st' = openStreet s ?st" using ok step dealCommunity_eq [OF k] by simp
  then show ?thesis
    using k by (simp add: boardGrows_def holes_def comp_def)
qed

lemma progression_boardGrows:
  "handInvAt b st \<Longrightarrow> turnOk st \<Longrightarrow> resolveTerminalAndStreetProgression now cs st = Inr st' \<Longrightarrow>
     boardGrows st st'"
proof (induction now cs st arbitrary: b rule: resolveTerminalAndStreetProgression.induct)
  case (1 now cs st)
  note inv = "1.prems"(1)
  have active: "tableStatus st = TableActive" and board: "boardOk st"
    using inv by (simp_all add: handInvAt_def)
  note unfold = resolveTerminalAndStreetProgression.simps [of now cs st]
  let ?folded = "\<not> isSoloHoldemState st \<and> length (listNonFoldedSeats st) \<le> 1"
  consider (fold) ?folded | (wait) "\<not> ?folded" "\<not> hasRoundCompleted st"
    | (river) "\<not> ?folded" "hasRoundCompleted st" "stage st = Some River"
    | (street) "\<not> ?folded" "hasRoundCompleted st" "stage st \<noteq> Some River"
    by blast
  then show ?case
  proof cases
    case fold
    then have "settleByFold now cs st = Inr st'" using "1.prems"(3) active by (simp add: unfold)
    then show ?thesis by (rule settleByFold_boardGrows)
  next
    case wait
    then have "st' = st" using "1.prems"(3) active by (simp only: unfold) simp
    then show ?thesis by (simp add: boardGrows_same)
  next
    case river
    then have "settleShowdown now st = Inr st'" using "1.prems"(3) active by (simp only: unfold) simp
    then show ?thesis by (rule settleShowdown_boardGrows)
  next
    case street
    obtain st1 where st1: "dealNextStreet now st = Inr st1" "handInvAt (b + currentBet st) st1" "turnOk st1"
      using dealNextStreet_ok [OF inv street(2,3)] by blast
    then have "resolveTerminalAndStreetProgression now
        (case stage st1 of None \<Rightarrow> cs | Some s \<Rightarrow> s) st1 = Inr st'"
      using street active "1.prems"(3) by (simp only: unfold) simp
    from "1.IH" [OF _ street(1) _ street(3) st1(1,2,3) this] street(2) active
    have "boardGrows st1 st'" by simp
    with dealNextStreet_boardGrows [OF board street(3) st1(1)] show ?thesis by (rule boardGrows_trans)
  qed
qed

subsection \<open>Actions\<close>

lemma postFromStack_holes [simp]: "holeCards (postFromStack a s) = holeCards s"
  by simp

lemma boardGrows_turn [simp]:
  "boardGrows st (passTurn i st1) = boardGrows st st1"
  "boardGrows st (markSeatActed i st1) = boardGrows st st1"
  "boardGrows st (resetActedSeatsForNextResponse i st1) = boardGrows st st1"
  "boardGrows st (st1\<lparr>currentBet := c, lastFullRaiseSize := r\<rparr>) = boardGrows st st1"
  by (simp_all add: boardGrows_def holes_def passTurn_def markSeatActed_def resetActedSeatsForNextResponse_def)

lemma boardGrows_update:
  "(\<And>s. holeCards (f s) = holeCards s) \<Longrightarrow> boardGrows st (updateSeat i f st)"
  by (rule boardGrows_same) (simp_all add: holes_update)

lemma chipsStep_boardGrows:
  assumes "chipsStep parse st s action amt = Inr st1"
  shows "boardGrows st st1"
proof (cases "action \<in> {Fold, Check, Call}")
  case True
  with assms have step: "applyPassiveSeatAction st s action = Inr st1" by (simp add: chipsStep_def)
  from True step show ?thesis
    by (auto simp: applyPassiveSeatAction_def Let_def boardGrows_update split: if_splits)
next
  case False
  with assms obtain a m where step: "applyBetOrRaise parse st s a m = Inr st1"
    by (auto simp: chipsStep_def split: if_splits)
  from step show ?thesis
    by (auto simp: applyBetOrRaise_def bind_res_Inr_iff Let_def boardGrows_update split: if_splits)
qed

lemma actOnHoldemSeat_boardGrows:
  assumes inv: "tableInv st" and ok: "actOnHoldemSeat parse now st i action amt = Inr st'"
  shows "boardGrows st st'"
proof -
  from ok obtain a s where offer: "resolveHoldemActionAvailability st i = Some a"
    "action \<in> set (av_actions a)" "findSeatByIndex st (Some i) = Some s" "tableStatus st = TableActive"
    by (rule actOnHoldemSeat_needs_offer)
  have hand: "handInv st" using inv offer(4) by (simp add: tableInv_def)
  from actOnHoldemSeat_offered [OF hand offer(1-3)] obtain cs where
    "actOnHoldemSeat parse now st i action amt =
      bind_res (chipsStep parse st s action amt) (resolveTerminalAndStreetProgression now cs)" .
  with ok obtain st1 where st1: "chipsStep parse st s action amt = Inr st1"
    and rest: "resolveTerminalAndStreetProgression now cs st1 = Inr st'"
    by (auto simp: bind_res_Inr_iff)
  from chipsStep_moved [OF hand offer(1-3) st1]
  have "handInvAt (streetBase st) st1" "turnOk st1" by (simp_all add: moved_def)
  from progression_boardGrows [OF this rest] chipsStep_boardGrows [OF st1] show ?thesis
    by (blast intro: boardGrows_trans)
qed

lemma applyRake_boardGrows:
  assumes "applyRakeToSettledState st policy = (st', r)"
  shows "boardGrows st st'"
  using applyRake_cases [OF assms]
proof
  assume "\<exists>pots st1 totals total. total = rakeTotal policy (potsTotal (resolvedPots st)) \<and> 0 < total \<and>
       rakePots (resolvedPots st) total st [] = (pots, st1, totals) \<and>
       st' = st1\<lparr>resolvedPots := pots, recentHands := setLatestRake total (recentHands st1)\<rparr> \<and>
       r = \<lparr>totalRakeAmount = total, seatRakeAmounts = sort_key fst totals\<rparr>"
  then obtain pots st1 totals total where "rakePots (resolvedPots st) total st [] = (pots, st1, totals)"
    and st': "st' = st1\<lparr>resolvedPots := pots, recentHands := setLatestRake total (recentHands st1)\<rparr>"
    by blast
  then have "boardGrows st st1" by (blast intro: sameCore_boardGrows rakePots_sameCore)
  then show ?thesis by (simp add: st' boardGrows_def holes_def)
qed (simp add: boardGrows_same)

subsection \<open>The deal\<close>

lemma sum_mset_update:
  assumes "find P xs = Some s"
  shows "mset (concat (map holeCards (update_first P (\<lambda>s. s\<lparr>holeCards := holeCards s @ [c]\<rparr>) xs))) =
    add_mset c (mset (concat (map holeCards xs)))"
  using assms by (induction xs) (auto split: if_splits)

lemma dealHoleRound_cards:
  "dealHoleRound is st = Inr st' \<Longrightarrow> (\<And>i. i \<in> set is \<Longrightarrow> seated st i) \<Longrightarrow>
     nextCardIndex st + length is \<le> length (deck st) \<Longrightarrow> cardsInv st \<Longrightarrow> communityCards st = [] \<Longrightarrow>
     cardsInv st' \<and> deck st' = deck st \<and> nextCardIndex st' = nextCardIndex st + length is \<and>
     communityCards st' = [] \<and> map seatIndex (seats st') = map seatIndex (seats st)"
proof (induction "is" arbitrary: st)
  case (Cons i "is")
  let ?c = "deck st ! nextCardIndex st"
  let ?f = "\<lambda>s. s\<lparr>holeCards := holeCards s @ [?c]\<rparr>"
  let ?st = "updateSeat i ?f (st\<lparr>nextCardIndex := nextCardIndex st + 1\<rparr>)"
  have card: "nextCardIndex st < length (deck st)" using Cons.prems(3) by simp
  have run: "dealHoleRound is ?st = Inr st'" using Cons.prems(1) card by (simp add: takeNextCard_def)
  obtain s where "find (\<lambda>s. seatIndex s = i) (seats st) = Some s"
    using Cons.prems(2) [of i] by (auto simp: seated_def findSeatByIndex_Some)
  from sum_mset_update [OF this, of ?c] have "mset (concat (holes ?st)) = add_mset ?c (mset (concat (holes st)))"
    by (simp add: holes_def updateSeat_def)
  then have inv: "cardsInv ?st"
    using Cons.prems(4,5) card by (simp add: cardsInv_def take_Suc_conv_app_nth)
  have idx: "map seatIndex (seats ?st) = map seatIndex (seats st)"
    by (simp add: updateSeat_def map_update_first)
  have "cardsInv st' \<and> deck st' = deck ?st \<and> nextCardIndex st' = nextCardIndex ?st + length is \<and>
     communityCards st' = [] \<and> map seatIndex (seats st') = map seatIndex (seats ?st)"
    by (rule Cons.IH [OF run])
      (use Cons.prems idx inv in \<open>auto simp: seated_iff\<close>)
  with idx show ?case by simp
qed simp

lemma postBlinds_boardGrows: "boardGrows st (postBlinds st)"
proof -
  have "boardGrows st (updateSeat i f (updateSeat j g st))"
    if "\<And>s. holeCards (f s) = holeCards s" "\<And>s. holeCards (g s) = holeCards s" for i j f g
    by (rule boardGrows_same) (simp_all add: holes_update that)
  then show ?thesis
    by (auto simp: postBlinds_def Let_def boardGrows_same boardGrows_def holes_update holes_def
        updateSeat_def map_update_first split: option.splits)
qed

end
