(* ===== verification/Holdem_Table.thy ===== *)
theory Holdem_Table
  imports Holdem_Cards
begin

text \<open>
  The life of a table: hands are started, seats act, and the rake comes out of a settled
  hand.  The properties of the engine hold in every state a table can reach.
\<close>

definition userError :: "error \<Rightarrow> bool" where
  "userError e = (case e of BadRequest _ \<Rightarrow> True | Conflict _ \<Rightarrow> True | _ \<Rightarrow> False)"

subsection \<open>The start of a hand, continued\<close>

lemma openHand_cardsInv:
  assumes "shuffleHoldemDeck sha256 handSeed = Inr shuf"
  shows "cardsInv (openHand sha256 fs handSeed shuf dealer sb bb st)"
  using shuffled_deck [OF assms]
  by (simp add: cardsInv_def holes_def openHand_def resetSeatForHand_def comp_def)

lemma startHoldemHand_cards:
  assumes settled: "settledTable st" and few: "length (seats st) \<le> 23"
    and ok: "startHoldemHand sha256 now fs st = Inr st'"
  shows "cardsInv st'"
proof (rule startHoldemHand_run [OF settled startHoldemHand_guards(2,3) [OF ok] few])
  fix handSeed shuf dealer sb bb order f st1 st2
  let ?open = "openHand sha256 fs handSeed shuf dealer sb bb st"
  assume shuf: "shuffleHoldemDeck sha256 handSeed = Inr shuf"
    and order: "set order \<subseteq> set (map seatIndex (seats st))" "2 * length order + 5 \<le> 52"
    and one: "dealHoleRound order ?open = Inr st1" and two: "dealHoleRound order st1 = Inr st2"
    and run: "startHoldemHand sha256 now fs st =
      resolveTerminalAndStreetProgression now Preflop (turnToAct f st2)"
    and ready: "readyFrom st (turnToAct f st2)"
  have idx: "map seatIndex (seats ?open) = map seatIndex (seats st)"
    by (simp add: openHand_def comp_def)
  have deck: "length (deck ?open) = 52" "nextCardIndex ?open = 0" "communityCards ?open = []"
    using shuffled_deck(2) [OF shuf] by (simp_all add: openHand_def)
  have st1: "cardsInv st1 \<and> deck st1 = deck ?open \<and> nextCardIndex st1 = nextCardIndex ?open + length order \<and>
     communityCards st1 = [] \<and> map seatIndex (seats st1) = map seatIndex (seats ?open)"
    by (rule dealHoleRound_cards [OF one])
      (use order deck idx openHand_cardsInv [OF shuf] in \<open>auto simp: seated_iff\<close>)
  have st2: "cardsInv st2"
    using dealHoleRound_cards [OF two] order st1 deck idx by (auto simp: seated_iff)
  have "boardGrows st2 (turnToAct f st2)"
    using postBlinds_boardGrows [of st2] by (simp add: turnToAct_def boardGrows_def holes_def passTurn_def)
  moreover have "handInvAt 0 (turnToAct f st2)" "turnOk (turnToAct f st2)"
    using ready by (simp_all add: readyFrom_def)
  from progression_boardGrows [OF this] run ok have "boardGrows (turnToAct f st2) st'" by simp
  ultimately show "cardsInv st'" using st2 by (blast intro: boardGrows_trans boardGrows_cardsInv)
qed

lemma startHoldemHand_progressed:
  assumes "settledTable st" and "length (seats st) \<le> 23" and "startHoldemHand sha256 now fs st = Inr st'"
  shows "progressed st st'"
  using startHoldemHand_total
      [OF assms(1) startHoldemHand_guards(2,3) [OF assms(3)] assms(2), of sha256 now fs] assms(3)
  by auto

subsection \<open>Runs of a table\<close>

text \<open>
  \<open>tableRun parse sha256 st rake st'\<close>: from \<open>st\<close> the table can reach \<open>st'\<close>, and \<open>rake\<close> is
  what the house took on the way.  A settled hand is raked in the same transaction as the
  action that settled it (\<open>persistHoldemTransition\<close>).
\<close>

inductive tableRun ::
  "decimal_parser \<Rightarrow> hash_function \<Rightarrow> table \<Rightarrow> cents \<Rightarrow> table \<Rightarrow> bool"
  for parse sha256 st where
  run_refl: "tableRun parse sha256 st 0 st"
| run_start: "tableRun parse sha256 st rake st1 \<Longrightarrow> length (seats st1) \<le> 23 \<Longrightarrow>
    startHoldemHand sha256 now fs st1 = Inr st2 \<Longrightarrow> tableRun parse sha256 st rake st2"
| run_act: "tableRun parse sha256 st rake st1 \<Longrightarrow>
    actOnHoldemSeat parse now st1 i action amt = Inr st2 \<Longrightarrow> rakeBps policy \<le> 10000 \<Longrightarrow>
    applyRakeToSettledState st2 policy = (st3, r) \<Longrightarrow>
    tableRun parse sha256 st (rake + totalRakeAmount r) st3"

lemma applyRake_step:
  assumes "tableInv st2" and "tableStatus st2 = TableWaiting \<Longrightarrow> awarded st2" and "rakeBps policy \<le> 10000"
    and run: "applyRakeToSettledState st2 policy = (st3, r)"
  shows "tableInv st3 \<and> tableChips st3 + totalRakeAmount r = tableChips st2 \<and>
    map seatIndex (seats st3) = map seatIndex (seats st2)"
proof (cases "tableStatus st2")
  case TableActive
  with run assms(1) show ?thesis by (auto simp: applyRake_active noRake_def)
next
  case TableWaiting
  with assms(1) have "settledTable st2" by (simp add: tableInv_def)
  from applyRake_ok [OF this assms(2) [OF TableWaiting] assms(3) run] show ?thesis
    by (simp add: tableInv_settled)
qed

lemma startHoldemHand_settled:
  "tableInv st \<Longrightarrow> startHoldemHand sha256 now fs st = Inr st' \<Longrightarrow> settledTable st"
  using startHoldemHand_guards(1) [of sha256 now fs st st'] by (simp add: tableInv_def)

lemma applyRake_nonneg: "applyRakeToSettledState st policy = (st', r) \<Longrightarrow> 0 \<le> totalRakeAmount r"
  using applyRake_cases [of st policy st' r] by (auto simp: noRake_def)

lemma tableRun_ok:
  "tableRun parse sha256 st rake st' \<Longrightarrow> tableInv st \<Longrightarrow>
     tableInv st' \<and> tableChips st' + rake = tableChips st \<and> 0 \<le> rake \<and>
     map seatIndex (seats st') = map seatIndex (seats st)"
proof (induction rule: tableRun.induct)
  case (run_start rake st1 now fs st2)
  have "settledTable st1" using startHoldemHand_settled run_start by blast
  from startHoldemHand_progressed [OF this run_start.hyps(2,3)] run_start.IH run_start.prems show ?case
    by (simp add: progressed_def)
next
  case (run_act rake st1 now i action amt st2 policy st3 r)
  have inv: "tableInv st1" using run_act.IH run_act.prems by simp
  have step: "progressed st1 st2" by (rule actOnHoldemSeat_progressed [OF inv run_act.hyps(2)])
  then have inv2: "tableInv st2" by (simp add: progressed_def)
  from applyRake_step [OF inv2 actOnHoldemSeat_awarded [OF inv run_act.hyps(2)] run_act.hyps(3,4)]
    applyRake_nonneg [OF run_act.hyps(4)] step run_act.IH run_act.prems
  show ?case by (simp add: progressed_def)
qed simp

lemma tableRun_cards:
  "tableRun parse sha256 st rake st' \<Longrightarrow> tableInv st \<Longrightarrow> cardsInv st \<Longrightarrow> cardsInv st'"
proof (induction rule: tableRun.induct)
  case (run_start rake st1 now fs st2)
  have "tableInv st1" using tableRun_ok [OF run_start.hyps(1)] run_start.prems by simp
  from startHoldemHand_cards [OF startHoldemHand_settled [OF this run_start.hyps(3)] run_start.hyps(2,3)]
  show ?case .
next
  case (run_act rake st1 now i action amt st2 policy st3 r)
  have "tableInv st1" using tableRun_ok [OF run_act.hyps(1)] run_act.prems by simp
  from actOnHoldemSeat_boardGrows [OF this run_act.hyps(2)] applyRake_boardGrows [OF run_act.hyps(4)]
    run_act.IH run_act.prems
  show ?case by (blast intro: boardGrows_cardsInv)
qed simp

lemma tableInv_amounts:
  assumes "tableInv st" and "s \<in> set (seats st)"
  shows "0 \<le> stackAmount s \<and> 0 \<le> committedAmount s \<and> committedAmount s \<le> totalCommittedAmount s"
  using assms
  by (auto simp: tableInv_def settledTable_def handInv_def handInvAt_def seatOk_def
      split: table_status.splits)

subsection \<open>Errors\<close>

lemma chipsStep_errors:
  "chipsStep parse st s action amt = Inl e \<Longrightarrow> userError e"
  by (cases action)
    (auto simp: chipsStep_def applyPassiveSeatAction_def applyBetOrRaise_def resolveTargetTotal_def
      parseTargetAmount_def bind_res_def Let_def userError_def
      split: if_splits sum.splits option.splits decimal.splits)

lemma actOnHoldemSeat_errors:
  assumes inv: "tableInv st" and err: "actOnHoldemSeat parse now st i action amt = Inl e"
  shows "userError e"
proof (cases "\<exists>a s. resolveHoldemActionAvailability st i = Some a \<and> action \<in> set (av_actions a) \<and>
    findSeatByIndex st (Some i) = Some s")
  case True
  then obtain a s where offer: "resolveHoldemActionAvailability st i = Some a"
    "action \<in> set (av_actions a)" "findSeatByIndex st (Some i) = Some s" by blast
  have hand: "handInv st"
    using inv offer(1) by (auto simp: tableInv_def resolveHoldemActionAvailability_def
        split: if_splits table_status.splits)
  obtain cs where eq: "actOnHoldemSeat parse now st i action amt =
      bind_res (chipsStep parse st s action amt) (resolveTerminalAndStreetProgression now cs)"
    by (rule actOnHoldemSeat_offered [OF hand offer])
  show ?thesis
  proof (cases "chipsStep parse st s action amt")
    case (Inl e')
    with eq err chipsStep_errors [OF Inl] show ?thesis by simp
  next
    case (Inr st1)
    from moved_progression [OF chipsStep_moved [OF hand offer Inr], of now cs] eq err Inr
    show ?thesis by auto
  qed
next
  case False
  with err show ?thesis
    by (auto simp: actOnHoldemSeat_def userError_def findSeatByIndex_Some dest!: find_SomeD
        split: table_status.splits option.splits if_splits)
qed

lemma timeout_available:
  assumes "handInv st" and "resolveHoldemActionAvailability st i = Some a"
  shows "\<exists>action. resolveHoldemTimeoutAction st i = Some action \<and> action \<in> set (av_actions a) \<and>
    action \<notin> {Bet, Raise}"
  using assms by (rule availability_Some) (auto simp: resolveHoldemTimeoutAction_def assms(2))


subsection \<open>A hand in play\<close>

text \<open>Heads-up before the flop: seat 0 posted the small blind and has to act.\<close>

definition sampleHand :: table where
  "sampleHand =
     (sampleTable
       [(sampleSeat 0 1900)\<lparr>committedAmount := 100, totalCommittedAmount := 100,
          seatStatus := SeatActive, holeCards := [\<lparr>rank = R2, suit = Spades\<rparr>, \<lparr>rank = R4, suit = Spades\<rparr>]\<rparr>,
        (sampleSeat 1 1800)\<lparr>committedAmount := 200, totalCommittedAmount := 200,
          seatStatus := SeatActive, holeCards := [\<lparr>rank = R3, suit = Spades\<rparr>, \<lparr>rank = R5, suit = Spades\<rparr>]\<rparr>])
     \<lparr>tableStatus := TableActive, stage := Some Preflop, dealerSeatIndex := Some 0,
      currentBet := 200, lastFullRaiseSize := 200, pendingActorSeatIndex := Some 0,
      deck := HOLDEM_DECK_TEMPLATE, nextCardIndex := 4\<rparr>"

lemmas sample_defs = sampleHand_def sampleTable_def sampleSeat_def

lemma sampleHand_base: "streetBase sampleHand = 0"
  by (simp add: streetBase_def sample_defs)

lemma sampleHand_actionable: "listActionableSeats sampleHand = seats sampleHand"
  by (simp add: listActionableSeats_def sortSeatsByIndex_def isSeatActionable_def sample_defs)

lemma sampleHand_inv: "tableInv sampleHand"
proof -
  have "handInvAt 0 sampleHand"
    by (simp add: handInvAt_def seatOk_def leads_def boardOk_def isNonFolded_def isSeatInHand_def
        length_deck_template sample_defs)
  moreover have "turnOk sampleHand"
    by (simp add: turnOk_def isSeatActionable_def sample_defs)
  moreover have "\<not> hasRoundCompleted sampleHand"
    by (simp add: hasRoundCompleted_def sampleHand_actionable) (simp add: sample_defs, blast)
  moreover have "tableStatus sampleHand = TableActive" by (simp add: sampleHand_def)
  ultimately show ?thesis by (simp add: tableInv_def handInv_def sampleHand_base)
qed

lemma sampleHand_cards: "cardsInv sampleHand"
  using distinct_deck_template length_deck_template
  by (simp add: cardsInv_def holes_def sample_defs) (simp add: HOLDEM_DECK_TEMPLATE_def)

lemma sampleHand_solo: "\<not> isSoloHoldemState sampleHand"
  by (simp add: isSoloHoldemState_def sample_defs)

lemma sampleHand_find: "findSeatByIndex sampleHand (Some 0) = Some (hd (seats sampleHand))"
  by (simp add: findSeatByIndex_Some sample_defs)

lemma sampleHand_offers:
  "\<exists>a. resolveHoldemActionAvailability sampleHand 0 = Some a \<and>
     av_actions a = [Fold, Call, Raise, AllIn] \<and> av_minimumRaiseTo a = Some 400 \<and>
     av_maximumRaiseTo a = Some 2000"
  by (simp add: resolveHoldemActionAvailability_def sampleHand_find sampleHand_solo Let_def)
    (simp add: sample_defs)


subsection \<open>Properties of the engine\<close>

text \<open>
  C1. In every state a table can reach, the chips on it and the rake taken so far are the
  chips it began with, no amount is negative, and the seats are the same.
\<close>

theorem table_conserves_chips:
  assumes "tableRun parse sha256 st rake st'" and "tableInv st"
  shows "tableChips st' + rake = tableChips st \<and> 0 \<le> rake \<and>
    map seatIndex (seats st') = map seatIndex (seats st) \<and>
    (\<forall>s \<in> set (seats st'). 0 \<le> stackAmount s \<and> 0 \<le> committedAmount s \<and>
       committedAmount s \<le> totalCommittedAmount s)"
  using tableRun_ok [OF assms] tableInv_amounts [of st'] by blast

text \<open>The small blind folds; whatever state follows, 4000 cents are on the table.\<close>

theorem table_conserves_chips_witness:
  "\<exists>st' rake. actOnHoldemSeat (\<lambda>_. None) 0 sampleHand 0 Fold None = Inr st' \<and>
     tableRun (\<lambda>_. None) (\<lambda>_. []) sampleHand rake st' \<and> tableChips st' + rake = 4000"
proof -
  obtain a where "resolveHoldemActionAvailability sampleHand 0 = Some a" "Fold \<in> set (av_actions a)"
    using sampleHand_offers by auto
  from offered_action_succeeds [OF sampleHand_inv this]
  obtain st' where st': "actOnHoldemSeat (\<lambda>_. None) 0 sampleHand 0 Fold None = Inr st'" by blast
  let ?policy = "\<lparr>rakeBps = 0, capAmount = 0, noFlopNoDrop = False\<rparr>"
  obtain st'' r where rake: "applyRakeToSettledState st' ?policy = (st'', r)" by fastforce
  moreover from applyRake_cases [OF rake] have r: "st'' = st'" "r = noRake" by (auto simp: rakeTotal_def)
  ultimately have run: "tableRun (\<lambda>_. None) (\<lambda>_. []) sampleHand (0 + totalRakeAmount r) st'"
    using run_act [OF run_refl st' _ rake] by simp
  have "tableChips sampleHand = 4000" by (simp add: tableChips_def seatChips_def sample_defs)
  with table_conserves_chips [OF run sampleHand_inv] run st' show ?thesis by auto
qed

text \<open>
  C2. A table never gets stuck: in every reachable state of a hand in play the turn is with
  a seat that can act, and the action taken for it when its time runs out goes through.
\<close>

theorem reachable_turn_can_act:
  assumes "tableRun parse sha256 st rake st'" and "tableInv st" and "tableStatus st' = TableActive"
  shows "\<exists>i s action st''. pendingActorSeatIndex st' = Some i \<and> findSeatByIndex st' (Some i) = Some s \<and>
    isSeatActionable s \<and> resolveHoldemTimeoutAction st' i = Some action \<and>
    actOnHoldemSeat parse now st' i action None = Inr st''"
proof -
  have inv: "tableInv st'" using tableRun_ok [OF assms(1,2)] by simp
  then have hand: "handInv st'" using assms(3) by (simp add: tableInv_def)
  from pending_available [OF inv assms(3)] obtain i s a where turn: "pendingActorSeatIndex st' = Some i"
    "findSeatByIndex st' (Some i) = Some s" "isSeatActionable s"
    and a: "resolveHoldemActionAvailability st' i = Some a" by blast
  from timeout_available [OF hand a] obtain action where action:
    "resolveHoldemTimeoutAction st' i = Some action" "action \<in> set (av_actions a)" "action \<notin> {Bet, Raise}"
    by blast
  from offered_action_succeeds [OF inv a action(2,3)] turn action(1) show ?thesis by blast
qed

theorem reachable_turn_can_act_witness:
  "\<exists>i s action st''. pendingActorSeatIndex sampleHand = Some i \<and>
    findSeatByIndex sampleHand (Some i) = Some s \<and> isSeatActionable s \<and>
    resolveHoldemTimeoutAction sampleHand i = Some action \<and>
    actOnHoldemSeat (\<lambda>_. None) 0 sampleHand i action None = Inr st''"
  by (rule reachable_turn_can_act [OF run_refl sampleHand_inv])
    (simp add: sampleHand_def)

text \<open>
  C3. At a reachable table an action is either carried out or refused with an error for the
  player, never with an internal one, and every action that is offered and takes no amount
  is carried out.
\<close>

theorem actions_fail_only_for_the_player:
  assumes "tableRun parse sha256 st rake st'" and "tableInv st"
  shows "(case actOnHoldemSeat parse now st' i action amt of Inl e \<Rightarrow> userError e | Inr _ \<Rightarrow> True) \<and>
    (\<forall>a. resolveHoldemActionAvailability st' i = Some a \<longrightarrow> action \<in> set (av_actions a) \<longrightarrow>
       action \<noteq> Bet \<longrightarrow> action \<noteq> Raise \<longrightarrow>
       (\<exists>st''. actOnHoldemSeat parse now st' i action amt = Inr st''))"
proof -
  have inv: "tableInv st'" using tableRun_ok [OF assms] by simp
  then show ?thesis
    using actOnHoldemSeat_errors [OF inv] offered_action_succeeds [OF inv]
    by (auto split: sum.splits)
qed

theorem actions_fail_only_for_the_player_witness:
  "\<exists>st''. actOnHoldemSeat (\<lambda>_. None) 0 sampleHand 0 AllIn None = Inr st''"
  using actions_fail_only_for_the_player
    [OF run_refl sampleHand_inv, where parse = "\<lambda>_. None" and now = 0
      and i = 0 and action = AllIn and amt = None] sampleHand_offers
  by auto

text \<open>
  C36. No card is in two places: in every reachable state the hole cards of the seats and
  the board are distinct cards of the deck.
\<close>

theorem no_card_dealt_twice:
  assumes "tableRun parse sha256 st rake st'" and "tableInv st" and "cardsInv st"
  shows "distinct (concat (map holeCards (seats st')) @ communityCards st') \<and>
    set (concat (map holeCards (seats st')) @ communityCards st') \<subseteq> set (deck st')"
  using cardsInv_distinct [OF tableRun_cards [OF assms]] by (simp add: holes_def)

theorem no_card_dealt_twice_witness:
  "distinct (concat (map holeCards (seats sampleHand)) @ communityCards sampleHand)"
  using no_card_dealt_twice [OF run_refl sampleHand_inv sampleHand_cards] by blast

text \<open>
  Starting a hand at a settled table of at most 23 seats fails only with the conflict
  errors of its guards; when the guards pass it always succeeds, keeps the chips, and leaves
  either a settled table or a hand somebody has to play.
\<close>

theorem startHoldemHand_succeeds:
  assumes "settledTable st" and "length (seats st) \<le> 23"
  shows "case startHoldemHand sha256 now fs st of
      Inl e \<Rightarrow> userError e \<and> (length (listEligibleSeats st) < resolveMinimumRequiredPlayers st \<or>
                             listEligibleHumanSeats st = [])
    | Inr st' \<Rightarrow> tableInv st' \<and> tableChips st' = tableChips st \<and>
        resolveMinimumRequiredPlayers st \<le> length (listEligibleSeats st) \<and>
        listEligibleHumanSeats st \<noteq> []"
proof (cases "resolveMinimumRequiredPlayers st \<le> length (listEligibleSeats st) \<and> listEligibleHumanSeats st \<noteq> []")
  case True
  with startHoldemHand_total [OF assms(1) _ _ assms(2), of sha256 now fs] show ?thesis
    by (auto simp: progressed_def)
next
  case False
  with assms(1) show ?thesis
    by (auto simp: startHoldemHand_def settledTable_def userError_def not_le)
qed

theorem startHoldemHand_succeeds_witness:
  "case startHoldemHand (\<lambda>_. []) 0 \<lparr>fs_seed = ''s'', fs_epoch = 1, fs_epochSeconds = 60, fs_commitHash = ''c''\<rparr>
       (sampleTable [sampleSeat 0 5000, sampleSeat 1 5000]) of
     Inl e \<Rightarrow> False | Inr st' \<Rightarrow> tableChips st' = 10000"
proof -
  let ?st = "sampleTable [sampleSeat 0 5000, sampleSeat 1 5000]"
  have settled: "settledTable ?st" by (simp add: settledTable_def sample_defs)
  have eligible: "listEligibleSeats ?st = seats ?st"
    by (simp add: listEligibleSeats_def sortSeatsByIndex_def isSeatEligibleForHand_def sample_defs)
  then have "length (listEligibleSeats ?st) = 2" "listEligibleHumanSeats ?st \<noteq> []"
    "resolveMinimumRequiredPlayers ?st = 2"
    by (simp_all add: listEligibleHumanSeats_def isBotSeat_def resolveMinimumRequiredPlayers_def
        HOLDEM_MIN_PLAYERS_def sample_defs)
  moreover have "tableChips ?st = 10000" "length (seats ?st) \<le> 23"
    by (simp_all add: tableChips_def seatChips_def sample_defs)
  ultimately show ?thesis
    using startHoldemHand_succeeds [OF settled, of "\<lambda>_. []" 0
      "\<lparr>fs_seed = ''s'', fs_epoch = 1, fs_epochSeconds = 60, fs_commitHash = ''c''\<rparr>"]
    by (auto split: sum.splits)
qed

end
