(* ===== verification/Holdem_Limits.thy ===== *)
theory Holdem_Limits
  imports Holdem_Table
begin

text \<open>
  Properties of single operations: the betting limits that a seat is shown, who wins a
  pot and what each winner gets, the rake, the shuffle, the order of the deal, and two
  places where the code departs from the rules of the game.
\<close>

subsection \<open>Betting limits\<close>

lemma parse_cents:
  assumes "parse text = Some (Finite (of_int t / 100))" and "text \<noteq> []"
  shows "parseTargetAmount parse (Some text) lbl =
    (if t \<le> 0 then Inl (BadRequest (''Invalid '' @ lbl @ '' amount.'')) else Inr t)"
  using assms by (simp add: parseTargetAmount_def)

lemma act_iff_chipsStep:
  assumes hand: "handInv st" and offer: "resolveHoldemActionAvailability st i = Some a"
    "action \<in> set (av_actions a)" "findSeatByIndex st (Some i) = Some s"
  shows "(\<exists>st'. actOnHoldemSeat parse now st i action amt = Inr st') \<longleftrightarrow>
    (\<exists>st1. chipsStep parse st s action amt = Inr st1)"
proof -
  obtain cs where eq: "actOnHoldemSeat parse now st i action amt =
      bind_res (chipsStep parse st s action amt) (resolveTerminalAndStreetProgression now cs)"
    by (rule actOnHoldemSeat_offered [OF hand offer])
  show ?thesis
  proof
    assume "\<exists>st1. chipsStep parse st s action amt = Inr st1"
    then obtain st1 where st1: "chipsStep parse st s action amt = Inr st1" ..
    from moved_progression [OF chipsStep_moved [OF hand offer st1], of now cs] eq st1
    show "\<exists>st'. actOnHoldemSeat parse now st i action amt = Inr st'" by auto
  qed (auto simp: eq bind_res_Inr_iff)
qed

text \<open>
  The limits a seat is shown are exact: a bet or raise that is offered goes through
  just when its amount, in cents, is between the advertised minimum and maximum.
\<close>

theorem bet_limits_exact:
  assumes inv: "tableInv st" and av: "resolveHoldemActionAvailability st i = Some a"
    and offered: "action \<in> set (av_actions a)" and bet: "action = Bet \<or> action = Raise"
    and blinds: "0 < bigBlind st" "0 < lastFullRaiseSize st"
    and reads: "parse text = Some (Finite (of_int t / 100))" "text \<noteq> []"
  shows "(\<exists>st'. actOnHoldemSeat parse now st i action (Some text) = Inr st') \<longleftrightarrow>
    (if action = Bet then av_minimumBetTo a else the (av_minimumRaiseTo a)) \<le> t \<and>
    t \<le> the (av_maximumRaiseTo a)"
proof -
  have hand: "handInv st"
    using inv av by (auto simp: tableInv_def resolveHoldemActionAvailability_def
        split: if_splits table_status.splits)
  show ?thesis using hand av
  proof (rule availability_Some)
    fix s assume ready: "actorReady (streetBase st) st i s"
      and bets: "Bet \<in> set (av_actions a) \<longleftrightarrow> \<not> isSoloHoldemState st \<and> currentBet st = 0 \<and>
         bigBlind st \<le> committedAmount s + stackAmount s"
      and raises: "Raise \<in> set (av_actions a) \<longleftrightarrow> \<not> isSoloHoldemState st \<and> currentBet st > 0 \<and>
         currentBet st + lastFullRaiseSize st \<le> committedAmount s + stackAmount s"
      and limits: "av_maximumRaiseTo a = Some (committedAmount s + stackAmount s)"
        "av_minimumBetTo a = bigBlind st"
        "Raise \<in> set (av_actions a) \<Longrightarrow>
           av_minimumRaiseTo a = Some (currentBet st + lastFullRaiseSize st)"
    note facts = actorReady_facts [OF ready]
    have pos: "0 \<le> committedAmount s" "committedAmount s \<le> currentBet st"
      using facts(5) by (simp_all add: seatOk_def)
    have "(\<exists>st1. chipsStep parse st s action (Some text) = Inr st1) \<longleftrightarrow>
      (if action = Bet then bigBlind st else currentBet st + lastFullRaiseSize st) \<le> t \<and>
      t \<le> committedAmount s + stackAmount s"
      using bet
    proof
      assume "action = Bet"
      with offered bets blinds pos show ?thesis
        by (auto simp: chipsStep_def applyBetOrRaise_def resolveTargetTotal_def
            parse_cents [of parse, OF reads] bind_res_def Let_def)
    next
      assume "action = Raise"
      with offered raises blinds pos show ?thesis
        by (auto simp: chipsStep_def applyBetOrRaise_def resolveTargetTotal_def
            parse_cents [of parse, OF reads] bind_res_def Let_def)
    qed
    with act_iff_chipsStep [OF hand av offered facts(2)] limits bet offered show ?thesis by auto
  qed
qed

theorem bet_limits_exact_witness:
  "(\<exists>st'. actOnHoldemSeat (\<lambda>_. Some (Finite (399 / 100))) 0 sampleHand 0 Raise (Some ''3.99'') = Inr st')
     \<longleftrightarrow> False"
proof -
  obtain a where a: "resolveHoldemActionAvailability sampleHand 0 = Some a"
    "av_actions a = [Fold, Call, Raise, AllIn]" "av_minimumRaiseTo a = Some 400"
    "av_maximumRaiseTo a = Some 2000"
    using sampleHand_offers by blast
  have "(\<exists>st'. actOnHoldemSeat (\<lambda>_. Some (Finite (399 / 100))) 0 sampleHand 0 Raise (Some ''3.99'') = Inr st')
    \<longleftrightarrow> (if Raise = Bet then av_minimumBetTo a else the (av_minimumRaiseTo a)) \<le> 399 \<and>
      399 \<le> the (av_maximumRaiseTo a)"
    by (rule bet_limits_exact [OF sampleHand_inv a(1)]) (simp_all add: a sample_defs)
  with a show ?thesis by simp
qed

subsection \<open>Winning a pot\<close>

lemma pickPotWinners_distinct:
  assumes ok: "pickPotWinners hands idxs = Inr ws" and d: "distinct idxs"
  shows "distinct ws"
proof (cases idxs)
  case (Cons i rest)
  let ?e = "\<lambda>j. (j, the (map_of hands j))"
  from ok Cons have ws: "ws = map fst (keep_winners compareEntries [?e i] (?e i) (map ?e rest))"
    by (auto simp: pickPotWinners_def split: option.splits if_splits)
  obtain m where m: "keep_winners compareEntries [?e i] (?e i) (map ?e rest) =
       filter (\<lambda>y. compareEntries y m = 0) (?e i # map ?e rest)"
    using entryOrder.winners_are_maxima [of "?e i" "map ?e rest"] by blast
  have "distinct (map fst (?e i # map ?e rest))" using d Cons by (simp add: comp_def)
  then show ?thesis unfolding ws m by (rule distinct_map_filter)
qed (use ok in \<open>simp add: pickPotWinners_def\<close>)

lemma shareIn_notin: "i \<notin> set (map fst xs) \<Longrightarrow> shareIn xs i = 0"
  by (induction xs) auto

lemma shareIn_distributeLoop:
  "distinct idxs \<Longrightarrow> i \<in> set idxs \<Longrightarrow>
     share \<le> shareIn (distributeLoop share r idxs) i \<and> shareIn (distributeLoop share r idxs) i \<le> share + 1"
proof (induction share r idxs rule: distributeLoop.induct)
  case (2 share r j idxs)
  have "map fst (distributeLoop share k xs) = xs" for k xs
    by (induction share k xs rule: distributeLoop.induct) auto
  then have "shareIn (distributeLoop share k idxs) j = 0" for k
    using "2.prems"(1) by (intro shareIn_notin) simp
  with 2 show ?case by auto
qed simp

lemma shareOf_even:
  assumes "distinct idxs"
  shows "i \<in> set idxs \<Longrightarrow> a div int (length idxs) \<le> shareOf a idxs i \<and>
      shareOf a idxs i \<le> a div int (length idxs) + 1"
    and "i \<notin> set idxs \<Longrightarrow> shareOf a idxs i = 0"
  using assms shareIn_distributeLoop shareIn_notin
    [of i "distributeAmountAcrossSeatIndexes a idxs", unfolded distribute_fst]
  by (simp_all add: shareOf_def distributeAmountAcrossSeatIndexes_def)

text \<open>
  C35. A pot goes to exactly the eligible seats whose hand no other eligible hand beats;
  they split it evenly to within a cent, to the last cent, and nobody else gets anything.
\<close>

theorem pot_goes_to_best_hands:
  assumes ok: "settlePot hands p st = Inr (st', p')" and some: "eligibleForPot st p \<noteq> []"
    and d: "distinct (eligibleSeatIndexes p)"
  shows "set (winnerSeatIndexes p') =
      {i \<in> set (eligibleForPot st p). \<forall>j \<in> set (eligibleForPot st p).
         compareHoldemBestHands (the (map_of hands j)) (the (map_of hands i)) \<le> 0} \<and>
    tableChips st' = tableChips st + amount p \<and>
    (\<forall>i. let n = int (length (winnerSeatIndexes p')); gain = stackOf st' i - stackOf st i
         in if i \<in> set (winnerSeatIndexes p') then amount p div n \<le> gain \<and> gain \<le> amount p div n + 1
            else gain = 0)"
proof -
  from ok some obtain ws where ws: "pickPotWinners hands (eligibleForPot st p) = Inr ws"
    and p': "p' = p\<lparr>rakeAmount := 0, winnerSeatIndexes := sortSeatIndexesLeftOfDealer st ws\<rparr>"
    by (auto simp: settlePot_def Let_def split: sum.splits)
  have "distinct ws" by (rule pickPotWinners_distinct [OF ws]) (simp add: eligibleForPot_def d)
  moreover have "mset (sortSeatIndexesLeftOfDealer st ws) = mset ws"
    by (simp add: sortSeatIndexesLeftOfDealer_def Let_def)
  ultimately have dw: "distinct (winnerSeatIndexes p')"
    using mset_eq_imp_distinct_iff [of "sortSeatIndexesLeftOfDealer st ws" ws] by (simp add: p')
  note award = settlePot_award [OF ok some]
  have "let n = int (length (winnerSeatIndexes p')); gain = stackOf st' i - stackOf st i
         in if i \<in> set (winnerSeatIndexes p') then amount p div n \<le> gain \<and> gain \<le> amount p div n + 1
            else gain = 0" for i
    using award [of i] shareOf_even [OF dw, of i "amount p"] by (simp add: Let_def)
  then show ?thesis
    using pickPotWinners_best [OF ws some] settlePot_ok [OF ok] some by (simp add: p')
qed


definition sampleHandValue :: "nat list \<Rightarrow> best_hand_evaluation" where
  "sampleHandValue v = \<lparr>category = HighCard, label = ''High Card'', best_cards = [], strength = v\<rparr>"

definition samplePot :: "cents \<Rightarrow> nat list \<Rightarrow> nat list \<Rightarrow> pot" where
  "samplePot a eligible winners =
     \<lparr>potIndex = 0, mainPot = True, amount = a, rakeAmount = 0, eligibleSeatIndexes = eligible,
      winnerSeatIndexes = winners\<rparr>"

theorem pot_goes_to_best_hands_witness:
  "\<exists>st' p'. settlePot [(0, sampleHandValue [1, 9]), (1, sampleHandValue [1, 12])]
       (samplePot 400 [0, 1] []) sampleHand = Inr (st', p') \<and>
     set (winnerSeatIndexes p') = {1} \<and> tableChips st' = tableChips sampleHand + 400"
proof -
  let ?hands = "[(0 :: nat, sampleHandValue [1, 9]), (1, sampleHandValue [1, 12])]"
  let ?p = "samplePot 400 [0, 1] []"
  have eligible: "eligibleForPot sampleHand ?p = [0, 1]"
    by (simp add: eligibleForPot_def samplePot_def findSeatByIndex_Some sample_defs)
  obtain st' p' where ok: "settlePot ?hands ?p sampleHand = Inr (st', p')"
  proof -
    have "map_of ?hands i \<noteq> None" if "i \<in> set (eligibleForPot sampleHand ?p)" for i
      using that unfolding eligible by auto
    from settlePot_total [OF this] that show thesis by force
  qed
  have ne: "eligibleForPot sampleHand ?p \<noteq> []" unfolding eligible by simp
  have d: "distinct (eligibleSeatIndexes ?p)" by (simp add: samplePot_def)
  note main = pot_goes_to_best_hands [OF ok ne d, unfolded eligible]
  have "set (winnerSeatIndexes p') = {i \<in> set [0, 1]. \<forall>j \<in> set [0, 1].
      compareHoldemBestHands (the (map_of ?hands j)) (the (map_of ?hands i)) \<le> 0}"
    by (rule conjunct1 [OF main])
  also have "\<dots> = {1}"
    by (auto simp: compareHoldemBestHands_def sampleHandValue_def)
  finally have "set (winnerSeatIndexes p') = {1}" .
  moreover have "tableChips st' = tableChips sampleHand + amount ?p" using main by blast
  moreover have "amount ?p = 400" by (simp add: samplePot_def)
  ultimately show ?thesis using ok by (metis (no_types))
qed

subsection \<open>Rake\<close>

text \<open>
  The rake of a settled hand is within the policy (its basis points of the pots, its
  cap, nothing without a flop when the policy says so), it is exactly what the seats are
  recorded to have paid and what leaves the table, and no stack is overdrawn.
\<close>

theorem rake_within_policy:
  assumes settled: "settledTable st" and won: "awarded st" and bps: "rakeBps policy \<le> 10000"
    and cap: "0 \<le> capAmount policy" and run: "applyRakeToSettledState st policy = (st', r)"
  shows "totalRakeAmount r \<le> capAmount policy \<and>
    10000 * totalRakeAmount r \<le> potsTotal (resolvedPots st) * int (rakeBps policy) \<and>
    (noFlopNoDrop policy \<and> length (communityCards st) < 3 \<longrightarrow> totalRakeAmount r = 0) \<and>
    (\<Sum>x\<leftarrow>seatRakeAmounts r. snd x) = totalRakeAmount r \<and>
    tableChips st' = tableChips st - totalRakeAmount r \<and>
    (\<forall>s \<in> set (seats st'). 0 \<le> stackAmount s)"
proof -
  have "totalRakeAmount r \<le> capAmount policy \<and>
      10000 * totalRakeAmount r \<le> potsTotal (resolvedPots st) * int (rakeBps policy)"
    using applyRake_cases [OF run] rakeTotal_bounds [OF awarded_total_nonneg [OF won] bps]
      awarded_total_nonneg [OF won] cap by (auto simp: noRake_def)
  moreover have "noFlopNoDrop policy \<and> length (communityCards st) < 3 \<longrightarrow> totalRakeAmount r = 0"
    using run by (auto simp: applyRakeToSettledState_def noRake_def split: if_splits)
  ultimately show ?thesis
    using applyRake_ok [OF settled won bps run] by (simp add: settledTable_def)
qed

theorem rake_within_policy_witness:
  "\<exists>st' r. applyRakeToSettledState
       ((sampleTable [sampleSeat 0 1000])\<lparr>stage := Some Showdown, resolvedPots := [samplePot 1000 [0] [0]]\<rparr>)
       \<lparr>rakeBps = 500, capAmount = 300, noFlopNoDrop = False\<rparr> = (st', r) \<and>
     totalRakeAmount r \<le> 50 \<and> tableChips st' = 1000 - totalRakeAmount r"
proof -
  let ?st = "(sampleTable [sampleSeat 0 1000])\<lparr>stage := Some Showdown, resolvedPots := [samplePot 1000 [0] [0]]\<rparr>"
  let ?policy = "\<lparr>rakeBps = 500, capAmount = 300, noFlopNoDrop = False\<rparr>"
  obtain st' r where run: "applyRakeToSettledState ?st ?policy = (st', r)" by fastforce
  have "settledTable ?st" by (simp add: settledTable_def sample_defs)
  moreover have "awarded ?st"
    by (simp add: awarded_def potsAwarded_def seated_def findSeatByIndex_Some wonBy_def samplePot_def sample_defs)
  ultimately have "10000 * totalRakeAmount r \<le> potsTotal (resolvedPots ?st) * 500"
    "tableChips st' = tableChips ?st - totalRakeAmount r"
    using rake_within_policy [OF _ _ _ _ run] by simp_all
  moreover have "potsTotal (resolvedPots ?st) = 1000" by (simp add: potsTotal_def samplePot_def)
  moreover have "tableChips ?st = 1000" by (simp add: tableChips_def seatChips_def sample_defs)
  ultimately show ?thesis using run by fastforce
qed

subsection \<open>The shuffle and the deal\<close>

text \<open>
  Whatever the hash function returns, the shuffle succeeds and the deck is a permutation
  of the 52 distinct cards.
\<close>

theorem shuffle_is_permutation:
  "\<exists>shuf. shuffleHoldemDeck sha256 handSeed = Inr shuf \<and> mset (sh_deck shuf) = mset HOLDEM_DECK_TEMPLATE \<and>
     distinct (sh_deck shuf) \<and> length (sh_deck shuf) = 52"
  using shuffleHoldemDeck_perm [of sha256 handSeed] shuffled_deck [of sha256 handSeed] by blast

text \<open>
  The turn passes clockwise, to the next higher seat or round to the lowest, and the deal
  visits every eligible seat exactly once, starting with the one it is asked to.
\<close>

theorem turn_order_clockwise:
  assumes d: "distinct (map seatIndex (seats st))" and some: "listActionableSeats st \<noteq> []"
    and first: "first \<in> set (map seatIndex (listEligibleSeats st))"
  shows "resolveNextActionableSeatIndex st i =
      Some (clockwiseNext (set (map seatIndex (listActionableSeats st))) i) \<and>
    mset (resolveDealOrder st first) = mset (map seatIndex (listEligibleSeats st)) \<and>
    hd (resolveDealOrder st first) = first"
proof -
  have "resolveNextActionableSeatIndex st i =
      Some (clockwiseNext (set (map seatIndex (listActionableSeats st))) i)"
    using some nextSeatIndex_clockwise [of "map seatIndex (listActionableSeats st)" i]
      sorted_indexes_filter distinct_indexes_filter [OF d]
    by (simp add: resolveNextActionableSeatIndex_def Let_def listActionableSeats_def)
  moreover have "hd (resolveDealOrder st first) = first"
  proof -
    obtain k where "length (map seatIndex (listEligibleSeats st)) = Suc k"
      using first by (cases "map seatIndex (listEligibleSeats st)") auto
    moreover have "seated st first"
      using first by (auto simp: seated_iff mem_listEligibleSeats)
    ultimately show ?thesis by (simp add: resolveDealOrder_def Let_def seated_def)
  qed
  ultimately show ?thesis using resolveDealOrder_mset [OF d first] by blast
qed

theorem turn_order_clockwise_witness:
  "resolveNextActionableSeatIndex sampleHand 1 = Some (clockwiseNext {0, 1} 1)"
proof -
  have "listEligibleSeats sampleHand = seats sampleHand"
    by (simp add: listEligibleSeats_def sortSeatsByIndex_def isSeatEligibleForHand_def sample_defs)
  then have "resolveNextActionableSeatIndex sampleHand 1 =
      Some (clockwiseNext (set (map seatIndex (listActionableSeats sampleHand))) 1)"
    using turn_order_clockwise [of sampleHand 0 1]
    by (simp add: sampleHand_actionable) (simp add: sample_defs)
  then show ?thesis by (simp add: sampleHand_actionable) (simp add: sample_defs)
qed


subsection \<open>Two departures from the rules\<close>

lemma betOrRaise_acted:
  assumes "applyBetOrRaise parse st s action amt = Inr st1"
  shows "set (actedSeatIndexes st1) \<subseteq> {seatIndex s}"
  using assms
  by (auto simp: applyBetOrRaise_def bind_res_Inr_iff Let_def resetActedSeatsForNextResponse_def
      passTurn_def split: if_splits)

text \<open>
  An all-in that does not even call the current bet still reopens the betting: a player
  who already matched that bet and acted has to act again before the round can end.
\<close>

theorem short_all_in_reopens_betting:
  assumes ok: "applyBetOrRaise parse st s AllIn amt = Inr st1"
    and short: "committedAmount s + stackAmount s \<le> currentBet st"
    and d: "distinct (map seatIndex (seats st))"
    and t: "t \<in> set (seats st)" "seatIndex t \<noteq> seatIndex s" "isSeatActionable t"
      "committedAmount t = currentBet st" "seatIndex t \<in> set (actedSeatIndexes st)"
  shows "currentBet st1 = currentBet st \<and> t \<in> set (seats st1) \<and>
    seatIndex t \<notin> set (actedSeatIndexes st1) \<and> \<not> hasRoundCompleted st1"
proof -
  let ?f = "\<lambda>x. (postFromStack (stackAmount s) x)\<lparr>lastAction := Some (actionLabel AllIn)\<rparr>"
  have bet: "currentBet st1 = currentBet st" and seats: "seats st1 = seats (updateSeat (seatIndex s) ?f st)"
    using ok short
    by (auto simp: applyBetOrRaise_def resolveTargetTotal_def bind_res_Inr_iff Let_def passTurn_def
        resetActedSeatsForNextResponse_def split: if_splits)
  have mem: "t \<in> set (seats st1)"
    using t(1,2) by (auto simp: seats seatStore.entries_upd_map [OF d] intro!: image_eqI [of _ _ t])
  moreover have "seatIndex t \<notin> set (actedSeatIndexes st1)"
    using betOrRaise_acted [OF ok] t(2) by auto
  moreover have "t \<in> set (listActionableSeats st1)" using mem t(3) by (simp add: mem_listActionableSeats)
  ultimately show ?thesis using bet by (auto simp: hasRoundCompleted_def)
qed

definition sampleCalled :: table where
  "sampleCalled =
     (sampleTable
       [(sampleSeat 0 1600)\<lparr>committedAmount := 400, totalCommittedAmount := 400, seatStatus := SeatActive\<rparr>,
        (sampleSeat 1 1600)\<lparr>committedAmount := 400, totalCommittedAmount := 400, seatStatus := SeatActive\<rparr>,
        (sampleSeat 2 100)\<lparr>committedAmount := 200, totalCommittedAmount := 200, seatStatus := SeatActive\<rparr>])
     \<lparr>tableStatus := TableActive, stage := Some Preflop, currentBet := 400, lastFullRaiseSize := 200,
      actedSeatIndexes := [0, 1], pendingActorSeatIndex := Some 2\<rparr>"

theorem short_all_in_reopens_betting_witness:
  "\<exists>st1. applyBetOrRaise (\<lambda>_. None) sampleCalled (seats sampleCalled ! 2) AllIn None = Inr st1 \<and>
     currentBet st1 = 400 \<and> \<not> hasRoundCompleted st1"
proof -
  let ?s = "seats sampleCalled ! 2" and ?t = "seats sampleCalled ! 0"
  obtain st1 where ok: "applyBetOrRaise (\<lambda>_. None) sampleCalled ?s AllIn None = Inr st1"
    by (auto simp: applyBetOrRaise_def resolveTargetTotal_def Let_def sampleCalled_def sampleTable_def sampleSeat_def)
  have "currentBet st1 = currentBet sampleCalled \<and> ?t \<in> set (seats st1) \<and>
    seatIndex ?t \<notin> set (actedSeatIndexes st1) \<and> \<not> hasRoundCompleted st1"
    by (rule short_all_in_reopens_betting [OF ok])
      (simp_all add: isSeatActionable_def sampleCalled_def sampleTable_def sampleSeat_def)
  with ok show ?thesis by (auto simp: sampleCalled_def)
qed

lemma sort_key_map: "sort_key k (map f xs) = map f (sort_key (\<lambda>x. k (f x)) xs)"
proof -
  have "insort_key k (f x) (map f ys) = map f (insort_key (\<lambda>x. k (f x)) x ys)" for x ys
    by (induction ys) auto
  then show ?thesis by (induction xs) (simp_all add: sort_key_def)
qed

lemma sortSeats_map:
  "(\<And>s. seatIndex (f s) = seatIndex s) \<Longrightarrow> sortSeatsByIndex (map f ss) = map f (sortSeatsByIndex ss)"
  by (simp add: sortSeatsByIndex_def sort_key_map)

lemma openStreet_solo:
  assumes "isSoloHoldemState st" and "listActionableSeats st = []"
  shows "isSoloHoldemState (openStreet s st)" "listActionableSeats (openStreet s st) = []"
    "map seatIndex (listNonFoldedSeats (openStreet s st)) = map seatIndex (listNonFoldedSeats st)"
proof -
  have type: "tableType (openStreet s st) = tableType st"
    by (simp add: openStreet_def resetStreetCommitments_def Let_def)
  have same: "isSeatEligibleForHand (resetSeatForStreet x) = isSeatEligibleForHand x" for x
    by (simp add: isSeatEligibleForHand_def) (simp add: resetSeatForStreet_def)
  show "isSoloHoldemState (openStreet s st)"
    using assms(1) by (simp add: isSoloHoldemState_def type listEligibleSeats_def sortSeats_map filter_map
        comp_def same)
  have less: "isSeatActionable (resetSeatForStreet x) \<Longrightarrow> isSeatActionable x" for x
    by (auto simp: isSeatActionable_def resetSeatForStreet_def split: if_splits)
  have "\<not> isSeatActionable x" if "x \<in> set (seats st)" for x
    using that assms(2) mem_listActionableSeats [of x st] by simp
  then have "\<not> isSeatActionable y" if "y \<in> set (seats (openStreet s st))" for y
    using that less by auto
  then show "listActionableSeats (openStreet s st) = []"
    by (auto simp: listActionableSeats_def filter_empty_conv)
  show "map seatIndex (listNonFoldedSeats (openStreet s st)) = map seatIndex (listNonFoldedSeats st)"
    by (simp add: listNonFoldedSeats_def sortSeats_map filter_map comp_def)
qed


lemma dealNextStreet_solo:
  assumes board: "boardOk st" and river: "stage st \<noteq> Some River" and ok: "dealNextStreet now st = Inr st'"
    and solo: "isSoloHoldemState st" "listActionableSeats st = []"
  shows "isSoloHoldemState st' \<and> listActionableSeats st' = [] \<and>
    map seatIndex (listNonFoldedSeats st') = map seatIndex (listNonFoldedSeats st)"
proof -
  from board river obtain k s where
    step: "dealNextStreet now st = bind_res (dealCommunity k st) (\<lambda>t. Inr (openStreet s t))"
    and k: "nextCardIndex st + k \<le> length (deck st)"
    by (rule dealNextStreet_cases)
  let ?st = "st\<lparr>nextCardIndex := nextCardIndex st + k,
    communityCards := communityCards st @ take k (drop (nextCardIndex st) (deck st))\<rparr>"
  have st': "st' = openStreet s ?st" using ok step dealCommunity_eq [OF k] by simp
  have same: "isSoloHoldemState ?st = isSoloHoldemState st" "listActionableSeats ?st = listActionableSeats st"
    "listNonFoldedSeats ?st = listNonFoldedSeats st"
    by (simp_all add: isSoloHoldemState_def listEligibleSeats_def listActionableSeats_def listNonFoldedSeats_def)
  show ?thesis unfolding st' using openStreet_solo [of ?st s] solo same by simp
qed

lemma settleShowdown_reveals:
  assumes "settleShowdown now st = Inr st'"
  shows "communityCards st' = communityCards st \<and>
    revealedSeatIndexes st' = map seatIndex (listNonFoldedSeats st)"
proof -
  from assms obtain st1 hands st2 pots where
    ev: "evaluateShowdown (listNonFoldedSeats st) st = Inr (st1, hands)"
    and sp: "settlePots hands (buildPendingPotViews st1) st1 = Inr (st2, pots)"
    and st': "st' = finishShowdown now (listNonFoldedSeats st) pots st2"
    by (auto simp: settleShowdown_def Let_def split: if_splits sum.splits)
  have "sameCore st st2"
    using evaluateShowdown_frame [OF ev] settlePots_ok [OF sp] by (blast intro: sameCore_trans)
  then have "communityCards st2 = communityCards st"
    using tableRest_fields(4) [of st2 st] by (simp add: sameCore_def)
  then show ?thesis by (simp add: st' finishShowdown_def Let_def updateSeat_def)
qed

lemma solo_progression:
  "handInvAt b st \<Longrightarrow> turnOk st \<Longrightarrow> isSoloHoldemState st \<Longrightarrow> listActionableSeats st = [] \<Longrightarrow>
     resolveTerminalAndStreetProgression now cs st = Inr st' \<Longrightarrow>
     length (communityCards st') = 5 \<and> revealedSeatIndexes st' = map seatIndex (listNonFoldedSeats st)"
proof (induction now cs st arbitrary: b rule: resolveTerminalAndStreetProgression.induct)
  case (1 now cs st)
  note inv = "1.prems"(1)
  have active: "tableStatus st = TableActive" and board: "boardOk st"
    using inv by (simp_all add: handInvAt_def)
  have round: "hasRoundCompleted st" using "1.prems"(4) by (simp add: hasRoundCompleted_def)
  note unfold = resolveTerminalAndStreetProgression.simps [of now cs st]
  show ?case
  proof (cases "stage st = Some River")
    case True
    then have "settleShowdown now st = Inr st'"
      using "1.prems"(3,5) active round by (simp only: unfold) simp
    from settleShowdown_reveals [OF this] board True show ?thesis by (simp add: boardOk_def)
  next
    case False
    obtain st1 where st1: "dealNextStreet now st = Inr st1" "handInvAt (b + currentBet st) st1" "turnOk st1"
      using dealNextStreet_ok [OF inv round False] by blast
    note solo1 = dealNextStreet_solo [OF board False st1(1) "1.prems"(3,4)]
    have "resolveTerminalAndStreetProgression now
        (case stage st1 of None \<Rightarrow> cs | Some s \<Rightarrow> s) st1 = Inr st'"
      using False active round "1.prems"(3,5) st1(1) by (simp only: unfold) simp
    from "1.IH" [OF _ _ _ False st1(1,2,3) _ _ this] solo1 "1.prems"(3) round active show ?thesis by simp
  qed
qed

text \<open>
  At a casual table, when the only player with chips behind folds to players who are
  all-in, the hand is not settled by the fold: the board is dealt out to five cards and the
  hole cards of the remaining players are revealed.
\<close>

theorem casual_fold_runs_out_board:
  assumes inv: "tableInv st" and casual: "tableType st = Casual"
    and av: "resolveHoldemActionAvailability st i = Some a" "Fold \<in> set (av_actions a)"
    and s: "findSeatByIndex st (Some i) = Some s" "\<not> sittingOut s"
    and others: "\<forall>t \<in> set (seats st). seatIndex t \<noteq> i \<longrightarrow> stackAmount t = 0"
    and ok: "actOnHoldemSeat parse now st i Fold amt = Inr st'"
  shows "length (communityCards st') = 5 \<and>
    (\<forall>t \<in> set (seats st). isNonFolded t \<and> seatIndex t \<noteq> i \<longrightarrow> seatIndex t \<in> set (revealedSeatIndexes st'))"
proof -
  have hand: "handInv st"
    using inv av by (auto simp: tableInv_def resolveHoldemActionAvailability_def
        split: if_splits table_status.splits)
  have d: "distinct (map seatIndex (seats st))" using hand by (simp add: handInv_def handInvAt_def)
  obtain ready: "actorReady (streetBase st) st i s"
    using availability_Some [OF hand av(1)] s(1) by (metis actorReady_facts(2) option.inject)
  note facts = actorReady_facts [OF ready]
  obtain cs where eq: "actOnHoldemSeat parse now st i Fold amt =
      bind_res (chipsStep parse st s Fold amt) (resolveTerminalAndStreetProgression now cs)"
    by (rule actOnHoldemSeat_offered [OF hand av s(1)])
  let ?f = "\<lambda>x. x\<lparr>seatStatus := SeatFolded, lastAction := Some ''Fold''\<rparr>"
  let ?st1 = "passTurn i (updateSeat i ?f st)"
  have step: "chipsStep parse st s Fold amt = Inr ?st1"
    using facts(4) by (simp add: chipsStep_def applyPassiveSeatAction_def)
  have moved: "handInvAt (streetBase st) ?st1" "turnOk ?st1"
    using chipsStep_moved [OF hand av s(1) step] by (simp_all add: moved_def)
  have seats1: "seats ?st1 = map (\<lambda>x. if seatIndex x = i then ?f x else x) (seats st)"
    by (simp add: passTurn_def seatStore.entries_upd_map [OF d])
  have only: "x = s" if "x \<in> set (seats st)" "seatIndex x = i" for x
    using d s(1) that by (auto simp: findSeatByIndex_Some dest!: find_SomeD simp: distinct_map inj_on_def)
  have mem: "s \<in> set (seats st)" using s(1) by (auto simp: findSeatByIndex_Some dest: find_SomeD)
  have idle: "listActionableSeats ?st1 = []"
    using others by (auto simp: listActionableSeats_def filter_empty_conv isSeatActionable_def seats1)
  have solo: "isSoloHoldemState ?st1"
  proof -
    have sorted: "sortSeatsByIndex (seats ?st1) =
        map (\<lambda>x. if seatIndex x = i then ?f x else x) (sortSeatsByIndex (seats st))"
      unfolding seats1 by (rule sortSeats_map) simp
    have same: "isSeatEligibleForHand (if seatIndex x = i then ?f x else x) = isSeatEligibleForHand x" for x
      by (simp add: isSeatEligibleForHand_def)
    have "length (listEligibleSeats ?st1) = length (filter isSeatEligibleForHand (sortSeatsByIndex (seats st)))"
      by (simp add: listEligibleSeats_def sorted filter_map comp_def same)
    also have "filter isSeatEligibleForHand (sortSeatsByIndex (seats st)) =
        filter (\<lambda>x. seatIndex x = i) (sortSeatsByIndex (seats st))"
      using only s(2) facts(6) others
      by (intro filter_cong) (auto simp: isSeatEligibleForHand_def)
    also have "length \<dots> = 1"
    proof -
      have "distinct (map seatIndex (filter (\<lambda>x. seatIndex x = i) (sortSeatsByIndex (seats st))))"
        by (rule distinct_indexes_filter [OF d])
      moreover have "set (map seatIndex (filter (\<lambda>x. seatIndex x = i) (sortSeatsByIndex (seats st)))) = {i}"
        using mem facts(4) by auto
      ultimately show ?thesis by (metis distinct_card length_map card_1_singleton_iff One_nat_def)
    qed
    finally show ?thesis
      using casual by (simp add: isSoloHoldemState_def passTurn_def updateSeat_def)
  qed
  have "resolveTerminalAndStreetProgression now cs ?st1 = Inr st'" using ok eq step by simp
  from solo_progression [OF moved solo idle this] show ?thesis
    by (auto simp: listNonFoldedSeats_def seats1 intro!: image_eqI)
qed


definition sampleCasual :: table where
  "sampleCasual =
     (sampleTable
       [(sampleSeat 0 1900)\<lparr>committedAmount := 100, totalCommittedAmount := 100, seatStatus := SeatActive\<rparr>,
        (sampleSeat 1 0)\<lparr>committedAmount := 2000, totalCommittedAmount := 2000, seatStatus := SeatAllIn\<rparr>])
     \<lparr>tableType := Casual, tableStatus := TableActive, stage := Some Preflop, dealerSeatIndex := Some 0,
      currentBet := 2000, lastFullRaiseSize := 1800, actedSeatIndexes := [1], pendingActorSeatIndex := Some 0,
      deck := HOLDEM_DECK_TEMPLATE, nextCardIndex := 4\<rparr>"

lemmas casual_defs = sampleCasual_def sampleTable_def sampleSeat_def

lemma sampleCasual_inv: "tableInv sampleCasual"
proof -
  have "handInvAt 0 sampleCasual"
    by (simp add: handInvAt_def seatOk_def leads_def boardOk_def isNonFolded_def isSeatInHand_def
        length_deck_template casual_defs)
  moreover have "streetBase sampleCasual = 0" by (simp add: streetBase_def casual_defs)
  moreover have "turnOk sampleCasual" by (simp add: turnOk_def isSeatActionable_def casual_defs)
  moreover have "listActionableSeats sampleCasual = [seats sampleCasual ! 0]"
    by (simp add: listActionableSeats_def sortSeatsByIndex_def isSeatActionable_def casual_defs)
  then have "\<not> hasRoundCompleted sampleCasual"
    by (simp add: hasRoundCompleted_def) (simp add: casual_defs)
  moreover have "tableStatus sampleCasual = TableActive" by (simp add: sampleCasual_def)
  ultimately show ?thesis by (simp add: tableInv_def handInv_def)
qed

theorem casual_fold_runs_out_board_witness:
  "\<exists>st'. actOnHoldemSeat (\<lambda>_. None) 0 sampleCasual 0 Fold None = Inr st' \<and>
     length (communityCards st') = 5 \<and> 1 \<in> set (revealedSeatIndexes st')"
proof -
  have s: "findSeatByIndex sampleCasual (Some 0) = Some (seats sampleCasual ! 0)"
    by (simp add: findSeatByIndex_Some casual_defs)
  have "\<exists>a. resolveHoldemActionAvailability sampleCasual 0 = Some a \<and> Fold \<in> set (av_actions a)"
    by (simp add: resolveHoldemActionAvailability_def s Let_def) (simp add: casual_defs)
  then obtain a where a: "resolveHoldemActionAvailability sampleCasual 0 = Some a" "Fold \<in> set (av_actions a)"
    by blast
  from offered_action_succeeds [OF sampleCasual_inv a]
  obtain st' where ok: "actOnHoldemSeat (\<lambda>_. None) 0 sampleCasual 0 Fold None = Inr st'" by blast
  have "length (communityCards st') = 5 \<and> (\<forall>t \<in> set (seats sampleCasual).
      isNonFolded t \<and> seatIndex t \<noteq> 0 \<longrightarrow> seatIndex t \<in> set (revealedSeatIndexes st'))"
    by (rule casual_fold_runs_out_board [OF sampleCasual_inv _ a s _ _ ok]) (simp_all add: casual_defs)
  then show ?thesis
    using ok by (simp add: casual_defs isNonFolded_def isSeatInHand_def)
qed

end
