(* ===== verification/Holdem_Views.thy ===== *)
theory Holdem_Views
  imports Holdem_Limits
begin

text \<open>
  What a table shows, \<open>engine.ts\<close>: the private view of one viewer, the public real-time
  snapshot, and the summary of the lobby.  An instant that the source prints as an ISO
  string stays an instant here; the columns that the model of the state leaves out (linked
  group, rake policy, tournament, dealer feed, creation and update times) are left out of
  the views too, and a tournament is reduced to its status.
\<close>

record card_view =
  cv_rank :: "card_rank option"
  cv_suit :: "card_suit option"
  cv_hidden :: bool

definition toCardView :: "card \<Rightarrow> bool \<Rightarrow> card_view" where
  "toCardView c h =
     \<lparr>cv_rank = (if h then None else Some (rank c)), cv_suit = (if h then None else Some (suit c)),
      cv_hidden = h\<rparr>"

record seat_view =
  sv_seatIndex :: nat
  sv_userId :: "nat option"
  sv_displayName :: "string option"
  sv_isBot :: bool
  sv_connectionState :: "presence_state option"
  sv_disconnectGraceExpiresAt :: "int option"
  sv_seatLeaseExpiresAt :: "int option"
  sv_autoCashOutPending :: bool
  sv_turnDeadlineAt :: "int option"
  sv_timeBankRemainingMs :: nat
  sv_stackAmount :: cents
  sv_committedAmount :: cents
  sv_totalCommittedAmount :: cents
  sv_status :: "seat_status option"
  sv_cards :: "card_view list"
  sv_inHand :: bool
  sv_sittingOut :: bool
  sv_isDealer :: bool
  sv_isSmallBlind :: bool
  sv_isBigBlind :: bool
  sv_isCurrentTurn :: bool
  sv_winner :: bool
  sv_bestHand :: "best_hand option"
  sv_lastAction :: "string option"

definition buildSeatViewCards :: "table \<Rightarrow> nat \<Rightarrow> seat \<Rightarrow> card_view list" where
  "buildSeatViewCards st viewer s =
     (let revealCards = (userId s = viewer \<or> seatIndex s \<in> set (revealedSeatIndexes st))
      in map (\<lambda>c. toCardView c (\<not> revealCards)) (holeCards s))"

definition buildCommunityCardViews :: "table \<Rightarrow> card_view list" where
  "buildCommunityCardViews st = map (\<lambda>c. toCardView c False) (communityCards st)"

definition emptySeatView :: "table \<Rightarrow> nat \<Rightarrow> seat_view" where
  "emptySeatView st i =
     \<lparr>sv_seatIndex = i, sv_userId = None, sv_displayName = None, sv_isBot = False,
      sv_connectionState = None, sv_disconnectGraceExpiresAt = None, sv_seatLeaseExpiresAt = None,
      sv_autoCashOutPending = False, sv_turnDeadlineAt = None, sv_timeBankRemainingMs = 0,
      sv_stackAmount = 0, sv_committedAmount = 0, sv_totalCommittedAmount = 0, sv_status = None,
      sv_cards = [], sv_inHand = False, sv_sittingOut = False,
      sv_isDealer = (dealerSeatIndex st = Some i), sv_isSmallBlind = (smallBlindSeatIndex st = Some i),
      sv_isBigBlind = (bigBlindSeatIndex st = Some i),
      sv_isCurrentTurn = (pendingActorSeatIndex st = Some i), sv_winner = False,
      sv_bestHand = None, sv_lastAction = None\<rparr>"

definition connectionStateOf :: "int \<Rightarrow> seat \<Rightarrow> presence_state option" where
  "connectionStateOf now s = (if isBotSeat s then Some Connected else resolveSeatPresenceState s now)"

text \<open>The view of an occupied seat, with the cards and the best hand it shows as arguments.\<close>

definition occupiedSeatView ::
  "int \<Rightarrow> table \<Rightarrow> seat \<Rightarrow> card_view list \<Rightarrow> best_hand option \<Rightarrow> seat_view" where
  "occupiedSeatView now st s cards best =
     (let i = seatIndex s in
      \<lparr>sv_seatIndex = i, sv_userId = Some (userId s),
       sv_displayName = Some (resolveSeatDisplayName (userId s) (userEmail s) (bot s)),
       sv_isBot = isBotSeat s, sv_connectionState = connectionStateOf now s,
       sv_disconnectGraceExpiresAt = disconnectGraceExpiresAt s,
       sv_seatLeaseExpiresAt = seatLeaseExpiresAt s, sv_autoCashOutPending = autoCashOutPending s,
       sv_turnDeadlineAt = turnDeadlineAt s, sv_timeBankRemainingMs = timeBankRemainingMs s,
       sv_stackAmount = stackAmount s, sv_committedAmount = committedAmount s,
       sv_totalCommittedAmount = totalCommittedAmount s, sv_status = Some (seatStatus s),
       sv_cards = cards, sv_inHand = (isSeatInHand s \<or> holeCards s \<noteq> []),
       sv_sittingOut = sittingOut s, sv_isDealer = (dealerSeatIndex st = Some i),
       sv_isSmallBlind = (smallBlindSeatIndex st = Some i),
       sv_isBigBlind = (bigBlindSeatIndex st = Some i),
       sv_isCurrentTurn = (pendingActorSeatIndex st = Some i), sv_winner = winner s,
       sv_bestHand = best, sv_lastAction = lastAction s\<rparr>)"

text \<open>Every place at the table; a map built from a list of seats keeps the last of a key.\<close>

definition seatViews :: "int \<Rightarrow> table \<Rightarrow> nat \<Rightarrow> seat_view list" where
  "seatViews now st viewer =
     map (\<lambda>i. case find (\<lambda>s. seatIndex s = i) (rev (seats st)) of
                None \<Rightarrow> emptySeatView st i
              | Some s \<Rightarrow> occupiedSeatView now st s (buildSeatViewCards st viewer s) (bestHand s))
       [0..<maxSeats st]"

definition shownPots :: "table \<Rightarrow> pot list" where
  "shownPots st = (if tableStatus st = TableActive then buildPendingPotViews st else resolvedPots st)"

definition heroSeatIndexOf :: "table \<Rightarrow> nat \<Rightarrow> nat option" where
  "heroSeatIndexOf st viewer = map_option seatIndex (find (\<lambda>s. userId s = viewer) (seats st))"

definition canStartHoldemTable :: "table \<Rightarrow> bool" where
  "canStartHoldemTable st =
     (if tableType st = Tournament \<and> tournamentStatus st = Some Completed then False
      else tableStatus st = TableWaiting \<and>
           resolveMinimumRequiredPlayers st \<le> length (listEligibleSeats st) \<and>
           listEligibleHumanSeats st \<noteq> [])"

record table_header =
  th_id :: nat
  th_name :: string
  th_tableType :: table_type
  th_status :: table_status
  th_tournament :: "tournament_status option"
  th_handNumber :: nat
  th_stage :: "street option"
  th_smallBlind :: cents
  th_bigBlind :: cents
  th_minimumBuyIn :: cents
  th_maximumBuyIn :: cents
  th_maxSeats :: nat

definition tableHeader :: "table \<Rightarrow> table_header" where
  "tableHeader st =
     \<lparr>th_id = tableId st, th_name = tableName st, th_tableType = tableType st,
      th_status = tableStatus st, th_tournament = tournamentStatus st,
      th_handNumber = handNumber st, th_stage = stage st, th_smallBlind = smallBlind st,
      th_bigBlind = bigBlind st, th_minimumBuyIn = minimumBuyIn st,
      th_maximumBuyIn = maximumBuyIn st, th_maxSeats = maxSeats st\<rparr>"

record table_view =
  tv_header :: table_header
  tv_communityCards :: "card_view list"
  tv_pots :: "pot list"
  tv_seats :: "seat_view list"
  tv_heroSeatIndex :: "nat option"
  tv_pendingActorSeatIndex :: "nat option"
  tv_pendingActorDeadlineAt :: "int option"
  tv_pendingActorTimeBankStartsAt :: "int option"
  tv_pendingActorTimeoutAction :: "holdem_action option"
  tv_availableActions :: "availability option"
  tv_fairness :: "fairness option"
  tv_recentHands :: "recent_hand list"

definition pendingDeadline :: "table \<Rightarrow> int option" where
  "pendingDeadline st =
     (case findSeatByIndex st (pendingActorSeatIndex st) of
        None \<Rightarrow> None | Some s \<Rightarrow> turnDeadlineAt s)"

definition pendingTimeoutAction :: "table \<Rightarrow> holdem_action option" where
  "pendingTimeoutAction st =
     (case pendingActorSeatIndex st of None \<Rightarrow> None | Some i \<Rightarrow> resolveHoldemTimeoutAction st i)"

definition serializeHoldemTable :: "int \<Rightarrow> table \<Rightarrow> nat \<Rightarrow> table_view" where
  "serializeHoldemTable now st viewer =
     \<lparr>tv_header = tableHeader st, tv_communityCards = buildCommunityCardViews st,
      tv_pots = shownPots st, tv_seats = seatViews now st viewer,
      tv_heroSeatIndex = heroSeatIndexOf st viewer,
      tv_pendingActorSeatIndex = pendingActorSeatIndex st,
      tv_pendingActorDeadlineAt = pendingDeadline st,
      tv_pendingActorTimeBankStartsAt = turnTimeBankStartsAt st,
      tv_pendingActorTimeoutAction = pendingTimeoutAction st,
      tv_availableActions =
        (case heroSeatIndexOf st viewer of
           None \<Rightarrow> None | Some i \<Rightarrow> resolveHoldemActionAvailability st i),
      tv_fairness = table_fairness st, tv_recentHands = recentHands st\<rparr>"

record realtime_seat = seat_view +
  rs_revealedCards :: "card list"

definition buildRealtimeSeatSnapshot :: "int \<Rightarrow> table \<Rightarrow> seat \<Rightarrow> realtime_seat" where
  "buildRealtimeSeatSnapshot now st s =
     (let revealed = (seatIndex s \<in> set (revealedSeatIndexes st))
      in seat_view.extend
           (occupiedSeatView now st s [] (if revealed then bestHand s else None))
           \<lparr>rs_revealedCards = (if revealed then holeCards s else [])\<rparr>)"

record realtime_table =
  rt_header :: table_header
  rt_occupiedSeats :: nat
  rt_canStart :: bool
  rt_communityCards :: "card list"
  rt_pots :: "pot list"
  rt_seats :: "realtime_seat list"
  rt_dealerSeatIndex :: "nat option"
  rt_smallBlindSeatIndex :: "nat option"
  rt_bigBlindSeatIndex :: "nat option"
  rt_pendingActorSeatIndex :: "nat option"
  rt_pendingActorDeadlineAt :: "int option"
  rt_pendingActorTimeBankStartsAt :: "int option"
  rt_pendingActorTimeoutAction :: "holdem_action option"
  rt_fairness :: "fairness option"
  rt_revealedSeatIndexes :: "nat list"
  rt_winnerSeatIndexes :: "nat list"
  rt_recentHands :: "recent_hand list"

definition serializeHoldemRealtimeTable :: "int \<Rightarrow> table \<Rightarrow> realtime_table" where
  "serializeHoldemRealtimeTable now st =
     \<lparr>rt_header = tableHeader st, rt_occupiedSeats = length (seats st),
      rt_canStart = canStartHoldemTable st, rt_communityCards = communityCards st,
      rt_pots = shownPots st,
      rt_seats = map (buildRealtimeSeatSnapshot now st) (sortSeatsByIndex (seats st)),
      rt_dealerSeatIndex = dealerSeatIndex st, rt_smallBlindSeatIndex = smallBlindSeatIndex st,
      rt_bigBlindSeatIndex = bigBlindSeatIndex st,
      rt_pendingActorSeatIndex = pendingActorSeatIndex st,
      rt_pendingActorDeadlineAt = pendingDeadline st,
      rt_pendingActorTimeBankStartsAt = turnTimeBankStartsAt st,
      rt_pendingActorTimeoutAction = pendingTimeoutAction st, rt_fairness = table_fairness st,
      rt_revealedSeatIndexes = revealedSeatIndexes st,
      rt_winnerSeatIndexes = table_winnerSeatIndexes st, rt_recentHands = recentHands st\<rparr>"

record table_summary =
  ts_header :: table_header
  ts_occupiedSeats :: nat
  ts_heroSeatIndex :: "nat option"
  ts_canStart :: bool

text \<open>The summary has no hand number and no street.\<close>

definition serializeHoldemTableSummary :: "table \<Rightarrow> nat \<Rightarrow> table_summary" where
  "serializeHoldemTableSummary st viewer =
     \<lparr>ts_header = (tableHeader st)\<lparr>th_handNumber := 0, th_stage := None\<rparr>,
      ts_occupiedSeats = length (seats st), ts_heroSeatIndex = heroSeatIndexOf st viewer,
      ts_canStart = canStartHoldemTable st\<rparr>"

subsection \<open>Views do not depend on hidden cards\<close>

text \<open>
  \<open>hides viewers st h\<close>: \<open>h\<close> replaces, seat by seat, the hole cards that are neither revealed
  nor those of one of the \<open>viewers\<close>, by as many other cards.
\<close>

definition hides :: "nat set \<Rightarrow> table \<Rightarrow> (seat \<Rightarrow> seat) \<Rightarrow> bool" where
  "hides viewers st h =
     (\<forall>s. \<exists>cs. h s = s\<lparr>holeCards := cs\<rparr> \<and> length cs = length (holeCards s) \<and>
        (userId s \<in> viewers \<or> seatIndex s \<in> set (revealedSeatIndexes st) \<longrightarrow> cs = holeCards s))"

text \<open>The table with hidden cards, deck and seed exchanged.\<close>

definition exchange :: "(seat \<Rightarrow> seat) \<Rightarrow> card list \<Rightarrow> nat \<Rightarrow> string option \<Rightarrow> table \<Rightarrow> table" where
  "exchange h d n seed st =
     st\<lparr>seats := map h (seats st), deck := d, nextCardIndex := n, fairnessSeed := seed\<rparr>"

lemma hides_fields:
  assumes "hides V st h"
  shows "seatIndex (h s) = seatIndex s" "userId (h s) = userId s" "userEmail (h s) = userEmail s"
    "stackAmount (h s) = stackAmount s" "committedAmount (h s) = committedAmount s"
    "totalCommittedAmount (h s) = totalCommittedAmount s" "seatStatus (h s) = seatStatus s"
    "disconnectGraceExpiresAt (h s) = disconnectGraceExpiresAt s"
    "presenceHeartbeatAt (h s) = presenceHeartbeatAt s"
    "seatLeaseExpiresAt (h s) = seatLeaseExpiresAt s" "autoCashOutPending (h s) = autoCashOutPending s"
    "turnDeadlineAt (h s) = turnDeadlineAt s" "timeBankRemainingMs (h s) = timeBankRemainingMs s"
    "sittingOut (h s) = sittingOut s" "winner (h s) = winner s" "bestHand (h s) = bestHand s"
    "lastAction (h s) = lastAction s" "bot (h s) = bot s" "holeCards (h s) = [] \<longleftrightarrow> holeCards s = []"
    "length (holeCards (h s)) = length (holeCards s)"
proof -
  obtain cs where "h s = s\<lparr>holeCards := cs\<rparr>" "length cs = length (holeCards s)"
    using assms by (auto simp: hides_def)
  moreover from this have "cs = [] \<longleftrightarrow> holeCards s = []" by auto
  ultimately show "seatIndex (h s) = seatIndex s" "userId (h s) = userId s" "userEmail (h s) = userEmail s"
    "stackAmount (h s) = stackAmount s" "committedAmount (h s) = committedAmount s"
    "totalCommittedAmount (h s) = totalCommittedAmount s" "seatStatus (h s) = seatStatus s"
    "disconnectGraceExpiresAt (h s) = disconnectGraceExpiresAt s"
    "presenceHeartbeatAt (h s) = presenceHeartbeatAt s"
    "seatLeaseExpiresAt (h s) = seatLeaseExpiresAt s" "autoCashOutPending (h s) = autoCashOutPending s"
    "turnDeadlineAt (h s) = turnDeadlineAt s" "timeBankRemainingMs (h s) = timeBankRemainingMs s"
    "sittingOut (h s) = sittingOut s" "winner (h s) = winner s" "bestHand (h s) = bestHand s"
    "lastAction (h s) = lastAction s" "bot (h s) = bot s" "holeCards (h s) = [] \<longleftrightarrow> holeCards s = []"
    "length (holeCards (h s)) = length (holeCards s)"
    by simp_all
qed

lemma hides_shown:
  assumes "hides V st h" and "userId s \<in> V \<or> seatIndex s \<in> set (revealedSeatIndexes st)"
  shows "holeCards (h s) = holeCards s"
proof -
  obtain cs where "h s = s\<lparr>holeCards := cs\<rparr>" "cs = holeCards s"
    using assms by (force simp: hides_def)
  then show ?thesis by simp
qed

lemma exchange_fields [simp]:
  "seats (exchange h d n seed st) = map h (seats st)"
  "tableStatus (exchange h d n seed st) = tableStatus st"
  "tableType (exchange h d n seed st) = tableType st"
  "tournamentStatus (exchange h d n seed st) = tournamentStatus st"
  "currentBet (exchange h d n seed st) = currentBet st"
  "lastFullRaiseSize (exchange h d n seed st) = lastFullRaiseSize st"
  "bigBlind (exchange h d n seed st) = bigBlind st"
  "maxSeats (exchange h d n seed st) = maxSeats st"
  "pendingActorSeatIndex (exchange h d n seed st) = pendingActorSeatIndex st"
  "revealedSeatIndexes (exchange h d n seed st) = revealedSeatIndexes st"
  "table_winnerSeatIndexes (exchange h d n seed st) = table_winnerSeatIndexes st"
  "communityCards (exchange h d n seed st) = communityCards st"
  "resolvedPots (exchange h d n seed st) = resolvedPots st"
  "recentHands (exchange h d n seed st) = recentHands st"
  "table_fairness (exchange h d n seed st) = table_fairness st"
  "turnTimeBankStartsAt (exchange h d n seed st) = turnTimeBankStartsAt st"
  "dealerSeatIndex (exchange h d n seed st) = dealerSeatIndex st"
  "smallBlindSeatIndex (exchange h d n seed st) = smallBlindSeatIndex st"
  "bigBlindSeatIndex (exchange h d n seed st) = bigBlindSeatIndex st"
  "tableHeader (exchange h d n seed st) = tableHeader st"
  by (simp_all add: exchange_def tableHeader_def)


lemma find_map_key:
  "(\<And>s. k (h s) = k s) \<Longrightarrow> find (\<lambda>s. k s = i) (map h xs) = map_option h (find (\<lambda>s. k s = i) xs)"
  by (induction xs) auto

lemma sort_filter_exchange:
  assumes "hides V st h" and "\<And>s. P (h s) = P s"
  shows "filter P (sortSeatsByIndex (map h ss)) = map h (filter P (sortSeatsByIndex ss))"
  using assms hides_fields(1) [OF assms(1)] by (simp add: sortSeats_map filter_map comp_def)

lemma exchange_pots:
  assumes h: "hides V st h"
  shows "buildPendingPotViews (exchange h d n seed st) = buildPendingPotViews st"
proof -
  note f = hides_fields [OF h]
  have contributing: "contributingSeats (exchange h d n seed st) = map h (contributingSeats st)"
    unfolding contributingSeats_def using sort_filter_exchange [OF h] f by simp
  have levels: "contributionLevels (map h cs) = contributionLevels cs" for cs
    by (simp add: contributionLevels_def comp_def f)
  have loop: "potLoop (map h cs) ls prev ps = potLoop cs ls prev ps" for cs ls prev ps
  proof (induction cs ls prev ps rule: potLoop.induct)
    case (2 cs l ls prev ps)
    show ?case
      unfolding potLoop.simps Let_def
      by (simp only: "2.IH" [OF refl refl refl, symmetric]) (simp add: filter_map comp_def f)
  qed simp
  show ?thesis
    by (simp add: buildPendingPotViews_loop contributing levels loop)
qed

lemma exchange_find:
  assumes "hides V st h"
  shows "findSeatByIndex (exchange h d n seed st) i = map_option h (findSeatByIndex st i)"
  using find_map_key [of seatIndex h _ "seats st"] hides_fields(1) [OF assms]
  by (cases i) (simp_all add: findSeatByIndex_Some)

lemma exchange_solo:
  assumes h: "hides V st h"
  shows "listEligibleSeats (exchange h d n seed st) = map h (listEligibleSeats st)"
    "listEligibleHumanSeats (exchange h d n seed st) = map h (listEligibleHumanSeats st)"
    "isSoloHoldemState (exchange h d n seed st) = isSoloHoldemState st"
proof -
  note f = hides_fields [OF h]
  show e: "listEligibleSeats (exchange h d n seed st) = map h (listEligibleSeats st)"
    unfolding listEligibleSeats_def
    using sort_filter_exchange [OF h, of isSeatEligibleForHand] by (simp add: isSeatEligibleForHand_def f)
  then show "listEligibleHumanSeats (exchange h d n seed st) = map h (listEligibleHumanSeats st)"
    by (simp add: listEligibleHumanSeats_def filter_map comp_def isBotSeat_def f)
  show "isSoloHoldemState (exchange h d n seed st) = isSoloHoldemState st"
    by (simp add: isSoloHoldemState_def e)
qed

lemma exchange_actions:
  assumes h: "hides V st h"
  shows "resolveHoldemActionAvailability (exchange h d n seed st) i = resolveHoldemActionAvailability st i"
    "resolveHoldemTimeoutAction (exchange h d n seed st) i = resolveHoldemTimeoutAction st i"
proof -
  note f = hides_fields [OF h]
  show av: "resolveHoldemActionAvailability (exchange h d n seed st) i = resolveHoldemActionAvailability st i"
    by (simp add: resolveHoldemActionAvailability_def exchange_find [OF h] exchange_solo [OF h] f
        option.case_eq_if option.map_sel Let_def)
  show "resolveHoldemTimeoutAction (exchange h d n seed st) i = resolveHoldemTimeoutAction st i"
    by (simp add: resolveHoldemTimeoutAction_def av)
qed

lemma exchange_pending:
  assumes h: "hides V st h"
  shows "pendingDeadline (exchange h d n seed st) = pendingDeadline st"
    "pendingTimeoutAction (exchange h d n seed st) = pendingTimeoutAction st"
    "shownPots (exchange h d n seed st) = shownPots st"
    "canStartHoldemTable (exchange h d n seed st) = canStartHoldemTable st"
    "heroSeatIndexOf (exchange h d n seed st) v = heroSeatIndexOf st v"
proof -
  note f = hides_fields [OF h]
  show "pendingDeadline (exchange h d n seed st) = pendingDeadline st"
    by (simp add: pendingDeadline_def exchange_find [OF h] f split: option.split)
  show "pendingTimeoutAction (exchange h d n seed st) = pendingTimeoutAction st"
    by (simp add: pendingTimeoutAction_def exchange_actions [OF h] split: option.split)
  show "shownPots (exchange h d n seed st) = shownPots st"
    by (simp add: shownPots_def exchange_pots [OF h])
  show "canStartHoldemTable (exchange h d n seed st) = canStartHoldemTable st"
    by (simp add: canStartHoldemTable_def resolveMinimumRequiredPlayers_def exchange_solo [OF h])
  show "heroSeatIndexOf (exchange h d n seed st) v = heroSeatIndexOf st v"
    using find_map_key [of userId h v "seats st"] f
    by (simp add: heroSeatIndexOf_def option.map_comp comp_def)
qed

lemma occupied_exchange:
  assumes h: "hides V st h"
  shows "occupiedSeatView now (exchange h d n seed st) (h s) cards best = occupiedSeatView now st s cards best"
  using hides_fields [OF h, of s]
  by (simp add: occupiedSeatView_def Let_def connectionStateOf_def isBotSeat_def resolveSeatPresenceState_def
      isSeatInHand_def)

lemma hidden_cards_view:
  "length cs = length cs' \<Longrightarrow> map (\<lambda>c. toCardView c True) cs = map (\<lambda>c. toCardView c True) cs'"
  by (induction cs cs' rule: list_induct2) (simp_all add: toCardView_def)

lemma cards_exchange:
  assumes h: "hides {v} st h"
  shows "buildSeatViewCards (exchange h d n seed st) v (h s) = buildSeatViewCards st v s"
proof (cases "userId s = v \<or> seatIndex s \<in> set (revealedSeatIndexes st)")
  case True
  with hides_shown [OF h, of s] hides_fields [OF h, of s] show ?thesis
    by (simp add: buildSeatViewCards_def)
next
  case False
  have len: "length (holeCards (h s)) = length (holeCards s)" by (rule hides_fields(20) [OF h])
  from False hidden_cards_view [OF len] hides_fields(1,2) [OF h, of s] show ?thesis
    by (simp add: buildSeatViewCards_def)
qed

lemma seatViews_exchange:
  assumes h: "hides {v} st h"
  shows "seatViews now (exchange h d n seed st) v = seatViews now st v"
proof -
  have "(case find (\<lambda>s. seatIndex s = i) (rev (map h (seats st))) of
      None \<Rightarrow> emptySeatView (exchange h d n seed st) i
    | Some s \<Rightarrow> occupiedSeatView now (exchange h d n seed st) s
        (buildSeatViewCards (exchange h d n seed st) v s) (bestHand s)) =
    (case find (\<lambda>s. seatIndex s = i) (rev (seats st)) of
      None \<Rightarrow> emptySeatView st i
    | Some s \<Rightarrow> occupiedSeatView now st s (buildSeatViewCards st v s) (bestHand s))" for i
    using find_map_key [of seatIndex h i "rev (seats st)"] hides_fields [OF h]
    by (cases "find (\<lambda>s. seatIndex s = i) (rev (seats st))")
      (simp_all add: rev_map emptySeatView_def occupied_exchange [OF h] cards_exchange [OF h])
  then show ?thesis by (simp add: seatViews_def)
qed

text \<open>
  C38. What a player is shown does not depend on the cards hidden from them: exchanging the
  undealt deck, the seed of the hand and the hole cards of other players that are not
  revealed changes neither the private view nor, exchanging everybody's, the public one.
\<close>

theorem views_hide_cards:
  assumes "hides {viewer} st h" and "hides {} st g"
  shows "serializeHoldemTable now (exchange h d n seed st) viewer = serializeHoldemTable now st viewer \<and>
    serializeHoldemRealtimeTable now (exchange g d n seed st) = serializeHoldemRealtimeTable now st"
proof
  show "serializeHoldemTable now (exchange h d n seed st) viewer = serializeHoldemTable now st viewer"
    by (simp add: serializeHoldemTable_def buildCommunityCardViews_def seatViews_exchange [OF assms(1)]
        exchange_pending [OF assms(1)] exchange_actions [OF assms(1)] split: option.split)
  have seat: "buildRealtimeSeatSnapshot now (exchange g d n seed st) (g s) = buildRealtimeSeatSnapshot now st s" for s
    using hides_fields [OF assms(2), of s] hides_shown [OF assms(2), of s]
    by (simp add: buildRealtimeSeatSnapshot_def Let_def occupied_exchange [OF assms(2)])
  have "sortSeatsByIndex (map g (seats st)) = map g (sortSeatsByIndex (seats st))"
    using hides_fields(1) [OF assms(2)] by (rule sortSeats_map)
  then show "serializeHoldemRealtimeTable now (exchange g d n seed st) = serializeHoldemRealtimeTable now st"
    by (simp add: serializeHoldemRealtimeTable_def exchange_pending [OF assms(2)] comp_def seat)
qed

text \<open>Seat 0 sees the same table whichever two cards its opponent holds.\<close>

theorem views_hide_cards_witness:
  "serializeHoldemTable 0
     (exchange (\<lambda>s. if userId s = 1 then s else s\<lparr>holeCards := map (\<lambda>_. \<lparr>rank = RA, suit = Clubs\<rparr>) (holeCards s)\<rparr>)
        [] 0 None sampleHand) 1 = serializeHoldemTable 0 sampleHand 1"
proof -
  let ?h = "\<lambda>s. if userId s = 1 then s else s\<lparr>holeCards := map (\<lambda>_. \<lparr>rank = RA, suit = Clubs\<rparr>) (holeCards s)\<rparr>"
  have "hides {1} sampleHand ?h"
    unfolding hides_def by (intro allI, rename_tac s, rule_tac x = "holeCards (?h s)" in exI)
      (auto simp: sample_defs)
  moreover have "hides {} sampleHand id"
    unfolding hides_def by (intro allI, rename_tac s, rule_tac x = "holeCards s" in exI) simp
  ultimately show ?thesis using views_hide_cards by blast
qed

subsection \<open>The start button\<close>

text \<open>
  The table is shown as startable exactly when starting a hand succeeds, at a settled
  table of at most 23 seats that is not a finished tournament.
\<close>

theorem canStart_iff_start_succeeds:
  assumes "settledTable st" and "length (seats st) \<le> 23"
    and "\<not> (tableType st = Tournament \<and> tournamentStatus st = Some Completed)"
  shows "canStartHoldemTable st \<longleftrightarrow> (\<exists>st'. startHoldemHand sha256 now fs st = Inr st')"
proof
  assume "canStartHoldemTable st"
  then have "resolveMinimumRequiredPlayers st \<le> length (listEligibleSeats st)" "listEligibleHumanSeats st \<noteq> []"
    by (auto simp: canStartHoldemTable_def split: if_splits)
  from startHoldemHand_total [OF assms(1) this assms(2)]
  show "\<exists>st'. startHoldemHand sha256 now fs st = Inr st'" by blast
next
  assume "\<exists>st'. startHoldemHand sha256 now fs st = Inr st'"
  then obtain st' where "startHoldemHand sha256 now fs st = Inr st'" ..
  from startHoldemHand_guards [OF this] assms(3) show "canStartHoldemTable st"
    by (simp add: canStartHoldemTable_def)
qed

theorem canStart_iff_start_succeeds_witness:
  "\<not> (\<exists>st'. startHoldemHand (\<lambda>_. []) 0
       \<lparr>fs_seed = ''s'', fs_epoch = 1, fs_epochSeconds = 60, fs_commitHash = ''c''\<rparr>
       (sampleTable [sampleSeat 0 5000, sampleSeat 1 0]) = Inr st')"
proof -
  let ?st = "sampleTable [sampleSeat 0 5000, sampleSeat 1 0]"
  have "settledTable ?st" by (simp add: settledTable_def sample_defs)
  moreover have "listEligibleSeats ?st = [sampleSeat 0 5000]"
    by (simp add: listEligibleSeats_def sortSeatsByIndex_def isSeatEligibleForHand_def sample_defs)
  then have "\<not> canStartHoldemTable ?st"
    by (simp add: canStartHoldemTable_def resolveMinimumRequiredPlayers_def HOLDEM_MIN_PLAYERS_def)
      (simp add: sample_defs)
  moreover have "length (seats ?st) \<le> 23" "tableType ?st = Cash" by (simp_all add: sample_defs)
  ultimately show ?thesis using canStart_iff_start_succeeds [of ?st] by simp
qed

end
