(* ===== verification/Money.thy ===== *)
theory Money
  imports Complex_Main Prelude
begin

text \<open>
  Moving money between a player's wallet and the prize pool,
  \<open>shared/transactional-game-runner.ts\<close> and \<open>house/service.ts\<close>.  The database keeps
  amounts in cents; a \<open>Decimal\<close> in flight is a rational number of cents, and
  \<open>toMoneyString\<close> is where it is rounded.  A bank is the row of one wallet, the row of the
  house account, and the ledger lines written so far, newest last; the time stamps and the
  free-form metadata of the lines are left out.
\<close>

text \<open>\<open>toFixed(2)\<close> of \<open>decimal.js\<close>: to the nearest cent, half a cent away from zero.\<close>

definition toCents :: "rat \<Rightarrow> cents" where
  "toCents a = (if 0 \<le> a then \<lfloor>a + 1 / 2\<rfloor> else - \<lfloor>- a + 1 / 2\<rfloor>)"

record ledger_line =
  ll_entryType :: string
  ll_amount :: cents
  ll_balanceBefore :: cents
  ll_balanceAfter :: cents
  ll_referenceId :: "nat option"

record bank =
  withdrawableBalance :: cents
  wageredAmount :: cents
  prizePoolBalance :: cents
  walletLedger :: "ledger_line list"
  houseLedger :: "ledger_line list"

definition assertTransactionalGamePoolCoverage ::
  "cents \<Rightarrow> cents \<Rightarrow> rat \<Rightarrow> rat \<Rightarrow> rat res" where
  "assertTransactionalGamePoolCoverage poolBalance minimumReserve additionalStake maximumPayout =
     (let availablePoolAfterStake = of_int poolBalance + additionalStake - of_int minimumReserve
      in if availablePoolAfterStake < maximumPayout
         then Inl (Conflict ''Prize pool reserve is too low for this stake.'')
         else Inr availablePoolAfterStake)"

definition applyPrizePoolDelta :: "rat \<Rightarrow> string \<Rightarrow> nat option \<Rightarrow> bank \<Rightarrow> bank" where
  "applyPrizePoolDelta change entryType ref bk =
     (let before = prizePoolBalance bk; after = of_int before + change
      in bk\<lparr>prizePoolBalance := toCents after,
            houseLedger := houseLedger bk @
              [\<lparr>ll_entryType = entryType, ll_amount = toCents change, ll_balanceBefore = before,
                ll_balanceAfter = toCents after, ll_referenceId = ref\<rparr>]\<rparr>)"

definition setPrizePoolBalance :: "rat \<Rightarrow> string \<Rightarrow> nat option \<Rightarrow> bank \<Rightarrow> bank" where
  "setPrizePoolBalance next entryType ref bk =
     (let delta = next - of_int (prizePoolBalance bk)
      in if delta = 0 then bk else applyPrizePoolDelta delta entryType ref bk)"

text \<open>The wallet and wagered amounts the caller loaded come as arguments, as in the source.\<close>

definition applyTransactionalGameStakeDebit ::
  "rat \<Rightarrow> rat \<Rightarrow> rat \<Rightarrow> string \<Rightarrow> nat option \<Rightarrow> bank \<Rightarrow> (bank \<times> rat \<times> rat) res" where
  "applyTransactionalGameStakeDebit walletBefore wageredBefore stakeAmount entryType ref bk =
     (let walletAfter = walletBefore - stakeAmount;
          wageredAfter = wageredBefore + stakeAmount
      in if walletAfter < 0 then Inl (Conflict ''Insufficient balance.'')
         else Inr (applyPrizePoolDelta stakeAmount entryType ref
                     (bk\<lparr>withdrawableBalance := toCents walletAfter,
                         wageredAmount := toCents wageredAfter,
                         walletLedger := walletLedger bk @
                           [\<lparr>ll_entryType = entryType, ll_amount = toCents (- stakeAmount),
                             ll_balanceBefore = toCents walletBefore,
                             ll_balanceAfter = toCents walletAfter, ll_referenceId = ref\<rparr>]\<rparr>),
                   walletAfter, wageredAfter))"

definition applyTransactionalGamePayoutCredit ::
  "rat \<Rightarrow> rat \<Rightarrow> string \<Rightarrow> nat option \<Rightarrow> bank \<Rightarrow> bank \<times> rat" where
  "applyTransactionalGamePayoutCredit walletBefore payoutAmount entryType ref bk =
     (if payoutAmount \<le> 0 then (bk, walletBefore)
      else
        let walletAfter = walletBefore + payoutAmount
        in (applyPrizePoolDelta (- payoutAmount) entryType ref
              (bk\<lparr>withdrawableBalance := toCents walletAfter,
                  walletLedger := walletLedger bk @
                    [\<lparr>ll_entryType = entryType, ll_amount = toCents payoutAmount,
                      ll_balanceBefore = toCents walletBefore,
                      ll_balanceAfter = toCents walletAfter, ll_referenceId = ref\<rparr>]\<rparr>),
            walletAfter))"

subsection \<open>Rounding\<close>

lemma toCents_of_int [simp]: "toCents (of_int n) = n"
proof (cases "0 \<le> n")
  case True
  have "\<lfloor>of_int n + 1 / 2 :: rat\<rfloor> = n" by (simp add: floor_unique)
  with True show ?thesis by (simp add: toCents_def)
next
  case False
  have "\<lfloor>- of_int n + 1 / 2 :: rat\<rfloor> = - n" by (simp add: floor_unique)
  with False show ?thesis by (simp add: toCents_def)
qed

lemma toCents_ints [simp]:
  "toCents (of_int m + of_int n) = m + n" "toCents (of_int m - of_int n) = m - n"
  "toCents (- of_int n) = - n"
  using toCents_of_int [of "m + n"] toCents_of_int [of "m - n"] toCents_of_int [of "- n"]
  by simp_all

subsection \<open>The ledgers\<close>

text \<open>
  A ledger explains a balance: the lines join up, each line's amount is the change it
  records, and the last line ends at the balance.
\<close>

fun ledgerFrom :: "cents \<Rightarrow> ledger_line list \<Rightarrow> cents \<Rightarrow> bool" where
  "ledgerFrom start [] end = (start = end)"
| "ledgerFrom start (l # ls) end =
     (ll_balanceBefore l = start \<and> ll_amount l = ll_balanceAfter l - ll_balanceBefore l \<and>
      ledgerFrom (ll_balanceAfter l) ls end)"

definition bankOk :: "cents \<Rightarrow> cents \<Rightarrow> bank \<Rightarrow> bool" where
  "bankOk wallet0 pool0 bk =
     (ledgerFrom wallet0 (walletLedger bk) (withdrawableBalance bk) \<and>
      ledgerFrom pool0 (houseLedger bk) (prizePoolBalance bk))"

definition bankMoney :: "bank \<Rightarrow> cents" where
  "bankMoney bk = withdrawableBalance bk + prizePoolBalance bk"

lemma ledgerFrom_append:
  "ledgerFrom a ls b \<Longrightarrow> ll_balanceBefore l = b \<Longrightarrow> ll_amount l = ll_balanceAfter l - b \<Longrightarrow>
     ledgerFrom a (ls @ [l]) (ll_balanceAfter l)"
  by (induction a ls b rule: ledgerFrom.induct) auto

lemma ledgerFrom_sum: "ledgerFrom a ls b \<Longrightarrow> (\<Sum>l\<leftarrow>ls. ll_amount l) = b - a"
  by (induction a ls b rule: ledgerFrom.induct) auto

lemma applyPrizePoolDelta_int:
  assumes "bankOk w p bk"
  shows "bankOk w p (applyPrizePoolDelta (of_int c) e r bk)"
    "prizePoolBalance (applyPrizePoolDelta (of_int c) e r bk) = prizePoolBalance bk + c"
    "withdrawableBalance (applyPrizePoolDelta ch e r bk) = withdrawableBalance bk"
    "wageredAmount (applyPrizePoolDelta ch e r bk) = wageredAmount bk"
  using assms
  by (auto simp: applyPrizePoolDelta_def Let_def bankOk_def
      intro: ledgerFrom_append [where l = "\<lparr>ll_entryType = e, ll_amount = c,
        ll_balanceBefore = prizePoolBalance bk, ll_balanceAfter = prizePoolBalance bk + c,
        ll_referenceId = r\<rparr>", simplified])

text \<open>A stake and a payout of whole cents move money and keep both ledgers joined up.\<close>

lemma stakeDebit_ok:
  assumes bank: "bankOk w p bk" and wallet: "wb = of_int (withdrawableBalance bk)"
    and wag: "gb = of_int (wageredAmount bk)"
    and run: "applyTransactionalGameStakeDebit wb gb (of_int c) e r bk = Inr (bk', wa, ga)"
  shows "bankOk w p bk' \<and> bankMoney bk' = bankMoney bk \<and> c \<le> withdrawableBalance bk \<and>
    withdrawableBalance bk' = withdrawableBalance bk - c \<and> wa = of_int (withdrawableBalance bk') \<and>
    wageredAmount bk' = wageredAmount bk + c \<and> ga = of_int (wageredAmount bk') \<and>
    prizePoolBalance bk' = prizePoolBalance bk + c"
proof -
  let ?l = "\<lparr>ll_entryType = e, ll_amount = - c, ll_balanceBefore = withdrawableBalance bk,
    ll_balanceAfter = withdrawableBalance bk - c, ll_referenceId = r\<rparr>"
  let ?bk = "bk\<lparr>withdrawableBalance := withdrawableBalance bk - c, wageredAmount := wageredAmount bk + c,
    walletLedger := walletLedger bk @ [?l]\<rparr>"
  have nonneg: "c \<le> withdrawableBalance bk" and wa: "wa = of_int (withdrawableBalance bk - c)"
    and ga: "ga = of_int (wageredAmount bk + c)" and bk': "bk' = applyPrizePoolDelta (of_int c) e r ?bk"
    using run wallet wag
    by (auto simp: applyTransactionalGameStakeDebit_def Let_def split: if_splits)
  have ok: "bankOk w p ?bk"
    using bank ledgerFrom_append [of w "walletLedger bk" "withdrawableBalance bk" ?l]
    by (simp add: bankOk_def)
  from applyPrizePoolDelta_int(1,2) [OF this, of c e r] applyPrizePoolDelta_int(3,4) [OF this] nonneg wa ga
  show ?thesis by (simp add: bk' bankMoney_def)
qed

lemma payoutCredit_ok:
  assumes bank: "bankOk w p bk" and wallet: "wb = of_int (withdrawableBalance bk)" and pos: "0 \<le> c"
    and run: "applyTransactionalGamePayoutCredit wb (of_int c) e r bk = (bk', wa)"
  shows "bankOk w p bk' \<and> bankMoney bk' = bankMoney bk \<and>
    withdrawableBalance bk' = withdrawableBalance bk + c \<and> wa = of_int (withdrawableBalance bk') \<and>
    prizePoolBalance bk' = prizePoolBalance bk - c \<and> wageredAmount bk' = wageredAmount bk"
proof (cases "c = 0")
  case True
  with run bank wallet show ?thesis by (auto simp: applyTransactionalGamePayoutCredit_def)
next
  case False
  let ?l = "\<lparr>ll_entryType = e, ll_amount = c, ll_balanceBefore = withdrawableBalance bk,
    ll_balanceAfter = withdrawableBalance bk + c, ll_referenceId = r\<rparr>"
  let ?bk = "bk\<lparr>withdrawableBalance := withdrawableBalance bk + c, walletLedger := walletLedger bk @ [?l]\<rparr>"
  have wa: "wa = of_int (withdrawableBalance bk + c)"
    and bk': "bk' = applyPrizePoolDelta (of_int (- c)) e r ?bk"
    using run wallet False pos
    by (auto simp: applyTransactionalGamePayoutCredit_def Let_def split: if_splits)
  have ok: "bankOk w p ?bk"
    using bank ledgerFrom_append [of w "walletLedger bk" "withdrawableBalance bk" ?l]
    by (simp add: bankOk_def)
  from applyPrizePoolDelta_int(1,2) [OF this, of "- c" e r] applyPrizePoolDelta_int(3,4) [OF this] wa
  show ?thesis unfolding bk' by (simp add: bankMoney_def)
qed


subsection \<open>Sequences of stakes and payouts\<close>

datatype money_move = Stake cents | Payout cents

text \<open>One transaction: the wallet row is loaded and locked, then the money moves.\<close>

fun runMove :: "money_move \<Rightarrow> bank \<Rightarrow> bank res" where
  "runMove (Stake c) bk =
     (case applyTransactionalGameStakeDebit (of_int (withdrawableBalance bk))
             (of_int (wageredAmount bk)) (of_int c) ''stake'' None bk of
        Inl e \<Rightarrow> Inl e | Inr (bk', _) \<Rightarrow> Inr bk')"
| "runMove (Payout c) bk =
     Inr (fst (applyTransactionalGamePayoutCredit (of_int (withdrawableBalance bk)) (of_int c)
                 ''payout'' None bk))"

fun runMoves :: "money_move list \<Rightarrow> bank \<Rightarrow> bank res" where
  "runMoves [] bk = Inr bk"
| "runMoves (m # ms) bk = bind_res (runMove m bk) (runMoves ms)"

lemma runMove_ok:
  assumes "runMove m bk = Inr bk'" and "bankOk w p bk" and "0 \<le> withdrawableBalance bk"
    and "case m of Payout c \<Rightarrow> 0 \<le> c | Stake c \<Rightarrow> True"
  shows "bankOk w p bk' \<and> bankMoney bk' = bankMoney bk \<and> 0 \<le> withdrawableBalance bk'"
proof (cases m)
  case (Stake c)
  with assms(1) obtain wa ga where "applyTransactionalGameStakeDebit (of_int (withdrawableBalance bk))
      (of_int (wageredAmount bk)) (of_int c) ''stake'' None bk = Inr (bk', wa, ga)"
    by (auto split: sum.splits)
  from stakeDebit_ok [OF assms(2) refl refl this] show ?thesis by simp
next
  case (Payout c)
  let ?run = "applyTransactionalGamePayoutCredit (of_int (withdrawableBalance bk)) (of_int c)
      ''payout'' None bk"
  have run: "?run = (bk', snd ?run)" using assms(1) Payout by (simp add: prod_eq_iff)
  have "0 \<le> c" using assms(4) Payout by simp
  from payoutCredit_ok [OF assms(2) refl this run] assms(3) \<open>0 \<le> c\<close> show ?thesis by simp
qed

lemma runMove_cents:
  "runMove (Stake c) bk =
     (let w = withdrawableBalance bk; p = prizePoolBalance bk; g = wageredAmount bk
      in if w < c then Inl (Conflict ''Insufficient balance.'')
         else Inr (bk\<lparr>withdrawableBalance := w - c, wageredAmount := g + c, prizePoolBalance := p + c,
           walletLedger := walletLedger bk @
             [\<lparr>ll_entryType = ''stake'', ll_amount = - c, ll_balanceBefore = w,
               ll_balanceAfter = w - c, ll_referenceId = None\<rparr>],
           houseLedger := houseLedger bk @
             [\<lparr>ll_entryType = ''stake'', ll_amount = c, ll_balanceBefore = p,
               ll_balanceAfter = p + c, ll_referenceId = None\<rparr>]\<rparr>))"
proof -
  have "(of_int (withdrawableBalance bk) - of_int c < (0 :: rat)) = (withdrawableBalance bk < c)"
    by linarith
  then show ?thesis
    by (simp add: applyTransactionalGameStakeDebit_def applyPrizePoolDelta_def Let_def)
qed

text \<open>
  Stakes and payouts of whole cents only move money: whatever sequence of them goes
  through, wallet and prize pool keep their sum, the wallet is never overdrawn, and each
  ledger adds up to the change of the balance it explains.
\<close>

theorem moves_conserve_money:
  assumes "runMoves ms bk = Inr bk'" and "0 \<le> withdrawableBalance bk"
    and "walletLedger bk = []" and "houseLedger bk = []"
    and "\<forall>m \<in> set ms. case m of Payout c \<Rightarrow> 0 \<le> c | Stake c \<Rightarrow> True"
  shows "bankMoney bk' = bankMoney bk \<and> 0 \<le> withdrawableBalance bk' \<and>
    ledgerFrom (withdrawableBalance bk) (walletLedger bk') (withdrawableBalance bk') \<and>
    (\<Sum>l\<leftarrow>walletLedger bk'. ll_amount l) = withdrawableBalance bk' - withdrawableBalance bk \<and>
    (\<Sum>l\<leftarrow>houseLedger bk'. ll_amount l) = prizePoolBalance bk' - prizePoolBalance bk"
proof -
  have run: "bankOk w p bk \<Longrightarrow> runMoves ms bk = Inr bk' \<Longrightarrow> 0 \<le> withdrawableBalance bk \<Longrightarrow>
      \<forall>m \<in> set ms. case m of Payout c \<Rightarrow> 0 \<le> c | Stake c \<Rightarrow> True \<Longrightarrow>
      bankOk w p bk' \<and> bankMoney bk' = bankMoney bk \<and> 0 \<le> withdrawableBalance bk'" for w p ms bk bk'
  proof (induction ms arbitrary: bk)
    case (Cons m ms)
    from Cons.prems(2) obtain bk1 where one: "runMove m bk = Inr bk1" and rest: "runMoves ms bk1 = Inr bk'"
      by (auto simp: bind_res_Inr_iff)
    have step: "bankOk w p bk1 \<and> bankMoney bk1 = bankMoney bk \<and> 0 \<le> withdrawableBalance bk1"
      by (rule runMove_ok [OF one Cons.prems(1,3)]) (use Cons.prems(4) in simp)
    from Cons.IH [OF _ rest] step Cons.prems(4) show ?case by simp
  qed simp
  have "bankOk (withdrawableBalance bk) (prizePoolBalance bk) bk"
    using assms(3,4) by (simp add: bankOk_def)
  from run [OF this assms(1,2,5)] show ?thesis
    using ledgerFrom_sum by (auto simp: bankOk_def)
qed

definition sampleBank :: bank where
  "sampleBank = \<lparr>withdrawableBalance = 5000, wageredAmount = 0, prizePoolBalance = 100000,
     walletLedger = [], houseLedger = []\<rparr>"

theorem moves_conserve_money_witness:
  "\<exists>bk'. runMoves [Stake 300, Stake 700, Payout 500] sampleBank = Inr bk' \<and> bankMoney bk' = 105000"
proof -
  have "\<exists>bk'. runMoves [Stake 300, Stake 700, Payout 500] sampleBank = Inr bk'"
    by (simp add: runMove_cents Let_def sampleBank_def del: runMove.simps(1))
  then obtain bk' where bk': "runMoves [Stake 300, Stake 700, Payout 500] sampleBank = Inr bk'" ..
  from moves_conserve_money [OF this] show ?thesis
    using bk' by (simp add: sampleBank_def bankMoney_def)
qed

text \<open>
  A payout that ends in half a cent is rounded up in the wallet and, because the pool
  that is left is rounded up too, down in the pool: one cent comes from nowhere.
\<close>

theorem half_cent_payout_mints_a_cent:
  assumes "0 \<le> c" and "0 \<le> withdrawableBalance bk" and "c < prizePoolBalance bk"
    and "applyTransactionalGamePayoutCredit (of_int (withdrawableBalance bk)) (of_int c + 1 / 2) e r bk = (bk', wa)"
  shows "bankMoney bk' = bankMoney bk + 1"
proof -
  let ?w = "withdrawableBalance bk" and ?p = "prizePoolBalance bk"
  have "toCents (of_int ?w + (of_int c + 1 / 2)) = ?w + c + 1"
  proof -
    have "of_int ?w + (of_int c + 1 / 2) + 1 / 2 = (of_int (?w + c + 1) :: rat)" by simp
    then have "\<lfloor>of_int ?w + (of_int c + 1 / 2) + 1 / 2 :: rat\<rfloor> = ?w + c + 1"
      by (simp only: floor_of_int)
    moreover have "0 \<le> of_int ?w + (of_int c + 1 / 2 :: rat)" using assms(1,2) by simp
    ultimately show ?thesis by (simp add: toCents_def)
  qed
  moreover have "toCents (of_int ?p + - (of_int c + 1 / 2)) = ?p - c"
  proof -
    have "of_int ?p + - (of_int c + 1 / 2) + 1 / 2 = (of_int (?p - c) :: rat)" by simp
    then have "\<lfloor>of_int ?p + - (of_int c + 1 / 2) + 1 / 2 :: rat\<rfloor> = ?p - c"
      by (simp only: floor_of_int)
    moreover have "0 \<le> of_int ?p + - (of_int c + 1 / 2 :: rat)"
    proof -
      have "of_int (c + 1) \<le> (of_int ?p :: rat)" using assms(3) by (simp only: of_int_le_iff)
      then show ?thesis by simp
    qed
    ultimately show ?thesis by (simp add: toCents_def)
  qed
  moreover have "\<not> of_int c + 1 / 2 \<le> (0 :: rat)"
  proof -
    have "(0 :: rat) \<le> of_int c" using assms(1) by simp
    then show ?thesis by linarith
  qed
  ultimately show ?thesis
    using assms(4)
    by (auto simp: applyTransactionalGamePayoutCredit_def Let_def applyPrizePoolDelta_def bankMoney_def)
qed

text \<open>A natural on a stake of 1.01 pays 2.525.\<close>

theorem half_cent_payout_mints_a_cent_witness:
  "bankMoney (fst (applyTransactionalGamePayoutCredit 5000 (505 / 2) ''blackjack_payout'' None sampleBank))
     = bankMoney sampleBank + 1"
proof -
  let ?run = "applyTransactionalGamePayoutCredit 5000 (505 / 2) ''blackjack_payout'' None sampleBank"
  have "?run = (fst ?run, snd ?run)" by simp
  then show ?thesis
    using half_cent_payout_mints_a_cent
      [of 252 sampleBank "''blackjack_payout''" None "fst ?run" "snd ?run"]
    by (simp add: sampleBank_def)
qed

end
