(* ===== verification/Blackjack_Game.thy ===== *)
theory Blackjack_Game
  imports Money Fair_Random
begin

text \<open>
  The blackjack game, \<open>modules/blackjack/game.ts\<close> and \<open>blackjack-state.ts\<close>: the score
  of a hand, the provably fair deck, the state of a game, and the operations that advance
  and settle it.  Cards are the cards of the poker games (the same ranks and suits).  The
  state leaves out the fairness record, the play mode, the dealer feed and the action
  history, which these operations only carry along; the settlement reads the clock as an
  argument.
\<close>

subsection \<open>Scoring\<close>

fun rankValue :: "card_rank \<Rightarrow> nat" where
  "rankValue R2 = 2" | "rankValue R3 = 3" | "rankValue R4 = 4" | "rankValue R5 = 5"
| "rankValue R6 = 6" | "rankValue R7 = 7" | "rankValue R8 = 8" | "rankValue R9 = 9"
| "rankValue R10 = 10" | "rankValue RJ = 10" | "rankValue RQ = 10" | "rankValue RK = 10"
| "rankValue RA = 11"

definition isTenValueRank :: "card_rank \<Rightarrow> bool" where
  "isTenValueRank r = (rankValue r = 10)"

record score =
  sc_total :: nat
  sc_soft :: bool
  sc_blackjack :: bool
  sc_bust :: bool

text \<open>The loop that counts an ace as one instead of eleven while the total is over 21.\<close>

fun softenAces :: "nat \<Rightarrow> nat \<Rightarrow> nat \<times> nat" where
  "softenAces t 0 = (t, 0)"
| "softenAces t (Suc a) = (if t > 21 then softenAces (t - 10) a else (t, Suc a))"

definition scoreBlackjackCards :: "card list \<Rightarrow> score" where
  "scoreBlackjackCards cards =
     (let hard = sum_list (map (\<lambda>c. rankValue (rank c)) cards);
          aces = length (filter (\<lambda>c. rank c = RA) cards);
          (t, softAces) = softenAces hard aces
      in \<lparr>sc_total = t, sc_soft = (softAces > 0),
          sc_blackjack = (length cards = 2 \<and> t = 21), sc_bust = (t > 21)\<rparr>)"

subsection \<open>The deck\<close>

definition createStandardDeck :: "card list" where
  "createStandardDeck =
     concat (map (\<lambda>s. map (\<lambda>r. \<lparr>rank = r, suit = s\<rparr>)
         [RA, R2, R3, R4, R5, R6, R7, R8, R9, R10, RJ, RQ, RK])
       [Spades, Hearts, Diamonds, Clubs])"

text \<open>\<open>drawLoop n step available deck digests\<close>: \<open>n\<close> more draws, the next one being number \<open>step\<close>.\<close>

fun drawLoop ::
  "hash_function \<Rightarrow> string \<Rightarrow> nat \<Rightarrow> nat \<Rightarrow> card list \<Rightarrow> card list \<Rightarrow> string list
     \<Rightarrow> (card list \<times> string list) res"
where
  "drawLoop sha256 key 0 step available drawn digests = Inr (drawn, digests)"
| "drawLoop sha256 key (Suc n) step available drawn digests =
     (let digest = sha256 (key @ '':'' @ show_digits step);
          nextIndex = readUInt32BE digest mod length available
      in if nextIndex < length available then
           drawLoop sha256 key n (step + 1)
             (take nextIndex available @ drop (nextIndex + 1) available)
             (drawn @ [available ! nextIndex]) (digests @ [toHex digest])
         else Inl (InternalInvariant ''Failed to shuffle blackjack deck.''))"

record drawn_deck =
  dd_deck :: "card list"
  dd_rngDigest :: string
  dd_deckDigest :: string

definition drawBlackjackDeck :: "hash_function \<Rightarrow> string \<Rightarrow> nat \<Rightarrow> string \<Rightarrow> drawn_deck res" where
  "drawBlackjackDeck sha256 seed uid clientNonce =
     (case drawLoop sha256 (joinWith '':'' [seed, show_digits uid, clientNonce]) 52 0
             createStandardDeck [] [] of
        Inl e \<Rightarrow> Inl e
      | Inr (cards, digests) \<Rightarrow>
          Inr \<lparr>dd_deck = cards, dd_rngDigest = toHex (sha256 (joinWith '':'' digests)),
               dd_deckDigest = toHex (sha256 (joinWith '':'' (map showCard cards)))\<rparr>)"

subsection \<open>The state of a game\<close>

datatype hand_progress = HandActive | HandWaiting | HandStood | HandBust

datatype bj_status =
  BjActive | PlayerBlackjack | DealerBlackjack | PlayerBust | DealerBust | PlayerWin | DealerWin | BjPush

datatype bj_action = Hit | Stand | Double | Split

record bj_hand =
  bh_cards :: "card list"
  bh_stakeAmount :: cents
  bh_state :: hand_progress
  bh_splitFromAces :: bool

text \<open>Payout multipliers are decimals of any precision.\<close>

record bj_config =
  minStake :: cents
  maxStake :: cents
  winPayoutMultiplier :: rat
  pushPayoutMultiplier :: rat
  naturalPayoutMultiplier :: rat
  dealerHitsSoft17 :: bool
  doubleDownAllowed :: bool
  splitAcesAllowed :: bool
  hitSplitAcesAllowed :: bool
  resplitAllowed :: bool
  maxSplitHands :: nat
  splitTenValueCardsAllowed :: bool

definition BLACKJACK_CONFIG :: bj_config where
  "BLACKJACK_CONFIG =
     \<lparr>minStake = 100, maxStake = 10000, winPayoutMultiplier = 2, pushPayoutMultiplier = 1,
      naturalPayoutMultiplier = 5 / 2, dealerHitsSoft17 = False, doubleDownAllowed = True,
      splitAcesAllowed = True, hitSplitAcesAllowed = True, resplitAllowed = False,
      maxSplitHands = 4, splitTenValueCardsAllowed = False\<rparr>"

datatype seat_role = DealerRole | PlayerRole

record bj_seat =
  bs_seatIndex :: nat
  bs_role :: seat_role
  bs_participantId :: string
  bs_isSelf :: bool
  bs_turnDeadlineAt :: "int option"

record bj_table =
  bt_tableId :: string
  bt_currentTurnSeatIndex :: "nat option"
  bt_turnTimeoutAction :: "bj_action option"
  bt_seats :: "bj_seat list"

record linked_group =
  lg_groupId :: string
  lg_primaryGameId :: "nat option"
  lg_gameIds :: "nat list"
  lg_executionIndex :: nat
  lg_executionCount :: nat

record bj_game =
  bg_id :: nat
  bg_userId :: nat
  bg_stakeAmount :: cents
  bg_totalStake :: cents
  bg_payoutAmount :: cents
  bg_playerCards :: "card list"
  bg_dealerCards :: "card list"
  bg_deck :: "card list"
  bg_nextCardIndex :: nat
  bg_status :: bj_status
  bg_turnDeadlineAt :: "int option"
  bg_settledAt :: "int option"
  bg_config :: bj_config
  bg_table :: bj_table
  bg_playerHands :: "bj_hand list"
  bg_activeHandIndex :: "nat option"
  bg_linkedGroup :: "linked_group option"

definition BLACKJACK_AI_DEALER_ID :: string where
  "BLACKJACK_AI_DEALER_ID = ''ai-dealer:default''"

text \<open>A new table; its id is the caller's or made from the epoch, the user and the nonce.\<close>

definition buildBlackjackTable :: "nat \<Rightarrow> nat \<Rightarrow> string \<Rightarrow> string option \<Rightarrow> bj_table" where
  "buildBlackjackTable uid epochNo clientNonce tid =
     \<lparr>bt_tableId =
        (case tid of
           Some t \<Rightarrow> t
         | None \<Rightarrow> ''bj-'' @ show_digits epochNo @ ''-'' @ show_digits uid @ ''-'' @
             (if take 12 clientNonce = [] then ''auto'' else take 12 clientNonce)),
      bt_currentTurnSeatIndex = Some 1, bt_turnTimeoutAction = Some Stand,
      bt_seats =
        [\<lparr>bs_seatIndex = 0, bs_role = DealerRole, bs_participantId = BLACKJACK_AI_DEALER_ID,
          bs_isSelf = False, bs_turnDeadlineAt = None\<rparr>,
         \<lparr>bs_seatIndex = 1, bs_role = PlayerRole,
          bs_participantId = ''user:'' @ show_digits uid, bs_isSelf = True, bs_turnDeadlineAt = None\<rparr>]\<rparr>"

definition getPrimaryPlayerHand :: "bj_game \<Rightarrow> bj_hand option" where
  "getPrimaryPlayerHand g = (case bg_playerHands g of [] \<Rightarrow> None | h # _ \<Rightarrow> Some h)"

definition getActivePlayerHand :: "bj_game \<Rightarrow> bj_hand option" where
  "getActivePlayerHand g =
     (case bg_activeHandIndex g of
        None \<Rightarrow> None
      | Some i \<Rightarrow> if i < length (bg_playerHands g) then Some (bg_playerHands g ! i) else None)"

definition hasPendingPlayerTurn :: "bj_game \<Rightarrow> bool" where
  "hasPendingPlayerTurn g =
     (if bg_status g \<noteq> BjActive then False
      else case getActivePlayerHand g of
        None \<Rightarrow> False
      | Some h \<Rightarrow>
          if bh_state h \<noteq> HandActive then False
          else let s = scoreBlackjackCards (bh_cards h) in \<not> sc_bust s \<and> sc_total s < 21)"

definition syncBlackjackTableTurnState :: "bj_game \<Rightarrow> bj_game" where
  "syncBlackjackTableTurnState g =
     (let turn = (if hasPendingPlayerTurn g then Some 1 else None);
          deadline = (if turn = Some 1 then bg_turnDeadlineAt g else None);
          t = bg_table g
      in g\<lparr>bg_table := t\<lparr>bt_currentTurnSeatIndex := turn,
             bt_turnTimeoutAction := (if turn = Some 1 then bt_turnTimeoutAction t else None),
             bt_seats := map (\<lambda>s. s\<lparr>bs_turnDeadlineAt :=
               (if turn = Some (bs_seatIndex s) then deadline else None)\<rparr>) (bt_seats t)\<rparr>\<rparr>)"

definition syncLegacyPlayerCards :: "bj_game \<Rightarrow> bj_game" where
  "syncLegacyPlayerCards g =
     (case (case getActivePlayerHand g of Some h \<Rightarrow> Some h | None \<Rightarrow> getPrimaryPlayerHand g) of
        None \<Rightarrow> g
      | Some h \<Rightarrow> g\<lparr>bg_playerCards := bh_cards h\<rparr>)"

text \<open>
  Loading a row: rows written before hands were stored have none, and get the one hand of
  their card column; the active hand of an active game is brought into range.
\<close>

definition resolveLegacyHandState :: "bj_status \<Rightarrow> hand_progress" where
  "resolveLegacyHandState status =
     (if status = BjActive then HandActive else if status = PlayerBust then HandBust else HandStood)"

definition toGameState :: "bj_game \<Rightarrow> bj_game" where
  "toGameState row =
     (let hands = (if bg_playerHands row \<noteq> [] then bg_playerHands row
                   else [\<lparr>bh_cards = bg_playerCards row, bh_stakeAmount = bg_stakeAmount row,
                          bh_state = resolveLegacyHandState (bg_status row), bh_splitFromAces = False\<rparr>]);
          active = (if bg_status row = BjActive
                    then Some (min (case bg_activeHandIndex row of None \<Rightarrow> 0 | Some i \<Rightarrow> i) (length hands - 1))
                    else None)
      in syncBlackjackTableTurnState
           (syncLegacyPlayerCards (row\<lparr>bg_playerHands := hands, bg_activeHandIndex := active\<rparr>)))"

definition summarizePlayerTotals :: "bj_game \<Rightarrow> nat list \<times> nat" where
  "summarizePlayerTotals g =
     (let totals = map (\<lambda>h. sc_total (scoreBlackjackCards (bh_cards h))) (bg_playerHands g);
          nonBust = filter (\<lambda>t. t \<le> 21) totals
      in (totals,
          if nonBust \<noteq> [] then foldr max nonBust 0
          else case totals of [] \<Rightarrow> sc_total (scoreBlackjackCards (bg_playerCards g)) | t # _ \<Rightarrow> t))"

subsection \<open>What a player may do\<close>

definition canSplitCards :: "card list \<Rightarrow> bj_config \<Rightarrow> bool" where
  "canSplitCards cards cfg =
     (case cards of
        [a, b] \<Rightarrow>
          if rank a = rank b then rank a \<noteq> RA \<or> splitAcesAllowed cfg
          else splitTenValueCardsAllowed cfg \<and> isTenValueRank (rank a) \<and> isTenValueRank (rank b)
      | _ \<Rightarrow> False)"

definition isRestrictedSplitAceHand :: "bj_hand \<Rightarrow> bj_config \<Rightarrow> bool" where
  "isRestrictedSplitAceHand h cfg = (bh_splitFromAces h \<and> \<not> hitSplitAcesAllowed cfg)"

definition canSplitHand :: "bj_game \<Rightarrow> bj_hand \<Rightarrow> rat \<Rightarrow> bool" where
  "canSplitHand g h walletBalance =
     (let s = scoreBlackjackCards (bh_cards h); cfg = bg_config g in
      if sc_blackjack s \<or> sc_bust s then False
      else if \<not> canSplitCards (bh_cards h) cfg then False
      else if walletBalance < of_int (bh_stakeAmount h) then False
      else if length (bg_playerHands g) \<ge> maxSplitHands cfg then False
      else if length (bg_playerHands g) > 1 \<and> \<not> resplitAllowed cfg then False
      else True)"

definition getAvailableActions :: "bj_game \<Rightarrow> rat \<Rightarrow> bj_action list" where
  "getAvailableActions g walletBalance =
     (if bg_status g \<noteq> BjActive then []
      else case getActivePlayerHand g of
        None \<Rightarrow> []
      | Some h \<Rightarrow>
          if bh_state h \<noteq> HandActive then []
          else
            let s = scoreBlackjackCards (bh_cards h); cfg = bg_config g in
            if sc_bust s \<or> sc_total s \<ge> 21 then []
            else
              let restricted = isRestrictedSplitAceHand h cfg;
                  canDouble = (\<not> restricted \<and> doubleDownAllowed cfg \<and> length (bh_cards h) = 2 \<and>
                    \<not> sc_blackjack s \<and> \<not> sc_bust s \<and> walletBalance \<ge> of_int (bh_stakeAmount h))
              in (if restricted then [Stand] else [Hit, Stand]) @
                 (if canDouble then [Double] else []) @
                 (if canSplitHand g h walletBalance then [Split] else []))"

subsection \<open>Advancing a game\<close>

definition bj_takeNextCard :: "bj_game \<Rightarrow> (card \<times> bj_game) res" where
  "bj_takeNextCard g =
     (if bg_nextCardIndex g < length (bg_deck g)
      then Inr (bg_deck g ! bg_nextCardIndex g, g\<lparr>bg_nextCardIndex := bg_nextCardIndex g + 1\<rparr>)
      else Inl (InternalInvariant ''Blackjack deck exhausted.''))"

definition resolveInitialOutcome :: "bj_game \<Rightarrow> bj_status res" where
  "resolveInitialOutcome g =
     (case getPrimaryPlayerHand g of
        None \<Rightarrow> Inl (InternalInvariant ''Blackjack player hand is missing.'')
      | Some h \<Rightarrow>
          let p = scoreBlackjackCards (bh_cards h); d = scoreBlackjackCards (bg_dealerCards g) in
          if sc_blackjack p \<and> sc_blackjack d then Inr BjPush
          else if sc_blackjack p then Inr PlayerBlackjack
          else if sc_blackjack d then Inr DealerBlackjack
          else Inr BjActive)"

definition shouldDealerHit :: "card list \<Rightarrow> bj_config \<Rightarrow> bool" where
  "shouldDealerHit cards cfg =
     (let s = scoreBlackjackCards cards in
      if sc_total s < 17 then True
      else if sc_total s = 17 \<and> sc_soft s \<and> dealerHitsSoft17 cfg then True
      else False)"

definition updateHand :: "nat \<Rightarrow> (bj_hand \<Rightarrow> bj_hand) \<Rightarrow> bj_game \<Rightarrow> bj_game" where
  "updateHand i f g = g\<lparr>bg_playerHands := (bg_playerHands g)[i := f (bg_playerHands g ! i)]\<rparr>"

text \<open>The index of the first waiting hand from \<open>i\<close> on.\<close>

definition nextWaitingHand :: "bj_hand list \<Rightarrow> nat \<Rightarrow> nat option" where
  "nextWaitingHand hs i =
     map_option (\<lambda>k. i + k) (findIndex (\<lambda>h. bh_state h = HandWaiting) (drop i hs))"

text \<open>The result is the game and whether every hand is complete.\<close>

definition advancePlayerHand :: "bj_game \<Rightarrow> hand_progress \<Rightarrow> (bj_game \<times> bool) res" where
  "advancePlayerHand g nextState =
     (case bg_activeHandIndex g of
        None \<Rightarrow> Inl (InternalInvariant ''Blackjack active hand is missing.'')
      | Some i \<Rightarrow>
          if i \<ge> length (bg_playerHands g) then
            Inl (InternalInvariant ''Blackjack active hand is missing.'')
          else
            let g1 = updateHand i (\<lambda>h. h\<lparr>bh_state := nextState\<rparr>) g in
            case nextWaitingHand (bg_playerHands g1) (i + 1) of
              Some j \<Rightarrow>
                Inr (syncLegacyPlayerCards
                       ((updateHand j (\<lambda>h. h\<lparr>bh_state := HandActive\<rparr>) g1)\<lparr>bg_activeHandIndex := Some j\<rparr>),
                     False)
            | None \<Rightarrow> Inr (syncLegacyPlayerCards (g1\<lparr>bg_activeHandIndex := None\<rparr>), True))"

text \<open>How a hand that needs no decision ends; \<open>None\<close> when the player has to decide.\<close>

definition autoAdvance :: "bj_game \<Rightarrow> bj_hand \<Rightarrow> rat \<Rightarrow> hand_progress option" where
  "autoAdvance g h walletBalance =
     (let s = scoreBlackjackCards (bh_cards h) in
      if sc_bust s then Some HandBust
      else if sc_total s = 21 then Some HandStood
      else if isRestrictedSplitAceHand h (bg_config g) \<and> \<not> canSplitHand g h walletBalance
      then Some HandStood
      else None)"

lemma findIndex_bounds: "findIndex P xs = Some k \<Longrightarrow> k < length xs"
  by (auto dest: findIndex_SomeD)

lemma nextWaitingHand_bounds:
  "nextWaitingHand hs i = Some j \<Longrightarrow> i \<le> j \<and> j < length hs"
  by (auto simp: nextWaitingHand_def dest!: findIndex_bounds)

lemma syncLegacyPlayerCards_simps [simp]:
  "bg_activeHandIndex (syncLegacyPlayerCards g) = bg_activeHandIndex g"
  "bg_playerHands (syncLegacyPlayerCards g) = bg_playerHands g"
  "bg_dealerCards (syncLegacyPlayerCards g) = bg_dealerCards g"
  "bg_deck (syncLegacyPlayerCards g) = bg_deck g"
  "bg_nextCardIndex (syncLegacyPlayerCards g) = bg_nextCardIndex g"
  "bg_status (syncLegacyPlayerCards g) = bg_status g"
  "bg_config (syncLegacyPlayerCards g) = bg_config g"
  "bg_stakeAmount (syncLegacyPlayerCards g) = bg_stakeAmount g"
  "bg_totalStake (syncLegacyPlayerCards g) = bg_totalStake g"
  "bg_userId (syncLegacyPlayerCards g) = bg_userId g"
  "bg_id (syncLegacyPlayerCards g) = bg_id g"
  "bg_table (syncLegacyPlayerCards g) = bg_table g"
  "bg_turnDeadlineAt (syncLegacyPlayerCards g) = bg_turnDeadlineAt g"
  "bg_payoutAmount (syncLegacyPlayerCards g) = bg_payoutAmount g"
  "bg_settledAt (syncLegacyPlayerCards g) = bg_settledAt g"
  "bg_linkedGroup (syncLegacyPlayerCards g) = bg_linkedGroup g"
  by (simp_all add: syncLegacyPlayerCards_def split: option.split)

text \<open>How far the hands are from being played out.\<close>

definition handsLeft :: "bj_game \<Rightarrow> nat" where
  "handsLeft g =
     (case bg_activeHandIndex g of None \<Rightarrow> 0 | Some i \<Rightarrow> Suc (length (bg_playerHands g) - i))"

lemma advancePlayerHand_progress:
  "advancePlayerHand g ns = Inr (g', b) \<Longrightarrow> handsLeft g' < handsLeft g"
  by (auto simp: advancePlayerHand_def handsLeft_def Let_def updateHand_def
      dest!: nextWaitingHand_bounds split: option.splits if_splits)

text \<open>
  The result is the game, whether every hand is complete, and the automatic stands as pairs
  of hand index and total.
\<close>

function advanceResolvableHands ::
  "bj_game \<Rightarrow> rat \<Rightarrow> (bj_game \<times> bool \<times> (nat \<times> nat) list) res" where
  "advanceResolvableHands g walletBalance =
     (case getActivePlayerHand g of
        None \<Rightarrow> Inr (g, True, [])
      | Some h \<Rightarrow>
          (case autoAdvance g h walletBalance of
             None \<Rightarrow> Inr (syncLegacyPlayerCards g, False, [])
           | Some ns \<Rightarrow>
               let s = scoreBlackjackCards (bh_cards h);
                   events = (if sc_bust s \<or> sc_total s = 21 then []
                             else [(case bg_activeHandIndex g of None \<Rightarrow> 0 | Some i \<Rightarrow> i, sc_total s)])
               in case advancePlayerHand g ns of
                    Inl e \<Rightarrow> Inl e
                  | Inr (g', allComplete) \<Rightarrow>
                      if allComplete then Inr (g', True, events)
                      else case advanceResolvableHands g' walletBalance of
                             Inl e \<Rightarrow> Inl e
                           | Inr (g'', done', events') \<Rightarrow> Inr (g'', done', events @ events')))"
  by pat_completeness auto
termination
  by (relation "measure (\<lambda>(g, w). handsLeft g)") (auto dest: advancePlayerHand_progress)

declare advanceResolvableHands.simps [simp del]

lemma bj_takeNextCard_Inr:
  "bj_takeNextCard g = Inr (c, g') \<longleftrightarrow>
     bg_nextCardIndex g < length (bg_deck g) \<and> c = bg_deck g ! bg_nextCardIndex g \<and>
     g' = g\<lparr>bg_nextCardIndex := bg_nextCardIndex g + 1\<rparr>"
  by (auto simp: bj_takeNextCard_def)

text \<open>The dealer draws until the rules say stand.\<close>

function playDealerHand :: "bj_game \<Rightarrow> bj_game res" where
  "playDealerHand g =
     (if shouldDealerHit (bg_dealerCards g) (bg_config g) then
        (case bj_takeNextCard g of
           Inl e \<Rightarrow> Inl e
         | Inr (c, g') \<Rightarrow> playDealerHand (g'\<lparr>bg_dealerCards := bg_dealerCards g' @ [c]\<rparr>))
      else Inr g)"
  by pat_completeness auto
termination
  by (relation "measure (\<lambda>g. length (bg_deck g) - bg_nextCardIndex g)")
    (auto simp: bj_takeNextCard_Inr)

declare playDealerHand.simps [simp del]

subsection \<open>Settlement\<close>

definition resolveStatusPayoutAmount :: "bj_status \<Rightarrow> rat \<Rightarrow> rat \<Rightarrow> bj_config \<Rightarrow> rat" where
  "resolveStatusPayoutAmount status stake totalStake cfg =
     (case status of
        PlayerBlackjack \<Rightarrow> stake * naturalPayoutMultiplier cfg
      | DealerBust \<Rightarrow> totalStake * winPayoutMultiplier cfg
      | PlayerWin \<Rightarrow> totalStake * winPayoutMultiplier cfg
      | BjPush \<Rightarrow> totalStake * pushPayoutMultiplier cfg
      | _ \<Rightarrow> 0)"

datatype hand_outcome = OutBust | OutWin | OutLose | OutPush

definition resolveRegularHandPayoutAmount :: "rat \<Rightarrow> hand_outcome \<Rightarrow> bj_config \<Rightarrow> rat" where
  "resolveRegularHandPayoutAmount stake out cfg =
     (case out of
        OutWin \<Rightarrow> stake * winPayoutMultiplier cfg
      | OutPush \<Rightarrow> stake * pushPayoutMultiplier cfg
      | _ \<Rightarrow> 0)"

definition settledHandOutcome :: "bj_game \<Rightarrow> bj_hand \<Rightarrow> hand_outcome \<times> rat" where
  "settledHandOutcome g h =
     (let d = scoreBlackjackCards (bg_dealerCards g); p = scoreBlackjackCards (bh_cards h);
          pay = (\<lambda>out. (out, resolveRegularHandPayoutAmount (of_int (bh_stakeAmount h)) out (bg_config g)))
      in if bh_state h = HandBust \<or> sc_bust p then (OutBust, 0)
         else if sc_bust d \<or> sc_total p > sc_total d then pay OutWin
         else if sc_total p < sc_total d then (OutLose, 0)
         else pay OutPush)"

definition resolveSettledHandOutcomes :: "bj_game \<Rightarrow> (hand_outcome \<times> rat) list" where
  "resolveSettledHandOutcomes g = map (settledHandOutcome g) (bg_playerHands g)"

definition resolveAggregateSettledStatus ::
  "bj_game \<Rightarrow> score \<Rightarrow> (hand_outcome \<times> rat) list \<Rightarrow> bj_status" where
  "resolveAggregateSettledStatus g d outs =
     (if length (bg_playerHands g) = 1 then
        (let primary = (case outs of [] \<Rightarrow> None | x # _ \<Rightarrow> Some (fst x)) in
         if primary = Some OutBust then PlayerBust
         else if sc_bust d then DealerBust
         else if primary = Some OutWin then PlayerWin
         else if primary = Some OutLose then DealerWin
         else BjPush)
      else if list_all (\<lambda>x. fst x = OutBust) outs then PlayerBust
      else if sc_bust d \<and> list_all (\<lambda>x. fst x = OutWin) outs then DealerBust
      else
        let totalPayout = sum_list (map snd outs); totalStake = of_int (bg_totalStake g) in
        if totalPayout = 0 then DealerWin
        else if totalPayout = totalStake then BjPush
        else if totalPayout > totalStake then PlayerWin else DealerWin)"

end
