(* ===== verification/Blackjack_Act.thy ===== *)
theory Blackjack_Act
  imports Blackjack_Game
begin

text \<open>
  What a player does at the blackjack table: starting a game, hitting, standing, doubling,
  splitting, and the turn that times out (\<open>modules/blackjack/service.ts\<close> and
  \<open>blackjack-persistence.ts\<close>).  The state is the bank and the player's rows of the games
  table, newest first.  The KYC check of a stake, the prize pool's minimum reserve, the turn
  timeout and the clock are the environment.  Round events, dealer messages and the
  play-mode policy that runs after a settlement are other components.  A transaction that
  throws leaves the world as it was.
\<close>

record bj_env =
  be_kyc :: "cents \<Rightarrow> error option"
  be_minReserve :: cents
  be_timeoutMs :: int
  be_now :: int

record bj_world =
  bw_bank :: bank
  bw_games :: "bj_game list"

text \<open>A game in flight, the wallet balance the handler carries, and the database.\<close>

type_synonym bj_flight = "bj_game \<times> rat \<times> bj_world"

subsection \<open>Persistence\<close>

definition persistGameState :: "bj_game \<Rightarrow> bj_world \<Rightarrow> bj_game \<times> bj_world" where
  "persistGameState g w =
     (let g' = syncBlackjackTableTurnState (syncLegacyPlayerCards g)
      in (g', w\<lparr>bw_games := map (\<lambda>r. if bg_id r = bg_id g' then g' else r) (bw_games w)\<rparr>))"

definition loadActiveGames :: "bj_world \<Rightarrow> bj_game list" where
  "loadActiveGames w = filter (\<lambda>r. bg_status r = BjActive) (bw_games w)"

definition sortBlackjackGames :: "bj_game list \<Rightarrow> bj_game list" where
  "sortBlackjackGames =
     sort_key (\<lambda>g. (case bg_linkedGroup g of
         None \<Rightarrow> (bg_id g, 1, bg_id g)
       | Some l \<Rightarrow> (case lg_primaryGameId l of None \<Rightarrow> bg_id g | Some p \<Rightarrow> p,
                    lg_executionIndex l, bg_id g)))"

text \<open>The new row, as \<open>insertInitialGame\<close> writes it and \<open>toGameState\<close> reads it back.\<close>

definition insertInitialGame ::
  "nat \<Rightarrow> nat \<Rightarrow> nat \<Rightarrow> string \<Rightarrow> rat \<Rightarrow> card list \<Rightarrow> card list \<Rightarrow> card list \<Rightarrow> nat \<Rightarrow> bj_config
     \<Rightarrow> linked_group option \<Rightarrow> bj_world \<Rightarrow> bj_game \<times> bj_world" where
  "insertInitialGame newId uid epochNo nonce stakeAmount playerCards dealerCards shoe next cfg grp w =
     (let row = \<lparr>bg_id = newId, bg_userId = uid, bg_stakeAmount = toCents stakeAmount,
            bg_totalStake = toCents stakeAmount, bg_payoutAmount = 0, bg_playerCards = playerCards,
            bg_dealerCards = dealerCards, bg_deck = shoe, bg_nextCardIndex = next,
            bg_status = BjActive, bg_turnDeadlineAt = None, bg_settledAt = None, bg_config = cfg,
            bg_table = buildBlackjackTable uid epochNo nonce None,
            bg_playerHands = [\<lparr>bh_cards = playerCards, bh_stakeAmount = toCents stakeAmount,
               bh_state = HandActive, bh_splitFromAces = False\<rparr>],
            bg_activeHandIndex = Some 0, bg_linkedGroup = grp\<rparr>
      in (toGameState row, w\<lparr>bw_games := row # bw_games w\<rparr>))"

definition ensurePoolCanCover :: "bj_env \<Rightarrow> rat \<Rightarrow> rat \<Rightarrow> bj_world \<Rightarrow> rat res" where
  "ensurePoolCanCover env additionalStake maximumPayout w =
     assertTransactionalGamePoolCoverage (prizePoolBalance (bw_bank w)) (be_minReserve env)
       additionalStake maximumPayout"

definition applyStakeDebit ::
  "string \<Rightarrow> nat \<Rightarrow> rat \<Rightarrow> rat \<Rightarrow> rat \<Rightarrow> bj_world \<Rightarrow> (rat \<times> rat \<times> bj_world) res" where
  "applyStakeDebit entryType ref walletBefore wageredBefore stakeAmount w =
     (case applyTransactionalGameStakeDebit walletBefore wageredBefore stakeAmount entryType
             (Some ref) (bw_bank w) of
        Inl e \<Rightarrow> Inl e
      | Inr (bk, walletAfter, wageredAfter) \<Rightarrow> Inr (walletAfter, wageredAfter, w\<lparr>bw_bank := bk\<rparr>))"

definition applyPayoutCredit :: "nat \<Rightarrow> rat \<Rightarrow> rat \<Rightarrow> bj_world \<Rightarrow> rat \<times> bj_world" where
  "applyPayoutCredit ref walletBefore payoutAmount w =
     (case applyTransactionalGamePayoutCredit walletBefore payoutAmount ''blackjack_payout''
             (Some ref) (bw_bank w) of
        (bk, walletAfter) \<Rightarrow> (walletAfter, w\<lparr>bw_bank := bk\<rparr>))"

subsection \<open>Settlement\<close>

text \<open>What both settlements write to the game.\<close>

definition closeGame :: "int \<Rightarrow> bj_status \<Rightarrow> rat \<Rightarrow> bj_game \<Rightarrow> bj_game" where
  "closeGame t status payoutAmount g =
     g\<lparr>bg_status := status, bg_payoutAmount := toCents payoutAmount, bg_turnDeadlineAt := None,
       bg_settledAt := Some t, bg_activeHandIndex := None\<rparr>"

definition payOut :: "bj_game \<Rightarrow> rat \<Rightarrow> rat \<Rightarrow> bj_world \<Rightarrow> bj_flight" where
  "payOut g walletBalance payoutAmount w =
     (case persistGameState g w of
        (g', w1) \<Rightarrow>
          (case applyPayoutCredit (bg_id g') walletBalance payoutAmount w1 of
             (wallet', w2) \<Rightarrow> (g', wallet', w2)))"

definition settleGameByStatus :: "bj_env \<Rightarrow> bj_game \<Rightarrow> bj_status \<Rightarrow> rat \<Rightarrow> bj_world \<Rightarrow> bj_flight" where
  "settleGameByStatus env g status walletBalance w =
     (let payoutAmount = resolveStatusPayoutAmount status (of_int (bg_stakeAmount g))
                           (of_int (bg_totalStake g)) (bg_config g)
      in payOut (closeGame (be_now env) status payoutAmount g) walletBalance payoutAmount w)"

definition settleResolvedHands :: "bj_env \<Rightarrow> bj_game \<Rightarrow> rat \<Rightarrow> bj_world \<Rightarrow> bj_flight res" where
  "settleResolvedHands env g walletBalance w =
     (case playDealerHand g of
        Inl e \<Rightarrow> Inl e
      | Inr g1 \<Rightarrow>
          let outs = resolveSettledHandOutcomes g1;
              payoutAmount = sum_list (map snd outs);
              status = resolveAggregateSettledStatus g1 (scoreBlackjackCards (bg_dealerCards g1)) outs
          in Inr (payOut (closeGame (be_now env) status payoutAmount g1) walletBalance payoutAmount w))"

subsection \<open>The turn clock\<close>

definition buildBlackjackTurnDeadline :: "bj_env \<Rightarrow> int" where
  "buildBlackjackTurnDeadline env = be_now env + be_timeoutMs env"

definition syncBlackjackTurnDeadline :: "bj_env \<Rightarrow> bj_game \<Rightarrow> bj_game" where
  "syncBlackjackTurnDeadline env g =
     syncBlackjackTableTurnState
       (g\<lparr>bg_turnDeadlineAt :=
          (case getActivePlayerHand g of
             None \<Rightarrow> None
           | Some h \<Rightarrow>
               if bg_status g \<noteq> BjActive \<or> bh_state h \<noteq> HandActive then None
               else let s = scoreBlackjackCards (bh_cards h) in
                 if \<not> sc_bust s \<and> sc_total s < 21 then Some (buildBlackjackTurnDeadline env)
                 else None)\<rparr>)"

definition clearBlackjackTurnDeadline :: "bj_game \<Rightarrow> bj_game" where
  "clearBlackjackTurnDeadline g = syncBlackjackTableTurnState (g\<lparr>bg_turnDeadlineAt := None\<rparr>)"

definition isBlackjackTurnExpired :: "bj_env \<Rightarrow> bj_game \<Rightarrow> bool" where
  "isBlackjackTurnExpired env g =
     (case bg_turnDeadlineAt g of None \<Rightarrow> False | Some t \<Rightarrow> t \<le> be_now env)"

definition assertCurrentTurnSeat :: "nat \<Rightarrow> bj_game \<Rightarrow> unit res" where
  "assertCurrentTurnSeat uid g =
     (case (case bt_currentTurnSeatIndex (bg_table g) of
              None \<Rightarrow> None
            | Some i \<Rightarrow> find (\<lambda>s. bs_seatIndex s = i) (bt_seats (bg_table g))) of
        None \<Rightarrow> Inl (Conflict ''Blackjack turn is no longer available.'')
      | Some s \<Rightarrow>
          if bs_seatIndex s \<noteq> 1 \<or> bs_participantId s \<noteq> ''user:'' @ show_digits uid
          then Inl (Conflict ''Only the current turn seat can act.'')
          else Inr ())"

subsection \<open>Playing a turn\<close>

definition finalizeBlackjackProgress :: "bj_env \<Rightarrow> bj_game \<Rightarrow> rat \<Rightarrow> bj_world \<Rightarrow> bj_flight res" where
  "finalizeBlackjackProgress env g walletBalance w =
     (case advanceResolvableHands g walletBalance of
        Inl e \<Rightarrow> Inl e
      | Inr (g1, allHandsComplete, events) \<Rightarrow>
          if allHandsComplete then
            settleResolvedHands env (clearBlackjackTurnDeadline g1) walletBalance w
          else
            (case persistGameState (syncBlackjackTurnDeadline env g1) w of
               (g2, w1) \<Rightarrow> Inr (g2, walletBalance, w1)))"

text \<open>The end of a hand the player is done with, and what follows it.\<close>

definition applyBlackjackStandAction :: "bj_env \<Rightarrow> bj_game \<Rightarrow> rat \<Rightarrow> bj_world \<Rightarrow> bj_flight res" where
  "applyBlackjackStandAction env g walletBalance w =
     (case getActivePlayerHand g of
        None \<Rightarrow> Inl (InternalInvariant ''Blackjack active hand is missing.'')
      | Some h \<Rightarrow>
          (case advancePlayerHand g HandStood of
             Inl e \<Rightarrow> Inl e
           | Inr (g1, allHandsComplete) \<Rightarrow>
               if allHandsComplete then
                 settleResolvedHands env (clearBlackjackTurnDeadline g1) walletBalance w
               else finalizeBlackjackProgress env g1 walletBalance w))"

definition takeTwo :: "bj_game \<Rightarrow> (card \<times> card \<times> bj_game) res" where
  "takeTwo g =
     (case bj_takeNextCard g of
        Inl e \<Rightarrow> Inl e
      | Inr (a, g1) \<Rightarrow> (case bj_takeNextCard g1 of Inl e \<Rightarrow> Inl e | Inr (b, g2) \<Rightarrow> Inr (a, b, g2)))"

definition hitAction :: "bj_env \<Rightarrow> nat \<Rightarrow> bj_game \<Rightarrow> rat \<Rightarrow> bj_world \<Rightarrow> bj_flight res" where
  "hitAction env i g walletBalance w =
     (case bj_takeNextCard g of
        Inl e \<Rightarrow> Inl e
      | Inr (c, g1) \<Rightarrow>
          let g2 = updateHand i (\<lambda>h. h\<lparr>bh_cards := bh_cards h @ [c]\<rparr>) g1;
              s = scoreBlackjackCards (bh_cards (bg_playerHands g2 ! i))
          in if sc_bust s \<or> sc_total s = 21 then finalizeBlackjackProgress env g2 walletBalance w
             else (case persistGameState (syncBlackjackTurnDeadline env g2) w of
                     (g3, w1) \<Rightarrow> Inr (g3, walletBalance, w1)))"

text \<open>The stake a double or a split adds: checked, covered by the pool, and debited.\<close>

definition raiseStake ::
  "bj_env \<Rightarrow> string \<Rightarrow> cents \<Rightarrow> bj_game \<Rightarrow> rat \<Rightarrow> rat \<Rightarrow> bj_world \<Rightarrow> bj_flight res" where
  "raiseStake env entryType stakeAmount g walletBalance wageredAmt w =
     (case be_kyc env (bg_totalStake g + stakeAmount) of
        Some e \<Rightarrow> Inl e
      | None \<Rightarrow>
          if entryType = ''blackjack_double_down'' \<and> walletBalance < of_int stakeAmount then
            Inl (Conflict ''Insufficient balance for double down.'')
          else
            bind_res
              (ensurePoolCanCover env (of_int stakeAmount)
                 ((of_int (bg_totalStake g) + of_int stakeAmount) * winPayoutMultiplier (bg_config g)) w)
              (\<lambda>_. bind_res
                (applyStakeDebit entryType (bg_id g) walletBalance wageredAmt (of_int stakeAmount) w)
                (\<lambda>(wallet', wagered', w'). 
                   Inr (g\<lparr>bg_totalStake := bg_totalStake g + stakeAmount\<rparr>, wallet', w'))))"

definition doubleAction :: "bj_env \<Rightarrow> nat \<Rightarrow> bj_game \<Rightarrow> rat \<Rightarrow> rat \<Rightarrow> bj_world \<Rightarrow> bj_flight res" where
  "doubleAction env i g walletBalance wageredAmt w =
     (let stakeAmount = bh_stakeAmount (bg_playerHands g ! i) in
      case raiseStake env ''blackjack_double_down'' stakeAmount g walletBalance wageredAmt w of
        Inl e \<Rightarrow> Inl e
      | Inr (g1, wallet', w1) \<Rightarrow>
          (case bj_takeNextCard g1 of
             Inl e \<Rightarrow> Inl e
           | Inr (c, g2) \<Rightarrow>
               let g3 = updateHand i (\<lambda>h. h\<lparr>bh_stakeAmount := bh_stakeAmount h + stakeAmount,
                                           bh_cards := bh_cards h @ [c]\<rparr>) g2;
                   s = scoreBlackjackCards (bh_cards (bg_playerHands g3 ! i))
               in (case advancePlayerHand g3 (if sc_bust s then HandBust else HandStood) of
                     Inl e \<Rightarrow> Inl e
                   | Inr (g4, allHandsComplete) \<Rightarrow>
                       if allHandsComplete then
                         settleResolvedHands env (clearBlackjackTurnDeadline g4) wallet' w1
                       else finalizeBlackjackProgress env g4 wallet' w1)))"

text \<open>The two hands of a split: each keeps one card and gets one.\<close>

definition splitHands :: "nat \<Rightarrow> cents \<Rightarrow> bj_game \<Rightarrow> bj_game res" where
  "splitHands i stakeAmount g =
     (case bh_cards (bg_playerHands g ! i) of
        leftCard # rightCard # _ \<Rightarrow>
          (case takeTwo g of
             Inl e \<Rightarrow> Inl e
           | Inr (leftDraw, rightDraw, g1) \<Rightarrow>
               let aces = (rank leftCard = RA \<and> rank rightCard = RA);
                   left = \<lparr>bh_cards = [leftCard, leftDraw], bh_stakeAmount = stakeAmount,
                           bh_state = HandActive, bh_splitFromAces = aces\<rparr>;
                   right = \<lparr>bh_cards = [rightCard, rightDraw], bh_stakeAmount = stakeAmount,
                            bh_state = HandWaiting, bh_splitFromAces = aces\<rparr>;
                   hs = bg_playerHands g1
               in Inr (g1\<lparr>bg_playerHands := take i hs @ [left, right] @ drop (i + 1) hs\<rparr>))
      | _ \<Rightarrow> Inl (InternalInvariant ''Blackjack split hand is missing cards.''))"

definition splitAction :: "bj_env \<Rightarrow> nat \<Rightarrow> bj_game \<Rightarrow> rat \<Rightarrow> rat \<Rightarrow> bj_world \<Rightarrow> bj_flight res" where
  "splitAction env i g walletBalance wageredAmt w =
     (let stakeAmount = bh_stakeAmount (bg_playerHands g ! i) in
      case raiseStake env ''blackjack_split'' stakeAmount g walletBalance wageredAmt w of
        Inl e \<Rightarrow> Inl e
      | Inr (g1, wallet', w1) \<Rightarrow>
          (case splitHands i stakeAmount g1 of
             Inl e \<Rightarrow> Inl e
           | Inr g2 \<Rightarrow> finalizeBlackjackProgress env g2 wallet' w1))"

text \<open>
  What becomes of a request: refused and rolled back, overtaken by the turn clock (the
  default action is committed, then the request is refused), or done.
\<close>

datatype bj_result =
    Refused error
  | TurnTimedOut bj_world error
  | Done bj_game rat bj_world

definition resultOf :: "bj_flight res \<Rightarrow> bj_result" where
  "resultOf r = (case r of Inl e \<Rightarrow> Refused e | Inr (g, wallet, w) \<Rightarrow> Done g wallet w)"

definition actOnGame ::
  "bj_env \<Rightarrow> bj_game \<Rightarrow> bj_action \<Rightarrow> rat \<Rightarrow> rat \<Rightarrow> bj_world \<Rightarrow> bj_flight res" where
  "actOnGame env g act walletBalance wageredAmt w =
     (if act \<notin> set (getAvailableActions g walletBalance) then
        Inl (Conflict ''That action is not available for the current hand.'')
      else case bg_activeHandIndex g of
        None \<Rightarrow> Inl (InternalInvariant ''Blackjack active hand is missing.'')
      | Some i \<Rightarrow>
          (case getActivePlayerHand g of
             None \<Rightarrow> Inl (InternalInvariant ''Blackjack active hand is missing.'')
           | Some h \<Rightarrow>
               (case act of
                  Hit \<Rightarrow> hitAction env i g walletBalance w
                | Double \<Rightarrow> doubleAction env i g walletBalance wageredAmt w
                | Split \<Rightarrow> splitAction env i g walletBalance wageredAmt w
                | Stand \<Rightarrow> applyBlackjackStandAction env g walletBalance w)))"

definition actOnBlackjack :: "bj_env \<Rightarrow> nat \<Rightarrow> nat \<Rightarrow> bj_action \<Rightarrow> bj_world \<Rightarrow> bj_result" where
  "actOnBlackjack env uid gid act w =
     (let walletBalance = of_int (withdrawableBalance (bw_bank w));
          wageredAmt = of_int (wageredAmount (bw_bank w)) in
      if loadActiveGames w = [] then Refused (NotFound ''No active blackjack game found.'')
      else case find (\<lambda>r. bg_id r = gid) (loadActiveGames w) of
        None \<Rightarrow> Refused (Conflict ''Blackjack game is no longer active.'')
      | Some row \<Rightarrow>
          let g = toGameState row in
          (case assertCurrentTurnSeat uid g of
             Inl e \<Rightarrow> Refused e
           | Inr _ \<Rightarrow>
               if isBlackjackTurnExpired env g then
                 (case applyBlackjackStandAction env g walletBalance w of
                    Inl e \<Rightarrow> Refused e
                  | Inr (g', wallet', w') \<Rightarrow>
                      TurnTimedOut w'
                        (Conflict ''Blackjack turn timed out and the default action was applied.''))
               else resultOf (actOnGame env g act walletBalance wageredAmt w)))"

text \<open>The timeout worker, for one user; the flag says whether a turn was forced.\<close>

definition processExpiredBlackjackTurnForUser :: "bj_env \<Rightarrow> bj_world \<Rightarrow> (bj_world \<times> bool) res" where
  "processExpiredBlackjackTurnForUser env w =
     (case find (isBlackjackTurnExpired env) (sortBlackjackGames (map toGameState (loadActiveGames w))) of
        None \<Rightarrow> Inr (w, False)
      | Some g \<Rightarrow>
          (case applyBlackjackStandAction env g (of_int (withdrawableBalance (bw_bank w))) w of
             Inl e \<Rightarrow> Inl e
           | Inr (g', wallet', w') \<Rightarrow> Inr (w', True)))"

subsection \<open>Starting a game\<close>

text \<open>A positive amount of at most two decimals.\<close>

definition resolveStakeAmount :: "rat \<Rightarrow> rat res" where
  "resolveStakeAmount a =
     (if a \<le> 0 \<or> of_int \<lfloor>a\<rfloor> \<noteq> a then Inl (BadRequest ''Invalid stake amount.'') else Inr a)"

record bj_request =
  br_userId :: nat
  br_stakeAmount :: rat
  br_multiplier :: nat
  br_linkedGroup :: "linked_group option"
  br_clientNonce :: string
  br_epoch :: nat
  br_seed :: string
  br_newId :: nat

definition startResolvedBlackjack ::
  "bj_env \<Rightarrow> hash_function \<Rightarrow> bj_config \<Rightarrow> bj_request \<Rightarrow> bj_world \<Rightarrow> bj_flight res" where
  "startResolvedBlackjack env sha256 cfg req w =
     (let active = loadActiveGames w;
          busy = Conflict ''Finish the active blackjack game before starting a new one.''
      in if (case br_linkedGroup req of
               None \<Rightarrow> active \<noteq> []
             | Some l \<Rightarrow> list_ex (\<lambda>g. map_option lg_groupId (bg_linkedGroup g) \<noteq> Some (lg_groupId l)) active)
         then Inl busy
         else
      bind_res (resolveStakeAmount (br_stakeAmount req)) (\<lambda>base.
      let stakeAmount = base * of_nat (br_multiplier req);
          walletBefore = of_int (withdrawableBalance (bw_bank w));
          wageredBefore = of_int (wageredAmount (bw_bank w))
      in if stakeAmount < of_int (minStake cfg) \<or> stakeAmount > of_int (maxStake cfg) then
           Inl (Conflict ''Stake amount is outside the allowed range.'')
         else case be_kyc env (toCents stakeAmount) of
           Some e \<Rightarrow> Inl e
         | None \<Rightarrow>
             if walletBefore < stakeAmount then Inl (Conflict ''Insufficient balance.'')
             else
      bind_res (ensurePoolCanCover env stakeAmount (stakeAmount * naturalPayoutMultiplier cfg) w) (\<lambda>_.
      bind_res (drawBlackjackDeck sha256 (br_seed req) (br_userId req) (br_clientNonce req)) (\<lambda>d.
      let shoe = dd_deck d;
          playerCards = [shoe ! 0, shoe ! 2];
          dealerCards = [shoe ! 1, shoe ! 3]
      in case insertInitialGame (br_newId req) (br_userId req) (br_epoch req) (br_clientNonce req)
                stakeAmount playerCards dealerCards shoe 4 cfg (br_linkedGroup req) w of
           (g, w1) \<Rightarrow>
      (case persistGameState (syncBlackjackTurnDeadline env g) w1 of
         (g1, w2) \<Rightarrow>
      bind_res (applyStakeDebit ''blackjack_stake'' (bg_id g1) walletBefore wageredBefore stakeAmount w2)
        (\<lambda>(walletAfter, wageredAfter, w3).
      case persistGameState g1 w3 of
        (g2, w4) \<Rightarrow>
      bind_res (resolveInitialOutcome g2) (\<lambda>status.
      if status \<noteq> BjActive then Inr (settleGameByStatus env g2 status walletAfter w4)
      else Inr (g2, walletAfter, w4))))))))"

end
