(* ===== verification/Blackjack_Rules.thy ===== *)
theory Blackjack_Rules
  imports Blackjack_Act
begin

text \<open>
  The rules of blackjack, proved of the functions that apply them: the score of a hand, the
  shuffle, the dealer's play and the settlement of the hands.
\<close>

subsection \<open>Scores\<close>

text \<open>The total of a hand with every ace counted as one.\<close>

fun hardValue :: "card_rank \<Rightarrow> nat" where
  "hardValue RA = 1"
| "hardValue r = rankValue r"

definition hardTotal :: "card list \<Rightarrow> nat" where
  "hardTotal cs = (\<Sum>c\<leftarrow>cs. hardValue (rank c))"

definition aceCount :: "card list \<Rightarrow> nat" where
  "aceCount cs = length (filter (\<lambda>c. rank c = RA) cs)"

lemma hardTotal_simps [simp]:
  "hardTotal [] = 0" "hardTotal (c # cs) = hardValue (rank c) + hardTotal cs"
  "hardTotal (as @ bs) = hardTotal as + hardTotal bs"
  by (simp_all add: hardTotal_def)

lemma hardValue_bounds: "1 \<le> hardValue r" "hardValue r \<le> 10"
  by (cases r; simp)+

lemma rankValue_hard: "rankValue r = hardValue r + (if r = RA then 10 else 0)"
  by (cases r) auto

lemma rankValue_sum:
  "(\<Sum>c\<leftarrow>cs. rankValue (rank c)) = hardTotal cs + 10 * aceCount cs"
  by (induction cs) (auto simp: aceCount_def rankValue_hard)

lemma aceCount_le: "aceCount cs \<le> hardTotal cs"
  by (induction cs) (auto simp: aceCount_def intro: le_trans [OF _ add_mono])

lemma softenAces_spec:
  "a \<le> h \<Longrightarrow> softenAces (h + 10 * a) a = (if 0 < a \<and> h + 10 \<le> 21 then (h + 10, 1) else (h, 0))"
proof (induction a)
  case (Suc a)
  then show ?case by (cases a) auto
qed simp

lemma score_closed:
  "scoreBlackjackCards cs =
     (let h = hardTotal cs; s = (0 < aceCount cs \<and> h + 10 \<le> 21); t = (if s then h + 10 else h)
      in \<lparr>sc_total = t, sc_soft = s, sc_blackjack = (length cs = 2 \<and> t = 21), sc_bust = (t > 21)\<rparr>)"
  using softenAces_spec [OF aceCount_le, of cs]
  by (simp add: scoreBlackjackCards_def rankValue_sum Let_def flip: aceCount_def)

lemma score_total: "sc_total (scoreBlackjackCards cs) =
    (if 0 < aceCount cs \<and> hardTotal cs + 10 \<le> 21 then hardTotal cs + 10 else hardTotal cs)"
  and score_bust: "sc_bust (scoreBlackjackCards cs) = (sc_total (scoreBlackjackCards cs) > 21)"
  and score_soft: "sc_soft (scoreBlackjackCards cs) = (0 < aceCount cs \<and> hardTotal cs + 10 \<le> 21)"
  and score_natural: "sc_blackjack (scoreBlackjackCards cs) =
    (length cs = 2 \<and> sc_total (scoreBlackjackCards cs) = 21)"
  by (simp_all add: score_closed Let_def)

lemma hardTotal_le_total: "hardTotal cs \<le> sc_total (scoreBlackjackCards cs)"
  by (simp add: score_total)

text \<open>The totals a hand can be read as, each ace being one or eleven.\<close>

fun readings :: "card list \<Rightarrow> nat list" where
  "readings [] = [0]"
| "readings (c # cs) =
     (if rank c = RA then map ((+) 1) (readings cs) @ map ((+) 11) (readings cs)
      else map ((+) (rankValue (rank c))) (readings cs))"

lemma set_readings: "set (readings cs) = (\<lambda>k. hardTotal cs + 10 * k) ` {0..aceCount cs}"
proof (induction cs)
  case (Cons c cs)
  show ?case
  proof (cases "rank c = RA")
    case True
    have split: "{0..Suc n} = {0..n} \<union> Suc ` {0..n}" for n :: nat
      unfolding image_Suc_atLeastAtMost by auto
    from True show ?thesis
      by (simp add: Cons.IH aceCount_def image_image split image_Un ac_simps
          del: image_Suc_atLeastAtMost)
  next
    case False
    then show ?thesis
      by (simp add: Cons.IH aceCount_def image_image rankValue_hard ac_simps)
  qed
qed (simp add: aceCount_def)

text \<open>
  The score of a hand is its best reading: the highest total of the hand, with each ace
  as one or eleven, that is not over 21, and the lowest one when they all are.
\<close>

theorem score_is_best_reading:
  "sc_total (scoreBlackjackCards cs) =
     (if \<exists>t \<in> set (readings cs). t \<le> 21 then Max {t \<in> set (readings cs). t \<le> 21}
      else Min (set (readings cs))) \<and>
   sc_bust (scoreBlackjackCards cs) = (\<not> (\<exists>t \<in> set (readings cs). t \<le> 21))"
proof -
  let ?h = "hardTotal cs" and ?a = "aceCount cs" and ?S = "set (readings cs)"
  have S: "?S = (\<lambda>k. ?h + 10 * k) ` {0..?a}" by (rule set_readings)
  have min: "?h \<in> ?S" and lower: "\<And>t. t \<in> ?S \<Longrightarrow> ?h \<le> t" by (auto simp: S)
  have low: "(\<exists>t \<in> ?S. t \<le> 21) = (?h \<le> 21)" using min lower le_trans by blast
  have total: "sc_total (scoreBlackjackCards cs) = (if 0 < ?a \<and> ?h + 10 \<le> 21 then ?h + 10 else ?h)"
    by (rule score_total)
  have "Min ?S = ?h" using min lower by (intro Min_eqI) auto
  moreover have "Max {t \<in> ?S. t \<le> 21} = sc_total (scoreBlackjackCards cs)" if fits: "?h \<le> 21"
  proof (rule Max_eqI)
    show "sc_total (scoreBlackjackCards cs) \<in> {t \<in> ?S. t \<le> 21}"
      using fits min by (auto simp: total S image_iff intro: bexI [of _ 1])
    fix t assume "t \<in> {t \<in> ?S. t \<le> 21}"
    then obtain k where t: "t = ?h + 10 * k" "k \<le> ?a" "t \<le> 21" by (auto simp: S)
    have "?a \<le> ?h" by (rule aceCount_le)
    with t have "k \<le> 1" by (cases "k \<ge> 2") auto
    then have "k = 0 \<or> k = 1" by auto
    with t show "t \<le> sc_total (scoreBlackjackCards cs)" by (auto simp: total)
  qed simp
  ultimately show ?thesis by (auto simp: low score_bust total)
qed

subsection \<open>The deck\<close>

lemma drawLoop_ok:
  "n = length available \<Longrightarrow>
     \<exists>d dg. drawLoop sha256 key n step available drawn digests = Inr (drawn @ d, digests @ dg) \<and>
       mset d = mset available \<and> length dg = n"
proof (induction n arbitrary: step available drawn digests)
  case (Suc n)
  let ?k = "readUInt32BE (sha256 (key @ '':'' @ show_digits step)) mod length available"
  have k: "?k < length available" using Suc.prems by (intro mod_less_divisor) linarith
  let ?rest = "take ?k available @ drop (?k + 1) available"
  have len: "n = length ?rest" using Suc.prems k by simp
  have "mset available = mset ?rest + {#available ! ?k#}"
    using k by (subst id_take_nth_drop [OF k], subst mset_append) simp
  with Suc.IH [OF len, of "step + 1" "drawn @ [available ! ?k]"
      "digests @ [toHex (sha256 (key @ '':'' @ show_digits step))]"] k
  show ?case by (fastforce simp: Let_def simp del: mset_append)
qed simp

definition deckOk :: "card list \<Rightarrow> bool" where
  "deckOk d = (mset d = mset createStandardDeck)"

lemma deckOk_facts:
  assumes "deckOk d"
  shows "length d = 52" "hardTotal d = 340" "distinct d"
proof -
  have m: "mset d = mset createStandardDeck" using assms by (simp add: deckOk_def)
  have std: "length createStandardDeck = 52" "hardTotal createStandardDeck = 340"
    "distinct createStandardDeck"
    by (simp_all add: createStandardDeck_def)
  show "length d = 52" using mset_eq_length [OF m] std by simp
  show "distinct d" using mset_eq_imp_distinct_iff [OF m] std by simp
  have "hardTotal d = sum_mset (image_mset (\<lambda>c. hardValue (rank c)) (mset d))"
    by (simp add: hardTotal_def flip: sum_mset_sum_list)
  also have "\<dots> = hardTotal createStandardDeck"
    by (simp add: m hardTotal_def flip: sum_mset_sum_list)
  finally show "hardTotal d = 340" using std by simp
qed

lemma drawBlackjackDeck_ok:
  obtains d where "drawBlackjackDeck sha256 seed uid nonce = Inr d" and "deckOk (dd_deck d)"
proof -
  have "52 = length createStandardDeck" by (simp add: createStandardDeck_def)
  from drawLoop_ok [OF this] obtain d dg where
    "drawLoop sha256 (joinWith '':'' [seed, show_digits uid, nonce]) 52 0 createStandardDeck [] [] =
       Inr (d, dg)" and "mset d = mset createStandardDeck" by fastforce
  then show ?thesis using that by (simp add: drawBlackjackDeck_def deckOk_def)
qed

text \<open>
  Whatever the hash function, seed and nonce are, the shuffle succeeds and deals all 52
  cards, each exactly once.
\<close>

theorem blackjack_deck_is_permutation:
  "\<exists>d. drawBlackjackDeck sha256 seed uid nonce = Inr d \<and>
     mset (dd_deck d) = mset createStandardDeck \<and> distinct (dd_deck d) \<and> length (dd_deck d) = 52"
  using drawBlackjackDeck_ok [of sha256 seed uid nonce] deckOk_facts
  by (metis deckOk_def)

subsection \<open>The dealer\<close>

lemma shouldDealerHit_total:
  "shouldDealerHit cs cfg \<longleftrightarrow>
     sc_total (scoreBlackjackCards cs) < 17 \<or>
     sc_total (scoreBlackjackCards cs) = 17 \<and> sc_soft (scoreBlackjackCards cs) \<and> dealerHitsSoft17 cfg"
  by (auto simp: shouldDealerHit_def Let_def)

lemma shouldDealerHit_hard: "shouldDealerHit cs cfg \<Longrightarrow> hardTotal cs \<le> 17"
  using hardTotal_le_total [of cs] by (auto simp: shouldDealerHit_total)

abbreviation remaining :: "bj_game \<Rightarrow> card list" where
  "remaining g \<equiv> drop (bg_nextCardIndex g) (bg_deck g)"

lemma bj_takeNextCard_ok:
  "remaining g \<noteq> [] \<Longrightarrow>
     bj_takeNextCard g = Inr (hd (remaining g), g\<lparr>bg_nextCardIndex := bg_nextCardIndex g + 1\<rparr>)"
  by (simp add: bj_takeNextCard_def hd_drop_conv_nth)

lemma hardTotal_pos_nonempty: "0 < hardTotal cs \<Longrightarrow> cs \<noteq> []"
  by auto

lemma playDealerHand_ok:
  "18 \<le> hardTotal (bg_dealerCards g) + hardTotal (remaining g) \<Longrightarrow> \<exists>g'. playDealerHand g = Inr g'"
proof (induction g rule: playDealerHand.induct)
  case (1 g)
  show ?case
  proof (cases "shouldDealerHit (bg_dealerCards g) (bg_config g)")
    case True
    with 1(2) shouldDealerHit_hard [OF True] have ne: "remaining g \<noteq> []"
      by (intro hardTotal_pos_nonempty) linarith
    then have split: "remaining g = hd (remaining g) # drop (bg_nextCardIndex g + 1) (bg_deck g)"
      by (metis Suc_eq_plus1 drop_Suc list.collapse tl_drop)
    let ?g' = "g\<lparr>bg_nextCardIndex := bg_nextCardIndex g + 1\<rparr>"
    let ?g'' = "?g'\<lparr>bg_dealerCards := bg_dealerCards ?g' @ [hd (remaining g)]\<rparr>"
    have "hardTotal (remaining g) = hardValue (rank (hd (remaining g))) + hardTotal (remaining ?g'')"
      by (subst split) simp
    with 1(2) have "18 \<le> hardTotal (bg_dealerCards ?g'') + hardTotal (remaining ?g'')" by simp
    with 1(1) [OF True bj_takeNextCard_ok [OF ne] refl] True show ?thesis
      by (subst playDealerHand.simps) (simp add: bj_takeNextCard_ok [OF ne])
  qed (simp add: playDealerHand.simps)
qed

lemma playDealerHand_spec:
  "playDealerHand g = Inr g' \<Longrightarrow> \<exists>k \<le> length (remaining g).
     g' = g\<lparr>bg_dealerCards := bg_dealerCards g @ take k (remaining g),
            bg_nextCardIndex := bg_nextCardIndex g + k\<rparr> \<and>
     \<not> shouldDealerHit (bg_dealerCards g') (bg_config g) \<and>
     (\<forall>j < k. shouldDealerHit (bg_dealerCards g @ take j (remaining g)) (bg_config g))"
proof (induction g rule: playDealerHand.induct)
  case (1 g)
  show ?case
  proof (cases "shouldDealerHit (bg_dealerCards g) (bg_config g)")
    case True
    let ?n = "bg_nextCardIndex g" and ?d = "bg_deck g"
    let ?c = "?d ! ?n" and ?g1 = "g\<lparr>bg_nextCardIndex := ?n + 1\<rparr>"
    let ?g2 = "?g1\<lparr>bg_dealerCards := bg_dealerCards ?g1 @ [?c]\<rparr>"
    have n: "?n < length ?d" and rest: "playDealerHand ?g2 = Inr g'"
      using 1(2) True by (auto simp: playDealerHand.simps [of g] bj_takeNextCard_def split: if_splits)
    have take: "bj_takeNextCard g = Inr (?c, ?g1)" using n by (simp add: bj_takeNextCard_def)
    obtain k where k: "k \<le> length (remaining ?g2)"
      and g': "g' = ?g2\<lparr>bg_dealerCards := bg_dealerCards ?g2 @ take k (remaining ?g2),
            bg_nextCardIndex := bg_nextCardIndex ?g2 + k\<rparr>"
      and stop: "\<not> shouldDealerHit (bg_dealerCards g') (bg_config g)"
      and hits: "\<forall>j < k. shouldDealerHit (bg_dealerCards ?g2 @ take j (remaining ?g2)) (bg_config g)"
      using 1(1) [OF True take refl rest] by auto
    have cons: "remaining g = ?c # drop (?n + 1) ?d" using n by (simp add: Cons_nth_drop_Suc)
    show ?thesis
    proof (intro exI [of _ "Suc k"] conjI allI impI)
      show "Suc k \<le> length (remaining g)" using k n by simp
      show "g' = g\<lparr>bg_dealerCards := bg_dealerCards g @ take (Suc k) (remaining g),
          bg_nextCardIndex := ?n + Suc k\<rparr>"
        by (simp add: g' cons)
      show "\<not> shouldDealerHit (bg_dealerCards g') (bg_config g)" by (rule stop)
      show "shouldDealerHit (bg_dealerCards g @ take j (remaining g)) (bg_config g)"
        if "j < Suc k" for j
        using that True hits by (cases j) (auto simp: cons)
    qed
  qed (use 1(2) in \<open>auto simp: playDealerHand.simps [of g] intro!: exI [of _ 0]\<close>)
qed

subsection \<open>Settling the hands\<close>

definition stakes :: "bj_game \<Rightarrow> cents" where
  "stakes g = (\<Sum>h\<leftarrow>bg_playerHands g. bh_stakeAmount h)"

definition settledPayout :: "bj_game \<Rightarrow> rat" where
  "settledPayout g = sum_list (map snd (resolveSettledHandOutcomes g))"

definition settledStatus :: "bj_game \<Rightarrow> bj_status" where
  "settledStatus g = resolveAggregateSettledStatus g (scoreBlackjackCards (bg_dealerCards g))
     (resolveSettledHandOutcomes g)"

text \<open>The multipliers of a sensible configuration: a win pays more than a push, which returns the stake.\<close>

definition payoutsOk :: "bj_config \<Rightarrow> bool" where
  "payoutsOk cfg = (1 < winPayoutMultiplier cfg \<and> pushPayoutMultiplier cfg = 1)"

lemma settledHandOutcome_cases:
  "settledHandOutcome g h =
     (let s = of_int (bh_stakeAmount h);
          d = scoreBlackjackCards (bg_dealerCards g); p = scoreBlackjackCards (bh_cards h) in
      if bh_state h = HandBust \<or> sc_bust p then (OutBust, 0)
      else if sc_bust d \<or> sc_total p > sc_total d then (OutWin, s * winPayoutMultiplier (bg_config g))
      else if sc_total p < sc_total d then (OutLose, 0)
      else (OutPush, s * pushPayoutMultiplier (bg_config g)))"
  by (simp add: settledHandOutcome_def resolveRegularHandPayoutAmount_def Let_def)

lemma settledHandOutcome_bounds:
  assumes "payoutsOk (bg_config g)" and "0 < bh_stakeAmount h"
  shows "0 \<le> snd (settledHandOutcome g h)"
    "snd (settledHandOutcome g h) \<le> of_int (bh_stakeAmount h) * winPayoutMultiplier (bg_config g)"
    "snd (settledHandOutcome g h) = 0 \<longleftrightarrow> fst (settledHandOutcome g h) \<in> {OutBust, OutLose}"
    "fst (settledHandOutcome g h) = OutWin \<Longrightarrow>
       snd (settledHandOutcome g h) = of_int (bh_stakeAmount h) * winPayoutMultiplier (bg_config g)"
    "fst (settledHandOutcome g h) = OutPush \<Longrightarrow> snd (settledHandOutcome g h) = of_int (bh_stakeAmount h)"
  using assms by (auto simp: settledHandOutcome_cases payoutsOk_def Let_def split: if_splits)

lemma settledPayout_bounds:
  assumes "payoutsOk (bg_config g)" and "\<forall>h \<in> set (bg_playerHands g). 0 < bh_stakeAmount h"
  shows "0 \<le> settledPayout g" "settledPayout g \<le> of_int (stakes g) * winPayoutMultiplier (bg_config g)"
proof -
  let ?m = "winPayoutMultiplier (bg_config g)"
  have "\<forall>h \<in> set hs. 0 < bh_stakeAmount h \<Longrightarrow>
      0 \<le> (\<Sum>h\<leftarrow>hs. snd (settledHandOutcome g h)) \<and>
      (\<Sum>h\<leftarrow>hs. snd (settledHandOutcome g h)) \<le> of_int (\<Sum>h\<leftarrow>hs. bh_stakeAmount h) * ?m" for hs
  proof (induction hs)
    case (Cons h hs)
    with settledHandOutcome_bounds(1,2) [OF assms(1), of h] show ?case
      by (simp add: distrib_right)
  qed simp
  from this [OF assms(2)] show "0 \<le> settledPayout g" "settledPayout g \<le> of_int (stakes g) * ?m"
    by (simp_all add: settledPayout_def stakes_def resolveSettledHandOutcomes_def comp_def)
qed

lemma stakes_pos:
  "hs \<noteq> [] \<Longrightarrow> \<forall>h \<in> set hs. 0 < bh_stakeAmount h \<Longrightarrow> 0 < (\<Sum>h\<leftarrow>hs. bh_stakeAmount h)"
  by (induction hs rule: list_nonempty_induct) auto

text \<open>The side of the stake a status puts the player on: ahead, even, behind.\<close>

fun statusSign :: "bj_status \<Rightarrow> int" where
  "statusSign PlayerBlackjack = 1"
| "statusSign DealerBust = 1"
| "statusSign PlayerWin = 1"
| "statusSign BjPush = 0"
| "statusSign BjActive = 0"
| "statusSign _ = - 1"

text \<open>
  The status a game is closed with tells the truth about the money: the player is paid
  more than was staked, exactly the stake, or less, as the status says won, push or lost,
  for one hand and for any number of split hands.
\<close>

theorem status_tells_result:
  assumes "payoutsOk (bg_config g)" and hands: "bg_playerHands g \<noteq> []"
    and stake: "\<forall>h \<in> set (bg_playerHands g). 0 < bh_stakeAmount h" and total: "bg_totalStake g = stakes g"
  shows "sgn (settledPayout g - of_int (bg_totalStake g)) = of_int (statusSign (settledStatus g)) \<and>
    settledStatus g \<noteq> BjActive"
proof (cases "length (bg_playerHands g) = 1")
  case True
  then obtain h where h: "bg_playerHands g = [h]" by (cases "bg_playerHands g") auto
  let ?o = "settledHandOutcome g h" and ?s = "of_int (bh_stakeAmount h) :: rat"
  have s: "0 < ?s" using stake h by simp
  have pay: "settledPayout g = snd ?o" "bg_totalStake g = bh_stakeAmount h"
    using h total by (simp_all add: settledPayout_def resolveSettledHandOutcomes_def stakes_def)
  have win: "?s < ?s * winPayoutMultiplier (bg_config g)"
    using s assms(1) by (simp add: payoutsOk_def)
  show ?thesis
    using s win assms(1)
    by (auto simp: pay settledStatus_def resolveAggregateSettledStatus_def h Let_def payoutsOk_def
        resolveSettledHandOutcomes_def settledHandOutcome_cases score_bust split: if_splits)
next
  case False
  let ?t = "of_int (bg_totalStake g) :: rat" and ?m = "winPayoutMultiplier (bg_config g)"
  let ?outs = "resolveSettledHandOutcomes g"
  have t: "0 < ?t" using stakes_pos [OF hands stake] by (simp add: total stakes_def)
  have win: "?t < ?t * ?m" using t assms(1) by (simp add: payoutsOk_def)
  have bust: "settledPayout g = 0" if "list_all (\<lambda>x. fst x = OutBust) ?outs"
  proof -
    have "\<forall>h \<in> set (bg_playerHands g). snd (settledHandOutcome g h) = 0"
      using that settledHandOutcome_bounds(3) [OF assms(1)] stake
      by (auto simp: list_all_iff resolveSettledHandOutcomes_def)
    then show ?thesis
      by (simp add: settledPayout_def resolveSettledHandOutcomes_def sum_list_zeroI)
  qed
  have all: "settledPayout g = ?t * ?m" if "list_all (\<lambda>x. fst x = OutWin) ?outs"
  proof -
    have "\<forall>h \<in> set (bg_playerHands g). snd (settledHandOutcome g h) = of_int (bh_stakeAmount h) * ?m"
      using that settledHandOutcome_bounds(4) [OF assms(1)] stake
      by (auto simp: list_all_iff resolveSettledHandOutcomes_def)
    then have "settledPayout g = (\<Sum>h\<leftarrow>bg_playerHands g. of_int (bh_stakeAmount h) * ?m)"
      by (auto simp: settledPayout_def resolveSettledHandOutcomes_def comp_def intro!: sum_list_congI)
    then show ?thesis by (simp add: total stakes_def sum_list_mult_const of_int_sum_list)
  qed
  show ?thesis
    using False bust all t win
    by (auto simp: settledStatus_def resolveAggregateSettledStatus_def Let_def
        simp flip: settledPayout_def)
qed

definition sampleHands :: bj_game where
  "sampleHands =
     \<lparr>bg_id = 1, bg_userId = 7, bg_stakeAmount = 500, bg_totalStake = 1000, bg_payoutAmount = 0,
      bg_playerCards = [], bg_dealerCards = [\<lparr>rank = R10, suit = Spades\<rparr>, \<lparr>rank = R8, suit = Hearts\<rparr>],
      bg_deck = [], bg_nextCardIndex = 0, bg_status = BjActive, bg_turnDeadlineAt = None,
      bg_settledAt = None, bg_config = BLACKJACK_CONFIG, bg_table = buildBlackjackTable 7 1 ''n'' None,
      bg_playerHands =
        [\<lparr>bh_cards = [\<lparr>rank = R8, suit = Spades\<rparr>, \<lparr>rank = RA, suit = Clubs\<rparr>], bh_stakeAmount = 500,
          bh_state = HandStood, bh_splitFromAces = False\<rparr>,
         \<lparr>bh_cards = [\<lparr>rank = R8, suit = Diamonds\<rparr>, \<lparr>rank = R9, suit = Clubs\<rparr>], bh_stakeAmount = 500,
          bh_state = HandStood, bh_splitFromAces = False\<rparr>],
      bg_activeHandIndex = None, bg_linkedGroup = None\<rparr>"

text \<open>One hand wins and one loses: an even result.\<close>

theorem status_tells_result_witness:
  "sgn (settledPayout sampleHands - 1000) = of_int (statusSign (settledStatus sampleHands)) \<and>
     settledStatus sampleHands = BjPush"
proof -
  have "settledStatus sampleHands = BjPush"
    by (simp add: settledStatus_def resolveAggregateSettledStatus_def resolveSettledHandOutcomes_def
        settledHandOutcome_cases scoreBlackjackCards_def Let_def sampleHands_def BLACKJACK_CONFIG_def)
  with status_tells_result [of sampleHands] show ?thesis
    by (simp add: sampleHands_def payoutsOk_def BLACKJACK_CONFIG_def stakes_def)
qed

end
