(* ===== verification/Blackjack_Turns.thy ===== *)
theory Blackjack_Turns
  imports Blackjack_Rules
begin

text \<open>
  The invariant of a blackjack game and the operations on the game alone that keep it: the
  cards on the table are the ones dealt from a shuffled deck, the hands are staked and within
  bounds, and while a game is active one hand is played and the later ones wait.
\<close>

subsection \<open>The invariant\<close>

definition dealt :: "bj_game \<Rightarrow> card list" where
  "dealt g = concat (map bh_cards (bg_playerHands g)) @ bg_dealerCards g"

definition cardsOk :: "bj_game \<Rightarrow> bool" where
  "cardsOk g = (deckOk (bg_deck g) \<and> bg_nextCardIndex g \<le> 52 \<and>
     mset (dealt g) = mset (take (bg_nextCardIndex g) (bg_deck g)))"

definition handOk :: "bj_hand \<Rightarrow> bool" where
  "handOk h = (0 < bh_stakeAmount h \<and> 2 \<le> length (bh_cards h) \<and> hardTotal (bh_cards h) \<le> 30)"

definition configOk :: "bj_config \<Rightarrow> bool" where
  "configOk cfg = (payoutsOk cfg \<and> of_int \<lfloor>winPayoutMultiplier cfg\<rfloor> = winPayoutMultiplier cfg \<and>
     1 \<le> maxSplitHands cfg \<and> maxSplitHands cfg \<le> 8)"

definition gameOk :: "bj_game \<Rightarrow> bool" where
  "gameOk g = (cardsOk g \<and> configOk (bg_config g) \<and> bg_playerHands g \<noteq> [] \<and>
     length (bg_playerHands g) \<le> maxSplitHands (bg_config g) \<and>
     list_all handOk (bg_playerHands g) \<and> bg_totalStake g = stakes g)"

text \<open>One hand is played; the ones before it are over, the ones after it wait.\<close>

definition turnAt :: "nat \<Rightarrow> bj_hand list \<Rightarrow> bool" where
  "turnAt i hs = (i < length hs \<and> bh_state (hs ! i) = HandActive \<and>
     (\<forall>j < i. bh_state (hs ! j) \<in> {HandStood, HandBust}) \<and>
     (\<forall>j. i < j \<and> j < length hs \<longrightarrow> bh_state (hs ! j) = HandWaiting))"

definition openGame :: "bj_game \<Rightarrow> bool" where
  "openGame g = (bg_status g = BjActive \<and> length (bg_dealerCards g) = 2)"

definition turnOk :: "bj_game \<Rightarrow> bool" where
  "turnOk g = (openGame g \<and> (\<exists>i. bg_activeHandIndex g = Some i \<and> turnAt i (bg_playerHands g)))"

definition handsDone :: "bj_game \<Rightarrow> bool" where
  "handsDone g = (openGame g \<and> bg_activeHandIndex g = None \<and>
     (\<forall>h \<in> set (bg_playerHands g). bh_state h \<in> {HandStood, HandBust}))"

lemma turnOk_active:
  assumes "turnOk g"
  obtains i h where "bg_activeHandIndex g = Some i" and "turnAt i (bg_playerHands g)"
    and "h = bg_playerHands g ! i" and "getActivePlayerHand g = Some h" and "h \<in> set (bg_playerHands g)"
  using assms by (auto simp: turnOk_def turnAt_def getActivePlayerHand_def)

subsection \<open>The cards that are left\<close>

lemma hardTotal_mset: "mset as = mset bs \<Longrightarrow> hardTotal as = hardTotal bs"
  unfolding hardTotal_def by (metis mset_map sum_mset_sum_list)

lemma hardTotal_concat: "hardTotal (concat css) = (\<Sum>cs\<leftarrow>css. hardTotal cs)"
  by (induction css) auto

lemma hardTotal_le_length: "hardTotal cs \<le> 10 * length cs"
proof (induction cs)
  case (Cons c cs)
  then show ?case using hardValue_bounds(2) [of "rank c"] by simp
qed simp

lemma hands_hard: "list_all handOk hs \<Longrightarrow> (\<Sum>h\<leftarrow>hs. hardTotal (bh_cards h)) \<le> 30 * length hs"
  by (induction hs) (auto simp: handOk_def)

text \<open>With the dealer on two cards, most of the deck is still there.\<close>

lemma remaining_budget:
  assumes "gameOk g" and "length (bg_dealerCards g) = 2"
  shows "80 \<le> hardTotal (remaining g)"
proof -
  have "hardTotal (bg_deck g) = hardTotal (take (bg_nextCardIndex g) (bg_deck g)) + hardTotal (remaining g)"
    by (metis append_take_drop_id hardTotal_simps(3))
  moreover have "hardTotal (take (bg_nextCardIndex g) (bg_deck g)) = hardTotal (dealt g)"
    using assms(1) by (intro hardTotal_mset) (simp add: gameOk_def cardsOk_def)
  moreover have "hardTotal (dealt g) \<le> 30 * 8 + 10 * 2"
    using hands_hard [of "bg_playerHands g"] hardTotal_le_length [of "bg_dealerCards g"] assms
    by (simp add: dealt_def hardTotal_concat comp_def gameOk_def configOk_def)
  moreover have "hardTotal (bg_deck g) = 340"
    using assms(1) by (simp add: gameOk_def cardsOk_def deckOk_facts)
  ultimately show ?thesis by linarith
qed

lemma remaining_two:
  assumes "20 < hardTotal (drop n d)"
  obtains a b r where "drop n d = a # b # r" and "n + 2 \<le> length d" and "a = d ! n" and "b = d ! (n + 1)"
proof -
  have "2 \<le> length (drop n d)"
    using hardTotal_le_length [of "drop n d"] assms by linarith
  then have len: "n + 2 \<le> length d" by simp
  then have "drop n d = d ! n # d ! (n + 1) # drop (n + 2) d"
    by (simp add: Cons_nth_drop_Suc)
  with len show ?thesis using that by simp
qed

subsection \<open>Advancing leaves the cards and the stakes alone\<close>

definition handCore :: "bj_hand \<Rightarrow> card list \<times> cents \<times> bool" where
  "handCore h = (bh_cards h, bh_stakeAmount h, bh_splitFromAces h)"

definition sameHands :: "bj_game \<Rightarrow> bj_game \<Rightarrow> bool" where
  "sameHands g g' = (\<exists>hs ai pc. g' = g\<lparr>bg_playerHands := hs, bg_activeHandIndex := ai, bg_playerCards := pc\<rparr> \<and>
     map handCore hs = map handCore (bg_playerHands g))"

lemma handCore_map:
  assumes "map handCore hs = map handCore hs'"
  shows "map bh_cards hs = map bh_cards hs'" "map bh_stakeAmount hs = map bh_stakeAmount hs'"
    "list_all handOk hs = list_all handOk hs'" "length hs = length hs'"
proof -
  show len: "length hs = length hs'" using assms map_eq_imp_length_eq by blast
  have core: "\<And>i. i < length hs \<Longrightarrow> handCore (hs ! i) = handCore (hs' ! i)"
    using assms len by (metis nth_map)
  then show "map bh_cards hs = map bh_cards hs'" "map bh_stakeAmount hs = map bh_stakeAmount hs'"
    using len by (auto intro!: nth_equalityI simp: handCore_def)
  show "list_all handOk hs = list_all handOk hs'"
    using core len by (auto simp: list_all_length handOk_def handCore_def)
qed

lemma sameHands_refl: "sameHands g g"
  unfolding sameHands_def
  by (intro exI [of _ "bg_playerHands g"] exI [of _ "bg_activeHandIndex g"] exI [of _ "bg_playerCards g"]) simp

lemma sameHands_trans: "sameHands g g' \<Longrightarrow> sameHands g' g'' \<Longrightarrow> sameHands g g''"
  by (fastforce simp: sameHands_def)

lemma sameHands_frame [frame_simps]:
  assumes "sameHands g g'"
  shows "bg_id g' = bg_id g" "bg_userId g' = bg_userId g" "bg_stakeAmount g' = bg_stakeAmount g"
    "bg_totalStake g' = bg_totalStake g" "bg_payoutAmount g' = bg_payoutAmount g"
    "bg_dealerCards g' = bg_dealerCards g" "bg_deck g' = bg_deck g"
    "bg_nextCardIndex g' = bg_nextCardIndex g" "bg_status g' = bg_status g"
    "bg_config g' = bg_config g" "bg_table g' = bg_table g" "bg_linkedGroup g' = bg_linkedGroup g"
    "bg_settledAt g' = bg_settledAt g" "bg_turnDeadlineAt g' = bg_turnDeadlineAt g"
  using assms by (auto simp: sameHands_def)

lemma sameHands_gameOk:
  assumes "sameHands g g'"
  shows "gameOk g' = gameOk g" "stakes g' = stakes g" "openGame g' = openGame g"
proof -
  have core: "map handCore (bg_playerHands g') = map handCore (bg_playerHands g)"
    using assms by (auto simp: sameHands_def)
  note same = handCore_map [OF core] sameHands_frame [OF assms]
  show "stakes g' = stakes g" using same(2) by (simp add: stakes_def)
  moreover have "bg_playerHands g' = [] \<longleftrightarrow> bg_playerHands g = []"
    using same(4) by (metis length_0_conv)
  ultimately show "gameOk g' = gameOk g"
    using same(1) by (simp add: gameOk_def cardsOk_def dealt_def same(3-))
  show "openGame g' = openGame g" by (simp add: openGame_def same(3-))
qed

lemma sameHands_syncLegacy: "sameHands g (syncLegacyPlayerCards g)"
proof -
  have "\<exists>pc. syncLegacyPlayerCards g = g\<lparr>bg_playerCards := pc\<rparr>"
    by (auto simp: syncLegacyPlayerCards_def split: option.split intro: exI [of _ "bg_playerCards g"])
  then obtain pc where "syncLegacyPlayerCards g =
      g\<lparr>bg_playerHands := bg_playerHands g, bg_activeHandIndex := bg_activeHandIndex g, bg_playerCards := pc\<rparr>"
    by auto
  then show ?thesis unfolding sameHands_def by blast
qed

lemma sameHands_states:
  "map handCore hs = map handCore (bg_playerHands g) \<Longrightarrow>
     sameHands g (g\<lparr>bg_playerHands := hs, bg_activeHandIndex := ai\<rparr>)"
  unfolding sameHands_def
  by (intro exI [of _ hs] exI [of _ ai] exI [of _ "bg_playerCards g"]) simp

lemma handCore_update:
  "handCore (f (hs ! i)) = handCore (hs ! i) \<Longrightarrow> map handCore (hs[i := f (hs ! i)]) = map handCore hs"
  by (metis list_update_id map_update)

subsection \<open>Advancing the turn\<close>

lemma nextWaitingHand_turnAt:
  assumes "turnAt i hs"
  shows "nextWaitingHand (hs[i := h]) (i + 1) = (if i + 1 < length hs then Some (i + 1) else None)"
proof (cases "i + 1 < length hs")
  case True
  then have "drop (i + 1) (hs[i := h]) = hs ! (i + 1) # drop (i + 2) hs"
    by (simp add: Cons_nth_drop_Suc)
  with True assms show ?thesis by (simp add: nextWaitingHand_def turnAt_def)
qed (simp add: nextWaitingHand_def)

lemma advancePlayerHand_ok:
  assumes "turnOk g" and ns: "ns \<in> {HandStood, HandBust}"
  shows "\<exists>g' b. advancePlayerHand g ns = Inr (g', b) \<and> sameHands g g' \<and>
    (if b then handsDone g' else turnOk g')"
proof -
  let ?hs = "bg_playerHands g"
  from assms(1) obtain i where i: "bg_activeHandIndex g = Some i" and at: "turnAt i ?hs"
    by (auto simp: turnOk_def)
  have opn: "openGame g" using assms(1) by (simp add: turnOk_def)
  have bound: "i < length ?hs" using at by (simp add: turnAt_def)
  let ?h = "(?hs ! i)\<lparr>bh_state := ns\<rparr>"
  let ?hs1 = "?hs[i := ?h]"
  have core1: "map handCore ?hs1 = map handCore ?hs"
    by (rule handCore_update) (simp add: handCore_def)
  show ?thesis
  proof (cases "i + 1 < length ?hs")
    case True
    let ?hs2 = "?hs1[i + 1 := (?hs1 ! (i + 1))\<lparr>bh_state := HandActive\<rparr>]"
    let ?g = "g\<lparr>bg_playerHands := ?hs2, bg_activeHandIndex := Some (i + 1)\<rparr>"
    have run: "advancePlayerHand g ns = Inr (syncLegacyPlayerCards ?g, False)"
      using i bound nextWaitingHand_turnAt [OF at, of ?h] True
      by (simp add: advancePlayerHand_def updateHand_def Let_def)
    have "map handCore ?hs2 = map handCore ?hs1"
      by (rule handCore_update) (simp add: handCore_def)
    then have same: "sameHands g ?g" using core1 by (intro sameHands_states) simp
    have "turnAt (i + 1) ?hs2"
      using at True ns by (auto simp: turnAt_def nth_list_update less_Suc_eq)
    then have "turnOk ?g" using opn by (auto simp: turnOk_def openGame_def)
    then have "turnOk (syncLegacyPlayerCards ?g)"
      by (auto simp: turnOk_def openGame_def)
    with run same sameHands_syncLegacy sameHands_trans show ?thesis by fastforce
  next
    case False
    let ?g = "g\<lparr>bg_playerHands := ?hs1, bg_activeHandIndex := None\<rparr>"
    have run: "advancePlayerHand g ns = Inr (syncLegacyPlayerCards ?g, True)"
      using i bound nextWaitingHand_turnAt [OF at, of ?h] False
      by (simp add: advancePlayerHand_def updateHand_def Let_def)
    have same: "sameHands g ?g" using core1 by (rule sameHands_states)
    have last: "i = length ?hs - 1" using False bound by simp
    have "\<forall>h \<in> set ?hs1. bh_state h \<in> {HandStood, HandBust}"
    proof
      fix h assume "h \<in> set ?hs1"
      then obtain j where j: "j < length ?hs" "h = ?hs1 ! j" by (auto simp: in_set_conv_nth)
      with last at ns show "bh_state h \<in> {HandStood, HandBust}"
        by (cases "j = i") (auto simp: turnAt_def)
    qed
    then have "handsDone (syncLegacyPlayerCards ?g)"
      using opn by (simp add: handsDone_def openGame_def)
    with run same sameHands_syncLegacy sameHands_trans show ?thesis by fastforce
  qed
qed

text \<open>The player has something to decide.\<close>

definition mustDecide :: "bj_game \<Rightarrow> bool" where
  "mustDecide g = (\<exists>h. getActivePlayerHand g = Some h \<and> sc_total (scoreBlackjackCards (bh_cards h)) < 21)"

lemma getActive_syncLegacy [simp]: "getActivePlayerHand (syncLegacyPlayerCards g) = getActivePlayerHand g"
  by (simp add: getActivePlayerHand_def split: option.split)

lemma autoAdvance_cases:
  "autoAdvance g h w = Some ns \<Longrightarrow> ns \<in> {HandStood, HandBust}"
  "autoAdvance g h w = None \<Longrightarrow> sc_total (scoreBlackjackCards (bh_cards h)) < 21"
  by (auto simp: autoAdvance_def Let_def score_bust split: if_splits)

lemma advanceResolvableHands_ok:
  "turnOk g \<Longrightarrow> \<exists>g' b evs. advanceResolvableHands g w = Inr (g', b, evs) \<and> sameHands g g' \<and>
     (if b then handsDone g' else turnOk g' \<and> mustDecide g')"
proof (induction g w rule: advanceResolvableHands.induct)
  case (1 g w)
  from 1(2) obtain i h where h: "getActivePlayerHand g = Some h" by (rule turnOk_active) blast
  show ?case
  proof (cases "autoAdvance g h w")
    case None
    then have "mustDecide (syncLegacyPlayerCards g)"
      using h autoAdvance_cases(2) by (auto simp: mustDecide_def)
    moreover have "turnOk (syncLegacyPlayerCards g)"
      using 1(2) by (auto simp: turnOk_def openGame_def)
    ultimately show ?thesis
      using None h sameHands_syncLegacy
      by (intro exI [of _ "syncLegacyPlayerCards g"] exI [of _ False] exI [of _ "[]"])
        (simp add: advanceResolvableHands.simps [of g w])
  next
    case (Some ns)
    from advancePlayerHand_ok [OF 1(2) autoAdvance_cases(1) [OF Some]] obtain g1 b1 where
      adv: "advancePlayerHand g ns = Inr (g1, b1)" and same: "sameHands g g1"
      and res: "if b1 then handsDone g1 else turnOk g1" by blast
    show ?thesis
    proof (cases b1)
      case True
      with adv same res Some h show ?thesis
        by (intro exI [of _ g1] exI [of _ True] exI)
          (simp add: advanceResolvableHands.simps [of g w] Let_def)
    next
      case False
      with res have "turnOk g1" by simp
      from 1(1) [OF h Some refl refl adv refl _ this] False obtain g2 b2 evs where
        rest: "advanceResolvableHands g1 w = Inr (g2, b2, evs)" and same2: "sameHands g1 g2"
        and fin: "if b2 then handsDone g2 else turnOk g2 \<and> mustDecide g2" by blast
      have "sameHands g g2" using same same2 by (rule sameHands_trans)
      moreover have "\<exists>evs. advanceResolvableHands g w = Inr (g2, b2, evs)"
        using rest adv False Some h by (simp add: advanceResolvableHands.simps [of g w] Let_def)
      ultimately show ?thesis using fin by blast
    qed
  qed
qed

end
