(* ===== verification/Blackjack_World.thy ===== *)
theory Blackjack_World
  imports Blackjack_Turns
begin

text \<open>
  Games at rest in the database, and the handlers that take one from rest to rest: a game
  that is active waits for a decision of its player under a deadline, a settled one is
  closed; the wallet, the prize pool and their ledgers account for every stake and payout.
\<close>

subsection \<open>Games at rest\<close>

abbreviation rest :: "bj_game \<Rightarrow> bj_game" where
  "rest g \<equiv> syncBlackjackTableTurnState (syncLegacyPlayerCards g)"

lemma syncTable_frame [frame_simps]:
  "bg_id (syncBlackjackTableTurnState g) = bg_id g"
  "bg_userId (syncBlackjackTableTurnState g) = bg_userId g"
  "bg_stakeAmount (syncBlackjackTableTurnState g) = bg_stakeAmount g"
  "bg_totalStake (syncBlackjackTableTurnState g) = bg_totalStake g"
  "bg_payoutAmount (syncBlackjackTableTurnState g) = bg_payoutAmount g"
  "bg_playerCards (syncBlackjackTableTurnState g) = bg_playerCards g"
  "bg_dealerCards (syncBlackjackTableTurnState g) = bg_dealerCards g"
  "bg_deck (syncBlackjackTableTurnState g) = bg_deck g"
  "bg_nextCardIndex (syncBlackjackTableTurnState g) = bg_nextCardIndex g"
  "bg_status (syncBlackjackTableTurnState g) = bg_status g"
  "bg_turnDeadlineAt (syncBlackjackTableTurnState g) = bg_turnDeadlineAt g"
  "bg_settledAt (syncBlackjackTableTurnState g) = bg_settledAt g"
  "bg_config (syncBlackjackTableTurnState g) = bg_config g"
  "bg_playerHands (syncBlackjackTableTurnState g) = bg_playerHands g"
  "bg_activeHandIndex (syncBlackjackTableTurnState g) = bg_activeHandIndex g"
  "bg_linkedGroup (syncBlackjackTableTurnState g) = bg_linkedGroup g"
  by (simp_all add: syncBlackjackTableTurnState_def Let_def)

lemma getActive_cong:
  "bg_activeHandIndex g' = bg_activeHandIndex g \<Longrightarrow> bg_playerHands g' = bg_playerHands g \<Longrightarrow>
     getActivePlayerHand g' = getActivePlayerHand g \<and> getPrimaryPlayerHand g' = getPrimaryPlayerHand g"
  by (simp add: getActivePlayerHand_def getPrimaryPlayerHand_def split: option.split)

lemma pending_cong:
  "bg_activeHandIndex g' = bg_activeHandIndex g \<Longrightarrow> bg_playerHands g' = bg_playerHands g \<Longrightarrow>
     bg_status g' = bg_status g \<Longrightarrow> hasPendingPlayerTurn g' = hasPendingPlayerTurn g"
  using getActive_cong [of g' g] by (simp add: hasPendingPlayerTurn_def)

lemma syncTable_idem:
  "syncBlackjackTableTurnState (syncBlackjackTableTurnState g) = syncBlackjackTableTurnState g"
  using pending_cong [of "syncBlackjackTableTurnState g" g]
  by (simp add: frame_simps) (simp add: syncBlackjackTableTurnState_def Let_def comp_def)

definition currentCards :: "bj_game \<Rightarrow> card list" where
  "currentCards g = (case getActivePlayerHand g of Some h \<Rightarrow> bh_cards h
     | None \<Rightarrow> (case getPrimaryPlayerHand g of Some h \<Rightarrow> bh_cards h | None \<Rightarrow> bg_playerCards g))"

lemma syncLegacy_cards: "syncLegacyPlayerCards g = g\<lparr>bg_playerCards := currentCards g\<rparr>"
  by (simp add: syncLegacyPlayerCards_def currentCards_def split: option.split)

lemma rest_idem: "rest (rest g) = rest g"
proof -
  have "bg_playerCards (rest g) = currentCards g"
    by (simp add: frame_simps) (simp add: syncLegacy_cards)
  moreover have "currentCards (rest g) = currentCards g"
    using getActive_cong [of "rest g" g] calculation
    by (simp add: currentCards_def frame_simps split: option.split)
  ultimately have "syncLegacyPlayerCards (rest g) = rest g"
    by (subst syncLegacy_cards) (metis (no_types, lifting) bj_game.surjective bj_game.update_convs(6))
  then show ?thesis by (simp add: syncTable_idem)
qed

definition seatsOk :: "bj_game \<Rightarrow> bool" where
  "seatsOk g = (map (\<lambda>s. (bs_seatIndex s, bs_participantId s)) (bt_seats (bg_table g)) =
     [(0, BLACKJACK_AI_DEALER_ID), (1, ''user:'' @ show_digits (bg_userId g))])"

definition restOk :: "bj_game \<Rightarrow> bool" where
  "restOk g = (gameOk g \<and> seatsOk g \<and> rest g = g \<and>
     (if bg_status g = BjActive then
        turnOk g \<and> mustDecide g \<and> bg_payoutAmount g = 0 \<and> bg_turnDeadlineAt g \<noteq> None
      else bg_activeHandIndex g = None \<and> bg_turnDeadlineAt g = None \<and> 0 \<le> bg_payoutAmount g))"

lemma seatsOk_rest: "seatsOk (rest g) = seatsOk g"
  by (simp add: seatsOk_def frame_simps)
    (simp add: syncBlackjackTableTurnState_def Let_def comp_def)

lemma gameOk_cong:
  assumes "bg_deck g' = bg_deck g" "bg_nextCardIndex g' = bg_nextCardIndex g"
    "bg_playerHands g' = bg_playerHands g" "bg_dealerCards g' = bg_dealerCards g"
    "bg_config g' = bg_config g" "bg_totalStake g' = bg_totalStake g"
  shows "gameOk g' = gameOk g"
  by (simp add: gameOk_def cardsOk_def dealt_def stakes_def assms)

lemma turnOk_cong:
  "bg_status g' = bg_status g \<Longrightarrow> bg_dealerCards g' = bg_dealerCards g \<Longrightarrow>
     bg_activeHandIndex g' = bg_activeHandIndex g \<Longrightarrow> bg_playerHands g' = bg_playerHands g \<Longrightarrow>
     turnOk g' = turnOk g \<and> mustDecide g' = mustDecide g \<and> handsDone g' = handsDone g"
  using getActive_cong [of g' g] by (simp add: turnOk_def openGame_def mustDecide_def handsDone_def)

lemma rest_cong:
  "gameOk (rest g) = gameOk g" "turnOk (rest g) = turnOk g" "mustDecide (rest g) = mustDecide g"
  using turnOk_cong [of "rest g" g] gameOk_cong [of "rest g" g] by (simp_all add: frame_simps)

lemma pending_mustDecide:
  "turnOk g \<Longrightarrow> mustDecide g \<Longrightarrow> hasPendingPlayerTurn g"
  by (auto simp: turnOk_def openGame_def mustDecide_def hasPendingPlayerTurn_def turnAt_def
      getActivePlayerHand_def Let_def score_bust split: if_splits)

text \<open>A row at rest is loaded as it is, and it is the player's turn.\<close>

lemma restOk_loads:
  assumes "restOk g" and "bg_status g = BjActive"
  shows "toGameState g = g" "assertCurrentTurnSeat (bg_userId g) g = Inr ()"
proof -
  have turn: "turnOk g" "mustDecide g" and at: "rest g = g" and ne: "bg_playerHands g \<noteq> []"
    using assms by (auto simp: restOk_def gameOk_def)
  obtain i where i: "bg_activeHandIndex g = Some i" "i < length (bg_playerHands g)"
    using turn(1) by (auto simp: turnOk_def turnAt_def)
  have "min i (length (bg_playerHands g) - 1) = i" using i by simp
  moreover have "rest (g\<lparr>bg_activeHandIndex := Some i\<rparr>) = rest g"
    using i(1) by (intro arg_cong [of _ _ rest]) simp
  ultimately show "toGameState g = g" using i ne assms(2) at by (simp add: toGameState_def Let_def)
  have "bt_currentTurnSeatIndex (bg_table (rest g)) = Some 1"
    using pending_mustDecide [OF turn] pending_cong [of "syncLegacyPlayerCards g" g]
    by (simp add: syncBlackjackTableTurnState_def Let_def)
  then have current: "bt_currentTurnSeatIndex (bg_table g) = Some 1" by (simp add: at)
  have "seatsOk g" using assms by (simp add: restOk_def)
  then obtain d p where "bt_seats (bg_table g) = [d, p]" "bs_seatIndex d = 0" "bs_seatIndex p = 1"
    "bs_participantId p = ''user:'' @ show_digits (bg_userId g)"
    by (auto simp: seatsOk_def)
  with current show "assertCurrentTurnSeat (bg_userId g) g = Inr ()"
    by (simp add: assertCurrentTurnSeat_def)
qed

subsection \<open>Money in flight\<close>

definition moneyOk :: "cents \<Rightarrow> cents \<Rightarrow> rat \<Rightarrow> bj_world \<Rightarrow> bool" where
  "moneyOk w0 p0 wallet w = (bankOk w0 p0 (bw_bank w) \<and> bankMoney (bw_bank w) = w0 + p0 \<and>
     0 \<le> withdrawableBalance (bw_bank w) \<and> wallet = of_int (withdrawableBalance (bw_bank w)))"

text \<open>What a game has brought its player so far.\<close>

definition net :: "bj_game \<Rightarrow> cents" where
  "net g = bg_payoutAmount g - bg_totalStake g"

definition replaceRow :: "bj_game \<Rightarrow> bj_game list \<Rightarrow> bj_game list" where
  "replaceRow g rows = map (\<lambda>r. if bg_id r = bg_id g then g else r) rows"

text \<open>
  The outcome of a handler that took up game \<open>g\<close> when the wallet without \<open>g\<close>'s share was
  \<open>n\<close> and the table held \<open>rows\<close>.
\<close>

definition flightOk ::
  "cents \<Rightarrow> cents \<Rightarrow> cents \<Rightarrow> bj_game list \<Rightarrow> bj_game \<Rightarrow> bj_flight \<Rightarrow> bool" where
  "flightOk w0 p0 n rows g f = (case f of (g', wallet', w') \<Rightarrow>
     restOk g' \<and> bg_id g' = bg_id g \<and> bg_userId g' = bg_userId g \<and> moneyOk w0 p0 wallet' w' \<and>
     withdrawableBalance (bw_bank w') - net g' = n \<and> bw_games w' = replaceRow g' rows)"

lemma persistGameState_eq:
  "persistGameState g w = (rest g, w\<lparr>bw_games := replaceRow (rest g) (bw_games w)\<rparr>)"
  by (simp add: persistGameState_def Let_def replaceRow_def)

lemma payOut_ok:
  assumes "moneyOk w0 p0 wallet w" and "0 \<le> c"
  shows "\<exists>wallet' w'. payOut g wallet (of_int c) w = (rest g, wallet', w') \<and> moneyOk w0 p0 wallet' w' \<and>
    withdrawableBalance (bw_bank w') = withdrawableBalance (bw_bank w) + c \<and>
    bw_games w' = replaceRow (rest g) (bw_games w)"
proof -
  obtain bk wallet' where run: "applyTransactionalGamePayoutCredit wallet (of_int c) ''blackjack_payout''
      (Some (bg_id (rest g))) (bw_bank w) = (bk, wallet')"
    by fastforce
  have m: "bankOk w0 p0 (bw_bank w)" "wallet = of_int (withdrawableBalance (bw_bank w))"
    using assms(1) by (simp_all add: moneyOk_def)
  from payoutCredit_ok [OF m assms(2) run] run assms show ?thesis
    by (simp add: payOut_def persistGameState_eq applyPayoutCredit_def moneyOk_def)
qed

subsection \<open>Settlement\<close>

lemma settledHandOutcome_whole:
  assumes "configOk (bg_config g)"
  shows "\<exists>c. snd (settledHandOutcome g h) = of_int c"
proof -
  have "winPayoutMultiplier (bg_config g) = of_int \<lfloor>winPayoutMultiplier (bg_config g)\<rfloor>"
    using assms unfolding configOk_def by metis
  moreover have "pushPayoutMultiplier (bg_config g) = of_int 1"
    using assms by (simp add: configOk_def payoutsOk_def)
  ultimately have "\<exists>c. of_int (bh_stakeAmount h) * winPayoutMultiplier (bg_config g) = of_int c"
    "\<exists>c. of_int (bh_stakeAmount h) * pushPayoutMultiplier (bg_config g) = of_int c"
    by (metis of_int_mult)+
  moreover have "\<exists>c. (0 :: rat) = of_int c" by (rule exI [of _ 0]) simp
  ultimately show ?thesis by (simp add: settledHandOutcome_cases Let_def)
qed

lemma settledPayout_whole:
  assumes "gameOk g"
  obtains c where "settledPayout g = of_int c" and "0 \<le> c"
proof -
  have "\<exists>c. (\<Sum>h\<leftarrow>hs. snd (settledHandOutcome g h)) = of_int c" for hs
  proof (induction hs)
    case (Cons h hs)
    moreover obtain c where "snd (settledHandOutcome g h) = of_int c"
      using settledHandOutcome_whole assms by (auto simp: gameOk_def)
    ultimately show ?case by (auto simp flip: of_int_add)
  qed (auto intro: exI [of _ 0])
  then obtain c where c: "settledPayout g = of_int c"
    by (auto simp: settledPayout_def resolveSettledHandOutcomes_def comp_def)
  moreover have "0 \<le> settledPayout g"
    using assms by (intro settledPayout_bounds) (auto simp: gameOk_def configOk_def list_all_iff handOk_def)
  ultimately show ?thesis using that by simp
qed

lemma settledStatus_closed: "settledStatus g \<noteq> BjActive"
  by (simp add: settledStatus_def resolveAggregateSettledStatus_def Let_def)

lemma playDealerHand_game:
  assumes ok: "gameOk g" and two: "length (bg_dealerCards g) = 2"
  obtains g' k where "playDealerHand g = Inr g'" and "gameOk g'"
    and "g' = g\<lparr>bg_dealerCards := bg_dealerCards g @ take k (remaining g),
      bg_nextCardIndex := bg_nextCardIndex g + k\<rparr>"
proof -
  have "18 \<le> hardTotal (bg_dealerCards g) + hardTotal (remaining g)"
    using remaining_budget [OF assms] by simp
  from playDealerHand_ok [OF this] obtain g' where run: "playDealerHand g = Inr g'" ..
  from playDealerHand_spec [OF run] obtain k where k: "k \<le> length (remaining g)"
    and g': "g' = g\<lparr>bg_dealerCards := bg_dealerCards g @ take k (remaining g),
      bg_nextCardIndex := bg_nextCardIndex g + k\<rparr>" by blast
  have cards: "deckOk (bg_deck g)" "bg_nextCardIndex g \<le> 52"
    "mset (dealt g) = mset (take (bg_nextCardIndex g) (bg_deck g))"
    using ok by (simp_all add: gameOk_def cardsOk_def)
  then have "bg_nextCardIndex g + k \<le> 52" using k by (simp add: deckOk_facts)
  moreover have "mset (dealt g') = mset (take (bg_nextCardIndex g + k) (bg_deck g))"
    using cards(3) by (simp add: g' dealt_def take_add add.assoc)
  ultimately have "gameOk g'"
    using ok cards(1) by (simp add: gameOk_def cardsOk_def stakes_def g')
  with run g' that show ?thesis by blast
qed

lemma restOk_closed:
  assumes "gameOk g" and "seatsOk g" and "status \<noteq> BjActive" and "0 \<le> c"
  shows "restOk (rest (closeGame t status (of_int c) g))"
  using assms gameOk_cong [of "closeGame t status (of_int c) g" g]
  by (simp add: restOk_def rest_idem rest_cong seatsOk_rest frame_simps)
    (simp add: closeGame_def seatsOk_def)

lemma settleResolvedHands_ok:
  assumes ok: "gameOk g" "handsDone g" "seatsOk g" "bg_payoutAmount g = 0"
    and money: "moneyOk w0 p0 wallet w"
  shows "\<exists>f. settleResolvedHands env g wallet w = Inr f \<and>
    flightOk w0 p0 (withdrawableBalance (bw_bank w) - net g) (bw_games w) g f \<and> bg_status (fst f) \<noteq> BjActive"
proof -
  have two: "length (bg_dealerCards g) = 2" using ok(2) by (simp add: handsDone_def openGame_def)
  from playDealerHand_game [OF ok(1) two] obtain g1 k where play: "playDealerHand g = Inr g1"
    and ok1: "gameOk g1" and g1: "g1 = g\<lparr>bg_dealerCards := bg_dealerCards g @ take k (remaining g),
      bg_nextCardIndex := bg_nextCardIndex g + k\<rparr>" .
  from settledPayout_whole [OF ok1] obtain c where c: "settledPayout g1 = of_int c" "0 \<le> c" .
  let ?g = "closeGame (be_now env) (settledStatus g1) (of_int c) g1"
  have run: "settleResolvedHands env g wallet w = Inr (payOut ?g wallet (of_int c) w)"
    using c(1) by (simp add: settleResolvedHands_def play Let_def flip: settledPayout_def settledStatus_def)
  have rest: "restOk (rest ?g)"
    by (rule restOk_closed) (use ok1 ok(3) settledStatus_closed c(2) in \<open>auto simp: g1 seatsOk_def\<close>)
  have "net (rest ?g) = net g + c"
    using ok(4) by (simp add: net_def frame_simps closeGame_def) (simp add: g1)
  moreover have "bg_id (rest ?g) = bg_id g" "bg_userId (rest ?g) = bg_userId g"
    by (simp_all add: frame_simps closeGame_def g1)
  moreover have "bg_status (rest ?g) \<noteq> BjActive"
    using settledStatus_closed by (simp add: frame_simps closeGame_def)
  ultimately show ?thesis
    using run rest payOut_ok [OF money c(2), of ?g] by (auto simp: flightOk_def)
qed

end
