(* ===== verification/Blackjack_Play.thy ===== *)
theory Blackjack_Play
  imports Blackjack_World
begin

text \<open>
  Every handler of the blackjack service from a game at rest: which of its requests it
  refuses, and that it otherwise ends with a game at rest, the money accounted for.
\<close>

subsection \<open>Finishing a turn\<close>

lemma seatsOk_cong:
  "bg_table g' = bg_table g \<Longrightarrow> bg_userId g' = bg_userId g \<Longrightarrow> seatsOk g' = seatsOk g"
  by (simp add: seatsOk_def)

lemma syncBlackjackTurnDeadline_open:
  assumes "turnOk g" and "mustDecide g"
  shows "syncBlackjackTurnDeadline env g =
    syncBlackjackTableTurnState (g\<lparr>bg_turnDeadlineAt := Some (be_now env + be_timeoutMs env)\<rparr>)"
  using assms
  by (auto simp: syncBlackjackTurnDeadline_def mustDecide_def turnOk_def openGame_def turnAt_def
      getActivePlayerHand_def Let_def score_bust buildBlackjackTurnDeadline_def split: if_splits)

lemma syncLegacy_table_commute:
  "rest (syncBlackjackTableTurnState g) = rest g"
proof -
  let ?g = "syncBlackjackTableTurnState g"
  have cards: "currentCards ?g = currentCards g"
    using getActive_cong [of ?g g] by (simp add: currentCards_def frame_simps split: option.split)
  have "hasPendingPlayerTurn (syncLegacyPlayerCards ?g) = hasPendingPlayerTurn g"
    "hasPendingPlayerTurn (syncLegacyPlayerCards g) = hasPendingPlayerTurn g"
    using pending_cong [of "syncLegacyPlayerCards ?g" g] pending_cong [of "syncLegacyPlayerCards g" g]
    by (simp_all add: frame_simps)
  then show ?thesis
    by (simp add: syncBlackjackTableTurnState_def [of "syncLegacyPlayerCards _"] Let_def)
      (simp add: syncLegacy_cards cards, simp add: syncBlackjackTableTurnState_def Let_def comp_def)
qed

text \<open>Waiting for the player: the game is stored with a new deadline.\<close>

lemma wait_ok:
  assumes ok: "gameOk g" "turnOk g" "mustDecide g" "seatsOk g" "bg_payoutAmount g = 0"
    and money: "moneyOk w0 p0 wallet w"
  shows "\<exists>g' w'. persistGameState (syncBlackjackTurnDeadline env g) w = (g', w') \<and>
    flightOk w0 p0 (withdrawableBalance (bw_bank w) - net g) (bw_games w) g (g', wallet, w') \<and>
    bg_turnDeadlineAt g' = Some (be_now env + be_timeoutMs env)"
proof -
  let ?g1 = "g\<lparr>bg_turnDeadlineAt := Some (be_now env + be_timeoutMs env)\<rparr>"
  let ?g = "rest ?g1"
  have g1: "gameOk ?g1" "turnOk ?g1" "mustDecide ?g1" "seatsOk ?g1"
    using ok gameOk_cong [of ?g1 g] turnOk_cong [of ?g1 g] seatsOk_cong [of ?g1 g] by simp_all
  have "rest (syncBlackjackTurnDeadline env g) = ?g"
    using ok by (simp add: syncBlackjackTurnDeadline_open syncLegacy_table_commute)
  then have run: "persistGameState (syncBlackjackTurnDeadline env g) w =
      (?g, w\<lparr>bw_games := replaceRow ?g (bw_games w)\<rparr>)"
    by (simp add: persistGameState_eq)
  have "restOk ?g"
    using g1 ok(2,5) by (simp add: restOk_def rest_idem rest_cong seatsOk_rest frame_simps turnOk_def openGame_def)
  moreover have "net ?g = net g" "bg_id ?g = bg_id g" "bg_userId ?g = bg_userId g"
    by (simp_all add: net_def frame_simps) 
  ultimately show ?thesis
    using run money by (simp add: flightOk_def moneyOk_def frame_simps)
qed

lemma clearDeadline_frame:
  "gameOk (clearBlackjackTurnDeadline g) = gameOk g" "handsDone (clearBlackjackTurnDeadline g) = handsDone g"
  "seatsOk (clearBlackjackTurnDeadline g) = seatsOk g"
  "bg_payoutAmount (clearBlackjackTurnDeadline g) = bg_payoutAmount g"
  "net (clearBlackjackTurnDeadline g) = net g"
  "bg_id (clearBlackjackTurnDeadline g) = bg_id g" "bg_userId (clearBlackjackTurnDeadline g) = bg_userId g"
proof -
  let ?g = "clearBlackjackTurnDeadline g"
  show "gameOk ?g = gameOk g" "handsDone ?g = handsDone g"
    using gameOk_cong [of ?g g] turnOk_cong [of ?g g]
    by (simp_all add: clearBlackjackTurnDeadline_def frame_simps)
  show "seatsOk ?g = seatsOk g"
    by (simp add: clearBlackjackTurnDeadline_def seatsOk_def syncBlackjackTableTurnState_def Let_def comp_def)
  show "bg_payoutAmount ?g = bg_payoutAmount g" "net ?g = net g" "bg_id ?g = bg_id g"
    "bg_userId ?g = bg_userId g"
    by (simp_all add: clearBlackjackTurnDeadline_def net_def frame_simps)
qed

text \<open>
  \<open>endsWell\<close>: the handler returns, and returns a flight that is accounted for, with a turn clock
  that is stopped or started anew.
\<close>

definition deadlineOk :: "bj_env \<Rightarrow> bj_game \<Rightarrow> bool" where
  "deadlineOk env g = (bg_turnDeadlineAt g \<in> {None, Some (be_now env + be_timeoutMs env)})"

definition endsWell ::
  "bj_env \<Rightarrow> cents \<Rightarrow> cents \<Rightarrow> cents \<Rightarrow> bj_game list \<Rightarrow> bj_game \<Rightarrow> bj_flight res \<Rightarrow> bool" where
  "endsWell env w0 p0 n rows g r = (case r of Inl e \<Rightarrow> False | Inr f \<Rightarrow> flightOk w0 p0 n rows g f \<and> deadlineOk env (fst f))"

lemma endsWell_cong:
  "bg_id g' = bg_id g \<Longrightarrow> bg_userId g' = bg_userId g \<Longrightarrow>
     endsWell env w0 p0 n rows g' r = endsWell env w0 p0 n rows g r"
  by (cases r) (auto simp: endsWell_def flightOk_def)

lemma settle_endsWell:
  assumes "gameOk g" "handsDone g" "seatsOk g" "bg_payoutAmount g = 0" "moneyOk w0 p0 wallet w"
  shows "endsWell env w0 p0 (withdrawableBalance (bw_bank w) - net g) (bw_games w) g
    (settleResolvedHands env (clearBlackjackTurnDeadline g) wallet w)"
  using settleResolvedHands_ok [of "clearBlackjackTurnDeadline g" w0 p0 wallet w env] assms
  by (auto simp: endsWell_def clearDeadline_frame flightOk_def deadlineOk_def restOk_def)

lemma sameHands_net: "sameHands g g' \<Longrightarrow> net g' = net g"
  by (simp add: net_def frame_simps)

lemma finalize_endsWell:
  assumes ok: "gameOk g" "turnOk g" "seatsOk g" "bg_payoutAmount g = 0"
    and money: "moneyOk w0 p0 wallet w"
  shows "endsWell env w0 p0 (withdrawableBalance (bw_bank w) - net g) (bw_games w) g
    (finalizeBlackjackProgress env g wallet w)"
proof -
  from advanceResolvableHands_ok [OF ok(2), of wallet] obtain g1 b evs where
    run: "advanceResolvableHands g wallet = Inr (g1, b, evs)" and same: "sameHands g g1"
    and fin: "if b then handsDone g1 else turnOk g1 \<and> mustDecide g1" by blast
  have g1: "gameOk g1" "seatsOk g1" "bg_payoutAmount g1 = 0" "net g1 = net g"
    using same ok by (simp_all add: sameHands_gameOk sameHands_net seatsOk_def sameHands_frame)
  have ids: "bg_id g1 = bg_id g" "bg_userId g1 = bg_userId g" using same by (simp_all add: frame_simps)
  show ?thesis
  proof (cases b)
    case True
    with run fin settle_endsWell [OF g1(1) _ g1(2,3) money, of env] show ?thesis
      by (simp add: finalizeBlackjackProgress_def g1(4) endsWell_cong [OF ids])
  next
    case False
    with fin wait_ok [OF g1(1) _ _ g1(2,3) money, of env] obtain g' w' where
      "persistGameState (syncBlackjackTurnDeadline env g1) w = (g', w')"
      "flightOk w0 p0 (withdrawableBalance (bw_bank w) - net g) (bw_games w) g1 (g', wallet, w')"
      "bg_turnDeadlineAt g' = Some (be_now env + be_timeoutMs env)"
      by (auto simp: g1(4))
    with False run ids show ?thesis
      by (simp add: finalizeBlackjackProgress_def endsWell_def flightOk_def deadlineOk_def)
  qed
qed

text \<open>A hand is over: on to the next one, or to the settlement.\<close>

lemma advance_endsWell:
  assumes ok: "gameOk g" "turnOk g" "seatsOk g" "bg_payoutAmount g = 0"
    and money: "moneyOk w0 p0 wallet w" and ns: "ns \<in> {HandStood, HandBust}"
  shows "\<exists>g1 b. advancePlayerHand g ns = Inr (g1, b) \<and>
    endsWell env w0 p0 (withdrawableBalance (bw_bank w) - net g) (bw_games w) g
      (if b then settleResolvedHands env (clearBlackjackTurnDeadline g1) wallet w
       else finalizeBlackjackProgress env g1 wallet w)"
proof -
  from advancePlayerHand_ok [OF ok(2) ns] obtain g1 b where
    run: "advancePlayerHand g ns = Inr (g1, b)" and same: "sameHands g g1"
    and fin: "if b then handsDone g1 else turnOk g1" by blast
  have g1: "gameOk g1" "seatsOk g1" "bg_payoutAmount g1 = 0" "net g1 = net g"
    using same ok by (simp_all add: sameHands_gameOk sameHands_net seatsOk_def sameHands_frame)
  have ids: "bg_id g1 = bg_id g" "bg_userId g1 = bg_userId g" using same by (simp_all add: frame_simps)
  show ?thesis
    using run fin settle_endsWell [OF g1(1) _ g1(2,3) money, of env]
      finalize_endsWell [OF g1(1) _ g1(2,3) money, of env]
    by (auto simp: g1(4) endsWell_cong [OF ids])
qed

lemma stand_endsWell:
  assumes "gameOk g" "turnOk g" "seatsOk g" "bg_payoutAmount g = 0" "moneyOk w0 p0 wallet w"
  shows "endsWell env w0 p0 (withdrawableBalance (bw_bank w) - net g) (bw_games w) g
    (applyBlackjackStandAction env g wallet w)"
proof -
  from assms(2) obtain i h where h: "getActivePlayerHand g = Some h" by (rule turnOk_active) blast
  from advance_endsWell [OF assms, of HandStood env] h show ?thesis
    by (auto simp: applyBlackjackStandAction_def)
qed

subsection \<open>Dealing to a hand\<close>

lemma mset_concat_update:
  "i < length xs \<Longrightarrow>
     mset (concat (map f (xs[i := x]))) + mset (f (xs ! i)) = mset (concat (map f xs)) + mset (f x)"
proof -
  assume i: "i < length xs"
  have "map f xs = map f (take i xs) @ f (xs ! i) # map f (drop (Suc i) xs)"
    by (subst id_take_nth_drop [OF i]) simp
  moreover have "map f (xs[i := x]) = map f (take i xs) @ f x # map f (drop (Suc i) xs)"
    using upd_conv_take_nth_drop [OF i] by simp
  ultimately show ?thesis by simp
qed

lemma sum_list_update_int:
  fixes f :: "'a \<Rightarrow> int"
  assumes "i < length xs"
  shows "(\<Sum>x\<leftarrow>xs[i := y]. f x) = (\<Sum>x\<leftarrow>xs. f x) - f (xs ! i) + f y"
proof -
  have "xs = take i xs @ xs ! i # drop (Suc i) xs" by (rule id_take_nth_drop [OF assms])
  then have "(\<Sum>x\<leftarrow>xs. f x) = (\<Sum>x\<leftarrow>take i xs. f x) + f (xs ! i) + (\<Sum>x\<leftarrow>drop (Suc i) xs. f x)"
    by (metis (no_types, lifting) add.assoc list.simps(9) map_append sum_list.Cons sum_list_append)
  then show ?thesis by (simp add: upd_conv_take_nth_drop [OF assms])
qed

text \<open>New hands, with cards from the deck and the stake to match, keep the game in order.\<close>

lemma gameOk_dealt:
  assumes ok: "gameOk g" and k: "k \<le> length (remaining g)" and hs: "hs \<noteq> []"
    and len: "length hs \<le> maxSplitHands (bg_config g)" and hands: "list_all handOk hs"
    and cards: "mset (concat (map bh_cards hs)) =
      mset (concat (map bh_cards (bg_playerHands g))) + mset (take k (remaining g))"
    and total: "t = (\<Sum>h\<leftarrow>hs. bh_stakeAmount h)"
  shows "gameOk (g\<lparr>bg_playerHands := hs, bg_nextCardIndex := bg_nextCardIndex g + k, bg_totalStake := t\<rparr>)"
proof -
  have "length (bg_deck g) = 52" "mset (dealt g) = mset (take (bg_nextCardIndex g) (bg_deck g))"
    using ok by (simp_all add: gameOk_def cardsOk_def deckOk_facts)
  then show ?thesis
    using ok k hs len hands cards total
    by (auto simp: gameOk_def cardsOk_def dealt_def stakes_def take_add)
qed

lemma bj_takeNextCard_game:
  assumes "gameOk g" and "openGame g"
  shows "\<exists>c r. remaining g = c # r \<and> hardValue (rank c) \<le> 10 \<and>
    bj_takeNextCard g = Inr (c, g\<lparr>bg_nextCardIndex := bg_nextCardIndex g + 1\<rparr>)"
proof -
  have "80 \<le> hardTotal (remaining g)"
    using assms by (intro remaining_budget) (simp_all add: openGame_def)
  then obtain c r where "remaining g = c # r" by (cases "remaining g") auto
  with bj_takeNextCard_ok [of g] hardValue_bounds(2) show ?thesis by simp
qed

lemma turnAt_states:
  "length hs' = length hs \<Longrightarrow> \<forall>j < length hs. bh_state (hs' ! j) = bh_state (hs ! j) \<Longrightarrow>
     turnAt i hs' = turnAt i hs"
  by (auto simp: turnAt_def)

text \<open>One more card, and possibly a higher stake, for the hand that is played.\<close>

lemma dealToHand_ok:
  assumes ok: "gameOk g" "turnOk g" and decide: "mustDecide g"
    and i: "bg_activeHandIndex g = Some i" and h: "h = bg_playerHands g ! i"
    and c: "remaining g = c # r" and s: "0 \<le> s"
  shows "let h' = h\<lparr>bh_stakeAmount := bh_stakeAmount h + s, bh_cards := bh_cards h @ [c]\<rparr>;
             g' = g\<lparr>bg_playerHands := (bg_playerHands g)[i := h'],
                    bg_nextCardIndex := bg_nextCardIndex g + 1, bg_totalStake := bg_totalStake g + s\<rparr>
         in gameOk g' \<and> turnOk g'"
proof -
  let ?hs = "bg_playerHands g"
  let ?h' = "h\<lparr>bh_stakeAmount := bh_stakeAmount h + s, bh_cards := bh_cards h @ [c]\<rparr>"
  have at: "turnAt i ?hs" and bound: "i < length ?hs"
    using ok(2) i by (auto simp: turnOk_def turnAt_def)
  have "sc_total (scoreBlackjackCards (bh_cards h)) < 21"
    using decide i bound h by (auto simp: mustDecide_def getActivePlayerHand_def)
  then have "hardTotal (bh_cards h) \<le> 20" using hardTotal_le_total [of "bh_cards h"] by linarith
  moreover have "handOk h" using ok(1) bound h by (simp add: gameOk_def list_all_length)
  ultimately have "handOk ?h'"
    using hardValue_bounds(2) [of "rank c"] s by (simp add: handOk_def)
  then have hands: "list_all handOk (?hs[i := ?h'])"
    using ok(1) bound by (auto simp: gameOk_def list_all_length nth_list_update)
  have "mset (concat (map bh_cards (?hs[i := ?h']))) = mset (concat (map bh_cards ?hs)) + {#c#}"
    using mset_concat_update [OF bound, of bh_cards ?h'] h by simp
  then have cards: "mset (concat (map bh_cards (?hs[i := ?h']))) =
      mset (concat (map bh_cards ?hs)) + mset (take 1 (remaining g))"
    using c by simp
  have "(\<Sum>h\<leftarrow>?hs[i := ?h']. bh_stakeAmount h) = stakes g + s"
    using sum_list_update_int [OF bound, of bh_stakeAmount ?h'] h by (simp add: stakes_def)
  then have total: "bg_totalStake g + s = (\<Sum>h\<leftarrow>?hs[i := ?h']. bh_stakeAmount h)"
    using ok(1) by (simp add: gameOk_def)
  have "gameOk (g\<lparr>bg_playerHands := ?hs[i := ?h'], bg_nextCardIndex := bg_nextCardIndex g + 1,
      bg_totalStake := bg_totalStake g + s\<rparr>)"
    by (rule gameOk_dealt [OF ok(1) _ _ _ hands cards total]) (use ok(1) c in \<open>auto simp: gameOk_def\<close>)
  moreover have "turnAt i (?hs[i := ?h'])"
    using at turnAt_states [of "?hs[i := ?h']" ?hs i] h bound by (auto simp: nth_list_update)
  then have "turnOk (g\<lparr>bg_playerHands := ?hs[i := ?h'], bg_nextCardIndex := bg_nextCardIndex g + 1,
      bg_totalStake := bg_totalStake g + s\<rparr>)"
    using ok(2) i by (auto simp: turnOk_def openGame_def)
  ultimately show ?thesis by (simp add: Let_def)
qed

lemma hit_endsWell:
  assumes ok: "gameOk g" "turnOk g" "mustDecide g" "seatsOk g" "bg_payoutAmount g = 0"
    and i: "bg_activeHandIndex g = Some i" and money: "moneyOk w0 p0 wallet w"
  shows "endsWell env w0 p0 (withdrawableBalance (bw_bank w) - net g) (bw_games w) g (hitAction env i g wallet w)"
proof -
  let ?h = "bg_playerHands g ! i"
  have opn: "openGame g" using ok(2) by (simp add: turnOk_def)
  obtain c r where c: "remaining g = c # r"
    and take: "bj_takeNextCard g = Inr (c, g\<lparr>bg_nextCardIndex := bg_nextCardIndex g + 1\<rparr>)"
    using bj_takeNextCard_game [OF ok(1) opn] by blast
  let ?h' = "?h\<lparr>bh_cards := bh_cards ?h @ [c]\<rparr>"
  let ?g = "g\<lparr>bg_playerHands := (bg_playerHands g)[i := ?h'], bg_nextCardIndex := Suc (bg_nextCardIndex g)\<rparr>"
  have bound: "i < length (bg_playerHands g)" using ok(2) i by (auto simp: turnOk_def turnAt_def)
  from dealToHand_ok [OF ok(1-3) i refl c, of 0] have g: "gameOk ?g" "turnOk ?g"
    by (simp_all add: Let_def)
  have keep: "seatsOk ?g" "bg_payoutAmount ?g = 0" "net ?g = net g" "bg_id ?g = bg_id g" "bg_userId ?g = bg_userId g"
    using ok(4,5) by (simp_all add: seatsOk_def net_def)
  have g2: "updateHand i (\<lambda>h. h\<lparr>bh_cards := bh_cards h @ [c]\<rparr>) (g\<lparr>bg_nextCardIndex := Suc (bg_nextCardIndex g)\<rparr>) = ?g"
    by (simp add: updateHand_def)
  let ?s = "scoreBlackjackCards (bh_cards ?h @ [c])"
  show ?thesis
  proof (cases "sc_bust ?s \<or> sc_total ?s = 21")
    case True
    with finalize_endsWell [OF g keep(1,2) money, of env] show ?thesis
      by (simp add: hitAction_def take g2 Let_def bound keep(3) endsWell_cong [OF keep(4,5)])
  next
    case False
    then have "sc_total ?s < 21" by (auto simp: score_bust)
    then have "mustDecide ?g" using i bound by (simp add: mustDecide_def getActivePlayerHand_def)
    from wait_ok [OF g this keep(1,2) money, of env] obtain g' w' where
      "persistGameState (syncBlackjackTurnDeadline env ?g) w = (g', w')"
      "flightOk w0 p0 (withdrawableBalance (bw_bank w) - net g) (bw_games w) ?g (g', wallet, w')"
      "bg_turnDeadlineAt g' = Some (be_now env + be_timeoutMs env)"
      by (auto simp: keep(3))
    with False keep(4,5) show ?thesis
      by (simp add: hitAction_def take g2 Let_def bound endsWell_def flightOk_def deadlineOk_def)
  qed
qed

subsection \<open>Raising the stake\<close>

text \<open>Who may refuse a stake: the KYC check of the new total, and the prize pool.\<close>

definition refusedBy :: "bj_env \<Rightarrow> cents \<Rightarrow> error \<Rightarrow> bool" where
  "refusedBy env newTotal e = (be_kyc env newTotal = Some e \<or>
     e = Conflict ''Prize pool reserve is too low for this stake.'')"

lemma raiseStake_cases:
  assumes money: "moneyOk w0 p0 wallet w" and wag: "wag = of_int (wageredAmount (bw_bank w))"
    and enough: "of_int s \<le> wallet"
  obtains (refused) e where "raiseStake env entry s g wallet wag w = Inl e"
      and "refusedBy env (bg_totalStake g + s) e"
  | (raised) wallet' w' where "raiseStake env entry s g wallet wag w =
        Inr (g\<lparr>bg_totalStake := bg_totalStake g + s\<rparr>, wallet', w')"
      and "moneyOk w0 p0 wallet' w'" and "bw_games w' = bw_games w"
      and "withdrawableBalance (bw_bank w') = withdrawableBalance (bw_bank w) - s"
proof (cases "be_kyc env (bg_totalStake g + s)")
  case (Some e)
  then show ?thesis using refused by (simp add: raiseStake_def refusedBy_def)
next
  case None
  let ?max = "(of_int (bg_totalStake g) + of_int s) * winPayoutMultiplier (bg_config g)"
  show ?thesis
  proof (cases "ensurePoolCanCover env (of_int s) ?max w")
    case (Inl e)
    with None enough refused show ?thesis
      by (auto simp: raiseStake_def refusedBy_def ensurePoolCanCover_def
          assertTransactionalGamePoolCoverage_def Let_def split: if_splits)
  next
    case (Inr x)
    have m: "bankOk w0 p0 (bw_bank w)" "wallet = of_int (withdrawableBalance (bw_bank w))"
      "bankMoney (bw_bank w) = w0 + p0"
      using money by (simp_all add: moneyOk_def)
    obtain bk wallet' wag' where debit: "applyTransactionalGameStakeDebit wallet wag (of_int s) entry
        (Some (bg_id g)) (bw_bank w) = Inr (bk, wallet', wag')"
      using enough by (auto simp: applyTransactionalGameStakeDebit_def Let_def)
    have "raiseStake env entry s g wallet wag w =
        Inr (g\<lparr>bg_totalStake := bg_totalStake g + s\<rparr>, wallet', w\<lparr>bw_bank := bk\<rparr>)"
      using None Inr debit enough by (simp add: raiseStake_def applyStakeDebit_def)
    then show ?thesis
      using stakeDebit_ok [OF m(1,2) wag debit] m(3) by (intro raised [of wallet' "w\<lparr>bw_bank := bk\<rparr>"]) (simp_all add: moneyOk_def)
  qed
qed

lemma available_cases:
  assumes "act \<in> set (getAvailableActions g wallet)"
  obtains i h where "bg_status g = BjActive" and "bg_activeHandIndex g = Some i"
    and "i < length (bg_playerHands g)" and "h = bg_playerHands g ! i"
    and "getActivePlayerHand g = Some h"
    and "act = Double \<Longrightarrow> of_int (bh_stakeAmount h) \<le> wallet"
    and "act = Split \<Longrightarrow> canSplitHand g h wallet"
  using assms
  by (auto simp: getAvailableActions_def getActivePlayerHand_def Let_def split: if_splits option.splits)

lemma double_result:
  assumes ok: "gameOk g" "turnOk g" "mustDecide g" "seatsOk g" "bg_payoutAmount g = 0"
    and i: "bg_activeHandIndex g = Some i" and money: "moneyOk w0 p0 wallet w"
    and wag: "wag = of_int (wageredAmount (bw_bank w))"
    and enough: "of_int (bh_stakeAmount (bg_playerHands g ! i)) \<le> wallet"
  shows "endsWell env w0 p0 (withdrawableBalance (bw_bank w) - net g) (bw_games w) g
      (doubleAction env i g wallet wag w) \<or>
    (\<exists>e. doubleAction env i g wallet wag w = Inl e \<and>
       refusedBy env (bg_totalStake g + bh_stakeAmount (bg_playerHands g ! i)) e)"
proof (rule raiseStake_cases [OF money wag enough, of env "''blackjack_double_down''" g])
  let ?h = "bg_playerHands g ! i"
  let ?s = "bh_stakeAmount ?h"
  let ?g0 = "g\<lparr>bg_totalStake := bg_totalStake g + ?s\<rparr>"
  fix wallet' w'
  assume raised: "raiseStake env ''blackjack_double_down'' ?s g wallet wag w = Inr (?g0, wallet', w')"
    and money': "moneyOk w0 p0 wallet' w'" and games: "bw_games w' = bw_games w"
    and wallet': "withdrawableBalance (bw_bank w') = withdrawableBalance (bw_bank w) - ?s"
  have bound: "i < length (bg_playerHands g)" using ok(2) i by (auto simp: turnOk_def turnAt_def)
  have opn: "openGame g" using ok(2) by (simp add: turnOk_def)
  obtain c r where c: "remaining g = c # r" and "bg_nextCardIndex g < length (bg_deck g)"
    using bj_takeNextCard_game [OF ok(1) opn] by (fastforce simp: bj_takeNextCard_Inr)
  then have take: "bj_takeNextCard ?g0 = Inr (c, ?g0\<lparr>bg_nextCardIndex := Suc (bg_nextCardIndex g)\<rparr>)"
    using hd_drop_conv_nth [of "bg_nextCardIndex g" "bg_deck g"] by (simp add: bj_takeNextCard_def)
  let ?h' = "?h\<lparr>bh_stakeAmount := ?s + ?s, bh_cards := bh_cards ?h @ [c]\<rparr>"
  let ?g = "g\<lparr>bg_playerHands := (bg_playerHands g)[i := ?h'],
    bg_nextCardIndex := Suc (bg_nextCardIndex g), bg_totalStake := bg_totalStake g + ?s\<rparr>"
  have s: "0 \<le> ?s" using ok(1) bound by (auto simp: gameOk_def list_all_length handOk_def)
  have g: "gameOk ?g" "turnOk ?g"
    using dealToHand_ok [OF ok(1-3) i refl c s] by (simp_all add: Let_def)
  have keep: "seatsOk ?g" "bg_payoutAmount ?g = 0" "net ?g = net g - ?s" "bg_id ?g = bg_id g"
      "bg_userId ?g = bg_userId g"
    using ok(4,5) by (simp_all add: seatsOk_def net_def)
  have upd: "updateHand i (\<lambda>h. h\<lparr>bh_stakeAmount := bh_stakeAmount h + ?s, bh_cards := bh_cards h @ [c]\<rparr>)
      (g\<lparr>bg_totalStake := bg_totalStake g + ?s, bg_nextCardIndex := Suc (bg_nextCardIndex g)\<rparr>) = ?g"
    by (simp add: updateHand_def)
  let ?ns = "if sc_bust (scoreBlackjackCards (bh_cards ?h @ [c])) then HandBust else HandStood"
  have ns: "?ns \<in> {HandStood, HandBust}" by simp
  from advance_endsWell [OF g keep(1,2) money' ns, of env] obtain g4 b where
    adv: "advancePlayerHand ?g ?ns = Inr (g4, b)"
    and fin: "endsWell env w0 p0 (withdrawableBalance (bw_bank w') - net ?g) (bw_games w') ?g
      (if b then settleResolvedHands env (clearBlackjackTurnDeadline g4) wallet' w'
       else finalizeBlackjackProgress env g4 wallet' w')" by blast
  have "doubleAction env i g wallet wag w =
      (if b then settleResolvedHands env (clearBlackjackTurnDeadline g4) wallet' w'
       else finalizeBlackjackProgress env g4 wallet' w')"
    using adv by (simp add: doubleAction_def raised take upd Let_def bound)
  moreover have "withdrawableBalance (bw_bank w') - net ?g = withdrawableBalance (bw_bank w) - net g"
    using wallet' keep(3) by simp
  ultimately show ?thesis using fin games endsWell_cong [OF keep(4,5)] by simp
qed (auto simp: doubleAction_def)

subsection \<open>Splitting\<close>

lemma canSplitHand_facts:
  assumes "canSplitHand g h wallet"
  obtains a b where "bh_cards h = [a, b]" and "of_int (bh_stakeAmount h) \<le> wallet"
    and "length (bg_playerHands g) < maxSplitHands (bg_config g)"
  using assms
  by (auto simp: canSplitHand_def canSplitCards_def Let_def not_less split: if_splits list.splits)

lemma hardTotal_two: "hardTotal [a, b] \<le> 20"
  using hardTotal_le_length [of "[a, b]"] by simp

text \<open>The hands after a split, and that one of them is played next.\<close>

lemma splitHands_ok:
  assumes ok: "gameOk g" "turnOk g" and i: "bg_activeHandIndex g = Some i"
    and h: "h = bg_playerHands g ! i" and cards: "bh_cards h = [a, b]"
    and room: "length (bg_playerHands g) < maxSplitHands (bg_config g)"
    and s: "s = bh_stakeAmount h"
  shows "\<exists>g'. splitHands i s (g\<lparr>bg_totalStake := bg_totalStake g + s\<rparr>) = Inr g' \<and> gameOk g' \<and> turnOk g' \<and>
    bg_table g' = bg_table g \<and> bg_userId g' = bg_userId g \<and> bg_id g' = bg_id g \<and>
    bg_payoutAmount g' = bg_payoutAmount g \<and> bg_totalStake g' = bg_totalStake g + s"
proof -
  let ?hs = "bg_playerHands g" and ?n = "bg_nextCardIndex g" and ?d = "bg_deck g"
  have at: "turnAt i ?hs" and bound: "i < length ?hs" and opn: "openGame g"
    using ok(2) i by (auto simp: turnOk_def turnAt_def)
  have "80 \<le> hardTotal (remaining g)"
    using ok(1) opn by (intro remaining_budget) (simp_all add: openGame_def)
  then have "20 < hardTotal (remaining g)" by linarith
  then obtain c1 c2 r where rem: "remaining g = c1 # c2 # r" and n: "?n + 2 \<le> length ?d"
    and c12: "c1 = ?d ! ?n" "c2 = ?d ! (?n + 1)" by (rule remaining_two)
  define aces where "aces = (rank a = RA \<and> rank b = RA)"
  define left where "left = \<lparr>bh_cards = [a, c1], bh_stakeAmount = s, bh_state = HandActive, bh_splitFromAces = aces\<rparr>"
  define right where "right = \<lparr>bh_cards = [b, c2], bh_stakeAmount = s, bh_state = HandWaiting, bh_splitFromAces = aces\<rparr>"
  let ?new = "take i ?hs @ [left, right] @ drop (i + 1) ?hs"
  let ?g = "g\<lparr>bg_playerHands := ?new, bg_nextCardIndex := ?n + 2, bg_totalStake := bg_totalStake g + s\<rparr>"
  have old: "?hs = take i ?hs @ h # drop (i + 1) ?hs"
    using id_take_nth_drop [OF bound] h by simp
  have run: "splitHands i s (g\<lparr>bg_totalStake := bg_totalStake g + s\<rparr>) = Inr ?g"
    using cards h n c12
    by (simp add: splitHands_def takeTwo_def bj_takeNextCard_def Let_def left_def right_def aces_def)
  have hOk: "handOk h" and all: "list_all handOk ?hs"
    using ok(1) bound h by (simp_all add: gameOk_def list_all_length)
  then have "handOk left" "handOk right"
    using hardTotal_two [of a c1] hardTotal_two [of b c2] s
    by (simp_all add: handOk_def left_def right_def)
  moreover have "list_all handOk (take i ?hs)" "list_all handOk (drop (i + 1) ?hs)"
    using all by (auto simp: list_all_iff dest: in_set_takeD in_set_dropD)
  ultimately have hands: "list_all handOk ?new" by simp
  have "mset (concat (map bh_cards ?hs)) = mset (concat (map bh_cards (take i ?hs))) + {#a, b#} +
      mset (concat (map bh_cards (drop (i + 1) ?hs)))"
    by (subst old) (simp add: cards)
  then have dealtOk: "mset (concat (map bh_cards ?new)) =
      mset (concat (map bh_cards ?hs)) + mset (take 2 (remaining g))"
    by (simp add: rem left_def right_def)
  have "(\<Sum>h\<leftarrow>?hs. bh_stakeAmount h) = (\<Sum>h\<leftarrow>take i ?hs. bh_stakeAmount h) + s +
      (\<Sum>h\<leftarrow>drop (i + 1) ?hs. bh_stakeAmount h)"
    by (subst old) (simp add: s)
  then have total: "bg_totalStake g + s = (\<Sum>h\<leftarrow>?new. bh_stakeAmount h)"
    using ok(1) by (simp add: gameOk_def stakes_def left_def right_def)
  have "gameOk ?g"
    by (rule gameOk_dealt [OF ok(1) _ _ _ hands dealtOk total]) (use rem room bound in auto)
  moreover have "turnAt i ?new"
    using at bound
    by (auto simp: turnAt_def nth_append left_def right_def nth_Cons split: nat.splits)
  then have "turnOk ?g" using ok(2) i by (auto simp: turnOk_def openGame_def)
  ultimately show ?thesis using run by simp
qed

lemma split_result:
  assumes ok: "gameOk g" "turnOk g" "seatsOk g" "bg_payoutAmount g = 0"
    and i: "bg_activeHandIndex g = Some i" and money: "moneyOk w0 p0 wallet w"
    and wag: "wag = of_int (wageredAmount (bw_bank w))"
    and can: "canSplitHand g (bg_playerHands g ! i) wallet"
  shows "endsWell env w0 p0 (withdrawableBalance (bw_bank w) - net g) (bw_games w) g
      (splitAction env i g wallet wag w) \<or>
    (\<exists>e. splitAction env i g wallet wag w = Inl e \<and>
       refusedBy env (bg_totalStake g + bh_stakeAmount (bg_playerHands g ! i)) e)"
proof -
  let ?s = "bh_stakeAmount (bg_playerHands g ! i)"
  let ?g0 = "g\<lparr>bg_totalStake := bg_totalStake g + ?s\<rparr>"
  from can obtain a b where cards: "bh_cards (bg_playerHands g ! i) = [a, b]"
    and enough: "of_int ?s \<le> wallet"
    and room: "length (bg_playerHands g) < maxSplitHands (bg_config g)" by (rule canSplitHand_facts)
  show ?thesis
  proof (rule raiseStake_cases [OF money wag enough, of env "''blackjack_split''" g])
    fix wallet' w'
    assume raised: "raiseStake env ''blackjack_split'' ?s g wallet wag w = Inr (?g0, wallet', w')"
      and money': "moneyOk w0 p0 wallet' w'" and games: "bw_games w' = bw_games w"
      and wallet': "withdrawableBalance (bw_bank w') = withdrawableBalance (bw_bank w) - ?s"
    from splitHands_ok [OF ok(1,2) i refl cards room refl] obtain g2 where
      run: "splitHands i ?s ?g0 = Inr g2" and g2: "gameOk g2" "turnOk g2" and
      keep: "bg_table g2 = bg_table g" "bg_userId g2 = bg_userId g" "bg_id g2 = bg_id g"
        "bg_payoutAmount g2 = bg_payoutAmount g" "bg_totalStake g2 = bg_totalStake g + ?s" by blast
    have "seatsOk g2" "bg_payoutAmount g2 = 0" using ok(3,4) keep by (simp_all add: seatsOk_def)
    from finalize_endsWell [OF g2 this money', of env] games
    have "endsWell env w0 p0 (withdrawableBalance (bw_bank w') - net g2) (bw_games w) g
        (finalizeBlackjackProgress env g2 wallet' w')"
      by (simp add: endsWell_cong [OF keep(3,2)])
    moreover have "withdrawableBalance (bw_bank w') - net g2 = withdrawableBalance (bw_bank w) - net g"
      using wallet' keep(4,5) by (simp add: net_def)
    ultimately show ?thesis by (simp add: splitAction_def raised run Let_def)
  qed (auto simp: splitAction_def)
qed

subsection \<open>One action on a game at rest\<close>

lemma restOk_active:
  assumes "restOk g" and "bg_status g = BjActive"
  shows "gameOk g" "turnOk g" "mustDecide g" "seatsOk g" "bg_payoutAmount g = 0"
  using assms by (simp_all add: restOk_def)

lemma actOnGame_result:
  assumes ok: "restOk g" and money: "moneyOk w0 p0 wallet w"
    and wag: "wag = of_int (wageredAmount (bw_bank w))"
    and act: "act \<in> set (getAvailableActions g wallet)"
  shows "endsWell env w0 p0 (withdrawableBalance (bw_bank w) - net g) (bw_games w) g
      (actOnGame env g act wallet wag w) \<or>
    act \<in> {Double, Split} \<and>
    (\<exists>h e. getActivePlayerHand g = Some h \<and> actOnGame env g act wallet wag w = Inl e \<and>
       refusedBy env (bg_totalStake g + bh_stakeAmount h) e)"
  using act
proof (rule available_cases)
  fix i h
  assume a: "bg_status g = BjActive" "bg_activeHandIndex g = Some i" "i < length (bg_playerHands g)"
    "h = bg_playerHands g ! i" "getActivePlayerHand g = Some h"
    "act = Double \<Longrightarrow> of_int (bh_stakeAmount h) \<le> wallet" "act = Split \<Longrightarrow> canSplitHand g h wallet"
  note g = restOk_active [OF ok a(1)]
  have run: "actOnGame env g act wallet wag w = (case act of
      Hit \<Rightarrow> hitAction env i g wallet w | Double \<Rightarrow> doubleAction env i g wallet wag w
    | Split \<Rightarrow> splitAction env i g wallet wag w | Stand \<Rightarrow> applyBlackjackStandAction env g wallet w)"
    using act a by (simp add: actOnGame_def)
  show ?thesis
  proof (cases act)
    case Hit
    with hit_endsWell [OF g a(2) money, of env] show ?thesis unfolding run by simp
  next
    case Stand
    with stand_endsWell [OF g(1,2,4,5) money, of env] show ?thesis unfolding run by simp
  next
    case Double
    with double_result [OF g a(2) money wag, of env] a(4,5,6) show ?thesis unfolding run by auto
  next
    case Split
    with split_result [OF g(1,2,4,5) a(2) money wag, of env] a(4,5,7) show ?thesis unfolding run by auto
  qed
qed

end
