(* ===== verification/Blackjack_Start.thy ===== *)
theory Blackjack_Start
  imports Blackjack_Play
begin

text \<open>
  Starting a game: the requests that are refused, and that every other one leaves a game at
  rest, dealt from a fresh shuffle, its stake debited, and a natural settled at once.
\<close>

subsection \<open>The opening deal\<close>

definition openingRow :: "nat \<Rightarrow> nat \<Rightarrow> nat \<Rightarrow> string \<Rightarrow> cents \<Rightarrow> card list \<Rightarrow> bj_config \<Rightarrow>
    linked_group option \<Rightarrow> bj_game" where
  "openingRow newId uid epochNo nonce c d cfg grp =
     \<lparr>bg_id = newId, bg_userId = uid, bg_stakeAmount = c, bg_totalStake = c, bg_payoutAmount = 0,
      bg_playerCards = [d ! 0, d ! 2], bg_dealerCards = [d ! 1, d ! 3], bg_deck = d,
      bg_nextCardIndex = 4, bg_status = BjActive, bg_turnDeadlineAt = None, bg_settledAt = None,
      bg_config = cfg, bg_table = buildBlackjackTable uid epochNo nonce None,
      bg_playerHands = [\<lparr>bh_cards = [d ! 0, d ! 2], bh_stakeAmount = c, bh_state = HandActive,
        bh_splitFromAces = False\<rparr>],
      bg_activeHandIndex = Some 0, bg_linkedGroup = grp\<rparr>"

lemma openingRow_ok:
  assumes "deckOk d" and "configOk cfg" and "0 < c"
  shows "gameOk (openingRow n uid ep nonce c d cfg grp)" "turnOk (openingRow n uid ep nonce c d cfg grp)"
    "seatsOk (openingRow n uid ep nonce c d cfg grp)"
proof -
  have len: "length d = 52" using assms(1) by (rule deckOk_facts)
  have four: "i = 0 \<or> i = 1 \<or> i = 2 \<or> i = 3" if "i < 4" for i :: nat using that by auto
  have "take 4 d = [d ! 0, d ! 1, d ! 2, d ! 3]"
  proof (rule nth_equalityI)
    fix i assume "i < length (take 4 d)"
    then have "i < 4" by simp
    from four [OF this] show "take 4 d ! i = [d ! 0, d ! 1, d ! 2, d ! 3] ! i" by auto
  qed (simp add: len)
  then have "mset ([d ! 0, d ! 2] @ [d ! 1, d ! 3]) = mset (take 4 d)" by (simp only: append.simps) simp
  then have "cardsOk (openingRow n uid ep nonce c d cfg grp)"
    using assms(1) by (simp only: cardsOk_def dealt_def openingRow_def bj_game.simps list.map concat.simps
        bj_hand.simps append_Nil2) simp
  moreover have "handOk \<lparr>bh_cards = [d ! 0, d ! 2], bh_stakeAmount = c, bh_state = HandActive,
      bh_splitFromAces = False\<rparr>"
    using assms(3) hardTotal_two [of "d ! 0" "d ! 2"] by (simp add: handOk_def)
  ultimately show "gameOk (openingRow n uid ep nonce c d cfg grp)"
    using assms(2) by (simp add: gameOk_def openingRow_def stakes_def configOk_def)
  show "turnOk (openingRow n uid ep nonce c d cfg grp)"
    by (simp add: turnOk_def openGame_def turnAt_def openingRow_def)
  show "seatsOk (openingRow n uid ep nonce c d cfg grp)"
    by (simp add: seatsOk_def openingRow_def buildBlackjackTable_def)
qed

lemma insertInitialGame_eq:
  "insertInitialGame n uid ep nonce (of_int c) [d ! 0, d ! 2] [d ! 1, d ! 3] d 4 cfg grp w =
     (let row = openingRow n uid ep nonce c d cfg grp in (rest row, w\<lparr>bw_games := row # bw_games w\<rparr>))"
  by (simp add: insertInitialGame_def Let_def openingRow_def toGameState_def)

text \<open>What the deadline of the opening game is, if it has one.\<close>

lemma syncBlackjackTurnDeadline_eq:
  "\<exists>t. syncBlackjackTurnDeadline env g = syncBlackjackTableTurnState (g\<lparr>bg_turnDeadlineAt := t\<rparr>) \<and>
     (turnOk g \<longrightarrow> mustDecide g \<longrightarrow> t \<noteq> None)"
proof -
  obtain t where t: "syncBlackjackTurnDeadline env g = syncBlackjackTableTurnState (g\<lparr>bg_turnDeadlineAt := t\<rparr>)"
    by (simp add: syncBlackjackTurnDeadline_def)
  show ?thesis
  proof (cases "turnOk g \<and> mustDecide g")
    case True
    then show ?thesis using syncBlackjackTurnDeadline_open by blast
  qed (use t in blast)
qed

lemma natural_total:
  assumes "hardTotal [a, b] \<le> 20"
  shows "sc_total (scoreBlackjackCards [a, b]) \<le> 21"
  using assms by (auto simp: score_total simp del: hardTotal_simps)

text \<open>The stored game after the deal, still active.\<close>

lemma opening_game:
  fixes g :: bj_game
  assumes row: "row = openingRow n uid ep nonce c d cfg grp"
    and ok: "deckOk d" "configOk cfg" "0 < c"
    and g: "g = rest (syncBlackjackTurnDeadline env (rest row))"
  shows "gameOk g" "turnOk g" "seatsOk g" "rest g = g"
    "sc_total (scoreBlackjackCards [d ! 0, d ! 2]) < 21 \<Longrightarrow> mustDecide g \<and> bg_turnDeadlineAt g \<noteq> None"
    "bg_id g = n" "bg_userId g = uid" "bg_stakeAmount g = c" "bg_totalStake g = c" "bg_payoutAmount g = 0"
    "bg_config g = cfg" "bg_status g = BjActive"
    "map bh_cards (bg_playerHands g) = [[d ! 0, d ! 2]]" "bg_dealerCards g = [d ! 1, d ! 3]" "bg_deck g = d"
proof -
  note r = openingRow_ok [OF ok, of n uid ep nonce grp, folded row]
  obtain t where t: "syncBlackjackTurnDeadline env (rest row) =
      syncBlackjackTableTurnState ((rest row)\<lparr>bg_turnDeadlineAt := t\<rparr>)"
    and some: "turnOk (rest row) \<longrightarrow> mustDecide (rest row) \<longrightarrow> t \<noteq> None"
    using syncBlackjackTurnDeadline_eq by blast
  let ?r = "(rest row)\<lparr>bg_turnDeadlineAt := t\<rparr>"
  have g': "g = rest ?r" by (simp add: g t syncLegacy_table_commute)
  show "gameOk g" using r(1) gameOk_cong [of ?r "rest row"] by (simp add: g' rest_cong)
  show turn: "turnOk g" using r(2) turnOk_cong [of ?r "rest row"] by (simp add: g' rest_cong)
  show "seatsOk g"
    using r(3) seatsOk_cong [of ?r "rest row"] seatsOk_rest [of row] by (simp add: g' seatsOk_rest)
  show "rest g = g" by (simp add: g' rest_idem)
  show "bg_id g = n" "bg_userId g = uid" "bg_stakeAmount g = c" "bg_totalStake g = c" "bg_payoutAmount g = 0"
    "bg_config g = cfg" "bg_status g = BjActive"
    "map bh_cards (bg_playerHands g) = [[d ! 0, d ! 2]]" "bg_dealerCards g = [d ! 1, d ! 3]" "bg_deck g = d"
    by (simp_all add: g' frame_simps) (simp_all add: row openingRow_def)
  show "mustDecide g \<and> bg_turnDeadlineAt g \<noteq> None"
    if "sc_total (scoreBlackjackCards [d ! 0, d ! 2]) < 21"
  proof -
    have "mustDecide row"
      using that by (simp add: mustDecide_def getActivePlayerHand_def row openingRow_def)
    then show ?thesis
      using some r(2) turnOk_cong [of ?r "rest row"] by (simp add: g' rest_cong frame_simps)
  qed
qed

subsection \<open>Starting\<close>

text \<open>The refusals of a start, in the order of the checks.\<close>

definition startRefusal :: "bj_env \<Rightarrow> error \<Rightarrow> bool" where
  "startRefusal env e = (e \<in> {
     Conflict ''Finish the active blackjack game before starting a new one.'',
     BadRequest ''Invalid stake amount.'',
     Conflict ''Stake amount is outside the allowed range.'',
     Conflict ''Insufficient balance.'',
     Conflict ''Prize pool reserve is too low for this stake.''} \<or> (\<exists>a. be_kyc env a = Some e))"

text \<open>The stake is what the configuration's natural pays out in whole cents.\<close>

definition stakeOk :: "bj_config \<Rightarrow> bj_request \<Rightarrow> bool" where
  "stakeOk cfg req = (let pay = br_stakeAmount req * of_nat (br_multiplier req) * naturalPayoutMultiplier cfg
     in 0 \<le> pay \<and> of_int \<lfloor>pay\<rfloor> = pay \<and> 0 < br_multiplier req)"

definition started :: "cents \<Rightarrow> cents \<Rightarrow> bj_request \<Rightarrow> bj_world \<Rightarrow> bj_flight \<Rightarrow> bool" where
  "started w0 p0 req w f = (case f of (g', wallet', w') \<Rightarrow>
     restOk g' \<and> bg_id g' = br_newId req \<and> bg_userId g' = br_userId req \<and> moneyOk w0 p0 wallet' w' \<and>
     withdrawableBalance (bw_bank w') = withdrawableBalance (bw_bank w) + net g' \<and>
     bw_games w' = g' # bw_games w)"

lemma replaceRow_fresh:
  "bg_id g \<notin> bg_id ` set rows \<Longrightarrow> replaceRow g (r # rows) = (if bg_id r = bg_id g then g else r) # rows"
proof -
  assume "bg_id g \<notin> bg_id ` set rows"
  then have "\<forall>x \<in> set rows. bg_id x \<noteq> bg_id g" by (metis image_eqI)
  then have "map (\<lambda>r. if bg_id r = bg_id g then g else r) rows = rows" by (intro map_idI) simp
  then show ?thesis by (simp add: replaceRow_def)
qed

lemma settleGameByStatus_ok:
  assumes ok: "gameOk g" "seatsOk g" "bg_payoutAmount g = 0" and status: "status \<noteq> BjActive"
    and pay: "resolveStatusPayoutAmount status (of_int (bg_stakeAmount g)) (of_int (bg_totalStake g))
      (bg_config g) = of_int c" "0 \<le> c"
    and money: "moneyOk w0 p0 wallet w"
  shows "\<exists>g' wallet' w'. settleGameByStatus env g status wallet w = (g', wallet', w') \<and> restOk g' \<and>
    bg_id g' = bg_id g \<and> bg_userId g' = bg_userId g \<and> moneyOk w0 p0 wallet' w' \<and> net g' = net g + c \<and>
    withdrawableBalance (bw_bank w') = withdrawableBalance (bw_bank w) + c \<and>
    bw_games w' = replaceRow g' (bw_games w)"
proof -
  let ?g = "closeGame (be_now env) status (of_int c) g"
  have run: "settleGameByStatus env g status wallet w = payOut ?g wallet (of_int c) w"
    by (simp add: settleGameByStatus_def pay Let_def)
  have "restOk (rest ?g)" by (rule restOk_closed [OF ok(1,2) status pay(2)])
  moreover have "net (rest ?g) = net g + c" "bg_id (rest ?g) = bg_id g" "bg_userId (rest ?g) = bg_userId g"
    using ok(3) by (simp_all add: net_def frame_simps closeGame_def)
  ultimately show ?thesis
    using payOut_ok [OF money pay(2), of ?g] run by auto
qed

lemma initial_payout:
  assumes "status \<in> {PlayerBlackjack, DealerBlackjack, BjPush}" and "configOk cfg" and "0 \<le> c"
    and "0 \<le> of_int c * naturalPayoutMultiplier cfg"
    and "of_int \<lfloor>of_int c * naturalPayoutMultiplier cfg\<rfloor> = of_int c * naturalPayoutMultiplier cfg"
  obtains k where "resolveStatusPayoutAmount status (of_int c) (of_int c) cfg = of_int k" and "0 \<le> k"
proof (cases status)
  case PlayerBlackjack
  then show ?thesis
    using assms(4) assms(5) [symmetric] that [of "\<lfloor>of_int c * naturalPayoutMultiplier cfg\<rfloor>"]
    by (simp only: resolveStatusPayoutAmount_def bj_status.case)
next
  case DealerBlackjack
  then show ?thesis using that [of 0] by (simp add: resolveStatusPayoutAmount_def)
next
  case BjPush
  then show ?thesis
    using assms(2,3) that [of c] by (simp add: resolveStatusPayoutAmount_def configOk_def payoutsOk_def)
qed (use assms(1) in auto)

lemma resolveInitialOutcome_opening:
  assumes cards: "map bh_cards (bg_playerHands g) = [[a, b]]" and hard: "hardTotal [a, b] \<le> 20"
  obtains status where "resolveInitialOutcome g = Inr status"
    and "status \<in> {PlayerBlackjack, DealerBlackjack, BjPush, BjActive}"
    and "status = BjActive \<Longrightarrow> sc_total (scoreBlackjackCards [a, b]) < 21"
proof -
  obtain h where h: "bg_playerHands g = [h]" "bh_cards h = [a, b]" using cards by auto
  have "sc_total (scoreBlackjackCards [a, b]) \<noteq> 21 \<Longrightarrow> sc_total (scoreBlackjackCards [a, b]) < 21"
    using natural_total [OF hard] by linarith
  then have res: "\<exists>status. resolveInitialOutcome g = Inr status \<and>
      status \<in> {PlayerBlackjack, DealerBlackjack, BjPush, BjActive} \<and>
      (status = BjActive \<longrightarrow> sc_total (scoreBlackjackCards [a, b]) < 21)"
    using h by (simp add: resolveInitialOutcome_def getPrimaryPlayerHand_def Let_def score_natural)
  then show ?thesis using that by blast
qed

text \<open>The whole start, once the guards are passed.\<close>

definition dealAndDebit ::
  "bj_env \<Rightarrow> bj_config \<Rightarrow> bj_request \<Rightarrow> rat \<Rightarrow> card list \<Rightarrow> bj_world \<Rightarrow> bj_flight res" where
  "dealAndDebit env cfg req stakeAmount d w =
     (case insertInitialGame (br_newId req) (br_userId req) (br_epoch req) (br_clientNonce req)
             stakeAmount [d ! 0, d ! 2] [d ! 1, d ! 3] d 4 cfg (br_linkedGroup req) w of
        (g, w1) \<Rightarrow>
     (case persistGameState (syncBlackjackTurnDeadline env g) w1 of
        (g1, w2) \<Rightarrow>
     bind_res (applyStakeDebit ''blackjack_stake'' (bg_id g1) (of_int (withdrawableBalance (bw_bank w)))
         (of_int (wageredAmount (bw_bank w))) stakeAmount w2)
       (\<lambda>(walletAfter, wageredAfter, w3).
     case persistGameState g1 w3 of
       (g2, w4) \<Rightarrow>
     bind_res (resolveInitialOutcome g2) (\<lambda>status.
     if status \<noteq> BjActive then Inr (settleGameByStatus env g2 status walletAfter w4)
     else Inr (g2, walletAfter, w4)))))"

lemma dealAndDebit_ok:
  assumes d: "deckOk d" and cfg: "configOk cfg" and c: "0 < c" "c \<le> withdrawableBalance (bw_bank w)"
    and whole: "0 \<le> of_int c * naturalPayoutMultiplier cfg"
      "of_int \<lfloor>of_int c * naturalPayoutMultiplier cfg\<rfloor> = of_int c * naturalPayoutMultiplier cfg"
    and money: "moneyOk w0 p0 wallet w" and fresh: "br_newId req \<notin> bg_id ` set (bw_games w)"
  shows "\<exists>f. dealAndDebit env cfg req (of_int c) d w = Inr f \<and> started w0 p0 req w f"
proof -
  define row where "row = openingRow (br_newId req) (br_userId req) (br_epoch req) (br_clientNonce req)
    c d cfg (br_linkedGroup req)"
  define g where "g = rest (syncBlackjackTurnDeadline env (rest row))"
  note g = opening_game [OF row_def d cfg c(1) g_def]
  have rowId: "bg_id row = br_newId req" by (simp add: row_def openingRow_def)
  have games: "replaceRow g (row # bw_games w) = g # bw_games w" "replaceRow g (g # bw_games w) = g # bw_games w"
    using replaceRow_fresh [of g "bw_games w"] fresh g(6) rowId by simp_all
  let ?w2 = "w\<lparr>bw_games := g # bw_games w\<rparr>"
  have ins: "insertInitialGame (br_newId req) (br_userId req) (br_epoch req) (br_clientNonce req) (of_int c)
      [d ! 0, d ! 2] [d ! 1, d ! 3] d 4 cfg (br_linkedGroup req) w = (rest row, w\<lparr>bw_games := row # bw_games w\<rparr>)"
    unfolding insertInitialGame_eq Let_def row_def ..
  have store: "persistGameState (syncBlackjackTurnDeadline env (rest row)) (w\<lparr>bw_games := row # bw_games w\<rparr>) =
      (g, ?w2)"
    using games(1) by (simp add: persistGameState_eq flip: g_def)
  obtain bk walletAfter wageredAfter where debit: "applyTransactionalGameStakeDebit
      (of_int (withdrawableBalance (bw_bank w))) (of_int (wageredAmount (bw_bank w))) (of_int c)
      ''blackjack_stake'' (Some (bg_id g)) (bw_bank w) = Inr (bk, walletAfter, wageredAfter)"
    using c(2) by (auto simp: applyTransactionalGameStakeDebit_def Let_def)
  let ?w4 = "w\<lparr>bw_games := g # bw_games w, bw_bank := bk\<rparr>"
  have bank: "bankOk w0 p0 (bw_bank w)" using money by (simp add: moneyOk_def)
  note paid = stakeDebit_ok [OF bank refl refl debit]
  have money4: "moneyOk w0 p0 walletAfter ?w4"
    and wallet4: "withdrawableBalance (bw_bank ?w4) = withdrawableBalance (bw_bank w) - c"
    using paid money by (auto simp: moneyOk_def)
  have stake: "applyStakeDebit ''blackjack_stake'' (bg_id g) (of_int (withdrawableBalance (bw_bank w)))
      (of_int (wageredAmount (bw_bank w))) (of_int c) ?w2 = Inr (walletAfter, wageredAfter, ?w4)"
    using debit by (simp add: applyStakeDebit_def)
  have again: "persistGameState g ?w4 = (g, ?w4)"
    using games(2) g(4) by (simp add: persistGameState_eq)
  obtain status where outcome: "resolveInitialOutcome g = Inr status"
    and status: "status \<in> {PlayerBlackjack, DealerBlackjack, BjPush, BjActive}"
    and active: "status = BjActive \<Longrightarrow> sc_total (scoreBlackjackCards [d ! 0, d ! 2]) < 21"
    using resolveInitialOutcome_opening [OF g(13) hardTotal_two] by blast
  have run: "dealAndDebit env cfg req (of_int c) d w =
      (if status \<noteq> BjActive then Inr (settleGameByStatus env g status walletAfter ?w4)
       else Inr (g, walletAfter, ?w4))"
    unfolding dealAndDebit_def ins by (simp add: store stake again outcome)
  have net: "net g = - c" using g(9,10) by (simp add: net_def)
  show ?thesis
  proof (cases "status = BjActive")
    case True
    have "restOk g"
      using g(1-4,10,12) g(5) [OF active [OF True]] by (simp add: restOk_def)
    with run True net money4 wallet4 g(6,7) show ?thesis by (simp add: started_def)
  next
    case False
    then have settled: "status \<in> {PlayerBlackjack, DealerBlackjack, BjPush}" using status by auto
    from c(1) have c0: "0 \<le> c" by simp
    from initial_payout [OF settled cfg c0 whole] obtain k where
      k: "resolveStatusPayoutAmount status (of_int c) (of_int c) cfg = of_int k" "0 \<le> k" .
    then have pay: "resolveStatusPayoutAmount status (of_int (bg_stakeAmount g)) (of_int (bg_totalStake g))
        (bg_config g) = of_int k" by (simp add: g(8,9,11))
    from settleGameByStatus_ok [OF g(1,3,10) False pay k(2) money4, of env] obtain g' wallet' w' where
      "settleGameByStatus env g status walletAfter ?w4 = (g', wallet', w')" "restOk g'"
      "bg_id g' = bg_id g" "bg_userId g' = bg_userId g" "moneyOk w0 p0 wallet' w'" "net g' = net g + k"
      "withdrawableBalance (bw_bank w') = withdrawableBalance (bw_bank ?w4) + k"
      "bw_games w' = replaceRow g' (bw_games ?w4)" by blast
    moreover from this have "bw_games w' = g' # bw_games w"
      using replaceRow_fresh [of g' "bw_games w" g] fresh g(6) by simp
    ultimately show ?thesis
      using run False net wallet4 g(6,7) by (simp add: started_def)
  qed
qed

lemma startResolvedBlackjack_deal:
  assumes "drawBlackjackDeck sha256 (br_seed req) (br_userId req) (br_clientNonce req) = Inr d"
  shows "startResolvedBlackjack env sha256 cfg req w =
    (if (case br_linkedGroup req of
           None \<Rightarrow> loadActiveGames w \<noteq> []
         | Some l \<Rightarrow> list_ex (\<lambda>g. map_option lg_groupId (bg_linkedGroup g) \<noteq> Some (lg_groupId l)) (loadActiveGames w))
     then Inl (Conflict ''Finish the active blackjack game before starting a new one.'')
     else bind_res (resolveStakeAmount (br_stakeAmount req)) (\<lambda>base.
       if base * of_nat (br_multiplier req) < of_int (minStake cfg) \<or>
          base * of_nat (br_multiplier req) > of_int (maxStake cfg) then
         Inl (Conflict ''Stake amount is outside the allowed range.'')
       else case be_kyc env (toCents (base * of_nat (br_multiplier req))) of
         Some e \<Rightarrow> Inl e
       | None \<Rightarrow>
           if of_int (withdrawableBalance (bw_bank w)) < base * of_nat (br_multiplier req) then
             Inl (Conflict ''Insufficient balance.'')
           else bind_res (ensurePoolCanCover env (base * of_nat (br_multiplier req))
                  (base * of_nat (br_multiplier req) * naturalPayoutMultiplier cfg) w)
             (\<lambda>_. dealAndDebit env cfg req (base * of_nat (br_multiplier req)) (dd_deck d) w)))"
  unfolding startResolvedBlackjack_def dealAndDebit_def Let_def assms bind_res_simps ..

lemma startResolvedBlackjack_result:
  assumes cfg: "configOk cfg" and stake: "stakeOk cfg req" and money: "moneyOk w0 p0 wallet w"
    and fresh: "br_newId req \<notin> bg_id ` set (bw_games w)"
  shows "(\<exists>e. startResolvedBlackjack env sha256 cfg req w = Inl e \<and> startRefusal env e) \<or>
    (\<exists>f. startResolvedBlackjack env sha256 cfg req w = Inr f \<and> started w0 p0 req w f)"
proof -
  obtain d where draw: "drawBlackjackDeck sha256 (br_seed req) (br_userId req) (br_clientNonce req) = Inr d"
    and d: "deckOk (dd_deck d)" by (rule drawBlackjackDeck_ok)
  let ?stake = "br_stakeAmount req * of_nat (br_multiplier req)"
  have go: "\<exists>f. dealAndDebit env cfg req ?stake (dd_deck d) w = Inr f \<and> started w0 p0 req w f"
    if "resolveStakeAmount (br_stakeAmount req) = Inr base"
      "?stake \<le> of_int (withdrawableBalance (bw_bank w))" for base
  proof -
    have base: "0 < br_stakeAmount req" "br_stakeAmount req = of_int \<lfloor>br_stakeAmount req\<rfloor>"
      using that(1) by (auto simp only: resolveStakeAmount_def not_le not_False_eq_True simp_thms split: if_splits)
    define c where "c = \<lfloor>br_stakeAmount req\<rfloor> * int (br_multiplier req)"
    have c: "?stake = of_int c" using base(2) by (simp add: c_def) 
    have m: "0 < br_multiplier req" and whole: "0 \<le> of_int c * naturalPayoutMultiplier cfg"
      "of_int \<lfloor>of_int c * naturalPayoutMultiplier cfg\<rfloor> = of_int c * naturalPayoutMultiplier cfg"
      using stake unfolding stakeOk_def Let_def c by blast+
    have "0 < ?stake" using base(1) m by simp
    then have "0 < c" by (simp only: c of_int_0_less_iff)
    moreover have "c \<le> withdrawableBalance (bw_bank w)"
      using that(2) by (simp only: c of_int_le_iff)
    ultimately show ?thesis using dealAndDebit_ok [OF d cfg _ _ whole money fresh] c by metis
  qed
  show ?thesis
  proof (cases "startResolvedBlackjack env sha256 cfg req w")
    case (Inl e)
    with go show ?thesis
      unfolding startResolvedBlackjack_deal [OF draw]
      by (auto simp: startRefusal_def resolveStakeAmount_def bind_res_def ensurePoolCanCover_def
          assertTransactionalGamePoolCoverage_def Let_def not_le not_less
          split: if_splits option.splits sum.splits)
  next
    case (Inr f)
    then obtain base where "resolveStakeAmount (br_stakeAmount req) = Inr base"
      "?stake \<le> of_int (withdrawableBalance (bw_bank w))"
      "dealAndDebit env cfg req ?stake (dd_deck d) w = Inr f"
      unfolding startResolvedBlackjack_deal [OF draw]
      by (auto simp: resolveStakeAmount_def bind_res_def Let_def not_less split: if_splits option.splits sum.splits)
    with go [of base] Inr show ?thesis by auto
  qed
qed

end
