(* ===== verification/Blackjack_Run.thy ===== *)
theory Blackjack_Run
  imports Blackjack_Start
begin

text \<open>
  The blackjack service as a state machine over one player's games and wallet: what holds in
  every world its transactions can reach, in any order and under any clock.
\<close>

subsection \<open>Reachable worlds\<close>

text \<open>\<open>bjRun w0 p0 w\<close>: world \<open>w\<close> is reached from a wallet of \<open>w0\<close> and a prize pool of \<open>p0\<close> with no games.\<close>

inductive bjRun :: "cents \<Rightarrow> cents \<Rightarrow> bj_world \<Rightarrow> bool" for w0 p0 where
  Opening: "\<lbrakk>0 \<le> w0; bw_games w = []; withdrawableBalance (bw_bank w) = w0;
      prizePoolBalance (bw_bank w) = p0; walletLedger (bw_bank w) = []; houseLedger (bw_bank w) = []\<rbrakk>
      \<Longrightarrow> bjRun w0 p0 w"
| Start: "\<lbrakk>bjRun w0 p0 w; configOk cfg; stakeOk cfg req; br_newId req \<notin> bg_id ` set (bw_games w);
      startResolvedBlackjack env sha256 cfg req w = Inr (g, wallet, w')\<rbrakk> \<Longrightarrow> bjRun w0 p0 w'"
| Action: "\<lbrakk>bjRun w0 p0 w; actOnBlackjack env uid gid act w = Done g wallet w'\<rbrakk> \<Longrightarrow> bjRun w0 p0 w'"
| Expiry: "\<lbrakk>bjRun w0 p0 w; actOnBlackjack env uid gid act w = TurnTimedOut w' e\<rbrakk> \<Longrightarrow> bjRun w0 p0 w'"
| Worker: "\<lbrakk>bjRun w0 p0 w; processExpiredBlackjackTurnForUser env w = Inr (w', b)\<rbrakk> \<Longrightarrow> bjRun w0 p0 w'"

definition worldOk :: "cents \<Rightarrow> cents \<Rightarrow> bj_world \<Rightarrow> bool" where
  "worldOk w0 p0 w = (moneyOk w0 p0 (of_int (withdrawableBalance (bw_bank w))) w \<and>
     distinct (map bg_id (bw_games w)) \<and> list_all restOk (bw_games w) \<and>
     withdrawableBalance (bw_bank w) = w0 + (\<Sum>g\<leftarrow>bw_games w. net g))"

lemma replaceRow_facts:
  assumes "distinct (map bg_id rows)" and "g \<in> set rows" and "bg_id g' = bg_id g"
  shows "map bg_id (replaceRow g' rows) = map bg_id rows"
    "(\<Sum>r\<leftarrow>replaceRow g' rows. net r) = (\<Sum>r\<leftarrow>rows. net r) - net g + net g'"
    "set (replaceRow g' rows) \<subseteq> insert g' (set rows)" "g' \<in> set (replaceRow g' rows)"
proof -
  show "map bg_id (replaceRow g' rows) = map bg_id rows" by (simp add: replaceRow_def comp_def)
  show "set (replaceRow g' rows) \<subseteq> insert g' (set rows)" by (auto simp: replaceRow_def)
  show "g' \<in> set (replaceRow g' rows)" using assms(2,3) by (force simp: replaceRow_def)
  have "replaceRow g' rows = update_first (\<lambda>r. bg_id r = bg_id g) (\<lambda>_. g') rows"
    using assms(3) by (simp add: replaceRow_def update_first_map [OF assms(1)])
  moreover have "find (\<lambda>r. bg_id r = bg_id g) rows = Some g"
    by (rule find_key_distinct [OF assms(1,2)])
  ultimately show "(\<Sum>r\<leftarrow>replaceRow g' rows. net r) = (\<Sum>r\<leftarrow>rows. net r) - net g + net g'"
    by (simp add: sum_list_update_first)
qed

lemma flightOk_world:
  assumes ok: "worldOk w0 p0 w" and g: "g \<in> set (bw_games w)"
    and flight: "flightOk w0 p0 (withdrawableBalance (bw_bank w) - net g) (bw_games w) g (g', wallet, w')"
  shows "worldOk w0 p0 w'"
proof -
  have f: "restOk g'" "bg_id g' = bg_id g" "moneyOk w0 p0 wallet w'"
    "withdrawableBalance (bw_bank w') - net g' = withdrawableBalance (bw_bank w) - net g"
    "bw_games w' = replaceRow g' (bw_games w)"
    using flight by (simp_all add: flightOk_def)
  have w: "distinct (map bg_id (bw_games w))" "list_all restOk (bw_games w)"
    "withdrawableBalance (bw_bank w) = w0 + (\<Sum>g\<leftarrow>bw_games w. net g)"
    using ok by (simp_all add: worldOk_def)
  note r = replaceRow_facts [OF w(1) g f(2)]
  have "list_all restOk (bw_games w')"
    using r(3) f(1) w(2) by (auto simp: f(5) list_all_iff)
  then show ?thesis using f(3,4) r(1,2) w(1,3) by (simp add: worldOk_def moneyOk_def f(5))
qed

lemma worldOk_row:
  assumes "worldOk w0 p0 w" and "g \<in> set (loadActiveGames w)"
  shows "g \<in> set (bw_games w)" "restOk g" "bg_status g = BjActive" "toGameState g = g"
    "assertCurrentTurnSeat (bg_userId g) g = Inr ()"
    "moneyOk w0 p0 (of_int (withdrawableBalance (bw_bank w))) w"
proof -
  show g: "g \<in> set (bw_games w)" "bg_status g = BjActive"
    using assms(2) by (simp_all add: loadActiveGames_def)
  show "restOk g" using assms(1) g by (simp add: worldOk_def list_all_iff)
  from restOk_loads [OF this g(2)] show "toGameState g = g"
    "assertCurrentTurnSeat (bg_userId g) g = Inr ()" .
  show "moneyOk w0 p0 (of_int (withdrawableBalance (bw_bank w))) w"
    using assms(1) unfolding worldOk_def by blast
qed

lemma stand_world:
  assumes "worldOk w0 p0 w" and "g \<in> set (loadActiveGames w)"
  obtains g' wallet w' where
    "applyBlackjackStandAction env g (of_int (withdrawableBalance (bw_bank w))) w = Inr (g', wallet, w')"
    and "worldOk w0 p0 w'" and "deadlineOk env g'" and "bw_games w' = replaceRow g' (bw_games w)"
    and "bg_id g' = bg_id g" and "restOk g'"
proof -
  note r = worldOk_row [OF assms]
  note a = restOk_active [OF r(2,3)]
  from stand_endsWell [OF a(1,2,4,5) r(6), of env] obtain g' wallet w' where
    run: "applyBlackjackStandAction env g (of_int (withdrawableBalance (bw_bank w))) w = Inr (g', wallet, w')"
    and f: "flightOk w0 p0 (withdrawableBalance (bw_bank w) - net g) (bw_games w) g (g', wallet, w')"
    and d: "deadlineOk env g'"
    by (auto simp: endsWell_def split: sum.splits)
  from flightOk_world [OF assms(1) r(1) f] run f d show ?thesis
    by (intro that [of g' wallet w']) (simp_all add: flightOk_def)
qed

lemma find_active:
  "find (\<lambda>r. bg_id r = gid) (loadActiveGames w) = Some g \<Longrightarrow> g \<in> set (loadActiveGames w) \<and> bg_id g = gid"
  by (auto dest: find_SomeD)

text \<open>A request on an active game, from the locked row on.\<close>

lemma actOnBlackjack_row:
  assumes ok: "worldOk w0 p0 w" and find: "find (\<lambda>r. bg_id r = gid) (loadActiveGames w) = Some g"
  shows "actOnBlackjack env uid gid act w =
    (case assertCurrentTurnSeat uid g of
       Inl e \<Rightarrow> Refused e
     | Inr _ \<Rightarrow>
         if isBlackjackTurnExpired env g then
           (case applyBlackjackStandAction env g (of_int (withdrawableBalance (bw_bank w))) w of
              Inl e \<Rightarrow> Refused e
            | Inr (g', wallet', w') \<Rightarrow> TurnTimedOut w'
                (Conflict ''Blackjack turn timed out and the default action was applied.''))
         else resultOf (actOnGame env g act (of_int (withdrawableBalance (bw_bank w)))
                (of_int (wageredAmount (bw_bank w))) w))"
proof -
  have g: "g \<in> set (loadActiveGames w)" using find_active [OF find] by simp
  then have "loadActiveGames w \<noteq> []" by auto
  with find worldOk_row(4) [OF ok g] show ?thesis by (simp add: actOnBlackjack_def Let_def)
qed

lemma act_world:
  assumes ok: "worldOk w0 p0 w" and act: "actOnBlackjack env uid gid act w = Done g' wallet w'"
  shows "worldOk w0 p0 w'"
proof -
  obtain g where find: "find (\<lambda>r. bg_id r = gid) (loadActiveGames w) = Some g"
    using act by (auto simp: actOnBlackjack_def Let_def split: if_splits option.splits)
  have mem: "g \<in> set (loadActiveGames w)" using find_active [OF find] by simp
  note r = worldOk_row [OF ok mem]
  have run: "actOnGame env g act (of_int (withdrawableBalance (bw_bank w)))
      (of_int (wageredAmount (bw_bank w))) w = Inr (g', wallet, w')"
    using act by (auto simp: actOnBlackjack_row [OF ok find] resultOf_def split: sum.splits if_splits)
  then have "act \<in> set (getAvailableActions g (of_int (withdrawableBalance (bw_bank w))))"
    by (auto simp: actOnGame_def split: if_splits)
  from actOnGame_result [OF r(2,6) refl this, of env] run
  have "flightOk w0 p0 (withdrawableBalance (bw_bank w) - net g) (bw_games w) g (g', wallet, w')"
    by (auto simp: endsWell_def)
  then show ?thesis by (rule flightOk_world [OF ok r(1)])
qed

lemma expiry_world:
  assumes ok: "worldOk w0 p0 w" and act: "actOnBlackjack env uid gid act w = TurnTimedOut w' e"
  shows "worldOk w0 p0 w'"
proof -
  obtain g where find: "find (\<lambda>r. bg_id r = gid) (loadActiveGames w) = Some g"
    using act by (auto simp: actOnBlackjack_def Let_def split: if_splits option.splits)
  have mem: "g \<in> set (loadActiveGames w)" using find_active [OF find] by simp
  from stand_world [OF ok mem, of env] obtain g1 wallet1 w1 where
    "applyBlackjackStandAction env g (of_int (withdrawableBalance (bw_bank w))) w = Inr (g1, wallet1, w1)"
    "worldOk w0 p0 w1" by blast
  with act show ?thesis
    by (auto simp: actOnBlackjack_row [OF ok find] resultOf_def split: sum.splits if_splits)
qed

lemma map_toGameState:
  assumes "worldOk w0 p0 w"
  shows "map toGameState (loadActiveGames w) = loadActiveGames w"
  using worldOk_row(4) [OF assms] by (simp add: map_idI)

lemma worker_world:
  assumes ok: "worldOk w0 p0 w"
  obtains w' b where "processExpiredBlackjackTurnForUser env w = Inr (w', b)" and "worldOk w0 p0 w'"
    and "b = (\<exists>g \<in> set (loadActiveGames w). isBlackjackTurnExpired env g)"
    and "\<not> b \<longrightarrow> w' = w"
    and "b \<longrightarrow> (\<exists>g \<in> set (loadActiveGames w). \<exists>g'. isBlackjackTurnExpired env g \<and> bg_id g' = bg_id g \<and>
      bw_games w' = replaceRow g' (bw_games w) \<and> deadlineOk env g' \<and> restOk g')"
proof (cases "find (isBlackjackTurnExpired env) (sortBlackjackGames (loadActiveGames w))")
  case None
  then have "\<forall>g \<in> set (loadActiveGames w). \<not> isBlackjackTurnExpired env g"
    by (simp add: find_None_iff sortBlackjackGames_def)
  with None that [of w False] ok show ?thesis
    by (simp add: processExpiredBlackjackTurnForUser_def map_toGameState [OF ok])
next
  case (Some g)
  then have g: "g \<in> set (loadActiveGames w)" "isBlackjackTurnExpired env g"
    by (auto dest!: find_SomeD simp: sortBlackjackGames_def)
  from stand_world [OF ok g(1), of env] obtain g' wallet w' where
    "applyBlackjackStandAction env g (of_int (withdrawableBalance (bw_bank w))) w = Inr (g', wallet, w')"
    "worldOk w0 p0 w'" "deadlineOk env g'" "bw_games w' = replaceRow g' (bw_games w)" "bg_id g' = bg_id g"
    "restOk g'" by blast
  with Some g that [of w' True] show ?thesis
    by (auto simp: processExpiredBlackjackTurnForUser_def map_toGameState [OF ok])
qed

lemma bjRun_worldOk: "bjRun w0 p0 w \<Longrightarrow> worldOk w0 p0 w"
proof (induction rule: bjRun.induct)
  case (Opening w)
  then show ?case by (simp add: worldOk_def moneyOk_def bankOk_def bankMoney_def)
next
  case (Start w cfg req env sha256 g wallet w')
  have "moneyOk w0 p0 (of_int (withdrawableBalance (bw_bank w))) w"
    using Start.IH unfolding worldOk_def by blast
  from startResolvedBlackjack_result [OF Start.hyps(2,3) this Start.hyps(4), of env sha256] Start.hyps(5)
  have "started w0 p0 req w (g, wallet, w')" by auto
  with Start.IH Start.hyps(4) show ?case
    by (auto simp: started_def worldOk_def moneyOk_def)
next
  case (Action w env uid gid act g wallet w')
  then show ?case using act_world by blast
next
  case (Expiry w env uid gid act w' e)
  then show ?case using expiry_world by blast
next
  case (Worker w env w' b)
  then show ?case using worker_world [of w0 p0 w env] by (metis Inr_inject prod.inject)
qed

subsection \<open>A round to try the theorems on\<close>

definition quietEnv :: bj_env where
  "quietEnv = \<lparr>be_kyc = (\<lambda>_. None), be_minReserve = 0, be_timeoutMs = 30000, be_now = 1000\<rparr>"

definition zeroHash :: hash_function where
  "zeroHash = (\<lambda>_. [0, 0, 0, 0])"

definition sampleRequest :: bj_request where
  "sampleRequest = \<lparr>br_userId = 7, br_stakeAmount = 500, br_multiplier = 1, br_linkedGroup = None,
     br_clientNonce = ''n'', br_epoch = 3, br_seed = ''s'', br_newId = 5\<rparr>"

definition emptyWorld :: bj_world where
  "emptyWorld = \<lparr>bw_bank = sampleBank, bw_games = []\<rparr>"

lemma drawLoop_zero:
  "n = length available \<Longrightarrow> \<exists>dg. drawLoop zeroHash key n step available drawn digests =
     Inr (drawn @ available, digests @ dg)"
proof (induction n arbitrary: step available drawn digests)
  case (Suc n)
  then obtain c cs where "available = c # cs" by (cases available) auto
  moreover from this obtain dg where "drawLoop zeroHash key n (step + 1) cs (drawn @ [c])
      (digests @ [toHex [0, 0, 0, 0]]) = Inr ((drawn @ [c]) @ cs, (digests @ [toHex [0, 0, 0, 0]]) @ dg)"
    using Suc.IH [of cs "step + 1" "drawn @ [c]" "digests @ [toHex [0, 0, 0, 0]]"] Suc.prems by auto
  ultimately show ?case by (simp add: readUInt32BE_def Let_def zeroHash_def)
qed simp

lemma drawBlackjackDeck_zero:
  "\<exists>d. drawBlackjackDeck zeroHash seed uid nonce = Inr d \<and> dd_deck d = createStandardDeck"
proof -
  have "52 = length createStandardDeck" by (simp add: createStandardDeck_def)
  from drawLoop_zero [OF this, of "joinWith '':'' [seed, show_digits uid, nonce]" 0 "[]" "[]"]
  show ?thesis by (auto simp: drawBlackjackDeck_def)
qed

text \<open>An ace and a three against a two: the first cards of the unshuffled deck.\<close>

definition sampleGame :: bj_game where
  "sampleGame = (openingRow 5 7 3 ''n'' 500 createStandardDeck BLACKJACK_CONFIG None)
     \<lparr>bg_turnDeadlineAt := Some 31000,
      bg_table := (buildBlackjackTable 7 3 ''n'' None)\<lparr>bt_seats :=
        [\<lparr>bs_seatIndex = 0, bs_role = DealerRole, bs_participantId = BLACKJACK_AI_DEALER_ID,
          bs_isSelf = False, bs_turnDeadlineAt = None\<rparr>,
         \<lparr>bs_seatIndex = 1, bs_role = PlayerRole, bs_participantId = ''user:'' @ show_digits 7,
          bs_isSelf = True, bs_turnDeadlineAt = Some 31000\<rparr>]\<rparr>\<rparr>"

definition sampleWorld :: bj_world where
  "sampleWorld = \<lparr>bw_bank = \<lparr>withdrawableBalance = 4500, wageredAmount = 500, prizePoolBalance = 100500,
       walletLedger = [\<lparr>ll_entryType = ''blackjack_stake'', ll_amount = - 500, ll_balanceBefore = 5000,
         ll_balanceAfter = 4500, ll_referenceId = Some 5\<rparr>],
       houseLedger = [\<lparr>ll_entryType = ''blackjack_stake'', ll_amount = 500, ll_balanceBefore = 100000,
         ll_balanceAfter = 100500, ll_referenceId = Some 5\<rparr>]\<rparr>,
     bw_games = [sampleGame]\<rparr>"

lemma standardDeck_top:
  "createStandardDeck ! 0 = \<lparr>rank = RA, suit = Spades\<rparr>" "createStandardDeck ! Suc 0 = \<lparr>rank = R2, suit = Spades\<rparr>"
  "createStandardDeck ! 2 = \<lparr>rank = R3, suit = Spades\<rparr>" "createStandardDeck ! 3 = \<lparr>rank = R4, suit = Spades\<rparr>"
  by (simp_all add: createStandardDeck_def)

lemma toCents_numerals: "toCents (numeral k) = numeral k" "toCents (- numeral k) = - numeral k"
  using toCents_of_int [of "numeral k"] toCents_of_int [of "- numeral k"] by simp_all

lemma opening_sample:
  "rest (syncBlackjackTurnDeadline quietEnv (rest (openingRow 5 7 3 ''n'' 500 createStandardDeck BLACKJACK_CONFIG None)))
     = sampleGame"
  by (simp add: openingRow_def syncBlackjackTableTurnState_def syncBlackjackTurnDeadline_def
      syncLegacyPlayerCards_def getActivePlayerHand_def hasPendingPlayerTurn_def Let_def
      buildBlackjackTable_def buildBlackjackTurnDeadline_def standardDeck_top scoreBlackjackCards_def quietEnv_def
      sampleGame_def)

lemma settle_sample:
  "dealAndDebit quietEnv BLACKJACK_CONFIG sampleRequest 500 createStandardDeck emptyWorld =
     Inr (sampleGame, 4500, sampleWorld)"
proof -
  let ?d = createStandardDeck
  let ?row = "openingRow 5 7 3 ''n'' 500 ?d BLACKJACK_CONFIG None"
  have ins: "insertInitialGame (br_newId sampleRequest) (br_userId sampleRequest) (br_epoch sampleRequest)
      (br_clientNonce sampleRequest) 500 [?d ! 0, ?d ! 2] [?d ! 1, ?d ! 3] ?d 4 BLACKJACK_CONFIG
      (br_linkedGroup sampleRequest) emptyWorld = (rest ?row, emptyWorld\<lparr>bw_games := [?row]\<rparr>)"
    using insertInitialGame_eq [of 5 7 3 "''n''" 500 ?d BLACKJACK_CONFIG None emptyWorld]
    by (simp add: sampleRequest_def emptyWorld_def Let_def)
  have rest: "rest sampleGame = sampleGame"
    unfolding opening_sample [symmetric] by (rule rest_idem)
  have ids: "bg_id sampleGame = 5" "bg_id ?row = 5" "resolveInitialOutcome sampleGame = Inr BjActive"
    by (simp_all add: sampleGame_def openingRow_def resolveInitialOutcome_def getPrimaryPlayerHand_def
        standardDeck_top scoreBlackjackCards_def Let_def)
  show ?thesis
    unfolding dealAndDebit_def ins
    by (simp add: persistGameState_eq opening_sample rest replaceRow_def ids emptyWorld_def sampleBank_def
        applyStakeDebit_def applyTransactionalGameStakeDebit_def applyPrizePoolDelta_def Let_def
        toCents_numerals sampleWorld_def)
qed

lemma sample_fields:
  "br_stakeAmount sampleRequest = 500" "br_multiplier sampleRequest = 1" "br_linkedGroup sampleRequest = None"
  "be_kyc quietEnv a = None" "be_minReserve quietEnv = 0" "bw_games emptyWorld = []"
  "withdrawableBalance (bw_bank emptyWorld) = 5000" "prizePoolBalance (bw_bank emptyWorld) = 100000"
  "minStake BLACKJACK_CONFIG = 100" "maxStake BLACKJACK_CONFIG = 10000"
  "naturalPayoutMultiplier BLACKJACK_CONFIG = 5 / 2"
  by (simp_all add: sampleRequest_def quietEnv_def emptyWorld_def sampleBank_def BLACKJACK_CONFIG_def)

lemma sample_start:
  "startResolvedBlackjack quietEnv zeroHash BLACKJACK_CONFIG sampleRequest emptyWorld =
     Inr (sampleGame, 4500, sampleWorld)"
proof -
  obtain d where draw: "drawBlackjackDeck zeroHash (br_seed sampleRequest) (br_userId sampleRequest)
      (br_clientNonce sampleRequest) = Inr d" and d: "dd_deck d = createStandardDeck"
    using drawBlackjackDeck_zero by blast
  show ?thesis
    unfolding startResolvedBlackjack_deal [OF draw] d
    by (simp add: settle_sample sample_fields loadActiveGames_def resolveStakeAmount_def
        ensurePoolCanCover_def assertTransactionalGamePoolCoverage_def Let_def)
qed

lemma sample_run: "bjRun 5000 100000 sampleWorld"
proof (rule bjRun.Start [OF _ _ _ _ sample_start])
  show "bjRun 5000 100000 emptyWorld" by (rule bjRun.Opening) (simp_all add: emptyWorld_def sampleBank_def)
  show "configOk BLACKJACK_CONFIG" by (simp add: configOk_def payoutsOk_def BLACKJACK_CONFIG_def)
  show "stakeOk BLACKJACK_CONFIG sampleRequest" by (simp add: stakeOk_def sampleRequest_def BLACKJACK_CONFIG_def)
  show "br_newId sampleRequest \<notin> bg_id ` set (bw_games emptyWorld)" by (simp add: emptyWorld_def)
qed

end
