(* ===== verification/Blackjack_Safety.thy ===== *)
theory Blackjack_Safety
  imports Blackjack_Run
begin

text \<open>
  What the blackjack service guarantees in every reachable world: the money, the cards, the
  answer to every request, and the timeout worker.
\<close>

lemma restOk_sample: "restOk sampleGame"
  using bjRun_worldOk [OF sample_run] by (simp add: worldOk_def sampleWorld_def)

lemma sampleGame_active: "bg_status sampleGame = BjActive" "bg_userId sampleGame = 7"
  "bg_turnDeadlineAt sampleGame = Some 31000" "bg_id sampleGame = 5" "bw_games sampleWorld = [sampleGame]"
  by (simp_all add: sampleGame_def openingRow_def sampleWorld_def)



text \<open>
  No card is dealt twice: in every reachable world the cards on the table of a game, the
  player's hands and the dealer's, are distinct cards, and they are the first cards of the
  shuffled deck of 52.
\<close>

theorem blackjack_no_card_twice:
  assumes "bjRun w0 p0 w" and "g \<in> set (bw_games w)"
  shows "distinct (concat (map bh_cards (bg_playerHands g)) @ bg_dealerCards g) \<and>
    mset (concat (map bh_cards (bg_playerHands g)) @ bg_dealerCards g) =
      mset (take (bg_nextCardIndex g) (bg_deck g)) \<and>
    mset (bg_deck g) = mset createStandardDeck"
proof -
  have "cardsOk g" using bjRun_worldOk [OF assms(1)] assms(2)
    by (auto simp: worldOk_def list_all_iff restOk_def gameOk_def)
  then have deck: "deckOk (bg_deck g)" and cards: "mset (dealt g) = mset (take (bg_nextCardIndex g) (bg_deck g))"
    by (simp_all add: cardsOk_def)
  have "distinct (take (bg_nextCardIndex g) (bg_deck g))" using deckOk_facts(3) [OF deck] by simp
  then have "distinct (dealt g)" using cards mset_eq_imp_distinct_iff by blast
  then show ?thesis using cards deck by (simp only: dealt_def deckOk_def simp_thms)
qed

theorem blackjack_no_card_twice_witness:
  "distinct (concat (map bh_cards (bg_playerHands sampleGame)) @ bg_dealerCards sampleGame)"
  using blackjack_no_card_twice [OF sample_run, of sampleGame] by (simp add: sampleGame_active)





lemma filter_replaceRow:
  assumes "distinct (map bg_id rows)" and "g \<in> set rows" and "bg_id g' = bg_id g" and "P g" and "\<not> P g'"
  shows "length (filter P rows) = Suc (length (filter P (replaceRow g' rows)))"
  using assms
proof (induction rows)
  case (Cons r rows)
  show ?case
  proof (cases "bg_id r = bg_id g")
    case True
    then have "r = g" using Cons.prems(1,2) by (force simp: image_iff)
    moreover have "\<forall>x \<in> set rows. bg_id x \<noteq> bg_id g'"
      using Cons.prems(1,3) True by (metis distinct.simps(2) image_eqI list.set_map list.simps(9))
    then have "replaceRow g' rows = rows"
      unfolding replaceRow_def by (intro map_idI) simp
    ultimately show ?thesis using Cons.prems(3-5) by (simp add: replaceRow_def)
  next
    case False
    then have "length (filter P rows) = Suc (length (filter P (replaceRow g' rows)))"
      using Cons by auto
    with False Cons.prems(3) show ?thesis by (simp add: replaceRow_def)
  qed
qed simp

text \<open>
  The timeout worker never fails and always gets ahead: it forces a turn exactly when
  the player has a game whose deadline has passed, and every forced turn leaves one such
  game less, so repeating it comes to an end with no overdue turn.
\<close>

theorem timeout_worker_progress:
  assumes run: "bjRun w0 p0 w" and timeout: "0 < be_timeoutMs env"
  shows "\<exists>w' b. processExpiredBlackjackTurnForUser env w = Inr (w', b) \<and>
    b = (\<exists>g \<in> set (loadActiveGames w). isBlackjackTurnExpired env g) \<and>
    (if b then length (filter (isBlackjackTurnExpired env) (loadActiveGames w)) =
         Suc (length (filter (isBlackjackTurnExpired env) (loadActiveGames w')))
     else w' = w)"
proof -
  note ok = bjRun_worldOk [OF run]
  obtain w' b where go: "processExpiredBlackjackTurnForUser env w = Inr (w', b)"
    and "worldOk w0 p0 w'" and b: "b = (\<exists>g \<in> set (loadActiveGames w). isBlackjackTurnExpired env g)"
    and idle: "\<not> b \<longrightarrow> w' = w"
    and forced: "b \<longrightarrow> (\<exists>g \<in> set (loadActiveGames w). \<exists>g'. isBlackjackTurnExpired env g \<and> bg_id g' = bg_id g \<and>
      bw_games w' = replaceRow g' (bw_games w) \<and> deadlineOk env g' \<and> restOk g')"
    by (rule worker_world [OF ok, of env])
  let ?P = "\<lambda>g. bg_status g = BjActive \<and> isBlackjackTurnExpired env g"
  have late: "length (filter (isBlackjackTurnExpired env) (loadActiveGames v)) = length (filter ?P (bw_games v))" for v
    by (simp add: loadActiveGames_def conj_commute)
  have step: "length (filter ?P (bw_games w)) = Suc (length (filter ?P (bw_games w')))" if "b"
  proof -
    from forced that obtain g g' where g: "g \<in> set (loadActiveGames w)" "isBlackjackTurnExpired env g"
      "bg_id g' = bg_id g" "bw_games w' = replaceRow g' (bw_games w)" "deadlineOk env g'" by blast
    have "\<not> ?P g'" using g(5) timeout by (auto simp: deadlineOk_def isBlackjackTurnExpired_def)
    moreover have "?P g" "g \<in> set (bw_games w)" using g(1,2) by (simp_all add: loadActiveGames_def)
    moreover have "distinct (map bg_id (bw_games w))" using ok by (simp add: worldOk_def)
    ultimately show ?thesis using filter_replaceRow [of "bw_games w" g g' ?P] g(3,4) by simp
  qed
  have "if b then length (filter (isBlackjackTurnExpired env) (loadActiveGames w)) =
      Suc (length (filter (isBlackjackTurnExpired env) (loadActiveGames w'))) else w' = w"
  proof (cases b)
    case True
    then show ?thesis unfolding late using step [OF True] by (simp only: if_True)
  next
    case False
    then show ?thesis using idle False by (simp only: if_False)
  qed
  with go b show ?thesis by blast
qed

theorem timeout_worker_progress_witness:
  "\<exists>w'. processExpiredBlackjackTurnForUser (quietEnv\<lparr>be_now := 31000\<rparr>) sampleWorld = Inr (w', True) \<and>
     filter (isBlackjackTurnExpired (quietEnv\<lparr>be_now := 31000\<rparr>)) (loadActiveGames w') = []"
proof -
  let ?env = "quietEnv\<lparr>be_now := 31000\<rparr>"
  have late: "isBlackjackTurnExpired ?env sampleGame"
    by (simp add: isBlackjackTurnExpired_def sampleGame_active)
  have "loadActiveGames sampleWorld = [sampleGame]" by (simp add: loadActiveGames_def sampleGame_active)
  with late timeout_worker_progress [OF sample_run, of ?env] show ?thesis
    by (auto simp: quietEnv_def)
qed

text \<open>
  Starting a game either is refused, by one of the documented checks and with nothing
  changed, or succeeds with a game at rest that is staked, dealt and on the player's table.
\<close>

theorem blackjack_start_outcome:
  assumes "bjRun w0 p0 w" and "configOk cfg" and "stakeOk cfg req" and "br_newId req \<notin> bg_id ` set (bw_games w)"
  shows "case startResolvedBlackjack env sha256 cfg req w of
      Inl e \<Rightarrow> startRefusal env e
    | Inr (g, wallet, w') \<Rightarrow> restOk g \<and> bg_id g = br_newId req \<and> bw_games w' = g # bw_games w \<and>
        wallet = of_int (withdrawableBalance (bw_bank w')) \<and>
        withdrawableBalance (bw_bank w') =
          withdrawableBalance (bw_bank w) + bg_payoutAmount g - bg_totalStake g"
proof -
  have "moneyOk w0 p0 (of_int (withdrawableBalance (bw_bank w))) w"
    using bjRun_worldOk [OF assms(1)] unfolding worldOk_def by blast
  from startResolvedBlackjack_result [OF assms(2,3) this assms(4), of env sha256] show ?thesis
    by (auto simp: started_def net_def moneyOk_def)
qed

theorem blackjack_start_outcome_witness:
  "\<exists>g wallet w'. startResolvedBlackjack quietEnv zeroHash BLACKJACK_CONFIG sampleRequest emptyWorld =
       Inr (g, wallet, w') \<and> restOk g \<and> bw_games w' = [g]"
proof -
  have "bjRun 5000 100000 emptyWorld" by (rule bjRun.Opening) (simp_all add: emptyWorld_def sampleBank_def)
  moreover have "configOk BLACKJACK_CONFIG" by (simp add: configOk_def payoutsOk_def BLACKJACK_CONFIG_def)
  moreover have "stakeOk BLACKJACK_CONFIG sampleRequest"
    by (simp add: stakeOk_def sampleRequest_def BLACKJACK_CONFIG_def)
  moreover have "br_newId sampleRequest \<notin> bg_id ` set (bw_games emptyWorld)" by (simp add: emptyWorld_def)
  ultimately show ?thesis
    using blackjack_start_outcome [of 5000 100000 emptyWorld BLACKJACK_CONFIG sampleRequest quietEnv zeroHash]
      sample_start by (simp add: sample_fields)
qed

text \<open>
  The dealer plays by the house rules and never runs out of cards: the cards taken are
  the next ones of the deck, each was taken because the rules said hit, and the hand ends
  when they say stand, on seventeen or more.
\<close>

theorem dealer_plays_by_rules:
  assumes "gameOk g" and "length (bg_dealerCards g) = 2"
  shows "\<exists>g' k. playDealerHand g = Inr g' \<and>
    bg_dealerCards g' = bg_dealerCards g @ take k (drop (bg_nextCardIndex g) (bg_deck g)) \<and>
    (\<forall>j < k. shouldDealerHit (bg_dealerCards g @ take j (drop (bg_nextCardIndex g) (bg_deck g))) (bg_config g)) \<and>
    \<not> shouldDealerHit (bg_dealerCards g') (bg_config g) \<and>
    17 \<le> sc_total (scoreBlackjackCards (bg_dealerCards g'))"
proof -
  from playDealerHand_game [OF assms] obtain g' where run: "playDealerHand g = Inr g'" by blast
  with playDealerHand_spec [OF run] show ?thesis by (auto simp: shouldDealerHit_total not_less)
qed

theorem dealer_plays_by_rules_witness:
  "\<exists>g'. playDealerHand sampleGame = Inr g' \<and> 17 \<le> sc_total (scoreBlackjackCards (bg_dealerCards g'))"
proof -
  have "gameOk sampleGame" using restOk_sample by (simp add: restOk_def)
  moreover have "length (bg_dealerCards sampleGame) = 2" by (simp add: sampleGame_def openingRow_def)
  ultimately show ?thesis using dealer_plays_by_rules [of sampleGame] by blast
qed

end
