(* ===== verification/Blackjack_Views.thy ===== *)
theory Blackjack_Views
  imports Blackjack_Safety
begin

text \<open>
  What the player is shown of a game (the serializers of \<open>blackjack-state.ts\<close>): the cards of
  the hands, the dealer's with the hole card concealed while the game is active, the
  results, and the summary of a settled game.  Fairness record, play mode, dealer feed and
  time stamps are passed through by the code and left out, as in the state.
\<close>

subsection \<open>Views\<close>

record bj_card_view =
  bcv_rank :: "card_rank option"
  bcv_suit :: "card_suit option"
  bcv_hidden :: bool

record bj_hand_view =
  hv_cards :: "bj_card_view list"
  hv_total :: "nat option"
  hv_visibleTotal :: "nat option"
  hv_soft :: "bool option"
  hv_blackjack :: "bool option"
  hv_bust :: "bool option"

datatype shown_state =
  ShownActive | ShownWaiting | ShownStood | ShownBust | ShownWin | ShownLose | ShownPush

record bj_player_hand_view =
  pv_hand :: bj_hand_view
  pv_index :: nat
  pv_stakeAmount :: cents
  pv_state :: shown_state
  pv_active :: bool

record bj_game_view =
  gv_id :: nat
  gv_roundId :: string
  gv_userId :: nat
  gv_stakeAmount :: cents
  gv_totalStake :: cents
  gv_payoutAmount :: cents
  gv_status :: bj_status
  gv_turnDeadlineAt :: "int option"
  gv_turnTimeoutAction :: "bj_action option"
  gv_table :: bj_table
  gv_playerHand :: bj_hand_view
  gv_playerHands :: "bj_player_hand_view list"
  gv_activeHandIndex :: "nat option"
  gv_dealerHand :: bj_hand_view
  gv_availableActions :: "bj_action list"
  gv_linkedGroup :: "linked_group option"
  gv_settledAt :: "int option"

record bj_summary =
  sv_id :: nat
  sv_roundId :: string
  sv_userId :: nat
  sv_stakeAmount :: cents
  sv_totalStake :: cents
  sv_payoutAmount :: cents
  sv_status :: bj_status
  sv_playerTotal :: nat
  sv_playerTotals :: "nat list"
  sv_dealerTotal :: nat
  sv_settledAt :: "int option"

text \<open>The elements of a list whose index satisfies \<open>P\<close> (\<open>filter\<close> with an index callback).\<close>

definition filterIndex :: "(nat \<Rightarrow> bool) \<Rightarrow> 'a list \<Rightarrow> 'a list" where
  "filterIndex P xs = map snd (filter (\<lambda>(i, x). P i) (enumerate 0 xs))"

definition buildHandView :: "card list \<Rightarrow> bool \<Rightarrow> bj_hand_view" where
  "buildHandView cards conceal =
     (let s = scoreBlackjackCards cards;
          visible = (if conceal then filterIndex (\<lambda>i. i \<noteq> 1) cards else cards)
      in \<lparr>hv_cards = map (\<lambda>(i, c).
            if conceal \<and> i = 1 then \<lparr>bcv_rank = None, bcv_suit = None, bcv_hidden = True\<rparr>
            else \<lparr>bcv_rank = Some (rank c), bcv_suit = Some (suit c), bcv_hidden = False\<rparr>) (enumerate 0 cards),
          hv_total = (if conceal then None else Some (sc_total s)),
          hv_visibleTotal = (if visible \<noteq> [] then Some (sc_total (scoreBlackjackCards visible)) else None),
          hv_soft = (if conceal then None else Some (sc_soft s)),
          hv_blackjack = (if conceal then None else Some (sc_blackjack s)),
          hv_bust = (if conceal then None else Some (sc_bust s))\<rparr>)"

fun showProgress :: "hand_progress \<Rightarrow> shown_state" where
  "showProgress HandActive = ShownActive"
| "showProgress HandWaiting = ShownWaiting"
| "showProgress HandStood = ShownStood"
| "showProgress HandBust = ShownBust"

definition resolveSerializedPlayerHandState :: "bj_game \<Rightarrow> bj_hand \<Rightarrow> shown_state" where
  "resolveSerializedPlayerHandState g h =
     (if bg_status g = BjActive then showProgress (bh_state h)
      else
        let p = scoreBlackjackCards (bh_cards h); d = scoreBlackjackCards (bg_dealerCards g) in
        if bh_state h = HandBust \<or> sc_bust p then ShownBust
        else if length (bg_playerHands g) = 1 \<and> bg_status g = PlayerBlackjack then ShownWin
        else if length (bg_playerHands g) = 1 \<and> bg_status g = DealerBlackjack then ShownLose
        else if sc_bust d then ShownWin
        else if sc_total p > sc_total d then ShownWin
        else if sc_total p < sc_total d then ShownLose
        else ShownPush)"

definition buildPlayerHandView :: "bj_game \<Rightarrow> nat \<times> bj_hand \<Rightarrow> bj_player_hand_view" where
  "buildPlayerHandView g ih = (case ih of (i, h) \<Rightarrow>
     \<lparr>pv_hand = buildHandView (bh_cards h) False, pv_index = i, pv_stakeAmount = bh_stakeAmount h,
      pv_state = resolveSerializedPlayerHandState g h,
      pv_active = (bg_status g = BjActive \<and> bg_activeHandIndex g = Some i)\<rparr>)"

definition bj_buildRoundId :: "nat \<Rightarrow> string" where
  "bj_buildRoundId i = ''blackjack:'' @ show_digits i"

definition serializeBlackjackGame :: "bj_game \<Rightarrow> rat \<Rightarrow> bj_game_view" where
  "serializeBlackjackGame game walletBalance =
     (let g = syncBlackjackTableTurnState game;
          currentHand = (case getActivePlayerHand g of Some h \<Rightarrow> Some h | None \<Rightarrow> getPrimaryPlayerHand g)
      in \<lparr>gv_id = bg_id g, gv_roundId = bj_buildRoundId (bg_id g), gv_userId = bg_userId g,
          gv_stakeAmount = bg_stakeAmount g, gv_totalStake = bg_totalStake g,
          gv_payoutAmount = bg_payoutAmount g, gv_status = bg_status g,
          gv_turnDeadlineAt = bg_turnDeadlineAt g,
          gv_turnTimeoutAction = bt_turnTimeoutAction (bg_table g), gv_table = bg_table g,
          gv_playerHand = buildHandView
            (case currentHand of Some h \<Rightarrow> bh_cards h | None \<Rightarrow> bg_playerCards g) False,
          gv_playerHands = map (buildPlayerHandView g) (enumerate 0 (bg_playerHands g)),
          gv_activeHandIndex = bg_activeHandIndex g,
          gv_dealerHand = buildHandView (bg_dealerCards g) (bg_status g = BjActive),
          gv_availableActions = getAvailableActions g walletBalance,
          gv_linkedGroup = bg_linkedGroup g, gv_settledAt = bg_settledAt g\<rparr>)"

definition serializeBlackjackSummary :: "bj_game \<Rightarrow> bj_summary" where
  "serializeBlackjackSummary g =
     (case summarizePlayerTotals g of (totals, primaryTotal) \<Rightarrow>
       \<lparr>sv_id = bg_id g, sv_roundId = bj_buildRoundId (bg_id g), sv_userId = bg_userId g,
        sv_stakeAmount = bg_stakeAmount g, sv_totalStake = bg_totalStake g,
        sv_payoutAmount = bg_payoutAmount g, sv_status = bg_status g, sv_playerTotal = primaryTotal,
        sv_playerTotals = totals, sv_dealerTotal = sc_total (scoreBlackjackCards (bg_dealerCards g)),
        sv_settledAt = bg_settledAt g\<rparr>)"

subsection \<open>What stays hidden\<close>

lemma filterIndex_hole: "filterIndex (\<lambda>i. i \<noteq> 1) (xs[1 := c]) = filterIndex (\<lambda>i. i \<noteq> 1) xs"
proof (cases xs)
  case (Cons a ys)
  then show ?thesis by (cases ys) (simp_all add: filterIndex_def)
qed (simp add: filterIndex_def)

lemma buildHandView_hole: "buildHandView (cs[1 := c]) True = buildHandView cs True"
proof -
  have "map (\<lambda>(i, c). if i = 1 then v else f c) (enumerate 0 (cs[1 := c])) =
      map (\<lambda>(i, c). if i = 1 then v else f c) (enumerate 0 cs)" for v :: bj_card_view and f
    by (rule nth_equalityI) (auto simp: nth_enumerate_eq nth_list_update)
  moreover have "(filterIndex (\<lambda>i. i \<noteq> 1) (cs[1 := c]) = []) = (filterIndex (\<lambda>i. i \<noteq> 1) cs = [])"
    by (simp only: filterIndex_hole)
  ultimately show ?thesis
    by (simp only: buildHandView_def Let_def filterIndex_hole if_True simp_thms)
qed

lemma actions_cong:
  assumes "bg_activeHandIndex g' = bg_activeHandIndex g" "bg_playerHands g' = bg_playerHands g"
    "bg_status g' = bg_status g" "bg_config g' = bg_config g"
  shows "getAvailableActions g' wallet = getAvailableActions g wallet"
proof -
  have "getActivePlayerHand g' = getActivePlayerHand g" using getActive_cong assms by blast
  moreover have "canSplitHand g' h wallet = canSplitHand g h wallet" for h
    by (simp add: canSplitHand_def assms)
  ultimately show ?thesis by (simp only: getAvailableActions_def assms)
qed

text \<open>
  While a game is active, what the player is shown does not depend on the dealer's hole
  card or on the rest of the deck: changing them changes nothing in the view.
\<close>

theorem blackjack_view_hides_hole_card:
  assumes "bg_status g = BjActive"
  shows "serializeBlackjackGame (g\<lparr>bg_dealerCards := (bg_dealerCards g)[1 := c], bg_deck := d,
      bg_nextCardIndex := n\<rparr>) wallet = serializeBlackjackGame g wallet"
proof -
  let ?g = "g\<lparr>bg_dealerCards := (bg_dealerCards g)[1 := c], bg_deck := d, bg_nextCardIndex := n\<rparr>"
  let ?s = syncBlackjackTableTurnState
  have pending: "hasPendingPlayerTurn ?g = hasPendingPlayerTurn g"
    by (rule pending_cong) simp_all
  then have table: "bg_table (?s ?g) = bg_table (?s g)"
    by (simp add: syncBlackjackTableTurnState_def Let_def)
  have "getActivePlayerHand (?s ?g) = getActivePlayerHand (?s g) \<and>
      getPrimaryPlayerHand (?s ?g) = getPrimaryPlayerHand (?s g)"
    by (rule getActive_cong) (simp_all add: frame_simps)
  then have active: "getActivePlayerHand (?s ?g) = getActivePlayerHand (?s g)"
    "getPrimaryPlayerHand (?s ?g) = getPrimaryPlayerHand (?s g)" by blast+
  have actions: "getAvailableActions (?s ?g) wallet = getAvailableActions (?s g) wallet"
    by (rule actions_cong) (simp_all add: frame_simps)
  have hands: "map (buildPlayerHandView (?s ?g)) hs = map (buildPlayerHandView (?s g)) hs" for hs
    using assms
    by (simp add: buildPlayerHandView_def resolveSerializedPlayerHandState_def frame_simps)
  have cards: "bg_playerCards (?s ?g) = bg_playerCards (?s g)" by (simp add: frame_simps)
  show ?thesis
    using assms buildHandView_hole [of "bg_dealerCards g" c]
    by (simp only: serializeBlackjackGame_def Let_def table active actions hands cards)
      (simp add: frame_simps)
qed

theorem blackjack_view_hides_hole_card_witness:
  "gv_dealerHand (serializeBlackjackGame
       (sampleGame\<lparr>bg_dealerCards := (bg_dealerCards sampleGame)[1 := \<lparr>rank = RA, suit = Hearts\<rparr>],
          bg_deck := [], bg_nextCardIndex := 0\<rparr>) 4500)
     = gv_dealerHand (serializeBlackjackGame sampleGame 4500)"
  using blackjack_view_hides_hole_card [OF sampleGame_active(1),
      where c = "\<lparr>rank = RA, suit = Hearts\<rparr>" and d = "[]" and n = 0 and wallet = 4500] by simp

fun shownOutcome :: "hand_outcome \<Rightarrow> shown_state" where
  "shownOutcome OutBust = ShownBust"
| "shownOutcome OutWin = ShownWin"
| "shownOutcome OutLose = ShownLose"
| "shownOutcome OutPush = ShownPush"

lemma shown_state_outcome:
  assumes "bg_status g \<notin> {BjActive, PlayerBlackjack, DealerBlackjack}"
  shows "resolveSerializedPlayerHandState g h = shownOutcome (fst (settledHandOutcome g h))"
  using assms
  by (simp add: resolveSerializedPlayerHandState_def settledHandOutcome_cases Let_def)

lemma settledStatus_regular: "settledStatus g \<notin> {BjActive, PlayerBlackjack, DealerBlackjack}"
  by (simp add: settledStatus_def resolveAggregateSettledStatus_def Let_def)

text \<open>
  The player is paid what the screen says: after the settlement every hand is shown
  with the outcome it was settled with, the payout shown is the sum of what those outcomes
  pay, and the wallet has grown by exactly that much.
\<close>

theorem shown_results_are_paid:
  assumes ok: "gameOk g" "handsDone g" "seatsOk g" "bg_payoutAmount g = 0" and money: "moneyOk w0 p0 wallet w"
    and run: "settleResolvedHands env g wallet w = Inr (g', wallet', w')"
  shows "map pv_state (gv_playerHands (serializeBlackjackGame g' wallet')) =
      map (\<lambda>h. shownOutcome (fst (settledHandOutcome g' h))) (bg_playerHands g') \<and>
    of_int (gv_payoutAmount (serializeBlackjackGame g' wallet')) =
      (\<Sum>h\<leftarrow>bg_playerHands g'. snd (settledHandOutcome g' h)) \<and>
    withdrawableBalance (bw_bank w') = withdrawableBalance (bw_bank w) + bg_payoutAmount g'"
proof -
  have two: "length (bg_dealerCards g) = 2" using ok(2) by (simp add: handsDone_def openGame_def)
  from playDealerHand_game [OF ok(1) two] obtain g1 where play: "playDealerHand g = Inr g1"
    and ok1: "gameOk g1" by blast
  from settledPayout_whole [OF ok1] obtain c where c: "settledPayout g1 = of_int c" "0 \<le> c" .
  let ?g = "rest (closeGame (be_now env) (settledStatus g1) (of_int c) g1)"
  have "settleResolvedHands env g wallet w =
      Inr (payOut (closeGame (be_now env) (settledStatus g1) (of_int c) g1) wallet (of_int c) w)"
    using c(1) by (simp add: settleResolvedHands_def play Let_def flip: settledPayout_def settledStatus_def)
  with payOut_ok [OF money c(2), of "closeGame (be_now env) (settledStatus g1) (of_int c) g1"] run
  have g': "g' = ?g" and paid: "withdrawableBalance (bw_bank w') = withdrawableBalance (bw_bank w) + c" by auto
  have fields: "bg_playerHands g' = bg_playerHands g1" "bg_dealerCards g' = bg_dealerCards g1"
    "bg_config g' = bg_config g1" "bg_payoutAmount g' = c" "bg_status g' = settledStatus g1"
    by (simp_all add: g' frame_simps closeGame_def)
  have outs: "settledHandOutcome g' = settledHandOutcome g1"
    by (rule ext) (simp add: settledHandOutcome_def fields)
  have sum: "of_int c = (\<Sum>h\<leftarrow>bg_playerHands g1. snd (settledHandOutcome g1 h))"
    using c(1) by (simp add: settledPayout_def resolveSettledHandOutcomes_def comp_def)
  have "bg_status (syncBlackjackTableTurnState g') \<notin> {BjActive, PlayerBlackjack, DealerBlackjack}"
    using settledStatus_regular [of g1] by (simp add: frame_simps fields)
  note shown = shown_state_outcome [OF this]
  have same: "settledHandOutcome (syncBlackjackTableTurnState g') = settledHandOutcome g'"
    by (rule ext) (simp add: settledHandOutcome_def frame_simps)
  have "map pv_state (gv_playerHands (serializeBlackjackGame g' wallet')) =
      map (\<lambda>ih. shownOutcome (fst (settledHandOutcome g' (snd ih)))) (enumerate 0 (bg_playerHands g'))"
    by (simp add: serializeBlackjackGame_def Let_def buildPlayerHandView_def shown same comp_def
        frame_simps split_def)
  also have "\<dots> = map (\<lambda>h. shownOutcome (fst (settledHandOutcome g' h))) (bg_playerHands g')"
    using map_map [of "\<lambda>h. shownOutcome (fst (settledHandOutcome g' h))" snd "enumerate 0 (bg_playerHands g')"]
    by (simp add: comp_def)
  finally have states: "map pv_state (gv_playerHands (serializeBlackjackGame g' wallet')) =
      map (\<lambda>h. shownOutcome (fst (settledHandOutcome g' h))) (bg_playerHands g')" .
  show ?thesis using states paid sum
    by (simp add: serializeBlackjackGame_def Let_def frame_simps fields outs)
qed

definition stoodGame :: bj_game where
  "stoodGame = sampleGame\<lparr>bg_playerHands := map (\<lambda>h. h\<lparr>bh_state := HandStood\<rparr>) (bg_playerHands sampleGame),
     bg_activeHandIndex := None\<rparr>"

theorem shown_results_are_paid_witness:
  "\<exists>g' wallet' w'. settleResolvedHands quietEnv stoodGame 4500 sampleWorld = Inr (g', wallet', w') \<and>
     withdrawableBalance (bw_bank w') = 4500 + bg_payoutAmount g'"
proof -
  have "map handCore (map (\<lambda>h. h\<lparr>bh_state := HandStood\<rparr>) (bg_playerHands sampleGame)) =
      map handCore (bg_playerHands sampleGame)"
    by (simp add: handCore_def comp_def)
  then have "sameHands sampleGame stoodGame" unfolding stoodGame_def by (rule sameHands_states)
  moreover have "gameOk sampleGame" "seatsOk sampleGame"
    using restOk_sample by (simp_all add: restOk_def)
  ultimately have game: "gameOk stoodGame" "seatsOk stoodGame"
    by (simp_all add: sameHands_gameOk(1) seatsOk_def sameHands_frame)
  have ok: "handsDone stoodGame" "bg_payoutAmount stoodGame = 0"
    by (simp_all add: stoodGame_def sampleGame_def openingRow_def handsDone_def openGame_def)
  have "moneyOk 5000 100000 (of_int (withdrawableBalance (bw_bank sampleWorld))) sampleWorld"
    using bjRun_worldOk [OF sample_run] unfolding worldOk_def by blast
  then have money: "moneyOk 5000 100000 4500 sampleWorld" by (simp add: sampleWorld_def)
  from settleResolvedHands_ok [OF game(1) ok(1) game(2) ok(2) money, of quietEnv] obtain g' wallet' w' where
    run: "settleResolvedHands quietEnv stoodGame 4500 sampleWorld = Inr (g', wallet', w')" by auto
  from shown_results_are_paid [OF game(1) ok(1) game(2) ok(2) money run] run show ?thesis
    by (simp add: sampleWorld_def)
qed

end
