(* ===== verification/Payment_States.thy ===== *)
theory Payment_States
  imports Prelude
begin

text \<open>
  The states of deposits and withdrawals: \<open>modules/payment/state-machine.ts\<close> and the status
  part of \<open>modules/payment/finance-order.ts\<close>, which each hold a copy of the transition
  graphs.  \<open>finance_status\<close> is the union of the two unions of string literals; a status in
  the database is any string, and \<open>parse...\<close> is where it is checked.
\<close>

subsection \<open>Statuses\<close>

datatype order_type = DepositOrder | WithdrawalOrder

datatype finance_status =
    St_requested | St_provider_pending | St_provider_succeeded | St_credited
  | St_approved | St_provider_submitted | St_provider_processing | St_paid
  | St_provider_failed | St_rejected | St_reversed

fun showOrderType :: "order_type \<Rightarrow> string" where
  "showOrderType DepositOrder = ''deposit''"
| "showOrderType WithdrawalOrder = ''withdrawal''"

fun showStatus :: "finance_status \<Rightarrow> string" where
  "showStatus St_requested = ''requested''"
| "showStatus St_provider_pending = ''provider_pending''"
| "showStatus St_provider_succeeded = ''provider_succeeded''"
| "showStatus St_credited = ''credited''"
| "showStatus St_approved = ''approved''"
| "showStatus St_provider_submitted = ''provider_submitted''"
| "showStatus St_provider_processing = ''provider_processing''"
| "showStatus St_paid = ''paid''"
| "showStatus St_provider_failed = ''provider_failed''"
| "showStatus St_rejected = ''rejected''"
| "showStatus St_reversed = ''reversed''"

definition DEPOSIT_STATUSES :: "finance_status list" where
  "DEPOSIT_STATUSES =
     [St_requested, St_provider_pending, St_provider_succeeded, St_provider_failed, St_credited,
      St_reversed]"

definition WITHDRAWAL_STATUSES :: "finance_status list" where
  "WITHDRAWAL_STATUSES =
     [St_requested, St_approved, St_provider_submitted, St_provider_processing, St_provider_failed,
      St_paid, St_rejected, St_reversed]"

text \<open>The value of a status column: \<open>None\<close> is null.\<close>

definition isStatusOf :: "finance_status list \<Rightarrow> string option \<Rightarrow> bool" where
  "isStatusOf statuses v = (case v of None \<Rightarrow> False | Some s \<Rightarrow> s \<in> set (map showStatus statuses))"

definition isDepositStatus :: "string option \<Rightarrow> bool" where
  "isDepositStatus = isStatusOf DEPOSIT_STATUSES"

definition isWithdrawalStatus :: "string option \<Rightarrow> bool" where
  "isWithdrawalStatus = isStatusOf WITHDRAWAL_STATUSES"

definition readStatus :: "finance_status list \<Rightarrow> string option \<Rightarrow> finance_status option" where
  "readStatus statuses v = (case v of None \<Rightarrow> None | Some s \<Rightarrow> find (\<lambda>st. showStatus st = s) statuses)"

definition orNull :: "string option \<Rightarrow> string" where
  "orNull v = (case v of None \<Rightarrow> ''null'' | Some s \<Rightarrow> s)"

definition parseDepositStatus :: "string option \<Rightarrow> finance_status res" where
  "parseDepositStatus v =
     (case readStatus DEPOSIT_STATUSES v of
        Some st \<Rightarrow> Inr st
      | None \<Rightarrow> Inl (InternalInvariant (''Unknown deposit status: '' @ orNull v @ ''.'')))"

definition parseWithdrawalStatus :: "string option \<Rightarrow> finance_status res" where
  "parseWithdrawalStatus v =
     (case readStatus WITHDRAWAL_STATUSES v of
        Some st \<Rightarrow> Inr st
      | None \<Rightarrow> Inl (InternalInvariant (''Unknown withdrawal status: '' @ orNull v @ ''.'')))"

subsection \<open>The transition graphs of \<open>state-machine.ts\<close>\<close>

type_synonym status_graph = "(finance_status \<times> finance_status list) list"

definition depositTransitions :: status_graph where
  "depositTransitions =
     [(St_requested, [St_provider_pending, St_provider_failed, St_reversed]),
      (St_provider_pending, [St_provider_succeeded, St_provider_failed, St_reversed]),
      (St_provider_succeeded, [St_credited, St_reversed]),
      (St_provider_failed, []),
      (St_credited, [St_reversed]),
      (St_reversed, [])]"

definition withdrawalTransitions :: status_graph where
  "withdrawalTransitions =
     [(St_requested, [St_approved, St_rejected, St_reversed]),
      (St_approved, [St_provider_submitted, St_rejected, St_reversed]),
      (St_provider_submitted, [St_provider_processing, St_provider_failed, St_reversed]),
      (St_provider_processing, [St_provider_failed, St_paid, St_reversed]),
      (St_provider_failed, [St_reversed]),
      (St_paid, [St_reversed]),
      (St_rejected, []),
      (St_reversed, [])]"

definition nextStatuses :: "status_graph \<Rightarrow> finance_status \<Rightarrow> finance_status list" where
  "nextStatuses graph from = (case map_of graph from of None \<Rightarrow> [] | Some ts \<Rightarrow> ts)"

definition hasTransition :: "status_graph \<Rightarrow> finance_status \<Rightarrow> finance_status \<Rightarrow> bool" where
  "hasTransition graph from to = (to \<in> set (nextStatuses graph from))"

definition assertTransition ::
  "status_graph \<Rightarrow> order_type \<Rightarrow> finance_status \<Rightarrow> finance_status \<Rightarrow> unit res" where
  "assertTransition graph flow from to =
     (if hasTransition graph from to then Inr ()
      else Inl (InternalInvariant
        (''Invalid '' @ showOrderType flow @ '' status transition: '' @ showStatus from @ '' -> '' @
         showStatus to @ ''.'')))"

definition assertInitialState :: "order_type \<Rightarrow> finance_status \<Rightarrow> unit res" where
  "assertInitialState flow to =
     (if to = St_requested then Inr ()
      else Inl (InternalInvariant
        (''Invalid initial '' @ showOrderType flow @ '' status: '' @ showStatus to @ ''.'')))"

definition depositLedgerStatuses :: "finance_status list" where
  "depositLedgerStatuses = [St_credited, St_reversed]"

definition withdrawalLedgerStatuses :: "finance_status list" where
  "withdrawalLedgerStatuses = [St_requested, St_paid, St_rejected, St_reversed]"

definition assertDepositLedgerMutationStatus :: "finance_status \<Rightarrow> unit res" where
  "assertDepositLedgerMutationStatus st =
     (if st \<in> set depositLedgerStatuses then Inr ()
      else Inl (InternalInvariant
        (''Ledger writes are not allowed for deposit status '' @ showStatus st @ ''.'')))"

definition assertWithdrawalLedgerMutationStatus :: "finance_status \<Rightarrow> unit res" where
  "assertWithdrawalLedgerMutationStatus st =
     (if st \<in> set withdrawalLedgerStatuses then Inr ()
      else Inl (InternalInvariant
        (''Ledger writes are not allowed for withdrawal status '' @ showStatus st @ ''.'')))"

subsection \<open>The graphs and status sets of \<open>finance-order.ts\<close>\<close>

definition DEPOSIT_STATUS_TRANSITIONS :: status_graph where
  "DEPOSIT_STATUS_TRANSITIONS =
     [(St_requested, [St_provider_pending, St_provider_failed, St_reversed]),
      (St_provider_pending, [St_provider_succeeded, St_provider_failed, St_reversed]),
      (St_provider_succeeded, [St_credited, St_reversed]),
      (St_credited, [St_reversed]),
      (St_provider_failed, []),
      (St_reversed, [])]"

definition WITHDRAWAL_STATUS_TRANSITIONS :: status_graph where
  "WITHDRAWAL_STATUS_TRANSITIONS =
     [(St_requested, [St_approved, St_rejected, St_reversed]),
      (St_approved, [St_provider_submitted, St_rejected, St_reversed]),
      (St_provider_submitted, [St_provider_processing, St_provider_failed, St_reversed]),
      (St_provider_processing, [St_paid, St_provider_failed, St_reversed]),
      (St_paid, [St_reversed]),
      (St_provider_failed, [St_reversed]),
      (St_rejected, []),
      (St_reversed, [])]"

text \<open>An absent, null or empty status has no transition; nor has a string that is no key.\<close>

definition canTransitionStatus :: "status_graph \<Rightarrow> string option \<Rightarrow> finance_status \<Rightarrow> bool" where
  "canTransitionStatus graph from to =
     (case from of
        None \<Rightarrow> False
      | Some s \<Rightarrow>
          if s = [] then False
          else case readStatus (map fst graph) (Some s) of
            None \<Rightarrow> False | Some st \<Rightarrow> to \<in> set (nextStatuses graph st))"

definition canTransitionDepositStatus :: "string option \<Rightarrow> finance_status \<Rightarrow> bool" where
  "canTransitionDepositStatus = canTransitionStatus DEPOSIT_STATUS_TRANSITIONS"

definition canTransitionWithdrawalStatus :: "string option \<Rightarrow> finance_status \<Rightarrow> bool" where
  "canTransitionWithdrawalStatus = canTransitionStatus WITHDRAWAL_STATUS_TRANSITIONS"

definition DEPOSIT_TERMINAL_STATUSES :: "finance_status list" where
  "DEPOSIT_TERMINAL_STATUSES = [St_credited, St_provider_failed, St_reversed]"

definition WITHDRAWAL_TERMINAL_STATUSES :: "finance_status list" where
  "WITHDRAWAL_TERMINAL_STATUSES = [St_paid, St_rejected, St_reversed]"

definition isFinanceTerminalStatus :: "string option \<Rightarrow> order_type option \<Rightarrow> bool" where
  "isFinanceTerminalStatus v flow =
     (if v = None \<or> v = Some [] then False
      else case flow of
        Some DepositOrder \<Rightarrow> isStatusOf DEPOSIT_TERMINAL_STATUSES v
      | Some WithdrawalOrder \<Rightarrow> isStatusOf WITHDRAWAL_TERMINAL_STATUSES v
      | None \<Rightarrow> isStatusOf DEPOSIT_TERMINAL_STATUSES v \<or> isStatusOf WITHDRAWAL_TERMINAL_STATUSES v)"

datatype semantic_status =
    Sem_requested | Sem_pending | Sem_settled | Sem_credited | Sem_failed | Sem_approved
  | Sem_paying | Sem_paid | Sem_rejected | Sem_reversed

text \<open>A \<open>switch\<close> over the flow's own statuses; \<open>None\<close> is the undefined of any other one.\<close>

fun toDepositSemanticStatus :: "finance_status \<Rightarrow> semantic_status option" where
  "toDepositSemanticStatus St_requested = Some Sem_requested"
| "toDepositSemanticStatus St_provider_pending = Some Sem_pending"
| "toDepositSemanticStatus St_provider_succeeded = Some Sem_settled"
| "toDepositSemanticStatus St_credited = Some Sem_credited"
| "toDepositSemanticStatus St_provider_failed = Some Sem_failed"
| "toDepositSemanticStatus St_reversed = Some Sem_reversed"
| "toDepositSemanticStatus _ = None"

fun toWithdrawalSemanticStatus :: "finance_status \<Rightarrow> semantic_status option" where
  "toWithdrawalSemanticStatus St_requested = Some Sem_requested"
| "toWithdrawalSemanticStatus St_approved = Some Sem_approved"
| "toWithdrawalSemanticStatus St_provider_submitted = Some Sem_paying"
| "toWithdrawalSemanticStatus St_provider_processing = Some Sem_paying"
| "toWithdrawalSemanticStatus St_provider_failed = Some Sem_failed"
| "toWithdrawalSemanticStatus St_paid = Some Sem_paid"
| "toWithdrawalSemanticStatus St_rejected = Some Sem_rejected"
| "toWithdrawalSemanticStatus St_reversed = Some Sem_reversed"
| "toWithdrawalSemanticStatus _ = None"

end
