(* ===== verification/Payment_Review.thy ===== *)
theory Payment_Review
  imports Payment_States
begin

text \<open>
  The review and audit metadata of an order, \<open>modules/payment/finance-order.ts\<close> and the
  trail of \<open>state-machine.ts\<close>: the gate that wants two administrators, and the trails of
  reviews and status changes.  The metadata column is the record of the fields these
  functions write and read; its time stamps are left out, but for whether the ones that
  mark an event are set.
\<close>

subsection \<open>Optional text\<close>

definition normalizeOptionalString :: "string option \<Rightarrow> string option" where
  "normalizeOptionalString v =
     (case v of None \<Rightarrow> None | Some s \<Rightarrow> (if js_trim s = [] then None else Some (js_trim s)))"

text \<open>\<open>??\<close> and the truthiness of a string that may be null.\<close>

definition orElse :: "'a option \<Rightarrow> 'a option \<Rightarrow> 'a option" where
  "orElse a b = (case a of None \<Rightarrow> b | Some x \<Rightarrow> Some x)"

definition truthy :: "string option \<Rightarrow> bool" where
  "truthy v = (case v of None \<Rightarrow> False | Some s \<Rightarrow> s \<noteq> [])"

text \<open>\<open>Array.from(new Set(...))\<close>: the first occurrence of every element.\<close>

definition uniqNumbers :: "'a list \<Rightarrow> 'a list" where
  "uniqNumbers xs = rev (remdups (rev xs))"

lemma set_uniqNumbers [simp]: "set (uniqNumbers xs) = set xs"
  by (simp add: uniqNumbers_def)

subsection \<open>Metadata\<close>

datatype review_action =
    Deposit_requested | Deposit_mark_provider_pending | Deposit_mark_provider_succeeded | Deposit_credit
  | Deposit_mark_provider_failed | Deposit_reverse
  | Withdrawal_requested | Withdrawal_approve | Withdrawal_mark_provider_submitted | Withdrawal_mark_provider_processing
  | Withdrawal_pay | Withdrawal_mark_provider_failed | Withdrawal_reject | Withdrawal_reverse
  | System_timeout_cleanup | System_compensation

datatype review_stage = Maker | Checker | SystemStage

datatype source_type = Order_request | Provider_callback | Reconciliation | Manual_review | SystemSource

datatype trail_actor = UserActor | AdminActor | ProviderActor | SystemActor

record finance_review =
  fr_adminId :: "nat option"
  fr_operatorNote :: "string option"
  fr_settlementReference :: "string option"
  fr_processingChannel :: "string option"
  fr_sourceType :: "source_type option"
  fr_sourceEventKey :: "string option"

record pending_review =
  pr_action :: review_action
  pr_targetStatus :: finance_status
  pr_reviewerAdminIds :: "nat list"
  pr_settlementReference :: "string option"
  pr_processingChannel :: "string option"

record review_entry =
  re_action :: review_action
  re_reviewStage :: review_stage
  re_adminId :: "nat option"
  re_operatorNote :: string
  re_settlementReference :: "string option"
  re_processingChannel :: "string option"

record transition_entry =
  te_flow :: order_type
  te_from :: "finance_status option"
  te_to :: finance_status
  te_actor :: trail_actor
  te_event :: string
  te_note :: "string option"

datatype ledger_state = Not_written | Written

record state_entry =
  st_flow :: order_type
  st_fromStatus :: "finance_status option"
  st_toStatus :: finance_status
  st_action :: review_action
  st_providerStatus :: "string option"
  st_settlementStatus :: "string option"
  st_failureReason :: "string option"
  st_ledgerEntryType :: "string option"
  st_ledgerState :: ledger_state

text \<open>Both modules append to the one trail \<open>financeStateTrail\<close>.\<close>

datatype trail_entry = TransitionEntry transition_entry | StateEntry state_entry

datatype risk_signal =
    New_card_first_withdrawal | Shared_ip_cluster | Shared_device_cluster
  | Shared_payout_destination_cluster

record withdrawal_control =
  wc_approvalsRequired :: "nat option"
  wc_approvalsCollected :: "nat option"
  wc_approvalState :: "string option"
  wc_manualChannelRequired :: bool
  wc_manualChannelUsed :: "string option"
  wc_riskSignals :: "risk_signal list"

record finance_meta =
  fm_processingMode :: "string option"
  fm_financeState :: "finance_status option"
  fm_financeCurrentStatus :: "finance_status option"
  fm_semanticStatus :: "semantic_status option"
  fm_providerStatus :: "string option"
  fm_settlementStatus :: "string option"
  fm_ledgerWritten :: bool
  fm_ledgerEntryTypes :: "string list"
  fm_ledgerState :: ledger_state
  fm_failureReason :: "string option"
  fm_manualFallbackStatus :: "finance_status option"
  fm_manualFallbackResolved :: bool
  fm_stateLatest :: "trail_entry option"
  fm_stateTrail :: "trail_entry list"
  fm_pendingReview :: "pending_review option"
  fm_pendingReviewCount :: nat
  fm_reviewLatest :: "review_entry option"
  fm_reviewTrail :: "review_entry list"
  fm_reviewerAdminIds :: "nat list"
  fm_control :: withdrawal_control

subsection \<open>The trail of \<open>state-machine.ts\<close>\<close>

definition appendFinanceStateTransitionMetadata :: "transition_entry \<Rightarrow> finance_meta \<Rightarrow> finance_meta" where
  "appendFinanceStateTransitionMetadata inp m =
     (let entry = TransitionEntry (inp\<lparr>te_note :=
            (case te_note inp of None \<Rightarrow> None | Some n \<Rightarrow> (if js_trim n = [] then None else Some (js_trim n)))\<rparr>)
      in m\<lparr>fm_financeState := Some (te_to inp), fm_stateLatest := Some entry,
           fm_stateTrail := fm_stateTrail m @ [entry]\<rparr>)"

definition appendStateTransition ::
  "status_graph \<Rightarrow> order_type \<Rightarrow> finance_meta \<Rightarrow> transition_entry \<Rightarrow> finance_meta res" where
  "appendStateTransition graph flow m inp =
     bind_res (case te_from inp of
         None \<Rightarrow> assertInitialState flow (te_to inp)
       | Some from \<Rightarrow> assertTransition graph flow from (te_to inp))
       (\<lambda>_. Inr (appendFinanceStateTransitionMetadata inp m))"

definition appendDepositStateTransition :: "finance_meta \<Rightarrow> transition_entry \<Rightarrow> finance_meta res" where
  "appendDepositStateTransition = appendStateTransition depositTransitions DepositOrder"

definition appendWithdrawalStateTransition :: "finance_meta \<Rightarrow> transition_entry \<Rightarrow> finance_meta res" where
  "appendWithdrawalStateTransition = appendStateTransition withdrawalTransitions WithdrawalOrder"

subsection \<open>The review gate\<close>

record effective_review =
  er_adminId :: "nat option"
  er_operatorNote :: string
  er_settlementReference :: "string option"
  er_processingChannel :: "string option"

record dual_review =
  dr_confirmed :: bool
  dr_reviewStage :: review_stage
  dr_metadata :: finance_meta
  dr_effectiveReview :: effective_review

definition clearPending :: "finance_meta \<Rightarrow> finance_meta" where
  "clearPending m = m\<lparr>fm_pendingReview := None, fm_pendingReviewCount := 0\<rparr>"

text \<open>Two values that are both given and differ.\<close>

definition clash :: "string option \<Rightarrow> string option \<Rightarrow> bool" where
  "clash a b = (truthy a \<and> truthy b \<and> a \<noteq> b)"

definition readPendingReviewState :: "finance_meta \<Rightarrow> pending_review option" where
  "readPendingReviewState m =
     map_option (\<lambda>p. p\<lparr>pr_reviewerAdminIds := uniqNumbers (pr_reviewerAdminIds p),
         pr_settlementReference := normalizeOptionalString (pr_settlementReference p),
         pr_processingChannel := normalizeOptionalString (pr_processingChannel p)\<rparr>)
       (fm_pendingReview m)"

definition confirmReview ::
  "finance_meta \<Rightarrow> nat \<Rightarrow> string \<Rightarrow> string option \<Rightarrow> string option \<Rightarrow> pending_review \<Rightarrow> dual_review res" where
  "confirmReview m adminId note settlementReference processingChannel p =
     (if adminId \<in> set (pr_reviewerAdminIds p) then
        Inl (Conflict ''A different reviewer must confirm this action.'')
      else if clash (pr_settlementReference p) settlementReference then
        Inl (Conflict ''Settlement reference must match the pending review.'')
      else if clash (pr_processingChannel p) processingChannel then
        Inl (Conflict ''Processing channel must match the pending review.'')
      else Inr \<lparr>dr_confirmed = True, dr_reviewStage = Checker, dr_metadata = clearPending m,
        dr_effectiveReview = \<lparr>er_adminId = Some adminId, er_operatorNote = note,
          er_settlementReference = orElse settlementReference (pr_settlementReference p),
          er_processingChannel = orElse processingChannel (pr_processingChannel p)\<rparr>\<rparr>)"

definition openReview ::
  "finance_meta \<Rightarrow> review_action \<Rightarrow> finance_status \<Rightarrow> effective_review \<Rightarrow> nat \<Rightarrow> dual_review" where
  "openReview m act target eff adminId =
     \<lparr>dr_confirmed = False, dr_reviewStage = Maker,
      dr_metadata = m\<lparr>fm_pendingReview := Some \<lparr>pr_action = act, pr_targetStatus = target,
          pr_reviewerAdminIds = [adminId], pr_settlementReference = er_settlementReference eff,
          pr_processingChannel = er_processingChannel eff\<rparr>,
        fm_pendingReviewCount := 1\<rparr>,
      dr_effectiveReview = eff\<rparr>"

definition applyDualReviewGate ::
  "finance_meta \<Rightarrow> review_action \<Rightarrow> finance_status \<Rightarrow> finance_review \<Rightarrow> bool \<Rightarrow> bool \<Rightarrow> dual_review res" where
  "applyDualReviewGate m act target rv requireSettlementReference bypassDualReview =
     (let adminId = fr_adminId rv;
          settlementReference = normalizeOptionalString (fr_settlementReference rv);
          processingChannel = normalizeOptionalString (fr_processingChannel rv)
      in case normalizeOptionalString (fr_operatorNote rv) of
           None \<Rightarrow> Inl (Unprocessable ''Operator note is required.'')
         | Some note \<Rightarrow>
      if requireSettlementReference \<and> \<not> truthy settlementReference then
        Inl (Unprocessable ''Settlement reference is required.'')
      else
      let eff = \<lparr>er_adminId = adminId, er_operatorNote = note,
                 er_settlementReference = settlementReference, er_processingChannel = processingChannel\<rparr>
      in case (if bypassDualReview then None else adminId) of
           None \<Rightarrow>
             Inr \<lparr>dr_confirmed = True, dr_reviewStage = (if adminId = None then SystemStage else Checker),
                  dr_metadata = clearPending m, dr_effectiveReview = eff\<rparr>
         | Some a \<Rightarrow>
             (case readPendingReviewState m of
                None \<Rightarrow> Inr (openReview m act target eff a)
              | Some p \<Rightarrow>
                  if pr_action p \<noteq> act \<or> pr_targetStatus p \<noteq> target then
                    Inl (Conflict ''Another review is already pending for this order.'')
                  else confirmReview m a note settlementReference processingChannel p))"

subsection \<open>The trails of \<open>finance-order.ts\<close>\<close>

definition appendFinanceReviewMetadata ::
  "finance_meta \<Rightarrow> review_action \<Rightarrow> review_stage \<Rightarrow> effective_review \<Rightarrow> finance_meta" where
  "appendFinanceReviewMetadata m act stg eff =
     (let entry = \<lparr>re_action = act, re_reviewStage = stg, re_adminId = er_adminId eff,
            re_operatorNote = er_operatorNote eff,
            re_settlementReference =
              (if truthy (er_settlementReference eff) then er_settlementReference eff else None),
            re_processingChannel =
              (if truthy (er_processingChannel eff) then er_processingChannel eff else None)\<rparr>
      in m\<lparr>fm_reviewLatest := Some entry, fm_reviewTrail := fm_reviewTrail m @ [entry],
           fm_reviewerAdminIds := uniqNumbers (fm_reviewerAdminIds m @
             (case er_adminId eff of None \<Rightarrow> [] | Some a \<Rightarrow> (if a = 0 then [] else [a])))\<rparr>)"

record state_change =
  sc_providerStatus :: "string option"
  sc_settlementStatus :: "string option"
  sc_failureReason :: "string option"
  sc_ledgerEntryType :: "string option"

definition noChange :: state_change where
  "noChange = \<lparr>sc_providerStatus = None, sc_settlementStatus = None, sc_failureReason = None,
     sc_ledgerEntryType = None\<rparr>"

text \<open>Every caller names the new status and leaves the ledger state to the entry types.\<close>

definition appendFinanceStateMetadata ::
  "finance_meta \<Rightarrow> order_type \<Rightarrow> finance_status \<Rightarrow> state_change \<Rightarrow> finance_meta" where
  "appendFinanceStateMetadata m flow toStatus c =
     (let types = (case sc_ledgerEntryType c of
            None \<Rightarrow> fm_ledgerEntryTypes m
          | Some e \<Rightarrow> uniqNumbers (fm_ledgerEntryTypes m @ [e]));
          semantic = (case flow of DepositOrder \<Rightarrow> toDepositSemanticStatus toStatus
                      | WithdrawalOrder \<Rightarrow> toWithdrawalSemanticStatus toStatus);
          ledgerState = (if types \<noteq> [] then Written else Not_written);
          entry = StateEntry \<lparr>st_flow = flow, st_fromStatus = fm_financeCurrentStatus m,
            st_toStatus = toStatus, st_action = System_compensation,
            st_providerStatus = sc_providerStatus c, st_settlementStatus = sc_settlementStatus c,
            st_failureReason = sc_failureReason c, st_ledgerEntryType = sc_ledgerEntryType c,
            st_ledgerState = ledgerState\<rparr>
      in (clearPending m)
           \<lparr>fm_financeCurrentStatus := Some toStatus, fm_semanticStatus := semantic,
            fm_providerStatus := orElse (sc_providerStatus c) (fm_providerStatus m),
            fm_settlementStatus := orElse (sc_settlementStatus c) (fm_settlementStatus m),
            fm_ledgerWritten := (sc_ledgerEntryType c \<noteq> None \<or> fm_ledgerWritten m),
            fm_ledgerEntryTypes := types, fm_ledgerState := ledgerState,
            fm_failureReason := sc_failureReason c, fm_manualFallbackStatus := Some toStatus,
            fm_manualFallbackResolved := isFinanceTerminalStatus (Some (showStatus toStatus)) (Some flow),
            fm_stateLatest := Some entry, fm_stateTrail := fm_stateTrail m @ [entry]\<rparr>)"

end
