(* ===== verification/Wallet_Ledger.thy ===== *)
theory Wallet_Ledger
  imports Money Payment_Review
begin

text \<open>
  The user ledger: what each entry type means for the four balances of a wallet
  (\<open>modules/wallet/invariant-service.ts\<close>), the check that a wallet agrees with its ledger,
  and the ledger lines of payment orders, each written under a business event that is
  recorded once (\<open>modules/payment/ledger-mutation.ts\<close>).  Columns are whole cents; the
  metadata of a line is reduced to the keys the check reads.
\<close>

subsection \<open>Entries and wallets\<close>

record ledger_entry =
  le_userId :: nat
  le_entryType :: string
  le_amount :: cents
  le_balanceBefore :: cents
  le_balanceAfter :: cents
  le_referenceId :: "nat option"
  le_unlockRatio :: rat
  le_balanceType :: "string option"
  le_lockedBalanceBefore :: cents
  le_lockedBalanceAfter :: cents

record wallet =
  wl_withdrawable :: cents
  wl_bonus :: cents
  wl_locked :: cents
  wl_wagered :: cents

definition KNOWN_USER_LEDGER_ENTRY_TYPES :: "string list" where
  "KNOWN_USER_LEDGER_ENTRY_TYPES =
     [''deposit_credit'', ''deposit_reversed'', ''draw_cost'', ''draw_reward'',
      ''bonus_release_auto'', ''bonus_release_manual'', ''gamification_reward'',
      ''withdraw_request'', ''withdraw_rejected_refund'', ''withdraw_reversed_refund'',
      ''withdraw_paid'', ''quick_eight_stake'', ''quick_eight_payout'', ''blackjack_stake'',
      ''blackjack_double_down'', ''blackjack_split'', ''blackjack_payout'', ''holdem_buy_in'',
      ''holdem_cash_out'', ''holdem_hand_result'', ''holdem_rake'', ''holdem_tournament_buy_in'',
      ''holdem_tournament_refund'', ''holdem_tournament_payout'', ''play_mode_payout_deferred'',
      ''play_mode_payout_released'', ''prediction_market_stake'', ''prediction_market_sell'',
      ''prediction_market_payout'', ''prediction_market_refund'']"

definition WITHDRAWABLE_DIRECT_ENTRY_TYPES :: "string list" where
  "WITHDRAWABLE_DIRECT_ENTRY_TYPES =
     [''deposit_credit'', ''deposit_reversed'', ''draw_cost'', ''withdraw_request'',
      ''withdraw_rejected_refund'', ''withdraw_reversed_refund'', ''quick_eight_stake'',
      ''quick_eight_payout'', ''blackjack_stake'', ''blackjack_double_down'', ''blackjack_split'',
      ''blackjack_payout'', ''holdem_buy_in'', ''holdem_cash_out'', ''holdem_tournament_buy_in'',
      ''holdem_tournament_refund'', ''holdem_tournament_payout'', ''prediction_market_stake'',
      ''prediction_market_sell'', ''prediction_market_payout'', ''prediction_market_refund'']"

definition BONUS_CREDIT_ENTRY_TYPES :: "string list" where
  "BONUS_CREDIT_ENTRY_TYPES = [''draw_reward'', ''gamification_reward'']"

definition PLAY_MODE_DEFERRED_ENTRY_TYPES :: "string list" where
  "PLAY_MODE_DEFERRED_ENTRY_TYPES = [''play_mode_payout_deferred'', ''play_mode_payout_released'']"

definition STAKE_ENTRY_TYPES :: "string list" where
  "STAKE_ENTRY_TYPES =
     [''draw_cost'', ''quick_eight_stake'', ''blackjack_stake'', ''blackjack_double_down'',
      ''blackjack_split'', ''prediction_market_stake'']"

definition RELEASE_ENTRY_TYPES :: "string list" where
  "RELEASE_ENTRY_TYPES = [''bonus_release_auto'', ''bonus_release_manual'']"

definition REFUND_ENTRY_TYPES :: "string list" where
  "REFUND_ENTRY_TYPES = [''withdraw_rejected_refund'', ''withdraw_reversed_refund'']"

lemmas entry_types =
  WITHDRAWABLE_DIRECT_ENTRY_TYPES_def BONUS_CREDIT_ENTRY_TYPES_def
  PLAY_MODE_DEFERRED_ENTRY_TYPES_def STAKE_ENTRY_TYPES_def RELEASE_ENTRY_TYPES_def
  REFUND_ENTRY_TYPES_def

subsection \<open>The sums of the SQL query\<close>

definition lockedDelta :: "ledger_entry \<Rightarrow> cents" where
  "lockedDelta e = le_lockedBalanceAfter e - le_lockedBalanceBefore e"

definition deferredBalanceType :: "ledger_entry \<Rightarrow> string" where
  "deferredBalanceType e =
     (case le_balanceType e of None \<Rightarrow> ''withdrawable'' | Some t \<Rightarrow> (if t = [] then ''withdrawable'' else t))"

definition sqlWithdrawable :: "ledger_entry \<Rightarrow> cents" where
  "sqlWithdrawable e =
     (let t = le_entryType e in
      if t \<in> set WITHDRAWABLE_DIRECT_ENTRY_TYPES then le_amount e
      else if t \<in> set PLAY_MODE_DEFERRED_ENTRY_TYPES \<and> deferredBalanceType e = ''withdrawable''
      then le_amount e
      else if t \<in> set RELEASE_ENTRY_TYPES then le_amount e
      else 0)"

definition sqlBonus :: "ledger_entry \<Rightarrow> cents" where
  "sqlBonus e =
     (let t = le_entryType e in
      if t \<in> set BONUS_CREDIT_ENTRY_TYPES then le_amount e
      else if t \<in> set PLAY_MODE_DEFERRED_ENTRY_TYPES \<and> deferredBalanceType e = ''bonus''
      then le_amount e
      else if t \<in> set RELEASE_ENTRY_TYPES then - le_amount e
      else 0)"

definition sqlLocked :: "ledger_entry \<Rightarrow> cents" where
  "sqlLocked e =
     (let t = le_entryType e in
      if t = ''withdraw_request'' then - le_amount e
      else if t \<in> set REFUND_ENTRY_TYPES then - le_amount e
      else if t = ''withdraw_paid'' then le_amount e
      else if t = ''holdem_buy_in'' then - le_amount e
      else if t \<in> set [''holdem_cash_out'', ''holdem_hand_result'', ''holdem_rake''] then le_amount e
      else if t \<in> set [''prediction_market_stake'', ''prediction_market_sell'',
                        ''prediction_market_payout'', ''prediction_market_refund'']
      then lockedDelta e
      else if t \<in> set PLAY_MODE_DEFERRED_ENTRY_TYPES then lockedDelta e
      else 0)"

definition sqlWagered :: "ledger_entry \<Rightarrow> cents" where
  "sqlWagered e =
     (let t = le_entryType e in
      if t \<in> set STAKE_ENTRY_TYPES then - le_amount e
      else if t = ''bonus_release_auto'' then toCents (- (of_int (le_amount e) * le_unlockRatio e))
      else 0)"

definition expectedWallet :: "nat \<Rightarrow> ledger_entry list \<Rightarrow> wallet" where
  "expectedWallet uid ledger =
     (let own = filter (\<lambda>e. le_userId e = uid) ledger in
      \<lparr>wl_withdrawable = sum_list (map sqlWithdrawable own), wl_bonus = sum_list (map sqlBonus own),
       wl_locked = sum_list (map sqlLocked own), wl_wagered = sum_list (map sqlWagered own)\<rparr>)"

definition unknownEntryTypes :: "nat \<Rightarrow> ledger_entry list \<Rightarrow> string list" where
  "unknownEntryTypes uid ledger =
     filter (\<lambda>t. t \<notin> set KNOWN_USER_LEDGER_ENTRY_TYPES)
       (map le_entryType (filter (\<lambda>e. le_userId e = uid) ledger))"

text \<open>A user whose row the query returns drifts; outside the strict mode it is only logged.\<close>

definition walletDrifts :: "nat \<Rightarrow> wallet \<Rightarrow> ledger_entry list \<Rightarrow> bool" where
  "walletDrifts uid wl ledger = (wl \<noteq> expectedWallet uid ledger \<or> unknownEntryTypes uid ledger \<noteq> [])"

definition assertWalletLedgerInvariant :: "bool \<Rightarrow> nat \<Rightarrow> wallet \<Rightarrow> ledger_entry list \<Rightarrow> unit res" where
  "assertWalletLedgerInvariant strict uid wl ledger =
     (if \<not> walletDrifts uid wl ledger then Inr ()
      else if \<not> strict then Inr ()
      else Inl (InternalInvariant ''Wallet ledger invariant failed.''))"

subsection \<open>The same effects in TypeScript\<close>

definition zeroWallet :: wallet where
  "zeroWallet = \<lparr>wl_withdrawable = 0, wl_bonus = 0, wl_locked = 0, wl_wagered = 0\<rparr>"

definition deriveWalletLedgerEffects :: "ledger_entry \<Rightarrow> wallet" where
  "deriveWalletLedgerEffects e =
     (let t = le_entryType e; amt = le_amount e;
          bonusKind = (le_balanceType e = Some ''bonus'')
      in if t \<in> set [''deposit_credit'', ''deposit_reversed'', ''quick_eight_payout'', ''blackjack_payout''] then
           zeroWallet\<lparr>wl_withdrawable := amt\<rparr>
         else if t \<in> set [''prediction_market_sell'', ''prediction_market_payout'', ''prediction_market_refund''] then
           zeroWallet\<lparr>wl_withdrawable := amt, wl_locked := lockedDelta e\<rparr>
         else if t \<in> set [''draw_cost'', ''quick_eight_stake'', ''blackjack_stake'',
                           ''blackjack_double_down'', ''blackjack_split''] then
           zeroWallet\<lparr>wl_withdrawable := amt, wl_wagered := - amt\<rparr>
         else if t = ''prediction_market_stake'' then
           zeroWallet\<lparr>wl_withdrawable := amt, wl_locked := lockedDelta e, wl_wagered := - amt\<rparr>
         else if t \<in> set [''draw_reward'', ''gamification_reward''] then zeroWallet\<lparr>wl_bonus := amt\<rparr>
         else if t = ''bonus_release_manual'' then zeroWallet\<lparr>wl_withdrawable := amt, wl_bonus := - amt\<rparr>
         else if t = ''bonus_release_auto'' then
           zeroWallet\<lparr>wl_withdrawable := amt, wl_bonus := - amt,
             wl_wagered := toCents (- (of_int amt * le_unlockRatio e))\<rparr>
         else if t \<in> set [''withdraw_request'', ''withdraw_rejected_refund'', ''withdraw_reversed_refund''] then
           zeroWallet\<lparr>wl_withdrawable := amt, wl_locked := - amt\<rparr>
         else if t = ''withdraw_paid'' then zeroWallet\<lparr>wl_locked := amt\<rparr>
         else if t \<in> set [''play_mode_payout_deferred'', ''play_mode_payout_released''] then
           zeroWallet\<lparr>wl_withdrawable := (if bonusKind then 0 else amt),
             wl_bonus := (if bonusKind then amt else 0), wl_locked := lockedDelta e\<rparr>
         else zeroWallet)"

subsection \<open>Ledger lines of payment orders\<close>

record mutation_event =
  me_businessEventId :: string
  me_orderType :: order_type
  me_orderId :: nat
  me_userId :: nat
  me_mutationType :: string
  me_sourceType :: source_type
  me_sourceEventKey :: "string option"
  me_amount :: cents

definition paymentEntry :: "nat \<Rightarrow> string \<Rightarrow> cents \<Rightarrow> cents \<Rightarrow> cents \<Rightarrow> nat \<Rightarrow> ledger_entry" where
  "paymentEntry uid entryType amt before after ref =
     \<lparr>le_userId = uid, le_entryType = entryType, le_amount = amt, le_balanceBefore = before,
      le_balanceAfter = after, le_referenceId = Some ref, le_unlockRatio = 0, le_balanceType = None,
      le_lockedBalanceBefore = 0, le_lockedBalanceAfter = 0\<rparr>"

text \<open>An event whose id is taken writes nothing.\<close>

definition applyLedgerMutation ::
  "mutation_event \<Rightarrow> string \<Rightarrow> cents \<Rightarrow> cents \<Rightarrow> mutation_event list \<times> ledger_entry list
     \<Rightarrow> mutation_event list \<times> ledger_entry list" where
  "applyLedgerMutation ev entryType before after books =
     (case books of (events, ledger) \<Rightarrow>
        if me_businessEventId ev \<in> set (map me_businessEventId events) then (events, ledger)
        else (events @ [ev],
              ledger @ [paymentEntry (me_userId ev) entryType (me_amount ev) before after (me_orderId ev)]))"

end
