(* ===== verification/Payment_Money.thy ===== *)
theory Payment_Money
  imports Wallet_Ledger
begin

text \<open>
  What the payment services promise about money, without reviews and logs: an abstract
  machine on wallets, orders and the ledger.  A withdrawal locks its amount when it is
  requested, and the lock ends once: it is released to the wallet or it leaves.  A deposit
  adds its amount once and can take it back once.  Other components may move their own
  money, as long as they keep the wallet in step with the ledger and leave the locks of
  open withdrawals alone.
\<close>

subsection \<open>The state\<close>

record order =
  od_id :: nat
  od_userId :: nat
  od_amount :: cents
  od_status :: finance_status

record money_view =
  mv_wallets :: "nat \<Rightarrow> wallet"
  mv_withdrawals :: "order list"
  mv_deposits :: "order list"
  mv_events :: "string list"
  mv_ledger :: "ledger_entry list"

definition setOrder :: "nat \<Rightarrow> finance_status \<Rightarrow> order list \<Rightarrow> order list" where
  "setOrder i st = map (\<lambda>r. if od_id r = i then r\<lparr>od_status := st\<rparr> else r)"

definition onWallet :: "nat \<Rightarrow> (wallet \<Rightarrow> wallet) \<Rightarrow> money_view \<Rightarrow> money_view" where
  "onWallet u f v = v\<lparr>mv_wallets := (mv_wallets v)(u := f (mv_wallets v u))\<rparr>"

definition bookLine :: "string \<Rightarrow> ledger_entry \<Rightarrow> money_view \<Rightarrow> money_view" where
  "bookLine ev e v =
     (if ev \<in> set (mv_events v) then v
      else v\<lparr>mv_events := mv_events v @ [ev], mv_ledger := mv_ledger v @ [e]\<rparr>)"

definition isOpen :: "finance_status \<Rightarrow> bool" where
  "isOpen st =
     (st \<in> {St_requested, St_approved, St_provider_submitted, St_provider_processing, St_provider_failed})"

text \<open>What of a user's locked balance open withdrawals account for.\<close>

definition openTotal :: "nat \<Rightarrow> order list \<Rightarrow> cents" where
  "openTotal u rs = (\<Sum>r\<leftarrow>rs. if od_userId r = u \<and> isOpen (od_status r) then od_amount r else 0)"

text \<open>The graph, and the two shortcuts past \<open>provider_submitted\<close> the services also take.\<close>

definition withdrawalMove :: "finance_status \<Rightarrow> finance_status \<Rightarrow> bool" where
  "withdrawalMove s t =
     (hasTransition withdrawalTransitions s t \<or>
      s = St_approved \<and> t \<in> {St_provider_processing, St_provider_failed})"

subsection \<open>The moves\<close>

definition lockEvent :: "nat \<Rightarrow> string" where
  "lockEvent i = ''withdrawal:'' @ show_digits i @ '':lock_funds''"

definition releaseEvent :: "nat \<Rightarrow> string" where
  "releaseEvent i = ''withdrawal:'' @ show_digits i @ '':release_locked_funds''"

definition consumeEvent :: "nat \<Rightarrow> string" where
  "consumeEvent i = ''withdrawal:'' @ show_digits i @ '':consume_locked_funds''"

definition creditEvent :: "nat \<Rightarrow> string" where
  "creditEvent i = ''deposit:'' @ show_digits i @ '':credit_wallet''"

definition uncreditEvent :: "nat \<Rightarrow> string" where
  "uncreditEvent i = ''deposit:'' @ show_digits i @ '':reverse_wallet''"

lemmas event_defs =
  lockEvent_def releaseEvent_def consumeEvent_def creditEvent_def uncreditEvent_def

definition refundType :: "finance_status \<Rightarrow> string" where
  "refundType st = (if st = St_reversed then ''withdraw_reversed_refund'' else ''withdraw_rejected_refund'')"

definition request :: "nat \<Rightarrow> nat \<Rightarrow> cents \<Rightarrow> money_view \<Rightarrow> money_view" where
  "request i u a v =
     (let before = wl_withdrawable (mv_wallets v u);
          v1 = onWallet u (\<lambda>wl. wl\<lparr>wl_withdrawable := before - a, wl_locked := wl_locked wl + a\<rparr>) v
      in bookLine (lockEvent i) (paymentEntry u ''withdraw_request'' (- a) before (before - a) i)
           (v1\<lparr>mv_withdrawals := mv_withdrawals v1 @
              [\<lparr>od_id = i, od_userId = u, od_amount = a, od_status = St_requested\<rparr>]\<rparr>))"

definition release :: "order \<Rightarrow> finance_status \<Rightarrow> money_view \<Rightarrow> money_view" where
  "release r st v =
     (let u = od_userId r; a = od_amount r; before = wl_withdrawable (mv_wallets v u);
          v1 = onWallet u (\<lambda>wl. wl\<lparr>wl_withdrawable := before + a, wl_locked := max (wl_locked wl - a) 0\<rparr>) v
      in bookLine (releaseEvent (od_id r)) (paymentEntry u (refundType st) a before (before + a) (od_id r))
           (v1\<lparr>mv_withdrawals := setOrder (od_id r) st (mv_withdrawals v1)\<rparr>))"

definition consume :: "order \<Rightarrow> money_view \<Rightarrow> money_view" where
  "consume r v =
     (let u = od_userId r; a = od_amount r; before = wl_locked (mv_wallets v u);
          v1 = onWallet u (\<lambda>wl. wl\<lparr>wl_locked := before - a\<rparr>) v
      in bookLine (consumeEvent (od_id r)) (paymentEntry u ''withdraw_paid'' (- a) before (before - a) (od_id r))
           (v1\<lparr>mv_withdrawals := setOrder (od_id r) St_paid (mv_withdrawals v1)\<rparr>))"

definition credit :: "order \<Rightarrow> money_view \<Rightarrow> money_view" where
  "credit r v =
     (let u = od_userId r; a = od_amount r; before = wl_withdrawable (mv_wallets v u);
          v1 = onWallet u (\<lambda>wl. wl\<lparr>wl_withdrawable := before + a\<rparr>) v
      in bookLine (creditEvent (od_id r)) (paymentEntry u ''deposit_credit'' a before (before + a) (od_id r))
           (v1\<lparr>mv_deposits := setOrder (od_id r) St_credited (mv_deposits v1)\<rparr>))"

definition uncredit :: "order \<Rightarrow> money_view \<Rightarrow> money_view" where
  "uncredit r v =
     (let u = od_userId r; a = od_amount r; before = wl_withdrawable (mv_wallets v u);
          v1 = onWallet u (\<lambda>wl. wl\<lparr>wl_withdrawable := before - a\<rparr>) v
      in bookLine (uncreditEvent (od_id r)) (paymentEntry u ''deposit_reversed'' (- a) before (before - a) (od_id r))
           (v1\<lparr>mv_deposits := setOrder (od_id r) St_reversed (mv_deposits v1)\<rparr>))"

definition paymentTypes :: "string list" where
  "paymentTypes =
     [''withdraw_request'', ''withdraw_rejected_refund'', ''withdraw_reversed_refund'', ''withdraw_paid'',
      ''deposit_credit'', ''deposit_reversed'']"

text \<open>
  A move of another component: it changes one wallet and writes that user's lines, which
  account for the change and are no payment lines.
\<close>

definition foreignMove :: "nat \<Rightarrow> wallet \<Rightarrow> ledger_entry list \<Rightarrow> money_view \<Rightarrow> bool" where
  "foreignMove u wl es v =
     (let wl0 = mv_wallets v u; d = expectedWallet u es in
      (\<forall>e \<in> set es. le_userId e = u \<and> le_entryType e \<notin> set paymentTypes \<and>
         le_entryType e \<in> set KNOWN_USER_LEDGER_ENTRY_TYPES) \<and>
      wl_withdrawable wl = wl_withdrawable wl0 + wl_withdrawable d \<and> wl_bonus wl = wl_bonus wl0 + wl_bonus d \<and>
      wl_locked wl = wl_locked wl0 + wl_locked d \<and> wl_wagered wl = wl_wagered wl0 + wl_wagered d \<and>
      0 \<le> wl_withdrawable wl \<and> openTotal u (mv_withdrawals v) \<le> wl_locked wl)"

inductive moneyStep :: "money_view \<Rightarrow> money_view \<Rightarrow> bool" where
  stay: "moneyStep v v"
| requested: "i \<notin> od_id ` set (mv_withdrawals v) \<Longrightarrow> 0 < a \<Longrightarrow> a \<le> wl_withdrawable (mv_wallets v u) \<Longrightarrow>
    moneyStep v (request i u a v)"
| moved: "r \<in> set (mv_withdrawals v) \<Longrightarrow> withdrawalMove (od_status r) st \<Longrightarrow>
    isOpen (od_status r) \<Longrightarrow> isOpen st \<Longrightarrow>
    moneyStep v (v\<lparr>mv_withdrawals := setOrder (od_id r) st (mv_withdrawals v)\<rparr>)"
| released: "r \<in> set (mv_withdrawals v) \<Longrightarrow> withdrawalMove (od_status r) st \<Longrightarrow>
    isOpen (od_status r) \<Longrightarrow> st \<in> {St_rejected, St_reversed} \<Longrightarrow> moneyStep v (release r st v)"
| consumed: "r \<in> set (mv_withdrawals v) \<Longrightarrow> od_status r = St_provider_processing \<Longrightarrow>
    od_amount r \<le> wl_locked (mv_wallets v (od_userId r)) \<Longrightarrow> moneyStep v (consume r v)"
| topUp: "i \<notin> od_id ` set (mv_deposits v) \<Longrightarrow> 0 < a \<Longrightarrow>
    moneyStep v (v\<lparr>mv_deposits := mv_deposits v @
      [\<lparr>od_id = i, od_userId = u, od_amount = a, od_status = St_requested\<rparr>]\<rparr>)"
| depositMoved: "r \<in> set (mv_deposits v) \<Longrightarrow> hasTransition depositTransitions (od_status r) st \<Longrightarrow>
    od_status r \<noteq> St_credited \<Longrightarrow> st \<noteq> St_credited \<Longrightarrow>
    moneyStep v (v\<lparr>mv_deposits := setOrder (od_id r) st (mv_deposits v)\<rparr>)"
| credited: "r \<in> set (mv_deposits v) \<Longrightarrow> od_status r = St_provider_succeeded \<Longrightarrow> moneyStep v (credit r v)"
| uncredited: "r \<in> set (mv_deposits v) \<Longrightarrow> od_status r = St_credited \<Longrightarrow>
    od_amount r \<le> wl_withdrawable (mv_wallets v (od_userId r)) \<Longrightarrow> moneyStep v (uncredit r v)"
| foreign: "foreignMove u wl es v \<Longrightarrow>
    moneyStep v (v\<lparr>mv_wallets := (mv_wallets v)(u := wl), mv_ledger := mv_ledger v @ es\<rparr>)"

inductive moneyRun :: "money_view \<Rightarrow> money_view \<Rightarrow> bool" where
  start: "moneyRun v v"
| step: "moneyRun v v' \<Longrightarrow> moneyStep v' v'' \<Longrightarrow> moneyRun v v''"

end
