(* ===== verification/Payment_Invariant.thy ===== *)
theory Payment_Invariant
  imports Payment_Money
begin

text \<open>
  What holds in every reachable state of the abstract machine of \<open>Payment_Money\<close>: every
  wallet agrees with its ledger, open withdrawals are covered by locked money, and the
  ledger lines of an order are the ones its status calls for.
\<close>

subsection \<open>Orders\<close>

lemma setOrder_split:
  assumes "distinct (map od_id (xs @ r # ys))"
  shows "setOrder (od_id r) st (xs @ r # ys) = xs @ r\<lparr>od_status := st\<rparr> # ys"
proof -
  have "setOrder (od_id r) st zs = zs" if "od_id r \<notin> od_id ` set zs" for zs
    using that by (induction zs) (auto simp: setOrder_def)
  moreover have "od_id r \<notin> od_id ` set xs" "od_id r \<notin> od_id ` set ys" using assms by auto
  ultimately have "setOrder (od_id r) st xs = xs" "setOrder (od_id r) st ys = ys" by blast+
  then show ?thesis by (simp add: setOrder_def)
qed

lemma setOrder_ids [simp]: "map od_id (setOrder i st rs) = map od_id rs"
  by (simp add: setOrder_def o_def if_distrib cong: if_cong)

lemma openTotal_append [simp]: "openTotal u (xs @ ys) = openTotal u xs + openTotal u ys"
  by (simp add: openTotal_def)

lemma openTotal_simps [simp]:
  "openTotal u [] = 0"
  "openTotal u (r # rs) =
     (if od_userId r = u \<and> isOpen (od_status r) then od_amount r else 0) + openTotal u rs"
  by (simp_all add: openTotal_def)

lemma openTotal_setOrder:
  assumes "r \<in> set rs" and "distinct (map od_id rs)"
  shows "openTotal u (setOrder (od_id r) st rs) = openTotal u rs
    - (if od_userId r = u \<and> isOpen (od_status r) then od_amount r else 0)
    + (if od_userId r = u \<and> isOpen st then od_amount r else 0)"
proof -
  obtain xs ys where rs: "rs = xs @ r # ys" using assms(1) by (meson split_list)
  show ?thesis using assms(2) unfolding rs by (simp add: setOrder_split)
qed

lemma openTotal_nonneg: "\<forall>r \<in> set rs. 0 < od_amount r \<Longrightarrow> 0 \<le> openTotal u rs"
  by (induction rs) auto

lemma openTotal_ge:
  assumes "r \<in> set rs" and "isOpen (od_status r)" and "\<forall>r \<in> set rs. 0 < od_amount r"
  shows "od_amount r \<le> openTotal (od_userId r) rs"
proof -
  obtain xs ys where rs: "rs = xs @ r # ys" using assms(1) by (meson split_list)
  show ?thesis
    using openTotal_nonneg [of xs "od_userId r"] openTotal_nonneg [of ys "od_userId r"] assms(2,3)
    unfolding rs by simp
qed

lemma setOrder_member:
  "x \<in> set (setOrder i st rs) \<longleftrightarrow>
     (\<exists>y \<in> set rs. x = (if od_id y = i then y\<lparr>od_status := st\<rparr> else y))"
  by (simp only: setOrder_def set_map image_iff)

lemma same_order:
  "distinct (map od_id rs) \<Longrightarrow> x \<in> set rs \<Longrightarrow> y \<in> set rs \<Longrightarrow> od_id x = od_id y \<Longrightarrow> x = y"
  by (meson eq_key_imp_eq_value inj_onD distinct_map)

subsection \<open>Wallets and their ledger\<close>

lemma expectedWallet_append:
  "wl_withdrawable (expectedWallet u (es @ fs)) =
     wl_withdrawable (expectedWallet u es) + wl_withdrawable (expectedWallet u fs)"
  "wl_bonus (expectedWallet u (es @ fs)) = wl_bonus (expectedWallet u es) + wl_bonus (expectedWallet u fs)"
  "wl_locked (expectedWallet u (es @ fs)) = wl_locked (expectedWallet u es) + wl_locked (expectedWallet u fs)"
  "wl_wagered (expectedWallet u (es @ fs)) = wl_wagered (expectedWallet u es) + wl_wagered (expectedWallet u fs)"
  by (simp_all add: expectedWallet_def Let_def)

lemma expectedWallet_other:
  "\<forall>e \<in> set es. le_userId e \<noteq> u \<Longrightarrow> expectedWallet u es = zeroWallet"
  by (simp add: expectedWallet_def zeroWallet_def filter_False)

definition agrees :: "money_view \<Rightarrow> bool" where
  "agrees v = (\<forall>u. mv_wallets v u = expectedWallet u (mv_ledger v) \<and> unknownEntryTypes u (mv_ledger v) = [])"

text \<open>A wallet changed as the lines written for it say still agrees.\<close>

lemma agrees_lines:
  assumes "agrees v"
    and lines: "\<forall>e \<in> set es. le_userId e = u \<and> le_entryType e \<in> set KNOWN_USER_LEDGER_ENTRY_TYPES"
    and wl: "wl_withdrawable wl = wl_withdrawable (mv_wallets v u) + wl_withdrawable (expectedWallet u es)"
      "wl_bonus wl = wl_bonus (mv_wallets v u) + wl_bonus (expectedWallet u es)"
      "wl_locked wl = wl_locked (mv_wallets v u) + wl_locked (expectedWallet u es)"
      "wl_wagered wl = wl_wagered (mv_wallets v u) + wl_wagered (expectedWallet u es)"
  shows "agrees (v\<lparr>mv_wallets := (mv_wallets v)(u := wl), mv_ledger := mv_ledger v @ es\<rparr>)"
proof -
  have "((mv_wallets v)(u := wl)) x = expectedWallet x (mv_ledger v @ es) \<and>
      unknownEntryTypes x (mv_ledger v @ es) = []" for x
  proof (cases "x = u")
    case True
    have "wl = expectedWallet u (mv_ledger v @ es)"
      using assms(1) wl by (intro wallet.equality) (simp_all add: agrees_def expectedWallet_append)
    moreover have "unknownEntryTypes u (mv_ledger v @ es) = []"
      using assms(1) lines by (auto simp: agrees_def unknownEntryTypes_def filter_empty_conv)
    ultimately show ?thesis using True by simp
  next
    case False
    then have "\<forall>e \<in> set es. le_userId e \<noteq> x" using lines by auto
    then have "expectedWallet x es = zeroWallet" and "filter (\<lambda>e. le_userId e = x) es = []"
      by (simp_all add: expectedWallet_other filter_False)
    then have "expectedWallet x (mv_ledger v @ es) = expectedWallet x (mv_ledger v)"
      and "unknownEntryTypes x (mv_ledger v @ es) = unknownEntryTypes x (mv_ledger v)"
      by (auto intro!: wallet.equality simp: expectedWallet_append zeroWallet_def unknownEntryTypes_def)
    then show ?thesis using assms(1) False by (simp add: agrees_def)
  qed
  then show ?thesis by (simp add: agrees_def)
qed

lemma payment_types_known: "t \<in> set paymentTypes \<Longrightarrow> t \<in> set KNOWN_USER_LEDGER_ENTRY_TYPES"
  by (auto simp: paymentTypes_def KNOWN_USER_LEDGER_ENTRY_TYPES_def)

lemma paymentEntry_simps [simp]:
  "le_userId (paymentEntry u t a b c i) = u" "le_entryType (paymentEntry u t a b c i) = t"
  "le_amount (paymentEntry u t a b c i) = a" "le_referenceId (paymentEntry u t a b c i) = Some i"
  by (simp_all add: paymentEntry_def)

text \<open>What a payment line is worth.\<close>

lemma payment_line_effect:
  "expectedWallet u [paymentEntry u ''withdraw_request'' a b c i] =
     \<lparr>wl_withdrawable = a, wl_bonus = 0, wl_locked = - a, wl_wagered = 0\<rparr>"
  "expectedWallet u [paymentEntry u (refundType st) a b c i] =
     \<lparr>wl_withdrawable = a, wl_bonus = 0, wl_locked = - a, wl_wagered = 0\<rparr>"
  "expectedWallet u [paymentEntry u ''withdraw_paid'' a b c i] =
     \<lparr>wl_withdrawable = 0, wl_bonus = 0, wl_locked = a, wl_wagered = 0\<rparr>"
  "expectedWallet u [paymentEntry u ''deposit_credit'' a b c i] =
     \<lparr>wl_withdrawable = a, wl_bonus = 0, wl_locked = 0, wl_wagered = 0\<rparr>"
  "expectedWallet u [paymentEntry u ''deposit_reversed'' a b c i] =
     \<lparr>wl_withdrawable = a, wl_bonus = 0, wl_locked = 0, wl_wagered = 0\<rparr>"
  by (simp_all add: expectedWallet_def sqlWithdrawable_def sqlBonus_def sqlLocked_def sqlWagered_def
      entry_types refundType_def)

subsection \<open>Business events\<close>

lemma digits_then_colon:
  "show_digits i @ CHR '':'' # s = show_digits j @ CHR '':'' # t \<longleftrightarrow> i = j \<and> s = t"
proof
  assume eq: "show_digits i @ CHR '':'' # s = show_digits j @ CHR '':'' # t"
  have "takeWhile (\<lambda>c. c \<noteq> CHR '':'') (show_digits k @ CHR '':'' # r) = show_digits k" for k r
  proof -
    have "\<forall>c \<in> set (show_digits k). c \<noteq> CHR '':''"
      using show_digits_digits [of _ k] by force
    then show ?thesis by (simp add: takeWhile_append2)
  qed
  from this [of i s] this [of j t] have "show_digits i = show_digits j" unfolding eq by simp
  then show "i = j \<and> s = t" using eq show_digits_inj by auto
qed simp

lemma show_digits_iff [simp]: "show_digits i = show_digits j \<longleftrightarrow> i = j"
  using show_digits_inj by blast

lemma event_inj [simp]:
  "lockEvent i = lockEvent j \<longleftrightarrow> i = j" "releaseEvent i = releaseEvent j \<longleftrightarrow> i = j"
  "consumeEvent i = consumeEvent j \<longleftrightarrow> i = j" "creditEvent i = creditEvent j \<longleftrightarrow> i = j"
  "uncreditEvent i = uncreditEvent j \<longleftrightarrow> i = j"
  by (simp_all add: event_defs digits_then_colon)

lemma event_distinct [simp]:
  "lockEvent i \<noteq> releaseEvent j" "lockEvent i \<noteq> consumeEvent j" "releaseEvent i \<noteq> lockEvent j"
  "releaseEvent i \<noteq> consumeEvent j" "consumeEvent i \<noteq> lockEvent j" "consumeEvent i \<noteq> releaseEvent j"
  "creditEvent i \<noteq> uncreditEvent j" "uncreditEvent i \<noteq> creditEvent j"
  "lockEvent i \<noteq> creditEvent j" "lockEvent i \<noteq> uncreditEvent j" "creditEvent i \<noteq> lockEvent j"
  "uncreditEvent i \<noteq> lockEvent j" "releaseEvent i \<noteq> creditEvent j" "releaseEvent i \<noteq> uncreditEvent j"
  "creditEvent i \<noteq> releaseEvent j" "uncreditEvent i \<noteq> releaseEvent j" "consumeEvent i \<noteq> creditEvent j"
  "consumeEvent i \<noteq> uncreditEvent j" "creditEvent i \<noteq> consumeEvent j" "uncreditEvent i \<noteq> consumeEvent j"
  by (simp_all add: event_defs digits_then_colon)

subsection \<open>The invariant\<close>

definition ordersOk :: "order list \<Rightarrow> bool" where
  "ordersOk rs = (distinct (map od_id rs) \<and> (\<forall>r \<in> set rs. 0 < od_amount r))"

definition coveredOk :: "money_view \<Rightarrow> bool" where
  "coveredOk v = (\<forall>u. 0 \<le> wl_withdrawable (mv_wallets v u) \<and>
     openTotal u (mv_withdrawals v) \<le> wl_locked (mv_wallets v u))"

definition hasOrder :: "nat \<Rightarrow> finance_status set \<Rightarrow> order list \<Rightarrow> bool" where
  "hasOrder i S rs = (\<exists>r \<in> set rs. od_id r = i \<and> od_status r \<in> S)"

definition eventsOk :: "money_view \<Rightarrow> bool" where
  "eventsOk v = (\<forall>i.
     (lockEvent i \<in> set (mv_events v) \<longrightarrow> hasOrder i UNIV (mv_withdrawals v)) \<and>
     (releaseEvent i \<in> set (mv_events v) \<longrightarrow> hasOrder i {St_rejected, St_reversed} (mv_withdrawals v)) \<and>
     (consumeEvent i \<in> set (mv_events v) \<longrightarrow> hasOrder i {St_paid} (mv_withdrawals v)) \<and>
     (creditEvent i \<in> set (mv_events v) \<longrightarrow> hasOrder i {St_credited, St_reversed} (mv_deposits v)) \<and>
     (uncreditEvent i \<in> set (mv_events v) \<longrightarrow> hasOrder i {St_reversed} (mv_deposits v)))"

definition withdrawTypes :: "string set" where
  "withdrawTypes = {''withdraw_request'', ''withdraw_rejected_refund'', ''withdraw_reversed_refund'', ''withdraw_paid''}"

definition depositTypes :: "string set" where
  "depositTypes = {''deposit_credit'', ''deposit_reversed''}"

text \<open>The lines of an order: user, type and amount.\<close>

definition orderLines :: "string set \<Rightarrow> nat \<Rightarrow> ledger_entry list \<Rightarrow> (nat \<times> string \<times> cents) list" where
  "orderLines types i es =
     map (\<lambda>e. (le_userId e, le_entryType e, le_amount e))
       (filter (\<lambda>e. le_entryType e \<in> types \<and> le_referenceId e = Some i) es)"

definition withdrawalLines :: "order \<Rightarrow> (nat \<times> string \<times> cents) list" where
  "withdrawalLines r =
     (let u = od_userId r; a = od_amount r in
      (u, ''withdraw_request'', - a) #
      (case od_status r of
         St_rejected \<Rightarrow> [(u, ''withdraw_rejected_refund'', a)]
       | St_reversed \<Rightarrow> [(u, ''withdraw_reversed_refund'', a)]
       | St_paid \<Rightarrow> [(u, ''withdraw_paid'', - a)]
       | _ \<Rightarrow> []))"

definition depositLinesOk :: "order \<Rightarrow> (nat \<times> string \<times> cents) list \<Rightarrow> bool" where
  "depositLinesOk r ls =
     (let u = od_userId r; a = od_amount r in
      if od_status r = St_credited then ls = [(u, ''deposit_credit'', a)]
      else if od_status r = St_reversed then
        ls = [] \<or> ls = [(u, ''deposit_credit'', a), (u, ''deposit_reversed'', - a)]
      else ls = [])"

definition linesOk :: "money_view \<Rightarrow> bool" where
  "linesOk v =
     ((\<forall>r \<in> set (mv_withdrawals v). orderLines withdrawTypes (od_id r) (mv_ledger v) = withdrawalLines r) \<and>
      (\<forall>r \<in> set (mv_deposits v). depositLinesOk r (orderLines depositTypes (od_id r) (mv_ledger v))) \<and>
      (\<forall>i. i \<notin> od_id ` set (mv_withdrawals v) \<longrightarrow> orderLines withdrawTypes i (mv_ledger v) = []) \<and>
      (\<forall>i. i \<notin> od_id ` set (mv_deposits v) \<longrightarrow> orderLines depositTypes i (mv_ledger v) = []))"

definition moneyOk :: "money_view \<Rightarrow> bool" where
  "moneyOk v = (ordersOk (mv_withdrawals v) \<and> ordersOk (mv_deposits v) \<and> coveredOk v \<and> agrees v \<and>
     eventsOk v \<and> linesOk v)"

definition emptyView :: money_view where
  "emptyView = \<lparr>mv_wallets = (\<lambda>_. zeroWallet), mv_withdrawals = [], mv_deposits = [], mv_events = [],
     mv_ledger = []\<rparr>"

lemma moneyOk_empty: "moneyOk emptyView"
  by (auto simp: moneyOk_def emptyView_def ordersOk_def coveredOk_def zeroWallet_def agrees_def eventsOk_def
      linesOk_def orderLines_def expectedWallet_def unknownEntryTypes_def)

subsection \<open>Its parts are kept\<close>

lemma hasOrder_append [simp]: "hasOrder i S (xs @ ys) \<longleftrightarrow> hasOrder i S xs \<or> hasOrder i S ys"
  by (auto simp: hasOrder_def)

lemma hasOrder_UNIV: "hasOrder i UNIV rs \<longleftrightarrow> i \<in> od_id ` set rs"
  by (auto simp: hasOrder_def)

lemma hasOrder_setOrder:
  "hasOrder i S (setOrder j st rs) \<longleftrightarrow> (if i = j then st \<in> S \<and> i \<in> od_id ` set rs else hasOrder i S rs)"
proof (induction rs)
  case (Cons r rs)
  have "hasOrder i S (r # rs) \<longleftrightarrow> od_id r = i \<and> od_status r \<in> S \<or> hasOrder i S rs" for r rs
    by (auto simp: hasOrder_def)
  then show ?case using Cons by (auto simp: setOrder_def)
qed (simp add: hasOrder_def setOrder_def)

lemma setOrder_id_image [simp]: "od_id ` set (setOrder i st rs) = od_id ` set rs"
  by (metis setOrder_ids list.set_map)

lemma hasOrder_status:
  "hasOrder (od_id r) S rs \<Longrightarrow> r \<in> set rs \<Longrightarrow> ordersOk rs \<Longrightarrow> od_status r \<in> S"
  using same_order by (fastforce simp: hasOrder_def ordersOk_def)

lemma ordersOk_setOrder: "ordersOk rs \<Longrightarrow> ordersOk (setOrder i st rs)"
  by (auto simp: ordersOk_def setOrder_member)

lemma ordersOk_snoc:
  "ordersOk rs \<Longrightarrow> od_id r \<notin> od_id ` set rs \<Longrightarrow> 0 < od_amount r \<Longrightarrow> ordersOk (rs @ [r])"
  by (auto simp: ordersOk_def)

lemma setOrder_elems:
  assumes "ordersOk rs" and "r \<in> set rs"
  shows "set (setOrder (od_id r) st rs) = insert (r\<lparr>od_status := st\<rparr>) {x \<in> set rs. od_id x \<noteq> od_id r}"
proof -
  obtain xs ys where rs: "rs = xs @ r # ys" using assms(2) by (meson split_list)
  show ?thesis
    using assms(1) setOrder_split [of xs r ys st] unfolding rs ordersOk_def by (auto simp: image_iff)
qed

text \<open>What the events leave free, they book.\<close>

lemma fresh_events:
  assumes "moneyOk v"
  shows "i \<notin> od_id ` set (mv_withdrawals v) \<Longrightarrow> lockEvent i \<notin> set (mv_events v)"
    "r \<in> set (mv_withdrawals v) \<Longrightarrow> od_status r \<notin> {St_rejected, St_reversed} \<Longrightarrow>
       releaseEvent (od_id r) \<notin> set (mv_events v)"
    "r \<in> set (mv_withdrawals v) \<Longrightarrow> od_status r \<noteq> St_paid \<Longrightarrow> consumeEvent (od_id r) \<notin> set (mv_events v)"
    "d \<in> set (mv_deposits v) \<Longrightarrow> od_status d \<notin> {St_credited, St_reversed} \<Longrightarrow>
       creditEvent (od_id d) \<notin> set (mv_events v)"
    "d \<in> set (mv_deposits v) \<Longrightarrow> od_status d \<noteq> St_reversed \<Longrightarrow> uncreditEvent (od_id d) \<notin> set (mv_events v)"
  using assms hasOrder_status [of r _ "mv_withdrawals v"] hasOrder_status [of d _ "mv_deposits v"]
  unfolding moneyOk_def eventsOk_def hasOrder_UNIV by blast+

lemma orderLines_snoc:
  "orderLines T i (es @ fs) = orderLines T i es @ orderLines T i fs"
  by (simp add: orderLines_def)

lemma orderLines_entry [simp]:
  "orderLines T i [paymentEntry u t a b c j] = (if t \<in> T \<and> i = j then [(u, t, a)] else [])"
  by (simp add: orderLines_def)

lemma line_types [simp]:
  "''withdraw_request'' \<in> withdrawTypes" "refundType st \<in> withdrawTypes" "''withdraw_paid'' \<in> withdrawTypes"
  "''deposit_credit'' \<notin> withdrawTypes" "''deposit_reversed'' \<notin> withdrawTypes"
  "''deposit_credit'' \<in> depositTypes" "''deposit_reversed'' \<in> depositTypes"
  "''withdraw_request'' \<notin> depositTypes" "refundType st \<notin> depositTypes" "''withdraw_paid'' \<notin> depositTypes"
  by (simp_all add: withdrawTypes_def depositTypes_def refundType_def)

lemma line_known:
  "''withdraw_request'' \<in> set KNOWN_USER_LEDGER_ENTRY_TYPES" "refundType st \<in> set KNOWN_USER_LEDGER_ENTRY_TYPES"
  "''withdraw_paid'' \<in> set KNOWN_USER_LEDGER_ENTRY_TYPES" "''deposit_credit'' \<in> set KNOWN_USER_LEDGER_ENTRY_TYPES"
  "''deposit_reversed'' \<in> set KNOWN_USER_LEDGER_ENTRY_TYPES"
  by (simp_all add: refundType_def KNOWN_USER_LEDGER_ENTRY_TYPES_def)

text \<open>
  The state after a line is booked: one user's wallet, the orders, an event and its line.
\<close>

definition booked :: "money_view \<Rightarrow> nat \<Rightarrow> wallet \<Rightarrow> string \<Rightarrow> ledger_entry \<Rightarrow> order list \<Rightarrow> order list \<Rightarrow> money_view" where
  "booked v u wl ev e ws ds =
     \<lparr>mv_wallets = (mv_wallets v)(u := wl), mv_withdrawals = ws, mv_deposits = ds,
      mv_events = mv_events v @ [ev], mv_ledger = mv_ledger v @ [e]\<rparr>"

lemma booked_simps [simp]:
  "mv_wallets (booked v u wl ev e ws ds) = (mv_wallets v)(u := wl)"
  "mv_withdrawals (booked v u wl ev e ws ds) = ws" "mv_deposits (booked v u wl ev e ws ds) = ds"
  "mv_events (booked v u wl ev e ws ds) = mv_events v @ [ev]"
  "mv_ledger (booked v u wl ev e ws ds) = mv_ledger v @ [e]"
  by (simp_all add: booked_def)

lemma agrees_booked:
  assumes "agrees v" and "le_userId e = u" and "le_entryType e \<in> set KNOWN_USER_LEDGER_ENTRY_TYPES"
    and "expectedWallet u [e] = d"
    and "wl_withdrawable wl = wl_withdrawable (mv_wallets v u) + wl_withdrawable d"
      "wl_bonus wl = wl_bonus (mv_wallets v u) + wl_bonus d"
      "wl_locked wl = wl_locked (mv_wallets v u) + wl_locked d"
      "wl_wagered wl = wl_wagered (mv_wallets v u) + wl_wagered d"
  shows "agrees (booked v u wl ev e ws ds)"
  using agrees_lines [OF assms(1), of "[e]" u wl] assms(2-) by (simp add: agrees_def)

lemma linesOk_withdrawal:
  assumes "linesOk v" and "ordersOk (mv_withdrawals v)" and r: "r \<in> set (mv_withdrawals v)"
    and e: "orderLines withdrawTypes (od_id r) [e] = ls" "\<And>i. i \<noteq> od_id r \<Longrightarrow> orderLines withdrawTypes i [e] = []"
      "\<And>i. orderLines depositTypes i [e] = []"
    and new: "withdrawalLines r @ ls = withdrawalLines (r\<lparr>od_status := st\<rparr>)"
  shows "linesOk (booked v u wl ev e (setOrder (od_id r) st (mv_withdrawals v)) (mv_deposits v))"
proof -
  have "orderLines withdrawTypes (od_id x) (mv_ledger v @ [e]) = withdrawalLines x"
    if x: "x \<in> set (setOrder (od_id r) st (mv_withdrawals v))" for x
  proof -
    obtain y where y: "y \<in> set (mv_withdrawals v)" "x = (if od_id y = od_id r then y\<lparr>od_status := st\<rparr> else y)"
      using x unfolding setOrder_member by blast
    have lines: "orderLines withdrawTypes (od_id y) (mv_ledger v) = withdrawalLines y"
      using assms(1) y(1) by (auto simp: linesOk_def)
    show ?thesis
    proof (cases "od_id y = od_id r")
      case True
      then have "y = r" using same_order [of "mv_withdrawals v"] assms(2) y(1) r by (simp add: ordersOk_def)
      then show ?thesis using y(2) lines e(1) new by (simp add: orderLines_snoc)
    next
      case False
      then show ?thesis using y(2) lines e(2) by (simp add: orderLines_snoc)
    qed
  qed
  then show ?thesis using assms(1) r e(2,3) by (auto simp: linesOk_def orderLines_snoc image_iff)
qed

lemma linesOk_deposit:
  assumes "linesOk v" and "ordersOk (mv_deposits v)" and r: "r \<in> set (mv_deposits v)"
    and e: "orderLines depositTypes (od_id r) [e] = ls" "\<And>i. i \<noteq> od_id r \<Longrightarrow> orderLines depositTypes i [e] = []"
      "\<And>i. orderLines withdrawTypes i [e] = []"
    and new: "\<And>old. depositLinesOk r old \<Longrightarrow> depositLinesOk (r\<lparr>od_status := st\<rparr>) (old @ ls)"
  shows "linesOk (booked v u wl ev e (mv_withdrawals v) (setOrder (od_id r) st (mv_deposits v)))"
proof -
  have "depositLinesOk x (orderLines depositTypes (od_id x) (mv_ledger v @ [e]))"
    if x: "x \<in> set (setOrder (od_id r) st (mv_deposits v))" for x
  proof -
    obtain y where y: "y \<in> set (mv_deposits v)" "x = (if od_id y = od_id r then y\<lparr>od_status := st\<rparr> else y)"
      using x unfolding setOrder_member by blast
    have lines: "depositLinesOk y (orderLines depositTypes (od_id y) (mv_ledger v))"
      using assms(1) y(1) by (auto simp: linesOk_def)
    show ?thesis
    proof (cases "od_id y = od_id r")
      case True
      then have "y = r" using same_order [of "mv_deposits v"] assms(2) y(1) r by (simp add: ordersOk_def)
      then show ?thesis using y(2) new [OF lines [unfolded \<open>y = r\<close>]] e(1) by (simp add: orderLines_snoc)
    next
      case False
      then show ?thesis using y(2) lines e(2) by (simp add: orderLines_snoc)
    qed
  qed
  then show ?thesis using assms(1) r e(2,3) by (auto simp: linesOk_def orderLines_snoc image_iff)
qed

subsection \<open>Every move keeps the invariant\<close>

lemma moneyOk_request:
  assumes ok: "moneyOk v" and i: "i \<notin> od_id ` set (mv_withdrawals v)" and a: "0 < a"
    and le: "a \<le> wl_withdrawable (mv_wallets v u)"
  shows "moneyOk (request i u a v)"
proof -
  let ?wl = "mv_wallets v u" and ?r = "\<lparr>od_id = i, od_userId = u, od_amount = a, od_status = St_requested\<rparr>"
  let ?b = "wl_withdrawable ?wl"
  let ?wl' = "?wl\<lparr>wl_withdrawable := ?b - a, wl_locked := wl_locked ?wl + a\<rparr>"
  let ?e = "paymentEntry u ''withdraw_request'' (- a) ?b (?b - a) i"
  let ?v = "booked v u ?wl' (lockEvent i) ?e (mv_withdrawals v @ [?r]) (mv_deposits v)"
  have v': "request i u a v = ?v"
    using fresh_events(1) [OF ok i] by (simp add: request_def onWallet_def bookLine_def booked_def Let_def)
  have "agrees ?v"
    using ok by (intro agrees_booked [OF _ _ _ payment_line_effect(1)]) (simp_all add: moneyOk_def line_known)
  moreover have "coveredOk ?v"
    using ok le by (auto simp: coveredOk_def moneyOk_def isOpen_def)
  moreover have "eventsOk ?v"
    using ok by (auto simp: moneyOk_def eventsOk_def hasOrder_UNIV)
  moreover have "linesOk ?v"
    using ok i by (auto simp: moneyOk_def linesOk_def orderLines_snoc withdrawalLines_def)
  moreover have "ordersOk (mv_withdrawals v @ [?r])" "ordersOk (mv_deposits v)"
    using ok i a by (simp_all add: moneyOk_def ordersOk_snoc)
  ultimately show ?thesis unfolding v' by (simp add: moneyOk_def)
qed

lemma moneyOk_release:
  assumes ok: "moneyOk v" and r: "r \<in> set (mv_withdrawals v)" and "isOpen (od_status r)"
    and st: "st \<in> {St_rejected, St_reversed}"
  shows "moneyOk (release r st v)"
proof -
  let ?u = "od_userId r" and ?a = "od_amount r" and ?i = "od_id r"
  let ?wl = "mv_wallets v ?u"
  let ?b = "wl_withdrawable ?wl"
  let ?wl' = "?wl\<lparr>wl_withdrawable := ?b + ?a, wl_locked := wl_locked ?wl - ?a\<rparr>"
  let ?e = "paymentEntry ?u (refundType st) ?a ?b (?b + ?a) ?i"
  let ?ws = "setOrder ?i st (mv_withdrawals v)"
  let ?v = "booked v ?u ?wl' (releaseEvent ?i) ?e ?ws (mv_deposits v)"
  have orders: "ordersOk (mv_withdrawals v)" and cov: "coveredOk v" and amt: "0 < ?a"
    and ids: "distinct (map od_id (mv_withdrawals v))" and pos: "\<forall>r \<in> set (mv_withdrawals v). 0 < od_amount r"
    using ok r by (auto simp: moneyOk_def ordersOk_def)
  have "?a \<le> wl_locked ?wl"
    using openTotal_ge [OF r assms(3) pos] cov unfolding coveredOk_def by (meson order_trans)
  then have v': "release r st v = ?v"
    using fresh_events(2) [OF ok r] assms(3)
    by (auto simp: release_def onWallet_def bookLine_def booked_def Let_def isOpen_def)
  have "agrees ?v"
    using ok by (intro agrees_booked [OF _ _ _ payment_line_effect(2)]) (simp_all add: moneyOk_def line_known)
  moreover have "coveredOk ?v"
    using cov amt assms(3) st openTotal_setOrder [OF r ids]
    by (auto simp: coveredOk_def isOpen_def)
  moreover have "eventsOk ?v"
    using ok r st fresh_events(3) [OF ok r] assms(3)
    by (auto simp: moneyOk_def eventsOk_def hasOrder_UNIV hasOrder_setOrder isOpen_def)
  moreover have "withdrawalLines r @ [(?u, refundType st, ?a)] = withdrawalLines (r\<lparr>od_status := st\<rparr>)"
    using assms(3) st by (auto simp: withdrawalLines_def Let_def isOpen_def refundType_def)
  then have "linesOk ?v"
    using ok r by (intro linesOk_withdrawal [OF _ orders r]) (auto simp: moneyOk_def)
  moreover have "ordersOk ?ws" "ordersOk (mv_deposits v)"
    using ok by (simp_all add: moneyOk_def ordersOk_setOrder)
  ultimately show ?thesis unfolding v' by (simp add: moneyOk_def)
qed

lemma moneyOk_consume:
  assumes ok: "moneyOk v" and r: "r \<in> set (mv_withdrawals v)" and "od_status r = St_provider_processing"
  shows "moneyOk (consume r v)"
proof -
  let ?u = "od_userId r" and ?a = "od_amount r" and ?i = "od_id r"
  let ?wl = "mv_wallets v ?u"
  let ?b = "wl_locked ?wl"
  let ?wl' = "?wl\<lparr>wl_locked := ?b - ?a\<rparr>"
  let ?e = "paymentEntry ?u ''withdraw_paid'' (- ?a) ?b (?b - ?a) ?i"
  let ?ws = "setOrder ?i St_paid (mv_withdrawals v)"
  let ?v = "booked v ?u ?wl' (consumeEvent ?i) ?e ?ws (mv_deposits v)"
  have orders: "ordersOk (mv_withdrawals v)" and cov: "coveredOk v"
    and ids: "distinct (map od_id (mv_withdrawals v))"
    using ok by (auto simp: moneyOk_def ordersOk_def)
  have v': "consume r v = ?v"
    using fresh_events(3) [OF ok r] assms(3)
    by (simp add: consume_def onWallet_def bookLine_def booked_def Let_def)
  have "agrees ?v"
    using ok by (intro agrees_booked [OF _ _ _ payment_line_effect(3)]) (simp_all add: moneyOk_def line_known)
  moreover have "coveredOk ?v"
    using cov assms(3) openTotal_setOrder [OF r ids] by (auto simp: coveredOk_def isOpen_def)
  moreover have "eventsOk ?v"
    using ok r fresh_events(2) [OF ok r] assms(3)
    by (auto simp: moneyOk_def eventsOk_def hasOrder_UNIV hasOrder_setOrder)
  moreover have "withdrawalLines r @ [(?u, ''withdraw_paid'', - ?a)] = withdrawalLines (r\<lparr>od_status := St_paid\<rparr>)"
    using assms(3) by (simp add: withdrawalLines_def Let_def)
  then have "linesOk ?v"
    using ok r by (intro linesOk_withdrawal [OF _ orders r]) (auto simp: moneyOk_def)
  moreover have "ordersOk ?ws" "ordersOk (mv_deposits v)"
    using ok by (simp_all add: moneyOk_def ordersOk_setOrder)
  ultimately show ?thesis unfolding v' by (simp add: moneyOk_def)
qed

lemma depositLines_moved:
  "depositLinesOk r ls \<Longrightarrow> od_status r \<noteq> St_credited \<Longrightarrow> od_status r \<noteq> St_reversed \<Longrightarrow> st \<noteq> St_credited \<Longrightarrow>
     depositLinesOk (r\<lparr>od_status := st\<rparr>) ls"
  by (simp add: depositLinesOk_def Let_def split: if_splits)

lemma moneyOk_credit:
  assumes ok: "moneyOk v" and r: "r \<in> set (mv_deposits v)" and st: "od_status r = St_provider_succeeded"
  shows "moneyOk (credit r v)"
proof -
  let ?u = "od_userId r" and ?a = "od_amount r" and ?i = "od_id r"
  let ?wl = "mv_wallets v ?u"
  let ?b = "wl_withdrawable ?wl"
  let ?e = "paymentEntry ?u ''deposit_credit'' ?a ?b (?b + ?a) ?i"
  let ?ds = "setOrder ?i St_credited (mv_deposits v)"
  let ?v = "booked v ?u (?wl\<lparr>wl_withdrawable := ?b + ?a\<rparr>) (creditEvent ?i) ?e (mv_withdrawals v) ?ds"
  have orders: "ordersOk (mv_deposits v)" and amt: "0 < ?a" using ok r by (auto simp: moneyOk_def ordersOk_def)
  have v': "credit r v = ?v"
    using fresh_events(4) [OF ok r] st by (simp add: credit_def onWallet_def bookLine_def booked_def Let_def)
  have "agrees ?v"
    using ok by (intro agrees_booked [OF _ _ _ payment_line_effect(4)]) (simp_all add: moneyOk_def line_known)
  moreover have "coveredOk ?v" using ok amt by (auto simp: moneyOk_def coveredOk_def add_nonneg_nonneg)
  moreover have "eventsOk ?v"
    using ok r fresh_events(5) [OF ok r] st
    by (auto simp: moneyOk_def eventsOk_def hasOrder_UNIV hasOrder_setOrder)
  moreover have "linesOk ?v"
    using ok r st by (intro linesOk_deposit [OF _ orders r]) (auto simp: moneyOk_def depositLinesOk_def Let_def)
  moreover have "ordersOk ?ds" "ordersOk (mv_withdrawals v)"
    using ok by (simp_all add: moneyOk_def ordersOk_setOrder)
  ultimately show ?thesis unfolding v' by (simp add: moneyOk_def)
qed

lemma moneyOk_uncredit:
  assumes ok: "moneyOk v" and r: "r \<in> set (mv_deposits v)" and st: "od_status r = St_credited"
    and le: "od_amount r \<le> wl_withdrawable (mv_wallets v (od_userId r))"
  shows "moneyOk (uncredit r v)"
proof -
  let ?u = "od_userId r" and ?a = "od_amount r" and ?i = "od_id r"
  let ?wl = "mv_wallets v ?u"
  let ?b = "wl_withdrawable ?wl"
  let ?e = "paymentEntry ?u ''deposit_reversed'' (- ?a) ?b (?b - ?a) ?i"
  let ?ds = "setOrder ?i St_reversed (mv_deposits v)"
  let ?v = "booked v ?u (?wl\<lparr>wl_withdrawable := ?b - ?a\<rparr>) (uncreditEvent ?i) ?e (mv_withdrawals v) ?ds"
  have orders: "ordersOk (mv_deposits v)" using ok by (auto simp: moneyOk_def ordersOk_def)
  have v': "uncredit r v = ?v"
    using fresh_events(5) [OF ok r] st by (simp add: uncredit_def onWallet_def bookLine_def booked_def Let_def)
  have "agrees ?v"
    using ok by (intro agrees_booked [OF _ _ _ payment_line_effect(5)]) (simp_all add: moneyOk_def line_known)
  moreover have "coveredOk ?v" using ok le by (auto simp: moneyOk_def coveredOk_def)
  moreover have "eventsOk ?v"
    using ok r by (auto simp: moneyOk_def eventsOk_def hasOrder_UNIV hasOrder_setOrder)
  moreover have "linesOk ?v"
    using ok r st by (intro linesOk_deposit [OF _ orders r]) (auto simp: moneyOk_def depositLinesOk_def Let_def)
  moreover have "ordersOk ?ds" "ordersOk (mv_withdrawals v)"
    using ok by (simp_all add: moneyOk_def ordersOk_setOrder)
  ultimately show ?thesis unfolding v' by (simp add: moneyOk_def)
qed

text \<open>Moves that book nothing.\<close>

lemma eventsOk_statuses:
  assumes "eventsOk v"
    and "\<And>i S. S \<in> {UNIV, {St_rejected, St_reversed}, {St_paid}} \<Longrightarrow>
       hasOrder i S (mv_withdrawals v) \<Longrightarrow> hasOrder i S ws"
    and "\<And>i S. S \<in> {{St_credited, St_reversed}, {St_reversed}} \<Longrightarrow>
       hasOrder i S (mv_deposits v) \<Longrightarrow> hasOrder i S ds"
  shows "eventsOk (v\<lparr>mv_withdrawals := ws, mv_deposits := ds\<rparr>)"
  using assms by (simp add: eventsOk_def)

lemma moneyOk_moved:
  assumes ok: "moneyOk v" and r: "r \<in> set (mv_withdrawals v)" and "isOpen (od_status r)" "isOpen st"
  shows "moneyOk (v\<lparr>mv_withdrawals := setOrder (od_id r) st (mv_withdrawals v)\<rparr>)" (is "moneyOk ?v")
proof -
  have orders: "ordersOk (mv_withdrawals v)" using ok by (simp add: moneyOk_def)
  then have ids: "distinct (map od_id (mv_withdrawals v))" by (simp add: ordersOk_def)
  have "hasOrder i S (setOrder (od_id r) st (mv_withdrawals v))"
    if "S \<in> {UNIV, {St_rejected, St_reversed}, {St_paid}}" and "hasOrder i S (mv_withdrawals v)" for i S
    using that hasOrder_status [OF _ r orders, of S] assms(3)
    by (auto simp: hasOrder_setOrder hasOrder_UNIV isOpen_def)
  then have "eventsOk ?v"
    using eventsOk_statuses [of v "setOrder (od_id r) st (mv_withdrawals v)" "mv_deposits v"] ok
    by (auto simp: moneyOk_def)
  moreover have "coveredOk ?v"
    using ok openTotal_setOrder [OF r ids] assms(3,4) by (simp add: coveredOk_def moneyOk_def)
  moreover have "withdrawalLines (r\<lparr>od_status := st\<rparr>) = withdrawalLines r"
    using assms(3,4) by (auto simp: withdrawalLines_def isOpen_def)
  then have "linesOk ?v"
    using ok r by (auto simp: moneyOk_def linesOk_def setOrder_elems [OF orders r])
  ultimately show ?thesis using ok orders by (simp add: moneyOk_def ordersOk_setOrder agrees_def)
qed

lemma moneyOk_depositMoved:
  assumes ok: "moneyOk v" and r: "r \<in> set (mv_deposits v)" and "od_status r \<notin> {St_credited, St_reversed}"
    and "st \<noteq> St_credited"
  shows "moneyOk (v\<lparr>mv_deposits := setOrder (od_id r) st (mv_deposits v)\<rparr>)" (is "moneyOk ?v")
proof -
  have orders: "ordersOk (mv_deposits v)" using ok by (simp add: moneyOk_def)
  then have ids: "distinct (map od_id (mv_deposits v))" by (simp add: ordersOk_def)
  have "hasOrder i S (setOrder (od_id r) st (mv_deposits v))"
    if "S \<in> {{St_credited, St_reversed}, {St_reversed}}" and "hasOrder i S (mv_deposits v)" for i S
    using that hasOrder_status [OF _ r orders, of S] assms(3) by (auto simp: hasOrder_setOrder)
  then have "eventsOk ?v"
    using eventsOk_statuses [of v "mv_withdrawals v" "setOrder (od_id r) st (mv_deposits v)"] ok
    by (auto simp: moneyOk_def)
  moreover have "linesOk ?v"
    using ok r depositLines_moved [of r _ st] assms(3,4)
    by (auto simp: moneyOk_def linesOk_def setOrder_elems [OF orders r])
  moreover have "agrees ?v" using ok by (simp add: moneyOk_def agrees_def)
  moreover have "coveredOk ?v" using ok by (simp add: moneyOk_def coveredOk_def)
  ultimately show ?thesis using ok orders by (simp add: moneyOk_def ordersOk_setOrder)
qed

lemma moneyOk_topUp:
  assumes ok: "moneyOk v" and i: "i \<notin> od_id ` set (mv_deposits v)" and a: "0 < a"
  shows "moneyOk (v\<lparr>mv_deposits := mv_deposits v @
    [\<lparr>od_id = i, od_userId = u, od_amount = a, od_status = St_requested\<rparr>]\<rparr>)" (is "moneyOk ?v")
proof -
  have "ordersOk (mv_deposits ?v)" using ok i a by (simp add: moneyOk_def ordersOk_snoc)
  moreover have "eventsOk ?v"
    using eventsOk_statuses [of v "mv_withdrawals v" "mv_deposits ?v"] ok by (simp add: moneyOk_def)
  moreover have "linesOk ?v"
    using ok i by (auto simp: moneyOk_def linesOk_def depositLinesOk_def Let_def)
  moreover have "agrees ?v" using ok by (simp add: moneyOk_def agrees_def)
  moreover have "coveredOk ?v" using ok by (simp add: moneyOk_def coveredOk_def)
  ultimately show ?thesis using ok by (simp add: moneyOk_def)
qed

lemma moneyOk_foreign:
  assumes ok: "moneyOk v" and f: "foreignMove u wl es v"
  shows "moneyOk (v\<lparr>mv_wallets := (mv_wallets v)(u := wl), mv_ledger := mv_ledger v @ es\<rparr>)" (is "moneyOk ?v")
proof -
  have types: "\<forall>e \<in> set es. le_userId e = u \<and> le_entryType e \<in> set KNOWN_USER_LEDGER_ENTRY_TYPES"
    and other: "\<forall>e \<in> set es. le_entryType e \<notin> set paymentTypes"
    using f by (auto simp: foreignMove_def Let_def)
  have "agrees ?v"
    using agrees_lines [OF _ types, of v wl] ok f by (simp add: foreignMove_def Let_def moneyOk_def)
  moreover have none: "orderLines withdrawTypes i es = []" "orderLines depositTypes i es = []" for i
    using other by (auto simp: orderLines_def filter_empty_conv paymentTypes_def withdrawTypes_def depositTypes_def)
  have "linesOk ?v" using ok by (simp add: moneyOk_def linesOk_def orderLines_snoc none)
  moreover have "coveredOk ?v" using ok f by (simp add: coveredOk_def moneyOk_def foreignMove_def Let_def)
  moreover have "eventsOk ?v" using ok by (simp add: moneyOk_def eventsOk_def)
  ultimately show ?thesis using ok by (simp add: moneyOk_def)
qed

lemma moneyStep_ok: "moneyStep v v' \<Longrightarrow> moneyOk v \<Longrightarrow> moneyOk v'"
proof (induction rule: moneyStep.induct)
  case (requested i v a u) then show ?case by (intro moneyOk_request)
next
  case (moved r v st) then show ?case by (intro moneyOk_moved)
next
  case (released r v st) then show ?case by (intro moneyOk_release)
next
  case (consumed r v) then show ?case by (intro moneyOk_consume)
next
  case (topUp i v a u) then show ?case by (intro moneyOk_topUp)
next
  case (depositMoved r v st)
  then have "od_status r \<notin> {St_credited, St_reversed}"
    by (auto simp: hasTransition_def nextStatuses_def depositTransitions_def)
  with depositMoved show ?case by (intro moneyOk_depositMoved)
next
  case (credited r v) then show ?case by (intro moneyOk_credit)
next
  case (uncredited r v) then show ?case by (intro moneyOk_uncredit)
next
  case (foreign u wl es v) then show ?case by (intro moneyOk_foreign)
qed

lemma moneyRun_ok: "moneyRun v v' \<Longrightarrow> moneyOk v \<Longrightarrow> moneyOk v'"
  by (induction rule: moneyRun.induct) (auto intro: moneyStep_ok)

end
