(* ===== verification/Payment_World.thy ===== *)
theory Payment_World
  imports Wallet_Ledger
begin

text \<open>
  The database the payment services work on: wallets, orders, the ledger with its business
  events, and the review, provider and settlement logs (\<open>modules/payment/finance-persistence.ts\<close>,
  \<open>modules/withdraw/workflow.ts\<close>).  A wallet row is created empty when it is first needed, so
  every user has one.  A service runs in a transaction: an error drops what it wrote.
\<close>

record withdrawal =
  wd_id :: nat
  wd_userId :: nat
  wd_providerId :: "nat option"
  wd_payoutMethodId :: "nat option"
  wd_amount :: cents
  wd_status :: finance_status
  wd_createdAt :: int
  wd_metadata :: finance_meta

record deposit =
  dp_id :: nat
  dp_userId :: nat
  dp_providerId :: "nat option"
  dp_amount :: cents
  dp_status :: finance_status
  dp_metadata :: finance_meta

record review_row =
  rr_orderType :: order_type
  rr_orderId :: nat
  rr_action :: review_action
  rr_reviewStage :: review_stage
  rr_adminId :: "nat option"
  rr_operatorNote :: string
  rr_settlementReference :: "string option"
  rr_processingChannel :: "string option"

record provider_event =
  pv_orderType :: order_type
  pv_orderId :: nat
  pv_eventType :: string
  pv_externalReference :: "string option"
  pv_processingChannel :: "string option"

record settlement_event =
  se_orderType :: order_type
  se_orderId :: nat
  se_userId :: nat
  se_eventType :: string
  se_settlementStatus :: string
  se_settlementReference :: "string option"
  se_failureReason :: "string option"

record payment_world =
  pw_wallets :: "nat \<Rightarrow> wallet"
  pw_withdrawals :: "withdrawal list"
  pw_deposits :: "deposit list"
  pw_events :: "mutation_event list"
  pw_ledger :: "ledger_entry list"
  pw_reviews :: "review_row list"
  pw_providerEvents :: "provider_event list"
  pw_settlements :: "settlement_event list"
  pw_outbound :: "(order_type \<times> nat \<times> nat) list"
  pw_suspicionScore :: "nat \<Rightarrow> nat"

text \<open>Whether the wallet check throws, and whether the provider's outbound request can be prepared.\<close>

record payment_env =
  pe_strict :: bool
  pe_outbound :: "order_type \<Rightarrow> nat \<Rightarrow> error option"

subsection \<open>Rows and logs\<close>

definition selectLockedWithdrawal :: "nat \<Rightarrow> payment_world \<Rightarrow> withdrawal option" where
  "selectLockedWithdrawal i w = find (\<lambda>r. wd_id r = i) (pw_withdrawals w)"

definition lockDepositById :: "nat \<Rightarrow> payment_world \<Rightarrow> deposit option" where
  "lockDepositById i w = find (\<lambda>r. dp_id r = i) (pw_deposits w)"

definition updateWithdrawal ::
  "withdrawal \<Rightarrow> finance_status \<Rightarrow> finance_meta \<Rightarrow> payment_world \<Rightarrow> withdrawal \<times> payment_world" where
  "updateWithdrawal row st m w =
     (row\<lparr>wd_status := st, wd_metadata := m\<rparr>,
      w\<lparr>pw_withdrawals := map (\<lambda>r. if wd_id r = wd_id row then r\<lparr>wd_status := st, wd_metadata := m\<rparr> else r)
          (pw_withdrawals w)\<rparr>)"

definition updateDepositStatus ::
  "deposit \<Rightarrow> finance_status \<Rightarrow> finance_meta \<Rightarrow> payment_world \<Rightarrow> deposit \<times> payment_world" where
  "updateDepositStatus row st m w =
     (row\<lparr>dp_status := st, dp_metadata := m\<rparr>,
      w\<lparr>pw_deposits := map (\<lambda>r. if dp_id r = dp_id row then r\<lparr>dp_status := st, dp_metadata := m\<rparr> else r)
          (pw_deposits w)\<rparr>)"

definition insertFinanceReview :: "review_row \<Rightarrow> payment_world \<Rightarrow> payment_world" where
  "insertFinanceReview r w = w\<lparr>pw_reviews := pw_reviews w @ [r]\<rparr>"

definition insertPaymentProviderEvent :: "provider_event \<Rightarrow> payment_world \<Rightarrow> payment_world" where
  "insertPaymentProviderEvent e w = w\<lparr>pw_providerEvents := pw_providerEvents w @ [e]\<rparr>"

text \<open>The settlement reference is a unique column; nulls do not collide.\<close>

definition insertPaymentSettlementEvent :: "settlement_event \<Rightarrow> payment_world \<Rightarrow> payment_world res" where
  "insertPaymentSettlementEvent e w =
     (if se_settlementReference e \<noteq> None \<and>
         se_settlementReference e \<in> set (map se_settlementReference (pw_settlements w))
      then Inl (PlainError ''duplicate key: payment_settlement_events_reference_unique'')
      else Inr (w\<lparr>pw_settlements := pw_settlements w @ [e]\<rparr>))"

definition updateWallet :: "nat \<Rightarrow> (wallet \<Rightarrow> wallet) \<Rightarrow> payment_world \<Rightarrow> payment_world" where
  "updateWallet uid f w = w\<lparr>pw_wallets := (pw_wallets w)(uid := f (pw_wallets w uid))\<rparr>"

definition writeLedger :: "mutation_event \<Rightarrow> string \<Rightarrow> cents \<Rightarrow> cents \<Rightarrow> payment_world \<Rightarrow> payment_world" where
  "writeLedger ev entryType before after w =
     (case applyLedgerMutation ev entryType before after (pw_events w, pw_ledger w) of
        (evs, ledger) \<Rightarrow> w\<lparr>pw_events := evs, pw_ledger := ledger\<rparr>)"

definition checkWallet :: "payment_env \<Rightarrow> nat \<Rightarrow> payment_world \<Rightarrow> unit res" where
  "checkWallet env uid w = assertWalletLedgerInvariant (pe_strict env) uid (pw_wallets w uid) (pw_ledger w)"

definition prepareOutbound ::
  "payment_env \<Rightarrow> order_type \<Rightarrow> nat \<Rightarrow> nat \<Rightarrow> payment_world \<Rightarrow> payment_world res" where
  "prepareOutbound env flow orderId providerId w =
     (case pe_outbound env flow providerId of
        Some e \<Rightarrow> Inl e
      | None \<Rightarrow>
          Inr (if (flow, orderId, providerId) \<in> set (pw_outbound w) then w
               else w\<lparr>pw_outbound := pw_outbound w @ [(flow, orderId, providerId)]\<rparr>))"

subsection \<open>Reviews of a withdrawal\<close>

definition withReviewDefaults :: "finance_review \<Rightarrow> string \<Rightarrow> finance_review" where
  "withReviewDefaults rv note =
     rv\<lparr>fr_operatorNote := orElse (normalizeOptionalString (fr_operatorNote rv)) (Some note)\<rparr>"

definition readLedgerSource :: "finance_review \<Rightarrow> source_type \<times> string option" where
  "readLedgerSource rv =
     ((case fr_sourceType rv of
         Some s \<Rightarrow> s
       | None \<Rightarrow> (if fr_adminId rv = None then SystemSource else Manual_review)),
      normalizeOptionalString (fr_sourceEventKey rv))"

datatype fund_action = Lock_funds | Release_locked_funds | Consume_locked_funds

fun showFundAction :: "fund_action \<Rightarrow> string" where
  "showFundAction Lock_funds = ''lock_funds''"
| "showFundAction Release_locked_funds = ''release_locked_funds''"
| "showFundAction Consume_locked_funds = ''consume_locked_funds''"

definition buildWithdrawalBusinessEventId :: "nat \<Rightarrow> fund_action \<Rightarrow> string" where
  "buildWithdrawalBusinessEventId i act = ''withdrawal:'' @ show_digits i @ '':'' @ showFundAction act"

definition toLower :: "char \<Rightarrow> char" where
  "toLower c = (if 65 \<le> (of_char c :: nat) \<and> (of_char c :: nat) \<le> 90 then char_of (of_char c + 32 :: nat) else c)"

definition isLookupChar :: "char \<Rightarrow> bool" where
  "isLookupChar c =
     ((97 \<le> (of_char c :: nat) \<and> (of_char c :: nat) \<le> 122) \<or> (48 \<le> (of_char c :: nat) \<and> (of_char c :: nat) \<le> 57))"

text \<open>Every run of other characters becomes one underscore.\<close>

fun collapseRuns :: "bool \<Rightarrow> string \<Rightarrow> string" where
  "collapseRuns inRun [] = []"
| "collapseRuns inRun (c # cs) =
     (if isLookupChar c then c # collapseRuns False cs
      else if inRun then collapseRuns True cs else CHR ''_'' # collapseRuns True cs)"

definition normalizeManualChannel :: "string option \<Rightarrow> string" where
  "normalizeManualChannel v =
     (case v of None \<Rightarrow> [] | Some s \<Rightarrow> collapseRuns False (map toLower (js_trim s)))"

fun containsText :: "string \<Rightarrow> string \<Rightarrow> bool" where
  "containsText [] needle = (needle = [])"
| "containsText (c # cs) needle = (take (length needle) (c # cs) = needle \<or> containsText cs needle)"

definition isManualChannel :: "string option \<Rightarrow> bool" where
  "isManualChannel v =
     (let n = normalizeManualChannel v in
      if n = [] then False
      else containsText n ''manual'' \<or> containsText n ''offline'' \<or> containsText n ''human'')"

definition mergeWithdrawalControl :: "finance_meta \<Rightarrow> (withdrawal_control \<Rightarrow> withdrawal_control) \<Rightarrow> finance_meta" where
  "mergeWithdrawalControl m f = m\<lparr>fm_control := f (fm_control m)\<rparr>"

definition readApprovalsRequired :: "finance_meta \<Rightarrow> nat" where
  "readApprovalsRequired m =
     (case wc_approvalsRequired (fm_control m) of None \<Rightarrow> 1 | Some v \<Rightarrow> (if v > 1 then v else 1))"

definition readApprovalsCollected :: "finance_meta \<Rightarrow> nat" where
  "readApprovalsCollected m = (case wc_approvalsCollected (fm_control m) of None \<Rightarrow> 0 | Some v \<Rightarrow> v)"

definition readManualChannelRequired :: "finance_meta \<Rightarrow> bool" where
  "readManualChannelRequired m = wc_manualChannelRequired (fm_control m)"

definition recordReview ::
  "order_type \<Rightarrow> nat \<Rightarrow> review_action \<Rightarrow> dual_review \<Rightarrow> payment_world \<Rightarrow> finance_meta \<times> payment_world" where
  "recordReview flow orderId act rs w =
     (let eff = dr_effectiveReview rs in
      (appendFinanceReviewMetadata (dr_metadata rs) act (dr_reviewStage rs) eff,
       insertFinanceReview \<lparr>rr_orderType = flow, rr_orderId = orderId, rr_action = act,
         rr_reviewStage = dr_reviewStage rs, rr_adminId = er_adminId eff,
         rr_operatorNote = er_operatorNote eff,
         rr_settlementReference = er_settlementReference eff,
         rr_processingChannel = er_processingChannel eff\<rparr> w))"

end
