(* ===== verification/Withdrawals.thy ===== *)
theory Withdrawals
  imports Payment_World
begin

text \<open>
  Withdrawals, \<open>modules/withdraw/service.ts\<close> and \<open>withdraw-lifecycle-service.ts\<close>: requesting
  one, and the seven operations of its life.  The amount a route passes on is a number of
  whole cents (\<open>toAmountString\<close>).  The AML and KYC checks, the owner's payout methods, the
  routing decision and the counts of shared devices come from other components and are part
  of the request's environment; the notifications after a commit are left out.
\<close>

subsection \<open>Requesting a withdrawal\<close>

record payout_method =
  pm_id :: nat
  pm_methodType :: string
  pm_last4 :: "string option"
  pm_cryptoAddress :: "string option"

record withdrawal_config =
  cf_withdrawEnabled :: bool
  cf_minWithdrawAmount :: cents
  cf_maxWithdrawAmount :: cents
  cf_maxPerDay :: cents
  cf_minWagerBeforeWithdraw :: cents
  cf_secondApprovalThreshold :: cents
  cf_newCardReviewEnabled :: bool
  cf_sharedIpUserThreshold :: nat
  cf_sharedDeviceUserThreshold :: nat
  cf_sharedPayoutUserThreshold :: nat

text \<open>The users the device, session and payout tables count for a request.\<close>

record shared_counts =
  ct_ipDevices :: nat
  ct_ipSessions :: nat
  ct_fingerprintDevices :: nat
  ct_agentSessions :: nat
  ct_bankAccounts :: nat
  ct_cryptoAddresses :: nat

record withdrawal_request =
  rq_userId :: nat
  rq_amount :: cents
  rq_payoutMethodId :: "nat option"
  rq_metadata :: finance_meta
  rq_ip :: "string option"
  rq_userAgent :: "string option"
  rq_deviceFingerprint :: "string option"

record request_env =
  rv_config :: withdrawal_config
  rv_amlScreen :: "error option"
  rv_kyc :: "cents \<Rightarrow> cents \<Rightarrow> error option"
  rv_payoutMethods :: "nat \<Rightarrow> nat \<Rightarrow> (payout_method \<times> bool) option"
  rv_counts :: shared_counts
  rv_processingMode :: string
  rv_manualFallbackRequired :: bool
  rv_providerId :: "nat option"
  rv_now :: int
  rv_startOfDay :: int
  rv_newId :: nat

text \<open>An id that is null or 0 is no method; the flag of the lookup says whether it is active.\<close>

definition selectOwnedPayoutMethod :: "request_env \<Rightarrow> nat \<Rightarrow> nat option \<Rightarrow> payout_method option res" where
  "selectOwnedPayoutMethod renv uid methodId =
     (if methodId = None \<or> methodId = Some 0 then Inr None
      else case rv_payoutMethods renv uid (the methodId) of
        None \<Rightarrow> Inl (NotFound ''Payout method not found.'')
      | Some (pm, active) \<Rightarrow>
          if active then Inr (Some pm) else Inl (Conflict ''Payout method is not active.''))"

definition newCardFirstWithdrawal :: "withdrawal_config \<Rightarrow> nat \<Rightarrow> payout_method option \<Rightarrow> payment_world \<Rightarrow> bool" where
  "newCardFirstWithdrawal cfg uid pm w =
     (case pm of
        None \<Rightarrow> False
      | Some m \<Rightarrow> pm_methodType m = ''bank_account'' \<and> cf_newCardReviewEnabled cfg \<and>
          filter (\<lambda>r. wd_userId r = uid \<and> wd_payoutMethodId r = Some (pm_id m) \<and> wd_status r = St_paid)
            (pw_withdrawals w) = [])"

definition sharedIpUserCount :: "withdrawal_config \<Rightarrow> shared_counts \<Rightarrow> withdrawal_request \<Rightarrow> nat" where
  "sharedIpUserCount cfg ct rq =
     (if normalizeOptionalString (rq_ip rq) \<noteq> None \<and> cf_sharedIpUserThreshold cfg > 1
      then (if ct_ipDevices ct = 0 then ct_ipSessions ct else ct_ipDevices ct) else 0)"

definition sharedDeviceUserCount :: "withdrawal_config \<Rightarrow> shared_counts \<Rightarrow> withdrawal_request \<Rightarrow> nat" where
  "sharedDeviceUserCount cfg ct rq =
     (if cf_sharedDeviceUserThreshold cfg > 1 then
        (let n = (if normalizeOptionalString (rq_deviceFingerprint rq) \<noteq> None
                  then ct_fingerprintDevices ct else 0)
         in if n = 0 \<and> normalizeOptionalString (rq_ip rq) \<noteq> None \<and>
               normalizeOptionalString (rq_userAgent rq) \<noteq> None
            then ct_agentSessions ct else n)
      else 0)"

definition sharedPayoutUserCount :: "withdrawal_config \<Rightarrow> shared_counts \<Rightarrow> payout_method option \<Rightarrow> nat" where
  "sharedPayoutUserCount cfg ct pm =
     (case pm of
        None \<Rightarrow> 0
      | Some m \<Rightarrow>
          if pm_methodType m = ''bank_account'' \<and> truthy (pm_last4 m) \<and> cf_sharedPayoutUserThreshold cfg > 1
          then ct_bankAccounts ct
          else if pm_methodType m = ''crypto_address'' \<and> truthy (pm_cryptoAddress m) \<and>
                  cf_sharedPayoutUserThreshold cfg > 1
          then ct_cryptoAddresses ct
          else 0)"

definition suspiciousSignals ::
  "withdrawal_config \<Rightarrow> shared_counts \<Rightarrow> withdrawal_request \<Rightarrow> payout_method option \<Rightarrow> risk_signal list" where
  "suspiciousSignals cfg ct rq pm =
     (if normalizeOptionalString (rq_ip rq) \<noteq> None \<and> cf_sharedIpUserThreshold cfg > 1 \<and>
         sharedIpUserCount cfg ct rq \<ge> cf_sharedIpUserThreshold cfg then [Shared_ip_cluster] else []) @
     (if cf_sharedDeviceUserThreshold cfg > 1 \<and>
         sharedDeviceUserCount cfg ct rq \<ge> cf_sharedDeviceUserThreshold cfg then [Shared_device_cluster] else []) @
     (if cf_sharedPayoutUserThreshold cfg > 1 \<and>
         sharedPayoutUserCount cfg ct pm \<ge> cf_sharedPayoutUserThreshold cfg
      then [Shared_payout_destination_cluster] else [])"

text \<open>The control record, and the signals that count as suspicious.\<close>

definition evaluateWithdrawalControls ::
  "request_env \<Rightarrow> withdrawal_request \<Rightarrow> payout_method option \<Rightarrow> payment_world
     \<Rightarrow> withdrawal_control \<times> risk_signal list" where
  "evaluateWithdrawalControls renv rq pm w =
     (let cfg = rv_config renv; ct = rv_counts renv; threshold = cf_secondApprovalThreshold cfg;
          susp = suspiciousSignals cfg ct rq pm;
          risks = (if newCardFirstWithdrawal cfg (rq_userId rq) pm w then [New_card_first_withdrawal] else [])
                  @ susp;
          required = (if threshold > 0 \<and> rq_amount rq \<ge> threshold then 2 else 1)
      in (\<lparr>wc_approvalsRequired = Some required, wc_approvalsCollected = Some 0,
           wc_approvalState = Some (if required > 1 then ''pending_first_approval''
                                    else ''pending_single_approval''),
           wc_manualChannelRequired = (risks \<noteq> []),
           wc_manualChannelUsed = wc_manualChannelUsed (fm_control (rq_metadata rq)),
           wc_riskSignals = risks\<rparr>, susp))"

definition withPaymentProcessingMetadata :: "finance_meta \<Rightarrow> string \<Rightarrow> bool \<Rightarrow> finance_meta" where
  "withPaymentProcessingMetadata m mode fallback =
     m\<lparr>fm_processingMode := Some mode, fm_financeCurrentStatus := Some St_requested,
       fm_manualFallbackStatus := (if fallback then Some St_requested else None),
       fm_manualFallbackResolved := False\<rparr>"

definition totalToday :: "request_env \<Rightarrow> nat \<Rightarrow> payment_world \<Rightarrow> cents" where
  "totalToday renv uid w =
     (\<Sum>r\<leftarrow>filter (\<lambda>r. wd_userId r = uid \<and> rv_startOfDay renv \<le> wd_createdAt r) (pw_withdrawals w).
        wd_amount r)"

definition recordSuspiciousActivity :: "nat \<Rightarrow> nat \<Rightarrow> payment_world \<Rightarrow> payment_world" where
  "recordSuspiciousActivity uid score w =
     w\<lparr>pw_suspicionScore := (pw_suspicionScore w)(uid := pw_suspicionScore w uid + score)\<rparr>"

text \<open>
  The limits of a request, in their order: the first that is broken, with the flag that it
  is recorded as suspicious.
\<close>

definition requestRefusal ::
  "request_env \<Rightarrow> withdrawal_request \<Rightarrow> payment_world \<Rightarrow> (error \<times> bool) option" where
  "requestRefusal renv rq w =
     (let cfg = rv_config renv; amt = rq_amount rq; uid = rq_userId rq; wl = pw_wallets w uid;
          today = totalToday renv uid w
      in if \<not> cf_withdrawEnabled cfg then
           Some (ServiceUnavailable ''Withdrawals are currently disabled.'', False)
         else if amt \<le> 0 then Some (Unprocessable ''Amount must be greater than 0.'', False)
         else if cf_minWithdrawAmount cfg > 0 \<and> amt < cf_minWithdrawAmount cfg then
           Some (Unprocessable ''Amount below minimum withdrawal.'', True)
         else if cf_maxWithdrawAmount cfg > 0 \<and> amt > cf_maxWithdrawAmount cfg then
           Some (Unprocessable ''Amount exceeds maximum withdrawal.'', True)
         else case rv_kyc renv amt today of
           Some e \<Rightarrow> Some (e, False)
         | None \<Rightarrow>
             if cf_maxPerDay cfg > 0 \<and> today + amt > cf_maxPerDay cfg then
               Some (Conflict ''Daily withdrawal limit exceeded.'', True)
             else if cf_minWagerBeforeWithdraw cfg > 0 \<and> wl_wagered wl < cf_minWagerBeforeWithdraw cfg then
               Some (Conflict ''Minimum wager requirement not met.'', True)
             else if wl_withdrawable wl < amt then
               Some (Conflict ''Insufficient withdrawable balance.'', True)
             else None)"

text \<open>The row, the wallet and the ledger line of an accepted request.\<close>

definition openWithdrawal ::
  "request_env \<Rightarrow> withdrawal_request \<Rightarrow> payout_method option \<Rightarrow> payment_world \<Rightarrow> withdrawal \<times> payment_world" where
  "openWithdrawal renv rq pm w =
     (let uid = rq_userId rq; amt = rq_amount rq; wl = pw_wallets w uid;
          before = wl_withdrawable wl; after = before - amt;
          controls = fst (evaluateWithdrawalControls renv rq pm w);
          forcedManual = wc_manualChannelRequired controls;
          paymentMeta = withPaymentProcessingMetadata (rq_metadata rq)
            (if forcedManual then ''manual'' else rv_processingMode renv)
            (if forcedManual then True else rv_manualFallbackRequired renv);
          meta = appendFinanceStateMetadata (mergeWithdrawalControl paymentMeta (\<lambda>_. controls))
            WithdrawalOrder St_requested (noChange\<lparr>sc_ledgerEntryType := Some ''withdraw_request''\<rparr>);
          row = \<lparr>wd_id = rv_newId renv, wd_userId = uid, wd_providerId = rv_providerId renv,
            wd_payoutMethodId = map_option pm_id pm, wd_amount = amt, wd_status = St_requested,
            wd_createdAt = rv_now renv, wd_metadata = meta\<rparr>;
          w1 = updateWallet uid (\<lambda>wl. wl\<lparr>wl_withdrawable := after, wl_locked := wl_locked wl + amt\<rparr>) w;
          w2 = w1\<lparr>pw_withdrawals := pw_withdrawals w1 @ [row]\<rparr>
      in (row, writeLedger \<lparr>me_businessEventId = buildWithdrawalBusinessEventId (wd_id row) Lock_funds,
            me_orderType = WithdrawalOrder, me_orderId = wd_id row, me_userId = uid,
            me_mutationType = ''withdraw_lock_funds'', me_sourceType = Order_request,
            me_sourceEventKey = None, me_amount = - amt\<rparr> ''withdraw_request'' before after w2))"

text \<open>
  The body of the transaction: its outcome, and the state it has written when it ends, also
  when it ends in an error.
\<close>

definition createWithdrawalBody ::
  "payment_env \<Rightarrow> request_env \<Rightarrow> withdrawal_request \<Rightarrow> payment_world \<Rightarrow> withdrawal res \<times> payment_world" where
  "createWithdrawalBody env renv rq w =
     (case requestRefusal renv rq w of
        Some (e, suspicious) \<Rightarrow>
          (Inl e, if suspicious then recordSuspiciousActivity (rq_userId rq) 1 w else w)
      | None \<Rightarrow>
          (case selectOwnedPayoutMethod renv (rq_userId rq) (rq_payoutMethodId rq) of
             Inl e \<Rightarrow> (Inl e, w)
           | Inr pm \<Rightarrow>
               (case openWithdrawal renv rq pm w of
                  (row, w1) \<Rightarrow>
                    let susp = snd (evaluateWithdrawalControls renv rq pm w);
                        w2 = (if susp \<noteq> [] then recordSuspiciousActivity (rq_userId rq) (length susp) w1 else w1)
                    in (case checkWallet env (rq_userId rq) w2 of
                          Inl e \<Rightarrow> (Inl e, w2)
                        | Inr _ \<Rightarrow> (Inr row, w2)))))"

text \<open>\<open>db.transaction\<close>: an error takes the writes back.\<close>

definition transaction :: "('s \<Rightarrow> 'a res \<times> 's) \<Rightarrow> 's \<Rightarrow> 'a res \<times> 's" where
  "transaction body w = (case body w of (Inl e, w') \<Rightarrow> (Inl e, w) | (Inr x, w') \<Rightarrow> (Inr x, w'))"

definition createWithdrawal ::
  "payment_env \<Rightarrow> request_env \<Rightarrow> withdrawal_request \<Rightarrow> payment_world \<Rightarrow> withdrawal res \<times> payment_world" where
  "createWithdrawal env renv rq w =
     (case rv_amlScreen renv of
        Some e \<Rightarrow> (Inl e, w)
      | None \<Rightarrow> transaction (createWithdrawalBody env renv rq) w)"

subsection \<open>Approval\<close>

type_synonym withdrawal_step = "(withdrawal option \<times> payment_world) res"

definition setApproval :: "string \<Rightarrow> withdrawal_control \<Rightarrow> withdrawal_control" where
  "setApproval st c = c\<lparr>wc_approvalState := Some st\<rparr>"

definition approveWithdrawal :: "payment_env \<Rightarrow> nat \<Rightarrow> finance_review \<Rightarrow> payment_world \<Rightarrow> withdrawal_step" where
  "approveWithdrawal env i rv w =
     (case selectLockedWithdrawal i w of
        None \<Rightarrow> Inr (None, w)
      | Some row \<Rightarrow>
          if wd_status row \<noteq> St_requested then Inr (Some row, w)
          else
            let required = readApprovalsRequired (wd_metadata row) in
            if required > 1 \<and> fr_adminId rv = None then
              Inl (Conflict ''A second admin approval is required for this withdrawal.'')
            else bind_res
              (applyDualReviewGate (wd_metadata row) Withdrawal_approve St_approved rv False (required \<le> 1))
              (\<lambda>rs. case recordReview WithdrawalOrder (wd_id row) Withdrawal_approve rs w of
                 (reviewMeta, w1) \<Rightarrow>
                   if \<not> dr_confirmed rs then
                     (case updateWithdrawal row (wd_status row)
                         (mergeWithdrawalControl reviewMeta (\<lambda>c. c\<lparr>wc_approvalsRequired := Some required,
                            wc_approvalsCollected := Some 1,
                            wc_approvalState := Some ''pending_second_approval''\<rparr>)) w1 of
                        (row', w2) \<Rightarrow> Inr (Some row', w2))
                   else
                     (case updateWithdrawal row St_approved
                         (appendFinanceStateMetadata
                            (mergeWithdrawalControl reviewMeta (\<lambda>c. c\<lparr>wc_approvalsRequired := Some required,
                               wc_approvalsCollected :=
                                 Some (max (readApprovalsCollected (wd_metadata row)) required),
                               wc_approvalState := Some ''approved''\<rparr>))
                            WithdrawalOrder St_approved (noChange\<lparr>sc_settlementStatus := Some ''approved''\<rparr>)) w1 of
                        (row', w2) \<Rightarrow>
                          (case (if fm_processingMode (wd_metadata row') = Some ''provider''
                                 then wd_providerId row' else None) of
                             None \<Rightarrow> Inr (Some row', w2)
                           | Some p \<Rightarrow>
                               bind_res (prepareOutbound env WithdrawalOrder (wd_id row') p w2)
                                 (\<lambda>w3. Inr (Some row', w3))))))"

section \<open>The life of a withdrawal\<close>

text \<open>
  The life of a withdrawal after its approval (\<open>withdraw-lifecycle-service.ts\<close>): handing it
  to the provider, its failure, paying it out, and giving the money back.  Every operation
  skips a row whose status it does not handle, passes the review gate without a second
  reviewer, and writes the review, the logs, the row, the wallet and the ledger.
\<close>

definition gate ::
  "withdrawal \<Rightarrow> review_action \<Rightarrow> finance_status \<Rightarrow> finance_review \<Rightarrow> string \<Rightarrow> bool \<Rightarrow> dual_review res" where
  "gate row act target rv note requireReference =
     applyDualReviewGate (wd_metadata row) act target (withReviewDefaults rv note) requireReference True"

definition providerEvent :: "withdrawal \<Rightarrow> string \<Rightarrow> dual_review \<Rightarrow> provider_event" where
  "providerEvent row ev rs =
     \<lparr>pv_orderType = WithdrawalOrder, pv_orderId = wd_id row, pv_eventType = ev,
      pv_externalReference = er_settlementReference (dr_effectiveReview rs),
      pv_processingChannel = er_processingChannel (dr_effectiveReview rs)\<rparr>"

definition settlementEvent ::
  "withdrawal \<Rightarrow> string \<Rightarrow> string \<Rightarrow> dual_review \<Rightarrow> string option \<Rightarrow> settlement_event" where
  "settlementEvent row ev st rs failure =
     \<lparr>se_orderType = WithdrawalOrder, se_orderId = wd_id row, se_userId = wd_userId row,
      se_eventType = ev, se_settlementStatus = st,
      se_settlementReference = er_settlementReference (dr_effectiveReview rs),
      se_failureReason = failure\<rparr>"

text \<open>The two operations that only hand the order on to the provider.\<close>

definition handToProvider ::
  "review_action \<Rightarrow> finance_status \<Rightarrow> string \<Rightarrow> withdrawal \<Rightarrow> finance_review \<Rightarrow> payment_world \<Rightarrow> withdrawal_step" where
  "handToProvider act target ev row rv w =
     bind_res (gate row act target rv (''withdrawal_'' @ ev) True)
       (\<lambda>rs. case recordReview WithdrawalOrder (wd_id row) act rs w of
          (reviewMeta, w1) \<Rightarrow>
            (case updateWithdrawal row target
                (appendFinanceStateMetadata reviewMeta WithdrawalOrder target
                   (noChange\<lparr>sc_providerStatus := Some ev, sc_settlementStatus := Some ev\<rparr>))
                (insertPaymentProviderEvent (providerEvent row ev rs) w1) of
               (row', w2) \<Rightarrow> Inr (Some row', w2)))"

definition markWithdrawalProviderSubmitted :: "nat \<Rightarrow> finance_review \<Rightarrow> payment_world \<Rightarrow> withdrawal_step" where
  "markWithdrawalProviderSubmitted i rv w =
     (case selectLockedWithdrawal i w of
        None \<Rightarrow> Inr (None, w)
      | Some row \<Rightarrow>
          if wd_status row \<noteq> St_approved then Inr (Some row, w)
          else handToProvider Withdrawal_mark_provider_submitted St_provider_submitted
                 ''provider_submitted'' row rv w)"

definition markWithdrawalProviderProcessing :: "nat \<Rightarrow> finance_review \<Rightarrow> payment_world \<Rightarrow> withdrawal_step" where
  "markWithdrawalProviderProcessing i rv w =
     (case selectLockedWithdrawal i w of
        None \<Rightarrow> Inr (None, w)
      | Some row \<Rightarrow>
          if wd_status row \<noteq> St_approved \<and> wd_status row \<noteq> St_provider_submitted then Inr (Some row, w)
          else handToProvider Withdrawal_mark_provider_processing St_provider_processing
                 ''provider_processing'' row rv w)"

definition markWithdrawalProviderFailure ::
  "withdrawal \<Rightarrow> dual_review \<Rightarrow> finance_meta \<Rightarrow> payment_world \<Rightarrow> withdrawal_step" where
  "markWithdrawalProviderFailure row rs reviewMeta w =
     (let note = Some (er_operatorNote (dr_effectiveReview rs)) in
      bind_res (insertPaymentSettlementEvent (settlementEvent row ''provider_failed'' ''failed'' rs note)
          (insertPaymentProviderEvent (providerEvent row ''provider_failed'' rs) w))
        (\<lambda>w1. case updateWithdrawal row St_provider_failed
            (appendFinanceStateMetadata
               (mergeWithdrawalControl reviewMeta (setApproval ''provider_failed'')) WithdrawalOrder
               St_provider_failed (noChange\<lparr>sc_providerStatus := Some ''provider_failed'',
                 sc_settlementStatus := Some ''failed'', sc_failureReason := note\<rparr>)) w1 of
           (row', w2) \<Rightarrow> Inr (Some row', w2)))"

definition markWithdrawalProviderFailed :: "nat \<Rightarrow> finance_review \<Rightarrow> payment_world \<Rightarrow> withdrawal_step" where
  "markWithdrawalProviderFailed i rv w =
     (case selectLockedWithdrawal i w of
        None \<Rightarrow> Inr (None, w)
      | Some row \<Rightarrow>
          if wd_status row \<noteq> St_approved \<and> wd_status row \<noteq> St_provider_submitted \<and>
             wd_status row \<noteq> St_provider_processing then Inr (Some row, w)
          else bind_res
            (gate row Withdrawal_mark_provider_failed St_provider_failed rv ''withdrawal_provider_failed'' True)
            (\<lambda>rs. case recordReview WithdrawalOrder (wd_id row) Withdrawal_mark_provider_failed rs w of
               (reviewMeta, w1) \<Rightarrow>
                 if \<not> dr_confirmed rs then
                   (case updateWithdrawal row (wd_status row) reviewMeta w1 of (row', w2) \<Rightarrow> Inr (Some row', w2))
                 else markWithdrawalProviderFailure row rs reviewMeta w1))"

subsection \<open>Giving the money back\<close>

definition refundEntryType :: "finance_status \<Rightarrow> string" where
  "refundEntryType st = (if st = St_reversed then ''withdraw_reversed_refund'' else ''withdraw_rejected_refund'')"

definition refundWithdrawal ::
  "withdrawal \<Rightarrow> finance_review \<Rightarrow> dual_review \<Rightarrow> finance_meta \<Rightarrow> finance_status \<Rightarrow> payment_world \<Rightarrow> withdrawal_step" where
  "refundWithdrawal row rv rs reviewMeta nextStatus w =
     (let uid = wd_userId row; amt = wd_amount row; wl = pw_wallets w uid;
          before = wl_withdrawable wl; after = before + amt;
          note = Some (er_operatorNote (dr_effectiveReview rs));
          w1 = updateWallet uid (\<lambda>wl. wl\<lparr>wl_withdrawable := after, wl_locked := max (wl_locked wl - amt) 0\<rparr>) w
      in bind_res (insertPaymentSettlementEvent
            (settlementEvent row (showStatus nextStatus) (showStatus nextStatus) rs note) w1)
          (\<lambda>w2. case updateWithdrawal row nextStatus
              (appendFinanceStateMetadata
                 (mergeWithdrawalControl reviewMeta (setApproval (showStatus nextStatus))) WithdrawalOrder
                 nextStatus (noChange\<lparr>sc_settlementStatus := Some (showStatus nextStatus),
                   sc_failureReason := note, sc_ledgerEntryType := Some (refundEntryType nextStatus)\<rparr>)) w2 of
             (row', w3) \<Rightarrow>
               bind_res (assertWithdrawalLedgerMutationStatus nextStatus)
                 (\<lambda>_. Inr (Some row', writeLedger
                    \<lparr>me_businessEventId = buildWithdrawalBusinessEventId (wd_id row) Release_locked_funds,
                     me_orderType = WithdrawalOrder, me_orderId = wd_id row, me_userId = uid,
                     me_mutationType = ''withdraw_release_locked_funds'',
                     me_sourceType = fst (readLedgerSource rv), me_sourceEventKey = snd (readLedgerSource rv),
                     me_amount = amt\<rparr> (refundEntryType nextStatus) before after w3))))"

definition refundStep ::
  "payment_env \<Rightarrow> review_action \<Rightarrow> finance_status \<Rightarrow> string \<Rightarrow> bool \<Rightarrow> withdrawal \<Rightarrow> finance_review \<Rightarrow> payment_world
     \<Rightarrow> withdrawal_step" where
  "refundStep env act nextStatus note requireReference row rv w =
     bind_res (gate row act nextStatus rv note requireReference)
       (\<lambda>rs. case recordReview WithdrawalOrder (wd_id row) act rs w of
          (reviewMeta, w1) \<Rightarrow>
            if \<not> dr_confirmed rs then
              (case updateWithdrawal row (wd_status row) reviewMeta w1 of (row', w2) \<Rightarrow> Inr (Some row', w2))
            else bind_res (refundWithdrawal row rv rs reviewMeta nextStatus w1)
              (\<lambda>(result, w2). bind_res (checkWallet env (wd_userId row) w2) (\<lambda>_. Inr (result, w2))))"

definition rejectWithdrawal :: "payment_env \<Rightarrow> nat \<Rightarrow> finance_review \<Rightarrow> payment_world \<Rightarrow> withdrawal_step" where
  "rejectWithdrawal env i rv w =
     (case selectLockedWithdrawal i w of
        None \<Rightarrow> Inr (None, w)
      | Some row \<Rightarrow>
          if wd_status row \<noteq> St_requested \<and> wd_status row \<noteq> St_approved then Inr (Some row, w)
          else refundStep env Withdrawal_reject St_rejected ''withdrawal_rejected'' False row rv w)"

definition reverseWithdrawal :: "payment_env \<Rightarrow> nat \<Rightarrow> finance_review \<Rightarrow> payment_world \<Rightarrow> withdrawal_step" where
  "reverseWithdrawal env i rv w =
     (case selectLockedWithdrawal i w of
        None \<Rightarrow> Inr (None, w)
      | Some row \<Rightarrow>
          if wd_status row \<notin> {St_requested, St_approved, St_provider_submitted, St_provider_processing,
              St_provider_failed, St_paid} then Inr (Some row, w)
          else refundStep env Withdrawal_reverse St_reversed ''withdrawal_reversed''
                 (wd_status row \<noteq> St_requested) row rv w)"

subsection \<open>Paying out\<close>

definition payOutWithdrawal ::
  "withdrawal \<Rightarrow> finance_review \<Rightarrow> dual_review \<Rightarrow> finance_meta \<Rightarrow> string \<Rightarrow> payment_world \<Rightarrow> withdrawal_step" where
  "payOutWithdrawal row rv rs reviewMeta channel w =
     (let uid = wd_userId row; amt = wd_amount row; lockedBefore = wl_locked (pw_wallets w uid);
          lockedAfter = lockedBefore - amt
      in if lockedBefore < amt then Inl (Conflict ''Locked balance is insufficient.'')
         else bind_res (insertPaymentSettlementEvent (settlementEvent row ''paid'' ''paid'' rs None)
             (updateWallet uid (\<lambda>wl. wl\<lparr>wl_locked := lockedAfter\<rparr>) w))
           (\<lambda>w1. case updateWithdrawal row St_paid
               (appendFinanceStateMetadata
                  (mergeWithdrawalControl reviewMeta
                     (\<lambda>c. c\<lparr>wc_approvalState := Some ''paid'', wc_manualChannelUsed := Some channel\<rparr>))
                  WithdrawalOrder St_paid (noChange\<lparr>sc_settlementStatus := Some ''paid'',
                    sc_ledgerEntryType := Some ''withdraw_paid''\<rparr>)) w1 of
              (row', w2) \<Rightarrow>
                bind_res (assertWithdrawalLedgerMutationStatus St_paid)
                  (\<lambda>_. Inr (Some row', writeLedger
                     \<lparr>me_businessEventId = buildWithdrawalBusinessEventId (wd_id row) Consume_locked_funds,
                      me_orderType = WithdrawalOrder, me_orderId = wd_id row, me_userId = uid,
                      me_mutationType = ''withdraw_consume_locked_funds'',
                      me_sourceType = fst (readLedgerSource rv), me_sourceEventKey = snd (readLedgerSource rv),
                      me_amount = - amt\<rparr> ''withdraw_paid'' lockedBefore lockedAfter w2))))"

definition payWithdrawal :: "payment_env \<Rightarrow> nat \<Rightarrow> finance_review \<Rightarrow> payment_world \<Rightarrow> withdrawal_step" where
  "payWithdrawal env i rv w =
     (case selectLockedWithdrawal i w of
        None \<Rightarrow> Inr (None, w)
      | Some row \<Rightarrow>
          if wd_status row \<noteq> St_provider_processing then Inr (Some row, w)
          else bind_res (gate row Withdrawal_pay St_paid rv ''withdrawal_paid'' True)
            (\<lambda>rs. case recordReview WithdrawalOrder (wd_id row) Withdrawal_pay rs w of
               (reviewMeta, w1) \<Rightarrow>
                 if \<not> dr_confirmed rs then
                   (case updateWithdrawal row (wd_status row) reviewMeta w1 of (row', w2) \<Rightarrow> Inr (Some row', w2))
                 else case normalizeOptionalString (er_processingChannel (dr_effectiveReview rs)) of
                   None \<Rightarrow> Inl (Unprocessable ''Processing channel is required.'')
                 | Some channel \<Rightarrow>
                     if readManualChannelRequired (wd_metadata row) \<and> \<not> isManualChannel (Some channel) then
                       Inl (Conflict ''Risk-routed withdrawals must be paid through a manual channel.'')
                     else bind_res (payOutWithdrawal row rv rs reviewMeta channel w1)
                       (\<lambda>(result, w2). bind_res (checkWallet env (wd_userId row) w2) (\<lambda>_. Inr (result, w2)))))"

end
