(* ===== verification/Deposits.thy ===== *)
theory Deposits
  imports Withdrawals
begin

text \<open>
  Deposits, \<open>modules/top-up/service.ts\<close>: requesting one, the steps to its credit, its failure
  and its reversal.  Every status change goes through the state machine, which throws on a
  transition its graph does not have.  The mission rewards a credit may grant are another
  component.
\<close>

record deposit_request =
  dq_userId :: nat
  dq_amount :: cents
  dq_metadata :: finance_meta

record deposit_env =
  dv_amlScreen :: "error option"
  dv_depositEnabled :: bool
  dv_minDepositAmount :: cents
  dv_maxDepositAmount :: cents
  dv_processingMode :: string
  dv_manualFallbackRequired :: bool
  dv_providerId :: "nat option"
  dv_newId :: nat

type_synonym deposit_step = "(deposit option \<times> payment_world) res"

datatype deposit_action = Credit_wallet | Reverse_wallet

fun showDepositAction :: "deposit_action \<Rightarrow> string" where
  "showDepositAction Credit_wallet = ''credit_wallet''"
| "showDepositAction Reverse_wallet = ''reverse_wallet''"

definition buildDepositBusinessEventId :: "nat \<Rightarrow> deposit_action \<Rightarrow> string" where
  "buildDepositBusinessEventId i act = ''deposit:'' @ show_digits i @ '':'' @ showDepositAction act"

definition readLatestSettlementReference :: "finance_meta \<Rightarrow> string option" where
  "readLatestSettlementReference m =
     (case fm_reviewLatest m of
        None \<Rightarrow> None | Some e \<Rightarrow> normalizeOptionalString (re_settlementReference e))"

definition appendDepositWorkflowMetadata ::
  "finance_meta \<Rightarrow> finance_status option \<Rightarrow> finance_status \<Rightarrow> trail_actor \<Rightarrow> string \<Rightarrow> string option
     \<Rightarrow> state_change \<Rightarrow> finance_meta res" where
  "appendDepositWorkflowMetadata m from to actor ev note c =
     bind_res (appendDepositStateTransition m
         \<lparr>te_flow = DepositOrder, te_from = from, te_to = to, te_actor = actor, te_event = ev, te_note = note\<rparr>)
       (\<lambda>m'. Inr (appendFinanceStateMetadata m' DepositOrder to c))"

text \<open>A transition to the status the row has already writes nothing.\<close>

definition transitionDepositStatus ::
  "deposit \<Rightarrow> finance_status \<Rightarrow> string \<Rightarrow> dual_review \<Rightarrow> finance_meta \<Rightarrow> state_change \<Rightarrow> payment_world
     \<Rightarrow> (deposit \<times> payment_world) res" where
  "transitionDepositStatus row to ev rs m c w =
     (if dp_status row = to then Inr (row, w)
      else bind_res (appendDepositWorkflowMetadata m (Some (dp_status row)) to AdminActor ev
               (Some (er_operatorNote (dr_effectiveReview rs))) c)
             (\<lambda>m'. Inr (updateDepositStatus row to m' w)))"

definition depositGate ::
  "deposit \<Rightarrow> review_action \<Rightarrow> finance_status \<Rightarrow> finance_review \<Rightarrow> string \<Rightarrow> bool \<Rightarrow> dual_review res" where
  "depositGate row act target rv note requireReference =
     applyDualReviewGate (dp_metadata row) act target (withReviewDefaults rv note) requireReference True"

definition depositProviderEvent ::
  "deposit \<Rightarrow> string \<Rightarrow> string option \<Rightarrow> dual_review \<Rightarrow> provider_event" where
  "depositProviderEvent row ev ref rs =
     \<lparr>pv_orderType = DepositOrder, pv_orderId = dp_id row, pv_eventType = ev, pv_externalReference = ref,
      pv_processingChannel = er_processingChannel (dr_effectiveReview rs)\<rparr>"

definition depositSettlementEvent ::
  "deposit \<Rightarrow> string \<Rightarrow> string \<Rightarrow> string option \<Rightarrow> string option \<Rightarrow> settlement_event" where
  "depositSettlementEvent row ev st ref failure =
     \<lparr>se_orderType = DepositOrder, se_orderId = dp_id row, se_userId = dp_userId row, se_eventType = ev,
      se_settlementStatus = st, se_settlementReference = ref, se_failureReason = failure\<rparr>"

text \<open>
  \<open>recordDepositReviewAttempt\<close>, and what follows it when the review is confirmed; an
  unconfirmed one stores the metadata and ends the operation.
\<close>

definition recordDepositReviewAttempt ::
  "deposit \<Rightarrow> review_action \<Rightarrow> dual_review \<Rightarrow> payment_world \<Rightarrow> (finance_meta \<Rightarrow> payment_world \<Rightarrow> deposit_step)
     \<Rightarrow> deposit_step" where
  "recordDepositReviewAttempt row act rs w cont =
     (case recordReview DepositOrder (dp_id row) act rs w of
        (reviewMeta, w1) \<Rightarrow>
          if \<not> dr_confirmed rs then
            (case updateDepositStatus row (dp_status row) reviewMeta w1 of (row', w2) \<Rightarrow> Inr (Some row', w2))
          else cont reviewMeta w1)"

definition someRow :: "(deposit \<times> payment_world) res \<Rightarrow> deposit_step" where
  "someRow r = bind_res r (\<lambda>(row, w). Inr (Some row, w))"

subsection \<open>Requesting a deposit\<close>

definition createTopUp ::
  "payment_env \<Rightarrow> deposit_env \<Rightarrow> deposit_request \<Rightarrow> payment_world \<Rightarrow> (deposit \<times> payment_world) res" where
  "createTopUp env denv rq w =
     (case dv_amlScreen denv of
        Some e \<Rightarrow> Inl e
      | None \<Rightarrow>
          if \<not> dv_depositEnabled denv then Inl (ServiceUnavailable ''Deposits are currently disabled.'')
          else if dq_amount rq \<le> 0 then Inl (Unprocessable ''Amount must be greater than 0.'')
          else if dv_minDepositAmount denv > 0 \<and> dq_amount rq < dv_minDepositAmount denv then
            Inl (Unprocessable ''Amount below minimum deposit.'')
          else if dv_maxDepositAmount denv > 0 \<and> dq_amount rq > dv_maxDepositAmount denv then
            Inl (Unprocessable ''Amount exceeds maximum deposit.'')
          else bind_res
            (appendDepositWorkflowMetadata
               (withPaymentProcessingMetadata (dq_metadata rq) (dv_processingMode denv)
                  (dv_manualFallbackRequired denv))
               None St_requested UserActor ''deposit_requested'' None noChange)
            (\<lambda>m.
               let row = \<lparr>dp_id = dv_newId denv, dp_userId = dq_userId rq, dp_providerId = dv_providerId denv,
                     dp_amount = dq_amount rq, dp_status = St_requested,
                     dp_metadata = appendFinanceStateMetadata m DepositOrder St_requested noChange\<rparr>;
                   w1 = w\<lparr>pw_deposits := pw_deposits w @ [row]\<rparr>
               in case (if dv_processingMode denv = ''provider'' then dv_providerId denv else None) of
                    None \<Rightarrow> Inr (row, w1)
                  | Some p \<Rightarrow> bind_res (prepareOutbound env DepositOrder (dp_id row) p w1) (\<lambda>w2. Inr (row, w2))))"

subsection \<open>The way to the credit\<close>

definition markDepositProviderPending :: "nat \<Rightarrow> finance_review \<Rightarrow> payment_world \<Rightarrow> deposit_step" where
  "markDepositProviderPending i rv w =
     (case lockDepositById i w of
        None \<Rightarrow> Inr (None, w)
      | Some row \<Rightarrow>
          if dp_status row \<noteq> St_requested then Inr (Some row, w)
          else bind_res
            (depositGate row Deposit_mark_provider_pending St_provider_pending rv ''deposit_provider_pending'' False)
            (\<lambda>rs. recordDepositReviewAttempt row Deposit_mark_provider_pending rs w
               (\<lambda>m w1. someRow (transitionDepositStatus row St_provider_pending ''deposit_provider_pending'' rs m
                  (noChange\<lparr>sc_providerStatus := Some ''provider_pending''\<rparr>)
                  (insertPaymentProviderEvent (depositProviderEvent row ''provider_pending'' None rs) w1)))))"

definition markDepositProviderSucceeded :: "nat \<Rightarrow> finance_review \<Rightarrow> payment_world \<Rightarrow> deposit_step" where
  "markDepositProviderSucceeded i rv w =
     (case lockDepositById i w of
        None \<Rightarrow> Inr (None, w)
      | Some row \<Rightarrow>
          if dp_status row \<notin> {St_requested, St_provider_pending, St_provider_failed} then Inr (Some row, w)
          else bind_res
            (depositGate row Deposit_mark_provider_succeeded St_provider_succeeded rv
               ''deposit_provider_succeeded'' True)
            (\<lambda>rs. recordDepositReviewAttempt row Deposit_mark_provider_succeeded rs w
               (\<lambda>m w1.
                  let ref = orElse (er_settlementReference (dr_effectiveReview rs)) (readLatestSettlementReference m)
                  in bind_res (insertPaymentSettlementEvent
                         (depositSettlementEvent row ''settled'' ''settled'' ref None)
                         (insertPaymentProviderEvent (depositProviderEvent row ''provider_succeeded'' ref rs) w1))
                       (\<lambda>w2. someRow (transitionDepositStatus row St_provider_succeeded
                          ''deposit_provider_succeeded'' rs m
                          (noChange\<lparr>sc_providerStatus := Some ''provider_succeeded'',
                             sc_settlementStatus := Some ''settled''\<rparr>) w2)))))"

definition creditDepositRecord :: "deposit \<Rightarrow> finance_review \<Rightarrow> payment_world \<Rightarrow> deposit_step" where
  "creditDepositRecord row rv w =
     (if dp_status row \<noteq> St_provider_succeeded then Inr (Some row, w)
      else bind_res (depositGate row Deposit_credit St_credited rv ''deposit_credit'' False)
        (\<lambda>rs. recordDepositReviewAttempt row Deposit_credit rs w
           (\<lambda>m w1. bind_res (assertDepositLedgerMutationStatus St_credited) (\<lambda>_.
              let uid = dp_userId row; amt = dp_amount row;
                  before = wl_withdrawable (pw_wallets w1 uid); after = before + amt
              in bind_res (insertPaymentSettlementEvent
                     (depositSettlementEvent row ''credited'' ''credited'' None None)
                     (updateWallet uid (\<lambda>wl. wl\<lparr>wl_withdrawable := after\<rparr>) w1))
                   (\<lambda>w2. bind_res (transitionDepositStatus row St_credited ''deposit_credited'' rs m
                       \<lparr>sc_providerStatus = Some ''provider_succeeded'', sc_settlementStatus = Some ''credited'',
                        sc_failureReason = None, sc_ledgerEntryType = Some ''deposit_credit''\<rparr> w2)
                     (\<lambda>(row', w3). Inr (Some row', writeLedger
                        \<lparr>me_businessEventId = buildDepositBusinessEventId (dp_id row) Credit_wallet,
                         me_orderType = DepositOrder, me_orderId = dp_id row, me_userId = uid,
                         me_mutationType = ''deposit_credit_wallet'',
                         me_sourceType = fst (readLedgerSource rv),
                         me_sourceEventKey = snd (readLedgerSource rv), me_amount = amt\<rparr>
                        ''deposit_credit'' before after w3)))))))"

definition creditDeposit :: "payment_env \<Rightarrow> nat \<Rightarrow> finance_review \<Rightarrow> payment_world \<Rightarrow> deposit_step" where
  "creditDeposit env i rv w =
     (case lockDepositById i w of
        None \<Rightarrow> Inr (None, w)
      | Some row \<Rightarrow> bind_res (creditDepositRecord row rv w)
          (\<lambda>(result, w1). bind_res (checkWallet env (dp_userId row) w1) (\<lambda>_. Inr (result, w1))))"

definition failDeposit :: "nat \<Rightarrow> finance_review \<Rightarrow> payment_world \<Rightarrow> deposit_step" where
  "failDeposit i rv w =
     (case lockDepositById i w of
        None \<Rightarrow> Inr (None, w)
      | Some row \<Rightarrow>
          if dp_status row \<noteq> St_requested \<and> dp_status row \<noteq> St_provider_pending then Inr (Some row, w)
          else bind_res
            (depositGate row Deposit_mark_provider_failed St_provider_failed rv ''deposit_provider_failed'' False)
            (\<lambda>rs. recordDepositReviewAttempt row Deposit_mark_provider_failed rs w
               (\<lambda>m w1.
                  let ref = orElse (er_settlementReference (dr_effectiveReview rs)) (readLatestSettlementReference m);
                      note = Some (er_operatorNote (dr_effectiveReview rs));
                      pending = (dp_status row = St_provider_pending);
                      w2 = (if pending then insertPaymentProviderEvent
                              (depositProviderEvent row ''provider_failed'' ref rs) w1 else w1)
                  in bind_res (insertPaymentSettlementEvent
                         (depositSettlementEvent row ''failed'' ''failed'' ref note) w2)
                       (\<lambda>w3. someRow (transitionDepositStatus row St_provider_failed
                          ''deposit_provider_failed'' rs m
                          (noChange\<lparr>sc_providerStatus := (if pending then Some ''provider_failed'' else None),
                             sc_settlementStatus := Some ''failed'', sc_failureReason := note\<rparr>) w3)))))"

subsection \<open>Reversal\<close>

definition reverseCredited ::
  "payment_env \<Rightarrow> deposit \<Rightarrow> finance_review \<Rightarrow> dual_review \<Rightarrow> finance_meta \<Rightarrow> payment_world \<Rightarrow> deposit_step" where
  "reverseCredited env row rv rs m w =
     (let uid = dp_userId row; amt = dp_amount row;
          before = wl_withdrawable (pw_wallets w uid); after = before - amt
      in if before < amt then
           Inl (Conflict ''Withdrawable balance is insufficient to reverse the deposit.'')
         else bind_res (assertDepositLedgerMutationStatus St_reversed) (\<lambda>_.
           bind_res (transitionDepositStatus row St_reversed ''deposit_reversed'' rs m
               \<lparr>sc_providerStatus = Some ''provider_succeeded'', sc_settlementStatus = Some ''reversed'',
                sc_failureReason = Some (er_operatorNote (dr_effectiveReview rs)),
                sc_ledgerEntryType = Some ''deposit_reversed''\<rparr>
               (updateWallet uid (\<lambda>wl. wl\<lparr>wl_withdrawable := after\<rparr>) w))
             (\<lambda>(row', w1).
                let w2 = writeLedger
                      \<lparr>me_businessEventId = buildDepositBusinessEventId (dp_id row) Reverse_wallet,
                       me_orderType = DepositOrder, me_orderId = dp_id row, me_userId = uid,
                       me_mutationType = ''deposit_reverse_wallet'',
                       me_sourceType = fst (readLedgerSource rv), me_sourceEventKey = snd (readLedgerSource rv),
                       me_amount = - amt\<rparr> ''deposit_reversed'' before after w1
                in bind_res (checkWallet env uid w2) (\<lambda>_. Inr (Some row', w2)))))"

definition reverseDeposit :: "payment_env \<Rightarrow> nat \<Rightarrow> finance_review \<Rightarrow> payment_world \<Rightarrow> deposit_step" where
  "reverseDeposit env i rv w =
     (case lockDepositById i w of
        None \<Rightarrow> Inr (None, w)
      | Some row \<Rightarrow>
          if dp_status row \<notin> {St_provider_pending, St_provider_succeeded, St_credited} then Inr (Some row, w)
          else bind_res (depositGate row Deposit_reverse St_reversed rv ''deposit_reversed'' True)
            (\<lambda>rs. recordDepositReviewAttempt row Deposit_reverse rs w
               (\<lambda>m w1.
                  let ref = orElse (er_settlementReference (dr_effectiveReview rs)) (readLatestSettlementReference m);
                      note = Some (er_operatorNote (dr_effectiveReview rs))
                  in bind_res (insertPaymentSettlementEvent
                         (depositSettlementEvent row ''reversed'' ''reversed'' ref note) w1)
                       (\<lambda>w2. if dp_status row = St_credited then reverseCredited env row rv rs m w2
                        else someRow (transitionDepositStatus row St_reversed ''deposit_reversed'' rs m
                          (noChange\<lparr>sc_providerStatus := Some (if dp_status row = St_provider_pending
                               then ''provider_pending'' else ''provider_succeeded''),
                             sc_settlementStatus := Some ''reversed'', sc_failureReason := note\<rparr>) w2)))))"

text \<open>
  The system's approval: three transactions in a row, each going on when the one before left
  the status it wants; a failure keeps what the earlier ones committed.  The reference it
  makes up holds the time of day, an argument here.
\<close>

definition withSystemNote :: "string \<Rightarrow> finance_review \<Rightarrow> finance_review" where
  "withSystemNote note rv =
     rv\<lparr>fr_adminId := None, fr_operatorNote := orElse (fr_operatorNote rv) (Some note)\<rparr>"

definition approveDeposit ::
  "payment_env \<Rightarrow> string \<Rightarrow> nat \<Rightarrow> finance_review \<Rightarrow> payment_world \<Rightarrow> deposit option res \<times> payment_world" where
  "approveDeposit env clock i rv w =
     (case markDepositProviderPending i
          (withSystemNote ''System approval moved the deposit to provider pending.'' rv) w of
        Inl e \<Rightarrow> (Inl e, w)
      | Inr (d1, w1) \<Rightarrow>
          if map_option dp_status d1 \<noteq> Some St_provider_pending then (Inr d1, w1)
          else case markDepositProviderSucceeded i
              ((withSystemNote ''System approval marked the deposit as settled.'' rv)
                 \<lparr>fr_settlementReference := orElse (fr_settlementReference rv)
                    (Some (''system-deposit-settle-'' @ show_digits i @ ''-'' @ clock))\<rparr>) w1 of
            Inl e \<Rightarrow> (Inl e, w1)
          | Inr (d2, w2) \<Rightarrow>
              if map_option dp_status d2 \<noteq> Some St_provider_succeeded then (Inr d2, w2)
              else case creditDeposit env i
                  (withSystemNote ''System approval credited the deposit.'' rv) w2 of
                Inl e \<Rightarrow> (Inl e, w2)
              | Inr (d3, w3) \<Rightarrow> (Inr d3, w3))"

end
