(* ===== verification/Payment_Refine.thy ===== *)
theory Payment_Refine
  imports Payment_Invariant Withdrawals Deposits
begin

text \<open>
  The payment services implement the abstract machine of \<open>Payment_Money\<close>: seen through
  \<open>moneyView\<close>, which forgets reviews, logs and metadata, every operation that succeeds is
  one of its moves.
\<close>

subsection \<open>The view\<close>

definition orderOf :: "withdrawal \<Rightarrow> order" where
  "orderOf r = \<lparr>od_id = wd_id r, od_userId = wd_userId r, od_amount = wd_amount r, od_status = wd_status r\<rparr>"

definition depositOrderOf :: "deposit \<Rightarrow> order" where
  "depositOrderOf r = \<lparr>od_id = dp_id r, od_userId = dp_userId r, od_amount = dp_amount r, od_status = dp_status r\<rparr>"

definition moneyView :: "payment_world \<Rightarrow> money_view" where
  "moneyView w =
     \<lparr>mv_wallets = pw_wallets w, mv_withdrawals = map orderOf (pw_withdrawals w),
      mv_deposits = map depositOrderOf (pw_deposits w),
      mv_events = map me_businessEventId (pw_events w), mv_ledger = pw_ledger w\<rparr>"

lemma orderOf_simps [simp]:
  "od_id (orderOf r) = wd_id r" "od_userId (orderOf r) = wd_userId r" "od_amount (orderOf r) = wd_amount r"
  "od_status (orderOf r) = wd_status r" "od_id (depositOrderOf d) = dp_id d"
  "od_userId (depositOrderOf d) = dp_userId d" "od_amount (depositOrderOf d) = dp_amount d"
  "od_status (depositOrderOf d) = dp_status d"
  by (simp_all add: orderOf_def depositOrderOf_def)

lemma moneyView_simps [simp]:
  "mv_wallets (moneyView w) = pw_wallets w" "mv_withdrawals (moneyView w) = map orderOf (pw_withdrawals w)"
  "mv_deposits (moneyView w) = map depositOrderOf (pw_deposits w)"
  "mv_events (moneyView w) = map me_businessEventId (pw_events w)" "mv_ledger (moneyView w) = pw_ledger w"
  by (simp_all add: moneyView_def)

subsection \<open>What the writes do to it\<close>

named_theorems view_simps

lemma view_logs [view_simps]:
  "moneyView (insertFinanceReview r w) = moneyView w"
  "moneyView (insertPaymentProviderEvent e w) = moneyView w"
  "moneyView (recordSuspiciousActivity u n w) = moneyView w"
  "moneyView (snd (recordReview flow i act rs w)) = moneyView w"
  by (simp_all add: insertFinanceReview_def insertPaymentProviderEvent_def recordSuspiciousActivity_def
      recordReview_def Let_def moneyView_def)

lemma view_settlement: "insertPaymentSettlementEvent e w = Inr w' \<Longrightarrow> moneyView w' = moneyView w"
  by (auto simp: insertPaymentSettlementEvent_def moneyView_def split: if_splits)

lemma view_outbound: "prepareOutbound env flow i p w = Inr w' \<Longrightarrow> moneyView w' = moneyView w"
  by (auto simp: prepareOutbound_def moneyView_def split: if_splits option.splits)

lemma view_updateWithdrawal [view_simps]:
  "moneyView (snd (updateWithdrawal row st m w)) =
     (moneyView w)\<lparr>mv_withdrawals := setOrder (wd_id row) st (mv_withdrawals (moneyView w))\<rparr>"
  by (auto simp: updateWithdrawal_def moneyView_def setOrder_def orderOf_def)

lemma view_updateDeposit [view_simps]:
  "moneyView (snd (updateDepositStatus row st m w)) =
     (moneyView w)\<lparr>mv_deposits := setOrder (dp_id row) st (mv_deposits (moneyView w))\<rparr>"
  by (auto simp: updateDepositStatus_def moneyView_def setOrder_def depositOrderOf_def)

lemma view_updateWallet [view_simps]:
  "moneyView (updateWallet u f w) = onWallet u f (moneyView w)"
  by (simp add: updateWallet_def moneyView_def onWallet_def)

lemma view_writeLedger [view_simps]:
  "moneyView (writeLedger ev t before after w) =
     bookLine (me_businessEventId ev)
       (paymentEntry (me_userId ev) t (me_amount ev) before after (me_orderId ev)) (moneyView w)"
  by (simp add: writeLedger_def applyLedgerMutation_def moneyView_def bookLine_def)

lemma business_events:
  "buildWithdrawalBusinessEventId i Lock_funds = lockEvent i"
  "buildWithdrawalBusinessEventId i Release_locked_funds = releaseEvent i"
  "buildWithdrawalBusinessEventId i Consume_locked_funds = consumeEvent i"
  "buildDepositBusinessEventId i Credit_wallet = creditEvent i"
  "buildDepositBusinessEventId i Reverse_wallet = uncreditEvent i"
  by (simp_all add: buildWithdrawalBusinessEventId_def buildDepositBusinessEventId_def event_defs)

lemma refundEntryType_eq: "refundEntryType st = refundType st"
  by (simp add: refundEntryType_def refundType_def)

lemma selected:
  "selectLockedWithdrawal i w = Some row \<Longrightarrow> row \<in> set (pw_withdrawals w) \<and> wd_id row = i"
  "lockDepositById i w = Some d \<Longrightarrow> d \<in> set (pw_deposits w) \<and> dp_id d = i"
  by (auto simp: selectLockedWithdrawal_def lockDepositById_def find_Some_iff)

lemma selected_order:
  "selectLockedWithdrawal i w = Some row \<Longrightarrow> orderOf row \<in> set (mv_withdrawals (moneyView w))"
  "lockDepositById i w = Some d \<Longrightarrow> depositOrderOf d \<in> set (mv_deposits (moneyView w))"
  by (auto dest: selected)

text \<open>A gate without a second review always confirms.\<close>

lemma gate_confirms:
  "applyDualReviewGate m act target rv req True = Inr rs \<Longrightarrow> dr_confirmed rs"
  by (auto simp: applyDualReviewGate_def Let_def split: option.splits if_splits)

lemma gates_confirm:
  "gate row act target rv note req = Inr rs \<Longrightarrow> dr_confirmed rs"
  "depositGate d act target rv note req = Inr rs \<Longrightarrow> dr_confirmed rs"
  by (auto simp: gate_def depositGate_def dest: gate_confirms)

subsection \<open>Withdrawals\<close>

lemma view_openWithdrawal:
  "moneyView (snd (openWithdrawal renv rq pm w)) =
     request (rv_newId renv) (rq_userId rq) (rq_amount rq) (moneyView w)"
proof -
  have app: "moneyView (w\<lparr>pw_withdrawals := pw_withdrawals w @ [row]\<rparr>) =
      (moneyView w)\<lparr>mv_withdrawals := mv_withdrawals (moneyView w) @ [orderOf row]\<rparr>" for w row
    by (simp add: moneyView_def)
  show ?thesis
    by (simp add: openWithdrawal_def request_def Let_def view_simps app business_events orderOf_def)
qed

lemma createWithdrawal_view:
  assumes "createWithdrawal env renv rq w = (Inr row, w')"
  shows "requestRefusal renv rq w = None \<and>
    moneyView w' = request (rv_newId renv) (rq_userId rq) (rq_amount rq) (moneyView w)"
proof -
  have "createWithdrawalBody env renv rq w = (Inr row, w')"
    using assms by (auto simp: createWithdrawal_def transaction_def split: option.splits prod.splits sum.splits)
  then show ?thesis
    using view_openWithdrawal [of renv rq _ w]
    by (auto simp: createWithdrawalBody_def Let_def view_simps
        split: option.splits prod.splits sum.splits if_splits) (metis snd_conv)+
qed

lemma handToProvider_view:
  assumes "handToProvider act target ev row rv w = Inr (x, w')"
  shows "moneyView w' = (moneyView w)\<lparr>mv_withdrawals := setOrder (wd_id row) target (mv_withdrawals (moneyView w))\<rparr>"
  using assms
  by (auto simp: handToProvider_def recordReview_def updateWithdrawal_def bind_res_Inr_iff Let_def
      insertFinanceReview_def insertPaymentProviderEvent_def moneyView_def setOrder_def orderOf_def)

text \<open>A status change of one withdrawal that moves no money.\<close>

definition statusMove :: "finance_status set \<Rightarrow> finance_status \<Rightarrow> nat \<Rightarrow> payment_world \<Rightarrow> payment_world \<Rightarrow> bool" where
  "statusMove from to i w w' = (\<exists>row. selectLockedWithdrawal i w = Some row \<and> wd_status row \<in> from \<and>
     moneyView w' = (moneyView w)\<lparr>mv_withdrawals := setOrder (wd_id row) to (mv_withdrawals (moneyView w))\<rparr>)"

lemma submitted_view:
  "markWithdrawalProviderSubmitted i rv w = Inr (x, w') \<Longrightarrow>
     w' = w \<or> statusMove {St_approved} St_provider_submitted i w w'"
  unfolding markWithdrawalProviderSubmitted_def statusMove_def
  by (auto split: option.splits if_splits dest!: handToProvider_view)

lemma processing_view:
  "markWithdrawalProviderProcessing i rv w = Inr (x, w') \<Longrightarrow>
     w' = w \<or> statusMove {St_approved, St_provider_submitted} St_provider_processing i w w'"
  unfolding markWithdrawalProviderProcessing_def statusMove_def
  by (auto split: option.splits if_splits dest!: handToProvider_view)

lemma providerFailure_view:
  assumes "markWithdrawalProviderFailure row rs m w = Inr (x, w')"
  shows "moneyView w' =
    (moneyView w)\<lparr>mv_withdrawals := setOrder (wd_id row) St_provider_failed (mv_withdrawals (moneyView w))\<rparr>"
  using assms
  by (auto simp: markWithdrawalProviderFailure_def Let_def bind_res_Inr_iff split_def view_simps
      dest!: view_settlement)

lemma failed_view:
  assumes "markWithdrawalProviderFailed i rv w = Inr (x, w')"
  shows "w' = w \<or>
    statusMove {St_approved, St_provider_submitted, St_provider_processing} St_provider_failed i w w'"
  using assms
  by (auto simp: markWithdrawalProviderFailed_def bind_res_Inr_iff split_def statusMove_def view_simps
      split: option.splits if_splits dest!: gates_confirm(1) providerFailure_view)

lemma approve_view:
  assumes "approveWithdrawal env i rv w = Inr (x, w')"
  shows "w' = w \<or> statusMove {St_requested} St_approved i w w' \<or> statusMove {St_requested} St_requested i w w'"
proof (cases "selectLockedWithdrawal i w")
  case (Some row)
  show ?thesis
  proof (cases "wd_status row = St_requested")
    case True
    with Some assms show ?thesis
      by (auto simp: approveWithdrawal_def Let_def bind_res_Inr_iff split_def statusMove_def view_simps
          split: option.splits if_splits dest!: view_outbound)
  qed (use Some assms in \<open>simp add: approveWithdrawal_def\<close>)
qed (use assms in \<open>simp add: approveWithdrawal_def\<close>)

text \<open>Giving the money back, and paying it out.\<close>

definition refundMove :: "finance_status set \<Rightarrow> finance_status \<Rightarrow> nat \<Rightarrow> payment_world \<Rightarrow> payment_world \<Rightarrow> bool" where
  "refundMove from to i w w' = (\<exists>row. selectLockedWithdrawal i w = Some row \<and> wd_status row \<in> from \<and>
     moneyView w' = release (orderOf row) to (moneyView w))"

lemma refundWithdrawal_view:
  assumes "refundWithdrawal row rv rs m st w = Inr (x, w')"
  shows "moneyView w' = release (orderOf row) st (moneyView w)"
  using assms
  by (auto simp: refundWithdrawal_def release_def Let_def bind_res_Inr_iff split_def view_simps
      business_events refundEntryType_eq onWallet_def dest!: view_settlement)

lemma refundStep_view:
  assumes "refundStep env act st note req row rv w = Inr (x, w')"
  shows "moneyView w' = release (orderOf row) st (moneyView w)"
  using assms
  by (auto simp: refundStep_def bind_res_Inr_iff split_def view_simps
      split: if_splits dest!: gates_confirm(1) refundWithdrawal_view)

lemma reject_view:
  "rejectWithdrawal env i rv w = Inr (x, w') \<Longrightarrow>
     w' = w \<or> refundMove {St_requested, St_approved} St_rejected i w w'"
  unfolding rejectWithdrawal_def refundMove_def
  by (auto split: option.splits if_splits dest!: refundStep_view)

lemma reverse_view:
  "reverseWithdrawal env i rv w = Inr (x, w') \<Longrightarrow>
     w' = w \<or> refundMove {St_requested, St_approved, St_provider_submitted, St_provider_processing,
       St_provider_failed, St_paid} St_reversed i w w'"
  unfolding reverseWithdrawal_def refundMove_def
  by (auto split: option.splits if_splits dest!: refundStep_view)

lemma payOut_view:
  assumes "payOutWithdrawal row rv rs m channel w = Inr (x, w')"
  shows "wd_amount row \<le> wl_locked (pw_wallets w (wd_userId row)) \<and>
    moneyView w' = consume (orderOf row) (moneyView w)"
  using assms
  by (auto simp: payOutWithdrawal_def consume_def Let_def bind_res_Inr_iff split_def view_simps
      business_events onWallet_def split: if_splits dest!: view_settlement)

lemma wallets_recordReview [simp]: "pw_wallets (snd (recordReview flow i act rs w)) = pw_wallets w"
  by (simp add: recordReview_def insertFinanceReview_def Let_def)

definition payMove :: "nat \<Rightarrow> payment_world \<Rightarrow> payment_world \<Rightarrow> bool" where
  "payMove i w w' = (\<exists>row. selectLockedWithdrawal i w = Some row \<and> wd_status row = St_provider_processing \<and>
     wd_amount row \<le> wl_locked (pw_wallets w (wd_userId row)) \<and>
     moneyView w' = consume (orderOf row) (moneyView w))"

lemma pay_view:
  assumes "payWithdrawal env i rv w = Inr (x, w')"
  shows "w' = w \<or> payMove i w w'"
  using assms
  by (auto simp: payWithdrawal_def bind_res_Inr_iff split_def payMove_def view_simps
      split: option.splits if_splits dest!: gates_confirm(1) payOut_view)

subsection \<open>Deposits\<close>

definition depositMove :: "finance_status \<Rightarrow> nat \<Rightarrow> payment_world \<Rightarrow> payment_world \<Rightarrow> bool" where
  "depositMove to i w w' = (\<exists>row. lockDepositById i w = Some row \<and>
     hasTransition depositTransitions (dp_status row) to \<and> dp_status row \<noteq> St_credited \<and>
     moneyView w' = (moneyView w)\<lparr>mv_deposits := setOrder (dp_id row) to (mv_deposits (moneyView w))\<rparr>)"

lemma assertTransition_Inr: "assertTransition g f a b = Inr u \<longleftrightarrow> hasTransition g a b"
  by (auto simp: assertTransition_def)

lemma transitionDeposit_view:
  assumes "transitionDepositStatus row to ev rs m c w = Inr (x, w')" and "dp_status row \<noteq> to"
  shows "hasTransition depositTransitions (dp_status row) to \<and>
    moneyView w' = (moneyView w)\<lparr>mv_deposits := setOrder (dp_id row) to (mv_deposits (moneyView w))\<rparr>"
  using assms
  by (auto simp: transitionDepositStatus_def appendDepositWorkflowMetadata_def appendDepositStateTransition_def
      appendStateTransition_def assertTransition_Inr bind_res_Inr_iff
      dest!: arg_cong [where f = snd]) (simp add: view_simps)

lemma recordDepositReview_Inr:
  assumes "recordDepositReviewAttempt row act rs w cont = Inr (x, w')" and "dr_confirmed rs"
  shows "cont (fst (recordReview DepositOrder (dp_id row) act rs w))
    (snd (recordReview DepositOrder (dp_id row) act rs w)) = Inr (x, w')"
  using assms by (simp add: recordDepositReviewAttempt_def split_def)

lemma someRow_Inr: "someRow r = Inr (x, w') \<longleftrightarrow> (\<exists>row. r = Inr (row, w') \<and> x = Some row)"
  by (auto simp: someRow_def bind_res_Inr_iff split_def)

lemmas deposit_Inr = bind_res_Inr_iff Let_def someRow_Inr

lemma pending_view:
  "markDepositProviderPending i rv w = Inr (x, w') \<Longrightarrow> w' = w \<or> depositMove St_provider_pending i w w'"
  by (auto simp: markDepositProviderPending_def depositMove_def deposit_Inr view_simps
      split: option.splits if_splits
      dest!: recordDepositReview_Inr [OF _ gates_confirm(2)] transitionDeposit_view)

lemma succeeded_view:
  "markDepositProviderSucceeded i rv w = Inr (x, w') \<Longrightarrow> w' = w \<or> depositMove St_provider_succeeded i w w'"
  by (auto simp: markDepositProviderSucceeded_def depositMove_def deposit_Inr view_simps
      split: option.splits if_splits
      dest!: recordDepositReview_Inr [OF _ gates_confirm(2)] transitionDeposit_view view_settlement)

lemma failDeposit_view:
  "failDeposit i rv w = Inr (x, w') \<Longrightarrow> w' = w \<or> depositMove St_provider_failed i w w'"
  by (auto simp: failDeposit_def depositMove_def deposit_Inr view_simps
      split: option.splits if_splits
      dest!: recordDepositReview_Inr [OF _ gates_confirm(2)] transitionDeposit_view view_settlement)

definition creditMove :: "nat \<Rightarrow> payment_world \<Rightarrow> payment_world \<Rightarrow> bool" where
  "creditMove i w w' = (\<exists>row. lockDepositById i w = Some row \<and> dp_status row = St_provider_succeeded \<and>
     moneyView w' = credit (depositOrderOf row) (moneyView w))"

lemma creditRecord_view:
  assumes "creditDepositRecord row rv w = Inr (x, w')"
  shows "w' = w \<or> dp_status row = St_provider_succeeded \<and>
    moneyView w' = credit (depositOrderOf row) (moneyView w)"
  using assms
  by (auto simp: creditDepositRecord_def deposit_Inr credit_def view_simps business_events onWallet_def split_def
      split: if_splits
      dest!: recordDepositReview_Inr [OF _ gates_confirm(2)] transitionDeposit_view view_settlement)

lemma creditDeposit_view:
  "creditDeposit env i rv w = Inr (x, w') \<Longrightarrow> w' = w \<or> creditMove i w w'"
  by (auto simp: creditDeposit_def creditMove_def bind_res_Inr_iff split_def split: option.splits
      dest!: creditRecord_view)

definition uncreditMove :: "nat \<Rightarrow> payment_world \<Rightarrow> payment_world \<Rightarrow> bool" where
  "uncreditMove i w w' = (\<exists>row. lockDepositById i w = Some row \<and> dp_status row = St_credited \<and>
     dp_amount row \<le> wl_withdrawable (pw_wallets w (dp_userId row)) \<and>
     moneyView w' = uncredit (depositOrderOf row) (moneyView w))"

lemma reverseCredited_view:
  assumes "reverseCredited env row rv rs m w = Inr (x, w')" and "dp_status row = St_credited"
  shows "dp_amount row \<le> wl_withdrawable (pw_wallets w (dp_userId row)) \<and>
    moneyView w' = uncredit (depositOrderOf row) (moneyView w)"
  using assms
  by (auto simp: reverseCredited_def deposit_Inr uncredit_def view_simps business_events onWallet_def split_def
      split: if_splits dest!: transitionDeposit_view)

lemma settlement_wallets:
  "insertPaymentSettlementEvent e w = Inr w' \<Longrightarrow> moneyView w' = moneyView w \<and> pw_wallets w' = pw_wallets w"
  using view_settlement by (auto simp: insertPaymentSettlementEvent_def split: if_splits)

lemma reverseDeposit_view:
  assumes "reverseDeposit env i rv w = Inr (x, w')"
  shows "w' = w \<or> depositMove St_reversed i w w' \<or> uncreditMove i w w'"
  using assms
  by (auto simp: reverseDeposit_def depositMove_def uncreditMove_def deposit_Inr view_simps
      split: option.splits if_splits
      dest!: recordDepositReview_Inr [OF _ gates_confirm(2)] transitionDeposit_view reverseCredited_view
        settlement_wallets)

end
