(* ===== verification/Payment_Run.thy ===== *)
theory Payment_Run
  imports Payment_Refine
begin

text \<open>
  Runs of the payment services from an empty database, and what holds in all of them.  New
  ids are the database's, so they are new.  Other components take part by moves that keep
  their money in step with the ledger (\<open>foreignMove\<close>).  Reversing a withdrawal that is paid
  is left out of the runs; the last part of the development shows what it does.
\<close>

definition emptyWorld :: payment_world where
  "emptyWorld = \<lparr>pw_wallets = (\<lambda>_. zeroWallet), pw_withdrawals = [], pw_deposits = [], pw_events = [],
     pw_ledger = [], pw_reviews = [], pw_providerEvents = [], pw_settlements = [], pw_outbound = [],
     pw_suspicionScore = (\<lambda>_. 0)\<rparr>"

lemma view_emptyWorld [simp]: "moneyView emptyWorld = emptyView"
  by (simp add: emptyWorld_def emptyView_def moneyView_def)

inductive payStep :: "payment_world \<Rightarrow> payment_world \<Rightarrow> bool" where
  create: "createWithdrawal env renv rq w = (Inr row, w') \<Longrightarrow>
    rv_newId renv \<notin> wd_id ` set (pw_withdrawals w) \<Longrightarrow> payStep w w'"
| approve: "approveWithdrawal env i rv w = Inr (x, w') \<Longrightarrow> payStep w w'"
| submit: "markWithdrawalProviderSubmitted i rv w = Inr (x, w') \<Longrightarrow> payStep w w'"
| process: "markWithdrawalProviderProcessing i rv w = Inr (x, w') \<Longrightarrow> payStep w w'"
| fail: "markWithdrawalProviderFailed i rv w = Inr (x, w') \<Longrightarrow> payStep w w'"
| reject: "rejectWithdrawal env i rv w = Inr (x, w') \<Longrightarrow> payStep w w'"
| reverse: "reverseWithdrawal env i rv w = Inr (x, w') \<Longrightarrow>
    map_option wd_status (selectLockedWithdrawal i w) \<noteq> Some St_paid \<Longrightarrow> payStep w w'"
| pay: "payWithdrawal env i rv w = Inr (x, w') \<Longrightarrow> payStep w w'"
| createDeposit: "createTopUp env denv dq w = Inr (d, w') \<Longrightarrow>
    dv_newId denv \<notin> dp_id ` set (pw_deposits w) \<Longrightarrow> payStep w w'"
| depositPending: "markDepositProviderPending i rv w = Inr (y, w') \<Longrightarrow> payStep w w'"
| depositSucceeded: "markDepositProviderSucceeded i rv w = Inr (y, w') \<Longrightarrow> payStep w w'"
| depositCredit: "creditDeposit env i rv w = Inr (y, w') \<Longrightarrow> payStep w w'"
| depositFail: "failDeposit i rv w = Inr (y, w') \<Longrightarrow> payStep w w'"
| depositReverse: "reverseDeposit env i rv w = Inr (y, w') \<Longrightarrow> payStep w w'"
| other: "foreignMove u wl es (moneyView w) \<Longrightarrow>
    payStep w (w\<lparr>pw_wallets := (pw_wallets w)(u := wl), pw_ledger := pw_ledger w @ es\<rparr>)"

inductive payRun :: "payment_world \<Rightarrow> payment_world \<Rightarrow> bool" where
  start: "payRun w w"
| step: "payRun w w' \<Longrightarrow> payStep w' w'' \<Longrightarrow> payRun w w''"

subsection \<open>The simulation\<close>

lemma setOrder_same: "ordersOk rs \<Longrightarrow> r \<in> set rs \<Longrightarrow> setOrder (od_id r) (od_status r) rs = rs"
proof -
  assume "ordersOk rs" "r \<in> set rs"
  then have "(if od_id x = od_id r then x\<lparr>od_status := od_status r\<rparr> else x) = x" if "x \<in> set rs" for x
    using same_order [of rs x r] that by (auto simp: ordersOk_def)
  then show ?thesis by (simp add: setOrder_def map_idI)
qed

lemma statusMove_step:
  assumes "statusMove from to i w w'" and "\<forall>s \<in> from. withdrawalMove s to \<and> isOpen s" and "isOpen to"
  shows "moneyStep (moneyView w) (moneyView w')"
proof -
  obtain row where row: "selectLockedWithdrawal i w = Some row" "wd_status row \<in> from"
    and view: "moneyView w' = (moneyView w)\<lparr>mv_withdrawals := setOrder (wd_id row) to (mv_withdrawals (moneyView w))\<rparr>"
    using assms(1) by (auto simp: statusMove_def)
  show ?thesis
    using moneyStep.moved [OF selected_order(1) [OF row(1)], of to] assms(2,3) row(2)
    unfolding view by simp
qed

lemma statusMove_same:
  assumes "statusMove {st} st i w w'" and "moneyOk (moneyView w)"
  shows "moneyView w' = moneyView w"
proof -
  obtain row where row: "selectLockedWithdrawal i w = Some row" "wd_status row = st"
    and view: "moneyView w' = (moneyView w)\<lparr>mv_withdrawals := setOrder (wd_id row) st (mv_withdrawals (moneyView w))\<rparr>"
    using assms(1) by (auto simp: statusMove_def)
  have "setOrder (wd_id row) st (mv_withdrawals (moneyView w)) = mv_withdrawals (moneyView w)"
    using setOrder_same [OF _ selected_order(1) [OF row(1)]] assms(2) row(2) by (simp add: moneyOk_def)
  then show ?thesis unfolding view by simp
qed

lemma refundMove_step:
  assumes "refundMove from to i w w'" and "to \<in> {St_rejected, St_reversed}"
    and "\<forall>s \<in> from. s \<noteq> St_paid \<longrightarrow> withdrawalMove s to \<and> isOpen s"
    and "map_option wd_status (selectLockedWithdrawal i w) \<noteq> Some St_paid"
  shows "moneyStep (moneyView w) (moneyView w')"
proof -
  obtain row where row: "selectLockedWithdrawal i w = Some row" "wd_status row \<in> from"
    and view: "moneyView w' = release (orderOf row) to (moneyView w)"
    using assms(1) by (auto simp: refundMove_def)
  show ?thesis
    using moneyStep.released [OF selected_order(1) [OF row(1)], of to] assms(2-4) row unfolding view by simp
qed

lemma depositMove_step:
  assumes "depositMove to i w w'" and "to \<noteq> St_credited"
  shows "moneyStep (moneyView w) (moneyView w')"
proof -
  obtain row where row: "lockDepositById i w = Some row"
    "hasTransition depositTransitions (dp_status row) to" "dp_status row \<noteq> St_credited"
    and view: "moneyView w' = (moneyView w)\<lparr>mv_deposits := setOrder (dp_id row) to (mv_deposits (moneyView w))\<rparr>"
    using assms(1) by (auto simp: depositMove_def)
  show ?thesis
    using moneyStep.depositMoved [OF selected_order(2) [OF row(1)], of to] assms(2) row(2,3) unfolding view by simp
qed

lemma createTopUp_view:
  assumes "createTopUp env denv dq w = Inr (d, w')"
  shows "0 < dq_amount dq \<and> moneyView w' = (moneyView w)\<lparr>mv_deposits := mv_deposits (moneyView w) @
    [\<lparr>od_id = dv_newId denv, od_userId = dq_userId dq, od_amount = dq_amount dq, od_status = St_requested\<rparr>]\<rparr>"
proof -
  have app: "moneyView (w\<lparr>pw_deposits := pw_deposits w @ [row]\<rparr>) =
      (moneyView w)\<lparr>mv_deposits := mv_deposits (moneyView w) @ [depositOrderOf row]\<rparr>" for row
    by (simp add: moneyView_def)
  show ?thesis
    using assms
    by (auto simp: createTopUp_def bind_res_Inr_iff Let_def app depositOrderOf_def
        split: option.splits if_splits dest!: view_outbound)
qed

lemmas withdrawal_moves =
  withdrawalMove_def hasTransition_def nextStatuses_def withdrawalTransitions_def isOpen_def

lemma payStep_simulated:
  assumes "payStep w w'" and "moneyOk (moneyView w)"
  shows "moneyStep (moneyView w) (moneyView w')"
  using assms
proof (induction rule: payStep.induct)
  case (create env renv rq w row w')
  have "requestRefusal renv rq w = None" "moneyView w' =
      request (rv_newId renv) (rq_userId rq) (rq_amount rq) (moneyView w)"
    using createWithdrawal_view [OF create(1)] by auto
  moreover from this(1) have "0 < rq_amount rq" "rq_amount rq \<le> wl_withdrawable (pw_wallets w (rq_userId rq))"
    by (auto simp: requestRefusal_def Let_def split: if_splits option.splits)
  ultimately show ?case
    using moneyStep.requested [of "rv_newId renv" "moneyView w" "rq_amount rq" "rq_userId rq"] create(2)
    by (auto simp: image_image)
next
  case (approve env i rv w x w')
  then show ?case
    using approve_view [OF approve(1)] statusMove_step [of _ St_approved i w w'] statusMove_same [of St_requested i w w']
    by (auto simp: withdrawal_moves intro: moneyStep.stay)
next
  case (submit i rv w x w')
  then show ?case
    using submitted_view [OF submit(1)] statusMove_step [of _ St_provider_submitted i w w']
    by (auto simp: withdrawal_moves intro: moneyStep.stay)
next
  case (process i rv w x w')
  then show ?case
    using processing_view [OF process(1)] statusMove_step [of _ St_provider_processing i w w']
    by (auto simp: withdrawal_moves intro: moneyStep.stay)
next
  case (fail i rv w x w')
  then show ?case
    using failed_view [OF fail(1)] statusMove_step [of _ St_provider_failed i w w']
    by (auto simp: withdrawal_moves intro: moneyStep.stay)
next
  case (reject env i rv w x w')
  have "map_option wd_status (selectLockedWithdrawal i w) \<noteq> Some St_paid"
    if "refundMove {St_requested, St_approved} St_rejected i w w'"
    using that by (auto simp: refundMove_def)
  then show ?case
    using reject_view [OF reject(1)] refundMove_step [of _ St_rejected i w w']
    by (auto simp: withdrawal_moves intro: moneyStep.stay)
next
  case (reverse env i rv w x w')
  then show ?case
    using reverse_view [OF reverse(1)] refundMove_step [of _ St_reversed i w w']
    by (auto simp: withdrawal_moves intro: moneyStep.stay)
next
  case (pay env i rv w x w')
  then show ?case
    using pay_view [OF pay(1)] moneyStep.consumed [of _ "moneyView w"]
    by (auto simp: payMove_def intro: moneyStep.stay dest!: selected_order(1))
next
  case (createDeposit env denv dq w d w')
  then show ?case
    using createTopUp_view [OF createDeposit(1)]
      moneyStep.topUp [of "dv_newId denv" "moneyView w" "dq_amount dq" "dq_userId dq"]
    by (auto simp: image_image)
next
  case (depositPending i rv w y w')
  then show ?case
    using pending_view [OF depositPending(1)] depositMove_step [of _ i w w'] by (auto intro: moneyStep.stay)
next
  case (depositSucceeded i rv w y w')
  then show ?case
    using succeeded_view [OF depositSucceeded(1)] depositMove_step [of _ i w w'] by (auto intro: moneyStep.stay)
next
  case (depositCredit env i rv w y w')
  then show ?case
    using creditDeposit_view [OF depositCredit(1)] moneyStep.credited [of _ "moneyView w"]
    by (auto simp: creditMove_def intro: moneyStep.stay dest!: selected_order(2))
next
  case (depositFail i rv w y w')
  then show ?case
    using failDeposit_view [OF depositFail(1)] depositMove_step [of _ i w w'] by (auto intro: moneyStep.stay)
next
  case (depositReverse env i rv w y w')
  then show ?case
    using reverseDeposit_view [OF depositReverse(1)] depositMove_step [of St_reversed i w w']
      moneyStep.uncredited [of _ "moneyView w"]
    by (auto simp: uncreditMove_def intro: moneyStep.stay dest!: selected_order(2))
next
  case (other u wl es w)
  then show ?case using moneyStep.foreign [OF other(1)] by (simp add: moneyView_def)
qed

lemma payRun_simulated:
  "payRun w w' \<Longrightarrow> moneyOk (moneyView w) \<Longrightarrow> moneyRun (moneyView w) (moneyView w') \<and> moneyOk (moneyView w')"
  by (induction rule: payRun.induct)
    (auto intro: moneyRun.intros payStep_simulated moneyStep_ok)

lemma payRun_ok: "payRun emptyWorld w \<Longrightarrow> moneyOk (moneyView w)"
  using payRun_simulated moneyOk_empty by simp

subsection \<open>Sequences of requests\<close>

text \<open>
  The operations as data, so that a sequence of requests can be evaluated: what each makes
  of the database, or \<open>None\<close> when it is refused.
\<close>

datatype pay_command =
    CreateWithdrawal request_env withdrawal_request
  | Approve nat finance_review
  | Submit nat finance_review
  | Process nat finance_review
  | FailWithdrawal nat finance_review
  | Reject nat finance_review
  | Reverse nat finance_review
  | Pay nat finance_review
  | TopUp deposit_env deposit_request
  | DepositPending nat finance_review
  | DepositSucceeded nat finance_review
  | CreditDeposit nat finance_review
  | FailDeposit nat finance_review
  | ReverseDeposit nat finance_review

definition committed :: "('a \<times> payment_world) res \<Rightarrow> payment_world option" where
  "committed r = (case r of Inl _ \<Rightarrow> None | Inr (_, w) \<Rightarrow> Some w)"

fun perform :: "payment_env \<Rightarrow> pay_command \<Rightarrow> payment_world \<Rightarrow> payment_world option" where
  "perform env (CreateWithdrawal renv rq) w =
     (case createWithdrawal env renv rq w of
        (Inl _, _) \<Rightarrow> None
      | (Inr _, w') \<Rightarrow> if rv_newId renv \<in> set (map wd_id (pw_withdrawals w)) then None else Some w')"
| "perform env (Approve i rv) w = committed (approveWithdrawal env i rv w)"
| "perform env (Submit i rv) w = committed (markWithdrawalProviderSubmitted i rv w)"
| "perform env (Process i rv) w = committed (markWithdrawalProviderProcessing i rv w)"
| "perform env (FailWithdrawal i rv) w = committed (markWithdrawalProviderFailed i rv w)"
| "perform env (Reject i rv) w = committed (rejectWithdrawal env i rv w)"
| "perform env (Reverse i rv) w =
     (if map_option wd_status (selectLockedWithdrawal i w) = Some St_paid then None
      else committed (reverseWithdrawal env i rv w))"
| "perform env (Pay i rv) w = committed (payWithdrawal env i rv w)"
| "perform env (TopUp denv dq) w =
     (if dv_newId denv \<in> set (map dp_id (pw_deposits w)) then None else committed (createTopUp env denv dq w))"
| "perform env (DepositPending i rv) w = committed (markDepositProviderPending i rv w)"
| "perform env (DepositSucceeded i rv) w = committed (markDepositProviderSucceeded i rv w)"
| "perform env (CreditDeposit i rv) w = committed (creditDeposit env i rv w)"
| "perform env (FailDeposit i rv) w = committed (failDeposit i rv w)"
| "perform env (ReverseDeposit i rv) w = committed (reverseDeposit env i rv w)"

fun performAll :: "payment_env \<Rightarrow> pay_command list \<Rightarrow> payment_world \<Rightarrow> payment_world option" where
  "performAll env [] w = Some w"
| "performAll env (c # cs) w =
     (case perform env c w of None \<Rightarrow> None | Some w' \<Rightarrow> performAll env cs w')"

lemma committed_Some: "committed r = Some w \<longleftrightarrow> (\<exists>x. r = Inr (x, w))"
  by (auto simp: committed_def split: sum.splits)

lemma perform_payStep: "perform env c w = Some w' \<Longrightarrow> payStep w w'"
  by (cases c) (auto simp: committed_Some image_iff split: prod.splits sum.splits if_splits intro: payStep.intros)

lemma payRun_snoc: "payStep w w' \<Longrightarrow> payRun w' w'' \<Longrightarrow> payRun w w''"
  by (rotate_tac, induction rule: payRun.induct) (auto intro: payRun.intros)

lemma performAll_payRun: "performAll env cs w = Some w' \<Longrightarrow> payRun w w'"
  by (induction cs arbitrary: w) (auto intro: payRun.start payRun_snoc perform_payStep split: option.splits)

subsection \<open>A run to look at\<close>

definition blankMeta :: finance_meta where
  "blankMeta = \<lparr>fm_processingMode = None, fm_financeState = None, fm_financeCurrentStatus = None,
     fm_semanticStatus = None, fm_providerStatus = None, fm_settlementStatus = None, fm_ledgerWritten = False,
     fm_ledgerEntryTypes = [], fm_ledgerState = Not_written, fm_failureReason = None,
     fm_manualFallbackStatus = None, fm_manualFallbackResolved = False, fm_stateLatest = None,
     fm_stateTrail = [], fm_pendingReview = None, fm_pendingReviewCount = 0, fm_reviewLatest = None,
     fm_reviewTrail = [], fm_reviewerAdminIds = [],
     fm_control = \<lparr>wc_approvalsRequired = None, wc_approvalsCollected = None, wc_approvalState = None,
       wc_manualChannelRequired = False, wc_manualChannelUsed = None, wc_riskSignals = []\<rparr>\<rparr>"

definition sampleEnv :: payment_env where
  "sampleEnv = \<lparr>pe_strict = True, pe_outbound = (\<lambda>_ _. None)\<rparr>"

definition sampleReview :: "nat \<Rightarrow> string \<Rightarrow> finance_review" where
  "sampleReview admin ref = \<lparr>fr_adminId = Some admin, fr_operatorNote = Some ''checked'',
     fr_settlementReference = Some ref, fr_processingChannel = Some ''manual desk'',
     fr_sourceType = None, fr_sourceEventKey = None\<rparr>"

definition sampleDepositEnv :: "nat \<Rightarrow> deposit_env" where
  "sampleDepositEnv i = \<lparr>dv_amlScreen = None, dv_depositEnabled = True, dv_minDepositAmount = 0,
     dv_maxDepositAmount = 0, dv_processingMode = ''manual'', dv_manualFallbackRequired = True,
     dv_providerId = None, dv_newId = i\<rparr>"

definition sampleRequestEnv :: "nat \<Rightarrow> request_env" where
  "sampleRequestEnv i = \<lparr>rv_config = \<lparr>cf_withdrawEnabled = True, cf_minWithdrawAmount = 100,
       cf_maxWithdrawAmount = 0, cf_maxPerDay = 0, cf_minWagerBeforeWithdraw = 0,
       cf_secondApprovalThreshold = 5000, cf_newCardReviewEnabled = True, cf_sharedIpUserThreshold = 2,
       cf_sharedDeviceUserThreshold = 2, cf_sharedPayoutUserThreshold = 2\<rparr>,
     rv_amlScreen = None, rv_kyc = (\<lambda>_ _. None), rv_payoutMethods = (\<lambda>_ _. None),
     rv_counts = \<lparr>ct_ipDevices = 0, ct_ipSessions = 0, ct_fingerprintDevices = 0, ct_agentSessions = 0,
       ct_bankAccounts = 0, ct_cryptoAddresses = 0\<rparr>,
     rv_processingMode = ''manual'', rv_manualFallbackRequired = True, rv_providerId = None, rv_now = 0,
     rv_startOfDay = 0, rv_newId = i\<rparr>"

definition sampleRequest :: "cents \<Rightarrow> withdrawal_request" where
  "sampleRequest a = \<lparr>rq_userId = 5, rq_amount = a, rq_payoutMethodId = None, rq_metadata = blankMeta,
     rq_ip = None, rq_userAgent = None, rq_deviceFingerprint = None\<rparr>"

text \<open>
  User 5 deposits 200.00, asks for 60.00 and 70.00 (above the threshold, so two
  administrators approve), and both are taken to the provider.
\<close>

definition toProcessing :: "nat \<Rightarrow> string \<Rightarrow> pay_command list" where
  "toProcessing i ref =
     [Approve i (sampleReview 1 ref), Approve i (sampleReview 2 ref), Submit i (sampleReview 1 ref),
      Process i (sampleReview 1 ref)]"

definition sampleCommands :: "pay_command list" where
  "sampleCommands =
     [TopUp (sampleDepositEnv 7) \<lparr>dq_userId = 5, dq_amount = 20000, dq_metadata = blankMeta\<rparr>,
      DepositPending 7 (sampleReview 1 ''d''), DepositSucceeded 7 (sampleReview 1 ''d''),
      CreditDeposit 7 (sampleReview 1 ''d''),
      CreateWithdrawal (sampleRequestEnv 8) (sampleRequest 6000),
      CreateWithdrawal (sampleRequestEnv 9) (sampleRequest 7000)] @
     toProcessing 8 ''r8'' @ toProcessing 9 ''r9''"

definition sampleWorld :: payment_world where
  "sampleWorld = the (performAll sampleEnv sampleCommands emptyWorld)"

end
