(* ===== verification/Payment_Approvals.thy ===== *)
theory Payment_Approvals
  imports Payment_Run
begin

text \<open>
  Who has seen a withdrawal: the rows and the review log through every operation, and the
  invariant that a withdrawal which wants two approvals has a maker and a checker before it
  leaves \<open>requested\<close>.
\<close>

subsection \<open>The rows and the review log\<close>

definition reviewView :: "payment_world \<Rightarrow> withdrawal list \<times> review_row list" where
  "reviewView w = (pw_withdrawals w, pw_reviews w)"

named_theorems row_simps

lemma reviewView_eq:
  "reviewView w' = reviewView w \<Longrightarrow> pw_withdrawals w' = pw_withdrawals w \<and> pw_reviews w' = pw_reviews w"
  by (simp add: reviewView_def)

lemma row_writes [row_simps]:
  "pw_withdrawals (insertFinanceReview r w) = pw_withdrawals w"
  "pw_reviews (insertFinanceReview r w) = pw_reviews w @ [r]"
  "reviewView (insertPaymentProviderEvent e w) = reviewView w"
  "pw_withdrawals (insertPaymentProviderEvent e w) = pw_withdrawals w"
  "pw_reviews (insertPaymentProviderEvent e w) = pw_reviews w"
  "pw_withdrawals (recordSuspiciousActivity u n w) = pw_withdrawals w"
  "pw_reviews (recordSuspiciousActivity u n w) = pw_reviews w"
  "pw_withdrawals (updateWallet u f w) = pw_withdrawals w" "pw_reviews (updateWallet u f w) = pw_reviews w"
  "pw_withdrawals (snd (updateDepositStatus d st m w)) = pw_withdrawals w"
  "pw_reviews (snd (updateDepositStatus d st m w)) = pw_reviews w"
  "pw_reviews (snd (updateWithdrawal row st m w)) = pw_reviews w"
  "pw_withdrawals (writeLedger ev t before after w) = pw_withdrawals w"
  "pw_reviews (writeLedger ev t before after w) = pw_reviews w"
  "pw_withdrawals (snd (recordReview flow i act rs w)) = pw_withdrawals w"
  by (simp_all add: insertFinanceReview_def insertPaymentProviderEvent_def recordSuspiciousActivity_def
      updateWallet_def updateDepositStatus_def updateWithdrawal_def writeLedger_def applyLedgerMutation_def
      recordReview_def Let_def reviewView_def)

lemma rows_settlement:
  "insertPaymentSettlementEvent e w = Inr w' \<Longrightarrow> pw_withdrawals w' = pw_withdrawals w \<and> pw_reviews w' = pw_reviews w"
  by (auto simp: insertPaymentSettlementEvent_def split: if_splits)

lemma rows_outbound:
  "prepareOutbound env flow i p w = Inr w' \<Longrightarrow> pw_withdrawals w' = pw_withdrawals w \<and> pw_reviews w' = pw_reviews w"
  by (auto simp: prepareOutbound_def split: if_splits option.splits)

lemma reviews_recordReview:
  "set (pw_reviews w) \<subseteq> set (pw_reviews (snd (recordReview flow i act rs w)))"
  by (auto simp: recordReview_def Let_def row_simps)

definition setRow :: "nat \<Rightarrow> finance_status \<Rightarrow> finance_meta \<Rightarrow> withdrawal list \<Rightarrow> withdrawal list" where
  "setRow i st m = map (\<lambda>r. if wd_id r = i then r\<lparr>wd_status := st, wd_metadata := m\<rparr> else r)"

lemma rows_updateWithdrawal [row_simps]:
  "pw_withdrawals (snd (updateWithdrawal row st m w)) = setRow (wd_id row) st m (pw_withdrawals w)"
  by (simp add: updateWithdrawal_def setRow_def)

subsection \<open>Metadata\<close>

lemma meta_simps [simp]:
  "fm_pendingReview (appendFinanceStateMetadata m flow st c) = None"
  "fm_control (appendFinanceStateMetadata m flow st c) = fm_control m"
  "fm_control (appendFinanceReviewMetadata m act stg eff) = fm_control m"
  "fm_pendingReview (appendFinanceReviewMetadata m act stg eff) = fm_pendingReview m"
  "fm_control (clearPending m) = fm_control m" "fm_pendingReview (clearPending m) = None"
  "fm_control (mergeWithdrawalControl m f) = f (fm_control m)"
  "fm_pendingReview (mergeWithdrawalControl m f) = fm_pendingReview m"
  "wc_approvalsRequired (setApproval s k) = wc_approvalsRequired k"
  "fm_control (withPaymentProcessingMetadata m mode b) = fm_control m"
  by (simp_all add: appendFinanceStateMetadata_def appendFinanceReviewMetadata_def clearPending_def Let_def
      mergeWithdrawalControl_def setApproval_def withPaymentProcessingMetadata_def)

lemma meta_recordReview [simp]:
  "fm_control (fst (recordReview flow i act rs w)) = fm_control (dr_metadata rs)"
  "fm_pendingReview (fst (recordReview flow i act rs w)) = fm_pendingReview (dr_metadata rs)"
  by (simp_all add: recordReview_def Let_def)

lemma gate_control:
  "applyDualReviewGate m act target rv req by = Inr rs \<Longrightarrow> fm_control (dr_metadata rs) = fm_control m"
  by (auto simp: applyDualReviewGate_def Let_def confirmReview_def openReview_def split: option.splits if_splits)

lemma gate_meta:
  "gate row act target rv note req = Inr rs \<Longrightarrow>
     dr_confirmed rs \<and> fm_control (dr_metadata rs) = fm_control (wd_metadata row)"
  using gates_confirm(1) by (auto simp: gate_def dest: gate_control)

subsection \<open>Moves of a row\<close>

definition sameRows :: "payment_world \<Rightarrow> payment_world \<Rightarrow> bool" where
  "sameRows w w' = (pw_withdrawals w' = pw_withdrawals w \<and> set (pw_reviews w) \<subseteq> set (pw_reviews w'))"

definition rowMove :: "finance_status set \<Rightarrow> finance_status \<Rightarrow> nat \<Rightarrow> payment_world \<Rightarrow> payment_world \<Rightarrow> bool" where
  "rowMove S to i w w' = (\<exists>row m. selectLockedWithdrawal i w = Some row \<and> wd_status row \<in> S \<and>
     pw_withdrawals w' = setRow (wd_id row) to m (pw_withdrawals w) \<and>
     wc_approvalsRequired (fm_control m) = wc_approvalsRequired (fm_control (wd_metadata row)) \<and>
     set (pw_reviews w) \<subseteq> set (pw_reviews w'))"

lemma rowMoveI:
  assumes "pw_withdrawals w' = setRow (wd_id row) to m (pw_withdrawals w)"
    and "selectLockedWithdrawal i w = Some row" and "wd_status row \<in> S"
    and "wc_approvalsRequired (fm_control m) = wc_approvalsRequired (fm_control (wd_metadata row))"
    and "set (pw_reviews w) \<subseteq> set (pw_reviews w')"
  shows "rowMove S to i w w'"
  using assms unfolding rowMove_def by blast

lemma sameRows_refl [simp]: "sameRows w w"
  by (simp add: sameRows_def)

lemma handToProvider_rows:
  assumes "handToProvider act target ev row rv w = Inr (x, w')" and "selectLockedWithdrawal i w = Some row"
    and "wd_status row \<in> S"
  shows "rowMove S target i w w'"
proof -
  obtain rs where rs: "gate row act target rv (''withdrawal_'' @ ev) True = Inr rs"
    and w': "w' = snd (updateWithdrawal row target
      (appendFinanceStateMetadata (fst (recordReview WithdrawalOrder (wd_id row) act rs w)) WithdrawalOrder target
         (noChange\<lparr>sc_providerStatus := Some ev, sc_settlementStatus := Some ev\<rparr>))
      (insertPaymentProviderEvent (providerEvent row ev rs) (snd (recordReview WithdrawalOrder (wd_id row) act rs w))))"
    using assms(1) by (auto simp: handToProvider_def bind_res_Inr_iff split_def)
  show ?thesis
    using assms(2,3) gate_meta [OF rs] reviews_recordReview
    by (rule_tac rowMoveI, simp add: w' row_simps) (simp_all add: w' row_simps)
qed

lemma submitted_rows:
  "markWithdrawalProviderSubmitted i rv w = Inr (x, w') \<Longrightarrow>
     w' = w \<or> rowMove {St_approved} St_provider_submitted i w w'"
  unfolding markWithdrawalProviderSubmitted_def
  by (auto split: option.splits if_splits dest!: handToProvider_rows [where S = "{St_approved}"])

lemma processing_rows:
  "markWithdrawalProviderProcessing i rv w = Inr (x, w') \<Longrightarrow>
     w' = w \<or> rowMove {St_approved, St_provider_submitted} St_provider_processing i w w'"
  unfolding markWithdrawalProviderProcessing_def
  by (auto split: option.splits if_splits
      dest!: handToProvider_rows [where S = "{St_approved, St_provider_submitted}"])


text \<open>What an operation does after its review is recorded: the row, and no further review.\<close>

definition writesRow :: "withdrawal \<Rightarrow> finance_status \<Rightarrow> finance_meta \<Rightarrow> payment_world \<Rightarrow> payment_world \<Rightarrow> bool" where
  "writesRow row st m0 w w' = (\<exists>m. pw_withdrawals w' = setRow (wd_id row) st m (pw_withdrawals w) \<and>
     wc_approvalsRequired (fm_control m) = wc_approvalsRequired (fm_control m0) \<and> pw_reviews w' = pw_reviews w)"

lemma writesRowI:
  "pw_withdrawals w' = setRow (wd_id row) st m (pw_withdrawals w) \<Longrightarrow>
   wc_approvalsRequired (fm_control m) = wc_approvalsRequired (fm_control m0) \<Longrightarrow> pw_reviews w' = pw_reviews w \<Longrightarrow>
   writesRow row st m0 w w'"
  unfolding writesRow_def by blast

lemma reviewed_then_row:
  assumes "gate row act target rv note req = Inr rs" and "selectLockedWithdrawal i w = Some row"
    and "wd_status row \<in> S"
    and "writesRow row st (fst (recordReview WithdrawalOrder (wd_id row) act rs w))
      (snd (recordReview WithdrawalOrder (wd_id row) act rs w)) w'"
  shows "rowMove S st i w w'"
  using assms(2-4) gate_meta [OF assms(1)] reviews_recordReview
  unfolding writesRow_def rowMove_def by (auto simp: row_simps)

lemma failure_writes:
  assumes "markWithdrawalProviderFailure row rs m w = Inr (x, w')"
  shows "writesRow row St_provider_failed m w w'"
  using assms
  by (auto simp: markWithdrawalProviderFailure_def bind_res_Inr_iff Let_def split_def row_simps
      dest!: rows_settlement intro!: writesRowI)

lemma refund_writes:
  assumes "refundWithdrawal row rv rs m st w = Inr (x, w')"
  shows "writesRow row st m w w'"
  using assms
  by (auto simp: refundWithdrawal_def bind_res_Inr_iff Let_def split_def row_simps
      dest!: rows_settlement intro!: writesRowI)

lemma payOut_writes:
  assumes "payOutWithdrawal row rv rs m channel w = Inr (x, w')"
  shows "writesRow row St_paid m w w'"
  using assms
  by (auto simp: payOutWithdrawal_def bind_res_Inr_iff Let_def split_def row_simps
      split: if_splits dest!: rows_settlement intro!: writesRowI)

lemma failed_rows:
  assumes "markWithdrawalProviderFailed i rv w = Inr (x, w')"
  shows "w' = w \<or> rowMove {St_approved, St_provider_submitted, St_provider_processing} St_provider_failed i w w'"
  using assms
  by (auto simp: markWithdrawalProviderFailed_def bind_res_Inr_iff split_def
      split: option.splits if_splits dest!: failure_writes dest: gates_confirm(1) intro: reviewed_then_row)

lemma refundStep_rows:
  assumes "refundStep env act st note req row rv w = Inr (x, w')" and "selectLockedWithdrawal i w = Some row"
    and "wd_status row \<in> S"
  shows "rowMove S st i w w'"
  using assms
  by (auto simp: refundStep_def bind_res_Inr_iff split_def
      split: if_splits dest!: refund_writes dest: gates_confirm(1) intro: reviewed_then_row)

lemma reject_rows:
  "rejectWithdrawal env i rv w = Inr (x, w') \<Longrightarrow> w' = w \<or> rowMove {St_requested, St_approved} St_rejected i w w'"
  unfolding rejectWithdrawal_def
  by (auto split: option.splits if_splits dest!: refundStep_rows [where S = "{St_requested, St_approved}"])

lemma reverse_rows:
  "reverseWithdrawal env i rv w = Inr (x, w') \<Longrightarrow> w' = w \<or> rowMove UNIV St_reversed i w w'"
  unfolding reverseWithdrawal_def
  by (auto split: option.splits if_splits dest!: refundStep_rows [where S = UNIV])

lemma pay_rows:
  assumes "payWithdrawal env i rv w = Inr (x, w')"
  shows "w' = w \<or> rowMove {St_provider_processing} St_paid i w w'"
  using assms
  by (auto simp: payWithdrawal_def bind_res_Inr_iff split_def
      split: option.splits if_splits dest!: payOut_writes dest: gates_confirm(1) intro: reviewed_then_row)

subsection \<open>Deposits leave withdrawals alone\<close>

lemma transition_rows:
  assumes "transitionDepositStatus d st ev rs m c w = Inr (x, w')"
  shows "pw_withdrawals w' = pw_withdrawals w \<and> pw_reviews w' = pw_reviews w"
  using assms
  by (auto simp: transitionDepositStatus_def bind_res_Inr_iff row_simps split: if_splits
      dest!: arg_cong [where f = snd])

lemma reviews_kept [simp]:
  "r \<in> set (pw_reviews w) \<Longrightarrow> r \<in> set (pw_reviews (snd (recordReview flow i act rs w)))"
  using reviews_recordReview by blast

lemmas same_simps = sameRows_def deposit_Inr row_simps split_def

lemmas same_dests = recordDepositReview_Inr [OF _ gates_confirm(2)] transition_rows rows_settlement

lemma pending_same: "markDepositProviderPending i rv w = Inr (x, w') \<Longrightarrow> sameRows w w'"
  by (auto simp: markDepositProviderPending_def same_simps split: option.splits if_splits dest!: same_dests)

lemma succeeded_same: "markDepositProviderSucceeded i rv w = Inr (x, w') \<Longrightarrow> sameRows w w'"
  by (auto simp: markDepositProviderSucceeded_def same_simps split: option.splits if_splits dest!: same_dests)

lemma credit_same: "creditDeposit env i rv w = Inr (x, w') \<Longrightarrow> sameRows w w'"
  by (auto simp: creditDeposit_def creditDepositRecord_def same_simps split: option.splits if_splits dest!: same_dests)

lemma fail_same: "failDeposit i rv w = Inr (x, w') \<Longrightarrow> sameRows w w'"
  by (auto simp: failDeposit_def same_simps split: option.splits if_splits dest!: same_dests)

lemma reverseDeposit_same: "reverseDeposit env i rv w = Inr (x, w') \<Longrightarrow> sameRows w w'"
  by (auto simp: reverseDeposit_def reverseCredited_def same_simps split: option.splits if_splits dest!: same_dests)

lemma createTopUp_rows: "createTopUp env denv dq w = Inr (d, w') \<Longrightarrow> sameRows w w'"
  by (auto simp: createTopUp_def bind_res_Inr_iff Let_def sameRows_def split: option.splits if_splits
      dest!: rows_outbound)

subsection \<open>Requests and approvals\<close>

lemma createWithdrawal_rows:
  assumes "createWithdrawal env renv rq w = (Inr row, w')"
  shows "pw_withdrawals w' = pw_withdrawals w @ [row] \<and> pw_reviews w' = pw_reviews w \<and>
    wd_id row = rv_newId renv \<and> wd_userId row = rq_userId rq \<and> wd_amount row = rq_amount rq \<and>
    wd_status row = St_requested \<and> fm_pendingReview (wd_metadata row) = None \<and>
    wc_approvalsRequired (fm_control (wd_metadata row)) =
      Some (if 0 < cf_secondApprovalThreshold (rv_config renv) \<and>
               cf_secondApprovalThreshold (rv_config renv) \<le> rq_amount rq then 2 else 1)"
proof -
  have "createWithdrawalBody env renv rq w = (Inr row, w')"
    using assms by (auto simp: createWithdrawal_def transaction_def split: option.splits prod.splits sum.splits)
  then show ?thesis
    by (auto simp: createWithdrawalBody_def openWithdrawal_def evaluateWithdrawalControls_def Let_def row_simps
        split: option.splits prod.splits sum.splits if_splits)
qed

definition reviewed :: "payment_world \<Rightarrow> nat \<Rightarrow> review_stage \<Rightarrow> nat \<Rightarrow> bool" where
  "reviewed w i stg a =
     (\<exists>r \<in> set (pw_reviews w). rr_orderType r = WithdrawalOrder \<and> rr_orderId r = i \<and>
        rr_action r = Withdrawal_approve \<and> rr_reviewStage r = stg \<and> rr_adminId r = Some a)"

lemma reviewed_mono: "set (pw_reviews w) \<subseteq> set (pw_reviews w') \<Longrightarrow> reviewed w i stg a \<Longrightarrow> reviewed w' i stg a"
  by (auto simp: reviewed_def)

definition approvalMove :: "nat \<Rightarrow> payment_world \<Rightarrow> payment_world \<Rightarrow> bool" where
  "approvalMove i w w' = (\<exists>row m. selectLockedWithdrawal i w = Some row \<and> wd_status row = St_requested \<and>
     readApprovalsRequired m = readApprovalsRequired (wd_metadata row) \<and>
     set (pw_reviews w) \<subseteq> set (pw_reviews w') \<and>
     (pw_withdrawals w' = setRow (wd_id row) St_requested m (pw_withdrawals w) \<and>
        (\<exists>p a. fm_pendingReview m = Some p \<and> pr_reviewerAdminIds p = [a] \<and> reviewed w' (wd_id row) Maker a) \<or>
      pw_withdrawals w' = setRow (wd_id row) St_approved m (pw_withdrawals w) \<and>
        (readApprovalsRequired m > 1 \<longrightarrow>
          (\<exists>p b. fm_pendingReview (wd_metadata row) = Some p \<and> b \<notin> set (pr_reviewerAdminIds p) \<and>
             reviewed w' (wd_id row) Checker b))))"

lemma readApprovals_simps [simp]:
  "readApprovalsRequired (mergeWithdrawalControl m (\<lambda>c. c\<lparr>wc_approvalsRequired := Some (readApprovalsRequired m'),
     wc_approvalsCollected := x, wc_approvalState := y\<rparr>)) = readApprovalsRequired m'"
  "readApprovalsRequired (appendFinanceStateMetadata m flow st c) = readApprovalsRequired m"
  by (simp_all add: readApprovalsRequired_def split: option.split)

lemma gate_opens:
  assumes "applyDualReviewGate m act target rv req by = Inr rs" and "\<not> dr_confirmed rs"
  shows "\<exists>p a. fm_pendingReview (dr_metadata rs) = Some p \<and> pr_reviewerAdminIds p = [a] \<and>
    dr_reviewStage rs = Maker \<and> er_adminId (dr_effectiveReview rs) = Some a"
  using assms
  by (auto simp: applyDualReviewGate_def Let_def confirmReview_def openReview_def split: option.splits if_splits)

lemma gate_closes:
  assumes "applyDualReviewGate m act target rv req False = Inr rs" and "dr_confirmed rs" and "fr_adminId rv \<noteq> None"
  shows "\<exists>p b. fm_pendingReview m = Some p \<and> b \<notin> set (pr_reviewerAdminIds p) \<and>
    dr_reviewStage rs = Checker \<and> er_adminId (dr_effectiveReview rs) = Some b"
  using assms
  by (auto simp: applyDualReviewGate_def Let_def confirmReview_def openReview_def readPendingReviewState_def
      split: option.splits if_splits)

lemma recordReview_reviewed:
  "dr_reviewStage rs = stg \<Longrightarrow> er_adminId (dr_effectiveReview rs) = Some a \<Longrightarrow>
     reviewed (snd (recordReview WithdrawalOrder i Withdrawal_approve rs w)) i stg a"
  by (simp add: reviewed_def recordReview_def Let_def row_simps)

lemma approve_rows:
  assumes "approveWithdrawal env i rv w = Inr (x, w')"
  shows "w' = w \<or> approvalMove i w w'"
proof (cases "\<exists>row. selectLockedWithdrawal i w = Some row \<and> wd_status row = St_requested")
  case False
  then show ?thesis using assms by (auto simp: approveWithdrawal_def split: option.splits)
next
  case True
  then obtain row where row: "selectLockedWithdrawal i w = Some row" "wd_status row = St_requested" by blast
  let ?n = "readApprovalsRequired (wd_metadata row)"
  obtain rs where gate: "applyDualReviewGate (wd_metadata row) Withdrawal_approve St_approved rv False (?n \<le> 1) = Inr rs"
    and admin: "?n > 1 \<Longrightarrow> fr_adminId rv \<noteq> None"
    using assms row by (auto simp: approveWithdrawal_def Let_def bind_res_Inr_iff split: if_splits)
  let ?w1 = "snd (recordReview WithdrawalOrder (wd_id row) Withdrawal_approve rs w)"
  show ?thesis
  proof (cases "dr_confirmed rs")
    case False
    obtain p a where pa: "fm_pendingReview (dr_metadata rs) = Some p" "pr_reviewerAdminIds p = [a]"
      "dr_reviewStage rs = Maker" "er_adminId (dr_effectiveReview rs) = Some a"
      using gate_opens [OF gate False] by blast
    have "\<exists>m. pw_withdrawals w' = setRow (wd_id row) St_requested m (pw_withdrawals w) \<and>
        readApprovalsRequired m = ?n \<and> fm_pendingReview m = Some p \<and> pw_reviews w' = pw_reviews ?w1"
      using assms row gate False pa(1)
      by (auto simp: approveWithdrawal_def Let_def bind_res_Inr_iff split_def row_simps intro!: exI split: if_splits)
    then obtain m where "pw_withdrawals w' = setRow (wd_id row) St_requested m (pw_withdrawals w)"
      "readApprovalsRequired m = ?n" "fm_pendingReview m = Some p" "pw_reviews w' = pw_reviews ?w1" by blast
    moreover from this(4) have "reviewed w' (wd_id row) Maker a"
      using recordReview_reviewed [OF pa(3,4), of "wd_id row" w] by (simp add: reviewed_def)
    ultimately show ?thesis using row pa(2) unfolding approvalMove_def by (auto simp: subset_iff)
  next
    case True
    have "\<exists>m. pw_withdrawals w' = setRow (wd_id row) St_approved m (pw_withdrawals w) \<and>
        readApprovalsRequired m = ?n \<and> pw_reviews w' = pw_reviews ?w1"
      using assms row gate True
      by (auto simp: approveWithdrawal_def Let_def bind_res_Inr_iff split_def row_simps
          intro!: exI split: if_splits option.splits dest!: rows_outbound)
    then obtain m where m: "pw_withdrawals w' = setRow (wd_id row) St_approved m (pw_withdrawals w)"
      "readApprovalsRequired m = ?n" "pw_reviews w' = pw_reviews ?w1" by blast
    have "\<exists>p b. fm_pendingReview (wd_metadata row) = Some p \<and> b \<notin> set (pr_reviewerAdminIds p) \<and>
        reviewed w' (wd_id row) Checker b" if more: "?n > 1"
    proof -
      have "applyDualReviewGate (wd_metadata row) Withdrawal_approve St_approved rv False False = Inr rs"
        using gate more by (simp add: not_le)
      from gate_closes [OF this True admin [OF more]] obtain p b where
        "fm_pendingReview (wd_metadata row) = Some p" "b \<notin> set (pr_reviewerAdminIds p)"
        "dr_reviewStage rs = Checker" "er_adminId (dr_effectiveReview rs) = Some b" by blast
      then show ?thesis
        using recordReview_reviewed [of rs Checker b "wd_id row" w] m(3) by (auto simp: reviewed_def)
    qed
    then show ?thesis using row m unfolding approvalMove_def by (auto simp: subset_iff)
  qed
qed

subsection \<open>Maker and checker\<close>

definition afterApproval :: "finance_status set" where
  "afterApproval = {St_approved, St_provider_submitted, St_provider_processing, St_provider_failed, St_paid}"

definition approvalOk :: "payment_world \<Rightarrow> withdrawal \<Rightarrow> bool" where
  "approvalOk w r =
     ((wd_status r = St_requested \<longrightarrow> (\<forall>p. fm_pendingReview (wd_metadata r) = Some p \<longrightarrow>
         (\<exists>a. pr_reviewerAdminIds p = [a] \<and> reviewed w (wd_id r) Maker a))) \<and>
      (wd_status r \<in> afterApproval \<and> readApprovalsRequired (wd_metadata r) > 1 \<longrightarrow>
         (\<exists>a b. a \<noteq> b \<and> reviewed w (wd_id r) Maker a \<and> reviewed w (wd_id r) Checker b)))"

definition approvalsOk :: "payment_world \<Rightarrow> bool" where
  "approvalsOk w = (distinct (map wd_id (pw_withdrawals w)) \<and> (\<forall>r \<in> set (pw_withdrawals w). approvalOk w r))"

lemma approvalOk_mono:
  "set (pw_reviews w) \<subseteq> set (pw_reviews w') \<Longrightarrow> approvalOk w r \<Longrightarrow> approvalOk w' r"
  using reviewed_mono unfolding approvalOk_def by meson

lemma setRow_ids [simp]: "map wd_id (setRow i st m rows) = map wd_id rows"
  by (simp add: setRow_def o_def if_distrib cong: if_cong)

lemma same_row:
  "distinct (map wd_id rows) \<Longrightarrow> x \<in> set rows \<Longrightarrow> y \<in> set rows \<Longrightarrow> wd_id x = wd_id y \<Longrightarrow> x = y"
  by (meson eq_key_imp_eq_value inj_onD distinct_map)

text \<open>A row is replaced by one that is right, and all others stay.\<close>

lemma approvalsOk_setRow:
  assumes "approvalsOk w" and "row \<in> set (pw_withdrawals w)"
    and "pw_withdrawals w' = setRow (wd_id row) st m (pw_withdrawals w)"
    and "set (pw_reviews w) \<subseteq> set (pw_reviews w')"
    and "approvalOk w' (row\<lparr>wd_status := st, wd_metadata := m\<rparr>)"
  shows "approvalsOk w'"
proof -
  have ids: "distinct (map wd_id (pw_withdrawals w))" using assms(1) by (simp add: approvalsOk_def)
  have "approvalOk w' r" if r: "r \<in> set (pw_withdrawals w')" for r
  proof -
    obtain y where y: "y \<in> set (pw_withdrawals w)"
      "r = (if wd_id y = wd_id row then y\<lparr>wd_status := st, wd_metadata := m\<rparr> else y)"
      using r unfolding assms(3) setRow_def by auto
    show ?thesis
    proof (cases "wd_id y = wd_id row")
      case True
      then have "y = row" using same_row [OF ids y(1) assms(2)] by simp
      then show ?thesis using y(2) assms(5) by simp
    next
      case False
      then show ?thesis using y approvalOk_mono [OF assms(4)] assms(1) by (simp add: approvalsOk_def)
    qed
  qed
  then show ?thesis using ids assms(3) by (simp add: approvalsOk_def)
qed

lemma approvalsOk_rowMove:
  assumes "rowMove S to i w w'" and "approvalsOk w"
    and "to \<in> {St_rejected, St_reversed} \<or> to \<in> afterApproval \<and> S \<subseteq> afterApproval"
  shows "approvalsOk w'"
proof -
  obtain row m where row: "selectLockedWithdrawal i w = Some row" "wd_status row \<in> S"
    "pw_withdrawals w' = setRow (wd_id row) to m (pw_withdrawals w)"
    "wc_approvalsRequired (fm_control m) = wc_approvalsRequired (fm_control (wd_metadata row))"
    "set (pw_reviews w) \<subseteq> set (pw_reviews w')"
    using assms(1) unfolding rowMove_def by blast
  have mem: "row \<in> set (pw_withdrawals w)" using selected(1) [OF row(1)] by simp
  then have "approvalOk w' row" using assms(2) approvalOk_mono [OF row(5)] by (simp add: approvalsOk_def)
  moreover have "readApprovalsRequired m = readApprovalsRequired (wd_metadata row)"
    using row(4) by (simp add: readApprovalsRequired_def)
  ultimately have "approvalOk w' (row\<lparr>wd_status := to, wd_metadata := m\<rparr>)"
    using assms(3) row(2) unfolding approvalOk_def by (auto simp: afterApproval_def)
  then show ?thesis using approvalsOk_setRow [OF assms(2) mem row(3,5)] by blast
qed

lemma approvalsOk_same: "sameRows w w' \<Longrightarrow> approvalsOk w \<Longrightarrow> approvalsOk w'"
  using approvalOk_mono [of w w'] by (auto simp: sameRows_def approvalsOk_def)

lemma approvalsOk_approve:
  assumes "approvalMove i w w'" and "approvalsOk w"
  shows "approvalsOk w'"
proof -
  obtain row m where row: "selectLockedWithdrawal i w = Some row" "wd_status row = St_requested"
    "readApprovalsRequired m = readApprovalsRequired (wd_metadata row)" "set (pw_reviews w) \<subseteq> set (pw_reviews w')"
    and cases: "pw_withdrawals w' = setRow (wd_id row) St_requested m (pw_withdrawals w) \<and>
        (\<exists>p a. fm_pendingReview m = Some p \<and> pr_reviewerAdminIds p = [a] \<and> reviewed w' (wd_id row) Maker a) \<or>
      pw_withdrawals w' = setRow (wd_id row) St_approved m (pw_withdrawals w) \<and>
        (readApprovalsRequired m > 1 \<longrightarrow>
          (\<exists>p b. fm_pendingReview (wd_metadata row) = Some p \<and> b \<notin> set (pr_reviewerAdminIds p) \<and>
             reviewed w' (wd_id row) Checker b))"
    using assms(1) unfolding approvalMove_def by blast
  have mem: "row \<in> set (pw_withdrawals w)" using selected(1) [OF row(1)] by simp
  then have ok: "approvalOk w' row" using assms(2) approvalOk_mono [OF row(4)] by (simp add: approvalsOk_def)
  from cases show ?thesis
  proof
    assume A: "pw_withdrawals w' = setRow (wd_id row) St_requested m (pw_withdrawals w) \<and>
        (\<exists>p a. fm_pendingReview m = Some p \<and> pr_reviewerAdminIds p = [a] \<and> reviewed w' (wd_id row) Maker a)"
    then have "approvalOk w' (row\<lparr>wd_status := St_requested, wd_metadata := m\<rparr>)"
      by (auto simp: approvalOk_def afterApproval_def)
    then show ?thesis using approvalsOk_setRow [OF assms(2) mem _ row(4)] A by blast
  next
    assume A: "pw_withdrawals w' = setRow (wd_id row) St_approved m (pw_withdrawals w) \<and>
        (readApprovalsRequired m > 1 \<longrightarrow>
          (\<exists>p b. fm_pendingReview (wd_metadata row) = Some p \<and> b \<notin> set (pr_reviewerAdminIds p) \<and>
             reviewed w' (wd_id row) Checker b))"
    have "\<exists>a b. a \<noteq> b \<and> reviewed w' (wd_id row) Maker a \<and> reviewed w' (wd_id row) Checker b"
      if more: "readApprovalsRequired m > 1"
    proof -
      obtain p b where pb: "fm_pendingReview (wd_metadata row) = Some p" "b \<notin> set (pr_reviewerAdminIds p)"
        "reviewed w' (wd_id row) Checker b"
        using A more by blast
      obtain a where a: "pr_reviewerAdminIds p = [a]" "reviewed w' (wd_id row) Maker a"
        using ok row(2) pb(1) unfolding approvalOk_def by blast
      have "a \<noteq> b" using a(1) pb(2) by auto
      then show ?thesis using a(2) pb(3) by blast
    qed
    then have "approvalOk w' (row\<lparr>wd_status := St_approved, wd_metadata := m\<rparr>)"
      by (auto simp: approvalOk_def)
    then show ?thesis using approvalsOk_setRow [OF assms(2) mem _ row(4)] A by blast
  qed
qed

lemma payStep_approvals:
  assumes "payStep w w'" and "approvalsOk w"
  shows "approvalsOk w'"
  using assms
proof (cases rule: payStep.cases)
  case (create env renv rq row)
  have rows: "pw_withdrawals w' = pw_withdrawals w @ [row]" "pw_reviews w' = pw_reviews w"
    "wd_id row = rv_newId renv" "wd_status row = St_requested" "fm_pendingReview (wd_metadata row) = None"
    using createWithdrawal_rows [OF create(1)] by auto
  have "approvalOk w' row" using rows by (simp add: approvalOk_def afterApproval_def)
  moreover have "approvalOk w' r" if "r \<in> set (pw_withdrawals w)" for r
    using that assms(2) approvalOk_mono [of w w' r] rows(2) by (simp add: approvalsOk_def)
  ultimately show ?thesis using assms(2) create(2) rows by (auto simp: approvalsOk_def)
next
  case (approve env i rv x)
  then show ?thesis using approve_rows approvalsOk_approve assms(2) by blast
next
  case (submit i rv x)
  then show ?thesis
    using submitted_rows assms(2) approvalsOk_rowMove [of _ _ i w w'] by (fastforce simp: afterApproval_def)
next
  case (process i rv x)
  then show ?thesis
    using processing_rows assms(2) approvalsOk_rowMove [of _ _ i w w'] by (fastforce simp: afterApproval_def)
next
  case (fail i rv x)
  then show ?thesis
    using failed_rows assms(2) approvalsOk_rowMove [of _ _ i w w'] by (fastforce simp: afterApproval_def)
next
  case (reject env i rv x)
  then show ?thesis using reject_rows assms(2) approvalsOk_rowMove [of _ _ i w w'] by fastforce
next
  case (reverse env i rv x)
  then show ?thesis using reverse_rows assms(2) approvalsOk_rowMove [of _ _ i w w'] by fastforce
next
  case (pay env i rv x)
  then show ?thesis
    using pay_rows assms(2) approvalsOk_rowMove [of _ _ i w w'] by (fastforce simp: afterApproval_def)
next
  case (other u wl es)
  then show ?thesis using assms(2) approvalsOk_same [of w w'] by (simp add: sameRows_def)
qed (use assms(2) in \<open>blast intro: approvalsOk_same createTopUp_rows pending_same succeeded_same credit_same
  fail_same reverseDeposit_same\<close>)+

lemma payRun_approvals: "payRun w w' \<Longrightarrow> approvalsOk w \<Longrightarrow> approvalsOk w'"
  by (induction rule: payRun.induct) (auto intro: payStep_approvals)

lemma reachable_approvals: "payRun emptyWorld w \<Longrightarrow> approvalsOk w"
  by (erule payRun_approvals) (simp add: approvalsOk_def emptyWorld_def)

subsection \<open>What a row keeps\<close>

definition sameOrder :: "withdrawal \<Rightarrow> withdrawal \<Rightarrow> bool" where
  "sameOrder r r' = (wd_id r' = wd_id r \<and> wd_userId r' = wd_userId r \<and> wd_amount r' = wd_amount r \<and>
     readApprovalsRequired (wd_metadata r') = readApprovalsRequired (wd_metadata r))"

definition rowsKept :: "payment_world \<Rightarrow> payment_world \<Rightarrow> bool" where
  "rowsKept w w' = (\<forall>r \<in> set (pw_withdrawals w). \<exists>r' \<in> set (pw_withdrawals w'). sameOrder r r')"

lemma rowsKept_refl [simp]: "rowsKept w w"
  by (auto simp: rowsKept_def sameOrder_def)

lemma rowsKept_trans: "rowsKept w w' \<Longrightarrow> rowsKept w' w'' \<Longrightarrow> rowsKept w w''"
  unfolding rowsKept_def sameOrder_def by (metis (no_types, lifting))

lemma rowsKept_setRow:
  assumes "distinct (map wd_id (pw_withdrawals w))" and "row \<in> set (pw_withdrawals w)"
    and "pw_withdrawals w' = setRow (wd_id row) st m (pw_withdrawals w)"
    and "readApprovalsRequired m = readApprovalsRequired (wd_metadata row)"
  shows "rowsKept w w'"
  unfolding rowsKept_def
proof
  fix r assume r: "r \<in> set (pw_withdrawals w)"
  let ?r = "if wd_id r = wd_id row then r\<lparr>wd_status := st, wd_metadata := m\<rparr> else r"
  have "?r \<in> set (pw_withdrawals w')" using r unfolding assms(3) setRow_def by auto
  moreover have "sameOrder r ?r" using same_row [OF assms(1) r assms(2)] assms(4) by (auto simp: sameOrder_def)
  ultimately show "\<exists>r' \<in> set (pw_withdrawals w'). sameOrder r r'" by blast
qed

lemma rowsKept_rowMove:
  assumes "rowMove S to i w w'" and "approvalsOk w"
  shows "rowsKept w w'"
proof -
  obtain row m where row: "selectLockedWithdrawal i w = Some row"
    "pw_withdrawals w' = setRow (wd_id row) to m (pw_withdrawals w)"
    "wc_approvalsRequired (fm_control m) = wc_approvalsRequired (fm_control (wd_metadata row))"
    using assms(1) unfolding rowMove_def by blast
  then show ?thesis
    using rowsKept_setRow [of w row w' to m] selected(1) [OF row(1)] assms(2)
    by (simp add: approvalsOk_def readApprovalsRequired_def)
qed

lemma rowsKept_approve: "approvalMove i w w' \<Longrightarrow> approvalsOk w \<Longrightarrow> rowsKept w w'"
  unfolding approvalMove_def approvalsOk_def using rowsKept_setRow selected(1) by metis

lemma rowsKept_same: "sameRows w w' \<Longrightarrow> rowsKept w w'"
  by (auto simp: sameRows_def rowsKept_def sameOrder_def)

lemma payStep_rowsKept:
  assumes "payStep w w'" and "approvalsOk w"
  shows "rowsKept w w'"
  using assms
proof (cases rule: payStep.cases)
  case (create env renv rq row)
  then show ?thesis using createWithdrawal_rows [OF create(1)] by (auto simp: rowsKept_def sameOrder_def)
next
  case (approve env i rv x)
  then show ?thesis using approve_rows rowsKept_approve assms(2) rowsKept_refl by blast
next
  case (other u wl es)
  then show ?thesis by (simp add: rowsKept_same sameRows_def)
qed (use assms(2) in \<open>blast intro: rowsKept_same createTopUp_rows pending_same succeeded_same credit_same
  fail_same reverseDeposit_same rowsKept_rowMove
  dest: submitted_rows processing_rows failed_rows reject_rows reverse_rows pay_rows intro!: rowsKept_refl\<close>)+

lemma payRun_rowsKept: "payRun w w' \<Longrightarrow> approvalsOk w \<Longrightarrow> rowsKept w w' \<and> approvalsOk w'"
  by (induction rule: payRun.induct) (auto intro: payStep_approvals payStep_rowsKept rowsKept_trans)

end
