(* ===== verification/Payment_Outcomes.thy ===== *)
theory Payment_Outcomes
  imports Payment_Approvals
begin

text \<open>
  What paying out and refunding answer in a state where the wallets agree with the ledger:
  every refusal, and the effect when there is none.
\<close>

subsection \<open>Trimmed text\<close>

lemma js_trim_idem [simp]: "js_trim (js_trim s) = js_trim s"
proof -
  let ?t = "dropWhile isSpace s" and ?u = "js_trim s"
  have u: "?u = rev (dropWhile isSpace (rev ?t))" by (simp add: js_trim_def)
  have "rev ?t = takeWhile isSpace (rev ?t) @ rev ?u" unfolding u by simp
  then have t: "?t = ?u @ rev (takeWhile isSpace (rev ?t))" by (metis rev_append rev_rev_ident)
  have "?u = [] \<or> \<not> isSpace (hd ?u)"
  proof (cases "?u = []")
    case False
    then have "hd ?t = hd ?u" and "?t \<noteq> []" using t by (metis hd_append2, metis append_is_Nil_conv)
    then show ?thesis using hd_dropWhile [of isSpace s] by simp
  qed simp
  then have front: "dropWhile isSpace ?u = ?u" by (simp add: dropWhile_eq_self_iff)
  have "rev ?u = dropWhile isSpace (rev ?t)" using u by simp
  then have "dropWhile isSpace (rev ?u) = rev ?u" by (simp add: dropWhile_idem)
  then show ?thesis by (subst js_trim_def) (simp add: front)
qed

lemma normalize_idem [simp]: "normalizeOptionalString (normalizeOptionalString v) = normalizeOptionalString v"
  by (simp add: normalizeOptionalString_def split: option.split)

lemma truthy_None [simp]: "\<not> truthy None"
  by (simp add: truthy_def)

lemma truthy_normalize [simp]: "truthy (normalizeOptionalString v) \<longleftrightarrow> normalizeOptionalString v \<noteq> None"
  by (auto simp: truthy_def normalizeOptionalString_def split: option.split)

lemma normalize_None [simp]: "normalizeOptionalString None = None"
  by (simp add: normalizeOptionalString_def)

lemma normalize_Some:
  assumes "normalizeOptionalString v = Some a"
  shows "normalizeOptionalString (Some a) = Some a \<and> truthy (Some a)"
  using assms normalize_idem [of v] truthy_normalize [of v] by simp

lemma truthy_Some: "normalizeOptionalString v = Some a \<Longrightarrow> truthy (Some a)"
  using normalize_Some by blast

lemma normalize_orElse:
  assumes "normalizeOptionalString d \<noteq> None"
  shows "normalizeOptionalString (orElse (normalizeOptionalString v) d) \<noteq> None"
proof (cases "normalizeOptionalString v")
  case None
  then show ?thesis using assms by (simp add: orElse_def)
next
  case (Some a)
  then show ?thesis using normalize_Some [OF Some] by (simp add: orElse_def)
qed

subsection \<open>The gate\<close>

text \<open>With a default note and no second review, only a missing reference is refused.\<close>

lemma gate_outcome:
  assumes "normalizeOptionalString (Some note) \<noteq> None"
  shows "if req \<and> normalizeOptionalString (fr_settlementReference rv) = None
    then gate row act target rv note req = Inl (Unprocessable ''Settlement reference is required.'')
    else \<exists>rs. gate row act target rv note req = Inr rs \<and> dr_confirmed rs \<and>
      er_settlementReference (dr_effectiveReview rs) = normalizeOptionalString (fr_settlementReference rv) \<and>
      er_processingChannel (dr_effectiveReview rs) = normalizeOptionalString (fr_processingChannel rv)"
  using normalize_orElse [OF assms, of "fr_operatorNote rv"]
  by (auto simp: gate_def applyDualReviewGate_def withReviewDefaults_def Let_def dest: truthy_Some)

lemma notes_given:
  "normalizeOptionalString (Some ''withdrawal_paid'') \<noteq> None"
  "normalizeOptionalString (Some ''withdrawal_rejected'') \<noteq> None"
  "normalizeOptionalString (Some ''withdrawal_reversed'') \<noteq> None"
  by (simp_all add: normalizeOptionalString_def js_trim_def isSpace_def)

subsection \<open>The check of the wallet\<close>

lemma checkWallet_ok: "moneyOk (moneyView w) \<Longrightarrow> checkWallet env u w = Inr ()"
  by (simp add: checkWallet_def assertWalletLedgerInvariant_def walletDrifts_def moneyOk_def agrees_def)

lemma settlements_kept [simp]:
  "pw_settlements (updateWallet u f w) = pw_settlements w"
  "pw_settlements (snd (recordReview flow i act rs w)) = pw_settlements w"
  by (simp_all add: updateWallet_def recordReview_def insertFinanceReview_def Let_def)

definition referenceTaken :: "string option \<Rightarrow> payment_world \<Rightarrow> bool" where
  "referenceTaken ref w = (ref \<noteq> None \<and> ref \<in> set (map se_settlementReference (pw_settlements w)))"

definition duplicateReference :: error where
  "duplicateReference = PlainError ''duplicate key: payment_settlement_events_reference_unique''"

lemma settlement_outcome:
  "if referenceTaken (se_settlementReference e) w
   then insertPaymentSettlementEvent e w = Inl duplicateReference
   else \<exists>w'. insertPaymentSettlementEvent e w = Inr w'"
  by (auto simp: insertPaymentSettlementEvent_def referenceTaken_def duplicateReference_def)

subsection \<open>Paying out\<close>

lemma payOut_outcome:
  assumes "wd_amount row \<le> wl_locked (pw_wallets w (wd_userId row))"
  shows "if referenceTaken (er_settlementReference (dr_effectiveReview rs)) w
    then payOutWithdrawal row rv rs m channel w = Inl duplicateReference
    else \<exists>m' w'. payOutWithdrawal row rv rs m channel w =
      Inr (Some (row\<lparr>wd_status := St_paid, wd_metadata := m'\<rparr>), w')"
proof -
  let ?lb = "wl_locked (pw_wallets w (wd_userId row))"
  let ?w = "updateWallet (wd_userId row) (\<lambda>wl. wl\<lparr>wl_locked := ?lb - wd_amount row\<rparr>) w"
  have taken: "referenceTaken ref ?w = referenceTaken ref w" for ref by (simp add: referenceTaken_def)
  show ?thesis
    using settlement_outcome [of "settlementEvent row ''paid'' ''paid'' rs None" ?w] assms
    by (auto simp: payOutWithdrawal_def settlementEvent_def taken Let_def bind_res_def updateWithdrawal_def
        assertWithdrawalLedgerMutationStatus_def withdrawalLedgerStatuses_def split: if_splits)
qed

lemma open_covered:
  assumes "moneyOk (moneyView w)" and "selectLockedWithdrawal i w = Some row" and "isOpen (wd_status row)"
  shows "wd_amount row \<le> wl_locked (pw_wallets w (wd_userId row))"
proof -
  have "wd_amount row \<le> openTotal (wd_userId row) (mv_withdrawals (moneyView w))"
    using openTotal_ge [OF selected_order(1) [OF assms(2)]] assms(1,3) unfolding moneyOk_def ordersOk_def by simp
  also have "\<dots> \<le> wl_locked (pw_wallets w (wd_userId row))"
    using assms(1) by (simp add: moneyOk_def coveredOk_def)
  finally show ?thesis .
qed

lemma pay_outcome:
  assumes "selectLockedWithdrawal i w = Some row" and "wd_status row = St_provider_processing"
    and ok: "moneyOk (moneyView w)"
  shows "case normalizeOptionalString (fr_settlementReference rv) of
      None \<Rightarrow> payWithdrawal env i rv w = Inl (Unprocessable ''Settlement reference is required.'')
    | Some ref \<Rightarrow>
      (case normalizeOptionalString (fr_processingChannel rv) of
         None \<Rightarrow> payWithdrawal env i rv w = Inl (Unprocessable ''Processing channel is required.'')
       | Some channel \<Rightarrow>
         if readManualChannelRequired (wd_metadata row) \<and> \<not> isManualChannel (Some channel) then
           payWithdrawal env i rv w = Inl (Conflict ''Risk-routed withdrawals must be paid through a manual channel.'')
         else if referenceTaken (Some ref) w then payWithdrawal env i rv w = Inl duplicateReference
         else \<exists>m w'. payWithdrawal env i rv w = Inr (Some (row\<lparr>wd_status := St_paid, wd_metadata := m\<rparr>), w') \<and>
           wd_amount row \<le> wl_locked (pw_wallets w (wd_userId row)) \<and>
           moneyView w' = consume (orderOf row) (moneyView w))"
proof -
  have mem: "orderOf row \<in> set (mv_withdrawals (moneyView w))" using selected_order(1) [OF assms(1)] .
  have amount_ok: "wd_amount row \<le> wl_locked (pw_wallets w (wd_userId row))"
    using open_covered [OF ok assms(1)] assms(2) by (simp add: isOpen_def)
  have consumed: "moneyOk (consume (orderOf row) (moneyView w))"
    using moneyStep_ok [OF moneyStep.consumed [OF mem] ok] assms(2) amount_ok by simp
  show ?thesis
  proof (cases "normalizeOptionalString (fr_settlementReference rv)")
    case None
    then show ?thesis
      using gate_outcome [OF notes_given(1), of True rv row Withdrawal_pay St_paid] assms(1,2)
      by (simp add: payWithdrawal_def)
  next
    case (Some ref)
    then obtain rs where gate: "gate row Withdrawal_pay St_paid rv ''withdrawal_paid'' True = Inr rs" "dr_confirmed rs"
      and eff: "er_settlementReference (dr_effectiveReview rs) = Some ref"
        "er_processingChannel (dr_effectiveReview rs) = normalizeOptionalString (fr_processingChannel rv)"
      using gate_outcome [OF notes_given(1), of True rv row Withdrawal_pay St_paid] by auto
    let ?m = "fst (recordReview WithdrawalOrder (wd_id row) Withdrawal_pay rs w)"
    let ?w1 = "snd (recordReview WithdrawalOrder (wd_id row) Withdrawal_pay rs w)"
    have taken: "referenceTaken ref' ?w1 = referenceTaken ref' w" for ref' by (simp add: referenceTaken_def)
    have paid: "moneyView w' = consume (orderOf row) (moneyView w)"
      if "payOutWithdrawal row rv rs ?m channel ?w1 = Inr (x, w')" for channel x w'
      using payOut_view [OF that] by (simp add: view_simps)
    show ?thesis
    proof (cases "normalizeOptionalString (fr_processingChannel rv)")
      case None
      then show ?thesis using assms(1,2) gate eff Some by (simp add: payWithdrawal_def split_def)
    next
      case (Some channel)
      note channel = this normalize_Some [OF this]
      show ?thesis
      proof (cases "readManualChannelRequired (wd_metadata row) \<and> \<not> isManualChannel (Some channel)")
        case True
        then show ?thesis
          using assms(1,2) gate eff channel \<open>normalizeOptionalString (fr_settlementReference rv) = Some ref\<close>
          by (simp add: payWithdrawal_def split_def)
      next
        case False
        then have unfolded: "payWithdrawal env i rv w = bind_res (payOutWithdrawal row rv rs ?m channel ?w1)
            (\<lambda>(result, w2). bind_res (checkWallet env (wd_userId row) w2) (\<lambda>_. Inr (result, w2)))"
          using assms(1,2) gate eff channel by (auto simp: payWithdrawal_def split_def)
        show ?thesis
        proof (cases "referenceTaken (Some ref) w")
          case True
          then have "payOutWithdrawal row rv rs ?m channel ?w1 = Inl duplicateReference"
            using payOut_outcome [of row ?w1 rs rv ?m channel] amount_ok eff taken by simp
          then show ?thesis
            using unfolded channel False True \<open>normalizeOptionalString (fr_settlementReference rv) = Some ref\<close> by auto
        next
          case untaken: False
          then obtain m w' where out: "payOutWithdrawal row rv rs ?m channel ?w1 =
              Inr (Some (row\<lparr>wd_status := St_paid, wd_metadata := m\<rparr>), w')"
            using payOut_outcome [of row ?w1 rs rv ?m channel] amount_ok eff taken by auto
          then have "payWithdrawal env i rv w = Inr (Some (row\<lparr>wd_status := St_paid, wd_metadata := m\<rparr>), w')"
            using unfolded paid [OF out] consumed checkWallet_ok [of w'] by simp
          then show ?thesis
            using channel False untaken \<open>normalizeOptionalString (fr_settlementReference rv) = Some ref\<close>
              amount_ok paid [OF out] by auto
        qed
      qed
    qed
  qed
qed

subsection \<open>Giving the money back\<close>

lemma refund_outcome:
  assumes "st \<in> {St_rejected, St_reversed}"
  shows "if referenceTaken (er_settlementReference (dr_effectiveReview rs)) w
    then refundWithdrawal row rv rs m st w = Inl duplicateReference
    else \<exists>m' w'. refundWithdrawal row rv rs m st w =
      Inr (Some (row\<lparr>wd_status := st, wd_metadata := m'\<rparr>), w')"
proof -
  let ?wl = "pw_wallets w (wd_userId row)"
  let ?w = "updateWallet (wd_userId row) (\<lambda>wl. wl\<lparr>wl_withdrawable := wl_withdrawable ?wl + wd_amount row,
    wl_locked := max (wl_locked wl - wd_amount row) 0\<rparr>) w"
  have taken: "referenceTaken ref ?w = referenceTaken ref w" for ref by (simp add: referenceTaken_def)
  show ?thesis
    using settlement_outcome [of "settlementEvent row (showStatus st) (showStatus st) rs
        (Some (er_operatorNote (dr_effectiveReview rs)))" ?w] assms
    by (auto simp: refundWithdrawal_def settlementEvent_def taken Let_def bind_res_def updateWithdrawal_def
        assertWithdrawalLedgerMutationStatus_def withdrawalLedgerStatuses_def split: if_splits)
qed

lemma same_locked:
  "wl\<lparr>wl_withdrawable := p, wl_locked := q\<rparr> = wl\<lparr>wl_withdrawable := p, wl_locked := r\<rparr> \<longleftrightarrow> q = r"
  by (cases wl) simp

text \<open>After a release the wallet agrees with its ledger just when nothing was cut off at zero.\<close>

lemma release_check:
  assumes ok: "moneyOk (moneyView w)" and view: "moneyView w' = release r st (moneyView w)"
    and r: "r \<in> set (mv_withdrawals (moneyView w))" "od_status r \<notin> {St_rejected, St_reversed}"
    and "0 < od_amount r"
  shows "checkWallet env (od_userId r) w' =
    (if pe_strict env \<and> wl_locked (pw_wallets w (od_userId r)) < od_amount r
     then Inl (InternalInvariant ''Wallet ledger invariant failed.'') else Inr ())"
proof -
  let ?u = "od_userId r" and ?a = "od_amount r" and ?wl = "pw_wallets w (od_userId r)"
  let ?e = "paymentEntry ?u (refundType st) ?a (wl_withdrawable ?wl) (wl_withdrawable ?wl + ?a) (od_id r)"
  have agree: "?wl = expectedWallet ?u (pw_ledger w)" "unknownEntryTypes ?u (pw_ledger w) = []"
    using ok by (simp_all add: moneyOk_def agrees_def)
  have fresh: "releaseEvent (od_id r) \<notin> set (mv_events (moneyView w))"
    using fresh_events(2) [OF ok r] .
  have ledger: "pw_ledger w' = pw_ledger w @ [?e]"
    and wallet: "pw_wallets w' ?u = ?wl\<lparr>wl_withdrawable := wl_withdrawable ?wl + ?a, wl_locked := max (wl_locked ?wl - ?a) 0\<rparr>"
    using arg_cong [OF view, of mv_ledger] arg_cong [OF view, of mv_wallets] fresh
    by (simp_all add: release_def bookLine_def onWallet_def Let_def)
  have effect: "expectedWallet ?u [?e] = \<lparr>wl_withdrawable = ?a, wl_bonus = 0, wl_locked = - ?a, wl_wagered = 0\<rparr>"
    by (rule payment_line_effect)
  have expected: "expectedWallet ?u (pw_ledger w') =
      ?wl\<lparr>wl_withdrawable := wl_withdrawable ?wl + ?a, wl_locked := wl_locked ?wl - ?a\<rparr>"
    unfolding ledger
    by (rule wallet.equality) (simp_all add: expectedWallet_append effect agree(1) [symmetric])
  have "unknownEntryTypes ?u (pw_ledger w') = []"
    using agree(2) line_known(2) by (simp add: ledger unknownEntryTypes_def)
  then have "walletDrifts ?u (pw_wallets w' ?u) (pw_ledger w') \<longleftrightarrow> wl_locked ?wl < ?a"
    unfolding walletDrifts_def expected wallet by (auto simp: same_locked max_def)
  then show ?thesis by (simp add: checkWallet_def assertWalletLedgerInvariant_def)
qed

lemma refundStep_outcome:
  assumes "selectLockedWithdrawal i w = Some row" and "wd_status row \<notin> {St_rejected, St_reversed}"
    and ok: "moneyOk (moneyView w)" and st: "st \<in> {St_rejected, St_reversed}"
    and given: "normalizeOptionalString (Some note) \<noteq> None"
  shows "if req \<and> normalizeOptionalString (fr_settlementReference rv) = None
    then refundStep env act st note req row rv w = Inl (Unprocessable ''Settlement reference is required.'')
    else if referenceTaken (normalizeOptionalString (fr_settlementReference rv)) w
    then refundStep env act st note req row rv w = Inl duplicateReference
    else if pe_strict env \<and> wl_locked (pw_wallets w (wd_userId row)) < wd_amount row
    then refundStep env act st note req row rv w = Inl (InternalInvariant ''Wallet ledger invariant failed.'')
    else \<exists>m w'. refundStep env act st note req row rv w = Inr (Some (row\<lparr>wd_status := st, wd_metadata := m\<rparr>), w') \<and>
      moneyView w' = release (orderOf row) st (moneyView w)"
proof (cases "req \<and> normalizeOptionalString (fr_settlementReference rv) = None")
  case True
  then show ?thesis using gate_outcome [OF given, of req rv row act st] by (simp add: refundStep_def)
next
  case False
  then obtain rs where gate: "gate row act st rv note req = Inr rs" "dr_confirmed rs"
    and eff: "er_settlementReference (dr_effectiveReview rs) = normalizeOptionalString (fr_settlementReference rv)"
    using gate_outcome [OF given, of req rv row act st] by auto
  let ?m = "fst (recordReview WithdrawalOrder (wd_id row) act rs w)"
  let ?w1 = "snd (recordReview WithdrawalOrder (wd_id row) act rs w)"
  have taken: "referenceTaken ref' ?w1 = referenceTaken ref' w" for ref' by (simp add: referenceTaken_def)
  have unfolded: "refundStep env act st note req row rv w = bind_res (refundWithdrawal row rv rs ?m st ?w1)
      (\<lambda>(result, w2). bind_res (checkWallet env (wd_userId row) w2) (\<lambda>_. Inr (result, w2)))"
    using gate by (simp add: refundStep_def split_def)
  show ?thesis
  proof (cases "referenceTaken (normalizeOptionalString (fr_settlementReference rv)) w")
    case True
    then have "refundWithdrawal row rv rs ?m st ?w1 = Inl duplicateReference"
      using refund_outcome [OF st, of rs ?w1 row rv ?m] eff taken by simp
    then show ?thesis using unfolded False True by auto
  next
    case untaken: False
    then obtain m w' where out: "refundWithdrawal row rv rs ?m st ?w1 =
        Inr (Some (row\<lparr>wd_status := st, wd_metadata := m\<rparr>), w')"
      using refund_outcome [OF st, of rs ?w1 row rv ?m] eff taken by auto
    then have view: "moneyView w' = release (orderOf row) st (moneyView w)"
      using refundWithdrawal_view [OF out] by (simp add: view_simps)
    have mem: "orderOf row \<in> set (mv_withdrawals (moneyView w))" using selected_order(1) [OF assms(1)] .
    have "\<forall>r \<in> set (mv_withdrawals (moneyView w)). 0 < od_amount r"
      using ok unfolding moneyOk_def ordersOk_def by blast
    from bspec [OF this mem] have "0 < wd_amount row" by simp
    then have "checkWallet env (wd_userId row) w' =
        (if pe_strict env \<and> wl_locked (pw_wallets w (wd_userId row)) < wd_amount row
         then Inl (InternalInvariant ''Wallet ledger invariant failed.'') else Inr ())"
      using release_check [OF ok view mem, of env] assms(2) by simp
    then show ?thesis using unfolded False untaken out view by auto
  qed
qed

end
