(* ===== verification/Payment_History.thy ===== *)
theory Payment_History
  imports Payment_Outcomes
begin

text \<open>
  The statuses an order goes through.  A life cycle is a step relation whose steps climb a
  bounded rank; whatever the number of operations, the history of one order then holds few
  different statuses, and none of them twice.
\<close>

subsection \<open>Life cycles\<close>

locale status_lifecycle =
  fixes stepTo :: "'s \<Rightarrow> 's \<Rightarrow> bool"
    and rank :: "'s \<Rightarrow> nat"
    and bound :: nat
  assumes climbs: "stepTo s t \<Longrightarrow> rank s < rank t"
    and bounded: "rank s \<le> bound"
begin

lemma climbing:
  "successively (\<lambda>s t. s = t \<or> stepTo s t) ss \<Longrightarrow> successively (<) (map rank (remdups_adj ss))"
proof (induction ss rule: remdups_adj.induct)
  case (3 s t ss)
  show ?case
  proof (cases "s = t")
    case False
    with 3 have "rank s < rank t" and "successively (<) (map rank (remdups_adj (t # ss)))"
      by (auto dest: climbs)
    then show ?thesis using False by (cases ss) (auto simp: successively_Cons hd_map)
  qed (use 3 in simp)
qed simp_all

lemma history_length:
  assumes "successively (\<lambda>s t. s = t \<or> stepTo s t) ss"
  shows "length (remdups_adj ss) \<le> Suc bound"
proof -
  let ?rs = "map rank (remdups_adj ss)"
  have "sorted_wrt (<) ?rs"
    using climbing [OF assms] by (simp add: successively_iff_sorted_wrt_strong transp_on_def)
  then have "distinct ?rs" by (simp add: strict_sorted_iff)
  then have "length ?rs = card (set ?rs)" by (rule distinct_card [symmetric])
  also have "\<dots> \<le> card {..bound}" using bounded by (intro card_mono) auto
  finally show ?thesis by simp
qed

lemma history_distinct:
  assumes "successively (\<lambda>s t. s = t \<or> stepTo s t) ss"
  shows "distinct (remdups_adj ss)"
proof -
  have "sorted_wrt (<) (map rank (remdups_adj ss))"
    using climbing [OF assms] by (simp add: successively_iff_sorted_wrt_strong transp_on_def)
  then show ?thesis using distinct_map strict_sorted_iff by blast
qed

end

subsection \<open>The two graphs climb\<close>

text \<open>\<open>None\<close> is the order that does not exist yet.\<close>

fun withdrawalRank :: "finance_status option \<Rightarrow> nat" where
  "withdrawalRank None = 0"
| "withdrawalRank (Some st) =
     (if st = St_requested then 1 else if st = St_approved then 2 else if st = St_provider_submitted then 3
      else if st = St_provider_processing then 4 else if st \<in> {St_rejected, St_reversed} then 6 else 5)"

fun depositRank :: "finance_status option \<Rightarrow> nat" where
  "depositRank None = 0"
| "depositRank (Some st) =
     (if st = St_requested then 1 else if st = St_provider_pending then 2 else if st = St_provider_succeeded then 3
      else if st = St_credited then 4 else 5)"

definition orderStep ::
  "(finance_status \<Rightarrow> finance_status \<Rightarrow> bool) \<Rightarrow> finance_status option \<Rightarrow> finance_status option \<Rightarrow> bool" where
  "orderStep move a b =
     (case a of None \<Rightarrow> b = Some St_requested
      | Some s \<Rightarrow> (case b of None \<Rightarrow> False | Some t \<Rightarrow> move s t))"

interpretation withdrawal_life: status_lifecycle "orderStep withdrawalMove" withdrawalRank 6
proof
  fix s t assume "orderStep withdrawalMove s t"
  then show "withdrawalRank s < withdrawalRank t"
    by (cases s; cases t) (auto simp: orderStep_def withdrawalMove_def hasTransition_def nextStatuses_def
        withdrawalTransitions_def split: if_splits)
qed (case_tac s; simp)

interpretation deposit_life: status_lifecycle "orderStep (hasTransition depositTransitions)" depositRank 5
proof
  fix s t assume "orderStep (hasTransition depositTransitions) s t"
  then show "depositRank s < depositRank t"
    by (cases s; cases t) (auto simp: orderStep_def hasTransition_def nextStatuses_def
        depositTransitions_def split: if_splits)
qed (case_tac s; simp)

subsection \<open>Operations take such steps\<close>

definition orderStatus :: "nat \<Rightarrow> order list \<Rightarrow> finance_status option" where
  "orderStatus i rs = map_option od_status (find (\<lambda>r. od_id r = i) rs)"

lemma orderStatus_append:
  "orderStatus i (rs @ [r]) =
     (if orderStatus i rs = None \<and> od_id r = i then Some (od_status r) else orderStatus i rs)"
  by (induction rs) (auto simp: orderStatus_def)

lemma orderStatus_None: "orderStatus i rs = None \<longleftrightarrow> i \<notin> od_id ` set rs"
  by (induction rs) (auto simp: orderStatus_def)

lemma orderStatus_setOrder:
  "orderStatus i (setOrder j st rs) = (if i = j then map_option (\<lambda>_. st) (orderStatus i rs) else orderStatus i rs)"
  by (induction rs) (auto simp: orderStatus_def setOrder_def)

lemma orderStatus_member:
  "ordersOk rs \<Longrightarrow> r \<in> set rs \<Longrightarrow> orderStatus (od_id r) rs = Some (od_status r)"
  by (simp add: orderStatus_def ordersOk_def find_key_distinct)

definition lifeStep :: "(finance_status \<Rightarrow> finance_status \<Rightarrow> bool) \<Rightarrow> order list \<Rightarrow> order list \<Rightarrow> bool" where
  "lifeStep move rs rs' =
     (\<forall>i. orderStatus i rs = orderStatus i rs' \<or> orderStep move (orderStatus i rs) (orderStatus i rs'))"

lemma lifeStep_refl [simp]: "lifeStep move rs rs"
  by (simp add: lifeStep_def)

lemma lifeStep_snoc: "od_status r = St_requested \<Longrightarrow> lifeStep move rs (rs @ [r])"
  by (auto simp: lifeStep_def orderStatus_append orderStep_def)

lemma lifeStep_setOrder:
  "ordersOk rs \<Longrightarrow> r \<in> set rs \<Longrightarrow> move (od_status r) st \<Longrightarrow> lifeStep move rs (setOrder (od_id r) st rs)"
  by (auto simp: lifeStep_def orderStatus_setOrder orderStatus_member orderStep_def)

lemma orders_of_moves [simp]:
  "mv_withdrawals (onWallet u f v) = mv_withdrawals v" "mv_deposits (onWallet u f v) = mv_deposits v"
  "mv_withdrawals (bookLine ev e v) = mv_withdrawals v" "mv_deposits (bookLine ev e v) = mv_deposits v"
  by (simp_all add: onWallet_def bookLine_def)

lemma moneyStep_life:
  assumes "moneyStep v v'" and "moneyOk v"
  shows "lifeStep withdrawalMove (mv_withdrawals v) (mv_withdrawals v') \<and>
    lifeStep (hasTransition depositTransitions) (mv_deposits v) (mv_deposits v')"
  using assms
proof (cases rule: moneyStep.cases)
  case (released r st)
  then show ?thesis using assms(2) by (auto simp: release_def Let_def moneyOk_def intro: lifeStep_setOrder)
next
  case (consumed r)
  then have "withdrawalMove (od_status r) St_paid" by (simp add: withdrawal_moves)
  then show ?thesis using consumed assms(2) by (auto simp: consume_def Let_def moneyOk_def intro: lifeStep_setOrder)
next
  case (credited r)
  then have "hasTransition depositTransitions (od_status r) St_credited"
    by (simp add: hasTransition_def nextStatuses_def depositTransitions_def)
  then show ?thesis using credited assms(2) by (auto simp: credit_def Let_def moneyOk_def intro: lifeStep_setOrder)
next
  case (uncredited r)
  then have "hasTransition depositTransitions (od_status r) St_reversed"
    by (simp add: hasTransition_def nextStatuses_def depositTransitions_def)
  then show ?thesis using uncredited assms(2) by (auto simp: uncredit_def Let_def moneyOk_def intro: lifeStep_setOrder)
qed (use assms(2) in \<open>auto simp: request_def Let_def moneyOk_def intro: lifeStep_setOrder lifeStep_snoc\<close>)

definition withdrawalStatus :: "nat \<Rightarrow> payment_world \<Rightarrow> finance_status option" where
  "withdrawalStatus i w = map_option wd_status (selectLockedWithdrawal i w)"

definition depositStatus :: "nat \<Rightarrow> payment_world \<Rightarrow> finance_status option" where
  "depositStatus i w = map_option dp_status (lockDepositById i w)"

lemma find_view: "find P (map f xs) = map_option f (find (P \<circ> f) xs)"
  by (induction xs) auto

lemma status_view:
  "withdrawalStatus i w = orderStatus i (mv_withdrawals (moneyView w))"
  "depositStatus i w = orderStatus i (mv_deposits (moneyView w))"
  by (simp_all add: withdrawalStatus_def depositStatus_def selectLockedWithdrawal_def lockDepositById_def
      orderStatus_def find_view o_def option.map_comp)

lemma payStep_statuses:
  assumes "payStep w w'" and "moneyOk (moneyView w)"
  shows "(withdrawalStatus i w = withdrawalStatus i w' \<or>
      orderStep withdrawalMove (withdrawalStatus i w) (withdrawalStatus i w')) \<and>
    (depositStatus i w = depositStatus i w' \<or>
      orderStep (hasTransition depositTransitions) (depositStatus i w) (depositStatus i w'))"
  using moneyStep_life [OF payStep_simulated [OF assms] assms(2)] unfolding status_view lifeStep_def by blast

lemma histories_climb:
  assumes "successively payStep (w # ws)" and "moneyOk (moneyView w)"
  shows "successively (\<lambda>s t. s = t \<or> orderStep withdrawalMove s t) (map (withdrawalStatus i) (w # ws)) \<and>
    successively (\<lambda>s t. s = t \<or> orderStep (hasTransition depositTransitions) s t) (map (depositStatus i) (w # ws))"
  using assms
proof (induction ws arbitrary: w)
  case (Cons w' ws)
  then have "payStep w w'" "successively payStep (w' # ws)" by auto
  moreover have "moneyOk (moneyView w')"
    using moneyStep_ok payStep_simulated \<open>payStep w w'\<close> Cons.prems(2) by blast
  ultimately show ?case using Cons.IH [of w'] payStep_statuses [of w w' i] Cons.prems(2) by simp
qed simp

section \<open>A sample run\<close>

text \<open>
  The sample run of \<open>Payment_Run\<close>, evaluated once: a state in which user 5 has two
  withdrawals at the provider.
\<close>

lemma performAll_append:
  "performAll env (xs @ ys) w = (case performAll env xs w of None \<Rightarrow> None | Some w' \<Rightarrow> performAll env ys w')"
  by (induction xs arbitrary: w) (auto split: option.split)

definition rowFacts :: "withdrawal \<Rightarrow> nat \<times> nat \<times> cents \<times> finance_status \<times> bool" where
  "rowFacts r = (wd_id r, wd_userId r, wd_amount r, wd_status r, readManualChannelRequired (wd_metadata r))"

lemma sample_evaluated:
  "(case performAll sampleEnv sampleCommands emptyWorld of
      None \<Rightarrow> False
    | Some w \<Rightarrow>
        map rowFacts (pw_withdrawals w) =
          [(8, 5, 6000, St_provider_processing, False), (9, 5, 7000, St_provider_processing, False)] \<and>
        map dp_id (pw_deposits w) = [7] \<and>
        wl_withdrawable (pw_wallets w 5) = 7000 \<and> wl_locked (pw_wallets w 5) = 13000 \<and>
        map se_settlementReference (pw_settlements w) = [Some ''d'', None])"
  by code_simp

lemma sample_facts:
  "performAll sampleEnv sampleCommands emptyWorld = Some sampleWorld"
  "map rowFacts (pw_withdrawals sampleWorld) =
     [(8, 5, 6000, St_provider_processing, False), (9, 5, 7000, St_provider_processing, False)]"
  "map dp_id (pw_deposits sampleWorld) = [7]"
  "wl_withdrawable (pw_wallets sampleWorld 5) = 7000" "wl_locked (pw_wallets sampleWorld 5) = 13000"
  "map se_settlementReference (pw_settlements sampleWorld) = [Some ''d'', None]"
  using sample_evaluated by (auto simp: sampleWorld_def split: option.splits)

lemma payment_run: "payRun emptyWorld sampleWorld"
  by (rule performAll_payRun [OF sample_facts(1)])

lemma sample_row:
  "\<exists>r. selectLockedWithdrawal 8 sampleWorld = Some r \<and> wd_id r = 8 \<and> wd_userId r = 5 \<and> wd_amount r = 6000 \<and>
     wd_status r = St_provider_processing \<and> \<not> readManualChannelRequired (wd_metadata r)"
  using sample_facts(2) by (auto simp: selectLockedWithdrawal_def rowFacts_def)

lemma sample_splits:
  "\<exists>w0 r w1. payRun emptyWorld w0 \<and>
     createWithdrawal sampleEnv (sampleRequestEnv 8) (sampleRequest 6000) w0 = (Inr r, w1) \<and>
     8 \<notin> wd_id ` set (pw_withdrawals w0) \<and> wd_id r = 8 \<and> payRun w1 sampleWorld"
proof -
  let ?first = "take 4 sampleCommands" and ?create = "CreateWithdrawal (sampleRequestEnv 8) (sampleRequest 6000)"
    and ?later = "drop 5 sampleCommands"
  have "?first @ ?create # ?later = sampleCommands" by (simp add: sampleCommands_def toProcessing_def)
  then have "performAll sampleEnv (?first @ ?create # ?later) emptyWorld = Some sampleWorld"
    using sample_facts(1) by simp
  then obtain w0 w1 where
    w: "performAll sampleEnv ?first emptyWorld = Some w0" "perform sampleEnv ?create w0 = Some w1"
      "performAll sampleEnv ?later w1 = Some sampleWorld"
    unfolding performAll_append performAll.simps by (auto split: option.splits simp del: perform.simps)
  have newId: "rv_newId (sampleRequestEnv 8) = 8" by (simp add: sampleRequestEnv_def)
  obtain r where r: "createWithdrawal sampleEnv (sampleRequestEnv 8) (sampleRequest 6000) w0 = (Inr r, w1)"
    "8 \<notin> wd_id ` set (pw_withdrawals w0)"
    using w(2) by (auto simp: newId split: prod.splits sum.splits if_splits)
  moreover have "wd_id r = 8" using createWithdrawal_rows [OF r(1)] newId by simp
  ultimately show ?thesis
    using performAll_payRun [OF w(1)] performAll_payRun [OF w(3)] by blast
qed

text \<open>
  A second run, with amounts one administrator may approve: the first withdrawal is paid, the
  other is at the provider.  Then the paid one is reversed, and the other cannot be paid.
\<close>

definition straightToProvider :: "nat \<Rightarrow> string \<Rightarrow> pay_command list" where
  "straightToProvider i ref =
     [Approve i (sampleReview 1 ref), Submit i (sampleReview 1 ref), Process i (sampleReview 1 ref)]"

definition paidCommands :: "pay_command list" where
  "paidCommands = take 4 sampleCommands @
     [CreateWithdrawal (sampleRequestEnv 8) (sampleRequest 2000),
      CreateWithdrawal (sampleRequestEnv 9) (sampleRequest 3000)] @
     straightToProvider 8 ''r8'' @ straightToProvider 9 ''r9'' @ [Pay 8 (sampleReview 1 ''p8'')]"

definition paidWorld :: payment_world where
  "paidWorld = the (performAll sampleEnv paidCommands emptyWorld)"

lemma paid_evaluated:
  "(case performAll sampleEnv paidCommands emptyWorld of
      None \<Rightarrow> False
    | Some w \<Rightarrow>
        map rowFacts (pw_withdrawals w) =
          [(8, 5, 2000, St_paid, False), (9, 5, 3000, St_provider_processing, False)] \<and>
        wl_locked (pw_wallets w 5) = 3000 \<and>
        map se_settlementReference (pw_settlements w) = [Some ''d'', None, Some ''p8''] \<and>
        (case reverseWithdrawal sampleEnv 8 (sampleReview 1 ''v8'') w of
           Inl e \<Rightarrow> False
         | Inr (x, w') \<Rightarrow>
             (case payWithdrawal sampleEnv 9 (sampleReview 1 ''p9'') w' of
                Inl e \<Rightarrow> e = Conflict ''Locked balance is insufficient.''
              | Inr y \<Rightarrow> False)))"
  by code_simp

lemma paid_facts:
  "performAll sampleEnv paidCommands emptyWorld = Some paidWorld"
  "map rowFacts (pw_withdrawals paidWorld) =
     [(8, 5, 2000, St_paid, False), (9, 5, 3000, St_provider_processing, False)]"
  "wl_locked (pw_wallets paidWorld 5) = 3000"
  "map se_settlementReference (pw_settlements paidWorld) = [Some ''d'', None, Some ''p8'']"
  using paid_evaluated by (auto simp: paidWorld_def split: option.splits)

lemma paid_then_reversed:
  "\<exists>x w'. reverseWithdrawal sampleEnv 8 (sampleReview 1 ''v8'') paidWorld = Inr (x, w') \<and>
     payWithdrawal sampleEnv 9 (sampleReview 1 ''p9'') w' = Inl (Conflict ''Locked balance is insufficient.'')"
    (is "\<exists>x w'. ?reverse = Inr (x, w') \<and> ?pay w' = _")
proof -
  have "case ?reverse of Inl e \<Rightarrow> False
      | Inr (x, w') \<Rightarrow> (case ?pay w' of Inl e \<Rightarrow> e = Conflict ''Locked balance is insufficient.'' | Inr y \<Rightarrow> False)"
    using paid_evaluated unfolding paid_facts(1) option.case by blast
  then obtain x w' where "?reverse = Inr (x, w')"
    and "case ?pay w' of Inl e \<Rightarrow> e = Conflict ''Locked balance is insufficient.'' | Inr y \<Rightarrow> False"
    by (auto split: sum.splits prod.splits)
  then show ?thesis by (cases "?pay w'") auto
qed

lemma paid_run: "payRun emptyWorld paidWorld"
  by (rule performAll_payRun [OF paid_facts(1)])

end
