(* ===== verification/Payment_Safety.thy ===== *)
theory Payment_Safety
  imports Payment_History
begin

text \<open>
  The properties of the payment services, for every sequence of operations from an empty
  database, and the one operation that breaks them.
\<close>

subsection \<open>Money\<close>





text \<open>
  In every reachable state the ledger has for each withdrawal one line that locks its
  amount and, once it is rejected, reversed or paid, exactly one line that ends the lock; for
  each deposit it has a credit exactly if it was credited, and at most one line that takes it
  back.
\<close>

theorem ledger_lines_of_orders:
  assumes "payRun emptyWorld w"
  shows "(\<forall>r \<in> set (pw_withdrawals w).
      orderLines withdrawTypes (wd_id r) (pw_ledger w) = withdrawalLines (orderOf r)) \<and>
    (\<forall>d \<in> set (pw_deposits w).
      depositLinesOk (depositOrderOf d) (orderLines depositTypes (dp_id d) (pw_ledger w)))"
  using payRun_ok [OF assms] by (simp add: moneyOk_def linesOk_def)

theorem ledger_lines_of_orders_witness:
  "\<exists>r \<in> set (pw_withdrawals paidWorld). wd_id r = 8 \<and>
     orderLines withdrawTypes 8 (pw_ledger paidWorld) =
       [(5, ''withdraw_request'', - 2000), (5, ''withdraw_paid'', - 2000)]"
proof -
  obtain r where "r \<in> set (pw_withdrawals paidWorld)" "rowFacts r = (8, 5, 2000, St_paid, False)"
    using paid_facts(2) by fastforce
  then show ?thesis
    using ledger_lines_of_orders [OF paid_run]
    by (intro bexI [of _ r]) (auto simp: rowFacts_def withdrawalLines_def Let_def)
qed

subsection \<open>Outcomes\<close>





text \<open>
  Reversing a withdrawal that has been paid takes its amount out of the locked balance a
  second time, although its own lock was consumed: if the locked balance, which then only
  covers other withdrawals, is smaller, the strict wallet check fails; if it is not, the open
  withdrawals of the user are no longer covered by it.
\<close>

theorem reversing_paid_drains_other_locks:
  assumes "payRun emptyWorld w" and "selectLockedWithdrawal i w = Some row" and "wd_status row = St_paid"
    and "normalizeOptionalString (fr_settlementReference rv) = Some ref"
    and "Some ref \<notin> set (map se_settlementReference (pw_settlements w))"
  shows "if wl_locked (pw_wallets w (wd_userId row)) < wd_amount row \<and> pe_strict env then
      reverseWithdrawal env i rv w = Inl (InternalInvariant ''Wallet ledger invariant failed.'')
    else \<exists>x w'. reverseWithdrawal env i rv w = Inr (x, w') \<and>
      wl_withdrawable (pw_wallets w' (wd_userId row)) = wl_withdrawable (pw_wallets w (wd_userId row)) + wd_amount row \<and>
      wl_locked (pw_wallets w' (wd_userId row)) = max (wl_locked (pw_wallets w (wd_userId row)) - wd_amount row) 0 \<and>
      openTotal (wd_userId row) (map orderOf (pw_withdrawals w')) =
        openTotal (wd_userId row) (map orderOf (pw_withdrawals w))"
proof -
  let ?u = "wd_userId row" and ?a = "wd_amount row"
  note ok = payRun_ok [OF assms(1)] and mem = selected_order(1) [OF assms(2)]
  have effect: "wl_withdrawable (pw_wallets w' ?u) = wl_withdrawable (pw_wallets w ?u) + ?a \<and>
      wl_locked (pw_wallets w' ?u) = max (wl_locked (pw_wallets w ?u) - ?a) 0 \<and>
      openTotal ?u (map orderOf (pw_withdrawals w')) = openTotal ?u (map orderOf (pw_withdrawals w))"
    if "moneyView w' = release (orderOf row) St_reversed (moneyView w)" for w'
    using arg_cong [OF that, of mv_wallets] arg_cong [OF that, of mv_withdrawals]
      openTotal_setOrder [OF mem, of ?u St_reversed] ok assms(3)
    by (simp add: release_def onWallet_def bookLine_def Let_def moneyOk_def ordersOk_def isOpen_def split: if_splits)
  have "wd_status row \<notin> {St_rejected, St_reversed}" using assms(3) by simp
  note outcome = refundStep_outcome [OF assms(2) this ok _ notes_given(3), of St_reversed True rv env Withdrawal_reverse]
  have "reverseWithdrawal env i rv w =
      refundStep env Withdrawal_reverse St_reversed ''withdrawal_reversed'' True row rv w"
    using assms(2,3) by (simp add: reverseWithdrawal_def)
  then show ?thesis
    using outcome assms(4,5) effect by (auto simp: referenceTaken_def split: if_splits)
qed

theorem reversing_paid_drains_other_locks_witness:
  "\<exists>x w'. reverseWithdrawal sampleEnv 8 (sampleReview 1 ''v8'') paidWorld = Inr (x, w') \<and>
     wl_locked (pw_wallets w' 5) = 1000 \<and> openTotal 5 (map orderOf (pw_withdrawals w')) = 3000 \<and>
     payWithdrawal sampleEnv 9 (sampleReview 1 ''p9'') w' = Inl (Conflict ''Locked balance is insufficient.'')"
proof -
  have ref: "normalizeOptionalString (fr_settlementReference (sampleReview 1 ''v8'')) = Some ''v8''" by code_simp
  obtain r where r: "selectLockedWithdrawal 8 paidWorld = Some r" "wd_status r = St_paid" "wd_userId r = 5"
    "wd_amount r = 2000"
    using paid_facts(2) by (auto simp: selectLockedWithdrawal_def rowFacts_def)
  have "openTotal 5 (map orderOf (pw_withdrawals paidWorld)) = 3000"
    using paid_facts(2) by (auto simp: rowFacts_def isOpen_def)
  then show ?thesis
    using reversing_paid_drains_other_locks [OF paid_run r(1,2) ref, of sampleEnv] paid_then_reversed
      paid_facts(3,4) r(3,4)
    by auto
qed

end
