(* ===== verification/Payment_Controls.thy ===== *)
theory Payment_Controls
  imports Payment_History
begin

text \<open>
  Properties of the controls around the money: approvals, histories of statuses, refused
  requests, the copies of the transition graphs, and the two readings of ledger entry types.
\<close>

subsection \<open>Approvals and histories\<close>

text \<open>
  C6. A withdrawal requested at or over the second-approval threshold never gets past
  \<open>requested\<close> (other than by being rejected or reversed) without the reviews of two different
  administrators, a maker and a checker, whatever operations follow.
\<close>

theorem large_withdrawals_have_two_approvers:
  assumes "payRun emptyWorld w0" and "createWithdrawal env renv rq w0 = (Inr r0, w1)"
    and "rv_newId renv \<notin> wd_id ` set (pw_withdrawals w0)"
    and "0 < cf_secondApprovalThreshold (rv_config renv)"
    and "cf_secondApprovalThreshold (rv_config renv) \<le> rq_amount rq"
    and "payRun w1 w" and "selectLockedWithdrawal (wd_id r0) w = Some r"
    and "wd_status r \<in> {St_approved, St_provider_submitted, St_provider_processing, St_provider_failed, St_paid}"
  shows "\<exists>a b. a \<noteq> b \<and> reviewed w (wd_id r) Maker a \<and> reviewed w (wd_id r) Checker b"
proof -
  have ok1: "approvalsOk w1"
    using payStep_approvals [OF payStep.create [OF assms(2,3)] reachable_approvals [OF assms(1)]] .
  have r0: "r0 \<in> set (pw_withdrawals w1)" "readApprovalsRequired (wd_metadata r0) = 2"
    using createWithdrawal_rows [OF assms(2)] assms(4,5) by (auto simp: readApprovalsRequired_def)
  have kept: "rowsKept w1 w" and ok: "approvalsOk w" using payRun_rowsKept [OF assms(6) ok1] by auto
  obtain r' where r': "r' \<in> set (pw_withdrawals w)" "sameOrder r0 r'" using kept r0(1) by (auto simp: rowsKept_def)
  have "r \<in> set (pw_withdrawals w)" "wd_id r = wd_id r0" using selected(1) [OF assms(7)] by auto
  moreover from this have "r = r'"
    using same_row [of "pw_withdrawals w" r r'] ok r' by (simp add: approvalsOk_def sameOrder_def)
  ultimately have "approvalOk w r" "readApprovalsRequired (wd_metadata r) > 1"
    using ok r'(2) r0(2) by (auto simp: approvalsOk_def sameOrder_def)
  moreover have "wd_status r \<in> afterApproval" using assms(8) by (simp add: afterApproval_def)
  ultimately show ?thesis by (auto simp: approvalOk_def)
qed

theorem large_withdrawals_have_two_approvers_witness:
  "\<exists>a b. a \<noteq> b \<and> reviewed sampleWorld 8 Maker a \<and> reviewed sampleWorld 8 Checker b"
proof -
  obtain w0 r0 w1 where w: "payRun emptyWorld w0" "payRun w1 sampleWorld"
      "createWithdrawal sampleEnv (sampleRequestEnv 8) (sampleRequest 6000) w0 = (Inr r0, w1)"
      "8 \<notin> wd_id ` set (pw_withdrawals w0)" "wd_id r0 = 8"
    using sample_splits by blast
  obtain r where r: "selectLockedWithdrawal 8 sampleWorld = Some r" "wd_id r = 8" "wd_status r = St_provider_processing"
    using sample_row by blast
  show ?thesis
    using large_withdrawals_have_two_approvers [OF w(1,3) _ _ _ w(2), of r] w(4,5) r
    by (simp add: sampleRequestEnv_def sampleRequest_def)
qed




subsection \<open>Refused requests\<close>

text \<open>
  A request that breaks a limit of the kind the service calls suspicious has its suspicion
  recorded inside the transaction, and then the error takes it back: the request is refused
  and what the transaction wrote, the suspicion score included, is as before.
\<close>

theorem suspicion_of_refused_request_is_lost:
  assumes "rv_amlScreen renv = None" and "requestRefusal renv rq w = Some (e, True)"
  shows "pw_suspicionScore (snd (createWithdrawalBody env renv rq w)) (rq_userId rq) =
      pw_suspicionScore w (rq_userId rq) + 1 \<and>
    createWithdrawal env renv rq w = (Inl e, w)"
  using assms by (simp add: createWithdrawalBody_def createWithdrawal_def transaction_def recordSuspiciousActivity_def)

theorem suspicion_of_refused_request_is_lost_witness:
  "createWithdrawal sampleEnv (sampleRequestEnv 8) (sampleRequest 6000) emptyWorld =
     (Inl (Conflict ''Insufficient withdrawable balance.''), emptyWorld)"
proof -
  have "requestRefusal (sampleRequestEnv 8) (sampleRequest 6000) emptyWorld =
      Some (Conflict ''Insufficient withdrawable balance.'', True)"
    by (simp add: requestRefusal_def sampleRequestEnv_def sampleRequest_def emptyWorld_def totalToday_def
        zeroWallet_def)
  then show ?thesis
    using suspicion_of_refused_request_is_lost [of "sampleRequestEnv 8"] by (simp add: sampleRequestEnv_def)
qed

subsection \<open>Statuses\<close>

lemma showStatus_inj [simp]: "showStatus a = showStatus b \<longleftrightarrow> a = b"
  by (cases a; cases b) simp_all

lemma showStatus_nonempty [simp]: "showStatus st \<noteq> []"
  by (cases st) simp_all

lemma find_status: "find (\<lambda>x. x = st) xs = (if st \<in> set xs then Some st else None)"
  by (induction xs) auto

lemma readStatus_iff: "readStatus statuses v = Some st \<longleftrightarrow> v = Some (showStatus st) \<and> st \<in> set statuses"
  by (auto simp: readStatus_def find_status dest!: find_SomeD split: option.splits)

lemma isStatus_iff: "isStatusOf statuses v \<longleftrightarrow> (\<exists>st. readStatus statuses v = Some st)"
  by (auto simp: readStatus_iff isStatusOf_def split: option.splits)

lemma parse_iff:
  "parseDepositStatus v = Inr st \<longleftrightarrow> readStatus DEPOSIT_STATUSES v = Some st"
  "parseWithdrawalStatus v = Inr st \<longleftrightarrow> readStatus WITHDRAWAL_STATUSES v = Some st"
  by (auto simp: parseDepositStatus_def parseWithdrawalStatus_def split: option.splits)

text \<open>A table and a graph that hold the same next statuses allow the same.\<close>

lemma canTransition_hasTransition:
  assumes "\<And>s. set (nextStatuses table s) = set (nextStatuses graph s)"
  shows "canTransitionStatus table (Some (showStatus st)) to \<longleftrightarrow> hasTransition graph st to"
proof -
  have "nextStatuses table st = []" if "st \<notin> set (map fst table)"
  proof -
    have "map_of table st = None" using that by (simp add: map_of_eq_None_iff)
    then show ?thesis by (simp add: nextStatuses_def)
  qed
  then show ?thesis using assms [of st]
    by (auto simp: canTransitionStatus_def hasTransition_def readStatus_def find_status)
qed

text \<open>
  C29. Reading a status column gives a status exactly when the column holds its name and the
  flow has it; printed statuses are read back.  The transition tables of \<open>finance-order.ts\<close>
  allow, on printed statuses, exactly what the graphs of \<open>state-machine.ts\<close> allow.
\<close>

theorem statuses_read_back:
  "(parseDepositStatus v = Inr st \<longleftrightarrow> v = Some (showStatus st) \<and> st \<in> set DEPOSIT_STATUSES) \<and>
   (parseWithdrawalStatus v = Inr st \<longleftrightarrow> v = Some (showStatus st) \<and> st \<in> set WITHDRAWAL_STATUSES) \<and>
   (isDepositStatus v \<longleftrightarrow> (\<exists>s. parseDepositStatus v = Inr s)) \<and>
   (isWithdrawalStatus v \<longleftrightarrow> (\<exists>s. parseWithdrawalStatus v = Inr s)) \<and>
   (canTransitionDepositStatus (Some (showStatus st)) to \<longleftrightarrow> hasTransition depositTransitions st to) \<and>
   (canTransitionWithdrawalStatus (Some (showStatus st)) to \<longleftrightarrow> hasTransition withdrawalTransitions st to)"
proof -
  have "set (nextStatuses DEPOSIT_STATUS_TRANSITIONS s) = set (nextStatuses depositTransitions s)"
    "set (nextStatuses WITHDRAWAL_STATUS_TRANSITIONS s) = set (nextStatuses withdrawalTransitions s)" for s
    by (cases s; auto simp: nextStatuses_def DEPOSIT_STATUS_TRANSITIONS_def depositTransitions_def
        WITHDRAWAL_STATUS_TRANSITIONS_def withdrawalTransitions_def)+
  then have "canTransitionDepositStatus (Some (showStatus st)) to \<longleftrightarrow> hasTransition depositTransitions st to"
    "canTransitionWithdrawalStatus (Some (showStatus st)) to \<longleftrightarrow> hasTransition withdrawalTransitions st to"
    unfolding canTransitionDepositStatus_def canTransitionWithdrawalStatus_def
    by (simp_all add: canTransition_hasTransition)
  then show ?thesis
    unfolding parse_iff isDepositStatus_def isWithdrawalStatus_def isStatus_iff by (simp add: readStatus_iff)
qed

subsection \<open>What a ledger line is worth\<close>




end
