(* ===== verification/Asset_Ledger.thy ===== *)
theory Asset_Ledger
  imports Money
begin

text \<open>
  The asset accounts of the economy, \<open>modules/economy/service.ts\<close>: every user has a balance of
  each asset, part of it locked, and every change writes a line of the asset ledger.  The
  balances are a map from users and assets to rows, as the unique index on the two columns
  makes them; the ledger is the list of its lines, oldest first.  The audit fields of a line
  other than its idempotency key are left out, and so are time stamps.  The clock, the freeze
  records and new ids come in an environment.
\<close>

subsection \<open>Tables\<close>

datatype asset_code = B_LUCK | IAP_VOUCHER

definition DEFAULT_ASSET_CODES :: "asset_code list" where
  "DEFAULT_ASSET_CODES = [B_LUCK, IAP_VOUCHER]"

record asset_balance =
  available_balance :: cents
  locked_balance :: cents
  lifetime_earned :: cents
  lifetime_spent :: cents

text \<open>The metadata the modelled code writes into a line.\<close>

record line_meta =
  lockedBalanceBefore :: cents
  lockedBalanceAfter :: cents
  lm_lockedAmount :: "cents option"
  lm_realizedEarned :: "cents option"
  lm_realizedSpent :: "cents option"
  lm_counterpartyUserId :: "nat option"
  lm_energyCost :: "int option"
  lm_giftEnergyBefore :: "int option"
  lm_giftEnergyAfter :: "int option"

record asset_line =
  el_userId :: nat
  el_assetCode :: asset_code
  el_entryType :: string
  el_amount :: cents
  el_balanceBefore :: cents
  el_balanceAfter :: cents
  el_referenceType :: "string option"
  el_referenceId :: "nat option"
  el_idempotencyKey :: "string option"
  el_metadata :: line_meta

record gift_energy =
  current_energy :: int
  max_energy :: int
  intervalHours :: int
  last_refill_at :: int

record gift_transfer =
  gt_id :: nat
  gt_senderUserId :: nat
  gt_receiverUserId :: nat
  gt_assetCode :: asset_code
  gt_amount :: cents
  gt_energyCost :: int
  gt_status :: string
  gt_idempotencyKey :: string
  gt_giftEnergyBefore :: int
  gt_giftEnergyAfter :: int

record economy =
  ec_balances :: "nat \<times> asset_code \<Rightarrow> asset_balance option"
  ec_lines :: "asset_line list"
  ec_energy :: "nat \<Rightarrow> gift_energy option"
  ec_gifts :: "gift_transfer list"

record economy_env =
  ee_now :: int
  ee_frozen :: "nat \<Rightarrow> bool"
  ee_newId :: nat

text \<open>What a caller asks for, and what it gets back.\<close>

record asset_payload =
  am_userId :: nat
  am_assetCode :: asset_code
  am_amount :: rat
  am_entryType :: string
  am_referenceType :: "string option"
  am_referenceId :: "nat option"
  am_idempotencyKey :: "string option"

record settle_payload =
  sl_userId :: nat
  sl_assetCode :: asset_code
  sl_lockedAmount :: rat
  sl_payoutAmount :: rat
  sl_entryType :: string
  sl_referenceType :: "string option"
  sl_referenceId :: "nat option"
  sl_idempotencyKey :: "string option"

record gift_payload =
  gp_senderUserId :: nat
  gp_receiverUserId :: nat
  gp_assetCode :: asset_code
  gp_amount :: rat
  gp_energyCost :: rat
  gp_idempotencyKey :: string

record asset_result =
  ar_userId :: nat
  ar_assetCode :: asset_code
  ar_amount :: cents
  ar_availableBefore :: cents
  ar_availableAfter :: cents
  ar_lockedBefore :: cents
  ar_lockedAfter :: cents
  ar_replayed :: bool

subsection \<open>Amounts\<close>

definition normalizePositiveAmount :: "rat \<Rightarrow> cents res" where
  "normalizePositiveAmount v =
     (let amount = toCents v
      in if amount \<le> 0 then Inl (Unprocessable ''Amount must be greater than 0.'') else Inr amount)"

definition normalizeNonZeroAmount :: "rat \<Rightarrow> cents res" where
  "normalizeNonZeroAmount v =
     (let amount = toCents v
      in if amount = 0 then Inl (Unprocessable ''Amount must not be 0.'') else Inr amount)"

definition normalizeNonNegativeAmount :: "rat \<Rightarrow> cents res" where
  "normalizeNonNegativeAmount v =
     (let amount = toCents v
      in if amount < 0 then Inl (Unprocessable ''Amount must be 0 or greater.'') else Inr amount)"

subsection \<open>Rows\<close>

definition zeroBalance :: asset_balance where
  "zeroBalance = \<lparr>available_balance = 0, locked_balance = 0, lifetime_earned = 0, lifetime_spent = 0\<rparr>"

text \<open>\<open>INSERT \<dots> ON CONFLICT DO NOTHING\<close> for every asset.\<close>

definition ensureUserAssetBalances :: "nat \<Rightarrow> economy \<Rightarrow> economy" where
  "ensureUserAssetBalances uid ec =
     ec\<lparr>ec_balances := fold (\<lambda>a m. if m (uid, a) = None then m((uid, a) \<mapsto> zeroBalance) else m)
          DEFAULT_ASSET_CODES (ec_balances ec)\<rparr>"

definition lockUserAssetBalance :: "nat \<Rightarrow> asset_code \<Rightarrow> economy \<Rightarrow> (asset_balance \<times> economy) res" where
  "lockUserAssetBalance uid a ec =
     (let ec' = ensureUserAssetBalances uid ec
      in case ec_balances ec' (uid, a) of
           None \<Rightarrow> Inl (PersistenceError ''Asset balance not found.'')
         | Some row \<Rightarrow> Inr (row, ec'))"

definition setBalance :: "nat \<Rightarrow> asset_code \<Rightarrow> asset_balance \<Rightarrow> economy \<Rightarrow> economy" where
  "setBalance uid a row ec = ec\<lparr>ec_balances := (ec_balances ec)((uid, a) \<mapsto> row)\<rparr>"

text \<open>An empty key counts as no key when a line is looked up.\<close>

definition findIdempotentLedgerEntry ::
  "nat \<Rightarrow> asset_code \<Rightarrow> string option \<Rightarrow> economy \<Rightarrow> asset_line option" where
  "findIdempotentLedgerEntry uid a key ec =
     (if key = None \<or> key = Some [] then None
      else find (\<lambda>l. el_userId l = uid \<and> el_assetCode l = a \<and> el_idempotencyKey l = key) (ec_lines ec))"

text \<open>The unique index on user, asset and key; null keys do not collide.\<close>

fun insertEconomyLedgerEntries :: "asset_line list \<Rightarrow> economy \<Rightarrow> economy res" where
  "insertEconomyLedgerEntries [] ec = Inr ec"
| "insertEconomyLedgerEntries (l # ls) ec =
     (if el_idempotencyKey l \<noteq> None \<and>
         (\<exists>m \<in> set (ec_lines ec). el_userId m = el_userId l \<and> el_assetCode m = el_assetCode l \<and>
            el_idempotencyKey m = el_idempotencyKey l)
      then Inl (PlainError ''duplicate key: economy_ledger_entries_user_asset_idempotency_unique'')
      else insertEconomyLedgerEntries ls (ec\<lparr>ec_lines := ec_lines ec @ [l]\<rparr>))"

definition toLockedSnapshot :: "cents \<Rightarrow> cents \<Rightarrow> line_meta" where
  "toLockedSnapshot before after =
     \<lparr>lockedBalanceBefore = before, lockedBalanceAfter = after, lm_lockedAmount = None,
      lm_realizedEarned = None, lm_realizedSpent = None, lm_counterpartyUserId = None,
      lm_energyCost = None, lm_giftEnergyBefore = None, lm_giftEnergyAfter = None\<rparr>"

definition readLockedSnapshot :: "line_meta \<Rightarrow> cents \<times> cents" where
  "readLockedSnapshot m = (lockedBalanceBefore m, lockedBalanceAfter m)"

text \<open>The answer to a request that was carried out before.\<close>

definition replayResult :: "nat \<Rightarrow> asset_code \<Rightarrow> cents \<Rightarrow> asset_line \<Rightarrow> asset_result" where
  "replayResult uid a amount l =
     \<lparr>ar_userId = uid, ar_assetCode = a, ar_amount = amount,
      ar_availableBefore = el_balanceBefore l, ar_availableAfter = el_balanceAfter l,
      ar_lockedBefore = fst (readLockedSnapshot (el_metadata l)),
      ar_lockedAfter = snd (readLockedSnapshot (el_metadata l)), ar_replayed = True\<rparr>"

definition freshResult ::
  "nat \<Rightarrow> asset_code \<Rightarrow> cents \<Rightarrow> asset_balance \<Rightarrow> asset_balance \<Rightarrow> asset_result" where
  "freshResult uid a amount row next =
     \<lparr>ar_userId = uid, ar_assetCode = a, ar_amount = amount,
      ar_availableBefore = available_balance row, ar_availableAfter = available_balance next,
      ar_lockedBefore = locked_balance row, ar_lockedAfter = locked_balance next,
      ar_replayed = False\<rparr>"

subsection \<open>Changing one account\<close>

text \<open>
  A computation takes the amount and the row and returns the ledger's amount and the new row.
  (\<open>applyLedgerMutation\<close>; the name is taken by the wallet's.)
\<close>

definition applyAssetLedgerMutation ::
  "(cents \<Rightarrow> asset_balance \<Rightarrow> (cents \<times> asset_balance) res) \<Rightarrow> asset_payload \<Rightarrow> economy \<Rightarrow>
     (asset_result \<times> economy) res" where
  "applyAssetLedgerMutation compute p ec =
     (let uid = am_userId p; a = am_assetCode p
      in case findIdempotentLedgerEntry uid a (am_idempotencyKey p) ec of
           Some l \<Rightarrow> Inr (replayResult uid a (toCents (am_amount p)) l, ec)
         | None \<Rightarrow>
             bind_res (normalizePositiveAmount (am_amount p)) (\<lambda>amount.
             bind_res (lockUserAssetBalance uid a ec) (\<lambda>(row, ec1).
             bind_res (compute amount row) (\<lambda>(ledgerAmount, next).
             bind_res (insertEconomyLedgerEntries
                 [\<lparr>el_userId = uid, el_assetCode = a, el_entryType = am_entryType p,
                   el_amount = ledgerAmount, el_balanceBefore = available_balance row,
                   el_balanceAfter = available_balance next, el_referenceType = am_referenceType p,
                   el_referenceId = am_referenceId p, el_idempotencyKey = am_idempotencyKey p,
                   el_metadata = toLockedSnapshot (locked_balance row) (locked_balance next)\<rparr>]
                 (setBalance uid a next ec1)) (\<lambda>ec2.
             Inr (freshResult uid a amount row next, ec2))))))"

definition creditCompute :: "cents \<Rightarrow> asset_balance \<Rightarrow> (cents \<times> asset_balance) res" where
  "creditCompute amount row =
     Inr (amount, row\<lparr>available_balance := available_balance row + amount,
                      lifetime_earned := lifetime_earned row + amount\<rparr>)"

definition debitCompute :: "cents \<Rightarrow> asset_balance \<Rightarrow> (cents \<times> asset_balance) res" where
  "debitCompute amount row =
     (if available_balance row < amount then Inl (Conflict ''Insufficient asset balance.'')
      else Inr (- amount, row\<lparr>available_balance := available_balance row - amount,
                             lifetime_spent := lifetime_spent row + amount\<rparr>))"

definition lockCompute :: "cents \<Rightarrow> asset_balance \<Rightarrow> (cents \<times> asset_balance) res" where
  "lockCompute amount row =
     (if available_balance row < amount then Inl (Conflict ''Insufficient asset balance.'')
      else Inr (- amount, row\<lparr>available_balance := available_balance row - amount,
                             locked_balance := locked_balance row + amount\<rparr>))"

definition unlockCompute :: "cents \<Rightarrow> asset_balance \<Rightarrow> (cents \<times> asset_balance) res" where
  "unlockCompute amount row =
     (if locked_balance row < amount then Inl (Conflict ''Insufficient locked asset balance.'')
      else Inr (amount, row\<lparr>available_balance := available_balance row + amount,
                           locked_balance := locked_balance row - amount\<rparr>))"

definition creditAsset :: "asset_payload \<Rightarrow> economy \<Rightarrow> (asset_result \<times> economy) res" where
  "creditAsset = applyAssetLedgerMutation creditCompute"

definition debitAsset :: "asset_payload \<Rightarrow> economy \<Rightarrow> (asset_result \<times> economy) res" where
  "debitAsset = applyAssetLedgerMutation debitCompute"

definition lockAsset :: "asset_payload \<Rightarrow> economy \<Rightarrow> (asset_result \<times> economy) res" where
  "lockAsset = applyAssetLedgerMutation lockCompute"

definition unlockAsset :: "asset_payload \<Rightarrow> economy \<Rightarrow> (asset_result \<times> economy) res" where
  "unlockAsset = applyAssetLedgerMutation unlockCompute"


text \<open>
  Giving locked money back in part: what was locked leaves the lock, what is paid becomes
  available, and the difference counts as earned or spent.  A settlement that pays nothing
  writes no line and looks for none.
\<close>

definition settleLockedAsset :: "settle_payload \<Rightarrow> economy \<Rightarrow> (asset_result \<times> economy) res" where
  "settleLockedAsset p ec =
     (let uid = sl_userId p; a = sl_assetCode p;
          shouldPersistLedgerEntry = toCents (sl_payoutAmount p) > 0
      in case (if shouldPersistLedgerEntry then findIdempotentLedgerEntry uid a (sl_idempotencyKey p) ec
               else None) of
           Some l \<Rightarrow> Inr (replayResult uid a (el_amount l) l, ec)
         | None \<Rightarrow>
             bind_res (normalizePositiveAmount (sl_lockedAmount p)) (\<lambda>lockedAmount.
             bind_res (normalizeNonNegativeAmount (sl_payoutAmount p)) (\<lambda>payoutAmount.
             bind_res (lockUserAssetBalance uid a ec) (\<lambda>(row, ec1).
             if locked_balance row < lockedAmount
             then Inl (Conflict ''Insufficient locked asset balance.'')
             else
               let realizedEarned = (if payoutAmount > lockedAmount then payoutAmount - lockedAmount else 0);
                   realizedSpent = (if lockedAmount > payoutAmount then lockedAmount - payoutAmount else 0);
                   next = \<lparr>available_balance = available_balance row + payoutAmount,
                           locked_balance = locked_balance row - lockedAmount,
                           lifetime_earned = lifetime_earned row + realizedEarned,
                           lifetime_spent = lifetime_spent row + realizedSpent\<rparr>;
                   ec2 = setBalance uid a next ec1
               in bind_res
                    (if payoutAmount > 0
                     then insertEconomyLedgerEntries
                       [\<lparr>el_userId = uid, el_assetCode = a, el_entryType = sl_entryType p,
                         el_amount = payoutAmount, el_balanceBefore = available_balance row,
                         el_balanceAfter = available_balance next,
                         el_referenceType = sl_referenceType p, el_referenceId = sl_referenceId p,
                         el_idempotencyKey = sl_idempotencyKey p,
                         el_metadata = (toLockedSnapshot (locked_balance row) (locked_balance next))
                           \<lparr>lm_lockedAmount := Some lockedAmount,
                            lm_realizedEarned := Some realizedEarned,
                            lm_realizedSpent := Some realizedSpent\<rparr>\<rparr>] ec2
                     else Inr ec2)
                    (\<lambda>ec3. Inr (freshResult uid a payoutAmount row next, ec3))))))"

text \<open>
  Changing what is locked by a signed amount, for the winnings and losses of a table.  The
  available balance stays, so the line has the same balance before and after.
\<close>

definition adjustLockedAsset :: "asset_payload \<Rightarrow> economy \<Rightarrow> (asset_result \<times> economy) res" where
  "adjustLockedAsset p ec =
     (let uid = am_userId p; a = am_assetCode p
      in case findIdempotentLedgerEntry uid a (am_idempotencyKey p) ec of
           Some l \<Rightarrow> Inr (replayResult uid a (el_amount l) l, ec)
         | None \<Rightarrow>
             bind_res (normalizeNonZeroAmount (am_amount p)) (\<lambda>signedDelta.
             bind_res (lockUserAssetBalance uid a ec) (\<lambda>(row, ec1).
             let lockedAfter = locked_balance row + signedDelta;
                 next = row\<lparr>locked_balance := lockedAfter\<rparr>
             in if lockedAfter < 0 then Inl (Conflict ''Insufficient locked asset balance.'')
                else bind_res (insertEconomyLedgerEntries
                   [\<lparr>el_userId = uid, el_assetCode = a, el_entryType = am_entryType p,
                     el_amount = signedDelta, el_balanceBefore = available_balance row,
                     el_balanceAfter = available_balance row, el_referenceType = am_referenceType p,
                     el_referenceId = am_referenceId p, el_idempotencyKey = am_idempotencyKey p,
                     el_metadata = toLockedSnapshot (locked_balance row) lockedAfter\<rparr>]
                   (setBalance uid a next ec1)) (\<lambda>ec2.
                 Inr (freshResult uid a signedDelta row next, ec2)))))"

subsection \<open>Reading\<close>

definition listUserAssetBalances :: "nat \<Rightarrow> economy \<Rightarrow> (asset_code \<times> asset_balance) list \<times> economy" where
  "listUserAssetBalances uid ec =
     (let ec' = ensureUserAssetBalances uid ec
      in (map (\<lambda>a. (a, case ec_balances ec' (uid, a) of None \<Rightarrow> zeroBalance | Some row \<Rightarrow> row))
            DEFAULT_ASSET_CODES, ec'))"

subsection \<open>Accounts and their lines\<close>

text \<open>The row of an account, empty when there is none yet, and the lines of the account.\<close>

definition balanceOf :: "nat \<Rightarrow> asset_code \<Rightarrow> economy \<Rightarrow> asset_balance" where
  "balanceOf uid a ec = (case ec_balances ec (uid, a) of None \<Rightarrow> zeroBalance | Some row \<Rightarrow> row)"

definition accountLines :: "nat \<Rightarrow> asset_code \<Rightarrow> economy \<Rightarrow> asset_line list" where
  "accountLines uid a ec = filter (\<lambda>l. el_userId l = uid \<and> el_assetCode l = a) (ec_lines ec)"

named_theorems asset_simps

lemma balanceOf_ensure [asset_simps]: "balanceOf u b (ensureUserAssetBalances uid ec) = balanceOf u b ec"
  by (cases b) (auto simp: balanceOf_def ensureUserAssetBalances_def DEFAULT_ASSET_CODES_def)

lemma lines_ensure [asset_simps]: "ec_lines (ensureUserAssetBalances uid ec) = ec_lines ec"
  "ec_energy (ensureUserAssetBalances uid ec) = ec_energy ec"
  "ec_gifts (ensureUserAssetBalances uid ec) = ec_gifts ec"
  by (simp_all add: ensureUserAssetBalances_def)

lemma lockUserAssetBalance_eq [asset_simps]:
  "lockUserAssetBalance uid a ec = Inr (balanceOf uid a ec, ensureUserAssetBalances uid ec)"
  by (cases a) (auto simp: lockUserAssetBalance_def balanceOf_def ensureUserAssetBalances_def
      DEFAULT_ASSET_CODES_def Let_def split: option.splits)

lemma balanceOf_setBalance [asset_simps]:
  "balanceOf u b (setBalance uid a row ec) = (if u = uid \<and> b = a then row else balanceOf u b ec)"
  by (simp add: balanceOf_def setBalance_def)

lemma lines_setBalance [asset_simps]: "ec_lines (setBalance uid a row ec) = ec_lines ec"
  "ec_energy (setBalance uid a row ec) = ec_energy ec" "ec_gifts (setBalance uid a row ec) = ec_gifts ec"
  by (simp_all add: setBalance_def)

lemma insert_one [asset_simps]:
  "insertEconomyLedgerEntries [l] ec = Inr ec' \<longleftrightarrow>
     ec' = ec\<lparr>ec_lines := ec_lines ec @ [l]\<rparr> \<and>
     (el_idempotencyKey l = None \<or>
      (\<forall>m \<in> set (ec_lines ec). el_userId m = el_userId l \<longrightarrow> el_assetCode m = el_assetCode l \<longrightarrow>
          el_idempotencyKey m \<noteq> el_idempotencyKey l))"
  by (auto simp: insertEconomyLedgerEntries.simps)

declare insertEconomyLedgerEntries.simps [simp del]

lemma balanceOf_lines [asset_simps]: "balanceOf u b (ec\<lparr>ec_lines := ls\<rparr>) = balanceOf u b ec"
  "balanceOf u b (ec\<lparr>ec_energy := es\<rparr>) = balanceOf u b ec"
  "balanceOf u b (ec\<lparr>ec_gifts := gs\<rparr>) = balanceOf u b ec"
  by (simp_all add: balanceOf_def)

lemma normalizePositive_iff [asset_simps]:
  "normalizePositiveAmount v = Inr n \<longleftrightarrow> n = toCents v \<and> 0 < n"
  by (auto simp: normalizePositiveAmount_def Let_def)

lemma normalizeNonNegative_iff [asset_simps]:
  "normalizeNonNegativeAmount v = Inr n \<longleftrightarrow> n = toCents v \<and> 0 \<le> n"
  by (auto simp: normalizeNonNegativeAmount_def Let_def)

lemma normalizeNonZero_iff [asset_simps]:
  "normalizeNonZeroAmount v = Inr n \<longleftrightarrow> n = toCents v \<and> n \<noteq> 0"
  by (auto simp: normalizeNonZeroAmount_def Let_def)

section \<open>Gifts\<close>

text \<open>
  Gifts of an asset from one user to another and the energy they cost
  (\<open>transferAssetGift\<close> and \<open>applyGiftEnergyRefill\<close> of \<open>modules/economy/service.ts\<close>).
\<close>

definition DEFAULT_GIFT_ENERGY_MAX :: int where "DEFAULT_GIFT_ENERGY_MAX = 10"

definition DEFAULT_GIFT_INTERVAL_HOURS :: int where "DEFAULT_GIFT_INTERVAL_HOURS = 24"

text \<open>\<open>Math.trunc\<close>.\<close>

definition js_trunc :: "rat \<Rightarrow> int" where
  "js_trunc x = (if 0 \<le> x then \<lfloor>x\<rfloor> else \<lceil>x\<rceil>)"

definition ensureGiftEnergyAccount :: "int \<Rightarrow> nat \<Rightarrow> economy \<Rightarrow> economy" where
  "ensureGiftEnergyAccount now uid ec =
     (if ec_energy ec uid = None
      then ec\<lparr>ec_energy := (ec_energy ec)(uid \<mapsto>
              \<lparr>current_energy = DEFAULT_GIFT_ENERGY_MAX, max_energy = DEFAULT_GIFT_ENERGY_MAX,
               intervalHours = DEFAULT_GIFT_INTERVAL_HOURS, last_refill_at = now\<rparr>)\<rparr>
      else ec)"

definition lockGiftEnergyAccount :: "int \<Rightarrow> nat \<Rightarrow> economy \<Rightarrow> (gift_energy \<times> economy) res" where
  "lockGiftEnergyAccount now uid ec =
     (let ec' = ensureGiftEnergyAccount now uid ec
      in case ec_energy ec' uid of
           None \<Rightarrow> Inl (PersistenceError ''Gift energy account not found.'')
         | Some row \<Rightarrow> Inr (row, ec'))"

text \<open>A full refill once the interval is over; clocks are in milliseconds.\<close>

definition applyGiftEnergyRefill :: "int \<Rightarrow> nat \<Rightarrow> gift_energy \<Rightarrow> economy \<Rightarrow> gift_energy \<times> economy" where
  "applyGiftEnergyRefill now uid row ec =
     (let maxEnergy = max 0 (max_energy row); currentEnergy = max 0 (current_energy row);
          intervalMs = max 1 (intervalHours row) * 60 * 60 * 1000
      in if now - last_refill_at row < intervalMs
         then (row\<lparr>current_energy := currentEnergy, max_energy := maxEnergy\<rparr>, ec)
         else (row\<lparr>current_energy := maxEnergy, max_energy := maxEnergy, last_refill_at := now\<rparr>,
               ec\<lparr>ec_energy := (ec_energy ec)(uid \<mapsto>
                    row\<lparr>current_energy := maxEnergy, last_refill_at := now\<rparr>)\<rparr>))"

definition getGiftEnergyAccount :: "int \<Rightarrow> nat \<Rightarrow> economy \<Rightarrow> (gift_energy \<times> economy) res" where
  "getGiftEnergyAccount now uid ec =
     bind_res (lockGiftEnergyAccount now uid ec) (\<lambda>(row, ec1).
       Inr (applyGiftEnergyRefill now uid row ec1))"

text \<open>The charge for a gift: the energy before and after, nothing when the gift is free.\<close>

definition chargeGiftEnergy :: "int \<Rightarrow> nat \<Rightarrow> int \<Rightarrow> economy \<Rightarrow> (int \<times> int \<times> economy) res" where
  "chargeGiftEnergy now uid energyCost ec =
     (if energyCost \<le> 0 then Inr (0, 0, ec)
      else bind_res (lockGiftEnergyAccount now uid ec) (\<lambda>(row, ec1).
        let (resolved, ec2) = applyGiftEnergyRefill now uid row ec1;
            giftEnergyBefore = current_energy resolved;
            giftEnergyAfter = giftEnergyBefore - energyCost
        in if giftEnergyBefore < energyCost then Inl (Conflict ''Gift energy exhausted.'')
           else Inr (giftEnergyBefore, giftEnergyAfter,
                  ec2\<lparr>ec_energy := (ec_energy ec2)(uid := map_option (\<lambda>r.
                       r\<lparr>current_energy := giftEnergyAfter, last_refill_at := last_refill_at resolved\<rparr>)
                       (ec_energy ec2 uid))\<rparr>)))"

text \<open>
  The lines of a gift carry its idempotency key, and so does the gift; the key is unique
  among gifts, and among the lines of an account.
\<close>

definition giftLine ::
  "nat \<Rightarrow> string \<Rightarrow> cents \<Rightarrow> cents \<Rightarrow> cents \<Rightarrow> nat \<Rightarrow> string \<Rightarrow> line_meta \<Rightarrow> asset_line" where
  "giftLine uid entryType amount before after ref key meta =
     \<lparr>el_userId = uid, el_assetCode = B_LUCK, el_entryType = entryType, el_amount = amount,
      el_balanceBefore = before, el_balanceAfter = after, el_referenceType = Some ''gift_transfer'',
      el_referenceId = Some ref, el_idempotencyKey = Some key, el_metadata = meta\<rparr>"

text \<open>Both updates write the columns they name; a row keeps its others.\<close>

definition moveGift :: "nat \<Rightarrow> nat \<Rightarrow> cents \<Rightarrow> asset_balance \<Rightarrow> asset_balance \<Rightarrow> economy \<Rightarrow> economy" where
  "moveGift sender receiver amount senderRow receiverRow ec =
     (let updateSender = (\<lambda>r. r\<lparr>available_balance := available_balance senderRow - amount,
                                lifetime_spent := lifetime_spent senderRow + amount\<rparr>);
          updateReceiver = (\<lambda>r. r\<lparr>available_balance := available_balance receiverRow + amount,
                                  lifetime_earned := lifetime_earned receiverRow + amount\<rparr>)
      in ec\<lparr>ec_balances := (\<lambda>k.
            if k = (receiver, B_LUCK) then map_option updateReceiver (ec_balances ec k)
            else if k = (sender, B_LUCK) then map_option updateSender (ec_balances ec k)
            else ec_balances ec k)\<rparr>)"

definition transferAssetGift ::
  "economy_env \<Rightarrow> gift_payload \<Rightarrow> economy \<Rightarrow> ((gift_transfer \<times> bool) \<times> economy) res" where
  "transferAssetGift env p ec =
     (let key = js_trim (gp_idempotencyKey p); sender = gp_senderUserId p; receiver = gp_receiverUserId p
      in if key = [] then Inl (Unprocessable ''Idempotency key is required.'')
         else if sender = receiver then Inl (Conflict ''Cannot send a gift to the same user.'')
         else if gp_assetCode p \<noteq> B_LUCK then Inl (Unprocessable ''Only B luck can be sent as a gift.'')
         else case find (\<lambda>g. gt_idempotencyKey g = key) (ec_gifts ec) of
           Some g \<Rightarrow> Inr ((g, True), ec)
         | None \<Rightarrow>
             bind_res (normalizePositiveAmount (gp_amount p)) (\<lambda>amount.
             let energyCost = max 0 (js_trunc (gp_energyCost p)) in
             bind_res (lockUserAssetBalance (min sender receiver) B_LUCK ec) (\<lambda>(row1, ec1).
             bind_res (lockUserAssetBalance (max sender receiver) B_LUCK ec1) (\<lambda>(row2, ec2).
             let senderRow = (if sender < receiver then row1 else row2);
                 receiverRow = (if sender < receiver then row2 else row1)
             in if ee_frozen env sender
                then Inl (Conflict ''Gift ability is currently frozen for this account.'')
                else if ee_frozen env receiver
                then Inl (Conflict ''Gift recipient is not eligible to receive gifts.'')
                else if available_balance senderRow < amount
                then Inl (Conflict ''Insufficient asset balance.'')
                else
                  bind_res (chargeGiftEnergy (ee_now env) sender energyCost ec2)
                    (\<lambda>(giftEnergyBefore, giftEnergyAfter, ec3).
                  let gift = \<lparr>gt_id = ee_newId env, gt_senderUserId = sender,
                              gt_receiverUserId = receiver, gt_assetCode = gp_assetCode p,
                              gt_amount = amount, gt_energyCost = energyCost,
                              gt_status = ''completed'', gt_idempotencyKey = key,
                              gt_giftEnergyBefore = giftEnergyBefore,
                              gt_giftEnergyAfter = giftEnergyAfter\<rparr>;
                      ec4 = moveGift sender receiver amount senderRow receiverRow
                              (ec3\<lparr>ec_gifts := ec_gifts ec3 @ [gift]\<rparr>);
                      senderLine = giftLine sender ''gift_send'' (- amount) (available_balance senderRow)
                        (available_balance senderRow - amount) (gt_id gift) key
                        ((toLockedSnapshot (locked_balance senderRow) (locked_balance senderRow))
                          \<lparr>lm_counterpartyUserId := Some receiver, lm_energyCost := Some energyCost,
                           lm_giftEnergyBefore := Some giftEnergyBefore,
                           lm_giftEnergyAfter := Some giftEnergyAfter\<rparr>);
                      receiverLine = giftLine receiver ''gift_receive'' amount
                        (available_balance receiverRow) (available_balance receiverRow + amount)
                        (gt_id gift) key
                        ((toLockedSnapshot (locked_balance receiverRow) (locked_balance receiverRow))
                          \<lparr>lm_counterpartyUserId := Some sender\<rparr>)
                  in bind_res (insertEconomyLedgerEntries [senderLine, receiverLine] ec4) (\<lambda>ec5.
                     Inr ((gift, False), ec5)))))))"

end
