(* ===== verification/Asset_Accounts.thy ===== *)
theory Asset_Accounts
  imports Asset_Ledger
begin

text \<open>
  What every operation on the asset accounts keeps: no balance is negative, the lines of an
  account lead from zero to its available balance, and what an account holds is what it
  earned and did not spend, but for the adjustments of its locked balance.
\<close>

subsection \<open>The invariant\<close>

text \<open>
  The lines of an account join up; a line either changes the available balance by its amount
  or, for an adjustment of the lock, leaves it.
\<close>

fun chained :: "cents \<Rightarrow> asset_line list \<Rightarrow> cents \<Rightarrow> bool" where
  "chained b [] e = (b = e)"
| "chained b (l # ls) e =
     (el_balanceBefore l = b \<and> el_amount l \<noteq> 0 \<and> el_balanceAfter l \<in> {b, b + el_amount l} \<and>
      chained (el_balanceAfter l) ls e)"

definition adjustments :: "asset_line list \<Rightarrow> cents" where
  "adjustments ls = (\<Sum>l\<leftarrow>ls. if el_balanceAfter l = el_balanceBefore l then el_amount l else 0)"

definition accountOk :: "asset_line list \<Rightarrow> asset_balance \<Rightarrow> bool" where
  "accountOk ls row =
     (0 \<le> available_balance row \<and> 0 \<le> locked_balance row \<and>
      0 \<le> lifetime_earned row \<and> 0 \<le> lifetime_spent row \<and>
      chained 0 ls (available_balance row) \<and>
      available_balance row + locked_balance row =
        lifetime_earned row - lifetime_spent row + adjustments ls)"

definition sameKey :: "asset_line \<Rightarrow> asset_line \<Rightarrow> bool" where
  "sameKey l m = (el_userId l = el_userId m \<and> el_assetCode l = el_assetCode m \<and>
     el_idempotencyKey l = el_idempotencyKey m \<and> el_idempotencyKey l \<noteq> None)"

fun keysUnique :: "asset_line list \<Rightarrow> bool" where
  "keysUnique [] = True"
| "keysUnique (l # ls) = ((\<forall>m \<in> set ls. \<not> sameKey l m) \<and> keysUnique ls)"

definition energyOk :: "gift_energy \<Rightarrow> bool" where
  "energyOk r = (0 \<le> current_energy r \<and> current_energy r \<le> max_energy r)"

definition economyOk :: "economy \<Rightarrow> bool" where
  "economyOk ec =
     ((\<forall>u a. accountOk (accountLines u a ec) (balanceOf u a ec)) \<and> keysUnique (ec_lines ec) \<and>
      (\<forall>u r. ec_energy ec u = Some r \<longrightarrow> energyOk r))"

lemma chained_append: "chained b (ls @ ms) e \<longleftrightarrow> (\<exists>m. chained b ls m \<and> chained m ms e)"
  by (induction ls arbitrary: b) auto

lemma adjustments_simps [simp]: "adjustments [] = 0"
  "adjustments (ls @ ms) = adjustments ls + adjustments ms"
  "adjustments [l] = (if el_balanceAfter l = el_balanceBefore l then el_amount l else 0)"
  by (simp_all add: adjustments_def)

lemma keysUnique_append:
  "keysUnique (ls @ ms) \<longleftrightarrow> keysUnique ls \<and> keysUnique ms \<and> (\<forall>l \<in> set ls. \<forall>m \<in> set ms. \<not> sameKey l m)"
  by (induction ls) auto

subsection \<open>Posting to an account\<close>

text \<open>
  An operation posts: one account has a new row, lines are added to the ledger, with keys
  that are new, and the rest stays.
\<close>

definition posted ::
  "nat \<Rightarrow> asset_code \<Rightarrow> asset_balance \<Rightarrow> asset_line list \<Rightarrow> economy \<Rightarrow> economy \<Rightarrow> bool" where
  "posted uid a next ls ec ec' =
     ((\<forall>u b. balanceOf u b ec' = (if u = uid \<and> b = a then next else balanceOf u b ec)) \<and>
      ec_lines ec' = ec_lines ec @ ls \<and> ec_energy ec' = ec_energy ec \<and> ec_gifts ec' = ec_gifts ec \<and>
      (\<forall>l \<in> set ls. el_userId l = uid \<and> el_assetCode l = a \<and> (\<forall>m \<in> set (ec_lines ec). \<not> sameKey m l)))"

lemma accountLines_posted:
  "posted uid a next ls ec ec' \<Longrightarrow>
     accountLines u b ec' = accountLines u b ec @ (if u = uid \<and> b = a then ls else [])"
  by (auto simp: posted_def accountLines_def filter_empty_conv filter_id_conv)

lemma posted_ok:
  assumes "posted uid a next ls ec ec'" and "economyOk ec" and "keysUnique ls"
    and "accountOk (accountLines uid a ec @ ls) next"
  shows "economyOk ec'"
  using assms unfolding economyOk_def
  by (auto simp: accountLines_posted [OF assms(1)] posted_def keysUnique_append)

text \<open>A fresh mutation posts one line; a repeated one returns the line it finds.\<close>

lemma applyAsset_cases:
  assumes "applyAssetLedgerMutation compute p ec = Inr (r, ec')"
  obtains (replay) l where
      "findIdempotentLedgerEntry (am_userId p) (am_assetCode p) (am_idempotencyKey p) ec = Some l"
      "ec' = ec" "r = replayResult (am_userId p) (am_assetCode p) (toCents (am_amount p)) l"
  | (fresh) d row' l where
      "findIdempotentLedgerEntry (am_userId p) (am_assetCode p) (am_idempotencyKey p) ec = None"
      "0 < toCents (am_amount p)"
      "compute (toCents (am_amount p)) (balanceOf (am_userId p) (am_assetCode p) ec) = Inr (d, row')"
      "posted (am_userId p) (am_assetCode p) row' [l] ec ec'"
      "el_amount l = d" "el_idempotencyKey l = am_idempotencyKey p"
      "el_balanceBefore l = available_balance (balanceOf (am_userId p) (am_assetCode p) ec)"
      "el_balanceAfter l = available_balance row'"
      "el_metadata l = toLockedSnapshot
         (locked_balance (balanceOf (am_userId p) (am_assetCode p) ec)) (locked_balance row')"
      "r = freshResult (am_userId p) (am_assetCode p) (toCents (am_amount p))
         (balanceOf (am_userId p) (am_assetCode p) ec) row'"
proof (cases "findIdempotentLedgerEntry (am_userId p) (am_assetCode p) (am_idempotencyKey p) ec")
  case (Some l)
  with assms show ?thesis by (intro replay [of l]) (auto simp: applyAssetLedgerMutation_def Let_def)
next
  case None
  with assms obtain d row' where c: "0 < toCents (am_amount p)"
    "compute (toCents (am_amount p)) (balanceOf (am_userId p) (am_assetCode p) ec) = Inr (d, row')"
    by (auto simp: applyAssetLedgerMutation_def Let_def bind_res_Inr_iff asset_simps split_def)
  show ?thesis
    by (rule fresh [OF None c, of "last (ec_lines ec')"])
      (use assms None c in \<open>auto simp: applyAssetLedgerMutation_def Let_def bind_res_Inr_iff asset_simps
        split_def posted_def sameKey_def\<close>)
qed

lemma settle_cases:
  assumes "settleLockedAsset p ec = Inr (r, ec')"
  obtains (replay) l where
      "findIdempotentLedgerEntry (sl_userId p) (sl_assetCode p) (sl_idempotencyKey p) ec = Some l"
      "0 < toCents (sl_payoutAmount p)"
      "ec' = ec" "r = replayResult (sl_userId p) (sl_assetCode p) (el_amount l) l"
  | (paid) l row' row where
      "findIdempotentLedgerEntry (sl_userId p) (sl_assetCode p) (sl_idempotencyKey p) ec = None"
      "row = balanceOf (sl_userId p) (sl_assetCode p) ec"
      "0 < toCents (sl_lockedAmount p)" "toCents (sl_lockedAmount p) \<le> locked_balance row"
      "0 < toCents (sl_payoutAmount p)"
      "row' = \<lparr>available_balance = available_balance row + toCents (sl_payoutAmount p),
               locked_balance = locked_balance row - toCents (sl_lockedAmount p),
               lifetime_earned = lifetime_earned row +
                 max 0 (toCents (sl_payoutAmount p) - toCents (sl_lockedAmount p)),
               lifetime_spent = lifetime_spent row +
                 max 0 (toCents (sl_lockedAmount p) - toCents (sl_payoutAmount p))\<rparr>"
      "posted (sl_userId p) (sl_assetCode p) row' [l] ec ec'"
      "el_amount l = toCents (sl_payoutAmount p)" "el_idempotencyKey l = sl_idempotencyKey p"
      "el_balanceBefore l = available_balance row" "el_balanceAfter l = available_balance row'"
      "lockedBalanceBefore (el_metadata l) = locked_balance row"
      "lockedBalanceAfter (el_metadata l) = locked_balance row'"
      "r = freshResult (sl_userId p) (sl_assetCode p) (toCents (sl_payoutAmount p)) row row'"
  | (lost) row' row where
      "row = balanceOf (sl_userId p) (sl_assetCode p) ec"
      "0 < toCents (sl_lockedAmount p)" "toCents (sl_lockedAmount p) \<le> locked_balance row"
      "toCents (sl_payoutAmount p) = 0"
      "row' = \<lparr>available_balance = available_balance row,
               locked_balance = locked_balance row - toCents (sl_lockedAmount p),
               lifetime_earned = lifetime_earned row,
               lifetime_spent = lifetime_spent row + toCents (sl_lockedAmount p)\<rparr>"
      "posted (sl_userId p) (sl_assetCode p) row' [] ec ec'"
      "r = freshResult (sl_userId p) (sl_assetCode p) 0 row row'"
proof (cases "0 < toCents (sl_payoutAmount p)")
  case True
  show ?thesis
  proof (cases "findIdempotentLedgerEntry (sl_userId p) (sl_assetCode p) (sl_idempotencyKey p) ec")
    case (Some l)
    with assms True show ?thesis by (intro replay [of l]) (auto simp: settleLockedAsset_def Let_def)
  next
    case None
    show ?thesis
      by (rule paid [OF None refl _ _ True refl, of "last (ec_lines ec')"])
        (use assms True None in \<open>auto simp: settleLockedAsset_def Let_def bind_res_Inr_iff asset_simps
          split_def posted_def sameKey_def toLockedSnapshot_def max_def split: if_splits\<close>)
  qed
next
  case False
  show ?thesis
    by (rule lost [OF refl _ _ _ refl])
      (use assms False in \<open>auto simp: settleLockedAsset_def Let_def bind_res_Inr_iff asset_simps
        split_def posted_def split: if_splits\<close>)
qed

lemma adjust_cases:
  assumes "adjustLockedAsset p ec = Inr (r, ec')"
  obtains (replay) l where
      "findIdempotentLedgerEntry (am_userId p) (am_assetCode p) (am_idempotencyKey p) ec = Some l"
      "ec' = ec" "r = replayResult (am_userId p) (am_assetCode p) (el_amount l) l"
  | (fresh) l row row' where
      "findIdempotentLedgerEntry (am_userId p) (am_assetCode p) (am_idempotencyKey p) ec = None"
      "row = balanceOf (am_userId p) (am_assetCode p) ec"
      "toCents (am_amount p) \<noteq> 0" "0 \<le> locked_balance row + toCents (am_amount p)"
      "row' = row\<lparr>locked_balance := locked_balance row + toCents (am_amount p)\<rparr>"
      "posted (am_userId p) (am_assetCode p) row' [l] ec ec'"
      "el_amount l = toCents (am_amount p)" "el_idempotencyKey l = am_idempotencyKey p"
      "el_balanceBefore l = available_balance row" "el_balanceAfter l = available_balance row"
      "el_metadata l = toLockedSnapshot (locked_balance row) (locked_balance row')"
      "r = freshResult (am_userId p) (am_assetCode p) (toCents (am_amount p)) row row'"
proof (cases "findIdempotentLedgerEntry (am_userId p) (am_assetCode p) (am_idempotencyKey p) ec")
  case (Some l)
  with assms show ?thesis by (intro replay [of l]) (auto simp: adjustLockedAsset_def Let_def)
next
  case None
  show ?thesis
    by (rule fresh [OF None refl _ _ refl, of "last (ec_lines ec')"])
      (use assms None in \<open>auto simp: adjustLockedAsset_def Let_def bind_res_Inr_iff asset_simps
        split_def posted_def sameKey_def split: if_splits\<close>)
qed


text \<open>Without a key, an operation succeeds when the balance suffices.\<close>

lemma insert_keyless:
  "el_idempotencyKey l = None \<Longrightarrow>
     insertEconomyLedgerEntries [l] ec = Inr (ec\<lparr>ec_lines := ec_lines ec @ [l]\<rparr>)"
  by (simp add: insertEconomyLedgerEntries.simps)

lemma keyless_mutation_succeeds:
  assumes "am_idempotencyKey p = None" and "0 < toCents (am_amount p)"
    and "compute (toCents (am_amount p)) (balanceOf (am_userId p) (am_assetCode p) ec) = Inr (d, row')"
  shows "\<exists>r ec'. applyAssetLedgerMutation compute p ec = Inr (r, ec')"
proof -
  have "normalizePositiveAmount (am_amount p) = Inr (toCents (am_amount p))"
    using assms(2) by (simp add: normalizePositiveAmount_def)
  with assms show ?thesis
    by (simp add: applyAssetLedgerMutation_def Let_def findIdempotentLedgerEntry_def
        lockUserAssetBalance_eq insert_keyless)
qed

lemma keyless_settle_succeeds:
  assumes "sl_idempotencyKey p = None" and "0 < toCents (sl_lockedAmount p)" and "0 \<le> toCents (sl_payoutAmount p)"
    and "toCents (sl_lockedAmount p) \<le> locked_balance (balanceOf (sl_userId p) (sl_assetCode p) ec)"
  shows "\<exists>r ec'. settleLockedAsset p ec = Inr (r, ec')"
proof -
  have "normalizePositiveAmount (sl_lockedAmount p) = Inr (toCents (sl_lockedAmount p))"
    "normalizeNonNegativeAmount (sl_payoutAmount p) = Inr (toCents (sl_payoutAmount p))"
    using assms(2,3) by (simp_all add: normalizePositiveAmount_def normalizeNonNegativeAmount_def)
  with assms show ?thesis
    by (simp add: settleLockedAsset_def Let_def findIdempotentLedgerEntry_def
        lockUserAssetBalance_eq insert_keyless)
qed

subsection \<open>One account\<close>

text \<open>
  The contract of the computation of a mutation: the ledger's amount is the change of the
  available balance, nothing becomes negative, and what the account holds follows what it
  earned and spent.
\<close>

locale account_posting =
  fixes compute :: "cents \<Rightarrow> asset_balance \<Rightarrow> (cents \<times> asset_balance) res"
  assumes posts: "compute n row = Inr (d, row') \<Longrightarrow> 0 < n \<Longrightarrow>
      0 \<le> available_balance row \<Longrightarrow> 0 \<le> locked_balance row \<Longrightarrow>
      d \<noteq> 0 \<and> available_balance row' = available_balance row + d \<and>
      0 \<le> available_balance row' \<and> 0 \<le> locked_balance row' \<and>
      lifetime_earned row \<le> lifetime_earned row' \<and> lifetime_spent row \<le> lifetime_spent row' \<and>
      available_balance row' + locked_balance row' - lifetime_earned row' + lifetime_spent row' =
        available_balance row + locked_balance row - lifetime_earned row + lifetime_spent row"
begin

lemma mutation_keeps_economy:
  assumes "applyAssetLedgerMutation compute p ec = Inr (r, ec')" and "economyOk ec"
  shows "economyOk ec'"
  using assms(1)
proof (cases rule: applyAsset_cases)
  case (replay l)
  with assms(2) show ?thesis by simp
next
  case (fresh d row' l)
  from assms(2) have ok: "accountOk (accountLines (am_userId p) (am_assetCode p) ec)
      (balanceOf (am_userId p) (am_assetCode p) ec)"
    by (simp add: economyOk_def)
  from posts [OF fresh(3,2)] ok fresh show ?thesis
    by (intro posted_ok [OF fresh(4) assms(2)]) (auto simp: accountOk_def chained_append)
qed

end

interpretation credit_posting: account_posting creditCompute
  by unfold_locales (auto simp: creditCompute_def)

interpretation debit_posting: account_posting debitCompute
  by unfold_locales (auto simp: debitCompute_def split: if_splits)

interpretation lock_posting: account_posting lockCompute
  by unfold_locales (auto simp: lockCompute_def split: if_splits)

interpretation unlock_posting: account_posting unlockCompute
  by unfold_locales (auto simp: unlockCompute_def split: if_splits)

lemma settle_keeps_economy:
  assumes "settleLockedAsset p ec = Inr (r, ec')" and "economyOk ec"
  shows "economyOk ec'"
proof -
  have ok: "accountOk (accountLines (sl_userId p) (sl_assetCode p) ec)
      (balanceOf (sl_userId p) (sl_assetCode p) ec)"
    using assms(2) by (simp add: economyOk_def)
  from assms(1) show ?thesis
  proof (cases rule: settle_cases)
    case (paid l row' row)
    with ok show ?thesis
      by (intro posted_ok [OF paid(7) assms(2)]) (auto simp: accountOk_def chained_append)
  next
    case (lost row' row)
    with ok show ?thesis
      by (intro posted_ok [OF lost(6) assms(2)]) (auto simp: accountOk_def)
  qed (use assms(2) in simp)
qed

lemma adjust_keeps_economy:
  assumes "adjustLockedAsset p ec = Inr (r, ec')" and "economyOk ec"
  shows "economyOk ec'"
proof -
  have ok: "accountOk (accountLines (am_userId p) (am_assetCode p) ec)
      (balanceOf (am_userId p) (am_assetCode p) ec)"
    using assms(2) by (simp add: economyOk_def)
  from assms(1) show ?thesis
  proof (cases rule: adjust_cases)
    case (fresh l row row')
    with ok show ?thesis
      by (intro posted_ok [OF fresh(6) assms(2)]) (auto simp: accountOk_def chained_append)
  qed (use assms(2) in simp)
qed

subsection \<open>Gifts\<close>

lemma rows_ensure [asset_simps]:
  "ec_balances (ensureUserAssetBalances uid ec) (u, b) =
     (if u = uid then Some (balanceOf u b ec) else ec_balances ec (u, b))"
  by (cases b) (auto simp: balanceOf_def ensureUserAssetBalances_def DEFAULT_ASSET_CODES_def
      split: option.splits)

lemma charge_effect:
  assumes "chargeGiftEnergy now uid c ec = Inr (before, after, ec')"
  shows "ec_balances ec' = ec_balances ec \<and> ec_lines ec' = ec_lines ec \<and> ec_gifts ec' = ec_gifts ec \<and>
    (\<forall>u. u \<noteq> uid \<longrightarrow> ec_energy ec' u = ec_energy ec u) \<and>
    (0 < c \<longrightarrow> c \<le> before \<and> after = before - c \<and> map_option current_energy (ec_energy ec' uid) = Some after) \<and>
    (c \<le> 0 \<longrightarrow> ec' = ec) \<and>
    ((\<forall>u r. ec_energy ec u = Some r \<longrightarrow> energyOk r) \<longrightarrow> (\<forall>u r. ec_energy ec' u = Some r \<longrightarrow> energyOk r))"
  using assms unfolding chargeGiftEnergy_def lockGiftEnergyAccount_def ensureGiftEnergyAccount_def
    applyGiftEnergyRefill_def Let_def energyOk_def
  by (auto simp: bind_res_Inr_iff split_def DEFAULT_GIFT_ENERGY_MAX_def
      split: if_splits option.splits prod.splits) (fastforce+)


lemma insert_two:
  "insertEconomyLedgerEntries [l, m] ec = Inr ec' \<longleftrightarrow>
     ec' = ec\<lparr>ec_lines := ec_lines ec @ [l, m]\<rparr> \<and>
     (\<forall>x \<in> set (ec_lines ec). \<not> sameKey x l \<and> \<not> sameKey x m) \<and> \<not> sameKey l m"
  by (auto simp: insertEconomyLedgerEntries.simps sameKey_def)

lemma balanceOf_moveGift:
  assumes "ec_balances ec (s, B_LUCK) \<noteq> None" and "ec_balances ec (t, B_LUCK) \<noteq> None" and "s \<noteq> t"
    and "srow = balanceOf s B_LUCK ec" and "trow = balanceOf t B_LUCK ec"
  shows "balanceOf u b (moveGift s t n srow trow ec) =
    (if (u, b) = (s, B_LUCK) then srow\<lparr>available_balance := available_balance srow - n,
                                      lifetime_spent := lifetime_spent srow + n\<rparr>
     else if (u, b) = (t, B_LUCK) then trow\<lparr>available_balance := available_balance trow + n,
                                           lifetime_earned := lifetime_earned trow + n\<rparr>
     else balanceOf u b ec)"
  using assms by (auto simp: moveGift_def balanceOf_def Let_def)

lemma lines_moveGift [asset_simps]: "ec_lines (moveGift s t n srow trow ec) = ec_lines ec"
  "ec_energy (moveGift s t n srow trow ec) = ec_energy ec" "ec_gifts (moveGift s t n srow trow ec) = ec_gifts ec"
  by (simp_all add: moveGift_def Let_def)

text \<open>A gift either was made before, or moves the amount and charges the energy.\<close>

lemma gift_cases:
  assumes "transferAssetGift env p ec = Inr ((g, again), ec')"
  obtains (replay) "find (\<lambda>g. gt_idempotencyKey g = js_trim (gp_idempotencyKey p)) (ec_gifts ec) = Some g"
      "ec' = ec" "again"
  | (fresh) s t l m where
      "s = gp_senderUserId p" "t = gp_receiverUserId p" "s \<noteq> t \<and> \<not> ee_frozen env s \<and> \<not> ee_frozen env t"
      "0 < gt_amount g" "gt_amount g \<le> available_balance (balanceOf s B_LUCK ec)"
      "\<And>u b. balanceOf u b ec' =
        (if (u, b) = (s, B_LUCK) then (balanceOf s B_LUCK ec)
             \<lparr>available_balance := available_balance (balanceOf s B_LUCK ec) - gt_amount g,
              lifetime_spent := lifetime_spent (balanceOf s B_LUCK ec) + gt_amount g\<rparr>
         else if (u, b) = (t, B_LUCK) then (balanceOf t B_LUCK ec)
             \<lparr>available_balance := available_balance (balanceOf t B_LUCK ec) + gt_amount g,
              lifetime_earned := lifetime_earned (balanceOf t B_LUCK ec) + gt_amount g\<rparr>
         else balanceOf u b ec)"
      "ec_lines ec' = ec_lines ec @ [l, m]"
      "\<forall>x \<in> set (ec_lines ec). \<not> sameKey x l \<and> \<not> sameKey x m" "\<not> sameKey l m"
      "el_userId l = s" "el_assetCode l = B_LUCK" "el_amount l = - gt_amount g"
      "el_balanceBefore l = available_balance (balanceOf s B_LUCK ec)"
      "el_balanceAfter l = available_balance (balanceOf s B_LUCK ec) - gt_amount g"
      "el_userId m = t" "el_assetCode m = B_LUCK" "el_amount m = gt_amount g"
      "el_balanceBefore m = available_balance (balanceOf t B_LUCK ec)"
      "el_balanceAfter m = available_balance (balanceOf t B_LUCK ec) + gt_amount g"
      "ec_gifts ec' = ec_gifts ec @ [g]"
      "find (\<lambda>g. gt_idempotencyKey g = js_trim (gp_idempotencyKey p)) (ec_gifts ec) = None"
      "gt_idempotencyKey g = js_trim (gp_idempotencyKey p)" "\<not> again"
      "(\<forall>u r. ec_energy ec u = Some r \<longrightarrow> energyOk r) \<longrightarrow> (\<forall>u r. ec_energy ec' u = Some r \<longrightarrow> energyOk r)"
      "0 < gt_energyCost g \<longrightarrow> gt_energyCost g \<le> gt_giftEnergyBefore g \<and>
         map_option current_energy (ec_energy ec' s) = Some (gt_giftEnergyBefore g - gt_energyCost g)"
proof -
  define s where "s = gp_senderUserId p"
  define t where "t = gp_receiverUserId p"
  define key where "key = js_trim (gp_idempotencyKey p)"
  have guards: "key \<noteq> []" "s \<noteq> t" "gp_assetCode p = B_LUCK"
    using assms by (auto simp: transferAssetGift_def Let_def s_def t_def key_def split: if_splits)
  show ?thesis
  proof (cases "find (\<lambda>g. gt_idempotencyKey g = key) (ec_gifts ec)")
    case (Some h)
    with assms guards show ?thesis
      by (intro replay) (auto simp: transferAssetGift_def Let_def s_def t_def key_def)
  next
    case None
    define ec2 where "ec2 = ensureUserAssetBalances (max s t) (ensureUserAssetBalances (min s t) ec)"
    have rows: "balanceOf u b ec2 = balanceOf u b ec" "ec_balances ec2 (s, B_LUCK) \<noteq> None"
      "ec_balances ec2 (t, B_LUCK) \<noteq> None" "ec_lines ec2 = ec_lines ec" "ec_energy ec2 = ec_energy ec"
      "ec_gifts ec2 = ec_gifts ec" for u b
      by (auto simp: ec2_def asset_simps max_def min_def)
    from assms guards None obtain before after ec3 ml mm where
      frozen: "\<not> ee_frozen env s" "\<not> ee_frozen env t"
      and n: "0 < gt_amount g" "gt_amount g \<le> available_balance (balanceOf s B_LUCK ec)"
      and charge: "chargeGiftEnergy (ee_now env) s (gt_energyCost g) ec2 = Inr (before, after, ec3)"
      and g: "gt_idempotencyKey g = key" "\<not> again" "gt_giftEnergyBefore g = before"
      and ins: "insertEconomyLedgerEntries
           [giftLine s ''gift_send'' (- gt_amount g) (available_balance (balanceOf s B_LUCK ec))
              (available_balance (balanceOf s B_LUCK ec) - gt_amount g) (gt_id g) key ml,
            giftLine t ''gift_receive'' (gt_amount g) (available_balance (balanceOf t B_LUCK ec))
              (available_balance (balanceOf t B_LUCK ec) + gt_amount g) (gt_id g) key mm]
           (moveGift s t (gt_amount g) (balanceOf s B_LUCK ec) (balanceOf t B_LUCK ec)
              (ec3\<lparr>ec_gifts := ec_gifts ec3 @ [g]\<rparr>)) = Inr ec'"
      by (auto simp: transferAssetGift_def Let_def bind_res_Inr_iff asset_simps split_def
          s_def [symmetric] t_def [symmetric] key_def [symmetric] ec2_def min_def max_def
          split: if_splits)
    define l where "l = giftLine s ''gift_send'' (- gt_amount g) (available_balance (balanceOf s B_LUCK ec))
      (available_balance (balanceOf s B_LUCK ec) - gt_amount g) (gt_id g) key ml"
    define m where "m = giftLine t ''gift_receive'' (gt_amount g) (available_balance (balanceOf t B_LUCK ec))
      (available_balance (balanceOf t B_LUCK ec) + gt_amount g) (gt_id g) key mm"
    note ins = ins [folded l_def m_def]
    note eff = charge_effect [OF charge]
    have bal3: "balanceOf u b ec3 = balanceOf u b ec" for u b
      using eff rows(1) [of u b] by (simp add: balanceOf_def)
    have lm: "el_userId l = s" "el_assetCode l = B_LUCK" "el_amount l = - gt_amount g"
      "el_balanceBefore l = available_balance (balanceOf s B_LUCK ec)"
      "el_balanceAfter l = available_balance (balanceOf s B_LUCK ec) - gt_amount g"
      "el_userId m = t" "el_assetCode m = B_LUCK" "el_amount m = gt_amount g"
      "el_balanceBefore m = available_balance (balanceOf t B_LUCK ec)"
      "el_balanceAfter m = available_balance (balanceOf t B_LUCK ec) + gt_amount g"
      by (simp_all add: l_def m_def giftLine_def)
    show ?thesis
      by (rule fresh [OF s_def t_def _ n, of l m])
        (use ins lm eff rows g None bal3 guards frozen in \<open>auto simp: insert_two asset_simps key_def [symmetric]
          balanceOf_moveGift\<close>)
  qed
qed

end
