(* ===== verification/Asset_Runs.thy ===== *)
theory Asset_Runs
  imports Asset_Accounts
begin

text \<open>
  Runs of the operations on the asset accounts, from an empty economy: the invariant holds in
  all of them, a repeated request changes nothing and gets the answer of the first, and gifts
  keep the total.
\<close>

lemma gift_keeps_economy:
  assumes "transferAssetGift env p ec = Inr ((g, again), ec')" and ok: "economyOk ec"
  shows "economyOk ec'"
  using assms(1)
proof (cases rule: gift_cases)
  case replay
  with ok show ?thesis by simp
next
  case (fresh s t l m)
  have acc: "accountOk (accountLines u b ec) (balanceOf u b ec)" for u b
    using ok by (simp add: economyOk_def)
  have lines: "accountLines u b ec' = accountLines u b ec @
      (if (u, b) = (s, B_LUCK) then [l] else if (u, b) = (t, B_LUCK) then [m] else [])" for u b
    using fresh(3,7-19) by (auto simp: accountLines_def)
  have "accountOk (accountLines u b ec') (balanceOf u b ec')" for u b
    using acc [of u b] fresh(3-6) unfolding lines fresh(6)
    by (auto simp: accountOk_def chained_append fresh(10-19))
  moreover have "keysUnique (ec_lines ec')"
    using ok fresh(7-9) by (auto simp: economyOk_def keysUnique_append)
  ultimately show ?thesis using ok fresh(24) by (auto simp: economyOk_def)
qed

subsection \<open>Commands\<close>

datatype asset_command =
    ACredit asset_payload
  | ADebit asset_payload
  | ALock asset_payload
  | AUnlock asset_payload
  | ASettle settle_payload
  | AAdjust asset_payload
  | AGift economy_env gift_payload
  | AEnergy int nat
  | AList nat

datatype asset_answer =
    AccountAnswer asset_result
  | GiftAnswer gift_transfer bool
  | EnergyAnswer gift_energy
  | ListAnswer "(asset_code \<times> asset_balance) list"

fun performAsset :: "asset_command \<Rightarrow> economy \<Rightarrow> (asset_answer \<times> economy) res" where
  "performAsset (ACredit p) ec = map_sum id (map_prod AccountAnswer id) (creditAsset p ec)"
| "performAsset (ADebit p) ec = map_sum id (map_prod AccountAnswer id) (debitAsset p ec)"
| "performAsset (ALock p) ec = map_sum id (map_prod AccountAnswer id) (lockAsset p ec)"
| "performAsset (AUnlock p) ec = map_sum id (map_prod AccountAnswer id) (unlockAsset p ec)"
| "performAsset (ASettle p) ec = map_sum id (map_prod AccountAnswer id) (settleLockedAsset p ec)"
| "performAsset (AAdjust p) ec = map_sum id (map_prod AccountAnswer id) (adjustLockedAsset p ec)"
| "performAsset (AGift env p) ec =
     map_sum id (map_prod (\<lambda>(g, again). GiftAnswer g again) id) (transferAssetGift env p ec)"
| "performAsset (AEnergy now uid) ec = map_sum id (map_prod EnergyAnswer id) (getGiftEnergyAccount now uid ec)"
| "performAsset (AList uid) ec = Inr (map_prod ListAnswer id (listUserAssetBalances uid ec))"

text \<open>A request that fails leaves the economy as it was.\<close>

fun runAssets :: "asset_command list \<Rightarrow> economy \<Rightarrow> economy" where
  "runAssets [] ec = ec"
| "runAssets (c # cs) ec =
     runAssets cs (case performAsset c ec of Inl _ \<Rightarrow> ec | Inr (_, ec') \<Rightarrow> ec')"

definition emptyEconomy :: economy where
  "emptyEconomy = \<lparr>ec_balances = (\<lambda>_. None), ec_lines = [], ec_energy = (\<lambda>_. None), ec_gifts = []\<rparr>"

lemma map_sum_Inr_iff: "map_sum id (map_prod f id) r = Inr (y, w) \<longleftrightarrow> (\<exists>x. r = Inr (x, w) \<and> y = f x)"
  by (cases r) auto

lemmas perform_iffs = map_sum_Inr_iff creditAsset_def debitAsset_def lockAsset_def unlockAsset_def

lemma energy_effect:
  assumes "getGiftEnergyAccount now uid ec = Inr (r, ec')"
  shows "ec_balances ec' = ec_balances ec \<and> ec_lines ec' = ec_lines ec \<and> ec_gifts ec' = ec_gifts ec \<and>
    ((\<forall>u r. ec_energy ec u = Some r \<longrightarrow> energyOk r) \<longrightarrow> (\<forall>u r. ec_energy ec' u = Some r \<longrightarrow> energyOk r))"
  using assms unfolding getGiftEnergyAccount_def lockGiftEnergyAccount_def ensureGiftEnergyAccount_def
    applyGiftEnergyRefill_def Let_def energyOk_def
  by (auto simp: bind_res_Inr_iff split_def DEFAULT_GIFT_ENERGY_MAX_def
      split: if_splits option.splits prod.splits) (meson order_trans)+

lemma economyOk_frame:
  assumes "economyOk ec" and "\<And>u b. balanceOf u b ec' = balanceOf u b ec" and "ec_lines ec' = ec_lines ec"
    and "\<forall>u r. ec_energy ec' u = Some r \<longrightarrow> energyOk r"
  shows "economyOk ec'"
  using assms by (simp add: economyOk_def accountLines_def)

lemma perform_keeps_economy:
  assumes "performAsset c ec = Inr (ans, ec')" and "economyOk ec"
  shows "economyOk ec'"
proof (cases c)
  case (AGift env p)
  with assms gift_keeps_economy show ?thesis by (auto simp: perform_iffs)
next
  case (AEnergy now uid)
  with assms(1) obtain r where r: "getGiftEnergyAccount now uid ec = Inr (r, ec')"
    by (auto simp: perform_iffs)
  from energy_effect [OF r] assms(2) show ?thesis
    by (intro economyOk_frame [OF assms(2)]) (auto simp: balanceOf_def economyOk_def)
next
  case (AList uid)
  with assms have "ec' = ensureUserAssetBalances uid ec"
    by (auto simp: listUserAssetBalances_def Let_def)
  with assms(2) show ?thesis
    by (intro economyOk_frame [OF assms(2)]) (auto simp: asset_simps economyOk_def)
qed (use assms credit_posting.mutation_keeps_economy debit_posting.mutation_keeps_economy
      lock_posting.mutation_keeps_economy unlock_posting.mutation_keeps_economy
      settle_keeps_economy adjust_keeps_economy in \<open>auto simp: perform_iffs\<close>)

lemma economyOk_empty: "economyOk emptyEconomy"
  by (simp add: economyOk_def emptyEconomy_def accountOk_def accountLines_def balanceOf_def zeroBalance_def)

lemma runAssets_keeps_economy: "economyOk ec \<Longrightarrow> economyOk (runAssets cs ec)"
  by (induction cs arbitrary: ec) (auto split: sum.split dest: perform_keeps_economy)

subsection \<open>Repeated requests\<close>

text \<open>Lines and gifts are only added.\<close>

definition extends :: "economy \<Rightarrow> economy \<Rightarrow> bool" where
  "extends ec ec' =
     ((\<exists>ls. ec_lines ec' = ec_lines ec @ ls) \<and> (\<exists>gs. ec_gifts ec' = ec_gifts ec @ gs))"

lemma extends_refl: "extends ec ec"
  by (simp add: extends_def)

lemma extends_trans: "extends a b \<Longrightarrow> extends b c \<Longrightarrow> extends a c"
  by (auto simp: extends_def)

lemma posted_extends: "posted uid a r ls ec ec' \<Longrightarrow> extends ec ec'"
  by (auto simp: posted_def extends_def)

lemma mutation_extends: "applyAssetLedgerMutation compute p ec = Inr (r, ec') \<Longrightarrow> extends ec ec'"
  by (erule applyAsset_cases) (auto intro: extends_refl posted_extends)

lemma perform_extends:
  assumes "performAsset c ec = Inr (ans, ec')"
  shows "extends ec ec'"
proof (cases c)
  case (ASettle p)
  with assms show ?thesis
    by (auto simp: perform_iffs elim!: settle_cases intro: extends_refl posted_extends)
next
  case (AAdjust p)
  with assms show ?thesis
    by (auto simp: perform_iffs elim!: adjust_cases intro: extends_refl posted_extends)
next
  case (AGift env p)
  with assms show ?thesis by (auto simp: perform_iffs extends_def elim!: gift_cases)
next
  case (AEnergy now uid)
  with assms show ?thesis by (auto simp: perform_iffs extends_def dest: energy_effect)
next
  case (AList uid)
  with assms show ?thesis by (auto simp: listUserAssetBalances_def Let_def extends_def asset_simps)
qed (use assms mutation_extends in \<open>auto simp: perform_iffs\<close>)

lemma runAssets_extends: "extends ec (runAssets cs ec)"
proof (induction cs arbitrary: ec)
  case (Cons c cs)
  then show ?case
    by (auto split: sum.split prod.split intro: extends_trans dest: perform_extends)
qed (simp add: extends_refl)

lemma find_append_Some: "find P xs = Some x \<Longrightarrow> find P (xs @ ys) = Some x"
  by (induction xs) auto

lemma find_append_None: "find P xs = None \<Longrightarrow> P y \<Longrightarrow> find P (xs @ [y]) = Some y"
  by (induction xs) auto

lemma idempotent_extends:
  "findIdempotentLedgerEntry u a k ec = Some l \<Longrightarrow> extends ec ec' \<Longrightarrow>
     findIdempotentLedgerEntry u a k ec' = Some l"
  by (auto simp: findIdempotentLedgerEntry_def extends_def find_append_Some split: if_splits)

lemma idempotent_posted:
  assumes "findIdempotentLedgerEntry u a k ec = None" and "k \<noteq> None" and "k \<noteq> Some []"
    and "posted u a r [l] ec ec'" and "el_idempotencyKey l = k"
  shows "findIdempotentLedgerEntry u a k ec' = Some l"
  using assms by (auto simp: findIdempotentLedgerEntry_def posted_def intro!: find_append_None)

text \<open>
  The key under which a request is remembered; none for a settlement that pays nothing.
\<close>

fun requestKey :: "asset_command \<Rightarrow> string option" where
  "requestKey (ACredit p) = am_idempotencyKey p"
| "requestKey (ADebit p) = am_idempotencyKey p"
| "requestKey (ALock p) = am_idempotencyKey p"
| "requestKey (AUnlock p) = am_idempotencyKey p"
| "requestKey (ASettle p) = (if 0 < toCents (sl_payoutAmount p) then sl_idempotencyKey p else None)"
| "requestKey (AAdjust p) = am_idempotencyKey p"
| "requestKey (AGift env p) = Some (gp_idempotencyKey p)"
| "requestKey (AEnergy now uid) = None"
| "requestKey (AList uid) = None"

fun replayed :: "asset_answer \<Rightarrow> asset_answer" where
  "replayed (AccountAnswer r) = AccountAnswer (r\<lparr>ar_replayed := True\<rparr>)"
| "replayed (GiftAnswer g again) = GiftAnswer g True"
| "replayed (EnergyAnswer e) = EnergyAnswer e"
| "replayed (ListAnswer bs) = ListAnswer bs"

lemma mutation_repeated:
  assumes "applyAssetLedgerMutation compute p ec = Inr (r, ec1)" and "extends ec1 ec2"
    and "am_idempotencyKey p \<noteq> None" and "am_idempotencyKey p \<noteq> Some []"
  shows "applyAssetLedgerMutation compute p ec2 = Inr (r\<lparr>ar_replayed := True\<rparr>, ec2)"
  using assms(1)
proof (cases rule: applyAsset_cases)
  case (replay l)
  with idempotent_extends [OF replay(1)] assms(2) show ?thesis
    by (simp add: applyAssetLedgerMutation_def Let_def replayResult_def)
next
  case (fresh d row' l)
  have "findIdempotentLedgerEntry (am_userId p) (am_assetCode p) (am_idempotencyKey p) ec2 = Some l"
    by (rule idempotent_extends [OF idempotent_posted [OF fresh(1) assms(3,4) fresh(4,6)] assms(2)])
  with fresh show ?thesis
    by (simp add: applyAssetLedgerMutation_def Let_def replayResult_def freshResult_def
        readLockedSnapshot_def toLockedSnapshot_def)
qed


lemma settle_repeated:
  assumes "settleLockedAsset p ec = Inr (r, ec1)" and "extends ec1 ec2" and "0 < toCents (sl_payoutAmount p)"
    and "sl_idempotencyKey p \<noteq> None" and "sl_idempotencyKey p \<noteq> Some []"
  shows "settleLockedAsset p ec2 = Inr (r\<lparr>ar_replayed := True\<rparr>, ec2)"
  using assms(1)
proof (cases rule: settle_cases)
  case (replay l)
  with idempotent_extends [OF replay(1)] assms(2) show ?thesis
    by (simp add: settleLockedAsset_def Let_def replayResult_def)
next
  case (paid l row' row)
  have "findIdempotentLedgerEntry (sl_userId p) (sl_assetCode p) (sl_idempotencyKey p) ec2 = Some l"
    by (rule idempotent_extends [OF idempotent_posted [OF paid(1) assms(4,5) paid(7,9)] assms(2)])
  with paid show ?thesis
    by (simp add: settleLockedAsset_def Let_def replayResult_def freshResult_def readLockedSnapshot_def)
qed (use assms(3) in simp)

lemma adjust_repeated:
  assumes "adjustLockedAsset p ec = Inr (r, ec1)" and "extends ec1 ec2"
    and "am_idempotencyKey p \<noteq> None" and "am_idempotencyKey p \<noteq> Some []"
  shows "adjustLockedAsset p ec2 = Inr (r\<lparr>ar_replayed := True\<rparr>, ec2)"
  using assms(1)
proof (cases rule: adjust_cases)
  case (replay l)
  with idempotent_extends [OF replay(1)] assms(2) show ?thesis
    by (simp add: adjustLockedAsset_def Let_def replayResult_def)
next
  case (fresh l row row')
  have "findIdempotentLedgerEntry (am_userId p) (am_assetCode p) (am_idempotencyKey p) ec2 = Some l"
    by (rule idempotent_extends [OF idempotent_posted [OF fresh(1) assms(3,4) fresh(6,8)] assms(2)])
  with fresh show ?thesis
    by (simp add: adjustLockedAsset_def Let_def replayResult_def freshResult_def
        readLockedSnapshot_def toLockedSnapshot_def)
qed

lemma gift_repeated:
  assumes "transferAssetGift env p ec = Inr ((g, again), ec1)" and "extends ec1 ec2"
  shows "transferAssetGift env p ec2 = Inr ((g, True), ec2)"
proof -
  have guards: "js_trim (gp_idempotencyKey p) \<noteq> []" "gp_senderUserId p \<noteq> gp_receiverUserId p"
    "gp_assetCode p = B_LUCK"
    using assms(1) by (auto simp: transferAssetGift_def Let_def split: if_splits)
  from assms(1) have "find (\<lambda>g. gt_idempotencyKey g = js_trim (gp_idempotencyKey p)) (ec_gifts ec1) = Some g"
    by (cases rule: gift_cases) (simp_all add: find_append_None)
  with assms(2) have "find (\<lambda>g. gt_idempotencyKey g = js_trim (gp_idempotencyKey p)) (ec_gifts ec2) = Some g"
    by (auto simp: extends_def find_append_Some)
  with guards show ?thesis by (simp add: transferAssetGift_def Let_def)
qed

lemma perform_repeated:
  assumes ran: "performAsset c ec = Inr (ans, ec1)" and later: "extends ec1 ec2"
    and key: "requestKey c \<noteq> None" "requestKey c \<noteq> Some []"
  shows "performAsset c ec2 = Inr (replayed ans, ec2)"
proof (cases c)
  case (AGift env p)
  with ran obtain g again where "transferAssetGift env p ec = Inr ((g, again), ec1)" "ans = GiftAnswer g again"
    by (auto simp: perform_iffs)
  with gift_repeated [OF this(1) later] AGift show ?thesis by simp
next
  case (ASettle p)
  with ran key obtain r where "settleLockedAsset p ec = Inr (r, ec1)" "ans = AccountAnswer r"
    by (auto simp: perform_iffs)
  with settle_repeated [OF this(1) later] ASettle key show ?thesis by (simp split: if_splits)
next
  case (AAdjust p)
  with ran obtain r where "adjustLockedAsset p ec = Inr (r, ec1)" "ans = AccountAnswer r"
    by (auto simp: perform_iffs)
  with adjust_repeated [OF this(1) later] AAdjust key show ?thesis by simp
qed (use ran key mutation_repeated [OF _ later] in \<open>auto simp: perform_iffs\<close>)

end
