(* ===== verification/Asset_Safety.thy ===== *)
theory Asset_Safety
  imports Asset_Runs
begin

text \<open>
  The results on the asset accounts: what the ledger explains, what a repeated request does,
  what a gift moves, and what a settlement that pays nothing does when it is repeated.
\<close>


text \<open>
  A request that succeeded under an idempotency key changes nothing when it is repeated,
  at any later time and whatever was requested in between: it gets the answer it got before,
  marked as replayed.  A settlement that pays nothing is not remembered, so it is left out.
\<close>

theorem repeated_request_changes_nothing:
  assumes "performAsset c ec = Inr (ans, ec1)" and "requestKey c = Some (k # ks)"
  shows "performAsset c (runAssets cs ec1) = Inr (replayed ans, runAssets cs ec1)"
  using perform_repeated [OF assms(1) runAssets_extends] assms(2) by simp

definition sampleCredit :: "nat \<Rightarrow> rat \<Rightarrow> string option \<Rightarrow> asset_payload" where
  "sampleCredit u n key = \<lparr>am_userId = u, am_assetCode = B_LUCK, am_amount = n, am_entryType = ''reward'',
     am_referenceType = None, am_referenceId = None, am_idempotencyKey = key\<rparr>"

definition sampleAssets :: economy where
  "sampleAssets = runAssets [ACredit (sampleCredit 1 500 None), ALock (sampleCredit 1 300 None)] emptyEconomy"

theorem repeated_request_changes_nothing_witness:
  "\<exists>ans ec1. performAsset (ADebit (sampleCredit 1 150 (Some ''k''))) sampleAssets = Inr (ans, ec1) \<and>
     performAsset (ADebit (sampleCredit 1 150 (Some ''k''))) (runAssets [ACredit (sampleCredit 1 40 None)] ec1) =
       Inr (replayed ans, runAssets [ACredit (sampleCredit 1 40 None)] ec1)"
proof -
  have "case performAsset (ADebit (sampleCredit 1 150 (Some ''k''))) sampleAssets of Inl _ \<Rightarrow> False | Inr _ \<Rightarrow> True"
    by code_simp
  then obtain ans ec1 where ran: "performAsset (ADebit (sampleCredit 1 150 (Some ''k''))) sampleAssets = Inr (ans, ec1)"
    by (auto split: sum.splits)
  have "performAsset (ADebit (sampleCredit 1 150 (Some ''k''))) (runAssets [ACredit (sampleCredit 1 40 None)] ec1) =
      Inr (replayed ans, runAssets [ACredit (sampleCredit 1 40 None)] ec1)"
    by (rule repeated_request_changes_nothing [OF ran]) (simp add: sampleCredit_def)
  with ran show ?thesis by blast
qed

text \<open>
  A gift is made only between two accounts that are not frozen and only out of what the
  sender has available.  It moves its amount from the sender to the receiver and changes no
  other balance, so the total over any users that include both stays; the energy it costs
  was there and is gone.
\<close>

theorem gift_moves_its_amount:
  assumes "transferAssetGift env p ec = Inr ((g, False), ec')"
    and "distinct us" and "gp_senderUserId p \<in> set us" and "gp_receiverUserId p \<in> set us"
  shows "\<not> ee_frozen env (gp_senderUserId p) \<and> \<not> ee_frozen env (gp_receiverUserId p) \<and>
    0 < gt_amount g \<and> gt_amount g \<le> available_balance (balanceOf (gp_senderUserId p) B_LUCK ec) \<and>
    available_balance (balanceOf (gp_senderUserId p) B_LUCK ec') =
      available_balance (balanceOf (gp_senderUserId p) B_LUCK ec) - gt_amount g \<and>
    (\<Sum>u\<leftarrow>us. available_balance (balanceOf u B_LUCK ec')) = (\<Sum>u\<leftarrow>us. available_balance (balanceOf u B_LUCK ec)) \<and>
    (\<forall>u. locked_balance (balanceOf u B_LUCK ec') = locked_balance (balanceOf u B_LUCK ec)) \<and>
    (\<forall>u. balanceOf u IAP_VOUCHER ec' = balanceOf u IAP_VOUCHER ec) \<and>
    (0 < gt_energyCost g \<longrightarrow> gt_energyCost g \<le> gt_giftEnergyBefore g \<and>
       map_option current_energy (ec_energy ec' (gp_senderUserId p)) =
         Some (gt_giftEnergyBefore g - gt_energyCost g))"
  using assms(1)
proof (cases rule: gift_cases)
  case (fresh s t l m)
  let ?av = "\<lambda>ec u. available_balance (balanceOf u B_LUCK ec)"
  have "(\<Sum>u\<leftarrow>us. ?av ec' u) = (\<Sum>u\<leftarrow>us. ?av ec u + (if u = t then gt_amount g else 0) - (if u = s then gt_amount g else 0))"
    using fresh(3,6) by (intro sum_list_congI) auto
  also have "\<dots> = (\<Sum>u\<leftarrow>us. ?av ec u)"
    using assms(2-4) fresh(1,2)
    by (simp add: sum_list_addf sum_list_subtractf sum_list_distinct_conv_sum_set)
  finally show ?thesis using fresh by simp
qed simp

definition sampleGift :: gift_payload where
  "sampleGift = \<lparr>gp_senderUserId = 1, gp_receiverUserId = 2, gp_assetCode = B_LUCK, gp_amount = 120,
     gp_energyCost = 3, gp_idempotencyKey = '' g1 ''\<rparr>"

definition sampleEconomyEnv :: economy_env where
  "sampleEconomyEnv = \<lparr>ee_now = 0, ee_frozen = (\<lambda>_. False), ee_newId = 7\<rparr>"

theorem gift_moves_its_amount_witness:
  "\<exists>g ec'. transferAssetGift sampleEconomyEnv sampleGift sampleAssets = Inr ((g, False), ec') \<and>
     (\<Sum>u\<leftarrow>[1, 2]. available_balance (balanceOf u B_LUCK ec')) =
     (\<Sum>u\<leftarrow>[1, 2]. available_balance (balanceOf u B_LUCK sampleAssets))"
proof -
  have "case transferAssetGift sampleEconomyEnv sampleGift sampleAssets of
      Inl _ \<Rightarrow> False | Inr ((g, again), ec') \<Rightarrow> \<not> again"
    by code_simp
  then obtain g ec' where ran: "transferAssetGift sampleEconomyEnv sampleGift sampleAssets = Inr ((g, False), ec')"
    by (auto split: sum.splits)
  from gift_moves_its_amount [OF this, of "[1, 2]"] ran show ?thesis
    by (simp add: sampleGift_def)
qed

text \<open>
  A settlement that pays nothing is carried out again when it is repeated, even under an
  idempotency key: each time it takes its amount out of the lock, and no ledger line tells.
\<close>

theorem lost_settlement_is_repeated:
  assumes "settleLockedAsset p ec = Inr (r, ec1)" and "toCents (sl_payoutAmount p) = 0"
    and "2 * toCents (sl_lockedAmount p) \<le> locked_balance (balanceOf (sl_userId p) (sl_assetCode p) ec)"
  shows "\<exists>r' ec2. settleLockedAsset p ec1 = Inr (r', ec2) \<and> \<not> ar_replayed r' \<and>
    locked_balance (balanceOf (sl_userId p) (sl_assetCode p) ec2) =
      locked_balance (balanceOf (sl_userId p) (sl_assetCode p) ec) - 2 * toCents (sl_lockedAmount p) \<and>
    ec_lines ec2 = ec_lines ec"
  using assms(1)
proof (cases rule: settle_cases)
  case (lost row' row)
  let ?b = "balanceOf (sl_userId p) (sl_assetCode p)"
  have "?b ec1 = row'" and lines: "ec_lines ec1 = ec_lines ec"
    using lost(6) by (auto simp: posted_def)
  with lost assms(3) have enough: "toCents (sl_lockedAmount p) \<le> locked_balance (?b ec1)"
    and b1: "locked_balance (?b ec1) = locked_balance (?b ec) - toCents (sl_lockedAmount p)" by auto
  then obtain r' ec2 where ran: "settleLockedAsset p ec1 = Inr (r', ec2)"
    using lost(2,4) by (auto simp: settleLockedAsset_def Let_def asset_simps
        normalizePositiveAmount_def normalizeNonNegativeAmount_def)
  then show ?thesis
  proof (cases rule: settle_cases)
    case (lost row2' row2)
    then show ?thesis using ran b1 lines by (auto simp: posted_def freshResult_def)
  qed (use assms(2) in auto)
qed (use assms(2) in auto)

definition sampleLoss :: settle_payload where
  "sampleLoss = \<lparr>sl_userId = 1, sl_assetCode = B_LUCK, sl_lockedAmount = 100, sl_payoutAmount = 0,
     sl_entryType = ''market_settle'', sl_referenceType = None, sl_referenceId = None,
     sl_idempotencyKey = Some ''settle:1''\<rparr>"

theorem lost_settlement_is_repeated_witness:
  "\<exists>r ec1 r' ec2. settleLockedAsset sampleLoss sampleAssets = Inr (r, ec1) \<and>
     settleLockedAsset sampleLoss ec1 = Inr (r', ec2) \<and> \<not> ar_replayed r' \<and>
     locked_balance (balanceOf 1 B_LUCK ec2) = locked_balance (balanceOf 1 B_LUCK sampleAssets) - 200"
proof -
  have "case settleLockedAsset sampleLoss sampleAssets of Inl _ \<Rightarrow> False | Inr _ \<Rightarrow> True"
    by code_simp
  then obtain r ec1 where ran: "settleLockedAsset sampleLoss sampleAssets = Inr (r, ec1)"
    by (auto split: sum.splits)
  have cents: "toCents 0 = 0" "toCents 100 = 100"
    by code_simp+
  have locked: "locked_balance (balanceOf 1 B_LUCK sampleAssets) = 300" by code_simp
  have sample: "sl_userId sampleLoss = 1" "sl_assetCode sampleLoss = B_LUCK"
    "sl_payoutAmount sampleLoss = 0" "sl_lockedAmount sampleLoss = 100" by (simp_all add: sampleLoss_def)
  from lost_settlement_is_repeated [OF ran] ran show ?thesis
    unfolding sample cents locked by auto
qed

end
