(* ===== verification/Decimal_Rounding.thy ===== *)
theory Decimal_Rounding
  imports Money
begin

text \<open>
  How \<open>decimal.js\<close> rounds, in its default configuration, the only one the backend uses: the
  result of a product or quotient keeps 20 significant digits, and the next digit decides
  (\<open>ROUND_HALF_UP\<close>).  Rounding to significant digits does not depend on the unit, so it may
  be applied to cents.
\<close>

subsection \<open>The rounding\<close>

text \<open>The number of decimal digits.\<close>

function digitCount :: "int \<Rightarrow> nat" where
  "digitCount n = (if n < 10 then 1 else Suc (digitCount (n div 10)))"
  by auto
termination by (relation "measure nat") auto

declare digitCount.simps [simp del]

text \<open>The exponent of the first significant digit of a positive number.\<close>

definition decimalExponent :: "rat \<Rightarrow> int" where
  "decimalExponent x =
     (let (a, b) = quotient_of x; e = int (digitCount a) - int (digitCount b)
      in if power_int 10 e \<le> x then e else e - 1)"

definition decimalRound :: "rat \<Rightarrow> rat" where
  "decimalRound x =
     (if x = 0 then 0
      else let unit = power_int 10 (decimalExponent \<bar>x\<bar> - 19)
           in sgn x * of_int \<lfloor>\<bar>x\<bar> / unit + 1 / 2\<rfloor> * unit)"

subsection \<open>Its accuracy\<close>

lemma digitCount_bounds:
  assumes "0 < n"
  shows "10 ^ (digitCount n - 1) \<le> n" and "n < 10 ^ digitCount n"
proof -
  have "10 ^ (digitCount n - 1) \<le> n \<and> n < 10 ^ digitCount n" using assms
  proof (induction n rule: digitCount.induct)
    case (1 n)
    show ?case
    proof (cases "n < 10")
      case True
      with 1(2) show ?thesis by (simp add: digitCount.simps [of n])
    next
      case False
      then have IH: "10 ^ (digitCount (n div 10) - 1) \<le> n div 10" "n div 10 < 10 ^ digitCount (n div 10)"
        using 1(1) by simp_all
      obtain k where k: "digitCount (n div 10) = Suc k"
        by (cases "digitCount (n div 10)") (simp_all add: digitCount.simps [of "n div 10"] split: if_splits)
      have digits: "digitCount n = Suc (Suc k)" using False k by (simp add: digitCount.simps [of n])
      from IH have "10 ^ k * 10 \<le> n" "n < 10 ^ Suc k * 10" by (simp_all add: k)
      then show ?thesis by (simp add: digits mult.commute)
    qed
  qed
  then show "10 ^ (digitCount n - 1) \<le> n" "n < 10 ^ digitCount n" by auto
qed

lemma digitCount_pos: "0 < digitCount n"
  by (simp add: digitCount.simps [of n])

lemma digitCount_powi:
  assumes "0 < a"
  shows "power_int 10 (int (digitCount a) - 1) \<le> (of_int a :: rat)"
    and "(of_int a :: rat) < power_int 10 (int (digitCount a))"
proof -
  have "(of_int (10 ^ (digitCount a - 1)) :: rat) \<le> of_int a"
    using digitCount_bounds(1) [OF assms] by (simp only: of_int_le_iff)
  moreover have "int (digitCount a) - 1 = int (digitCount a - 1)"
    using digitCount_pos [of a] by simp
  ultimately show "power_int 10 (int (digitCount a) - 1) \<le> (of_int a :: rat)"
    by (simp add: power_int_of_nat del: of_nat_diff)
  have "(of_int a :: rat) < of_int (10 ^ digitCount a)"
    using digitCount_bounds(2) [OF assms] by (simp only: of_int_less_iff)
  then show "(of_int a :: rat) < power_int 10 (int (digitCount a))"
    by (simp add: power_int_of_nat)
qed

lemma decimalExponent_bounds:
  assumes "0 < x"
  shows "power_int 10 (decimalExponent x) \<le> x" and "x < power_int 10 (decimalExponent x + 1)"
proof -
  obtain a b where q: "quotient_of x = (a, b)" by (cases "quotient_of x")
  have b: "0 < b" and x: "x = of_int a / of_int b"
    using quotient_of_denom_pos [OF q] quotient_of_div [OF q] by simp_all
  have a: "0 < a" using assms b by (simp add: x zero_less_divide_iff)
  let ?i = "int (digitCount a)" and ?j = "int (digitCount b)"
  have shift: "power_int 10 (s - t) = (power_int 10 s / power_int 10 t :: rat)" for s t
    by (simp add: power_int_diff)
  have low: "power_int 10 (?i - ?j - 1) \<le> x"
  proof -
    have "power_int 10 (?i - 1) / power_int 10 ?j \<le> (of_int a / of_int b :: rat)"
      by (rule frac_le) (use digitCount_powi [OF a] digitCount_powi [OF b] a b in \<open>simp_all add: less_imp_le\<close>)
    moreover have "?i - ?j - 1 = (?i - 1) - ?j" by simp
    ultimately show ?thesis by (simp only: x shift)
  qed
  have high: "x < power_int 10 (?i - ?j + 1)"
  proof -
    have "of_int a / of_int b < (power_int 10 ?i / power_int 10 (?j - 1) :: rat)"
      by (rule frac_less) (use digitCount_powi [OF a] digitCount_powi [OF b] a b in simp_all)
    moreover have "?i - ?j + 1 = ?i - (?j - 1)" by simp
    ultimately show ?thesis by (simp only: x shift)
  qed
  show "power_int 10 (decimalExponent x) \<le> x" and "x < power_int 10 (decimalExponent x + 1)"
    using low high by (auto simp: decimalExponent_def q Let_def not_le)
qed

lemma decimalRound_nonneg: "0 \<le> x \<Longrightarrow> 0 \<le> decimalRound x"
  by (auto simp: decimalRound_def Let_def sgn_if intro!: mult_nonneg_nonneg)

lemma decimalRound_close:
  assumes "0 \<le> x"
  shows "\<bar>decimalRound x - x\<bar> \<le> x / 10 ^ 19"
proof (cases "x = 0")
  case False
  with assms have pos: "0 < x" by simp
  define u :: rat where "u = power_int 10 (decimalExponent x - 19)"
  have u: "0 < u" by (simp add: u_def)
  have r: "decimalRound x = of_int \<lfloor>x / u + 1 / 2\<rfloor> * u"
    using pos by (simp add: decimalRound_def Let_def u_def)
  have "\<bar>of_int \<lfloor>x / u + 1 / 2\<rfloor> - x / u\<bar> \<le> 1" by linarith
  then have "\<bar>of_int \<lfloor>x / u + 1 / 2\<rfloor> - x / u\<bar> * u \<le> 1 * u" using u by (intro mult_right_mono) auto
  moreover have "\<bar>of_int \<lfloor>x / u + 1 / 2\<rfloor> - x / u\<bar> * u = \<bar>decimalRound x - x\<bar>"
    using u by (simp only: r abs_mult_pos [OF less_imp_le [OF u]] left_diff_distrib) simp
  moreover have "u \<le> x / 10 ^ 19"
    using decimalExponent_bounds(1) [OF pos] by (simp add: u_def power_int_diff divide_right_mono)
  ultimately show ?thesis by simp
qed (simp add: decimalRound_def)

text \<open>Whole numbers of at most 20 digits are kept.\<close>

lemma decimalRound_int:
  assumes "0 \<le> n" and "n < 10 ^ 20"
  shows "decimalRound (of_int n) = of_int n"
proof (cases "n = 0")
  case False
  let ?e = "decimalExponent (of_int n)"
  have pos: "0 < (of_int n :: rat)" using False assms by simp
  have "(of_int n :: rat) < of_int (10 ^ 20)" using assms(2) by (simp only: of_int_less_iff)
  with decimalExponent_bounds(1) [OF pos] have "power_int 10 ?e < (power_int 10 20 :: rat)" by simp
  then have "?e < 20" using power_int_increasing [of 20 ?e "10 :: rat"] by (rule_tac ccontr) (simp add: not_less)
  then have "?e \<le> 19" by simp
  then obtain k where k: "19 - ?e = int k" by (metis diff_ge_0_iff_ge nonneg_int_cases)
  then have e: "?e - 19 = - int k" by simp
  have "(of_int n :: rat) / power_int 10 (- int k) = of_int (n * 10 ^ k)"
    by (simp add: power_int_minus power_int_of_nat divide_inverse)
  moreover have "\<lfloor>of_int m + 1 / 2 :: rat\<rfloor> = m" for m by linarith
  ultimately have "decimalRound (of_int n) = of_int (n * 10 ^ k) * power_int 10 (- int k)"
    using pos by (simp add: decimalRound_def Let_def e)
  also have "\<dots> = of_int n" by (simp add: power_int_minus power_int_of_nat divide_inverse [symmetric])
  finally show ?thesis .
qed (simp add: decimalRound_def)

end
