(* ===== verification/Market_Settlement.thy ===== *)
theory Market_Settlement
  imports Decimal_Rounding
begin

text \<open>
  The split of a prediction market's pool among the winning positions,
  \<open>modules/prediction-market/settlement.ts\<close>.  Amounts are whole cents; the share of a position
  is a rational number of cents, rounded as \<open>decimal.js\<close> rounds products and quotients.  Sums and
  the fee have fewer than 20 digits for any amount a column of the database holds, so they are
  exact.  Pools below ten million (\<open>10^9\<close> cents) are small enough for the rounded shares to have
  the whole cents of the exact ones.
\<close>

datatype position_status = Pos_open | Pos_sold | Pos_won | Pos_lost | Pos_refunded

record settlement_position =
  sp_id :: nat
  sp_userId :: nat
  sp_outcomeKey :: string
  sp_stakeAmount :: cents

record position_result =
  sr_id :: nat
  sr_userId :: nat
  sr_payoutAmount :: cents
  sr_status :: position_status

datatype settlement_mode = Mode_payout | Mode_refund_no_winners

record settlement_result =
  sm_mode :: settlement_mode
  sm_vigBps :: int
  sm_totalPoolAmount :: cents
  sm_winningPoolAmount :: cents
  sm_feeAmount :: cents
  sm_payoutPoolAmount :: cents
  sm_positionResults :: "position_result list"

record exact_payout =
  xp_id :: nat
  xp_userId :: nat
  xp_exact :: rat
  xp_roundedDown :: cents
  xp_remainder :: rat

definition exactPayout :: "cents \<Rightarrow> cents \<Rightarrow> settlement_position \<Rightarrow> exact_payout" where
  "exactPayout payoutPool winningPool p =
     (let exact = decimalRound (decimalRound (of_int (sp_stakeAmount p * payoutPool)) / of_int winningPool);
          roundedDown = \<lfloor>exact\<rfloor>
      in \<lparr>xp_id = sp_id p, xp_userId = sp_userId p, xp_exact = exact, xp_roundedDown = roundedDown,
          xp_remainder = exact - of_int roundedDown\<rparr>)"

text \<open>The largest remainder first; of equal ones, the smaller id.\<close>

definition rankRemainders :: "exact_payout list \<Rightarrow> exact_payout list" where
  "rankRemainders xs = sort_key (\<lambda>x. (- xp_remainder x, xp_id x)) xs"

text \<open>One pass of the \<open>for\<close> loop, which stops when no cent is left.\<close>

fun extraPass :: "nat list \<Rightarrow> int \<Rightarrow> (nat \<Rightarrow> int) \<Rightarrow> int \<times> (nat \<Rightarrow> int)" where
  "extraPass [] centsRemaining extra = (centsRemaining, extra)"
| "extraPass (i # is) centsRemaining extra =
     (if centsRemaining - 1 = 0 then (0, extra(i := extra i + 1))
      else extraPass is (centsRemaining - 1) (extra(i := extra i + 1)))"

text \<open>The \<open>while\<close> loop; \<open>None\<close> when it does not return.\<close>

partial_function (option) extraCents :: "nat list \<Rightarrow> int \<Rightarrow> (nat \<Rightarrow> int) \<Rightarrow> (nat \<Rightarrow> int) option" where
  "extraCents is centsRemaining extra =
     (if 0 < centsRemaining
      then (case extraPass is centsRemaining extra of (left, extra') \<Rightarrow> extraCents is left extra')
      else Some extra)"

declare extraCents.simps [code]

definition positionResult ::
  "string \<Rightarrow> exact_payout list \<Rightarrow> (nat \<Rightarrow> int) \<Rightarrow> settlement_position \<Rightarrow> position_result res" where
  "positionResult winningOutcomeKey exactPayouts extra p =
     (if sp_outcomeKey p \<noteq> winningOutcomeKey
      then Inr \<lparr>sr_id = sp_id p, sr_userId = sp_userId p, sr_payoutAmount = 0, sr_status = Pos_lost\<rparr>
      else case find (\<lambda>x. xp_id x = sp_id p) exactPayouts of
             None \<Rightarrow> Inl (InternalInvariant ''Winning prediction market position missing.'')
           | Some x \<Rightarrow> Inr \<lparr>sr_id = sp_id p, sr_userId = sp_userId p,
                 sr_payoutAmount = xp_roundedDown x + extra (sp_id p), sr_status = Pos_won\<rparr>)"

fun mapRes :: "('a \<Rightarrow> 'b res) \<Rightarrow> 'a list \<Rightarrow> 'b list res" where
  "mapRes f [] = Inr []"
| "mapRes f (x # xs) = bind_res (f x) (\<lambda>y. bind_res (mapRes f xs) (\<lambda>ys. Inr (y # ys)))"

definition winningPositions :: "settlement_position list \<Rightarrow> string \<Rightarrow> settlement_position list" where
  "winningPositions positions winningOutcomeKey =
     filter (\<lambda>p. sp_outcomeKey p = winningOutcomeKey) positions"

definition poolOf :: "settlement_position list \<Rightarrow> cents" where
  "poolOf positions = (\<Sum>p\<leftarrow>positions. sp_stakeAmount p)"

text \<open>The fee is rounded down to the cent.\<close>

definition vigFee :: "cents \<Rightarrow> int \<Rightarrow> cents" where
  "vigFee totalPool vigBps = \<lfloor>of_int (totalPool * vigBps) / 10000 :: rat\<rfloor>"

definition resolvePariMutuelSettlement ::
  "settlement_position list \<Rightarrow> string \<Rightarrow> int \<Rightarrow> settlement_result res option" where
  "resolvePariMutuelSettlement positions winningOutcomeKey vigBps =
     (if vigBps < 0 \<or> vigBps > 10000 then Some (Inl (InternalInvariant ''Prediction market vig is invalid.''))
      else
        let totalPool = poolOf positions;
            winners = winningPositions positions winningOutcomeKey;
            winningPool = poolOf winners
        in if winners = [] \<or> winningPool \<le> 0
           then Some (Inr \<lparr>sm_mode = Mode_refund_no_winners, sm_vigBps = vigBps,
                  sm_totalPoolAmount = totalPool, sm_winningPoolAmount = 0, sm_feeAmount = 0,
                  sm_payoutPoolAmount = totalPool,
                  sm_positionResults = map (\<lambda>p. \<lparr>sr_id = sp_id p, sr_userId = sp_userId p,
                     sr_payoutAmount = sp_stakeAmount p, sr_status = Pos_refunded\<rparr>) positions\<rparr>)
           else
             let feeAmount = vigFee totalPool vigBps;
                 payoutPool = totalPool - feeAmount;
                 exactPayouts = map (exactPayout payoutPool winningPool) winners;
                 centsRemaining = payoutPool - (\<Sum>x\<leftarrow>exactPayouts. xp_roundedDown x)
             in if centsRemaining < 0
                then Some (Inl (InternalInvariant ''Prediction market payout rounding failed.''))
                else map_option (\<lambda>extra.
                       bind_res (mapRes (positionResult winningOutcomeKey exactPayouts extra) positions)
                         (\<lambda>results. Inr \<lparr>sm_mode = Mode_payout, sm_vigBps = vigBps,
                            sm_totalPoolAmount = totalPool, sm_winningPoolAmount = winningPool,
                            sm_feeAmount = feeAmount, sm_payoutPoolAmount = payoutPool,
                            sm_positionResults = results\<rparr>))
                     (extraCents (map xp_id (rankRemainders exactPayouts)) centsRemaining (\<lambda>_. 0)))"

subsection \<open>The extra cents\<close>

text \<open>Fewer cents are left than there are winners, so one pass hands them out.\<close>

lemma extraPass_take:
  "distinct is \<Longrightarrow> 0 < n \<Longrightarrow> n \<le> int (length is) \<Longrightarrow>
     extraPass is n extra = (0, \<lambda>i. extra i + (if i \<in> set (take (nat n) is) then 1 else 0))"
proof (induction "is" arbitrary: n extra)
  case (Cons i js)
  show ?case
  proof (cases "n = 1")
    case False
    then have n: "nat n = Suc (nat (n - 1))" using Cons.prems by simp
    with False Cons show ?thesis by (auto simp: fun_eq_iff dest: in_set_takeD)
  qed auto
qed simp

lemma extraCents_take:
  "distinct is \<Longrightarrow> 0 \<le> n \<Longrightarrow> n \<le> int (length is) \<Longrightarrow>
     extraCents is n (\<lambda>_. 0) = Some (\<lambda>i. if i \<in> set (take (nat n) is) then 1 else 0)"
  by (subst extraCents.simps, cases "n = 0")
    (simp_all add: extraPass_take extraCents.simps [of "is" 0])

text \<open>In general the passes go on until every cent is handed out.\<close>

lemma extraPass_props:
  assumes "distinct is" and "0 < n" and "extraPass is n extra = (m, e)"
  shows "0 \<le> m \<and> m \<le> n \<and> (is \<noteq> [] \<longrightarrow> m < n) \<and> (\<forall>i. extra i \<le> e i) \<and> (\<forall>i. i \<notin> set is \<longrightarrow> e i = extra i) \<and>
    (\<Sum>i\<leftarrow>is. e i) + m = (\<Sum>i\<leftarrow>is. extra i) + n"
  using assms
proof (induction "is" arbitrary: n extra)
  case (Cons i js)
  let ?x = "extra(i := extra i + 1)"
  have same: "(\<Sum>j\<leftarrow>js. ?x j) = (\<Sum>j\<leftarrow>js. extra j)"
    using Cons.prems(1) by (intro sum_list_congI) auto
  show ?case
  proof (cases "n = 1")
    case True
    with Cons.prems(3) same show ?thesis by auto
  next
    case False
    with Cons.prems have "extraPass js (n - 1) ?x = (m, e)" by simp
    from Cons.IH [OF _ _ this] Cons.prems(1,2) False have
      IH: "0 \<le> m" "m \<le> n - 1" "\<And>j. ?x j \<le> e j" "\<And>j. j \<notin> set js \<Longrightarrow> e j = ?x j"
        "(\<Sum>j\<leftarrow>js. e j) + m = (\<Sum>j\<leftarrow>js. ?x j) + (n - 1)" by auto
    have le: "extra j \<le> e j" for j using IH(3) [of j] by (simp split: if_splits)
    have out: "e j = extra j" if "j \<noteq> i" "j \<notin> set js" for j using IH(4) [OF that(2)] that(1) by simp
    have "e i = extra i + 1" using IH(4) [of i] Cons.prems(1) by simp
    with IH(1,2,5) le out same show ?thesis by (auto simp del: fun_upd_apply)
  qed
qed simp

lemma extraCents_some:
  assumes "distinct is" and "is \<noteq> []" and "0 \<le> n"
  shows "\<exists>e. extraCents is n extra = Some e \<and> (\<forall>i. extra i \<le> e i) \<and>
    (\<Sum>i\<leftarrow>is. e i) = (\<Sum>i\<leftarrow>is. extra i) + n"
  using assms(3)
proof (induction "nat n" arbitrary: n extra rule: less_induct)
  case less
  show ?case
  proof (cases "0 < n")
    case True
    obtain m e where pass: "extraPass is n extra = (m, e)" by (cases "extraPass is n extra")
    note P = extraPass_props [OF assms(1) True pass]
    then have "nat m < nat n" "0 \<le> m" using assms(2) by auto
    from less(1) [OF this, of e] obtain e' where
      e': "extraCents is m e = Some e'" "\<forall>i. e i \<le> e' i" "(\<Sum>i\<leftarrow>is. e' i) = (\<Sum>i\<leftarrow>is. e i) + m" by blast
    have "extraCents is n extra = Some e'"
      by (subst extraCents.simps) (simp add: True pass e'(1))
    moreover have "extra i \<le> e' i" for i using P e'(2) order_trans by blast
    ultimately show ?thesis using P e'(3) by auto
  next
    case False
    with less(2) show ?thesis by (subst extraCents.simps) auto
  qed
qed

lemma floor_sum_gap:
  fixes f :: "'a \<Rightarrow> rat"
  assumes "xs \<noteq> []"
  shows "(\<Sum>x\<leftarrow>xs. \<lfloor>f x\<rfloor>) \<le> \<lfloor>\<Sum>x\<leftarrow>xs. f x\<rfloor>" and "(\<Sum>x\<leftarrow>xs. f x) < of_int (\<Sum>x\<leftarrow>xs. \<lfloor>f x\<rfloor>) + of_nat (length xs)"
proof -
  have "of_int (\<Sum>x\<leftarrow>xs. \<lfloor>f x\<rfloor>) \<le> (\<Sum>x\<leftarrow>xs. f x)"
    by (induction xs) (auto intro!: add_mono)
  then show "(\<Sum>x\<leftarrow>xs. \<lfloor>f x\<rfloor>) \<le> \<lfloor>\<Sum>x\<leftarrow>xs. f x\<rfloor>" by (simp add: le_floor_iff)
  show "(\<Sum>x\<leftarrow>xs. f x) < of_int (\<Sum>x\<leftarrow>xs. \<lfloor>f x\<rfloor>) + of_nat (length xs)"
    using assms
  proof (induction xs rule: list_nonempty_induct)
    case (cons x xs)
    have "f x < of_int \<lfloor>f x\<rfloor> + 1" by linarith
    with cons show ?case by simp
  next
    case (single x)
    have "f x < of_int \<lfloor>f x\<rfloor> + 1" by linarith
    then show ?case by simp
  qed
qed

lemma mapRes_map: "(\<And>x. x \<in> set xs \<Longrightarrow> f x = Inr (g x)) \<Longrightarrow> mapRes f xs = Inr (map g xs)"
  by (induction xs) auto


subsection \<open>The split\<close>

text \<open>The shares of the winners, exactly and as the code rounds them, and the extra cents.\<close>

definition exactShare :: "settlement_position list \<Rightarrow> string \<Rightarrow> int \<Rightarrow> settlement_position \<Rightarrow> rat" where
  "exactShare ps w vig p =
     of_int (sp_stakeAmount p * (poolOf ps - vigFee (poolOf ps) vig)) / of_int (poolOf (winningPositions ps w))"

definition rankedWinners :: "settlement_position list \<Rightarrow> string \<Rightarrow> int \<Rightarrow> exact_payout list" where
  "rankedWinners ps w vig = rankRemainders (map (exactPayout (poolOf ps - vigFee (poolOf ps) vig)
     (poolOf (winningPositions ps w))) (winningPositions ps w))"

definition roundedShare :: "settlement_position list \<Rightarrow> string \<Rightarrow> int \<Rightarrow> settlement_position \<Rightarrow> cents" where
  "roundedShare ps w vig p = xp_roundedDown (exactPayout (poolOf ps - vigFee (poolOf ps) vig)
     (poolOf (winningPositions ps w)) p)"

definition leftCents :: "settlement_position list \<Rightarrow> string \<Rightarrow> int \<Rightarrow> cents" where
  "leftCents ps w vig = poolOf ps - vigFee (poolOf ps) vig - (\<Sum>p\<leftarrow>winningPositions ps w. roundedShare ps w vig p)"

definition extraShare :: "settlement_position list \<Rightarrow> string \<Rightarrow> int \<Rightarrow> nat \<Rightarrow> cents" where
  "extraShare ps w vig =
     (case extraCents (map xp_id (rankedWinners ps w vig)) (leftCents ps w vig) (\<lambda>_. 0) of
        None \<Rightarrow> (\<lambda>_. 0) | Some e \<Rightarrow> e)"

definition validPositions :: "settlement_position list \<Rightarrow> bool" where
  "validPositions ps = (distinct (map sp_id ps) \<and> (\<forall>p \<in> set ps. 0 < sp_stakeAmount p))"

lemma poolOf_nonneg: "(\<And>p. p \<in> set ps \<Longrightarrow> 0 < sp_stakeAmount p) \<Longrightarrow> 0 \<le> poolOf ps"
  unfolding poolOf_def by (rule sum_list_nonneg) force

lemma poolOf_pos: "(\<And>p. p \<in> set ps \<Longrightarrow> 0 < sp_stakeAmount p) \<Longrightarrow> ps \<noteq> [] \<Longrightarrow> 0 < poolOf ps"
proof (induction ps)
  case (Cons p ps)
  have "0 < sp_stakeAmount p" "0 \<le> poolOf ps" using Cons.prems(1) by (auto intro: poolOf_nonneg)
  then show ?case by (simp add: poolOf_def)
qed simp

lemma vigFee_bounds:
  assumes "0 \<le> n" and "0 \<le> vig" and "vig \<le> 10000"
  shows "0 \<le> vigFee n vig" and "vigFee n vig \<le> n"
proof -
  show "0 \<le> vigFee n vig" using assms by (simp add: vigFee_def)
  have "n * vig \<le> n * 10000" using assms by (simp add: mult_left_mono)
  then have "(of_int (n * vig) :: rat) \<le> of_int (n * 10000)" by (simp only: of_int_le_iff)
  then have "of_int (n * vig) / 10000 \<le> (of_int n :: rat)" by simp
  then show "vigFee n vig \<le> n" unfolding vigFee_def by (simp add: floor_le_iff)
qed

lemma sum_exactShare:
  assumes "0 < poolOf (winningPositions ps w)"
  shows "(\<Sum>p\<leftarrow>winningPositions ps w. exactShare ps w vig p) = of_int (poolOf ps - vigFee (poolOf ps) vig)"
proof -
  have sum: "(\<Sum>p\<leftarrow>qs. of_int (sp_stakeAmount p * c) / of_int d :: rat) = of_int (poolOf qs) * of_int c / of_int d"
    for qs c d by (induction qs) (simp_all add: poolOf_def add_divide_distrib distrib_right)
  show ?thesis unfolding exactShare_def sum using assms by simp
qed

lemma ids_rankedWinners:
  "mset (map xp_id (rankedWinners ps w vig)) = mset (map sp_id (winningPositions ps w))"
  by (simp add: rankedWinners_def rankRemainders_def exactPayout_def Let_def
      image_mset.compositionality comp_def)

lemma winners_subset: "p \<in> set (winningPositions ps w) \<longleftrightarrow> p \<in> set ps \<and> sp_outcomeKey p = w"
  by (auto simp: winningPositions_def)

lemma winningPool_pos:
  "validPositions ps \<Longrightarrow> winningPositions ps w \<noteq> [] \<Longrightarrow> 0 < poolOf (winningPositions ps w)"
  by (intro poolOf_pos) (auto simp: validPositions_def winners_subset)

lemma distinct_rankedWinners:
  assumes "validPositions ps"
  shows "distinct (map xp_id (rankedWinners ps w vig))"
proof -
  have "distinct (map sp_id (winningPositions ps w))"
    using assms by (simp add: validPositions_def winningPositions_def distinct_map_filter)
  then show ?thesis by (metis ids_rankedWinners mset_eq_imp_distinct_iff)
qed

definition shareResult :: "settlement_position list \<Rightarrow> string \<Rightarrow> int \<Rightarrow> settlement_position \<Rightarrow> position_result" where
  "shareResult ps w vig p =
     (if sp_outcomeKey p = w
      then \<lparr>sr_id = sp_id p, sr_userId = sp_userId p,
            sr_payoutAmount = roundedShare ps w vig p + extraShare ps w vig (sp_id p), sr_status = Pos_won\<rparr>
      else \<lparr>sr_id = sp_id p, sr_userId = sp_userId p, sr_payoutAmount = 0, sr_status = Pos_lost\<rparr>)"

lemma find_winner:
  assumes "validPositions ps" and "p \<in> set (winningPositions ps w)"
  shows "find (\<lambda>x. xp_id x = sp_id p) (map (exactPayout c d) (winningPositions ps w)) = Some (exactPayout c d p)"
proof -
  let ?xs = "map (exactPayout c d) (winningPositions ps w)"
  have id: "xp_id (exactPayout c d q) = sp_id q" for q by (simp add: exactPayout_def Let_def)
  have "distinct (map xp_id ?xs)"
    using assms(1) by (simp add: validPositions_def winningPositions_def comp_def id distinct_map_filter)
  from find_key_distinct [OF this, of "exactPayout c d p"] assms(2) show ?thesis by (simp add: id)
qed

lemma extraShare_props:
  assumes valid: "validPositions ps" and winner: "winningPositions ps w \<noteq> []" and left: "0 \<le> leftCents ps w vig"
  shows "extraCents (map xp_id (rankedWinners ps w vig)) (leftCents ps w vig) (\<lambda>_. 0) = Some (extraShare ps w vig)"
    and "0 \<le> extraShare ps w vig i"
    and "(\<Sum>i\<leftarrow>map xp_id (rankedWinners ps w vig). extraShare ps w vig i) = leftCents ps w vig"
proof -
  let ?is = "map xp_id (rankedWinners ps w vig)"
  have "mset ?is \<noteq> {#}" unfolding ids_rankedWinners using winner by simp
  then have "?is \<noteq> []" by auto
  from extraCents_some [OF distinct_rankedWinners [OF valid] this left, of "\<lambda>_. 0"] obtain e where
    e: "extraCents ?is (leftCents ps w vig) (\<lambda>_. 0) = Some e" "\<forall>i. 0 \<le> e i" "(\<Sum>i\<leftarrow>?is. e i) = leftCents ps w vig"
    unfolding sum_list_0 add_0_left by blast
  have "extraShare ps w vig = e" by (simp add: extraShare_def e(1) del: list.map)
  with e show "extraCents ?is (leftCents ps w vig) (\<lambda>_. 0) = Some (extraShare ps w vig)"
    "0 \<le> extraShare ps w vig i" "(\<Sum>i\<leftarrow>?is. extraShare ps w vig i) = leftCents ps w vig" by auto
qed

text \<open>With a winner, the settlement returns, and what it returns.\<close>

lemma resolve_payout:
  assumes valid: "validPositions ps" and vig: "0 \<le> vig" "vig \<le> 10000"
    and winner: "winningPositions ps w \<noteq> []"
  shows "resolvePariMutuelSettlement ps w vig =
    (if leftCents ps w vig < 0
     then Some (Inl (InternalInvariant ''Prediction market payout rounding failed.''))
     else Some (Inr
       \<lparr>sm_mode = Mode_payout, sm_vigBps = vig, sm_totalPoolAmount = poolOf ps,
        sm_winningPoolAmount = poolOf (winningPositions ps w), sm_feeAmount = vigFee (poolOf ps) vig,
        sm_payoutPoolAmount = poolOf ps - vigFee (poolOf ps) vig,
        sm_positionResults = map (shareResult ps w vig) ps\<rparr>))"
proof -
  let ?W = "poolOf (winningPositions ps w)" and ?c = "poolOf ps - vigFee (poolOf ps) vig"
  let ?xs = "map (exactPayout ?c ?W) (winningPositions ps w)"
  have W: "0 < ?W"
    by (rule winningPool_pos [OF valid winner])
  have n: "?c - (\<Sum>x\<leftarrow>?xs. xp_roundedDown x) = leftCents ps w vig"
    by (simp add: leftCents_def comp_def roundedShare_def)
  have "positionResult w ?xs (extraShare ps w vig) p = Inr (shareResult ps w vig p)" if "p \<in> set ps" for p
    using find_winner [OF valid, of p w ?c ?W] that
    by (auto simp: positionResult_def shareResult_def winners_subset roundedShare_def)
  then have res: "mapRes (positionResult w ?xs (extraShare ps w vig)) ps = Inr (map (shareResult ps w vig) ps)"
    by (rule mapRes_map)
  show ?thesis
    unfolding resolvePariMutuelSettlement_def Let_def n rankedWinners_def [symmetric]
    using vig winner W res extraShare_props(1) [OF valid winner, of vig] by (simp add: not_less)
qed


lemma resolve_refund:
  assumes "winningPositions ps w = []" and "0 \<le> vig" "vig \<le> 10000"
  shows "resolvePariMutuelSettlement ps w vig = Some (Inr
     \<lparr>sm_mode = Mode_refund_no_winners, sm_vigBps = vig, sm_totalPoolAmount = poolOf ps,
      sm_winningPoolAmount = 0, sm_feeAmount = 0, sm_payoutPoolAmount = poolOf ps,
      sm_positionResults = map (\<lambda>p. \<lparr>sr_id = sp_id p, sr_userId = sp_userId p,
         sr_payoutAmount = sp_stakeAmount p, sr_status = Pos_refunded\<rparr>) ps\<rparr>)"
  using assms by (simp add: resolvePariMutuelSettlement_def Let_def)

text \<open>What is paid is the pool less the fee.\<close>

lemma sum_winner_ids:
  fixes g :: "nat \<Rightarrow> cents"
  shows "(\<Sum>p\<leftarrow>winningPositions ps w. g (sp_id p)) = (\<Sum>i\<leftarrow>map xp_id (rankedWinners ps w vig). g i)"
proof -
  have "(\<Sum>p\<leftarrow>winningPositions ps w. g (sp_id p)) = (\<Sum>i\<leftarrow>map sp_id (winningPositions ps w). g i)"
    by (simp add: comp_def)
  also have "\<dots> = (\<Sum>i\<leftarrow>map xp_id (rankedWinners ps w vig). g i)"
    by (metis ids_rankedWinners mset_map sum_mset_sum_list)
  finally show ?thesis .
qed

lemma sum_results:
  assumes "validPositions ps" and "winningPositions ps w \<noteq> []" and "0 \<le> leftCents ps w vig"
  shows "(\<Sum>p\<leftarrow>ps. sr_payoutAmount (shareResult ps w vig p)) = poolOf ps - vigFee (poolOf ps) vig"
proof -
  have "(\<Sum>p\<leftarrow>qs. sr_payoutAmount (shareResult ps w vig p)) = (\<Sum>p\<leftarrow>winningPositions qs w.
      roundedShare ps w vig p + extraShare ps w vig (sp_id p))" for qs
    by (induction qs) (simp_all add: shareResult_def winningPositions_def)
  from this [of ps] show ?thesis
    by (simp only: sum_list_addf sum_winner_ids [of _ ps w vig] extraShare_props(3) [OF assms])
      (simp add: leftCents_def)
qed

subsection \<open>Small pools\<close>

text \<open>
  With fewer than \<open>10^9\<close> cents in the pool a share that is not whole is further from whole
  numbers, and different remainders are further apart, than the rounding error.
\<close>

definition smallPool :: "settlement_position list \<Rightarrow> bool" where
  "smallPool ps = (poolOf ps < 10 ^ 9)"

lemma winningPool_le:
  assumes "validPositions ps"
  shows "poolOf (winningPositions ps w) \<le> poolOf ps"
proof -
  have "(\<Sum>p\<leftarrow>winningPositions qs w. sp_stakeAmount p) \<le> (\<Sum>p\<leftarrow>qs. sp_stakeAmount p)"
    if "\<forall>p \<in> set qs. 0 < sp_stakeAmount p" for qs
    using that by (induction qs) (auto simp: winningPositions_def)
  with assms show ?thesis by (simp add: poolOf_def validPositions_def)
qed

lemma stake_le_pool:
  assumes "validPositions ps" and "p \<in> set (winningPositions ps w)"
  shows "sp_stakeAmount p \<le> poolOf (winningPositions ps w)"
  unfolding poolOf_def
  by (rule member_le_sum_list_int) (use assms in \<open>auto simp: validPositions_def winners_subset less_imp_le\<close>)

lemma share_product:
  assumes valid: "validPositions ps" and vig: "0 \<le> vig" "vig \<le> 10000" and small: "smallPool ps"
    and p: "p \<in> set (winningPositions ps w)"
  shows "0 \<le> sp_stakeAmount p * (poolOf ps - vigFee (poolOf ps) vig)"
    and "sp_stakeAmount p * (poolOf ps - vigFee (poolOf ps) vig) < 10 ^ 20"
    and "exactShare ps w vig p \<le> 10 ^ 9"
proof -
  let ?c = "poolOf ps - vigFee (poolOf ps) vig" and ?W = "poolOf (winningPositions ps w)"
  have pool: "0 \<le> poolOf ps" using valid by (simp add: validPositions_def poolOf_nonneg)
  have c: "0 \<le> ?c" "?c < 10 ^ 9"
    using vigFee_bounds [OF pool vig] small by (auto simp: smallPool_def)
  have stake: "0 < sp_stakeAmount p" "sp_stakeAmount p \<le> ?W"
    using stake_le_pool [OF valid p] valid p by (auto simp: validPositions_def winners_subset)
  then have "sp_stakeAmount p < 10 ^ 9"
    using winningPool_le [OF valid, of w] small by (simp add: smallPool_def)
  then have "sp_stakeAmount p * ?c \<le> 10 ^ 9 * 10 ^ 9" using c stake by (intro mult_mono) auto
  then show "0 \<le> sp_stakeAmount p * ?c" "sp_stakeAmount p * ?c < 10 ^ 20" using c stake by auto
  have "sp_stakeAmount p * ?c \<le> ?W * 10 ^ 9" using c stake by (intro mult_mono) auto
  then have "(of_int (sp_stakeAmount p * ?c) :: rat) \<le> of_int (?W * 10 ^ 9)" by (simp only: of_int_le_iff)
  with stake show "exactShare ps w vig p \<le> 10 ^ 9"
    by (simp add: exactShare_def divide_le_eq mult.commute)
qed

lemma small_gap:
  assumes "validPositions ps" and "smallPool ps" and "p \<in> set (winningPositions ps w)"
  shows "(1 :: rat) / 1000000000 < 1 / of_int (poolOf (winningPositions ps w))"
proof -
  let ?W = "poolOf (winningPositions ps w)"
  have W: "0 < ?W" using assms(3) by (intro winningPool_pos [OF assms(1)]) auto
  have "?W < 10 ^ 9" using winningPool_le [OF assms(1), of w] assms(2) by (simp add: smallPool_def)
  then have "(of_int ?W :: rat) < of_int (10 ^ 9)" by (simp only: of_int_less_iff)
  with W show ?thesis by (intro divide_strict_left_mono) simp_all
qed

lemma of_int_div_split:
  assumes "0 < d"
  shows "of_int n / of_int d = (of_int (n div d) + of_int (n mod d) / of_int d :: rat)"
proof -
  have "(of_int n :: rat) = of_int (n div d) * of_int d + of_int (n mod d)"
    by (simp only: of_int_mult [symmetric] of_int_add [symmetric] div_mult_mod_eq)
  then show ?thesis using assms by (simp add: add_divide_distrib)
qed

text \<open>The share as the code rounds it, its distance from the exact one, and its whole cents.\<close>

lemma share_decimal:
  assumes valid: "validPositions ps" and vig: "0 \<le> vig" "vig \<le> 10000" and small: "smallPool ps"
    and p: "p \<in> set (winningPositions ps w)"
  defines "x \<equiv> exactPayout (poolOf ps - vigFee (poolOf ps) vig) (poolOf (winningPositions ps w)) p"
  shows "xp_exact x = decimalRound (exactShare ps w vig p)"
    and "\<bar>xp_exact x - exactShare ps w vig p\<bar> \<le> 1 / 10000000000"
    and "roundedShare ps w vig p = \<lfloor>exactShare ps w vig p\<rfloor>"
proof -
  let ?n = "sp_stakeAmount p * (poolOf ps - vigFee (poolOf ps) vig)" and ?W = "poolOf (winningPositions ps w)"
  let ?s = "exactShare ps w vig p"
  note n = share_product [OF assms(1-5)]
  have W: "0 < ?W" using p by (intro winningPool_pos [OF valid]) auto
  have s: "?s = of_int ?n / of_int ?W" by (simp add: exactShare_def)
  have s0: "0 \<le> ?s" using n(1) W unfolding s by (intro divide_nonneg_pos) (simp_all only: of_int_0_le_iff of_int_0_less_iff)
  show x: "xp_exact x = decimalRound ?s"
    unfolding x_def exactPayout_def Let_def s using decimalRound_int [OF n(1,2)] by simp
  have "\<bar>decimalRound ?s - ?s\<bar> \<le> ?s / 10 ^ 19" by (rule decimalRound_close [OF s0])
  also have "\<dots> \<le> 1 / 10000000000" using n(3) by simp
  finally show close: "\<bar>xp_exact x - ?s\<bar> \<le> 1 / 10000000000" unfolding x .
  have gap: "(1 :: rat) / 10000000000 < 1 / of_int ?W"
    using small_gap [OF valid small p] by linarith
  have split: "?s = of_int (?n div ?W) + of_int (?n mod ?W) / of_int ?W"
    unfolding s by (rule of_int_div_split [OF W])
  have "\<lfloor>decimalRound ?s\<rfloor> = \<lfloor>?s\<rfloor>"
  proof (cases "?n mod ?W = 0")
    case True
    then have "?s = of_int (?n div ?W)" unfolding split by simp
    moreover have "0 \<le> ?n div ?W" using n(1) W by (simp add: pos_imp_zdiv_nonneg_iff)
    moreover have "?n div ?W < 10 ^ 20" using n(1,2) W zdiv_mono2 [of ?n 1 ?W] by simp
    ultimately show ?thesis by (simp add: decimalRound_int)
  next
    case False
    have "1 \<le> ?n mod ?W" "?n mod ?W \<le> ?W - 1"
      using False W pos_mod_sign [of ?W ?n] pos_mod_bound [of ?W ?n] by linarith+
    then have "(of_int 1 :: rat) \<le> of_int (?n mod ?W)" "(of_int (?n mod ?W) :: rat) \<le> of_int (?W - 1)"
      by (simp_all only: of_int_le_iff)
    then have "1 / of_int ?W \<le> (of_int (?n mod ?W) / of_int ?W :: rat)"
      "of_int (?n mod ?W) / of_int ?W \<le> (1 - 1 / of_int ?W :: rat)"
      using W by (simp_all add: divide_right_mono field_simps)
    with close gap have "of_int (?n div ?W) \<le> decimalRound ?s" "decimalRound ?s < of_int (?n div ?W) + 1"
      unfolding x split by linarith+
    then have "\<lfloor>decimalRound ?s\<rfloor> = ?n div ?W" by (simp add: floor_unique)
    moreover have "\<lfloor>?s\<rfloor> = ?n div ?W" unfolding s by (rule floor_divide_of_int_eq)
    ultimately show ?thesis by simp
  qed
  then show "roundedShare ps w vig p = \<lfloor>?s\<rfloor>"
    unfolding roundedShare_def x_def [symmetric] x [symmetric] by (simp add: x_def exactPayout_def Let_def)
qed


text \<open>So fewer cents than winners are left, and each winner gets at most one of them.\<close>

definition bonusCent :: "settlement_position list \<Rightarrow> string \<Rightarrow> int \<Rightarrow> nat \<Rightarrow> cents" where
  "bonusCent ps w vig i =
     (if i \<in> set (take (nat (leftCents ps w vig)) (map xp_id (rankedWinners ps w vig))) then 1 else 0)"

lemma leftCents_small:
  assumes "validPositions ps" and "0 \<le> vig" "vig \<le> 10000" and "smallPool ps"
  shows "leftCents ps w vig = poolOf ps - vigFee (poolOf ps) vig -
    (\<Sum>p\<leftarrow>winningPositions ps w. \<lfloor>exactShare ps w vig p\<rfloor>)"
proof -
  have "(\<Sum>p\<leftarrow>winningPositions ps w. roundedShare ps w vig p) =
      (\<Sum>p\<leftarrow>winningPositions ps w. \<lfloor>exactShare ps w vig p\<rfloor>)"
    by (rule sum_list_congI) (rule share_decimal(3) [OF assms])
  then show ?thesis by (simp add: leftCents_def)
qed

lemma leftCents_bounds:
  assumes "validPositions ps" and "0 \<le> vig" "vig \<le> 10000" and "smallPool ps" and "winningPositions ps w \<noteq> []"
  shows "0 \<le> leftCents ps w vig" and "leftCents ps w vig < int (length (winningPositions ps w))"
  using floor_sum_gap [OF assms(5), of "exactShare ps w vig"]
  unfolding sum_exactShare [OF winningPool_pos [OF assms(1,5)]] leftCents_small [OF assms(1-4)] by (simp_all; linarith)+

lemma extraShare_small:
  assumes "validPositions ps" and "0 \<le> vig" "vig \<le> 10000" and "smallPool ps" and "winningPositions ps w \<noteq> []"
  shows "extraShare ps w vig = bonusCent ps w vig"
proof -
  note left = leftCents_bounds [OF assms]
  have len: "length (map xp_id (rankedWinners ps w vig)) = length (winningPositions ps w)"
    by (metis ids_rankedWinners length_map mset_eq_length)
  have "extraCents (map xp_id (rankedWinners ps w vig)) (leftCents ps w vig) (\<lambda>_. 0) = Some (bonusCent ps w vig)"
    using left distinct_rankedWinners [OF assms(1)] unfolding bonusCent_def
    by (subst extraCents_take) (auto simp: len simp del: length_map)
  then show ?thesis by (simp add: extraShare_def)
qed

lemma payout_small:
  assumes "validPositions ps" and "0 \<le> vig" "vig \<le> 10000" and "smallPool ps" and p: "p \<in> set (winningPositions ps w)"
  shows "sr_payoutAmount (shareResult ps w vig p) = \<lfloor>exactShare ps w vig p\<rfloor> + bonusCent ps w vig (sp_id p)"
proof -
  have "winningPositions ps w \<noteq> []" using p by auto
  from extraShare_small [OF assms(1-4) this] share_decimal(3) [OF assms] p show ?thesis
    by (simp add: shareResult_def winners_subset)
qed

subsection \<open>Fairness\<close>

lemma take_sorted_less:
  fixes k :: "'a \<Rightarrow> 'b::linorder"
  assumes "sorted (map k xs)" and "x \<in> set (take n xs)" and "y \<in> set xs" and "k y < k x"
  shows "y \<in> set (take n xs)"
proof -
  from assms(2) obtain i where i: "i < n" "i < length xs" "x = xs ! i"
    by (auto simp: in_set_conv_nth)
  from assms(3) obtain j where j: "j < length xs" "y = xs ! j" by (auto simp: in_set_conv_nth)
  have "j < n"
  proof (rule ccontr)
    assume "\<not> j < n"
    with i have "i \<le> j" by simp
    with sorted_nth_mono [OF assms(1), of i j] i j assms(4) show False by simp
  qed
  with j show ?thesis by (auto simp: in_set_conv_nth intro!: exI [of _ j])
qed

text \<open>Different remainders of small pools stay in their order when they are rounded.\<close>

lemma remainder_gap:
  assumes W: "0 < poolOf (winningPositions ps w)" and less: "frac (exactShare ps w vig p) < frac (exactShare ps w vig q)"
  shows "frac (exactShare ps w vig p) + 1 / of_int (poolOf (winningPositions ps w)) \<le> frac (exactShare ps w vig q)"
proof -
  let ?W = "poolOf (winningPositions ps w)"
  let ?n = "\<lambda>r. sp_stakeAmount r * (poolOf ps - vigFee (poolOf ps) vig)"
  have frac: "frac (exactShare ps w vig r) = of_int (?n r mod ?W) / of_int ?W" for r
  proof -
    have "exactShare ps w vig r = of_int (?n r div ?W) + of_int (?n r mod ?W) / of_int ?W"
      unfolding exactShare_def by (rule of_int_div_split [OF W])
    moreover have "\<lfloor>exactShare ps w vig r\<rfloor> = ?n r div ?W" unfolding exactShare_def by (rule floor_divide_of_int_eq)
    ultimately show ?thesis by (simp add: frac_def)
  qed
  from less W have "(of_int (?n p mod ?W) :: rat) < of_int (?n q mod ?W)"
    by (simp add: frac divide_less_cancel)
  then have "?n p mod ?W + 1 \<le> ?n q mod ?W" by (simp only: of_int_less_iff zless_imp_add1_zle)
  then have "(of_int (?n p mod ?W + 1) :: rat) \<le> of_int (?n q mod ?W)" by (simp only: of_int_le_iff)
  then have "(of_int (?n p mod ?W) + 1 :: rat) / of_int ?W \<le> of_int (?n q mod ?W) / of_int ?W"
    using W by (intro divide_right_mono) simp_all
  then show ?thesis by (simp only: frac add_divide_distrib)
qed

lemma bonus_follows_remainder:
  assumes valid: "validPositions ps" and vig: "0 \<le> vig" "vig \<le> 10000" and small: "smallPool ps"
    and p: "p \<in> set (winningPositions ps w)" and q: "q \<in> set (winningPositions ps w)"
    and less: "frac (exactShare ps w vig p) < frac (exactShare ps w vig q)"
  shows "bonusCent ps w vig (sp_id p) \<le> bonusCent ps w vig (sp_id q)"
proof (cases "sp_id p \<in> set (take (nat (leftCents ps w vig)) (map xp_id (rankedWinners ps w vig)))")
  case True
  let ?R = "rankedWinners ps w vig" and ?k = "\<lambda>x. (- xp_remainder x, xp_id x)"
  let ?x = "exactPayout (poolOf ps - vigFee (poolOf ps) vig) (poolOf (winningPositions ps w))"
  have id: "xp_id (?x r) = sp_id r" for r
    by (simp add: exactPayout_def Let_def)
  have rem: "xp_remainder (?x r) = xp_exact (?x r) - of_int \<lfloor>exactShare ps w vig r\<rfloor>"
    if "r \<in> set (winningPositions ps w)" for r
    using share_decimal(3) [OF valid vig small that] by (simp add: roundedShare_def exactPayout_def Let_def)
  have W: "0 < poolOf (winningPositions ps w)" using p by (intro winningPool_pos [OF valid]) auto
  have "xp_remainder (?x p) < xp_remainder (?x q)"
    using remainder_gap [OF W less] small_gap [OF valid small p] share_decimal(2) [OF valid vig small p]
      share_decimal(2) [OF valid vig small q] unfolding rem [OF p] rem [OF q] frac_def by linarith
  then have before: "?k (?x q) < ?k (?x p)" by simp
  have mem: "?x r \<in> set ?R" if "r \<in> set (winningPositions ps w)" for r
    using that by (simp add: rankedWinners_def rankRemainders_def)
  from True obtain y where y: "y \<in> set (take (nat (leftCents ps w vig)) ?R)" "xp_id y = sp_id p"
    by (auto simp: take_map)
  have "inj_on xp_id (set ?R)" using distinct_rankedWinners [OF valid] by (simp add: distinct_map)
  then have yp: "y = ?x p"
    using y mem [OF p] by (metis id in_set_takeD inj_onD)
  have sorted: "sorted (map ?k ?R)" by (simp add: rankedWinners_def rankRemainders_def)
  from sorted y(1) mem [OF q] before [folded yp] have "?x q \<in> set (take (nat (leftCents ps w vig)) ?R)"
    by (rule take_sorted_less [of ?k])
  then have "sp_id q \<in> set (take (nat (leftCents ps w vig)) (map xp_id ?R))"
    unfolding take_map set_map by (rule image_eqI [rotated]) (rule id [symmetric])
  then show ?thesis by (simp add: bonusCent_def)
qed (simp add: bonusCent_def)

text \<open>Without a payout pool nobody gets anything.\<close>

lemma larger_share:
  assumes valid: "validPositions ps" and vig: "0 \<le> vig" "vig \<le> 10000" and small: "smallPool ps"
    and p: "p \<in> set (winningPositions ps w)" and q: "q \<in> set (winningPositions ps w)"
    and less: "sp_stakeAmount p < sp_stakeAmount q"
  shows "sr_payoutAmount (shareResult ps w vig p) \<le> sr_payoutAmount (shareResult ps w vig q)"
proof -
  let ?c = "poolOf ps - vigFee (poolOf ps) vig" and ?W = "poolOf (winningPositions ps w)"
  have W: "0 < ?W"
    using p by (intro winningPool_pos [OF valid]) auto
  have c: "0 \<le> ?c"
    using vigFee_bounds(2) [of "poolOf ps" vig] vig valid poolOf_nonneg [of ps] by (simp add: validPositions_def)
  note res = payout_small [OF valid vig small]
  have bonus: "bonusCent ps w vig i \<in> {0, 1}" for i by (simp add: bonusCent_def)
  show ?thesis
  proof (cases "?c = 0")
    case True
    then have zero: "exactShare ps w vig r = 0" for r by (simp add: exactShare_def)
    then have "leftCents ps w vig = 0" using True by (simp add: leftCents_small [OF valid vig small])
    with zero show ?thesis by (simp add: res p q bonusCent_def)
  next
    case False
    with c less have "sp_stakeAmount p * ?c < sp_stakeAmount q * ?c" by simp
    then have "(of_int (sp_stakeAmount p * ?c) :: rat) < of_int (sp_stakeAmount q * ?c)"
      by (simp only: of_int_less_iff)
    with W have share: "exactShare ps w vig p < exactShare ps w vig q"
      unfolding exactShare_def by (simp add: divide_strict_right_mono)
    show ?thesis
    proof (cases "\<lfloor>exactShare ps w vig p\<rfloor> = \<lfloor>exactShare ps w vig q\<rfloor>")
      case True
      with share bonus_follows_remainder [OF valid vig small p q] show ?thesis
        by (simp add: res p q frac_def)
    next
      case False
      moreover have "\<lfloor>exactShare ps w vig p\<rfloor> \<le> \<lfloor>exactShare ps w vig q\<rfloor>"
        using share by (simp add: floor_mono)
      ultimately show ?thesis using bonus [of "sp_id p"] bonus [of "sp_id q"] by (auto simp: res p q)
    qed
  qed
qed

text \<open>Only a share with a fraction gets an extra cent, so a payout is less than a cent off.\<close>

lemma bonus_only_fraction:
  assumes valid: "validPositions ps" and vig: "0 \<le> vig" "vig \<le> 10000" and small: "smallPool ps"
    and p: "p \<in> set (winningPositions ps w)" and whole: "frac (exactShare ps w vig p) = 0"
  shows "bonusCent ps w vig (sp_id p) = 0"
proof (rule ccontr)
  let ?win = "winningPositions ps w" and ?x = "exactShare ps w vig"
  let ?some = "\<lambda>q. if frac (?x q) > 0 then 1 else 0 :: int"
  assume "bonusCent ps w vig (sp_id p) \<noteq> 0"
  then have b1: "bonusCent ps w vig (sp_id p) = 1" by (simp add: bonusCent_def split: if_splits)
  have ne: "?win \<noteq> []" using p by auto
  have fracs: "(\<Sum>q\<leftarrow>?win. frac (?x q)) = of_int (leftCents ps w vig)"
    using sum_exactShare [OF winningPool_pos [OF valid ne], of vig]
    by (simp add: frac_def sum_list_subtractf leftCents_small [OF valid vig small] of_int_sum_list comp_def)
  have "(\<Sum>q\<leftarrow>?win. frac (?x q)) \<le> (\<Sum>q\<leftarrow>?win. of_int (?some q))"
  proof (rule sum_list_mono)
    fix q
    show "frac (?x q) \<le> of_int (?some q)"
      using frac_ge_0 [of "?x q"] frac_lt_1 [of "?x q"] by (cases "frac (?x q) > 0") (simp_all del: frac_gt_0_iff)
  qed
  also have "\<dots> = of_int (\<Sum>q\<leftarrow>?win. ?some q)" by (simp add: of_int_sum_list comp_def)
  finally have some: "leftCents ps w vig \<le> (\<Sum>q\<leftarrow>?win. ?some q)" unfolding fracs by (simp only: of_int_le_iff)
  have "0 \<le> bonusCent ps w vig (sp_id q) - ?some q" if "q \<in> set ?win" for q
  proof (cases "frac (?x q) > 0")
    case True
    with bonus_follows_remainder [OF valid vig small p that] whole b1 show ?thesis by simp
  next
    case False
    then show ?thesis by (simp add: bonusCent_def)
  qed
  then have "bonusCent ps w vig (sp_id p) - ?some p \<le> (\<Sum>q\<leftarrow>?win. bonusCent ps w vig (sp_id q) - ?some q)"
    by (rule member_le_sum_list_int [OF _ p])
  also have "\<dots> = leftCents ps w vig - (\<Sum>q\<leftarrow>?win. ?some q)"
    by (simp add: sum_list_subtractf extraShare_small [OF valid vig small ne, symmetric]
        sum_winner_ids [of _ ps w vig] extraShare_props(3) [OF valid ne leftCents_bounds(1) [OF valid vig small ne]]
        del: map_map)
  finally show False using some b1 whole by simp
qed

lemma payout_near_share:
  assumes valid: "validPositions ps" and vig: "0 \<le> vig" "vig \<le> 10000" and small: "smallPool ps"
    and p: "p \<in> set (winningPositions ps w)"
  shows "\<bar>sr_payoutAmount (shareResult ps w vig p) * poolOf (winningPositions ps w) -
    sp_stakeAmount p * (poolOf ps - vigFee (poolOf ps) vig)\<bar> < poolOf (winningPositions ps w)"
proof -
  let ?W = "poolOf (winningPositions ps w)" and ?n = "sp_stakeAmount p * (poolOf ps - vigFee (poolOf ps) vig)"
  let ?x = "exactShare ps w vig p" and ?b = "bonusCent ps w vig (sp_id p)"
  have W: "0 < ?W" using p by (intro winningPool_pos [OF valid]) auto
  have res: "sr_payoutAmount (shareResult ps w vig p) = \<lfloor>?x\<rfloor> + ?b"
    by (rule payout_small [OF valid vig small p])
  have "?b = 0 \<or> ?b = 1 \<and> frac ?x > 0"
    using bonus_only_fraction [OF valid vig small p] frac_ge_0 [of ?x] by (auto simp: bonusCent_def)
  then have "\<bar>of_int (\<lfloor>?x\<rfloor> + ?b) - ?x\<bar> < 1"
    using frac_lt_1 [of ?x] frac_ge_0 [of ?x] by (auto simp: frac_def)
  then have "\<bar>of_int (\<lfloor>?x\<rfloor> + ?b) - ?x\<bar> * of_int ?W < of_int ?W" using W by simp
  also have "\<bar>of_int (\<lfloor>?x\<rfloor> + ?b) - ?x\<bar> * of_int ?W = \<bar>(of_int (\<lfloor>?x\<rfloor> + ?b) - ?x) * of_int ?W\<bar>"
    using W by (simp add: abs_mult)
  also have "(of_int (\<lfloor>?x\<rfloor> + ?b) - ?x) * of_int ?W = of_int ((\<lfloor>?x\<rfloor> + ?b) * ?W - ?n)"
    using W by (simp add: exactShare_def left_diff_distrib)
  finally have "\<bar>of_int ((\<lfloor>?x\<rfloor> + ?b) * ?W - ?n) :: rat\<bar> < of_int ?W" .
  then show ?thesis unfolding res by (simp only: of_int_abs [symmetric] of_int_less_iff)
qed

lemma vigFee_div: "0 \<le> n \<Longrightarrow> vigFee n vig = n * vig div 10000"
  by (simp add: vigFee_def floor_divide_of_int_eq [of "n * vig" 10000, where ?'a = rat, simplified])

subsection \<open>The split in one view\<close>

definition splitResult :: "settlement_position list \<Rightarrow> string \<Rightarrow> int \<Rightarrow> settlement_position \<Rightarrow> position_result" where
  "splitResult ps w vig p =
     (if winningPositions ps w = []
      then \<lparr>sr_id = sp_id p, sr_userId = sp_userId p, sr_payoutAmount = sp_stakeAmount p, sr_status = Pos_refunded\<rparr>
      else shareResult ps w vig p)"

definition splitFee :: "settlement_position list \<Rightarrow> string \<Rightarrow> int \<Rightarrow> cents" where
  "splitFee ps w vig = (if winningPositions ps w = [] then 0 else vigFee (poolOf ps) vig)"

definition splitPays :: "settlement_position list \<Rightarrow> string \<Rightarrow> int \<Rightarrow> bool" where
  "splitPays ps w vig = (winningPositions ps w = [] \<or> 0 \<le> leftCents ps w vig)"

text \<open>
  The split always returns.  It fails when the rounded shares are more than the pool, which
  does not happen in small pools.
\<close>

lemma resolve_split:
  assumes valid: "validPositions ps" and vig: "0 \<le> vig" "vig \<le> 10000"
  shows "\<exists>r. resolvePariMutuelSettlement ps w vig = Some r \<and> (smallPool ps \<longrightarrow> (\<exists>s. r = Inr s)) \<and>
    (\<forall>s. r = Inr s \<longrightarrow> sm_positionResults s = map (splitResult ps w vig) ps \<and> sm_feeAmount s = splitFee ps w vig \<and>
       sm_mode s = (if winningPositions ps w = [] then Mode_refund_no_winners else Mode_payout) \<and>
       splitPays ps w vig)"
proof (cases "winningPositions ps w = []")
  case True
  then show ?thesis
    by (simp add: resolve_refund [OF True vig] splitResult_def splitFee_def splitPays_def fun_eq_iff)
next
  case False
  have "0 \<le> leftCents ps w vig" if "smallPool ps"
    by (rule leftCents_bounds(1) [OF valid vig that False])
  then show ?thesis
    using False by (auto simp: resolve_payout [OF valid vig False] splitResult_def splitFee_def splitPays_def fun_eq_iff not_less)
qed

lemma splitResult_fields:
  "sr_id (splitResult ps w vig p) = sp_id p"
  "sr_status (splitResult ps w vig p) \<in> {Pos_refunded, Pos_won, Pos_lost}"
  "sr_status (splitResult ps w vig p) = Pos_refunded \<Longrightarrow> sr_payoutAmount (splitResult ps w vig p) = sp_stakeAmount p"
  "sr_status (splitResult ps w vig p) = Pos_lost \<Longrightarrow> sr_payoutAmount (splitResult ps w vig p) = 0"
  by (auto simp: splitResult_def shareResult_def split: if_splits)

lemma splitFee_bounds:
  assumes "validPositions ps" and "0 \<le> vig" and "vig \<le> 10000"
  shows "0 \<le> splitFee ps w vig" and "splitFee ps w vig \<le> poolOf ps"
  using assms vigFee_bounds [of "poolOf ps" vig] poolOf_nonneg [of ps]
  by (auto simp: splitFee_def validPositions_def)

lemma splitResult_nonneg:
  assumes "validPositions ps" and "0 \<le> vig" and "vig \<le> 10000" and "p \<in> set ps"
  shows "0 \<le> sr_payoutAmount (splitResult ps w vig p)"
proof -
  have "0 < sp_stakeAmount p" using assms by (simp add: validPositions_def)
  moreover have "0 \<le> roundedShare ps w vig p" if "winningPositions ps w \<noteq> []"
  proof -
    have "0 \<le> sp_stakeAmount p * (poolOf ps - vigFee (poolOf ps) vig)"
      using assms calculation vigFee_bounds(2) [of "poolOf ps" vig] poolOf_nonneg [of ps]
      by (intro mult_nonneg_nonneg) (auto simp: validPositions_def)
    then have "(0 :: rat) \<le> of_int (sp_stakeAmount p * (poolOf ps - vigFee (poolOf ps) vig))"
      by (simp only: of_int_0_le_iff)
    with winningPool_pos [OF assms(1) that] show ?thesis
      by (simp add: roundedShare_def exactPayout_def Let_def decimalRound_nonneg)
  qed
  moreover have "0 \<le> extraShare ps w vig i" if "winningPositions ps w \<noteq> []" for i
  proof (cases "0 \<le> leftCents ps w vig")
    case True
    then show ?thesis by (rule extraShare_props(2) [OF assms(1) that])
  next
    case False
    then show ?thesis unfolding extraShare_def by (subst extraCents.simps) simp
  qed
  ultimately show ?thesis by (auto simp: splitResult_def shareResult_def)
qed

lemma sum_split:
  assumes "validPositions ps" and "splitPays ps w vig"
  shows "(\<Sum>p\<leftarrow>ps. sr_payoutAmount (splitResult ps w vig p)) + splitFee ps w vig = poolOf ps"
  using sum_results [OF assms(1), of w vig] assms(2)
  by (cases "winningPositions ps w = []") (simp_all add: splitResult_def splitFee_def poolOf_def splitPays_def)

end
