(* ===== verification/Prediction_Market.thy ===== *)
theory Prediction_Market
  imports Asset_Runs Market_Settlement
begin

text \<open>
  Prediction markets, \<open>modules/prediction-market/service.ts\<close>: markets, the positions users take
  on their outcomes, the oracle bound to a market, the appeals against oracles, and the house
  account that receives the fee.  Stakes are locked in the B luck accounts of \<open>Asset_Ledger\<close>.
  Titles, descriptions and tags are left out.  The clock, the KYC answer and new ids come in an
  environment; so does what an oracle reports, which the service fetches over the network.
\<close>

subsection \<open>Tables\<close>

datatype market_status = Mk_draft | Mk_open | Mk_locked | Mk_resolved | Mk_cancelled

datatype oracle_provider = Uma_oracle | Chainlink | Manual_admin | Api_pull

datatype binding_status =
  Ob_active | Ob_pending | Ob_resolved | Ob_appealed | Ob_manual_only | Ob_cancelled

datatype appeal_status = Ap_open | Ap_acknowledged | Ap_resolved

datatype appeal_reason =
  Oracle_fetch_failed | Oracle_response_invalid | Oracle_value_unmapped | Oracle_value_stale
  | Oracle_resolution_failed | Oracle_dispute_pending_too_long | Manual_intervention_required

record market =
  mk_id :: nat
  mk_slug :: string
  mk_vigBps :: int
  mk_status :: market_status
  mk_outcomes :: "(string \<times> string) list"
  mk_totalPoolAmount :: cents
  mk_winningOutcomeKey :: "string option"
  mk_winningPoolAmount :: "cents option"
  mk_oracleSource :: "string option"
  mk_oracleReportedAt :: "int option"
  mk_opensAt :: int
  mk_locksAt :: int
  mk_resolvesAt :: "int option"
  mk_resolvedAt :: "int option"
  mk_settlementMode :: "string option"

record position =
  po_id :: nat
  po_marketId :: nat
  po_userId :: nat
  po_outcomeKey :: string
  po_stakeAmount :: cents
  po_payoutAmount :: cents
  po_status :: position_status
  po_createdAt :: int
  po_settledAt :: "int option"

record oracle_binding =
  ob_id :: nat
  ob_marketId :: nat
  ob_provider :: oracle_provider
  ob_status :: binding_status
  ob_lastCheckedAt :: "int option"
  ob_lastReportedAt :: "int option"
  ob_lastResolvedOutcomeKey :: "string option"
  ob_lastError :: "string option"

record appeal =
  ap_id :: nat
  ap_marketId :: nat
  ap_oracleBindingId :: "nat option"
  ap_provider :: "oracle_provider option"
  ap_reason :: appeal_reason
  ap_status :: appeal_status
  ap_firstDetectedAt :: int
  ap_lastDetectedAt :: int
  ap_resolvedAt :: "int option"
  ap_resolvedByAdminId :: "nat option"

record market_world =
  mw_markets :: "market list"
  mw_positions :: "position list"
  mw_oracles :: "oracle_binding list"
  mw_appeals :: "appeal list"
  mw_economy :: economy
  mw_houseBankroll :: cents
  mw_houseLines :: "ledger_line list"

record market_env =
  mv_now :: int
  mv_kyc :: "nat \<Rightarrow> cents \<Rightarrow> error option"
  mv_newId :: nat

subsection \<open>Loops\<close>

text \<open>A \<open>for\<close> loop whose body may throw.\<close>

fun forEach :: "('a \<Rightarrow> 's \<Rightarrow> 's res) \<Rightarrow> 'a list \<Rightarrow> 's \<Rightarrow> 's res" where
  "forEach f [] s = Inr s"
| "forEach f (x # xs) s = bind_res (f x s) (forEach f xs)"

text \<open>A \<open>Map\<close> keeps its entries in the order of their first insertion.\<close>

fun mapSet :: "'k \<Rightarrow> 'v \<Rightarrow> ('k \<times> 'v) list \<Rightarrow> ('k \<times> 'v) list" where
  "mapSet k v [] = [(k, v)]"
| "mapSet k v (e # es) = (if fst e = k then (k, v) # es else e # mapSet k v es)"

subsection \<open>Markets and positions\<close>

definition lockPredictionMarket :: "nat \<Rightarrow> market_world \<Rightarrow> market option" where
  "lockPredictionMarket i w = find (\<lambda>m. mk_id m = i) (mw_markets w)"

definition lockPredictionPosition :: "nat \<Rightarrow> nat \<Rightarrow> nat \<Rightarrow> market_world \<Rightarrow> position option" where
  "lockPredictionPosition marketId positionId uid w =
     find (\<lambda>p. po_id p = positionId \<and> po_marketId p = marketId \<and> po_userId p = uid) (mw_positions w)"

definition getPredictionMarketOracleBinding :: "nat \<Rightarrow> market_world \<Rightarrow> oracle_binding option" where
  "getPredictionMarketOracleBinding marketId w = find (\<lambda>b. ob_marketId b = marketId) (mw_oracles w)"

definition hasOpenPredictionMarketAppeal :: "nat \<Rightarrow> market_world \<Rightarrow> bool" where
  "hasOpenPredictionMarketAppeal marketId w =
     (\<exists>a \<in> set (mw_appeals w). ap_marketId a = marketId \<and> ap_status a \<in> {Ap_open, Ap_acknowledged})"

definition updateMarket :: "nat \<Rightarrow> (market \<Rightarrow> market) \<Rightarrow> market_world \<Rightarrow> market_world" where
  "updateMarket i f w = w\<lparr>mw_markets := map (\<lambda>m. if mk_id m = i then f m else m) (mw_markets w)\<rparr>"

definition updatePosition :: "nat \<Rightarrow> (position \<Rightarrow> position) \<Rightarrow> market_world \<Rightarrow> market_world" where
  "updatePosition i f w = w\<lparr>mw_positions := map (\<lambda>p. if po_id p = i then f p else p) (mw_positions w)\<rparr>"

definition updateOracle :: "nat \<Rightarrow> (oracle_binding \<Rightarrow> oracle_binding) \<Rightarrow> market_world \<Rightarrow> market_world" where
  "updateOracle i f w = w\<lparr>mw_oracles := map (\<lambda>b. if ob_id b = i then f b else b) (mw_oracles w)\<rparr>"

text \<open>
  What users see and what operations test is the status by the clock, until the market is
  resolved or cancelled.
\<close>

definition getEffectivePredictionMarketStatus :: "market \<Rightarrow> int \<Rightarrow> market_status" where
  "getEffectivePredictionMarketStatus m now =
     (if mk_status m \<in> {Mk_resolved, Mk_cancelled} then mk_status m
      else if now < mk_opensAt m then Mk_draft
      else if now \<ge> mk_locksAt m then Mk_locked
      else Mk_open)"

text \<open>
  A stake is a decimal number, given in cents here; \<open>None\<close> is text that is no finite number.
\<close>

definition marketStakeAmount :: "rat option \<Rightarrow> cents res" where
  "marketStakeAmount v =
     (case v of None \<Rightarrow> Inl (BadRequest ''Invalid stake amount.'')
      | Some amount \<Rightarrow>
          if amount \<le> 0 \<or> of_int \<lfloor>amount\<rfloor> \<noteq> amount then Inl (BadRequest ''Invalid stake amount.'')
          else Inr \<lfloor>amount\<rfloor>)"

definition PREDICTION_MARKET_ASSET_CODE :: asset_code where
  "PREDICTION_MARKET_ASSET_CODE = B_LUCK"

definition stakePayload :: "nat \<Rightarrow> nat \<Rightarrow> cents \<Rightarrow> string \<Rightarrow> asset_payload" where
  "stakePayload uid marketId amount entryType =
     \<lparr>am_userId = uid, am_assetCode = PREDICTION_MARKET_ASSET_CODE, am_amount = of_int amount,
      am_entryType = entryType, am_referenceType = Some ''prediction_market'',
      am_referenceId = Some marketId, am_idempotencyKey = None\<rparr>"

definition placePredictionPosition ::
  "market_env \<Rightarrow> nat \<Rightarrow> nat \<Rightarrow> string \<Rightarrow> rat option \<Rightarrow> market_world \<Rightarrow> (position \<times> market_world) res" where
  "placePredictionPosition env uid marketId outcomeKey stake w =
     (case lockPredictionMarket marketId w of
        None \<Rightarrow> Inl (NotFound ''Prediction market not found.'')
      | Some m \<Rightarrow>
          if getEffectivePredictionMarketStatus m (mv_now env) \<noteq> Mk_open
          then Inl (Conflict ''Prediction market is not accepting positions.'')
          else case find (\<lambda>out. fst out = outcomeKey) (mk_outcomes m) of
            None \<Rightarrow> Inl (BadRequest ''Prediction market outcome is invalid.'')
          | Some matchingOutcome \<Rightarrow>
              bind_res (marketStakeAmount stake) (\<lambda>stakeAmount.
              case mv_kyc env uid stakeAmount of
                Some e \<Rightarrow> Inl e
              | None \<Rightarrow>
                  bind_res (lockAsset (stakePayload uid marketId stakeAmount ''prediction_market_stake'')
                      (mw_economy w)) (\<lambda>(_, ec).
                  let p = \<lparr>po_id = mv_newId env, po_marketId = marketId, po_userId = uid,
                           po_outcomeKey = fst matchingOutcome, po_stakeAmount = stakeAmount,
                           po_payoutAmount = 0, po_status = Pos_open, po_createdAt = mv_now env,
                           po_settledAt = None\<rparr>
                  in Inr (p, updateMarket marketId
                       (\<lambda>r. r\<lparr>mk_totalPoolAmount := mk_totalPoolAmount m + stakeAmount\<rparr>)
                       (w\<lparr>mw_economy := ec, mw_positions := mw_positions w @ [p]\<rparr>)))))"

definition sellPredictionPosition ::
  "market_env \<Rightarrow> nat \<Rightarrow> nat \<Rightarrow> nat \<Rightarrow> market_world \<Rightarrow> market_world res" where
  "sellPredictionPosition env uid marketId positionId w =
     (case lockPredictionMarket marketId w of
        None \<Rightarrow> Inl (NotFound ''Prediction market not found.'')
      | Some m \<Rightarrow>
          if getEffectivePredictionMarketStatus m (mv_now env) \<noteq> Mk_open
          then Inl (Conflict ''Prediction market is not allowing exits.'')
          else case lockPredictionPosition marketId positionId uid w of
            None \<Rightarrow> Inl (NotFound ''Prediction market position not found.'')
          | Some p \<Rightarrow>
              if po_status p \<noteq> Pos_open then Inl (Conflict ''Prediction market position is not open.'')
              else
                let totalPoolAfter = mk_totalPoolAmount m - po_stakeAmount p
                in if totalPoolAfter < 0
                   then Inl (InternalInvariant ''Prediction market pool cannot become negative.'')
                   else bind_res (unlockAsset
                       (stakePayload uid marketId (po_stakeAmount p) ''prediction_market_sell'')
                       (mw_economy w)) (\<lambda>(_, ec).
                     Inr (updateMarket marketId (\<lambda>r. r\<lparr>mk_totalPoolAmount := totalPoolAfter\<rparr>)
                       (updatePosition positionId
                          (\<lambda>r. r\<lparr>po_payoutAmount := po_stakeAmount p, po_status := Pos_sold,
                                 po_settledAt := Some (mv_now env)\<rparr>)
                          (w\<lparr>mw_economy := ec\<rparr>)))))"

end
