(* ===== verification/Market_Lifecycle.thy ===== *)
theory Market_Lifecycle
  imports Prediction_Market
begin

text \<open>
  The life of a prediction market, \<open>modules/prediction-market/service.ts\<close>: its creation, its
  settlement by an administrator or by the oracle worker, its cancellation, the appeals against
  its oracle and the worker's cycle.
\<close>

subsection \<open>Creation\<close>

text \<open>The oracle a market is created with, and the outcomes it may report.\<close>

datatype oracle_binding_request =
    Bind_manual_admin
  | Bind_api_pull "(string \<times> string) list option" "(string \<times> string) option"
  | Bind_chainlink string string
  | Bind_uma_oracle string "string option"

fun bindingProvider :: "oracle_binding_request \<Rightarrow> oracle_provider" where
  "bindingProvider Bind_manual_admin = Manual_admin"
| "bindingProvider (Bind_api_pull valueMap cmp) = Api_pull"
| "bindingProvider (Bind_chainlink t f) = Chainlink"
| "bindingProvider (Bind_uma_oracle t f) = Uma_oracle"

definition resolveCreateOracleBinding :: "oracle_binding_request option \<Rightarrow> oracle_binding_request" where
  "resolveCreateOracleBinding v = (case v of None \<Rightarrow> Bind_manual_admin | Some b \<Rightarrow> b)"

fun collectOracleOutcomeKeys :: "oracle_binding_request \<Rightarrow> string list" where
  "collectOracleOutcomeKeys Bind_manual_admin = []"
| "collectOracleOutcomeKeys (Bind_api_pull (Some valueMap) cmp) = map snd valueMap"
| "collectOracleOutcomeKeys (Bind_api_pull None (Some (t, f))) = [t, f]"
| "collectOracleOutcomeKeys (Bind_api_pull None None) = []"
| "collectOracleOutcomeKeys (Bind_chainlink t f) = [t, f]"
| "collectOracleOutcomeKeys (Bind_uma_oracle t f) =
     filter (\<lambda>k. k \<noteq> []) [t, case f of None \<Rightarrow> [] | Some k \<Rightarrow> k]"

definition assertOracleBindingMatchesOutcomes ::
  "oracle_binding_request \<Rightarrow> (string \<times> string) list \<Rightarrow> unit res" where
  "assertOracleBindingMatchesOutcomes b outcomes =
     (if filter (\<lambda>k. k \<notin> fst ` set outcomes) (collectOracleOutcomeKeys b) \<noteq> []
      then Inl (BadRequest ''Prediction market oracle binding references invalid outcomes.'')
      else Inr ())"

record market_request =
  mq_slug :: string
  mq_vigBps :: int
  mq_outcomes :: "(string \<times> string) list"
  mq_oracleBinding :: "oracle_binding_request option"
  mq_opensAt :: "int option"
  mq_locksAt :: int
  mq_resolvesAt :: "int option"

definition createPredictionMarket ::
  "market_env \<Rightarrow> nat \<Rightarrow> market_request \<Rightarrow> market_world \<Rightarrow> (market \<times> market_world) res" where
  "createPredictionMarket env newOracleId input w =
     (if \<exists>m \<in> set (mw_markets w). mk_slug m = mq_slug input
      then Inl (Conflict ''Prediction market slug already exists.'')
      else
        let opensAt = (case mq_opensAt input of None \<Rightarrow> mv_now env | Some t \<Rightarrow> t);
            initialStatus = (if opensAt > mv_now env then Mk_draft else Mk_open);
            binding = resolveCreateOracleBinding (mq_oracleBinding input)
        in bind_res (assertOracleBindingMatchesOutcomes binding (mq_outcomes input)) (\<lambda>_.
           let m = \<lparr>mk_id = mv_newId env, mk_slug = mq_slug input, mk_vigBps = mq_vigBps input,
                    mk_status = initialStatus, mk_outcomes = mq_outcomes input,
                    mk_totalPoolAmount = 0, mk_winningOutcomeKey = None, mk_winningPoolAmount = None,
                    mk_oracleSource = None, mk_oracleReportedAt = None, mk_opensAt = opensAt,
                    mk_locksAt = mq_locksAt input, mk_resolvesAt = mq_resolvesAt input,
                    mk_resolvedAt = None, mk_settlementMode = None\<rparr>;
               b = \<lparr>ob_id = newOracleId, ob_marketId = mk_id m, ob_provider = bindingProvider binding,
                    ob_status = (if bindingProvider binding = Manual_admin then Ob_manual_only else Ob_active),
                    ob_lastCheckedAt = None, ob_lastReportedAt = None,
                    ob_lastResolvedOutcomeKey = None, ob_lastError = None\<rparr>
           in Inr (m, w\<lparr>mw_markets := mw_markets w @ [m], mw_oracles := mw_oracles w @ [b]\<rparr>)))"

subsection \<open>What each user gets\<close>

record user_aggregate =
  ua_lockedRelease :: cents
  ua_credit :: cents
  ua_entryType :: "string option"
  ua_positionIds :: "nat list"

definition emptyAggregate :: user_aggregate where
  "emptyAggregate = \<lparr>ua_lockedRelease = 0, ua_credit = 0, ua_entryType = None, ua_positionIds = []\<rparr>"

definition aggregateOf :: "nat \<Rightarrow> (nat \<times> user_aggregate) list \<Rightarrow> user_aggregate" where
  "aggregateOf uid ags = (case map_of ags uid of None \<Rightarrow> emptyAggregate | Some a \<Rightarrow> a)"

definition settleAggregate ::
  "(nat \<Rightarrow> position_result option) \<Rightarrow> position \<Rightarrow> (nat \<times> user_aggregate) list \<Rightarrow>
     (nat \<times> user_aggregate) list res" where
  "settleAggregate resultById p ags =
     (case resultById (po_id p) of
        None \<Rightarrow> Inl (InternalInvariant ''Prediction market position settlement missing.'')
      | Some r \<Rightarrow>
          let a = aggregateOf (po_userId p) ags
          in Inr (mapSet (po_userId p)
               (a\<lparr>ua_lockedRelease := ua_lockedRelease a + po_stakeAmount p,
                  ua_credit := ua_credit a + sr_payoutAmount r,
                  ua_positionIds := ua_positionIds a @ [po_id p],
                  ua_entryType :=
                    (if sr_status r = Pos_refunded then Some ''prediction_market_refund''
                     else if sr_status r = Pos_won \<and> ua_entryType a \<noteq> Some ''prediction_market_refund''
                     then Some ''prediction_market_payout'' else ua_entryType a)\<rparr>) ags))"

definition cancelAggregate ::
  "position \<Rightarrow> (nat \<times> user_aggregate) list \<Rightarrow> (nat \<times> user_aggregate) list" where
  "cancelAggregate p ags =
     (let a = aggregateOf (po_userId p) ags
      in mapSet (po_userId p)
           (a\<lparr>ua_lockedRelease := ua_lockedRelease a + po_stakeAmount p,
              ua_credit := ua_credit a + po_stakeAmount p,
              ua_positionIds := ua_positionIds a @ [po_id p]\<rparr>) ags)"

text \<open>The users in ascending order, and the work on the account of each.\<close>

definition orderedUserIds :: "(nat \<times> user_aggregate) list \<Rightarrow> nat list" where
  "orderedUserIds ags = sort (map fst ags)"

definition forUser ::
  "(nat \<times> user_aggregate) list \<Rightarrow> (nat \<Rightarrow> user_aggregate \<Rightarrow> economy \<Rightarrow> (asset_result \<times> economy) res) \<Rightarrow>
     nat \<Rightarrow> economy \<Rightarrow> economy res" where
  "forUser ags work uid ec =
     (case map_of ags uid of
        None \<Rightarrow> Inl (InternalInvariant ''Prediction market user aggregate missing.'')
      | Some a \<Rightarrow> bind_res (work uid a ec) (\<lambda>(_, ec'). Inr ec'))"

definition settleUser :: "nat \<Rightarrow> nat \<Rightarrow> user_aggregate \<Rightarrow> economy \<Rightarrow> (asset_result \<times> economy) res" where
  "settleUser marketId uid a =
     settleLockedAsset
       \<lparr>sl_userId = uid, sl_assetCode = PREDICTION_MARKET_ASSET_CODE,
        sl_lockedAmount = of_int (ua_lockedRelease a), sl_payoutAmount = of_int (ua_credit a),
        sl_entryType = (case ua_entryType a of None \<Rightarrow> ''prediction_market_payout'' | Some t \<Rightarrow> t),
        sl_referenceType = Some ''prediction_market'', sl_referenceId = Some marketId,
        sl_idempotencyKey = None\<rparr>"

definition refundUser :: "nat \<Rightarrow> nat \<Rightarrow> user_aggregate \<Rightarrow> economy \<Rightarrow> (asset_result \<times> economy) res" where
  "refundUser marketId uid a =
     unlockAsset (stakePayload uid marketId (ua_credit a) ''prediction_market_refund'')"

subsection \<open>Settlement\<close>

definition applyHouseBankrollDelta :: "cents \<Rightarrow> string \<Rightarrow> nat option \<Rightarrow> market_world \<Rightarrow> market_world" where
  "applyHouseBankrollDelta delta entryType ref w =
     (let before = mw_houseBankroll w; after = before + delta
      in w\<lparr>mw_houseBankroll := after,
           mw_houseLines := mw_houseLines w @
             [\<lparr>ll_entryType = entryType, ll_amount = delta, ll_balanceBefore = before,
               ll_balanceAfter = after, ll_referenceId = ref\<rparr>]\<rparr>)"

definition resolvePredictionMarketAppealsForMarket :: "int \<Rightarrow> nat \<Rightarrow> market_world \<Rightarrow> market_world" where
  "resolvePredictionMarketAppealsForMarket now marketId w =
     w\<lparr>mw_appeals := map (\<lambda>a. if ap_marketId a = marketId \<and> ap_status a \<in> {Ap_open, Ap_acknowledged}
          then a\<lparr>ap_status := Ap_resolved, ap_resolvedAt := Some now\<rparr> else a) (mw_appeals w)\<rparr>"

datatype settlement_source = Source_admin | Source_oracle_worker

record oracle_input =
  oi_source :: string
  oi_reportedAt :: "int option"

definition openPositionsOf :: "nat \<Rightarrow> market_world \<Rightarrow> position list" where
  "openPositionsOf marketId w =
     filter (\<lambda>p. po_status p = Pos_open)
       (sort_key po_id (filter (\<lambda>p. po_marketId p = marketId) (mw_positions w)))"

definition toSettlementPosition :: "position \<Rightarrow> settlement_position" where
  "toSettlementPosition p =
     \<lparr>sp_id = po_id p, sp_userId = po_userId p, sp_outcomeKey = po_outcomeKey p,
      sp_stakeAmount = po_stakeAmount p\<rparr>"

definition settlePosition ::
  "int \<Rightarrow> (nat \<Rightarrow> position_result option) \<Rightarrow> position \<Rightarrow> market_world \<Rightarrow> market_world res" where
  "settlePosition now resultById p w =
     (case resultById (po_id p) of
        None \<Rightarrow> Inl (InternalInvariant ''Prediction market position result missing.'')
      | Some r \<Rightarrow> Inr (updatePosition (po_id p)
          (\<lambda>q. q\<lparr>po_payoutAmount := sr_payoutAmount r, po_status := sr_status r, po_settledAt := Some now\<rparr>) w))"

text \<open>
  What a settlement writes once the split is known.  It returns the notifications as well:
  user, number of positions and payout.
\<close>

definition applySettlement ::
  "market_env \<Rightarrow> market \<Rightarrow> oracle_binding option \<Rightarrow> string \<Rightarrow> oracle_input \<Rightarrow> position list \<Rightarrow>
     settlement_result \<Rightarrow> market_world \<Rightarrow> ((nat \<times> nat \<times> cents) list \<times> market_world) res" where
  "applySettlement env m oracle winningKey oi openPositions s w =
     (let now = mv_now env; marketId = mk_id m;
          resultById = map_of (rev (map (\<lambda>r. (sr_id r, r)) (sm_positionResults s)));
          reportedAt = (case oi_reportedAt oi of None \<Rightarrow> now | Some t \<Rightarrow> t)
      in bind_res (forEach (settleAggregate resultById) openPositions []) (\<lambda>ags.
         bind_res (forEach (forUser ags (settleUser marketId)) (orderedUserIds ags) (mw_economy w)) (\<lambda>ec.
         let w1 = w\<lparr>mw_economy := ec\<rparr>;
             w2 = (if sm_mode s = Mode_payout \<and> sm_feeAmount s > 0
                   then applyHouseBankrollDelta (sm_feeAmount s) ''prediction_market_vig'' (Some marketId) w1
                   else w1)
         in bind_res (forEach (settlePosition now resultById) openPositions w2) (\<lambda>w3.
         let w4 = updateMarket marketId (\<lambda>r. r\<lparr>mk_status := Mk_resolved,
                    mk_winningOutcomeKey := Some winningKey,
                    mk_winningPoolAmount := Some (sm_winningPoolAmount s),
                    mk_oracleSource := Some (oi_source oi), mk_oracleReportedAt := Some reportedAt,
                    mk_resolvedAt := Some now,
                    mk_settlementMode := Some (case sm_mode s of Mode_payout \<Rightarrow> ''payout''
                      | Mode_refund_no_winners \<Rightarrow> ''refund_no_winners'')\<rparr>) w3;
             w5 = (case oracle of None \<Rightarrow> w4
                   | Some b \<Rightarrow> updateOracle (ob_id b) (\<lambda>r. r\<lparr>ob_status := Ob_resolved,
                       ob_lastCheckedAt := Some now, ob_lastReportedAt := Some reportedAt,
                       ob_lastResolvedOutcomeKey := Some winningKey, ob_lastError := None\<rparr>) w4)
         in Inr (map (\<lambda>uid. let a = aggregateOf uid ags
                   in (uid, length (ua_positionIds a), ua_credit a)) (orderedUserIds ags),
                 resolvePredictionMarketAppealsForMarket now marketId w5)))))"

text \<open>\<open>None\<close> when the split does not return.\<close>

definition settlePredictionMarket ::
  "market_env \<Rightarrow> settlement_source \<Rightarrow> nat \<Rightarrow> string \<Rightarrow> oracle_input \<Rightarrow> market_world \<Rightarrow>
     ((nat \<times> nat \<times> cents) list \<times> market_world) res option" where
  "settlePredictionMarket env source marketId winningKey oi w =
     (case lockPredictionMarket marketId w of
        None \<Rightarrow> Some (Inl (NotFound ''Prediction market not found.''))
      | Some m \<Rightarrow>
          let oracle = getPredictionMarketOracleBinding marketId w;
              effectiveStatus = getEffectivePredictionMarketStatus m (mv_now env)
          in if effectiveStatus \<in> {Mk_resolved, Mk_cancelled}
             then Some (Inl (Conflict ''Prediction market is already finalized.''))
             else if effectiveStatus \<in> {Mk_draft, Mk_open}
             then Some (Inl (Conflict ''Prediction market is still open.''))
             else if find (\<lambda>out. fst out = winningKey) (mk_outcomes m) = None
             then Some (Inl (BadRequest ''Prediction market outcome is invalid.''))
             else if source = Source_admin \<and>
                (case oracle of None \<Rightarrow> False | Some b \<Rightarrow> ob_provider b \<noteq> Manual_admin) \<and>
                \<not> hasOpenPredictionMarketAppeal marketId w
             then Some (Inl (Conflict ''This market must settle from its configured oracle unless an appeal is open.''))
             else
               let openPositions = openPositionsOf marketId w
               in map_option (\<lambda>r. bind_res r (\<lambda>s.
                    applySettlement env m oracle winningKey oi openPositions s w))
                  (resolvePariMutuelSettlement (map toSettlementPosition openPositions) winningKey
                     (mk_vigBps m)))"


subsection \<open>Cancellation\<close>

text \<open>Every open position gets its stake back, whatever the market's status by the clock.\<close>

definition cancelPredictionMarket ::
  "market_env \<Rightarrow> nat \<Rightarrow> oracle_input option \<Rightarrow> market_world \<Rightarrow> market_world res" where
  "cancelPredictionMarket env marketId oi w =
     (case lockPredictionMarket marketId w of
        None \<Rightarrow> Inl (NotFound ''Prediction market not found.'')
      | Some m \<Rightarrow>
          if getEffectivePredictionMarketStatus m (mv_now env) \<in> {Mk_resolved, Mk_cancelled}
          then Inl (Conflict ''Prediction market is already finalized.'')
          else
            let now = mv_now env;
                openPositions = openPositionsOf marketId w;
                ags = fold cancelAggregate openPositions [];
                reportedAt = (case oi of None \<Rightarrow> None
                  | Some x \<Rightarrow> Some (case oi_reportedAt x of None \<Rightarrow> now | Some t \<Rightarrow> t))
            in bind_res (forEach (forUser ags (refundUser marketId)) (orderedUserIds ags) (mw_economy w)) (\<lambda>ec.
               let w1 = fold (\<lambda>p. updatePosition (po_id p)
                          (\<lambda>q. q\<lparr>po_payoutAmount := po_stakeAmount p, po_status := Pos_refunded,
                                 po_settledAt := Some now\<rparr>)) openPositions (w\<lparr>mw_economy := ec\<rparr>);
                   w2 = updateMarket marketId (\<lambda>r. r\<lparr>mk_status := Mk_cancelled,
                          mk_winningOutcomeKey := None, mk_winningPoolAmount := None,
                          mk_oracleSource := map_option oi_source oi, mk_oracleReportedAt := reportedAt,
                          mk_resolvedAt := Some now, mk_settlementMode := Some ''cancel_refund''\<rparr>) w1;
                   w3 = (case getPredictionMarketOracleBinding marketId w of None \<Rightarrow> w2
                         | Some b \<Rightarrow> updateOracle (ob_id b) (\<lambda>r. r\<lparr>ob_status := Ob_cancelled,
                             ob_lastCheckedAt := Some now, ob_lastReportedAt := reportedAt,
                             ob_lastError := None\<rparr>) w2)
               in Inr (resolvePredictionMarketAppealsForMarket now marketId w3)))"

subsection \<open>Appeals\<close>

text \<open>
  There is one appeal for a market, a binding and a reason; it is opened again when it is
  queued again.
\<close>

definition queuePredictionMarketAppeal ::
  "int \<Rightarrow> nat \<Rightarrow> nat option \<Rightarrow> oracle_provider option \<Rightarrow> appeal_reason \<Rightarrow> market_world \<Rightarrow> market_world" where
  "queuePredictionMarketAppeal now marketId bindingId provider reason w =
     (let same = (\<lambda>a. ap_marketId a = marketId \<and> ap_oracleBindingId a = bindingId \<and> ap_reason a = reason)
      in if \<exists>a \<in> set (mw_appeals w). same a
         then w\<lparr>mw_appeals := map (\<lambda>a. if same a
                then a\<lparr>ap_provider := provider, ap_status := Ap_open, ap_lastDetectedAt := now,
                       ap_resolvedAt := None, ap_resolvedByAdminId := None\<rparr> else a) (mw_appeals w)\<rparr>
         else w\<lparr>mw_appeals := mw_appeals w @
                [\<lparr>ap_id = Suc (length (mw_appeals w)), ap_marketId = marketId,
                  ap_oracleBindingId = bindingId, ap_provider = provider, ap_reason = reason,
                  ap_status = Ap_open, ap_firstDetectedAt = now, ap_lastDetectedAt = now,
                  ap_resolvedAt = None, ap_resolvedByAdminId = None\<rparr>]\<rparr>)"

definition acknowledgePredictionMarketAppeal :: "nat \<Rightarrow> market_world \<Rightarrow> market_world res" where
  "acknowledgePredictionMarketAppeal appealId w =
     (case find (\<lambda>a. ap_id a = appealId) (mw_appeals w) of
        None \<Rightarrow> Inl (NotFound ''Prediction market appeal not found.'')
      | Some a \<Rightarrow>
          if ap_status a = Ap_resolved then Inl (Conflict ''Prediction market appeal is already resolved.'')
          else Inr (w\<lparr>mw_appeals := map (\<lambda>r. if ap_id r = appealId then r\<lparr>ap_status := Ap_acknowledged\<rparr> else r)
                 (mw_appeals w)\<rparr>))"

subsection \<open>The oracle worker\<close>

text \<open>What an oracle answers; the last case is a failure to ask it.\<close>

datatype oracle_evaluation =
    Eval_resolved string oracle_input
  | Eval_pending binding_status "int option"
  | Eval_appeal binding_status "int option" appeal_reason string
  | Eval_failed string

record cycle_summary =
  cy_scanned :: nat
  cy_pending :: nat
  cy_resolved :: nat
  cy_appealed :: nat
  cy_failed :: nat

fun errorMessage :: "error \<Rightarrow> string" where
  "errorMessage (BadRequest m) = m"
| "errorMessage (Conflict m) = m"
| "errorMessage (NotFound m) = m"
| "errorMessage (InternalInvariant m) = m"
| "errorMessage (PlainError m) = m"
| "errorMessage (Unprocessable m) = m"
| "errorMessage (ServiceUnavailable m) = m"
| "errorMessage (PersistenceError m) = m"

definition applyOracleEvaluationStatus ::
  "int \<Rightarrow> nat \<Rightarrow> binding_status \<Rightarrow> int option \<Rightarrow> string option \<Rightarrow> market_world \<Rightarrow> market_world" where
  "applyOracleEvaluationStatus now bindingId status reportedAt err =
     updateOracle bindingId (\<lambda>b. b\<lparr>ob_status := status, ob_lastCheckedAt := Some now,
       ob_lastReportedAt := reportedAt, ob_lastError := err\<rparr>)"

definition oracleFailed :: "int \<Rightarrow> market \<Rightarrow> oracle_binding \<Rightarrow> string \<Rightarrow> market_world \<Rightarrow> market_world" where
  "oracleFailed now m b description w =
     queuePredictionMarketAppeal now (mk_id m) (Some (ob_id b)) (Some (ob_provider b)) Oracle_fetch_failed
       (updateOracle (ob_id b) (\<lambda>r. r\<lparr>ob_status := Ob_appealed, ob_lastCheckedAt := Some now,
          ob_lastError := Some description\<rparr>) w)"

definition oracleRows :: "int \<Rightarrow> nat \<Rightarrow> market_world \<Rightarrow> (market \<times> oracle_binding) list" where
  "oracleRows now limit w =
     take limit (sort_key (\<lambda>(m, b). (case mk_resolvesAt m of None \<Rightarrow> (1 :: nat, 0) | Some t \<Rightarrow> (0, t), mk_id m))
       [(m, b). m \<leftarrow> mw_markets w, b \<leftarrow> mw_oracles w, ob_marketId b = mk_id m \<and>
          mk_status m \<in> {Mk_draft, Mk_open, Mk_locked} \<and>
          ob_status b \<in> {Ob_active, Ob_pending, Ob_appealed} \<and>
          (case mk_resolvesAt m of None \<Rightarrow> mk_locksAt m | Some t \<Rightarrow> t) \<le> now])"

definition oracleRow ::
  "market_env \<Rightarrow> (nat \<Rightarrow> oracle_evaluation) \<Rightarrow> market \<times> oracle_binding \<Rightarrow> cycle_summary \<times> market_world \<Rightarrow>
     (cycle_summary \<times> market_world) option" where
  "oracleRow env evaluate row st =
     (let (m, b) = row; (sum, w) = st; now = mv_now env;
          failed = (\<lambda>e. (sum\<lparr>cy_failed := cy_failed sum + 1\<rparr>, oracleFailed now m b e w))
      in case evaluate (ob_id b) of
           Eval_resolved winningKey oi \<Rightarrow>
             map_option (\<lambda>r. case r of
                 Inl e \<Rightarrow> failed (errorMessage e)
               | Inr (_, w') \<Rightarrow> (sum\<lparr>cy_resolved := cy_resolved sum + 1\<rparr>, w'))
               (settlePredictionMarket env Source_oracle_worker (mk_id m) winningKey oi w)
         | Eval_pending status reportedAt \<Rightarrow>
             Some (sum\<lparr>cy_pending := cy_pending sum + 1\<rparr>,
                   applyOracleEvaluationStatus now (ob_id b) status reportedAt None w)
         | Eval_appeal status reportedAt reason description \<Rightarrow>
             Some (sum\<lparr>cy_appealed := cy_appealed sum + 1\<rparr>,
                   queuePredictionMarketAppeal now (mk_id m) (Some (ob_id b)) (Some (ob_provider b)) reason
                     (applyOracleEvaluationStatus now (ob_id b) status reportedAt (Some description) w))
         | Eval_failed description \<Rightarrow> Some (failed description))"

fun oracleRowLoop ::
  "market_env \<Rightarrow> (nat \<Rightarrow> oracle_evaluation) \<Rightarrow> (market \<times> oracle_binding) list \<Rightarrow>
     cycle_summary \<times> market_world \<Rightarrow> (cycle_summary \<times> market_world) option" where
  "oracleRowLoop env evaluate [] st = Some st"
| "oracleRowLoop env evaluate (row # rows) st =
     (case oracleRow env evaluate row st of None \<Rightarrow> None
      | Some st' \<Rightarrow> oracleRowLoop env evaluate rows st')"

definition runPredictionMarketOracleSettlementCycle ::
  "market_env \<Rightarrow> nat \<Rightarrow> (nat \<Rightarrow> oracle_evaluation) \<Rightarrow> market_world \<Rightarrow>
     (cycle_summary \<times> market_world) option" where
  "runPredictionMarketOracleSettlementCycle env limit evaluate w =
     (let rows = oracleRows (mv_now env) limit w
      in oracleRowLoop env evaluate rows
           (\<lparr>cy_scanned = length rows, cy_pending = 0, cy_resolved = 0, cy_appealed = 0, cy_failed = 0\<rparr>, w))"

end
