(* ===== verification/Market_Accounts.thy ===== *)
theory Market_Accounts
  imports Market_Lifecycle
begin

text \<open>
  How a market closes: what each user's aggregate holds, that the accounts pay every aggregate
  out, and that the positions are closed one by one.
\<close>

subsection \<open>Aggregates\<close>

lemma map_of_mapSet: "map_of (mapSet k v es) = (map_of es)(k \<mapsto> v)"
  by (induction es) (auto simp: fun_eq_iff)

lemma keys_mapSet: "set (map fst (mapSet k v es)) = insert k (set (map fst es))"
  by (induction es) auto

lemma distinct_mapSet: "distinct (map fst es) \<Longrightarrow> distinct (map fst (mapSet k v es))"
proof (induction es)
  case (Cons e es)
  then show ?case using keys_mapSet [of k v es] by auto
qed simp

text \<open>Both closings collect aggregates by the same scheme.\<close>

definition collect ::
  "(position \<Rightarrow> user_aggregate \<Rightarrow> user_aggregate) \<Rightarrow> position list \<Rightarrow> (nat \<times> user_aggregate) list \<Rightarrow>
     (nat \<times> user_aggregate) list" where
  "collect step ps ags = fold (\<lambda>p ags. mapSet (po_userId p) (step p (aggregateOf (po_userId p) ags)) ags) ps ags"

lemma collect_simps [simp]: "collect step [] ags = ags"
  "collect step (p # ps) ags =
     collect step ps (mapSet (po_userId p) (step p (aggregateOf (po_userId p) ags)) ags)"
  by (simp_all add: collect_def)

lemma aggregateOf_mapSet: "aggregateOf u (mapSet v a ags) = (if u = v then a else aggregateOf u ags)"
  by (simp add: aggregateOf_def map_of_mapSet)

lemma aggregateOf_collect:
  "aggregateOf u (collect step ps ags) = fold step (filter (\<lambda>p. po_userId p = u) ps) (aggregateOf u ags)"
  by (induction ps arbitrary: ags) (auto simp: aggregateOf_mapSet)

lemma keys_collect:
  "set (map fst (collect step ps ags)) = set (map fst ags) \<union> po_userId ` set ps"
proof (induction ps arbitrary: ags)
  case (Cons p ps)
  show ?case unfolding collect_simps Cons.IH keys_mapSet by auto
qed simp

lemma distinct_collect: "distinct (map fst ags) \<Longrightarrow> distinct (map fst (collect step ps ags))"
  by (induction ps arbitrary: ags) (simp_all add: distinct_mapSet)

text \<open>The steps of the two closings.\<close>

definition settleStep :: "(position \<Rightarrow> position_result) \<Rightarrow> position \<Rightarrow> user_aggregate \<Rightarrow> user_aggregate" where
  "settleStep res p a =
     a\<lparr>ua_lockedRelease := ua_lockedRelease a + po_stakeAmount p,
       ua_credit := ua_credit a + sr_payoutAmount (res p),
       ua_positionIds := ua_positionIds a @ [po_id p],
       ua_entryType :=
         (if sr_status (res p) = Pos_refunded then Some ''prediction_market_refund''
          else if sr_status (res p) = Pos_won \<and> ua_entryType a \<noteq> Some ''prediction_market_refund''
          then Some ''prediction_market_payout'' else ua_entryType a)\<rparr>"

definition cancelStep :: "position \<Rightarrow> user_aggregate \<Rightarrow> user_aggregate" where
  "cancelStep p a =
     a\<lparr>ua_lockedRelease := ua_lockedRelease a + po_stakeAmount p,
       ua_credit := ua_credit a + po_stakeAmount p,
       ua_positionIds := ua_positionIds a @ [po_id p]\<rparr>"

lemma settle_collect:
  "(\<And>p. p \<in> set ps \<Longrightarrow> rb (po_id p) = Some (res p)) \<Longrightarrow>
     forEach (settleAggregate rb) ps ags = Inr (collect (settleStep res) ps ags)"
  by (induction ps arbitrary: ags) (simp_all add: settleAggregate_def settleStep_def Let_def)

lemma cancel_collect: "fold cancelAggregate ps ags = collect cancelStep ps ags"
  by (induction ps arbitrary: ags) (simp_all add: cancelAggregate_def cancelStep_def Let_def)

lemma fold_settleStep:
  "ua_lockedRelease (fold (settleStep res) ps a) = ua_lockedRelease a + (\<Sum>p\<leftarrow>ps. po_stakeAmount p)"
  "ua_credit (fold (settleStep res) ps a) = ua_credit a + (\<Sum>p\<leftarrow>ps. sr_payoutAmount (res p))"
  "ua_positionIds (fold (settleStep res) ps a) = ua_positionIds a @ map po_id ps"
  by (induction ps arbitrary: a) (simp_all add: settleStep_def)

lemma fold_cancelStep:
  "ua_lockedRelease (fold cancelStep ps a) = ua_lockedRelease a + (\<Sum>p\<leftarrow>ps. po_stakeAmount p)"
  "ua_credit (fold cancelStep ps a) = ua_credit a + (\<Sum>p\<leftarrow>ps. po_stakeAmount p)"
  by (induction ps arbitrary: a) (simp_all add: cancelStep_def)

lemma emptyAggregate_simps [simp]: "aggregateOf u [] = emptyAggregate"
  "ua_lockedRelease emptyAggregate = 0" "ua_credit emptyAggregate = 0" "ua_positionIds emptyAggregate = []"
  by (simp_all add: aggregateOf_def emptyAggregate_def)

lemma map_of_collect:
  "u \<in> po_userId ` set ps \<Longrightarrow> map_of (collect step ps []) u = Some (aggregateOf u (collect step ps []))"
  using keys_collect [of step ps "[]"]
  by (cases "map_of (collect step ps []) u") (auto simp: aggregateOf_def map_of_eq_None_iff)

subsection \<open>Paying every aggregate out\<close>

text \<open>How far the accounts of an asset moved.\<close>

definition movedBy ::
  "(nat \<Rightarrow> cents) \<Rightarrow> (nat \<Rightarrow> cents) \<Rightarrow> economy \<Rightarrow> economy \<Rightarrow> bool" where
  "movedBy credit release ec ec' =
     (\<forall>u b. available_balance (balanceOf u b ec') =
              available_balance (balanceOf u b ec) + (if b = B_LUCK then credit u else 0) \<and>
            locked_balance (balanceOf u b ec') =
              locked_balance (balanceOf u b ec) - (if b = B_LUCK then release u else 0))"

text \<open>
  The contract of the work a closing does on one account: with enough locked, it succeeds,
  takes the release out of the lock and makes the credit available.
\<close>

locale account_closing =
  fixes work :: "nat \<Rightarrow> user_aggregate \<Rightarrow> economy \<Rightarrow> (asset_result \<times> economy) res"
    and fits :: "user_aggregate \<Rightarrow> bool"
  assumes work_pays:
    "fits a \<Longrightarrow> 0 < ua_lockedRelease a \<Longrightarrow> 0 \<le> ua_credit a \<Longrightarrow>
     ua_lockedRelease a \<le> locked_balance (balanceOf u B_LUCK ec) \<Longrightarrow> economyOk ec \<Longrightarrow>
     \<exists>r ec'. work u a ec = Inr (r, ec') \<and> economyOk ec' \<and>
       movedBy (\<lambda>v. if v = u then ua_credit a else 0) (\<lambda>v. if v = u then ua_lockedRelease a else 0) ec ec'"
begin

lemma closing_pays_all:
  assumes "distinct us" and "economyOk ec"
    and "\<And>u. u \<in> set us \<Longrightarrow> map_of ags u = Some (ag u) \<and> fits (ag u) \<and> 0 < ua_lockedRelease (ag u) \<and>
          0 \<le> ua_credit (ag u) \<and> ua_lockedRelease (ag u) \<le> locked_balance (balanceOf u B_LUCK ec)"
  shows "\<exists>ec'. forEach (forUser ags work) us ec = Inr ec' \<and> economyOk ec' \<and>
    movedBy (\<lambda>u. if u \<in> set us then ua_credit (ag u) else 0)
      (\<lambda>u. if u \<in> set us then ua_lockedRelease (ag u) else 0) ec ec'"
  using assms
proof (induction us arbitrary: ec)
  case Nil
  then show ?case by (simp add: movedBy_def)
next
  case (Cons u us)
  obtain r ec1 where one: "work u (ag u) ec = Inr (r, ec1)" "economyOk ec1"
    "movedBy (\<lambda>v. if v = u then ua_credit (ag u) else 0) (\<lambda>v. if v = u then ua_lockedRelease (ag u) else 0) ec ec1"
    using work_pays [of "ag u" u ec] Cons.prems(2,3) by auto
  have "locked_balance (balanceOf v B_LUCK ec1) = locked_balance (balanceOf v B_LUCK ec)" if "v \<in> set us" for v
    using one(3) that Cons.prems(1) by (auto simp: movedBy_def)
  with Cons.prems have "map_of ags v = Some (ag v) \<and> fits (ag v) \<and> 0 < ua_lockedRelease (ag v) \<and>
      0 \<le> ua_credit (ag v) \<and> ua_lockedRelease (ag v) \<le> locked_balance (balanceOf v B_LUCK ec1)"
    if "v \<in> set us" for v
    using that by auto
  with Cons.IH [of ec1] Cons.prems(1) one(2) obtain ec2 where
    rest: "forEach (forUser ags work) us ec1 = Inr ec2" "economyOk ec2"
    "movedBy (\<lambda>u. if u \<in> set us then ua_credit (ag u) else 0)
      (\<lambda>u. if u \<in> set us then ua_lockedRelease (ag u) else 0) ec1 ec2" by auto
  have "forUser ags work u ec = Inr ec1"
    using Cons.prems(3) [of u] one(1) by (simp add: forUser_def)
  with rest one(3) Cons.prems(1) show ?case by (auto simp: movedBy_def)
qed

end

lemma posted_moved:
  assumes "posted u B_LUCK row ls ec ec'"
    and "available_balance row = available_balance (balanceOf u B_LUCK ec) + c"
    and "locked_balance row = locked_balance (balanceOf u B_LUCK ec) - l"
  shows "movedBy (\<lambda>v. if v = u then c else 0) (\<lambda>v. if v = u then l else 0) ec ec'"
  using assms by (auto simp: movedBy_def posted_def)

interpretation settling: account_closing "settleUser marketId" "\<lambda>_. True"
proof
  fix a :: user_aggregate and u ec
  assume a: "0 < ua_lockedRelease a" "0 \<le> ua_credit a"
    "ua_lockedRelease a \<le> locked_balance (balanceOf u B_LUCK ec)" and ok: "economyOk ec"
  then obtain r ec' where ran: "settleUser marketId u a ec = Inr (r, ec')"
    using keyless_settle_succeeds [of "\<lparr>sl_userId = u, sl_assetCode = B_LUCK,
      sl_lockedAmount = of_int (ua_lockedRelease a), sl_payoutAmount = of_int (ua_credit a),
      sl_entryType = (case ua_entryType a of None \<Rightarrow> ''prediction_market_payout'' | Some t \<Rightarrow> t),
      sl_referenceType = Some ''prediction_market'', sl_referenceId = Some marketId,
      sl_idempotencyKey = None\<rparr>" ec]
    by (auto simp: settleUser_def PREDICTION_MARKET_ASSET_CODE_def)
  then have "movedBy (\<lambda>v. if v = u then ua_credit a else 0) (\<lambda>v. if v = u then ua_lockedRelease a else 0) ec ec'"
    unfolding settleUser_def PREDICTION_MARKET_ASSET_CODE_def
    by (cases rule: settle_cases) (auto simp: findIdempotentLedgerEntry_def intro: posted_moved)
  with ran settle_keeps_economy ok show "\<exists>r ec'. settleUser marketId u a ec = Inr (r, ec') \<and> economyOk ec' \<and>
      movedBy (\<lambda>v. if v = u then ua_credit a else 0) (\<lambda>v. if v = u then ua_lockedRelease a else 0) ec ec'"
    unfolding settleUser_def by blast
qed

interpretation refunding: account_closing "refundUser marketId" "\<lambda>a. ua_credit a = ua_lockedRelease a"
proof
  fix a :: user_aggregate and u ec
  assume a: "ua_credit a = ua_lockedRelease a" "0 < ua_lockedRelease a"
    "ua_lockedRelease a \<le> locked_balance (balanceOf u B_LUCK ec)" and ok: "economyOk ec"
  then obtain r ec' where ran: "refundUser marketId u a ec = Inr (r, ec')"
    unfolding refundUser_def unlockAsset_def stakePayload_def PREDICTION_MARKET_ASSET_CODE_def
    using keyless_mutation_succeeds [of "\<lparr>am_userId = u, am_assetCode = B_LUCK, am_amount = of_int (ua_credit a),
      am_entryType = ''prediction_market_refund'', am_referenceType = Some ''prediction_market'',
      am_referenceId = Some marketId, am_idempotencyKey = None\<rparr>" unlockCompute ec]
    by (auto simp: unlockCompute_def)
  then have "movedBy (\<lambda>v. if v = u then ua_credit a else 0) (\<lambda>v. if v = u then ua_lockedRelease a else 0) ec ec'"
    unfolding refundUser_def unlockAsset_def
    by (cases rule: applyAsset_cases)
      (use a in \<open>auto simp: findIdempotentLedgerEntry_def stakePayload_def unlockCompute_def
        PREDICTION_MARKET_ASSET_CODE_def split: if_splits intro: posted_moved\<close>)
  with ran unlock_posting.mutation_keeps_economy ok
  show "\<exists>r ec'. refundUser marketId u a ec = Inr (r, ec') \<and> economyOk ec' \<and>
      movedBy (\<lambda>v. if v = u then ua_credit a else 0) (\<lambda>v. if v = u then ua_lockedRelease a else 0) ec ec'"
    unfolding refundUser_def unlockAsset_def by blast
qed

end
