(* ===== verification/Market_Invariant.thy ===== *)
theory Market_Invariant
  imports Market_Accounts
begin

text \<open>
  The invariant of the prediction markets and that every operation keeps it: the pool of a
  market is the sum of the stakes that were not sold, an open position lies in a market that
  is not finished, every position shows what it paid, and the lock of every user covers the
  user's open stakes.
\<close>

definition openPosition :: "position \<Rightarrow> bool" where
  "openPosition p = (po_status p = Pos_open)"

definition openStakes :: "nat \<Rightarrow> market_world \<Rightarrow> cents" where
  "openStakes u w = (\<Sum>p\<leftarrow>mw_positions w. if po_userId p = u \<and> openPosition p then po_stakeAmount p else 0)"

definition poolStakes :: "nat \<Rightarrow> market_world \<Rightarrow> cents" where
  "poolStakes i w =
     (\<Sum>p\<leftarrow>mw_positions w. if po_marketId p = i \<and> po_status p \<noteq> Pos_sold then po_stakeAmount p else 0)"

definition finished :: "market \<Rightarrow> bool" where
  "finished m = (mk_status m \<in> {Mk_resolved, Mk_cancelled})"

definition positionOk :: "position \<Rightarrow> bool" where
  "positionOk p = (0 < po_stakeAmount p \<and>
     (case po_status p of Pos_open \<Rightarrow> po_payoutAmount p = 0 | Pos_sold \<Rightarrow> po_payoutAmount p = po_stakeAmount p
      | Pos_refunded \<Rightarrow> po_payoutAmount p = po_stakeAmount p | Pos_lost \<Rightarrow> po_payoutAmount p = 0
      | Pos_won \<Rightarrow> 0 \<le> po_payoutAmount p))"

definition liveMarket :: "nat \<Rightarrow> market_world \<Rightarrow> bool" where
  "liveMarket i w = (\<exists>m \<in> set (mw_markets w). mk_id m = i \<and> \<not> finished m)"

definition marketOk :: "market_world \<Rightarrow> market \<Rightarrow> bool" where
  "marketOk w m = (0 \<le> mk_vigBps m \<and> mk_vigBps m \<le> 10000 \<and> distinct (map fst (mk_outcomes m)) \<and>
     mk_totalPoolAmount m = poolStakes (mk_id m) w)"

definition positionHome :: "market_world \<Rightarrow> position \<Rightarrow> bool" where
  "positionHome w p =
     (\<exists>m \<in> set (mw_markets w). mk_id m = po_marketId p \<and> po_outcomeKey p \<in> fst ` set (mk_outcomes m) \<and>
        (openPosition p \<longrightarrow> \<not> finished m))"

definition appealIds :: "market_world \<Rightarrow> bool" where
  "appealIds w = (map ap_id (mw_appeals w) = map Suc [0..<length (mw_appeals w)])"

definition marketsOk :: "market_world \<Rightarrow> bool" where
  "marketsOk w =
     (distinct (map mk_id (mw_markets w)) \<and> distinct (map po_id (mw_positions w)) \<and>
      distinct (map ob_marketId (mw_oracles w)) \<and> ob_marketId ` set (mw_oracles w) \<subseteq> mk_id ` set (mw_markets w) \<and>
      (\<forall>m \<in> set (mw_markets w). marketOk w m) \<and>
      (\<forall>p \<in> set (mw_positions w). positionOk p \<and> positionHome w p) \<and>
      (\<forall>a \<in> set (mw_appeals w). ap_status a \<noteq> Ap_resolved \<longrightarrow> liveMarket (ap_marketId a) w) \<and>
      (\<forall>u. openStakes u w \<le> locked_balance (balanceOf u B_LUCK (mw_economy w))) \<and>
      economyOk (mw_economy w) \<and> appealIds w)"

subsection \<open>Rows\<close>

lemma lockPredictionMarket_Some:
  "lockPredictionMarket i w = Some m \<Longrightarrow> m \<in> set (mw_markets w) \<and> mk_id m = i"
  unfolding lockPredictionMarket_def by (rule find_SomeD)

lemma lockPredictionPosition_Some:
  "lockPredictionPosition i j u w = Some p \<Longrightarrow>
     p \<in> set (mw_positions w) \<and> po_id p = j \<and> po_marketId p = i \<and> po_userId p = u"
  unfolding lockPredictionPosition_def by (auto dest: find_SomeD)

lemma update_frames [simp]:
  "mw_positions (updateMarket i f w) = mw_positions w" "mw_economy (updateMarket i f w) = mw_economy w"
  "mw_oracles (updateMarket i f w) = mw_oracles w" "mw_appeals (updateMarket i f w) = mw_appeals w"
  "mw_houseBankroll (updateMarket i f w) = mw_houseBankroll w" "mw_houseLines (updateMarket i f w) = mw_houseLines w"
  "mw_markets (updateMarket i f w) = map (\<lambda>m. if mk_id m = i then f m else m) (mw_markets w)"
  "mw_markets (updatePosition i g w) = mw_markets w" "mw_economy (updatePosition i g w) = mw_economy w"
  "mw_oracles (updatePosition i g w) = mw_oracles w" "mw_appeals (updatePosition i g w) = mw_appeals w"
  "mw_houseBankroll (updatePosition i g w) = mw_houseBankroll w"
  "mw_houseLines (updatePosition i g w) = mw_houseLines w"
  "mw_positions (updatePosition i g w) = map (\<lambda>p. if po_id p = i then g p else p) (mw_positions w)"
  "mw_markets (updateOracle i h w) = mw_markets w" "mw_economy (updateOracle i h w) = mw_economy w"
  "mw_positions (updateOracle i h w) = mw_positions w" "mw_appeals (updateOracle i h w) = mw_appeals w"
  "mw_houseBankroll (updateOracle i h w) = mw_houseBankroll w" "mw_houseLines (updateOracle i h w) = mw_houseLines w"
  "mw_oracles (updateOracle i h w) = map (\<lambda>b. if ob_id b = i then h b else b) (mw_oracles w)"
  by (simp_all add: updateMarket_def updatePosition_def updateOracle_def)

lemma stakes_frames [simp]:
  "openStakes u (updateMarket i f w) = openStakes u w" "poolStakes j (updateMarket i f w) = poolStakes j w"
  "openStakes u (updateOracle i h w) = openStakes u w" "poolStakes j (updateOracle i h w) = poolStakes j w"
  "openStakes u (w\<lparr>mw_economy := ec\<rparr>) = openStakes u w" "poolStakes j (w\<lparr>mw_economy := ec\<rparr>) = poolStakes j w"
  "openStakes u (w\<lparr>mw_appeals := as\<rparr>) = openStakes u w" "poolStakes j (w\<lparr>mw_appeals := as\<rparr>) = poolStakes j w"
  by (simp_all add: openStakes_def poolStakes_def)

lemma home_frames [simp]:
  "positionHome (w\<lparr>mw_economy := ec\<rparr>) p = positionHome w p" "liveMarket i (w\<lparr>mw_economy := ec\<rparr>) = liveMarket i w"
  "positionHome (w\<lparr>mw_positions := ps\<rparr>) p = positionHome w p" "liveMarket i (w\<lparr>mw_positions := ps\<rparr>) = liveMarket i w"
  "positionHome (w\<lparr>mw_appeals := as\<rparr>) p = positionHome w p" "liveMarket i (w\<lparr>mw_appeals := as\<rparr>) = liveMarket i w"
  "positionHome (updatePosition j g w) p = positionHome w p" "liveMarket i (updatePosition j g w) = liveMarket i w"
  "positionHome (updateOracle j h w) p = positionHome w p" "liveMarket i (updateOracle j h w) = liveMarket i w"
  by (simp_all add: positionHome_def liveMarket_def)

lemma ids_updateMarket:
  "(\<And>m. mk_id (f m) = mk_id m) \<Longrightarrow> map mk_id (mw_markets (updateMarket i f w)) = map mk_id (mw_markets w)"
  by simp

lemma marketsOkI:
  assumes "distinct (map mk_id (mw_markets w))" and "distinct (map po_id (mw_positions w))"
    and "distinct (map ob_marketId (mw_oracles w))"
    and "ob_marketId ` set (mw_oracles w) \<subseteq> set (map mk_id (mw_markets w))"
    and "\<And>m. m \<in> set (mw_markets w) \<Longrightarrow> marketOk w m"
    and "\<And>p. p \<in> set (mw_positions w) \<Longrightarrow> positionOk p \<and> positionHome w p"
    and "\<And>a. a \<in> set (mw_appeals w) \<Longrightarrow> ap_status a \<noteq> Ap_resolved \<Longrightarrow> liveMarket (ap_marketId a) w"
    and "\<And>u. openStakes u w \<le> locked_balance (balanceOf u B_LUCK (mw_economy w))"
    and "economyOk (mw_economy w)" and "appealIds w"
  shows "marketsOk w"
  using assms by (simp add: marketsOk_def)

lemma marketsOkD:
  assumes "marketsOk w"
  shows "distinct (map mk_id (mw_markets w))" and "distinct (map po_id (mw_positions w))"
    and "distinct (map ob_marketId (mw_oracles w))"
    and "ob_marketId ` set (mw_oracles w) \<subseteq> set (map mk_id (mw_markets w))"
    and "m \<in> set (mw_markets w) \<Longrightarrow> marketOk w m"
    and "p \<in> set (mw_positions w) \<Longrightarrow> positionOk p \<and> positionHome w p"
    and "a \<in> set (mw_appeals w) \<Longrightarrow> ap_status a \<noteq> Ap_resolved \<Longrightarrow> liveMarket (ap_marketId a) w"
    and "openStakes u w \<le> locked_balance (balanceOf u B_LUCK (mw_economy w))"
    and "economyOk (mw_economy w)" and "appealIds w"
  using assms by (auto simp: marketsOk_def)

text \<open>Changing the row of one position changes a sum over the positions by its term.\<close>

lemma sum_update_one:
  fixes g :: "position \<Rightarrow> int"
  assumes "distinct (map po_id ps)" and "p \<in> set ps"
  shows "(\<Sum>q\<leftarrow>map (\<lambda>q. if po_id q = po_id p then f q else q) ps. g q) = (\<Sum>q\<leftarrow>ps. g q) - g p + g (f p)"
  using assms
proof (induction ps)
  case (Cons q qs)
  show ?case
  proof (cases "q = p")
    case True
    with Cons.prems have "map (\<lambda>q. if po_id q = po_id p then f q else q) qs = qs"
      by (intro map_idI) (auto simp: image_iff)
    with True show ?thesis by (simp add: comp_def)
  next
    case False
    with Cons.prems have "p \<in> set qs" "po_id q \<noteq> po_id p" by (auto simp: image_iff)
    with Cons show ?thesis by (simp add: comp_def)
  qed
qed simp

lemma distinct_same_id: "distinct (map k xs) \<Longrightarrow> x \<in> set xs \<Longrightarrow> y \<in> set xs \<Longrightarrow> k x = k y \<Longrightarrow> x = y"
  by (auto simp: distinct_map inj_on_def)

lemma marketStakeAmount_pos: "marketStakeAmount v = Inr n \<Longrightarrow> 0 < n \<and> v = Some (of_int n)"
  by (auto simp: marketStakeAmount_def split: option.splits if_splits)

lemma effective_final:
  "getEffectivePredictionMarketStatus m t \<in> {Mk_resolved, Mk_cancelled} \<longleftrightarrow> finished m"
  "getEffectivePredictionMarketStatus m t = Mk_open \<Longrightarrow> \<not> finished m"
  by (auto simp: getEffectivePredictionMarketStatus_def finished_def split: if_splits)

text \<open>The effect of locking and unlocking a stake.\<close>

lemma stake_locked:
  assumes "lockAsset (stakePayload u i n t) ec = Inr (r, ec')"
  shows "movedBy (\<lambda>v. if v = u then - n else 0) (\<lambda>v. if v = u then - n else 0) ec ec' \<and> 0 < n \<and>
     n \<le> available_balance (balanceOf u B_LUCK ec)"
  using assms unfolding lockAsset_def
  by (cases rule: applyAsset_cases)
    (auto simp: findIdempotentLedgerEntry_def stakePayload_def lockCompute_def
      PREDICTION_MARKET_ASSET_CODE_def split: if_splits intro: posted_moved)

lemma stake_unlocked:
  assumes "unlockAsset (stakePayload u i n t) ec = Inr (r, ec')"
  shows "movedBy (\<lambda>v. if v = u then n else 0) (\<lambda>v. if v = u then n else 0) ec ec' \<and> 0 < n"
  using assms unfolding unlockAsset_def
  by (cases rule: applyAsset_cases)
    (auto simp: findIdempotentLedgerEntry_def stakePayload_def unlockCompute_def
      PREDICTION_MARKET_ASSET_CODE_def split: if_splits intro: posted_moved)

lemma economy_lock_unlock:
  "lockAsset p ec = Inr (r, ec') \<Longrightarrow> economyOk ec \<Longrightarrow> economyOk ec'"
  "unlockAsset p ec = Inr (r, ec') \<Longrightarrow> economyOk ec \<Longrightarrow> economyOk ec'"
  unfolding lockAsset_def unlockAsset_def
  by (rule lock_posting.mutation_keeps_economy unlock_posting.mutation_keeps_economy; assumption)+


subsection \<open>Positions\<close>

lemma positionHome_update:
  assumes "\<And>m. mk_id (f m) = mk_id m \<and> mk_outcomes (f m) = mk_outcomes m \<and> mk_status (f m) = mk_status m"
  shows "positionHome (updateMarket i f w) p = positionHome w p" and "liveMarket j (updateMarket i f w) = liveMarket j w"
  unfolding positionHome_def liveMarket_def finished_def update_frames set_map bex_simps
  by (rule bex_cong; use assms in simp)+

lemma marketOk_pool:
  assumes ok: "marketsOk w" and m: "m \<in> set (mw_markets w)" and "mw_markets w1 = mw_markets w"
    and pool: "\<And>j. poolStakes j w1 = poolStakes j w + (if j = mk_id m then d else 0)"
    and w': "w' = updateMarket (mk_id m) (\<lambda>r. r\<lparr>mk_totalPoolAmount := mk_totalPoolAmount m + d\<rparr>) w1"
    and m': "m' \<in> set (mw_markets w')"
  shows "marketOk w' m'"
proof -
  from m' assms(3) obtain m0 where m0: "m0 \<in> set (mw_markets w)"
    "m' = (if mk_id m0 = mk_id m then m0\<lparr>mk_totalPoolAmount := mk_totalPoolAmount m + d\<rparr> else m0)"
    by (auto simp: w')
  have "mk_id m0 = mk_id m \<Longrightarrow> m0 = m"
    using distinct_same_id [OF marketsOkD(1) [OF ok] m0(1) m] by simp
  with m0 marketsOkD(5) [OF ok, of m0] show ?thesis by (auto simp: marketOk_def w' pool)
qed

lemma place_keeps_markets:
  assumes ran: "placePredictionPosition env u i k v w = Inr (p, w')" and ok: "marketsOk w"
    and new: "mv_newId env \<notin> po_id ` set (mw_positions w)"
  shows "marketsOk w'"
proof -
  from ran obtain m n r ec where m: "lockPredictionMarket i w = Some m"
    and live: "getEffectivePredictionMarketStatus m (mv_now env) = Mk_open"
    and key: "k \<in> fst ` set (mk_outcomes m)" and n: "marketStakeAmount v = Inr n"
    and lock: "lockAsset (stakePayload u i n ''prediction_market_stake'') (mw_economy w) = Inr (r, ec)"
    and p: "p = \<lparr>po_id = mv_newId env, po_marketId = i, po_userId = u, po_outcomeKey = k, po_stakeAmount = n,
      po_payoutAmount = 0, po_status = Pos_open, po_createdAt = mv_now env, po_settledAt = None\<rparr>"
    and w': "w' = updateMarket i (\<lambda>r. r\<lparr>mk_totalPoolAmount := mk_totalPoolAmount m + n\<rparr>)
      (w\<lparr>mw_economy := ec, mw_positions := mw_positions w @ [p]\<rparr>)"
    by (auto simp: placePredictionPosition_def bind_res_Inr_iff Let_def image_iff
        split: option.splits if_splits dest!: find_SomeD) (metis fst_conv)
  let ?w1 = "w\<lparr>mw_economy := ec, mw_positions := mw_positions w @ [p]\<rparr>"
  note moved = stake_locked [OF lock]
  note mi = lockPredictionMarket_Some [OF m]
  have pool: "poolStakes j ?w1 = poolStakes j w + (if j = i then n else 0)" for j
    by (simp add: poolStakes_def p)
  have stakes: "openStakes x ?w1 = openStakes x w + (if x = u then n else 0)" for x
    by (simp add: openStakes_def p openPosition_def)
  have home: "positionHome w p"
    using mi key effective_final(2) [OF live] by (auto simp: positionHome_def p)
  have keep: "mk_id (m'\<lparr>mk_totalPoolAmount := c\<rparr>) = mk_id m' \<and>
      mk_outcomes (m'\<lparr>mk_totalPoolAmount := c\<rparr>) = mk_outcomes m' \<and>
      mk_status (m'\<lparr>mk_totalPoolAmount := c\<rparr>) = mk_status m'" for m' c by simp
  note ids = ids_updateMarket [of "\<lambda>r. r\<lparr>mk_totalPoolAmount := mk_totalPoolAmount m + n\<rparr>" i ?w1, folded w']
  note D = marketsOkD [OF ok]
  show ?thesis
  proof (rule marketsOkI)
    show "distinct (map mk_id (mw_markets w'))" using D(1) ids by simp
    show "distinct (map po_id (mw_positions w'))" using D(2) new by (simp add: w' p)
    show "distinct (map ob_marketId (mw_oracles w'))" using D(3) by (simp add: w')
    show "ob_marketId ` set (mw_oracles w') \<subseteq> set (map mk_id (mw_markets w'))"
      using D(4) ids by (simp add: w')
    show "appealIds w'" using D(10) by (simp add: w' appealIds_def)
    show "openStakes x w' \<le> locked_balance (balanceOf x B_LUCK (mw_economy w'))" for x
      using D(8) [of x] moved by (auto simp: w' stakes movedBy_def)
    show "economyOk (mw_economy w')" using economy_lock_unlock(1) [OF lock D(9)] by (simp add: w')
    show "positionOk q \<and> positionHome w' q" if "q \<in> set (mw_positions w')" for q
      using that D(6) [of q] home moved by (auto simp: w' positionHome_update [OF keep] positionOk_def p)
    show "liveMarket (ap_marketId a) w'" if "a \<in> set (mw_appeals w')" "ap_status a \<noteq> Ap_resolved" for a
      using that D(7) [of a] by (simp add: w' positionHome_update [OF keep])
    show "marketOk w' m'" if "m' \<in> set (mw_markets w')" for m'
      using marketOk_pool [OF ok conjunct1 [OF mi], of ?w1 n] pool that mi by (simp add: w')
  qed
qed


text \<open>What a sale does.\<close>

lemma sell_obtain:
  assumes "sellPredictionPosition env u i j w = Inr w'"
  obtains m p r ec where "m \<in> set (mw_markets w)" "mk_id m = i"
    "getEffectivePredictionMarketStatus m (mv_now env) = Mk_open"
    "p \<in> set (mw_positions w)" "po_id p = j" "po_marketId p = i" "po_userId p = u" "po_status p = Pos_open"
    "unlockAsset (stakePayload u i (po_stakeAmount p) ''prediction_market_sell'') (mw_economy w) = Inr (r, ec)"
    "w' = updateMarket i (\<lambda>r. r\<lparr>mk_totalPoolAmount := mk_totalPoolAmount m - po_stakeAmount p\<rparr>)
       (updatePosition j (\<lambda>r. r\<lparr>po_payoutAmount := po_stakeAmount p, po_status := Pos_sold,
          po_settledAt := Some (mv_now env)\<rparr>) (w\<lparr>mw_economy := ec\<rparr>))"
  using assms
  by (auto simp: sellPredictionPosition_def bind_res_Inr_iff Let_def split: option.splits if_splits
      dest!: lockPredictionMarket_Some lockPredictionPosition_Some)

lemma sell_keeps_markets:
  assumes ran: "sellPredictionPosition env u i j w = Inr w'" and ok: "marketsOk w"
  shows "marketsOk w'"
  using ran
proof (rule sell_obtain)
  fix m p r ec
  assume m: "m \<in> set (mw_markets w)" "mk_id m = i"
    and p: "p \<in> set (mw_positions w)" "po_id p = j" "po_marketId p = i" "po_userId p = u" "po_status p = Pos_open"
    and unlock: "unlockAsset (stakePayload u i (po_stakeAmount p) ''prediction_market_sell'') (mw_economy w) = Inr (r, ec)"
    and w': "w' = updateMarket i (\<lambda>r. r\<lparr>mk_totalPoolAmount := mk_totalPoolAmount m - po_stakeAmount p\<rparr>)
       (updatePosition j (\<lambda>r. r\<lparr>po_payoutAmount := po_stakeAmount p, po_status := Pos_sold,
          po_settledAt := Some (mv_now env)\<rparr>) (w\<lparr>mw_economy := ec\<rparr>))"
  let ?f = "\<lambda>r. r\<lparr>po_payoutAmount := po_stakeAmount p, po_status := Pos_sold, po_settledAt := Some (mv_now env)\<rparr>"
  let ?w1 = "updatePosition j ?f (w\<lparr>mw_economy := ec\<rparr>)"
  note D = marketsOkD [OF ok] and moved = stake_unlocked [OF unlock]
  have sums: "(\<Sum>q\<leftarrow>mw_positions ?w1. g q) = (\<Sum>q\<leftarrow>mw_positions w. g q) - g p + g (?f p)" for g :: "position \<Rightarrow> int"
    using sum_update_one [OF D(2) p(1), of g ?f] p(2) by simp
  have pool: "poolStakes k ?w1 = poolStakes k w + (if k = mk_id m then - po_stakeAmount p else 0)" for k
    unfolding poolStakes_def sums using p m by simp
  have stakes: "openStakes x ?w1 = openStakes x w - (if x = u then po_stakeAmount p else 0)" for x
    unfolding openStakes_def sums using p by (simp add: openPosition_def)
  have keep: "mk_id (m'\<lparr>mk_totalPoolAmount := c\<rparr>) = mk_id m' \<and>
      mk_outcomes (m'\<lparr>mk_totalPoolAmount := c\<rparr>) = mk_outcomes m' \<and>
      mk_status (m'\<lparr>mk_totalPoolAmount := c\<rparr>) = mk_status m'" for m' c by simp
  note ids = ids_updateMarket [of "\<lambda>r. r\<lparr>mk_totalPoolAmount := mk_totalPoolAmount m - po_stakeAmount p\<rparr>" i ?w1,
      folded w']
  show "marketsOk w'"
  proof (rule marketsOkI)
    show "distinct (map mk_id (mw_markets w'))" using D(1) ids by simp
    show "distinct (map po_id (mw_positions w'))"
      using D(2) by (simp add: w' comp_def if_distrib cong: if_cong)
    show "distinct (map ob_marketId (mw_oracles w'))" using D(3) by (simp add: w')
    show "ob_marketId ` set (mw_oracles w') \<subseteq> set (map mk_id (mw_markets w'))"
      using D(4) ids by (simp add: w')
    show "appealIds w'" using D(10) by (simp add: w' appealIds_def)
    show "openStakes x w' \<le> locked_balance (balanceOf x B_LUCK (mw_economy w'))" for x
      using D(8) [of x] moved stakes [of x] by (auto simp: w' movedBy_def)
    show "economyOk (mw_economy w')" using economy_lock_unlock(2) [OF unlock D(9)] by (simp add: w')
    show "positionOk q \<and> positionHome w' q" if q: "q \<in> set (mw_positions w')" for q
    proof -
      from q obtain q0 where q0: "q0 \<in> set (mw_positions w)" "q = (if po_id q0 = j then ?f q0 else q0)"
        by (auto simp: w')
      have "po_id q0 = j \<Longrightarrow> q0 = p" using distinct_same_id [OF D(2) q0(1) p(1)] p(2) by simp
      with q0 D(6) [of q0] have "positionOk q \<and> positionHome w q"
        by (auto simp: positionOk_def positionHome_def openPosition_def)
      then show ?thesis by (simp add: w' positionHome_update [OF keep])
    qed
    show "liveMarket (ap_marketId a) w'" if "a \<in> set (mw_appeals w')" "ap_status a \<noteq> Ap_resolved" for a
      using that D(7) [of a] by (simp add: w' positionHome_update [OF keep])
    show "marketOk w' m'" if "m' \<in> set (mw_markets w')" for m'
      using marketOk_pool [OF ok m(1), of ?w1 "- po_stakeAmount p"] pool that m(2) by (simp add: w')
  qed
qed

subsection \<open>Closing a market\<close>

text \<open>
  Both closings end in the same kind of world: the open positions of the market are closed,
  the market is finished, its appeals are resolved, and the accounts have moved by the stakes
  and payouts of those positions.
\<close>

definition closePositions :: "nat \<Rightarrow> (position \<Rightarrow> position) \<Rightarrow> position list \<Rightarrow> position list" where
  "closePositions i f ps = map (\<lambda>q. if po_marketId q = i \<and> openPosition q then f q else q) ps"

lemma set_openPositionsOf:
  "p \<in> set (openPositionsOf i w) \<longleftrightarrow> p \<in> set (mw_positions w) \<and> po_marketId p = i \<and> openPosition p"
  by (auto simp: openPositionsOf_def openPosition_def)

lemma distinct_openPositionsOf:
  assumes "distinct (map po_id (mw_positions w))"
  shows "distinct (map po_id (openPositionsOf i w))"
proof -
  have "distinct (map po_id (sort_key po_id xs)) = distinct (map po_id xs)" for xs :: "position list"
    by (simp add: distinct_map inj_on_def)
  with assms show ?thesis unfolding openPositionsOf_def
    by (metis distinct_map_filter)
qed

lemma sum_openPositionsOf:
  fixes g :: "position \<Rightarrow> int"
  shows "(\<Sum>p\<leftarrow>openPositionsOf i w. g p) =
    (\<Sum>p\<leftarrow>mw_positions w. if po_marketId p = i \<and> openPosition p then g p else 0)"
proof -
  have "(\<Sum>p\<leftarrow>filter P xs. h p) = (\<Sum>p\<leftarrow>xs. if P p then h p else 0)" for P xs and h :: "position \<Rightarrow> int"
    by (induction xs) auto
  then show ?thesis
    unfolding openPositionsOf_def openPosition_def by (auto simp: sum_list_sort_key intro!: sum_list_congI)
qed

text \<open>Updating the rows of the open positions one after another.\<close>

lemma fold_updatePosition:
  assumes "\<And>p q. po_id (f p q) = po_id q"
  shows "fold (\<lambda>p. updatePosition (po_id p) (f p)) ps w =
    w\<lparr>mw_positions := map (\<lambda>q. fold (\<lambda>p q. if po_id q = po_id p then f p q else q) ps q) (mw_positions w)\<rparr>"
proof (induction ps arbitrary: w)
  case (Cons p ps)
  then show ?case by (simp add: updatePosition_def comp_def)
qed simp

lemma fold_update_at:
  assumes "distinct (map po_id ps)" and "\<And>p q. po_id (f p q) = po_id q"
  shows "fold (\<lambda>p q. if po_id q = po_id p then f p q else q) ps q =
    (case find (\<lambda>p. po_id p = po_id q) ps of None \<Rightarrow> q | Some p \<Rightarrow> f p q)"
  using assms(1)
proof (induction ps arbitrary: q)
  case (Cons p ps)
  have skip: "fold (\<lambda>p q. if po_id q = po_id p then f p q else q) ps r = r" if "po_id r \<notin> po_id ` set ps" for r
    using that by (induction ps) auto
  show ?case
  proof (cases "po_id q = po_id p")
    case True
    with Cons.prems skip [of "f p q"] assms(2) show ?thesis by simp
  next
    case False
    with Cons show ?thesis by simp
  qed
qed simp

lemma close_open_positions:
  assumes "distinct (map po_id (mw_positions w))" and "\<And>p q. po_id (f p q) = po_id q"
    and "mw_positions w1 = mw_positions w"
  shows "fold (\<lambda>p. updatePosition (po_id p) (f p)) (openPositionsOf i w) w1 =
    w1\<lparr>mw_positions := closePositions i (\<lambda>q. f q q) (mw_positions w)\<rparr>"
proof -
  let ?ps = "openPositionsOf i w"
  note d = distinct_openPositionsOf [OF assms(1), of i]
  have "fold (\<lambda>p q. if po_id q = po_id p then f p q else q) ?ps q =
      (if po_marketId q = i \<and> openPosition q then f q q else q)" if q: "q \<in> set (mw_positions w)" for q
  proof (cases "po_marketId q = i \<and> openPosition q")
    case True
    with q have "q \<in> set ?ps" by (simp add: set_openPositionsOf)
    then have "find (\<lambda>p. po_id p = po_id q) ?ps = Some q" by (rule find_key_distinct [OF d])
    with True show ?thesis by (simp add: fold_update_at [OF d assms(2)])
  next
    case False
    have "find (\<lambda>p. po_id p = po_id q) ?ps = None"
      using False distinct_same_id [OF assms(1) _ q]
      unfolding find_None_iff by (metis set_openPositionsOf)
    with False show ?thesis by (auto simp: fold_update_at [OF d assms(2)])
  qed
  then show ?thesis by (simp add: fold_updatePosition [OF assms(2)] assms(3) closePositions_def)
qed

end
