(* ===== verification/Market_Closing.thy ===== *)
theory Market_Closing
  imports Market_Invariant
begin

text \<open>
  The closing of a market.  Settlement and cancellation end in the same kind of world
  (\<open>closes\<close>): the open positions of the market are closed, the market is finished, its appeals
  are resolved, and the accounts have moved by the stakes and payouts of the positions.
\<close>

definition sumOpen :: "nat \<Rightarrow> (position \<Rightarrow> cents) \<Rightarrow> market_world \<Rightarrow> nat \<Rightarrow> cents" where
  "sumOpen i g w u =
     (\<Sum>p\<leftarrow>mw_positions w. if po_marketId p = i \<and> openPosition p \<and> po_userId p = u then g p else 0)"

definition closes ::
  "int \<Rightarrow> nat \<Rightarrow> (position \<Rightarrow> position_result) \<Rightarrow> cents \<Rightarrow> market_world \<Rightarrow> market_world \<Rightarrow> bool" where
  "closes now i res fee w w' =
     (mw_positions w' = closePositions i (\<lambda>q. q\<lparr>po_payoutAmount := sr_payoutAmount (res q),
        po_status := sr_status (res q), po_settledAt := Some now\<rparr>) (mw_positions w) \<and>
      (\<exists>F. mw_markets w' = map (\<lambda>m. if mk_id m = i then F m else m) (mw_markets w) \<and>
         (\<forall>m. mk_id (F m) = mk_id m \<and> mk_vigBps (F m) = mk_vigBps m \<and> mk_outcomes (F m) = mk_outcomes m \<and>
            mk_totalPoolAmount (F m) = mk_totalPoolAmount m \<and> finished (F m))) \<and>
      map ob_marketId (mw_oracles w') = map ob_marketId (mw_oracles w) \<and>
      map ap_id (mw_appeals w') = map ap_id (mw_appeals w) \<and>
      (\<forall>a \<in> set (mw_appeals w'). ap_status a \<noteq> Ap_resolved \<longrightarrow> ap_marketId a \<noteq> i \<and> a \<in> set (mw_appeals w)) \<and>
      movedBy (sumOpen i (\<lambda>p. sr_payoutAmount (res p)) w) (sumOpen i po_stakeAmount w)
        (mw_economy w) (mw_economy w') \<and>
      economyOk (mw_economy w') \<and> mw_houseBankroll w' = mw_houseBankroll w + fee)"

text \<open>A result that a closing may give a position.\<close>

definition closingResult :: "position \<Rightarrow> position_result \<Rightarrow> bool" where
  "closingResult p r =
     (sr_status r \<in> {Pos_refunded, Pos_won, Pos_lost} \<and> 0 \<le> sr_payoutAmount r \<and>
      (sr_status r = Pos_refunded \<longrightarrow> sr_payoutAmount r = po_stakeAmount p) \<and>
      (sr_status r = Pos_lost \<longrightarrow> sr_payoutAmount r = 0))"

lemma closes_keeps_markets:
  assumes closes: "closes now i res fee w w'" and ok: "marketsOk w"
    and res: "\<And>p. p \<in> set (mw_positions w) \<Longrightarrow> po_marketId p = i \<Longrightarrow> openPosition p \<Longrightarrow> closingResult p (res p)"
  shows "marketsOk w'"
proof -
  let ?f = "\<lambda>q. q\<lparr>po_payoutAmount := sr_payoutAmount (res q), po_status := sr_status (res q),
    po_settledAt := Some now\<rparr>"
  from closes obtain F where
    pos: "mw_positions w' = closePositions i ?f (mw_positions w)"
    and mks: "mw_markets w' = map (\<lambda>m. if mk_id m = i then F m else m) (mw_markets w)"
    and F: "\<And>m. mk_id (F m) = mk_id m \<and> mk_vigBps (F m) = mk_vigBps m \<and> mk_outcomes (F m) = mk_outcomes m \<and>
       mk_totalPoolAmount (F m) = mk_totalPoolAmount m \<and> finished (F m)"
    and obs: "map ob_marketId (mw_oracles w') = map ob_marketId (mw_oracles w)"
    and apids: "map ap_id (mw_appeals w') = map ap_id (mw_appeals w)"
    and aps: "\<And>a. a \<in> set (mw_appeals w') \<Longrightarrow> ap_status a \<noteq> Ap_resolved \<Longrightarrow>
       ap_marketId a \<noteq> i \<and> a \<in> set (mw_appeals w)"
    and moved: "movedBy (sumOpen i (\<lambda>p. sr_payoutAmount (res p)) w) (sumOpen i po_stakeAmount w)
        (mw_economy w) (mw_economy w')"
    and econ: "economyOk (mw_economy w')"
    unfolding closes_def by blast
  note D = marketsOkD [OF ok]
  have closed: "\<not> openPosition (?f q)" "po_status (?f q) \<noteq> Pos_sold"
    if "q \<in> set (mw_positions w)" "po_marketId q = i" "openPosition q" for q
    using res [OF that] by (auto simp: closingResult_def openPosition_def)
  have ids: "map mk_id (mw_markets w') = map mk_id (mw_markets w)"
    by (simp add: mks F)
  have pool: "poolStakes j w' = poolStakes j w" for j
    unfolding poolStakes_def pos closePositions_def map_map
    by (intro sum_list_congI) (use closed in \<open>auto simp: comp_def openPosition_def\<close>)
  have stakes: "openStakes u w' = openStakes u w - sumOpen i po_stakeAmount w u" for u
    unfolding openStakes_def sumOpen_def pos closePositions_def map_map
      sum_list_subtractf [symmetric]
    by (intro sum_list_congI) (use closed in \<open>auto simp: comp_def\<close>)
  have live: "liveMarket j w'" if "liveMarket j w" "j \<noteq> i" for j
    using that unfolding liveMarket_def mks by force
  have home: "positionHome w' q" if q: "positionHome w q" "po_marketId q = i \<Longrightarrow> \<not> openPosition q" for q
  proof -
    from q obtain m where "m \<in> set (mw_markets w)" "mk_id m = po_marketId q"
      "po_outcomeKey q \<in> fst ` set (mk_outcomes m)" "openPosition q \<longrightarrow> \<not> finished m"
      by (auto simp: positionHome_def)
    with q(2) F show ?thesis
      unfolding positionHome_def mks set_map bex_simps by (intro bexI [of _ m]) auto
  qed
  show ?thesis
  proof (rule marketsOkI)
    show "distinct (map mk_id (mw_markets w'))" using D(1) ids by simp
    show "distinct (map po_id (mw_positions w'))"
      using D(2) by (simp add: pos closePositions_def comp_def if_distrib cong: if_cong)
    show "distinct (map ob_marketId (mw_oracles w'))" using D(3) obs by simp
    show "ob_marketId ` set (mw_oracles w') \<subseteq> set (map mk_id (mw_markets w'))"
      using D(4) ids obs by (metis list.set_map)
    show "appealIds w'" using D(10) apids by (metis appealIds_def length_map)
    show "openStakes u w' \<le> locked_balance (balanceOf u B_LUCK (mw_economy w'))" for u
      using D(8) [of u] moved by (simp add: stakes movedBy_def)
    show "economyOk (mw_economy w')" by (rule econ)
    show "positionOk q \<and> positionHome w' q" if q: "q \<in> set (mw_positions w')" for q
    proof -
      from q obtain q0 where q0: "q0 \<in> set (mw_positions w)"
        "q = (if po_marketId q0 = i \<and> openPosition q0 then ?f q0 else q0)"
        by (auto simp: pos closePositions_def)
      show ?thesis
      proof (cases "po_marketId q0 = i \<and> openPosition q0")
        case True
        with res [OF q0(1)] closed [OF q0(1)] D(6) [OF q0(1)] q0(2) have "positionOk q" "positionHome w q" "\<not> openPosition q"
          by (auto simp: positionOk_def closingResult_def positionHome_def)
        with home show ?thesis by simp
      next
        case False
        with q0 D(6) [OF q0(1)] home [of q] show ?thesis by auto
      qed
    qed
    show "liveMarket (ap_marketId a) w'" if "a \<in> set (mw_appeals w')" "ap_status a \<noteq> Ap_resolved" for a
      using aps [OF that] D(7) [of a] that(2) by (intro live) auto
    show "marketOk w' m" if "m \<in> set (mw_markets w')" for m
      using that D(5) F by (auto simp: mks marketOk_def pool)
  qed
qed


subsection \<open>The accounts of a closing\<close>

lemma sumOpen_filter:
  "(\<Sum>p\<leftarrow>filter (\<lambda>p. po_userId p = u) (openPositionsOf i w). g p) = sumOpen i g w u"
proof -
  have "(\<Sum>p\<leftarrow>filter P xs. h p) = (\<Sum>p\<leftarrow>xs. if P p then h p else 0)" for P xs and h :: "position \<Rightarrow> int"
    by (induction xs) auto
  then show ?thesis
    unfolding sumOpen_def by (simp add: sum_openPositionsOf) (rule sum_list_congI, auto)
qed

lemma sumOpen_none:
  "u \<notin> po_userId ` set (openPositionsOf i w) \<Longrightarrow> sumOpen i g w u = 0"
  unfolding sumOpen_def by (rule sum_list_zeroI) (auto simp: image_iff set_openPositionsOf)

lemma sumOpen_le_openStakes:
  assumes "\<And>p. p \<in> set (mw_positions w) \<Longrightarrow> 0 \<le> po_stakeAmount p"
  shows "sumOpen i po_stakeAmount w u \<le> openStakes u w"
  unfolding sumOpen_def openStakes_def by (rule sum_list_mono) (use assms in auto)

lemma sumOpen_pos:
  assumes "\<And>p. p \<in> set (mw_positions w) \<Longrightarrow> 0 < g p" and "u \<in> po_userId ` set (openPositionsOf i w)"
  shows "0 < sumOpen i g w u"
proof -
  from assms(2) obtain p where p: "p \<in> set (mw_positions w)" "po_marketId p = i" "openPosition p" "po_userId p = u"
    by (auto simp: set_openPositionsOf)
  let ?h = "\<lambda>p. if po_marketId p = i \<and> openPosition p \<and> po_userId p = u then g p else 0"
  have "?h p \<le> sumOpen i g w u"
    unfolding sumOpen_def by (rule member_le_sum_list_int) (use assms(1) p in \<open>auto intro: less_imp_le\<close>)
  with p assms(1) [of p] show ?thesis by simp
qed

text \<open>Whatever work closes the accounts, they move by the stakes and payouts of the positions.\<close>

lemma closing_accounts:
  assumes work: "account_closing work fits" and ok: "marketsOk w"
    and ags: "ags = collect step (openPositionsOf i w) []"
    and fits: "\<And>u. fits (aggregateOf u ags)"
    and release: "\<And>u. ua_lockedRelease (aggregateOf u ags) = sumOpen i po_stakeAmount w u"
    and credit: "\<And>u. ua_credit (aggregateOf u ags) = sumOpen i pay w u"
    and pay: "\<And>p. p \<in> set (mw_positions w) \<Longrightarrow> po_marketId p = i \<Longrightarrow> openPosition p \<Longrightarrow> 0 \<le> pay p"
  shows "\<exists>ec. forEach (forUser ags work) (orderedUserIds ags) (mw_economy w) = Inr ec \<and> economyOk ec \<and>
    movedBy (sumOpen i pay w) (sumOpen i po_stakeAmount w) (mw_economy w) ec"
proof -
  note D = marketsOkD [OF ok]
  let ?us = "orderedUserIds ags"
  have pos: "0 < po_stakeAmount p" if "p \<in> set (mw_positions w)" for p
    using D(6) [OF that] by (simp add: positionOk_def)
  have us: "set ?us = po_userId ` set (openPositionsOf i w)" "distinct ?us"
    using keys_collect [of step "openPositionsOf i w" "[]"] distinct_collect [of "[]" step "openPositionsOf i w"]
    by (simp_all add: orderedUserIds_def ags)
  have each: "map_of ags u = Some (aggregateOf u ags) \<and> fits (aggregateOf u ags) \<and>
      0 < ua_lockedRelease (aggregateOf u ags) \<and> 0 \<le> ua_credit (aggregateOf u ags) \<and>
      ua_lockedRelease (aggregateOf u ags) \<le> locked_balance (balanceOf u B_LUCK (mw_economy w))"
    if "u \<in> set ?us" for u
  proof -
    have "map_of ags u = Some (aggregateOf u ags)" using that map_of_collect us(1) unfolding ags by blast
    moreover have "0 < sumOpen i po_stakeAmount w u" using that us(1) pos by (intro sumOpen_pos) auto
    moreover have "sumOpen i po_stakeAmount w u \<le> openStakes u w"
      using pos by (intro sumOpen_le_openStakes) (auto intro: less_imp_le)
    moreover have "0 \<le> sumOpen i pay w u" unfolding sumOpen_def by (rule sum_list_nonneg) (use pay in auto)
    ultimately show ?thesis using fits D(8) [of u] by (simp add: release credit)
  qed
  have outside: "sumOpen i g w u = 0" if "u \<notin> set ?us" for u and g :: "position \<Rightarrow> int"
    using that us(1) by (intro sumOpen_none) simp
  from account_closing.closing_pays_all [OF work us(2) D(9) each]
  obtain ec where ec: "forEach (forUser ags work) ?us (mw_economy w) = Inr ec" "economyOk ec"
    "movedBy (\<lambda>u. if u \<in> set ?us then ua_credit (aggregateOf u ags) else 0)
      (\<lambda>u. if u \<in> set ?us then ua_lockedRelease (aggregateOf u ags) else 0) (mw_economy w) ec" by blast
  have "(\<lambda>u. if u \<in> set ?us then ua_credit (aggregateOf u ags) else 0) = sumOpen i pay w"
    "(\<lambda>u. if u \<in> set ?us then ua_lockedRelease (aggregateOf u ags) else 0) = sumOpen i po_stakeAmount w"
    using outside by (auto simp: fun_eq_iff release credit)
  with ec show ?thesis by metis
qed


subsection \<open>Settlement\<close>

text \<open>The result of a position and the fee, for the open positions of a market.\<close>

definition marketSplit :: "nat \<Rightarrow> string \<Rightarrow> int \<Rightarrow> market_world \<Rightarrow> position \<Rightarrow> position_result" where
  "marketSplit i key vig w p =
     splitResult (map toSettlementPosition (openPositionsOf i w)) key vig (toSettlementPosition p)"

definition marketFee :: "nat \<Rightarrow> string \<Rightarrow> int \<Rightarrow> market_world \<Rightarrow> cents" where
  "marketFee i key vig w = splitFee (map toSettlementPosition (openPositionsOf i w)) key vig"

definition marketPays :: "nat \<Rightarrow> string \<Rightarrow> int \<Rightarrow> market_world \<Rightarrow> bool" where
  "marketPays i key vig w = splitPays (map toSettlementPosition (openPositionsOf i w)) key vig"

lemma toSettlementPosition_simps [simp]:
  "sp_id (toSettlementPosition p) = po_id p" "sp_userId (toSettlementPosition p) = po_userId p"
  "sp_outcomeKey (toSettlementPosition p) = po_outcomeKey p"
  "sp_stakeAmount (toSettlementPosition p) = po_stakeAmount p"
  by (simp_all add: toSettlementPosition_def)

lemma validPositions_open:
  assumes "marketsOk w"
  shows "validPositions (map toSettlementPosition (openPositionsOf i w))"
  using distinct_openPositionsOf [OF marketsOkD(2) [OF assms], of i] marketsOkD(6) [OF assms]
  by (auto simp: validPositions_def comp_def set_openPositionsOf positionOk_def)

lemma openPool_le:
  assumes ok: "marketsOk w" and m: "m \<in> set (mw_markets w)"
  shows "poolOf (map toSettlementPosition (openPositionsOf (mk_id m) w)) \<le> mk_totalPoolAmount m"
proof -
  have stake: "0 < po_stakeAmount p" if "p \<in> set (mw_positions w)" for p
    using marketsOkD(6) [OF ok that] by (simp add: positionOk_def)
  have "poolOf (map toSettlementPosition (openPositionsOf (mk_id m) w)) = (\<Sum>p\<leftarrow>mw_positions w.
      if po_marketId p = mk_id m then if po_status p = Pos_open then po_stakeAmount p else 0 else 0)"
    by (simp add: poolOf_def comp_def openPositionsOf_def sum_filter_if sum_sorted)
  also have "\<dots> \<le> poolStakes (mk_id m) w"
    unfolding poolStakes_def by (rule sum_list_mono) (auto simp: less_imp_le stake)
  also have "\<dots> = mk_totalPoolAmount m" using marketsOkD(5) [OF ok m] by (simp add: marketOk_def)
  finally show ?thesis .
qed

lemma map_of_rev_distinct: "distinct (map fst xs) \<Longrightarrow> x \<in> set xs \<Longrightarrow> map_of (rev xs) (fst x) = Some (snd x)"
  by (intro map_of_is_SomeI) (simp_all add: rev_map [symmetric])

lemma settle_positions:
  "(\<And>p. p \<in> set ps \<Longrightarrow> rb (po_id p) = Some (res p)) \<Longrightarrow>
     forEach (settlePosition now rb) ps w = Inr (fold (\<lambda>p. updatePosition (po_id p)
       (\<lambda>q. q\<lparr>po_payoutAmount := sr_payoutAmount (res p), po_status := sr_status (res p),
              po_settledAt := Some now\<rparr>)) ps w)"
  by (induction ps arbitrary: w) (simp_all add: settlePosition_def)

lemma closingResult_split:
  assumes "marketsOk w" and "0 \<le> vig" and "vig \<le> 10000"
    and "p \<in> set (mw_positions w)" and "po_marketId p = i" and "openPosition p"
  shows "closingResult p (marketSplit i key vig w p)"
proof -
  have "p \<in> set (openPositionsOf i w)" using assms(4-6) by (simp add: set_openPositionsOf)
  with splitResult_nonneg [OF validPositions_open [OF assms(1), of i] assms(2,3), of "toSettlementPosition p" key]
    splitResult_fields [of _ key vig "toSettlementPosition p"]
  show ?thesis unfolding closingResult_def marketSplit_def by auto
qed

lemma applySettlement_closes:
  assumes ok: "marketsOk w" and m: "m \<in> set (mw_markets w)"
    and s: "sm_positionResults s = map (splitResult (map toSettlementPosition (openPositionsOf (mk_id m) w)) key (mk_vigBps m))
        (map toSettlementPosition (openPositionsOf (mk_id m) w))"
      "sm_feeAmount s = marketFee (mk_id m) key (mk_vigBps m) w"
      "sm_mode s = (if winningPositions (map toSettlementPosition (openPositionsOf (mk_id m) w)) key = []
        then Mode_refund_no_winners else Mode_payout)"
    and ob: "ob = getPredictionMarketOracleBinding (mk_id m) w"
  shows "\<exists>ns w'. applySettlement env m ob key oi (openPositionsOf (mk_id m) w) s w = Inr (ns, w') \<and>
    closes (mv_now env) (mk_id m) (marketSplit (mk_id m) key (mk_vigBps m) w)
      (marketFee (mk_id m) key (mk_vigBps m) w) w w'"
proof -
  let ?i = "mk_id m" and ?ps = "openPositionsOf (mk_id m) w" and ?now = "mv_now env"
  let ?res = "marketSplit ?i key (mk_vigBps m) w"
  define rb where "rb = map_of (rev (map (\<lambda>r. (sr_id r, r)) (sm_positionResults s)))"
  define ags where "ags = collect (settleStep ?res) ?ps []"
  note D = marketsOkD [OF ok]
  have vig: "0 \<le> mk_vigBps m" "mk_vigBps m \<le> 10000" using D(5) [OF m] by (simp_all add: marketOk_def)
  have results: "map (\<lambda>r. (sr_id r, r)) (sm_positionResults s) = map (\<lambda>p. (po_id p, ?res p)) ?ps"
    by (simp add: s(1) marketSplit_def comp_def splitResult_fields)
  have rb: "rb (po_id p) = Some (?res p)" if "p \<in> set ?ps" for p
    unfolding rb_def results
    using map_of_rev_distinct [of "map (\<lambda>p. (po_id p, ?res p)) ?ps" "(po_id p, ?res p)"] that
      distinct_openPositionsOf [OF D(2), of ?i] by (simp add: comp_def)
  have ags1: "forEach (settleAggregate rb) ?ps [] = Inr ags"
    unfolding ags_def by (rule settle_collect) (rule rb)
  have "\<exists>ec. forEach (forUser ags (settleUser ?i)) (orderedUserIds ags) (mw_economy w) = Inr ec \<and> economyOk ec \<and>
      movedBy (sumOpen ?i (\<lambda>p. sr_payoutAmount (?res p)) w) (sumOpen ?i po_stakeAmount w) (mw_economy w) ec"
  proof (rule closing_accounts [OF settling.account_closing_axioms ok ags_def])
    show "ua_lockedRelease (aggregateOf u ags) = sumOpen ?i po_stakeAmount w u"
      "ua_credit (aggregateOf u ags) = sumOpen ?i (\<lambda>p. sr_payoutAmount (?res p)) w u" for u
      by (simp_all add: ags_def aggregateOf_collect fold_settleStep sumOpen_filter)
    show "0 \<le> sr_payoutAmount (?res p)" if "p \<in> set (mw_positions w)" "po_marketId p = ?i" "openPosition p" for p
      using closingResult_split [OF ok vig that] by (simp add: closingResult_def)
  qed simp
  then obtain ec where ec: "forEach (forUser ags (settleUser ?i)) (orderedUserIds ags) (mw_economy w) = Inr ec"
    "economyOk ec" "movedBy (sumOpen ?i (\<lambda>p. sr_payoutAmount (?res p)) w) (sumOpen ?i po_stakeAmount w) (mw_economy w) ec"
    by blast
  define w2 where "w2 = (if sm_mode s = Mode_payout \<and> sm_feeAmount s > 0
     then applyHouseBankrollDelta (sm_feeAmount s) ''prediction_market_vig'' (Some ?i) (w\<lparr>mw_economy := ec\<rparr>)
     else w\<lparr>mw_economy := ec\<rparr>)"
  have fee: "0 \<le> sm_feeAmount s" "sm_mode s \<noteq> Mode_payout \<Longrightarrow> sm_feeAmount s = 0"
    using splitFee_bounds(1) [OF validPositions_open [OF ok] vig] by (auto simp: s marketFee_def splitFee_def)
  have w2: "mw_positions w2 = mw_positions w" "mw_markets w2 = mw_markets w" "mw_oracles w2 = mw_oracles w"
    "mw_appeals w2 = mw_appeals w" "mw_economy w2 = ec" "mw_houseBankroll w2 = mw_houseBankroll w + sm_feeAmount s"
    using fee by (auto simp: w2_def applyHouseBankrollDelta_def Let_def)
  have w3: "forEach (settlePosition ?now rb) ?ps w2 = Inr (w2\<lparr>mw_positions := closePositions ?i
      (\<lambda>q. q\<lparr>po_payoutAmount := sr_payoutAmount (?res q), po_status := sr_status (?res q),
             po_settledAt := Some ?now\<rparr>) (mw_positions w)\<rparr>)"
    using settle_positions [of ?ps rb ?res ?now w2, OF rb]
    by (simp add: close_open_positions [OF D(2) _ w2(1)])
  have obs: "map ob_marketId (map (\<lambda>b. if ob_id b = j then h b else b) bs) = map ob_marketId bs"
    if "\<And>b. ob_marketId (h b) = ob_marketId b" for h j bs using that by simp
  show ?thesis
    unfolding applySettlement_def Let_def rb_def [symmetric] ags1 bind_res_simps ec(1) w2_def [symmetric] w3
    using ec w2
    by (auto simp: closes_def resolvePredictionMarketAppealsForMarket_def s(2) finished_def split: option.split)
      (metis appeal_status.exhaust)+
qed


text \<open>An administrator may settle when no oracle decides, or when there is an appeal.\<close>

definition maySettle :: "settlement_source \<Rightarrow> nat \<Rightarrow> market_world \<Rightarrow> bool" where
  "maySettle source i w =
     (source = Source_oracle_worker \<or> hasOpenPredictionMarketAppeal i w \<or>
      (case getPredictionMarketOracleBinding i w of None \<Rightarrow> True | Some b \<Rightarrow> ob_provider b = Manual_admin))"

lemma settle_locked:
  assumes ok: "marketsOk w" and m: "lockPredictionMarket i w = Some m"
    and locked: "getEffectivePredictionMarketStatus m (mv_now env) = Mk_locked"
    and key: "key \<in> fst ` set (mk_outcomes m)" and may: "maySettle source i w"
  shows "\<exists>r. settlePredictionMarket env source i key oi w = Some r \<and>
    (mk_totalPoolAmount m < 10 ^ 9 \<longrightarrow> (\<exists>ns w'. r = Inr (ns, w'))) \<and>
    (\<forall>ns w'. r = Inr (ns, w') \<longrightarrow> marketPays i key (mk_vigBps m) w \<and>
       closes (mv_now env) i (marketSplit i key (mk_vigBps m) w) (marketFee i key (mk_vigBps m) w) w w')"
proof -
  note mi = lockPredictionMarket_Some [OF m]
  let ?ps = "map toSettlementPosition (openPositionsOf i w)"
  have vig: "0 \<le> mk_vigBps m" "mk_vigBps m \<le> 10000"
    using marketsOkD(5) [OF ok, of m] mi by (simp_all add: marketOk_def)
  obtain r where r: "resolvePariMutuelSettlement ?ps key (mk_vigBps m) = Some r"
    "smallPool ?ps \<Longrightarrow> \<exists>s. r = Inr s"
    "\<And>s. r = Inr s \<Longrightarrow> sm_positionResults s = map (splitResult ?ps key (mk_vigBps m)) ?ps \<and>
       sm_feeAmount s = splitFee ?ps key (mk_vigBps m) \<and>
       sm_mode s = (if winningPositions ?ps key = [] then Mode_refund_no_winners else Mode_payout) \<and>
       splitPays ?ps key (mk_vigBps m)"
    using resolve_split [OF validPositions_open [OF ok, of i] vig, of key] by blast
  have ran: "settlePredictionMarket env source i key oi w = Some (bind_res r (\<lambda>s.
      applySettlement env m (getPredictionMarketOracleBinding i w) key oi (openPositionsOf i w) s w))"
    if "find (\<lambda>out. fst out = key) (mk_outcomes m) \<noteq> None"
    using that m locked may r(1)
    by (auto simp: settlePredictionMarket_def Let_def maySettle_def split: option.splits)
  have found: "find (\<lambda>out. fst out = key) (mk_outcomes m) \<noteq> None"
    using key by (auto simp: find_None_iff)
  show ?thesis
  proof (cases r)
    case (Inl e)
    have "\<not> mk_totalPoolAmount m < 10 ^ 9" using openPool_le [OF ok, of m] r(2) Inl mi by (auto simp: smallPool_def)
    with ran [OF found] Inl show ?thesis by simp
  next
    case (Inr s)
    note s = r(3) [OF Inr]
    obtain ns w' where "applySettlement env m (getPredictionMarketOracleBinding i w) key oi (openPositionsOf i w) s w =
        Inr (ns, w')"
      "closes (mv_now env) i (marketSplit i key (mk_vigBps m) w) (marketFee i key (mk_vigBps m) w) w w'"
      using applySettlement_closes [OF ok, of m s key _ env oi] mi s by (auto simp: marketFee_def)
    with ran [OF found] Inr s show ?thesis by (simp add: marketPays_def)
  qed
qed

text \<open>In every other case it fails, and it always returns.\<close>

lemma settle_fails:
  assumes "\<And>m. lockPredictionMarket i w = Some m \<Longrightarrow>
      getEffectivePredictionMarketStatus m (mv_now env) \<noteq> Mk_locked \<or> key \<notin> fst ` set (mk_outcomes m) \<or>
      \<not> maySettle source i w"
  shows "\<exists>e. settlePredictionMarket env source i key oi w = Some (Inl e)"
proof (cases "lockPredictionMarket i w")
  case None
  then show ?thesis by (simp add: settlePredictionMarket_def)
next
  case (Some m)
  show ?thesis
  proof (cases "getEffectivePredictionMarketStatus m (mv_now env) = Mk_locked")
    case True
    with assms [OF Some] have "key \<notin> fst ` set (mk_outcomes m) \<or> \<not> maySettle source i w" by simp
    then show ?thesis
    proof
      assume "key \<notin> fst ` set (mk_outcomes m)"
      then have "find (\<lambda>out. fst out = key) (mk_outcomes m) = None" by (auto simp: find_None_iff)
      with Some True show ?thesis by (simp add: settlePredictionMarket_def Let_def)
    next
      assume "\<not> maySettle source i w"
      with Some True show ?thesis
        by (cases source) (auto simp: settlePredictionMarket_def Let_def maySettle_def split: option.splits)
    qed
  next
    case False
    with Some show ?thesis
      by (cases "getEffectivePredictionMarketStatus m (mv_now env)")
        (simp_all add: settlePredictionMarket_def Let_def)
  qed
qed

lemma settle_obtain:
  assumes "settlePredictionMarket env source i key oi w = Some (Inr (ns, w'))" and "marketsOk w"
  obtains m where "m \<in> set (mw_markets w)" "mk_id m = i"
    "getEffectivePredictionMarketStatus m (mv_now env) = Mk_locked" "key \<in> fst ` set (mk_outcomes m)"
    "maySettle source i w" "marketPays i key (mk_vigBps m) w"
    "closes (mv_now env) i (marketSplit i key (mk_vigBps m) w) (marketFee i key (mk_vigBps m) w) w w'"
proof -
  from assms(1) settle_fails [of i w env key source oi] obtain m where
    m: "lockPredictionMarket i w = Some m" "getEffectivePredictionMarketStatus m (mv_now env) = Mk_locked"
      "key \<in> fst ` set (mk_outcomes m)" "maySettle source i w" by fastforce
  from settle_locked [OF assms(2) m, of oi] assms(1)
  have "marketPays i key (mk_vigBps m) w"
    "closes (mv_now env) i (marketSplit i key (mk_vigBps m) w) (marketFee i key (mk_vigBps m) w) w w'" by auto
  with m lockPredictionMarket_Some [OF m(1)] show ?thesis by (intro that) auto
qed

lemma settle_keeps_markets:
  assumes "settlePredictionMarket env source i key oi w = Some (Inr (ns, w'))" and ok: "marketsOk w"
  shows "marketsOk w'"
  using assms
proof (rule settle_obtain)
  fix m
  assume m: "m \<in> set (mw_markets w)" "mk_id m = i"
    and closes: "closes (mv_now env) i (marketSplit i key (mk_vigBps m) w) (marketFee i key (mk_vigBps m) w) w w'"
  have "0 \<le> mk_vigBps m" "mk_vigBps m \<le> 10000"
    using marketsOkD(5) [OF ok m(1)] by (simp_all add: marketOk_def)
  then show "marketsOk w'"
    by (intro closes_keeps_markets [OF closes ok] closingResult_split [OF ok])
qed

text \<open>A settlement pays out what was staked, less the fee.\<close>

lemma sum_users:
  assumes "distinct us" and "\<And>p. p \<in> set (openPositionsOf i w) \<Longrightarrow> po_userId p \<in> set us"
  shows "(\<Sum>u\<leftarrow>us. sumOpen i g w u) = (\<Sum>p\<leftarrow>openPositionsOf i w. g p)"
  using sum_list_groups [OF assms(1), of "openPositionsOf i w" po_userId g] assms(2)
  by (simp add: sumOpen_filter)

lemma split_total:
  assumes "marketsOk w" and "marketPays i key vig w"
  shows "(\<Sum>p\<leftarrow>openPositionsOf i w. sr_payoutAmount (marketSplit i key vig w p)) + marketFee i key vig w =
    (\<Sum>p\<leftarrow>openPositionsOf i w. po_stakeAmount p)"
  using sum_split [OF validPositions_open [OF assms(1), of i] assms(2) [unfolded marketPays_def]]
  by (simp add: marketSplit_def marketFee_def poolOf_def comp_def)

end
