(* ===== verification/Market_Run.thy ===== *)
theory Market_Run
  imports Market_Closing
begin

text \<open>
  The other operations of prediction markets, runs of all of them together, and that the
  invariant holds in every run.  New ids are the database's, so they are new; requests have
  passed the schema of \<open>shared-types\<close>, so the fee of a new market is at most all and its
  outcomes have different keys.  Other components use the asset accounts by the requests of
  \<open>Asset_Runs\<close>; they leave what is locked for open positions alone.
\<close>

subsection \<open>Cancellation\<close>

definition refundResult :: "position \<Rightarrow> position_result" where
  "refundResult p = \<lparr>sr_id = po_id p, sr_userId = po_userId p, sr_payoutAmount = po_stakeAmount p,
     sr_status = Pos_refunded\<rparr>"

lemma cancel_succeeds:
  assumes ok: "marketsOk w" and m: "lockPredictionMarket i w = Some m" and live: "\<not> finished m"
  shows "\<exists>w'. cancelPredictionMarket env i oi w = Inr w' \<and> closes (mv_now env) i refundResult 0 w w'"
proof -
  let ?ps = "openPositionsOf i w"
  define ags where "ags = collect cancelStep ?ps []"
  note D = marketsOkD [OF ok] and mi = lockPredictionMarket_Some [OF m]
  have "\<exists>ec. forEach (forUser ags (refundUser i)) (orderedUserIds ags) (mw_economy w) = Inr ec \<and> economyOk ec \<and>
      movedBy (sumOpen i po_stakeAmount w) (sumOpen i po_stakeAmount w) (mw_economy w) ec"
  proof (rule closing_accounts [OF refunding.account_closing_axioms ok ags_def])
    show "ua_credit (aggregateOf u ags) = ua_lockedRelease (aggregateOf u ags)" for u
      by (simp add: ags_def aggregateOf_collect fold_cancelStep)
    show "ua_lockedRelease (aggregateOf u ags) = sumOpen i po_stakeAmount w u"
      "ua_credit (aggregateOf u ags) = sumOpen i po_stakeAmount w u" for u
      by (simp_all add: ags_def aggregateOf_collect fold_cancelStep sumOpen_filter)
    show "0 \<le> po_stakeAmount p" if "p \<in> set (mw_positions w)" for p
      using D(6) [OF that] by (simp add: positionOk_def)
  qed
  then obtain ec where ec: "forEach (forUser ags (refundUser i)) (orderedUserIds ags) (mw_economy w) = Inr ec"
    "economyOk ec" "movedBy (sumOpen i po_stakeAmount w) (sumOpen i po_stakeAmount w) (mw_economy w) ec" by blast
  have ags1: "fold cancelAggregate ?ps [] = ags" by (simp add: ags_def cancel_collect)
  have w1: "fold (\<lambda>p. updatePosition (po_id p) (\<lambda>q. q\<lparr>po_payoutAmount := po_stakeAmount p,
        po_status := Pos_refunded, po_settledAt := Some (mv_now env)\<rparr>)) ?ps (w\<lparr>mw_economy := ec\<rparr>) =
      w\<lparr>mw_economy := ec, mw_positions := closePositions i (\<lambda>q. q\<lparr>po_payoutAmount := po_stakeAmount q,
        po_status := Pos_refunded, po_settledAt := Some (mv_now env)\<rparr>) (mw_positions w)\<rparr>"
    by (subst close_open_positions [OF D(2)]) simp_all
  have notfinal: "getEffectivePredictionMarketStatus m (mv_now env) \<notin> {Mk_resolved, Mk_cancelled}"
    using live effective_final(1) [of m "mv_now env"] by simp
  show ?thesis
    unfolding cancelPredictionMarket_def m option.case Let_def if_not_P [OF notfinal] ags1 ec(1) bind_res_simps w1
    using ec
    by (auto simp: closes_def refundResult_def resolvePredictionMarketAppealsForMarket_def finished_def
        split: option.split) (metis appeal_status.exhaust)+
qed

lemma cancel_obtain:
  assumes "cancelPredictionMarket env i oi w = Inr w'" and "marketsOk w"
  obtains m where "m \<in> set (mw_markets w)" "mk_id m = i" "\<not> finished m"
    "closes (mv_now env) i refundResult 0 w w'"
proof -
  from assms(1) obtain m where m: "lockPredictionMarket i w = Some m"
    by (auto simp: cancelPredictionMarket_def split: option.splits)
  with assms(1) have "getEffectivePredictionMarketStatus m (mv_now env) \<notin> {Mk_resolved, Mk_cancelled}"
    by (auto simp: cancelPredictionMarket_def)
  then have live: "\<not> finished m" using effective_final(1) [of m "mv_now env"] by simp
  from cancel_succeeds [OF assms(2) m live, of env oi] assms(1) lockPredictionMarket_Some [OF m] live
  show ?thesis by (intro that) auto
qed

lemma cancel_keeps_markets:
  assumes "cancelPredictionMarket env i oi w = Inr w'" and ok: "marketsOk w"
  shows "marketsOk w'"
  using assms
proof (rule cancel_obtain)
  assume closes: "closes (mv_now env) i refundResult 0 w w'"
  show "marketsOk w'"
    by (rule closes_keeps_markets [OF closes ok])
      (use marketsOkD(6) [OF ok] in \<open>auto simp: closingResult_def refundResult_def positionOk_def intro: less_imp_le\<close>)
qed

subsection \<open>Creation, appeals, other components\<close>

definition validRequest :: "market_request \<Rightarrow> bool" where
  "validRequest q = (0 \<le> mq_vigBps q \<and> mq_vigBps q \<le> 10000 \<and> distinct (map fst (mq_outcomes q)))"

lemma create_keeps_markets:
  assumes ran: "createPredictionMarket env j q w = Inr (m, w')" and ok: "marketsOk w"
    and new: "mv_newId env \<notin> mk_id ` set (mw_markets w)" and valid: "validRequest q"
  shows "marketsOk w'"
proof -
  define b where "b = last (mw_oracles w')"
  from ran have m: "mk_id m = mv_newId env" "mk_vigBps m = mq_vigBps q" "mk_outcomes m = mq_outcomes q"
      "mk_totalPoolAmount m = 0" "\<not> finished m"
    and b: "ob_marketId b = mv_newId env"
    and w': "w' = w\<lparr>mw_markets := mw_markets w @ [m], mw_oracles := mw_oracles w @ [b]\<rparr>"
    by (auto simp: createPredictionMarket_def Let_def bind_res_Inr_iff finished_def b_def split: if_splits)
  note D = marketsOkD [OF ok]
  have frames: "poolStakes i w' = poolStakes i w" "openStakes u w' = openStakes u w" for i u
    by (simp_all add: w' poolStakes_def openStakes_def)
  have none: "poolStakes (mv_newId env) w = 0"
    unfolding poolStakes_def
  proof (rule sum_list_zeroI)
    fix p
    assume "p \<in> set (mw_positions w)"
    from D(6) [OF this] new have "po_marketId p \<noteq> mv_newId env" by (force simp: positionHome_def)
    then show "(if po_marketId p = mv_newId env \<and> po_status p \<noteq> Pos_sold then po_stakeAmount p else 0) = 0"
      by simp
  qed
  show ?thesis
  proof (rule marketsOkI)
    show "distinct (map ob_marketId (mw_oracles w'))" using D(3,4) new by (auto simp: w' b)
    show "ob_marketId ` set (mw_oracles w') \<subseteq> set (map mk_id (mw_markets w'))" using D(4) by (auto simp: w' b m)
    show "marketOk w' m'" if "m' \<in> set (mw_markets w')" for m'
      using that D(5) valid none m by (auto simp: w' marketOk_def frames [unfolded w'] validRequest_def)
    show "positionOk p \<and> positionHome w' p" if "p \<in> set (mw_positions w')" for p
      using that D(6) [of p] by (auto simp: w' positionHome_def)
    show "liveMarket (ap_marketId a) w'" if "a \<in> set (mw_appeals w')" "ap_status a \<noteq> Ap_resolved" for a
      using that D(7) [of a] by (auto simp: w' liveMarket_def)
    show "appealIds w'" using D(10) by (simp add: w' appealIds_def)
    show "openStakes u w' \<le> locked_balance (balanceOf u B_LUCK (mw_economy w'))" for u
      using D(8) [of u] frames by (simp add: w')
  qed (use D new m in \<open>auto simp: w'\<close>)
qed

text \<open>Changing oracles' rows and appeals on live markets.\<close>

lemma appeals_keep_markets:
  assumes ok: "marketsOk w" and "mw_markets w' = mw_markets w" "mw_positions w' = mw_positions w"
    "mw_economy w' = mw_economy w" "map ob_marketId (mw_oracles w') = map ob_marketId (mw_oracles w)" "appealIds w'"
    and "\<And>a. a \<in> set (mw_appeals w') \<Longrightarrow> ap_status a \<noteq> Ap_resolved \<Longrightarrow> liveMarket (ap_marketId a) w"
  shows "marketsOk w'"
proof -
  have obs: "ob_marketId ` set (mw_oracles w') = ob_marketId ` set (mw_oracles w)"
    using assms(5) by (metis list.set_map)
  have frames: "poolStakes i w' = poolStakes i w" "openStakes u w' = openStakes u w"
    "liveMarket i w' = liveMarket i w" "positionHome w' p = positionHome w p" "marketOk w' m = marketOk w m" for i u p m
    using assms(2,3) by (simp_all add: poolStakes_def openStakes_def liveMarket_def positionHome_def marketOk_def)
  show ?thesis
    by (rule marketsOkI) (use marketsOkD [OF ok] assms(2-7) obs in \<open>auto simp: frames\<close>)
qed

lemma queue_keeps_markets:
  assumes "marketsOk w" and "liveMarket i w"
  shows "marketsOk (queuePredictionMarketAppeal now i b pr reason w)"
  by (rule appeals_keep_markets [OF assms(1)])
    (use assms marketsOkD(7,10) [OF assms(1)] in
      \<open>auto simp: queuePredictionMarketAppeal_def Let_def appealIds_def comp_def if_distrib split: if_splits
        cong: if_cong\<close>)

lemma oracle_keeps_markets:
  assumes "marketsOk w" and "\<And>b. ob_marketId (h b) = ob_marketId b"
  shows "marketsOk (updateOracle j h w)"
  by (rule appeals_keep_markets [OF assms(1)]) (use assms marketsOkD(7,10) [OF assms(1)] in \<open>auto simp: appealIds_def\<close>)

lemma acknowledge_keeps_markets:
  assumes "acknowledgePredictionMarketAppeal i w = Inr w'" and ok: "marketsOk w"
  shows "marketsOk w'"
proof -
  from assms(1) obtain a where a: "find (\<lambda>a. ap_id a = i) (mw_appeals w) = Some a" "ap_status a \<noteq> Ap_resolved"
    and w': "w' = w\<lparr>mw_appeals := map (\<lambda>r. if ap_id r = i then r\<lparr>ap_status := Ap_acknowledged\<rparr> else r) (mw_appeals w)\<rparr>"
    by (auto simp: acknowledgePredictionMarketAppeal_def split: option.splits if_splits)
  have distinct: "distinct (map ap_id (mw_appeals w))"
    using marketsOkD(10) [OF ok] by (simp add: appealIds_def distinct_map)
  show ?thesis
  proof (rule appeals_keep_markets [OF ok])
    fix x
    assume x: "x \<in> set (mw_appeals w')" "ap_status x \<noteq> Ap_resolved"
    then obtain x0 where x0: "x0 \<in> set (mw_appeals w)" "ap_marketId x = ap_marketId x0"
      "ap_id x0 = i \<or> ap_status x0 \<noteq> Ap_resolved" by (auto simp: w')
    have "ap_id x0 = i \<Longrightarrow> x0 = a"
      using find_SomeD [OF a(1)] distinct_same_id [OF distinct x0(1)] by auto
    with x0 a(2) marketsOkD(7) [OF ok x0(1)] show "liveMarket (ap_marketId x) w" by auto
  next
    show "appealIds w'"
      using marketsOkD(10) [OF ok] by (simp add: w' appealIds_def comp_def if_distrib cong: if_cong)
  qed (simp_all add: w')
qed


subsection \<open>The oracle worker\<close>

lemma closes_live: "closes now i res fee w w' \<Longrightarrow> liveMarket j w \<Longrightarrow> j \<noteq> i \<Longrightarrow> liveMarket j w'"
  unfolding closes_def liveMarket_def by force

lemma distinct_concat_short:
  assumes "distinct (map g xs)" and "\<And>x y. y \<in> set (f x) \<Longrightarrow> k y = g x" and "\<And>x. length (f x) \<le> 1"
  shows "distinct (map k (concat (map f xs)))"
  using assms(1)
proof (induction xs)
  case (Cons x xs)
  have "distinct (map k (f x))" using assms(3) [of x] by (cases "f x") auto
  moreover have "k ` set (f x) \<inter> k ` set (concat (map f xs)) = {}"
    using Cons.prems assms(2) by fastforce
  ultimately show ?case using Cons by simp
qed simp

lemma concat_if: "concat (map (\<lambda>b. if P b then [h b] else []) bs) = map h (filter P bs)"
  by (induction bs) auto

lemma short_filter:
  assumes "distinct (map k bs)" and "\<And>b. P b \<Longrightarrow> k b = c"
  shows "length (filter P bs) \<le> 1"
  using assms(1)
proof (induction bs)
  case (Cons b bs)
  show ?case
  proof (cases "P b")
    case True
    with Cons.prems assms(2) have "filter P bs = []" by (auto simp: filter_empty_conv image_iff)
    with True show ?thesis by simp
  next
    case False
    with Cons show ?thesis by simp
  qed
qed simp

lemma oracleRows_live:
  assumes ok: "marketsOk w"
  shows "distinct (map (\<lambda>r. mk_id (fst r)) (oracleRows now limit w))"
    and "\<And>r. r \<in> set (oracleRows now limit w) \<Longrightarrow> liveMarket (mk_id (fst r)) w"
proof -
  let ?P = "\<lambda>m b. ob_marketId b = mk_id m \<and> mk_status m \<in> {Mk_draft, Mk_open, Mk_locked} \<and>
      ob_status b \<in> {Ob_active, Ob_pending, Ob_appealed} \<and>
      (case mk_resolvesAt m of None \<Rightarrow> mk_locksAt m | Some t \<Rightarrow> t) \<le> now"
  define rows where "rows = concat (map (\<lambda>m. map (Pair m) (filter (?P m) (mw_oracles w))) (mw_markets w))"
  have eq: "oracleRows now limit w = take limit (sort_key (\<lambda>(m, b). (case mk_resolvesAt m of None \<Rightarrow> (1 :: nat, 0)
      | Some t \<Rightarrow> (0, t), mk_id m)) rows)"
    by (simp only: oracleRows_def rows_def concat_if)
  have "distinct (map (\<lambda>r. mk_id (fst r)) rows)"
    unfolding rows_def
  proof (rule distinct_concat_short [OF marketsOkD(1) [OF ok]])
    show "mk_id (fst y) = mk_id m" if "y \<in> set (map (Pair m) (filter (?P m) (mw_oracles w)))" for m y
      using that by auto
    show "length (map (Pair m) (filter (?P m) (mw_oracles w))) \<le> 1" for m
      using short_filter [OF marketsOkD(3) [OF ok], of "?P m" "mk_id m"] by simp
  qed
  moreover have "distinct (map k (sort_key h xs)) = distinct (map k xs)"
    for k :: "market \<times> oracle_binding \<Rightarrow> nat" and h :: "market \<times> oracle_binding \<Rightarrow> (nat \<times> int) \<times> nat" and xs
    by (simp add: distinct_map inj_on_def)
  ultimately show "distinct (map (\<lambda>r. mk_id (fst r)) (oracleRows now limit w))"
    unfolding eq take_map [symmetric] by (simp add: distinct_take del: distinct_map)
  show "liveMarket (mk_id (fst r)) w" if "r \<in> set (oracleRows now limit w)" for r
  proof -
    from that have "r \<in> set rows" unfolding eq by (auto dest: in_set_takeD)
    then obtain m b where "r = (m, b)" "m \<in> set (mw_markets w)" "mk_status m \<in> {Mk_draft, Mk_open, Mk_locked}"
      unfolding rows_def by auto
    then show ?thesis unfolding liveMarket_def finished_def by (intro bexI [of _ m]) auto
  qed
qed

text \<open>One row: it returns, it counts one, and it keeps the invariant and the other markets.\<close>

definition counted :: "cycle_summary \<Rightarrow> nat" where
  "counted s = cy_pending s + cy_resolved s + cy_appealed s + cy_failed s"

lemma settle_returns: "marketsOk w \<Longrightarrow> settlePredictionMarket env source i key oi w \<noteq> None"
  using settle_locked [of w i _ env key source oi] settle_fails [of i w env key source oi]
  by (metis option.distinct(1))

lemma oracleFailed_keeps:
  assumes "marketsOk w" and "liveMarket (mk_id m) w"
  shows "marketsOk (oracleFailed now m b e w)"
  unfolding oracleFailed_def
  by (intro queue_keeps_markets oracle_keeps_markets) (use assms in simp_all)

lemma live_appeals [simp]: "liveMarket j (queuePredictionMarketAppeal now i b pr reason w) = liveMarket j w"
  "liveMarket j (oracleFailed now m ob e w) = liveMarket j w"
  "liveMarket j (applyOracleEvaluationStatus now i st t x w) = liveMarket j w"
  by (simp_all add: queuePredictionMarketAppeal_def oracleFailed_def applyOracleEvaluationStatus_def
      liveMarket_def Let_def)

lemma oracleRow_step:
  assumes ok: "marketsOk w" and live: "liveMarket (mk_id (fst row)) w"
  shows "\<exists>s' w'. oracleRow env evaluate row (s, w) = Some (s', w') \<and> marketsOk w' \<and>
    counted s' = Suc (counted s) \<and> cy_scanned s' = cy_scanned s \<and>
    (\<forall>j. liveMarket j w \<longrightarrow> j \<noteq> mk_id (fst row) \<longrightarrow> liveMarket j w')"
proof -
  obtain m b where row: "row = (m, b)" by (cases row)
  show ?thesis
  proof (cases "evaluate (ob_id b)")
    case (Eval_resolved key oi)
    obtain r where r: "settlePredictionMarket env Source_oracle_worker (mk_id m) key oi w = Some r"
      using settle_returns [OF ok] by fastforce
    show ?thesis
    proof (cases r)
      case (Inl e)
      with r Eval_resolved row live oracleFailed_keeps [OF ok, of m] show ?thesis
        by (simp add: oracleRow_def Let_def counted_def)
    next
      case (Inr x)
      obtain ns w' where x: "x = (ns, w')" by (cases x)
      with r Inr have ran: "settlePredictionMarket env Source_oracle_worker (mk_id m) key oi w = Some (Inr (ns, w'))"
        by simp
      obtain m' :: market where "closes (mv_now env) (mk_id m) (marketSplit (mk_id m) key (mk_vigBps m') w)
          (marketFee (mk_id m) key (mk_vigBps m') w) w w'"
        by (rule settle_obtain [OF ran ok]) blast
      with settle_keeps_markets [OF ran ok] ran Eval_resolved row closes_live show ?thesis
        by (auto simp: oracleRow_def Let_def counted_def)
    qed
  next
    case (Eval_pending st t)
    with row oracle_keeps_markets [OF ok] show ?thesis
      by (auto simp: oracleRow_def Let_def counted_def) (simp add: applyOracleEvaluationStatus_def)
  next
    case (Eval_appeal st t reason e)
    have "marketsOk (applyOracleEvaluationStatus (mv_now env) (ob_id b) st t (Some e) w)"
      unfolding applyOracleEvaluationStatus_def by (rule oracle_keeps_markets [OF ok]) simp
    with Eval_appeal row live queue_keeps_markets show ?thesis
      by (auto simp: oracleRow_def Let_def counted_def)
  next
    case (Eval_failed e)
    with row live oracleFailed_keeps [OF ok, of m] show ?thesis
      by (simp add: oracleRow_def Let_def counted_def)
  qed
qed

lemma oracleLoop_runs:
  assumes "marketsOk w" and "distinct (map (\<lambda>r. mk_id (fst r)) rows)"
    and "\<And>r. r \<in> set rows \<Longrightarrow> liveMarket (mk_id (fst r)) w"
  shows "\<exists>s' w'. oracleRowLoop env evaluate rows (s, w) = Some (s', w') \<and> marketsOk w' \<and>
    counted s' = counted s + length rows \<and> cy_scanned s' = cy_scanned s"
  using assms
proof (induction rows arbitrary: s w)
  case (Cons row rows)
  obtain s1 w1 where one: "oracleRow env evaluate row (s, w) = Some (s1, w1)" "marketsOk w1"
    "counted s1 = Suc (counted s)" "cy_scanned s1 = cy_scanned s"
    "\<And>j. liveMarket j w \<Longrightarrow> j \<noteq> mk_id (fst row) \<Longrightarrow> liveMarket j w1"
    using oracleRow_step [OF Cons.prems(1), of row env evaluate s] Cons.prems(3) by auto
  have "liveMarket (mk_id (fst r)) w1" if "r \<in> set rows" for r
    using Cons.prems(2,3) that by (intro one(5)) (auto simp: rev_image_eqI)
  with Cons.IH [of w1 s1] Cons.prems(2) one show ?case by auto
qed simp

lemma cycle_runs:
  assumes ok: "marketsOk w"
  shows "\<exists>s' w'. runPredictionMarketOracleSettlementCycle env limit evaluate w = Some (s', w') \<and> marketsOk w' \<and>
    counted s' = cy_scanned s' \<and> cy_scanned s' \<le> limit"
proof -
  let ?rows = "oracleRows (mv_now env) limit w"
  note rows = oracleRows_live [OF ok, where now = "mv_now env" and limit = limit]
  have "length ?rows \<le> limit" by (simp add: oracleRows_def)
  moreover obtain s' w' where "oracleRowLoop env evaluate ?rows
      (\<lparr>cy_scanned = length ?rows, cy_pending = 0, cy_resolved = 0, cy_appealed = 0, cy_failed = 0\<rparr>, w) = Some (s', w')"
    "marketsOk w'" "counted s' = length ?rows" "cy_scanned s' = length ?rows"
    using oracleLoop_runs [OF ok rows, of env evaluate "\<lparr>cy_scanned = length ?rows, cy_pending = 0, cy_resolved = 0, cy_appealed = 0, cy_failed = 0\<rparr>"]
    by (auto simp: counted_def)
  ultimately show ?thesis by (simp add: runPredictionMarketOracleSettlementCycle_def Let_def)
qed


subsection \<open>Runs\<close>

datatype market_command =
    Mc_create market_env nat market_request
  | Mc_place market_env nat nat string "rat option"
  | Mc_sell market_env nat nat nat
  | Mc_settle market_env nat string oracle_input
  | Mc_cancel market_env nat "oracle_input option"
  | Mc_acknowledge nat
  | Mc_cycle market_env nat "nat \<Rightarrow> oracle_evaluation"
  | Mc_asset asset_command

text \<open>A request that fails leaves the world as it was.\<close>

fun doMarket :: "market_command \<Rightarrow> market_world \<Rightarrow> market_world" where
  "doMarket (Mc_create env j q) w =
     (case createPredictionMarket env j q w of Inl _ \<Rightarrow> w | Inr (_, w') \<Rightarrow> w')"
| "doMarket (Mc_place env u i k v) w =
     (case placePredictionPosition env u i k v w of Inl _ \<Rightarrow> w | Inr (_, w') \<Rightarrow> w')"
| "doMarket (Mc_sell env u i j) w =
     (case sellPredictionPosition env u i j w of Inl _ \<Rightarrow> w | Inr w' \<Rightarrow> w')"
| "doMarket (Mc_settle env i k oi) w =
     (case settlePredictionMarket env Source_admin i k oi w of Some (Inr (_, w')) \<Rightarrow> w' | _ \<Rightarrow> w)"
| "doMarket (Mc_cancel env i oi) w =
     (case cancelPredictionMarket env i oi w of Inl _ \<Rightarrow> w | Inr w' \<Rightarrow> w')"
| "doMarket (Mc_acknowledge i) w =
     (case acknowledgePredictionMarketAppeal i w of Inl _ \<Rightarrow> w | Inr w' \<Rightarrow> w')"
| "doMarket (Mc_cycle env limit evaluate) w =
     (case runPredictionMarketOracleSettlementCycle env limit evaluate w of None \<Rightarrow> w | Some (_, w') \<Rightarrow> w')"
| "doMarket (Mc_asset c) w =
     (case performAsset c (mw_economy w) of Inl _ \<Rightarrow> w | Inr (_, ec) \<Rightarrow> w\<lparr>mw_economy := ec\<rparr>)"

fun allowed :: "market_command \<Rightarrow> market_world \<Rightarrow> bool" where
  "allowed (Mc_create env j q) w = (mv_newId env \<notin> mk_id ` set (mw_markets w) \<and> validRequest q)"
| "allowed (Mc_place env u i k v) w = (mv_newId env \<notin> po_id ` set (mw_positions w))"
| "allowed (Mc_asset c) w =
     (\<forall>u \<in> po_userId ` set (mw_positions w).
        openStakes u w \<le> locked_balance (balanceOf u B_LUCK (mw_economy (doMarket (Mc_asset c) w))))"
| "allowed _ w = True"

text \<open>What is not allowed does not happen.\<close>

fun runMarkets :: "market_command list \<Rightarrow> market_world \<Rightarrow> market_world" where
  "runMarkets [] w = w"
| "runMarkets (c # cs) w = runMarkets cs (if allowed c w then doMarket c w else w)"

definition emptyMarkets :: market_world where
  "emptyMarkets = \<lparr>mw_markets = [], mw_positions = [], mw_oracles = [], mw_appeals = [],
     mw_economy = emptyEconomy, mw_houseBankroll = 0, mw_houseLines = []\<rparr>"

lemma openStakes_none: "u \<notin> po_userId ` set (mw_positions w) \<Longrightarrow> openStakes u w = 0"
  unfolding openStakes_def by (rule sum_list_zeroI) auto

lemma economy_keeps_markets:
  assumes ok: "marketsOk w" and "economyOk ec"
    and "\<And>u. u \<in> po_userId ` set (mw_positions w) \<Longrightarrow> openStakes u w \<le> locked_balance (balanceOf u B_LUCK ec)"
  shows "marketsOk (w\<lparr>mw_economy := ec\<rparr>)"
proof -
  have "openStakes u w \<le> locked_balance (balanceOf u B_LUCK ec)" for u
  proof (cases "u \<in> po_userId ` set (mw_positions w)")
    case False
    have "0 \<le> locked_balance (balanceOf u B_LUCK ec)"
      using assms(2) by (simp add: economyOk_def accountOk_def)
    with openStakes_none [OF False] show ?thesis by simp
  qed (rule assms(3))
  with marketsOkD [OF ok] assms(2) show ?thesis
    by (intro marketsOkI) (auto simp: marketOk_def appealIds_def)
qed

lemma step_keeps_markets:
  assumes ok: "marketsOk w" and "allowed c w"
  shows "marketsOk (doMarket c w)"
proof (cases c)
  case (Mc_create env j q)
  with assms create_keeps_markets show ?thesis by (auto split: sum.split)
next
  case (Mc_place env u i k v)
  with assms place_keeps_markets show ?thesis by (auto split: sum.split)
next
  case (Mc_sell env u i j)
  with assms sell_keeps_markets show ?thesis by (auto split: sum.split)
next
  case (Mc_settle env i k oi)
  with assms settle_keeps_markets show ?thesis by (auto split: sum.split option.split)
next
  case (Mc_cancel env i oi)
  with assms cancel_keeps_markets show ?thesis by (auto split: sum.split)
next
  case (Mc_acknowledge i)
  with assms acknowledge_keeps_markets show ?thesis by (auto split: sum.split)
next
  case (Mc_cycle env limit evaluate)
  with cycle_runs [OF ok, of env limit evaluate] show ?thesis by auto
next
  case (Mc_asset a)
  with assms show ?thesis
    by (auto split: sum.split intro!: economy_keeps_markets dest: perform_keeps_economy marketsOkD(9))
qed

lemma marketsOk_empty: "marketsOk emptyMarkets"
  using economyOk_empty
  by (simp add: marketsOk_def emptyMarkets_def openStakes_def appealIds_def emptyEconomy_def
      balanceOf_def zeroBalance_def)

lemma runMarkets_ok: "marketsOk w \<Longrightarrow> marketsOk (runMarkets cs w)"
  by (induction cs arbitrary: w) (simp_all add: step_keeps_markets)

lemma reachable_ok: "marketsOk (runMarkets cs emptyMarkets)"
  by (rule runMarkets_ok [OF marketsOk_empty])

end
