(* ===== verification/Market_Money.thy ===== *)
theory Market_Money
  imports Market_Run
begin

text \<open>
  Two things that hold from one step of the prediction markets to the next: no money is made
  or lost between the users and the house, and a finished market is left alone.
\<close>

subsection \<open>Money\<close>

text \<open>What some users hold in B luck, available and locked.\<close>

definition held :: "nat list \<Rightarrow> market_world \<Rightarrow> cents" where
  "held us w = (\<Sum>u\<leftarrow>us. available_balance (balanceOf u B_LUCK (mw_economy w)) +
     locked_balance (balanceOf u B_LUCK (mw_economy w)))"

definition owners :: "market_world \<Rightarrow> nat set" where
  "owners w = po_userId ` set (mw_positions w)"

lemma held_moved:
  assumes "movedBy c r (mw_economy w) (mw_economy w')"
  shows "held us w' = held us w + (\<Sum>u\<leftarrow>us. c u) - (\<Sum>u\<leftarrow>us. r u)"
proof -
  have "held us w' = (\<Sum>u\<leftarrow>us. (available_balance (balanceOf u B_LUCK (mw_economy w)) +
      locked_balance (balanceOf u B_LUCK (mw_economy w))) + c u - r u)"
    unfolding held_def using assms by (intro sum_list_congI) (simp add: movedBy_def)
  then show ?thesis by (simp add: held_def sum_list_addf sum_list_subtractf)
qed

text \<open>A closing moves the open stakes of the market to the users and the house.\<close>

lemma closes_money:
  assumes closes: "closes now i res fee w w'" and us: "distinct us" "owners w \<subseteq> set us"
    and total: "(\<Sum>p\<leftarrow>openPositionsOf i w. sr_payoutAmount (res p)) + fee = (\<Sum>p\<leftarrow>openPositionsOf i w. po_stakeAmount p)"
  shows "held us w' + mw_houseBankroll w' = held us w + mw_houseBankroll w" and "owners w' = owners w"
proof -
  have "(\<Sum>u\<leftarrow>us. sumOpen i g w u) = (\<Sum>p\<leftarrow>openPositionsOf i w. g p)" for g :: "position \<Rightarrow> int"
    using us by (intro sum_users) (auto simp: owners_def set_openPositionsOf)
  then show "held us w' + mw_houseBankroll w' = held us w + mw_houseBankroll w"
    using closes total held_moved [of "sumOpen i (\<lambda>p. sr_payoutAmount (res p)) w" "sumOpen i po_stakeAmount w" w w' us]
    by (simp add: closes_def)
  have "map po_userId (mw_positions w') = map po_userId (mw_positions w)"
    using closes by (auto simp: closes_def closePositions_def)
  then show "owners w' = owners w" unfolding owners_def by (metis list.set_map)
qed

lemma settle_money:
  assumes "settlePredictionMarket env source i key oi w = Some (Inr (ns, w'))" and ok: "marketsOk w"
    and "distinct us" and "owners w \<subseteq> set us"
  shows "held us w' + mw_houseBankroll w' = held us w + mw_houseBankroll w \<and> owners w' = owners w"
  using assms(1,2)
proof (rule settle_obtain)
  fix m :: market
  assume pays: "marketPays i key (mk_vigBps m) w"
    and "closes (mv_now env) i (marketSplit i key (mk_vigBps m) w) (marketFee i key (mk_vigBps m) w) w w'"
  from closes_money [OF this(2) assms(3,4) split_total [OF ok pays]] show ?thesis by simp
qed

lemma place_money:
  assumes "placePredictionPosition env u i k v w = Inr (p, w')"
  shows "held us w' + mw_houseBankroll w' = held us w + mw_houseBankroll w"
proof -
  from assms obtain n r ec where "lockAsset (stakePayload u i n ''prediction_market_stake'') (mw_economy w) = Inr (r, ec)"
    "mw_economy w' = ec" "mw_houseBankroll w' = mw_houseBankroll w"
    by (auto simp: placePredictionPosition_def bind_res_Inr_iff Let_def split: option.splits if_splits)
  with stake_locked held_moved [of "\<lambda>x. if x = u then - n else 0" "\<lambda>x. if x = u then - n else 0" w w' us]
  show ?thesis by auto
qed

lemma sell_money:
  assumes "sellPredictionPosition env u i j w = Inr w'"
  shows "held us w' + mw_houseBankroll w' = held us w + mw_houseBankroll w"
  using assms
proof (rule sell_obtain)
  fix m p r ec
  assume "unlockAsset (stakePayload u i (po_stakeAmount p) ''prediction_market_sell'') (mw_economy w) = Inr (r, ec)"
    and "w' = updateMarket i (\<lambda>r. r\<lparr>mk_totalPoolAmount := mk_totalPoolAmount m - po_stakeAmount p\<rparr>)
       (updatePosition j (\<lambda>r. r\<lparr>po_payoutAmount := po_stakeAmount p, po_status := Pos_sold,
          po_settledAt := Some (mv_now env)\<rparr>) (w\<lparr>mw_economy := ec\<rparr>))"
  with stake_unlocked held_moved [of "\<lambda>x. if x = u then po_stakeAmount p else 0"
      "\<lambda>x. if x = u then po_stakeAmount p else 0" w w' us] show ?thesis by auto
qed

lemma appeals_money [simp]:
  "held us (queuePredictionMarketAppeal now i b pr reason w) = held us w"
  "owners (queuePredictionMarketAppeal now i b pr reason w) = owners w"
  "mw_houseBankroll (queuePredictionMarketAppeal now i b pr reason w) = mw_houseBankroll w"
  "held us (updateOracle j h w) = held us w" "owners (updateOracle j h w) = owners w"
  by (simp_all add: queuePredictionMarketAppeal_def Let_def held_def owners_def)

lemma oracleRow_money:
  assumes "oracleRow env evaluate row (s, w) = Some (s', w')" and ok: "marketsOk w"
    and us: "distinct us" "owners w \<subseteq> set us"
  shows "held us w' + mw_houseBankroll w' = held us w + mw_houseBankroll w \<and> owners w' = owners w"
proof -
  obtain m b where row: "row = (m, b)" by (cases row)
  show ?thesis
  proof (cases "evaluate (ob_id b)")
    case (Eval_resolved key oi)
    with assms(1) row obtain r where
      r: "settlePredictionMarket env Source_oracle_worker (mk_id m) key oi w = Some r"
      by (auto simp: oracleRow_def Let_def)
    with assms(1) row Eval_resolved settle_money [OF _ ok us] show ?thesis
      by (cases r) (auto simp: oracleRow_def Let_def oracleFailed_def)
  qed (use assms(1) row in \<open>auto simp: oracleRow_def Let_def oracleFailed_def applyOracleEvaluationStatus_def\<close>)
qed

lemma oracleLoop_money:
  assumes "oracleRowLoop env evaluate rows (s, w) = Some (s', w')" and "marketsOk w"
    and "distinct (map (\<lambda>r. mk_id (fst r)) rows)" and "\<And>r. r \<in> set rows \<Longrightarrow> liveMarket (mk_id (fst r)) w"
    and us: "distinct us" "owners w \<subseteq> set us"
  shows "held us w' + mw_houseBankroll w' = held us w + mw_houseBankroll w"
  using assms(1-4,6)
proof (induction rows arbitrary: s w)
  case (Cons row rows)
  obtain s1 w1 where one: "oracleRow env evaluate row (s, w) = Some (s1, w1)" "marketsOk w1"
    "\<And>j. liveMarket j w \<Longrightarrow> j \<noteq> mk_id (fst row) \<Longrightarrow> liveMarket j w1"
    using oracleRow_step [OF Cons.prems(2), of row env evaluate s] Cons.prems(4) by auto
  note money = oracleRow_money [OF one(1) Cons.prems(2) us(1) Cons.prems(5)]
  have "liveMarket (mk_id (fst r)) w1" if "r \<in> set rows" for r
    using Cons.prems(3,4) that by (intro one(3)) (auto simp: rev_image_eqI)
  with Cons.IH [of s1 w1] Cons.prems(1,3,5) one money show ?case by auto
qed simp

lemma step_money:
  assumes ok: "marketsOk w" and "\<And>a. c \<noteq> Mc_asset a" and us: "distinct us" "owners w \<subseteq> set us"
  shows "held us (doMarket c w) + mw_houseBankroll (doMarket c w) = held us w + mw_houseBankroll w"
proof (cases c)
  case (Mc_create env j q)
  then show ?thesis
    by (auto simp: createPredictionMarket_def Let_def bind_res_def held_def split: sum.splits if_splits)
next
  case (Mc_place env u i k v)
  then show ?thesis using place_money by (auto split: sum.split)
next
  case (Mc_sell env u i j)
  then show ?thesis using sell_money by (auto split: sum.split)
next
  case (Mc_settle env i k oi)
  then show ?thesis using settle_money [OF _ ok us] by (auto split: sum.split option.split)
next
  case (Mc_cancel env i oi)
  have "held us w' + mw_houseBankroll w' = held us w + mw_houseBankroll w"
    if ran: "cancelPredictionMarket env i oi w = Inr w'" for w'
    using ran ok
  proof (rule cancel_obtain)
    assume "closes (mv_now env) i refundResult 0 w w'"
    from closes_money(1) [OF this us] show ?thesis by (simp add: refundResult_def)
  qed
  with Mc_cancel show ?thesis by (auto split: sum.split)
next
  case (Mc_acknowledge i)
  then show ?thesis
    by (auto simp: acknowledgePredictionMarketAppeal_def held_def split: sum.splits option.splits if_splits)
next
  case (Mc_cycle env limit evaluate)
  note rows = oracleRows_live [OF ok, where now = "mv_now env" and limit = limit]
  obtain s' w' where ran: "runPredictionMarketOracleSettlementCycle env limit evaluate w = Some (s', w')"
    using cycle_runs [OF ok] by blast
  then show ?thesis
    using oracleLoop_money [OF _ ok rows us] Mc_cycle
    by (simp add: runPredictionMarketOracleSettlementCycle_def Let_def)
qed (use assms(2) in blast)


subsection \<open>Finished markets\<close>

text \<open>Everything that is stored of a market: its row and its positions.\<close>

definition untouched :: "nat \<Rightarrow> market_world \<Rightarrow> market_world \<Rightarrow> bool" where
  "untouched i w w' =
     (filter (\<lambda>m. mk_id m = i) (mw_markets w') = filter (\<lambda>m. mk_id m = i) (mw_markets w) \<and>
      filter (\<lambda>p. po_marketId p = i) (mw_positions w') = filter (\<lambda>p. po_marketId p = i) (mw_positions w))"

lemma untouched_refl [simp]: "untouched i w w"
  by (simp add: untouched_def)

lemma untouched_trans: "untouched i a b \<Longrightarrow> untouched i b c \<Longrightarrow> untouched i a c"
  by (simp add: untouched_def)

lemma filter_map_other:
  "(\<And>x. x \<in> set xs \<Longrightarrow> g x \<noteq> x \<Longrightarrow> \<not> P x \<and> \<not> P (g x)) \<Longrightarrow> filter P (map g xs) = filter P xs"
  by (induction xs) fastforce+

lemma closes_untouched:
  assumes "closes now i res fee w w'" and "j \<noteq> i"
  shows "untouched j w w'"
proof -
  from assms(1) obtain F where
    "mw_positions w' = closePositions i (\<lambda>q. q\<lparr>po_payoutAmount := sr_payoutAmount (res q),
       po_status := sr_status (res q), po_settledAt := Some now\<rparr>) (mw_positions w)"
    "mw_markets w' = map (\<lambda>m. if mk_id m = i then F m else m) (mw_markets w)" "\<And>m. mk_id (F m) = mk_id m"
    by (auto simp: closes_def)
  with assms(2) show ?thesis
    by (auto simp: untouched_def closePositions_def intro!: filter_map_other split: if_splits)
qed

lemma distinct_finished:
  "marketsOk w \<Longrightarrow> m \<in> set (mw_markets w) \<Longrightarrow> finished m \<Longrightarrow> \<not> liveMarket (mk_id m) w"
  using distinct_same_id [OF marketsOkD(1)] unfolding liveMarket_def by metis

lemma locked_live:
  "m \<in> set (mw_markets w) \<Longrightarrow> mk_id m = i \<Longrightarrow> getEffectivePredictionMarketStatus m t \<in> {Mk_locked, Mk_open} \<Longrightarrow>
     liveMarket i w"
  by (auto simp: liveMarket_def getEffectivePredictionMarketStatus_def finished_def split: if_splits)

lemma settle_untouched:
  assumes "settlePredictionMarket env source i key oi w = Some (Inr (ns, w'))" and ok: "marketsOk w"
    and "\<not> liveMarket j w"
  shows "untouched j w w'"
  using assms(1,2)
proof (rule settle_obtain)
  fix m :: market
  assume m: "m \<in> set (mw_markets w)" "mk_id m = i" "getEffectivePredictionMarketStatus m (mv_now env) = Mk_locked"
    and closes: "closes (mv_now env) i (marketSplit i key (mk_vigBps m) w) (marketFee i key (mk_vigBps m) w) w w'"
  have "liveMarket i w" by (rule locked_live [OF m(1,2), of "mv_now env"]) (simp add: m(3))
  with assms(3) have "j \<noteq> i" by auto
  with closes_untouched [OF closes] show ?thesis by simp
qed

lemma appeals_untouched [simp]:
  "untouched j w (queuePredictionMarketAppeal now i b pr reason v) = untouched j w v"
  "untouched j w (updateOracle k h v) = untouched j w v"
  "untouched j w (oracleFailed now m ob e v) = untouched j w v"
  "untouched j w (applyOracleEvaluationStatus now k st t x v) = untouched j w v"
  by (simp_all add: queuePredictionMarketAppeal_def oracleFailed_def applyOracleEvaluationStatus_def
      Let_def untouched_def)

lemma oracleRow_untouched:
  assumes "oracleRow env evaluate row (s, w) = Some (s', w')" and ok: "marketsOk w" and "\<not> liveMarket j w"
  shows "untouched j w w'"
proof -
  obtain m b where row: "row = (m, b)" by (cases row)
  show ?thesis
  proof (cases "evaluate (ob_id b)")
    case (Eval_resolved key oi)
    with assms(1) row obtain r where
      r: "settlePredictionMarket env Source_oracle_worker (mk_id m) key oi w = Some r"
      by (auto simp: oracleRow_def Let_def)
    with assms(1) row Eval_resolved settle_untouched [OF _ ok assms(3)] show ?thesis
      by (cases r) (auto simp: oracleRow_def Let_def)
  qed (use assms(1) row in \<open>auto simp: oracleRow_def Let_def\<close>)
qed

lemma untouched_finished:
  assumes "untouched (mk_id m) w w'" and "marketsOk w'" and "m \<in> set (mw_markets w)" and "finished m"
  shows "m \<in> set (mw_markets w')" and "\<not> liveMarket (mk_id m) w'"
proof -
  have "m \<in> set (filter (\<lambda>x. mk_id x = mk_id m) (mw_markets w))" using assms(3) by simp
  with assms(1) have "m \<in> set (filter (\<lambda>x. mk_id x = mk_id m) (mw_markets w'))"
    by (simp only: untouched_def)
  then show m': "m \<in> set (mw_markets w')" by simp
  show "\<not> liveMarket (mk_id m) w'" by (rule distinct_finished [OF assms(2) m' assms(4)])
qed

lemma oracleLoop_untouched:
  assumes "oracleRowLoop env evaluate rows (s, w) = Some (s', w')" and "marketsOk w"
    and "distinct (map (\<lambda>r. mk_id (fst r)) rows)" and "\<And>r. r \<in> set rows \<Longrightarrow> liveMarket (mk_id (fst r)) w"
    and m: "m \<in> set (mw_markets w)" "finished m"
  shows "untouched (mk_id m) w w'"
  using assms
proof (induction rows arbitrary: s w)
  case (Cons row rows)
  obtain s1 w1 where one: "oracleRow env evaluate row (s, w) = Some (s1, w1)" "marketsOk w1"
    "\<And>j. liveMarket j w \<Longrightarrow> j \<noteq> mk_id (fst row) \<Longrightarrow> liveMarket j w1"
    using oracleRow_step [OF Cons.prems(2), of row env evaluate s] Cons.prems(4) by auto
  have same: "untouched (mk_id m) w w1"
    by (rule oracleRow_untouched [OF one(1) Cons.prems(2) distinct_finished [OF Cons.prems(2,5,6)]])
  have "liveMarket (mk_id (fst r)) w1" if "r \<in> set rows" for r
    using Cons.prems(3,4) that by (intro one(3)) (auto simp: rev_image_eqI)
  with Cons.IH [of s1 w1] Cons.prems(1,3) one untouched_finished(1) [OF same one(2) Cons.prems(5,6)] Cons.prems(6)
  have "untouched (mk_id m) w1 w'" by simp
  with same show ?case by (rule untouched_trans)
qed simp

lemma step_untouched:
  assumes ok: "marketsOk w" and "allowed c w" and m: "m \<in> set (mw_markets w)" "finished m"
  shows "untouched (mk_id m) w (doMarket c w)"
proof -
  note dead = distinct_finished [OF ok m]
  show ?thesis
  proof (cases c)
    case (Mc_create env j q)
    then show ?thesis using assms(2) m(1)
      by (auto simp: createPredictionMarket_def Let_def bind_res_def untouched_def split: sum.splits if_splits)
  next
    case (Mc_place env u i k v)
    have "untouched (mk_id m) w w'" if ran: "placePredictionPosition env u i k v w = Inr (p, w')" for p w'
    proof -
      from ran obtain m' where "m' \<in> set (mw_markets w)" "mk_id m' = i"
        "getEffectivePredictionMarketStatus m' (mv_now env) = Mk_open"
        by (auto simp: placePredictionPosition_def split: option.splits if_splits dest!: lockPredictionMarket_Some)
      with locked_live [of m' w i "mv_now env"] dead have "mk_id m \<noteq> i" by auto
      with ran show ?thesis
        by (auto simp: placePredictionPosition_def bind_res_Inr_iff Let_def untouched_def
            split: option.splits if_splits intro!: filter_map_other)
    qed
    with Mc_place show ?thesis by (auto split: sum.split)
  next
    case (Mc_sell env u i j)
    have "untouched (mk_id m) w w'" if ran: "sellPredictionPosition env u i j w = Inr w'" for w'
      using ran
    proof (rule sell_obtain)
      fix m' p r ec
      assume m': "m' \<in> set (mw_markets w)" "mk_id m' = i"
          "getEffectivePredictionMarketStatus m' (mv_now env) = Mk_open"
        and p: "p \<in> set (mw_positions w)" "po_id p = j" "po_marketId p = i"
        and w': "w' = updateMarket i (\<lambda>r. r\<lparr>mk_totalPoolAmount := mk_totalPoolAmount m' - po_stakeAmount p\<rparr>)
         (updatePosition j (\<lambda>r. r\<lparr>po_payoutAmount := po_stakeAmount p, po_status := Pos_sold,
            po_settledAt := Some (mv_now env)\<rparr>) (w\<lparr>mw_economy := ec\<rparr>))"
      from m' locked_live [of m' w i "mv_now env"] dead have "mk_id m \<noteq> i" by auto
      moreover have "po_marketId q = i" if "q \<in> set (mw_positions w)" "po_id q = j" for q
        using distinct_same_id [OF marketsOkD(2) [OF ok] that(1) p(1)] that(2) p by simp
      ultimately show ?thesis
        by (auto simp: w' untouched_def intro!: filter_map_other split: if_splits)
    qed
    with Mc_sell show ?thesis by (auto split: sum.split)
  next
    case (Mc_settle env i k oi)
    then show ?thesis using settle_untouched [OF _ ok dead] by (auto split: sum.split option.split)
  next
    case (Mc_cancel env i oi)
    have "untouched (mk_id m) w w'" if ran: "cancelPredictionMarket env i oi w = Inr w'" for w'
      using ran ok
    proof (rule cancel_obtain)
      fix m'
      assume "m' \<in> set (mw_markets w)" "mk_id m' = i" "\<not> finished m'"
        and closes: "closes (mv_now env) i refundResult 0 w w'"
      with dead have "mk_id m \<noteq> i" by (auto simp: liveMarket_def)
      with closes_untouched [OF closes] show ?thesis by simp
    qed
    with Mc_cancel show ?thesis by (auto split: sum.split)
  next
    case (Mc_acknowledge i)
    then show ?thesis
      by (auto simp: acknowledgePredictionMarketAppeal_def untouched_def
          split: sum.splits option.splits if_splits)
  next
    case (Mc_cycle env limit evaluate)
    note rows = oracleRows_live [OF ok, where now = "mv_now env" and limit = limit]
    obtain s' w' where "runPredictionMarketOracleSettlementCycle env limit evaluate w = Some (s', w')"
      using cycle_runs [OF ok] by blast
    then show ?thesis
      using oracleLoop_untouched [OF _ ok rows m] Mc_cycle
      by (simp add: runPredictionMarketOracleSettlementCycle_def Let_def)
  next
    case (Mc_asset a)
    then show ?thesis by (auto simp: untouched_def split: sum.split)
  qed
qed

lemma run_untouched:
  "marketsOk w \<Longrightarrow> m \<in> set (mw_markets w) \<Longrightarrow> finished m \<Longrightarrow> untouched (mk_id m) w (runMarkets cs w)"
proof (induction cs arbitrary: w)
  case (Cons c cs)
  show ?case
  proof (cases "allowed c w")
    case True
    note same = step_untouched [OF Cons.prems(1) True Cons.prems(2,3)]
    note ok = step_keeps_markets [OF Cons.prems(1) True]
    from Cons.IH [OF ok untouched_finished(1) [OF same ok Cons.prems(2,3)] Cons.prems(3)] same True
    show ?thesis by (auto intro: untouched_trans)
  qed (use Cons in simp)
qed simp

end
