(* ===== verification/Market_Safety.thy ===== *)
theory Market_Safety
  imports Market_Money
begin

text \<open>
  The results on prediction markets: how a pool is split, what holds of the database in every
  run, that no money is made or lost, that open positions can always be closed, when a market
  can be settled, and that a finished market stays as it is.
\<close>

subsection \<open>The split of a pool\<close>

lemma zip_map_mem: "(x, y) \<in> set (zip xs (map f xs)) \<longleftrightarrow> x \<in> set xs \<and> y = f x"
  by (auto simp: zip_map2 zip_same)

lemma resultOf_cases:
  "sr_id (shareResult ps w vig p) = sp_id p"
  "sp_outcomeKey p = w \<Longrightarrow> sr_status (shareResult ps w vig p) = Pos_won"
  "sp_outcomeKey p \<noteq> w \<Longrightarrow> sr_status (shareResult ps w vig p) = Pos_lost \<and> sr_payoutAmount (shareResult ps w vig p) = 0"
  by (simp_all add: shareResult_def)

text \<open>
  C26. The split of a pool always returns, for positions with different ids and positive
  stakes and a fee of at most all.  It fails only by its own check on the rounding, and never
  when less than ten million is at stake.  Payouts and fee add up to the stakes, to the cent.
  When nobody staked on the winning outcome everybody gets the stake back and there is no fee.
  Otherwise the fee is rounded down and losers get nothing, and when less than ten million is
  at stake every winner gets less than a cent more or less than the exact share of the pool,
  and of two winners the one with the larger stake gets no less.
\<close>

theorem pool_split_is_exact_and_fair:
  assumes "distinct (map sp_id ps)" and "\<And>p. p \<in> set ps \<Longrightarrow> 0 < sp_stakeAmount p"
    and "0 \<le> vig" and "vig \<le> 10000"
  shows "\<exists>r. resolvePariMutuelSettlement ps key vig = Some r \<and>
    (case r of
       Inl e \<Rightarrow> e = InternalInvariant ''Prediction market payout rounding failed.'' \<and> 10 ^ 9 \<le> poolOf ps
     | Inr s \<Rightarrow>
        (let rs = sm_positionResults s; fee = sm_feeAmount s; total = poolOf ps;
             winningPool = poolOf (filter (\<lambda>p. sp_outcomeKey p = key) ps)
         in map sr_id rs = map sp_id ps \<and> (\<Sum>r\<leftarrow>rs. sr_payoutAmount r) + fee = total \<and>
            (if \<forall>p \<in> set ps. sp_outcomeKey p \<noteq> key
             then fee = 0 \<and> map (\<lambda>r. (sr_payoutAmount r, sr_status r)) rs =
                    map (\<lambda>p. (sp_stakeAmount p, Pos_refunded)) ps
             else fee = total * vig div 10000 \<and>
               (\<forall>(p, r) \<in> set (zip ps rs).
                  if sp_outcomeKey p = key
                  then sr_status r = Pos_won \<and>
                    (total < 10 ^ 9 \<longrightarrow>
                       \<bar>sr_payoutAmount r * winningPool - sp_stakeAmount p * (total - fee)\<bar> < winningPool)
                  else sr_status r = Pos_lost \<and> sr_payoutAmount r = 0) \<and>
               (total < 10 ^ 9 \<longrightarrow> (\<forall>(p, r) \<in> set (zip ps rs). \<forall>(q, r') \<in> set (zip ps rs).
                  sp_outcomeKey p = key \<longrightarrow> sp_outcomeKey q = key \<longrightarrow> sp_stakeAmount p < sp_stakeAmount q \<longrightarrow>
                  sr_payoutAmount r \<le> sr_payoutAmount r')))))"
proof -
  have valid: "validPositions ps" using assms by (simp add: validPositions_def)
  show ?thesis
  proof (cases "winningPositions ps key = []")
    case True
    then have none: "\<forall>p \<in> set ps. sp_outcomeKey p \<noteq> key" by (auto simp: winningPositions_def filter_empty_conv)
    from resolve_refund [OF True assms(3,4)] none show ?thesis
      by (simp add: Let_def comp_def poolOf_def)
  next
    case False
    note ran = resolve_payout [OF valid assms(3,4) False]
    have some: "\<not> (\<forall>p \<in> set ps. sp_outcomeKey p \<noteq> key)"
      using False by (auto simp: winningPositions_def filter_empty_conv)
    have win: "p \<in> set (winningPositions ps key)" if "p \<in> set ps" "sp_outcomeKey p = key" for p
      using that by (simp add: winners_subset)
    have fee: "vigFee (poolOf ps) vig = poolOf ps * vig div 10000"
      using assms(2) by (intro vigFee_div poolOf_nonneg)
    show ?thesis
    proof (cases "leftCents ps key vig < 0")
      case True
      then have "\<not> smallPool ps" using leftCents_bounds(1) [OF valid assms(3,4) _ False] by force
      with True ran show ?thesis by (simp add: smallPool_def)
    next
      case left: False
      have near: "\<bar>sr_payoutAmount (shareResult ps key vig p) * poolOf (winningPositions ps key) -
          sp_stakeAmount p * (poolOf ps - poolOf ps * vig div 10000)\<bar> < poolOf (winningPositions ps key)"
        if "p \<in> set ps" "sp_outcomeKey p = key" "poolOf ps < 10 ^ 9" for p
        using payout_near_share [OF valid assms(3,4) _ win [OF that(1,2)]] that(3) by (simp add: fee smallPool_def)
      have larger: "sr_payoutAmount (shareResult ps key vig p) \<le> sr_payoutAmount (shareResult ps key vig q)"
        if "p \<in> set ps" "q \<in> set ps" "sp_outcomeKey p = key" "sp_outcomeKey q = key"
          "sp_stakeAmount p < sp_stakeAmount q" "poolOf ps < 10 ^ 9" for p q
        by (rule larger_share [OF valid assms(3,4) _ win win]) (use that in \<open>simp_all add: smallPool_def\<close>)
      have sum: "(\<Sum>p\<leftarrow>ps. sr_payoutAmount (shareResult ps key vig p)) = poolOf ps - poolOf ps * vig div 10000"
        using sum_results [OF valid False, of vig] left by (simp add: fee)
      show ?thesis
        unfolding ran
        by (use left some near larger in \<open>auto simp: Let_def zip_map_mem fee resultOf_cases
            winningPositions_def [symmetric] comp_def sum\<close>)
    qed
  qed
qed

definition sampleStakes :: "settlement_position list" where
  "sampleStakes = [\<lparr>sp_id = 1, sp_userId = 1, sp_outcomeKey = ''yes'', sp_stakeAmount = 1000\<rparr>,
     \<lparr>sp_id = 2, sp_userId = 2, sp_outcomeKey = ''yes'', sp_stakeAmount = 2000\<rparr>,
     \<lparr>sp_id = 3, sp_userId = 3, sp_outcomeKey = ''no'', sp_stakeAmount = 501\<rparr>]"

theorem pool_split_is_exact_and_fair_witness:
  "\<exists>s. resolvePariMutuelSettlement sampleStakes ''yes'' 250 = Some (Inr s) \<and>
     map sr_id (sm_positionResults s) = [1, 2, 3]"
proof -
  have valid: "distinct (map sp_id sampleStakes)" "\<And>p. p \<in> set sampleStakes \<Longrightarrow> 0 < sp_stakeAmount p"
    by (auto simp: sampleStakes_def)
  have "0 \<le> (250 :: int)" "(250 :: int) \<le> 10000" by simp_all
  note split = pool_split_is_exact_and_fair [OF valid this, of "''yes''", unfolded Let_def]
  have small: "\<not> 10 ^ 9 \<le> poolOf sampleStakes" by (simp add: poolOf_def sampleStakes_def)
  have "\<exists>s. resolvePariMutuelSettlement sampleStakes ''yes'' 250 = Some (Inr s) \<and>
      map sr_id (sm_positionResults s) = map sp_id sampleStakes"
  proof -
    from split obtain r where r: "resolvePariMutuelSettlement sampleStakes ''yes'' 250 = Some r" by blast
    show ?thesis using split small by (cases r) (simp_all add: r)
  qed
  then show ?thesis by (simp add: sampleStakes_def)
qed

text \<open>
  Which of two winners with equal remainders gets the extra cent is decided by the
  rounding of their shares, not by their ids: here three winners have a third of a cent over,
  the cent goes to the second, because the share of the first has one digit more before the
  point and so one digit less after it.
\<close>

theorem tie_decided_by_rounding:
  "let p = (\<lambda>i k n. \<lparr>sp_id = i, sp_userId = i, sp_outcomeKey = k, sp_stakeAmount = n\<rparr>);
       ps = [p 1 ''yes'' 1000, p 2 ''yes'' 100, p 3 ''yes'' 100, p 4 ''no'' 400]
   in map (\<lambda>q. frac (exactShare ps ''yes'' 0 q)) (take 3 ps) = [1 / 3, 1 / 3, 1 / 3] \<and>
      map_option (map_sum id (\<lambda>s. map sr_payoutAmount (sm_positionResults s)))
        (resolvePariMutuelSettlement ps ''yes'' 0) = Some (Inr [1333, 134, 133, 0])"
proof -
  let ?p = "\<lambda>i k n. \<lparr>sp_id = i, sp_userId = i, sp_outcomeKey = k, sp_stakeAmount = n\<rparr>"
  let ?ps = "[?p 1 ''yes'' 1000, ?p 2 ''yes'' 100, ?p 3 ''yes'' 100, ?p 4 ''no'' 400]"
  have "map (\<lambda>q. frac (exactShare ?ps ''yes'' 0 q)) (take 3 ?ps) = [1 / 3, 1 / 3, 1 / 3]" by code_simp
  moreover have "map_option (map_sum id (\<lambda>s. map sr_payoutAmount (sm_positionResults s)))
      (resolvePariMutuelSettlement ?ps ''yes'' 0) = Some (Inr [1333, 134, 133, 0])" by code_simp
  ultimately show ?thesis by (simp only: Let_def)
qed

subsection \<open>Every run\<close>

text \<open>
  C27. In every run of the prediction markets, with the oracle worker, failed requests and
  the other users of the asset accounts among them: the pool of a market is the sum of the
  stakes that were not sold; an open position lies in a market that is neither resolved nor
  cancelled, and its outcome is one of that market's; a position that was sold or refunded
  paid its stake, a lost one nothing; and the locked balance of every user covers the user's
  open stakes.
\<close>

theorem pools_and_locks_agree_with_positions:
  fixes cs :: "market_command list"
  defines "w \<equiv> runMarkets cs emptyMarkets"
  shows "(\<forall>m \<in> set (mw_markets w). mk_totalPoolAmount m =
       (\<Sum>p\<leftarrow>mw_positions w. if po_marketId p = mk_id m \<and> po_status p \<noteq> Pos_sold then po_stakeAmount p else 0)) \<and>
     (\<forall>p \<in> set (mw_positions w). 0 < po_stakeAmount p \<and>
       (\<exists>m \<in> set (mw_markets w). mk_id m = po_marketId p \<and> po_outcomeKey p \<in> fst ` set (mk_outcomes m) \<and>
          (po_status p = Pos_open \<longrightarrow> mk_status m \<notin> {Mk_resolved, Mk_cancelled})) \<and>
       (po_status p \<in> {Pos_sold, Pos_refunded} \<longrightarrow> po_payoutAmount p = po_stakeAmount p) \<and>
       (po_status p \<in> {Pos_open, Pos_lost} \<longrightarrow> po_payoutAmount p = 0)) \<and>
     (\<forall>u. (\<Sum>p\<leftarrow>mw_positions w. if po_userId p = u \<and> po_status p = Pos_open then po_stakeAmount p else 0)
        \<le> locked_balance (balanceOf u B_LUCK (mw_economy w)))"
proof -
  note D = marketsOkD [OF reachable_ok [of cs], folded w_def]
  show ?thesis
  proof (intro conjI ballI allI)
    show "mk_totalPoolAmount m = (\<Sum>p\<leftarrow>mw_positions w.
        if po_marketId p = mk_id m \<and> po_status p \<noteq> Pos_sold then po_stakeAmount p else 0)"
      if "m \<in> set (mw_markets w)" for m using D(5) [OF that] by (simp add: marketOk_def poolStakes_def)
    show "(\<Sum>p\<leftarrow>mw_positions w. if po_userId p = u \<and> po_status p = Pos_open then po_stakeAmount p else 0)
        \<le> locked_balance (balanceOf u B_LUCK (mw_economy w))" for u
      using D(8) [of u] by (simp add: openStakes_def openPosition_def)
    fix p
    assume p: "p \<in> set (mw_positions w)"
    show "0 < po_stakeAmount p"
      "po_status p \<in> {Pos_sold, Pos_refunded} \<longrightarrow> po_payoutAmount p = po_stakeAmount p"
      "po_status p \<in> {Pos_open, Pos_lost} \<longrightarrow> po_payoutAmount p = 0"
      using D(6) [OF p] by (auto simp: positionOk_def)
    show "\<exists>m \<in> set (mw_markets w). mk_id m = po_marketId p \<and> po_outcomeKey p \<in> fst ` set (mk_outcomes m) \<and>
        (po_status p = Pos_open \<longrightarrow> mk_status m \<notin> {Mk_resolved, Mk_cancelled})"
      using D(6) [OF p] by (simp add: positionHome_def openPosition_def finished_def)
  qed
qed

subsection \<open>A run for the witnesses\<close>

definition sampleMarketEnv :: "int \<Rightarrow> nat \<Rightarrow> market_env" where
  "sampleMarketEnv t i = \<lparr>mv_now = t, mv_kyc = (\<lambda>_ _. None), mv_newId = i\<rparr>"

text \<open>Two users with funds, a market with an oracle, and a stake of each of them on it.\<close>

definition sampleMarketCommands :: "market_command list" where
  "sampleMarketCommands =
     [Mc_asset (ACredit (\<lparr>am_userId = 1, am_assetCode = B_LUCK, am_amount = 900, am_entryType = ''reward'',
        am_referenceType = None, am_referenceId = None, am_idempotencyKey = None\<rparr>)),
      Mc_asset (ACredit (\<lparr>am_userId = 2, am_assetCode = B_LUCK, am_amount = 700, am_entryType = ''reward'',
        am_referenceType = None, am_referenceId = None, am_idempotencyKey = None\<rparr>)),
      Mc_create (sampleMarketEnv 0 1) 1 \<lparr>mq_slug = ''m'', mq_vigBps = 300,
        mq_outcomes = [(''yes'', ''Yes''), (''no'', ''No'')], mq_oracleBinding = Some (Bind_chainlink ''yes'' ''no''),
        mq_opensAt = None, mq_locksAt = 100, mq_resolvesAt = None\<rparr>,
      Mc_place (sampleMarketEnv 10 1) 1 1 ''yes'' (Some 500),
      Mc_place (sampleMarketEnv 20 2) 2 1 ''no'' (Some 401)]"

definition sampleMarkets :: market_world where
  "sampleMarkets = runMarkets sampleMarketCommands emptyMarkets"

definition sampleMarket :: market where
  "sampleMarket = \<lparr>mk_id = 1, mk_slug = ''m'', mk_vigBps = 300, mk_status = Mk_open,
     mk_outcomes = [(''yes'', ''Yes''), (''no'', ''No'')], mk_totalPoolAmount = 901,
     mk_winningOutcomeKey = None, mk_winningPoolAmount = None, mk_oracleSource = None,
     mk_oracleReportedAt = None, mk_opensAt = 0, mk_locksAt = 100, mk_resolvesAt = None,
     mk_resolvedAt = None, mk_settlementMode = None\<rparr>"

definition samplePosition :: position where
  "samplePosition = \<lparr>po_id = 1, po_marketId = 1, po_userId = 1, po_outcomeKey = ''yes'',
     po_stakeAmount = 500, po_payoutAmount = 0, po_status = Pos_open, po_createdAt = 10,
     po_settledAt = None\<rparr>"

lemma sampleMarkets_facts:
  "mw_markets sampleMarkets = [sampleMarket]"
  "map po_userId (mw_positions sampleMarkets) = [1, 2]"
  "find (\<lambda>p. po_id p = 1) (mw_positions sampleMarkets) = Some samplePosition"
  by code_simp+

theorem pools_and_locks_agree_with_positions_witness:
  "(\<Sum>p\<leftarrow>mw_positions sampleMarkets. if po_marketId p = 1 \<and> po_status p \<noteq> Pos_sold then po_stakeAmount p else 0) = 901"
proof -
  have "sampleMarket \<in> set (mw_markets (runMarkets sampleMarketCommands emptyMarkets))"
    by (simp add: sampleMarkets_def [symmetric] sampleMarkets_facts)
  with pools_and_locks_agree_with_positions [where cs = sampleMarketCommands]
  have "mk_totalPoolAmount sampleMarket = (\<Sum>p\<leftarrow>mw_positions (runMarkets sampleMarketCommands emptyMarkets).
      if po_marketId p = mk_id sampleMarket \<and> po_status p \<noteq> Pos_sold then po_stakeAmount p else 0)"
    by blast
  then show ?thesis by (simp add: sampleMarkets_def sampleMarket_def)
qed


subsection \<open>Money\<close>

text \<open>
  C25. No operation on markets makes or loses money: what the users hold in B luck, available
  and locked, together with the house bankroll is the same before and after it, for any list
  of users that has the owners of all positions.  This covers a settlement's rounding and fee,
  and a whole cycle of the oracle worker.
\<close>

theorem markets_conserve_money:
  fixes cs :: "market_command list"
  defines "w \<equiv> runMarkets cs emptyMarkets"
  assumes "\<And>a. c \<noteq> Mc_asset a" and "distinct us" and "po_userId ` set (mw_positions w) \<subseteq> set us"
  shows "held us (doMarket c w) + mw_houseBankroll (doMarket c w) = held us w + mw_houseBankroll w"
  using step_money [OF reachable_ok [of cs, folded w_def] assms(2,3)] assms(4) by (simp add: owners_def)

theorem markets_conserve_money_witness:
  "let w = sampleMarkets; c = Mc_settle (sampleMarketEnv 200 9) 1 ''yes'' \<lparr>oi_source = ''admin'', oi_reportedAt = None\<rparr>
   in held [1, 2] (doMarket c w) + mw_houseBankroll (doMarket c w) = held [1, 2] w + mw_houseBankroll w"
proof -
  have "set (map po_userId (mw_positions sampleMarkets)) = {1, 2}" unfolding sampleMarkets_facts by simp
  then have "po_userId ` set (mw_positions (runMarkets sampleMarketCommands emptyMarkets)) \<subseteq> set [1, 2]"
    by (simp add: sampleMarkets_def)
  from markets_conserve_money [of "Mc_settle (sampleMarketEnv 200 9) 1 ''yes'' \<lparr>oi_source = ''admin'',
      oi_reportedAt = None\<rparr>", OF _ _ this] show ?thesis
    by (simp add: Let_def sampleMarkets_def [symmetric])
qed

subsection \<open>Closing positions\<close>

lemma term_le_sum:
  fixes g :: "'a \<Rightarrow> int"
  assumes "\<And>q. q \<in> set ps \<Longrightarrow> 0 \<le> g q" and "p \<in> set ps" and "P p"
  shows "g p \<le> (\<Sum>q\<leftarrow>ps. if P q then g q else 0)"
proof -
  have "(if P p then g p else 0) \<le> (\<Sum>q\<leftarrow>ps. if P q then g q else 0)"
    by (rule member_le_sum_list_int) (use assms in auto)
  with assms(3) show ?thesis by simp
qed

lemma sell_succeeds:
  assumes ok: "marketsOk w" and p: "p \<in> set (mw_positions w)" "po_status p = Pos_open"
    and m: "lockPredictionMarket (po_marketId p) w = Some m"
    and live: "getEffectivePredictionMarketStatus m (mv_now env) = Mk_open"
  shows "\<exists>w'. sellPredictionPosition env (po_userId p) (po_marketId p) (po_id p) w = Inr w' \<and>
    available_balance (balanceOf (po_userId p) B_LUCK (mw_economy w')) =
      available_balance (balanceOf (po_userId p) B_LUCK (mw_economy w)) + po_stakeAmount p"
proof -
  note D = marketsOkD [OF ok] and mi = lockPredictionMarket_Some [OF m]
  have stake: "0 < po_stakeAmount q" if "q \<in> set (mw_positions w)" for q
    using D(6) [OF that] by (simp add: positionOk_def)
  have row: "lockPredictionPosition (po_marketId p) (po_id p) (po_userId p) w = Some p"
  proof -
    have "find (\<lambda>q. po_id q = po_id p \<and> po_marketId q = po_marketId p \<and> po_userId q = po_userId p) ps = Some p"
      if "distinct (map po_id ps)" "p \<in> set ps" for ps
      using that by (induction ps) force+
    with D(2) p(1) show ?thesis by (simp add: lockPredictionPosition_def)
  qed
  have "po_stakeAmount p \<le> poolStakes (po_marketId p) w"
    unfolding poolStakes_def using stake p by (intro term_le_sum) (auto intro: less_imp_le)
  then have pool: "\<not> mk_totalPoolAmount m < po_stakeAmount p"
    using D(5) [of m] mi by (simp add: marketOk_def)
  have "po_stakeAmount p \<le> openStakes (po_userId p) w"
    unfolding openStakes_def using stake p by (intro term_le_sum) (auto simp: openPosition_def intro: less_imp_le)
  then have locked: "po_stakeAmount p \<le> locked_balance (balanceOf (po_userId p) B_LUCK (mw_economy w))"
    using D(8) [of "po_userId p"] by simp
  let ?pay = "stakePayload (po_userId p) (po_marketId p) (po_stakeAmount p) ''prediction_market_sell''"
  obtain r ec where ran: "unlockAsset ?pay (mw_economy w) = Inr (r, ec)"
    using keyless_mutation_succeeds [of ?pay unlockCompute "mw_economy w"] locked stake [OF p(1)]
    by (auto simp: unlockAsset_def stakePayload_def PREDICTION_MARKET_ASSET_CODE_def unlockCompute_def)
  with stake_unlocked [OF ran] show ?thesis
    by (simp add: sellPredictionPosition_def m live row p(2) Let_def pool movedBy_def)
qed

text \<open>
  C28. Money in an open position is never stuck.  In every run, the owner of an open position
  can sell it at its stake while its market is open by the clock; the market can be cancelled
  at any time, and everybody gets the open stakes in it back; and once it is locked, the
  oracle worker can settle it on any of its outcomes, if its pool is below ten million.
\<close>

theorem open_position_can_be_closed:
  fixes cs :: "market_command list"
  defines "w \<equiv> runMarkets cs emptyMarkets"
  assumes p: "p \<in> set (mw_positions w)" "po_status p = Pos_open"
    and m: "lockPredictionMarket (po_marketId p) w = Some m"
  shows "(getEffectivePredictionMarketStatus m (mv_now env) = Mk_open \<longrightarrow>
      (\<exists>w'. sellPredictionPosition env (po_userId p) (po_marketId p) (po_id p) w = Inr w' \<and>
         available_balance (balanceOf (po_userId p) B_LUCK (mw_economy w')) =
           available_balance (balanceOf (po_userId p) B_LUCK (mw_economy w)) + po_stakeAmount p)) \<and>
    (\<exists>w'. cancelPredictionMarket env (po_marketId p) oi w = Inr w' \<and>
       (\<forall>u. available_balance (balanceOf u B_LUCK (mw_economy w')) =
          available_balance (balanceOf u B_LUCK (mw_economy w)) +
          (\<Sum>q\<leftarrow>mw_positions w. if po_marketId q = po_marketId p \<and> po_status q = Pos_open \<and> po_userId q = u
             then po_stakeAmount q else 0))) \<and>
    (getEffectivePredictionMarketStatus m (mv_now env) = Mk_locked \<longrightarrow> mk_totalPoolAmount m < 10 ^ 9 \<longrightarrow>
      (\<forall>key \<in> fst ` set (mk_outcomes m). \<exists>ns w'.
         settlePredictionMarket env Source_oracle_worker (po_marketId p) key oi' w = Some (Inr (ns, w'))))"
proof -
  note ok = reachable_ok [of cs, folded w_def]
  note mi = lockPredictionMarket_Some [OF m]
  have "\<not> finished m"
  proof -
    obtain m' where m': "m' \<in> set (mw_markets w)" "mk_id m' = po_marketId p" "\<not> finished m'"
      using marketsOkD(6) [OF ok p(1)] p(2) by (auto simp: positionHome_def openPosition_def)
    with mi distinct_same_id [OF marketsOkD(1) [OF ok], of m' m] show ?thesis by auto
  qed
  from cancel_succeeds [OF ok m this, of env oi] obtain w' where
    cancel: "cancelPredictionMarket env (po_marketId p) oi w = Inr w'"
      "closes (mv_now env) (po_marketId p) refundResult 0 w w'" by blast
  have paid: "available_balance (balanceOf u B_LUCK (mw_economy w')) =
      available_balance (balanceOf u B_LUCK (mw_economy w)) +
      (\<Sum>q\<leftarrow>mw_positions w. if po_marketId q = po_marketId p \<and> po_status q = Pos_open \<and> po_userId q = u
         then po_stakeAmount q else 0)" for u
    using cancel(2) by (simp add: closes_def movedBy_def sumOpen_def refundResult_def openPosition_def)
  have "\<exists>ns w'. settlePredictionMarket env Source_oracle_worker (po_marketId p) key oi' w = Some (Inr (ns, w'))"
    if "getEffectivePredictionMarketStatus m (mv_now env) = Mk_locked" "key \<in> fst ` set (mk_outcomes m)"
      "mk_totalPoolAmount m < 10 ^ 9" for key
    using settle_locked [OF ok m that(1,2), of Source_oracle_worker oi'] that(3) by (auto simp: maySettle_def)
  with cancel(1) paid sell_succeeds [OF ok p m] show ?thesis by blast
qed

theorem open_position_can_be_closed_witness:
  "(\<exists>w'. sellPredictionPosition (sampleMarketEnv 50 9) 1 1 1 sampleMarkets = Inr w') \<and>
   (\<exists>w'. cancelPredictionMarket (sampleMarketEnv 50 9) 1 None sampleMarkets = Inr w')"
proof -
  have p: "samplePosition \<in> set (mw_positions sampleMarkets)"
    using find_SomeD [OF sampleMarkets_facts(3)] by simp
  have m: "lockPredictionMarket (po_marketId samplePosition) sampleMarkets = Some sampleMarket"
    by (simp add: lockPredictionMarket_def sampleMarkets_facts samplePosition_def sampleMarket_def)
  have "getEffectivePredictionMarketStatus sampleMarket (mv_now (sampleMarketEnv 50 9)) = Mk_open"
    "po_status samplePosition = Pos_open" by code_simp+
  with open_position_can_be_closed [OF p [unfolded sampleMarkets_def] _ m [unfolded sampleMarkets_def],
      of "sampleMarketEnv 50 9" None] show ?thesis
    by (auto simp: samplePosition_def sampleMarkets_def)
qed


subsection \<open>Settlement\<close>

lemma applySettlement_row:
  assumes "applySettlement env m b key oi ps s w = Inr (ns, w')" and "m' \<in> set (mw_markets w')"
    and "mk_id m' = mk_id m"
  shows "mk_status m' = Mk_resolved \<and> mk_winningOutcomeKey m' = Some key"
  using assms unfolding applySettlement_def Let_def resolvePredictionMarketAppealsForMarket_def
  by (cases b) (auto simp: bind_res_Inr_iff split: if_split_asm)

lemma closes_no_open:
  assumes "closes now i res fee w w'" and "\<And>q. sr_status (res q) \<noteq> Pos_open"
    and "p \<in> set (mw_positions w')" and "po_marketId p = i"
  shows "\<not> openPosition p"
proof -
  have "mw_positions w' = closePositions i (\<lambda>q. q\<lparr>po_payoutAmount := sr_payoutAmount (res q),
      po_status := sr_status (res q), po_settledAt := Some now\<rparr>) (mw_positions w)"
    using assms(1) by (simp add: closes_def)
  with assms(3) have "p \<in> set (closePositions i (\<lambda>q. q\<lparr>po_payoutAmount := sr_payoutAmount (res q),
      po_status := sr_status (res q), po_settledAt := Some now\<rparr>) (mw_positions w))" by simp
  then obtain q where q: "p = (if po_marketId q = i \<and> openPosition q then q\<lparr>po_payoutAmount := sr_payoutAmount (res q),
      po_status := sr_status (res q), po_settledAt := Some now\<rparr> else q)"
    unfolding closePositions_def set_map by (elim imageE, simp only:)
  show ?thesis
  proof (cases "po_marketId q = i \<and> openPosition q")
    case True
    with q assms(2) [of q] show ?thesis by (simp add: openPosition_def)
  next
    case False
    with q assms(4) show ?thesis by simp
  qed
qed

lemma settle_row:
  assumes "settlePredictionMarket env source i key oi w = Some (Inr (ns, w'))" and "m \<in> set (mw_markets w')"
    and "mk_id m = i"
  shows "mk_status m = Mk_resolved \<and> mk_winningOutcomeKey m = Some key"
proof -
  from assms(1) obtain m0 b ps s where "mk_id m0 = i" "applySettlement env m0 b key oi ps s w = Inr (ns, w')"
    by (auto simp: settlePredictionMarket_def Let_def bind_res_Inr_iff split: option.splits if_splits
        dest: lockPredictionMarket_Some)
  with applySettlement_row assms(2,3) show ?thesis by metis
qed

text \<open>
  C29. A settlement request always returns, in every run.  It is refused unless the market
  exists and is locked by the clock, the winning outcome is one of its own, and the one who
  asks may decide: the oracle worker, or an administrator when the market is bound to no
  oracle or to the manual one, or when an appeal is open.  If so and the pool is below ten
  million it succeeds.  Afterwards the market is resolved with that outcome, none of its
  positions is open and none of its appeals is.
\<close>

theorem market_settlement_outcome:
  fixes cs :: "market_command list"
  defines "w \<equiv> runMarkets cs emptyMarkets"
  shows "\<exists>r. settlePredictionMarket env source i key oi w = Some r \<and>
    (let allowed = (\<lambda>m. lockPredictionMarket i w = Some m \<and>
          getEffectivePredictionMarketStatus m (mv_now env) = Mk_locked \<and> key \<in> fst ` set (mk_outcomes m) \<and>
          (source = Source_oracle_worker \<or> hasOpenPredictionMarketAppeal i w \<or>
           (case getPredictionMarketOracleBinding i w of None \<Rightarrow> True | Some b \<Rightarrow> ob_provider b = Manual_admin)))
     in (\<forall>m. allowed m \<longrightarrow> mk_totalPoolAmount m < 10 ^ 9 \<longrightarrow> (\<exists>ns w'. r = Inr (ns, w'))) \<and>
        (\<forall>ns w'. r = Inr (ns, w') \<longrightarrow> (\<exists>m. allowed m) \<and>
           (\<forall>m \<in> set (mw_markets w'). mk_id m = i \<longrightarrow> mk_status m = Mk_resolved \<and> mk_winningOutcomeKey m = Some key) \<and>
           (\<forall>p \<in> set (mw_positions w'). po_marketId p = i \<longrightarrow> po_status p \<noteq> Pos_open) \<and>
           \<not> hasOpenPredictionMarketAppeal i w'))"
proof -
  note ok = reachable_ok [of cs, folded w_def]
  obtain r where r: "settlePredictionMarket env source i key oi w = Some r"
    using settle_returns [OF ok, of env source i key oi] by auto
  have succeeds: "\<exists>ns w'. r = Inr (ns, w')"
    if "lockPredictionMarket i w = Some m" "getEffectivePredictionMarketStatus m (mv_now env) = Mk_locked"
      "key \<in> fst ` set (mk_outcomes m)" "maySettle source i w" "mk_totalPoolAmount m < 10 ^ 9" for m
    using settle_locked [OF ok that(1-4), of oi] that(5) r by auto
  have needed: "\<exists>m. lockPredictionMarket i w = Some m \<and>
      getEffectivePredictionMarketStatus m (mv_now env) = Mk_locked \<and> key \<in> fst ` set (mk_outcomes m) \<and>
      maySettle source i w" if "r = Inr (ns, w')" for ns w'
    using that r settle_fails [of i w env key source oi] by fastforce
  have after: "(\<forall>m \<in> set (mw_markets w'). mk_id m = i \<longrightarrow> mk_status m = Mk_resolved \<and> mk_winningOutcomeKey m = Some key) \<and>
      (\<forall>p \<in> set (mw_positions w'). po_marketId p = i \<longrightarrow> po_status p \<noteq> Pos_open) \<and>
      \<not> hasOpenPredictionMarketAppeal i w'" if ran: "r = Inr (ns, w')" for ns w'
  proof -
    have ran: "settlePredictionMarket env source i key oi w = Some (Inr (ns, w'))" using r ran by simp
    obtain m :: market where "m \<in> set (mw_markets w)"
      and closes: "closes (mv_now env) i (marketSplit i key (mk_vigBps m) w) (marketFee i key (mk_vigBps m) w) w w'"
      by (rule settle_obtain [OF ran ok]) blast
    have "po_status p \<noteq> Pos_open" if p: "p \<in> set (mw_positions w')" "po_marketId p = i" for p
    proof -
      let ?res = "marketSplit i key (mk_vigBps m) w"
      have "sr_status (?res q) \<noteq> Pos_open" for q
        using splitResult_fields(2) [of "map toSettlementPosition (openPositionsOf i w)" key "mk_vigBps m"
            "toSettlementPosition q"] unfolding marketSplit_def by auto
      from closes_no_open [OF closes this p] show ?thesis by (simp add: openPosition_def)
    qed
    moreover have "\<not> hasOpenPredictionMarketAppeal i w'"
      using closes by (auto simp: hasOpenPredictionMarketAppeal_def closes_def)
    ultimately show ?thesis using settle_row [OF ran] by blast
  qed
  show ?thesis
    unfolding Let_def maySettle_def [symmetric]
    by (rule exI [of _ r], intro conjI allI impI) (use r succeeds needed after in blast)+
qed

theorem market_settlement_outcome_witness:
  "(\<exists>ns w'. settlePredictionMarket (sampleMarketEnv 200 9) Source_oracle_worker 1 ''yes''
      \<lparr>oi_source = ''chainlink'', oi_reportedAt = None\<rparr> sampleMarkets = Some (Inr (ns, w'))) \<and>
   (\<exists>e. settlePredictionMarket (sampleMarketEnv 200 9) Source_admin 1 ''yes''
      \<lparr>oi_source = ''admin'', oi_reportedAt = None\<rparr> sampleMarkets = Some (Inl e))"
proof -
  have m: "lockPredictionMarket 1 sampleMarkets = Some sampleMarket"
    by (simp add: lockPredictionMarket_def sampleMarkets_facts sampleMarket_def)
  have st: "getEffectivePredictionMarketStatus sampleMarket (mv_now (sampleMarketEnv 200 9)) = Mk_locked"
    and key: "''yes'' \<in> fst ` set (mk_outcomes sampleMarket)" by code_simp+
  have no: "\<not> hasOpenPredictionMarketAppeal 1 sampleMarkets"
    "\<not> (case getPredictionMarketOracleBinding 1 sampleMarkets of None \<Rightarrow> True | Some b \<Rightarrow> ob_provider b = Manual_admin)"
    by code_simp+
  have small: "mk_totalPoolAmount sampleMarket < 10 ^ 9" by (simp add: sampleMarket_def)
  from market_settlement_outcome [of "sampleMarketEnv 200 9" Source_oracle_worker 1 "''yes''"
      "\<lparr>oi_source = ''chainlink'', oi_reportedAt = None\<rparr>" sampleMarketCommands, folded sampleMarkets_def, unfolded Let_def]
  have "\<exists>ns w'. settlePredictionMarket (sampleMarketEnv 200 9) Source_oracle_worker 1 ''yes''
      \<lparr>oi_source = ''chainlink'', oi_reportedAt = None\<rparr> sampleMarkets = Some (Inr (ns, w'))"
    using m st key small by (elim exE conjE, drule_tac x = sampleMarket in spec) simp
  moreover from market_settlement_outcome [of "sampleMarketEnv 200 9" Source_admin 1 "''yes''"
      "\<lparr>oi_source = ''admin'', oi_reportedAt = None\<rparr>" sampleMarketCommands, folded sampleMarkets_def, unfolded Let_def]
  obtain r where "settlePredictionMarket (sampleMarketEnv 200 9) Source_admin 1 ''yes''
      \<lparr>oi_source = ''admin'', oi_reportedAt = None\<rparr> sampleMarkets = Some r" "\<nexists>ns w'. r = Inr (ns, w')"
    using no by (elim exE conjE) auto
  ultimately show ?thesis by (cases r) auto
qed

subsection \<open>Finished markets\<close>

text \<open>
  A market that is resolved or cancelled stays as it is: whatever happens later, its row
  and all its positions are unchanged, which also means that nobody can stake on it.
\<close>

theorem finished_market_is_final:
  fixes cs cs' :: "market_command list"
  defines "w \<equiv> runMarkets cs emptyMarkets" and "w' \<equiv> runMarkets cs' (runMarkets cs emptyMarkets)"
  assumes "m \<in> set (mw_markets w)" and "mk_status m \<in> {Mk_resolved, Mk_cancelled}"
  shows "m \<in> set (mw_markets w') \<and>
    filter (\<lambda>p. po_marketId p = mk_id m) (mw_positions w') = filter (\<lambda>p. po_marketId p = mk_id m) (mw_positions w)"
proof -
  note ok = reachable_ok [of cs, folded w_def]
  have fin: "finished m" using assms(4) by (simp add: finished_def)
  have same: "untouched (mk_id m) w w'"
    using run_untouched [OF ok assms(3) fin, of cs'] by (simp add: w_def w'_def)
  have "marketsOk w'" using runMarkets_ok [OF ok, of cs'] by (simp add: w_def w'_def)
  from untouched_finished(1) [OF same this assms(3) fin] same show ?thesis by (simp add: untouched_def)
qed

definition finishedCommands :: "market_command list" where
  "finishedCommands = sampleMarketCommands @ [Mc_cancel (sampleMarketEnv 60 9) 1 None]"

theorem finished_market_is_final_witness:
  "\<exists>m \<in> set (mw_markets (runMarkets finishedCommands emptyMarkets)). mk_status m = Mk_cancelled \<and>
     m \<in> set (mw_markets (runMarkets [Mc_place (sampleMarketEnv 70 3) 1 1 ''no'' (Some 100)]
        (runMarkets finishedCommands emptyMarkets)))"
proof -
  have "\<exists>m \<in> set (mw_markets (runMarkets finishedCommands emptyMarkets)). mk_status m = Mk_cancelled"
    by code_simp
  then obtain m where m: "m \<in> set (mw_markets (runMarkets finishedCommands emptyMarkets))"
    "mk_status m = Mk_cancelled" by blast
  then have "mk_status m \<in> {Mk_resolved, Mk_cancelled}" by simp
  from finished_market_is_final [OF m(1) this] m show ?thesis by blast
qed

end
