(* ===== verification/Market_Views.thy ===== *)
theory Market_Views
  imports Market_Safety
begin

text \<open>
  What users see of prediction markets (\<open>modules/prediction-market/service.ts\<close>): the pools of
  the outcomes, and a user's portfolio with its summary, filters and pages.
\<close>

subsection \<open>The pools of a market\<close>

text \<open>The positions of a market as the query returns them, in the order of their creation.\<close>

definition marketPositions :: "nat \<Rightarrow> market_world \<Rightarrow> position list" where
  "marketPositions i w = sort_key po_createdAt (filter (\<lambda>p. po_marketId p = i) (mw_positions w))"

fun collectPools :: "position list \<Rightarrow> (string \<times> cents \<times> nat) list \<Rightarrow> (string \<times> cents \<times> nat) list" where
  "collectPools [] pools = pools"
| "collectPools (p # ps) pools =
     (if po_status p = Pos_sold then collectPools ps pools
      else
        let (stake, num) = (case map_of pools (po_outcomeKey p) of None \<Rightarrow> (0, 0) | Some c \<Rightarrow> c)
        in collectPools ps (mapSet (po_outcomeKey p) (stake + po_stakeAmount p, num + 1) pools))"

record outcome_pool =
  op_outcomeKey :: string
  op_label :: string
  op_totalStakeAmount :: cents
  op_positionCount :: nat

definition outcomePools :: "market \<Rightarrow> position list \<Rightarrow> outcome_pool list" where
  "outcomePools m ps =
     (let pools = collectPools ps []
      in map (\<lambda>(key, label). case map_of pools key of
            None \<Rightarrow> \<lparr>op_outcomeKey = key, op_label = label, op_totalStakeAmount = 0, op_positionCount = 0\<rparr>
          | Some (stake, num) \<Rightarrow> \<lparr>op_outcomeKey = key, op_label = label, op_totalStakeAmount = stake,
                op_positionCount = num\<rparr>) (mk_outcomes m))"

record market_detail =
  md_market :: market
  md_status :: market_status
  md_outcomePools :: "outcome_pool list"
  md_oracleBinding :: "oracle_binding option"
  md_userPositions :: "position list"

definition serializeMarketDetails :: "int \<Rightarrow> nat option \<Rightarrow> market_world \<Rightarrow> market list \<Rightarrow> market_detail list" where
  "serializeMarketDetails now userId w =
     map (\<lambda>m. \<lparr>md_market = m, md_status = getEffectivePredictionMarketStatus m now,
       md_outcomePools = outcomePools m (marketPositions (mk_id m) w),
       md_oracleBinding = getPredictionMarketOracleBinding (mk_id m) w,
       md_userPositions = (case userId of None \<Rightarrow> []
         | Some u \<Rightarrow> filter (\<lambda>p. po_userId p = u) (marketPositions (mk_id m) w))\<rparr>)"

definition getPredictionMarket :: "int \<Rightarrow> nat \<Rightarrow> nat option \<Rightarrow> market_world \<Rightarrow> market_detail option" where
  "getPredictionMarket now i userId w =
     (case find (\<lambda>m. mk_id m = i) (mw_markets w) of None \<Rightarrow> None
      | Some m \<Rightarrow> Some (hd (serializeMarketDetails now userId w [m])))"

subsection \<open>A portfolio\<close>

datatype portfolio_status = Pf_open | Pf_resolved | Pf_refunded

datatype portfolio_filter = Filter_all | Filter_status portfolio_status

definition getPortfolioStatusForPositions :: "position list \<Rightarrow> portfolio_status" where
  "getPortfolioStatusForPositions ps =
     (if \<exists>p \<in> set ps. po_status p = Pos_open then Pf_open
      else if \<forall>p \<in> set ps. po_status p \<in> {Pos_refunded, Pos_sold} then Pf_refunded
      else Pf_resolved)"

record portfolio_item =
  pi_portfolioStatus :: portfolio_status
  pi_marketId :: nat
  pi_status :: market_status
  pi_positions :: "position list"
  pi_totalStakeAmount :: cents
  pi_openStakeAmount :: cents
  pi_settledPayoutAmount :: cents
  pi_refundedAmount :: cents
  pi_lastActivityAt :: int

record totals =
  tt_totalStakeAmount :: cents
  tt_openStakeAmount :: cents
  tt_settledPayoutAmount :: cents
  tt_refundedAmount :: cents
  tt_lastActivityAt :: int

definition addPosition :: "position \<Rightarrow> totals \<Rightarrow> totals" where
  "addPosition p t =
     (let activityAt = (case po_settledAt p of None \<Rightarrow> po_createdAt p | Some s \<Rightarrow> s);
          t1 = t\<lparr>tt_totalStakeAmount := tt_totalStakeAmount t + po_stakeAmount p,
                 tt_lastActivityAt := (if activityAt > tt_lastActivityAt t then activityAt else tt_lastActivityAt t)\<rparr>
      in if po_status p = Pos_open then t1\<lparr>tt_openStakeAmount := tt_openStakeAmount t1 + po_stakeAmount p\<rparr>
         else if po_status p = Pos_refunded \<or> po_status p = Pos_sold
         then t1\<lparr>tt_refundedAmount := tt_refundedAmount t1 + po_payoutAmount p\<rparr>
         else t1\<lparr>tt_settledPayoutAmount := tt_settledPayoutAmount t1 + po_payoutAmount p\<rparr>)"

text \<open>A market always has positions here, so its own creation time is never used.\<close>

definition buildPortfolioItem :: "int \<Rightarrow> market \<Rightarrow> position list \<Rightarrow> portfolio_item" where
  "buildPortfolioItem now m ps =
     (let t = fold addPosition ps
          \<lparr>tt_totalStakeAmount = 0, tt_openStakeAmount = 0, tt_settledPayoutAmount = 0, tt_refundedAmount = 0,
           tt_lastActivityAt = (case ps of [] \<Rightarrow> 0 | p # _ \<Rightarrow> po_createdAt p)\<rparr>
      in \<lparr>pi_portfolioStatus = getPortfolioStatusForPositions ps, pi_marketId = mk_id m,
          pi_status = getEffectivePredictionMarketStatus m now, pi_positions = ps,
          pi_totalStakeAmount = tt_totalStakeAmount t, pi_openStakeAmount = tt_openStakeAmount t,
          pi_settledPayoutAmount = tt_settledPayoutAmount t, pi_refundedAmount = tt_refundedAmount t,
          pi_lastActivityAt = tt_lastActivityAt t\<rparr>)"

text \<open>The latest activity first, of equal ones the larger market id.\<close>

definition sortPortfolioItems :: "portfolio_item list \<Rightarrow> portfolio_item list" where
  "sortPortfolioItems = sort_key (\<lambda>i. (- pi_lastActivityAt i, - int (pi_marketId i)))"

definition listUserPredictionMarketPortfolioItems :: "int \<Rightarrow> nat \<Rightarrow> market_world \<Rightarrow> portfolio_item list" where
  "listUserPredictionMarketPortfolioItems now u w =
     (let userPositions = sort_key (\<lambda>p. (- po_createdAt p, - int (po_id p)))
            (filter (\<lambda>p. po_userId p = u) (mw_positions w));
          marketIds = js_set (map po_marketId userPositions)
      in sortPortfolioItems (concat (map (\<lambda>i.
           let positions = filter (\<lambda>p. po_marketId p = i) userPositions
           in case find (\<lambda>m. mk_id m = i) (mw_markets w) of
                None \<Rightarrow> []
              | Some m \<Rightarrow> if positions = [] then [] else [buildPortfolioItem now m positions]) marketIds)))"

record portfolio_summary =
  su_marketCount :: nat
  su_positionCount :: nat
  su_totalStakeAmount :: cents
  su_openStakeAmount :: cents
  su_settledPayoutAmount :: cents
  su_refundedAmount :: cents

definition buildPortfolioSummary :: "portfolio_item list \<Rightarrow> portfolio_summary" where
  "buildPortfolioSummary items =
     \<lparr>su_marketCount = length items,
      su_positionCount = (\<Sum>i\<leftarrow>items. length (pi_positions i)),
      su_totalStakeAmount = (\<Sum>i\<leftarrow>items. pi_totalStakeAmount i),
      su_openStakeAmount = (\<Sum>i\<leftarrow>items. pi_openStakeAmount i),
      su_settledPayoutAmount = (\<Sum>i\<leftarrow>items. pi_settledPayoutAmount i),
      su_refundedAmount = (\<Sum>i\<leftarrow>items. pi_refundedAmount i)\<rparr>"

fun filterPortfolioItemsByStatus :: "portfolio_item list \<Rightarrow> portfolio_filter \<Rightarrow> portfolio_item list" where
  "filterPortfolioItemsByStatus items Filter_all = items"
| "filterPortfolioItemsByStatus items (Filter_status st) = filter (\<lambda>i. pi_portfolioStatus i = st) items"

text \<open>A page and whether there is another; pages are numbered from one.\<close>

definition buildOffsetPage :: "'a list \<Rightarrow> nat \<Rightarrow> nat \<Rightarrow> 'a list \<times> bool" where
  "buildOffsetPage items page limit =
     (let start = (page - 1) * limit;
          pageItems = take (limit + 1) (drop start items)
      in (take limit pageItems, length pageItems > limit))"

definition getPredictionMarketPortfolio ::
  "int \<Rightarrow> nat \<Rightarrow> portfolio_filter \<Rightarrow> market_world \<Rightarrow> portfolio_item list \<times> portfolio_summary" where
  "getPredictionMarketPortfolio now u f w =
     (let items = filterPortfolioItemsByStatus (listUserPredictionMarketPortfolioItems now u w) f
      in (items, buildPortfolioSummary items))"

definition getPredictionMarketHistory ::
  "int \<Rightarrow> nat \<Rightarrow> portfolio_filter \<Rightarrow> nat \<Rightarrow> nat \<Rightarrow> market_world \<Rightarrow>
     (portfolio_item list \<times> bool) \<times> portfolio_summary" where
  "getPredictionMarketHistory now u f page limit w =
     (let items = filterPortfolioItemsByStatus (listUserPredictionMarketPortfolioItems now u w) f
      in (buildOffsetPage items page limit, buildPortfolioSummary items))"


subsection \<open>Pools add up\<close>

definition counts :: "string \<Rightarrow> position list \<Rightarrow> position list" where
  "counts key ps = filter (\<lambda>p. po_outcomeKey p = key) (filter (\<lambda>p. po_status p \<noteq> Pos_sold) ps)"

lemma collectPools_lookup:
  "map_of (collectPools ps pools) key =
     (if counts key ps = [] then map_of pools key
      else case map_of pools key of
        None \<Rightarrow> Some (\<Sum>p\<leftarrow>counts key ps. po_stakeAmount p, length (counts key ps))
      | Some (stake, num) \<Rightarrow> Some (stake + (\<Sum>p\<leftarrow>counts key ps. po_stakeAmount p), num + length (counts key ps)))"
  by (induction ps arbitrary: pools)
    (auto simp: counts_def map_of_mapSet split: option.splits prod.splits)

lemma outcomePools_map:
  "outcomePools m ps = map (\<lambda>(key, label). \<lparr>op_outcomeKey = key, op_label = label,
     op_totalStakeAmount = (\<Sum>p\<leftarrow>counts key ps. po_stakeAmount p),
     op_positionCount = length (counts key ps)\<rparr>) (mk_outcomes m)"
  by (auto simp: outcomePools_def Let_def collectPools_lookup)

lemma sum_outcomes:
  fixes g :: "position \<Rightarrow> 'b::comm_monoid_add"
  assumes "distinct (map fst outs)" and "\<And>p. p \<in> set ps \<Longrightarrow> po_outcomeKey p \<in> fst ` set outs"
  shows "(\<Sum>out\<leftarrow>outs. \<Sum>p\<leftarrow>counts (fst out) ps. g p) = (\<Sum>p\<leftarrow>filter (\<lambda>p. po_status p \<noteq> Pos_sold) ps. g p)"
  using sum_list_groups [of "map fst outs" "filter (\<lambda>p. po_status p \<noteq> Pos_sold) ps" po_outcomeKey g] assms
  by (simp add: counts_def comp_def)

lemma marketPositions_keys:
  assumes ok: "marketsOk w" and m: "m \<in> set (mw_markets w)" and p: "p \<in> set (marketPositions (mk_id m) w)"
  shows "po_outcomeKey p \<in> fst ` set (mk_outcomes m)"
proof -
  from p have "p \<in> set (mw_positions w)" "po_marketId p = mk_id m" by (auto simp: marketPositions_def)
  with marketsOkD(6) [OF ok, of p] obtain m' where "m' \<in> set (mw_markets w)" "mk_id m' = mk_id m"
    "po_outcomeKey p \<in> fst ` set (mk_outcomes m')" by (auto simp: positionHome_def)
  with distinct_same_id [OF marketsOkD(1) [OF ok] _ m] show ?thesis by auto
qed

lemma market_sums:
  fixes g :: "position \<Rightarrow> 'b::comm_monoid_add"
  assumes ok: "marketsOk w" and m: "m \<in> set (mw_markets w)"
  shows "(\<Sum>out\<leftarrow>mk_outcomes m. \<Sum>p\<leftarrow>counts (fst out) (marketPositions (mk_id m) w). g p) =
    (\<Sum>p\<leftarrow>mw_positions w. if po_marketId p = mk_id m \<and> po_status p \<noteq> Pos_sold then g p else 0)"
proof -
  have distinct: "distinct (map fst (mk_outcomes m))" using marketsOkD(5) [OF ok m] by (simp add: marketOk_def)
  have "(\<Sum>out\<leftarrow>mk_outcomes m. \<Sum>p\<leftarrow>counts (fst out) (marketPositions (mk_id m) w). g p) =
      (\<Sum>p\<leftarrow>filter (\<lambda>p. po_status p \<noteq> Pos_sold) (marketPositions (mk_id m) w). g p)"
    by (rule sum_outcomes [OF distinct marketPositions_keys [OF ok m]])
  also have "\<dots> = (\<Sum>p\<leftarrow>filter (\<lambda>p. po_marketId p = mk_id m) (mw_positions w).
      if po_status p \<noteq> Pos_sold then g p else 0)"
    unfolding marketPositions_def sum_filter_if sum_sorted ..
  also have "\<dots> = (\<Sum>p\<leftarrow>mw_positions w. if po_marketId p = mk_id m \<and> po_status p \<noteq> Pos_sold then g p else 0)"
    unfolding sum_filter_if by (rule sum_list_congI) simp
  finally show ?thesis .
qed

text \<open>
  The pools shown for the outcomes of a market add up to the pool shown for the market,
  in every run and also after it is resolved or cancelled, and their position counts to the
  number of positions that were not sold.
\<close>

theorem shown_pools_add_up:
  fixes cs :: "market_command list"
  defines "w \<equiv> runMarkets cs emptyMarkets"
  assumes "getPredictionMarket now i userId w = Some d"
  shows "(\<Sum>q\<leftarrow>md_outcomePools d. op_totalStakeAmount q) = mk_totalPoolAmount (md_market d) \<and>
    (\<Sum>q\<leftarrow>md_outcomePools d. op_positionCount q) =
      length (filter (\<lambda>p. po_marketId p = i \<and> po_status p \<noteq> Pos_sold) (mw_positions w)) \<and>
    map op_outcomeKey (md_outcomePools d) = map fst (mk_outcomes (md_market d))"
proof -
  note ok = reachable_ok [of cs, folded w_def]
  from assms(2) obtain m where m: "m \<in> set (mw_markets w)" "mk_id m = i"
    and d: "d = hd (serializeMarketDetails now userId w [m])"
    by (auto simp: getPredictionMarket_def split: option.splits dest!: find_SomeD)
  let ?ps = "marketPositions (mk_id m) w"
  note sums = market_sums [OF ok m(1)]
  have "(\<Sum>q\<leftarrow>outcomePools m ?ps. op_totalStakeAmount q) = mk_totalPoolAmount m"
    using sums [of po_stakeAmount] marketsOkD(5) [OF ok m(1)]
    by (simp add: outcomePools_map comp_def split_def marketOk_def poolStakes_def)
  moreover have "(\<Sum>q\<leftarrow>outcomePools m ?ps. op_positionCount q) =
      length (filter (\<lambda>p. po_marketId p = mk_id m \<and> po_status p \<noteq> Pos_sold) (mw_positions w))"
    using sums [of "\<lambda>_. 1 :: nat"]
    by (simp add: outcomePools_map comp_def split_def sum_list_triv sum_filter_if [symmetric])
  ultimately show ?thesis
    by (simp add: d serializeMarketDetails_def m(2) outcomePools_map comp_def split_def)
qed


theorem shown_pools_add_up_witness:
  "\<exists>d. getPredictionMarket 50 1 None sampleMarkets = Some d \<and>
     (\<Sum>q\<leftarrow>md_outcomePools d. op_totalStakeAmount q) = 901"
proof -
  have "find (\<lambda>m. mk_id m = 1) (mw_markets sampleMarkets) = Some sampleMarket"
    by (simp add: sampleMarkets_facts) (simp add: sampleMarket_def)
  then obtain d where d: "getPredictionMarket 50 1 None sampleMarkets = Some d" "md_market d = sampleMarket"
    by (simp add: getPredictionMarket_def serializeMarketDetails_def)
  from shown_pools_add_up [OF d(1) [unfolded sampleMarkets_def]] d show ?thesis
    by (auto simp: sampleMarket_def)
qed

subsection \<open>The portfolio adds up\<close>

lemma addPosition_fields:
  "tt_totalStakeAmount (addPosition p t) = tt_totalStakeAmount t + po_stakeAmount p"
  "tt_openStakeAmount (addPosition p t) =
     tt_openStakeAmount t + (if po_status p = Pos_open then po_stakeAmount p else 0)"
  "tt_refundedAmount (addPosition p t) =
     tt_refundedAmount t + (if po_status p \<in> {Pos_refunded, Pos_sold} then po_payoutAmount p else 0)"
  "tt_settledPayoutAmount (addPosition p t) =
     tt_settledPayoutAmount t + (if po_status p \<in> {Pos_won, Pos_lost} then po_payoutAmount p else 0)"
  by (cases "po_status p"; simp add: addPosition_def Let_def)+

lemma fold_addPosition:
  "tt_totalStakeAmount (fold addPosition ps t) = tt_totalStakeAmount t + (\<Sum>p\<leftarrow>ps. po_stakeAmount p)"
  "tt_openStakeAmount (fold addPosition ps t) =
     tt_openStakeAmount t + (\<Sum>p\<leftarrow>ps. if po_status p = Pos_open then po_stakeAmount p else 0)"
  "tt_refundedAmount (fold addPosition ps t) =
     tt_refundedAmount t + (\<Sum>p\<leftarrow>ps. if po_status p \<in> {Pos_refunded, Pos_sold} then po_payoutAmount p else 0)"
  "tt_settledPayoutAmount (fold addPosition ps t) =
     tt_settledPayoutAmount t + (\<Sum>p\<leftarrow>ps. if po_status p \<in> {Pos_won, Pos_lost} then po_payoutAmount p else 0)"
  by (induction ps arbitrary: t) (simp_all add: addPosition_fields)

lemma item_amounts:
  "pi_totalStakeAmount (buildPortfolioItem now m ps) = (\<Sum>p\<leftarrow>ps. po_stakeAmount p)"
  "pi_openStakeAmount (buildPortfolioItem now m ps) = (\<Sum>p\<leftarrow>ps. if po_status p = Pos_open then po_stakeAmount p else 0)"
  "pi_refundedAmount (buildPortfolioItem now m ps) =
     (\<Sum>p\<leftarrow>ps. if po_status p \<in> {Pos_refunded, Pos_sold} then po_payoutAmount p else 0)"
  "pi_settledPayoutAmount (buildPortfolioItem now m ps) =
     (\<Sum>p\<leftarrow>ps. if po_status p \<in> {Pos_won, Pos_lost} then po_payoutAmount p else 0)"
  "pi_positions (buildPortfolioItem now m ps) = ps"
  by (simp_all add: buildPortfolioItem_def Let_def fold_addPosition)

lemma sum_concat_map:
  fixes h :: "'a \<Rightarrow> 'b::comm_monoid_add"
  shows "(\<Sum>x\<leftarrow>concat (map f ks). h x) = (\<Sum>k\<leftarrow>ks. \<Sum>x\<leftarrow>f k. h x)"
  by (induction ks) simp_all

text \<open>Any amount summed over the items is the amount summed over the user's positions.\<close>

lemma sum_portfolio:
  fixes g :: "position \<Rightarrow> 'b::comm_monoid_add"
  assumes ok: "marketsOk w" and amount: "\<And>m ps. h (buildPortfolioItem now m ps) = (\<Sum>p\<leftarrow>ps. g p)"
  shows "(\<Sum>i\<leftarrow>listUserPredictionMarketPortfolioItems now u w. h i) =
    (\<Sum>p\<leftarrow>mw_positions w. if po_userId p = u then g p else 0)"
proof -
  let ?ups = "sort_key (\<lambda>p. (- po_createdAt p, - int (po_id p))) (filter (\<lambda>p. po_userId p = u) (mw_positions w))"
  let ?ids = "js_set (map po_marketId ?ups)"
  let ?build = "\<lambda>i. let positions = filter (\<lambda>p. po_marketId p = i) ?ups
     in case find (\<lambda>m. mk_id m = i) (mw_markets w) of None \<Rightarrow> []
        | Some m \<Rightarrow> if positions = [] then [] else [buildPortfolioItem now m positions]"
  have one: "(\<Sum>x\<leftarrow>?build i. h x) = (\<Sum>p\<leftarrow>filter (\<lambda>p. po_marketId p = i) ?ups. g p)" if i: "i \<in> set ?ids" for i
  proof -
    from i obtain p where "p \<in> set (mw_positions w)" "po_marketId p = i" by auto
    with marketsOkD(6) [OF ok, of p] have "find (\<lambda>m. mk_id m = i) (mw_markets w) \<noteq> None"
      by (auto simp: positionHome_def find_None_iff)
    then show ?thesis by (auto simp: Let_def amount)
  qed
  have "(\<Sum>i\<leftarrow>listUserPredictionMarketPortfolioItems now u w. h i) = (\<Sum>i\<leftarrow>concat (map ?build ?ids). h i)"
    unfolding listUserPredictionMarketPortfolioItems_def Let_def sortPortfolioItems_def sum_sorted ..
  also have "\<dots> = (\<Sum>i\<leftarrow>?ids. \<Sum>x\<leftarrow>?build i. h x)"
    by (rule sum_concat_map)
  also have "\<dots> = (\<Sum>i\<leftarrow>?ids. \<Sum>p\<leftarrow>filter (\<lambda>p. po_marketId p = i) ?ups. g p)"
    by (intro sum_list_congI one)
  also have "\<dots> = (\<Sum>p\<leftarrow>?ups. g p)" by (rule sum_list_groups) simp_all
  also have "\<dots> = (\<Sum>p\<leftarrow>mw_positions w. if po_userId p = u then g p else 0)"
    unfolding sum_sorted sum_filter_if ..
  finally show ?thesis .
qed


lemma item_position_count: "length (pi_positions (buildPortfolioItem now m ps)) = (\<Sum>p\<leftarrow>ps. 1)"
  by (simp add: item_amounts sum_list_triv)

text \<open>
  A user's portfolio accounts for all of the user's positions: its summary counts every
  one of them, and its staked, open, refunded and settled amounts are the stakes, the open
  stakes, the payouts of what was refunded or sold, and the payouts of what was won or lost.
  The lock of the user covers the open amount it shows.
\<close>

theorem portfolio_accounts_for_positions:
  fixes cs :: "market_command list" and u :: nat
  defines "w \<equiv> runMarkets cs emptyMarkets" and "mine \<equiv> filter (\<lambda>p. po_userId p = u) (mw_positions (runMarkets cs emptyMarkets))"
  shows "let su = snd (getPredictionMarketPortfolio now u Filter_all w)
    in su_positionCount su = length mine \<and>
       su_totalStakeAmount su = (\<Sum>p\<leftarrow>mine. po_stakeAmount p) \<and>
       su_openStakeAmount su = (\<Sum>p\<leftarrow>mine. if po_status p = Pos_open then po_stakeAmount p else 0) \<and>
       su_refundedAmount su = (\<Sum>p\<leftarrow>mine. if po_status p \<in> {Pos_refunded, Pos_sold} then po_payoutAmount p else 0) \<and>
       su_settledPayoutAmount su = (\<Sum>p\<leftarrow>mine. if po_status p \<in> {Pos_won, Pos_lost} then po_payoutAmount p else 0) \<and>
       su_openStakeAmount su \<le> locked_balance (balanceOf u B_LUCK (mw_economy w))"
proof -
  note ok = reachable_ok [of cs, folded w_def]
  have mine: "(\<Sum>p\<leftarrow>mine. g p) = (\<Sum>p\<leftarrow>mw_positions w. if po_userId p = u then g p else 0)"
    for g :: "position \<Rightarrow> int"
    unfolding mine_def w_def sum_filter_if ..
  let ?items = "listUserPredictionMarketPortfolioItems now u w"
  note sums = sum_portfolio [OF ok, where now = now and u = u]
  have stake: "(\<Sum>i\<leftarrow>?items. pi_totalStakeAmount i) = (\<Sum>p\<leftarrow>mine. po_stakeAmount p)"
    unfolding mine by (rule sums [OF item_amounts(1)])
  have opened: "(\<Sum>i\<leftarrow>?items. pi_openStakeAmount i) =
      (\<Sum>p\<leftarrow>mine. if po_status p = Pos_open then po_stakeAmount p else 0)"
    unfolding mine by (rule sums [OF item_amounts(2)])
  have refunded: "(\<Sum>i\<leftarrow>?items. pi_refundedAmount i) =
      (\<Sum>p\<leftarrow>mine. if po_status p \<in> {Pos_refunded, Pos_sold} then po_payoutAmount p else 0)"
    unfolding mine by (rule sums [OF item_amounts(3)])
  have settled: "(\<Sum>i\<leftarrow>?items. pi_settledPayoutAmount i) =
      (\<Sum>p\<leftarrow>mine. if po_status p \<in> {Pos_won, Pos_lost} then po_payoutAmount p else 0)"
    unfolding mine by (rule sums [OF item_amounts(4)])
  have number: "(\<Sum>i\<leftarrow>?items. length (pi_positions i)) = length mine"
    using sums [OF item_position_count] unfolding sum_filter_if [symmetric]
    by (simp add: mine_def w_def sum_list_triv)
  have "(\<Sum>p\<leftarrow>mine. if po_status p = Pos_open then po_stakeAmount p else 0) = openStakes u w"
    unfolding mine openStakes_def by (rule sum_list_congI) (auto simp: openPosition_def)
  with marketsOkD(8) [OF ok, of u] opened have
    "(\<Sum>i\<leftarrow>?items. pi_openStakeAmount i) \<le> locked_balance (balanceOf u B_LUCK (mw_economy w))" by simp
  then show ?thesis
    by (simp add: getPredictionMarketPortfolio_def Let_def buildPortfolioSummary_def stake opened refunded settled number)
qed

subsection \<open>Pages\<close>

lemma last_page:
  assumes "\<not> snd (buildOffsetPage xs n limit)" and "0 < n"
  shows "length xs \<le> n * limit"
proof -
  obtain k where n: "n = Suc k" using assms(2) by (cases n) auto
  from assms(1) have "min (length xs - k * limit) (limit + 1) \<le> limit"
    by (simp add: buildOffsetPage_def Let_def n min.commute)
  then show ?thesis by (simp add: n min_def split: if_split_asm)
qed

text \<open>
  Going through a user's history page by page until there is no next page shows every
  item of the portfolio once, in its order; the summary is that of the whole portfolio.
\<close>

theorem history_pages_show_everything:
  assumes "0 < limit" and "0 < n" and "\<not> snd (fst (getPredictionMarketHistory now u f n limit w))"
  shows "concat (map (\<lambda>k. fst (fst (getPredictionMarketHistory now u f k limit w))) [1..<Suc n]) =
      fst (getPredictionMarketPortfolio now u f w) \<and>
    snd (getPredictionMarketHistory now u f n limit w) = snd (getPredictionMarketPortfolio now u f w)"
proof -
  let ?xs = "filterPortfolioItemsByStatus (listUserPredictionMarketPortfolioItems now u w) f"
  have page: "fst (buildOffsetPage xs k limit) = take limit (drop ((k - 1) * limit) xs)" for xs :: "portfolio_item list" and k
    by (simp add: buildOffsetPage_def Let_def min_def)
  have pages: "concat (map (\<lambda>k. take limit (drop ((k - 1) * limit) xs)) [1..<Suc m]) = take (m * limit) xs"
    for xs :: "portfolio_item list" and m
  proof (induction m)
    case (Suc m)
    have "concat (map (\<lambda>k. take limit (drop ((k - 1) * limit) xs)) [1..<Suc (Suc m)]) =
        take (m * limit) xs @ take limit (drop (m * limit) xs)"
      using Suc by simp
    also have "\<dots> = take (m * limit + limit) xs" by (simp add: take_add)
    finally show ?case by (simp add: add.commute)
  qed simp
  from assms(3) have "\<not> snd (buildOffsetPage ?xs n limit)"
    by (simp add: getPredictionMarketHistory_def Let_def)
  from last_page [OF this assms(2)] have "length ?xs \<le> n * limit" .
  then show ?thesis
    by (simp only: getPredictionMarketHistory_def getPredictionMarketPortfolio_def Let_def fst_conv snd_conv page pages)
      simp
qed

definition sampleShown :: market_world where
  "sampleShown = emptyMarkets\<lparr>mw_markets := [sampleMarket, sampleMarket\<lparr>mk_id := 2\<rparr>],
     mw_positions := [samplePosition, samplePosition\<lparr>po_id := 2, po_marketId := 2\<rparr>]\<rparr>"

theorem history_pages_show_everything_witness:
  "concat (map (\<lambda>k. fst (fst (getPredictionMarketHistory 50 1 Filter_all k 1 sampleShown))) [1..<Suc 2]) =
     fst (getPredictionMarketPortfolio 50 1 Filter_all sampleShown)"
proof -
  have "\<not> snd (fst (getPredictionMarketHistory 50 1 Filter_all 2 1 sampleShown))"
    by code_simp
  from history_pages_show_everything [OF _ _ this] show ?thesis by simp
qed

end
