(* ===== verification/Js_Number.thy ===== *)
theory Js_Number
  imports Decimal_Rounding "HOL-Library.Log_Nat"
begin

text \<open>
  The numbers of JavaScript, as far as the draws compute with them: a finite number is a
  rational, and \<open>dbl\<close> rounds the result of an operation to a binary64 number, to nearest with
  ties to even.  Magnitudes stay between $2^{-1022}$ and $2^{1024}$, so subnormal numbers and
  infinities do not occur.  Next to it stand \<open>Math.round\<close>, the decimal number a double is
  printed as, which is what \<open>new Decimal(number)\<close> reads, and the sums and products of
  \<open>decimal.js\<close>.
\<close>

subsection \<open>Rounding to a double\<close>

text \<open>The exponent of the leading bit of a positive number.\<close>

definition binaryExponent :: "rat \<Rightarrow> int" where
  "binaryExponent x =
     (let (a, b) = quotient_of x; e = int (floorlog 2 (nat a)) - int (floorlog 2 (nat b))
      in if power_int 2 e \<le> x then e else e - 1)"

definition roundHalfEven :: "rat \<Rightarrow> int" where
  "roundHalfEven y =
     (let f = \<lfloor>y\<rfloor>; d = y - of_int f
      in if d < 1 / 2 then f else if 1 / 2 < d then f + 1 else if even f then f else f + 1)"

definition dbl :: "rat \<Rightarrow> rat" where
  "dbl x =
     (if x = 0 then 0
      else let unit = power_int 2 (binaryExponent \<bar>x\<bar> - 52)
           in sgn x * of_int (roundHalfEven (\<bar>x\<bar> / unit)) * unit)"

text \<open>\<open>Math.round\<close>: to the nearest integer, a half upwards.\<close>

definition jsRound :: "rat \<Rightarrow> int" where
  "jsRound x = \<lfloor>x + 1 / 2\<rfloor>"

text \<open>The integer part, as \<open>new Date\<close> takes it.\<close>

definition jsTrunc :: "rat \<Rightarrow> int" where
  "jsTrunc x = (if 0 \<le> x then \<lfloor>x\<rfloor> else - \<lfloor>- x\<rfloor>)"

text \<open>The sum of two numbers that are integers.\<close>

definition numAdd :: "int \<Rightarrow> int \<Rightarrow> int" where
  "numAdd m n = \<lfloor>dbl (of_int (m + n))\<rfloor>"

subsection \<open>Printing a double\<close>

text \<open>
  \<open>Number::toString\<close> takes the fewest significant digits that still read back as the same
  double, and among those the decimal closest to it; 17 digits always do.
\<close>

definition digitsCandidates :: "rat \<Rightarrow> nat \<Rightarrow> rat list" where
  "digitsCandidates x k =
     (let unit = power_int 10 (decimalExponent x - int k + 1); low = of_int \<lfloor>x / unit\<rfloor> * unit
      in filter (\<lambda>c. dbl c = x) (if x - low \<le> low + unit - x then [low, low + unit] else [low + unit, low]))"

definition numberDecimal :: "rat \<Rightarrow> rat" where
  "numberDecimal x =
     (if x = 0 then 0
      else case concat (map (digitsCandidates \<bar>x\<bar>) [1..<18]) of
             [] \<Rightarrow> x
           | c # _ \<Rightarrow> sgn x * c)"

subsection \<open>Operations of \<open>decimal.js\<close>\<close>

definition decPlus :: "rat \<Rightarrow> rat \<Rightarrow> rat" where
  "decPlus a b = decimalRound (a + b)"

definition decMul :: "rat \<Rightarrow> rat \<Rightarrow> rat" where
  "decMul a b = decimalRound (a * b)"

definition decDiv :: "rat \<Rightarrow> rat \<Rightarrow> rat" where
  "decDiv a b = decimalRound (a / b)"

subsection \<open>Accuracy\<close>

lemma floorlog_powi:
  assumes "0 < a"
  shows "power_int 2 (int (floorlog 2 (nat a)) - 1) \<le> (of_int a :: rat)"
    and "(of_int a :: rat) < power_int 2 (int (floorlog 2 (nat a)))"
proof -
  let ?k = "floorlog 2 (nat a)"
  have "2 ^ (?k - 1) \<le> nat a \<and> nat a < 2 ^ ?k" using assms by (intro floorlog_bounds) auto
  then have "int (2 ^ (?k - 1)) \<le> int (nat a)" "int (nat a) < int (2 ^ ?k)" by (simp_all only: of_nat_le_iff of_nat_less_iff)
  then have "2 ^ (?k - 1) \<le> a" "a < 2 ^ ?k" using assms by simp_all
  then have low: "(of_int (2 ^ (?k - 1)) :: rat) \<le> of_int a" and high: "(of_int a :: rat) < of_int (2 ^ ?k)"
    by (simp_all only: of_int_le_iff of_int_less_iff)
  have "?k \<noteq> 0" using assms by (simp add: floorlog_eq_zero_iff)
  then have "int ?k - 1 = int (?k - 1)" by simp
  with low show "power_int 2 (int ?k - 1) \<le> (of_int a :: rat)"
    by (simp add: power_int_of_nat del: of_nat_diff)
  from high show "(of_int a :: rat) < power_int 2 (int ?k)" by (simp add: power_int_of_nat)
qed

lemma binaryExponent_le:
  assumes "0 < x"
  shows "power_int 2 (binaryExponent x) \<le> x"
proof -
  obtain a b where q: "quotient_of x = (a, b)" by (cases "quotient_of x")
  have b: "0 < b" and x: "x = of_int a / of_int b"
    using quotient_of_denom_pos [OF q] quotient_of_div [OF q] by simp_all
  have a: "0 < a" using assms b by (simp add: x zero_less_divide_iff)
  let ?i = "int (floorlog 2 (nat a))" and ?j = "int (floorlog 2 (nat b))"
  have "power_int 2 (?i - 1) / power_int 2 ?j \<le> (of_int a / of_int b :: rat)"
    by (rule frac_le) (use floorlog_powi [OF a] floorlog_powi [OF b] a b in \<open>simp_all add: less_imp_le\<close>)
  moreover have "power_int 2 (s - t) = (power_int 2 s / power_int 2 t :: rat)" for s t
    by (simp add: power_int_diff)
  moreover have "?i - ?j - 1 = (?i - 1) - ?j" by simp
  ultimately have "power_int 2 (?i - ?j - 1) \<le> x" by (simp only: x)
  then show ?thesis by (auto simp: binaryExponent_def q Let_def)
qed

lemma roundHalfEven_close: "\<bar>of_int (roundHalfEven y) - y\<bar> \<le> 1 / 2"
proof -
  have "of_int \<lfloor>y\<rfloor> \<le> y" "y < of_int \<lfloor>y\<rfloor> + 1" by linarith+
  then show ?thesis by (auto simp: roundHalfEven_def Let_def abs_le_iff)
qed

lemma roundHalfEven_int [simp]: "roundHalfEven (of_int n) = n"
  by (simp add: roundHalfEven_def Let_def)

lemma dbl_close:
  assumes "0 \<le> x"
  shows "\<bar>dbl x - x\<bar> \<le> x / 2 ^ 53"
proof (cases "x = 0")
  case False
  with assms have pos: "0 < x" by simp
  define u :: rat where "u = power_int 2 (binaryExponent x - 52)"
  have u: "0 < u" by (simp add: u_def)
  have r: "dbl x = of_int (roundHalfEven (x / u)) * u"
    using pos by (simp add: dbl_def Let_def u_def)
  have "\<bar>of_int (roundHalfEven (x / u)) - x / u\<bar> * u \<le> 1 / 2 * u"
    using u roundHalfEven_close by (intro mult_right_mono) auto
  moreover have "\<bar>of_int (roundHalfEven (x / u)) - x / u\<bar> * u = \<bar>dbl x - x\<bar>"
    using u by (simp only: r abs_mult_pos [OF less_imp_le [OF u]] left_diff_distrib) simp
  moreover have "u \<le> x / 2 ^ 52"
    using binaryExponent_le [OF pos] by (simp add: u_def power_int_diff divide_right_mono)
  ultimately show ?thesis by simp
qed (simp add: dbl_def)

text \<open>Whole numbers below $2^{53}$ are doubles.\<close>

lemma dbl_int:
  assumes "\<bar>n\<bar> < 2 ^ 53"
  shows "dbl (of_int n) = of_int n"
proof (cases "n = 0")
  case False
  define m where "m = \<bar>n\<bar>"
  have m: "0 < m" "m < 2 ^ 53" using False assms by (simp_all add: m_def)
  let ?e = "binaryExponent (of_int m)"
  have "(of_int m :: rat) < of_int (2 ^ 53)" using m(2) by (simp only: of_int_less_iff)
  moreover have "(0 :: rat) < of_int m" using m(1) by simp
  ultimately have "power_int 2 ?e < (power_int 2 53 :: rat)"
    using binaryExponent_le [of "of_int m"] by simp
  then have "?e < 53" using power_int_increasing [of 53 ?e "2 :: rat"] by (rule_tac ccontr) (simp add: not_less)
  then have "0 \<le> 52 - ?e" by simp
  then obtain k where k: "52 - ?e = int k" using nonneg_int_cases by blast
  then have e: "?e - 52 = - int k" by simp
  have "(of_int m :: rat) / power_int 2 (- int k) = of_int (m * 2 ^ k)"
    by (simp add: power_int_minus power_int_of_nat divide_inverse)
  then have "of_int (roundHalfEven (of_int m / power_int 2 (- int k))) * power_int 2 (- int k)
      = of_int (m * 2 ^ k) * (power_int 2 (- int k) :: rat)"
    by (simp only: roundHalfEven_int)
  also have "\<dots> = (of_int m :: rat)"
    by (simp add: power_int_minus power_int_of_nat divide_inverse [symmetric])
  finally have unit: "of_int (roundHalfEven (of_int m / power_int 2 (- int k))) * power_int 2 (- int k)
      = (of_int m :: rat)" .
  have abs: "\<bar>of_int n :: rat\<bar> = of_int m" by (simp add: m_def)
  have "dbl (of_int n) = sgn (of_int n) * (of_int (roundHalfEven (of_int m / power_int 2 (- int k)))
      * power_int 2 (- int k))"
    using False by (simp add: dbl_def Let_def abs e mult.assoc)
  then have "dbl (of_int n) = sgn (of_int n) * (of_int m :: rat)" by (simp only: unit)
  also have "\<dots> = of_int n" by (simp add: m_def sgn_if)
  finally show ?thesis .
qed (simp add: dbl_def)

lemma numAdd_exact: "\<bar>m + n\<bar> < 2 ^ 53 \<Longrightarrow> numAdd m n = m + n"
  using dbl_int [of "m + n"] by (simp add: numAdd_def del: of_int_add)

lemma jsRound_int [simp]: "jsRound (of_int n) = n"
proof -
  have "\<lfloor>of_int n + 1 / 2 :: rat\<rfloor> = n" by linarith
  then show ?thesis by (simp add: jsRound_def)
qed

text \<open>The floor of a quotient of whole numbers survives the rounding to a double.\<close>

lemma floor_dbl_divide:
  assumes "0 \<le> n" and "n < 2 ^ 53" and "0 < d"
  shows "\<lfloor>dbl (of_int n / of_int d)\<rfloor> = n div d"
proof -
  define q where "q = n div d"
  define x :: rat where "x = of_int n / of_int d"
  have x0: "0 \<le> x" using assms by (simp add: x_def)
  have dpos: "(0 :: rat) < of_int d" using assms by simp
  have "q * d + n mod d = n" by (simp add: q_def)
  moreover have "0 \<le> n mod d" "n mod d < d" using assms by simp_all
  ultimately have "q * d \<le> n" "n + 1 \<le> (q + 1) * d" by (simp_all add: distrib_right)
  then have "of_int (q * d) \<le> (of_int n :: rat)" "(of_int (n + 1) :: rat) \<le> of_int ((q + 1) * d)"
    by (simp_all only: of_int_le_iff)
  then have low: "of_int q \<le> x" and high: "x + 1 / of_int d \<le> of_int q + 1"
    using dpos by (simp_all add: x_def field_simps)
  have "(of_int n :: rat) < of_int (2 ^ 53)" using assms(2) by (simp only: of_int_less_iff)
  then have "(of_int n :: rat) / 2 ^ 53 < 1" by simp
  then have small: "x / 2 ^ 53 < 1 / of_int d"
    using dpos by (simp add: x_def divide_divide_eq_left mult.commute divide_less_eq)
  have "dbl x < of_int q + 1" using dbl_close [OF x0] small high by linarith
  moreover have "of_int q \<le> dbl x"
  proof (cases "x = of_int q")
    case True
    have "0 \<le> q" using assms by (simp add: q_def pos_imp_zdiv_nonneg_iff)
    moreover have "q \<le> n" using assms \<open>q * d \<le> n\<close> \<open>0 \<le> q\<close> by (smt (verit) mult_le_cancel_left1)
    ultimately show ?thesis using dbl_int [of q] assms True by simp
  next
    case False
    have "\<not> d dvd n" using False low dpos assms by (auto simp: x_def q_def elim!: dvdE)
    then have "q * d + 1 \<le> n" using \<open>q * d \<le> n\<close> by (cases "q * d = n") auto
    then have "(of_int (q * d + 1) :: rat) \<le> of_int n" by (simp only: of_int_le_iff)
    then have "of_int q * of_int d + 1 \<le> (of_int n :: rat)" by simp
    then have "(of_int q * of_int d + 1) / of_int d \<le> x"
      unfolding x_def using dpos by (intro divide_right_mono) simp_all
    then have "of_int q + 1 / of_int d \<le> x" using dpos by (simp add: add_divide_distrib)
    then show ?thesis using dbl_close [OF x0] small by linarith
  qed
  ultimately show ?thesis by (simp add: floor_unique q_def x_def)
qed

lemma decPlus_int:
  assumes "0 \<le> m" "0 \<le> n" "m + n < 10 ^ 20"
  shows "decPlus (of_int m) (of_int n) = of_int (m + n)"
  using decimalRound_int [of "m + n"] assms by (simp add: decPlus_def)

lemma decMul_int:
  assumes "0 \<le> m" "0 \<le> n" "m * n < 10 ^ 20"
  shows "decMul (of_int m) (of_int n) = of_int (m * n)"
  using decimalRound_int [of "m * n"] assms by (simp add: decMul_def)

end
