(* ===== verification/Fairness_Seeds.thy ===== *)
theory Fairness_Seeds
  imports Fair_Random Js_Number
begin

text \<open>
  Commit and reveal, \<open>modules/fairness/service.ts\<close>: every epoch has one server seed, whose
  hash is published while the epoch lasts; the seed itself is shown, and its hash checked by
  an audit, only when the epoch is over.  The tables are lists of rows; the clock, the random
  seed and the run mode come in an environment.  A column of type \<open>integer\<close> takes only whole
  numbers of 32 bits, the database refuses other values.
\<close>

subsection \<open>Tables\<close>

record seed_row =
  sr_epoch :: int
  sr_epochSeconds :: int
  sr_commitHash :: string
  sr_seed :: "string option"
  sr_revealedAt :: "int option"

record fair_audit =
  fa_epoch :: int
  fa_epochSeconds :: int
  fa_commitHash :: "string option"
  fa_computedHash :: "string option"
  fa_matches :: bool
  fa_failureCode :: "string option"
  fa_revealedAt :: "int option"
  fa_auditedAt :: int

record fair_store =
  fs_seeds :: "seed_row list"
  fs_audits :: "fair_audit list"

record fair_env =
  fv_now :: int
  fv_randomHex :: string
  fv_sha256 :: hash_function
  fv_development :: bool

record fair_seed =
  fe_epoch :: int
  fe_epochSeconds :: rat
  fe_commitHash :: string
  fe_seed :: string

record fair_reveal =
  fr_epoch :: int
  fr_epochSeconds :: rat
  fr_commitHash :: string
  fr_seed :: string
  fr_revealedAt :: int

record audit_streak =
  st_count :: nat
  st_latestEpoch :: "int option"
  st_earliestEpoch :: "int option"

record audit_summary =
  as_latestAuditedEpoch :: "int option"
  as_lastAuditPassed :: "bool option"
  as_lastAuditedAt :: "int option"
  as_consecutiveVerifiedEpochs :: nat
  as_consecutiveVerifiedDays :: int

record pending_audit =
  pa_epochSeconds :: rat
  pa_currentEpoch :: int
  pa_auditedEpochs :: nat
  pa_verifiedEpochs :: nat
  pa_failedEpochs :: nat

subsection \<open>Epochs and hashes\<close>

definition dbInteger :: "rat \<Rightarrow> int res" where
  "dbInteger x =
     (if x = of_int \<lfloor>x\<rfloor> \<and> \<bar>x\<bar> < 2147483648 then Inr \<lfloor>x\<rfloor>
      else Inl (PlainError ''value is not an integer of the database''))"

definition DEFAULT_EPOCH_SECONDS :: rat where
  "DEFAULT_EPOCH_SECONDS = 3600"

definition SECONDS_PER_DAY :: rat where
  "SECONDS_PER_DAY = 86400"

definition FAIRNESS_STREAK_BATCH_SIZE :: nat where
  "FAIRNESS_STREAK_BATCH_SIZE = 256"

definition hashSeed :: "hash_function \<Rightarrow> string \<Rightarrow> string" where
  "hashSeed sha256 sd = toHex (sha256 sd)"

definition resolveEpochSeconds :: "rat option \<Rightarrow> rat" where
  "resolveEpochSeconds secs =
     (let parsed = (case secs of None \<Rightarrow> 0 | Some s \<Rightarrow> s)
      in if parsed > 0 then parsed else DEFAULT_EPOCH_SECONDS)"

definition currentEpoch :: "rat \<Rightarrow> int \<Rightarrow> int" where
  "currentEpoch secs now = \<lfloor>dbl (of_int now / dbl (secs * 1000))\<rfloor>"

definition toEpochDayBucket :: "int \<Rightarrow> rat \<Rightarrow> int" where
  "toEpochDayBucket ep secs = \<lfloor>dbl (dbl (of_int ep * secs) / SECONDS_PER_DAY)\<rfloor>"

definition verifyFairnessSeed :: "hash_function \<Rightarrow> string \<Rightarrow> string \<Rightarrow> string \<times> bool" where
  "verifyFairnessSeed sha256 sd commit =
     (let computedHash = hashSeed sha256 sd in (computedHash, computedHash = commit))"

subsection \<open>Seeds\<close>

definition loadFairnessSeed :: "int \<Rightarrow> rat \<Rightarrow> fair_store \<Rightarrow> seed_row option res" where
  "loadFairnessSeed ep secs fs =
     bind_res (dbInteger (of_int ep)) (\<lambda>e.
     bind_res (dbInteger secs) (\<lambda>s.
     Inr (find (\<lambda>r. sr_epoch r = e \<and> sr_epochSeconds r = s) (fs_seeds fs))))"

text \<open>A row counts when both its strings are there and not empty.\<close>

definition usableSeed :: "seed_row option \<Rightarrow> (string \<times> string) option" where
  "usableSeed r =
     (case r of None \<Rightarrow> None
      | Some row \<Rightarrow>
          (case sr_seed row of None \<Rightarrow> None
           | Some s \<Rightarrow> if s = [] \<or> sr_commitHash row = [] then None else Some (s, sr_commitHash row)))"

text \<open>\<open>INSERT \<dots> ON CONFLICT DO NOTHING\<close> under the unique index on epoch and length.\<close>

definition insertFairnessSeed :: "seed_row \<Rightarrow> fair_store \<Rightarrow> fair_store" where
  "insertFairnessSeed row fs =
     (if \<exists>r \<in> set (fs_seeds fs). sr_epoch r = sr_epoch row \<and> sr_epochSeconds r = sr_epochSeconds row
      then fs else fs\<lparr>fs_seeds := fs_seeds fs @ [row]\<rparr>)"

definition ensureFairnessSeed ::
  "fair_env \<Rightarrow> rat option \<Rightarrow> fair_store \<Rightarrow> (fair_seed \<times> fair_store) res" where
  "ensureFairnessSeed env secs fs =
     (let seconds = resolveEpochSeconds secs; ep = currentEpoch seconds (fv_now env)
      in bind_res (loadFairnessSeed ep seconds fs) (\<lambda>existing.
         case usableSeed existing of
           Some (sd, commit) \<Rightarrow>
             Inr (\<lparr>fe_epoch = ep, fe_epochSeconds = seconds, fe_commitHash = commit, fe_seed = sd\<rparr>, fs)
         | None \<Rightarrow>
             let sd = fv_randomHex env;
                 fs1 = insertFairnessSeed \<lparr>sr_epoch = ep, sr_epochSeconds = \<lfloor>seconds\<rfloor>,
                   sr_commitHash = hashSeed (fv_sha256 env) sd, sr_seed = Some sd, sr_revealedAt = None\<rparr> fs
             in bind_res (loadFairnessSeed ep seconds fs1) (\<lambda>created.
                case created of
                  None \<Rightarrow> Inl (PersistenceError ''Failed to create fairness seed.'')
                | Some row \<Rightarrow>
                    (case sr_seed row of
                       None \<Rightarrow> Inl (PersistenceError ''Failed to create fairness seed.'')
                     | Some s \<Rightarrow>
                         if s = [] then Inl (PersistenceError ''Failed to create fairness seed.'')
                         else Inr (\<lparr>fe_epoch = ep, fe_epochSeconds = seconds,
                           fe_commitHash = sr_commitHash row, fe_seed = s\<rparr>, fs1)))))"

definition revealFairnessSeed ::
  "fair_env \<Rightarrow> int \<Rightarrow> rat option \<Rightarrow> fair_store \<Rightarrow> (fair_reveal option \<times> fair_store) res" where
  "revealFairnessSeed env ep secs fs =
     (let seconds = resolveEpochSeconds secs; current = currentEpoch seconds (fv_now env)
      in if ep < 0 then Inr (None, fs)
         else if ep \<ge> current then Inr (None, fs)
         else bind_res (loadFairnessSeed ep seconds fs) (\<lambda>existing.
           case usableSeed existing of
             None \<Rightarrow> Inr (None, fs)
           | Some (sd, commit) \<Rightarrow>
               let earlier = (case existing of None \<Rightarrow> None | Some row \<Rightarrow> sr_revealedAt row);
                   revealed = (case earlier of Some t \<Rightarrow> t | None \<Rightarrow> fv_now env);
                   fs1 = (if earlier = None
                          then fs\<lparr>fs_seeds := map (\<lambda>r. if Some r = existing
                                 then r\<lparr>sr_revealedAt := Some revealed\<rparr> else r) (fs_seeds fs)\<rparr>
                          else fs)
               in Inr (Some \<lparr>fr_epoch = ep, fr_epochSeconds = seconds, fr_commitHash = commit,
                         fr_seed = sd, fr_revealedAt = revealed\<rparr>, fs1)))"

subsection \<open>Audits\<close>

text \<open>\<open>ON CONFLICT DO UPDATE\<close>: the row of the epoch is overwritten.\<close>

definition upsertFairnessAudit :: "fair_audit \<Rightarrow> fair_store \<Rightarrow> fair_store" where
  "upsertFairnessAudit a fs =
     (if \<exists>b \<in> set (fs_audits fs). fa_epoch b = fa_epoch a \<and> fa_epochSeconds b = fa_epochSeconds a
      then fs\<lparr>fs_audits := map (\<lambda>b. if fa_epoch b = fa_epoch a \<and> fa_epochSeconds b = fa_epochSeconds a
                then a else b) (fs_audits fs)\<rparr>
      else fs\<lparr>fs_audits := fs_audits fs @ [a]\<rparr>)"

definition saveFairnessAudit ::
  "int \<Rightarrow> rat \<Rightarrow> (int \<Rightarrow> int \<Rightarrow> fair_audit) \<Rightarrow> fair_store \<Rightarrow> (fair_audit \<times> fair_store) res" where
  "saveFairnessAudit ep seconds mk fs =
     bind_res (dbInteger (of_int ep)) (\<lambda>e.
     bind_res (dbInteger seconds) (\<lambda>s. Inr (mk e s, upsertFairnessAudit (mk e s) fs)))"

definition failedAudit ::
  "string option \<Rightarrow> string \<Rightarrow> int option \<Rightarrow> int \<Rightarrow> int \<Rightarrow> int \<Rightarrow> fair_audit" where
  "failedAudit commit code revealed auditedAt e s =
     \<lparr>fa_epoch = e, fa_epochSeconds = s, fa_commitHash = commit, fa_computedHash = None,
      fa_matches = False, fa_failureCode = Some code, fa_revealedAt = revealed, fa_auditedAt = auditedAt\<rparr>"

definition auditFairnessEpoch ::
  "fair_env \<Rightarrow> int \<Rightarrow> rat option \<Rightarrow> fair_store \<Rightarrow> (fair_audit \<times> fair_store) res" where
  "auditFairnessEpoch env ep secs fs =
     (let seconds = resolveEpochSeconds secs; current = currentEpoch seconds (fv_now env);
          auditedAt = fv_now env
      in if ep < 0 then saveFairnessAudit ep seconds (failedAudit None ''invalid_epoch'' None auditedAt) fs
         else if ep \<ge> current
         then saveFairnessAudit ep seconds (failedAudit None ''epoch_not_closed'' None auditedAt) fs
         else bind_res (loadFairnessSeed ep seconds fs) (\<lambda>existing.
           let revealedBefore = (case existing of None \<Rightarrow> None | Some row \<Rightarrow> sr_revealedAt row) in
           case usableSeed existing of
             None \<Rightarrow> saveFairnessAudit ep seconds
               (failedAudit (map_option sr_commitHash existing) ''seed_missing'' revealedBefore auditedAt) fs
           | Some (_, commit) \<Rightarrow>
               bind_res (revealFairnessSeed env ep (Some seconds) fs) (\<lambda>(reveal, fs1).
               case reveal of
                 None \<Rightarrow> saveFairnessAudit ep seconds
                   (failedAudit (Some commit) ''reveal_unavailable'' revealedBefore auditedAt) fs1
               | Some v \<Rightarrow>
                   let verification = verifyFairnessSeed (fv_sha256 env) (fr_seed v) (fr_commitHash v)
                   in saveFairnessAudit ep seconds
                     (\<lambda>e s. \<lparr>fa_epoch = e, fa_epochSeconds = s, fa_commitHash = Some (fr_commitHash v),
                        fa_computedHash = Some (fst verification), fa_matches = snd verification,
                        fa_failureCode = (if snd verification then None else Some ''commit_mismatch''),
                        fa_revealedAt = Some (fr_revealedAt v), fa_auditedAt = auditedAt\<rparr>) fs1)))"

fun auditEpochs ::
  "fair_env \<Rightarrow> rat \<Rightarrow> int list \<Rightarrow> nat \<times> nat \<Rightarrow> fair_store \<Rightarrow> ((nat \<times> nat) \<times> fair_store) res" where
  "auditEpochs env seconds [] tally fs = Inr (tally, fs)"
| "auditEpochs env seconds (e # es) (verified, failed) fs =
     bind_res (auditFairnessEpoch env e (Some seconds) fs) (\<lambda>(a, fs1).
       auditEpochs env seconds es
         (if fa_matches a then (verified + 1, failed) else (verified, failed + 1)) fs1)"

text \<open>The audits of one epoch length, latest epoch first.\<close>

definition auditsDesc :: "int \<Rightarrow> fair_store \<Rightarrow> fair_audit list" where
  "auditsDesc s fs = rev (sort_key fa_epoch (filter (\<lambda>a. fa_epochSeconds a = s) (fs_audits fs)))"

definition auditPendingFairnessEpochs ::
  "fair_env \<Rightarrow> rat option \<Rightarrow> fair_store \<Rightarrow> (pending_audit \<times> fair_store) res" where
  "auditPendingFairnessEpochs env secs fs =
     (let seconds = resolveEpochSeconds secs
      in bind_res (ensureFairnessSeed env (Some seconds) fs) (\<lambda>(_, fs1).
         let current = currentEpoch seconds (fv_now env)
         in if current \<le> 0
            then Inr (\<lparr>pa_epochSeconds = seconds, pa_currentEpoch = current, pa_auditedEpochs = 0,
                       pa_verifiedEpochs = 0, pa_failedEpochs = 0\<rparr>, fs1)
            else
              let startEpoch = (case auditsDesc \<lfloor>seconds\<rfloor> fs1 of
                    a # _ \<Rightarrow> fa_epoch a + 1
                  | [] \<Rightarrow> if fv_development env then current else max (current - 1) 0)
              in bind_res (auditEpochs env seconds [startEpoch..current - 1] (0, 0) fs1)
                   (\<lambda>((verified, failed), fs2).
                     Inr (\<lparr>pa_epochSeconds = seconds, pa_currentEpoch = current,
                            pa_auditedEpochs = verified + failed, pa_verifiedEpochs = verified,
                            pa_failedEpochs = failed\<rparr>, fs2))))"

subsection \<open>The streak of verified epochs\<close>

text \<open>One page of the loop: an early return is \<open>Inl\<close>, the state after the page \<open>Inr\<close>.\<close>

fun scanAuditPage ::
  "fair_audit list \<Rightarrow> audit_streak \<times> int option \<Rightarrow> audit_streak + (audit_streak \<times> int option)" where
  "scanAuditPage [] (st, expected) = Inr (st, expected)"
| "scanAuditPage (row # rows) (st, expected) =
     (if \<not> fa_matches row then Inl st
      else
        let currentExpectedEpoch = (case expected of None \<Rightarrow> fa_epoch row | Some e \<Rightarrow> e);
            st1 = (if expected = None then st\<lparr>st_latestEpoch := Some (fa_epoch row)\<rparr> else st)
        in if fa_epoch row \<noteq> currentExpectedEpoch then Inl st1
           else scanAuditPage rows
             (st1\<lparr>st_count := st_count st1 + 1, st_earliestEpoch := Some (fa_epoch row)\<rparr>,
              Some (currentExpectedEpoch - 1)))"

definition auditPage :: "fair_audit list \<Rightarrow> int option \<Rightarrow> fair_audit list" where
  "auditPage rows cursor =
     take FAIRNESS_STREAK_BATCH_SIZE
       (filter (\<lambda>a. case cursor of None \<Rightarrow> True | Some c \<Rightarrow> fa_epoch a < c) rows)"

function auditPages ::
  "fair_audit list \<Rightarrow> int option \<Rightarrow> audit_streak \<times> int option \<Rightarrow> audit_streak" where
  "auditPages rows cursor state =
     (let page = auditPage rows cursor
      in if page = [] then fst state
         else case scanAuditPage page state of
                Inl st \<Rightarrow> st
              | Inr state' \<Rightarrow> auditPages rows (Some (fa_epoch (last page))) state')"
  by pat_completeness auto
termination
proof (relation "measure (\<lambda>(rows, cursor, _).
    length (filter (\<lambda>a. case cursor of None \<Rightarrow> True | Some c \<Rightarrow> fa_epoch a < c) rows))")
  fix rows :: "fair_audit list" and cursor :: "int option"
    and state state' :: "audit_streak \<times> int option" and page :: "fair_audit list"
  assume page: "page = auditPage rows cursor" and nonempty: "page \<noteq> []"
  let ?P = "\<lambda>a. case cursor of None \<Rightarrow> True | Some c \<Rightarrow> fa_epoch a < c"
  let ?c = "fa_epoch (last page)"
  have "last page \<in> set (filter ?P rows)"
    using nonempty last_in_set [of page] unfolding page auditPage_def by (blast dest: in_set_takeD)
  then have last: "last page \<in> set rows" "?P (last page)" by simp_all
  have "filter (\<lambda>a. fa_epoch a < ?c) rows = filter (\<lambda>a. fa_epoch a < ?c) (filter ?P rows)"
    using last(2) by (auto simp: filter_filter intro!: filter_cong split: option.splits)
  then have "length (filter (\<lambda>a. fa_epoch a < ?c) rows) < length (filter ?P rows)"
    using length_filter_less [of "last page" "filter ?P rows" "\<lambda>a. fa_epoch a < ?c"] last by simp
  then show "((rows, Some ?c, state'), rows, cursor, state) \<in> measure (\<lambda>(rows, cursor, _).
      length (filter (\<lambda>a. case cursor of None \<Rightarrow> True | Some c \<Rightarrow> fa_epoch a < c) rows))"
    by simp
qed simp

declare auditPages.simps [simp del]

definition emptyStreak :: audit_streak where
  "emptyStreak = \<lparr>st_count = 0, st_latestEpoch = None, st_earliestEpoch = None\<rparr>"

definition countConsecutiveVerifiedEpochs :: "int \<Rightarrow> fair_store \<Rightarrow> audit_streak" where
  "countConsecutiveVerifiedEpochs s fs = auditPages (auditsDesc s fs) None (emptyStreak, None)"

definition EMPTY_AUDIT_SUMMARY :: audit_summary where
  "EMPTY_AUDIT_SUMMARY = \<lparr>as_latestAuditedEpoch = None, as_lastAuditPassed = None,
     as_lastAuditedAt = None, as_consecutiveVerifiedEpochs = 0, as_consecutiveVerifiedDays = 0\<rparr>"

definition buildAuditSummary :: "fair_audit option \<Rightarrow> audit_streak \<Rightarrow> rat \<Rightarrow> audit_summary" where
  "buildAuditSummary latest streak secs =
     (case latest of None \<Rightarrow> EMPTY_AUDIT_SUMMARY
      | Some a \<Rightarrow>
          \<lparr>as_latestAuditedEpoch = Some (fa_epoch a), as_lastAuditPassed = Some (fa_matches a),
           as_lastAuditedAt = Some (fa_auditedAt a), as_consecutiveVerifiedEpochs = st_count streak,
           as_consecutiveVerifiedDays =
             (case (st_latestEpoch streak, st_earliestEpoch streak) of
                (Some l, Some e) \<Rightarrow>
                  if st_count streak > 0
                  then toEpochDayBucket l secs - toEpochDayBucket e secs + 1 else 0
              | _ \<Rightarrow> 0)\<rparr>)"

definition getFairnessAuditSummary :: "rat option \<Rightarrow> fair_store \<Rightarrow> audit_summary res" where
  "getFairnessAuditSummary secs fs =
     (let seconds = resolveEpochSeconds secs
      in bind_res (dbInteger seconds) (\<lambda>s.
         case auditsDesc s fs of
           [] \<Rightarrow> Inr EMPTY_AUDIT_SUMMARY
         | latest # _ \<Rightarrow>
             Inr (buildAuditSummary (Some latest)
               (if fa_matches latest then countConsecutiveVerifiedEpochs s fs else emptyStreak) seconds)))"

definition getFairnessCommit ::
  "fair_env \<Rightarrow> rat option \<Rightarrow> fair_store \<Rightarrow> ((int \<times> rat \<times> string \<times> audit_summary) \<times> fair_store) res" where
  "getFairnessCommit env secs fs =
     bind_res (ensureFairnessSeed env secs fs) (\<lambda>(sd, fs1).
     bind_res (getFairnessAuditSummary (Some (fe_epochSeconds sd)) fs1) (\<lambda>audit.
     Inr ((fe_epoch sd, fe_epochSeconds sd, fe_commitHash sd, audit), fs1)))"

end
