(* ===== verification/Draw_Pick.thy ===== *)
theory Draw_Pick
  imports Fairness_Seeds
begin

text \<open>
  The small parts of a draw, \<open>modules/draw/helpers.ts\<close>: percentages, noise on the pool
  balance, jitter on the weights, and the pick by weight that the whole draw rests on.
  Weights are numbers that \<open>Math.round\<close> has made integers; their sums are rounded to a double.
  Texts that are hashed print a total weight in full, as JavaScript does below $10^{21}$.
\<close>

subsection \<open>Percentages and ranges\<close>

text \<open>\<open>Number(value)\<close> of a configured decimal, read as a percentage when it is above one.\<close>

definition normalizePct :: "rat \<Rightarrow> rat" where
  "normalizePct value = (let num = dbl value in if num > 1 then dbl (num / 100) else num)"

definition normalizeRangeValue :: "rat \<Rightarrow> rat" where
  "normalizeRangeValue value = (if \<bar>value\<bar> > 1 then dbl (value / 100) else value)"

text \<open>The number between \<open>low\<close> and \<open>high\<close> at a fraction of the way.\<close>

definition atFraction :: "rat \<Rightarrow> rat \<Rightarrow> rat \<Rightarrow> rat" where
  "atFraction low high fraction = dbl (low + dbl (dbl (high - low) * fraction))"

text \<open>\<open>drawn\<close> is what \<open>randomInt(0, 1000001)\<close> returned.\<close>

definition randomFloat :: "nat \<Rightarrow> rat \<Rightarrow> rat \<Rightarrow> rat" where
  "randomFloat drawn low high =
     (if high \<le> low then low else atFraction low high (dbl (of_nat drawn / 1000000)))"

definition hashFraction :: "hash_function \<Rightarrow> string \<Rightarrow> rat" where
  "hashFraction sha256 payload = dbl (of_nat (readUInt32BE (sha256 payload)) / 4294967295)"

definition seededFloat :: "hash_function \<Rightarrow> string \<Rightarrow> string \<Rightarrow> string \<Rightarrow> rat \<Rightarrow> rat \<Rightarrow> rat" where
  "seededFloat sha256 sd nonce salt low high =
     (if high \<le> low then low
      else atFraction low high (hashFraction sha256 (sd @ '':'' @ nonce @ '':'' @ salt)))"

subsection \<open>Noise\<close>

text \<open>
  Amounts are in cents and the noise in currency units, so it counts a hundredfold.  The
  result is the balance a prize's threshold is compared with, and the noise itself.
\<close>

definition applyPoolNoise ::
  "hash_function \<Rightarrow> nat \<Rightarrow> int \<Rightarrow> bool \<Rightarrow> rat \<Rightarrow> rat \<Rightarrow> rat \<Rightarrow> cents \<Rightarrow> rat \<times> rat" where
  "applyPoolNoise sha256 drawn now noiseEnabled low high secs poolBalance =
     (if \<not> noiseEnabled \<or> (low = 0 \<and> high = 0) then (of_int poolBalance, 0)
      else
        let delta =
              (if secs > 0
               then atFraction low high
                 (hashFraction sha256 (show_digits (nat \<lfloor>dbl (of_int now / dbl (secs * 1000))\<rfloor>)))
               else randomFloat drawn low high)
        in (max (decPlus (of_int poolBalance) (numberDecimal delta * 100)) 0, delta))"

subsection \<open>The pick\<close>

definition deriveRandomPick :: "hash_function \<Rightarrow> int \<Rightarrow> string \<Rightarrow> string \<Rightarrow> int \<times> string" where
  "deriveRandomPick sha256 totalWeight sd clientNonce =
     (let hash = sha256 (sd @ '':'' @ clientNonce @ '':'' @ show_digits (nat totalWeight));
          value = int (readUInt32BE hash)
      in (value mod totalWeight + 1, toHex hash))"

definition totalOf :: "('a \<Rightarrow> int) \<Rightarrow> 'a list \<Rightarrow> int" where
  "totalOf wt items = foldl (\<lambda>sum item. numAdd sum (wt item)) 0 items"

fun pickAt :: "('a \<Rightarrow> int) \<Rightarrow> int \<Rightarrow> int \<Rightarrow> 'a list \<Rightarrow> 'a option" where
  "pickAt wt pick cursor [] = None"
| "pickAt wt pick cursor (item # items) =
     (let cursor = numAdd cursor (wt item)
      in if pick \<le> cursor then Some item else pickAt wt pick cursor items)"

text \<open>The chosen item, the pick and the total weight; the last item is the fallback.\<close>

definition pickByWeight :: "('a \<Rightarrow> int) \<Rightarrow> (int \<Rightarrow> int) \<Rightarrow> 'a list \<Rightarrow> ('a \<times> int \<times> int) option" where
  "pickByWeight wt rng items =
     (let totalWeight = totalOf wt items
      in if totalWeight \<le> 0 then None
         else let pick = rng totalWeight
              in case pickAt wt pick 0 items of
                   Some item \<Rightarrow> Some (item, pick, totalWeight)
                 | None \<Rightarrow> if items = [] then None else Some (last items, pick, totalWeight))"

subsection \<open>Jitter\<close>

text \<open>A prize as the cached pool has it: amounts in cents.\<close>

record candidate =
  ca_id :: nat
  ca_weight :: int
  ca_rewardAmount :: cents
  ca_poolThreshold :: cents
  ca_userPoolThreshold :: cents

record jitter_meta =
  jm_id :: nat
  jm_baseWeight :: int
  jm_jitteredWeight :: int
  jm_jitterDeltaPct :: rat

text \<open>
  Without a seed or nonce the delta would be random (\<open>drawn\<close> is what \<open>randomInt\<close> returned for
  the item); the draw always has both, and then it follows from them.
\<close>

definition jitteredWeight :: "rat \<Rightarrow> int \<Rightarrow> int" where
  "jitteredWeight delta w = max 1 (jsRound (dbl (of_int w * dbl (1 + delta))))"

definition applyWeightJitter ::
  "hash_function \<Rightarrow> (nat \<Rightarrow> nat) \<Rightarrow> bool \<Rightarrow> rat \<Rightarrow> rat \<Rightarrow> string \<Rightarrow> string \<Rightarrow> candidate list \<Rightarrow>
     candidate list \<times> jitter_meta list" where
  "applyWeightJitter sha256 drawn isEnabled low high sd nonce items =
     (if \<not> isEnabled \<or> (low = 0 \<and> high = 0)
      then (items, map (\<lambda>item. \<lparr>jm_id = ca_id item, jm_baseWeight = ca_weight item,
              jm_jitteredWeight = ca_weight item, jm_jitterDeltaPct = 0\<rparr>) items)
      else
        let delta = (\<lambda>item. if sd \<noteq> [] \<and> nonce \<noteq> []
              then seededFloat sha256 sd nonce (show_digits (ca_id item)) low high
              else randomFloat (drawn (ca_id item)) low high)
        in (map (\<lambda>item. item\<lparr>ca_weight := jitteredWeight (delta item) (ca_weight item)\<rparr>) items,
            map (\<lambda>item. \<lparr>jm_id = ca_id item, jm_baseWeight = ca_weight item,
                   jm_jitteredWeight = jitteredWeight (delta item) (ca_weight item),
                   jm_jitterDeltaPct = delta item\<rparr>) items))"

subsection \<open>Every weight is picked as often as it says\<close>

text \<open>As long as the exact sums stay below $2^{53}$ the total and the cursor are exact.\<close>

lemma totalOf_from:
  assumes "\<forall>item \<in> set items. 0 \<le> wt item" and "0 \<le> c" and "c + sum_list (map wt items) < 2 ^ 53"
  shows "foldl (\<lambda>sum item. numAdd sum (wt item)) c items = c + sum_list (map wt items)"
  using assms
proof (induction items arbitrary: c)
  case (Cons item items)
  have "0 \<le> sum_list (map wt items)" using Cons.prems(1) by (intro sum_list_nonneg) auto
  with Cons.prems have "numAdd c (wt item) = c + wt item" by (intro numAdd_exact) auto
  with Cons.IH [of "c + wt item"] Cons.prems show ?case by (simp add: algebra_simps)
qed simp

lemma totalOf_exact:
  "\<forall>item \<in> set items. 0 \<le> wt item \<Longrightarrow> sum_list (map wt items) < 2 ^ 53 \<Longrightarrow> totalOf wt items = sum_list (map wt items)"
  using totalOf_from [of items wt 0] by (simp add: totalOf_def)

lemma pickAt_split:
  assumes "\<forall>item \<in> set (xs @ x # ys). 0 \<le> wt item" and "0 \<le> c"
    and "c + sum_list (map wt (xs @ x # ys)) < 2 ^ 53"
    and "c + sum_list (map wt xs) < pick" and "pick \<le> c + sum_list (map wt xs) + wt x"
  shows "pickAt wt pick c (xs @ x # ys) = Some x"
  using assms
proof (induction xs arbitrary: c)
  case Nil
  have "0 \<le> sum_list (map wt ys)" using Nil.prems(1) by (intro sum_list_nonneg) auto
  with Nil.prems have "numAdd c (wt x) = c + wt x" by (intro numAdd_exact) auto
  with Nil.prems show ?case by simp
next
  case (Cons a xs)
  have "0 \<le> sum_list (map wt xs)" "0 \<le> sum_list (map wt ys)"
    using Cons.prems(1) by (auto intro!: sum_list_nonneg)
  with Cons.prems have step: "numAdd c (wt a) = c + wt a" by (intro numAdd_exact) auto
  have "c + wt a < pick" using Cons.prems(4) \<open>0 \<le> sum_list (map wt xs)\<close> by simp
  with Cons.IH [of "c + wt a"] Cons.prems step show ?case by (simp add: algebra_simps)
qed

text \<open>Every pick between one and the total weight falls on exactly one position.\<close>

lemma position_of_pick:
  fixes wt :: "'a \<Rightarrow> int"
  assumes "\<forall>item \<in> set items. 0 \<le> wt item" and "0 < pick" and "pick \<le> sum_list (map wt items)"
  obtains xs x ys where "items = xs @ x # ys" "sum_list (map wt xs) < pick" "pick \<le> sum_list (map wt xs) + wt x"
proof -
  have "\<exists>xs x ys. items = xs @ x # ys \<and> sum_list (map wt xs) < pick \<and> pick \<le> sum_list (map wt xs) + wt x"
    using assms
  proof (induction items arbitrary: pick)
    case (Cons a items)
    show ?case
    proof (cases "pick \<le> wt a")
      case True
      with Cons.prems(2) show ?thesis by (intro exI [of _ "[]"]) auto
    next
      case False
      with Cons.IH [of "pick - wt a"] Cons.prems obtain xs x ys where
        "items = xs @ x # ys" "sum_list (map wt xs) < pick - wt a" "pick - wt a \<le> sum_list (map wt xs) + wt x"
        by auto
      then show ?thesis by (intro exI [of _ "a # xs"]) auto
    qed
  qed simp
  with that show ?thesis by blast
qed

lemma pickByWeight_split:
  assumes "\<forall>item \<in> set (xs @ x # ys). 0 \<le> wt item" and "sum_list (map wt (xs @ x # ys)) < 2 ^ 53"
    and "sum_list (map wt xs) < rng (sum_list (map wt (xs @ x # ys)))"
    and "rng (sum_list (map wt (xs @ x # ys))) \<le> sum_list (map wt xs) + wt x"
  shows "pickByWeight wt rng (xs @ x # ys) =
    Some (x, rng (sum_list (map wt (xs @ x # ys))), sum_list (map wt (xs @ x # ys)))"
proof -
  have "0 \<le> sum_list (map wt xs)" "0 \<le> sum_list (map wt ys)" using assms(1) by (auto intro!: sum_list_nonneg)
  then have "0 < sum_list (map wt (xs @ x # ys))" using assms(3,4) by auto
  moreover have "totalOf wt (xs @ x # ys) = sum_list (map wt (xs @ x # ys))" by (rule totalOf_exact [OF assms(1,2)])
  moreover have "pickAt wt (rng (sum_list (map wt (xs @ x # ys)))) 0 (xs @ x # ys) = Some x"
    by (rule pickAt_split) (use assms in auto)
  ultimately show ?thesis unfolding pickByWeight_def Let_def by simp
qed

text \<open>
  The values of 32 bits that fall into a window of $w$ picks: at least $w$ for every full turn
  of the remainder, and at most $w$ more.
\<close>

lemma mod_window_count:
  fixes a w t m :: nat
  assumes "0 < t" and "a + w \<le> t"
  shows "card {v. v < m * t \<and> a \<le> v mod t \<and> v mod t < a + w} = m * w"
proof (induction m)
  case (Suc m)
  have "{v. v < Suc m * t \<and> a \<le> v mod t \<and> v mod t < a + w} =
      {v. v < m * t \<and> a \<le> v mod t \<and> v mod t < a + w} \<union> {m * t + a..<m * t + a + w}" (is "?L = ?A \<union> ?B")
  proof (intro set_eqI iffI)
    fix v assume v: "v \<in> ?L"
    show "v \<in> ?A \<union> ?B"
    proof (cases "v < m * t")
      case False
      with v have "v div t = m" using assms(1) by (intro div_nat_eqI) (auto simp: mult.commute)
      then have "v = m * t + v mod t" by (metis div_mult_mod_eq)
      with v show ?thesis by auto
    qed (use v in auto)
  next
    fix v assume v: "v \<in> ?A \<union> ?B"
    then show "v \<in> ?L"
    proof
      assume "v \<in> ?B"
      then have "\<exists>r. v = m * t + r \<and> a \<le> r \<and> r < a + w"
        by (intro exI [of _ "v - m * t"]) auto
      then obtain r where r: "v = m * t + r" "a \<le> r" "r < a + w" by blast
      then have "r < t" using assms(2) by simp
      with r show ?thesis by (simp add: add.commute)
    qed auto
  qed
  moreover have "?A \<inter> ?B = {}" by auto
  moreover have "finite ?A" by (rule finite_subset [of _ "{..<m * t}"]) auto
  ultimately show ?case using Suc.IH by (simp add: card_Un_disjoint)
qed simp

lemma mod_window_bounds:
  fixes a w t n :: nat
  assumes "0 < t" and "a + w \<le> t"
  defines "hits \<equiv> card {v. v < n \<and> a \<le> v mod t \<and> v mod t < a + w}"
  shows "n div t * w \<le> hits" and "hits \<le> (n div t + 1) * w"
proof -
  let ?P = "\<lambda>v. a \<le> v mod t \<and> v mod t < a + w"
  have fin: "finite {v. v < k \<and> ?P v}" for k :: nat by (rule finite_subset [of _ "{..<k}"]) auto
  have mono: "card {v. v < k \<and> ?P v} \<le> card {v. v < l \<and> ?P v}" if "k \<le> l" for k l :: nat
    by (rule card_mono [OF fin]) (use that in auto)
  have "n div t * t \<le> n" by simp
  from mono [OF this] show "n div t * w \<le> hits"
    unfolding hits_def mod_window_count [OF assms(1,2), of "n div t"] .
  have "n \<le> (n div t + 1) * t"
    unfolding distrib_right using div_mult_mod_eq [of n t] mod_less_divisor [OF assms(1), of n] by linarith
  from mono [OF this] show "hits \<le> (n div t + 1) * w"
    unfolding hits_def mod_window_count [OF assms(1,2), of "n div t + 1"] .
qed

end
