(* ===== verification/Draw_Selection.thy ===== *)
theory Draw_Selection
  imports Draw_Pick
begin

text \<open>
  How a draw chooses, \<open>modules/draw/selection.ts\<close>: the weights of the cached prizes are scaled,
  boosted and jittered, the weight of a miss is set so that the expected payout meets its
  target, the pity boost takes from it, and the pick falls on one item.  Amounts are in cents;
  every configured number has two decimals.
\<close>

subsection \<open>Configuration\<close>

record draw_system =
  sy_drawEnabled :: bool
  sy_minDrawCost :: cents
  sy_maxDrawCost :: cents
  sy_maxDrawPerRequest :: rat
  sy_maxDrawPerDay :: rat
  sy_cooldownSeconds :: rat

record pool_system =
  py_minReserve :: cents
  py_maxPayoutRatio :: rat
  py_noiseEnabled :: bool
  py_noiseMin :: rat
  py_noiseMax :: rat
  py_epochSeconds :: rat

record payout_control =
  pc_maxBigPerHour :: rat
  pc_maxBigPerDay :: rat
  pc_maxTotalPerHour :: cents
  pc_cooldownSeconds :: rat

record probability_control =
  pb_weightJitterEnabled :: bool
  pb_jitterMin :: rat
  pb_jitterMax :: rat
  pb_probabilityScale :: rat
  pb_jackpotProbabilityBoost :: rat
  pb_pityEnabled :: bool
  pb_pityThreshold :: rat
  pb_pityBoostPct :: rat
  pb_pityMaxBoostPct :: rat

record draw_config =
  dc_drawSystem :: draw_system
  dc_houseBankroll :: cents
  dc_poolSystem :: pool_system
  dc_payoutControl :: payout_control
  dc_probabilityControl :: probability_control
  dc_randomJitterEnabled :: bool
  dc_randomJitterPct :: rat
  dc_drawCost :: cents

text \<open>What a draw takes from outside the database.\<close>

record draw_env =
  dv_now :: int
  dv_startOfDay :: int
  dv_transactionStart :: int
  dv_fair :: fair_env
  dv_serverNonce :: string
  dv_noiseDrawn :: nat
  dv_jitterDrawn :: "nat \<Rightarrow> nat"
  dv_candidates :: "candidate list"
  dv_kyc :: "nat \<Rightarrow> cents \<Rightarrow> error option"
  dv_newId :: nat

subsection \<open>Weights\<close>

datatype pick_item = Prize_item candidate | Miss_item int

fun itemWeight :: "pick_item \<Rightarrow> int" where
  "itemWeight (Prize_item c) = ca_weight c"
| "itemWeight (Miss_item w) = w"

record prepared_selection =
  pr_poolBalance :: cents
  pr_noiseApplied :: rat
  pr_effectivePoolBalance :: rat
  pr_jitteredEligible :: "candidate list"
  pr_jitterMeta :: "jitter_meta list"
  pr_normalizedScale :: rat
  pr_jackpotBoostPct :: rat
  pr_jitterEnabled :: bool
  pr_jitterMin :: rat
  pr_jitterMax :: rat
  pr_expectedPayout :: rat
  pr_expectedValueBase :: rat
  pr_expectedValueWithMiss :: rat
  pr_targetExpectedValue :: rat
  pr_missWeightBase :: int
  pr_missWeight :: int
  pr_pityBoostApplied :: rat
  pr_maxReward :: cents
  pr_selection :: "(pick_item \<times> int \<times> int) option"
  pr_rngDigest :: "string option"

definition normalizedScale :: "probability_control \<Rightarrow> rat" where
  "normalizedScale pb =
     (let probabilityScale = dbl (pb_probabilityScale pb)
      in if probabilityScale > 0 then probabilityScale else 1)"

definition maxRewardOf :: "candidate list \<Rightarrow> cents" where
  "maxRewardOf items = foldl (\<lambda>m item. if ca_rewardAmount item > m then ca_rewardAmount item else m) 0 items"

definition scaledWeight :: "rat \<Rightarrow> rat \<Rightarrow> cents \<Rightarrow> candidate \<Rightarrow> int" where
  "scaledWeight scale jackpotBoostPct maxReward item =
     (let baseWeight = max 1 (jsRound (dbl (of_int (ca_weight item) * scale)))
      in if jackpotBoostPct > 0 \<and> ca_rewardAmount item > 0 \<and> ca_rewardAmount item = maxReward
         then max 1 (jsRound (dbl (of_int baseWeight * dbl (1 + jackpotBoostPct))))
         else baseWeight)"

definition expectedPayoutOf :: "candidate list \<Rightarrow> rat" where
  "expectedPayoutOf items =
     foldl (\<lambda>total item. decPlus total (decMul (of_int (ca_rewardAmount item)) (of_int (ca_weight item)))) 0 items"

text \<open>The miss weight that lowers the expected value of a pick to its target.\<close>

definition missWeightFor :: "rat \<Rightarrow> rat \<Rightarrow> int \<Rightarrow> int" where
  "missWeightFor expectedPayout targetExpectedValue totalWeightBase =
     (if targetExpectedValue > 0 \<and> expectedPayout > 0
      then let requiredTotalWeight = \<lceil>decDiv expectedPayout targetExpectedValue\<rceil>
           in max 0 \<lfloor>dbl (decimalRound (of_int (requiredTotalWeight - totalWeightBase)))\<rfloor>
      else 0)"

definition pityBoost :: "probability_control \<Rightarrow> int \<Rightarrow> rat" where
  "pityBoost pb streak =
     (let pityThreshold = dbl (pb_pityThreshold pb); pityBoostPct = normalizePct (pb_pityBoostPct pb);
          pityMaxBoostPct = normalizePct (pb_pityMaxBoostPct pb)
      in if pb_pityEnabled pb \<and> pityThreshold > 0 \<and> pityBoostPct > 0 \<and> of_int streak \<ge> pityThreshold
         then let steps = dbl (dbl (of_int streak - pityThreshold) + 1); applied = dbl (pityBoostPct * steps)
              in if pityMaxBoostPct > 0 then min applied pityMaxBoostPct else applied
         else 0)"

definition boostedMissWeight :: "int \<Rightarrow> rat \<Rightarrow> int" where
  "boostedMissWeight missWeightBase pityBoostApplied =
     (if missWeightBase > 0 \<and> pityBoostApplied > 0
      then max 0 (jsRound (dbl (of_int missWeightBase * dbl (1 - pityBoostApplied))))
      else missWeightBase)"

definition scaledEligible :: "probability_control \<Rightarrow> candidate list \<Rightarrow> candidate list" where
  "scaledEligible pb pool =
     (let eligibleSorted = sort_key ca_id pool
      in map (\<lambda>item. item\<lparr>ca_weight := scaledWeight (normalizedScale pb)
                (normalizePct (pb_jackpotProbabilityBoost pb)) (maxRewardOf eligibleSorted) item\<rparr>) eligibleSorted)"

definition weightedCandidates :: "candidate list \<Rightarrow> int \<Rightarrow> pick_item list" where
  "weightedCandidates items missWeight =
     map Prize_item items @ (if missWeight > 0 then [Miss_item missWeight] else [])"

subsection \<open>The selection\<close>

text \<open>
  The cost of the draw and the pity streak are all it needs of the player; the pool balance is
  the one before the draw.
\<close>

definition prepareDrawSelection ::
  "draw_env \<Rightarrow> draw_config \<Rightarrow> cents \<Rightarrow> cents \<Rightarrow> int \<Rightarrow> string \<Rightarrow> string \<Rightarrow> prepared_selection" where
  "prepareDrawSelection env cfg poolBalance drawCost streak sd nonce =
     (let pool = dc_poolSystem cfg; pb = dc_probabilityControl cfg; sha = fv_sha256 (dv_fair env);
          noise = applyPoolNoise sha (dv_noiseDrawn env) (fv_now (dv_fair env)) (py_noiseEnabled pool)
                    (py_noiseMin pool) (py_noiseMax pool) (dbl (py_epochSeconds pool)) poolBalance;
          fallbackPct = dbl (dc_randomJitterPct cfg);
          jitterEnabled = (if pb_weightJitterEnabled pb then True
                           else dc_randomJitterEnabled cfg \<and> fallbackPct > 0);
          jitterMin = (if pb_weightJitterEnabled pb then normalizeRangeValue (pb_jitterMin pb)
                       else normalizeRangeValue (- fallbackPct));
          jitterMax = (if pb_weightJitterEnabled pb then normalizeRangeValue (pb_jitterMax pb)
                       else normalizeRangeValue fallbackPct);
          jittered = applyWeightJitter sha (dv_jitterDrawn env) jitterEnabled jitterMin jitterMax sd nonce
                       (scaledEligible pb (dv_candidates env));
          items = fst jittered;
          expectedPayout = expectedPayoutOf items;
          totalWeightBase = totalOf ca_weight items;
          targetExpectedValue =
            (if py_maxPayoutRatio pool > 0 then decMul (of_int drawCost) (py_maxPayoutRatio pool) else 0);
          missWeightBase = missWeightFor expectedPayout targetExpectedValue totalWeightBase;
          pityBoostApplied = pityBoost pb streak;
          missWeight = boostedMissWeight missWeightBase pityBoostApplied;
          totalWeightWithMiss = numAdd totalWeightBase missWeight;
          selection = pickByWeight itemWeight (\<lambda>t. fst (deriveRandomPick sha t sd nonce))
                        (weightedCandidates items missWeight)
      in \<lparr>pr_poolBalance = poolBalance, pr_noiseApplied = snd noise, pr_effectivePoolBalance = fst noise,
          pr_jitteredEligible = items, pr_jitterMeta = snd jittered,
          pr_normalizedScale = normalizedScale pb,
          pr_jackpotBoostPct = normalizePct (pb_jackpotProbabilityBoost pb),
          pr_jitterEnabled = jitterEnabled, pr_jitterMin = jitterMin, pr_jitterMax = jitterMax,
          pr_expectedPayout = expectedPayout,
          pr_expectedValueBase =
            (if totalWeightBase > 0 then decDiv expectedPayout (of_int totalWeightBase) else 0),
          pr_expectedValueWithMiss =
            (if totalWeightWithMiss > 0 then decDiv expectedPayout (of_int totalWeightWithMiss) else 0),
          pr_targetExpectedValue = targetExpectedValue, pr_missWeightBase = missWeightBase,
          pr_missWeight = missWeight, pr_pityBoostApplied = pityBoostApplied,
          pr_maxReward = maxRewardOf (sort_key ca_id (dv_candidates env)),
          pr_selection = selection,
          pr_rngDigest = map_option (\<lambda>(_, _, t). snd (deriveRandomPick sha t sd nonce)) selection\<rparr>)"

subsection \<open>Weights are positive\<close>

lemma scaledWeight_pos: "1 \<le> scaledWeight scale boost m item"
  by (simp add: scaledWeight_def Let_def)

lemma scaledEligible_pos: "c \<in> set (scaledEligible pb pool) \<Longrightarrow> 1 \<le> ca_weight c"
  by (auto simp: scaledEligible_def Let_def scaledWeight_pos)

lemma applyWeightJitter_pos:
  assumes "\<forall>c \<in> set items. 1 \<le> ca_weight c" and "c \<in> set (fst (applyWeightJitter sha d en low high sd n items))"
  shows "1 \<le> ca_weight c"
  using assms by (auto simp: applyWeightJitter_def Let_def jitteredWeight_def split: if_splits)

lemma jitter_keeps [simp]:
  "map ca_id (fst (applyWeightJitter sha d en low high sd n items)) = map ca_id items"
  "map ca_rewardAmount (fst (applyWeightJitter sha d en low high sd n items)) = map ca_rewardAmount items"
  by (auto simp: applyWeightJitter_def Let_def)

lemma scaledEligible_keeps [simp]:
  "map ca_id (scaledEligible pb pool) = map ca_id (sort_key ca_id pool)"
  "map ca_rewardAmount (scaledEligible pb pool) = map ca_rewardAmount (sort_key ca_id pool)"
  by (simp_all add: scaledEligible_def Let_def comp_def)

lemma eligible_pos:
  "c \<in> set (pr_jitteredEligible (prepareDrawSelection env cfg pool cost streak sd nonce)) \<Longrightarrow> 1 \<le> ca_weight c"
  by (auto simp: prepareDrawSelection_def Let_def dest!: applyWeightJitter_pos [rotated] scaledEligible_pos)

lemma eligible_ids:
  "map ca_id (pr_jitteredEligible (prepareDrawSelection env cfg pool cost streak sd nonce)) =
     map ca_id (sort_key ca_id (dv_candidates env))"
  "map ca_rewardAmount (pr_jitteredEligible (prepareDrawSelection env cfg pool cost streak sd nonce)) =
     map ca_rewardAmount (sort_key ca_id (dv_candidates env))"
  by (simp_all add: prepareDrawSelection_def Let_def)

subsection \<open>Parts of a selection\<close>

lemma prepared_parts:
  "pr_poolBalance (prepareDrawSelection env cfg pool cost streak sd nonce) = pool"
  "pr_maxReward (prepareDrawSelection env cfg pool cost streak sd nonce) = maxRewardOf (sort_key ca_id (dv_candidates env))"
  "pr_effectivePoolBalance (prepareDrawSelection env cfg pool cost streak sd nonce) =
     fst (applyPoolNoise (fv_sha256 (dv_fair env)) (dv_noiseDrawn env) (fv_now (dv_fair env))
       (py_noiseEnabled (dc_poolSystem cfg)) (py_noiseMin (dc_poolSystem cfg)) (py_noiseMax (dc_poolSystem cfg))
       (dbl (py_epochSeconds (dc_poolSystem cfg))) pool)"
  by (simp_all add: prepareDrawSelection_def Let_def)

text \<open>Without jitter and target the weights of the prizes decide alone.\<close>

lemma plain_selection:
  assumes "\<not> pb_weightJitterEnabled (dc_probabilityControl cfg)" and "\<not> dc_randomJitterEnabled cfg"
    and "\<not> 0 < py_maxPayoutRatio (dc_poolSystem cfg)"
  shows "pr_selection (prepareDrawSelection env cfg pool cost streak sd nonce) =
    pickByWeight itemWeight (\<lambda>t. fst (deriveRandomPick (fv_sha256 (dv_fair env)) t sd nonce))
      (map Prize_item (scaledEligible (dc_probabilityControl cfg) (dv_candidates env)))"
  using assms
  by (simp add: prepareDrawSelection_def Let_def applyWeightJitter_def missWeightFor_def boostedMissWeight_def
      weightedCandidates_def)

end
