(* ===== verification/Draw_Chances.thy ===== *)
theory Draw_Chances
  imports Draw_Selection
begin

text \<open>
  How likely every outcome of a draw is, when the first word of the digest is any of its
  $2^{32}$ values: chances follow the weights, up to the remainder of the division, as long as
  the total weight fits into those 32 bits; and the miss weight keeps the expected payout at
  its target.
\<close>

subsection \<open>Digests with a given first word\<close>

definition digestOf :: "nat \<Rightarrow> digest" where
  "digestOf v = map (\<lambda>k. of_nat (v div 256 ^ k)) [3, 2, 1, 0]"

lemma readUInt32BE_digestOf:
  assumes "v < 2 ^ 32"
  shows "readUInt32BE (digestOf v) = v"
proof -
  have byte: "unat (of_nat n :: 8 word) = n mod 256" for n by (simp add: unat_of_nat)
  have top: "v div 256 ^ 3 mod 256 = v div 256 ^ 3" using assms by (intro mod_less) (simp add: div_less_iff_less_mult)
  have step: "v div 256 ^ j * 256 + v div 256 ^ k mod 256 = v div 256 ^ k" if "j = Suc k" for j k
    unfolding that power_Suc2 div_mult2_eq by (rule div_mult_mod_eq)
  have three: "3 = Suc 2" and two: "2 = Suc 1" and one: "1 = Suc 0" by simp_all
  have four: "length (digestOf v) \<le> 4" by (simp add: digestOf_def)
  have "readUInt32BE (digestOf v) =
      (((v div 256 ^ 3 mod 256) * 256 + v div 256 ^ 2 mod 256) * 256 + v div 256 ^ 1 mod 256) * 256 + v div 256 ^ 0 mod 256"
    unfolding readUInt32BE_def take_all [OF four]
    by (simp only: digestOf_def list.map foldl_Nil foldl_Cons byte mult_zero_left add_0)
  also have "\<dots> = v div 256 ^ 0"
    unfolding top step [OF three] step [OF two] step [OF one] ..
  finally show ?thesis by simp
qed

text \<open>The item a digest with first word \<open>v\<close> chooses, and how many of the words choose an item.\<close>

definition chosenBy :: "('a \<Rightarrow> int) \<Rightarrow> 'a list \<Rightarrow> string \<Rightarrow> string \<Rightarrow> nat \<Rightarrow> 'a option" where
  "chosenBy wt items sd nonce v =
     map_option fst (pickByWeight wt (\<lambda>t. fst (deriveRandomPick (\<lambda>_. digestOf v) t sd nonce)) items)"

definition wordsFor :: "('a \<Rightarrow> int) \<Rightarrow> 'a list \<Rightarrow> string \<Rightarrow> string \<Rightarrow> 'a \<Rightarrow> nat set" where
  "wordsFor wt items sd nonce item = {v. v < 2 ^ 32 \<and> chosenBy wt items sd nonce v = Some item}"

lemma chosenBy_some:
  assumes nonneg: "\<forall>item \<in> set items. 0 \<le> wt item" and small: "sum_list (map wt items) < 2 ^ 53"
    and pos: "0 < sum_list (map wt items)" and v: "v < 2 ^ 32"
  obtains xs x ys where "items = xs @ x # ys" "chosenBy wt items sd nonce v = Some x"
    "sum_list (map wt xs) \<le> int v mod sum_list (map wt items)"
    "int v mod sum_list (map wt items) < sum_list (map wt xs) + wt x"
proof -
  let ?T = "sum_list (map wt items)" and ?rng = "\<lambda>t. fst (deriveRandomPick (\<lambda>_. digestOf v) t sd nonce)"
  have rng: "?rng ?T = int v mod ?T + 1" using readUInt32BE_digestOf [OF v] by (simp add: deriveRandomPick_def Let_def)
  have "0 < ?rng ?T" "?rng ?T \<le> ?T"
    unfolding rng using pos pos_mod_bound [of ?T "int v"] pos_mod_sign [of ?T "int v"] by linarith+
  from position_of_pick [OF nonneg this] obtain xs x ys where split: "items = xs @ x # ys"
    "sum_list (map wt xs) < ?rng ?T" "?rng ?T \<le> sum_list (map wt xs) + wt x" .
  have "pickByWeight wt ?rng items = Some (x, ?rng ?T, ?T)"
    using pickByWeight_split [of xs x ys wt ?rng] nonneg small split by simp
  then have "chosenBy wt items sd nonce v = Some x" by (simp add: chosenBy_def)
  with that split rng show ?thesis by simp
qed

lemma wordsFor_window:
  assumes nonneg: "\<forall>item \<in> set (xs @ x # ys). 0 \<le> wt item" and small: "sum_list (map wt (xs @ x # ys)) < 2 ^ 53"
    and pos: "0 < sum_list (map wt (xs @ x # ys))" and dist: "distinct (xs @ x # ys)"
  shows "wordsFor wt (xs @ x # ys) sd nonce x =
    {v. v < 2 ^ 32 \<and> nat (sum_list (map wt xs)) \<le> v mod nat (sum_list (map wt (xs @ x # ys))) \<and>
        v mod nat (sum_list (map wt (xs @ x # ys))) < nat (sum_list (map wt xs)) + nat (wt x)}"
proof -
  let ?items = "xs @ x # ys" and ?a = "sum_list (map wt xs)"
  let ?T = "sum_list (map wt ?items)"
  have a: "0 \<le> ?a" using nonneg by (intro sum_list_nonneg) auto
  have w: "0 \<le> wt x" using nonneg by simp
  have mod: "int (v mod nat ?T) = int v mod ?T" for v using pos by (simp add: zmod_int)
  have window: "nat ?a \<le> v mod nat ?T \<and> v mod nat ?T < nat ?a + nat (wt x) \<longleftrightarrow>
      ?a \<le> int v mod ?T \<and> int v mod ?T < ?a + wt x" for v
    using a w unfolding mod [symmetric] by linarith
  have "chosenBy wt ?items sd nonce v = Some x \<longleftrightarrow> ?a \<le> int v mod ?T \<and> int v mod ?T < ?a + wt x"
    if v: "v < 2 ^ 32" for v
  proof
    assume chosen: "chosenBy wt ?items sd nonce v = Some x"
    obtain xs' x' ys' where "?items = xs' @ x' # ys'" "chosenBy wt ?items sd nonce v = Some x'"
      "sum_list (map wt xs') \<le> int v mod ?T" "int v mod ?T < sum_list (map wt xs') + wt x'"
      by (rule chosenBy_some [OF nonneg small pos v])
    moreover from this chosen dist have "xs' = xs" "x' = x"
      by (auto simp: append_eq_append_conv2 Cons_eq_append_conv append_eq_Cons_conv)
    ultimately show "?a \<le> int v mod ?T \<and> int v mod ?T < ?a + wt x" by simp
  next
    assume in_window: "?a \<le> int v mod ?T \<and> int v mod ?T < ?a + wt x"
    let ?rng = "\<lambda>t. fst (deriveRandomPick (\<lambda>_. digestOf v) t sd nonce)"
    have "?rng ?T = int v mod ?T + 1" using readUInt32BE_digestOf [OF v] by (simp add: deriveRandomPick_def Let_def)
    then have "pickByWeight wt ?rng ?items = Some (x, ?rng ?T, ?T)"
      using in_window by (intro pickByWeight_split nonneg small) auto
    then show "chosenBy wt ?items sd nonce v = Some x" by (simp add: chosenBy_def)
  qed
  then show ?thesis unfolding wordsFor_def window by auto
qed

lemma wordsFor_bounds:
  assumes nonneg: "\<forall>item \<in> set items. 0 \<le> wt item" and small: "sum_list (map wt items) < 2 ^ 53"
    and pos: "0 < sum_list (map wt items)" and dist: "distinct items" and x: "x \<in> set items"
  defines "T \<equiv> nat (sum_list (map wt items))"
  shows "2 ^ 32 div T * nat (wt x) \<le> card (wordsFor wt items sd nonce x)"
    and "card (wordsFor wt items sd nonce x) \<le> (2 ^ 32 div T + 1) * nat (wt x)"
proof -
  from x obtain xs ys where items: "items = xs @ x # ys" by (meson split_list)
  have "0 \<le> sum_list (map wt xs)" "0 \<le> sum_list (map wt ys)" "0 \<le> wt x"
    using nonneg by (auto simp: items intro!: sum_list_nonneg)
  then have fits: "nat (sum_list (map wt xs)) + nat (wt x) \<le> T"
    by (simp add: T_def items nat_add_distrib)
  have "0 < T" using pos by (simp add: T_def)
  note window = wordsFor_window [of xs x ys wt sd nonce, folded items, OF nonneg small pos dist, folded T_def]
  show "2 ^ 32 div T * nat (wt x) \<le> card (wordsFor wt items sd nonce x)"
    "card (wordsFor wt items sd nonce x) \<le> (2 ^ 32 div T + 1) * nat (wt x)"
    unfolding window using mod_window_bounds [OF \<open>0 < T\<close> fits, of "2 ^ 32"] by simp_all
qed

text \<open>
  C14. The chance of every item follows its weight: of the $2^{32}$ values of the digest's first
  word, an item of weight $w$ among items of total weight $T$ is chosen by at least
  $w \lfloor 2^{32} / T \rfloor$ and at most $w$ more.
\<close>

theorem chances_follow_weights:
  assumes "\<forall>item \<in> set items. 0 \<le> wt item" and "0 < sum_list (map wt items)"
    and "sum_list (map wt items) < 2 ^ 53" and "distinct items" and "item \<in> set items"
  shows "let hits = int (card {v. v < 2 ^ 32 \<and> map_option fst (pickByWeight wt
                (\<lambda>t. fst (deriveRandomPick (\<lambda>_. digestOf v) t sd nonce)) items) = Some item});
             share = 2 ^ 32 div sum_list (map wt items)
         in share * wt item \<le> hits \<and> hits \<le> (share + 1) * wt item"
proof -
  let ?T = "sum_list (map wt items)"
  have T: "int (2 ^ 32 div nat ?T) = 2 ^ 32 div ?T" using assms(2) by (simp add: zdiv_int)
  have w: "int (nat (wt item)) = wt item" using assms(1,5) by simp
  note bounds = wordsFor_bounds [OF assms(1,3,2,4,5), of sd nonce]
  have "int (2 ^ 32 div nat ?T * nat (wt item)) \<le> int (card (wordsFor wt items sd nonce item))"
    "int (card (wordsFor wt items sd nonce item)) \<le> int ((2 ^ 32 div nat ?T + 1) * nat (wt item))"
    using bounds by (simp_all only: of_nat_le_iff)
  then show ?thesis
    unfolding of_nat_mult of_nat_add T w by (simp add: wordsFor_def chosenBy_def)
qed

text \<open>Three items of weight 1, 2 and 4.\<close>

theorem chances_follow_weights_witness:
  "let hits = int (card {v. v < 2 ^ 32 \<and> map_option fst (pickByWeight snd
          (\<lambda>t. fst (deriveRandomPick (\<lambda>_. digestOf v) t ''s'' ''n'')) [(''a'', 1), (''b'', 2), (''c'', 4)]) = Some (''b'', 2)})
   in 1227133512 \<le> hits \<and> hits \<le> 1227133514"
  using chances_follow_weights [of "[(''a'', 1), (''b'', 2), (''c'', 4)]" snd "(''b'', 2)" "''s''" "''n''"]
  by (simp add: Let_def)

subsection \<open>The expected payout\<close>

lemma expectedPayoutOf_from:
  assumes "\<forall>c \<in> set items. 0 \<le> ca_rewardAmount c \<and> 0 \<le> ca_weight c" and "0 \<le> e"
    and "e + (\<Sum>c\<leftarrow>items. ca_rewardAmount c * ca_weight c) < 10 ^ 20"
  shows "foldl (\<lambda>total item. decPlus total (decMul (of_int (ca_rewardAmount item)) (of_int (ca_weight item)))) (of_int e) items =
    of_int (e + (\<Sum>c\<leftarrow>items. ca_rewardAmount c * ca_weight c))"
  using assms
proof (induction items arbitrary: e)
  case (Cons c items)
  let ?x = "ca_rewardAmount c * ca_weight c"
  have nonneg: "0 \<le> ?x" "0 \<le> (\<Sum>c\<leftarrow>items. ca_rewardAmount c * ca_weight c)"
    using Cons.prems(1) by (auto intro!: sum_list_nonneg)
  with Cons.prems have small: "?x < 10 ^ 20" "e + ?x < 10 ^ 20" by auto
  have "decPlus (of_int e) (decMul (of_int (ca_rewardAmount c)) (of_int (ca_weight c))) = of_int (e + ?x)"
    using Cons.prems nonneg small by (simp only: decMul_int decPlus_int list.set_intros)
  with Cons.IH [of "e + ?x"] Cons.prems nonneg show ?case by (simp add: add.assoc)
qed simp

lemma expectedPayoutOf_exact:
  "\<forall>c \<in> set items. 0 \<le> ca_rewardAmount c \<and> 0 \<le> ca_weight c \<Longrightarrow>
   (\<Sum>c\<leftarrow>items. ca_rewardAmount c * ca_weight c) < 10 ^ 20 \<Longrightarrow>
   expectedPayoutOf items = of_int (\<Sum>c\<leftarrow>items. ca_rewardAmount c * ca_weight c)"
  using expectedPayoutOf_from [of items 0] by (simp add: expectedPayoutOf_def)

lemma missWeightFor_nonneg: "0 \<le> missWeightFor e t b"
  by (simp add: missWeightFor_def Let_def)

text \<open>Prizes and miss together weigh enough.\<close>

lemma missWeightFor_enough:
  assumes "0 < e" "0 < t" "e < 2 ^ 52 * t" "0 \<le> b" "b < 2 ^ 52"
  shows "e \<le> t * of_int (b + missWeightFor e t b) * (1 + 1 / 10 ^ 18)" and "b + missWeightFor e t b < 2 ^ 53"
proof -
  define x where "x = e / t"
  define R where "R = \<lceil>decDiv e t\<rceil>"
  have x: "0 < x" "x < 2 ^ 52" using assms by (simp_all add: x_def divide_less_eq)
  have close: "\<bar>decDiv e t - x\<bar> \<le> x / 10 ^ 19" using decimalRound_close [of x] x by (simp add: decDiv_def x_def)
  have "of_int R < decDiv e t + 1" "decDiv e t \<le> of_int R" unfolding R_def by linarith+
  moreover have "x < 4503599627370496" "x / 10 ^ 19 \<le> 1" using x by simp_all
  ultimately have R: "x - x / 10 ^ 19 \<le> of_int R" and "of_int R < (9007199254740992 :: rat)"
    using close by linarith+
  then have "(of_int R :: rat) < of_int (2 ^ 53)" by simp
  then have R53: "R < 2 ^ 53" by (simp only: of_int_less_iff)
  have miss: "missWeightFor e t b = max 0 \<lfloor>dbl (decimalRound (of_int (R - b)))\<rfloor>"
    using assms by (simp add: missWeightFor_def R_def)
  have enough: "R \<le> b + missWeightFor e t b \<and> b + missWeightFor e t b < 2 ^ 53"
  proof (cases "R - b < 0")
    case True
    have neg: "decimalRound y \<le> 0" "dbl y \<le> 0" if "y \<le> 0" for y
    proof -
      have sgn: "sgn y \<le> 0" using that by (auto simp: sgn_if)
      have "0 \<le> \<lfloor>\<bar>y\<bar> / u + 1 / 2\<rfloor>" if "0 < u" for u :: rat using that by simp
      then show "decimalRound y \<le> 0"
        using sgn by (auto simp: decimalRound_def Let_def intro!: mult_nonpos_nonneg)
      have "0 \<le> roundHalfEven (\<bar>y\<bar> / u)" if "0 < u" for u :: rat
      proof -
        have "0 \<le> \<lfloor>\<bar>y\<bar> / u\<rfloor>" using that by simp
        then show ?thesis by (simp add: roundHalfEven_def Let_def)
      qed
      then show "dbl y \<le> 0" using sgn by (auto simp: dbl_def Let_def intro!: mult_nonpos_nonneg)
    qed
    have "(of_int (R - b) :: rat) \<le> 0" using True by simp
    from neg(2) [OF neg(1) [OF this]] have "\<lfloor>dbl (decimalRound (of_int (R - b)))\<rfloor> \<le> 0" by linarith
    with True miss assms show ?thesis by auto
  next
    case False
    then have d: "0 \<le> R - b" "R - b < 2 ^ 53" using R53 assms by auto
    then have "decimalRound (of_int (R - b)) = of_int (R - b)" by (intro decimalRound_int) auto
    moreover have "dbl (of_int (R - b)) = of_int (R - b)" using d by (intro dbl_int) auto
    ultimately have "missWeightFor e t b = R - b" unfolding miss using d by (simp del: of_int_diff)
    with R53 show ?thesis by simp
  qed
  then show "b + missWeightFor e t b < 2 ^ 53" by simp
  have "(of_int R :: rat) \<le> of_int (b + missWeightFor e t b)" using enough by (simp only: of_int_le_iff)
  with R have "x - x / 10 ^ 19 \<le> of_int (b + missWeightFor e t b)" by linarith
  then have "(x - x / 10 ^ 19) * (1 + 1 / 10 ^ 18) \<le> of_int (b + missWeightFor e t b) * (1 + 1 / 10 ^ 18)"
    by (intro mult_right_mono) auto
  moreover have "x \<le> (x - x / 10 ^ 19) * (1 + 1 / 10 ^ 18)" using x by (simp add: algebra_simps)
  ultimately have "x \<le> of_int (b + missWeightFor e t b) * (1 + 1 / 10 ^ 18)" by linarith
  then have "t * x \<le> t * (of_int (b + missWeightFor e t b) * (1 + 1 / 10 ^ 18))"
    using assms(2) by (intro mult_left_mono) auto
  then show "e \<le> t * of_int (b + missWeightFor e t b) * (1 + 1 / 10 ^ 18)"
    using assms(2) by (simp add: x_def mult.assoc)
qed

fun itemReward :: "pick_item \<Rightarrow> cents" where
  "itemReward (Prize_item c) = ca_rewardAmount c"
| "itemReward (Miss_item w) = 0"

text \<open>The rewards of all $2^{32}$ words together.\<close>

lemma rewards_of_words:
  assumes nonneg: "\<forall>item \<in> set items. 0 \<le> wt item \<and> 0 \<le> r item" and small: "sum_list (map wt items) < 2 ^ 53"
    and pos: "0 < sum_list (map wt items)" and dist: "distinct items"
  shows "(\<Sum>v < 2 ^ 32. case chosenBy wt items sd nonce v of None \<Rightarrow> 0 | Some item \<Rightarrow> r item) \<le>
    (2 ^ 32 div sum_list (map wt items) + 1) * (\<Sum>item\<leftarrow>items. r item * wt item)"
proof -
  let ?T = "sum_list (map wt items)"
  let ?ch = "chosenBy wt items sd nonce"
  have wt0: "\<forall>item \<in> set items. 0 \<le> wt item" using nonneg by simp
  have one: "(case ?ch v of None \<Rightarrow> 0 | Some item \<Rightarrow> r item) =
      (\<Sum>item \<in> set items. if ?ch v = Some item then r item else 0)" if v: "v \<in> {..<2 ^ 32}" for v
  proof -
    obtain xs x ys where x: "items = xs @ x # ys" "?ch v = Some x"
      by (rule chosenBy_some [OF wt0 small pos, of v sd nonce]) (use v in auto)
    then have "x \<in> set items" by simp
    then show ?thesis using x(2) by (simp add: sum.delta)
  qed
  have "(\<Sum>v < 2 ^ 32. case ?ch v of None \<Rightarrow> 0 | Some item \<Rightarrow> r item) =
      (\<Sum>v < 2 ^ 32. \<Sum>item \<in> set items. if ?ch v = Some item then r item else 0)"
    by (rule sum.cong [OF refl one])
  also have "\<dots> = (\<Sum>item \<in> set items. \<Sum>v < 2 ^ 32. if ?ch v = Some item then r item else 0)" by (rule sum.swap)
  also have "\<dots> = (\<Sum>item \<in> set items. r item * int (card (wordsFor wt items sd nonce item)))"
  proof (rule sum.cong [OF refl])
    fix item
    have "(\<Sum>v < 2 ^ 32. if ?ch v = Some item then r item else 0) =
        (\<Sum>v \<in> {v \<in> {..<2 ^ 32}. ?ch v = Some item}. r item)" by (rule sum.inter_filter [symmetric]) simp
    also have "{v \<in> {..<2 ^ 32}. ?ch v = Some item} = wordsFor wt items sd nonce item"
      by (auto simp: wordsFor_def)
    finally show "(\<Sum>v < 2 ^ 32. if ?ch v = Some item then r item else 0) =
        r item * int (card (wordsFor wt items sd nonce item))" by simp
  qed
  also have "\<dots> \<le> (\<Sum>item \<in> set items. r item * ((2 ^ 32 div ?T + 1) * wt item))"
  proof (rule sum_mono)
    fix item assume item: "item \<in> set items"
    have T: "int (2 ^ 32 div nat ?T) = 2 ^ 32 div ?T" using pos by (simp add: zdiv_int)
    have w: "int (nat (wt item)) = wt item" using wt0 item by simp
    have "int (card (wordsFor wt items sd nonce item)) \<le> int ((2 ^ 32 div nat ?T + 1) * nat (wt item))"
      using wordsFor_bounds(2) [OF wt0 small pos dist item, of sd nonce] by (simp only: of_nat_le_iff)
    then have "int (card (wordsFor wt items sd nonce item)) \<le> (2 ^ 32 div ?T + 1) * wt item"
      unfolding of_nat_mult of_nat_add T w by simp
    then show "r item * int (card (wordsFor wt items sd nonce item)) \<le> r item * ((2 ^ 32 div ?T + 1) * wt item)"
      using nonneg item by (intro mult_left_mono) auto
  qed
  also have "\<dots> = (\<Sum>item\<leftarrow>items. r item * ((2 ^ 32 div ?T + 1) * wt item))"
    using dist by (simp add: sum_list_distinct_conv_sum_set)
  also have "\<dots> = (2 ^ 32 div ?T + 1) * (\<Sum>item\<leftarrow>items. r item * wt item)"
    by (simp add: sum_list_const_mult [symmetric] mult.left_commute)
  finally show ?thesis .
qed

text \<open>What the words of the digest pay in total, and how often they go round the weights.\<close>

lemma payout_of_words:
  assumes dist: "distinct items" and cs0: "\<forall>c \<in> set items. 0 \<le> ca_rewardAmount c \<and> 0 \<le> ca_weight c"
    and miss0: "0 \<le> miss" and pos: "0 < (\<Sum>c\<leftarrow>items. ca_weight c) + miss"
    and lim: "(\<Sum>c\<leftarrow>items. ca_weight c) + miss < 2 ^ 53"
  shows "(\<Sum>v < 2 ^ 32. case pickByWeight itemWeight
            (\<lambda>t. fst (deriveRandomPick (\<lambda>_. digestOf v) t sd nonce)) (weightedCandidates items miss) of
              None \<Rightarrow> 0 | Some (item, _, _) \<Rightarrow> itemReward item)
    \<le> (2 ^ 32 div ((\<Sum>c\<leftarrow>items. ca_weight c) + miss) + 1) * (\<Sum>c\<leftarrow>items. ca_rewardAmount c * ca_weight c)"
proof -
  let ?items = "weightedCandidates items miss"
  let ?W = "\<Sum>c\<leftarrow>items. ca_weight c" and ?e = "\<Sum>c\<leftarrow>items. ca_rewardAmount c * ca_weight c"
  have weights: "sum_list (map itemWeight ?items) = ?W + miss"
    using miss0 by (simp add: weightedCandidates_def comp_def)
  have rewards: "(\<Sum>item\<leftarrow>?items. itemReward item * itemWeight item) = ?e"
    by (simp add: weightedCandidates_def comp_def)
  have "distinct ?items" using dist by (auto simp: weightedCandidates_def distinct_map inj_on_def)
  moreover have "\<forall>item \<in> set ?items. 0 \<le> itemWeight item \<and> 0 \<le> itemReward item"
    using cs0 miss0 by (auto simp: weightedCandidates_def)
  ultimately have "(\<Sum>v < 2 ^ 32. case chosenBy itemWeight ?items sd nonce v of None \<Rightarrow> 0 | Some item \<Rightarrow> itemReward item)
      \<le> (2 ^ 32 div (?W + miss) + 1) * ?e"
    using rewards_of_words [of ?items itemWeight itemReward sd nonce] lim pos
    unfolding weights rewards by simp
  moreover have "(case map_option fst p of None \<Rightarrow> 0 | Some item \<Rightarrow> itemReward item) =
      (case p of None \<Rightarrow> 0 | Some (item, _, _) \<Rightarrow> itemReward item)" for p :: "(pick_item \<times> int \<times> int) option"
    by (cases p) auto
  ultimately show ?thesis unfolding chosenBy_def by simp
qed

lemma turns_of_words:
  assumes "0 < t"
  shows "of_int ((2 ^ 32 div t + 1) * t) \<le> (of_int (2 ^ 32 + t) :: rat)" "(0 :: rat) \<le> of_int (2 ^ 32 div t + 1)"
proof -
  have "(2 ^ 32 div t + 1) * t \<le> 2 ^ 32 + t"
    using assms by (simp add: distrib_right div_times_less_eq_dividend minus_mod_eq_div_mult [symmetric])
  then show "of_int ((2 ^ 32 div t + 1) * t) \<le> (of_int (2 ^ 32 + t) :: rat)" by (simp only: of_int_le_iff)
  show "(0 :: rat) \<le> of_int (2 ^ 32 div t + 1)" using assms by (simp add: pos_imp_zdiv_nonneg_iff)
qed

text \<open>
  C15. The miss weight keeps the expected payout at its target: with prizes whose weights and
  rewards are not too large to be summed exactly, the rewards that the $2^{32}$ values of the
  digest's first word choose, at the rewards the pool was cached with, add up to at most $2^{32}$
  times the target, but for the remainder of the division by the total weight and the twentieth
  digit of a quotient.  No pity boost is active here; it is meant to raise the chances.
\<close>

theorem expected_payout_meets_target:
  fixes items :: "candidate list" and target :: rat
  defines "miss \<equiv> missWeightFor (expectedPayoutOf items) target (totalOf ca_weight items)"
  assumes dist: "distinct items" and cs: "\<forall>c \<in> set items. 0 \<le> ca_rewardAmount c \<and> 1 \<le> ca_weight c"
    and t: "0 < target" and e0: "0 < (\<Sum>c\<leftarrow>items. ca_rewardAmount c * ca_weight c)"
    and e1: "(\<Sum>c\<leftarrow>items. ca_rewardAmount c * ca_weight c) < 10 ^ 20"
    and e2: "of_int (\<Sum>c\<leftarrow>items. ca_rewardAmount c * ca_weight c) < 2 ^ 52 * target"
    and b: "(\<Sum>c\<leftarrow>items. ca_weight c) < 2 ^ 52"
  shows "of_int (\<Sum>v < 2 ^ 32. case pickByWeight itemWeight
            (\<lambda>t. fst (deriveRandomPick (\<lambda>_. digestOf v) t sd nonce)) (weightedCandidates items miss) of
              None \<Rightarrow> 0 | Some (item, _, _) \<Rightarrow> itemReward item)
      \<le> (2 ^ 32 + of_int ((\<Sum>c\<leftarrow>items. ca_weight c) + miss)) * target * (1 + 1 / 10 ^ 18)"
proof -
  define e where "e = (\<Sum>c\<leftarrow>items. ca_rewardAmount c * ca_weight c)"
  define W where "W = (\<Sum>c\<leftarrow>items. ca_weight c)"
  have cs0: "\<forall>c \<in> set items. 0 \<le> ca_rewardAmount c \<and> 0 \<le> ca_weight c" using cs by auto
  have e: "expectedPayoutOf items = of_int e" using expectedPayoutOf_exact [OF cs0 e1] by (simp add: e_def)
  have "0 \<le> W" using cs0 unfolding W_def by (intro sum_list_nonneg) auto
  moreover have "W < 2 ^ 53" using b by (simp add: W_def)
  ultimately have W: "totalOf ca_weight items = W"
    unfolding W_def by (intro totalOf_exact) (use cs0 in auto)
  have miss: "miss = missWeightFor (of_int e) target W" by (simp add: miss_def e W)
  have enough: "of_int e \<le> target * of_int (W + miss) * (1 + 1 / 10 ^ 18)" "W + miss < 2 ^ 53"
    unfolding miss
    by (rule missWeightFor_enough; use e0 e2 t b \<open>0 \<le> W\<close> in \<open>simp add: e_def W_def\<close>)+
  have miss0: "0 \<le> miss" by (simp add: miss_def missWeightFor_nonneg)
  have "0 < W + miss"
  proof (rule ccontr)
    assume "\<not> 0 < W + miss"
    with \<open>0 \<le> W\<close> miss0 have "W + miss = 0" by simp
    with enough(1) e0 show False by (simp add: e_def)
  qed
  note turns = turns_of_words [OF \<open>0 < W + miss\<close>]
  have total: "(\<Sum>v < 2 ^ 32. case pickByWeight itemWeight
            (\<lambda>t. fst (deriveRandomPick (\<lambda>_. digestOf v) t sd nonce)) (weightedCandidates items miss) of
              None \<Rightarrow> 0 | Some (item, _, _) \<Rightarrow> itemReward item) \<le> (2 ^ 32 div (W + miss) + 1) * e" (is "?L \<le> _")
    using payout_of_words [OF dist cs0 miss0] enough(2) \<open>0 < W + miss\<close> unfolding W_def e_def by simp
  have "(of_int ?L :: rat) \<le> of_int ((2 ^ 32 div (W + miss) + 1) * e)" using total by (simp only: of_int_le_iff)
  also have "\<dots> \<le> of_int (2 ^ 32 div (W + miss) + 1) * (target * of_int (W + miss) * (1 + 1 / 10 ^ 18))"
    unfolding of_int_mult using enough(1) turns(2) by (rule mult_left_mono)
  also have "\<dots> = of_int ((2 ^ 32 div (W + miss) + 1) * (W + miss)) * (target * (1 + 1 / 10 ^ 18))"
    by (simp only: of_int_mult mult_ac)
  also have "\<dots> \<le> of_int (2 ^ 32 + (W + miss)) * (target * (1 + 1 / 10 ^ 18))"
    using turns(1) t by (intro mult_right_mono) auto
  finally show ?thesis by (simp add: W_def mult.assoc)
qed

text \<open>One prize of 100.00 and draws at 10.00 that are to pay back half.\<close>

theorem expected_payout_meets_target_witness:
  "let items = [\<lparr>ca_id = 1, ca_weight = 3, ca_rewardAmount = 10000, ca_poolThreshold = 0, ca_userPoolThreshold = 0\<rparr>];
       miss = missWeightFor (expectedPayoutOf items) 500 (totalOf ca_weight items)
   in of_int (\<Sum>v < 2 ^ 32. case pickByWeight itemWeight
            (\<lambda>t. fst (deriveRandomPick (\<lambda>_. digestOf v) t ''s'' ''n'')) (weightedCandidates items miss) of
              None \<Rightarrow> 0 | Some (item, _, _) \<Rightarrow> itemReward item)
      \<le> (2 ^ 32 + of_int (3 + miss)) * (500 :: rat) * (1 + 1 / 10 ^ 18)"
  using expected_payout_meets_target [where items = "[\<lparr>ca_id = 1, ca_weight = 3, ca_rewardAmount = 10000,
      ca_poolThreshold = 0, ca_userPoolThreshold = 0\<rparr>]" and target = 500 and sd = "''s''" and nonce = "''n''"]
  unfolding Let_def by simp

subsection \<open>Totals of more than 32 bits\<close>

lemma window_size:
  assumes "0 \<le> a" and "0 \<le> w"
  shows "int (min (nat a + nat w) 4294967296 - nat a) = max 0 (min (a + w) 4294967296 - a)"
  using assms by linarith

text \<open>
  The pick is the remainder of 32 bits, but the total weight may be larger: a small target
  makes the miss weight as large as it has to be.  Beyond $2^{32}$ the words no longer reach
  the end of the items, where the miss stands; an item before that point is chosen by as many
  words as its weight says, a larger share than its weight has of the total, and an item
  behind it is never chosen.
\<close>

theorem large_totals_skip_last_items:
  assumes "\<forall>item \<in> set (xs @ x # ys). 0 \<le> wt item" and "distinct (xs @ x # ys)"
    and large: "2 ^ 32 \<le> sum_list (map wt (xs @ x # ys))" and "sum_list (map wt (xs @ x # ys)) < 2 ^ 53"
  shows "int (card {v. v < 2 ^ 32 \<and> map_option fst (pickByWeight wt
            (\<lambda>t. fst (deriveRandomPick (\<lambda>_. digestOf v) t sd nonce)) (xs @ x # ys)) = Some x}) =
     max 0 (min (sum_list (map wt xs) + wt x) (2 ^ 32) - sum_list (map wt xs))"
proof -
  let ?a = "sum_list (map wt xs)" and ?T = "sum_list (map wt (xs @ x # ys))"
  have a: "0 \<le> ?a" "0 \<le> wt x" using assms(1) by (auto intro!: sum_list_nonneg)
  have "v mod nat ?T = v" if "v < 2 ^ 32" for v
  proof -
    have "int v < int (2 ^ 32)" using that by (simp only: of_nat_less_iff)
    with large have "v < nat ?T" unfolding zless_nat_eq_int_zless by simp
    then show ?thesis by (rule mod_less)
  qed
  then have words: "v < 2 ^ 32 \<and> nat ?a \<le> v mod nat ?T \<and> v mod nat ?T < nat ?a + nat (wt x) \<longleftrightarrow>
      v \<in> {nat ?a..<min (nat ?a + nat (wt x)) (2 ^ 32)}" for v
    unfolding atLeastLessThan_iff min_less_iff_conj by metis
  have "0 < ?T" using large by simp
  from wordsFor_window [OF assms(1,4) this assms(2), of sd nonce]
  have "wordsFor wt (xs @ x # ys) sd nonce x = {nat ?a..<min (nat ?a + nat (wt x)) (2 ^ 32)}"
    by (simp only: words Collect_mem_eq)
  then have "int (card (wordsFor wt (xs @ x # ys) sd nonce x)) = max 0 (min (?a + wt x) (2 ^ 32) - ?a)"
    using window_size [OF a] by simp
  then show ?thesis by (simp only: wordsFor_def chosenBy_def)
qed

text \<open>A prize of weight 1 next to a miss of weight $2^{33}$ is won by one word in $2^{32}$.\<close>

theorem large_totals_skip_last_items_witness:
  "int (card {v. v < 2 ^ 32 \<and> map_option fst (pickByWeight snd
      (\<lambda>t. fst (deriveRandomPick (\<lambda>_. digestOf v) t ''s'' ''n'')) [(''prize'', 1), (''miss'', 2 ^ 33)]) = Some (''prize'', 1)}) = 1"
  using large_totals_skip_last_items [of "[]" "(''prize'', 1)" "[(''miss'', 2 ^ 33)]" snd "''s''" "''n''"] by simp

end
