(* ===== verification/Play_Mode.thy ===== *)
theory Play_Mode
  imports Prelude
begin

text \<open>
  The play modes of a game, the pure part of \<open>modules/play-mode/service.ts\<close>: which snapshot a
  request runs under, and what a settled round leaves of it.  A stored state is given as what
  parsing it against its schema yields, \<open>None\<close> when that fails.  Amounts are in cents, the code
  has them as text with two digits.
\<close>

datatype play_mode_type = Mode_standard | Mode_dual_bet | Mode_deferred_double | Mode_snowball

datatype play_mode_outcome = Outcome_win | Outcome_lose | Outcome_push | Outcome_miss

record play_snapshot =
  ps_type :: play_mode_type
  ps_appliedMultiplier :: int
  ps_nextMultiplier :: int
  ps_streak :: int
  ps_lastOutcome :: "play_mode_outcome option"
  ps_carryActive :: bool
  ps_pendingPayoutAmount :: cents
  ps_pendingPayoutCount :: int
  ps_snowballCarryAmount :: cents
  ps_snowballEnvelopeAmount :: cents

definition MAX_SNOWBALL_MULTIPLIER :: int where
  "MAX_SNOWBALL_MULTIPLIER = 5"

fun STATIC_MODE_MULTIPLIERS :: "play_mode_type \<Rightarrow> int" where
  "STATIC_MODE_MULTIPLIERS Mode_standard = 1"
| "STATIC_MODE_MULTIPLIERS Mode_dual_bet = 2"
| "STATIC_MODE_MULTIPLIERS Mode_deferred_double = 1"
| "STATIC_MODE_MULTIPLIERS Mode_snowball = 1"

definition clampMultiplier :: "int \<Rightarrow> int \<Rightarrow> int" where
  "clampMultiplier parsed fallback = (if parsed > 0 then parsed else fallback)"

definition hasPendingPayout :: "play_snapshot \<Rightarrow> bool" where
  "hasPendingPayout s =
     (ps_pendingPayoutCount s > 0 \<or> ps_pendingPayoutAmount s \<noteq> 0 \<or>
      ps_snowballCarryAmount s \<noteq> 0 \<or> ps_snowballEnvelopeAmount s \<noteq> 0)"

definition createDefaultPlayModeSnapshot :: "play_mode_type \<Rightarrow> play_snapshot" where
  "createDefaultPlayModeSnapshot t =
     \<lparr>ps_type = t, ps_appliedMultiplier = STATIC_MODE_MULTIPLIERS t,
      ps_nextMultiplier = STATIC_MODE_MULTIPLIERS t, ps_streak = 0, ps_lastOutcome = None,
      ps_carryActive = False, ps_pendingPayoutAmount = 0, ps_pendingPayoutCount = 0,
      ps_snowballCarryAmount = 0, ps_snowballEnvelopeAmount = 0\<rparr>"

definition parseStoredSnapshot :: "play_mode_type \<Rightarrow> play_snapshot option \<Rightarrow> play_snapshot" where
  "parseStoredSnapshot t stored =
     (case stored of None \<Rightarrow> createDefaultPlayModeSnapshot t
      | Some s \<Rightarrow> if ps_type s \<noteq> t then createDefaultPlayModeSnapshot t else s)"

definition resolveRequestedPlayMode ::
  "play_mode_type option \<Rightarrow> play_mode_type option \<Rightarrow> play_snapshot option \<Rightarrow> play_snapshot" where
  "resolveRequestedPlayMode requestedMode storedMode storedState =
     (let t = (case requestedMode of Some m \<Rightarrow> m
               | None \<Rightarrow> (case storedMode of Some m \<Rightarrow> m | None \<Rightarrow> Mode_standard));
          storedSnapshot = parseStoredSnapshot t storedState;
          baseMultiplier = STATIC_MODE_MULTIPLIERS t
      in if t = Mode_standard \<or> t = Mode_dual_bet
         then storedSnapshot\<lparr>ps_type := t, ps_appliedMultiplier := baseMultiplier,
                ps_nextMultiplier := baseMultiplier, ps_carryActive := False\<rparr>
         else storedSnapshot\<lparr>ps_type := t, ps_appliedMultiplier := 1,
                ps_nextMultiplier := (if t = Mode_snowball
                   then clampMultiplier (ps_nextMultiplier storedSnapshot) 1 else 1),
                ps_carryActive := hasPendingPayout storedSnapshot\<rparr>)"

definition resolveSettledPlayMode :: "play_snapshot \<Rightarrow> play_mode_outcome \<Rightarrow> play_snapshot" where
  "resolveSettledPlayMode s outcome =
     (case ps_type s of
        Mode_standard \<Rightarrow> (createDefaultPlayModeSnapshot Mode_standard)\<lparr>ps_lastOutcome := Some outcome\<rparr>
      | Mode_dual_bet \<Rightarrow> (createDefaultPlayModeSnapshot Mode_dual_bet)
          \<lparr>ps_lastOutcome := Some outcome,
           ps_streak := (if outcome = Outcome_win then ps_streak s + 1 else 0)\<rparr>
      | Mode_deferred_double \<Rightarrow>
          s\<lparr>ps_appliedMultiplier := 1, ps_nextMultiplier := 1, ps_streak := 0,
            ps_lastOutcome := Some outcome, ps_carryActive := hasPendingPayout s\<rparr>
      | Mode_snowball \<Rightarrow>
          let nextStreak = (if outcome = Outcome_win then ps_streak s + 1
                            else if outcome = Outcome_push then ps_streak s else 0)
          in if outcome = Outcome_win \<or> outcome = Outcome_push
             then s\<lparr>ps_appliedMultiplier := 1,
                    ps_nextMultiplier := min (max 1 (nextStreak + 1)) MAX_SNOWBALL_MULTIPLIER,
                    ps_streak := nextStreak, ps_lastOutcome := Some outcome,
                    ps_carryActive := hasPendingPayout s\<rparr>
             else s\<lparr>ps_appliedMultiplier := 1, ps_nextMultiplier := 1, ps_streak := 0,
                    ps_lastOutcome := Some outcome, ps_carryActive := hasPendingPayout s\<rparr>)"

text \<open>
  A snapshot as the games write it: the multipliers are positive, only the snowball raises the
  next one, by its streak up to the cap, and the modes without carry have nothing pending.
\<close>

definition snapshotOk :: "play_snapshot \<Rightarrow> bool" where
  "snapshotOk s =
     (1 \<le> ps_appliedMultiplier s \<and> 1 \<le> ps_nextMultiplier s \<and> 0 \<le> ps_streak s \<and>
      (ps_type s = Mode_standard \<longrightarrow> ps_nextMultiplier s = 1) \<and>
      (ps_type s = Mode_dual_bet \<longrightarrow> ps_nextMultiplier s = 2) \<and>
      (ps_type s = Mode_deferred_double \<longrightarrow> ps_nextMultiplier s = 1) \<and>
      (ps_type s = Mode_snowball \<longrightarrow> ps_nextMultiplier s = min (ps_streak s + 1) MAX_SNOWBALL_MULTIPLIER))"

text \<open>The multiplier of the stake while a request runs.\<close>

lemma resolveRequested_applied:
  "ps_appliedMultiplier (resolveRequestedPlayMode r st stored) =
     STATIC_MODE_MULTIPLIERS (ps_type (resolveRequestedPlayMode r st stored))"
  by (cases "case r of Some m \<Rightarrow> m | None \<Rightarrow> (case st of Some m \<Rightarrow> m | None \<Rightarrow> Mode_standard)")
    (simp_all add: resolveRequestedPlayMode_def Let_def)

lemma snapshotOk_default [simp]: "snapshotOk (createDefaultPlayModeSnapshot t)"
  by (cases t) (simp_all add: snapshotOk_def createDefaultPlayModeSnapshot_def MAX_SNOWBALL_MULTIPLIER_def)

lemma default_type [simp]: "ps_type (createDefaultPlayModeSnapshot t) = t"
  by (simp add: createDefaultPlayModeSnapshot_def)

lemma snapshotOk_settled:
  assumes "snapshotOk s"
  shows "snapshotOk (resolveSettledPlayMode s outcome)"
  using assms
  by (cases "ps_type s"; cases outcome)
    (auto simp: snapshotOk_def resolveSettledPlayMode_def createDefaultPlayModeSnapshot_def Let_def
      MAX_SNOWBALL_MULTIPLIER_def)

lemma snapshotOk_requested:
  assumes "\<And>s. stored = Some s \<Longrightarrow> snapshotOk s"
  shows "snapshotOk (resolveRequestedPlayMode r st stored)"
proof -
  define t where "t = (case r of Some m \<Rightarrow> m | None \<Rightarrow> (case st of Some m \<Rightarrow> m | None \<Rightarrow> Mode_standard))"
  have parsed: "snapshotOk (parseStoredSnapshot t stored)" "ps_type (parseStoredSnapshot t stored) = t"
    using assms by (auto simp: parseStoredSnapshot_def split: option.splits)
  then show ?thesis
    by (cases t) (auto simp: resolveRequestedPlayMode_def Let_def t_def [symmetric] snapshotOk_def clampMultiplier_def)
qed

end
