(* ===== verification/Draw_World.thy ===== *)
theory Draw_World
  imports Draw_Selection Wallet_Ledger Asset_Ledger Play_Mode
begin

text \<open>
  The tables a draw reads and writes, and the parts of \<open>modules/draw\<close> that decide whether a
  selected prize is paid: the budget of the prize, the limits on payouts and the order in which
  they are asked (\<open>helpers.ts\<close>, \<open>payout-policy.ts\<close>).  Columns are whole cents, clocks are
  milliseconds, and the creation time of a draw record is the database's, in microseconds.
\<close>

subsection \<open>Tables\<close>

record draw_user =
  du_userPoolBalance :: cents
  du_pityStreak :: int
  du_lastDrawAt :: "int option"
  du_lastWinAt :: "int option"

record prize =
  pz_id :: nat
  pz_name :: string
  pz_stock :: int
  pz_weight :: int
  pz_rewardAmount :: cents
  pz_isActive :: bool
  pz_deleted :: bool
  pz_poolThreshold :: cents
  pz_userPoolThreshold :: cents
  pz_payoutBudget :: cents
  pz_payoutSpent :: cents
  pz_payoutPeriodDays :: int
  pz_payoutPeriodStartedAt :: "int option"

datatype draw_status = D_miss | D_won | D_out_of_stock | D_budget_exhausted | D_payout_limited

record draw_metadata =
  dm_poolBalanceBefore :: cents
  dm_poolBalanceAfter :: cents
  dm_effectivePoolBalance :: cents
  dm_poolNoiseApplied :: rat
  dm_userPoolBalanceBefore :: cents
  dm_userPoolBalanceAfterDebit :: cents
  dm_userPoolBalanceAfterReward :: cents
  dm_drawCostBase :: cents
  dm_drawCostEffective :: cents
  dm_drawCostClamped :: bool
  dm_randomPick :: "int option"
  dm_totalWeight :: "int option"
  dm_eligiblePrizes :: "candidate list"
  dm_jitteredWeights :: "jitter_meta list"
  dm_expectedPayoutWeightSum :: cents
  dm_expectedValueBase :: cents
  dm_expectedValueWithMiss :: cents
  dm_targetExpectedValue :: cents
  dm_missWeightBase :: int
  dm_missWeight :: int
  dm_streakBefore :: int
  dm_streakAfter :: int
  dm_boostApplied :: rat
  dm_epoch :: int
  dm_epochSeconds :: rat
  dm_commitHash :: string
  dm_clientNonce :: string
  dm_nonceFromClient :: bool
  dm_rngDigest :: "string option"
  dm_playMode :: "play_snapshot option"
  dm_payoutLimitReason :: "string option"

record draw_record =
  rd_id :: nat
  rd_userId :: nat
  rd_prizeId :: "nat option"
  rd_drawCost :: cents
  rd_rewardAmount :: cents
  rd_status :: draw_status
  rd_createdAt :: int
  rd_metadata :: draw_metadata

record draw_world =
  dw_users :: "nat \<Rightarrow> draw_user option"
  dw_wallets :: "nat \<Rightarrow> wallet option"
  dw_ledger :: "ledger_entry list"
  dw_prizePool :: cents
  dw_houseLines :: "ledger_line list"
  dw_prizes :: "prize list"
  dw_draws :: "draw_record list"
  dw_fair :: fair_store
  dw_economy :: economy

record debited_draw =
  db_drawCostBase :: cents
  db_drawCost :: cents
  db_drawCostClamped :: bool
  db_walletAfterDebit :: cents
  db_userPoolBefore :: cents
  db_userPoolAfterDebit :: cents
  db_wageredAfter :: cents
  db_pityStreakBefore :: int

record draw_outcome =
  oc_status :: draw_status
  oc_rewardAmount :: cents
  oc_prizeId :: "nat option"
  oc_payoutLimitReason :: "string option"

subsection \<open>The budget of a prize\<close>

record budget_evaluation =
  bv_available :: bool
  bv_shouldReset :: bool
  bv_budget :: cents
  bv_spent :: cents
  bv_remaining :: cents
  bv_periodDays :: int

definition evaluateBudget :: "prize \<Rightarrow> int \<Rightarrow> budget_evaluation" where
  "evaluateBudget p now =
     (let budget = pz_payoutBudget p; periodDays = max 1 (pz_payoutPeriodDays p)
      in if budget \<le> 0
         then \<lparr>bv_available = True, bv_shouldReset = False, bv_budget = budget,
               bv_spent = pz_payoutSpent p, bv_remaining = budget, bv_periodDays = periodDays\<rparr>
         else
           let periodStart = (case pz_payoutPeriodStartedAt p of None \<Rightarrow> now | Some t \<Rightarrow> t);
               expired = (now - periodStart \<ge> periodDays * 24 * 60 * 60 * 1000);
               spent = (if expired then 0 else pz_payoutSpent p);
               remaining = budget - spent
           in \<lparr>bv_available = (remaining \<ge> pz_rewardAmount p), bv_shouldReset = expired,
               bv_budget = budget, bv_spent = spent, bv_remaining = remaining,
               bv_periodDays = periodDays\<rparr>)"

subsection \<open>Limits on payouts\<close>

text \<open>The moment a number of seconds ago, as a \<open>Date\<close> holds it.\<close>

definition secondsAgo :: "int \<Rightarrow> rat \<Rightarrow> int" where
  "secondsAgo now seconds = jsTrunc (dbl (of_int now - dbl (dbl seconds * 1000)))"

definition createdSince :: "int \<Rightarrow> draw_record \<Rightarrow> bool" where
  "createdSince since r = (1000 * since \<le> rd_createdAt r)"

definition wonSince :: "int \<Rightarrow> draw_world \<Rightarrow> draw_record list" where
  "wonSince since w = filter (\<lambda>r. rd_status r = D_won \<and> createdSince since r) (dw_draws w)"

definition bigPrizeLimit :: "payout_control \<Rightarrow> int \<Rightarrow> int \<Rightarrow> cents \<Rightarrow> draw_world \<Rightarrow> string option" where
  "bigPrizeLimit pc now startOfDay maxReward w =
     (let big = (\<lambda>since. length (filter (\<lambda>r. rd_rewardAmount r \<ge> maxReward) (wonSince since w)));
          hourly = (if pc_maxBigPerHour pc \<le> 0 then Some ''max_big_prize_disabled''
                    else if of_nat (big (now - 60 * 60 * 1000)) \<ge> dbl (pc_maxBigPerHour pc)
                    then Some ''max_big_prize_per_hour'' else None)
      in if hourly = None \<and> pc_maxBigPerDay pc > 0 \<and>
            of_nat (big startOfDay) \<ge> dbl (pc_maxBigPerDay pc)
         then Some ''max_big_prize_per_day'' else hourly)"

definition resolvePayoutLimitReason ::
  "draw_env \<Rightarrow> nat \<Rightarrow> cents \<Rightarrow> cents \<Rightarrow> payout_control \<Rightarrow> draw_world \<Rightarrow> string option" where
  "resolvePayoutLimitReason env uid candidateReward maxReward pc w =
     (let now = dv_now env
      in if candidateReward \<le> 0 then None
         else if pc_cooldownSeconds pc > 0 \<and>
                 (\<exists>r \<in> set (wonSince (secondsAgo now (pc_cooldownSeconds pc)) w). rd_userId r = uid)
         then Some ''payout_cooldown''
         else if pc_maxTotalPerHour pc > 0 \<and>
                 sum_list (map rd_rewardAmount (wonSince (now - 60 * 60 * 1000) w)) + candidateReward
                   > pc_maxTotalPerHour pc
         then Some ''max_total_payout_per_hour''
         else if maxReward > 0 \<and> candidateReward \<ge> maxReward
         then bigPrizeLimit pc now (dv_startOfDay env) maxReward w
         else None)"

subsection \<open>The payout policy\<close>

definition loadLockedPrize :: "nat \<Rightarrow> draw_world \<Rightarrow> prize option" where
  "loadLockedPrize i w = find (\<lambda>p. pz_id p = i \<and> \<not> pz_deleted p) (dw_prizes w)"

definition buildOutcome :: "draw_status \<Rightarrow> string option \<Rightarrow> draw_outcome" where
  "buildOutcome st reason =
     \<lparr>oc_status = st, oc_rewardAmount = 0, oc_prizeId = None, oc_payoutLimitReason = reason\<rparr>"

datatype policy_decision =
    Terminal draw_outcome
  | Winning_plan prize cents budget_evaluation

definition lockedPrizePolicy ::
  "draw_env \<Rightarrow> draw_config \<Rightarrow> nat \<Rightarrow> prepared_selection \<Rightarrow> cents \<Rightarrow> cents \<Rightarrow> prize \<Rightarrow> draw_world \<Rightarrow> policy_decision" where
  "lockedPrizePolicy env cfg uid sel drawCost userPoolAfterDebit p w =
     (let pool = dc_poolSystem cfg; budget = evaluateBudget p (dv_now env);
          candidateReward = pz_rewardAmount p;
          updatedPool = max (pr_poolBalance sel + drawCost - candidateReward) 0
      in if pr_effectivePoolBalance sel < of_int (pz_poolThreshold p) \<or>
            userPoolAfterDebit < pz_userPoolThreshold p
         then Terminal (buildOutcome D_miss None)
         else if \<not> bv_available budget then Terminal (buildOutcome D_budget_exhausted None)
         else if py_minReserve pool > 0 \<and> updatedPool < py_minReserve pool
         then Terminal (buildOutcome D_payout_limited None)
         else if dc_houseBankroll cfg > 0 \<and> candidateReward > dc_houseBankroll cfg
         then Terminal (buildOutcome D_payout_limited None)
         else if py_maxPayoutRatio pool > 0 \<and>
                 of_int candidateReward > decMul (of_int (pr_poolBalance sel)) (py_maxPayoutRatio pool)
         then Terminal (buildOutcome D_payout_limited None)
         else case resolvePayoutLimitReason env uid candidateReward (pr_maxReward sel) (dc_payoutControl cfg) w of
                Some reason \<Rightarrow> Terminal (buildOutcome D_payout_limited (Some reason))
              | None \<Rightarrow> Winning_plan p candidateReward budget)"

definition resolvePayoutPolicy ::
  "draw_env \<Rightarrow> draw_config \<Rightarrow> nat \<Rightarrow> prepared_selection \<Rightarrow> cents \<Rightarrow> cents \<Rightarrow> draw_world \<Rightarrow> policy_decision" where
  "resolvePayoutPolicy env cfg uid sel drawCost userPoolAfterDebit w =
     (case pr_selection sel of
        None \<Rightarrow> Terminal (buildOutcome D_miss None)
      | Some (Miss_item _, _, _) \<Rightarrow> Terminal (buildOutcome D_miss None)
      | Some (Prize_item c, _, _) \<Rightarrow>
          (case loadLockedPrize (ca_id c) w of
             None \<Rightarrow> Terminal (buildOutcome D_out_of_stock None)
           | Some p \<Rightarrow>
               if \<not> pz_isActive p \<or> pz_stock p \<le> 0 then Terminal (buildOutcome D_out_of_stock None)
               else lockedPrizePolicy env cfg uid sel drawCost userPoolAfterDebit p w))"

end
