(* ===== verification/Draw_Execute.thy ===== *)
theory Draw_Execute
  imports Draw_World
begin

text \<open>
  One draw and a batch of draws: \<open>modules/draw/execute-draw.ts\<close>, \<open>reward-persistence.ts\<close>,
  \<open>record.ts\<close>, \<open>metadata.ts\<close> and the batch of \<open>gacha.ts\<close>.  A draw runs in one transaction; an
  error drops everything it did.
\<close>

subsection \<open>Before the money moves\<close>

definition resolveClientNonce :: "draw_env \<Rightarrow> string option \<Rightarrow> string \<times> bool" where
  "resolveClientNonce env value =
     (let rawNonce = (case value of None \<Rightarrow> [] | Some v \<Rightarrow> js_trim v)
      in if rawNonce = [] then (dv_serverNonce env, False) else (rawNonce, True))"

definition resolveEffectiveDrawCost :: "cents \<Rightarrow> draw_system \<Rightarrow> cents" where
  "resolveEffectiveDrawCost drawCostBase sy =
     (let drawCost = (if sy_minDrawCost sy > 0 \<and> drawCostBase < sy_minDrawCost sy
                      then sy_minDrawCost sy else drawCostBase)
      in if sy_maxDrawCost sy > 0 \<and> drawCost > sy_maxDrawCost sy then sy_maxDrawCost sy else drawCost)"

definition enforceDrawGuards :: "draw_env \<Rightarrow> nat \<Rightarrow> draw_system \<Rightarrow> draw_world \<Rightarrow> unit res" where
  "enforceDrawGuards env uid sy w =
     (let own = (\<lambda>since. filter (\<lambda>r. rd_userId r = uid \<and> createdSince since r) (dw_draws w))
      in if \<not> sy_drawEnabled sy then Inl (ServiceUnavailable ''Draws are disabled.'')
         else if sy_maxDrawPerRequest sy > 0 \<and> sy_maxDrawPerRequest sy < 1
         then Inl (ServiceUnavailable ''Draw limit configured to zero.'')
         else if sy_maxDrawPerDay sy > 0 \<and> of_nat (length (own (dv_startOfDay env))) \<ge> dbl (sy_maxDrawPerDay sy)
         then Inl (Conflict ''Daily draw limit reached.'')
         else if sy_cooldownSeconds sy > 0 \<and> own (secondsAgo (dv_now env) (sy_cooldownSeconds sy)) \<noteq> []
         then Inl (Conflict ''Draw cooldown active.'')
         else Inr ())"

definition drawCostEntry :: "nat \<Rightarrow> cents \<Rightarrow> cents \<Rightarrow> cents \<Rightarrow> ledger_entry" where
  "drawCostEntry uid drawCost before after =
     \<lparr>le_userId = uid, le_entryType = ''draw_cost'', le_amount = - drawCost, le_balanceBefore = before,
      le_balanceAfter = after, le_referenceId = None, le_unlockRatio = 0, le_balanceType = None,
      le_lockedBalanceBefore = 0, le_lockedBalanceAfter = 0\<rparr>"

definition debitDrawCost ::
  "draw_config \<Rightarrow> nat \<Rightarrow> draw_user \<Rightarrow> wallet \<Rightarrow> draw_world \<Rightarrow> (debited_draw \<times> draw_world) res" where
  "debitDrawCost cfg uid u wl w =
     (let drawCostBase = dc_drawCost cfg;
          drawCost = resolveEffectiveDrawCost drawCostBase (dc_drawSystem cfg);
          walletBefore = wl_withdrawable wl
      in if walletBefore < drawCost then Inl (Conflict ''Insufficient balance.'')
         else
           let walletAfterDebit = walletBefore - drawCost;
               userPoolAfterDebit = du_userPoolBalance u + drawCost;
               wageredAfter = wl_wagered wl + drawCost
           in Inr (\<lparr>db_drawCostBase = drawCostBase, db_drawCost = drawCost,
                    db_drawCostClamped = (drawCost \<noteq> drawCostBase),
                    db_walletAfterDebit = walletAfterDebit,
                    db_userPoolBefore = du_userPoolBalance u,
                    db_userPoolAfterDebit = userPoolAfterDebit, db_wageredAfter = wageredAfter,
                    db_pityStreakBefore = du_pityStreak u\<rparr>,
                   w\<lparr>dw_wallets := (dw_wallets w)(uid \<mapsto> wl\<lparr>wl_withdrawable := walletAfterDebit, wl_wagered := wageredAfter\<rparr>),
                     dw_users := (dw_users w)(uid \<mapsto> u\<lparr>du_userPoolBalance := userPoolAfterDebit\<rparr>),
                     dw_ledger := dw_ledger w @ [drawCostEntry uid drawCost walletBefore walletAfterDebit]\<rparr>))"

subsection \<open>A win\<close>

definition decrementPrizeStock :: "draw_env \<Rightarrow> prize \<Rightarrow> cents \<Rightarrow> budget_evaluation \<Rightarrow> draw_world \<Rightarrow> draw_world" where
  "decrementPrizeStock env locked rewardAmount budget w =
     (let shouldTrackBudget = bv_budget budget > 0;
          spentAfter = (if bv_shouldReset budget then 0 else bv_spent budget) + rewardAmount;
          sold = (\<lambda>p. p\<lparr>pz_stock := pz_stock p - 1\<rparr>);
          tracked = (\<lambda>p. if shouldTrackBudget
            then p\<lparr>pz_payoutSpent := spentAfter,
                   pz_payoutPeriodStartedAt := (if bv_shouldReset budget then Some (dv_now env)
                                                else pz_payoutPeriodStartedAt p)\<rparr> else p)
      in w\<lparr>dw_prizes := map (\<lambda>p. if pz_id p = pz_id locked \<and> \<not> pz_deleted p then tracked (sold p) else p)
             (dw_prizes w)\<rparr>)"

definition creditPrizeReward ::
  "nat \<Rightarrow> nat \<Rightarrow> cents \<Rightarrow> cents \<Rightarrow> draw_world \<Rightarrow> draw_world res" where
  "creditPrizeReward uid prizeId rewardAmount userPoolAfterDebit w =
     (if rewardAmount \<le> 0 then Inr w
      else bind_res (creditAsset \<lparr>am_userId = uid, am_assetCode = B_LUCK, am_amount = of_int rewardAmount,
               am_entryType = ''draw_reward'', am_referenceType = Some ''prize'',
               am_referenceId = Some prizeId, am_idempotencyKey = None\<rparr> (dw_economy w))
             (\<lambda>(_, ec). Inr (w\<lparr>dw_economy := ec,
                 dw_users := (dw_users w)(uid := map_option (\<lambda>u. u\<lparr>du_userPoolBalance :=
                    max (userPoolAfterDebit - rewardAmount) 0\<rparr>) (dw_users w uid))\<rparr>)))"

definition persistWinningOutcome ::
  "draw_env \<Rightarrow> nat \<Rightarrow> prize \<Rightarrow> cents \<Rightarrow> budget_evaluation \<Rightarrow> cents \<Rightarrow> draw_world \<Rightarrow> (draw_outcome \<times> draw_world) res" where
  "persistWinningOutcome env uid locked rewardAmount budget userPoolAfterDebit w =
     bind_res (creditPrizeReward uid (pz_id locked) rewardAmount userPoolAfterDebit
                 (decrementPrizeStock env locked rewardAmount budget w)) (\<lambda>w1.
       Inr (\<lparr>oc_status = D_won, oc_rewardAmount = rewardAmount, oc_prizeId = Some (pz_id locked),
             oc_payoutLimitReason = None\<rparr>, w1))"

definition resolveDrawOutcome ::
  "draw_env \<Rightarrow> draw_config \<Rightarrow> nat \<Rightarrow> prepared_selection \<Rightarrow> cents \<Rightarrow> cents \<Rightarrow> draw_world \<Rightarrow> (draw_outcome \<times> draw_world) res" where
  "resolveDrawOutcome env cfg uid sel drawCost userPoolAfterDebit w =
     (case resolvePayoutPolicy env cfg uid sel drawCost userPoolAfterDebit w of
        Terminal oc \<Rightarrow> Inr (oc, w)
      | Winning_plan locked rewardAmount budget \<Rightarrow>
          persistWinningOutcome env uid locked rewardAmount budget userPoolAfterDebit w)"

subsection \<open>The books and the record\<close>

definition housePoolDelta :: "cents \<Rightarrow> string \<Rightarrow> nat option \<Rightarrow> draw_world \<Rightarrow> draw_world" where
  "housePoolDelta change entryType ref w =
     (let bk = applyPrizePoolDelta (of_int change) entryType ref
            \<lparr>withdrawableBalance = 0, wageredAmount = 0, prizePoolBalance = dw_prizePool w,
             walletLedger = [], houseLedger = dw_houseLines w\<rparr>
      in w\<lparr>dw_prizePool := prizePoolBalance bk, dw_houseLines := houseLedger bk\<rparr>)"

definition applyHouseDrawEntries :: "cents \<Rightarrow> cents \<Rightarrow> nat option \<Rightarrow> draw_world \<Rightarrow> draw_world" where
  "applyHouseDrawEntries drawCost rewardAmount prizeId w =
     (let w1 = housePoolDelta drawCost ''draw_cost'' None w
      in if rewardAmount > 0 then housePoolDelta (- rewardAmount) ''draw_reward'' prizeId w1 else w1)"

definition updateUserDrawState :: "draw_env \<Rightarrow> nat \<Rightarrow> draw_status \<Rightarrow> int \<Rightarrow> draw_world \<Rightarrow> int \<times> draw_world" where
  "updateUserDrawState env uid st pityStreakBefore w =
     (let didWin = (st = D_won); pityStreakAfter = (if didWin then 0 else pityStreakBefore + 1)
      in (pityStreakAfter,
          w\<lparr>dw_users := (dw_users w)(uid := map_option (\<lambda>u. u\<lparr>du_pityStreak := pityStreakAfter,
               du_lastDrawAt := Some (dv_now env),
               du_lastWinAt := (if didWin then Some (dv_now env) else du_lastWinAt u)\<rparr>) (dw_users w uid))\<rparr>))"

definition computeUpdatedPoolBalance :: "prepared_selection \<Rightarrow> debited_draw \<Rightarrow> draw_outcome \<Rightarrow> cents" where
  "computeUpdatedPoolBalance sel db oc = max (pr_poolBalance sel + db_drawCost db - oc_rewardAmount oc) 0"

definition buildDrawRecordMetadata ::
  "prepared_selection \<Rightarrow> debited_draw \<Rightarrow> draw_outcome \<Rightarrow> fair_seed \<Rightarrow> string \<times> bool \<Rightarrow> int \<Rightarrow>
     play_snapshot option \<Rightarrow> draw_metadata" where
  "buildDrawRecordMetadata sel db oc sd nonce pityStreakAfter pm =
     \<lparr>dm_poolBalanceBefore = pr_poolBalance sel,
      dm_poolBalanceAfter = computeUpdatedPoolBalance sel db oc,
      dm_effectivePoolBalance = toCents (pr_effectivePoolBalance sel),
      dm_poolNoiseApplied = pr_noiseApplied sel,
      dm_userPoolBalanceBefore = db_userPoolBefore db,
      dm_userPoolBalanceAfterDebit = db_userPoolAfterDebit db,
      dm_userPoolBalanceAfterReward =
        (if oc_rewardAmount oc > 0 then max (db_userPoolAfterDebit db - oc_rewardAmount oc) 0
         else db_userPoolAfterDebit db),
      dm_drawCostBase = db_drawCostBase db, dm_drawCostEffective = db_drawCost db,
      dm_drawCostClamped = db_drawCostClamped db,
      dm_randomPick = map_option (\<lambda>(_, pick, _). pick) (pr_selection sel),
      dm_totalWeight = map_option (\<lambda>(_, _, t). t) (pr_selection sel),
      dm_eligiblePrizes = pr_jitteredEligible sel, dm_jitteredWeights = pr_jitterMeta sel,
      dm_expectedPayoutWeightSum = toCents (pr_expectedPayout sel),
      dm_expectedValueBase = toCents (pr_expectedValueBase sel),
      dm_expectedValueWithMiss = toCents (pr_expectedValueWithMiss sel),
      dm_targetExpectedValue = toCents (pr_targetExpectedValue sel),
      dm_missWeightBase = pr_missWeightBase sel, dm_missWeight = pr_missWeight sel,
      dm_streakBefore = db_pityStreakBefore db, dm_streakAfter = pityStreakAfter,
      dm_boostApplied = pr_pityBoostApplied sel,
      dm_epoch = fe_epoch sd, dm_epochSeconds = fe_epochSeconds sd, dm_commitHash = fe_commitHash sd,
      dm_clientNonce = fst nonce, dm_nonceFromClient = snd nonce, dm_rngDigest = pr_rngDigest sel,
      dm_playMode = pm, dm_payoutLimitReason = oc_payoutLimitReason oc\<rparr>"

definition createDrawRecord ::
  "draw_env \<Rightarrow> nat \<Rightarrow> prepared_selection \<Rightarrow> debited_draw \<Rightarrow> draw_outcome \<Rightarrow> draw_metadata \<Rightarrow> draw_world \<Rightarrow>
     draw_record \<times> draw_world" where
  "createDrawRecord env uid sel db oc md w =
     (let r = \<lparr>rd_id = dv_newId env, rd_userId = uid, rd_prizeId = oc_prizeId oc,
            rd_drawCost = db_drawCost db, rd_rewardAmount = oc_rewardAmount oc,
            rd_status = oc_status oc, rd_createdAt = dv_transactionStart env, rd_metadata = md\<rparr>
      in (r, w\<lparr>dw_draws := dw_draws w @ [r]\<rparr>))"

subsection \<open>One draw\<close>

record draw_options =
  do_clientNonce :: "string option"
  do_playMode :: "play_snapshot option"

text \<open>What happens once the seed and the nonce are known and the guards have passed.\<close>

definition performDraw ::
  "draw_env \<Rightarrow> draw_config \<Rightarrow> draw_options \<Rightarrow> nat \<Rightarrow> fair_seed \<Rightarrow> draw_user \<Rightarrow> wallet \<Rightarrow> draw_world \<Rightarrow>
     (draw_record \<times> draw_world) res" where
  "performDraw env cfg opts uid sd u wl w =
     (let nonce = resolveClientNonce env (do_clientNonce opts)
      in bind_res (debitDrawCost cfg uid u wl w) (\<lambda>(db, w1).
         let sel = prepareDrawSelection env cfg (dw_prizePool w1) (db_drawCost db) (db_pityStreakBefore db)
                     (fe_seed sd) (fst nonce)
         in bind_res (resolveDrawOutcome env cfg uid sel (db_drawCost db) (db_userPoolAfterDebit db) w1)
              (\<lambda>(oc, w2).
                let w3 = applyHouseDrawEntries (db_drawCost db) (oc_rewardAmount oc) (oc_prizeId oc) w2;
                    updated = updateUserDrawState env uid (oc_status oc) (db_pityStreakBefore db) w3
                in Inr (createDrawRecord env uid sel db oc
                     (buildDrawRecordMetadata sel db oc sd nonce (fst updated) (do_playMode opts))
                     (snd updated)))))"

definition executeDrawInTransaction ::
  "draw_env \<Rightarrow> draw_config \<Rightarrow> bool \<Rightarrow> draw_options \<Rightarrow> nat \<Rightarrow> draw_world \<Rightarrow> (draw_record \<times> draw_world) res" where
  "executeDrawInTransaction env cfg skipGuards opts uid w =
     (case dw_users w uid of
        None \<Rightarrow> Inl (NotFound ''User not found.'')
      | Some u \<Rightarrow>
          let wl = (case dw_wallets w uid of None \<Rightarrow> zeroWallet | Some wl \<Rightarrow> wl);
              w0 = w\<lparr>dw_wallets := (dw_wallets w)(uid \<mapsto> wl)\<rparr>;
              effectiveDrawCost = resolveEffectiveDrawCost (dc_drawCost cfg) (dc_drawSystem cfg)
          in bind_res (if skipGuards then Inr () else enforceDrawGuards env uid (dc_drawSystem cfg) w0) (\<lambda>_.
             bind_res (case dv_kyc env uid effectiveDrawCost of Some e \<Rightarrow> Inl e | None \<Rightarrow> Inr ()) (\<lambda>_.
             bind_res (ensureFairnessSeed (dv_fair env) (Some (dbl (py_epochSeconds (dc_poolSystem cfg)))) (dw_fair w0))
               (\<lambda>(sd, fs). performDraw env cfg opts uid sd u wl (w0\<lparr>dw_fair := fs\<rparr>)))))"

definition assertDrawWallet :: "bool \<Rightarrow> nat \<Rightarrow> draw_world \<Rightarrow> unit res" where
  "assertDrawWallet strict uid w =
     (case dw_wallets w uid of
        None \<Rightarrow> Inr ()
      | Some wl \<Rightarrow> assertWalletLedgerInvariant strict uid wl (dw_ledger w))"

definition executeDraw ::
  "bool \<Rightarrow> draw_env \<Rightarrow> draw_config \<Rightarrow> draw_options \<Rightarrow> nat \<Rightarrow> draw_world \<Rightarrow> (draw_record \<times> draw_world) res" where
  "executeDraw strict env cfg opts uid w =
     bind_res (executeDrawInTransaction env cfg False opts uid w) (\<lambda>(r, w1).
     bind_res (assertDrawWallet strict uid w1) (\<lambda>_. Inr (r, w1)))"

subsection \<open>A batch\<close>

definition CLIENT_NONCE_MAX_LENGTH :: nat where
  "CLIENT_NONCE_MAX_LENGTH = 128"

definition normalizeMaxBatchCount :: "rat \<Rightarrow> int" where
  "normalizeMaxBatchCount value = (let parsed = \<lfloor>dbl value\<rfloor> in if parsed > 0 then parsed else 1)"

definition resolveBatchClientNonce :: "string option \<Rightarrow> nat \<Rightarrow> nat \<Rightarrow> string option" where
  "resolveBatchClientNonce baseClientNonce drawIndex n =
     (let base = (case baseClientNonce of None \<Rightarrow> [] | Some b \<Rightarrow> js_trim b)
      in if base = [] then None
         else let suffix = '':'' @ show_digits (drawIndex + 1) @ ''/'' @ show_digits n
              in Some (take (max 1 (CLIENT_NONCE_MAX_LENGTH - length suffix)) base @ suffix))"

definition resolveExecutionCountMultiplier :: "play_snapshot \<Rightarrow> int" where
  "resolveExecutionCountMultiplier pm =
     (if ps_type pm = Mode_dual_bet then 1 else ps_appliedMultiplier pm)"

definition classifyDrawPlayModeOutcome :: "draw_record list \<Rightarrow> play_mode_outcome" where
  "classifyDrawPlayModeOutcome records =
     (if \<exists>r \<in> set records. rd_status r = D_won then Outcome_win else Outcome_miss)"

text \<open>The draws of a batch, each with its own clock reading and randomness.\<close>

fun runBatch ::
  "(nat \<Rightarrow> draw_env) \<Rightarrow> draw_config \<Rightarrow> string option \<Rightarrow> play_snapshot \<Rightarrow> nat \<Rightarrow> nat list \<Rightarrow> nat \<Rightarrow> draw_world \<Rightarrow>
     (draw_record list \<times> draw_world) res" where
  "runBatch envs cfg clientNonce pm n [] uid w = Inr ([], w)"
| "runBatch envs cfg clientNonce pm n (i # is) uid w =
     bind_res (executeDrawInTransaction (envs i) cfg False
                 \<lparr>do_clientNonce = resolveBatchClientNonce clientNonce i n, do_playMode = Some pm\<rparr> uid w)
       (\<lambda>(r, w1). bind_res (runBatch envs cfg clientNonce pm n is uid w1) (\<lambda>(rs, w2). Inr (r # rs, w2)))"

record draw_play_result =
  dp_requestedCount :: int
  dp_records :: "draw_record list"
  dp_endingBalance :: cents
  dp_pityStreak :: int
  dp_playMode :: play_snapshot

definition executeResolvedDrawPlayInTransaction ::
  "bool \<Rightarrow> (nat \<Rightarrow> draw_env) \<Rightarrow> draw_config \<Rightarrow> int \<Rightarrow> string option \<Rightarrow> play_snapshot \<Rightarrow> nat \<Rightarrow> draw_world \<Rightarrow>
     (draw_play_result \<times> draw_world) res" where
  "executeResolvedDrawPlayInTransaction strict envs cfg requestedCount clientNonce pm uid w =
     (if requestedCount \<le> 0 then Inl (Conflict ''Invalid draw count.'')
      else
        let effectiveCount = requestedCount * resolveExecutionCountMultiplier pm;
            sy = dc_drawSystem cfg
        in if effectiveCount > normalizeMaxBatchCount (sy_maxDrawPerRequest sy)
           then Inl (Conflict ''Requested batch size exceeds the configured maximum.'')
           else bind_res (case dv_kyc (envs 0) uid
                     (toCents (decMul (of_int (resolveEffectiveDrawCost (dc_drawCost cfg) sy)) (of_int effectiveCount)))
                   of Some e \<Rightarrow> Inl e | None \<Rightarrow> Inr ()) (\<lambda>_.
             bind_res (runBatch envs cfg clientNonce pm (nat effectiveCount) [0..<nat effectiveCount] uid w)
               (\<lambda>(records, w1).
             bind_res (assertDrawWallet strict uid w1) (\<lambda>_.
             Inr (\<lparr>dp_requestedCount = requestedCount, dp_records = records,
                    dp_endingBalance = (case dw_wallets w1 uid of None \<Rightarrow> 0 | Some wl \<Rightarrow> wl_withdrawable wl),
                    dp_pityStreak = (case dw_users w1 uid of None \<Rightarrow> 0 | Some u \<Rightarrow> du_pityStreak u),
                    dp_playMode = resolveSettledPlayMode pm (classifyDrawPlayModeOutcome records)\<rparr>, w1)))))"

end
