(* ===== verification/Fairness_Runs.thy ===== *)
theory Fairness_Runs
  imports Fairness_Seeds
begin

text \<open>
  What commit and reveal promise: the seed of an epoch is fixed by the first request that needs
  it, its published hash belongs to it, it is shown only when its epoch is over, audits of
  stored seeds succeed, and the streak of an audit summary counts consecutive verified epochs.
\<close>

subsection \<open>The streak\<close>

text \<open>How many of the rows, from the first on, verify the epochs from \<open>e\<close> downwards.\<close>

fun verifiedRun :: "int \<Rightarrow> fair_audit list \<Rightarrow> nat" where
  "verifiedRun e [] = 0"
| "verifiedRun e (a # as) = (if fa_matches a \<and> fa_epoch a = e then Suc (verifiedRun (e - 1) as) else 0)"

definition extendStreak :: "int \<Rightarrow> nat \<Rightarrow> audit_streak \<Rightarrow> audit_streak" where
  "extendStreak e n st =
     (if n = 0 then st
      else st\<lparr>st_count := st_count st + n, st_earliestEpoch := Some (e - int n + 1)\<rparr>)"

lemma extendStreak_Suc:
  "extendStreak (e - 1) n (st\<lparr>st_count := st_count st + 1, st_earliestEpoch := Some e\<rparr>) = extendStreak e (Suc n) st"
  by (simp add: extendStreak_def)

lemma scanAuditPage_run:
  "scanAuditPage rows (st, Some e) =
     (if verifiedRun e rows = length rows then Inr (extendStreak e (length rows) st, Some (e - int (length rows)))
      else Inl (extendStreak e (verifiedRun e rows) st))"
proof (induction rows arbitrary: st e)
  case (Cons a rows)
  show ?case
    using Cons.IH [of "st\<lparr>st_count := st_count st + 1, st_earliestEpoch := Some e\<rparr>" "e - 1"]
    by (auto simp: extendStreak_Suc [unfolded Suc_eq_plus1] extendStreak_Suc) (simp_all add: extendStreak_def)
qed (simp add: extendStreak_def)

lemma verifiedRun_append:
  "verifiedRun e (xs @ ys) =
     (if verifiedRun e xs = length xs then length xs + verifiedRun (e - int (length xs)) ys else verifiedRun e xs)"
proof (induction xs arbitrary: e)
  case (Cons a xs)
  show ?case using Cons.IH [of "e - 1"] by (simp add: algebra_simps)
qed simp

abbreviation "descending \<equiv> sorted_wrt (\<lambda>a b. fa_epoch b < fa_epoch a)"

lemma page_rest:
  assumes "descending rows" and "take n rows \<noteq> []"
  shows "filter (\<lambda>a. fa_epoch a < fa_epoch (last (take n rows))) rows = drop n rows"
proof -
  have split: "sorted_wrt (\<lambda>a b. fa_epoch b < fa_epoch a) (take n rows @ drop n rows)" using assms(1) by simp
  then have below: "fa_epoch b < fa_epoch a" if "a \<in> set (take n rows)" "b \<in> set (drop n rows)" for a b
    using that unfolding sorted_wrt_append by blast
  have butl: "fa_epoch (last (take n rows)) < fa_epoch a" if "a \<in> set (butlast (take n rows))" for a
  proof -
    have "sorted_wrt (\<lambda>a b. fa_epoch b < fa_epoch a) (butlast (take n rows) @ [last (take n rows)])"
      using split unfolding append_butlast_last_id [OF assms(2)] sorted_wrt_append by blast
    then show ?thesis using that unfolding sorted_wrt_append by simp
  qed
  have top: "\<not> fa_epoch a < fa_epoch (last (take n rows))" if "a \<in> set (take n rows)" for a
  proof -
    have "set (take n rows) = set (butlast (take n rows)) \<union> {last (take n rows)}"
      using arg_cong [OF append_butlast_last_id [OF assms(2)], of set] by simp
    then show ?thesis using that butl [of a] by auto
  qed
  have "filter (\<lambda>a. fa_epoch a < fa_epoch (last (take n rows))) (take n rows) = []"
    using top by (simp add: filter_empty_conv)
  moreover have "filter (\<lambda>a. fa_epoch a < fa_epoch (last (take n rows))) (drop n rows) = drop n rows"
    using below last_in_set [OF assms(2)] by (simp add: filter_id_conv)
  ultimately show ?thesis by (metis append_Nil append_take_drop_id filter_append)
qed

definition pageRest :: "fair_audit list \<Rightarrow> int option \<Rightarrow> fair_audit list" where
  "pageRest rows cursor = filter (\<lambda>a. case cursor of None \<Rightarrow> True | Some c \<Rightarrow> fa_epoch a < c) rows"

lemma pageRest_step:
  assumes "descending rows" and "auditPage rows cursor \<noteq> []"
  shows "pageRest rows (Some (fa_epoch (last (auditPage rows cursor)))) =
    drop FAIRNESS_STREAK_BATCH_SIZE (pageRest rows cursor)"
proof -
  let ?n = FAIRNESS_STREAK_BATCH_SIZE and ?R = "pageRest rows cursor"
  have page: "auditPage rows cursor = take ?n ?R" by (simp add: auditPage_def pageRest_def)
  have "last (take ?n ?R) \<in> set ?R" using assms(2) page by (metis in_set_takeD last_in_set)
  then have "pageRest rows (Some (fa_epoch (last (take ?n ?R)))) =
      filter (\<lambda>a. fa_epoch a < fa_epoch (last (take ?n ?R))) ?R"
    by (auto simp: pageRest_def intro!: filter_cong split: option.splits)
  also have "\<dots> = drop ?n ?R"
    by (rule page_rest) (use assms page in \<open>simp_all add: pageRest_def sorted_wrt_filter\<close>)
  finally show ?thesis by (simp add: page)
qed

lemma auditPages_run:
  assumes "descending rows"
  shows "auditPages rows cursor (st, Some e) = extendStreak e (verifiedRun e (pageRest rows cursor)) st"
  using assms
proof (induction rows cursor "(st, Some e)" arbitrary: st e rule: auditPages.induct)
  case (1 rows cursor)
  let ?R = "pageRest rows cursor" and ?page = "auditPage rows cursor"
  have page: "?page = take FAIRNESS_STREAK_BATCH_SIZE ?R" by (simp add: auditPage_def pageRest_def)
  show ?case
  proof (cases "?page = []")
    case True
    then have "?R = []" by (simp add: page FAIRNESS_STREAK_BATCH_SIZE_def)
    with True show ?thesis by (simp add: auditPages.simps [of rows cursor] extendStreak_def)
  next
    case False
    define R2 where "R2 = drop FAIRNESS_STREAK_BATCH_SIZE ?R"
    have R: "?R = ?page @ R2" by (simp add: page R2_def)
    show ?thesis
    proof (cases "verifiedRun e ?page = length ?page")
      case full: True
      let ?st = "extendStreak e (length ?page) st" and ?e = "e - int (length ?page)"
      from full False have "auditPages rows cursor (st, Some e) =
          auditPages rows (Some (fa_epoch (last ?page))) (?st, Some ?e)"
        by (simp add: auditPages.simps [of rows cursor] scanAuditPage_run Let_def)
      also have "\<dots> = extendStreak ?e (verifiedRun ?e R2) ?st"
        using 1(1) [OF refl False _ 1(2), of ?st ?e] full pageRest_step [OF 1(2) False]
        by (simp add: scanAuditPage_run R2_def)
      also have "\<dots> = extendStreak e (length ?page + verifiedRun ?e R2) st"
        by (auto simp: extendStreak_def)
      finally show ?thesis unfolding R verifiedRun_append using full by simp
    next
      case False2: False
      then show ?thesis
        using False by (simp add: auditPages.simps [of rows cursor] scanAuditPage_run R verifiedRun_append Let_def)
    qed
  qed
qed

lemma auditsDesc_descending:
  assumes "distinct (map (\<lambda>a. (fa_epoch a, fa_epochSeconds a)) (fs_audits fs))"
  shows "descending (auditsDesc s fs)"
proof -
  let ?own = "filter (\<lambda>a. fa_epochSeconds a = s) (fs_audits fs)"
  have "distinct (map (\<lambda>a. (fa_epoch a, fa_epochSeconds a)) ?own)"
    using assms by (metis distinct_map_filter)
  moreover have "map (\<lambda>a. (fa_epoch a, fa_epochSeconds a)) ?own = map (\<lambda>e. (e, s)) (map fa_epoch ?own)"
    by (simp add: comp_def)
  ultimately have "distinct (map fa_epoch ?own)" by (metis distinct_map)
  then have "distinct (map fa_epoch (sort_key fa_epoch ?own))"
    using mset_eq_imp_distinct_iff [of "map fa_epoch (sort_key fa_epoch ?own)" "map fa_epoch ?own"] by simp
  moreover have "sorted (map fa_epoch (sort_key fa_epoch ?own))" by simp
  ultimately have "sorted_wrt (<) (map fa_epoch (sort_key fa_epoch ?own))"
    by (simp add: strict_sorted_iff)
  then show ?thesis by (simp add: auditsDesc_def sorted_wrt_rev sorted_wrt_map)
qed

lemma verifiedRun_meaning:
  assumes "descending rows" and "\<forall>a \<in> set rows. fa_epoch a \<le> e"
  shows "(\<forall>k < verifiedRun e rows. \<exists>a \<in> set rows. fa_epoch a = e - int k \<and> fa_matches a) \<and>
    (\<forall>a \<in> set rows. fa_epoch a = e - int (verifiedRun e rows) \<longrightarrow> \<not> fa_matches a)"
  using assms
proof (induction rows arbitrary: e)
  case (Cons a rows)
  show ?case
  proof (cases "fa_matches a \<and> fa_epoch a = e")
    case True
    let ?n = "verifiedRun (e - 1) rows"
    have below: "\<forall>b \<in> set rows. fa_epoch b \<le> e - 1" using Cons.prems True by auto
    with Cons.IH [of "e - 1"] Cons.prems(1)
    have IH: "\<forall>k < ?n. \<exists>b \<in> set rows. fa_epoch b = e - 1 - int k \<and> fa_matches b"
      "\<forall>b \<in> set rows. fa_epoch b = e - 1 - int ?n \<longrightarrow> \<not> fa_matches b" by auto
    have "\<exists>b \<in> set (a # rows). fa_epoch b = e - int k \<and> fa_matches b" if "k < Suc ?n" for k
    proof (cases k)
      case 0
      with True show ?thesis by simp
    next
      case (Suc j)
      with IH(1) that obtain b where "b \<in> set rows" "fa_epoch b = e - 1 - int j" "fa_matches b" by auto
      then show ?thesis using Suc by (intro bexI [of _ b]) auto
    qed
    moreover have "e - int (Suc ?n) = e - 1 - int ?n" by simp
    moreover have "fa_epoch a \<noteq> e - int (Suc ?n)" using True by simp
    ultimately show ?thesis using True IH(2) by auto
  next
    case False
    have "\<forall>b \<in> set rows. fa_epoch b < e" using Cons.prems by auto
    with False show ?thesis by auto
  qed
qed simp

subsection \<open>Runs\<close>

datatype fair_command =
    Fc_ensure fair_env "rat option"
  | Fc_reveal fair_env int "rat option"
  | Fc_audit fair_env int "rat option"
  | Fc_pending fair_env "rat option"

fun commandEnv :: "fair_command \<Rightarrow> fair_env" where
  "commandEnv (Fc_ensure env es) = env"
| "commandEnv (Fc_reveal env e es) = env"
| "commandEnv (Fc_audit env e es) = env"
| "commandEnv (Fc_pending env es) = env"

text \<open>A request that fails is rolled back.\<close>

definition resultStore :: "fair_store \<Rightarrow> ('a \<times> fair_store) res \<Rightarrow> fair_store" where
  "resultStore fs r = (case r of Inl e \<Rightarrow> fs | Inr (x, fs') \<Rightarrow> fs')"

fun doFair :: "fair_command \<Rightarrow> fair_store \<Rightarrow> fair_store" where
  "doFair (Fc_ensure env es) fs = resultStore fs (ensureFairnessSeed env es fs)"
| "doFair (Fc_reveal env e es) fs = resultStore fs (revealFairnessSeed env e es fs)"
| "doFair (Fc_audit env e es) fs = resultStore fs (auditFairnessEpoch env e es fs)"
| "doFair (Fc_pending env es) fs = resultStore fs (auditPendingFairnessEpochs env es fs)"

definition runFair :: "fair_command list \<Rightarrow> fair_store \<Rightarrow> fair_store" where
  "runFair cs fs = fold doFair cs fs"

definition emptyFair :: fair_store where
  "emptyFair = \<lparr>fs_seeds = [], fs_audits = []\<rparr>"

text \<open>The clock is a whole number of milliseconds, and the hash function is the same throughout.\<close>

definition fairEnv :: "hash_function \<Rightarrow> fair_env \<Rightarrow> bool" where
  "fairEnv sha env = (fv_sha256 env = sha \<and> 0 \<le> fv_now env \<and> fv_now env < 2 ^ 53)"

definition seedKey :: "seed_row \<Rightarrow> int \<times> int" where
  "seedKey r = (sr_epoch r, sr_epochSeconds r)"

definition auditKey :: "fair_audit \<Rightarrow> int \<times> int" where
  "auditKey a = (fa_epoch a, fa_epochSeconds a)"

definition seedOk :: "hash_function \<Rightarrow> seed_row \<Rightarrow> bool" where
  "seedOk sha r =
     ((\<exists>s. sr_seed r = Some s \<and> s \<noteq> [] \<and> sr_commitHash r = hashSeed sha s) \<and> 0 < sr_epochSeconds r \<and>
      (\<forall>t. sr_revealedAt r = Some t \<longrightarrow> sr_epoch r < t div (sr_epochSeconds r * 1000)))"

definition fairOk :: "hash_function \<Rightarrow> fair_store \<Rightarrow> bool" where
  "fairOk sha fs =
     (distinct (map seedKey (fs_seeds fs)) \<and> (\<forall>r \<in> set (fs_seeds fs). seedOk sha r) \<and>
      distinct (map auditKey (fs_audits fs)))"

text \<open>Stored seeds and commitments stay.\<close>

definition keepsSeeds :: "fair_store \<Rightarrow> fair_store \<Rightarrow> bool" where
  "keepsSeeds fs fs' =
     (\<forall>r \<in> set (fs_seeds fs). \<exists>r' \<in> set (fs_seeds fs').
        seedKey r' = seedKey r \<and> sr_seed r' = sr_seed r \<and> sr_commitHash r' = sr_commitHash r)"

lemma keepsSeeds_refl [simp]: "keepsSeeds fs fs"
  by (auto simp: keepsSeeds_def)

lemma keepsSeeds_trans: "keepsSeeds a b \<Longrightarrow> keepsSeeds b c \<Longrightarrow> keepsSeeds a c"
  unfolding keepsSeeds_def by (metis (no_types, lifting))

lemma keepsSeeds_map:
  assumes "fs_seeds fs' = map g (fs_seeds fs)"
    and "\<And>r. seedKey (g r) = seedKey r \<and> sr_seed (g r) = sr_seed r \<and> sr_commitHash (g r) = sr_commitHash r"
  shows "keepsSeeds fs fs'"
  unfolding keepsSeeds_def
proof
  fix r assume "r \<in> set (fs_seeds fs)"
  then have "g r \<in> set (fs_seeds fs')" by (simp add: assms(1))
  with assms(2) show "\<exists>r' \<in> set (fs_seeds fs'). seedKey r' = seedKey r \<and> sr_seed r' = sr_seed r \<and>
      sr_commitHash r' = sr_commitHash r" by blast
qed

lemma fairOk_empty [simp]: "fairOk sha emptyFair"
  by (simp add: fairOk_def emptyFair_def)

subsection \<open>Epochs\<close>

lemma dbInteger_Inr: "dbInteger x = Inr n \<longleftrightarrow> x = of_int n \<and> \<bar>n\<bar> < 2147483648"
proof
  assume "dbInteger x = Inr n"
  then have n: "n = \<lfloor>x\<rfloor>" "x = of_int \<lfloor>x\<rfloor>" "\<bar>x\<bar> < 2147483648" by (auto simp: dbInteger_def split: if_splits)
  then have "x = of_int n" by simp
  moreover from this n(3) have "\<bar>of_int n :: rat\<bar> < of_int 2147483648" by simp
  then have "\<bar>n\<bar> < 2147483648" by (simp only: of_int_abs [symmetric] of_int_less_iff)
  ultimately show "x = of_int n \<and> \<bar>n\<bar> < 2147483648" by simp
next
  assume x: "x = of_int n \<and> \<bar>n\<bar> < 2147483648"
  then have "of_int \<bar>n\<bar> < (of_int 2147483648 :: rat)" by (simp only: of_int_less_iff)
  then have "\<bar>of_int n :: rat\<bar> < 2147483648" by simp
  with x show "dbInteger x = Inr n" by (simp add: dbInteger_def)
qed

lemma loadFairnessSeed_Inr:
  "loadFairnessSeed e secs fs = Inr x \<longleftrightarrow>
     (\<exists>s. secs = of_int s \<and> \<bar>s\<bar> < 2147483648 \<and> \<bar>e\<bar> < 2147483648 \<and> x = find (\<lambda>r. seedKey r = (e, s)) (fs_seeds fs))"
  by (auto simp: loadFairnessSeed_def bind_res_Inr_iff dbInteger_Inr seedKey_def)

lemma resolveEpochSeconds_pos: "0 < resolveEpochSeconds es"
  by (auto simp: resolveEpochSeconds_def Let_def DEFAULT_EPOCH_SECONDS_def)

lemma resolveEpochSeconds_again [simp]: "resolveEpochSeconds (Some (resolveEpochSeconds es)) = resolveEpochSeconds es"
  using resolveEpochSeconds_pos [of es] by (simp add: resolveEpochSeconds_def Let_def)

lemma currentEpoch_div:
  assumes "0 < s" "s < 2147483648" "0 \<le> now" "now < 2 ^ 53"
  shows "currentEpoch (of_int s) now = now div (s * 1000)"
proof -
  have "dbl (of_int (s * 1000)) = of_int (s * 1000)" using assms by (intro dbl_int) simp
  then have "dbl (of_int s * 1000) = of_int (s * 1000)" by simp
  then show ?thesis
    using floor_dbl_divide [of now "s * 1000"] assms by (simp add: currentEpoch_def del: of_int_mult)
qed

text \<open>The epoch length a request uses, once a query with it went through.\<close>

lemma secs_int:
  assumes "resolveEpochSeconds es = of_int s"
  shows "0 < s"
  using resolveEpochSeconds_pos [of es] assms by simp

subsection \<open>Every operation\<close>

lemma usableSeed_ok:
  assumes "fairOk sha fs" and "find (\<lambda>r. seedKey r = k) (fs_seeds fs) = Some r" and "usableSeed (Some r) = Some (s, h)"
  shows "r \<in> set (fs_seeds fs)" "seedKey r = k" "sr_seed r = Some s" "h = sr_commitHash r" "h = hashSeed sha s"
  using find_SomeD [OF assms(2)] assms(1,3)
  by (auto simp: fairOk_def seedOk_def usableSeed_def split: option.splits if_splits)

lemma ensureFairnessSeed_ok:
  assumes ok: "fairOk sha fs" and env: "fairEnv sha env" and run: "ensureFairnessSeed env es fs = Inr (sd, fs')"
  shows "fairOk sha fs' \<and> keepsSeeds fs fs' \<and> fs_audits fs' = fs_audits fs \<and>
    fe_commitHash sd = hashSeed sha (fe_seed sd) \<and> fe_epochSeconds sd = resolveEpochSeconds es \<and>
    (\<exists>s. resolveEpochSeconds es = of_int s \<and> fe_epoch sd = fv_now env div (s * 1000) \<and>
       (\<exists>r \<in> set (fs_seeds fs'). seedKey r = (fe_epoch sd, s) \<and> sr_seed r = Some (fe_seed sd)))"
proof -
  let ?secs = "resolveEpochSeconds es"
  let ?e = "currentEpoch ?secs (fv_now env)"
  from run obtain x where "loadFairnessSeed ?e ?secs fs = Inr x"
    by (auto simp: ensureFairnessSeed_def Let_def bind_res_Inr_iff)
  then obtain s where s: "?secs = of_int s" "\<bar>s\<bar> < 2147483648"
    and x: "x = find (\<lambda>r. seedKey r = (?e, s)) (fs_seeds fs)"
    and load: "loadFairnessSeed ?e ?secs fs = Inr x"
    by (auto simp: loadFairnessSeed_Inr)
  have s0: "0 < s" by (rule secs_int [OF s(1)])
  have e: "?e = fv_now env div (s * 1000)"
    using currentEpoch_div [of s "fv_now env"] env s s0 by (simp add: fairEnv_def)
  show ?thesis
  proof (cases "usableSeed x")
    case (Some p)
    then obtain sdd h r where x': "x = Some r" "usableSeed (Some r) = Some (sdd, h)"
      by (cases x; cases p) (auto simp: usableSeed_def)
    from usableSeed_ok [OF ok _ x'(2)] x x'(1) have
      "r \<in> set (fs_seeds fs)" "seedKey r = (?e, s)" "sr_seed r = Some sdd" "h = hashSeed sha sdd" by metis+
    moreover from run load x' have "fs' = fs"
      "sd = \<lparr>fe_epoch = ?e, fe_epochSeconds = ?secs, fe_commitHash = h, fe_seed = sdd\<rparr>"
      by (simp_all add: ensureFairnessSeed_def Let_def)
    ultimately show ?thesis using ok s(1) e by auto
  next
    case None
    define row where "row = \<lparr>sr_epoch = ?e, sr_epochSeconds = \<lfloor>?secs\<rfloor>,
       sr_commitHash = hashSeed (fv_sha256 env) (fv_randomHex env), sr_seed = Some (fv_randomHex env), sr_revealedAt = None\<rparr>"
    define fs1 where "fs1 = insertFairnessSeed row fs"
    from run load None obtain r sdd where
      r: "find (\<lambda>r. seedKey r = (?e, s)) (fs_seeds fs1) = Some r" "sr_seed r = Some sdd" "sdd \<noteq> []" and fs': "fs' = fs1" and
      sd: "sd = \<lparr>fe_epoch = ?e, fe_epochSeconds = ?secs, fe_commitHash = sr_commitHash r, fe_seed = sdd\<rparr>"
      by (auto simp: ensureFairnessSeed_def Let_def bind_res_Inr_iff loadFairnessSeed_Inr s(1)
          fs1_def row_def split: option.splits if_splits)
    from find_SomeD [OF r(1)] have rin: "r \<in> set (fs_seeds fs1)" "seedKey r = (?e, s)" by simp_all
    have seeds: "fs_seeds fs1 = fs_seeds fs \<or>
        fs_seeds fs1 = fs_seeds fs @ [row] \<and> seedKey row \<notin> seedKey ` set (fs_seeds fs)"
      by (auto simp: fs1_def insertFairnessSeed_def seedKey_def)
    have rowkey: "seedKey row = (?e, s)" by (simp add: row_def seedKey_def s(1))
    have "fairOk sha fs1"
    proof (cases "fs_seeds fs1 = fs_seeds fs")
      case True
      then show ?thesis using ok by (simp add: fairOk_def fs1_def insertFairnessSeed_def split: if_splits)
    next
      case False
      with seeds have new: "fs_seeds fs1 = fs_seeds fs @ [row]" "seedKey row \<notin> seedKey ` set (fs_seeds fs)" by auto
      have "r = row"
      proof (rule ccontr)
        assume "r \<noteq> row"
        with rin(1) new(1) have "r \<in> set (fs_seeds fs)" by simp
        then have "seedKey r \<in> seedKey ` set (fs_seeds fs)" by (rule imageI)
        with new(2) rin(2) rowkey show False by simp
      qed
      with r have "fv_randomHex env \<noteq> []" by (simp add: row_def)
      then have "seedOk sha row" using env s0 s(1) by (simp add: seedOk_def row_def fairEnv_def)
      moreover have "fs_audits fs1 = fs_audits fs" by (simp add: fs1_def insertFairnessSeed_def)
      ultimately show ?thesis using ok new by (auto simp: fairOk_def)
    qed
    moreover from this rin r have "sr_commitHash r = hashSeed sha sdd" by (auto simp: fairOk_def seedOk_def)
    moreover have "keepsSeeds fs fs1" using seeds by (auto simp: keepsSeeds_def)
    moreover have "fs_audits fs1 = fs_audits fs" by (simp add: fs1_def insertFairnessSeed_def)
    ultimately show ?thesis using fs' sd rin r s(1) e by auto
  qed
qed

lemma revealFairnessSeed_ok:
  assumes ok: "fairOk sha fs" and env: "fairEnv sha env" and run: "revealFairnessSeed env e es fs = Inr (rv, fs')"
  shows "fairOk sha fs' \<and> keepsSeeds fs fs' \<and> fs_audits fs' = fs_audits fs \<and>
    (\<forall>v. rv = Some v \<longrightarrow> fr_commitHash v = hashSeed sha (fr_seed v) \<and> fr_epoch v = e \<and> 0 \<le> e \<and>
       (\<exists>s. resolveEpochSeconds es = of_int s \<and> 0 < s \<and> e < fv_now env div (s * 1000) \<and>
          e < fr_revealedAt v div (s * 1000) \<and>
          (\<exists>r \<in> set (fs_seeds fs). seedKey r = (e, s) \<and> sr_seed r = Some (fr_seed v))))"
proof -
  let ?secs = "resolveEpochSeconds es"
  show ?thesis
  proof (cases "e < 0 \<or> currentEpoch ?secs (fv_now env) \<le> e")
    case True
    with run ok show ?thesis by (auto simp: revealFairnessSeed_def Let_def split: if_splits)
  next
    case False
    with run obtain x where "loadFairnessSeed e ?secs fs = Inr x"
      by (auto simp: revealFairnessSeed_def Let_def bind_res_Inr_iff)
    then obtain s where s: "?secs = of_int s" "\<bar>s\<bar> < 2147483648" and x: "x = find (\<lambda>r. seedKey r = (e, s)) (fs_seeds fs)"
      and load: "loadFairnessSeed e ?secs fs = Inr x"
      by (auto simp: loadFairnessSeed_Inr)
    have s0: "0 < s" by (rule secs_int [OF s(1)])
    have over: "e < fv_now env div (s * 1000)"
      using currentEpoch_div [of s "fv_now env"] env s s0 False by (simp add: fairEnv_def)
    show ?thesis
    proof (cases "usableSeed x")
      case None
      with run load False ok show ?thesis by (simp add: revealFairnessSeed_def Let_def)
    next
      case (Some p)
      then obtain sdd h r where x': "x = Some r" "usableSeed (Some r) = Some (sdd, h)"
        by (cases x; cases p) (auto simp: usableSeed_def)
      from usableSeed_ok [OF ok _ x'(2)] x x'(1) have r:
        "r \<in> set (fs_seeds fs)" "seedKey r = (e, s)" "sr_seed r = Some sdd" "h = hashSeed sha sdd" by metis+
      define t where "t = (case sr_revealedAt r of Some t \<Rightarrow> t | None \<Rightarrow> fv_now env)"
      have rv: "rv = Some \<lparr>fr_epoch = e, fr_epochSeconds = ?secs, fr_commitHash = h, fr_seed = sdd, fr_revealedAt = t\<rparr>"
        and fs': "fs' = (if sr_revealedAt r = None
          then fs\<lparr>fs_seeds := map (\<lambda>q. if q = r then q\<lparr>sr_revealedAt := Some t\<rparr> else q) (fs_seeds fs)\<rparr> else fs)"
        using run load x' False by (auto simp: revealFairnessSeed_def Let_def t_def)
      have rok: "seedOk sha r" using ok r by (simp add: fairOk_def)
      have t: "e < t div (s * 1000)"
        using rok r(2) over by (auto simp: t_def seedOk_def seedKey_def split: option.splits)
      have same: "seedKey (if q = r then q\<lparr>sr_revealedAt := Some t\<rparr> else q) = seedKey q" for q
        by (simp add: seedKey_def)
      have "seedOk sha (r\<lparr>sr_revealedAt := Some t\<rparr>)" using rok r(2) t by (auto simp: seedOk_def seedKey_def)
      then have "fairOk sha fs'" using ok by (auto simp: fs' fairOk_def comp_def same)
      moreover have "keepsSeeds fs fs'"
        by (rule keepsSeeds_map [where g = "\<lambda>q. if sr_revealedAt r = None \<and> q = r then q\<lparr>sr_revealedAt := Some t\<rparr> else q"])
          (auto simp: fs' seedKey_def)
      moreover have "fs_audits fs' = fs_audits fs" by (simp add: fs')
      ultimately show ?thesis using rv r s s0 over t False by auto
    qed
  qed
qed

lemma upsert_ok:
  assumes "fairOk sha fs"
  shows "fairOk sha (upsertFairnessAudit a fs)" "fs_seeds (upsertFairnessAudit a fs) = fs_seeds fs"
    "keepsSeeds fs (upsertFairnessAudit a fs)" "a \<in> set (fs_audits (upsertFairnessAudit a fs))"
proof -
  have same: "auditKey (if fa_epoch b = fa_epoch a \<and> fa_epochSeconds b = fa_epochSeconds a then a else b) = auditKey b" for b
    by (simp add: auditKey_def)
  show "fairOk sha (upsertFairnessAudit a fs)"
  proof (cases "\<exists>b \<in> set (fs_audits fs). fa_epoch b = fa_epoch a \<and> fa_epochSeconds b = fa_epochSeconds a")
    case True
    with assms show ?thesis by (simp add: fairOk_def upsertFairnessAudit_def comp_def same)
  next
    case False
    then have "auditKey a \<notin> auditKey ` set (fs_audits fs)" by (auto simp: auditKey_def)
    with assms show ?thesis by (simp add: fairOk_def upsertFairnessAudit_def if_not_P [OF False])
  qed
  show seeds: "fs_seeds (upsertFairnessAudit a fs) = fs_seeds fs"
    by (simp add: upsertFairnessAudit_def)
  then show "keepsSeeds fs (upsertFairnessAudit a fs)" by (auto simp: keepsSeeds_def)
  show "a \<in> set (fs_audits (upsertFairnessAudit a fs))" by (auto simp: upsertFairnessAudit_def)
qed

lemma saveFairnessAudit_ok:
  assumes "fairOk sha fs" and "saveFairnessAudit e secs mk fs = Inr (a, fs')"
  shows "fairOk sha fs' \<and> keepsSeeds fs fs' \<and> a \<in> set (fs_audits fs') \<and> (\<exists>s. secs = of_int s \<and> a = mk e s)"
  using assms upsert_ok [OF assms(1)] by (auto simp: saveFairnessAudit_def bind_res_Inr_iff dbInteger_Inr)

text \<open>
  The verdict of an audit: it passes exactly when the epoch is over and has a stored seed.
\<close>

lemma auditFairnessEpoch_ok:
  assumes ok: "fairOk sha fs" and env: "fairEnv sha env" and run: "auditFairnessEpoch env e es fs = Inr (a, fs')"
  shows "fairOk sha fs' \<and> keepsSeeds fs fs' \<and> a \<in> set (fs_audits fs') \<and> fa_epoch a = e \<and>
    (\<exists>s. resolveEpochSeconds es = of_int s \<and> 0 < s \<and> fa_epochSeconds a = s \<and>
       fa_failureCode a = (if e < 0 then Some ''invalid_epoch''
         else if fv_now env div (s * 1000) \<le> e then Some ''epoch_not_closed''
         else if (e, s) \<notin> seedKey ` set (fs_seeds fs) \<or>
                 (\<exists>r \<in> set (fs_seeds fs). seedKey r = (e, s) \<and> sr_commitHash r = []) then Some ''seed_missing''
         else None)) \<and>
    (fa_matches a \<longleftrightarrow> fa_failureCode a = None)"
proof -
  let ?secs = "resolveEpochSeconds es"
  let ?now = "fv_now env"
  obtain s where s: "?secs = of_int s" "\<bar>s\<bar> < 2147483648"
    using run by (fastforce simp: auditFairnessEpoch_def saveFairnessAudit_def Let_def bind_res_Inr_iff
        loadFairnessSeed_Inr dbInteger_Inr split: if_splits)
  have s0: "0 < s" by (rule secs_int [OF s(1)])
  have cur: "currentEpoch ?secs ?now = ?now div (s * 1000)"
    using currentEpoch_div [of s ?now] env s s0 by (simp add: fairEnv_def)
  consider (neg) "e < 0" | (early) "0 \<le> e" "?now div (s * 1000) \<le> e" | (closed) "0 \<le> e" "e < ?now div (s * 1000)"
    by linarith
  then show ?thesis
  proof cases
    case neg
    with run have "saveFairnessAudit e ?secs (failedAudit None ''invalid_epoch'' None ?now) fs = Inr (a, fs')"
      by (simp add: auditFairnessEpoch_def Let_def)
    from saveFairnessAudit_ok [OF ok this] neg s s0 show ?thesis by (auto simp: failedAudit_def)
  next
    case early
    with run cur have "saveFairnessAudit e ?secs (failedAudit None ''epoch_not_closed'' None ?now) fs = Inr (a, fs')"
      by (simp add: auditFairnessEpoch_def Let_def)
    from saveFairnessAudit_ok [OF ok this] early s s0 show ?thesis by (auto simp: failedAudit_def)
  next
    case closed
    with run cur obtain x where load: "loadFairnessSeed e ?secs fs = Inr x"
      by (auto simp: auditFairnessEpoch_def Let_def bind_res_Inr_iff)
    then have x: "x = find (\<lambda>r. seedKey r = (e, s)) (fs_seeds fs)" by (auto simp: loadFairnessSeed_Inr s(1))
    have uniq: "r = r'" if "r \<in> set (fs_seeds fs)" "r' \<in> set (fs_seeds fs)" "seedKey r = seedKey r'" for r r'
      using ok that by (auto simp: fairOk_def distinct_map dest: inj_onD)
    show ?thesis
    proof (cases "usableSeed x")
      case None
      with run load closed cur have "saveFairnessAudit e ?secs (failedAudit (map_option sr_commitHash x)
          ''seed_missing'' (case x of None \<Rightarrow> None | Some row \<Rightarrow> sr_revealedAt row) ?now) fs = Inr (a, fs')"
        by (simp add: auditFairnessEpoch_def Let_def)
      note saved = saveFairnessAudit_ok [OF ok this]
      have "(e, s) \<notin> seedKey ` set (fs_seeds fs) \<or> (\<exists>r \<in> set (fs_seeds fs). seedKey r = (e, s) \<and> sr_commitHash r = [])"
      proof (cases x)
        case None
        then show ?thesis using x by (auto simp: find_None_iff dest!: sym [of None])
      next
        case (Some r)
        then have r: "r \<in> set (fs_seeds fs)" "seedKey r = (e, s)"
          using x find_SomeD [of "\<lambda>r. seedKey r = (e, s)" "fs_seeds fs" r] by auto
        then have "seedOk sha r" using ok by (simp add: fairOk_def)
        with \<open>usableSeed x = None\<close> Some have "sr_commitHash r = []"
          by (auto simp: usableSeed_def seedOk_def split: if_splits)
        with r show ?thesis by auto
      qed
      with saved closed s s0 show ?thesis by (auto simp: failedAudit_def)
    next
      case (Some p)
      then obtain sdd h r where x': "x = Some r" "usableSeed (Some r) = Some (sdd, h)"
        by (cases x; cases p) (auto simp: usableSeed_def)
      from usableSeed_ok [OF ok _ x'(2)] x x'(1) have r: "r \<in> set (fs_seeds fs)" "seedKey r = (e, s)"
        "sr_seed r = Some sdd" "h = sr_commitHash r" "h = hashSeed sha sdd" by metis+
      have h: "h \<noteq> []" using x'(2) by (auto simp: usableSeed_def split: option.splits if_splits)
      have present: "\<not> ((e, s) \<notin> seedKey ` set (fs_seeds fs) \<or>
          (\<exists>r \<in> set (fs_seeds fs). seedKey r = (e, s) \<and> sr_commitHash r = []))"
        using r h uniq by (metis image_eqI)
      from run load closed cur x' obtain rv fs1 where reveal: "revealFairnessSeed env e (Some ?secs) fs = Inr (rv, fs1)"
        by (auto simp: auditFairnessEpoch_def Let_def bind_res_Inr_iff)
      note step = revealFairnessSeed_ok [OF ok env reveal]
      from reveal load closed cur x' obtain v where v: "rv = Some v" "fr_seed v = sdd" "fr_commitHash v = h"
        by (auto simp: revealFairnessSeed_def Let_def)
      from run load closed cur x' reveal v have "saveFairnessAudit e ?secs
          (\<lambda>e s. \<lparr>fa_epoch = e, fa_epochSeconds = s, fa_commitHash = Some h,
             fa_computedHash = Some (hashSeed (fv_sha256 env) sdd), fa_matches = hashSeed (fv_sha256 env) sdd = h,
             fa_failureCode = (if hashSeed (fv_sha256 env) sdd = h then None else Some ''commit_mismatch''),
             fa_revealedAt = Some (fr_revealedAt v), fa_auditedAt = ?now\<rparr>) fs1 = Inr (a, fs')"
        by (auto simp: auditFairnessEpoch_def verifyFairnessSeed_def Let_def)
      from saveFairnessAudit_ok [OF conjunct1 [OF step] this] env r(5) have
        "fairOk sha fs'" "keepsSeeds fs1 fs'" "a \<in> set (fs_audits fs')" "fa_epoch a = e" "fa_epochSeconds a = s"
        "fa_matches a" "fa_failureCode a = None"
        by (auto simp: fairEnv_def s(1))
      with step keepsSeeds_trans [of fs fs1 fs'] closed s s0 present show ?thesis by auto
    qed
  qed
qed

lemma auditEpochs_ok:
  assumes "fairOk sha fs" and "fairEnv sha env" and "auditEpochs env secs es tally fs = Inr (tally', fs')"
  shows "fairOk sha fs' \<and> keepsSeeds fs fs'"
  using assms
proof (induction env secs es tally fs arbitrary: tally' fs' rule: auditEpochs.induct)
  case (2 env secs e es verified failed fs)
  from 2(4) obtain a fs1 where one: "auditFairnessEpoch env e (Some secs) fs = Inr (a, fs1)"
    and more: "auditEpochs env secs es (if fa_matches a then (verified + 1, failed) else (verified, failed + 1)) fs1
      = Inr (tally', fs')"
    by (auto simp: bind_res_Inr_iff)
  from auditFairnessEpoch_ok [OF 2(2,3) one] have "fairOk sha fs1" "keepsSeeds fs fs1" by auto
  with 2(1) [OF this(1) 2(3) more] keepsSeeds_trans show ?case by blast
qed simp

lemma auditPending_ok:
  assumes ok: "fairOk sha fs" and env: "fairEnv sha env" and run: "auditPendingFairnessEpochs env es fs = Inr (p, fs')"
  shows "fairOk sha fs' \<and> keepsSeeds fs fs'"
proof -
  let ?secs = "resolveEpochSeconds es"
  from run obtain sd fs1 where one: "ensureFairnessSeed env (Some ?secs) fs = Inr (sd, fs1)"
    by (auto simp: auditPendingFairnessEpochs_def Let_def bind_res_Inr_iff)
  with run have or: "fs' = fs1 \<or> (\<exists>es' t. auditEpochs env ?secs es' (0, 0) fs1 = Inr (t, fs'))"
    by (auto simp: auditPendingFairnessEpochs_def Let_def bind_res_Inr_iff split: if_splits)
  from ensureFairnessSeed_ok [OF ok env one] have "fairOk sha fs1" "keepsSeeds fs fs1" by auto
  with or auditEpochs_ok [OF this(1) env] keepsSeeds_trans show ?thesis by blast
qed

lemma resultStore_ok:
  assumes "fairOk sha fs" and "\<And>x fs'. r = Inr (x, fs') \<Longrightarrow> fairOk sha fs' \<and> keepsSeeds fs fs'"
  shows "fairOk sha (resultStore fs r) \<and> keepsSeeds fs (resultStore fs r)"
proof (cases r)
  case (Inr p)
  with assms(2) [of "fst p" "snd p"] show ?thesis by (simp add: resultStore_def split_def)
qed (simp add: resultStore_def assms(1))

lemma doFair_ok:
  assumes ok: "fairOk sha fs" and env: "fairEnv sha (commandEnv c)"
  shows "fairOk sha (doFair c fs) \<and> keepsSeeds fs (doFair c fs)"
proof (cases c)
  case (Fc_ensure env' es)
  then show ?thesis using ensureFairnessSeed_ok [OF ok] env by (simp add: resultStore_ok [OF ok])
next
  case (Fc_reveal env' e es)
  then show ?thesis using revealFairnessSeed_ok [OF ok] env by (simp add: resultStore_ok [OF ok])
next
  case (Fc_audit env' e es)
  then show ?thesis using auditFairnessEpoch_ok [OF ok] env by (simp add: resultStore_ok [OF ok])
next
  case (Fc_pending env' es)
  then show ?thesis using auditPending_ok [OF ok] env by (simp add: resultStore_ok [OF ok])
qed

lemma runFair_ok:
  "fairOk sha fs \<Longrightarrow> \<forall>c \<in> set cs. fairEnv sha (commandEnv c) \<Longrightarrow>
     fairOk sha (runFair cs fs) \<and> keepsSeeds fs (runFair cs fs)"
proof (induction cs arbitrary: fs)
  case (Cons c cs)
  then have one: "fairOk sha (doFair c fs) \<and> keepsSeeds fs (doFair c fs)" by (intro doFair_ok) auto
  with Cons.IH [of "doFair c fs"] Cons.prems have
    "fairOk sha (runFair cs (doFair c fs)) \<and> keepsSeeds (doFair c fs) (runFair cs (doFair c fs))" by simp
  with one keepsSeeds_trans show ?case unfolding runFair_def by (simp, blast)
qed (simp add: runFair_def)

text \<open>A seed an epoch was given, found again in any later state.\<close>

lemma seed_stays:
  assumes "fairOk sha fs2" and "keepsSeeds fs1 fs2" and "r1 \<in> set (fs_seeds fs1)" and "r2 \<in> set (fs_seeds fs2)"
    and "seedKey r1 = seedKey r2"
  shows "sr_seed r1 = sr_seed r2"
proof -
  from assms(2,3) obtain r where r: "r \<in> set (fs_seeds fs2)" "seedKey r = seedKey r1" "sr_seed r = sr_seed r1"
    unfolding keepsSeeds_def by blast
  have "r = r2" using assms(1,4,5) r by (auto simp: fairOk_def distinct_map dest: inj_onD)
  with r show ?thesis by simp
qed

lemma auditsDesc_hd_max:
  assumes "descending rows" and "rows = a # as"
  shows "\<forall>b \<in> set rows. fa_epoch b \<le> fa_epoch a"
  using assms by auto

lemma countConsecutive_run:
  assumes "fairOk sha fs" and "auditsDesc s fs = latest # as" and "fa_matches latest"
  defines "n \<equiv> verifiedRun (fa_epoch latest) (auditsDesc s fs)"
  shows "countConsecutiveVerifiedEpochs s fs =
    \<lparr>st_count = n, st_latestEpoch = Some (fa_epoch latest), st_earliestEpoch = Some (fa_epoch latest - int n + 1)\<rparr>"
    and "0 < n"
proof -
  let ?e = "fa_epoch latest"
  let ?st = "emptyStreak\<lparr>st_latestEpoch := Some ?e\<rparr>"
  have desc: "descending (auditsDesc s fs)"
    using assms(1) auditsDesc_descending by (simp add: fairOk_def auditKey_def [abs_def])
  show n: "0 < n" by (simp add: n_def assms(2,3))
  have scan: "scanAuditPage (latest # p) (emptyStreak, None) = scanAuditPage (latest # p) (?st, Some ?e)" for p
    using assms(3) by simp
  have page: "auditPage (auditsDesc s fs) None \<noteq> []" "\<exists>p. auditPage (auditsDesc s fs) None = latest # p"
    using assms(2) by (simp_all add: auditPage_def FAIRNESS_STREAK_BATCH_SIZE_def)
  then obtain p where p: "auditPage (auditsDesc s fs) None = latest # p" by blast
  have "auditPages (auditsDesc s fs) None (emptyStreak, None) = auditPages (auditsDesc s fs) None (?st, Some ?e)"
    using scan [of p] by (simp add: auditPages.simps [of "auditsDesc s fs" None] p)
  also have "\<dots> = extendStreak ?e n ?st"
    unfolding n_def auditPages_run [OF desc] by (simp add: pageRest_def)
  finally show "countConsecutiveVerifiedEpochs s fs =
    \<lparr>st_count = n, st_latestEpoch = Some ?e, st_earliestEpoch = Some (?e - int n + 1)\<rparr>"
    using n by (simp add: countConsecutiveVerifiedEpochs_def extendStreak_def emptyStreak_def)
qed

end
