(* ===== verification/Draw_Steps.thy ===== *)
theory Draw_Steps
  imports Draw_Execute Fairness_Runs
begin

text \<open>
  What a draw that went through has done: the facts every property of the draws rests on, by
  the outcome of the draw.
\<close>

subsection \<open>The outcome\<close>

definition walletRow :: "nat \<Rightarrow> draw_world \<Rightarrow> wallet" where
  "walletRow uid w = (case dw_wallets w uid of None \<Rightarrow> zeroWallet | Some wl \<Rightarrow> wl)"

text \<open>What has to hold for the locked row of a selected prize to be paid.\<close>

definition payable ::
  "draw_env \<Rightarrow> draw_config \<Rightarrow> nat \<Rightarrow> prepared_selection \<Rightarrow> cents \<Rightarrow> cents \<Rightarrow> prize \<Rightarrow> draw_world \<Rightarrow> bool" where
  "payable env cfg uid sel drawCost userPool p w =
     (pz_isActive p \<and> 0 < pz_stock p \<and> of_int (pz_poolThreshold p) \<le> pr_effectivePoolBalance sel \<and>
      pz_userPoolThreshold p \<le> userPool \<and> bv_available (evaluateBudget p (dv_now env)) \<and>
      (0 < py_minReserve (dc_poolSystem cfg) \<longrightarrow>
         py_minReserve (dc_poolSystem cfg) \<le> max (pr_poolBalance sel + drawCost - pz_rewardAmount p) 0) \<and>
      (0 < dc_houseBankroll cfg \<longrightarrow> pz_rewardAmount p \<le> dc_houseBankroll cfg) \<and>
      (0 < py_maxPayoutRatio (dc_poolSystem cfg) \<longrightarrow>
         of_int (pz_rewardAmount p) \<le> decMul (of_int (pr_poolBalance sel)) (py_maxPayoutRatio (dc_poolSystem cfg))) \<and>
      resolvePayoutLimitReason env uid (pz_rewardAmount p) (pr_maxReward sel) (dc_payoutControl cfg) w = None)"

lemma lockedPrizePolicy_Winning:
  assumes "lockedPrizePolicy env cfg uid sel c up q w = Winning_plan p amt bv" and "pz_isActive q" and "0 < pz_stock q"
  shows "p = q \<and> amt = pz_rewardAmount q \<and> bv = evaluateBudget q (dv_now env) \<and> payable env cfg uid sel c up q w"
proof -
  note plan = assms(1) [unfolded lockedPrizePolicy_def Let_def]
  from plan have 1: "\<not> (pr_effectivePoolBalance sel < of_int (pz_poolThreshold q) \<or> up < pz_userPoolThreshold q)"
    by (rule_tac notI) simp
  note plan = plan [unfolded if_not_P [OF 1]]
  from plan have 2: "\<not> \<not> bv_available (evaluateBudget q (dv_now env))" by (rule_tac notI) simp
  note plan = plan [unfolded if_not_P [OF 2]]
  from plan have 3: "\<not> (py_minReserve (dc_poolSystem cfg) > 0 \<and>
      max (pr_poolBalance sel + c - pz_rewardAmount q) 0 < py_minReserve (dc_poolSystem cfg))"
    by (rule_tac notI) simp
  note plan = plan [unfolded if_not_P [OF 3]]
  from plan have 4: "\<not> (dc_houseBankroll cfg > 0 \<and> pz_rewardAmount q > dc_houseBankroll cfg)" by (rule_tac notI) simp
  note plan = plan [unfolded if_not_P [OF 4]]
  from plan have 5: "\<not> (py_maxPayoutRatio (dc_poolSystem cfg) > 0 \<and>
      of_int (pz_rewardAmount q) > decMul (of_int (pr_poolBalance sel)) (py_maxPayoutRatio (dc_poolSystem cfg)))"
    by (rule_tac notI) simp
  note plan = plan [unfolded if_not_P [OF 5]]
  from plan have 6: "resolvePayoutLimitReason env uid (pz_rewardAmount q) (pr_maxReward sel) (dc_payoutControl cfg) w = None"
    by (simp split: option.splits)
  from plan 6 have "p = q \<and> amt = pz_rewardAmount q \<and> bv = evaluateBudget q (dv_now env)" by auto
  moreover have "payable env cfg uid sel c up q w"
    using 1 2 3 4 5 6 assms(2,3) unfolding payable_def by (simp only: not_less not_le de_Morgan_disj de_Morgan_conj imp_conv_disj simp_thms)
  ultimately show ?thesis by simp
qed

lemma resolvePayoutPolicy_Winning:
  assumes "resolvePayoutPolicy env cfg uid sel c up w = Winning_plan p amt bv"
  obtains cand pick t where "pr_selection sel = Some (Prize_item cand, pick, t)"
    "loadLockedPrize (ca_id cand) w = Some p" "payable env cfg uid sel c up p w"
    "amt = pz_rewardAmount p" "bv = evaluateBudget p (dv_now env)"
proof -
  from assms obtain cand pick t where sel: "pr_selection sel = Some (Prize_item cand, pick, t)"
    by (auto simp: resolvePayoutPolicy_def split: option.splits pick_item.splits)
  with assms obtain q where q: "loadLockedPrize (ca_id cand) w = Some q" "pz_isActive q" "0 < pz_stock q"
    "lockedPrizePolicy env cfg uid sel c up q w = Winning_plan p amt bv"
    by (auto simp: resolvePayoutPolicy_def not_le split: option.splits if_splits)
  from lockedPrizePolicy_Winning [OF q(4,2,3)] that [OF sel] q(1) show ?thesis by simp
qed

lemma payable_Winning:
  assumes "pr_selection sel = Some (Prize_item cand, pick, t)" and "loadLockedPrize (ca_id cand) w = Some p"
    and pay: "payable env cfg uid sel c up p w"
  shows "resolvePayoutPolicy env cfg uid sel c up w = Winning_plan p (pz_rewardAmount p) (evaluateBudget p (dv_now env))"
proof -
  have "\<not> (pr_effectivePoolBalance sel < of_int (pz_poolThreshold p) \<or> up < pz_userPoolThreshold p)"
    "\<not> \<not> bv_available (evaluateBudget p (dv_now env))"
    "\<not> (py_minReserve (dc_poolSystem cfg) > 0 \<and>
        max (pr_poolBalance sel + c - pz_rewardAmount p) 0 < py_minReserve (dc_poolSystem cfg))"
    "\<not> (dc_houseBankroll cfg > 0 \<and> pz_rewardAmount p > dc_houseBankroll cfg)"
    "\<not> (py_maxPayoutRatio (dc_poolSystem cfg) > 0 \<and>
        of_int (pz_rewardAmount p) > decMul (of_int (pr_poolBalance sel)) (py_maxPayoutRatio (dc_poolSystem cfg)))"
    "\<not> (\<not> pz_isActive p \<or> pz_stock p \<le> 0)"
    using pay unfolding payable_def by (simp_all only: not_less not_le de_Morgan_disj de_Morgan_conj imp_conv_disj simp_thms)
  moreover have "resolvePayoutLimitReason env uid (pz_rewardAmount p) (pr_maxReward sel) (dc_payoutControl cfg) w = None"
    using pay by (simp only: payable_def)
  ultimately show ?thesis
    using assms(1,2) unfolding resolvePayoutPolicy_def lockedPrizePolicy_def Let_def by (simp only: option.case pick_item.case prod.case if_False)
qed

lemma resolvePayoutPolicy_Terminal:
  assumes "resolvePayoutPolicy env cfg uid sel c up w = Terminal oc"
  shows "oc_status oc \<noteq> D_won \<and> oc_rewardAmount oc = 0 \<and> oc_prizeId oc = None"
  using assms
  by (auto simp: resolvePayoutPolicy_def lockedPrizePolicy_def buildOutcome_def Let_def
      split: option.splits pick_item.splits if_splits)

text \<open>A selection that cannot be paid.\<close>

definition notPayable ::
  "draw_env \<Rightarrow> draw_config \<Rightarrow> nat \<Rightarrow> prepared_selection \<Rightarrow> cents \<Rightarrow> cents \<Rightarrow> draw_world \<Rightarrow> bool" where
  "notPayable env cfg uid sel c up w =
     (\<forall>cand pick t p. pr_selection sel = Some (Prize_item cand, pick, t) \<longrightarrow>
        loadLockedPrize (ca_id cand) w = Some p \<longrightarrow> \<not> payable env cfg uid sel c up p w)"

text \<open>The row of a prize after it was won.\<close>

definition wonPrize :: "draw_env \<Rightarrow> prize \<Rightarrow> prize" where
  "wonPrize env p =
     (let bv = evaluateBudget p (dv_now env)
      in p\<lparr>pz_stock := pz_stock p - 1,
           pz_payoutSpent := (if bv_budget bv > 0
             then (if bv_shouldReset bv then 0 else bv_spent bv) + pz_rewardAmount p else pz_payoutSpent p),
           pz_payoutPeriodStartedAt := (if bv_budget bv > 0 \<and> bv_shouldReset bv then Some (dv_now env)
             else pz_payoutPeriodStartedAt p)\<rparr>)"

definition prizesOk :: "draw_world \<Rightarrow> bool" where
  "prizesOk w =
     (distinct (map pz_id (dw_prizes w)) \<and>
      (\<forall>p \<in> set (dw_prizes w). 0 \<le> pz_rewardAmount p \<and> 0 \<le> pz_stock p \<and>
         (0 < pz_payoutBudget p \<longrightarrow> pz_payoutSpent p \<le> pz_payoutBudget p)))"

lemma loadLockedPrize_SomeD:
  "loadLockedPrize i w = Some p \<Longrightarrow> p \<in> set (dw_prizes w) \<and> pz_id p = i \<and> \<not> pz_deleted p"
  using find_SomeD [of "\<lambda>p. pz_id p = i \<and> \<not> pz_deleted p" "dw_prizes w" p] by (simp add: loadLockedPrize_def)

lemma decrementPrizeStock_won:
  assumes "distinct (map pz_id (dw_prizes w))" and "p \<in> set (dw_prizes w)" and "\<not> pz_deleted p"
  shows "dw_prizes (decrementPrizeStock env p (pz_rewardAmount p) (evaluateBudget p (dv_now env)) w) =
    map (\<lambda>q. if pz_id q = pz_id p then wonPrize env p else q) (dw_prizes w)"
proof -
  have "q = p" if "q \<in> set (dw_prizes w)" "pz_id q = pz_id p" for q
    using assms(1,2) that by (auto simp: distinct_map dest: inj_onD)
  then show ?thesis
    using assms(3) by (auto simp: decrementPrizeStock_def wonPrize_def Let_def)
qed

subsection \<open>A draw that went through\<close>

definition drawCostOf :: "draw_config \<Rightarrow> cents" where
  "drawCostOf cfg = resolveEffectiveDrawCost (dc_drawCost cfg) (dc_drawSystem cfg)"

definition creditedEconomy :: "nat \<Rightarrow> nat \<Rightarrow> cents \<Rightarrow> economy \<Rightarrow> economy \<Rightarrow> bool" where
  "creditedEconomy uid prizeId amt ec ec' =
     (if amt \<le> 0 then ec' = ec
      else \<exists>res. creditAsset \<lparr>am_userId = uid, am_assetCode = B_LUCK, am_amount = of_int amt,
               am_entryType = ''draw_reward'', am_referenceType = Some ''prize'',
               am_referenceId = Some prizeId, am_idempotencyKey = None\<rparr> ec = Inr (res, ec'))"

definition debitedWorld :: "nat \<Rightarrow> cents \<Rightarrow> draw_user \<Rightarrow> fair_store \<Rightarrow> draw_world \<Rightarrow> draw_world" where
  "debitedWorld uid c u fs w =
     (let wl = walletRow uid w
      in w\<lparr>dw_wallets := (dw_wallets w)(uid \<mapsto> wl\<lparr>wl_withdrawable := wl_withdrawable wl - c, wl_wagered := wl_wagered wl + c\<rparr>),
           dw_users := (dw_users w)(uid \<mapsto> u\<lparr>du_userPoolBalance := du_userPoolBalance u + c\<rparr>),
           dw_ledger := dw_ledger w @ [drawCostEntry uid c (wl_withdrawable wl) (wl_withdrawable wl - c)],
           dw_fair := fs\<rparr>)"

lemma housePoolDelta_fields [simp]:
  "dw_prizePool (housePoolDelta ch e r w) = dw_prizePool w + ch"
  "dw_wallets (housePoolDelta ch e r w) = dw_wallets w" "dw_users (housePoolDelta ch e r w) = dw_users w"
  "dw_ledger (housePoolDelta ch e r w) = dw_ledger w" "dw_prizes (housePoolDelta ch e r w) = dw_prizes w"
  "dw_draws (housePoolDelta ch e r w) = dw_draws w" "dw_fair (housePoolDelta ch e r w) = dw_fair w"
  "dw_economy (housePoolDelta ch e r w) = dw_economy w"
  "dw_houseLines (housePoolDelta ch e r w) = dw_houseLines w @
     [\<lparr>ll_entryType = e, ll_amount = ch, ll_balanceBefore = dw_prizePool w,
       ll_balanceAfter = dw_prizePool w + ch, ll_referenceId = r\<rparr>]"
  by (simp_all add: housePoolDelta_def applyPrizePoolDelta_def Let_def)

text \<open>Everything a successful draw tells, up to the choice of the outcome.\<close>

lemma executeDraw_facts:
  assumes run: "executeDrawInTransaction env cfg skip opts uid w = Inr (r, w')"
  obtains u sd fs oc w2 db where
    "dw_users w uid = Some u" "drawCostOf cfg \<le> wl_withdrawable (walletRow uid w)"
    "skip \<or> enforceDrawGuards env uid (dc_drawSystem cfg) w = Inr ()"
    "dv_kyc env uid (drawCostOf cfg) = None"
    "ensureFairnessSeed (dv_fair env) (Some (dbl (py_epochSeconds (dc_poolSystem cfg)))) (dw_fair w) = Inr (sd, fs)"
    "resolveDrawOutcome env cfg uid
       (prepareDrawSelection env cfg (dw_prizePool w) (drawCostOf cfg) (du_pityStreak u) (fe_seed sd)
          (fst (resolveClientNonce env (do_clientNonce opts)))) (drawCostOf cfg)
       (du_userPoolBalance u + drawCostOf cfg) (debitedWorld uid (drawCostOf cfg) u fs w) = Inr (oc, w2)"
    "w' = (snd (updateUserDrawState env uid (oc_status oc) (du_pityStreak u)
        (applyHouseDrawEntries (drawCostOf cfg) (oc_rewardAmount oc) (oc_prizeId oc) w2)))
        \<lparr>dw_draws := dw_draws w2 @ [r]\<rparr>"
    "rd_id r = dv_newId env" "rd_userId r = uid" "rd_prizeId r = oc_prizeId oc" "rd_drawCost r = drawCostOf cfg"
    "rd_rewardAmount r = oc_rewardAmount oc" "rd_status r = oc_status oc" "rd_createdAt r = dv_transactionStart env"
    "rd_metadata r = buildDrawRecordMetadata
       (prepareDrawSelection env cfg (dw_prizePool w) (drawCostOf cfg) (du_pityStreak u) (fe_seed sd)
          (fst (resolveClientNonce env (do_clientNonce opts)))) db oc sd
       (resolveClientNonce env (do_clientNonce opts)) (if oc_status oc = D_won then 0 else du_pityStreak u + 1)
       (do_playMode opts)"
    "db_drawCost db = drawCostOf cfg" "db_userPoolAfterDebit db = du_userPoolBalance u + drawCostOf cfg"
    "db_pityStreakBefore db = du_pityStreak u"
proof -
  let ?c = "drawCostOf cfg"
  let ?wl = "walletRow uid w"
  from run obtain u where u: "dw_users w uid = Some u"
    by (auto simp: executeDrawInTransaction_def split: option.splits)
  let ?w0 = "w\<lparr>dw_wallets := (dw_wallets w)(uid \<mapsto> ?wl)\<rparr>"
  have guards_w0: "enforceDrawGuards env uid sy ?w0 = enforceDrawGuards env uid sy w" for sy
    by (simp add: enforceDrawGuards_def Let_def)
  from run u obtain sd fs where guards: "skip \<or> enforceDrawGuards env uid (dc_drawSystem cfg) w = Inr ()"
    and kyc: "dv_kyc env uid ?c = None"
    and fair: "ensureFairnessSeed (dv_fair env) (Some (dbl (py_epochSeconds (dc_poolSystem cfg)))) (dw_fair w) = Inr (sd, fs)"
    and perform: "performDraw env cfg opts uid sd u ?wl (?w0\<lparr>dw_fair := fs\<rparr>) = Inr (r, w')"
    by (auto simp: executeDrawInTransaction_def Let_def bind_res_Inr_iff guards_w0 walletRow_def [symmetric]
        drawCostOf_def [symmetric] split: option.splits if_splits)
  define db where "db = \<lparr>db_drawCostBase = dc_drawCost cfg, db_drawCost = ?c,
      db_drawCostClamped = (?c \<noteq> dc_drawCost cfg), db_walletAfterDebit = wl_withdrawable ?wl - ?c,
      db_userPoolBefore = du_userPoolBalance u, db_userPoolAfterDebit = du_userPoolBalance u + ?c,
      db_wageredAfter = wl_wagered ?wl + ?c, db_pityStreakBefore = du_pityStreak u\<rparr>"
  have "debitDrawCost cfg uid u ?wl (?w0\<lparr>dw_fair := fs\<rparr>) =
      (if wl_withdrawable ?wl < ?c then Inl (Conflict ''Insufficient balance.'')
       else Inr (db, debitedWorld uid ?c u fs w))"
    by (simp add: debitDrawCost_def Let_def drawCostOf_def [symmetric] db_def debitedWorld_def)
  with perform have enough: "?c \<le> wl_withdrawable ?wl"
    and perform2: "bind_res (resolveDrawOutcome env cfg uid
       (prepareDrawSelection env cfg (dw_prizePool w) ?c (du_pityStreak u) (fe_seed sd)
          (fst (resolveClientNonce env (do_clientNonce opts)))) ?c
       (du_userPoolBalance u + ?c) (debitedWorld uid ?c u fs w)) (\<lambda>(oc, w2).
         let w3 = applyHouseDrawEntries ?c (oc_rewardAmount oc) (oc_prizeId oc) w2;
             updated = updateUserDrawState env uid (oc_status oc) (du_pityStreak u) w3
         in Inr (createDrawRecord env uid
              (prepareDrawSelection env cfg (dw_prizePool w) ?c (du_pityStreak u) (fe_seed sd)
                 (fst (resolveClientNonce env (do_clientNonce opts)))) db oc
              (buildDrawRecordMetadata (prepareDrawSelection env cfg (dw_prizePool w) ?c (du_pityStreak u) (fe_seed sd)
                 (fst (resolveClientNonce env (do_clientNonce opts)))) db oc sd
                 (resolveClientNonce env (do_clientNonce opts)) (fst updated) (do_playMode opts)) (snd updated))) = Inr (r, w')"
    by (auto simp: performDraw_def Let_def db_def debitedWorld_def split: if_splits)
  from perform2 obtain oc w2 where outcome: "resolveDrawOutcome env cfg uid
       (prepareDrawSelection env cfg (dw_prizePool w) ?c (du_pityStreak u) (fe_seed sd)
          (fst (resolveClientNonce env (do_clientNonce opts)))) ?c
       (du_userPoolBalance u + ?c) (debitedWorld uid ?c u fs w) = Inr (oc, w2)"
    by (auto simp: bind_res_Inr_iff)
  note result = perform2 [unfolded outcome bind_res_simps split_conv Let_def createDrawRecord_def]
  show ?thesis
    by (rule that [OF u enough guards kyc fair outcome])
      (use result in \<open>auto simp: db_def updateUserDrawState_def applyHouseDrawEntries_def Let_def\<close>)
qed

text \<open>The two outcomes.\<close>

lemma resolveDrawOutcome_cases:
  assumes run: "resolveDrawOutcome env cfg uid sel c up w = Inr (oc, w2)"
    and ids: "distinct (map pz_id (dw_prizes w))"
  obtains (refused) "oc_status oc \<noteq> D_won" "oc_rewardAmount oc = 0" "oc_prizeId oc = None" "w2 = w"
      "notPayable env cfg uid sel c up w"
  | (paid) p cand pick t ec where "oc_status oc = D_won" "oc_rewardAmount oc = pz_rewardAmount p"
      "oc_prizeId oc = Some (pz_id p)" "pr_selection sel = Some (Prize_item cand, pick, t)" "ca_id cand = pz_id p"
      "p \<in> set (dw_prizes w)" "\<not> pz_deleted p" "payable env cfg uid sel c up p w"
      "creditedEconomy uid (pz_id p) (pz_rewardAmount p) (dw_economy w) ec"
      "w2 = w\<lparr>dw_prizes := map (\<lambda>q. if pz_id q = pz_id p then wonPrize env p else q) (dw_prizes w),
              dw_economy := ec,
              dw_users := (if pz_rewardAmount p \<le> 0 then dw_users w
                else (dw_users w)(uid := map_option (\<lambda>u. u\<lparr>du_userPoolBalance := max (up - pz_rewardAmount p) 0\<rparr>) (dw_users w uid)))\<rparr>"
proof (cases "resolvePayoutPolicy env cfg uid sel c up w")
  case (Terminal oc')
  with run have "oc' = oc" "w2 = w" by (auto simp: resolveDrawOutcome_def)
  moreover have "notPayable env cfg uid sel c up w"
    unfolding notPayable_def
  proof (intro allI impI notI)
    fix cand pick t p
    assume "pr_selection sel = Some (Prize_item cand, pick, t)" "loadLockedPrize (ca_id cand) w = Some p"
      "payable env cfg uid sel c up p w"
    from payable_Winning [OF this] Terminal show False by simp
  qed
  ultimately show ?thesis using resolvePayoutPolicy_Terminal [OF Terminal] refused by simp
next
  case (Winning_plan p amt bv)
  from resolvePayoutPolicy_Winning [OF this] obtain cand pick t where
    sel: "pr_selection sel = Some (Prize_item cand, pick, t)" and locked: "loadLockedPrize (ca_id cand) w = Some p"
    and pay: "payable env cfg uid sel c up p w" and amt: "amt = pz_rewardAmount p" "bv = evaluateBudget p (dv_now env)" .
  from loadLockedPrize_SomeD [OF locked] have p: "p \<in> set (dw_prizes w)" "pz_id p = ca_id cand" "\<not> pz_deleted p" by auto
  let ?w1 = "decrementPrizeStock env p (pz_rewardAmount p) (evaluateBudget p (dv_now env)) w"
  note prizes = decrementPrizeStock_won [OF ids p(1,3), of env]
  have "?w1 = w\<lparr>dw_prizes := dw_prizes ?w1\<rparr>" by (simp add: decrementPrizeStock_def Let_def)
  then have w1: "?w1 = w\<lparr>dw_prizes := map (\<lambda>q. if pz_id q = pz_id p then wonPrize env p else q) (dw_prizes w)\<rparr>"
    by (rule trans) (simp only: prizes)
  have w1f: "dw_economy ?w1 = dw_economy w" "dw_users ?w1 = dw_users w" by (simp_all add: decrementPrizeStock_def Let_def)
  from run Winning_plan amt have persist: "persistWinningOutcome env uid p (pz_rewardAmount p)
      (evaluateBudget p (dv_now env)) up w = Inr (oc, w2)" by (simp add: resolveDrawOutcome_def)
  then have oc: "oc = \<lparr>oc_status = D_won, oc_rewardAmount = pz_rewardAmount p, oc_prizeId = Some (pz_id p),
      oc_payoutLimitReason = None\<rparr>"
    and credit: "creditPrizeReward uid (pz_id p) (pz_rewardAmount p) up ?w1 = Inr w2"
    by (auto simp: persistWinningOutcome_def bind_res_Inr_iff)
  show ?thesis
  proof (cases "pz_rewardAmount p \<le> 0")
    case True
    with credit have "w2 = ?w1" by (simp add: creditPrizeReward_def)
    then have "w2 = w\<lparr>dw_prizes := map (\<lambda>q. if pz_id q = pz_id p then wonPrize env p else q) (dw_prizes w)\<rparr>"
      by (simp only: w1)
    then show ?thesis
      by (intro paid [OF _ _ _ sel _ p(1,3) pay, of "dw_economy w"])
        (use oc p(2) True in \<open>simp_all add: creditedEconomy_def\<close>)
  next
    case False
    with credit w1f obtain res ec where ec: "creditAsset \<lparr>am_userId = uid, am_assetCode = B_LUCK,
        am_amount = of_int (pz_rewardAmount p), am_entryType = ''draw_reward'', am_referenceType = Some ''prize'',
        am_referenceId = Some (pz_id p), am_idempotencyKey = None\<rparr> (dw_economy w) = Inr (res, ec)"
      and w2: "w2 = ?w1\<lparr>dw_economy := ec, dw_users := (dw_users w)(uid := map_option (\<lambda>u. u\<lparr>du_userPoolBalance :=
           max (up - pz_rewardAmount p) 0\<rparr>) (dw_users w uid))\<rparr>"
      by (auto simp: creditPrizeReward_def bind_res_Inr_iff)
    have "w2 = w\<lparr>dw_prizes := map (\<lambda>q. if pz_id q = pz_id p then wonPrize env p else q) (dw_prizes w),
         dw_economy := ec, dw_users := (dw_users w)(uid := map_option (\<lambda>u. u\<lparr>du_userPoolBalance :=
           max (up - pz_rewardAmount p) 0\<rparr>) (dw_users w uid))\<rparr>"
      unfolding w2 w1 by simp
    moreover have "creditedEconomy uid (pz_id p) (pz_rewardAmount p) (dw_economy w) ec"
      using False ec by (auto simp: creditedEconomy_def)
    ultimately show ?thesis
      by (intro paid [OF _ _ _ sel _ p(1,3) pay, of ec]) (use oc p(2) False in simp_all)
  qed
qed

lemma payable_debited [simp]:
  "payable env cfg uid sel c up p (debitedWorld v k u fs w) = payable env cfg uid sel c up p w"
proof -
  have won: "wonSince since (debitedWorld v k u fs w) = wonSince since w" for since
    by (simp add: wonSince_def debitedWorld_def Let_def)
  have "resolvePayoutLimitReason env uid a m pc (debitedWorld v k u fs w) = resolvePayoutLimitReason env uid a m pc w" for a m pc
    unfolding resolvePayoutLimitReason_def bigPrizeLimit_def won ..
  then show ?thesis unfolding payable_def by simp
qed

lemma notPayable_debited [simp]:
  "notPayable env cfg uid sel c up (debitedWorld v k u fs w) = notPayable env cfg uid sel c up w"
  by (simp add: notPayable_def loadLockedPrize_def) (simp add: debitedWorld_def Let_def)

text \<open>What a win did to the prizes and the accounts, and what else leaves them alone.\<close>

definition paidPrize ::
  "draw_env \<Rightarrow> draw_config \<Rightarrow> nat \<Rightarrow> prepared_selection \<Rightarrow> cents \<Rightarrow> draw_world \<Rightarrow> draw_record \<Rightarrow> draw_world \<Rightarrow> prize \<Rightarrow> bool" where
  "paidPrize env cfg uid sel up w r w' p =
     (rd_prizeId r = Some (pz_id p) \<and> rd_rewardAmount r = pz_rewardAmount p \<and>
      p \<in> set (dw_prizes w) \<and> \<not> pz_deleted p \<and> payable env cfg uid sel (drawCostOf cfg) up p w \<and>
      (\<exists>cand pick t. pr_selection sel = Some (Prize_item cand, pick, t) \<and> ca_id cand = pz_id p) \<and>
      creditedEconomy uid (pz_id p) (pz_rewardAmount p) (dw_economy w) (dw_economy w') \<and>
      dw_prizes w' = map (\<lambda>q. if pz_id q = pz_id p then wonPrize env p else q) (dw_prizes w))"

definition refusedDraw :: "draw_world \<Rightarrow> draw_record \<Rightarrow> draw_world \<Rightarrow> bool" where
  "refusedDraw w r w' =
     (rd_rewardAmount r = 0 \<and> rd_prizeId r = None \<and> dw_prizes w' = dw_prizes w \<and> dw_economy w' = dw_economy w)"

lemma draw_effect:
  assumes run: "executeDrawInTransaction env cfg skip opts uid w = Inr (r, w')" and ok: "prizesOk w"
  obtains u sd fs sel where
    "dw_users w uid = Some u" "drawCostOf cfg \<le> wl_withdrawable (walletRow uid w)"
    "skip \<or> enforceDrawGuards env uid (dc_drawSystem cfg) w = Inr ()" "dv_kyc env uid (drawCostOf cfg) = None"
    "ensureFairnessSeed (dv_fair env) (Some (dbl (py_epochSeconds (dc_poolSystem cfg)))) (dw_fair w) = Inr (sd, fs)"
    "sel = prepareDrawSelection env cfg (dw_prizePool w) (drawCostOf cfg) (du_pityStreak u) (fe_seed sd)
       (fst (resolveClientNonce env (do_clientNonce opts)))"
    "dw_wallets w' = (dw_wallets w)(uid \<mapsto> (walletRow uid w)
       \<lparr>wl_withdrawable := wl_withdrawable (walletRow uid w) - drawCostOf cfg,
        wl_wagered := wl_wagered (walletRow uid w) + drawCostOf cfg\<rparr>)"
    "dw_ledger w' = dw_ledger w @ [drawCostEntry uid (drawCostOf cfg) (wl_withdrawable (walletRow uid w))
       (wl_withdrawable (walletRow uid w) - drawCostOf cfg)]"
    "dw_prizePool w' = dw_prizePool w + drawCostOf cfg - rd_rewardAmount r"
    "dw_draws w' = dw_draws w @ [r]" "dw_fair w' = fs"
    "\<exists>u'. dw_users w' = (dw_users w)(uid \<mapsto> u') \<and>
       du_pityStreak u' = (if rd_status r = D_won then 0 else du_pityStreak u + 1) \<and>
       du_userPoolBalance u' = (if 0 < rd_rewardAmount r
         then max (du_userPoolBalance u + drawCostOf cfg - rd_rewardAmount r) 0
         else du_userPoolBalance u + drawCostOf cfg)"
    "rd_userId r = uid" "rd_drawCost r = drawCostOf cfg" "rd_createdAt r = dv_transactionStart env"
    "\<exists>db oc. rd_metadata r = buildDrawRecordMetadata sel db oc sd (resolveClientNonce env (do_clientNonce opts))
       (if rd_status r = D_won then 0 else du_pityStreak u + 1) (do_playMode opts) \<and> db_drawCost db = drawCostOf cfg \<and>
       oc_rewardAmount oc = rd_rewardAmount r \<and> db_pityStreakBefore db = du_pityStreak u"
    "rd_status r \<noteq> D_won \<and> refusedDraw w r w' \<and>
       notPayable env cfg uid sel (drawCostOf cfg) (du_userPoolBalance u + drawCostOf cfg) w \<or> rd_status r = D_won \<and>
       (\<exists>p. paidPrize env cfg uid sel (du_userPoolBalance u + drawCostOf cfg) w r w' p)"
proof -
  let ?c = "drawCostOf cfg"
  from run obtain u sd fs oc w2 db where F:
    "dw_users w uid = Some u" "?c \<le> wl_withdrawable (walletRow uid w)"
    "skip \<or> enforceDrawGuards env uid (dc_drawSystem cfg) w = Inr ()"
    "dv_kyc env uid ?c = None"
    "ensureFairnessSeed (dv_fair env) (Some (dbl (py_epochSeconds (dc_poolSystem cfg)))) (dw_fair w) = Inr (sd, fs)"
    and outcome: "resolveDrawOutcome env cfg uid
       (prepareDrawSelection env cfg (dw_prizePool w) ?c (du_pityStreak u) (fe_seed sd)
          (fst (resolveClientNonce env (do_clientNonce opts)))) ?c
       (du_userPoolBalance u + ?c) (debitedWorld uid ?c u fs w) = Inr (oc, w2)"
    and w': "w' = (snd (updateUserDrawState env uid (oc_status oc) (du_pityStreak u)
        (applyHouseDrawEntries ?c (oc_rewardAmount oc) (oc_prizeId oc) w2)))\<lparr>dw_draws := dw_draws w2 @ [r]\<rparr>"
    and R: "rd_userId r = uid" "rd_prizeId r = oc_prizeId oc" "rd_drawCost r = ?c"
    "rd_rewardAmount r = oc_rewardAmount oc" "rd_status r = oc_status oc" "rd_createdAt r = dv_transactionStart env"
    "rd_metadata r = buildDrawRecordMetadata
       (prepareDrawSelection env cfg (dw_prizePool w) ?c (du_pityStreak u) (fe_seed sd)
          (fst (resolveClientNonce env (do_clientNonce opts)))) db oc sd
       (resolveClientNonce env (do_clientNonce opts)) (if oc_status oc = D_won then 0 else du_pityStreak u + 1)
       (do_playMode opts)"
    and D: "db_drawCost db = ?c" "db_pityStreakBefore db = du_pityStreak u"
    by (rule executeDraw_facts)
  define sel where "sel = prepareDrawSelection env cfg (dw_prizePool w) ?c (du_pityStreak u) (fe_seed sd)
     (fst (resolveClientNonce env (do_clientNonce opts)))"
  define w1 where "w1 = debitedWorld uid ?c u fs w"
  have W1: "dw_prizes w1 = dw_prizes w" "dw_economy w1 = dw_economy w" "dw_prizePool w1 = dw_prizePool w"
    "dw_draws w1 = dw_draws w" "dw_fair w1 = fs"
    by (simp_all add: w1_def debitedWorld_def Let_def)
  have ids: "distinct (map pz_id (dw_prizes w1))" using ok by (simp add: prizesOk_def W1)
  have meta: "\<exists>db oc. rd_metadata r = buildDrawRecordMetadata sel db oc sd (resolveClientNonce env (do_clientNonce opts))
       (if rd_status r = D_won then 0 else du_pityStreak u + 1) (do_playMode opts) \<and> db_drawCost db = drawCostOf cfg \<and>
       oc_rewardAmount oc = rd_rewardAmount r \<and> db_pityStreakBefore db = du_pityStreak u"
    using R(4,5,7) D by (auto simp: sel_def)
  have same: "dw_wallets w' = dw_wallets w2" "dw_ledger w' = dw_ledger w2" "dw_prizes w' = dw_prizes w2"
    "dw_economy w' = dw_economy w2" "dw_fair w' = dw_fair w2" "dw_draws w' = dw_draws w2 @ [r]"
    by (simp_all add: w' updateUserDrawState_def applyHouseDrawEntries_def Let_def)
  from outcome [folded sel_def w1_def] ids show ?thesis
  proof (cases rule: resolveDrawOutcome_cases)
    case refused
    have "dw_prizePool w' = dw_prizePool w + ?c - rd_rewardAmount r"
      by (simp add: w' updateUserDrawState_def applyHouseDrawEntries_def Let_def R refused W1)
    moreover have "notPayable env cfg uid sel ?c (du_userPoolBalance u + ?c) w"
      using refused(5) by (simp add: w1_def)
    moreover have "\<exists>u'. dw_users w' = (dw_users w)(uid \<mapsto> u') \<and>
       du_pityStreak u' = (if rd_status r = D_won then 0 else du_pityStreak u + 1) \<and>
       du_userPoolBalance u' = (if 0 < rd_rewardAmount r
         then max (du_userPoolBalance u + ?c - rd_rewardAmount r) 0 else du_userPoolBalance u + ?c)"
      by (rule exI [of _ "the (dw_users w' uid)"])
        (simp add: w' updateUserDrawState_def applyHouseDrawEntries_def Let_def R refused w1_def debitedWorld_def)
    ultimately show ?thesis
      by (intro that [OF F sel_def _ _ _ _ _ _ R(1,3,6) meta])
        (use refused R W1 in \<open>simp_all add: same refusedDraw_def\<close>, simp_all add: w1_def debitedWorld_def Let_def)
  next
    case (paid p cand pick t ec)
    have p0: "0 \<le> pz_rewardAmount p" using ok paid(6) by (simp add: prizesOk_def W1)
    have "dw_prizePool w' = dw_prizePool w + ?c - rd_rewardAmount r"
      using p0 by (simp add: w' updateUserDrawState_def applyHouseDrawEntries_def Let_def R paid(2,10) W1)
    moreover have "\<exists>u'. dw_users w' = (dw_users w)(uid \<mapsto> u') \<and>
       du_pityStreak u' = (if rd_status r = D_won then 0 else du_pityStreak u + 1) \<and>
       du_userPoolBalance u' = (if 0 < rd_rewardAmount r
         then max (du_userPoolBalance u + ?c - rd_rewardAmount r) 0 else du_userPoolBalance u + ?c)"
      by (rule exI [of _ "the (dw_users w' uid)"])
        (use p0 in \<open>simp add: w' updateUserDrawState_def applyHouseDrawEntries_def Let_def R paid(1,2,10) w1_def debitedWorld_def\<close>)
    moreover have "paidPrize env cfg uid sel (du_userPoolBalance u + ?c) w r w' p"
      using paid R W1 unfolding paidPrize_def same by (auto simp: w1_def)
    moreover have "rd_status r = D_won" using R paid by simp
    ultimately show ?thesis
      by (intro that [OF F sel_def _ _ _ _ _ _ R(1,3,6) meta])
        (auto simp: same paid(10) W1, simp_all add: w1_def debitedWorld_def Let_def)
  qed
qed

text \<open>All that is known of a draw that went through, as one predicate and as single facts.\<close>

definition drawFacts ::
  "draw_env \<Rightarrow> draw_config \<Rightarrow> bool \<Rightarrow> draw_options \<Rightarrow> nat \<Rightarrow> draw_world \<Rightarrow> draw_record \<Rightarrow> draw_world \<Rightarrow>
     draw_user \<Rightarrow> fair_seed \<Rightarrow> prepared_selection \<Rightarrow> bool" where
  "drawFacts env cfg skip opts uid w r w' u sd sel \<longleftrightarrow>
     (dw_users w uid = Some u) \<and>
     (drawCostOf cfg \<le> wl_withdrawable (walletRow uid w)) \<and>
     (skip \<or> enforceDrawGuards env uid (dc_drawSystem cfg) w = Inr ()) \<and>
     (dv_kyc env uid (drawCostOf cfg) = None) \<and>
     (ensureFairnessSeed (dv_fair env) (Some (dbl (py_epochSeconds (dc_poolSystem cfg)))) (dw_fair w) = Inr (sd, dw_fair w')) \<and>
     (sel = prepareDrawSelection env cfg (dw_prizePool w) (drawCostOf cfg) (du_pityStreak u) (fe_seed sd)
       (fst (resolveClientNonce env (do_clientNonce opts)))) \<and>
     (dw_wallets w' = (dw_wallets w)(uid \<mapsto> (walletRow uid w)
       \<lparr>wl_withdrawable := wl_withdrawable (walletRow uid w) - drawCostOf cfg,
        wl_wagered := wl_wagered (walletRow uid w) + drawCostOf cfg\<rparr>)) \<and>
     (dw_ledger w' = dw_ledger w @ [drawCostEntry uid (drawCostOf cfg) (wl_withdrawable (walletRow uid w))
       (wl_withdrawable (walletRow uid w) - drawCostOf cfg)]) \<and>
     (dw_prizePool w' = dw_prizePool w + drawCostOf cfg - rd_rewardAmount r) \<and>
     (dw_draws w' = dw_draws w @ [r]) \<and>
     (\<exists>u'. dw_users w' = (dw_users w)(uid \<mapsto> u') \<and>
       du_pityStreak u' = (if rd_status r = D_won then 0 else du_pityStreak u + 1) \<and>
       du_userPoolBalance u' = (if 0 < rd_rewardAmount r
         then max (du_userPoolBalance u + drawCostOf cfg - rd_rewardAmount r) 0
         else du_userPoolBalance u + drawCostOf cfg)) \<and>
     (rd_userId r = uid) \<and>
     (rd_drawCost r = drawCostOf cfg) \<and>
     (rd_createdAt r = dv_transactionStart env) \<and>
     (\<exists>db oc. rd_metadata r = buildDrawRecordMetadata sel db oc sd (resolveClientNonce env (do_clientNonce opts))
       (if rd_status r = D_won then 0 else du_pityStreak u + 1) (do_playMode opts) \<and> db_drawCost db = drawCostOf cfg \<and>
       oc_rewardAmount oc = rd_rewardAmount r \<and> db_pityStreakBefore db = du_pityStreak u) \<and>
     (rd_status r \<noteq> D_won \<and> refusedDraw w r w' \<and>
       notPayable env cfg uid sel (drawCostOf cfg) (du_userPoolBalance u + drawCostOf cfg) w \<or> rd_status r = D_won \<and>
       (\<exists>p. paidPrize env cfg uid sel (du_userPoolBalance u + drawCostOf cfg) w r w' p))"

lemma drawFactsD:
  assumes "drawFacts env cfg skip opts uid w r w' u sd sel"
  shows "dw_users w uid = Some u"
    "drawCostOf cfg \<le> wl_withdrawable (walletRow uid w)"
    "skip \<or> enforceDrawGuards env uid (dc_drawSystem cfg) w = Inr ()"
    "dv_kyc env uid (drawCostOf cfg) = None"
    "ensureFairnessSeed (dv_fair env) (Some (dbl (py_epochSeconds (dc_poolSystem cfg)))) (dw_fair w) = Inr (sd, dw_fair w')"
    "sel = prepareDrawSelection env cfg (dw_prizePool w) (drawCostOf cfg) (du_pityStreak u) (fe_seed sd)
       (fst (resolveClientNonce env (do_clientNonce opts)))"
    "dw_wallets w' = (dw_wallets w)(uid \<mapsto> (walletRow uid w)
       \<lparr>wl_withdrawable := wl_withdrawable (walletRow uid w) - drawCostOf cfg,
        wl_wagered := wl_wagered (walletRow uid w) + drawCostOf cfg\<rparr>)"
    "dw_ledger w' = dw_ledger w @ [drawCostEntry uid (drawCostOf cfg) (wl_withdrawable (walletRow uid w))
       (wl_withdrawable (walletRow uid w) - drawCostOf cfg)]"
    "dw_prizePool w' = dw_prizePool w + drawCostOf cfg - rd_rewardAmount r"
    "dw_draws w' = dw_draws w @ [r]"
    "\<exists>u'. dw_users w' = (dw_users w)(uid \<mapsto> u') \<and>
       du_pityStreak u' = (if rd_status r = D_won then 0 else du_pityStreak u + 1) \<and>
       du_userPoolBalance u' = (if 0 < rd_rewardAmount r
         then max (du_userPoolBalance u + drawCostOf cfg - rd_rewardAmount r) 0
         else du_userPoolBalance u + drawCostOf cfg)"
    "rd_userId r = uid"
    "rd_drawCost r = drawCostOf cfg"
    "rd_createdAt r = dv_transactionStart env"
    "\<exists>db oc. rd_metadata r = buildDrawRecordMetadata sel db oc sd (resolveClientNonce env (do_clientNonce opts))
       (if rd_status r = D_won then 0 else du_pityStreak u + 1) (do_playMode opts) \<and> db_drawCost db = drawCostOf cfg \<and>
       oc_rewardAmount oc = rd_rewardAmount r \<and> db_pityStreakBefore db = du_pityStreak u"
    "rd_status r \<noteq> D_won \<and> refusedDraw w r w' \<and>
       notPayable env cfg uid sel (drawCostOf cfg) (du_userPoolBalance u + drawCostOf cfg) w \<or> rd_status r = D_won \<and>
       (\<exists>p. paidPrize env cfg uid sel (du_userPoolBalance u + drawCostOf cfg) w r w' p)"
  using assms unfolding drawFacts_def by blast+

lemma draw_facts:
  assumes "executeDrawInTransaction env cfg skip opts uid w = Inr (r, w')" and "prizesOk w"
  obtains u sd sel where "drawFacts env cfg skip opts uid w r w' u sd sel"
proof (rule draw_effect [OF assms])
  fix u sd fs sel
  assume "dw_users w uid = Some u"
    "drawCostOf cfg \<le> wl_withdrawable (walletRow uid w)"
    "skip \<or> enforceDrawGuards env uid (dc_drawSystem cfg) w = Inr ()"
    "dv_kyc env uid (drawCostOf cfg) = None"
    "ensureFairnessSeed (dv_fair env) (Some (dbl (py_epochSeconds (dc_poolSystem cfg)))) (dw_fair w) = Inr (sd, fs)"
    "sel = prepareDrawSelection env cfg (dw_prizePool w) (drawCostOf cfg) (du_pityStreak u) (fe_seed sd)
       (fst (resolveClientNonce env (do_clientNonce opts)))"
    "dw_wallets w' = (dw_wallets w)(uid \<mapsto> (walletRow uid w)
       \<lparr>wl_withdrawable := wl_withdrawable (walletRow uid w) - drawCostOf cfg,
        wl_wagered := wl_wagered (walletRow uid w) + drawCostOf cfg\<rparr>)"
    "dw_ledger w' = dw_ledger w @ [drawCostEntry uid (drawCostOf cfg) (wl_withdrawable (walletRow uid w))
       (wl_withdrawable (walletRow uid w) - drawCostOf cfg)]"
    "dw_prizePool w' = dw_prizePool w + drawCostOf cfg - rd_rewardAmount r"
    "dw_draws w' = dw_draws w @ [r]"
    "dw_fair w' = fs"
    "\<exists>u'. dw_users w' = (dw_users w)(uid \<mapsto> u') \<and>
       du_pityStreak u' = (if rd_status r = D_won then 0 else du_pityStreak u + 1) \<and>
       du_userPoolBalance u' = (if 0 < rd_rewardAmount r
         then max (du_userPoolBalance u + drawCostOf cfg - rd_rewardAmount r) 0
         else du_userPoolBalance u + drawCostOf cfg)"
    "rd_userId r = uid"
    "rd_drawCost r = drawCostOf cfg"
    "rd_createdAt r = dv_transactionStart env"
    "\<exists>db oc. rd_metadata r = buildDrawRecordMetadata sel db oc sd (resolveClientNonce env (do_clientNonce opts))
       (if rd_status r = D_won then 0 else du_pityStreak u + 1) (do_playMode opts) \<and> db_drawCost db = drawCostOf cfg \<and>
       oc_rewardAmount oc = rd_rewardAmount r \<and> db_pityStreakBefore db = du_pityStreak u"
    "rd_status r \<noteq> D_won \<and> refusedDraw w r w' \<and>
       notPayable env cfg uid sel (drawCostOf cfg) (du_userPoolBalance u + drawCostOf cfg) w \<or> rd_status r = D_won \<and>
       (\<exists>p. paidPrize env cfg uid sel (du_userPoolBalance u + drawCostOf cfg) w r w' p)"
  then have "drawFacts env cfg skip opts uid w r w' u sd sel" unfolding drawFacts_def by blast
  then show thesis by (rule that)
qed

subsection \<open>When a draw is refused\<close>

lemma creditAsset_succeeds:
  assumes "0 < amt"
  shows "\<exists>res ec'. creditAsset \<lparr>am_userId = uid, am_assetCode = a, am_amount = of_int amt, am_entryType = t,
      am_referenceType = rt, am_referenceId = ri, am_idempotencyKey = None\<rparr> ec = Inr (res, ec')"
  using assms
  by (simp add: creditAsset_def applyAssetLedgerMutation_def Let_def findIdempotentLedgerEntry_def
      normalizePositiveAmount_def asset_simps(4) lockUserAssetBalance_eq creditCompute_def insertEconomyLedgerEntries.simps)

lemma resolveDrawOutcome_succeeds: "\<exists>oc w2. resolveDrawOutcome env cfg uid sel c up w = Inr (oc, w2)"
proof (cases "resolvePayoutPolicy env cfg uid sel c up w")
  case (Winning_plan p amt bv)
  let ?w1 = "decrementPrizeStock env p amt bv w"
  have "\<exists>w2. creditPrizeReward uid (pz_id p) amt up ?w1 = Inr w2"
  proof (cases "amt \<le> 0")
    case False
    then obtain res ec where "creditAsset \<lparr>am_userId = uid, am_assetCode = B_LUCK, am_amount = of_int amt,
        am_entryType = ''draw_reward'', am_referenceType = Some ''prize'', am_referenceId = Some (pz_id p),
        am_idempotencyKey = None\<rparr> (dw_economy ?w1) = Inr (res, ec)"
      using creditAsset_succeeds [of amt] by fastforce
    then show ?thesis by (simp add: creditPrizeReward_def)
  qed (simp add: creditPrizeReward_def)
  then show ?thesis using Winning_plan by (auto simp: resolveDrawOutcome_def persistWinningOutcome_def)
qed (simp add: resolveDrawOutcome_def)

text \<open>The first thing that stops a draw, in the order in which the draw asks.\<close>

definition drawRefusal :: "draw_env \<Rightarrow> draw_config \<Rightarrow> bool \<Rightarrow> nat \<Rightarrow> draw_world \<Rightarrow> error option" where
  "drawRefusal env cfg skip uid w =
     (if dw_users w uid = None then Some (NotFound ''User not found.'')
      else case (if skip then Inr () else enforceDrawGuards env uid (dc_drawSystem cfg) w) of
        Inl e \<Rightarrow> Some e
      | Inr _ \<Rightarrow>
          (case dv_kyc env uid (drawCostOf cfg) of
             Some e \<Rightarrow> Some e
           | None \<Rightarrow>
               (case ensureFairnessSeed (dv_fair env) (Some (dbl (py_epochSeconds (dc_poolSystem cfg)))) (dw_fair w) of
                  Inl e \<Rightarrow> Some e
                | Inr _ \<Rightarrow> if wl_withdrawable (walletRow uid w) < drawCostOf cfg
                           then Some (Conflict ''Insufficient balance.'') else None)))"

lemma performDraw_refused:
  "wl_withdrawable wl < drawCostOf cfg \<Longrightarrow>
     performDraw env cfg opts uid sd u wl w = Inl (Conflict ''Insufficient balance.'')"
  by (simp add: performDraw_def debitDrawCost_def Let_def drawCostOf_def)

lemma performDraw_succeeds:
  assumes "\<not> wl_withdrawable wl < drawCostOf cfg"
  shows "\<exists>r w'. performDraw env cfg opts uid sd u wl w = Inr (r, w')"
proof -
  obtain db w1 where debit: "debitDrawCost cfg uid u wl w = Inr (db, w1)"
    using assms by (simp add: debitDrawCost_def Let_def drawCostOf_def)
  obtain oc w2 where "resolveDrawOutcome env cfg uid (prepareDrawSelection env cfg (dw_prizePool w1) (db_drawCost db)
      (db_pityStreakBefore db) (fe_seed sd) (fst (resolveClientNonce env (do_clientNonce opts)))) (db_drawCost db)
      (db_userPoolAfterDebit db) w1 = Inr (oc, w2)" using resolveDrawOutcome_succeeds by blast
  with debit show ?thesis by (simp add: performDraw_def createDrawRecord_def Let_def)
qed

lemma executeDraw_refusal:
  "executeDrawInTransaction env cfg skip opts uid w = Inl e \<longleftrightarrow> drawRefusal env cfg skip uid w = Some e"
  "(\<exists>x. executeDrawInTransaction env cfg skip opts uid w = Inr x) \<longleftrightarrow> drawRefusal env cfg skip uid w = None"
proof -
  let ?run = "executeDrawInTransaction env cfg skip opts uid w"
  have guards: "enforceDrawGuards env uid sy (w\<lparr>dw_wallets := ws\<rparr>) = enforceDrawGuards env uid sy w" for sy ws
    by (simp add: enforceDrawGuards_def Let_def)
  have "(case drawRefusal env cfg skip uid w of Some e \<Rightarrow> ?run = Inl e | None \<Rightarrow> \<exists>x. ?run = Inr x)"
  proof (cases "dw_users w uid")
    case None
    then show ?thesis by (simp add: drawRefusal_def executeDrawInTransaction_def)
  next
    case (Some u)
    let ?w0 = "w\<lparr>dw_wallets := (dw_wallets w)(uid \<mapsto> walletRow uid w)\<rparr>"
    have run: "?run = bind_res (if skip then Inr () else enforceDrawGuards env uid (dc_drawSystem cfg) w) (\<lambda>_.
        bind_res (case dv_kyc env uid (drawCostOf cfg) of Some e \<Rightarrow> Inl e | None \<Rightarrow> Inr ()) (\<lambda>_.
        bind_res (ensureFairnessSeed (dv_fair env) (Some (dbl (py_epochSeconds (dc_poolSystem cfg)))) (dw_fair w))
          (\<lambda>(sd, fs). performDraw env cfg opts uid sd u (walletRow uid w) (?w0\<lparr>dw_fair := fs\<rparr>))))"
      using Some by (simp add: executeDrawInTransaction_def Let_def walletRow_def drawCostOf_def guards)
    show ?thesis
    proof (cases "if skip then Inr () else enforceDrawGuards env uid (dc_drawSystem cfg) w")
      case (Inl e)
      then show ?thesis using Some by (simp add: run drawRefusal_def)
    next
      case Inr: (Inr x)
      show ?thesis
      proof (cases "dv_kyc env uid (drawCostOf cfg)")
        case None
        show ?thesis
        proof (cases "ensureFairnessSeed (dv_fair env) (Some (dbl (py_epochSeconds (dc_poolSystem cfg)))) (dw_fair w)")
          case (Inl e)
          then show ?thesis using Some Inr None by (simp add: run drawRefusal_def)
        next
          case fair: (Inr p)
          then show ?thesis
            using Some Inr None performDraw_refused [of "walletRow uid w"] performDraw_succeeds [of "walletRow uid w"]
            by (cases "wl_withdrawable (walletRow uid w) < drawCostOf cfg")
              (simp_all add: run drawRefusal_def split_def)
        qed
      qed (use Some Inr in \<open>simp add: run drawRefusal_def\<close>)
    qed
  qed
  then show "?run = Inl e \<longleftrightarrow> drawRefusal env cfg skip uid w = Some e"
    "(\<exists>x. ?run = Inr x) \<longleftrightarrow> drawRefusal env cfg skip uid w = None"
    by (auto split: option.splits)
qed

end
