(* ===== verification/Fairness_Safety.thy ===== *)
theory Fairness_Safety
  imports Fairness_Runs
begin

text \<open>
  The properties of commit and reveal, over every run that starts with empty tables.
\<close>

text \<open>
  C16. Commit and reveal is binding and timely.  What a reveal shows for an epoch is the seed,
  and hashes to the commitment, that every earlier request of that epoch was given, whatever
  happened in between; it is shown only after the epoch's last millisecond, and from then on
  no request is in that epoch any more.
\<close>

theorem reveal_shows_committed_seed:
  assumes envs: "\<forall>c \<in> set (cs1 @ cs2). fairEnv sha (commandEnv c)" "fairEnv sha env1" "fairEnv sha env2"
    and first: "ensureFairnessSeed env1 es (runFair cs1 emptyFair) = Inr (sd, fs1)"
    and later: "revealFairnessSeed env2 (fe_epoch sd) es (runFair cs2 fs1) = Inr (Some v, fs2)"
  shows "fr_seed v = fe_seed sd \<and> fr_commitHash v = fe_commitHash sd \<and>
    fe_commitHash sd = hashSeed sha (fr_seed v) \<and>
    of_int (fe_epoch sd + 1) * resolveEpochSeconds es * 1000 \<le> (of_int (fv_now env2) :: rat) \<and>
    (\<forall>now. fv_now env2 \<le> now \<and> now < 2 ^ 53 \<longrightarrow> fe_epoch sd < currentEpoch (resolveEpochSeconds es) now)"
proof -
  have "fairOk sha (runFair cs1 emptyFair)" using runFair_ok [of sha emptyFair cs1] envs by simp
  note one = ensureFairnessSeed_ok [OF this envs(2) first]
  then have ok1: "fairOk sha fs1" by simp
  have two: "fairOk sha (runFair cs2 fs1)" "keepsSeeds fs1 (runFair cs2 fs1)"
    using runFair_ok [OF ok1, of cs2] envs by simp_all
  note three = revealFairnessSeed_ok [OF two(1) envs(3) later]
  from one obtain s r1 where s: "resolveEpochSeconds es = of_int s" and r1: "r1 \<in> set (fs_seeds fs1)"
    "seedKey r1 = (fe_epoch sd, s)" "sr_seed r1 = Some (fe_seed sd)" by auto
  from three s obtain r2 where s0: "0 < s" and over: "fe_epoch sd < fv_now env2 div (s * 1000)"
    and r2: "r2 \<in> set (fs_seeds (runFair cs2 fs1))" "seedKey r2 = (fe_epoch sd, s)" "sr_seed r2 = Some (fr_seed v)"
    and h: "fr_commitHash v = hashSeed sha (fr_seed v)" by auto
  have sd: "fe_seed sd = fr_seed v" using seed_stays [OF two r1(1) r2(1)] r1 r2 by simp
  have now2: "0 \<le> fv_now env2" using envs(3) by (simp add: fairEnv_def)
  have "(fe_epoch sd + 1) * (s * 1000) \<le> (fv_now env2 div (s * 1000)) * (s * 1000)"
    using over s0 by (intro mult_right_mono) auto
  also have "\<dots> \<le> fv_now env2" using s0 by (simp add: div_times_less_eq_dividend minus_mod_eq_div_mult [symmetric])
  finally have "of_int ((fe_epoch sd + 1) * (s * 1000)) \<le> (of_int (fv_now env2) :: rat)" by (simp only: of_int_le_iff)
  then have ended: "of_int (fe_epoch sd + 1) * resolveEpochSeconds es * 1000 \<le> (of_int (fv_now env2) :: rat)"
    by (simp add: s mult.assoc)
  have s31: "s < 2147483648"
    using first by (auto simp: ensureFairnessSeed_def Let_def bind_res_Inr_iff loadFairnessSeed_Inr s)
  have "fe_epoch sd < currentEpoch (resolveEpochSeconds es) now" if "fv_now env2 \<le> now" "now < 2 ^ 53" for now
  proof -
    have "currentEpoch (resolveEpochSeconds es) now = now div (s * 1000)"
      unfolding s by (rule currentEpoch_div) (use s0 s31 that now2 in auto)
    moreover have "fv_now env2 div (s * 1000) \<le> now div (s * 1000)" using that(1) s0 by (intro zdiv_mono1) auto
    ultimately show ?thesis using over by simp
  qed
  with sd h one ended show ?thesis by simp
qed

text \<open>A day of one-minute epochs, with a hash function that is good enough to compute with.\<close>

definition sampleHash :: hash_function where
  "sampleHash s = [of_nat (length s), 7]"

definition sampleFairEnv :: "int \<Rightarrow> fair_env" where
  "sampleFairEnv t = \<lparr>fv_now = t, fv_randomHex = ''5eed'', fv_sha256 = sampleHash, fv_development = False\<rparr>"

definition sampleSeed :: fair_seed where
  "sampleSeed = \<lparr>fe_epoch = 0, fe_epochSeconds = 60, fe_commitHash = ''0407'', fe_seed = ''5eed''\<rparr>"

definition sampleFair :: fair_store where
  "sampleFair = \<lparr>fs_seeds = [\<lparr>sr_epoch = 0, sr_epochSeconds = 60, sr_commitHash = ''0407'',
     sr_seed = Some ''5eed'', sr_revealedAt = None\<rparr>], fs_audits = []\<rparr>"

lemma minute_epochs:
  "resolveEpochSeconds (Some 60) = 60" "resolveEpochSeconds (Some 60) = of_int 60"
  "0 \<le> t \<Longrightarrow> t < 2 ^ 53 \<Longrightarrow> currentEpoch 60 t = t div 60000"
  "\<bar>e\<bar> < 2147483648 \<Longrightarrow> loadFairnessSeed e 60 fs = Inr (find (\<lambda>r. sr_epoch r = e \<and> sr_epochSeconds r = 60) (fs_seeds fs))"
  "\<bar>e\<bar> < 2147483648 \<Longrightarrow> saveFairnessAudit e 60 mk fs = Inr (mk e 60, upsertFairnessAudit (mk e 60) fs)"
proof -
  have int: "dbInteger 60 = Inr 60" "\<bar>e\<bar> < 2147483648 \<Longrightarrow> dbInteger (of_int e) = Inr e" for e
    using dbInteger_Inr [of 60 60] dbInteger_Inr [of "of_int e" e] by simp_all
  show "resolveEpochSeconds (Some 60) = 60" "resolveEpochSeconds (Some 60) = of_int 60"
    by (simp_all add: resolveEpochSeconds_def)
  show "0 \<le> t \<Longrightarrow> t < 2 ^ 53 \<Longrightarrow> currentEpoch 60 t = t div 60000"
    using currentEpoch_div [of 60 t] by simp
  show "\<bar>e\<bar> < 2147483648 \<Longrightarrow> loadFairnessSeed e 60 fs = Inr (find (\<lambda>r. sr_epoch r = e \<and> sr_epochSeconds r = 60) (fs_seeds fs))"
    "\<bar>e\<bar> < 2147483648 \<Longrightarrow> saveFairnessAudit e 60 mk fs = Inr (mk e 60, upsertFairnessAudit (mk e 60) fs)"
    by (simp_all add: loadFairnessSeed_def saveFairnessAudit_def int)
qed

lemma sampleHash_hex: "hashSeed sampleHash ''5eed'' = ''0407''"
  by code_simp

lemma sample_ensure: "ensureFairnessSeed (sampleFairEnv 1000) (Some 60) emptyFair = Inr (sampleSeed, sampleFair)"
  by (simp add: ensureFairnessSeed_def Let_def minute_epochs sampleFairEnv_def emptyFair_def usableSeed_def
      insertFairnessSeed_def sampleHash_hex sampleSeed_def sampleFair_def)

lemma sampleFairEnv_now [simp]: "fv_now (sampleFairEnv t) = t"
  by (simp add: sampleFairEnv_def)

lemma sampleFairEnv_ok [simp]: "0 \<le> t \<Longrightarrow> t < 2 ^ 53 \<Longrightarrow> fairEnv sampleHash (sampleFairEnv t)"
  by (simp add: fairEnv_def sampleFairEnv_def)

lemma sample_reveal:
  "revealFairnessSeed (sampleFairEnv 70000) 0 (Some 60) sampleFair =
     Inr (Some \<lparr>fr_epoch = 0, fr_epochSeconds = 60, fr_commitHash = ''0407'', fr_seed = ''5eed'', fr_revealedAt = 70000\<rparr>,
          sampleFair\<lparr>fs_seeds := map (\<lambda>r. r\<lparr>sr_revealedAt := Some 70000\<rparr>) (fs_seeds sampleFair)\<rparr>)"
  by (simp add: revealFairnessSeed_def Let_def minute_epochs sampleFairEnv_def sampleFair_def usableSeed_def)

theorem reveal_shows_committed_seed_witness:
  "fe_epoch sampleSeed < currentEpoch (resolveEpochSeconds (Some 60)) 80000 \<and>
   fe_commitHash sampleSeed = hashSeed sampleHash (fe_seed sampleSeed)"
proof -
  have first: "ensureFairnessSeed (sampleFairEnv 1000) (Some 60) (runFair [] emptyFair) = Inr (sampleSeed, sampleFair)"
    by (simp add: runFair_def sample_ensure)
  have later: "revealFairnessSeed (sampleFairEnv 70000) (fe_epoch sampleSeed) (Some 60) (runFair [] sampleFair) =
     Inr (Some \<lparr>fr_epoch = 0, fr_epochSeconds = 60, fr_commitHash = ''0407'', fr_seed = ''5eed'', fr_revealedAt = 70000\<rparr>,
          sampleFair\<lparr>fs_seeds := map (\<lambda>r. r\<lparr>sr_revealedAt := Some 70000\<rparr>) (fs_seeds sampleFair)\<rparr>)"
    by (simp add: runFair_def sample_reveal sampleSeed_def)
  from reveal_shows_committed_seed [OF _ _ _ first later, of sampleHash]
  show ?thesis by (auto dest: spec [of _ 80000])
qed

text \<open>
  The verdict of an audit depends on the epoch and the stored seed alone: it fails for an
  epoch below zero, for one that is not over and for one without a usable seed, each with its
  own code, and it passes otherwise; a commitment never fails to match.
\<close>

theorem audit_verdict:
  assumes "\<forall>c \<in> set cs. fairEnv sha (commandEnv c)" "fairEnv sha env"
    and "\<And>x. sha x \<noteq> []"
    and run: "auditFairnessEpoch env e es (runFair cs emptyFair) = Inr (a, fs')"
  shows "a \<in> set (fs_audits fs') \<and> fa_epoch a = e \<and> (fa_matches a \<longleftrightarrow> fa_failureCode a = None) \<and>
    (\<exists>s. resolveEpochSeconds es = of_int s \<and> fa_epochSeconds a = s \<and>
       fa_failureCode a = (if e < 0 then Some ''invalid_epoch''
         else if fv_now env div (s * 1000) \<le> e then Some ''epoch_not_closed''
         else if (e, s) \<notin> seedKey ` set (fs_seeds (runFair cs emptyFair)) then Some ''seed_missing''
         else None))"
proof -
  have ok: "fairOk sha (runFair cs emptyFair)" using runFair_ok [of sha emptyFair cs] assms(1) by simp
  have "hashSeed sha x \<noteq> []" for x using assms(3) [of x] by (cases "sha x") (simp_all add: hashSeed_def toHex_def)
  then have "sr_commitHash r \<noteq> []" if "r \<in> set (fs_seeds (runFair cs emptyFair))" for r
    using ok that by (auto simp: fairOk_def seedOk_def)
  with auditFairnessEpoch_ok [OF ok assms(2) run] show ?thesis by auto
qed

theorem audit_verdict_witness:
  "\<exists>a fs'. auditFairnessEpoch (sampleFairEnv 130000) 1 (Some 60) (runFair [Fc_ensure (sampleFairEnv 1000) (Some 60)] emptyFair) =
     Inr (a, fs') \<and> fa_failureCode a = Some ''seed_missing'' \<and> \<not> fa_matches a"
proof -
  let ?fs = "runFair [Fc_ensure (sampleFairEnv 1000) (Some 60)] emptyFair"
  have fs: "?fs = sampleFair" by (simp add: runFair_def sample_ensure resultStore_def)
  have "\<exists>a fs'. auditFairnessEpoch (sampleFairEnv 130000) 1 (Some 60) sampleFair = Inr (a, fs')"
    by (simp add: auditFairnessEpoch_def Let_def minute_epochs sampleFairEnv_def sampleFair_def usableSeed_def)
  then obtain a fs' where run: "auditFairnessEpoch (sampleFairEnv 130000) 1 (Some 60) ?fs = Inr (a, fs')"
    unfolding fs by blast
  have "fa_failureCode a = Some ''seed_missing'' \<and> \<not> fa_matches a"
    using audit_verdict [OF _ _ _ run, of sampleHash]
    by (simp add: fs sampleHash_def sampleFair_def seedKey_def minute_epochs)
  with run show ?thesis by blast
qed

text \<open>
  C19. The streak of an audit summary, counted page by page from the database, is exact: the
  latest audited epoch and the ones before it have passing audits, as many as it says, and the
  epoch before those has none.
\<close>

theorem streak_counts_verified_epochs:
  assumes "\<forall>c \<in> set cs. fairEnv sha (commandEnv c)" and fs: "fs = runFair cs emptyFair"
    and "getFairnessAuditSummary es fs = Inr sm" and "as_latestAuditedEpoch sm = Some upTo"
  shows "\<exists>s. resolveEpochSeconds es = of_int s \<and>
    (let passed = (\<lambda>e. \<exists>a \<in> set (fs_audits fs). fa_epoch a = e \<and> fa_epochSeconds a = s \<and> fa_matches a);
         n = as_consecutiveVerifiedEpochs sm
     in (\<forall>a \<in> set (fs_audits fs). fa_epochSeconds a = s \<longrightarrow> fa_epoch a \<le> upTo) \<and>
        as_lastAuditPassed sm = Some (passed upTo) \<and>
        (\<forall>k < n. passed (upTo - int k)) \<and> \<not> passed (upTo - int n))"
proof -
  have ok: "fairOk sha fs" using runFair_ok [of sha emptyFair cs] assms(1) fs by simp
  from assms(3) obtain s where s: "resolveEpochSeconds es = of_int s"
    and summary: "(case auditsDesc s fs of [] \<Rightarrow> Inr EMPTY_AUDIT_SUMMARY
      | latest # _ \<Rightarrow> Inr (buildAuditSummary (Some latest)
          (if fa_matches latest then countConsecutiveVerifiedEpochs s fs else emptyStreak)
          (resolveEpochSeconds es))) = (Inr sm :: audit_summary res)"
    by (auto simp: getFairnessAuditSummary_def Let_def bind_res_Inr_iff dbInteger_Inr)
  from summary assms(4) obtain latest as where rows: "auditsDesc s fs = latest # as"
    by (cases "auditsDesc s fs") (auto simp: EMPTY_AUDIT_SUMMARY_def)
  with summary have sm: "sm = buildAuditSummary (Some latest)
      (if fa_matches latest then countConsecutiveVerifiedEpochs s fs else emptyStreak) (of_int s)"
    using s by simp
  have upTo: "fa_epoch latest = upTo" using assms(4) sm by (simp add: buildAuditSummary_def)
  have desc: "descending (auditsDesc s fs)"
    using ok auditsDesc_descending by (simp add: fairOk_def auditKey_def [abs_def])
  have rowset: "set (auditsDesc s fs) = {a \<in> set (fs_audits fs). fa_epochSeconds a = s}"
    by (auto simp: auditsDesc_def)
  have max: "\<forall>a \<in> set (auditsDesc s fs). fa_epoch a \<le> upTo" using auditsDesc_hd_max [OF desc rows] upTo by simp
  note meaning = verifiedRun_meaning [OF desc max]
  have "verifiedRun upTo (auditsDesc s fs) = as_consecutiveVerifiedEpochs sm"
  proof (cases "fa_matches latest")
    case True
    then show ?thesis using countConsecutive_run [OF ok rows True] upTo by (simp add: sm buildAuditSummary_def)
  next
    case False
    then show ?thesis by (simp add: sm buildAuditSummary_def emptyStreak_def rows)
  qed
  with meaning have n: "(\<forall>k < as_consecutiveVerifiedEpochs sm. \<exists>a \<in> set (auditsDesc s fs). fa_epoch a = upTo - int k \<and> fa_matches a) \<and>
    (\<forall>a \<in> set (auditsDesc s fs). fa_epoch a = upTo - int (as_consecutiveVerifiedEpochs sm) \<longrightarrow> \<not> fa_matches a)" by simp
  have "fa_matches latest = (\<exists>a \<in> set (auditsDesc s fs). fa_epoch a = upTo \<and> fa_matches a)"
    using desc upTo unfolding rows by auto
  then have "as_lastAuditPassed sm = Some (\<exists>a \<in> set (auditsDesc s fs). fa_epoch a = upTo \<and> fa_matches a)"
    by (simp add: sm buildAuditSummary_def)
  moreover have "(\<exists>a \<in> set (auditsDesc s fs). fa_epoch a = e \<and> fa_matches a) =
      (\<exists>a \<in> set (fs_audits fs). fa_epoch a = e \<and> fa_epochSeconds a = s \<and> fa_matches a)" for e
    by (auto simp: rowset)
  ultimately show ?thesis
    using n max by (intro exI [of _ s] conjI s) (auto simp: Let_def rowset)
qed

text \<open>Epochs 0 and 1 have seeds and pass; epoch 2 has none, so the streak is cut there.\<close>

definition sampleAudits :: "fair_command list" where
  "sampleAudits = [Fc_ensure (sampleFairEnv 1000) (Some 60), Fc_ensure (sampleFairEnv 61000) (Some 60),
     Fc_audit (sampleFairEnv 190000) 0 (Some 60), Fc_audit (sampleFairEnv 190000) 1 (Some 60)]"

theorem streak_counts_verified_epochs_witness:
  "\<exists>sm. getFairnessAuditSummary (Some 60) (runFair sampleAudits emptyFair) = Inr sm \<and>
     as_consecutiveVerifiedEpochs sm = 2 \<and> as_lastAuditPassed sm = Some True"
proof -
  let ?fs = "runFair sampleAudits emptyFair"
  let ?latest = "\<lparr>fa_epoch = 1, fa_epochSeconds = 60, fa_commitHash = Some ''0407'', fa_computedHash = Some ''0407'',
    fa_matches = True, fa_failureCode = None, fa_revealedAt = Some 190000, fa_auditedAt = 190000\<rparr>"
  have fs: "fs_audits ?fs = [?latest\<lparr>fa_epoch := 0\<rparr>, ?latest]"
    by (simp add: runFair_def sampleAudits_def resultStore_def ensureFairnessSeed_def auditFairnessEpoch_def
        revealFairnessSeed_def Let_def minute_epochs sampleFairEnv_def emptyFair_def usableSeed_def
        insertFairnessSeed_def sampleHash_hex upsertFairnessAudit_def verifyFairnessSeed_def)
  have rows: "auditsDesc 60 ?fs = [?latest, ?latest\<lparr>fa_epoch := 0\<rparr>]" by (simp add: auditsDesc_def fs)
  have envs: "\<forall>c \<in> set sampleAudits. fairEnv sampleHash (commandEnv c)" by (simp add: sampleAudits_def)
  then have ok: "fairOk sampleHash ?fs" using runFair_ok [of sampleHash emptyFair sampleAudits] by simp
  have "dbInteger 60 = Inr 60" using dbInteger_Inr [of 60 60] by simp
  then obtain sm where sm: "getFairnessAuditSummary (Some 60) ?fs = Inr sm"
    "as_latestAuditedEpoch sm = Some 1" "as_consecutiveVerifiedEpochs sm = 2"
    using countConsecutive_run(1) [OF ok rows]
    by (simp add: getFairnessAuditSummary_def minute_epochs rows buildAuditSummary_def)
  from streak_counts_verified_epochs [OF envs refl sm(1,2)] obtain s where
    "as_lastAuditPassed sm = Some (\<exists>a \<in> set (fs_audits ?fs). fa_epoch a = 1 \<and> fa_epochSeconds a = s \<and> fa_matches a)"
    "\<forall>k < 2. \<exists>a \<in> set (fs_audits ?fs). fa_epoch a = 1 - int k \<and> fa_epochSeconds a = s \<and> fa_matches a"
    by (auto simp: Let_def sm(3))
  moreover from spec [OF this(2), of 0]
  have "\<exists>a \<in> set (fs_audits ?fs). fa_epoch a = 1 \<and> fa_epochSeconds a = s \<and> fa_matches a" by simp
  ultimately have "as_lastAuditPassed sm = Some True" by simp
  with sm show ?thesis by blast
qed

end
