(* ===== verification/Draw_Safety.thy ===== *)
theory Draw_Safety
  imports Draw_Steps Fairness_Safety
begin

text \<open>
  What a single draw promises: where its money goes, when it wins, what limits its payout, why
  it is refused, and that it never disturbs the agreement of a wallet with its ledger.
\<close>

subsection \<open>A small world\<close>

text \<open>
  A small world for the witnesses: one prize that every pick chooses, a player with 50.00, a
  pool of 100.00, one-minute epochs and draws at 10.00.
\<close>

lemma dbl_small [simp]: "dbl 0 = 0" "dbl 1 = 1" "numeral k < (9007199254740992 :: int) \<Longrightarrow> dbl (numeral k) = numeral k"
  using dbl_int [of 0] dbl_int [of 1] dbl_int [of "numeral k"] by simp_all

definition sampleCandidate :: candidate where
  "sampleCandidate = \<lparr>ca_id = 7, ca_weight = 1, ca_rewardAmount = 500, ca_poolThreshold = 0, ca_userPoolThreshold = 0\<rparr>"

definition samplePrize :: prize where
  "samplePrize = \<lparr>pz_id = 7, pz_name = ''mug'', pz_stock = 3, pz_weight = 1, pz_rewardAmount = 500,
     pz_isActive = True, pz_deleted = False, pz_poolThreshold = 0, pz_userPoolThreshold = 0,
     pz_payoutBudget = 800, pz_payoutSpent = 0, pz_payoutPeriodDays = 1, pz_payoutPeriodStartedAt = Some 0\<rparr>"

definition sampleSystem :: draw_system where
  "sampleSystem = \<lparr>sy_drawEnabled = True, sy_minDrawCost = 0, sy_maxDrawCost = 0, sy_maxDrawPerRequest = 10,
     sy_maxDrawPerDay = 0, sy_cooldownSeconds = 0\<rparr>"

definition sampleDrawConfig :: draw_config where
  "sampleDrawConfig = \<lparr>dc_drawSystem = sampleSystem, dc_houseBankroll = 0,
     dc_poolSystem = \<lparr>py_minReserve = 0, py_maxPayoutRatio = 0, py_noiseEnabled = False, py_noiseMin = 0,
       py_noiseMax = 0, py_epochSeconds = 60\<rparr>,
     dc_payoutControl = \<lparr>pc_maxBigPerHour = 5, pc_maxBigPerDay = 0, pc_maxTotalPerHour = 700, pc_cooldownSeconds = 0\<rparr>,
     dc_probabilityControl = \<lparr>pb_weightJitterEnabled = False, pb_jitterMin = 0, pb_jitterMax = 0,
       pb_probabilityScale = 1, pb_jackpotProbabilityBoost = 0, pb_pityEnabled = False, pb_pityThreshold = 0,
       pb_pityBoostPct = 0, pb_pityMaxBoostPct = 0\<rparr>,
     dc_randomJitterEnabled = False, dc_randomJitterPct = 0, dc_drawCost = 1000\<rparr>"

definition sampleDrawEnv :: "int \<Rightarrow> draw_env" where
  "sampleDrawEnv t = \<lparr>dv_now = t, dv_startOfDay = 0, dv_transactionStart = 1000 * t, dv_fair = sampleFairEnv t,
     dv_serverNonce = ''n'', dv_noiseDrawn = 0, dv_jitterDrawn = (\<lambda>_. 0), dv_candidates = [sampleCandidate],
     dv_kyc = (\<lambda>_ _. None), dv_newId = nat t\<rparr>"

definition sampleOptions :: draw_options where
  "sampleOptions = \<lparr>do_clientNonce = Some ''lucky'', do_playMode = None\<rparr>"

definition sampleDrawWorld :: draw_world where
  "sampleDrawWorld = \<lparr>dw_users = [1 \<mapsto> \<lparr>du_userPoolBalance = 0, du_pityStreak = 2, du_lastDrawAt = None, du_lastWinAt = None\<rparr>],
     dw_wallets = [1 \<mapsto> zeroWallet\<lparr>wl_withdrawable := 5000\<rparr>],
     dw_ledger = [\<lparr>le_userId = 1, le_entryType = ''deposit_credit'', le_amount = 5000, le_balanceBefore = 0,
       le_balanceAfter = 5000, le_referenceId = None, le_unlockRatio = 0, le_balanceType = None,
       le_lockedBalanceBefore = 0, le_lockedBalanceAfter = 0\<rparr>],
     dw_prizePool = 10000, dw_houseLines = [], dw_prizes = [samplePrize], dw_draws = [], dw_fair = emptyFair,
     dw_economy = \<lparr>ec_balances = Map.empty, ec_lines = [], ec_energy = Map.empty, ec_gifts = []\<rparr>\<rparr>"

lemma sample_prizesOk [simp]: "prizesOk sampleDrawWorld"
  by (simp add: prizesOk_def sampleDrawWorld_def samplePrize_def)

lemma sample_selection:
  "let sel = prepareDrawSelection (sampleDrawEnv t) sampleDrawConfig pool cost streak sd nonce
   in pr_selection sel = Some (Prize_item sampleCandidate, 1, 1) \<and> pr_effectivePoolBalance sel = of_int pool \<and>
      pr_poolBalance sel = pool \<and> pr_maxReward sel = 500"
proof -
  have add: "numAdd 0 1 = 1" "numAdd 1 0 = 1" by (simp_all add: numAdd_exact)
  have round: "jsRound 1 = 1" using jsRound_int [of 1] by simp
  have eligible: "scaledEligible (dc_probabilityControl sampleDrawConfig) [sampleCandidate] = [sampleCandidate]"
    by (simp add: scaledEligible_def Let_def scaledWeight_def normalizedScale_def normalizePct_def
        sampleDrawConfig_def sampleCandidate_def round)
  have max: "maxRewardOf [sampleCandidate] = 500" by (simp add: maxRewardOf_def sampleCandidate_def)
  have pick: "pickByWeight itemWeight (\<lambda>t. fst (deriveRandomPick sha t sd nonce)) [Prize_item sampleCandidate] =
      Some (Prize_item sampleCandidate, 1, 1)" for sha
    by (simp add: pickByWeight_def totalOf_def add sampleCandidate_def deriveRandomPick_def Let_def)
  let ?sel = "prepareDrawSelection (sampleDrawEnv t) sampleDrawConfig pool cost streak sd nonce"
  have cfg: "\<not> pb_weightJitterEnabled (dc_probabilityControl sampleDrawConfig)" "\<not> dc_randomJitterEnabled sampleDrawConfig"
    "\<not> 0 < py_maxPayoutRatio (dc_poolSystem sampleDrawConfig)" "\<not> py_noiseEnabled (dc_poolSystem sampleDrawConfig)"
    by (simp_all add: sampleDrawConfig_def)
  have cands: "dv_candidates (sampleDrawEnv t) = [sampleCandidate]" by (simp add: sampleDrawEnv_def)
  have "pr_selection ?sel = Some (Prize_item sampleCandidate, 1, 1)"
    unfolding plain_selection [OF cfg(1-3)] cands eligible using pick by simp
  moreover have "pr_effectivePoolBalance ?sel = of_int pool" "pr_poolBalance ?sel = pool" "pr_maxReward ?sel = 500"
    unfolding prepared_parts cands using cfg(4) max by (simp_all add: applyPoolNoise_def)
  ultimately show ?thesis by (simp only: Let_def simp_thms)
qed

lemma sample_payable:
  assumes "\<And>since. wonSince since w = []" and "dw_prizes w = [samplePrize]" and "0 \<le> up" and "0 \<le> pool"
  shows "resolvePayoutPolicy (sampleDrawEnv t) sampleDrawConfig uid
      (prepareDrawSelection (sampleDrawEnv t) sampleDrawConfig pool cost streak sd nonce) cost up w =
    Winning_plan samplePrize 500 (evaluateBudget samplePrize t)"
proof -
  note sel = sample_selection [of t pool cost streak sd nonce, unfolded Let_def]
  have limit: "resolvePayoutLimitReason (sampleDrawEnv t) uid 500 500 (dc_payoutControl sampleDrawConfig) w = None"
    using assms(1) by (simp add: resolvePayoutLimitReason_def bigPrizeLimit_def sampleDrawEnv_def sampleDrawConfig_def)
  have "bv_available (evaluateBudget samplePrize t)" by (simp add: evaluateBudget_def samplePrize_def Let_def)
  moreover have "of_int pool \<ge> (0 :: rat)" using assms(4) by simp
  ultimately show ?thesis
    using sel assms(2,3) limit
    by (simp add: resolvePayoutPolicy_def loadLockedPrize_def lockedPrizePolicy_def Let_def sampleDrawEnv_def)
      (simp add: samplePrize_def sampleCandidate_def sampleDrawConfig_def)
qed

lemma sample_cost [simp]: "drawCostOf sampleDrawConfig = 1000"
  by (simp add: drawCostOf_def resolveEffectiveDrawCost_def sampleSystem_def sampleDrawConfig_def)

lemma sample_draw:
  obtains r w' where "executeDrawInTransaction (sampleDrawEnv 1000) sampleDrawConfig False opts 1 sampleDrawWorld = Inr (r, w')"
    "rd_status r = D_won" "rd_prizeId r = Some 7" "rd_rewardAmount r = 500" "rd_drawCost r = 1000"
proof -
  let ?run = "executeDrawInTransaction (sampleDrawEnv 1000) sampleDrawConfig False opts 1 sampleDrawWorld"
  have "enforceDrawGuards (sampleDrawEnv 1000) 1 (dc_drawSystem sampleDrawConfig) w = Inr ()" for w
    by (simp add: enforceDrawGuards_def sampleSystem_def Let_def sampleDrawConfig_def)
  moreover have "ensureFairnessSeed (dv_fair (sampleDrawEnv 1000))
      (Some (dbl (py_epochSeconds (dc_poolSystem sampleDrawConfig)))) (dw_fair sampleDrawWorld) = Inr (sampleSeed, sampleFair)"
    using sample_ensure by (simp add: sampleDrawEnv_def sampleDrawConfig_def sampleDrawWorld_def)
  ultimately have "drawRefusal (sampleDrawEnv 1000) sampleDrawConfig False 1 sampleDrawWorld = None"
    by (simp add: drawRefusal_def walletRow_def) (simp add: sampleDrawWorld_def sampleDrawEnv_def)
  then obtain r w' where run: "?run = Inr (r, w')" using executeDraw_refusal(2) by fastforce
  from draw_facts [OF this sample_prizesOk] obtain u sd sel where
    F: "drawFacts (sampleDrawEnv 1000) sampleDrawConfig False opts 1 sampleDrawWorld r w' u sd sel" .
  note F = drawFactsD [OF F]
  have u: "0 \<le> du_userPoolBalance u" using F(1) by (auto simp: sampleDrawWorld_def)
  have chosen: "pr_selection sel = Some (Prize_item sampleCandidate, 1, 1)"
    using F(6) sample_selection by (simp add: Let_def)
  have locked: "loadLockedPrize (ca_id sampleCandidate) sampleDrawWorld = Some samplePrize"
    by (simp add: loadLockedPrize_def sampleDrawWorld_def sampleCandidate_def samplePrize_def)
  have "resolvePayoutPolicy (sampleDrawEnv 1000) sampleDrawConfig 1 sel 1000 (du_userPoolBalance u + 1000) sampleDrawWorld =
      Winning_plan samplePrize 500 (evaluateBudget samplePrize 1000)"
    unfolding F(6) sample_cost by (rule sample_payable) (use u in \<open>simp_all add: wonSince_def sampleDrawWorld_def\<close>)
  from resolvePayoutPolicy_Winning [OF this]
  have "payable (sampleDrawEnv 1000) sampleDrawConfig 1 sel 1000 (du_userPoolBalance u + 1000) samplePrize sampleDrawWorld" by metis
  with F(16) chosen locked obtain p where won: "rd_status r = D_won"
    and p: "paidPrize (sampleDrawEnv 1000) sampleDrawConfig 1 sel (du_userPoolBalance u + 1000) sampleDrawWorld r w' p"
    by (auto simp: notPayable_def)
  have "p = samplePrize" using p by (auto simp: paidPrize_def sampleDrawWorld_def)
  with p have "rd_prizeId r = Some 7" "rd_rewardAmount r = 500" by (simp_all add: paidPrize_def samplePrize_def)
  with that [OF run won] F(13) show ?thesis by simp
qed

subsection \<open>Accounts\<close>

lemma creditedEconomy_balances:
  assumes "creditedEconomy uid i amt ec ec'"
  shows "available_balance (balanceOf uid B_LUCK ec') = available_balance (balanceOf uid B_LUCK ec) + max amt 0"
    and "\<And>v a. v \<noteq> uid \<or> a \<noteq> B_LUCK \<Longrightarrow> balanceOf v a ec' = balanceOf v a ec"
proof -
  have "available_balance (balanceOf uid B_LUCK ec') = available_balance (balanceOf uid B_LUCK ec) + max amt 0 \<and>
      (\<forall>v a. v \<noteq> uid \<or> a \<noteq> B_LUCK \<longrightarrow> balanceOf v a ec' = balanceOf v a ec)"
  proof (cases "amt \<le> 0")
    case True
    with assms show ?thesis by (simp add: creditedEconomy_def)
  next
    case False
    with assms show ?thesis
      by (auto simp: creditedEconomy_def creditAsset_def applyAssetLedgerMutation_def Let_def
          findIdempotentLedgerEntry_def bind_res_Inr_iff creditCompute_def asset_simps)
  qed
  then show "available_balance (balanceOf uid B_LUCK ec') = available_balance (balanceOf uid B_LUCK ec) + max amt 0"
    "\<And>v a. v \<noteq> uid \<or> a \<noteq> B_LUCK \<Longrightarrow> balanceOf v a ec' = balanceOf v a ec"
    by blast+
qed

subsection \<open>The ledger of the wallet\<close>

lemma drawCostEntry_effects:
  "sqlWithdrawable (drawCostEntry uid c b a) = - c" "sqlWagered (drawCostEntry uid c b a) = c"
  "sqlBonus (drawCostEntry uid c b a) = 0" "sqlLocked (drawCostEntry uid c b a) = 0"
  by (simp_all add: drawCostEntry_def sqlWithdrawable_def sqlWagered_def sqlBonus_def sqlLocked_def entry_types)

lemma drawCost_no_drift:
  assumes "\<not> walletDrifts uid wl ledger"
  shows "\<not> walletDrifts uid (wl\<lparr>wl_withdrawable := wl_withdrawable wl - c, wl_wagered := wl_wagered wl + c\<rparr>)
    (ledger @ [drawCostEntry uid c b a])"
proof -
  have own: "le_userId (drawCostEntry uid c b a) = uid" by (simp add: drawCostEntry_def)
  have known: "le_entryType (drawCostEntry uid c b a) \<in> set KNOWN_USER_LEDGER_ENTRY_TYPES"
    by (simp add: drawCostEntry_def KNOWN_USER_LEDGER_ENTRY_TYPES_def)
  have wl: "wl = expectedWallet uid ledger" and types: "unknownEntryTypes uid ledger = []"
    using assms by (auto simp: walletDrifts_def)
  have "unknownEntryTypes uid (ledger @ [drawCostEntry uid c b a]) = []"
    using types known own by (simp add: unknownEntryTypes_def)
  moreover have "expectedWallet uid (ledger @ [drawCostEntry uid c b a]) =
      (expectedWallet uid ledger)\<lparr>wl_withdrawable := wl_withdrawable (expectedWallet uid ledger) - c,
        wl_wagered := wl_wagered (expectedWallet uid ledger) + c\<rparr>"
    by (simp add: expectedWallet_def Let_def own drawCostEntry_effects)
  ultimately show ?thesis using wl by (simp add: walletDrifts_def)
qed

lemma other_no_drift:
  "v \<noteq> uid \<Longrightarrow> walletDrifts v wl (ledger @ [drawCostEntry uid c b a]) = walletDrifts v wl ledger"
  by (simp add: walletDrifts_def expectedWallet_def unknownEntryTypes_def drawCostEntry_def)

lemma executeDraw_Inr:
  "executeDraw strict env cfg opts uid w = Inr (r, w') \<longleftrightarrow>
     executeDrawInTransaction env cfg False opts uid w = Inr (r, w') \<and> assertDrawWallet strict uid w' = Inr ()"
  by (auto simp: executeDraw_def bind_res_Inr_iff)

lemma walletRow_after:
  "dw_wallets w' = (dw_wallets w)(uid \<mapsto> wl) \<Longrightarrow> walletRow v w' = (if v = uid then wl else walletRow v w)"
  by (simp add: walletRow_def)

text \<open>
  C7. A draw moves whole amounts and loses none: its cost goes from the wallet, which is never
  overdrawn, to the prize pool, and a reward from the pool to the player's asset account; the
  wagered amount grows by the cost and nobody else's wallet, draw state or assets change.  The
  pool itself may go below zero, and the record of the draw then shows it as zero.
\<close>

theorem draw_moves_money:
  assumes "executeDraw strict env cfg opts uid w = Inr (r, w')" and "prizesOk w"
  shows "let c = rd_drawCost r; p = rd_rewardAmount r; before = walletRow uid w; after = walletRow uid w'
    in c = resolveEffectiveDrawCost (dc_drawCost cfg) (dc_drawSystem cfg) \<and>
       wl_withdrawable after = wl_withdrawable before - c \<and> 0 \<le> wl_withdrawable after \<and>
       wl_wagered after = wl_wagered before + c \<and>
       dw_prizePool w' = dw_prizePool w + c - p \<and>
       available_balance (balanceOf uid B_LUCK (dw_economy w')) =
         available_balance (balanceOf uid B_LUCK (dw_economy w)) + p \<and>
       0 \<le> p \<and> (p \<noteq> 0 \<longrightarrow> rd_status r = D_won) \<and>
       dm_poolBalanceAfter (rd_metadata r) = max (dw_prizePool w') 0 \<and>
       (\<forall>v. v \<noteq> uid \<longrightarrow> walletRow v w' = walletRow v w \<and> dw_users w' v = dw_users w v \<and>
          (\<forall>a. balanceOf v a (dw_economy w') = balanceOf v a (dw_economy w)))"
proof -
  from assms(1) have run: "executeDrawInTransaction env cfg False opts uid w = Inr (r, w')"
    by (simp add: executeDraw_Inr)
  from draw_facts [OF run assms(2)] obtain u sd sel where "drawFacts env cfg False opts uid w r w' u sd sel" .
  note F = drawFactsD [OF this]
  note row = walletRow_after [OF F(7)]
  have shown: "dm_poolBalanceAfter (rd_metadata r) = max (dw_prizePool w') 0"
    using F(15) by (auto simp: buildDrawRecordMetadata_def computeUpdatedPoolBalance_def F(6,9) prepareDrawSelection_def Let_def)
  have economy: "available_balance (balanceOf uid B_LUCK (dw_economy w')) =
      available_balance (balanceOf uid B_LUCK (dw_economy w)) + rd_rewardAmount r \<and> 0 \<le> rd_rewardAmount r \<and>
      (rd_rewardAmount r \<noteq> 0 \<longrightarrow> rd_status r = D_won) \<and>
      (\<forall>v a. v \<noteq> uid \<longrightarrow> balanceOf v a (dw_economy w') = balanceOf v a (dw_economy w))"
    using F(16)
  proof (elim disjE conjE exE)
    assume "refusedDraw w r w'"
    then show ?thesis by (simp add: refusedDraw_def)
  next
    fix p assume won: "rd_status r = D_won" and p: "paidPrize env cfg uid sel (du_userPoolBalance u + drawCostOf cfg) w r w' p"
    then have "0 \<le> rd_rewardAmount r" using assms(2) by (auto simp: paidPrize_def prizesOk_def)
    with won p creditedEconomy_balances [of uid "pz_id p" "pz_rewardAmount p" "dw_economy w" "dw_economy w'"]
    show ?thesis by (simp add: paidPrize_def)
  qed
  show ?thesis
    unfolding Let_def F(13) row drawCostOf_def [symmetric]
    using F(2,11) shown economy by (auto simp: F(9))
qed

subsection \<open>The invariant of the wallet\<close>

text \<open>Every wallet agrees with its ledger; a user without a wallet has no lines.\<close>

definition walletsAgree :: "draw_world \<Rightarrow> bool" where
  "walletsAgree w = (\<forall>v. \<not> walletDrifts v (walletRow v w) (dw_ledger w))"

lemma draw_keeps_wallets:
  assumes "executeDrawInTransaction env cfg skip opts uid w = Inr (r, w')" and "prizesOk w" and "walletsAgree w"
  shows "walletsAgree w'"
proof -
  from draw_facts [OF assms(1,2)] obtain u sd sel where "drawFacts env cfg skip opts uid w r w' u sd sel" .
  note F = drawFactsD [OF this]
  show ?thesis
    using assms(3) drawCost_no_drift other_no_drift
    unfolding walletsAgree_def walletRow_after [OF F(7)] F(8) by simp
qed

lemma assertDrawWallet_ok: "walletsAgree w \<Longrightarrow> assertDrawWallet strict uid w = Inr ()"
  by (cases "dw_wallets w uid")
    (auto simp: assertDrawWallet_def assertWalletLedgerInvariant_def walletsAgree_def walletRow_def dest: spec [of _ uid])

lemma sample_walletsAgree [simp]: "walletsAgree sampleDrawWorld"
  by (auto simp: walletsAgree_def walletRow_def sampleDrawWorld_def walletDrifts_def expectedWallet_def
      unknownEntryTypes_def KNOWN_USER_LEDGER_ENTRY_TYPES_def sqlWithdrawable_def sqlBonus_def sqlLocked_def
      sqlWagered_def entry_types zeroWallet_def)

lemma sample_executeDraw:
  obtains r w' where "executeDraw True (sampleDrawEnv 1000) sampleDrawConfig sampleOptions 1 sampleDrawWorld = Inr (r, w')"
    "executeDrawInTransaction (sampleDrawEnv 1000) sampleDrawConfig False sampleOptions 1 sampleDrawWorld = Inr (r, w')"
    "rd_status r = D_won" "rd_prizeId r = Some 7" "rd_rewardAmount r = 500" "rd_drawCost r = 1000"
proof (rule sample_draw [of sampleOptions])
  fix r w'
  assume run: "executeDrawInTransaction (sampleDrawEnv 1000) sampleDrawConfig False sampleOptions 1 sampleDrawWorld = Inr (r, w')"
    and r: "rd_status r = D_won" "rd_prizeId r = Some 7" "rd_rewardAmount r = 500" "rd_drawCost r = 1000"
  from draw_keeps_wallets [OF run] have "walletsAgree w'" by simp
  then have "executeDraw True (sampleDrawEnv 1000) sampleDrawConfig sampleOptions 1 sampleDrawWorld = Inr (r, w')"
    using run assertDrawWallet_ok by (simp add: executeDraw_Inr)
  from that [OF this run r] show thesis .
qed

theorem draw_moves_money_witness:
  "\<exists>r w'. executeDraw True (sampleDrawEnv 1000) sampleDrawConfig sampleOptions 1 sampleDrawWorld = Inr (r, w') \<and>
     wl_withdrawable (walletRow 1 w') = 4000 \<and> dw_prizePool w' = 10500 \<and>
     available_balance (balanceOf 1 B_LUCK (dw_economy w')) = 500"
proof (rule sample_executeDraw)
  fix r w'
  assume run: "executeDraw True (sampleDrawEnv 1000) sampleDrawConfig sampleOptions 1 sampleDrawWorld = Inr (r, w')"
    and r: "rd_rewardAmount r = 500" "rd_drawCost r = 1000"
  have before: "wl_withdrawable (walletRow 1 sampleDrawWorld) = 5000" "dw_prizePool sampleDrawWorld = 10000"
    "available_balance (balanceOf 1 B_LUCK (dw_economy sampleDrawWorld)) = 0"
    by (simp_all add: walletRow_def sampleDrawWorld_def balanceOf_def zeroBalance_def)
  from draw_moves_money [OF run sample_prizesOk] have
    "wl_withdrawable (walletRow 1 w') = 4000 \<and> dw_prizePool w' = 10500 \<and>
     available_balance (balanceOf 1 B_LUCK (dw_economy w')) = 500"
    unfolding Let_def r before by simp
  with run show ?thesis by blast
qed

text \<open>
  C17. A draw fails only at the door: in the order of the code, for an unknown user, a guard, the
  KYC check, a seed that cannot be had, or a balance below the cost.  Once the cost is taken
  nothing fails any more, in particular no reward is lost and the strict check of the wallet
  against its ledger never strikes.
\<close>

theorem draws_fail_only_at_the_door:
  assumes "prizesOk w" and "walletsAgree w"
  shows "executeDraw strict env cfg opts uid w = Inl e \<longleftrightarrow>
    (if dw_users w uid = None then Some (NotFound ''User not found.'')
     else case enforceDrawGuards env uid (dc_drawSystem cfg) w of
       Inl e' \<Rightarrow> Some e'
     | Inr _ \<Rightarrow>
         (case dv_kyc env uid (resolveEffectiveDrawCost (dc_drawCost cfg) (dc_drawSystem cfg)) of
            Some e' \<Rightarrow> Some e'
          | None \<Rightarrow>
              (case ensureFairnessSeed (dv_fair env) (Some (dbl (py_epochSeconds (dc_poolSystem cfg)))) (dw_fair w) of
                 Inl e' \<Rightarrow> Some e'
               | Inr _ \<Rightarrow>
                   if wl_withdrawable (walletRow uid w) < resolveEffectiveDrawCost (dc_drawCost cfg) (dc_drawSystem cfg)
                   then Some (Conflict ''Insufficient balance.'') else None))) = Some e"
proof -
  have "executeDraw strict env cfg opts uid w = executeDrawInTransaction env cfg False opts uid w"
  proof (cases "executeDrawInTransaction env cfg False opts uid w")
    case (Inr p)
    then have "executeDrawInTransaction env cfg False opts uid w = Inr (fst p, snd p)" by simp
    from draw_keeps_wallets [OF this assms] have "assertDrawWallet strict uid (snd p) = Inr ()"
      by (rule assertDrawWallet_ok)
    with Inr show ?thesis by (simp add: executeDraw_def split_def)
  qed (simp add: executeDraw_def)
  then show ?thesis
    using executeDraw_refusal(1) [of env cfg False opts uid w e]
    unfolding drawRefusal_def drawCostOf_def by simp
qed

theorem draws_fail_only_at_the_door_witness:
  "executeDraw True (sampleDrawEnv 1000) sampleDrawConfig sampleOptions 2 sampleDrawWorld = Inl (NotFound ''User not found.'')"
  unfolding draws_fail_only_at_the_door [OF sample_prizesOk sample_walletsAgree]
  by (simp add: sampleDrawWorld_def)

subsection \<open>Winning\<close>

text \<open>
  C13. A draw wins exactly when the pick falls on a prize whose row, read again under a lock, is
  active, in stock, within its thresholds and its budget, and passes the limits on payouts;
  the reward is the one of that row, not of the cached pool, the stock goes down by one and the
  budget pays the reward.  Any other draw changes no prize and pays nothing.
\<close>

theorem draw_wins_iff_payable:
  assumes "executeDraw strict env cfg opts uid w = Inr (r, w')" and "prizesOk w"
  shows "\<exists>u sd. dw_users w uid = Some u \<and>
    ensureFairnessSeed (dv_fair env) (Some (dbl (py_epochSeconds (dc_poolSystem cfg)))) (dw_fair w) = Inr (sd, dw_fair w') \<and>
    (let c = resolveEffectiveDrawCost (dc_drawCost cfg) (dc_drawSystem cfg);
         sel = prepareDrawSelection env cfg (dw_prizePool w) c (du_pityStreak u) (fe_seed sd)
                 (fst (resolveClientNonce env (do_clientNonce opts)));
         won = (\<lambda>p. \<exists>cand pick t. pr_selection sel = Some (Prize_item cand, pick, t) \<and>
                  loadLockedPrize (ca_id cand) w = Some p \<and> pz_isActive p \<and> 0 < pz_stock p \<and>
                  of_int (pz_poolThreshold p) \<le> pr_effectivePoolBalance sel \<and>
                  pz_userPoolThreshold p \<le> du_userPoolBalance u + c \<and>
                  bv_available (evaluateBudget p (dv_now env)) \<and>
                  (0 < py_minReserve (dc_poolSystem cfg) \<longrightarrow>
                     py_minReserve (dc_poolSystem cfg) \<le> max (dw_prizePool w + c - pz_rewardAmount p) 0) \<and>
                  (0 < dc_houseBankroll cfg \<longrightarrow> pz_rewardAmount p \<le> dc_houseBankroll cfg) \<and>
                  (0 < py_maxPayoutRatio (dc_poolSystem cfg) \<longrightarrow>
                     of_int (pz_rewardAmount p) \<le> decMul (of_int (dw_prizePool w)) (py_maxPayoutRatio (dc_poolSystem cfg))) \<and>
                  resolvePayoutLimitReason env uid (pz_rewardAmount p) (pr_maxReward sel) (dc_payoutControl cfg) w = None)
     in (rd_status r = D_won \<longleftrightarrow> (\<exists>p. won p)) \<and>
        (\<forall>p. won p \<longrightarrow> rd_prizeId r = Some (pz_id p) \<and> rd_rewardAmount r = pz_rewardAmount p \<and>
           dw_prizes w' = map (\<lambda>q. if pz_id q = pz_id p then wonPrize env p else q) (dw_prizes w)) \<and>
        (rd_status r \<noteq> D_won \<longrightarrow> dw_prizes w' = dw_prizes w \<and> dw_economy w' = dw_economy w \<and> rd_rewardAmount r = 0))"
proof -
  from assms(1) have run: "executeDrawInTransaction env cfg False opts uid w = Inr (r, w')"
    by (simp add: executeDraw_Inr)
  from draw_facts [OF run assms(2)] obtain u sd sel where "drawFacts env cfg False opts uid w r w' u sd sel" .
  note F = drawFactsD [OF this]
  let ?c = "drawCostOf cfg" and ?up = "du_userPoolBalance u + drawCostOf cfg"
  have pool: "pr_poolBalance sel = dw_prizePool w" unfolding F(6) by (simp only: prepared_parts)
  define won where "won p \<longleftrightarrow> (\<exists>cand pick t. pr_selection sel = Some (Prize_item cand, pick, t) \<and>
      loadLockedPrize (ca_id cand) w = Some p \<and> payable env cfg uid sel ?c ?up p w)" for p
  have ids: "distinct (map pz_id (dw_prizes w))" using assms(2) by (simp add: prizesOk_def)
  have found: "loadLockedPrize (pz_id p) w = Some p" if "p \<in> set (dw_prizes w)" "\<not> pz_deleted p" for p
  proof -
    from that have "loadLockedPrize (pz_id p) w \<noteq> None"
      by (auto simp: loadLockedPrize_def find_None_iff)
    then obtain q where q: "loadLockedPrize (pz_id p) w = Some q" by blast
    from loadLockedPrize_SomeD [OF q] that ids have "q = p" by (auto simp: distinct_map dest: inj_onD)
    with q show ?thesis by simp
  qed
  have uniq: "p = q" if "won p" "won q" for p q using that by (auto simp: won_def)
  have "(rd_status r = D_won \<longleftrightarrow> (\<exists>p. won p)) \<and>
        (\<forall>p. won p \<longrightarrow> rd_prizeId r = Some (pz_id p) \<and> rd_rewardAmount r = pz_rewardAmount p \<and>
           dw_prizes w' = map (\<lambda>q. if pz_id q = pz_id p then wonPrize env p else q) (dw_prizes w)) \<and>
        (rd_status r \<noteq> D_won \<longrightarrow> dw_prizes w' = dw_prizes w \<and> dw_economy w' = dw_economy w \<and> rd_rewardAmount r = 0)"
    using F(16)
  proof (elim disjE conjE exE)
    assume "rd_status r \<noteq> D_won" "refusedDraw w r w'" "notPayable env cfg uid sel ?c ?up w"
    then show ?thesis by (auto simp: refusedDraw_def notPayable_def won_def)
  next
    fix p assume r: "rd_status r = D_won" and p: "paidPrize env cfg uid sel ?up w r w' p"
    from p have "p \<in> set (dw_prizes w)" "\<not> pz_deleted p" by (simp_all add: paidPrize_def)
    from found [OF this] p have "won p" by (auto simp: paidPrize_def won_def)
    with uniq r p show ?thesis by (auto simp: paidPrize_def)
  qed
  note result = this [unfolded won_def payable_def pool]
  show ?thesis
    by (intro exI [of _ u] exI [of _ sd] conjI F(1) F(5), unfold Let_def drawCostOf_def [symmetric] F(6) [symmetric])
      (rule result)
qed

text \<open>The sample draw wins the mug: one is left less, and the record names it.\<close>

theorem draw_wins_iff_payable_witness:
  "\<exists>r w'. executeDraw True (sampleDrawEnv 1000) sampleDrawConfig sampleOptions 1 sampleDrawWorld = Inr (r, w') \<and>
     rd_status r = D_won \<and> map pz_stock (dw_prizes w') = [2]"
proof (rule sample_executeDraw)
  fix r w'
  assume run: "executeDraw True (sampleDrawEnv 1000) sampleDrawConfig sampleOptions 1 sampleDrawWorld = Inr (r, w')"
    and r: "rd_status r = D_won" "rd_prizeId r = Some 7"
  from draw_wins_iff_payable [OF run sample_prizesOk, unfolded Let_def] r(1) obtain p k where
    locked: "loadLockedPrize k sampleDrawWorld = Some p"
    and after: "dw_prizes w' = map (\<lambda>q. if pz_id q = pz_id p then wonPrize (sampleDrawEnv 1000) p else q) (dw_prizes sampleDrawWorld)"
    by blast
  from locked have "p = samplePrize" by (auto simp: loadLockedPrize_def sampleDrawWorld_def split: if_splits)
  with after have "map pz_stock (dw_prizes w') = [2]"
    by (simp add: sampleDrawWorld_def wonPrize_def Let_def samplePrize_def)
  with run r(1) show ?thesis by (intro exI conjI)
qed

end
