(* ===== verification/Draw_Runs.thy ===== *)
theory Draw_Runs
  imports Draw_Safety
begin

text \<open>
  Runs of draws: single draws, batches and the upkeep of the fairness seeds, in any order and
  each at its own moment.  The books of a run: where the stock, the money and the rewards went.
\<close>

subsection \<open>The books of a run\<close>

definition winsOf :: "nat \<Rightarrow> draw_record list \<Rightarrow> int" where
  "winsOf i rs = int (length (filter (\<lambda>r. rd_prizeId r = Some i) rs))"

definition costsOf :: "nat \<Rightarrow> draw_record list \<Rightarrow> cents" where
  "costsOf uid rs = sum_list (map rd_drawCost (filter (\<lambda>r. rd_userId r = uid) rs))"

definition rewardsOf :: "nat \<Rightarrow> draw_record list \<Rightarrow> cents" where
  "rewardsOf uid rs = sum_list (map rd_rewardAmount (filter (\<lambda>r. rd_userId r = uid) rs))"

text \<open>A row of the prize table before and after some draws.\<close>

definition soldPrize :: "draw_record list \<Rightarrow> prize \<Rightarrow> prize \<Rightarrow> bool" where
  "soldPrize rs p q =
     (pz_id q = pz_id p \<and> pz_rewardAmount q = pz_rewardAmount p \<and> pz_payoutBudget q = pz_payoutBudget p \<and>
      pz_stock q = pz_stock p - winsOf (pz_id p) rs)"

definition drawsAccount :: "draw_world \<Rightarrow> draw_record list \<Rightarrow> draw_world \<Rightarrow> bool" where
  "drawsAccount w rs w' =
     (dw_draws w' = dw_draws w @ rs \<and> list_all2 (soldPrize rs) (dw_prizes w) (dw_prizes w') \<and>
      dw_prizePool w' = dw_prizePool w + sum_list (map rd_drawCost rs) - sum_list (map rd_rewardAmount rs) \<and>
      (\<forall>v. wl_withdrawable (walletRow v w') = wl_withdrawable (walletRow v w) - costsOf v rs \<and>
           wl_wagered (walletRow v w') = wl_wagered (walletRow v w) + costsOf v rs \<and>
           available_balance (balanceOf v B_LUCK (dw_economy w')) =
             available_balance (balanceOf v B_LUCK (dw_economy w)) + rewardsOf v rs) \<and>
      (\<forall>r \<in> set rs. 0 \<le> rd_rewardAmount r \<and>
         (rd_status r = D_won \<longleftrightarrow> rd_prizeId r \<noteq> None) \<and> (rd_status r \<noteq> D_won \<longrightarrow> rd_rewardAmount r = 0) \<and>
         (\<forall>i. rd_prizeId r = Some i \<longrightarrow> (\<exists>p \<in> set (dw_prizes w). pz_id p = i \<and> rd_rewardAmount r = pz_rewardAmount p))))"

lemma books_Nil [simp]: "winsOf i [] = 0" "costsOf v [] = 0" "rewardsOf v [] = 0"
  by (simp_all add: winsOf_def costsOf_def rewardsOf_def)

lemma books_append [simp]:
  "winsOf i (rs @ qs) = winsOf i rs + winsOf i qs" "costsOf v (rs @ qs) = costsOf v rs + costsOf v qs"
  "rewardsOf v (rs @ qs) = rewardsOf v rs + rewardsOf v qs"
  by (simp_all add: winsOf_def costsOf_def rewardsOf_def)

lemma soldPrize_Nil: "list_all2 (soldPrize []) ps ps"
  by (simp add: list_all2_same soldPrize_def)

lemma soldPrize_trans:
  assumes "list_all2 (soldPrize rs) ps qs" and "list_all2 (soldPrize rs') qs us"
  shows "list_all2 (soldPrize (rs @ rs')) ps us"
  by (rule list_all2_trans [OF _ assms]) (simp add: soldPrize_def)

lemma soldPrize_origin:
  assumes "list_all2 (soldPrize rs) ps qs" and "q \<in> set qs"
  shows "\<exists>p \<in> set ps. pz_id p = pz_id q \<and> pz_rewardAmount p = pz_rewardAmount q"
  using assms by (induction rule: list_all2_induct) (auto simp: soldPrize_def)

lemma drawsAccount_refl [simp]: "drawsAccount w [] w"
  by (simp add: drawsAccount_def soldPrize_Nil)

lemma drawsAccount_trans:
  assumes a: "drawsAccount w rs w1" and b: "drawsAccount w1 qs w2"
  shows "drawsAccount w (rs @ qs) w2"
proof -
  from a have sold: "list_all2 (soldPrize rs) (dw_prizes w) (dw_prizes w1)" by (simp add: drawsAccount_def)
  have named: "\<exists>p \<in> set (dw_prizes w). pz_id p = i \<and> x = pz_rewardAmount p"
    if "p \<in> set (dw_prizes w1)" "pz_id p = i" "x = pz_rewardAmount p" for p i x
    using soldPrize_origin [OF sold that(1)] that by auto
  have "list_all2 (soldPrize (rs @ qs)) (dw_prizes w) (dw_prizes w2)"
    using b by (intro soldPrize_trans [OF sold]) (simp add: drawsAccount_def)
  moreover have "\<forall>r \<in> set (rs @ qs). 0 \<le> rd_rewardAmount r \<and>
      (rd_status r = D_won \<longleftrightarrow> rd_prizeId r \<noteq> None) \<and> (rd_status r \<noteq> D_won \<longrightarrow> rd_rewardAmount r = 0) \<and>
      (\<forall>i. rd_prizeId r = Some i \<longrightarrow> (\<exists>p \<in> set (dw_prizes w). pz_id p = i \<and> rd_rewardAmount r = pz_rewardAmount p))"
    using a b named unfolding drawsAccount_def set_append ball_Un by blast
  ultimately show ?thesis using a b by (simp add: drawsAccount_def)
qed

subsection \<open>One draw\<close>

lemma draw_keeps_prizes:
  assumes "executeDrawInTransaction env cfg skip opts uid w = Inr (r, w')" and ok: "prizesOk w"
  shows "prizesOk w'"
proof -
  from draw_facts [OF assms] obtain u sd sel where "drawFacts env cfg skip opts uid w r w' u sd sel" .
  note F = drawFactsD [OF this]
  show ?thesis
    using F(16)
  proof (elim disjE conjE exE)
    assume "refusedDraw w r w'"
    with ok show ?thesis by (simp add: prizesOk_def refusedDraw_def)
  next
    fix p assume "paidPrize env cfg uid sel (du_userPoolBalance u + drawCostOf cfg) w r w' p"
    then have p: "p \<in> set (dw_prizes w)" "0 < pz_stock p" "bv_available (evaluateBudget p (dv_now env))"
      and after: "dw_prizes w' = map (\<lambda>q. if pz_id q = pz_id p then wonPrize env p else q) (dw_prizes w)"
      by (simp_all add: paidPrize_def payable_def)
    have ids: "map pz_id (dw_prizes w') = map pz_id (dw_prizes w)"
      by (simp add: after wonPrize_def Let_def)
    have "0 \<le> pz_rewardAmount (wonPrize env p) \<and> 0 \<le> pz_stock (wonPrize env p)"
      using ok p by (simp add: prizesOk_def wonPrize_def Let_def)
    moreover have "0 < pz_payoutBudget (wonPrize env p) \<longrightarrow> pz_payoutSpent (wonPrize env p) \<le> pz_payoutBudget (wonPrize env p)"
      using p(3) by (auto simp: wonPrize_def Let_def evaluateBudget_def)
    ultimately show ?thesis using ok unfolding prizesOk_def ids by (auto simp: after)
  qed
qed

lemma draw_accounts:
  assumes "executeDrawInTransaction env cfg skip opts uid w = Inr (r, w')" and ok: "prizesOk w"
  shows "drawsAccount w [r] w'"
proof -
  from draw_facts [OF assms] obtain u sd sel where "drawFacts env cfg skip opts uid w r w' u sd sel" .
  note F = drawFactsD [OF this]
  have one: "costsOf v [r] = (if v = uid then drawCostOf cfg else 0)"
    "rewardsOf v [r] = (if v = uid then rd_rewardAmount r else 0)"
    "winsOf i [r] = (if rd_prizeId r = Some i then 1 else 0)" for v i
    by (simp_all add: costsOf_def rewardsOf_def winsOf_def F(12,13))
  have wallets: "wl_withdrawable (walletRow v w') = wl_withdrawable (walletRow v w) - costsOf v [r]"
    "wl_wagered (walletRow v w') = wl_wagered (walletRow v w) + costsOf v [r]" for v
    by (simp_all add: walletRow_after [OF F(7)] one)
  show ?thesis
    using F(16)
  proof (elim disjE conjE exE)
    assume st: "rd_status r \<noteq> D_won" "refusedDraw w r w'"
    then have "soldPrize [r] = soldPrize []" by (intro ext) (simp add: refusedDraw_def soldPrize_def one)
    with st show ?thesis
      using F(9,10,13) wallets soldPrize_Nil [of "dw_prizes w"]
      by (simp add: drawsAccount_def refusedDraw_def one)
  next
    fix p assume st: "rd_status r = D_won" and "paidPrize env cfg uid sel (du_userPoolBalance u + drawCostOf cfg) w r w' p"
    then have r: "rd_prizeId r = Some (pz_id p)" "rd_rewardAmount r = pz_rewardAmount p" and p: "p \<in> set (dw_prizes w)"
      and after: "dw_prizes w' = map (\<lambda>q. if pz_id q = pz_id p then wonPrize env p else q) (dw_prizes w)"
      and paid: "creditedEconomy uid (pz_id p) (pz_rewardAmount p) (dw_economy w) (dw_economy w')"
      by (simp_all add: paidPrize_def)
    have ids: "distinct (map pz_id (dw_prizes w))" and pos: "0 \<le> pz_rewardAmount p"
      using ok p by (simp_all add: prizesOk_def)
    have "soldPrize [r] q (if pz_id q = pz_id p then wonPrize env p else q)" if "q \<in> set (dw_prizes w)" for q
    proof (cases "pz_id q = pz_id p")
      case True
      with that p ids have "q = p" by (auto simp: distinct_map dest: inj_onD)
      then show ?thesis by (simp add: soldPrize_def one r wonPrize_def Let_def)
    qed (use r in \<open>simp add: soldPrize_def one\<close>)
    then have "list_all2 (soldPrize [r]) (dw_prizes w) (dw_prizes w')"
      by (simp add: after list_all2_map2 list_all2_same)
    then show ?thesis
      using F(9,10,13) wallets creditedEconomy_balances [OF paid] pos st r p
      by (auto simp: drawsAccount_def one)
  qed
qed

subsection \<open>Runs\<close>

text \<open>Requests of players, and the upkeep of the seeds; a request that fails is rolled back.\<close>

datatype draw_command =
    Dc_draw draw_env draw_config draw_options nat
  | Dc_batch "nat \<Rightarrow> draw_env" draw_config int "string option" play_snapshot nat
  | Dc_fair fair_command

fun doDraw :: "bool \<Rightarrow> draw_command \<Rightarrow> draw_world \<Rightarrow> draw_world" where
  "doDraw strict (Dc_draw env cfg opts uid) w =
     (case executeDraw strict env cfg opts uid w of Inl _ \<Rightarrow> w | Inr (_, w') \<Rightarrow> w')"
| "doDraw strict (Dc_batch envs cfg n nonce pm uid) w =
     (case executeResolvedDrawPlayInTransaction strict envs cfg n nonce pm uid w of Inl _ \<Rightarrow> w | Inr (_, w') \<Rightarrow> w')"
| "doDraw strict (Dc_fair c) w = w\<lparr>dw_fair := doFair c (dw_fair w)\<rparr>"

definition runDraws :: "bool \<Rightarrow> draw_command list \<Rightarrow> draw_world \<Rightarrow> draw_world" where
  "runDraws strict cs w = fold (doDraw strict) cs w"

definition drawsOk :: "draw_world \<Rightarrow> bool" where
  "drawsOk w = (prizesOk w \<and> walletsAgree w)"

lemma runBatch_accounts:
  assumes "runBatch envs cfg nonce pm n is uid w = Inr (rs, w')" and "drawsOk w"
  shows "drawsAccount w rs w' \<and> drawsOk w' \<and> length rs = length is"
  using assms
proof (induction "is" arbitrary: w rs)
  case Nil
  then show ?case by simp
next
  case (Cons i "is")
  from Cons.prems(1) obtain r w1 rs' where
    one: "executeDrawInTransaction (envs i) cfg False
        \<lparr>do_clientNonce = resolveBatchClientNonce nonce i n, do_playMode = Some pm\<rparr> uid w = Inr (r, w1)"
    and rest: "runBatch envs cfg nonce pm n is uid w1 = Inr (rs', w')" and rs: "rs = r # rs'"
    by (auto simp: bind_res_Inr_iff split_def)
  have ok: "prizesOk w" "walletsAgree w" using Cons.prems(2) by (simp_all add: drawsOk_def)
  with one have "drawsOk w1" unfolding drawsOk_def by (blast intro: draw_keeps_prizes draw_keeps_wallets)
  from Cons.IH [OF rest this] drawsAccount_trans [OF draw_accounts [OF one ok(1)]] show ?case
    by (simp add: rs)
qed

lemma batch_parts:
  assumes "executeResolvedDrawPlayInTransaction strict envs cfg req nonce pm uid w = Inr (res, w')"
  shows "0 < req" and
    "runBatch envs cfg nonce pm (nat (req * resolveExecutionCountMultiplier pm))
       [0..<nat (req * resolveExecutionCountMultiplier pm)] uid w = Inr (dp_records res, w')"
    "req * resolveExecutionCountMultiplier pm \<le> normalizeMaxBatchCount (sy_maxDrawPerRequest (dc_drawSystem cfg))"
    "dp_playMode res = resolveSettledPlayMode pm (classifyDrawPlayModeOutcome (dp_records res))"
    "dp_endingBalance res = wl_withdrawable (walletRow uid w')"
  using assms
  by (auto simp: executeResolvedDrawPlayInTransaction_def Let_def bind_res_Inr_iff walletRow_def zeroWallet_def
      split: if_splits option.splits)

lemma fair_accounts: "drawsAccount w [] (w\<lparr>dw_fair := fs\<rparr>)" "drawsOk (w\<lparr>dw_fair := fs\<rparr>) = drawsOk w"
  by (simp_all add: drawsAccount_def soldPrize_Nil walletRow_def drawsOk_def prizesOk_def walletsAgree_def)

lemma command_accounts:
  assumes "drawsOk w"
  shows "\<exists>rs. drawsAccount w rs (doDraw strict c w) \<and> drawsOk (doDraw strict c w)"
proof (cases c)
  case (Dc_draw env cfg opts uid)
  have ok: "prizesOk w" "walletsAgree w" using assms by (simp_all add: drawsOk_def)
  show ?thesis
  proof (cases "executeDraw strict env cfg opts uid w")
    case (Inr p)
    then have run: "executeDrawInTransaction env cfg False opts uid w = Inr (fst p, snd p)"
      using executeDraw_Inr [of strict env cfg opts uid w "fst p" "snd p"] by simp
    with draw_accounts [OF this ok(1)] draw_keeps_prizes [OF this ok(1)] draw_keeps_wallets [OF this ok] Inr Dc_draw
    show ?thesis by (auto simp: drawsOk_def split_def)
  qed (use assms Dc_draw in \<open>auto intro: exI [of _ "[]"]\<close>)
next
  case (Dc_batch envs cfg n nonce pm uid)
  show ?thesis
  proof (cases "executeResolvedDrawPlayInTransaction strict envs cfg n nonce pm uid w")
    case (Inr p)
    then have run: "executeResolvedDrawPlayInTransaction strict envs cfg n nonce pm uid w = Inr (fst p, snd p)" by simp
    from runBatch_accounts [OF batch_parts(2) [OF this] assms] Inr Dc_batch show ?thesis by (auto simp: split_def)
  qed (use assms Dc_batch in \<open>auto intro: exI [of _ "[]"]\<close>)
next
  case (Dc_fair c)
  with assms fair_accounts show ?thesis by auto
qed

lemma run_accounts:
  assumes "drawsOk w"
  shows "\<exists>rs. drawsAccount w rs (runDraws strict cs w) \<and> drawsOk (runDraws strict cs w)"
  using assms
proof (induction cs arbitrary: w)
  case Nil
  then show ?case by (auto simp: runDraws_def intro: exI [of _ "[]"])
next
  case (Cons c cs)
  from command_accounts [OF Cons.prems] obtain rs where c: "drawsAccount w rs (doDraw strict c w)" "drawsOk (doDraw strict c w)"
    by blast
  from Cons.IH [OF c(2)] obtain qs where "drawsAccount (doDraw strict c w) qs (runDraws strict cs (doDraw strict c w))"
    "drawsOk (runDraws strict cs (doDraw strict c w))" by blast
  with drawsAccount_trans [OF c(1)] show ?case by (auto simp: runDraws_def)
qed

end
