(* ===== verification/Draw_Results.thy ===== *)
theory Draw_Results
  imports Draw_Runs
begin

text \<open>
  What holds of every run of draws: the books balance, the limits on payouts are kept, and a
  draw can be recomputed from its record once the seed of its epoch is revealed.
\<close>

subsection \<open>Seeds in a run\<close>

fun drawCommandEnv :: "hash_function \<Rightarrow> draw_command \<Rightarrow> bool" where
  "drawCommandEnv sha (Dc_draw env cfg opts uid) = fairEnv sha (dv_fair env)"
| "drawCommandEnv sha (Dc_batch envs cfg n nonce pm uid) = (\<forall>i. fairEnv sha (dv_fair (envs i)))"
| "drawCommandEnv sha (Dc_fair c) = fairEnv sha (commandEnv c)"

definition seedsGrow :: "hash_function \<Rightarrow> draw_world \<Rightarrow> draw_world \<Rightarrow> bool" where
  "seedsGrow sha w w' = (fairOk sha (dw_fair w') \<and> keepsSeeds (dw_fair w) (dw_fair w'))"

lemma seedsGrow_trans: "seedsGrow sha a b \<Longrightarrow> seedsGrow sha b c \<Longrightarrow> seedsGrow sha a c"
  using keepsSeeds_trans unfolding seedsGrow_def by blast

lemma draw_seeds:
  assumes "executeDrawInTransaction env cfg skip opts uid w = Inr (r, w')" and "prizesOk w"
    and "fairOk sha (dw_fair w)" and "fairEnv sha (dv_fair env)"
  shows "seedsGrow sha w w'"
proof -
  from draw_facts [OF assms(1,2)] obtain u sd sel where "drawFacts env cfg skip opts uid w r w' u sd sel" .
  from drawFactsD(5) [OF this] ensureFairnessSeed_ok [OF assms(3,4)] show ?thesis by (auto simp: seedsGrow_def)
qed

lemma batch_seeds:
  assumes "runBatch envs cfg nonce pm n is uid w = Inr (rs, w')" and "drawsOk w" and "fairOk sha (dw_fair w)"
    and "\<forall>i. fairEnv sha (dv_fair (envs i))"
  shows "seedsGrow sha w w'"
  using assms(1-3)
proof (induction "is" arbitrary: w rs)
  case Nil
  then show ?case by (simp add: seedsGrow_def)
next
  case (Cons i "is")
  from Cons.prems(1) obtain r w1 rs' where
    one: "executeDrawInTransaction (envs i) cfg False
        \<lparr>do_clientNonce = resolveBatchClientNonce nonce i n, do_playMode = Some pm\<rparr> uid w = Inr (r, w1)"
    and rest: "runBatch envs cfg nonce pm n is uid w1 = Inr (rs', w')"
    by (auto simp: bind_res_Inr_iff split_def)
  have ok: "prizesOk w" "walletsAgree w" using Cons.prems(2) by (simp_all add: drawsOk_def)
  with one have ok1: "drawsOk w1" unfolding drawsOk_def by (blast intro: draw_keeps_prizes draw_keeps_wallets)
  have s1: "seedsGrow sha w w1" using draw_seeds [OF one ok(1) Cons.prems(3)] assms(4) by blast
  then have "fairOk sha (dw_fair w1)" by (simp add: seedsGrow_def)
  from seedsGrow_trans [OF s1 Cons.IH [OF rest ok1 this]] show ?case .
qed

lemma command_seeds:
  assumes "drawsOk w" and "fairOk sha (dw_fair w)" and "drawCommandEnv sha c"
  shows "seedsGrow sha w (doDraw strict c w)"
proof -
  have same: "seedsGrow sha w w" using assms(2) by (simp add: seedsGrow_def)
  have ok: "prizesOk w" using assms(1) by (simp add: drawsOk_def)
  show ?thesis
  proof (cases c)
    case (Dc_draw env cfg opts uid)
    have "seedsGrow sha w (snd p)" if "executeDraw strict env cfg opts uid w = Inr p" for p
      using draw_seeds [OF _ ok assms(2), of env cfg False opts uid "fst p" "snd p"]
        executeDraw_Inr [of strict env cfg opts uid w "fst p" "snd p"] assms(3) Dc_draw that by simp
    with same Dc_draw show ?thesis by (cases "executeDraw strict env cfg opts uid w") (simp_all add: split_def)
  next
    case (Dc_batch envs cfg n nonce pm uid)
    with same assms batch_seeds [OF batch_parts(2) assms(1,2)] show ?thesis
      by (cases "executeResolvedDrawPlayInTransaction strict envs cfg n nonce pm uid w") (auto simp: split_def)
  next
    case (Dc_fair fc)
    with assms doFair_ok [OF assms(2), of fc] show ?thesis by (simp add: seedsGrow_def)
  qed
qed

lemma run_seeds:
  "drawsOk w \<Longrightarrow> fairOk sha (dw_fair w) \<Longrightarrow> \<forall>c \<in> set cs. drawCommandEnv sha c \<Longrightarrow>
     seedsGrow sha w (runDraws strict cs w) \<and> drawsOk (runDraws strict cs w)"
proof (induction cs arbitrary: w)
  case Nil
  then show ?case by (simp add: runDraws_def seedsGrow_def)
next
  case (Cons c cs)
  have one: "seedsGrow sha w (doDraw strict c w)" using Cons.prems by (intro command_seeds) auto
  have "drawsOk (doDraw strict c w)" using command_accounts [OF Cons.prems(1)] by blast
  with Cons.IH [of "doDraw strict c w"] one Cons.prems have
    "seedsGrow sha (doDraw strict c w) (runDraws strict cs (doDraw strict c w)) \<and> drawsOk (runDraws strict cs (doDraw strict c w))"
    by (simp add: seedsGrow_def)
  with seedsGrow_trans [OF one] show ?case by (simp add: runDraws_def)
qed

subsection \<open>What a record says of its draw\<close>

text \<open>The pick, computed again from what the record holds and a seed.\<close>

definition pickedAgain :: "hash_function \<Rightarrow> string \<Rightarrow> draw_metadata \<Rightarrow> (pick_item \<times> int \<times> int) option" where
  "pickedAgain sha sd m =
     pickByWeight itemWeight (\<lambda>t. fst (deriveRandomPick sha t sd (dm_clientNonce m)))
       (weightedCandidates (dm_eligiblePrizes m) (dm_missWeight m))"

lemma record_shows_pick:
  assumes "drawFacts env cfg skip opts uid w r w' u sd sel"
  shows "pickedAgain (fv_sha256 (dv_fair env)) (fe_seed sd) (rd_metadata r) = pr_selection sel"
    "dm_randomPick (rd_metadata r) = map_option (\<lambda>(_, pick, _). pick) (pr_selection sel)"
    "dm_totalWeight (rd_metadata r) = map_option (\<lambda>(_, _, t). t) (pr_selection sel)"
    "dm_epoch (rd_metadata r) = fe_epoch sd" "dm_epochSeconds (rd_metadata r) = fe_epochSeconds sd"
    "dm_commitHash (rd_metadata r) = fe_commitHash sd"
    "rd_prizeId r = Some i \<Longrightarrow> \<exists>c pick t. pr_selection sel = Some (Prize_item c, pick, t) \<and> ca_id c = i"
proof -
  note F = drawFactsD [OF assms]
  from F(15) obtain db oc k where m: "rd_metadata r = buildDrawRecordMetadata sel db oc sd
      (resolveClientNonce env (do_clientNonce opts)) k (do_playMode opts)" by blast
  have "pickByWeight itemWeight (\<lambda>t. fst (deriveRandomPick (fv_sha256 (dv_fair env)) t (fe_seed sd)
      (fst (resolveClientNonce env (do_clientNonce opts)))))
      (weightedCandidates (pr_jitteredEligible sel) (pr_missWeight sel)) = pr_selection sel"
    unfolding F(6) by (simp add: prepareDrawSelection_def Let_def)
  then show "pickedAgain (fv_sha256 (dv_fair env)) (fe_seed sd) (rd_metadata r) = pr_selection sel"
    by (simp add: pickedAgain_def m buildDrawRecordMetadata_def)
  show "rd_prizeId r = Some i \<Longrightarrow> \<exists>c pick t. pr_selection sel = Some (Prize_item c, pick, t) \<and> ca_id c = i"
    using F(16) by (auto simp: refusedDraw_def paidPrize_def)
  show "dm_randomPick (rd_metadata r) = map_option (\<lambda>(_, pick, _). pick) (pr_selection sel)"
    "dm_totalWeight (rd_metadata r) = map_option (\<lambda>(_, _, t). t) (pr_selection sel)"
    "dm_epoch (rd_metadata r) = fe_epoch sd" "dm_epochSeconds (rd_metadata r) = fe_epochSeconds sd"
    "dm_commitHash (rd_metadata r) = fe_commitHash sd"
    by (simp_all add: m buildDrawRecordMetadata_def)
qed

subsection \<open>A sample run\<close>

lemma sample_win:
  obtains r w' where "executeDraw True (sampleDrawEnv 1000) sampleDrawConfig sampleOptions 1 sampleDrawWorld = Inr (r, w')"
    "dw_draws w' = [r]" "dw_fair w' = sampleFair" "dm_epoch (rd_metadata r) = 0" "dm_epochSeconds (rd_metadata r) = 60"
    "rd_status r = D_won" "rd_prizeId r = Some 7" "rd_rewardAmount r = 500" "rd_drawCost r = 1000" "rd_userId r = 1"
proof (rule sample_executeDraw)
  fix r w'
  assume ex: "executeDraw True (sampleDrawEnv 1000) sampleDrawConfig sampleOptions 1 sampleDrawWorld = Inr (r, w')"
    and run: "executeDrawInTransaction (sampleDrawEnv 1000) sampleDrawConfig False sampleOptions 1 sampleDrawWorld = Inr (r, w')"
    and r: "rd_status r = D_won" "rd_prizeId r = Some 7" "rd_rewardAmount r = 500" "rd_drawCost r = 1000"
  from draw_facts [OF run sample_prizesOk] obtain u sd sel where
    facts: "drawFacts (sampleDrawEnv 1000) sampleDrawConfig False sampleOptions 1 sampleDrawWorld r w' u sd sel" .
  note F = drawFactsD [OF facts]
  have "ensureFairnessSeed (dv_fair (sampleDrawEnv 1000))
      (Some (dbl (py_epochSeconds (dc_poolSystem sampleDrawConfig)))) (dw_fair sampleDrawWorld) = Inr (sampleSeed, sampleFair)"
    using sample_ensure by (simp add: sampleDrawEnv_def sampleDrawConfig_def sampleDrawWorld_def)
  with F(5) have seed: "sd = sampleSeed" "dw_fair w' = sampleFair" by simp_all
  have "dw_draws w' = [r]" "rd_userId r = 1" using F(10,12) by (simp_all add: sampleDrawWorld_def)
  with that [OF ex] seed record_shows_pick(4,5) [OF facts] r show thesis by (simp add: sampleSeed_def)
qed

text \<open>
  C9. A draw can be checked afterwards.  In every run that starts without seeds, the seed that a
  later reveal shows for the epoch of a draw hashes to the commitment in its record, and from
  that seed and the record alone (the nonce, the weights of the prizes and of the miss) the
  digest gives the recorded pick and total weight; a prize that was won is the one picked.
\<close>

theorem draws_can_be_verified:
  assumes start: "prizesOk w0" "walletsAgree w0" "dw_fair w0 = emptyFair"
    and envs: "\<forall>c \<in> set (cs1 @ cs2). drawCommandEnv sha c" "fairEnv sha (dv_fair env)" "fairEnv sha env2"
    and draw: "executeDraw strict env cfg opts uid (runDraws strict cs1 w0) = Inr (r, w1)"
    and later: "revealFairnessSeed env2 (dm_epoch (rd_metadata r)) (Some (dm_epochSeconds (rd_metadata r)))
      (dw_fair (runDraws strict cs2 w1)) = Inr (Some v, fs)"
  shows "let m = rd_metadata r; picked = pickByWeight itemWeight
      (\<lambda>t. fst (deriveRandomPick sha t (fr_seed v) (dm_clientNonce m)))
      (weightedCandidates (dm_eligiblePrizes m) (dm_missWeight m))
    in dm_commitHash m = hashSeed sha (fr_seed v) \<and> fr_commitHash v = dm_commitHash m \<and>
       dm_randomPick m = map_option (\<lambda>(_, pick, _). pick) picked \<and>
       dm_totalWeight m = map_option (\<lambda>(_, _, t). t) picked \<and>
       (\<forall>i. rd_prizeId r = Some i \<longrightarrow> (\<exists>c pick t. picked = Some (Prize_item c, pick, t) \<and> ca_id c = i))"
proof -
  have run1: "seedsGrow sha w0 (runDraws strict cs1 w0)" "drawsOk (runDraws strict cs1 w0)"
    using run_seeds [of w0 sha cs1 strict] start envs(1) by (simp_all add: drawsOk_def)
  then have ok: "prizesOk (runDraws strict cs1 w0)" "walletsAgree (runDraws strict cs1 w0)"
    and fair: "fairOk sha (dw_fair (runDraws strict cs1 w0))" by (simp_all add: drawsOk_def seedsGrow_def)
  from draw have run: "executeDrawInTransaction env cfg False opts uid (runDraws strict cs1 w0) = Inr (r, w1)"
    by (simp add: executeDraw_Inr)
  from draw_facts [OF run ok(1)] obtain u sd sel where
    facts: "drawFacts env cfg False opts uid (runDraws strict cs1 w0) r w1 u sd sel" .
  note seed = ensureFairnessSeed_ok [OF fair envs(2) drawFactsD(5) [OF facts]]
  have "drawsOk w1" using draw_keeps_prizes [OF run ok(1)] draw_keeps_wallets [OF run ok] by (simp add: drawsOk_def)
  with run_seeds [of w1 sha cs2 strict] seed envs(1) have
    two: "fairOk sha (dw_fair (runDraws strict cs2 w1))" "keepsSeeds (dw_fair w1) (dw_fair (runDraws strict cs2 w1))"
    by (simp_all add: seedsGrow_def)
  note shown = record_shows_pick [OF facts]
  note three = revealFairnessSeed_ok [OF two(1) envs(3) later]
  from seed obtain s r1 where s: "fe_epochSeconds sd = of_int s" and r1: "r1 \<in> set (fs_seeds (dw_fair w1))"
    "seedKey r1 = (fe_epoch sd, s)" "sr_seed r1 = Some (fe_seed sd)" by auto
  have "resolveEpochSeconds (Some (dm_epochSeconds (rd_metadata r))) = of_int s"
    using seed s by (metis resolveEpochSeconds_again shown(5))
  with three obtain r2 where r2: "r2 \<in> set (fs_seeds (dw_fair (runDraws strict cs2 w1)))"
    "seedKey r2 = (fe_epoch sd, s)" "sr_seed r2 = Some (fr_seed v)" and h: "fr_commitHash v = hashSeed sha (fr_seed v)"
    by (auto simp: shown(4))
  have same: "fe_seed sd = fr_seed v" using seed_stays [OF two r1(1) r2(1)] r1 r2 by simp
  have sha: "fv_sha256 (dv_fair env) = sha" using envs(2) by (simp add: fairEnv_def)
  show ?thesis
    using seed h shown(1-3,6,7) unfolding Let_def pickedAgain_def sha same by simp
qed

theorem draws_can_be_verified_witness:
  "\<exists>r w'. executeDraw True (sampleDrawEnv 1000) sampleDrawConfig sampleOptions 1 sampleDrawWorld = Inr (r, w') \<and>
     rd_prizeId r = Some 7 \<and> dm_commitHash (rd_metadata r) = hashSeed sampleHash ''5eed''"
proof (rule sample_win)
  fix r w'
  assume run: "executeDraw True (sampleDrawEnv 1000) sampleDrawConfig sampleOptions 1 sampleDrawWorld = Inr (r, w')"
    and r: "dw_fair w' = sampleFair" "dm_epoch (rd_metadata r) = 0" "dm_epochSeconds (rd_metadata r) = 60" "rd_prizeId r = Some 7"
  have empty: "runDraws True [] w = w" for w by (simp add: runDraws_def)
  have world: "dw_fair sampleDrawWorld = emptyFair" by (simp add: sampleDrawWorld_def)
  have envs: "fairEnv sampleHash (dv_fair (sampleDrawEnv 1000))" "fairEnv sampleHash (sampleFairEnv 70000)"
    by (simp_all add: sampleDrawEnv_def)
  have none: "\<forall>c \<in> set ([] @ []). drawCommandEnv sampleHash c" by simp
  have draw: "executeDraw True (sampleDrawEnv 1000) sampleDrawConfig sampleOptions 1 (runDraws True [] sampleDrawWorld) = Inr (r, w')"
    using run empty by simp
  from draws_can_be_verified [OF sample_prizesOk sample_walletsAgree world none envs draw, unfolded empty, OF sample_reveal [folded r(1-3)]]
  have "dm_commitHash (rd_metadata r) = hashSeed sampleHash ''5eed''" by (simp add: Let_def)
  with run r show ?thesis by (intro exI conjI)
qed

subsection \<open>The books of every run\<close>

text \<open>
  C8. The books of every run balance.  Whatever single draws and batches are run, failed ones
  included, every wallet still agrees with its ledger and has paid the costs of its owner's
  draws, each reward is in the asset account of its winner, the prize pool has the difference,
  and the stock of every prize has gone down by the number of draws that won it and is not
  below zero; a won prize is a row of the table and paid its amount.
\<close>

theorem draws_account_for_everything:
  assumes "prizesOk w0" and "walletsAgree w0"
  shows "let w = runDraws strict cs w0; rs = drop (length (dw_draws w0)) (dw_draws w)
    in walletsAgree w \<and> take (length (dw_draws w0)) (dw_draws w) = dw_draws w0 \<and>
       map pz_id (dw_prizes w) = map pz_id (dw_prizes w0) \<and>
       map pz_stock (dw_prizes w) = map (\<lambda>p. pz_stock p - winsOf (pz_id p) rs) (dw_prizes w0) \<and>
       (\<forall>p \<in> set (dw_prizes w). 0 \<le> pz_stock p \<and> (0 < pz_payoutBudget p \<longrightarrow> pz_payoutSpent p \<le> pz_payoutBudget p)) \<and>
       dw_prizePool w = dw_prizePool w0 + sum_list (map rd_drawCost rs) - sum_list (map rd_rewardAmount rs) \<and>
       (\<forall>v. wl_withdrawable (walletRow v w) = wl_withdrawable (walletRow v w0) - costsOf v rs \<and>
            wl_wagered (walletRow v w) = wl_wagered (walletRow v w0) + costsOf v rs \<and>
            available_balance (balanceOf v B_LUCK (dw_economy w)) =
              available_balance (balanceOf v B_LUCK (dw_economy w0)) + rewardsOf v rs) \<and>
       (\<forall>r \<in> set rs. (rd_status r = D_won \<longleftrightarrow> rd_prizeId r \<noteq> None) \<and> (rd_status r \<noteq> D_won \<longrightarrow> rd_rewardAmount r = 0) \<and>
          (\<forall>i. rd_prizeId r = Some i \<longrightarrow> (\<exists>p \<in> set (dw_prizes w0). pz_id p = i \<and> rd_rewardAmount r = pz_rewardAmount p)))"
proof -
  have "drawsOk w0" using assms by (simp add: drawsOk_def)
  then obtain rs where acc: "drawsAccount w0 rs (runDraws strict cs w0)" and ok: "drawsOk (runDraws strict cs w0)"
    using run_accounts by blast
  have rs: "dw_draws (runDraws strict cs w0) = dw_draws w0 @ rs" using acc by (simp add: drawsAccount_def)
  have "list_all2 (soldPrize rs) (dw_prizes w0) (dw_prizes (runDraws strict cs w0))" using acc by (simp add: drawsAccount_def)
  then have "map pz_id (dw_prizes (runDraws strict cs w0)) = map pz_id (dw_prizes w0) \<and>
      map pz_stock (dw_prizes (runDraws strict cs w0)) = map (\<lambda>p. pz_stock p - winsOf (pz_id p) rs) (dw_prizes w0)"
    by (induction rule: list_all2_induct) (auto simp: soldPrize_def)
  with acc ok show ?thesis
    unfolding Let_def rs drawsAccount_def drawsOk_def prizesOk_def by simp
qed

theorem draws_account_for_everything_witness:
  "map pz_stock (dw_prizes (runDraws True [Dc_draw (sampleDrawEnv 1000) sampleDrawConfig sampleOptions 1] sampleDrawWorld)) = [2] \<and>
   dw_prizePool (runDraws True [Dc_draw (sampleDrawEnv 1000) sampleDrawConfig sampleOptions 1] sampleDrawWorld) = 10500"
proof (rule sample_win)
  fix r w'
  assume run: "executeDraw True (sampleDrawEnv 1000) sampleDrawConfig sampleOptions 1 sampleDrawWorld = Inr (r, w')"
    and r: "dw_draws w' = [r]" "rd_prizeId r = Some 7" "rd_rewardAmount r = 500" "rd_drawCost r = 1000"
  have w': "runDraws True [Dc_draw (sampleDrawEnv 1000) sampleDrawConfig sampleOptions 1] sampleDrawWorld = w'"
    unfolding runDraws_def using run by (simp del: One_nat_def)
  have "dw_draws sampleDrawWorld = []" "dw_prizes sampleDrawWorld = [samplePrize]" "dw_prizePool sampleDrawWorld = 10000"
    by (simp_all add: sampleDrawWorld_def)
  with draws_account_for_everything [OF sample_prizesOk sample_walletsAgree, of True
      "[Dc_draw (sampleDrawEnv 1000) sampleDrawConfig sampleOptions 1]", unfolded w' Let_def]
  show ?thesis unfolding w' by (simp add: r winsOf_def samplePrize_def)
qed

subsection \<open>Limits on payouts\<close>

text \<open>
  C18. The limits on payouts hold at every win: with an hourly cap the rewards of the last hour
  stay within it, the reward just paid included; with a cooldown the winner had not won within
  it; a prize of the highest reward is won only while fewer such prizes than allowed were won
  in the hour, and in the day.
\<close>

theorem payout_limits_hold:
  assumes draw: "executeDraw strict env cfg opts uid w = Inr (r, w')" and ok: "prizesOk w"
    and won: "rd_status r = D_won" "0 < rd_rewardAmount r"
  shows "let pc = dc_payoutControl cfg; now = dv_now env;
      big = (\<lambda>since. length (filter (\<lambda>q. rd_rewardAmount q \<ge> maxRewardOf (sort_key ca_id (dv_candidates env))) (wonSince since w)));
      isBig = (0 < maxRewardOf (sort_key ca_id (dv_candidates env)) \<and> maxRewardOf (sort_key ca_id (dv_candidates env)) \<le> rd_rewardAmount r)
    in (0 < pc_maxTotalPerHour pc \<longrightarrow> sum_list (map rd_rewardAmount (wonSince (now - 3600000) w')) \<le> pc_maxTotalPerHour pc) \<and>
       (0 < pc_cooldownSeconds pc \<longrightarrow> (\<forall>q \<in> set (wonSince (secondsAgo now (pc_cooldownSeconds pc)) w). rd_userId q \<noteq> uid)) \<and>
       (isBig \<longrightarrow> 0 < pc_maxBigPerHour pc \<and> of_nat (big (now - 3600000)) < dbl (pc_maxBigPerHour pc) \<and>
          (0 < pc_maxBigPerDay pc \<longrightarrow> of_nat (big (dv_startOfDay env)) < dbl (pc_maxBigPerDay pc)))"
proof -
  let ?pc = "dc_payoutControl cfg"
  from draw have run: "executeDrawInTransaction env cfg False opts uid w = Inr (r, w')" by (simp add: executeDraw_Inr)
  from draw_facts [OF run ok] obtain u sd sel where "drawFacts env cfg False opts uid w r w' u sd sel" .
  note F = drawFactsD [OF this]
  from F(16) won obtain p where "payable env cfg uid sel (drawCostOf cfg) (du_userPoolBalance u + drawCostOf cfg) p w"
    and amt: "rd_rewardAmount r = pz_rewardAmount p" by (auto simp: paidPrize_def)
  then have none: "resolvePayoutLimitReason env uid (rd_rewardAmount r) (maxRewardOf (sort_key ca_id (dv_candidates env))) ?pc w = None"
    by (simp add: payable_def F(6) prepared_parts)
  have cool: "\<not> (pc_cooldownSeconds ?pc > 0 \<and>
      (\<exists>q \<in> set (wonSince (secondsAgo (dv_now env) (pc_cooldownSeconds ?pc)) w). rd_userId q = uid))"
    using none won(2) by (rule_tac notI) (simp add: resolvePayoutLimitReason_def Let_def)
  have cap: "\<not> (pc_maxTotalPerHour ?pc > 0 \<and>
      sum_list (map rd_rewardAmount (wonSince (dv_now env - 3600000) w)) + rd_rewardAmount r > pc_maxTotalPerHour ?pc)"
    using none won(2) cool by (rule_tac notI) (simp add: resolvePayoutLimitReason_def Let_def)
  have "wonSince since w' = wonSince since w @ (if createdSince since r then [r] else [])" for since
    using won(1) by (simp add: wonSince_def F(10))
  then have total: "sum_list (map rd_rewardAmount (wonSince since w')) \<le> sum_list (map rd_rewardAmount (wonSince since w)) + rd_rewardAmount r" for since
    using won(2) by simp
  let ?max = "maxRewardOf (sort_key ca_id (dv_candidates env))"
  let ?big = "\<lambda>since. length (filter (\<lambda>q. rd_rewardAmount q \<ge> ?max) (wonSince since w))"
  have big: "0 < pc_maxBigPerHour ?pc \<and> of_nat (?big (dv_now env - 3600000)) < dbl (pc_maxBigPerHour ?pc) \<and>
      (0 < pc_maxBigPerDay ?pc \<longrightarrow> of_nat (?big (dv_startOfDay env)) < dbl (pc_maxBigPerDay ?pc))"
    if "0 < ?max" "?max \<le> rd_rewardAmount r"
  proof -
    from none cool cap won(2) that have "bigPrizeLimit ?pc (dv_now env) (dv_startOfDay env) ?max w = None"
      by (simp add: resolvePayoutLimitReason_def Let_def)
    then show ?thesis by (auto simp: bigPrizeLimit_def Let_def not_le split: if_splits)
  qed
  have "sum_list (map rd_rewardAmount (wonSince (dv_now env - 3600000) w')) \<le> pc_maxTotalPerHour ?pc"
    if "0 < pc_maxTotalPerHour ?pc"
    using total [of "dv_now env - 3600000"] cap that by linarith
  moreover have "rd_userId q \<noteq> uid"
    if "0 < pc_cooldownSeconds ?pc" "q \<in> set (wonSince (secondsAgo (dv_now env) (pc_cooldownSeconds ?pc)) w)" for q
    using cool that by blast
  ultimately show ?thesis unfolding Let_def using big by blast
qed

theorem payout_limits_hold_witness:
  "\<exists>r w'. executeDraw True (sampleDrawEnv 1000) sampleDrawConfig sampleOptions 1 sampleDrawWorld = Inr (r, w') \<and>
     sum_list (map rd_rewardAmount (wonSince (- 3599000) w')) \<le> 700"
proof (rule sample_win)
  fix r w'
  assume run: "executeDraw True (sampleDrawEnv 1000) sampleDrawConfig sampleOptions 1 sampleDrawWorld = Inr (r, w')"
    and r: "rd_status r = D_won" "rd_rewardAmount r = 500"
  have limits: "pc_maxTotalPerHour (dc_payoutControl sampleDrawConfig) = 700" "dv_now (sampleDrawEnv 1000) = 1000"
    by (simp_all add: sampleDrawConfig_def sampleDrawEnv_def)
  have "0 < rd_rewardAmount r" by (simp add: r)
  from payout_limits_hold [OF run sample_prizesOk r(1) this] have
    "sum_list (map rd_rewardAmount (wonSince (- 3599000) w')) \<le> 700" unfolding Let_def limits by simp
  with run show ?thesis by (intro exI conjI)
qed

subsection \<open>Batches under a cooldown\<close>

text \<open>
  C20. A cooldown between draws turns away every batch of two draws or more.  Each draw of a
  batch is held against the cooldown, and the draw before it, in the same transaction, is always
  too recent, so the whole batch fails; only a cooldown shorter than the transaction so far would
  let it through.
\<close>

theorem cooldown_stops_every_batch:
  assumes "prizesOk w" and "0 < sy_cooldownSeconds (dc_drawSystem cfg)"
    and "2 \<le> requested * resolveExecutionCountMultiplier pm"
    and "1000 * secondsAgo (dv_now (envs 1)) (sy_cooldownSeconds (dc_drawSystem cfg)) \<le> dv_transactionStart (envs 0)"
  shows "\<exists>e. executeResolvedDrawPlayInTransaction strict envs cfg requested nonce pm uid w = Inl e"
proof (rule ccontr)
  assume "\<not> ?thesis"
  then obtain res w' where "executeResolvedDrawPlayInTransaction strict envs cfg requested nonce pm uid w = Inr (res, w')"
    by (cases "executeResolvedDrawPlayInTransaction strict envs cfg requested nonce pm uid w") auto
  note run = batch_parts(2) [OF this]
  let ?n = "nat (requested * resolveExecutionCountMultiplier pm)"
  have "[0..<?n] = 0 # 1 # [2..<?n]" using assms(3) by (simp add: upt_conv_Cons eval_nat_numeral)
  with run obtain opts0 opts1 r0 r1 w1 w2 where
    first: "executeDrawInTransaction (envs 0) cfg False opts0 uid w = Inr (r0, w1)"
    and second: "executeDrawInTransaction (envs 1) cfg False opts1 uid w1 = Inr (r1, w2)"
    by (auto simp: bind_res_Inr_iff split_def)
  from draw_facts [OF first assms(1)] obtain u sd sel where "drawFacts (envs 0) cfg False opts0 uid w r0 w1 u sd sel" .
  note F = drawFactsD [OF this]
  from draw_facts [OF second draw_keeps_prizes [OF first assms(1)]] obtain u' sd' sel' where
    "drawFacts (envs 1) cfg False opts1 uid w1 r1 w2 u' sd' sel'" .
  from drawFactsD(3) [OF this] have "enforceDrawGuards (envs 1) uid (dc_drawSystem cfg) w1 = Inr ()" by simp
  moreover have "r0 \<in> set (filter (\<lambda>r. rd_userId r = uid \<and>
      createdSince (secondsAgo (dv_now (envs 1)) (sy_cooldownSeconds (dc_drawSystem cfg))) r) (dw_draws w1))"
    using assms(4) by (simp add: F(10,12,14) createdSince_def)
  ultimately show False
    using assms(2) by (auto simp: enforceDrawGuards_def Let_def filter_empty_conv split: if_splits)
qed

text \<open>Two draws under a cooldown of a minute, a tenth of a second apart.\<close>

theorem cooldown_stops_every_batch_witness:
  "\<exists>e. executeResolvedDrawPlayInTransaction True (\<lambda>i. (sampleDrawEnv (1000 + 100 * int i))\<lparr>dv_transactionStart := 1000000\<rparr>)
     (sampleDrawConfig\<lparr>dc_drawSystem := sampleSystem\<lparr>sy_cooldownSeconds := 60\<rparr>\<rparr>) 2 None
     (createDefaultPlayModeSnapshot Mode_standard) 1 sampleDrawWorld = Inl e"
proof (rule cooldown_stops_every_batch)
  have "secondsAgo 1100 60 = - 58900" using dbl_int [of "- 58900"] by (simp add: secondsAgo_def jsTrunc_def)
  then show "1000 * secondsAgo (dv_now ((sampleDrawEnv (1000 + 100 * int 1))\<lparr>dv_transactionStart := 1000000\<rparr>))
      (sy_cooldownSeconds (dc_drawSystem (sampleDrawConfig\<lparr>dc_drawSystem := sampleSystem\<lparr>sy_cooldownSeconds := 60\<rparr>\<rparr>)))
    \<le> dv_transactionStart ((sampleDrawEnv (1000 + 100 * int 0))\<lparr>dv_transactionStart := 1000000\<rparr>)"
    by (simp add: sampleDrawEnv_def)
qed (simp_all add: resolveExecutionCountMultiplier_def createDefaultPlayModeSnapshot_def)

end
