(* ===== verification/Deferred_Payouts.thy ===== *)
theory Deferred_Payouts
  imports Draw_Execute
begin

text \<open>
  Payouts that a play mode holds back (\<open>modules/play-mode/deferred-payouts.ts\<close> and the tables of
  \<open>modules/play-mode/service.ts\<close>): withholding a payout that was just credited, releasing it
  again, and the policy that decides which of the two a settled round does.  The ids of the
  tables are those of their sequences; rows stand in the order of their creation, which is the
  order the queries ask for.
\<close>

subsection \<open>Tables\<close>

datatype play_game = Game_draw | Game_blackjack | Game_holdem

datatype deferred_balance = Bt_bonus | Bt_withdrawable

datatype deferred_status = Df_pending | Df_released | Df_cancelled

datatype session_status = Ps_active | Ps_settled | Ps_cancelled

record deferred_row =
  df_id :: nat
  df_userId :: nat
  df_gameKey :: play_game
  df_mode :: play_mode_type
  df_status :: deferred_status
  df_balanceType :: deferred_balance
  df_amount :: cents
  df_sourceSessionId :: "nat option"
  df_sourceReferenceType :: "string option"
  df_sourceReferenceId :: "nat option"
  df_triggerReferenceType :: "string option"
  df_triggerReferenceId :: "nat option"

record play_session =
  pl_id :: nat
  pl_parentSessionId :: "nat option"
  pl_userId :: nat
  pl_gameKey :: play_game
  pl_mode :: play_mode_type
  pl_status :: session_status
  pl_outcome :: "play_mode_outcome option"
  pl_referenceType :: "string option"
  pl_referenceId :: "nat option"
  pl_executionIndex :: nat
  pl_snapshot :: play_snapshot

text \<open>The preference of a user in a game: its mode and state, under the unique index on both.\<close>

record play_world =
  pw_draw :: draw_world
  pw_deferred :: "deferred_row list"
  pw_sessions :: "play_session list"
  pw_modes :: "nat \<times> play_game \<Rightarrow> (play_mode_type \<times> play_snapshot) option"
  pw_nextDeferred :: nat
  pw_nextSession :: nat

subsection \<open>Moving a payout\<close>

datatype funding_source = Fund_draw_user_pool | Fund_prize_pool | Fund_locked_balance

datatype deferral_direction = Withhold | Release

definition DEFERRED_WITHHOLD_ENTRY_TYPE :: string where
  "DEFERRED_WITHHOLD_ENTRY_TYPE = ''play_mode_payout_deferred''"

definition DEFERRED_RELEASE_ENTRY_TYPE :: string where
  "DEFERRED_RELEASE_ENTRY_TYPE = ''play_mode_payout_released''"

definition SNOWBALL_ENVELOPE_CAP :: cents where
  "SNOWBALL_ENVELOPE_CAP = 50000"

definition PLAY_MODE_EARNED_ASSET_CODE :: asset_code where
  "PLAY_MODE_EARNED_ASSET_CODE = B_LUCK"

fun resolveFundingSourceForGame :: "play_game \<Rightarrow> funding_source option" where
  "resolveFundingSourceForGame Game_draw = Some Fund_draw_user_pool"
| "resolveFundingSourceForGame Game_blackjack = Some Fund_prize_pool"
| "resolveFundingSourceForGame Game_holdem = Some Fund_locked_balance"

definition usesPlayModeEarnedAsset :: "deferred_balance \<Rightarrow> funding_source option \<Rightarrow> bool" where
  "usesPlayModeEarnedAsset bt src =
     (bt = Bt_bonus \<and> (src = Some Fund_draw_user_pool \<or> src = Some Fund_locked_balance))"

definition loadLockedBalances :: "nat \<Rightarrow> draw_world \<Rightarrow> (wallet \<times> draw_user) res" where
  "loadLockedBalances uid w =
     (case dw_wallets w uid of
        None \<Rightarrow> Inl (NotFound ''Wallet not found.'')
      | Some wl \<Rightarrow>
          (case dw_users w uid of None \<Rightarrow> Inl (NotFound ''User not found.'') | Some u \<Rightarrow> Inr (wl, u)))"

definition deferralEntryType :: "deferral_direction \<Rightarrow> string" where
  "deferralEntryType dir =
     (if dir = Withhold then DEFERRED_WITHHOLD_ENTRY_TYPE else DEFERRED_RELEASE_ENTRY_TYPE)"

definition assetMutation :: "nat \<Rightarrow> cents \<Rightarrow> deferral_direction \<Rightarrow> string \<Rightarrow> nat option \<Rightarrow> asset_payload" where
  "assetMutation uid amt dir refType refId =
     \<lparr>am_userId = uid, am_assetCode = PLAY_MODE_EARNED_ASSET_CODE, am_amount = of_int amt,
      am_entryType = deferralEntryType dir, am_referenceType = Some refType, am_referenceId = refId,
      am_idempotencyKey = None\<rparr>"

definition onEconomy :: "(economy \<Rightarrow> (asset_result \<times> economy) res) \<Rightarrow> draw_world \<Rightarrow> draw_world res" where
  "onEconomy f w = bind_res (f (dw_economy w)) (\<lambda>(_, ec). Inr (w\<lparr>dw_economy := ec\<rparr>))"

definition setUserPool :: "nat \<Rightarrow> cents \<Rightarrow> draw_world \<Rightarrow> draw_world" where
  "setUserPool uid amt w =
     w\<lparr>dw_users := (dw_users w)(uid := map_option (\<lambda>u. u\<lparr>du_userPoolBalance := amt\<rparr>) (dw_users w uid))\<rparr>"

text \<open>
  The wallet's own share of a deferral.  The metadata of the ledger line names the locked
  balances \<open>lockedBefore\<close> and \<open>lockedAfter\<close>; the fields that the wallet check reads are not set.
\<close>

definition walletDeferral ::
  "nat \<Rightarrow> cents \<Rightarrow> deferred_balance \<Rightarrow> deferral_direction \<Rightarrow> funding_source option \<Rightarrow> nat option \<Rightarrow> draw_world \<Rightarrow>
     draw_world res" where
  "walletDeferral uid amt bt dir src refId w =
     bind_res (loadLockedBalances uid w) (\<lambda>(wl, u).
       let signedAmount = (if dir = Withhold then - amt else amt);
           withdrawableAfter = (if bt = Bt_withdrawable then wl_withdrawable wl + signedAmount else wl_withdrawable wl);
           bonusAfter = (if bt = Bt_bonus then wl_bonus wl + signedAmount else wl_bonus wl);
           lockedAfter = (if src = Some Fund_locked_balance
             then (if dir = Withhold then wl_locked wl + amt else wl_locked wl - amt) else wl_locked wl)
       in if withdrawableAfter < 0 \<or> bonusAfter < 0 \<or> lockedAfter < 0
          then Inl (Conflict ''Deferred payout balance adjustment would go negative.'')
          else
            let line = \<lparr>le_userId = uid, le_entryType = deferralEntryType dir, le_amount = signedAmount,
                  le_balanceBefore = (if bt = Bt_bonus then wl_bonus wl else wl_withdrawable wl),
                  le_balanceAfter = (if bt = Bt_bonus then bonusAfter else withdrawableAfter),
                  le_referenceId = refId, le_unlockRatio = 0,
                  le_balanceType = Some (if bt = Bt_bonus then ''bonus'' else ''withdrawable''),
                  le_lockedBalanceBefore = 0, le_lockedBalanceAfter = 0\<rparr>;
                w1 = w\<lparr>dw_wallets := (dw_wallets w)(uid \<mapsto>
                         wl\<lparr>wl_withdrawable := withdrawableAfter, wl_bonus := bonusAfter, wl_locked := lockedAfter\<rparr>),
                       dw_ledger := dw_ledger w @ [line]\<rparr>;
                w2 = (if src = Some Fund_draw_user_pool
                  then setUserPool uid (if dir = Withhold then du_userPoolBalance u + amt
                                        else max (du_userPoolBalance u - amt) 0) w1
                  else w1)
            in Inr (if src = Some Fund_prize_pool
                    then housePoolDelta (if dir = Withhold then amt else - amt) (deferralEntryType dir) refId w2
                    else w2))"

definition applyWalletDelta ::
  "nat \<Rightarrow> cents \<Rightarrow> deferred_balance \<Rightarrow> deferral_direction \<Rightarrow> funding_source option \<Rightarrow> string \<Rightarrow> nat option \<Rightarrow>
     draw_world \<Rightarrow> draw_world res" where
  "applyWalletDelta uid amt bt dir src refType refId w =
     (if amt \<le> 0 then Inr w
      else if usesPlayModeEarnedAsset bt src \<and> src = Some Fund_draw_user_pool
      then bind_res (loadLockedBalances uid w) (\<lambda>(_, u).
           let userPoolAfter = (if dir = Withhold then du_userPoolBalance u + amt
                                else max (du_userPoolBalance u - amt) 0)
           in bind_res (onEconomy ((if dir = Withhold then debitAsset else creditAsset)
                  (assetMutation uid amt dir refType refId)) w) (\<lambda>w1.
              Inr (setUserPool uid userPoolAfter w1)))
      else if usesPlayModeEarnedAsset bt src \<and> src = Some Fund_locked_balance
      then onEconomy ((if dir = Withhold then lockAsset else unlockAsset)
             (assetMutation uid amt dir refType refId)) w
      else walletDeferral uid amt bt dir src refId w)"

definition withholdDeferredPayout ::
  "nat \<Rightarrow> cents \<Rightarrow> deferred_balance \<Rightarrow> funding_source option \<Rightarrow> string \<Rightarrow> nat option \<Rightarrow> draw_world \<Rightarrow> draw_world res" where
  "withholdDeferredPayout uid amt bt src refType refId w =
     applyWalletDelta uid amt bt Withhold src refType refId w"

definition releaseDeferredPayout ::
  "nat \<Rightarrow> cents \<Rightarrow> deferred_balance \<Rightarrow> funding_source option \<Rightarrow> string \<Rightarrow> nat option \<Rightarrow> draw_world \<Rightarrow> draw_world res" where
  "releaseDeferredPayout uid amt bt src refType refId w =
     applyWalletDelta uid amt bt Release src refType refId w"

subsection \<open>The rows of deferred payouts\<close>

definition loadDeferredPayoutRows ::
  "nat \<Rightarrow> play_game \<Rightarrow> play_mode_type \<Rightarrow> deferred_status \<Rightarrow> play_world \<Rightarrow> deferred_row list" where
  "loadDeferredPayoutRows uid g mode st w =
     filter (\<lambda>r. df_userId r = uid \<and> df_gameKey r = g \<and> df_mode r = mode \<and> df_status r = st) (pw_deferred w)"

definition createDeferredPayout ::
  "nat \<Rightarrow> play_game \<Rightarrow> play_mode_type \<Rightarrow> deferred_balance \<Rightarrow> cents \<Rightarrow> nat option \<Rightarrow> string \<Rightarrow> nat option \<Rightarrow>
     play_world \<Rightarrow> play_world" where
  "createDeferredPayout uid g mode bt amt sessionId refType refId w =
     w\<lparr>pw_deferred := pw_deferred w @
         [\<lparr>df_id = pw_nextDeferred w, df_userId = uid, df_gameKey = g, df_mode = mode,
           df_status = Df_pending, df_balanceType = bt, df_amount = amt,
           df_sourceSessionId = sessionId, df_sourceReferenceType = Some refType,
           df_sourceReferenceId = refId, df_triggerReferenceType = None, df_triggerReferenceId = None\<rparr>],
       pw_nextDeferred := pw_nextDeferred w + 1\<rparr>"

definition markDeferredPayoutsReleased :: "nat list \<Rightarrow> string \<Rightarrow> nat option \<Rightarrow> play_world \<Rightarrow> play_world" where
  "markDeferredPayoutsReleased ids trigger triggerId w =
     w\<lparr>pw_deferred := map (\<lambda>r. if df_id r \<in> set ids
         then r\<lparr>df_status := Df_released, df_triggerReferenceType := Some trigger,
                df_triggerReferenceId := triggerId\<rparr> else r) (pw_deferred w)\<rparr>"

fun releaseRows ::
  "nat \<Rightarrow> funding_source option \<Rightarrow> string \<Rightarrow> nat option \<Rightarrow> deferred_row list \<Rightarrow> draw_world \<Rightarrow> draw_world res" where
  "releaseRows uid src refType refId [] w = Inr w"
| "releaseRows uid src refType refId (r # rs) w =
     bind_res (releaseDeferredPayout uid (df_amount r) (df_balanceType r) src refType refId w)
       (releaseRows uid src refType refId rs)"

text \<open>\<open>trigger\<close> is the reference of the round that releases, if there is one.\<close>

definition releasePendingDeferredPayoutsForMode ::
  "nat \<Rightarrow> play_game \<Rightarrow> play_mode_type \<Rightarrow> (string \<times> nat option) option \<Rightarrow> play_world \<Rightarrow>
     ((deferred_row list \<times> cents) \<times> play_world) res" where
  "releasePendingDeferredPayoutsForMode uid g mode trigger w =
     (let rows = loadDeferredPayoutRows uid g mode Df_pending w;
          refType = (case trigger of None \<Rightarrow> ''play_mode_trigger'' | Some t \<Rightarrow> fst t);
          refId = (case trigger of None \<Rightarrow> None | Some t \<Rightarrow> snd t)
      in if rows = [] then Inr ((rows, 0), w)
         else bind_res (releaseRows uid (resolveFundingSourceForGame g) refType refId rows (pw_draw w)) (\<lambda>dw.
              Inr ((rows, sum_list (map df_amount rows)),
                   markDeferredPayoutsReleased (map df_id rows) refType refId (w\<lparr>pw_draw := dw\<rparr>))))"

subsection \<open>The policy of a settled round\<close>

definition clearPendingPayoutSnapshot :: "play_snapshot \<Rightarrow> play_snapshot" where
  "clearPendingPayoutSnapshot s =
     s\<lparr>ps_carryActive := False, ps_pendingPayoutAmount := 0, ps_pendingPayoutCount := 0,
       ps_snowballCarryAmount := 0, ps_snowballEnvelopeAmount := 0\<rparr>"

text \<open>Withholding a payout and noting it as pending, as both deferring modes do.\<close>

definition deferPayout ::
  "nat \<Rightarrow> play_game \<Rightarrow> play_mode_type \<Rightarrow> cents \<Rightarrow> deferred_balance \<Rightarrow> nat option \<Rightarrow> string \<Rightarrow> nat option \<Rightarrow>
     play_world \<Rightarrow> play_world res" where
  "deferPayout uid g mode amt bt sessionId refType refId w =
     bind_res (withholdDeferredPayout uid amt bt (resolveFundingSourceForGame g) refType refId (pw_draw w))
       (\<lambda>dw. Inr (createDeferredPayout uid g mode bt amt sessionId refType refId (w\<lparr>pw_draw := dw\<rparr>)))"

definition applySettledPlayModePayoutPolicy ::
  "nat \<Rightarrow> play_game \<Rightarrow> play_mode_outcome \<Rightarrow> play_snapshot \<Rightarrow> cents \<Rightarrow> deferred_balance \<Rightarrow> nat option \<Rightarrow> string \<Rightarrow>
     nat option \<Rightarrow> play_world \<Rightarrow> (play_snapshot \<times> play_world) res" where
  "applySettledPlayModePayoutPolicy uid g outcome s net bt sessionId refType refId w =
     (let pendingBefore = ps_pendingPayoutAmount s; countBefore = ps_pendingPayoutCount s
      in case ps_type s of
        Mode_deferred_double \<Rightarrow>
          if net \<le> 0 then Inr (s\<lparr>ps_carryActive := (countBefore > 0 \<or> pendingBefore > 0)\<rparr>, w)
          else bind_res (deferPayout uid g Mode_deferred_double net bt sessionId refType refId w) (\<lambda>w1.
               Inr (s\<lparr>ps_pendingPayoutAmount := pendingBefore + net, ps_pendingPayoutCount := countBefore + 1,
                      ps_carryActive := True\<rparr>, w1))
      | Mode_snowball \<Rightarrow>
          bind_res (if net > 0 then deferPayout uid g Mode_snowball net bt sessionId refType refId w else Inr w) (\<lambda>w1.
            let pendingAfter = (if net > 0 then pendingBefore + net else pendingBefore);
                countAfter = (if net > 0 then countBefore + 1 else countBefore);
                carry = min pendingAfter SNOWBALL_ENVELOPE_CAP
            in if outcome = Outcome_win \<or> outcome = Outcome_push
               then Inr (s\<lparr>ps_pendingPayoutAmount := pendingAfter, ps_pendingPayoutCount := countAfter,
                           ps_carryActive := (pendingAfter > 0), ps_snowballCarryAmount := carry,
                           ps_snowballEnvelopeAmount := max (pendingAfter - carry) 0\<rparr>, w1)
               else bind_res
                 (if countAfter > 0 \<or> pendingAfter > 0
                  then bind_res (releasePendingDeferredPayoutsForMode uid g Mode_snowball (Some (refType, refId)) w1)
                         (\<lambda>(_, w2). Inr w2)
                  else Inr w1) (\<lambda>w2. Inr (clearPendingPayoutSnapshot s, w2)))
      | _ \<Rightarrow> Inr (s, w))"

section \<open>Draws under a play mode\<close>

text \<open>
  Draws under a play mode: the sessions and preferences of \<open>modules/play-mode/service.ts\<close> and the
  wrapper around the draws of \<open>modules/play-mode/wrappers.ts\<close>.  A request runs several
  transactions one after another; each is all or nothing, but what an earlier one committed
  stays when a later one fails.
\<close>

subsection \<open>Sessions and preferences\<close>

definition loadLatestSnapshotForMode :: "nat \<Rightarrow> play_game \<Rightarrow> play_mode_type \<Rightarrow> play_world \<Rightarrow> play_snapshot option" where
  "loadLatestSnapshotForMode uid g mode w =
     map_option pl_snapshot
       (find (\<lambda>l. pl_userId l = uid \<and> pl_gameKey l = g \<and> pl_mode l = mode) (rev (pw_sessions w)))"

definition loadPlayModeSnapshotForMode :: "nat \<Rightarrow> play_game \<Rightarrow> play_mode_type \<Rightarrow> play_world \<Rightarrow> play_snapshot" where
  "loadPlayModeSnapshotForMode uid g mode w =
     resolveRequestedPlayMode None (Some mode) (loadLatestSnapshotForMode uid g mode w)"

definition lockUserPlayModeState :: "nat \<Rightarrow> play_game \<Rightarrow> play_world \<Rightarrow> (play_mode_type \<times> play_snapshot) \<times> play_world" where
  "lockUserPlayModeState uid g w =
     (case pw_modes w (uid, g) of
        Some row \<Rightarrow> (row, w)
      | None \<Rightarrow>
          let row = (Mode_standard, createDefaultPlayModeSnapshot Mode_standard)
          in (row, w\<lparr>pw_modes := (pw_modes w)((uid, g) \<mapsto> row)\<rparr>))"

definition saveUserPlayModeState :: "nat \<Rightarrow> play_game \<Rightarrow> play_snapshot \<Rightarrow> play_world \<Rightarrow> play_world" where
  "saveUserPlayModeState uid g s w = w\<lparr>pw_modes := (pw_modes w)((uid, g) \<mapsto> (ps_type s, s))\<rparr>"

definition startPlayModeSession ::
  "nat \<Rightarrow> play_game \<Rightarrow> play_snapshot \<Rightarrow> nat option \<Rightarrow> string \<Rightarrow> nat \<Rightarrow> play_world \<Rightarrow> nat \<times> play_world" where
  "startPlayModeSession uid g s parent refType executionIndex w =
     (pw_nextSession w,
      w\<lparr>pw_sessions := pw_sessions w @
          [\<lparr>pl_id = pw_nextSession w, pl_parentSessionId = parent, pl_userId = uid, pl_gameKey = g,
            pl_mode = ps_type s, pl_status = Ps_active, pl_outcome = None,
            pl_referenceType = Some refType, pl_referenceId = None,
            pl_executionIndex = executionIndex, pl_snapshot = s\<rparr>],
        pw_nextSession := pw_nextSession w + 1\<rparr>)"

definition settlePlayModeSession :: "nat \<Rightarrow> play_snapshot \<Rightarrow> play_mode_outcome \<Rightarrow> play_world \<Rightarrow> play_world" where
  "settlePlayModeSession sid s outcome w =
     w\<lparr>pw_sessions := map (\<lambda>l. if pl_id l = sid
         then l\<lparr>pl_status := Ps_settled, pl_outcome := Some outcome, pl_snapshot := s\<rparr> else l) (pw_sessions w)\<rparr>"

definition cancelPlayModeSession :: "nat \<Rightarrow> play_snapshot \<Rightarrow> play_world \<Rightarrow> play_world" where
  "cancelPlayModeSession sid s w =
     w\<lparr>pw_sessions := map (\<lambda>l. if pl_id l = sid
         then l\<lparr>pl_status := Ps_cancelled, pl_snapshot := s\<rparr> else l) (pw_sessions w)\<rparr>"

definition loadUserPlayModeSnapshot :: "nat \<Rightarrow> play_game \<Rightarrow> play_world \<Rightarrow> play_snapshot" where
  "loadUserPlayModeSnapshot uid g w =
     (let row = pw_modes w (uid, g);
          mode = (case row of None \<Rightarrow> Mode_standard | Some (m, _) \<Rightarrow> m)
      in resolveRequestedPlayMode None (Some mode)
           (case loadLatestSnapshotForMode uid g mode w of Some s \<Rightarrow> Some s | None \<Rightarrow> map_option snd row))"

definition setUserPlayModePreference :: "nat \<Rightarrow> play_game \<Rightarrow> play_mode_type \<Rightarrow> play_world \<Rightarrow> play_snapshot \<times> play_world" where
  "setUserPlayModePreference uid g mode w =
     (let w1 = snd (lockUserPlayModeState uid g w);
          s = resolveRequestedPlayMode None (Some mode) (loadLatestSnapshotForMode uid g mode w1)
      in (s, saveUserPlayModeState uid g s w1))"

subsection \<open>Before a round\<close>

definition resolveRequestedType :: "play_mode_type option \<Rightarrow> play_mode_type \<Rightarrow> play_mode_type" where
  "resolveRequestedType requestedMode storedMode =
     (case requestedMode of Some m \<Rightarrow> m | None \<Rightarrow> storedMode)"

definition preparePlayModeExecution ::
  "nat \<Rightarrow> play_game \<Rightarrow> play_mode_type option \<Rightarrow> play_world \<Rightarrow> play_snapshot \<times> play_world" where
  "preparePlayModeExecution uid g requestedMode w =
     (let locked = lockUserPlayModeState uid g w;
          mode = resolveRequestedType requestedMode (fst (fst locked));
          s = loadPlayModeSnapshotForMode uid g mode (snd locked)
      in (s, saveUserPlayModeState uid g s (snd locked)))"

definition refreshSnapshotAfterPendingRelease ::
  "nat \<Rightarrow> play_game \<Rightarrow> play_snapshot \<Rightarrow> play_world \<Rightarrow> (play_snapshot \<times> play_world) res" where
  "refreshSnapshotAfterPendingRelease uid g s w =
     (if ps_type s \<noteq> Mode_deferred_double \<or> ps_pendingPayoutCount s \<le> 0 then Inr (s, w)
      else bind_res (releasePendingDeferredPayoutsForMode uid g (ps_type s) None w) (\<lambda>(released, w1).
        if fst released = [] then Inr (s, w1)
        else let next = clearPendingPayoutSnapshot s
             in Inr (next, saveUserPlayModeState uid g next w1)))"

subsection \<open>Draws under a mode\<close>

definition DUAL_BET_EXECUTION_COUNT :: nat where
  "DUAL_BET_EXECUTION_COUNT = 2"

definition buildDualBetClientNonce :: "string option \<Rightarrow> nat \<Rightarrow> string option" where
  "buildDualBetClientNonce clientNonce executionIndex =
     (let normalized = (case clientNonce of None \<Rightarrow> [] | Some n \<Rightarrow> js_trim n)
      in if normalized = [] then None
         else let prefix = ''leg-'' @ show_digits executionIndex @ ''/'' @ show_digits DUAL_BET_EXECUTION_COUNT @ '':''
              in Some (prefix @ take (max 1 (128 - length prefix)) normalized))"

definition mergeDrawPlayResults :: "int \<Rightarrow> play_snapshot \<Rightarrow> draw_play_result list \<Rightarrow> draw_play_result" where
  "mergeDrawPlayResults requestedCount s results =
     (let records = concat (map dp_records results)
      in \<lparr>dp_requestedCount = requestedCount, dp_records = records,
          dp_endingBalance = (if results = [] then 0 else dp_endingBalance (last results)),
          dp_pityStreak = (if results = [] then 0 else dp_pityStreak (last results)),
          dp_playMode = resolveSettledPlayMode s (classifyDrawPlayModeOutcome records)\<rparr>)"

record draw_play_request =
  rq_count :: int
  rq_clientNonce :: "string option"
  rq_playMode :: "play_mode_type option"

text \<open>
  A play: its configuration, whether the wallet check is strict, and for each leg and draw the
  clock and the randomness.
\<close>

record play_env =
  py_strict :: bool
  py_config :: draw_config
  py_draw :: "nat \<Rightarrow> nat \<Rightarrow> draw_env"

definition drawInPlay ::
  "play_env \<Rightarrow> nat \<Rightarrow> int \<Rightarrow> string option \<Rightarrow> play_snapshot \<Rightarrow> nat \<Rightarrow> play_world \<Rightarrow> (draw_play_result \<times> play_world) res" where
  "drawInPlay env leg n nonce s uid w =
     bind_res (executeResolvedDrawPlayInTransaction (py_strict env) (py_draw env leg) (py_config env) n nonce s uid (pw_draw w))
       (\<lambda>(res, dw). Inr (res, w\<lparr>pw_draw := dw\<rparr>))"

text \<open>One leg of a dual bet, with a session of its own under the parent's.\<close>

definition dualBetLeg ::
  "play_env \<Rightarrow> nat \<Rightarrow> draw_play_request \<Rightarrow> play_snapshot \<Rightarrow> nat \<Rightarrow> nat \<Rightarrow> play_world \<Rightarrow> (draw_play_result \<times> play_world) res" where
  "dualBetLeg env uid rq s parent executionIndex w =
     (let (sid, w1) = startPlayModeSession uid Game_draw s (Some parent) ''draw_request'' executionIndex w
      in bind_res (drawInPlay env executionIndex (rq_count rq)
             (buildDualBetClientNonce (rq_clientNonce rq) executionIndex) s uid w1) (\<lambda>(res, w2).
         Inr (res, settlePlayModeSession sid (dp_playMode res) (classifyDrawPlayModeOutcome (dp_records res)) w2)))"

definition executeDualBetDraws ::
  "play_env \<Rightarrow> nat \<Rightarrow> draw_play_request \<Rightarrow> play_snapshot \<Rightarrow> play_world \<Rightarrow> (draw_play_result \<times> play_world) res" where
  "executeDualBetDraws env uid rq s w =
     (let (parent, w1) = startPlayModeSession uid Game_draw s None ''draw_request'' 0 w
      in bind_res (dualBetLeg env uid rq s parent 1 w1) (\<lambda>(res1, w2).
         bind_res (dualBetLeg env uid rq s parent 2 w2) (\<lambda>(res2, w3).
           let merged = mergeDrawPlayResults (rq_count rq) s [res1, res2];
               w4 = settlePlayModeSession parent (dp_playMode merged)
                      (classifyDrawPlayModeOutcome (dp_records merged)) w3
           in Inr (merged, saveUserPlayModeState uid Game_draw (dp_playMode merged) w4))))"

definition lastOutcomeOr :: "play_snapshot \<Rightarrow> play_mode_outcome" where
  "lastOutcomeOr s = (case ps_lastOutcome s of None \<Rightarrow> Outcome_miss | Some oc \<Rightarrow> oc)"

definition executeSettledDraws ::
  "play_env \<Rightarrow> nat \<Rightarrow> draw_play_request \<Rightarrow> play_snapshot \<Rightarrow> nat \<Rightarrow> play_world \<Rightarrow> (draw_play_result \<times> play_world) res" where
  "executeSettledDraws env uid rq s sid w =
     bind_res (drawInPlay env 0 (rq_count rq) (rq_clientNonce rq) s uid w) (\<lambda>(settled, w1).
       let totalReward = sum_list (map rd_rewardAmount (dp_records settled));
           lastRecord = (if dp_records settled = [] then None else Some (rd_id (last (dp_records settled))))
       in bind_res (applySettledPlayModePayoutPolicy uid Game_draw (lastOutcomeOr (dp_playMode settled))
              (dp_playMode settled) totalReward Bt_bonus (Some sid) ''draw_record'' lastRecord w1) (\<lambda>(pm, w2).
          Inr (settled\<lparr>dp_playMode := pm\<rparr>,
               saveUserPlayModeState uid Game_draw pm (settlePlayModeSession sid pm (lastOutcomeOr pm) w2))))"

text \<open>The answer and the state that is left, committed whether or not the draws went through.\<close>

definition executeDrawPlayWithMode ::
  "play_env \<Rightarrow> nat \<Rightarrow> draw_play_request \<Rightarrow> play_world \<Rightarrow> draw_play_result res \<times> play_world" where
  "executeDrawPlayWithMode env uid rq w =
     (let (prepared, w1) = preparePlayModeExecution uid Game_draw (rq_playMode rq) w
      in case refreshSnapshotAfterPendingRelease uid Game_draw prepared w1 of
           Inl e \<Rightarrow> (Inl e, w1)
         | Inr (s, w2) \<Rightarrow>
             if ps_type s = Mode_dual_bet
             then (case executeDualBetDraws env uid rq s w2 of
                     Inl e \<Rightarrow> (Inl e, w2)
                   | Inr (res, w3) \<Rightarrow> (Inr res, w3))
             else
               let (sid, w3) = startPlayModeSession uid Game_draw s None ''draw_request'' 0 w2
               in case executeSettledDraws env uid rq s sid w3 of
                    Inl e \<Rightarrow> (Inl e, cancelPlayModeSession sid s w3)
                  | Inr (res, w4) \<Rightarrow> (Inr res, w4))"

end
