(* ===== verification/Deferred_Effects.thy ===== *)
theory Deferred_Effects
  imports Deferred_Payouts Draw_Runs Asset_Accounts
begin

text \<open>
  What a deferral and a release do to each of the tables, for every game: the account that is
  moved, and everything that stays.
\<close>

subsection \<open>Asset accounts\<close>

text \<open>A mutation without an idempotency key is its computation on one account.\<close>

lemma keyless_mutation:
  assumes "am_idempotencyKey p = None" and "0 < toCents (am_amount p)"
  shows "(\<exists>r. applyAssetLedgerMutation compute p ec = Inr (r, ec')) \<Longrightarrow>
      \<exists>d row'. compute (toCents (am_amount p)) (balanceOf (am_userId p) (am_assetCode p) ec) = Inr (d, row') \<and>
        (\<forall>u b. balanceOf u b ec' = (if u = am_userId p \<and> b = am_assetCode p then row' else balanceOf u b ec))"
    and "(\<exists>r ec'. applyAssetLedgerMutation compute p ec = Inr (r, ec')) \<longleftrightarrow>
      (\<exists>d row'. compute (toCents (am_amount p)) (balanceOf (am_userId p) (am_assetCode p) ec) = Inr (d, row'))"
proof -
  have none: "findIdempotentLedgerEntry (am_userId p) (am_assetCode p) (am_idempotencyKey p) ec = None" for ec
    using assms(1) by (simp add: findIdempotentLedgerEntry_def)
  have effect: "\<exists>d row'. compute (toCents (am_amount p)) (balanceOf (am_userId p) (am_assetCode p) ec) = Inr (d, row') \<and>
      (\<forall>u b. balanceOf u b ec' = (if u = am_userId p \<and> b = am_assetCode p then row' else balanceOf u b ec))"
    if "applyAssetLedgerMutation compute p ec = Inr (r, ec')" for r ec'
    using that
  proof (cases rule: applyAsset_cases)
    case (replay l)
    with none show ?thesis by simp
  next
    case (fresh d row' l)
    then show ?thesis by (auto simp: posted_def)
  qed
  then show "(\<exists>r. applyAssetLedgerMutation compute p ec = Inr (r, ec')) \<Longrightarrow>
      \<exists>d row'. compute (toCents (am_amount p)) (balanceOf (am_userId p) (am_assetCode p) ec) = Inr (d, row') \<and>
        (\<forall>u b. balanceOf u b ec' = (if u = am_userId p \<and> b = am_assetCode p then row' else balanceOf u b ec))"
    by blast
  show "(\<exists>r ec'. applyAssetLedgerMutation compute p ec = Inr (r, ec')) \<longleftrightarrow>
      (\<exists>d row'. compute (toCents (am_amount p)) (balanceOf (am_userId p) (am_assetCode p) ec) = Inr (d, row'))"
    using effect keyless_mutation_succeeds [OF assms] by blast
qed

lemma onEconomy_Inr:
  "onEconomy f w = Inr w' \<longleftrightarrow> (\<exists>r ec'. f (dw_economy w) = Inr (r, ec') \<and> w' = w\<lparr>dw_economy := ec'\<rparr>)"
  by (auto simp: onEconomy_def bind_res_Inr_iff split_def)

text \<open>The account after each of the four movements of a deferral.\<close>

lemma assetMutation_simps [simp]:
  "am_idempotencyKey (assetMutation uid amt dir rt ri) = None"
  "am_amount (assetMutation uid amt dir rt ri) = of_int amt"
  "am_userId (assetMutation uid amt dir rt ri) = uid"
  "am_assetCode (assetMutation uid amt dir rt ri) = B_LUCK"
  by (simp_all add: assetMutation_def PLAY_MODE_EARNED_ASSET_CODE_def)

lemma deferral_account:
  assumes "0 < amt" and "onEconomy (applyAssetLedgerMutation compute (assetMutation uid amt dir rt ri)) w = Inr w'"
  shows "\<exists>d row' ec'. compute amt (balanceOf uid B_LUCK (dw_economy w)) = Inr (d, row') \<and>
      w' = w\<lparr>dw_economy := ec'\<rparr> \<and>
      (\<forall>u b. balanceOf u b ec' = (if u = uid \<and> b = B_LUCK then row' else balanceOf u b (dw_economy w)))"
proof -
  from assms(2) obtain r ec' where run: "applyAssetLedgerMutation compute (assetMutation uid amt dir rt ri) (dw_economy w) = Inr (r, ec')"
    and w': "w' = w\<lparr>dw_economy := ec'\<rparr>" by (auto simp: onEconomy_Inr)
  from keyless_mutation(1) [of "assetMutation uid amt dir rt ri" compute "dw_economy w" ec'] run assms(1)
  obtain d row' where "compute amt (balanceOf uid B_LUCK (dw_economy w)) = Inr (d, row')"
    "\<forall>u b. balanceOf u b ec' = (if u = uid \<and> b = B_LUCK then row' else balanceOf u b (dw_economy w))"
    by auto
  with w' show ?thesis by blast
qed

lemma deferral_account_runs:
  assumes "0 < amt"
  shows "(\<exists>w'. onEconomy (applyAssetLedgerMutation compute (assetMutation uid amt dir rt ri)) w = Inr w') \<longleftrightarrow>
    (\<exists>d row'. compute amt (balanceOf uid B_LUCK (dw_economy w)) = Inr (d, row'))"
  using keyless_mutation(2) [of "assetMutation uid amt dir rt ri" compute "dw_economy w"] assms
  by (auto simp: onEconomy_Inr)

subsection \<open>Draws\<close>

text \<open>A deferral of a draw moves the asset account and the user's pool, and nothing else.\<close>

definition movedLuck :: "nat \<Rightarrow> cents \<Rightarrow> draw_world \<Rightarrow> draw_world \<Rightarrow> bool" where
  "movedLuck uid d w w' =
     (available_balance (balanceOf uid B_LUCK (dw_economy w')) = available_balance (balanceOf uid B_LUCK (dw_economy w)) + d \<and>
      (\<forall>v. v \<noteq> uid \<longrightarrow> balanceOf v B_LUCK (dw_economy w') = balanceOf v B_LUCK (dw_economy w)) \<and>
      dw_wallets w' = dw_wallets w \<and> dw_ledger w' = dw_ledger w \<and> dw_prizePool w' = dw_prizePool w \<and>
      dw_prizes w' = dw_prizes w \<and> dw_draws w' = dw_draws w \<and> dw_fair w' = dw_fair w \<and>
      (\<forall>v. dw_users w' v = None \<longleftrightarrow> dw_users w v = None))"

lemma movedLuck_trans: "movedLuck uid a w w1 \<Longrightarrow> movedLuck uid b w1 w2 \<Longrightarrow> movedLuck uid (a + b) w w2"
  by (simp add: movedLuck_def)

lemma movedLuck_ok: "movedLuck uid d w w' \<Longrightarrow> drawsOk w' = drawsOk w"
  by (simp add: movedLuck_def drawsOk_def prizesOk_def walletsAgree_def walletRow_def)

lemma setUserPool_simps [simp]:
  "dw_economy (setUserPool uid p w) = dw_economy w" "dw_wallets (setUserPool uid p w) = dw_wallets w"
  "dw_ledger (setUserPool uid p w) = dw_ledger w" "dw_prizePool (setUserPool uid p w) = dw_prizePool w"
  "dw_prizes (setUserPool uid p w) = dw_prizes w" "dw_draws (setUserPool uid p w) = dw_draws w"
  "dw_fair (setUserPool uid p w) = dw_fair w" "dw_users (setUserPool uid p w) v = None \<longleftrightarrow> dw_users w v = None"
  by (simp_all add: setUserPool_def)

lemma loadLockedBalances_Inr:
  "loadLockedBalances uid w = Inr (wl, u) \<longleftrightarrow> dw_wallets w uid = Some wl \<and> dw_users w uid = Some u"
  by (auto simp: loadLockedBalances_def split: option.splits)

lemma draw_deferral:
  assumes "0 < amt"
    and "applyWalletDelta uid amt Bt_bonus dir (resolveFundingSourceForGame Game_draw) rt ri w = Inr w'"
  shows "movedLuck uid (if dir = Withhold then - amt else amt) w w'"
proof -
  have kind: "usesPlayModeEarnedAsset Bt_bonus (Some Fund_draw_user_pool)" by (simp add: usesPlayModeEarnedAsset_def)
  from assms kind obtain w1 p where
    run: "onEconomy ((if dir = Withhold then debitAsset else creditAsset) (assetMutation uid amt dir rt ri)) w = Inr w1"
    and w': "w' = setUserPool uid p w1"
    by (auto simp: applyWalletDelta_def bind_res_Inr_iff split_def Let_def)
  show ?thesis
  proof (cases "dir = Withhold")
    case True
    with run have "onEconomy (applyAssetLedgerMutation debitCompute (assetMutation uid amt dir rt ri)) w = Inr w1"
      by (simp add: debitAsset_def)
    from deferral_account [OF assms(1) this] True show ?thesis
      by (auto simp: movedLuck_def w' debitCompute_def split: if_splits)
  next
    case False
    with run have "onEconomy (applyAssetLedgerMutation creditCompute (assetMutation uid amt dir rt ri)) w = Inr w1"
      by (simp add: creditAsset_def)
    from deferral_account [OF assms(1) this] False show ?thesis
      by (auto simp: movedLuck_def w' creditCompute_def)
  qed
qed

text \<open>Releasing never fails once the user and the wallet are there.\<close>

lemma draw_release_succeeds:
  assumes "dw_wallets w uid \<noteq> None" and "dw_users w uid \<noteq> None"
  shows "\<exists>w'. releaseDeferredPayout uid amt Bt_bonus (resolveFundingSourceForGame Game_draw) rt ri w = Inr w'"
proof (cases "amt \<le> 0")
  case False
  from assms obtain wl u where load: "loadLockedBalances uid w = Inr (wl, u)" by (auto simp: loadLockedBalances_Inr)
  have "\<exists>w1. onEconomy (creditAsset (assetMutation uid amt Release rt ri)) w = Inr w1"
    unfolding creditAsset_def using False by (subst deferral_account_runs) (auto simp: creditCompute_def)
  with load False show ?thesis
    by (auto simp: releaseDeferredPayout_def applyWalletDelta_def usesPlayModeEarnedAsset_def Let_def)
qed (simp add: releaseDeferredPayout_def applyWalletDelta_def)

subsection \<open>Withholding and releasing\<close>

text \<open>What is left alone by a deferral in every game.\<close>

definition sameBalances :: "draw_world \<Rightarrow> draw_world \<Rightarrow> bool" where
  "sameBalances w w' =
     (dw_wallets w' = dw_wallets w \<and> dw_users w' = dw_users w \<and> dw_prizePool w' = dw_prizePool w \<and>
      dw_prizes w' = dw_prizes w \<and> dw_draws w' = dw_draws w \<and> dw_fair w' = dw_fair w \<and>
      (\<forall>v a. available_balance (balanceOf v a (dw_economy w')) = available_balance (balanceOf v a (dw_economy w)) \<and>
         locked_balance (balanceOf v a (dw_economy w')) = locked_balance (balanceOf v a (dw_economy w))))"

lemma assetPath:
  assumes "0 < amt" and "usesPlayModeEarnedAsset bt (resolveFundingSourceForGame g)"
  shows "applyWalletDelta uid amt bt dir (resolveFundingSourceForGame g) rt ri w =
    (if g = Game_draw
     then bind_res (loadLockedBalances uid w) (\<lambda>(_, u).
       bind_res (onEconomy ((if dir = Withhold then debitAsset else creditAsset) (assetMutation uid amt dir rt ri)) w) (\<lambda>w1.
         Inr (setUserPool uid (if dir = Withhold then du_userPoolBalance u + amt else max (du_userPoolBalance u - amt) 0) w1)))
     else onEconomy ((if dir = Withhold then lockAsset else unlockAsset) (assetMutation uid amt dir rt ri)) w)"
  using assms by (cases g) (auto simp: applyWalletDelta_def usesPlayModeEarnedAsset_def Let_def)

lemma walletPath:
  assumes "0 < amt" and "\<not> usesPlayModeEarnedAsset bt (resolveFundingSourceForGame g)"
  shows "applyWalletDelta uid amt bt dir (resolveFundingSourceForGame g) rt ri w =
    walletDeferral uid amt bt dir (resolveFundingSourceForGame g) ri w"
  using assms by (simp add: applyWalletDelta_def)

lemma setUserPool_twice:
  "dw_users w uid = Some u \<Longrightarrow> setUserPool uid (du_userPoolBalance u) (setUserPool uid p w) = w"
  by (cases u) (simp add: setUserPool_def fun_upd_idem)

lemma draw_asset_round_trip:
  assumes "0 < amt" and "applyWalletDelta uid amt Bt_bonus Withhold (resolveFundingSourceForGame Game_draw) rt ri w = Inr w1"
    and pool: "\<And>u. dw_users w uid = Some u \<Longrightarrow> 0 \<le> du_userPoolBalance u"
  shows "\<exists>w2. applyWalletDelta uid amt Bt_bonus Release (resolveFundingSourceForGame Game_draw) rt' ri' w1 = Inr w2 \<and>
    sameBalances w w2"
proof -
  have kind: "usesPlayModeEarnedAsset Bt_bonus (resolveFundingSourceForGame Game_draw)" by (simp add: usesPlayModeEarnedAsset_def)
  from assms(2) [unfolded assetPath [OF assms(1) kind]] obtain wl u v1 where load: "dw_wallets w uid = Some wl" "dw_users w uid = Some u"
    and run: "onEconomy (applyAssetLedgerMutation debitCompute (assetMutation uid amt Withhold rt ri)) w = Inr v1"
    and w1: "w1 = setUserPool uid (du_userPoolBalance u + amt) v1"
    by (auto simp: bind_res_Inr_iff debitAsset_def loadLockedBalances_Inr)
  from deferral_account [OF assms(1) run] obtain d row ec where
    c1: "debitCompute amt (balanceOf uid B_LUCK (dw_economy w)) = Inr (d, row)" and v1: "v1 = w\<lparr>dw_economy := ec\<rparr>"
    and b1: "\<And>v b. balanceOf v b ec = (if v = uid \<and> b = B_LUCK then row else balanceOf v b (dw_economy w))" by blast
  from deferral_account_runs [OF assms(1), of creditCompute uid Release rt' ri' w1] obtain v2 where
    run2: "onEconomy (applyAssetLedgerMutation creditCompute (assetMutation uid amt Release rt' ri')) w1 = Inr v2"
    by (auto simp: creditCompute_def)
  from deferral_account [OF assms(1) run2] obtain d' row' ec' where
    c2: "creditCompute amt (balanceOf uid B_LUCK (dw_economy w1)) = Inr (d', row')" and v2: "v2 = w1\<lparr>dw_economy := ec'\<rparr>"
    and b2: "\<And>v b. balanceOf v b ec' = (if v = uid \<and> b = B_LUCK then row' else balanceOf v b (dw_economy w1))" by blast
  have u1: "dw_users w1 uid = Some (u\<lparr>du_userPoolBalance := du_userPoolBalance u + amt\<rparr>)" "dw_wallets w1 uid = Some wl"
    using load by (simp_all add: w1 v1 setUserPool_def)
  have "max (du_userPoolBalance u + amt - amt) 0 = du_userPoolBalance u" using pool [OF load(2)] by simp
  with u1 run2 have "applyWalletDelta uid amt Bt_bonus Release (resolveFundingSourceForGame Game_draw) rt' ri' w1 =
      Inr (setUserPool uid (du_userPoolBalance u) v2)"
    unfolding assetPath [OF assms(1) kind] by (simp add: loadLockedBalances_def creditAsset_def)
  moreover have "v2 = setUserPool uid (du_userPoolBalance u + amt) (w\<lparr>dw_economy := ec'\<rparr>)"
    by (simp add: v2 w1 v1 setUserPool_def)
  then have "setUserPool uid (du_userPoolBalance u) v2 = w\<lparr>dw_economy := ec'\<rparr>"
    using setUserPool_twice [of "w\<lparr>dw_economy := ec'\<rparr>" uid u] load by simp
  moreover have "sameBalances w (w\<lparr>dw_economy := ec'\<rparr>)"
    using c1 c2 by (auto simp: sameBalances_def b2 w1 v1 b1 debitCompute_def creditCompute_def split: if_splits)
  ultimately show ?thesis by simp
qed

lemma holdem_asset_round_trip:
  assumes "0 < amt" and "applyWalletDelta uid amt Bt_bonus Withhold (resolveFundingSourceForGame Game_holdem) rt ri w = Inr w1"
    and locked: "0 \<le> locked_balance (balanceOf uid B_LUCK (dw_economy w))"
  shows "\<exists>w2. applyWalletDelta uid amt Bt_bonus Release (resolveFundingSourceForGame Game_holdem) rt' ri' w1 = Inr w2 \<and>
    sameBalances w w2"
proof -
  have kind: "usesPlayModeEarnedAsset Bt_bonus (resolveFundingSourceForGame Game_holdem)" by (simp add: usesPlayModeEarnedAsset_def)
  from assms(2) [unfolded assetPath [OF assms(1) kind]]
  have run: "onEconomy (applyAssetLedgerMutation lockCompute (assetMutation uid amt Withhold rt ri)) w = Inr w1"
    by (simp add: lockAsset_def)
  from deferral_account [OF assms(1) run] obtain d row ec where
    c1: "lockCompute amt (balanceOf uid B_LUCK (dw_economy w)) = Inr (d, row)" and w1: "w1 = w\<lparr>dw_economy := ec\<rparr>"
    and b1: "\<And>v b. balanceOf v b ec = (if v = uid \<and> b = B_LUCK then row else balanceOf v b (dw_economy w))" by blast
  from c1 locked have enough: "amt \<le> locked_balance row" by (auto simp: lockCompute_def split: if_splits)
  then obtain w2 where run2: "onEconomy (applyAssetLedgerMutation unlockCompute (assetMutation uid amt Release rt' ri')) w1 = Inr w2"
    using deferral_account_runs [OF assms(1), of unlockCompute uid Release rt' ri' w1]
    by (auto simp: w1 b1 unlockCompute_def)
  from deferral_account [OF assms(1) run2] obtain d' row' ec' where
    c2: "unlockCompute amt (balanceOf uid B_LUCK (dw_economy w1)) = Inr (d', row')" and w2: "w2 = w1\<lparr>dw_economy := ec'\<rparr>"
    and b2: "\<And>v b. balanceOf v b ec' = (if v = uid \<and> b = B_LUCK then row' else balanceOf v b (dw_economy w1))" by blast
  have "sameBalances w w2"
    using c1 c2 by (auto simp: sameBalances_def b2 w2 w1 b1 lockCompute_def unlockCompute_def split: if_splits)
  with run2 show ?thesis unfolding assetPath [OF assms(1) kind] by (simp add: unlockAsset_def)
qed

text \<open>The wallet after a deferral, and the line it leaves.\<close>

definition signedDeferral :: "deferral_direction \<Rightarrow> cents \<Rightarrow> cents" where
  "signedDeferral dir amt = (if dir = Withhold then - amt else amt)"

definition deferredWallet :: "cents \<Rightarrow> deferred_balance \<Rightarrow> funding_source option \<Rightarrow> wallet \<Rightarrow> wallet" where
  "deferredWallet d bt src wl =
     wl\<lparr>wl_withdrawable := wl_withdrawable wl + (if bt = Bt_withdrawable then d else 0),
        wl_bonus := wl_bonus wl + (if bt = Bt_bonus then d else 0),
        wl_locked := wl_locked wl - (if src = Some Fund_locked_balance then d else 0)\<rparr>"

definition walletCovered :: "wallet \<Rightarrow> bool" where
  "walletCovered wl = (0 \<le> wl_withdrawable wl \<and> 0 \<le> wl_bonus wl \<and> 0 \<le> wl_locked wl)"

lemma walletDeferral_runs:
  assumes "dw_wallets w uid = Some wl" and "dw_users w uid = Some u"
  shows "(\<exists>w'. walletDeferral uid amt bt dir src ri w = Inr w') \<longleftrightarrow> walletCovered (deferredWallet (signedDeferral dir amt) bt src wl)"
  using assms
  by (cases bt; cases dir) (auto simp: walletDeferral_def loadLockedBalances_def Let_def walletCovered_def deferredWallet_def
      signedDeferral_def not_less)

lemma walletDeferral_fields:
  assumes "walletDeferral uid amt bt dir src ri w = Inr w'" and "dw_wallets w uid = Some wl" and "dw_users w uid = Some u"
  shows "dw_wallets w' = (dw_wallets w)(uid \<mapsto> deferredWallet (signedDeferral dir amt) bt src wl)"
    "dw_users w' = (dw_users w)(uid \<mapsto> u\<lparr>du_userPoolBalance := (if src = Some Fund_draw_user_pool
       then (if dir = Withhold then du_userPoolBalance u + amt else max (du_userPoolBalance u - amt) 0) else du_userPoolBalance u)\<rparr>)"
    "dw_prizePool w' = dw_prizePool w - (if src = Some Fund_prize_pool then signedDeferral dir amt else 0)"
    "dw_prizes w' = dw_prizes w" "dw_draws w' = dw_draws w" "dw_fair w' = dw_fair w" "dw_economy w' = dw_economy w"
    "\<exists>line. dw_ledger w' = dw_ledger w @ [line] \<and> le_userId line = uid \<and> le_entryType line = deferralEntryType dir \<and>
       le_amount line = signedDeferral dir amt \<and> lockedDelta line = 0 \<and>
       le_balanceType line = Some (if bt = Bt_bonus then ''bonus'' else ''withdrawable'')"
proof -
  have load: "loadLockedBalances uid w = Inr (wl, u)" using assms(2,3) by (simp add: loadLockedBalances_def)
  define line where "line = \<lparr>le_userId = uid, le_entryType = deferralEntryType dir, le_amount = signedDeferral dir amt,
      le_balanceBefore = (if bt = Bt_bonus then wl_bonus wl else wl_withdrawable wl),
      le_balanceAfter = (if bt = Bt_bonus then wl_bonus (deferredWallet (signedDeferral dir amt) bt src wl)
        else wl_withdrawable (deferredWallet (signedDeferral dir amt) bt src wl)),
      le_referenceId = ri, le_unlockRatio = 0, le_balanceType = Some (if bt = Bt_bonus then ''bonus'' else ''withdrawable''),
      le_lockedBalanceBefore = 0, le_lockedBalanceAfter = 0\<rparr>"
  define w1 where "w1 = w\<lparr>dw_wallets := (dw_wallets w)(uid \<mapsto> deferredWallet (signedDeferral dir amt) bt src wl),
      dw_ledger := dw_ledger w @ [line]\<rparr>"
  define w2 where "w2 = (if src = Some Fund_draw_user_pool then setUserPool uid (if dir = Withhold then du_userPoolBalance u + amt
        else max (du_userPoolBalance u - amt) 0) w1 else w1)"
  define neg where "neg = (\<not> walletCovered (deferredWallet (signedDeferral dir amt) bt src wl))"
  have "walletDeferral uid amt bt dir src ri w =
      (if neg then Inl (Conflict ''Deferred payout balance adjustment would go negative.'')
       else Inr (if src = Some Fund_prize_pool
         then housePoolDelta (if dir = Withhold then amt else - amt) (deferralEntryType dir) ri w2 else w2))"
    unfolding walletDeferral_def load bind_res_simps prod.case Let_def neg_def w2_def w1_def line_def
    by (cases bt; cases dir) (simp_all add: deferredWallet_def signedDeferral_def walletCovered_def not_le)
  with assms(1) have w': "w' = (if src = Some Fund_prize_pool
      then housePoolDelta (if dir = Withhold then amt else - amt) (deferralEntryType dir) ri w2 else w2)"
    by (cases neg) simp_all
  show "dw_wallets w' = (dw_wallets w)(uid \<mapsto> deferredWallet (signedDeferral dir amt) bt src wl)"
    "dw_prizes w' = dw_prizes w" "dw_draws w' = dw_draws w" "dw_fair w' = dw_fair w" "dw_economy w' = dw_economy w"
    by (simp_all add: w' w2_def w1_def)
  show "dw_users w' = (dw_users w)(uid \<mapsto> u\<lparr>du_userPoolBalance := (if src = Some Fund_draw_user_pool
       then (if dir = Withhold then du_userPoolBalance u + amt else max (du_userPoolBalance u - amt) 0) else du_userPoolBalance u)\<rparr>)"
    using assms(3) by (cases u) (simp add: w' w2_def w1_def setUserPool_def fun_upd_idem)
  show "dw_prizePool w' = dw_prizePool w - (if src = Some Fund_prize_pool then signedDeferral dir amt else 0)"
    by (simp add: w' w2_def w1_def signedDeferral_def)
  show "\<exists>line. dw_ledger w' = dw_ledger w @ [line] \<and> le_userId line = uid \<and> le_entryType line = deferralEntryType dir \<and>
       le_amount line = signedDeferral dir amt \<and> lockedDelta line = 0 \<and>
       le_balanceType line = Some (if bt = Bt_bonus then ''bonus'' else ''withdrawable'')"
    by (intro exI [of _ line]) (simp add: w' w2_def w1_def line_def lockedDelta_def)
qed

lemma wallet_round_trip:
  assumes "walletDeferral uid amt bt Withhold src ri w = Inr w1"
    and wl: "\<And>wl. dw_wallets w uid = Some wl \<Longrightarrow> walletCovered wl"
    and pool: "\<And>u. dw_users w uid = Some u \<Longrightarrow> 0 \<le> du_userPoolBalance u"
  shows "\<exists>w2. walletDeferral uid amt bt Release src ri' w1 = Inr w2 \<and> sameBalances w w2"
proof -
  from assms(1) obtain v u where load: "dw_wallets w uid = Some v" "dw_users w uid = Some u"
    by (auto simp: walletDeferral_def bind_res_Inr_iff loadLockedBalances_Inr)
  note A = walletDeferral_fields [OF assms(1) load]
  have load1: "dw_wallets w1 uid = Some (deferredWallet (- amt) bt src v)"
    "dw_users w1 uid = Some (u\<lparr>du_userPoolBalance := (if src = Some Fund_draw_user_pool
       then du_userPoolBalance u + amt else du_userPoolBalance u)\<rparr>)"
    by (simp_all add: A(1,2) signedDeferral_def)
  have restored: "deferredWallet amt bt src (deferredWallet (- amt) bt src v) = v" by (cases v) (simp add: deferredWallet_def)
  with walletDeferral_runs [OF load1, of amt bt Release src ri'] wl [OF load(1)] obtain w2 where
    run: "walletDeferral uid amt bt Release src ri' w1 = Inr w2" by (auto simp: signedDeferral_def)
  note B = walletDeferral_fields [OF run load1]
  have "dw_wallets w2 = dw_wallets w" using load(1) by (simp add: B(1) A(1) restored signedDeferral_def fun_upd_idem)
  moreover have "dw_users w2 = dw_users w"
    using load(2) pool [OF load(2)] by (cases u) (auto simp: B(2) A(2) fun_upd_idem)
  moreover have "dw_prizePool w2 = dw_prizePool w" by (simp add: B(3) A(3) signedDeferral_def)
  ultimately show ?thesis using run by (simp add: sameBalances_def B(4-7) A(4-7))
qed

text \<open>
  C21. Releasing undoes withholding.  In every game and for either balance, what was withheld can
  always be released again, and the wallet, the asset account, the user's pool and the prize
  pool are then what they were; only the ledgers and lifetime totals remember it.
\<close>

theorem deferral_round_trip:
  assumes "withholdDeferredPayout uid amt bt (resolveFundingSourceForGame g) rt ri w = Inr w1"
    and "\<forall>wl. dw_wallets w uid = Some wl \<longrightarrow> walletCovered wl"
    and "\<forall>u. dw_users w uid = Some u \<longrightarrow> 0 \<le> du_userPoolBalance u"
    and "0 \<le> locked_balance (balanceOf uid B_LUCK (dw_economy w))"
  shows "\<exists>w2. releaseDeferredPayout uid amt bt (resolveFundingSourceForGame g) rt' ri' w1 = Inr w2 \<and> sameBalances w w2"
proof -
  note run = assms(1) [unfolded withholdDeferredPayout_def]
  show ?thesis
    unfolding releaseDeferredPayout_def
  proof (cases "0 < amt")
    case False
    with run show "\<exists>w2. applyWalletDelta uid amt bt Release (resolveFundingSourceForGame g) rt' ri' w1 = Inr w2 \<and> sameBalances w w2"
      by (simp add: applyWalletDelta_def sameBalances_def)
  next
    case pos: True
    show "\<exists>w2. applyWalletDelta uid amt bt Release (resolveFundingSourceForGame g) rt' ri' w1 = Inr w2 \<and> sameBalances w w2"
    proof (cases "usesPlayModeEarnedAsset bt (resolveFundingSourceForGame g)")
      case True
      then consider "g = Game_draw" "bt = Bt_bonus" | "g = Game_holdem" "bt = Bt_bonus"
        by (cases g) (auto simp: usesPlayModeEarnedAsset_def)
      then show ?thesis
      proof cases
        case 1
        then show ?thesis using draw_asset_round_trip [OF pos run [unfolded 1]] assms(3) by simp
      next
        case 2
        then show ?thesis using holdem_asset_round_trip [OF pos run [unfolded 2]] assms(4) by simp
      qed
    next
      case False
      from wallet_round_trip [OF run [unfolded walletPath [OF pos False]]] assms(2,3) show ?thesis
        unfolding walletPath [OF pos False] by blast
    qed
  qed
qed

theorem deferral_round_trip_witness:
  "\<exists>w1 w2. withholdDeferredPayout 1 300 Bt_withdrawable (resolveFundingSourceForGame Game_blackjack) ''game'' (Some 5) sampleDrawWorld = Inr w1 \<and>
     wl_withdrawable (walletRow 1 w1) = 4700 \<and> dw_prizePool w1 = 10300 \<and>
     releaseDeferredPayout 1 300 Bt_withdrawable (resolveFundingSourceForGame Game_blackjack) ''game'' (Some 6) w1 = Inr w2 \<and>
     wl_withdrawable (walletRow 1 w2) = 5000 \<and> dw_prizePool w2 = 10000"
proof -
  let ?wl = "zeroWallet\<lparr>wl_withdrawable := 5000\<rparr>"
  have load: "dw_wallets sampleDrawWorld 1 = Some ?wl" "dw_users sampleDrawWorld 1 \<noteq> None"
    "dw_prizePool sampleDrawWorld = 10000" by (simp_all add: sampleDrawWorld_def)
  then obtain u where u: "dw_users sampleDrawWorld 1 = Some u" by blast
  have "walletCovered (deferredWallet (signedDeferral Withhold 300) Bt_withdrawable (Some Fund_prize_pool) ?wl)"
    by (simp add: walletCovered_def deferredWallet_def signedDeferral_def zeroWallet_def)
  with walletDeferral_runs [OF load(1) u] obtain w1 where
    run: "walletDeferral 1 300 Bt_withdrawable Withhold (Some Fund_prize_pool) (Some 5) sampleDrawWorld = Inr w1" by blast
  have kind: "\<not> usesPlayModeEarnedAsset Bt_withdrawable (resolveFundingSourceForGame Game_blackjack)"
    by (simp add: usesPlayModeEarnedAsset_def)
  have held: "withholdDeferredPayout 1 300 Bt_withdrawable (resolveFundingSourceForGame Game_blackjack) ''game'' (Some 5) sampleDrawWorld = Inr w1"
    unfolding withholdDeferredPayout_def using run by (subst walletPath [OF _ kind]) simp_all
  note A = walletDeferral_fields [OF run load(1) u]
  from deferral_round_trip [OF held, of "''game''" "Some 6"] load(1) obtain w2 where
    back2: "releaseDeferredPayout 1 300 Bt_withdrawable (resolveFundingSourceForGame Game_blackjack) ''game'' (Some 6) w1 = Inr w2"
    and same: "sameBalances sampleDrawWorld w2"
    by (auto simp: sampleDrawWorld_def walletCovered_def zeroWallet_def balanceOf_def zeroBalance_def)
  have "wl_withdrawable (walletRow 1 w2) = 5000" "dw_prizePool w2 = 10000"
    using same load by (simp_all add: sameBalances_def walletRow_def)
  moreover have "wl_withdrawable (walletRow 1 w1) = 4700" "dw_prizePool w1 = 10300"
    by (simp_all add: walletRow_def A(1,3) load deferredWallet_def signedDeferral_def)
  ultimately show ?thesis using held back2 by blast
qed

subsection \<open>The check of the wallet\<close>

lemma deferral_line_effects:
  assumes "le_entryType line = deferralEntryType dir" and "lockedDelta line = 0"
    and "le_balanceType line = Some (if bt = Bt_bonus then ''bonus'' else ''withdrawable'')"
  shows "sqlWithdrawable line = (if bt = Bt_withdrawable then le_amount line else 0)"
    "sqlBonus line = (if bt = Bt_bonus then le_amount line else 0)" "sqlLocked line = 0" "sqlWagered line = 0"
    "le_entryType line \<in> set KNOWN_USER_LEDGER_ENTRY_TYPES"
proof -
  have kind: "deferredBalanceType line = (if bt = Bt_bonus then ''bonus'' else ''withdrawable'')"
    by (simp add: deferredBalanceType_def assms(3))
  have type: "le_entryType line = ''play_mode_payout_deferred'' \<or> le_entryType line = ''play_mode_payout_released''"
    by (simp add: assms(1) deferralEntryType_def DEFERRED_WITHHOLD_ENTRY_TYPE_def DEFERRED_RELEASE_ENTRY_TYPE_def)
  show "sqlWithdrawable line = (if bt = Bt_withdrawable then le_amount line else 0)"
    using type by (cases bt; elim disjE) (simp_all add: sqlWithdrawable_def entry_types kind)
  show "sqlBonus line = (if bt = Bt_bonus then le_amount line else 0)"
    using type by (cases bt; elim disjE) (simp_all add: sqlBonus_def entry_types kind)
  show "sqlLocked line = 0" using type by (elim disjE) (simp_all add: sqlLocked_def entry_types assms(2))
  show "sqlWagered line = 0" using type by (elim disjE) (simp_all add: sqlWagered_def entry_types)
  show "le_entryType line \<in> set KNOWN_USER_LEDGER_ENTRY_TYPES"
    using type by (elim disjE) (simp_all add: KNOWN_USER_LEDGER_ENTRY_TYPES_def)
qed

text \<open>
  C22. A deferral keeps the wallet in agreement with its ledger in every case but one: hold'em's
  withdrawable payouts.  Those also move the locked balance, which the line records under
  other names than the check reads, so afterwards the check finds drift, and in strict mode the
  next operation on the wallet that asks it is refused.
\<close>

theorem deferrals_keep_wallet_check_but_for_holdem:
  assumes "applyWalletDelta uid amt bt dir (resolveFundingSourceForGame g) rt ri w = Inr w'" and "walletsAgree w"
  shows "walletsAgree w' \<longleftrightarrow> \<not> (g = Game_holdem \<and> bt = Bt_withdrawable \<and> 0 < amt)"
proof (cases "0 < amt \<and> \<not> usesPlayModeEarnedAsset bt (resolveFundingSourceForGame g)")
  case True
  then have pos: "0 < amt" and kind: "\<not> usesPlayModeEarnedAsset bt (resolveFundingSourceForGame g)" by simp_all
  let ?src = "resolveFundingSourceForGame g" and ?d = "signedDeferral dir amt"
  note run = assms(1) [unfolded walletPath [OF pos kind]]
  then obtain wl u where load: "dw_wallets w uid = Some wl" "dw_users w uid = Some u"
    by (auto simp: walletDeferral_def bind_res_Inr_iff loadLockedBalances_Inr)
  note A = walletDeferral_fields [OF run load]
  from A(8) obtain line where ledger: "dw_ledger w' = dw_ledger w @ [line]" and own: "le_userId line = uid"
    and line: "le_entryType line = deferralEntryType dir" "lockedDelta line = 0"
      "le_balanceType line = Some (if bt = Bt_bonus then ''bonus'' else ''withdrawable'')" and amt: "le_amount line = ?d"
    by blast
  note effects = deferral_line_effects [OF line, unfolded amt]
  have old: "wl = expectedWallet uid (dw_ledger w)" "unknownEntryTypes uid (dw_ledger w) = []"
    using assms(2) load(1) by (auto simp: walletsAgree_def walletDrifts_def walletRow_def dest: spec [of _ uid])
  have others: "\<not> walletDrifts v (walletRow v w') (dw_ledger w')" if "v \<noteq> uid" for v
  proof -
    have "filter (\<lambda>e. le_userId e = v) (dw_ledger w') = filter (\<lambda>e. le_userId e = v) (dw_ledger w)"
      using own that by (simp add: ledger)
    moreover have "walletRow v w' = walletRow v w" using that by (simp add: walletRow_def A(1))
    moreover have "\<not> walletDrifts v (walletRow v w) (dw_ledger w)" using assms(2) by (simp add: walletsAgree_def)
    ultimately show ?thesis by (simp add: walletDrifts_def expectedWallet_def unknownEntryTypes_def)
  qed
  have "expectedWallet uid (dw_ledger w') = deferredWallet ?d bt None wl"
    unfolding old(1) by (simp add: expectedWallet_def ledger own effects deferredWallet_def Let_def)
  moreover have "unknownEntryTypes uid (dw_ledger w') = []"
    using old(2) effects(5) by (simp add: unknownEntryTypes_def ledger own)
  ultimately have "walletDrifts uid (walletRow uid w') (dw_ledger w') \<longleftrightarrow> deferredWallet ?d bt ?src wl \<noteq> deferredWallet ?d bt None wl"
    by (simp add: walletDrifts_def walletRow_def A(1))
  also have "\<dots> \<longleftrightarrow> g = Game_holdem"
    using pos by (cases wl; cases g) (auto simp: deferredWallet_def signedDeferral_def)
  finally have "walletsAgree w' \<longleftrightarrow> g \<noteq> Game_holdem" using others unfolding walletsAgree_def by metis
  moreover have "g = Game_holdem \<Longrightarrow> bt = Bt_withdrawable" using kind by (cases bt) (simp_all add: usesPlayModeEarnedAsset_def)
  ultimately show ?thesis using pos by blast
next
  case False
  have "dw_wallets w' = dw_wallets w \<and> dw_ledger w' = dw_ledger w"
  proof (cases "0 < amt")
    case True
    with False have kind: "usesPlayModeEarnedAsset bt (resolveFundingSourceForGame g)" by simp
    from assms(1) [unfolded assetPath [OF True kind]] show ?thesis
      by (auto simp: bind_res_Inr_iff onEconomy_Inr setUserPool_def split: if_splits)
  qed (use assms(1) in \<open>simp add: applyWalletDelta_def\<close>)
  then have "walletsAgree w'" using assms(2) by (simp add: walletsAgree_def walletRow_def)
  moreover have "\<not> (g = Game_holdem \<and> bt = Bt_withdrawable \<and> 0 < amt)" using False by (auto simp: usesPlayModeEarnedAsset_def)
  ultimately show ?thesis by simp
qed

theorem deferrals_keep_wallet_check_but_for_holdem_witness:
  "\<exists>w'. applyWalletDelta 1 300 Bt_withdrawable Withhold (resolveFundingSourceForGame Game_holdem) ''holdem_table'' (Some 4)
       sampleDrawWorld = Inr w' \<and> wl_locked (walletRow 1 w') = 300 \<and> \<not> walletsAgree w' \<and>
     assertWalletLedgerInvariant True 1 (walletRow 1 w') (dw_ledger w') = Inl (InternalInvariant ''Wallet ledger invariant failed.'')"
proof -
  let ?wl = "zeroWallet\<lparr>wl_withdrawable := 5000\<rparr>"
  have load: "dw_wallets sampleDrawWorld 1 = Some ?wl" "dw_users sampleDrawWorld 1 \<noteq> None"
    by (simp_all add: sampleDrawWorld_def)
  then obtain u where u: "dw_users sampleDrawWorld 1 = Some u" by blast
  have "walletCovered (deferredWallet (signedDeferral Withhold 300) Bt_withdrawable (Some Fund_locked_balance) ?wl)"
    by (simp add: walletCovered_def deferredWallet_def signedDeferral_def zeroWallet_def)
  with walletDeferral_runs [OF load(1) u] obtain w' where
    move: "walletDeferral 1 300 Bt_withdrawable Withhold (Some Fund_locked_balance) (Some 4) sampleDrawWorld = Inr w'" by blast
  have kind: "\<not> usesPlayModeEarnedAsset Bt_withdrawable (resolveFundingSourceForGame Game_holdem)"
    by (simp add: usesPlayModeEarnedAsset_def)
  have run: "applyWalletDelta 1 300 Bt_withdrawable Withhold (resolveFundingSourceForGame Game_holdem) ''holdem_table'' (Some 4)
      sampleDrawWorld = Inr w'"
    using move by (subst walletPath [OF _ kind]) simp_all
  note A = walletDeferral_fields [OF move load(1) u]
  have drift: "\<not> walletsAgree w'"
    using deferrals_keep_wallet_check_but_for_holdem [OF run sample_walletsAgree] by simp
  have "walletRow v w' = walletRow v sampleDrawWorld \<and>
      filter (\<lambda>e. le_userId e = v) (dw_ledger w') = filter (\<lambda>e. le_userId e = v) (dw_ledger sampleDrawWorld)" if "v \<noteq> 1" for v
    using A(8) that by (auto simp: walletRow_def A(1))
  then have "\<not> walletDrifts v (walletRow v w') (dw_ledger w')" if "v \<noteq> 1" for v
    using sample_walletsAgree that by (simp add: walletsAgree_def walletDrifts_def expectedWallet_def unknownEntryTypes_def)
  with drift have "walletDrifts 1 (walletRow 1 w') (dw_ledger w')" unfolding walletsAgree_def by metis
  moreover have "wl_locked (walletRow 1 w') = 300"
    by (simp add: walletRow_def A(1) deferredWallet_def signedDeferral_def zeroWallet_def)
  ultimately show ?thesis using run drift by (simp add: assertWalletLedgerInvariant_def)
qed

end
