(* ===== verification/Play_Runs.thy ===== *)
theory Play_Runs
  imports Deferred_Effects
begin

text \<open>
  Draws under play modes, over all runs: the snapshots that are stored, the payouts that are
  pending, and the accounts they come from and return to.
\<close>

subsection \<open>Snapshots\<close>

text \<open>The modes that hold payouts back.\<close>

definition defersPayouts :: "play_mode_type \<Rightarrow> bool" where
  "defersPayouts m = (m = Mode_deferred_double \<or> m = Mode_snowball)"

definition snapshotWf :: "play_snapshot \<Rightarrow> bool" where
  "snapshotWf s =
     (snapshotOk s \<and> 0 \<le> ps_pendingPayoutAmount s \<and> 0 \<le> ps_pendingPayoutCount s \<and>
      (\<not> defersPayouts (ps_type s) \<longrightarrow> ps_pendingPayoutAmount s = 0 \<and> ps_pendingPayoutCount s = 0) \<and>
      (if ps_type s = Mode_snowball
       then ps_snowballCarryAmount s = min (ps_pendingPayoutAmount s) SNOWBALL_ENVELOPE_CAP \<and>
            ps_snowballEnvelopeAmount s = max (ps_pendingPayoutAmount s - SNOWBALL_ENVELOPE_CAP) 0
       else ps_snowballCarryAmount s = 0 \<and> ps_snowballEnvelopeAmount s = 0))"

text \<open>What a snapshot says is pending.\<close>

definition pendingOf :: "play_snapshot \<Rightarrow> cents \<times> int" where
  "pendingOf s = (ps_pendingPayoutAmount s, ps_pendingPayoutCount s)"

lemma snapshotWf_default [simp]: "snapshotWf (createDefaultPlayModeSnapshot t)"
  by (simp add: snapshotWf_def) (simp add: createDefaultPlayModeSnapshot_def SNOWBALL_ENVELOPE_CAP_def)

lemma pendingOf_default [simp]: "pendingOf (createDefaultPlayModeSnapshot t) = (0, 0)"
  by (simp add: pendingOf_def createDefaultPlayModeSnapshot_def)

lemma requested_parts:
  assumes "\<And>s. stored = Some s \<Longrightarrow> ps_type s = m"
  shows "ps_type (resolveRequestedPlayMode None (Some m) stored) = m"
    "ps_streak (resolveRequestedPlayMode None (Some m) stored) = (case stored of None \<Rightarrow> 0 | Some s \<Rightarrow> ps_streak s)"
    "pendingOf (resolveRequestedPlayMode None (Some m) stored) = (case stored of None \<Rightarrow> (0, 0) | Some s \<Rightarrow> pendingOf s)"
    "(\<And>s. stored = Some s \<Longrightarrow> snapshotWf s) \<Longrightarrow> snapshotWf (resolveRequestedPlayMode None (Some m) stored)"
proof -
  define p where "p = parseStoredSnapshot m stored"
  have p: "ps_type p = m" "p = (case stored of None \<Rightarrow> createDefaultPlayModeSnapshot m | Some s \<Rightarrow> s)"
    using assms by (auto simp: p_def parseStoredSnapshot_def split: option.splits)
  have r: "resolveRequestedPlayMode None (Some m) stored =
     (if m = Mode_standard \<or> m = Mode_dual_bet
         then p\<lparr>ps_type := m, ps_appliedMultiplier := STATIC_MODE_MULTIPLIERS m,
                ps_nextMultiplier := STATIC_MODE_MULTIPLIERS m, ps_carryActive := False\<rparr>
         else p\<lparr>ps_type := m, ps_appliedMultiplier := 1,
                ps_nextMultiplier := (if m = Mode_snowball then clampMultiplier (ps_nextMultiplier p) 1 else 1),
                ps_carryActive := hasPendingPayout p\<rparr>)"
    by (simp add: resolveRequestedPlayMode_def p_def Let_def)
  show "ps_type (resolveRequestedPlayMode None (Some m) stored) = m" by (simp add: r)
  show "ps_streak (resolveRequestedPlayMode None (Some m) stored) = (case stored of None \<Rightarrow> 0 | Some s \<Rightarrow> ps_streak s)"
    by (simp add: r p(2) createDefaultPlayModeSnapshot_def split: option.splits)
  show "pendingOf (resolveRequestedPlayMode None (Some m) stored) = (case stored of None \<Rightarrow> (0, 0) | Some s \<Rightarrow> pendingOf s)"
    by (simp add: r p(2) pendingOf_def createDefaultPlayModeSnapshot_def split: option.splits)
  assume wf: "\<And>s. stored = Some s \<Longrightarrow> snapshotWf s"
  then have "snapshotWf p" by (simp add: p(2) split: option.splits)
  with p(1) show "snapshotWf (resolveRequestedPlayMode None (Some m) stored)"
    unfolding r by (cases m) (auto simp: snapshotWf_def snapshotOk_def clampMultiplier_def defersPayouts_def)
qed

lemma settled_parts:
  "ps_type (resolveSettledPlayMode s oc) = ps_type s"
  "ps_lastOutcome (resolveSettledPlayMode s oc) = Some oc"
  "defersPayouts (ps_type s) \<Longrightarrow> pendingOf (resolveSettledPlayMode s oc) = pendingOf s"
  "snapshotWf s \<Longrightarrow> snapshotWf (resolveSettledPlayMode s oc)"
proof -
  show "ps_type (resolveSettledPlayMode s oc) = ps_type s" "ps_lastOutcome (resolveSettledPlayMode s oc) = Some oc"
    by (cases "ps_type s"; simp add: resolveSettledPlayMode_def Let_def)+
  show "defersPayouts (ps_type s) \<Longrightarrow> pendingOf (resolveSettledPlayMode s oc) = pendingOf s"
    by (auto simp: defersPayouts_def resolveSettledPlayMode_def pendingOf_def Let_def)
  assume wf: "snapshotWf s"
  then have "snapshotOk (resolveSettledPlayMode s oc)" by (simp add: snapshotWf_def snapshotOk_settled)
  with wf show "snapshotWf (resolveSettledPlayMode s oc)"
    unfolding snapshotWf_def
    by (cases "ps_type s") (simp_all add: resolveSettledPlayMode_def Let_def defersPayouts_def
        createDefaultPlayModeSnapshot_def SNOWBALL_ENVELOPE_CAP_def)
qed

lemma cleared_parts:
  "ps_type (clearPendingPayoutSnapshot s) = ps_type s" "pendingOf (clearPendingPayoutSnapshot s) = (0, 0)"
  "snapshotWf s \<Longrightarrow> snapshotWf (clearPendingPayoutSnapshot s)"
  by (simp_all add: clearPendingPayoutSnapshot_def pendingOf_def)
    (auto simp: snapshotWf_def snapshotOk_def SNOWBALL_ENVELOPE_CAP_def)

subsection \<open>Pending payouts\<close>

abbreviation pendingRows :: "nat \<Rightarrow> play_mode_type \<Rightarrow> play_world \<Rightarrow> deferred_row list" where
  "pendingRows v m w \<equiv> loadDeferredPayoutRows v Game_draw m Df_pending w"

definition rowsShown :: "deferred_row list \<Rightarrow> cents \<times> int" where
  "rowsShown rs = (sum_list (map df_amount rs), int (length rs))"

text \<open>All that is held back from the draws of a user.\<close>

definition heldBack :: "nat \<Rightarrow> play_world \<Rightarrow> cents" where
  "heldBack v w = sum_list (map df_amount (pendingRows v Mode_deferred_double w)) +
     sum_list (map df_amount (pendingRows v Mode_snowball w))"

definition luckOf :: "nat \<Rightarrow> play_world \<Rightarrow> cents" where
  "luckOf v w = available_balance (balanceOf v B_LUCK (dw_economy (pw_draw w)))"

definition rowsOk :: "play_world \<Rightarrow> bool" where
  "rowsOk w =
     (distinct (map df_id (pw_deferred w)) \<and>
      (\<forall>r \<in> set (pw_deferred w). df_id r < pw_nextDeferred w \<and> df_balanceType r = Bt_bonus \<and> 0 < df_amount r))"

text \<open>What is left alone by a change of the rows of one user and mode.\<close>

definition sameElsewhere :: "nat \<Rightarrow> play_mode_type \<Rightarrow> play_world \<Rightarrow> play_world \<Rightarrow> bool" where
  "sameElsewhere uid m w w' =
     (pw_sessions w' = pw_sessions w \<and> pw_modes w' = pw_modes w \<and> pw_nextSession w' = pw_nextSession w \<and>
      (\<forall>v n. (v, n) \<noteq> (uid, m) \<longrightarrow> pendingRows v n w' = pendingRows v n w))"

lemma sameElsewhere_refl [simp]: "sameElsewhere uid m w w"
  by (simp add: sameElsewhere_def)

lemma sameElsewhere_trans: "sameElsewhere uid m a b \<Longrightarrow> sameElsewhere uid m b c \<Longrightarrow> sameElsewhere uid m a c"
  by (simp add: sameElsewhere_def)

text \<open>
  A movement of deferred payouts: the asset account and what is held back of the user exchange
  an amount, for all others both stay.
\<close>

definition exchanges :: "nat \<Rightarrow> play_world \<Rightarrow> play_world \<Rightarrow> bool" where
  "exchanges uid w w' =
     (\<exists>d. movedLuck uid d (pw_draw w) (pw_draw w') \<and> (\<forall>v. luckOf v w' + heldBack v w' = luckOf v w + heldBack v w))"

lemma exchanges_refl [simp]: "exchanges uid w w"
  by (auto simp: exchanges_def movedLuck_def intro!: exI [of _ 0])

lemma exchanges_trans: "exchanges uid a b \<Longrightarrow> exchanges uid b c \<Longrightarrow> exchanges uid a c"
  unfolding exchanges_def by (metis movedLuck_trans)

lemma heldBack_elsewhere:
  assumes "sameElsewhere uid m w w'"
  shows "v \<noteq> uid \<Longrightarrow> heldBack v w' = heldBack v w"
    "defersPayouts m \<Longrightarrow> heldBack uid w' - sum_list (map df_amount (pendingRows uid m w')) =
       heldBack uid w - sum_list (map df_amount (pendingRows uid m w))"
  using assms by (auto simp: heldBack_def sameElsewhere_def defersPayouts_def)

lemma defer_draw_payout:
  assumes "deferPayout uid Game_draw m amt Bt_bonus sid rt ri w = Inr w'" and "0 < amt" and "defersPayouts m" and "rowsOk w"
  shows "rowsOk w' \<and> sameElsewhere uid m w w' \<and> exchanges uid w w' \<and>
    rowsShown (pendingRows uid m w') = (fst (rowsShown (pendingRows uid m w)) + amt, snd (rowsShown (pendingRows uid m w)) + 1)"
proof -
  from assms(1) obtain dw where
    dw: "applyWalletDelta uid amt Bt_bonus Withhold (resolveFundingSourceForGame Game_draw) rt ri (pw_draw w) = Inr dw"
    and w': "w' = createDeferredPayout uid Game_draw m Bt_bonus amt sid rt ri (w\<lparr>pw_draw := dw\<rparr>)"
    by (auto simp: deferPayout_def withholdDeferredPayout_def bind_res_Inr_iff)
  from draw_deferral [OF assms(2) dw] have luck: "movedLuck uid (- amt) (pw_draw w) (pw_draw w')"
    by (simp add: w' createDeferredPayout_def)
  obtain r where rows: "pendingRows uid m w' = pendingRows uid m w @ [r]" "df_amount r = amt"
    by (simp add: w' createDeferredPayout_def loadDeferredPayoutRows_def)
  have else_: "sameElsewhere uid m w w'"
    by (auto simp: sameElsewhere_def w' createDeferredPayout_def loadDeferredPayoutRows_def)
  have "rowsOk w'" using assms(2,4) by (auto simp: rowsOk_def w' createDeferredPayout_def less_Suc_eq)
  moreover have "luckOf v w' + heldBack v w' = luckOf v w + heldBack v w" for v
  proof (cases "v = uid")
    case True
    with luck heldBack_elsewhere(2) [OF else_ assms(3)] rows show ?thesis by (simp add: luckOf_def movedLuck_def)
  next
    case False
    with luck heldBack_elsewhere(1) [OF else_] show ?thesis by (simp add: luckOf_def movedLuck_def)
  qed
  ultimately show ?thesis using luck else_ rows by (auto simp: exchanges_def rowsShown_def)
qed

lemma releaseRows_draw:
  assumes "releaseRows uid (resolveFundingSourceForGame Game_draw) rt ri rs w = Inr w'"
    and "\<forall>r \<in> set rs. df_balanceType r = Bt_bonus \<and> 0 < df_amount r"
  shows "movedLuck uid (sum_list (map df_amount rs)) w w'"
  using assms
proof (induction rs arbitrary: w)
  case Nil
  then show ?case by (simp add: movedLuck_def)
next
  case (Cons r rs)
  then obtain w1 where "releaseDeferredPayout uid (df_amount r) Bt_bonus (resolveFundingSourceForGame Game_draw) rt ri w = Inr w1"
    and rest: "releaseRows uid (resolveFundingSourceForGame Game_draw) rt ri rs w1 = Inr w'"
    by (auto simp: bind_res_Inr_iff)
  then have "movedLuck uid (df_amount r) w w1"
    using draw_deferral [of "df_amount r" uid Release rt ri w w1] Cons.prems(2) by (simp add: releaseDeferredPayout_def)
  with Cons.IH [OF rest] Cons.prems(2) show ?case by (auto intro: movedLuck_trans)
qed

lemma release_draw_payouts:
  assumes "releasePendingDeferredPayoutsForMode uid Game_draw m trigger w = Inr (res, w')" and "defersPayouts m" and "rowsOk w"
  shows "rowsOk w' \<and> sameElsewhere uid m w w' \<and> exchanges uid w w' \<and> pendingRows uid m w' = [] \<and>
    fst res = pendingRows uid m w \<and>
    (\<forall>r \<in> set (pendingRows uid m w). \<exists>r' \<in> set (pw_deferred w'). df_id r' = df_id r \<and> df_status r' = Df_released)"
proof (cases "pendingRows uid m w = []")
  case True
  with assms show ?thesis by (auto simp: releasePendingDeferredPayoutsForMode_def Let_def)
next
  case False
  define rows where "rows = pendingRows uid m w"
  obtain rt ri where t: "(case trigger of None \<Rightarrow> ''play_mode_trigger'' | Some t \<Rightarrow> fst t) = rt"
    "(case trigger of None \<Rightarrow> None | Some t \<Rightarrow> snd t) = ri" by simp
  from assms(1) False obtain dw where
    dw: "releaseRows uid (resolveFundingSourceForGame Game_draw) rt ri rows (pw_draw w) = Inr dw"
    and w': "w' = markDeferredPayoutsReleased (map df_id rows) rt ri (w\<lparr>pw_draw := dw\<rparr>)" and res: "fst res = rows"
    by (auto simp: releasePendingDeferredPayoutsForMode_def Let_def bind_res_Inr_iff rows_def t)
  have ok: "\<forall>r \<in> set rows. df_balanceType r = Bt_bonus \<and> 0 < df_amount r"
    using assms(3) by (auto simp: rowsOk_def rows_def loadDeferredPayoutRows_def)
  have luck: "movedLuck uid (sum_list (map df_amount rows)) (pw_draw w) (pw_draw w')"
    using releaseRows_draw [OF dw ok] by (simp add: w' markDeferredPayoutsReleased_def)
  have mine: "df_id r \<in> df_id ` set rows \<longleftrightarrow> r \<in> set rows" if "r \<in> set (pw_deferred w)" for r
    using that assms(3) by (auto simp: rowsOk_def rows_def loadDeferredPayoutRows_def distinct_map dest: inj_onD)
  define mark where "mark r = (if df_id r \<in> df_id ` set rows
    then r\<lparr>df_status := Df_released, df_triggerReferenceType := Some rt, df_triggerReferenceId := ri\<rparr> else r)" for r :: deferred_row
  have def: "pw_deferred w' = map mark (pw_deferred w)" and ids: "df_id (mark r) = df_id r"
    and keep: "df_amount (mark r) = df_amount r" "df_balanceType (mark r) = df_balanceType r" for r
    by (simp_all add: w' markDeferredPayoutsReleased_def mark_def)
  have inRows: "r \<in> set rows \<longleftrightarrow> r \<in> set (pw_deferred w) \<and> df_userId r = uid \<and> df_gameKey r = Game_draw \<and>
      df_mode r = m \<and> df_status r = Df_pending" for r
    by (auto simp: rows_def loadDeferredPayoutRows_def)
  have marked: "mark r = (if r \<in> set rows
      then r\<lparr>df_status := Df_released, df_triggerReferenceType := Some rt, df_triggerReferenceId := ri\<rparr> else r)"
    if "r \<in> set (pw_deferred w)" for r
    using mine [OF that] by (simp add: mark_def)
  have paid: "\<not> (df_userId (mark r) = uid \<and> df_gameKey (mark r) = Game_draw \<and> df_mode (mark r) = m \<and> df_status (mark r) = Df_pending)"
    if "r \<in> set (pw_deferred w)" for r
    using inRows [of r] that unfolding marked [OF that] by simp
  have none: "pendingRows uid m w' = []"
    unfolding loadDeferredPayoutRows_def def filter_empty_conv set_map using paid by blast
  have others: "filter P (map mark xs) = filter P xs"
    if "\<And>r. r \<in> set xs \<Longrightarrow> r \<in> set rows \<Longrightarrow> \<not> P r \<and> \<not> P (mark r)" and "set xs \<subseteq> set (pw_deferred w)"
    for P and xs
    using that
  proof (induction xs)
    case (Cons r xs)
    have rest: "filter P (map mark xs) = filter P xs" using Cons by auto
    show ?case
    proof (cases "r \<in> set rows")
      case True
      then have "\<not> P r" "\<not> P (mark r)" using Cons.prems(1) [of r] by simp_all
      with rest show ?thesis by simp
    next
      case False
      then have "mark r = r" using marked [of r] Cons.prems(2) by simp
      with rest show ?thesis by simp
    qed
  qed simp
  have "pendingRows v n w' = pendingRows v n w" if "(v, n) \<noteq> (uid, m)" for v n
    unfolding loadDeferredPayoutRows_def def
  proof (rule others)
    fix r assume r: "r \<in> set (pw_deferred w)" "r \<in> set rows"
    then have "mark r = r\<lparr>df_status := Df_released, df_triggerReferenceType := Some rt, df_triggerReferenceId := ri\<rparr>"
      by (simp add: marked)
    moreover have "df_userId r = uid" "df_mode r = m" using inRows [of r] r(2) by simp_all
    ultimately show "\<not> (df_userId r = v \<and> df_gameKey r = Game_draw \<and> df_mode r = n \<and> df_status r = Df_pending) \<and>
        \<not> (df_userId (mark r) = v \<and> df_gameKey (mark r) = Game_draw \<and> df_mode (mark r) = n \<and> df_status (mark r) = Df_pending)"
      using that by auto
  qed simp
  then have else_: "sameElsewhere uid m w w'"
    by (simp add: sameElsewhere_def) (simp add: w' markDeferredPayoutsReleased_def)
  have same: "map df_id (pw_deferred w') = map df_id (pw_deferred w)" by (simp add: def ids)
  have "pw_nextDeferred w' = pw_nextDeferred w" by (simp add: w' markDeferredPayoutsReleased_def)
  then have "rowsOk w'" using assms(3) unfolding rowsOk_def same by (simp add: def ids keep)
  moreover have "luckOf v w' + heldBack v w' = luckOf v w + heldBack v w" for v
  proof (cases "v = uid")
    case True
    with luck heldBack_elsewhere(2) [OF else_ assms(2)] none show ?thesis by (simp add: luckOf_def movedLuck_def rows_def)
  next
    case False
    with luck heldBack_elsewhere(1) [OF else_] show ?thesis by (simp add: luckOf_def movedLuck_def)
  qed
  moreover have "mark r \<in> set (pw_deferred w') \<and> df_status (mark r) = Df_released" if "r \<in> set rows" for r
  proof -
    from that have "r \<in> set (pw_deferred w)" by (simp add: inRows)
    with that marked [OF this] show ?thesis unfolding def set_map by (intro conjI imageI) simp_all
  qed
  ultimately show ?thesis using luck else_ none res ids by (auto simp: exchanges_def rows_def)
qed

end
