(* ===== verification/Play_Requests.thy ===== *)
theory Play_Requests
  imports Play_Runs
begin

text \<open>
  A request for draws under a play mode, transaction by transaction: the invariant of the stored
  sessions and pending payouts, and the accounts of the players.
\<close>

subsection \<open>The policy of a settled round\<close>

text \<open>A snapshot agrees with the rows that are pending under its mode.\<close>

definition agrees :: "nat \<Rightarrow> play_snapshot \<Rightarrow> play_world \<Rightarrow> bool" where
  "agrees uid s w = (defersPayouts (ps_type s) \<longrightarrow> pendingOf s = rowsShown (pendingRows uid (ps_type s) w))"

lemma exchanges_ok: "exchanges uid w w' \<Longrightarrow> drawsOk (pw_draw w') = drawsOk (pw_draw w)"
  by (auto simp: exchanges_def movedLuck_ok)

lemma policy_draw:
  assumes "applySettledPlayModePayoutPolicy uid Game_draw oc s net Bt_bonus sid rt ri w = Inr (pm, w')"
    and ok: "rowsOk w" and wf: "snapshotWf s" and ag: "agrees uid s w"
  shows "rowsOk w' \<and> sameElsewhere uid (ps_type s) w w' \<and> exchanges uid w w' \<and> ps_type pm = ps_type s \<and>
    ps_streak pm = ps_streak s \<and> ps_lastOutcome pm = ps_lastOutcome s \<and> snapshotWf pm \<and> agrees uid pm w'"
proof (cases "ps_type s")
  case Mode_deferred_double
  show ?thesis
  proof (cases "net \<le> 0")
    case True
    with assms Mode_deferred_double show ?thesis
      by (auto simp: applySettledPlayModePayoutPolicy_def Let_def agrees_def pendingOf_def snapshotWf_def snapshotOk_def)
  next
    case False
    with assms(1) Mode_deferred_double have
      d: "deferPayout uid Game_draw Mode_deferred_double net Bt_bonus sid rt ri w = Inr w'" and
      pm: "pm = s\<lparr>ps_pendingPayoutAmount := ps_pendingPayoutAmount s + net,
        ps_pendingPayoutCount := ps_pendingPayoutCount s + 1, ps_carryActive := True\<rparr>"
      by (auto simp: applySettledPlayModePayoutPolicy_def Let_def bind_res_Inr_iff)
    from defer_draw_payout [OF d] False ok have
      "rowsOk w' \<and> sameElsewhere uid (ps_type s) w w' \<and> exchanges uid w w' \<and>
       rowsShown (pendingRows uid (ps_type s) w') = (fst (rowsShown (pendingRows uid (ps_type s) w)) + net,
         snd (rowsShown (pendingRows uid (ps_type s) w)) + 1)"
      by (simp add: defersPayouts_def Mode_deferred_double)
    moreover have "pendingOf s = rowsShown (pendingRows uid (ps_type s) w)"
      using ag by (simp add: agrees_def defersPayouts_def Mode_deferred_double)
    moreover have "snapshotWf pm" using wf False Mode_deferred_double
      by (auto simp: pm snapshotWf_def snapshotOk_def defersPayouts_def)
    ultimately show ?thesis
      by (cases "rowsShown (pendingRows uid (ps_type s) w)") (simp add: pm agrees_def pendingOf_def)
  qed
next
  case Mode_snowball
  have def: "defersPayouts (ps_type s)" by (simp add: defersPayouts_def Mode_snowball)
  define amt where "amt = (if net > 0 then ps_pendingPayoutAmount s + net else ps_pendingPayoutAmount s)"
  define cnt where "cnt = (if net > 0 then ps_pendingPayoutCount s + 1 else ps_pendingPayoutCount s)"
  from assms(1) obtain w1 where
    w1: "(if net > 0 then deferPayout uid Game_draw Mode_snowball net Bt_bonus sid rt ri w else Inr w) = Inr w1"
    and rest: "(if oc = Outcome_win \<or> oc = Outcome_push
       then Inr (s\<lparr>ps_pendingPayoutAmount := amt, ps_pendingPayoutCount := cnt,
                   ps_carryActive := (amt > 0), ps_snowballCarryAmount := min amt SNOWBALL_ENVELOPE_CAP,
                   ps_snowballEnvelopeAmount := max (amt - min amt SNOWBALL_ENVELOPE_CAP) 0\<rparr>, w1)
       else bind_res
         (if cnt > 0 \<or> amt > 0
          then bind_res (releasePendingDeferredPayoutsForMode uid Game_draw Mode_snowball (Some (rt, ri)) w1)
                 (\<lambda>(_, w2). Inr w2)
          else Inr w1) (\<lambda>w2. Inr (clearPendingPayoutSnapshot s, w2))) = Inr (pm, w')"
    unfolding applySettledPlayModePayoutPolicy_def Let_def Mode_snowball amt_def [symmetric] cnt_def [symmetric]
    by (auto simp: bind_res_Inr_iff)
  have one: "rowsOk w1 \<and> sameElsewhere uid (ps_type s) w w1 \<and> exchanges uid w w1 \<and>
      rowsShown (pendingRows uid (ps_type s) w1) = (amt, cnt)"
  proof (cases "net > 0")
    case True
    with w1 defer_draw_payout [of uid Mode_snowball net sid rt ri w w1] ok ag def show ?thesis
      by (auto simp: amt_def cnt_def agrees_def pendingOf_def Mode_snowball dest!: sym [of "(_, _)"])
  next
    case False
    with w1 ok ag def show ?thesis by (auto simp: amt_def cnt_def agrees_def pendingOf_def dest!: sym [of "(_, _)"])
  qed
  show ?thesis
  proof (cases "oc = Outcome_win \<or> oc = Outcome_push")
    case True
    with rest have pm: "pm = s\<lparr>ps_pendingPayoutAmount := amt, ps_pendingPayoutCount := cnt,
                   ps_carryActive := (amt > 0), ps_snowballCarryAmount := min amt SNOWBALL_ENVELOPE_CAP,
                   ps_snowballEnvelopeAmount := max (amt - min amt SNOWBALL_ENVELOPE_CAP) 0\<rparr>" and w': "w' = w1"
      by auto
    have "0 \<le> amt" "0 \<le> cnt" using wf by (simp_all add: amt_def cnt_def snapshotWf_def)
    then have "snapshotWf pm" using wf by (auto simp: pm snapshotWf_def snapshotOk_def Mode_snowball defersPayouts_def)
    with one show ?thesis by (simp add: pm w' agrees_def pendingOf_def)
  next
    case False
    with rest have pm: "pm = clearPendingPayoutSnapshot s"
      and w': "(if cnt > 0 \<or> amt > 0
          then bind_res (releasePendingDeferredPayoutsForMode uid Game_draw Mode_snowball (Some (rt, ri)) w1)
                 (\<lambda>(_, w2). Inr w2) else Inr w1) = Inr w'"
      by (auto simp: bind_res_Inr_iff)
    have two: "rowsOk w' \<and> sameElsewhere uid (ps_type s) w1 w' \<and> exchanges uid w1 w' \<and> pendingRows uid (ps_type s) w' = []"
    proof (cases "cnt > 0 \<or> amt > 0")
      case True
      with w' obtain res where "releasePendingDeferredPayoutsForMode uid Game_draw Mode_snowball (Some (rt, ri)) w1 = Inr (res, w')"
        by (auto simp: bind_res_Inr_iff)
      from release_draw_payouts [OF this] one def show ?thesis by (simp add: Mode_snowball)
    next
      case False
      with w' one show ?thesis by (auto simp: rowsShown_def)
    qed
    with one cleared_parts wf show ?thesis
      by (auto simp: pm agrees_def rowsShown_def clearPendingPayoutSnapshot_def
          intro: sameElsewhere_trans exchanges_trans)
  qed
qed (use assms in \<open>auto simp: applySettledPlayModePayoutPolicy_def Let_def agrees_def\<close>)

subsection \<open>Sessions\<close>

definition sessionsOk :: "play_world \<Rightarrow> bool" where
  "sessionsOk w =
     (distinct (map pl_id (pw_sessions w)) \<and>
      (\<forall>l \<in> set (pw_sessions w). pl_id l < pw_nextSession w \<and> ps_type (pl_snapshot l) = pl_mode l \<and> snapshotWf (pl_snapshot l)))"

text \<open>The session a round runs in is the last one.\<close>

definition lastSession :: "nat \<Rightarrow> nat \<Rightarrow> play_mode_type \<Rightarrow> play_world \<Rightarrow> bool" where
  "lastSession sid uid m w =
     (\<exists>xs l. pw_sessions w = xs @ [l] \<and> pl_id l = sid \<and> pl_userId l = uid \<and> pl_gameKey l = Game_draw \<and> pl_mode l = m)"

abbreviation latest :: "nat \<Rightarrow> play_mode_type \<Rightarrow> play_world \<Rightarrow> play_snapshot option" where
  "latest v m w \<equiv> loadLatestSnapshotForMode v Game_draw m w"

lemma find_rev_map:
  "(\<And>x. P (f x) = P x) \<Longrightarrow> find P (rev (map f xs)) = map_option f (find P (rev xs))"
  by (induction xs rule: rev_induct) auto

lemma latest_start:
  assumes "startPlayModeSession uid Game_draw s parent rt ei w = (sid, w')"
  shows "latest v m w' = (if v = uid \<and> m = ps_type s then Some s else latest v m w)"
    "lastSession sid uid (ps_type s) w'" "sid = pw_nextSession w" "pw_nextSession w' = Suc (pw_nextSession w)"
    "pw_draw w' = pw_draw w" "pw_deferred w' = pw_deferred w" "pw_nextDeferred w' = pw_nextDeferred w" "pw_modes w' = pw_modes w"
    "sessionsOk w \<Longrightarrow> snapshotWf s \<Longrightarrow> sessionsOk w'"
  using assms by (auto simp: startPlayModeSession_def loadLatestSnapshotForMode_def lastSession_def sessionsOk_def less_Suc_eq)
    (meson less_irrefl)

lemma settle_sessions:
  "pw_sessions (settlePlayModeSession sid s oc w) = map (\<lambda>l. if pl_id l = sid
     then l\<lparr>pl_status := Ps_settled, pl_outcome := Some oc, pl_snapshot := s\<rparr> else l) (pw_sessions w)"
  "pw_sessions (cancelPlayModeSession sid s w) = map (\<lambda>l. if pl_id l = sid
     then l\<lparr>pl_status := Ps_cancelled, pl_snapshot := s\<rparr> else l) (pw_sessions w)"
  by (simp_all add: settlePlayModeSession_def cancelPlayModeSession_def)

lemma settle_fields [simp]:
  "pw_draw (settlePlayModeSession sid s oc w) = pw_draw w" "pw_deferred (settlePlayModeSession sid s oc w) = pw_deferred w"
  "pw_nextDeferred (settlePlayModeSession sid s oc w) = pw_nextDeferred w"
  "pw_nextSession (settlePlayModeSession sid s oc w) = pw_nextSession w"
  "pw_draw (cancelPlayModeSession sid s w) = pw_draw w" "pw_deferred (cancelPlayModeSession sid s w) = pw_deferred w"
  "pw_nextDeferred (cancelPlayModeSession sid s w) = pw_nextDeferred w"
  "pw_nextSession (cancelPlayModeSession sid s w) = pw_nextSession w"
  "pw_draw (saveUserPlayModeState uid g s w) = pw_draw w" "pw_deferred (saveUserPlayModeState uid g s w) = pw_deferred w"
  "pw_nextDeferred (saveUserPlayModeState uid g s w) = pw_nextDeferred w"
  "pw_nextSession (saveUserPlayModeState uid g s w) = pw_nextSession w"
  "pw_sessions (saveUserPlayModeState uid g s w) = pw_sessions w"
  "latest v m (saveUserPlayModeState uid g s w) = latest v m w"
  by (simp_all add: settlePlayModeSession_def cancelPlayModeSession_def saveUserPlayModeState_def loadLatestSnapshotForMode_def)

text \<open>Changing the snapshot of one session, in general and for the last one.\<close>

lemma latest_update:
  assumes "pw_sessions w' = map (\<lambda>l. if pl_id l = sid then f l else l) (pw_sessions w)"
    and "\<And>l. pl_userId (f l) = pl_userId l \<and> pl_gameKey (f l) = pl_gameKey l \<and> pl_mode (f l) = pl_mode l \<and> pl_snapshot (f l) = s \<and> pl_id (f l) = pl_id l"
  shows "(\<forall>l \<in> set (pw_sessions w). pl_id l = sid \<longrightarrow> pl_mode l \<noteq> m) \<Longrightarrow> latest v m w' = latest v m w"
    "lastSession sid uid n w \<Longrightarrow> sessionsOk w \<Longrightarrow>
       latest v m w' = (if v = uid \<and> m = n then Some s else latest v m w) \<and>
       (ps_type s = n \<longrightarrow> snapshotWf s \<longrightarrow> pw_nextSession w' = pw_nextSession w \<longrightarrow> sessionsOk w')"
proof -
  let ?P = "\<lambda>l. pl_userId l = v \<and> pl_gameKey l = Game_draw \<and> pl_mode l = m"
  let ?g = "\<lambda>l. if pl_id l = sid then f l else l"
  have "find ?P (rev (map ?g xs)) = map_option ?g (find ?P (rev xs))" for xs
    by (rule find_rev_map) (use assms(2) in auto)
  then have gen: "latest v m w' = map_option (\<lambda>l. if pl_id l = sid then s else pl_snapshot l) (find ?P (rev (pw_sessions w)))"
    using assms(2) by (auto simp: loadLatestSnapshotForMode_def assms(1) option.map_comp comp_def intro!: map_option_cong)
  have found: "find ?P (rev xs) = Some l \<Longrightarrow> l \<in> set xs \<and> ?P l" for xs l
    using find_SomeD [of ?P "rev xs" l] by simp
  show "latest v m w' = latest v m w" if "\<forall>l \<in> set (pw_sessions w). pl_id l = sid \<longrightarrow> pl_mode l \<noteq> m"
    unfolding gen unfolding loadLatestSnapshotForMode_def
  proof (rule map_option_cong [OF refl])
    fix l assume "find ?P (rev (pw_sessions w)) = Some l"
    with found [OF this] that show "(if pl_id l = sid then s else pl_snapshot l) = pl_snapshot l" by auto
  qed
  assume "lastSession sid uid n w" and ok: "sessionsOk w"
  then obtain xs l where l: "pw_sessions w = xs @ [l]" "pl_id l = sid" "pl_userId l = uid" "pl_gameKey l = Game_draw" "pl_mode l = n"
    by (auto simp: lastSession_def)
  have fresh: "pl_id k \<noteq> sid" if "k \<in> set xs" for k
    using ok imageI [OF that, of pl_id] unfolding sessionsOk_def l(1) l(2) [symmetric] by auto
  have "latest v m w' = (if v = uid \<and> m = n then Some s else latest v m w)"
  proof (cases "v = uid \<and> m = n")
    case True
    with l show ?thesis unfolding gen by simp
  next
    case False
    then have "\<not> ?P l" using l by auto
    then have "find ?P (rev (pw_sessions w)) = find ?P (rev xs)" by (auto simp: l(1))
    moreover have "map_option (\<lambda>k. if pl_id k = sid then s else pl_snapshot k) (find ?P (rev xs)) = map_option pl_snapshot (find ?P (rev xs))"
    proof (rule map_option_cong [OF refl])
      fix k assume "find ?P (rev xs) = Some k"
      with found [OF this] fresh [of k] show "(if pl_id k = sid then s else pl_snapshot k) = pl_snapshot k" by simp
    qed
    ultimately show ?thesis unfolding gen if_not_P [OF False] by (simp add: loadLatestSnapshotForMode_def)
  qed
  moreover have "sessionsOk w'" if "ps_type s = n" "snapshotWf s" "pw_nextSession w' = pw_nextSession w"
  proof -
    have ids: "map pl_id (pw_sessions w') = map pl_id (pw_sessions w)" using assms(2) by (simp add: assms(1))
    have sess: "pw_sessions w' = xs @ [f l]" using fresh l by (simp add: assms(1) map_idI)
    show ?thesis using ok that assms(2) [of l] l unfolding sessionsOk_def ids by (auto simp: sess)
  qed
  ultimately show "latest v m w' = (if v = uid \<and> m = n then Some s else latest v m w) \<and>
       (ps_type s = n \<longrightarrow> snapshotWf s \<longrightarrow> pw_nextSession w' = pw_nextSession w \<longrightarrow> sessionsOk w')" by simp
qed

text \<open>A session whose rows all have one mode, as every session has.\<close>

definition sessionMode :: "nat \<Rightarrow> play_mode_type \<Rightarrow> play_world \<Rightarrow> bool" where
  "sessionMode sid m w = (sid < pw_nextSession w \<and> (\<forall>l \<in> set (pw_sessions w). pl_id l = sid \<longrightarrow> pl_mode l = m))"

lemma lastSession_mode:
  assumes "lastSession sid uid m w" and "sessionsOk w"
  shows "sessionMode sid m w"
proof -
  from assms(1) obtain xs l where l: "pw_sessions w = xs @ [l]" "pl_id l = sid" "pl_mode l = m" by (auto simp: lastSession_def)
  have "pl_mode k = m" if "k \<in> set (pw_sessions w)" "pl_id k = sid" for k
    using assms(2) l that imageI [of k "set xs" pl_id] unfolding sessionsOk_def by auto
  moreover have "sid < pw_nextSession w" using assms(2) l by (auto simp: sessionsOk_def)
  ultimately show ?thesis by (simp add: sessionMode_def)
qed

lemma sessionsOk_update:
  assumes "pw_sessions w' = map (\<lambda>l. if pl_id l = sid then f l else l) (pw_sessions w)"
    and "\<And>l. pl_mode (f l) = pl_mode l \<and> pl_snapshot (f l) = s \<and> pl_id (f l) = pl_id l"
    and "sessionsOk w" and "sessionMode sid (ps_type s) w" and "snapshotWf s" and "pw_nextSession w' = pw_nextSession w"
  shows "sessionsOk w'"
proof -
  have ids: "map pl_id (pw_sessions w') = map pl_id (pw_sessions w)" using assms(2) by (simp add: assms(1))
  show ?thesis using assms(2-6) unfolding sessionsOk_def ids sessionMode_def by (auto simp: assms(1))
qed

subsection \<open>The invariant\<close>

text \<open>The rows that are pending are those that the latest snapshot of the mode shows.\<close>

definition accounted :: "nat \<Rightarrow> play_mode_type \<Rightarrow> play_world \<Rightarrow> bool" where
  "accounted v m w =
     (rowsShown (pendingRows v m w) = (case latest v m w of None \<Rightarrow> (0, 0) | Some s \<Rightarrow> pendingOf s))"

definition playOk :: "play_world \<Rightarrow> bool" where
  "playOk w =
     (drawsOk (pw_draw w) \<and> rowsOk w \<and> sessionsOk w \<and>
      (\<forall>v m. defersPayouts m \<longrightarrow> accounted v m w))"

text \<open>Between the transactions of a request the snapshot in hand stands for the stored one.\<close>

definition stageOk :: "nat \<Rightarrow> play_snapshot \<Rightarrow> play_world \<Rightarrow> bool" where
  "stageOk uid s w =
     (drawsOk (pw_draw w) \<and> rowsOk w \<and> sessionsOk w \<and> snapshotWf s \<and> agrees uid s w \<and>
      (\<forall>v m. defersPayouts m \<longrightarrow> (v, m) \<noteq> (uid, ps_type s) \<longrightarrow> accounted v m w))"

definition playAccount :: "play_world \<Rightarrow> draw_record list \<Rightarrow> play_world \<Rightarrow> bool" where
  "playAccount w rs w' =
     (dw_draws (pw_draw w') = dw_draws (pw_draw w) @ rs \<and>
      (\<forall>v. luckOf v w' + heldBack v w' = luckOf v w + heldBack v w + rewardsOf v rs))"

lemma playAccount_refl [simp]: "playAccount w [] w"
  by (simp add: playAccount_def)

lemma playAccount_trans: "playAccount a rs b \<Longrightarrow> playAccount b qs c \<Longrightarrow> playAccount a (rs @ qs) c"
  by (simp add: playAccount_def)

lemma exchanges_account: "exchanges uid w w' \<Longrightarrow> playAccount w [] w'"
  by (auto simp: exchanges_def playAccount_def movedLuck_def)

text \<open>Worlds that differ in preferences only.\<close>

lemma same_books:
  assumes "pw_draw w' = pw_draw w" and "pw_deferred w' = pw_deferred w"
  shows "playAccount w [] w'" "pendingRows v m w' = pendingRows v m w" "agrees uid s w' = agrees uid s w"
    "pw_nextDeferred w' = pw_nextDeferred w \<Longrightarrow> rowsOk w' = rowsOk w"
  using assms by (simp_all add: playAccount_def luckOf_def heldBack_def loadDeferredPayoutRows_def agrees_def rowsOk_def)

lemma same_stage:
  assumes "pw_draw w' = pw_draw w" and "pw_deferred w' = pw_deferred w" and "pw_nextDeferred w' = pw_nextDeferred w"
    and "sessionsOk w \<Longrightarrow> sessionsOk w'" and "\<And>v m. defersPayouts m \<Longrightarrow> (v, m) \<noteq> (uid, ps_type s) \<Longrightarrow> latest v m w' = latest v m w"
    and "stageOk uid s w"
  shows "stageOk uid s w'"
proof -
  note old = assms(6) [unfolded stageOk_def]
  have "accounted v m w'" if "defersPayouts m" "(v, m) \<noteq> (uid, ps_type s)" for v m
    using old that unfolding accounted_def same_books(2) [OF assms(1,2)] assms(5) [OF that] by simp
  then show ?thesis
    using old assms(4) unfolding stageOk_def assms(1) same_books(3) [OF assms(1,2)] same_books(4) [OF assms(1-3)] by simp
qed

lemma stage_done:
  assumes "stageOk uid s w" and "defersPayouts (ps_type s) \<Longrightarrow> latest uid (ps_type s) w = Some s"
  shows "playOk w"
proof -
  have "accounted v m w" if "defersPayouts m" for v m
  proof (cases "(v, m) = (uid, ps_type s)")
    case True
    with assms that show ?thesis by (simp add: stageOk_def agrees_def accounted_def)
  next
    case False
    with assms(1) that show ?thesis unfolding stageOk_def by simp
  qed
  with assms(1) show ?thesis by (simp add: playOk_def stageOk_def)
qed

subsection \<open>The steps of a request\<close>

lemma locked_fields:
  assumes "lockUserPlayModeState uid g w = (row, w')"
  shows "pw_draw w' = pw_draw w" "pw_deferred w' = pw_deferred w" "pw_nextDeferred w' = pw_nextDeferred w"
    "pw_sessions w' = pw_sessions w" "pw_nextSession w' = pw_nextSession w"
  using assms by (auto simp: lockUserPlayModeState_def Let_def split: option.splits)

lemma sessions_only:
  "pw_sessions w' = pw_sessions w \<Longrightarrow> latest v m w' = latest v m w"
  "pw_sessions w' = pw_sessions w \<Longrightarrow> pw_nextSession w' = pw_nextSession w \<Longrightarrow> sessionsOk w' = sessionsOk w"
  by (simp_all add: loadLatestSnapshotForMode_def sessionsOk_def)

lemma latest_found:
  assumes "latest v m w = Some s" and "sessionsOk w"
  shows "ps_type s = m" "snapshotWf s"
proof -
  from assms(1) obtain l where "find (\<lambda>l. pl_userId l = v \<and> pl_gameKey l = Game_draw \<and> pl_mode l = m) (rev (pw_sessions w)) = Some l"
    "pl_snapshot l = s" by (auto simp: loadLatestSnapshotForMode_def)
  with find_SomeD [OF this(1)] assms(2) show "ps_type s = m" "snapshotWf s" by (auto simp: sessionsOk_def)
qed

text \<open>A snapshot as it is loaded for a mode.\<close>

lemma loaded_stage:
  assumes "playOk w"
  shows "stageOk uid (loadPlayModeSnapshotForMode uid Game_draw m w) w"
    "ps_type (loadPlayModeSnapshotForMode uid Game_draw m w) = m"
    "ps_streak (loadPlayModeSnapshotForMode uid Game_draw m w) = (case latest uid m w of None \<Rightarrow> 0 | Some s \<Rightarrow> ps_streak s)"
proof -
  let ?s = "loadPlayModeSnapshotForMode uid Game_draw m w"
  have ok: "sessionsOk w" using assms by (simp add: playOk_def)
  note parts = requested_parts [of "latest uid m w" m, folded loadPlayModeSnapshotForMode_def]
  show type: "ps_type ?s = m" and "ps_streak ?s = (case latest uid m w of None \<Rightarrow> 0 | Some s \<Rightarrow> ps_streak s)"
    using parts(1,2) latest_found(1) [OF _ ok] by blast+
  have "snapshotWf ?s" "pendingOf ?s = (case latest uid m w of None \<Rightarrow> (0, 0) | Some s \<Rightarrow> pendingOf s)"
    using parts(3,4) latest_found [OF _ ok] by blast+
  then show "stageOk uid ?s w" using assms type by (simp add: stageOk_def playOk_def agrees_def accounted_def)
qed

lemma prepare_stage:
  assumes "preparePlayModeExecution uid Game_draw rm w = (s, w')" and "playOk w"
  shows "stageOk uid s w'" "playOk w'" "playAccount w [] w'" "\<And>m. rm = Some m \<Longrightarrow> ps_type s = m"
    "pw_draw w' = pw_draw w" "pw_deferred w' = pw_deferred w"
    "\<exists>m. s = loadPlayModeSnapshotForMode uid Game_draw m w"
proof -
  obtain row w1 where lock: "lockUserPlayModeState uid Game_draw w = (row, w1)" by (cases "lockUserPlayModeState uid Game_draw w")
  note fields = locked_fields [OF lock]
  have s: "s = loadPlayModeSnapshotForMode uid Game_draw (resolveRequestedType rm (fst row)) w1"
    and w': "w' = saveUserPlayModeState uid Game_draw s w1"
    using assms(1) by (auto simp: preparePlayModeExecution_def lock Let_def)
  have loaded: "loadPlayModeSnapshotForMode uid Game_draw m w1 = loadPlayModeSnapshotForMode uid Game_draw m w" for m
    by (simp add: loadPlayModeSnapshotForMode_def loadLatestSnapshotForMode_def fields(4))
  then show "\<exists>m. s = loadPlayModeSnapshotForMode uid Game_draw m w" by (auto simp: s)
  show same: "pw_draw w' = pw_draw w" "pw_deferred w' = pw_deferred w" by (simp_all add: w' fields)
  have more: "pw_nextDeferred w' = pw_nextDeferred w" "pw_sessions w' = pw_sessions w" "pw_nextSession w' = pw_nextSession w"
    by (simp_all add: w' fields)
  show "playAccount w [] w'" using same by (rule same_books)
  note all = sessions_only [OF more(2)] same_books [OF same] more(1,3)
  show "playOk w'" using assms(2) unfolding playOk_def accounted_def by (simp add: all same)
  show "ps_type s = m" if "rm = Some m" for m
    using loaded_stage(2) [OF assms(2)] that by (simp add: s loaded resolveRequestedType_def)
  from loaded_stage(1) [OF assms(2)] have "stageOk uid s w" by (simp add: s loaded)
  then show "stageOk uid s w'" unfolding stageOk_def accounted_def by (simp add: all same)
qed

lemma moved_stage:
  assumes "stageOk uid s w" and "rowsOk w'" and "sameElsewhere uid (ps_type s) w w'" and "exchanges uid w w'"
    and "ps_type t = ps_type s" and "snapshotWf t" and "agrees uid t w'"
  shows "stageOk uid t w'"
proof -
  have "sessionsOk w'" "\<And>v m. latest v m w' = latest v m w"
    using assms(1,3) by (simp_all add: stageOk_def sameElsewhere_def sessionsOk_def loadLatestSnapshotForMode_def)
  moreover have "drawsOk (pw_draw w')" using assms(1) exchanges_ok [OF assms(4)] by (simp add: stageOk_def)
  moreover have "accounted v m w'" if "defersPayouts m" "(v, m) \<noteq> (uid, ps_type s)" for v m
  proof -
    have "accounted v m w" using assms(1) that by (simp add: stageOk_def)
    moreover have "pendingRows v m w' = pendingRows v m w" using assms(3) that(2) by (simp add: sameElsewhere_def)
    ultimately show ?thesis using \<open>\<And>v m. latest v m w' = latest v m w\<close> by (simp add: accounted_def)
  qed
  ultimately show ?thesis using assms(2,5-7) by (simp add: stageOk_def)
qed

lemma refresh_stage:
  assumes "refreshSnapshotAfterPendingRelease uid Game_draw s w = Inr (t, w')" and "stageOk uid s w"
  shows "stageOk uid t w'" "playAccount w [] w'" "ps_type t = ps_type s" "ps_streak t = ps_streak s"
    "ps_type s = Mode_deferred_double \<Longrightarrow> pendingRows uid Mode_deferred_double w' = [] \<and>
       (\<forall>r \<in> set (pendingRows uid Mode_deferred_double w). \<exists>r' \<in> set (pw_deferred w'). df_id r' = df_id r \<and> df_status r' = Df_released)"
proof -
  have "stageOk uid t w' \<and> playAccount w [] w' \<and> ps_type t = ps_type s \<and> ps_streak t = ps_streak s \<and>
    (ps_type s = Mode_deferred_double \<longrightarrow> pendingRows uid Mode_deferred_double w' = [] \<and>
       (\<forall>r \<in> set (pendingRows uid Mode_deferred_double w). \<exists>r' \<in> set (pw_deferred w'). df_id r' = df_id r \<and> df_status r' = Df_released))"
  proof (cases "ps_type s \<noteq> Mode_deferred_double \<or> ps_pendingPayoutCount s \<le> 0")
    case True
    with assms(1) have same: "t = s" "w' = w" by (auto simp: refreshSnapshotAfterPendingRelease_def)
    have "pendingRows uid Mode_deferred_double w = []" if "ps_type s = Mode_deferred_double"
      using that True assms(2) by (auto simp: stageOk_def agrees_def defersPayouts_def pendingOf_def rowsShown_def)
    with same assms(2) show ?thesis by simp
  next
    case False
    then have type: "ps_type s = Mode_deferred_double" and some: "0 < ps_pendingPayoutCount s" by simp_all
    note run = assms(1) [unfolded refreshSnapshotAfterPendingRelease_def if_not_P [OF False] Let_def, unfolded type]
    then obtain p where p: "releasePendingDeferredPayoutsForMode uid Game_draw Mode_deferred_double None w = Inr p"
      by (auto simp: bind_res_Inr_iff)
    obtain rows sum w1 where "p = ((rows, sum), w1)" by (metis surj_pair)
    with p run have rel: "releasePendingDeferredPayoutsForMode uid Game_draw Mode_deferred_double None w = Inr ((rows, sum), w1)"
      and next_: "(if rows = [] then Inr (s, w1)
        else Inr (clearPendingPayoutSnapshot s, saveUserPlayModeState uid Game_draw (clearPendingPayoutSnapshot s) w1)) = Inr (t, w')"
      by (auto split: if_splits)
    have ok: "rowsOk w" "snapshotWf s" using assms(2) by (simp_all add: stageOk_def)
    note R = release_draw_payouts [OF rel _ ok(1)]
    have def: "defersPayouts Mode_deferred_double" by (simp add: defersPayouts_def)
    have "pendingRows uid Mode_deferred_double w \<noteq> []"
      using assms(2) some type by (auto simp: stageOk_def agrees_def defersPayouts_def pendingOf_def rowsShown_def)
    with next_ R [OF def] have t: "t = clearPendingPayoutSnapshot s" and w': "w' = saveUserPlayModeState uid Game_draw t w1"
      by auto
    have stage: "stageOk uid t w1"
      by (rule moved_stage [OF assms(2)])
        (use R [OF def] type cleared_parts ok(2) in \<open>auto simp: t agrees_def rowsShown_def\<close>)
    have "stageOk uid t w'" by (rule same_stage [OF _ _ _ _ _ stage]) (simp_all add: w' sessionsOk_def)
    moreover have "playAccount w [] w'"
      using playAccount_trans [OF exchanges_account same_books(1), of uid w w1 w'] R [OF def] by (simp add: w')
    moreover have "pendingRows uid Mode_deferred_double w' = pendingRows uid Mode_deferred_double w1"
      by (rule same_books) (simp_all add: w')
    moreover have "ps_streak t = ps_streak s" by (simp add: t clearPendingPayoutSnapshot_def)
    ultimately show ?thesis using R [OF def] by (simp add: t cleared_parts(1)) (simp add: w')
  qed
  then show "stageOk uid t w'" "playAccount w [] w'" "ps_type t = ps_type s" "ps_streak t = ps_streak s"
    "ps_type s = Mode_deferred_double \<Longrightarrow> pendingRows uid Mode_deferred_double w' = [] \<and>
       (\<forall>r \<in> set (pendingRows uid Mode_deferred_double w). \<exists>r' \<in> set (pw_deferred w'). df_id r' = df_id r \<and> df_status r' = Df_released)"
    by blast+
qed

end
