(* ===== verification/Play_Books.thy ===== *)
theory Play_Books
  imports Play_Requests
begin

text \<open>
  Whole requests for draws under a play mode, and runs of them: the invariant is kept, and what
  the players hold and what is held back from them grows by the rewards of the draws alone.
\<close>

subsection \<open>Draws and sessions\<close>

text \<open>The records of a batch are the player's own, and its rewards are theirs.\<close>

definition ownRecords :: "nat \<Rightarrow> draw_record list \<Rightarrow> bool" where
  "ownRecords uid rs = (\<forall>r \<in> set rs. rd_userId r = uid \<and> 0 \<le> rd_rewardAmount r)"

lemma ownRecords_append [simp]: "ownRecords uid (rs @ qs) \<longleftrightarrow> ownRecords uid rs \<and> ownRecords uid qs"
  by (auto simp: ownRecords_def)

lemma ownRecords_rewards:
  assumes "ownRecords uid rs"
  shows "rewardsOf v rs = (if v = uid then sum_list (map rd_rewardAmount rs) else 0)"
    "0 \<le> sum_list (map rd_rewardAmount rs)"
proof -
  have "filter (\<lambda>r. rd_userId r = v) rs = (if v = uid then rs else [])"
    using assms by (auto simp: ownRecords_def filter_id_conv filter_empty_conv)
  then show "rewardsOf v rs = (if v = uid then sum_list (map rd_rewardAmount rs) else 0)" by (simp add: rewardsOf_def)
  show "0 \<le> sum_list (map rd_rewardAmount rs)"
    by (rule sum_list_nonneg) (use assms in \<open>auto simp: ownRecords_def\<close>)
qed

lemma runBatch_own:
  assumes "runBatch envs cfg nonce pm n is uid w = Inr (rs, w')" and "drawsOk w"
  shows "ownRecords uid rs"
  using assms
proof (induction "is" arbitrary: w rs)
  case Nil
  then show ?case by (simp add: ownRecords_def)
next
  case (Cons i "is")
  from Cons.prems(1) obtain r w1 rs' where
    one: "executeDrawInTransaction (envs i) cfg False
        \<lparr>do_clientNonce = resolveBatchClientNonce nonce i n, do_playMode = Some pm\<rparr> uid w = Inr (r, w1)"
    and rest: "runBatch envs cfg nonce pm n is uid w1 = Inr (rs', w')" and rs: "rs = r # rs'"
    by (auto simp: bind_res_Inr_iff split_def)
  have ok: "prizesOk w" "walletsAgree w" using Cons.prems(2) by (simp_all add: drawsOk_def)
  with one have "drawsOk w1" unfolding drawsOk_def by (blast intro: draw_keeps_prizes draw_keeps_wallets)
  note later = Cons.IH [OF rest this]
  from draw_facts [OF one ok(1)] obtain u sd sel where
    "drawFacts (envs i) cfg False \<lparr>do_clientNonce = resolveBatchClientNonce nonce i n, do_playMode = Some pm\<rparr> uid w r w1 u sd sel" .
  then have "rd_userId r = uid" by (rule drawFactsD)
  moreover have "0 \<le> rd_rewardAmount r" using draw_accounts [OF one ok(1)] by (simp add: drawsAccount_def)
  ultimately show ?case using later by (simp add: rs ownRecords_def)
qed

lemma draw_stage:
  assumes "drawInPlay env leg n nonce s uid w = Inr (res, w')" and "stageOk uid t w"
  shows "stageOk uid t w'" "playAccount w (dp_records res) w'" "pw_sessions w' = pw_sessions w"
    "pw_nextSession w' = pw_nextSession w" "pw_deferred w' = pw_deferred w"
    "dp_playMode res = resolveSettledPlayMode s (classifyDrawPlayModeOutcome (dp_records res))"
    "length (dp_records res) = nat (n * resolveExecutionCountMultiplier s)" "ownRecords uid (dp_records res)"
proof -
  from assms(1) obtain dw where
    run: "executeResolvedDrawPlayInTransaction (py_strict env) (py_draw env leg) (py_config env) n nonce s uid (pw_draw w) = Inr (res, dw)"
    and w': "w' = w\<lparr>pw_draw := dw\<rparr>" by (auto simp: drawInPlay_def bind_res_Inr_iff)
  have "drawsOk (pw_draw w)" using assms(2) by (simp add: stageOk_def)
  note books = runBatch_accounts [OF batch_parts(2) [OF run] this]
  show "ownRecords uid (dp_records res)" by (rule runBatch_own [OF batch_parts(2) [OF run] \<open>drawsOk (pw_draw w)\<close>])
  show "pw_sessions w' = pw_sessions w" "pw_nextSession w' = pw_nextSession w" "pw_deferred w' = pw_deferred w"
    by (simp_all add: w')
  show "dp_playMode res = resolveSettledPlayMode s (classifyDrawPlayModeOutcome (dp_records res))"
    using batch_parts(4) [OF run] .
  show "length (dp_records res) = nat (n * resolveExecutionCountMultiplier s)" using books by simp
  show "playAccount w (dp_records res) w'"
    using books by (simp add: playAccount_def drawsAccount_def luckOf_def heldBack_def loadDeferredPayoutRows_def w')
  show "stageOk uid t w'"
    using assms(2) books
    by (simp add: stageOk_def rowsOk_def sessionsOk_def agrees_def accounted_def loadDeferredPayoutRows_def
        loadLatestSnapshotForMode_def w')
qed

lemma start_stage:
  assumes "startPlayModeSession uid Game_draw s parent rt ei w = (sid, w')" and "stageOk uid s w"
  shows "stageOk uid s w'" "playOk w'" "playAccount w [] w'" "lastSession sid uid (ps_type s) w'"
proof -
  note start = latest_start [OF assms(1)]
  show stage: "stageOk uid s w'"
    by (rule same_stage [OF start(5,6,7) _ _ assms(2)])
      (use start(1,9) assms(2) in \<open>auto simp: stageOk_def\<close>)
  show "playOk w'" by (rule stage_done [OF stage]) (simp add: start(1))
  show "playAccount w [] w'" by (rule same_books [OF start(5,6)])
  show "lastSession sid uid (ps_type s) w'" by (rule start(2))
qed

text \<open>Writing a snapshot into the session of the round ends the stage.\<close>

lemma finish_stage:
  assumes "lastSession sid uid (ps_type s) w" and "stageOk uid s w"
    and "w' = settlePlayModeSession sid s oc w \<or> w' = cancelPlayModeSession sid s w"
  shows "stageOk uid s w'" "playOk w'" "playAccount w [] w'" "latest uid (ps_type s) w' = Some s"
proof -
  obtain f where f: "pw_sessions w' = map (\<lambda>l. if pl_id l = sid then f l else l) (pw_sessions w)"
    "\<And>l. pl_userId (f l) = pl_userId l \<and> pl_gameKey (f l) = pl_gameKey l \<and> pl_mode (f l) = pl_mode l \<and>
      pl_snapshot (f l) = s \<and> pl_id (f l) = pl_id l"
    using assms(3)
  proof
    assume "w' = settlePlayModeSession sid s oc w"
    then show thesis by (intro that [of "\<lambda>l. l\<lparr>pl_status := Ps_settled, pl_outcome := Some oc, pl_snapshot := s\<rparr>"])
        (simp_all add: settle_sessions)
  next
    assume "w' = cancelPlayModeSession sid s w"
    then show thesis by (intro that [of "\<lambda>l. l\<lparr>pl_status := Ps_cancelled, pl_snapshot := s\<rparr>"])
        (simp_all add: settle_sessions)
  qed
  have fields: "pw_draw w' = pw_draw w" "pw_deferred w' = pw_deferred w" "pw_nextDeferred w' = pw_nextDeferred w"
    "pw_nextSession w' = pw_nextSession w" using assms(3) by auto
  have ok: "sessionsOk w" "snapshotWf s" using assms(2) by (simp_all add: stageOk_def)
  note upd = latest_update(2) [OF f assms(1) ok(1)]
  show stage: "stageOk uid s w'"
    by (rule same_stage [OF fields(1-3) _ _ assms(2)]) (use upd ok(2) fields(4) in auto)
  show "latest uid (ps_type s) w' = Some s" using upd [of uid "ps_type s"] by simp
  with stage show "playOk w'" by (rule stage_done)
  show "playAccount w [] w'" by (rule same_books [OF fields(1,2)])
qed

lemma lastSession_same: "pw_sessions w' = pw_sessions w \<Longrightarrow> lastSession sid uid m w' = lastSession sid uid m w"
  by (simp add: lastSession_def)

lemma save_playOk: "playOk (saveUserPlayModeState uid g s w) = playOk w" "playAccount w rs (saveUserPlayModeState uid g s w') = playAccount w rs w'"
  by (simp_all add: playOk_def accounted_def rowsOk_def sessionsOk_def loadDeferredPayoutRows_def playAccount_def
      luckOf_def heldBack_def)

lemma stage_swap:
  assumes "stageOk uid s w" and "ps_type t = ps_type s" and "snapshotWf t" and "agrees uid t w"
  shows "stageOk uid t w"
  using assms by (simp add: stageOk_def)

subsection \<open>A round that settles\<close>

text \<open>What a settled round leaves pending, from its outcome, its reward and what was pending.\<close>

definition heldAfter :: "play_mode_type \<Rightarrow> play_mode_outcome \<Rightarrow> cents \<Rightarrow> cents \<times> int \<Rightarrow> cents \<times> int" where
  "heldAfter m oc reward pending =
     (let added = (if reward > 0 then (fst pending + reward, snd pending + 1) else pending)
      in case m of
           Mode_deferred_double \<Rightarrow> added
         | Mode_snowball \<Rightarrow> (if oc = Outcome_win \<or> oc = Outcome_push then added else (0, 0))
         | _ \<Rightarrow> pending)"

lemma policy_pending:
  assumes "applySettledPlayModePayoutPolicy uid g oc s net bt sid rt ri w = Inr (pm, w')"
  shows "pendingOf pm = heldAfter (ps_type s) oc net (pendingOf s)"
proof (cases "ps_type s")
  case Mode_deferred_double
  show ?thesis
  proof (cases "net \<le> 0")
    case True
    with assms have "pm = s\<lparr>ps_carryActive := (ps_pendingPayoutCount s > 0 \<or> ps_pendingPayoutAmount s > 0)\<rparr>"
      unfolding applySettledPlayModePayoutPolicy_def Let_def Mode_deferred_double by simp
    with True show ?thesis by (simp add: heldAfter_def pendingOf_def Mode_deferred_double)
  next
    case False
    with assms have "pm = s\<lparr>ps_pendingPayoutAmount := ps_pendingPayoutAmount s + net,
        ps_pendingPayoutCount := ps_pendingPayoutCount s + 1, ps_carryActive := True\<rparr>"
      unfolding applySettledPlayModePayoutPolicy_def Let_def Mode_deferred_double by (auto simp: bind_res_Inr_iff)
    with False show ?thesis by (simp add: heldAfter_def pendingOf_def Mode_deferred_double)
  qed
next
  case Mode_snowball
  define amt where "amt = (if net > 0 then ps_pendingPayoutAmount s + net else ps_pendingPayoutAmount s)"
  define cnt where "cnt = (if net > 0 then ps_pendingPayoutCount s + 1 else ps_pendingPayoutCount s)"
  from assms have "pendingOf pm = (if oc = Outcome_win \<or> oc = Outcome_push then (amt, cnt) else (0, 0))"
    unfolding applySettledPlayModePayoutPolicy_def Let_def Mode_snowball amt_def [symmetric] cnt_def [symmetric]
    by (cases "oc = Outcome_win \<or> oc = Outcome_push")
      (auto simp: bind_res_Inr_iff pendingOf_def clearPendingPayoutSnapshot_def)
  then show ?thesis by (simp add: heldAfter_def Mode_snowball amt_def cnt_def pendingOf_def)
qed (use assms in \<open>simp_all add: applySettledPlayModePayoutPolicy_def heldAfter_def pendingOf_def Let_def\<close>)

definition pendingElsewhere :: "nat \<Rightarrow> play_mode_type \<Rightarrow> play_world \<Rightarrow> play_world \<Rightarrow> bool" where
  "pendingElsewhere uid m w w' = (\<forall>v n. (v, n) \<noteq> (uid, m) \<longrightarrow> pendingRows v n w' = pendingRows v n w)"

lemma settled_round:
  assumes "executeSettledDraws env uid rq s sid w = Inr (res, w')" and "stageOk uid s w" and "lastSession sid uid (ps_type s) w"
  shows "playOk w' \<and> playAccount w (dp_records res) w' \<and> latest uid (ps_type s) w' = Some (dp_playMode res) \<and>
    ps_type (dp_playMode res) = ps_type s \<and> ownRecords uid (dp_records res) \<and> pendingElsewhere uid (ps_type s) w w' \<and>
    pendingOf (dp_playMode res) = heldAfter (ps_type s) (classifyDrawPlayModeOutcome (dp_records res))
      (sum_list (map rd_rewardAmount (dp_records res))) (pendingOf s)"
proof -
  from assms(1) obtain settled w1 pm w2 lastRec where
    draw: "drawInPlay env 0 (rq_count rq) (rq_clientNonce rq) s uid w = Inr (settled, w1)"
    and pol: "applySettledPlayModePayoutPolicy uid Game_draw (lastOutcomeOr (dp_playMode settled)) (dp_playMode settled)
      (sum_list (map rd_rewardAmount (dp_records settled))) Bt_bonus (Some sid) ''draw_record'' lastRec w1 = Inr (pm, w2)"
    and res: "res = settled\<lparr>dp_playMode := pm\<rparr>"
    and w': "w' = saveUserPlayModeState uid Game_draw pm (settlePlayModeSession sid pm (lastOutcomeOr pm) w2)"
    by (auto simp: executeSettledDraws_def Let_def bind_res_Inr_iff)
  note D = draw_stage [OF draw assms(2)]
  let ?t = "dp_playMode settled"
  have old: "snapshotWf s" "agrees uid s w1" using D(1) by (simp_all only: stageOk_def simp_thms)
  have type: "ps_type ?t = ps_type s" and wf: "snapshotWf ?t"
    unfolding D(6) by (rule settled_parts, rule settled_parts(4) [OF old(1)])
  have ag: "agrees uid ?t w1"
  proof (cases "defersPayouts (ps_type s)")
    case True
    then have "pendingOf ?t = pendingOf s" unfolding D(6) by (rule settled_parts)
    with old(2) show ?thesis unfolding agrees_def type by simp
  qed (simp add: agrees_def type)
  have stage1: "stageOk uid ?t w1" by (rule stage_swap [OF D(1) type wf ag])
  then have "rowsOk w1" by (simp add: stageOk_def)
  from policy_draw [OF pol this wf ag] have P: "rowsOk w2" "sameElsewhere uid (ps_type ?t) w1 w2" "exchanges uid w1 w2"
    "ps_type pm = ps_type ?t" "snapshotWf pm" "agrees uid pm w2" by blast+
  have stage2: "stageOk uid pm w2" by (rule moved_stage [OF stage1 P])
  have "pw_sessions w2 = pw_sessions w1" using P(2) unfolding sameElsewhere_def by (elim conjE)
  then have same: "pw_sessions w2 = pw_sessions w" unfolding D(3) .
  have last: "lastSession sid uid (ps_type pm) w2" unfolding lastSession_same [OF same] P(4) type by (rule assms(3))
  note fin = finish_stage [OF last stage2 disjI1 [OF refl], of "lastOutcomeOr pm"]
  have "playAccount w (dp_records settled @ [] @ []) (settlePlayModeSession sid pm (lastOutcomeOr pm) w2)"
    by (rule playAccount_trans [OF D(2) playAccount_trans [OF exchanges_account [OF P(3)] fin(3)]])
  then have books: "playAccount w (dp_records res) w'" unfolding w' save_playOk(2) by (simp add: res)
  have "playOk w'" unfolding w' save_playOk(1) by (rule fin(2))
  moreover have pm: "dp_playMode res = pm" "ps_type pm = ps_type s" using P(4) type by (simp_all add: res)
  moreover have "latest uid (ps_type s) w' = Some pm" using fin(4) unfolding pm(2) by (simp add: w')
  moreover have "ownRecords uid (dp_records res)" using D(8) by (simp add: res)
  moreover have "pendingElsewhere uid (ps_type s) w w'"
    using P(2) unfolding type pendingElsewhere_def sameElsewhere_def
    by (simp add: w' loadDeferredPayoutRows_def D(5) saveUserPlayModeState_def settlePlayModeSession_def)
  moreover have "pendingOf pm = heldAfter (ps_type s) (classifyDrawPlayModeOutcome (dp_records res))
      (sum_list (map rd_rewardAmount (dp_records res))) (pendingOf s)"
  proof -
    have "lastOutcomeOr ?t = classifyDrawPlayModeOutcome (dp_records res)"
      by (simp add: D(6) settled_parts lastOutcomeOr_def res)
    moreover have "pendingOf ?t = pendingOf s"
    proof (cases "defersPayouts (ps_type s)")
      case False
      with old(1) wf type show ?thesis by (simp add: pendingOf_def snapshotWf_def)
    qed (simp add: D(6) settled_parts)
    ultimately show ?thesis using policy_pending [OF pol] by (simp add: type res)
  qed
  ultimately show ?thesis using books by simp
qed

subsection \<open>A dual bet\<close>

lemma leg_round:
  assumes "dualBetLeg env uid rq s parent ei w = Inr (res, w')" and "stageOk uid s w" and dual: "ps_type s = Mode_dual_bet"
    and par: "sessionMode parent Mode_dual_bet w"
  shows "stageOk uid s w'" "playAccount w (dp_records res) w'" "sessionMode parent Mode_dual_bet w'"
    "latest uid Mode_dual_bet w' = Some (dp_playMode res)"
    "dp_playMode res = resolveSettledPlayMode s (classifyDrawPlayModeOutcome (dp_records res))"
    "length (dp_records res) = nat (rq_count rq)"
    "\<exists>sid. sid \<noteq> parent \<and> lastSession sid uid Mode_dual_bet w'" "pw_deferred w' = pw_deferred w" "ownRecords uid (dp_records res)"
proof -
  obtain sid w1 where start: "startPlayModeSession uid Game_draw s (Some parent) ''draw_request'' ei w = (sid, w1)"
    by (cases "startPlayModeSession uid Game_draw s (Some parent) ''draw_request'' ei w")
  from assms(1) obtain w2 where
    draw: "drawInPlay env ei (rq_count rq) (buildDualBetClientNonce (rq_clientNonce rq) ei) s uid w1 = Inr (res, w2)"
    and w': "w' = settlePlayModeSession sid (dp_playMode res) (classifyDrawPlayModeOutcome (dp_records res)) w2"
    by (auto simp: dualBetLeg_def start bind_res_Inr_iff)
  note S = start_stage [OF start assms(2)]
  note D = draw_stage [OF draw S(1)]
  let ?t = "dp_playMode res"
  have t: "ps_type ?t = Mode_dual_bet" "snapshotWf ?t" "agrees uid ?t w2"
    using settled_parts D(1) dual by (simp_all add: D(6) stageOk_def agrees_def defersPayouts_def)
  have stage2: "stageOk uid ?t w2" using D(1) t dual by (simp add: stageOk_def)
  have last: "lastSession sid uid (ps_type ?t) w2" using S(4) t(1) dual by (simp add: lastSession_same [OF D(3)])
  note fin = finish_stage [OF last stage2 disjI1 [OF refl], of "classifyDrawPlayModeOutcome (dp_records res)", folded w']
  show "stageOk uid s w'" using fin(1) t(1) dual assms(2) by (simp add: stageOk_def agrees_def defersPayouts_def)
  show "pw_deferred w' = pw_deferred w" by (simp add: w' D(5) latest_start(6) [OF start])
  show "ownRecords uid (dp_records res)" by (rule D(8))
  show "playAccount w (dp_records res) w'"
    using playAccount_trans [OF S(3) playAccount_trans [OF D(2) fin(3)]] by simp
  show "latest uid Mode_dual_bet w' = Some ?t" using fin(4) t(1) by simp
  show "dp_playMode res = resolveSettledPlayMode s (classifyDrawPlayModeOutcome (dp_records res))" by (rule D(6))
  show "length (dp_records res) = nat (rq_count rq)"
    using D(7) dual by (simp add: resolveExecutionCountMultiplier_def)
  have new: "sid \<noteq> parent" using par latest_start(3) [OF start] by (simp add: sessionMode_def)
  have modes: "sessionMode parent Mode_dual_bet w1"
  proof -
    from S(4) dual obtain xs l where l: "pw_sessions w1 = xs @ [l]" "pl_id l = sid" "pl_mode l = Mode_dual_bet"
      by (auto simp: lastSession_def)
    moreover have "xs = pw_sessions w" using start l(1) by (auto simp: startPlayModeSession_def)
    ultimately show ?thesis using par latest_start(4) [OF start] by (auto simp: sessionMode_def)
  qed
  then have "sessionMode parent Mode_dual_bet w2" by (simp add: sessionMode_def D(3,4))
  then show "sessionMode parent Mode_dual_bet w'"
    by (auto simp: sessionMode_def w' settle_sessions)
  have "lastSession sid uid Mode_dual_bet w'"
  proof -
    from last t(1) obtain xs l where "pw_sessions w2 = xs @ [l]" "pl_id l = sid" "pl_userId l = uid"
      "pl_gameKey l = Game_draw" "pl_mode l = Mode_dual_bet" by (auto simp: lastSession_def)
    then show ?thesis by (auto simp: lastSession_def w' settle_sessions)
  qed
  with new show "\<exists>sid. sid \<noteq> parent \<and> lastSession sid uid Mode_dual_bet w'" by blast
qed

lemma dual_round:
  assumes "executeDualBetDraws env uid rq s w = Inr (res, w')" and "stageOk uid s w" and dual: "ps_type s = Mode_dual_bet"
  shows "playOk w' \<and> playAccount w (dp_records res) w' \<and> pw_deferred w' = pw_deferred w \<and> ownRecords uid (dp_records res) \<and>
    (\<exists>r1 r2. dp_records res = r1 @ r2 \<and> length r1 = nat (rq_count rq) \<and> length r2 = nat (rq_count rq) \<and>
       dp_playMode res = resolveSettledPlayMode s (classifyDrawPlayModeOutcome (r1 @ r2)) \<and>
       latest uid Mode_dual_bet w' = Some (resolveSettledPlayMode s (classifyDrawPlayModeOutcome r2)))"
proof -
  obtain parent w1 where start: "startPlayModeSession uid Game_draw s None ''draw_request'' 0 w = (parent, w1)"
    by (cases "startPlayModeSession uid Game_draw s None ''draw_request'' 0 w")
  from assms(1) obtain res1 w2 res2 w3 where
    leg1: "dualBetLeg env uid rq s parent 1 w1 = Inr (res1, w2)" and leg2: "dualBetLeg env uid rq s parent 2 w2 = Inr (res2, w3)"
    and res: "res = mergeDrawPlayResults (rq_count rq) s [res1, res2]"
    and w': "w' = saveUserPlayModeState uid Game_draw (dp_playMode res)
      (settlePlayModeSession parent (dp_playMode res) (classifyDrawPlayModeOutcome (dp_records res)) w3)"
    by (auto simp: executeDualBetDraws_def start bind_res_Inr_iff Let_def)
  note S = start_stage [OF start assms(2)]
  have ok1: "sessionsOk w1" using S(1) by (simp add: stageOk_def)
  have par: "sessionMode parent Mode_dual_bet w1" using lastSession_mode [OF S(4) ok1] dual by simp
  note L1 = leg_round [OF leg1 S(1) dual par]
  note L2 = leg_round [OF leg2 L1(1) dual L1(3)]
  let ?w4 = "settlePlayModeSession parent (dp_playMode res) (classifyDrawPlayModeOutcome (dp_records res)) w3"
  have records: "dp_records res = dp_records res1 @ dp_records res2"
    and pm: "dp_playMode res = resolveSettledPlayMode s (classifyDrawPlayModeOutcome (dp_records res1 @ dp_records res2))"
    by (simp_all add: res mergeDrawPlayResults_def Let_def)
  have wf: "snapshotWf (dp_playMode res)" "ps_type (dp_playMode res) = Mode_dual_bet"
    using settled_parts assms(2) dual by (simp_all add: pm stageOk_def)
  have sess: "sessionsOk ?w4"
    by (rule sessionsOk_update [where w = w3 and sid = parent and s = "dp_playMode res"])
      (use L2(1,3) wf in \<open>auto simp: settle_sessions stageOk_def\<close>)
  have other: "latest v m ?w4 = latest v m w3" if "m \<noteq> Mode_dual_bet" for v m
    by (rule latest_update(1) [OF settle_sessions(1)]) (use L2(3) that in \<open>auto simp: sessionMode_def\<close>)
  have "stageOk uid s ?w4"
    by (rule same_stage [OF _ _ _ _ _ L2(1)]) (use sess other in \<open>auto simp: defersPayouts_def\<close>)
  then have "playOk ?w4" by (rule stage_done) (simp add: dual defersPayouts_def)
  moreover have "playAccount w (dp_records res) w'"
    using playAccount_trans [OF S(3) playAccount_trans [OF L1(2) L2(2)]]
    by (simp add: w' records save_playOk playAccount_def luckOf_def heldBack_def loadDeferredPayoutRows_def)
  moreover have "latest uid Mode_dual_bet ?w4 = latest uid Mode_dual_bet w3"
  proof -
    from L2(7) obtain sid xs l where l: "sid \<noteq> parent" "pw_sessions w3 = xs @ [l]" "pl_id l = sid" "pl_userId l = uid"
      "pl_gameKey l = Game_draw" "pl_mode l = Mode_dual_bet" by (auto simp: lastSession_def)
    then show ?thesis by (auto simp: loadLatestSnapshotForMode_def settle_sessions)
  qed
  ultimately have "playOk w'" "playAccount w (dp_records res) w'"
    "latest uid Mode_dual_bet w' = Some (resolveSettledPlayMode s (classifyDrawPlayModeOutcome (dp_records res2)))"
    using L2(4,5) by (simp_all add: w' save_playOk)
  moreover have "pw_deferred w' = pw_deferred w" by (simp add: w' L2(8) L1(8) latest_start(6) [OF start])
  moreover have "ownRecords uid (dp_records res)" using L1(9) L2(9) by (simp add: records)
  ultimately show ?thesis using L1(6) L2(6) records pm by blast
qed

subsection \<open>Whole requests\<close>

definition recordsOf :: "draw_play_result res \<Rightarrow> draw_record list" where
  "recordsOf answer = (case answer of Inl _ \<Rightarrow> [] | Inr res \<Rightarrow> dp_records res)"

lemma play_request:
  assumes "executeDrawPlayWithMode env uid rq w = (answer, w')" and "playOk w"
  shows "playOk w' \<and> playAccount w (recordsOf answer) w'"
proof -
  obtain prepared w1 where prep: "preparePlayModeExecution uid Game_draw (rq_playMode rq) w = (prepared, w1)"
    by (cases "preparePlayModeExecution uid Game_draw (rq_playMode rq) w")
  note P = prepare_stage [OF prep assms(2)]
  note run = assms(1) [unfolded executeDrawPlayWithMode_def prep, simplified]
  show ?thesis
  proof (cases "refreshSnapshotAfterPendingRelease uid Game_draw prepared w1")
    case (Inl e)
    with run P(2,3) show ?thesis by (auto simp: recordsOf_def)
  next
    case (Inr r)
    obtain s w2 where r: "r = (s, w2)" by (cases r)
    note R = refresh_stage [OF Inr [unfolded r] P(1)]
    note sofar = playAccount_trans [OF P(3) R(2)]
    show ?thesis
    proof (cases "ps_type s = Mode_dual_bet")
      case True
      have ok2: "playOk w2" by (rule stage_done [OF R(1)]) (simp add: True defersPayouts_def)
      show ?thesis
      proof (cases "executeDualBetDraws env uid rq s w2")
        case (Inl e)
        with run Inr r True have "answer = Inl e" "w' = w2" by auto
        with ok2 sofar show ?thesis by (simp add: recordsOf_def)
      next
        case (Inr q)
        obtain res w3 where q: "q = (res, w3)" by (cases q)
        with run r True Inr \<open>refreshSnapshotAfterPendingRelease uid Game_draw prepared w1 = Inr r\<close>
        have "answer = Inr res" "w' = w3" by auto
        with dual_round [OF Inr [unfolded q] R(1) True] playAccount_trans [OF sofar, of "dp_records res" w3]
        show ?thesis by (simp add: recordsOf_def)
      qed
    next
      case False
      obtain sid w3 where start: "startPlayModeSession uid Game_draw s None ''draw_request'' 0 w2 = (sid, w3)"
        by (cases "startPlayModeSession uid Game_draw s None ''draw_request'' 0 w2")
      note S = start_stage [OF start R(1)]
      note sofar3 = playAccount_trans [OF sofar S(3)]
      show ?thesis
      proof (cases "executeSettledDraws env uid rq s sid w3")
        case (Inl e)
        with run Inr r False start have a: "answer = Inl e" "w' = cancelPlayModeSession sid s w3" by auto
        from finish_stage(2,3) [OF S(4,1) disjI2 [OF a(2)]] playAccount_trans [OF sofar3] a(1) show ?thesis
          by (fastforce simp: recordsOf_def)
      next
        case (Inr q)
        obtain res w4 where q: "q = (res, w4)" by (cases q)
        with run r False start Inr \<open>refreshSnapshotAfterPendingRelease uid Game_draw prepared w1 = Inr r\<close>
        have "answer = Inr res" "w' = w4" by auto
        with settled_round [OF Inr [unfolded q] S(1,4)] playAccount_trans [OF sofar3, of "dp_records res" w4]
        show ?thesis by (simp add: recordsOf_def)
      qed
    qed
  qed
qed

text \<open>The stages of a request that went through.\<close>

lemma refresh_elsewhere:
  assumes "refreshSnapshotAfterPendingRelease uid Game_draw s w = Inr (t, w')" and "rowsOk w"
  shows "pendingElsewhere uid (ps_type s) w w'" "ps_type s \<noteq> Mode_deferred_double \<Longrightarrow> t = s \<and> w' = w"
proof -
  show "pendingElsewhere uid (ps_type s) w w'"
  proof (cases "ps_type s \<noteq> Mode_deferred_double \<or> ps_pendingPayoutCount s \<le> 0")
    case False
    then have type: "ps_type s = Mode_deferred_double" by simp
    from assms(1) False obtain r w1 where
      rel: "releasePendingDeferredPayoutsForMode uid Game_draw (ps_type s) None w = Inr (r, w1)"
      and w': "pw_deferred w' = pw_deferred w1"
      by (auto simp: refreshSnapshotAfterPendingRelease_def Let_def bind_res_Inr_iff split: if_splits)
    have "sameElsewhere uid (ps_type s) w w1"
      using release_draw_payouts [OF rel _ assms(2)] by (simp add: type defersPayouts_def)
    then show ?thesis by (simp add: sameElsewhere_def pendingElsewhere_def loadDeferredPayoutRows_def w')
  qed (use assms(1) in \<open>auto simp: refreshSnapshotAfterPendingRelease_def pendingElsewhere_def\<close>)
  show "ps_type s \<noteq> Mode_deferred_double \<Longrightarrow> t = s \<and> w' = w"
    using assms(1) by (simp add: refreshSnapshotAfterPendingRelease_def)
qed

lemma play_parts:
  assumes "executeDrawPlayWithMode env uid rq w = (Inr res, w')" and "playOk w"
  obtains m s w2 where "stageOk uid s w2" "ps_type s = m" "playAccount w [] w2" "\<And>n. rq_playMode rq = Some n \<Longrightarrow> n = m"
    "ps_streak s = (case latest uid m w of None \<Rightarrow> 0 | Some t \<Rightarrow> ps_streak t)"
    "pendingElsewhere uid m w w2"
    "if m = Mode_deferred_double
     then pendingOf s = (0, 0) \<and> (\<forall>r \<in> set (pendingRows uid m w). \<exists>r' \<in> set (pw_deferred w2). df_id r' = df_id r \<and> df_status r' = Df_released)
     else pendingRows uid m w2 = pendingRows uid m w"
    "m = Mode_dual_bet \<and> executeDualBetDraws env uid rq s w2 = Inr (res, w') \<or>
     m \<noteq> Mode_dual_bet \<and> (\<exists>sid w3. startPlayModeSession uid Game_draw s None ''draw_request'' 0 w2 = (sid, w3) \<and>
       executeSettledDraws env uid rq s sid w3 = Inr (res, w'))"
proof -
  obtain prepared w1 where prep: "preparePlayModeExecution uid Game_draw (rq_playMode rq) w = (prepared, w1)"
    by (cases "preparePlayModeExecution uid Game_draw (rq_playMode rq) w")
  note P = prepare_stage [OF prep assms(2)]
  note run = assms(1) [unfolded executeDrawPlayWithMode_def prep, simplified]
  then obtain s w2 where ref: "refreshSnapshotAfterPendingRelease uid Game_draw prepared w1 = Inr (s, w2)"
    by (cases "refreshSnapshotAfterPendingRelease uid Game_draw prepared w1") auto
  note R = refresh_stage [OF ref P(1)]
  have "rowsOk w1" using P(1) by (simp add: stageOk_def)
  note E = refresh_elsewhere [OF ref this]
  have rows: "pendingRows v n w1 = pendingRows v n w" for v n by (simp add: loadDeferredPayoutRows_def P(6))
  let ?m = "ps_type s"
  obtain k where k: "prepared = loadPlayModeSnapshotForMode uid Game_draw k w" using P(7) by blast
  have km: "k = ?m" using loaded_stage(2) [OF assms(2), of uid k] R(3) k by simp
  show thesis
  proof (rule that [of s w2 ?m, OF R(1) refl])
    show "playAccount w [] w2" using playAccount_trans [OF P(3) R(2)] by simp
    show "n = ?m" if "rq_playMode rq = Some n" for n using P(4) [OF that] R(3) by simp
    show "ps_streak s = (case latest uid ?m w of None \<Rightarrow> 0 | Some t \<Rightarrow> ps_streak t)"
      using loaded_stage(3) [OF assms(2), of uid k] R(4) k km by simp
    show "pendingElsewhere uid ?m w w2" using E(1) R(3) rows by (simp add: pendingElsewhere_def)
    show "if ?m = Mode_deferred_double
     then pendingOf s = (0, 0) \<and> (\<forall>r \<in> set (pendingRows uid ?m w). \<exists>r' \<in> set (pw_deferred w2). df_id r' = df_id r \<and> df_status r' = Df_released)
     else pendingRows uid ?m w2 = pendingRows uid ?m w"
    proof (cases "?m = Mode_deferred_double")
      case True
      have "agrees uid s w2" using R(1) by (simp add: stageOk_def)
      then have "pendingOf s = (0, 0)" using R(3,5) True by (simp add: agrees_def defersPayouts_def rowsShown_def)
      with True R(3,5) rows show ?thesis by simp
    qed (use E(2) R(3) rows in simp)
    show "?m = Mode_dual_bet \<and> executeDualBetDraws env uid rq s w2 = Inr (res, w') \<or>
     ?m \<noteq> Mode_dual_bet \<and> (\<exists>sid w3. startPlayModeSession uid Game_draw s None ''draw_request'' 0 w2 = (sid, w3) \<and>
       executeSettledDraws env uid rq s sid w3 = Inr (res, w'))"
    proof (cases "?m = Mode_dual_bet")
      case False
      obtain sid w3 where start: "startPlayModeSession uid Game_draw s None ''draw_request'' 0 w2 = (sid, w3)"
        by (cases "startPlayModeSession uid Game_draw s None ''draw_request'' 0 w2")
      with False run ref show ?thesis by (auto split: sum.splits)
    qed (use run ref in \<open>auto split: sum.splits\<close>)
  qed
qed

subsection \<open>Runs\<close>

text \<open>
  Requests of players for draws under a mode, changes of a preferred mode in any game, and the
  draws and upkeep of seeds that go by no mode.
\<close>

datatype play_command =
    Pc_play play_env nat draw_play_request
  | Pc_mode nat play_game play_mode_type
  | Pc_draw bool draw_command

fun doPlay :: "play_command \<Rightarrow> play_world \<Rightarrow> play_world" where
  "doPlay (Pc_play env uid rq) w = snd (executeDrawPlayWithMode env uid rq w)"
| "doPlay (Pc_mode uid g mode) w = snd (setUserPlayModePreference uid g mode w)"
| "doPlay (Pc_draw strict c) w = w\<lparr>pw_draw := doDraw strict c (pw_draw w)\<rparr>"

definition runPlays :: "play_command list \<Rightarrow> play_world \<Rightarrow> play_world" where
  "runPlays cs w = fold doPlay cs w"

lemma doPlay_accounts:
  assumes "playOk w"
  shows "playOk (doPlay c w) \<and> (\<exists>rs. playAccount w rs (doPlay c w))"
proof (cases c)
  case (Pc_play env uid rq)
  obtain answer w' where "executeDrawPlayWithMode env uid rq w = (answer, w')"
    by (cases "executeDrawPlayWithMode env uid rq w")
  with play_request [OF this assms] Pc_play show ?thesis by auto
next
  case (Pc_mode uid g mode)
  obtain row w1 where lock: "lockUserPlayModeState uid g w = (row, w1)" by (cases "lockUserPlayModeState uid g w")
  note fields = locked_fields [OF lock]
  obtain s where after: "doPlay c w = saveUserPlayModeState uid g s w1"
    by (simp add: Pc_mode setUserPlayModePreference_def lock Let_def)
  have "playOk w1" using assms
    by (simp add: playOk_def accounted_def sessionsOk_def rowsOk_def loadDeferredPayoutRows_def
        loadLatestSnapshotForMode_def fields)
  moreover have "playAccount w [] w1" by (rule same_books [OF fields(1,2)])
  ultimately show ?thesis unfolding after save_playOk by blast
next
  case (Pc_draw strict dc)
  let ?w = "w\<lparr>pw_draw := doDraw strict dc (pw_draw w)\<rparr>"
  have "drawsOk (pw_draw w)" using assms by (simp add: playOk_def)
  from command_accounts [OF this] obtain rs where
    rs: "drawsAccount (pw_draw w) rs (doDraw strict dc (pw_draw w))" "drawsOk (doDraw strict dc (pw_draw w))" by blast
  have "playOk ?w" using assms rs(2)
    by (simp add: playOk_def accounted_def sessionsOk_def rowsOk_def loadDeferredPayoutRows_def loadLatestSnapshotForMode_def)
  moreover have "playAccount w rs ?w" using rs(1)
    by (simp add: playAccount_def drawsAccount_def luckOf_def heldBack_def loadDeferredPayoutRows_def)
  ultimately show ?thesis by (auto simp: Pc_draw)
qed

lemma runPlays_accounts:
  assumes "playOk w"
  shows "playOk (runPlays cs w) \<and> (\<exists>rs. playAccount w rs (runPlays cs w))"
  using assms
proof (induction cs arbitrary: w)
  case Nil
  then show ?case by (auto simp: runPlays_def intro: exI [of _ "[]"])
next
  case (Cons c cs)
  from doPlay_accounts [OF Cons.prems] Cons.IH [of "doPlay c w"] playAccount_trans show ?case
    by (fastforce simp: runPlays_def)
qed

subsection \<open>Holding back never fails\<close>

text \<open>A user with a wallet, as every user has after a first draw.\<close>

definition knownPlayer :: "nat \<Rightarrow> draw_world \<Rightarrow> bool" where
  "knownPlayer uid w = (dw_wallets w uid \<noteq> None \<and> dw_users w uid \<noteq> None)"

lemma movedLuck_known: "movedLuck uid d w w' \<Longrightarrow> knownPlayer v w' = knownPlayer v w"
  by (simp add: movedLuck_def knownPlayer_def)

lemma exchanges_known: "exchanges uid w w' \<Longrightarrow> knownPlayer v (pw_draw w') = knownPlayer v (pw_draw w)"
  by (auto simp: exchanges_def movedLuck_known)

lemma runBatch_known:
  assumes "runBatch envs cfg nonce pm n is uid w = Inr (rs, w')" and "drawsOk w" and "is \<noteq> [] \<or> knownPlayer uid w"
  shows "knownPlayer uid w'"
  using assms
proof (induction "is" arbitrary: w rs)
  case (Cons i "is")
  from Cons.prems(1) obtain r w1 rs' where
    one: "executeDrawInTransaction (envs i) cfg False
        \<lparr>do_clientNonce = resolveBatchClientNonce nonce i n, do_playMode = Some pm\<rparr> uid w = Inr (r, w1)"
    and rest: "runBatch envs cfg nonce pm n is uid w1 = Inr (rs', w')"
    by (auto simp: bind_res_Inr_iff split_def)
  have ok: "prizesOk w" "walletsAgree w" using Cons.prems(2) by (simp_all add: drawsOk_def)
  with one have ok1: "drawsOk w1" unfolding drawsOk_def by (blast intro: draw_keeps_prizes draw_keeps_wallets)
  from draw_facts [OF one ok(1)] obtain u sd sel where
    "drawFacts (envs i) cfg False \<lparr>do_clientNonce = resolveBatchClientNonce nonce i n, do_playMode = Some pm\<rparr> uid w r w1 u sd sel" .
  from drawFactsD(7,11) [OF this] have "knownPlayer uid w1" by (auto simp: knownPlayer_def)
  with Cons.IH [OF rest ok1] show ?case by simp
qed simp

lemma defer_succeeds:
  assumes "knownPlayer uid (pw_draw w)" and "net \<le> luckOf uid w"
  shows "\<exists>w'. deferPayout uid Game_draw m net Bt_bonus sid rt ri w = Inr w'"
proof (cases "net \<le> 0")
  case False
  from assms(1) obtain wl u where load: "loadLockedBalances uid (pw_draw w) = Inr (wl, u)"
    by (auto simp: knownPlayer_def loadLockedBalances_Inr)
  have "\<exists>w1. onEconomy (debitAsset (assetMutation uid net Withhold rt ri)) (pw_draw w) = Inr w1"
    unfolding debitAsset_def using False assms(2) by (subst deferral_account_runs) (auto simp: debitCompute_def luckOf_def)
  with load False show ?thesis
    by (auto simp: deferPayout_def withholdDeferredPayout_def applyWalletDelta_def usesPlayModeEarnedAsset_def Let_def)
qed (simp add: deferPayout_def withholdDeferredPayout_def applyWalletDelta_def)

lemma releaseRows_succeeds:
  assumes "knownPlayer uid w" and "\<forall>r \<in> set rs. df_balanceType r = Bt_bonus \<and> 0 < df_amount r"
  shows "\<exists>w'. releaseRows uid (resolveFundingSourceForGame Game_draw) rt ri rs w = Inr w'"
  using assms
proof (induction rs arbitrary: w)
  case (Cons r rs)
  from Cons.prems draw_release_succeeds [of w uid "df_amount r" rt ri] obtain w1 where
    w1: "releaseDeferredPayout uid (df_amount r) Bt_bonus (resolveFundingSourceForGame Game_draw) rt ri w = Inr w1"
    by (auto simp: knownPlayer_def)
  have "movedLuck uid (df_amount r) w w1"
    using draw_deferral [of "df_amount r" uid Release rt ri w w1] w1 Cons.prems(2) by (simp add: releaseDeferredPayout_def)
  then have "knownPlayer uid w1" using Cons.prems(1) movedLuck_known by blast
  with Cons.IH [of w1] Cons.prems(2) w1 show ?case by auto
qed simp

lemma release_succeeds:
  assumes "knownPlayer uid (pw_draw w)" and "rowsOk w"
  shows "\<exists>x. releasePendingDeferredPayoutsForMode uid Game_draw m trigger w = Inr x"
proof -
  have "\<forall>r \<in> set (pendingRows uid m w). df_balanceType r = Bt_bonus \<and> 0 < df_amount r"
    using assms(2) by (auto simp: rowsOk_def loadDeferredPayoutRows_def)
  from releaseRows_succeeds [OF assms(1) this] show ?thesis
    by (auto simp: releasePendingDeferredPayoutsForMode_def Let_def bind_res_Inr_iff)
qed

lemma policy_succeeds:
  assumes "knownPlayer uid (pw_draw w)" and "rowsOk w" and "net \<le> luckOf uid w"
  shows "\<exists>x. applySettledPlayModePayoutPolicy uid Game_draw oc s net Bt_bonus sid rt ri w = Inr x"
proof (cases "ps_type s")
  case Mode_deferred_double
  with defer_succeeds [OF assms(1,3), of Mode_deferred_double sid rt ri] show ?thesis
    by (auto simp: applySettledPlayModePayoutPolicy_def Let_def)
next
  case Mode_snowball
  have "\<exists>w1. (if net > 0 then deferPayout uid Game_draw Mode_snowball net Bt_bonus sid rt ri w else Inr w) = Inr w1 \<and>
      knownPlayer uid (pw_draw w1) \<and> rowsOk w1"
  proof (cases "net > 0")
    case True
    from defer_succeeds [OF assms(1,3)] obtain w1 where
      w1: "deferPayout uid Game_draw Mode_snowball net Bt_bonus sid rt ri w = Inr w1" by blast
    from defer_draw_payout [OF this True _ assms(2)] have "rowsOk w1" "exchanges uid w w1" by (simp_all add: defersPayouts_def)
    with w1 True assms(1) exchanges_known show ?thesis by auto
  qed (use assms in auto)
  then obtain w1 where w1: "(if net > 0 then deferPayout uid Game_draw Mode_snowball net Bt_bonus sid rt ri w else Inr w) = Inr w1"
    and ok: "knownPlayer uid (pw_draw w1)" "rowsOk w1" by blast
  from release_succeeds [OF ok, of Mode_snowball "Some (rt, ri)"] show ?thesis
    unfolding applySettledPlayModePayoutPolicy_def Let_def Mode_snowball play_mode_type.case w1 bind_res_simps
    by (auto simp: split_def)
qed (auto simp: applySettledPlayModePayoutPolicy_def)

end
