(* ===== verification/Play_Safety.thy ===== *)
theory Play_Safety
  imports Play_Books
begin

text \<open>
  What holds of draws under a play mode: in every run the payouts that are held back and the
  snapshots that show them, what one request leaves, and what a failed one changes.
\<close>

subsection \<open>Starts\<close>

text \<open>A start: draws in order, and no round played under a mode yet.\<close>

definition playStart :: "play_world \<Rightarrow> bool" where
  "playStart w = (drawsOk (pw_draw w) \<and> pw_deferred w = [] \<and> pw_sessions w = [])"

lemma playStart_ok: "playStart w \<Longrightarrow> playOk w"
  by (simp add: playStart_def playOk_def rowsOk_def sessionsOk_def accounted_def loadDeferredPayoutRows_def
      loadLatestSnapshotForMode_def rowsShown_def)

subsection \<open>When a request fails\<close>

text \<open>What a request leaves as it was before its draws.\<close>

definition sameGoods :: "play_world \<Rightarrow> draw_world \<Rightarrow> bool" where
  "sameGoods w dw =
     (dw_wallets dw = dw_wallets (pw_draw w) \<and> dw_ledger dw = dw_ledger (pw_draw w) \<and>
      dw_prizePool dw = dw_prizePool (pw_draw w) \<and> dw_prizes dw = dw_prizes (pw_draw w) \<and>
      dw_draws dw = dw_draws (pw_draw w) \<and> dw_fair dw = dw_fair (pw_draw w))"

lemma movedLuck_goods: "movedLuck uid d (pw_draw w) dw \<Longrightarrow> sameGoods w dw"
  by (simp add: movedLuck_def sameGoods_def)

lemma refresh_moves:
  assumes "refreshSnapshotAfterPendingRelease uid Game_draw s w = Inr (t, w')" and "rowsOk w"
  shows "exchanges uid w w'"
proof (cases "ps_type s \<noteq> Mode_deferred_double \<or> ps_pendingPayoutCount s \<le> 0")
  case False
  then have type: "ps_type s = Mode_deferred_double" by simp
  from assms(1) False obtain r w1 where
    rel: "releasePendingDeferredPayoutsForMode uid Game_draw (ps_type s) None w = Inr (r, w1)"
    and w': "pw_draw w' = pw_draw w1" "pw_deferred w' = pw_deferred w1"
    by (auto simp: refreshSnapshotAfterPendingRelease_def Let_def bind_res_Inr_iff split: if_splits)
  have "exchanges uid w w1" using release_draw_payouts [OF rel _ assms(2)] by (simp add: type defersPayouts_def)
  then show ?thesis by (simp add: exchanges_def luckOf_def heldBack_def loadDeferredPayoutRows_def w')
qed (use assms(1) in \<open>auto simp: refreshSnapshotAfterPendingRelease_def\<close>)

lemma refresh_succeeds:
  assumes "knownPlayer uid (pw_draw w)" and "rowsOk w"
  shows "\<exists>t w'. refreshSnapshotAfterPendingRelease uid Game_draw s w = Inr (t, w')"
proof -
  obtain x where "releasePendingDeferredPayoutsForMode uid Game_draw (ps_type s) None w = Inr x"
    using release_succeeds [OF assms] by blast
  then show ?thesis by (cases x) (auto simp: refreshSnapshotAfterPendingRelease_def Let_def)
qed

lemma refresh_luck:
  assumes "refreshSnapshotAfterPendingRelease uid Game_draw s w = Inr (t, w')" and "stageOk uid s w"
  shows "luckOf uid w \<le> luckOf uid w'"
proof -
  have ok: "rowsOk w" using assms(2) by (simp add: stageOk_def)
  have pos: "0 \<le> sum_list (map df_amount (pendingRows v m w))" for v m
    by (rule sum_list_nonneg) (use ok in \<open>auto simp: rowsOk_def loadDeferredPayoutRows_def intro: less_imp_le\<close>)
  have "luckOf uid w' + heldBack uid w' = luckOf uid w + heldBack uid w"
    using refresh_moves [OF assms(1) ok] by (auto simp: exchanges_def)
  moreover have "heldBack uid w' \<le> heldBack uid w"
  proof (cases "ps_type s = Mode_deferred_double")
    case True
    with refresh_stage(5) [OF assms] refresh_elsewhere(1) [OF assms(1) ok] pos [of uid Mode_deferred_double] show ?thesis
      by (simp add: heldBack_def pendingElsewhere_def)
  qed (use refresh_elsewhere(2) [OF assms(1) ok] in simp)
  ultimately show ?thesis by simp
qed

lemma settled_fails_with_draw:
  assumes "executeSettledDraws env uid rq s sid w = Inl e" and "stageOk uid s w"
    and "knownPlayer uid (pw_draw w)" and "0 \<le> luckOf uid w"
  shows "drawInPlay env 0 (rq_count rq) (rq_clientNonce rq) s uid w = Inl e"
proof (cases "drawInPlay env 0 (rq_count rq) (rq_clientNonce rq) s uid w")
  case (Inr p)
  obtain res w1 where p: "p = (res, w1)" by (cases p)
  note draw = Inr [unfolded p]
  note D = draw_stage [OF draw assms(2)]
  have ok: "drawsOk (pw_draw w)" "rowsOk w1" using assms(2) D(1) by (simp_all add: stageOk_def)
  from draw obtain dw where
    run: "executeResolvedDrawPlayInTransaction (py_strict env) (py_draw env 0) (py_config env) (rq_count rq) (rq_clientNonce rq) s uid (pw_draw w) = Inr (res, dw)"
    and w1: "w1 = w\<lparr>pw_draw := dw\<rparr>" by (auto simp: drawInPlay_def bind_res_Inr_iff)
  have known: "knownPlayer uid (pw_draw w1)" using runBatch_known [OF batch_parts(2) [OF run] ok(1)] assms(3) by (simp add: w1)
  have "luckOf uid w1 = luckOf uid w + sum_list (map rd_rewardAmount (dp_records res))"
    using D(2) ownRecords_rewards(1) [OF D(8), of uid] by (simp add: playAccount_def heldBack_def loadDeferredPayoutRows_def D(5))
  then have "sum_list (map rd_rewardAmount (dp_records res)) \<le> luckOf uid w1" using assms(4) by simp
  from policy_succeeds [OF known ok(2) this, of "lastOutcomeOr (dp_playMode res)" "dp_playMode res" "Some sid"
      "''draw_record''" "if dp_records res = [] then None else Some (rd_id (last (dp_records res)))"]
  have False using assms(1) draw by (auto simp: executeSettledDraws_def Let_def)
  then show ?thesis ..
qed (use assms(1) in \<open>simp add: executeSettledDraws_def\<close>)

lemma dual_fails_with_draw:
  assumes "executeDualBetDraws env uid rq s w = Inl e" and "stageOk uid s w" and dual: "ps_type s = Mode_dual_bet"
  shows "\<exists>leg nonce dw. (leg = 1 \<or> leg = 2) \<and> (leg = 1 \<longrightarrow> dw = pw_draw w) \<and> drawsOk dw \<and>
    executeResolvedDrawPlayInTransaction (py_strict env) (py_draw env leg) (py_config env) (rq_count rq) nonce s uid dw = Inl e"
proof -
  obtain parent w1 where start: "startPlayModeSession uid Game_draw s None ''draw_request'' 0 w = (parent, w1)"
    by (cases "startPlayModeSession uid Game_draw s None ''draw_request'' 0 w")
  note S = start_stage [OF start assms(2)]
  have ok1: "sessionsOk w1" using S(1) by (simp add: stageOk_def)
  have par: "sessionMode parent Mode_dual_bet w1" using lastSession_mode [OF S(4) ok1] dual by simp
  have leg: "\<exists>nonce. executeResolvedDrawPlayInTransaction (py_strict env) (py_draw env ei) (py_config env) (rq_count rq) nonce s uid
      (pw_draw v) = Inl e" if "dualBetLeg env uid rq s parent ei v = Inl e" for ei v
  proof -
    obtain sid v1 where v1: "startPlayModeSession uid Game_draw s (Some parent) ''draw_request'' ei v = (sid, v1)"
      by (cases "startPlayModeSession uid Game_draw s (Some parent) ''draw_request'' ei v")
    from that latest_start(5) [OF v1] show ?thesis
      by (auto simp: dualBetLeg_def v1 drawInPlay_def bind_res_def split: sum.splits)
  qed
  show ?thesis
  proof (cases "dualBetLeg env uid rq s parent 1 w1")
    case (Inl e')
    with assms(1) have "e' = e" by (simp add: executeDualBetDraws_def start del: One_nat_def)
    with leg [of 1 w1] Inl S(1) latest_start(5) [OF start] assms(2) show ?thesis
      by (intro exI [of _ 1]) (auto simp: stageOk_def)
  next
    case (Inr p)
    obtain res1 w2 where p: "p = (res1, w2)" by (cases p)
    note L1 = leg_round [OF Inr [unfolded p] S(1) dual par]
    from assms(1) have "dualBetLeg env uid rq s parent 2 w2 = Inl e"
      by (auto simp: executeDualBetDraws_def start Inr p bind_res_def Let_def simp del: One_nat_def split: sum.splits)
    from leg [OF this] L1(1) show ?thesis by (intro exI [of _ 2]) (auto simp: stageOk_def)
  qed
qed

subsection \<open>A small world\<close>

definition samplePlayWorld :: play_world where
  "samplePlayWorld = \<lparr>pw_draw = sampleDrawWorld, pw_deferred = [], pw_sessions = [], pw_modes = Map.empty,
     pw_nextDeferred = 1, pw_nextSession = 1\<rparr>"

definition samplePlayEnv :: play_env where
  "samplePlayEnv = \<lparr>py_strict = True, py_config = sampleDrawConfig, py_draw = (\<lambda>_ _. sampleDrawEnv 1000)\<rparr>"

definition sampleRequest :: "play_mode_type \<Rightarrow> draw_play_request" where
  "sampleRequest m = \<lparr>rq_count = 1, rq_clientNonce = None, rq_playMode = Some m\<rparr>"

lemma samplePlay_start [simp]: "playStart samplePlayWorld"
  by (simp add: playStart_def samplePlayWorld_def drawsOk_def)

lemma sample_batch:
  assumes "executeDrawInTransaction (sampleDrawEnv 1000) sampleDrawConfig False
      \<lparr>do_clientNonce = resolveBatchClientNonce nonce 0 1, do_playMode = Some pm\<rparr> 1 w = Inr (r, w')"
    and "drawsOk w" and "resolveExecutionCountMultiplier pm = 1"
  shows "\<exists>res. executeResolvedDrawPlayInTransaction True (\<lambda>_. sampleDrawEnv 1000) sampleDrawConfig 1 nonce pm 1 w = Inr (res, w') \<and>
    dp_records res = [r]"
proof -
  have "walletsAgree w'" using draw_keeps_wallets [OF assms(1)] assms(2) by (simp add: drawsOk_def)
  then have check: "assertDrawWallet True 1 w' = Inr ()" by (rule assertDrawWallet_ok)
  have max: "normalizeMaxBatchCount (sy_maxDrawPerRequest (dc_drawSystem sampleDrawConfig)) = 10"
    by (simp add: normalizeMaxBatchCount_def sampleDrawConfig_def sampleSystem_def)
  have kyc: "dv_kyc (sampleDrawEnv 1000) v c = None" for v c by (simp add: sampleDrawEnv_def)
  have batch: "runBatch (\<lambda>_. sampleDrawEnv 1000) sampleDrawConfig nonce pm (nat 1) [0..<nat 1] 1 w = Inr ([r], w')"
    using assms(1) by simp
  show ?thesis
    unfolding executeResolvedDrawPlayInTransaction_def Let_def assms(3) max kyc mult_1_right batch by (simp add: check del: One_nat_def)
qed

lemma sample_single:
  assumes "dw_users w 1 \<noteq> None" and "1000 \<le> wl_withdrawable (walletRow 1 w)" and "dw_fair w = emptyFair \<or> dw_fair w = sampleFair"
  shows "\<exists>r w'. executeDrawInTransaction (sampleDrawEnv 1000) sampleDrawConfig False opts 1 w = Inr (r, w')"
proof -
  have again: "ensureFairnessSeed (sampleFairEnv 1000) (Some 60) sampleFair = Inr (sampleSeed, sampleFair)"
    by (simp add: ensureFairnessSeed_def Let_def minute_epochs sampleFairEnv_def usableSeed_def sampleSeed_def sampleFair_def)
  have "enforceDrawGuards (sampleDrawEnv 1000) 1 (dc_drawSystem sampleDrawConfig) w = Inr ()"
    by (simp add: enforceDrawGuards_def sampleSystem_def Let_def sampleDrawConfig_def)
  moreover have "ensureFairnessSeed (dv_fair (sampleDrawEnv 1000))
      (Some (dbl (py_epochSeconds (dc_poolSystem sampleDrawConfig)))) (dw_fair w) = Inr (sampleSeed, sampleFair)"
    using assms(3) sample_ensure again by (auto simp: sampleDrawEnv_def sampleDrawConfig_def)
  ultimately have "drawRefusal (sampleDrawEnv 1000) sampleDrawConfig False 1 w = None"
    using assms(1,2) by (auto simp: drawRefusal_def sampleDrawEnv_def)
  then show ?thesis using executeDraw_refusal(2) by fastforce
qed

lemma sample_snapshot:
  "resolveRequestedPlayMode None (Some m) None = createDefaultPlayModeSnapshot m"
  by (cases m) (simp_all add: resolveRequestedPlayMode_def parseStoredSnapshot_def createDefaultPlayModeSnapshot_def
      hasPendingPayout_def clampMultiplier_def Let_def)

text \<open>The world in which the rounds of a first request are played.\<close>

lemma sample_prepare:
  obtains w1 where "preparePlayModeExecution 1 Game_draw (Some m) samplePlayWorld = (createDefaultPlayModeSnapshot m, w1)"
    "pw_draw w1 = sampleDrawWorld"
    "refreshSnapshotAfterPendingRelease 1 Game_draw (createDefaultPlayModeSnapshot m) w1 = Inr (createDefaultPlayModeSnapshot m, w1)"
proof -
  obtain s w1 where prep: "preparePlayModeExecution 1 Game_draw (Some m) samplePlayWorld = (s, w1)"
    by (cases "preparePlayModeExecution 1 Game_draw (Some m) samplePlayWorld")
  have s: "s = createDefaultPlayModeSnapshot m"
    using prep by (auto simp: preparePlayModeExecution_def Let_def resolveRequestedType_def loadPlayModeSnapshotForMode_def
        loadLatestSnapshotForMode_def lockUserPlayModeState_def samplePlayWorld_def sample_snapshot)
  have "pw_draw w1 = sampleDrawWorld" using prepare_stage(5) [OF prep playStart_ok [OF samplePlay_start]]
    by (simp add: samplePlayWorld_def)
  moreover have "refreshSnapshotAfterPendingRelease 1 Game_draw (createDefaultPlayModeSnapshot m) w1 = Inr (createDefaultPlayModeSnapshot m, w1)"
    by (simp add: refreshSnapshotAfterPendingRelease_def createDefaultPlayModeSnapshot_def)
  ultimately show thesis using that prep s by simp
qed

lemma sample_luck: "luckOf v samplePlayWorld = 0"
  by (simp add: luckOf_def samplePlayWorld_def sampleDrawWorld_def balanceOf_def zeroBalance_def)

lemma sample_deferred:
  obtains res w' where "executeDrawPlayWithMode samplePlayEnv 1 (sampleRequest Mode_deferred_double) samplePlayWorld = (Inr res, w')"
    "ps_type (dp_playMode res) = Mode_deferred_double" "map rd_rewardAmount (dp_records res) = [500]"
    "map rd_status (dp_records res) = [D_won]" "ownRecords 1 (dp_records res)"
proof -
  let ?s = "createDefaultPlayModeSnapshot Mode_deferred_double"
  obtain w1 where prep: "preparePlayModeExecution 1 Game_draw (Some Mode_deferred_double) samplePlayWorld = (?s, w1)"
    and same: "pw_draw w1 = sampleDrawWorld" and ref: "refreshSnapshotAfterPendingRelease 1 Game_draw ?s w1 = Inr (?s, w1)"
    by (rule sample_prepare)
  note P = prepare_stage [OF prep playStart_ok [OF samplePlay_start]]
  obtain sid w2 where start: "startPlayModeSession 1 Game_draw ?s None ''draw_request'' 0 w1 = (sid, w2)"
    by (cases "startPlayModeSession 1 Game_draw ?s None ''draw_request'' 0 w1")
  note S = start_stage [OF start P(1)]
  have same2: "pw_draw w2 = sampleDrawWorld" using latest_start(5) [OF start] same by simp
  have one: "resolveExecutionCountMultiplier ?s = 1"
    by (simp add: resolveExecutionCountMultiplier_def createDefaultPlayModeSnapshot_def)
  obtain r dw where draw: "executeDrawInTransaction (sampleDrawEnv 1000) sampleDrawConfig False
      \<lparr>do_clientNonce = resolveBatchClientNonce None 0 1, do_playMode = Some ?s\<rparr> 1 sampleDrawWorld = Inr (r, dw)"
    and r: "rd_status r = D_won" "rd_rewardAmount r = 500" by (rule sample_draw)
  from sample_batch [OF draw _ one] obtain res0 where
    batch: "executeResolvedDrawPlayInTransaction True (\<lambda>_. sampleDrawEnv 1000) sampleDrawConfig 1 None ?s 1 sampleDrawWorld = Inr (res0, dw)"
    and recs: "dp_records res0 = [r]" by (auto simp: drawsOk_def)
  let ?rq = "sampleRequest Mode_deferred_double"
  have leg: "drawInPlay samplePlayEnv 0 (rq_count ?rq) (rq_clientNonce ?rq) ?s 1 w2 = Inr (res0, w2\<lparr>pw_draw := dw\<rparr>)"
    by (simp add: drawInPlay_def samplePlayEnv_def sampleRequest_def same2 batch del: One_nat_def)
  have "knownPlayer 1 (pw_draw w2)" by (simp add: knownPlayer_def same2 sampleDrawWorld_def)
  moreover have "0 \<le> luckOf 1 w2" using sample_luck [of 1] by (simp add: luckOf_def same2 samplePlayWorld_def)
  ultimately have "executeSettledDraws samplePlayEnv 1 ?rq ?s sid w2 \<noteq> Inl e" for e
    using settled_fails_with_draw [OF _ S(1), of samplePlayEnv ?rq sid e] leg by auto
  then obtain res w' where settled: "executeSettledDraws samplePlayEnv 1 ?rq ?s sid w2 = Inr (res, w')"
    by (cases "executeSettledDraws samplePlayEnv 1 ?rq ?s sid w2") auto
  have "dp_records res = [r]" using settled leg recs by (auto simp: executeSettledDraws_def Let_def bind_res_Inr_iff)
  moreover have "ps_type (dp_playMode res) = Mode_deferred_double" "ownRecords 1 (dp_records res)"
    using settled_round [OF settled S(1,4)] by simp_all
  moreover have "executeDrawPlayWithMode samplePlayEnv 1 ?rq samplePlayWorld = (Inr res, w')"
    unfolding executeDrawPlayWithMode_def using prep ref start settled by (simp add: sampleRequest_def)
  ultimately show thesis using that r by simp
qed

text \<open>A dual bet whose first leg wins and whose second, with the prize's budget spent, does not.\<close>

lemma sample_second_draw:
  assumes "executeDrawInTransaction (sampleDrawEnv 1000) sampleDrawConfig False opts 1 sampleDrawWorld = Inr (r, dw)"
  obtains r' dw' where "executeDrawInTransaction (sampleDrawEnv 1000) sampleDrawConfig False opts' 1 dw = Inr (r', dw')"
    "rd_status r' \<noteq> D_won"
proof -
  from draw_facts [OF assms sample_prizesOk] obtain u sd sel where
    "drawFacts (sampleDrawEnv 1000) sampleDrawConfig False opts 1 sampleDrawWorld r dw u sd sel" .
  note F = drawFactsD [OF this]
  have "rd_status r = D_won" by (rule sample_draw [of opts]) (use assms in simp)
  with F(16) have "dw_prizes dw = [wonPrize (sampleDrawEnv 1000) samplePrize]"
    by (auto simp: paidPrize_def sampleDrawWorld_def)
  then have spent: "\<not> bv_available (evaluateBudget p 1000)" if "p \<in> set (dw_prizes dw)" for p
    using that by (simp add: wonPrize_def evaluateBudget_def samplePrize_def sampleDrawEnv_def Let_def)
  have "ensureFairnessSeed (dv_fair (sampleDrawEnv 1000))
      (Some (dbl (py_epochSeconds (dc_poolSystem sampleDrawConfig)))) (dw_fair sampleDrawWorld) = Inr (sampleSeed, sampleFair)"
    using sample_ensure by (simp add: sampleDrawEnv_def sampleDrawConfig_def sampleDrawWorld_def)
  with F(5) have "dw_fair dw = sampleFair" by simp
  moreover have "dw_users dw 1 \<noteq> None" using F(11) by auto
  moreover have "1000 \<le> wl_withdrawable (walletRow 1 dw)"
    by (simp add: walletRow_after [OF F(7)]) (simp add: walletRow_def sampleDrawWorld_def)
  ultimately obtain r' dw' where run: "executeDrawInTransaction (sampleDrawEnv 1000) sampleDrawConfig False opts' 1 dw = Inr (r', dw')"
    using sample_single by blast
  have ok: "prizesOk dw" by (rule draw_keeps_prizes [OF assms sample_prizesOk])
  from draw_facts [OF run ok] obtain u' sd' sel' where
    "drawFacts (sampleDrawEnv 1000) sampleDrawConfig False opts' 1 dw r' dw' u' sd' sel'" .
  from drawFactsD(16) [OF this] spent have "rd_status r' \<noteq> D_won"
    by (auto simp: paidPrize_def payable_def sampleDrawEnv_def)
  with that run show thesis by blast
qed

lemma sample_dual:
  obtains res w' where "executeDrawPlayWithMode samplePlayEnv 1 (sampleRequest Mode_dual_bet) samplePlayWorld = (Inr res, w')"
    "ps_type (dp_playMode res) = Mode_dual_bet" "map (\<lambda>r. rd_status r = D_won) (dp_records res) = [True, False]"
proof -
  let ?s = "createDefaultPlayModeSnapshot Mode_dual_bet" and ?rq = "sampleRequest Mode_dual_bet"
  let ?opts = "\<lparr>do_clientNonce = resolveBatchClientNonce None 0 1, do_playMode = Some ?s\<rparr>"
  obtain w1 where prep: "preparePlayModeExecution 1 Game_draw (Some Mode_dual_bet) samplePlayWorld = (?s, w1)"
    and same: "pw_draw w1 = sampleDrawWorld" and ref: "refreshSnapshotAfterPendingRelease 1 Game_draw ?s w1 = Inr (?s, w1)"
    by (rule sample_prepare)
  have one: "resolveExecutionCountMultiplier ?s = 1" by (simp add: resolveExecutionCountMultiplier_def)
  obtain parent w2 where start: "startPlayModeSession 1 Game_draw ?s None ''draw_request'' 0 w1 = (parent, w2)"
    by (cases "startPlayModeSession 1 Game_draw ?s None ''draw_request'' 0 w1")
  have same2: "pw_draw w2 = sampleDrawWorld" using latest_start(5) [OF start] same by simp
  obtain r dw where draw: "executeDrawInTransaction (sampleDrawEnv 1000) sampleDrawConfig False ?opts 1 sampleDrawWorld = Inr (r, dw)"
    and r: "rd_status r = D_won" by (rule sample_draw)
  obtain r' dw' where draw': "executeDrawInTransaction (sampleDrawEnv 1000) sampleDrawConfig False ?opts 1 dw = Inr (r', dw')"
    and r': "rd_status r' \<noteq> D_won" by (rule sample_second_draw [OF draw])
  have ok: "drawsOk sampleDrawWorld" by (simp add: drawsOk_def)
  then have ok1: "drawsOk dw"
    using draw_keeps_prizes [OF draw] draw_keeps_wallets [OF draw] by (simp add: drawsOk_def)
  obtain a where batch: "executeResolvedDrawPlayInTransaction True (\<lambda>_. sampleDrawEnv 1000) sampleDrawConfig 1 None ?s 1
      sampleDrawWorld = Inr (a, dw)" "dp_records a = [r]" using sample_batch [OF draw ok one] by blast
  obtain b where batch': "executeResolvedDrawPlayInTransaction True (\<lambda>_. sampleDrawEnv 1000) sampleDrawConfig 1 None ?s 1
      dw = Inr (b, dw')" "dp_records b = [r']" using sample_batch [OF draw' ok1 one] by blast
  have leg: "\<exists>w'. dualBetLeg samplePlayEnv 1 ?rq ?s parent ei w = Inr (res, w') \<and> pw_draw w' = dw2"
    if "executeResolvedDrawPlayInTransaction True (\<lambda>_. sampleDrawEnv 1000) sampleDrawConfig 1 None ?s 1 (pw_draw w) = Inr (res, dw2)"
    for ei res w dw2
  proof -
    obtain sid v where v: "startPlayModeSession 1 Game_draw ?s (Some parent) ''draw_request'' ei w = (sid, v)"
      by (cases "startPlayModeSession 1 Game_draw ?s (Some parent) ''draw_request'' ei w")
    have nonce: "buildDualBetClientNonce None ei = None" by (simp add: buildDualBetClientNonce_def Let_def)
    have "drawInPlay samplePlayEnv ei (rq_count ?rq) (buildDualBetClientNonce (rq_clientNonce ?rq) ei) ?s 1 v =
        Inr (res, v\<lparr>pw_draw := dw2\<rparr>)"
      by (simp add: drawInPlay_def samplePlayEnv_def sampleRequest_def nonce that latest_start(5) [OF v] del: One_nat_def)
    then show ?thesis by (simp add: dualBetLeg_def v del: One_nat_def)
  qed
  from leg [of w2 a dw 1] batch(1) obtain w3 where leg1: "dualBetLeg samplePlayEnv 1 ?rq ?s parent 1 w2 = Inr (a, w3)"
    "pw_draw w3 = dw" by (auto simp: same2 simp del: One_nat_def)
  from leg [of w3 b dw' 2] batch'(1) obtain w4 where leg2: "dualBetLeg samplePlayEnv 1 ?rq ?s parent 2 w3 = Inr (b, w4)"
    by (auto simp: leg1(2) simp del: One_nat_def)
  obtain res w' where dual: "executeDualBetDraws samplePlayEnv 1 ?rq ?s w1 = Inr (res, w')"
    and res: "res = mergeDrawPlayResults (rq_count ?rq) ?s [a, b]"
    by (simp add: executeDualBetDraws_def start leg1(1) leg2 Let_def del: One_nat_def)
  have "executeDrawPlayWithMode samplePlayEnv 1 ?rq samplePlayWorld = (Inr res, w')"
    unfolding executeDrawPlayWithMode_def using prep ref dual by (simp add: sampleRequest_def)
  moreover have "ps_type (dp_playMode res) = Mode_dual_bet"
    "map (\<lambda>r. rd_status r = D_won) (dp_records res) = [True, False]"
    using r r' by (simp_all add: res mergeDrawPlayResults_def Let_def settled_parts batch(2) batch'(2))
  ultimately show thesis by (rule that)
qed

lemma sample_play_run:
  "executeDrawPlayWithMode samplePlayEnv 1 rq samplePlayWorld = (answer, w') \<Longrightarrow>
     runPlays [Pc_play samplePlayEnv 1 rq] samplePlayWorld = w'"
  by (simp add: runPlays_def del: One_nat_def)

lemma sample_play_Nil: "runPlays [] samplePlayWorld = samplePlayWorld"
  by (simp add: runPlays_def)

subsection \<open>Every run\<close>

text \<open>
  C10. No payout that a play mode holds back is lost.  In every run of requests, failed ones
  included, a player's asset balance and what is held back from their draws are together what
  they had at the start and the rewards of the draws since; and for each mode that holds payouts
  back, the snapshot a round would run under shows exactly the amount and number of the payouts
  that are pending.
\<close>

theorem deferred_payouts_never_lost:
  assumes "playStart w0"
  shows "let w = runPlays cs w0 in \<exists>rs. dw_draws (pw_draw w) = dw_draws (pw_draw w0) @ rs \<and>
    (\<forall>v. luckOf v w + heldBack v w = luckOf v w0 + rewardsOf v rs) \<and>
    (\<forall>v m. defersPayouts m \<longrightarrow>
       rowsShown (pendingRows v m w) = pendingOf (loadPlayModeSnapshotForMode v Game_draw m w))"
proof -
  let ?w = "runPlays cs w0"
  from runPlays_accounts [OF playStart_ok [OF assms], of cs] obtain rs where
    ok: "playOk ?w" and acc: "playAccount w0 rs ?w" by blast
  have "heldBack v w0 = 0" for v
    using assms by (simp add: playStart_def heldBack_def loadDeferredPayoutRows_def)
  moreover have "rowsShown (pendingRows v m ?w) = pendingOf (loadPlayModeSnapshotForMode v Game_draw m ?w)"
    if "defersPayouts m" for v m
    using loaded_stage(1) [OF ok, of v m] loaded_stage(2) [OF ok, of v m] that by (simp add: stageOk_def agrees_def)
  ultimately show ?thesis using acc unfolding playAccount_def Let_def by (intro exI [of _ rs]) simp
qed

theorem deferred_payouts_never_lost_witness:
  "let w = runPlays [Pc_play samplePlayEnv 1 (sampleRequest Mode_deferred_double)] samplePlayWorld
   in luckOf 1 w + heldBack 1 w = 500 \<and>
      rowsShown (pendingRows 1 Mode_deferred_double w) = pendingOf (loadPlayModeSnapshotForMode 1 Game_draw Mode_deferred_double w)"
proof -
  obtain res w' where run: "executeDrawPlayWithMode samplePlayEnv 1 (sampleRequest Mode_deferred_double) samplePlayWorld = (Inr res, w')"
    and r: "map rd_rewardAmount (dp_records res) = [500]" and own: "ownRecords 1 (dp_records res)" by (rule sample_deferred)
  note books = play_request [OF run playStart_ok [OF samplePlay_start]]
  then have records: "dw_draws (pw_draw w') = dp_records res" and "rewardsOf 1 (dp_records res) = luckOf 1 w' + heldBack 1 w'"
    using sample_luck by (simp_all add: playAccount_def recordsOf_def samplePlayWorld_def sampleDrawWorld_def heldBack_def
        loadDeferredPayoutRows_def)
  from deferred_payouts_never_lost [OF samplePlay_start, of "[Pc_play samplePlayEnv 1 (sampleRequest Mode_deferred_double)]",
      unfolded sample_play_run [OF run] Let_def]
  obtain rs where rs: "dw_draws (pw_draw w') = dw_draws (pw_draw samplePlayWorld) @ rs"
    "luckOf 1 w' + heldBack 1 w' = luckOf 1 samplePlayWorld + rewardsOf 1 rs"
    "rowsShown (pendingRows 1 Mode_deferred_double w') = pendingOf (loadPlayModeSnapshotForMode 1 Game_draw Mode_deferred_double w')"
    by (auto simp: defersPayouts_def)
  have "rs = dp_records res" using rs(1) records by (simp add: samplePlayWorld_def sampleDrawWorld_def)
  moreover have "rewardsOf 1 (dp_records res) = 500" using ownRecords_rewards(1) [OF own, of 1] r by simp
  ultimately show ?thesis using rs(2,3) sample_luck [of 1] by (simp add: sample_play_run [OF run] Let_def del: One_nat_def)
qed

text \<open>
  C24. The type of a session is that of its snapshot, and every snapshot that is stored or that a
  round would run under is well formed: multipliers are at least one and only the snowball's
  grows, with its streak and up to its cap; only the modes that hold payouts back show pending
  ones, none negative; and the snowball's carry and envelope are together what is pending.
\<close>

theorem play_snapshots_well_formed:
  assumes "playStart w0"
  shows "let w = runPlays cs w0 in
    (\<forall>l \<in> set (pw_sessions w). ps_type (pl_snapshot l) = pl_mode l \<and> snapshotWf (pl_snapshot l)) \<and>
    (\<forall>v m. snapshotWf (loadPlayModeSnapshotForMode v Game_draw m w) \<and>
       ps_type (loadPlayModeSnapshotForMode v Game_draw m w) = m)"
proof -
  have ok: "playOk (runPlays cs w0)" using runPlays_accounts [OF playStart_ok [OF assms]] by blast
  then have "sessionsOk (runPlays cs w0)" by (simp add: playOk_def)
  with loaded_stage(1,2) [OF ok] show ?thesis by (simp add: sessionsOk_def stageOk_def)
qed

theorem play_snapshots_well_formed_witness:
  "snapshotWf (loadPlayModeSnapshotForMode 1 Game_draw Mode_snowball
     (runPlays [Pc_mode 1 Game_draw Mode_snowball] samplePlayWorld))"
  using play_snapshots_well_formed [OF samplePlay_start, of "[Pc_mode 1 Game_draw Mode_snowball]"]
  unfolding Let_def by blast

subsection \<open>One request\<close>

definition heldIn :: "nat \<Rightarrow> play_mode_type \<Rightarrow> play_world \<Rightarrow> cents" where
  "heldIn v m w = sum_list (map df_amount (pendingRows v m w))"

text \<open>
  C11. What a round leaves held back.  Deferred double pays out all that was pending before it and
  holds back its own rewards; the snowball adds its rewards to what is pending as long as it wins,
  and the first round that does not win pays all of it out; the other modes hold nothing back.
  Nothing else that is pending changes, nobody else is paid, and the player's balance takes what
  is not held back.
\<close>

theorem play_modes_hold_back:
  assumes "playStart w0" and "executeDrawPlayWithMode env uid rq (runPlays cs w0) = (Inr res, w')"
  shows "let w = runPlays cs w0; m = ps_type (dp_playMode res);
      reward = sum_list (map rd_rewardAmount (dp_records res))
    in (\<forall>n. rq_playMode rq = Some n \<longrightarrow> m = n) \<and>
       (\<forall>v n. defersPayouts n \<longrightarrow> heldIn v n w' =
          (if (v, n) \<noteq> (uid, m) then heldIn v n w
           else if m = Mode_deferred_double then reward
           else if \<exists>r \<in> set (dp_records res). rd_status r = D_won then heldIn uid m w + reward else 0)) \<and>
       (\<forall>v. v \<noteq> uid \<longrightarrow> luckOf v w' = luckOf v w) \<and>
       luckOf uid w' = luckOf uid w + reward + heldBack uid w - heldBack uid w'"
proof -
  define w where "w = runPlays cs w0"
  have ok: "playOk w" using runPlays_accounts [OF playStart_ok [OF assms(1)]] by (simp add: w_def)
  note run = assms(2) [folded w_def]
  from play_request [OF run ok] have ok': "playOk w'" and acc: "playAccount w (dp_records res) w'"
    by (simp_all add: recordsOf_def)
  let ?reward = "sum_list (map rd_rewardAmount (dp_records res))"
  let ?won = "\<exists>r \<in> set (dp_records res). rd_status r = D_won"
  obtain m s w2 where s: "stageOk uid s w2" "ps_type s = m" and asked: "\<And>n. rq_playMode rq = Some n \<Longrightarrow> n = m"
    and else_: "pendingElsewhere uid m w w2"
    and before: "if m = Mode_deferred_double
     then pendingOf s = (0, 0) \<and> (\<forall>r \<in> set (pendingRows uid m w). \<exists>r' \<in> set (pw_deferred w2). df_id r' = df_id r \<and> df_status r' = Df_released)
     else pendingRows uid m w2 = pendingRows uid m w"
    and round: "m = Mode_dual_bet \<and> executeDualBetDraws env uid rq s w2 = Inr (res, w') \<or>
     m \<noteq> Mode_dual_bet \<and> (\<exists>sid w3. startPlayModeSession uid Game_draw s None ''draw_request'' 0 w2 = (sid, w3) \<and>
       executeSettledDraws env uid rq s sid w3 = Inr (res, w'))"
    by (rule play_parts [OF run ok], rule that; assumption)
  have result: "ownRecords uid (dp_records res) \<and> ps_type (dp_playMode res) = m \<and> pendingElsewhere uid m w w' \<and>
    (defersPayouts m \<longrightarrow> heldIn uid m w' = (if m = Mode_deferred_double then ?reward
       else if ?won then heldIn uid m w + ?reward else 0))"
    using round
  proof (elim disjE conjE exE)
    assume dual: "m = Mode_dual_bet" "executeDualBetDraws env uid rq s w2 = Inr (res, w')"
    from dual_round [OF dual(2) s(1)] s(2) dual(1) have d: "pw_deferred w' = pw_deferred w2"
      "ownRecords uid (dp_records res)" "\<exists>oc. dp_playMode res = resolveSettledPlayMode s oc" by auto
    then have "ps_type (dp_playMode res) = m" using s(2) by (auto simp: settled_parts)
    moreover have "pendingElsewhere uid m w w'"
      using else_ by (simp add: pendingElsewhere_def loadDeferredPayoutRows_def d(1))
    ultimately show ?thesis using d(2) dual(1) by (simp add: defersPayouts_def)
  next
    fix sid w3
    assume start: "startPlayModeSession uid Game_draw s None ''draw_request'' 0 w2 = (sid, w3)"
      and settled: "executeSettledDraws env uid rq s sid w3 = Inr (res, w')"
    note S = start_stage [OF start s(1)]
    have R: "latest uid m w' = Some (dp_playMode res)" "ps_type (dp_playMode res) = m" "ownRecords uid (dp_records res)"
      "pendingElsewhere uid m w3 w'" "pendingOf (dp_playMode res) = heldAfter m
        (classifyDrawPlayModeOutcome (dp_records res)) ?reward (pendingOf s)"
      using settled_round [OF settled S(1,4)] s(2) by simp_all
    have "pendingElsewhere uid m w w'"
      using else_ R(4) latest_start(6) [OF start] by (simp add: pendingElsewhere_def loadDeferredPayoutRows_def)
    moreover have "heldIn uid m w' = (if m = Mode_deferred_double then ?reward
       else if ?won then heldIn uid m w + ?reward else 0)" if def: "defersPayouts m"
    proof -
      have "accounted uid m w'" using ok' def unfolding playOk_def by blast
      then have "heldIn uid m w' = fst (pendingOf (dp_playMode res))"
        by (simp add: accounted_def R(1) heldIn_def rowsShown_def [symmetric] prod_eq_iff) (simp add: rowsShown_def)
      also have "\<dots> = (if m = Mode_deferred_double then ?reward else if ?won then heldIn uid m w + ?reward else 0)"
      proof (cases "m = Mode_deferred_double")
        case True
        with before ownRecords_rewards(2) [OF R(3)] show ?thesis by (simp add: R(5) heldAfter_def)
      next
        case False
        with def have m: "m = Mode_snowball" by (simp add: defersPayouts_def)
        have "agrees uid s w2" using s(1) by (simp add: stageOk_def)
        with before m s(2) have "pendingOf s = rowsShown (pendingRows uid m w)" by (simp add: agrees_def defersPayouts_def)
        with m ownRecords_rewards(2) [OF R(3)] show ?thesis
          by (simp add: R(5) heldAfter_def heldIn_def rowsShown_def classifyDrawPlayModeOutcome_def)
      qed
      finally show ?thesis .
    qed
    ultimately show ?thesis using R(2,3) by simp
  qed
  have held: "heldIn v n w' = (if (v, n) \<noteq> (uid, m) then heldIn v n w
           else if m = Mode_deferred_double then ?reward
           else if ?won then heldIn uid m w + ?reward else 0)" if "defersPayouts n" for v n
    using result that by (cases "(v, n) = (uid, m)") (simp_all add: heldIn_def pendingElsewhere_def)
  have "heldBack v w' = heldBack v w" if "v \<noteq> uid" for v
    using result that by (simp add: heldBack_def pendingElsewhere_def)
  moreover have books: "luckOf v w' + heldBack v w' = luckOf v w + heldBack v w + (if v = uid then ?reward else 0)" for v
    using acc ownRecords_rewards(1) [of uid "dp_records res" v] result by (simp add: playAccount_def)
  ultimately have others: "luckOf v w' = luckOf v w" if "v \<noteq> uid" for v
    using that books [of v] by simp
  have "luckOf uid w' = luckOf uid w + ?reward + heldBack uid w - heldBack uid w'" using books [of uid] by simp
  moreover have mode: "ps_type (dp_playMode res) = m" using result by blast
  ultimately show ?thesis
    unfolding Let_def w_def [symmetric] mode using held others asked by (intro conjI allI impI) blast+
qed

text \<open>A first round under deferred double that wins 5.00: all of it is held back.\<close>

theorem play_modes_hold_back_witness:
  "\<exists>res w'. executeDrawPlayWithMode samplePlayEnv 1 (sampleRequest Mode_deferred_double) samplePlayWorld = (Inr res, w') \<and>
     heldIn 1 Mode_deferred_double w' = 500 \<and> heldIn 1 Mode_snowball w' = 0"
proof (rule sample_deferred)
  fix res w'
  assume run: "executeDrawPlayWithMode samplePlayEnv 1 (sampleRequest Mode_deferred_double) samplePlayWorld = (Inr res, w')"
    and m: "ps_type (dp_playMode res) = Mode_deferred_double" and r: "map rd_rewardAmount (dp_records res) = [500]"
  have "heldIn 1 Mode_snowball samplePlayWorld = 0"
    by (simp add: heldIn_def loadDeferredPayoutRows_def samplePlayWorld_def)
  moreover have run0: "executeDrawPlayWithMode samplePlayEnv 1 (sampleRequest Mode_deferred_double)
      (runPlays [] samplePlayWorld) = (Inr res, w')" unfolding sample_play_Nil by (rule run)
  ultimately have "heldIn 1 Mode_deferred_double w' = 500 \<and> heldIn 1 Mode_snowball w' = 0"
    using play_modes_hold_back [OF samplePlay_start run0] unfolding Let_def m r sample_play_Nil by (simp add: defersPayouts_def)
  with run show ?thesis by blast
qed

subsection \<open>Failed requests\<close>

text \<open>
  C12. Holding payouts back never fails a request.  When the player is known and not in debt, a
  request for draws under a mode fails only with an error of its own draws, run under a well
  formed snapshot of the mode asked for; and a failed request leaves wallets, prizes, pool and
  draws as they were, with nothing lost between the players' balances and what is held back,
  although payouts that were released before the draws stay released.
\<close>

theorem play_fails_only_with_its_draws:
  assumes "playStart w0" and "knownPlayer uid (pw_draw (runPlays cs w0))" and "0 \<le> luckOf uid (runPlays cs w0)"
    and "executeDrawPlayWithMode env uid rq (runPlays cs w0) = (Inl e, w')"
  shows "let w = runPlays cs w0 in
    (\<exists>s leg nonce dw. snapshotWf s \<and> (\<forall>m. rq_playMode rq = Some m \<longrightarrow> ps_type s = m) \<and>
       (ps_type s = Mode_dual_bet \<longleftrightarrow> leg \<noteq> 0) \<and> leg \<le> DUAL_BET_EXECUTION_COUNT \<and> drawsOk dw \<and> (leg \<noteq> 2 \<longrightarrow> sameGoods w dw) \<and>
       executeResolvedDrawPlayInTransaction (py_strict env) (py_draw env leg) (py_config env) (rq_count rq) nonce s uid dw = Inl e) \<and>
    sameGoods w (pw_draw w') \<and> (\<forall>v. luckOf v w' + heldBack v w' = luckOf v w + heldBack v w)"
proof -
  define w where "w = runPlays cs w0"
  have ok: "playOk w" using runPlays_accounts [OF playStart_ok [OF assms(1)]] by (simp add: w_def)
  note given = assms(2-4) [folded w_def]
  obtain prepared w1 where prep: "preparePlayModeExecution uid Game_draw (rq_playMode rq) w = (prepared, w1)"
    by (cases "preparePlayModeExecution uid Game_draw (rq_playMode rq) w")
  note P = prepare_stage [OF prep ok]
  have rows: "rowsOk w1" using P(1) by (simp add: stageOk_def)
  have known1: "knownPlayer uid (pw_draw w1)" using given(1) by (simp add: P(5))
  from refresh_succeeds [OF this rows] obtain s w2 where
    ref: "refreshSnapshotAfterPendingRelease uid Game_draw prepared w1 = Inr (s, w2)" by blast
  note R = refresh_stage [OF ref P(1)]
  note run = given(3) [unfolded executeDrawPlayWithMode_def prep, simplified, unfolded ref, simplified]
  have moved: "exchanges uid w1 w2" by (rule refresh_moves [OF ref rows])
  then have goods: "sameGoods w (pw_draw w2)" by (auto simp: exchanges_def P(5) dest: movedLuck_goods)
  have known2: "knownPlayer uid (pw_draw w2)" using exchanges_known [OF moved] known1 by simp
  have luck: "0 \<le> luckOf uid w2" using refresh_luck [OF ref P(1)] given(2) P(5) by (simp add: luckOf_def)
  have facts: "snapshotWf s" "drawsOk (pw_draw w2)" "\<And>m. rq_playMode rq = Some m \<Longrightarrow> ps_type s = m"
    using R(1,3) P(4) by (simp_all add: stageOk_def)
  have books: "\<forall>v. luckOf v w' + heldBack v w' = luckOf v w + heldBack v w"
    using play_request [OF given(3) ok] by (simp add: recordsOf_def playAccount_def)
  show ?thesis
  proof (cases "ps_type s = Mode_dual_bet")
    case True
    with run have dual: "executeDualBetDraws env uid rq s w2 = Inl e" and w': "w' = w2" by (auto split: sum.splits)
    from dual_fails_with_draw [OF dual R(1) True] obtain leg nonce dw where
      leg: "leg = 1 \<or> leg = 2" "leg = 1 \<longrightarrow> dw = pw_draw w2" "drawsOk dw"
      "executeResolvedDrawPlayInTransaction (py_strict env) (py_draw env leg) (py_config env) (rq_count rq) nonce s uid dw = Inl e"
      by blast
    have "sameGoods w dw" if "leg \<noteq> 2" using leg(1,2) that goods by auto
    moreover have "leg \<noteq> 0" "leg \<le> DUAL_BET_EXECUTION_COUNT" using leg(1) by (auto simp: DUAL_BET_EXECUTION_COUNT_def)
    ultimately show ?thesis unfolding Let_def w_def [symmetric]
      using leg(3,4) True facts goods books w' by blast
  next
    case False
    obtain sid w3 where start: "startPlayModeSession uid Game_draw s None ''draw_request'' 0 w2 = (sid, w3)"
      by (cases "startPlayModeSession uid Game_draw s None ''draw_request'' 0 w2")
    note S = start_stage [OF start R(1)]
    have same: "pw_draw w3 = pw_draw w2" by (rule latest_start(5) [OF start])
    from run False start have settled: "executeSettledDraws env uid rq s sid w3 = Inl e"
      and w': "w' = cancelPlayModeSession sid s w3" by (auto split: sum.splits)
    have "drawInPlay env 0 (rq_count rq) (rq_clientNonce rq) s uid w3 = Inl e"
      by (rule settled_fails_with_draw [OF settled S(1)]) (use known2 luck in \<open>simp_all add: same luckOf_def\<close>)
    then have "executeResolvedDrawPlayInTransaction (py_strict env) (py_draw env 0) (py_config env) (rq_count rq)
        (rq_clientNonce rq) s uid (pw_draw w2) = Inl e"
      by (auto simp: drawInPlay_def bind_res_def same split: sum.splits)
    moreover have "sameGoods w (pw_draw w')" using goods by (simp add: w' same)
    ultimately show ?thesis unfolding Let_def w_def [symmetric]
      using facts goods books False by (intro conjI exI [of _ s] exI [of _ 0]) auto
  qed
qed

text \<open>A request for no draws at all fails, and changes nothing.\<close>

theorem play_fails_only_with_its_draws_witness:
  "\<exists>w'. executeDrawPlayWithMode samplePlayEnv 1 ((sampleRequest Mode_standard)\<lparr>rq_count := 0\<rparr>) samplePlayWorld =
       (Inl (Conflict ''Invalid draw count.''), w') \<and> sameGoods samplePlayWorld (pw_draw w')"
proof -
  let ?s = "createDefaultPlayModeSnapshot Mode_standard" and ?rq = "(sampleRequest Mode_standard)\<lparr>rq_count := 0\<rparr>"
  obtain w1 where prep: "preparePlayModeExecution 1 Game_draw (Some Mode_standard) samplePlayWorld = (?s, w1)"
    and ref: "refreshSnapshotAfterPendingRelease 1 Game_draw ?s w1 = Inr (?s, w1)" by (rule sample_prepare)
  obtain sid w2 where start: "startPlayModeSession 1 Game_draw ?s None ''draw_request'' 0 w1 = (sid, w2)"
    by (cases "startPlayModeSession 1 Game_draw ?s None ''draw_request'' 0 w1")
  have "executeSettledDraws samplePlayEnv 1 ?rq ?s sid w2 = Inl (Conflict ''Invalid draw count.'')"
    by (simp add: executeSettledDraws_def drawInPlay_def executeResolvedDrawPlayInTransaction_def)
  then have "executeDrawPlayWithMode samplePlayEnv 1 ?rq samplePlayWorld =
      (Inl (Conflict ''Invalid draw count.''), cancelPlayModeSession sid ?s w2)"
    unfolding executeDrawPlayWithMode_def using prep ref start by (simp add: sampleRequest_def)
  moreover note run = this
  have "knownPlayer 1 (pw_draw samplePlayWorld)" by (simp add: knownPlayer_def samplePlayWorld_def sampleDrawWorld_def)
  moreover have "0 \<le> luckOf 1 samplePlayWorld" by (simp add: sample_luck)
  ultimately have "sameGoods samplePlayWorld (pw_draw (cancelPlayModeSession sid ?s w2))"
    using play_fails_only_with_its_draws [OF samplePlay_start, of 1 "[]" samplePlayEnv ?rq, unfolded sample_play_Nil Let_def]
    by blast
  with run show ?thesis by blast
qed

subsection \<open>A dual bet\<close>

text \<open>
  C23. After a dual bet the player is told one snapshot and plays on with another.  The answer and
  the stored preference carry the streak of both legs together, but the next round loads the
  latest session of the mode, which is the second leg's: its streak grows only if that leg won,
  and is zero when the first leg alone did.
\<close>

theorem dual_bet_streak_follows_second_leg:
  assumes "playStart w0" and "executeDrawPlayWithMode env uid rq (runPlays cs w0) = (Inr res, w')"
    and "ps_type (dp_playMode res) = Mode_dual_bet"
  shows "let w = runPlays cs w0; before = ps_streak (loadPlayModeSnapshotForMode uid Game_draw Mode_dual_bet w);
      won = (\<lambda>rs. \<exists>r \<in> set rs. rd_status r = D_won)
    in \<exists>r1 r2. dp_records res = r1 @ r2 \<and> length r1 = nat (rq_count rq) \<and> length r2 = nat (rq_count rq) \<and>
       pw_modes w' (uid, Game_draw) = Some (Mode_dual_bet, dp_playMode res) \<and>
       ps_streak (dp_playMode res) = (if won (r1 @ r2) then before + 1 else 0) \<and>
       ps_streak (loadPlayModeSnapshotForMode uid Game_draw Mode_dual_bet w') = (if won r2 then before + 1 else 0)"
proof -
  define w where "w = runPlays cs w0"
  have ok: "playOk w" using runPlays_accounts [OF playStart_ok [OF assms(1)]] by (simp add: w_def)
  note run = assms(2) [folded w_def]
  have ok': "playOk w'" using play_request [OF run ok] by blast
  obtain m s w2 where s: "stageOk uid s w2" "ps_type s = m"
    and streak: "ps_streak s = (case latest uid m w of None \<Rightarrow> 0 | Some t \<Rightarrow> ps_streak t)"
    and round: "m = Mode_dual_bet \<and> executeDualBetDraws env uid rq s w2 = Inr (res, w') \<or>
     m \<noteq> Mode_dual_bet \<and> (\<exists>sid w3. startPlayModeSession uid Game_draw s None ''draw_request'' 0 w2 = (sid, w3) \<and>
       executeSettledDraws env uid rq s sid w3 = Inr (res, w'))"
    by (rule play_parts [OF run ok], rule that; assumption)
  have m: "m = Mode_dual_bet" and dual: "executeDualBetDraws env uid rq s w2 = Inr (res, w')"
  proof -
    have "m = Mode_dual_bet \<and> executeDualBetDraws env uid rq s w2 = Inr (res, w')"
      using round
    proof (elim disjE conjE exE)
      fix sid w3
      assume "m \<noteq> Mode_dual_bet" and start: "startPlayModeSession uid Game_draw s None ''draw_request'' 0 w2 = (sid, w3)"
        and settled: "executeSettledDraws env uid rq s sid w3 = Inr (res, w')"
      note S = start_stage [OF start s(1)]
      from settled_round [OF settled S(1,4)] s(2) assms(3) \<open>m \<noteq> Mode_dual_bet\<close> show ?thesis by simp
    qed simp
    then show "m = Mode_dual_bet" "executeDualBetDraws env uid rq s w2 = Inr (res, w')" by simp_all
  qed
  note type = s(2) [unfolded m]
  from dual_round [OF dual s(1) type] obtain r1 r2 where
    legs: "dp_records res = r1 @ r2" "length r1 = nat (rq_count rq)" "length r2 = nat (rq_count rq)"
    and pm: "dp_playMode res = resolveSettledPlayMode s (classifyDrawPlayModeOutcome (r1 @ r2))"
    and stored: "latest uid Mode_dual_bet w' = Some (resolveSettledPlayMode s (classifyDrawPlayModeOutcome r2))" by blast
  have before: "ps_streak s = ps_streak (loadPlayModeSnapshotForMode uid Game_draw Mode_dual_bet w)"
    using streak loaded_stage(3) [OF ok, of uid Mode_dual_bet] by (simp add: m)
  have next_: "ps_streak (resolveSettledPlayMode s (classifyDrawPlayModeOutcome rs)) =
      (if \<exists>r \<in> set rs. rd_status r = D_won then ps_streak s + 1 else 0)" for rs
    by (simp add: resolveSettledPlayMode_def type classifyDrawPlayModeOutcome_def)
  from dual have "pw_modes w' (uid, Game_draw) = Some (ps_type (dp_playMode res), dp_playMode res)"
    by (auto simp: executeDualBetDraws_def split_def bind_res_Inr_iff Let_def saveUserPlayModeState_def)
  with assms(3) legs loaded_stage(3) [OF ok', of uid Mode_dual_bet] show ?thesis
    unfolding Let_def w_def [symmetric] before [symmetric]
    by (intro exI [of _ r1] exI [of _ r2]) (simp add: stored pm next_)
qed

text \<open>The first leg wins, the second does not: a streak of one is shown, and none is played on with.\<close>

theorem dual_bet_streak_follows_second_leg_witness:
  "\<exists>res w'. executeDrawPlayWithMode samplePlayEnv 1 (sampleRequest Mode_dual_bet) samplePlayWorld = (Inr res, w') \<and>
     ps_streak (dp_playMode res) = 1 \<and>
     ps_streak (loadPlayModeSnapshotForMode 1 Game_draw Mode_dual_bet w') = 0"
proof (rule sample_dual)
  fix res w'
  assume run: "executeDrawPlayWithMode samplePlayEnv 1 (sampleRequest Mode_dual_bet) samplePlayWorld = (Inr res, w')"
    and m: "ps_type (dp_playMode res) = Mode_dual_bet"
    and legs: "map (\<lambda>r. rd_status r = D_won) (dp_records res) = [True, False]"
  have before: "ps_streak (loadPlayModeSnapshotForMode 1 Game_draw Mode_dual_bet samplePlayWorld) = 0"
    by (simp add: loadPlayModeSnapshotForMode_def loadLatestSnapshotForMode_def samplePlayWorld_def sample_snapshot
        createDefaultPlayModeSnapshot_def)
  have run0: "executeDrawPlayWithMode samplePlayEnv 1 (sampleRequest Mode_dual_bet) (runPlays [] samplePlayWorld) = (Inr res, w')"
    unfolding sample_play_Nil by (rule run)
  from dual_bet_streak_follows_second_leg [OF samplePlay_start run0 m, unfolded sample_play_Nil Let_def before]
  obtain r1 r2 where rs: "dp_records res = r1 @ r2" "length r1 = 1" "length r2 = 1"
    and streaks: "ps_streak (dp_playMode res) = (if \<exists>r \<in> set (r1 @ r2). rd_status r = D_won then 0 + 1 else 0)"
      "ps_streak (loadPlayModeSnapshotForMode 1 Game_draw Mode_dual_bet w') = (if \<exists>r \<in> set r2. rd_status r = D_won then 0 + 1 else 0)"
    by (auto simp: sampleRequest_def)
  from rs obtain a b where "r1 = [a]" "r2 = [b]" by (auto simp: length_Suc_conv)
  with legs rs(1) streaks have "ps_streak (dp_playMode res) = 1 \<and>
      ps_streak (loadPlayModeSnapshotForMode 1 Game_draw Mode_dual_bet w') = 0" by simp
  with run show ?thesis by blast
qed

end
