(* ===== verification/Spec2Isabelle.thy ===== *)
theory Spec2Isabelle
  imports Holdem_Limits Holdem_Views Blackjack_Views Payment_Safety Payment_Controls Asset_Safety Market_Views
    Draw_Chances Draw_Results Play_Safety
begin

text \<open>
  A verification library for the game and money core of the backend, \<open>src/apps/backend/src\<close>.

  \<^bold>\<open>The program.\<close>  The repository is a platform for games with money: a Fastify backend over
  PostgreSQL, with an admin console and web, mobile and partner clients.  Users hold a wallet
  with four balances (withdrawable, bonus, locked, wagered) whose every change is a line of a
  ledger; the house holds a prize pool with a ledger of its own.  Money enters by deposits and
  leaves by withdrawals, both reviewed by administrators and handed to payment providers.  The
  games (hold'em tables, blackjack, and others) take stakes from the wallet and pay into it.
  What is modelled here is the part that decides: the rules of hold'em and blackjack, the draw
  of prizes and the seeds that make it checkable, prediction markets, the movement of stakes and
  payouts, the life of deposits and withdrawals, the wallet ledger and its check.

  \<^bold>\<open>Conventions.\<close>  Amounts are whole cents (\<open>cents\<close>, an \<open>int\<close>), as the two-digit decimal
  columns are; where the code computes with fractions before it rounds, the model does so in
  \<open>rat\<close> and rounds with \<open>toCents\<close>.  A thrown error is the left side of \<open>'a res\<close>, its class and
  message kept, its code left out.  A database is a record of tables; an operation takes it and
  returns it changed, and an operation that throws changes nothing, as its transaction is
  rolled back.  Hashes, random seeds, clocks, new ids, configuration, KYC and AML answers and
  routing decisions are parameters.  JSON metadata is a record of the fields the modelled code
  reads and writes.

  \<^bold>\<open>Prelude.\<close>  \<open>Prelude\<close> holds the result type, JavaScript's list, number and text functions the
  code uses, and two interfaces as locales: \<open>keyed_store\<close> (a collection whose elements are
  found by a key and changed in place), interpreted on the seats of a table, and
  \<open>comparator\<close> (a comparison function, and the scans that keep the best elements), interpreted
  on hand strengths.  \<open>Fair_Random\<close> is the shared draw of random numbers from a hash.

  \<^bold>\<open>Hold'em\<close> (\<open>modules/holdem/evaluator.ts\<close>, \<open>model.ts\<close>, \<open>engine.ts\<close>).  \<open>Holdem_Evaluator\<close> is
  the evaluator; \<open>Holdem_Model\<close> and \<open>Holdem_Seats\<close> the table, its seats and the order of
  turns; \<open>Holdem_Pots\<close> the main and side pots; \<open>Holdem_Settlement\<close> the showdown, the fold
  and the dealing of streets; \<open>Holdem_Actions\<close> the actions a seat is offered and takes;
  \<open>Holdem_Start\<close> the start of a hand; \<open>Holdem_Rake\<close> the rake.  On them rest the invariant of
  a hand (\<open>Holdem_Hand\<close>), its preservation by actions (\<open>Holdem_Play\<close>) and by the deal
  (\<open>Holdem_Deal\<close>), what a settlement awards (\<open>Holdem_Awards\<close>), where the cards are
  (\<open>Holdem_Cards\<close>), runs of a table (\<open>Holdem_Table\<close>) and the limits of bets, turns and rake
  (\<open>Holdem_Limits\<close>).  \<open>Holdem_Views\<close> is the serializers: what a viewer may see.  The loop
  that deals out the streets recurses on the number of streets left, at most four, so it needs
  no fuel; the shuffle recurses on the deck.

  \<^bold>\<open>Blackjack\<close> (\<open>modules/blackjack\<close>).  \<open>Blackjack_Game\<close> is scores, hands and payouts and
  \<open>Blackjack_Act\<close> the actions of a turn; \<open>Money\<close> is stakes, payouts and the prize pool
  (\<open>modules/shared/transactional-game-runner.ts\<close>, \<open>modules/house/service.ts\<close>).
  \<open>Blackjack_Rules\<close> and \<open>Blackjack_Turns\<close> show what a single game does, \<open>Blackjack_World\<close>,
  \<open>Blackjack_Play\<close>, \<open>Blackjack_Start\<close> and \<open>Blackjack_Run\<close> what holds of the database of all
  games in every run of starts, actions and the time-out worker, and \<open>Blackjack_Safety\<close> and
  \<open>Blackjack_Views\<close> state the results.  The dealer draws by a recursion on the rest of the deck.

  \<^bold>\<open>Payments\<close> (\<open>modules/payment\<close>, \<open>modules/withdraw\<close>, \<open>modules/top-up\<close>, \<open>modules/wallet\<close>).
  \<open>Payment_States\<close> is the statuses and the two copies of the transition graphs;
  \<open>Payment_Review\<close> the review gate and the trails in the metadata of an order;
  \<open>Wallet_Ledger\<close> the meaning of ledger entry types, the wallet check and the ledger lines of
  orders; \<open>Payment_World\<close> the tables; \<open>Withdrawals\<close> and \<open>Deposits\<close> the
  operations.  \<open>Payment_Money\<close> is the abstract machine these services implement: wallets,
  orders, business events and the ledger, with one move per kind of change;
  \<open>Payment_Invariant\<close> proves its invariant, \<open>Payment_Refine\<close> shows what each operation does to
  the abstract state, and \<open>Payment_Run\<close> that every run of the services is a run of the
  machine.  \<open>Payment_Approvals\<close> follows rows and reviews, \<open>Payment_History\<close> the statuses of an
  order (the locale \<open>status_lifecycle\<close>, interpreted on both graphs), \<open>Payment_Outcomes\<close> the
  answers of single operations; \<open>Payment_History\<close> also evaluates two runs once, for the witnesses.
  \<open>Payment_Safety\<close> and \<open>Payment_Controls\<close> state the results.  Other components take part in a
  run by \<open>foreignMove\<close>: they may change a wallet as the lines they write say, and leave the
  locks of open withdrawals alone.  Reversing a paid withdrawal is not among the moves of a
  run, because it breaks the invariant; \<open>reversing_paid_drains_other_locks\<close> shows how.

  \<^bold>\<open>Asset accounts\<close> (\<open>modules/economy/service.ts\<close>).  \<open>Asset_Ledger\<close> is the balances of a user in
  each asset, available and locked, and the operations that change one account, with
  gifts and the energy they cost.  \<open>Asset_Accounts\<close> proves what a change of one account
  keeps, once for every computation of \<open>applyLedgerMutation\<close>: the locale \<open>account_posting\<close> holds
  what such a computation promises, and is interpreted on those of crediting, debiting, locking
  and unlocking.  \<open>Asset_Runs\<close> is the requests of a client and runs of them, \<open>Asset_Safety\<close> the
  results.

  \<^bold>\<open>Prediction markets\<close> (\<open>modules/prediction-market\<close>).  \<open>Market_Settlement\<close> is the split of a
  pool, on the rounding of \<open>decimal.js\<close> (\<open>Decimal_Rounding\<close>); its loop over the cents that are
  left is a partial function, shown to return.  \<open>Prediction_Market\<close> and \<open>Market_Lifecycle\<close> are the
  operations, with the oracle worker.  \<open>Market_Accounts\<close> closes the accounts of all users of a
  market, in the locale \<open>account_closing\<close>, interpreted on paying out and on refunding.
  \<open>Market_Invariant\<close>, \<open>Market_Closing\<close> and \<open>Market_Run\<close> prove an invariant of all runs,
  \<open>Market_Money\<close> follows the money, and \<open>Market_Safety\<close> and \<open>Market_Views\<close> state the results.  In
  a run new rows get new ids, requests to create a market satisfy their schema, and other
  users of the asset accounts leave the locks of open positions alone.  What an oracle answers,
  and the KYC check, are parameters.

  \<^bold>\<open>Draws\<close> (\<open>modules/draw\<close>, \<open>modules/fairness\<close>, \<open>modules/play-mode/service.ts\<close>).  \<open>Js_Number\<close> is
  the part of JavaScript's numbers that decides a draw: rounding to a double, \<open>Math.round\<close>, sums
  that lose precision, and \<open>decimal.js\<close> on numbers.  \<open>Fairness_Seeds\<close> is the seed of an epoch, its
  commitment, reveal and audit; \<open>Fairness_Runs\<close> its invariant over all runs and \<open>Fairness_Safety\<close>
  the results.  \<open>Draw_Pick\<close> is \<open>helpers.ts\<close>, \<open>Draw_Selection\<close> the weights and the miss,
  \<open>Draw_World\<close> the tables and the payout policy, \<open>Draw_Execute\<close> one draw and a batch, \<open>Play_Mode\<close>
  the snapshot a batch runs under.  \<open>Draw_Chances\<close> counts the digests that pick an item.
  \<open>Draw_Steps\<close> collects what a draw that went through has done and when one is refused,
  \<open>Draw_Safety\<close> states what a single draw promises, \<open>Draw_Runs\<close> the books of a run and
  \<open>Draw_Results\<close> what holds of all runs; a small world for the witnesses opens \<open>Draw_Safety\<close>.  The
  loop over the pages of audits recurses on the audits that are left, with its termination
  proved.  Nonces, seeds and hashes are parameters, and so is the cached list of prizes, which
  need not agree with the table.

  \<^bold>\<open>Play modes\<close> (\<open>modules/play-mode\<close>).  \<open>Deferred_Payouts\<close> is the payouts a mode holds back,
  with the rows that record them and the sessions and preferences of players
  (\<open>deferred-payouts.ts\<close>, \<open>service.ts\<close>), and the request for draws under a mode
  (\<open>wrappers.ts\<close>): several transactions one after another, of which the earlier stay committed
  when a later one fails, so the request returns its answer and the state left in either case.
  \<open>Deferred_Effects\<close> shows what a deferral moves in each game, that releasing undoes it, and
  when the check of the wallet still holds; \<open>Play_Runs\<close> what it does to the rows that are pending,
  \<open>Play_Requests\<close> the invariant between the transactions of a request, \<open>Play_Books\<close> whole
  requests and runs, and \<open>Play_Safety\<close> the results.  A process that dies between two
  transactions of a request is not among the steps of a run.

  \<^bold>\<open>Not modelled.\<close>  The quick-eight game, the wrappers that start blackjack and hold'em under a
  play mode, the catalogue of prizes, provider adapters, webhooks and reconciliation, the SaaS prize
  engine, accounts, risk, KYC, community and operations: they are listed in the manifest with the reason.
  Routes, realtime delivery, workers' schedules, notifications, logging and metrics are glue
  around the modelled functions.  Row locks are taken as given: operations on one database run
  one after another.
\<close>

end
